(* ===== verification/Prelude.thy ===== *)
theory Prelude
  imports Main "HOL-Library.Word" "HOL-Library.Monad_Syntax"
begin

text \<open>
  Shared vocabulary of the development.

  C integers of a fixed width are words (\<open>u8\<close>, \<open>u16\<close>, \<open>u32\<close>); a C \<open>int\<close> whose value is only used
  in the non-overflowing range is an \<open>int\<close>. A link-layer address is the list of its bytes. A pointer
  into a statically allocated array is the index of the element, a pointer that may be \<open>NULL\<close> is an
  option of it. Code whose behaviour C leaves undefined (a null dereference, an access outside an
  array) has the value \<^const>\<open>None\<close> in the option monad; \<open>guard_opt\<close>, \<open>nth_opt\<close>, \<open>upd_opt\<close>, \<open>slice_opt\<close> and
  \<open>put_opt\<close> are the checked accesses, so a function returning \<open>Some\<close> has made no such access.
\<close>

unbundle bit_operations_syntax

type_synonym u8 = "8 word"
type_synonym u16 = "16 word"
type_synonym u32 = "32 word"
type_synonym linkaddr = "u8 list"

named_theorems wf_intros \<open>preservation of the well-formedness invariants\<close>
named_theorems byte_simps \<open>serialisation of words into bytes\<close>

subsection \<open>Checked accesses\<close>

definition guard_opt :: "bool \<Rightarrow> unit option" where
  "guard_opt b = (if b then Some () else None)"

definition nth_opt :: "'a list \<Rightarrow> nat \<Rightarrow> 'a option" where
  "nth_opt xs i = (if i < length xs then Some (xs ! i) else None)"

definition upd_opt :: "'a list \<Rightarrow> nat \<Rightarrow> 'a \<Rightarrow> 'a list option" where
  "upd_opt xs i x = (if i < length xs then Some (xs[i := x]) else None)"

definition slice_opt :: "'a list \<Rightarrow> nat \<Rightarrow> nat \<Rightarrow> 'a list option" where
  "slice_opt xs off n = (if off + n \<le> length xs then Some (take n (drop off xs)) else None)"

definition put_at :: "'a list \<Rightarrow> nat \<Rightarrow> 'a list \<Rightarrow> 'a list" where
  "put_at xs off ys = take off xs @ ys @ drop (off + length ys) xs"

definition put_opt :: "'a list \<Rightarrow> nat \<Rightarrow> 'a list \<Rightarrow> 'a list option" where
  "put_opt xs off ys = (if off + length ys \<le> length xs then Some (put_at xs off ys) else None)"

lemma guard_opt_simps [simp]:
  "guard_opt True = Some ()" "guard_opt False = None"
  by (simp_all add: guard_opt_def)

lemma guard_opt_eq_Some [simp]: "guard_opt b = Some u \<longleftrightarrow> b"
  by (simp add: guard_opt_def)

lemma guard_opt_eq_None [simp]: "guard_opt b = None \<longleftrightarrow> \<not> b"
  by (simp add: guard_opt_def)

lemma nth_opt_eq_Some [simp]: "nth_opt xs i = Some x \<longleftrightarrow> i < length xs \<and> xs ! i = x"
  by (simp add: nth_opt_def)

lemma nth_opt_eq_None [simp]: "nth_opt xs i = None \<longleftrightarrow> length xs \<le> i"
  by (simp add: nth_opt_def not_less)

lemma upd_opt_eq_Some [simp]: "upd_opt xs i x = Some ys \<longleftrightarrow> i < length xs \<and> ys = xs[i := x]"
  by (auto simp: upd_opt_def)

lemma upd_opt_eq_None [simp]: "upd_opt xs i x = None \<longleftrightarrow> length xs \<le> i"
  by (simp add: upd_opt_def not_less)

lemma slice_opt_eq_Some [simp]:
  "slice_opt xs off n = Some ys \<longleftrightarrow> off + n \<le> length xs \<and> ys = take n (drop off xs)"
  by (auto simp: slice_opt_def)

lemma slice_opt_eq_None [simp]: "slice_opt xs off n = None \<longleftrightarrow> length xs < off + n"
  by (auto simp: slice_opt_def)

lemma put_opt_eq_Some [simp]:
  "put_opt xs off ys = Some zs \<longleftrightarrow> off + length ys \<le> length xs \<and> zs = put_at xs off ys"
  by (auto simp: put_opt_def)

lemma put_opt_eq_None [simp]: "put_opt xs off ys = None \<longleftrightarrow> length xs < off + length ys"
  by (auto simp: put_opt_def)

lemma length_put_at [simp]: "off + length ys \<le> length xs \<Longrightarrow> length (put_at xs off ys) = length xs"
  by (simp add: put_at_def)

lemma nth_put_at:
  "off + length ys \<le> length xs \<Longrightarrow> i < length xs \<Longrightarrow>
   put_at xs off ys ! i = (if off \<le> i \<and> i < off + length ys then ys ! (i - off) else xs ! i)"
  by (auto simp: put_at_def nth_append)

lemma slice_put_at [simp]:
  "off + length ys \<le> length xs \<Longrightarrow> take (length ys) (drop off (put_at xs off ys)) = ys"
  by (simp add: put_at_def)

lemma take_put_at [simp]:
  "off + length ys \<le> length xs \<Longrightarrow> take off (put_at xs off ys) = take off xs"
  by (simp add: put_at_def)

lemma bind_eq_Some_prod:
  "(Option.bind m (\<lambda>(a, b). f a b) = Some r) \<longleftrightarrow> (\<exists>a b. m = Some (a, b) \<and> f a b = Some r)"
  by (cases m) auto

lemma mod_le_divisor_Suc: "m mod Suc n \<le> n"
  by (meson less_Suc_eq_le mod_less_divisor zero_less_Suc)

subsection \<open>Words and bytes\<close>

definition lo8 :: "u16 \<Rightarrow> u8" where
  "lo8 w = ucast (w AND 0xFF)"

definition hi8 :: "u16 \<Rightarrow> u8" where
  "hi8 w = ucast ((drop_bit 8 w) AND 0xFF)"

definition mk16 :: "u8 \<Rightarrow> u8 \<Rightarrow> u16" where
  "mk16 lo hi = ucast lo OR push_bit 8 (ucast hi)"

lemma ff_mask16: "(0xFF :: u16) = mask 8"
  by (simp add: mask_eq_exp_minus_1)

lemma lo8_ucast [byte_simps]: "lo8 w = ucast w"
  unfolding lo8_def ff_mask16 by (rule bit_word_eqI) (simp add: bit_simps)

lemma hi8_ucast [byte_simps]: "hi8 w = ucast (drop_bit 8 w)"
  unfolding hi8_def ff_mask16 by (rule bit_word_eqI) (simp add: bit_simps)

lemma mk16_lo8_hi8 [simp]: "mk16 (lo8 w) (hi8 w) = w"
  unfolding mk16_def lo8_ucast hi8_ucast
  by (rule bit_word_eqI) (auto simp: bit_simps)

lemma lo8_mk16 [simp]: "lo8 (mk16 lo hi) = lo"
  unfolding mk16_def lo8_ucast by (rule bit_word_eqI) (auto simp: bit_simps)

lemma hi8_mk16 [simp]: "hi8 (mk16 lo hi) = hi"
  unfolding mk16_def hi8_ucast by (rule bit_word_eqI) (auto simp: bit_simps dest: bit_imp_le_length)

lemma unat_lt_256 [simp]: "unat (w :: u8) < 256"
  using unsigned_less [of w] by simp

lemma unat_lt_65536 [simp]: "unat (w :: u16) < 65536"
  using unsigned_less [of w] by simp

lemma unat_of_nat8 [simp]: "n < 256 \<Longrightarrow> unat (word_of_nat n :: u8) = n"
  by (simp add: unsigned_of_nat take_bit_nat_eq_self)

lemma unat_of_nat16 [simp]: "n < 65536 \<Longrightarrow> unat (word_of_nat n :: u16) = n"
  by (simp add: unsigned_of_nat take_bit_nat_eq_self)

end
