(* ===== verification/MasterConf.thy ===== *)
theory MasterConf
  imports Prelude
begin

text \<open>
  The configuration the development models: \<open>examples/master/master-unicast\<close> built for Cooja, with
  \<open>os/net/master-routing/master-project-conf.h\<close>, \<open>master-conf.h\<close> and the defaults of the network stack.
  Central scheduling, flow-based queues, time-to-live based retransmissions and neighbour discovery are
  compiled in; link-layer security, 6top, Orchestra and the link selector are not.
\<close>

definition PACKETBUF_SIZE :: nat where [simp]: "PACKETBUF_SIZE = 96"
definition QUEUEBUF_NUM :: nat where [simp]: "QUEUEBUF_NUM = 8"
definition LINKADDR_SIZE :: nat where [simp]: "LINKADDR_SIZE = 8"
definition NODE_ID_INDEX :: nat where [simp]: "NODE_ID_INDEX = 0"
definition TSCH_QUEUE_NUM_PER_NEIGHBOR :: u8 where [simp]: "TSCH_QUEUE_NUM_PER_NEIGHBOR = 8"
definition NBR_TABLE_CONF_MAX_NEIGHBORS :: nat where [simp]: "NBR_TABLE_CONF_MAX_NEIGHBORS = 16"
definition MASTER_NUM_FLOWS :: nat where [simp]: "MASTER_NUM_FLOWS = 8"
definition TSCH_QUEUE_MAX_NEIGHBOR_QUEUES :: nat where
  [simp]: "TSCH_QUEUE_MAX_NEIGHBOR_QUEUES = (NBR_TABLE_CONF_MAX_NEIGHBORS + MASTER_NUM_FLOWS) + 2"
definition TSCH_MAC_MIN_BE :: u8 where [simp]: "TSCH_MAC_MIN_BE = 1"
definition TSCH_MAC_MAX_BE :: u8 where [simp]: "TSCH_MAC_MAX_BE = 5"
definition TSCH_MAC_MAX_FRAME_RETRIES :: u8 where [simp]: "TSCH_MAC_MAX_FRAME_RETRIES = 0"
definition TSCH_SCHEDULE_MAX_LINKS :: nat where [simp]: "TSCH_SCHEDULE_MAX_LINKS = 110"
definition TSCH_SCHEDULE_MAX_SLOTFRAMES :: nat where [simp]: "TSCH_SCHEDULE_MAX_SLOTFRAMES = MASTER_NUM_FLOWS + 1"
definition NUM_COOJA_NODES :: nat where [simp]: "NUM_COOJA_NODES = 20"
definition MASTER_TSCH_COORDINATOR :: u8 where [simp]: "MASTER_TSCH_COORDINATOR = 0x08"
definition MASTER_TSCH_DISTRIBUTOR :: u8 where [simp]: "MASTER_TSCH_DISTRIBUTOR = 0x07"
definition MASTER_MSG_LENGTH :: nat where [simp]: "MASTER_MSG_LENGTH = 59"
definition MASTER_EBSF_PERIOD :: u16 where [simp]: "MASTER_EBSF_PERIOD = 31"
definition IEEE802154_PANID :: u16 where [simp]: "IEEE802154_PANID = 0x4bb4"

text \<open>The addresses \<open>linkaddr_null\<close>, \<open>tsch_broadcast_address\<close> and \<open>tsch_eb_address\<close>.\<close>

definition linkaddr_null :: linkaddr where
  "linkaddr_null = replicate LINKADDR_SIZE 0"
definition tsch_broadcast_address :: linkaddr where
  "tsch_broadcast_address = replicate LINKADDR_SIZE 0xff"
definition tsch_eb_address :: linkaddr where
  "tsch_eb_address = replicate LINKADDR_SIZE 0"

text \<open>\<open>memcmp\<close> of the first \<open>LINKADDR_SIZE\<close> bytes; \<open>linkaddr_copy\<close> of a full address is its value.\<close>

definition linkaddr_cmp :: "linkaddr \<Rightarrow> linkaddr \<Rightarrow> bool" where
  "linkaddr_cmp addr1 addr2 \<longleftrightarrow> take LINKADDR_SIZE addr1 = take LINKADDR_SIZE addr2"

definition addr_wf :: "linkaddr \<Rightarrow> bool" where
  "addr_wf a \<longleftrightarrow> length a = LINKADDR_SIZE"

lemma linkaddr_cmp_eq: "addr_wf a \<Longrightarrow> addr_wf b \<Longrightarrow> linkaddr_cmp a b \<longleftrightarrow> a = b"
  by (simp add: linkaddr_cmp_def addr_wf_def)

lemma linkaddr_cmp_refl [simp]: "linkaddr_cmp a a"
  by (simp add: linkaddr_cmp_def)

lemma addr_wf_consts [simp]:
  "addr_wf linkaddr_null" "addr_wf tsch_broadcast_address" "addr_wf tsch_eb_address"
  by (simp_all add: addr_wf_def linkaddr_null_def tsch_broadcast_address_def tsch_eb_address_def)

text \<open>MAC return values and link options (\<open>net/mac/mac.h\<close>, \<open>net/mac/tsch/tsch-schedule.h\<close>).\<close>

definition MAC_TX_OK :: u8 where [simp]: "MAC_TX_OK = 0"
definition MAC_TX_COLLISION :: u8 where [simp]: "MAC_TX_COLLISION = 1"
definition MAC_TX_NOACK :: u8 where [simp]: "MAC_TX_NOACK = 2"
definition MAC_TX_DEFERRED :: u8 where [simp]: "MAC_TX_DEFERRED = 3"
definition MAC_TX_ERR :: u8 where [simp]: "MAC_TX_ERR = 4"
definition MAC_TX_ERR_FATAL :: u8 where [simp]: "MAC_TX_ERR_FATAL = 5"
definition LINK_OPTION_TX :: u8 where [simp]: "LINK_OPTION_TX = 1"
definition LINK_OPTION_RX :: u8 where [simp]: "LINK_OPTION_RX = 2"
definition LINK_OPTION_SHARED :: u8 where [simp]: "LINK_OPTION_SHARED = 4"
definition LINK_OPTION_TIME_KEEPING :: u8 where [simp]: "LINK_OPTION_TIME_KEEPING = 8"

end
