(* ===== verification/PacketBuf.thy ===== *)
theory PacketBuf
  imports MasterConf
begin

text \<open>
  The packet buffer (\<open>os/net/packetbuf.c\<close>): one global buffer with a header and a data part, and the
  attributes and addresses that travel with the packet. The globals of the C file are the record
  \<open>pbuf_state\<close>; later components extend it, so that its operations apply to their state unchanged.
\<close>

datatype packetbuf_attr_type =
    PACKETBUF_ATTR_NONE
  | PACKETBUF_ATTR_CHANNEL
  | PACKETBUF_ATTR_NETWORK_ID
  | PACKETBUF_ATTR_LINK_QUALITY
  | PACKETBUF_ATTR_RSSI
  | PACKETBUF_ATTR_TIMESTAMP
  | PACKETBUF_ATTR_MAX_MAC_TRANSMISSIONS
  | PACKETBUF_ATTR_MAC_SEQNO
  | PACKETBUF_ATTR_MAC_ACK
  | PACKETBUF_ATTR_MAC_METADATA
  | PACKETBUF_ATTR_MAC_NO_SRC_ADDR
  | PACKETBUF_ATTR_MAC_NO_DEST_ADDR
  | PACKETBUF_ATTR_TRANSMISSION_TTL
  | PACKETBUF_ATTR_EARLIEST_TX_SLOT
  | PACKETBUF_ATTR_RECEIVED_ASN
  | PACKETBUF_ATTR_FLOW_NUMBER
  | PACKETBUF_ATTR_SEND_NBR
  | PACKETBUF_ATTR_PACKET_NUMBER
  | PACKETBUF_ATTR_PACKET_COMMAND
  | PACKETBUF_ATTR_PACKET_HDR_SIZE
  | PACKETBUF_ATTR_FRAME_TYPE

datatype packetbuf_addr_type = PACKETBUF_ADDR_SENDER | PACKETBUF_ADDR_RECEIVER

type_synonym attrs = "packetbuf_attr_type \<Rightarrow> u16"
type_synonym addrs = "packetbuf_addr_type \<Rightarrow> linkaddr"

record pbuf_state =
  packetbuf :: "u8 list"
  buflen :: u16
  bufptr :: u16
  hdrlen :: u8
  packetbuf_attrs :: attrs
  packetbuf_addrs :: addrs

definition packetbuf_attr_clear :: "'a pbuf_state_scheme \<Rightarrow> 'a pbuf_state_scheme" where
  "packetbuf_attr_clear s = s\<lparr> packetbuf_attrs := \<lambda>_. 0, packetbuf_addrs := \<lambda>_. linkaddr_null \<rparr>"

definition packetbuf_clear :: "'a pbuf_state_scheme \<Rightarrow> 'a pbuf_state_scheme" where
  "packetbuf_clear s = packetbuf_attr_clear (s\<lparr> buflen := 0, bufptr := 0, hdrlen := 0 \<rparr>)"

definition packetbuf_hdrlen :: "'a pbuf_state_scheme \<Rightarrow> u8" where
  "packetbuf_hdrlen s = ucast (bufptr s + ucast (hdrlen s))"

definition packetbuf_datalen :: "'a pbuf_state_scheme \<Rightarrow> u16" where
  "packetbuf_datalen s = buflen s"

definition packetbuf_totlen :: "'a pbuf_state_scheme \<Rightarrow> u16" where
  "packetbuf_totlen s = ucast (packetbuf_hdrlen s) + packetbuf_datalen s"

definition packetbuf_remaininglen :: "'a pbuf_state_scheme \<Rightarrow> u16" where
  "packetbuf_remaininglen s = of_nat PACKETBUF_SIZE - packetbuf_totlen s"

text \<open>Pointers into the buffer are offsets: \<open>packetbuf_dataptr\<close> and \<open>packetbuf_hdrptr\<close>.\<close>

definition packetbuf_dataptr :: "'a pbuf_state_scheme \<Rightarrow> nat" where
  "packetbuf_dataptr s = unat (packetbuf_hdrlen s)"

definition packetbuf_hdrptr :: "'a pbuf_state_scheme \<Rightarrow> nat" where
  "packetbuf_hdrptr s = 0"

definition packetbuf_copyfrom ::
    "u8 list \<Rightarrow> u16 \<Rightarrow> 'a pbuf_state_scheme \<Rightarrow> (nat \<times> 'a pbuf_state_scheme) option" where
  "packetbuf_copyfrom from len s = do {
     let s = packetbuf_clear s;
     let l = min PACKETBUF_SIZE (unat len);
     bytes \<leftarrow> slice_opt from 0 l;
     pb \<leftarrow> put_opt (packetbuf s) 0 bytes;
     Some (l, s\<lparr> packetbuf := pb, buflen := of_nat l \<rparr>)
   }"

definition packetbuf_copyto ::
    "u8 list \<Rightarrow> 'a pbuf_state_scheme \<Rightarrow> (nat \<times> u8 list) option" where
  "packetbuf_copyto to s =
     (if unat (hdrlen s) + unat (buflen s) > PACKETBUF_SIZE then Some (0, to)
      else do {
        h \<leftarrow> slice_opt (packetbuf s) (packetbuf_hdrptr s) (unat (hdrlen s));
        d \<leftarrow> slice_opt (packetbuf s) (packetbuf_dataptr s) (unat (buflen s));
        to \<leftarrow> put_opt to 0 h;
        to \<leftarrow> put_opt to (unat (hdrlen s)) d;
        Some (unat (hdrlen s) + unat (buflen s), to)
      })"

text \<open>The loop of \<open>packetbuf_hdralloc\<close>: shift the first \<open>n\<close> bytes up by \<open>size\<close>, from the last one down.\<close>

fun hdralloc_loop :: "u8 list \<Rightarrow> nat \<Rightarrow> nat \<Rightarrow> u8 list option" where
  "hdralloc_loop buf sz 0 = Some buf"
| "hdralloc_loop buf sz (Suc i) = do {
     b \<leftarrow> nth_opt buf i;
     buf \<leftarrow> upd_opt buf (i + sz) b;
     hdralloc_loop buf sz i
   }"

definition packetbuf_hdralloc :: "nat \<Rightarrow> 'a pbuf_state_scheme \<Rightarrow> (bool \<times> 'a pbuf_state_scheme) option" where
  "packetbuf_hdralloc sz s =
     (if sz + unat (packetbuf_totlen s) > PACKETBUF_SIZE then Some (False, s)
      else do {
        pb \<leftarrow> hdralloc_loop (packetbuf s) sz (unat (packetbuf_totlen s));
        Some (True, s\<lparr> packetbuf := pb, hdrlen := hdrlen s + of_nat sz \<rparr>)
      })"

definition packetbuf_hdrreduce :: "nat \<Rightarrow> 'a pbuf_state_scheme \<Rightarrow> bool \<times> 'a pbuf_state_scheme" where
  "packetbuf_hdrreduce sz s =
     (if unat (buflen s) < sz then (False, s)
      else (True, s\<lparr> bufptr := bufptr s + of_nat sz, buflen := buflen s - of_nat sz \<rparr>))"

definition packetbuf_set_datalen :: "u16 \<Rightarrow> 'a pbuf_state_scheme \<Rightarrow> 'a pbuf_state_scheme" where
  "packetbuf_set_datalen len s = s\<lparr> buflen := len \<rparr>"

definition packetbuf_set_attr ::
    "packetbuf_attr_type \<Rightarrow> u16 \<Rightarrow> 'a pbuf_state_scheme \<Rightarrow> 'a pbuf_state_scheme" where
  "packetbuf_set_attr ty val s = s\<lparr> packetbuf_attrs := (packetbuf_attrs s)(ty := val) \<rparr>"

definition packetbuf_attr :: "packetbuf_attr_type \<Rightarrow> 'a pbuf_state_scheme \<Rightarrow> u16" where
  "packetbuf_attr ty s = packetbuf_attrs s ty"

definition packetbuf_set_addr ::
    "packetbuf_addr_type \<Rightarrow> linkaddr \<Rightarrow> 'a pbuf_state_scheme \<Rightarrow> 'a pbuf_state_scheme" where
  "packetbuf_set_addr ty addr s = s\<lparr> packetbuf_addrs := (packetbuf_addrs s)(ty := addr) \<rparr>"

definition packetbuf_addr :: "packetbuf_addr_type \<Rightarrow> 'a pbuf_state_scheme \<Rightarrow> linkaddr" where
  "packetbuf_addr ty s = packetbuf_addrs s ty"

definition packetbuf_holds_broadcast :: "'a pbuf_state_scheme \<Rightarrow> bool" where
  "packetbuf_holds_broadcast s \<longleftrightarrow> linkaddr_cmp (packetbuf_addrs s PACKETBUF_ADDR_RECEIVER) linkaddr_null"

definition packetbuf_attr_copyto :: "'a pbuf_state_scheme \<Rightarrow> attrs \<times> addrs" where
  "packetbuf_attr_copyto s = (packetbuf_attrs s, packetbuf_addrs s)"

definition packetbuf_attr_copyfrom :: "attrs \<Rightarrow> addrs \<Rightarrow> 'a pbuf_state_scheme \<Rightarrow> 'a pbuf_state_scheme" where
  "packetbuf_attr_copyfrom ats ads s = s\<lparr> packetbuf_attrs := ats, packetbuf_addrs := ads \<rparr>"

text \<open>A write through the data pointer and a read of the data part, as the clients perform them.\<close>

definition packetbuf_write_data :: "nat \<Rightarrow> u8 list \<Rightarrow> 'a pbuf_state_scheme \<Rightarrow> 'a pbuf_state_scheme option" where
  "packetbuf_write_data off bs s = do {
     pb \<leftarrow> put_opt (packetbuf s) (packetbuf_dataptr s + off) bs;
     Some (s\<lparr> packetbuf := pb \<rparr>)
   }"

definition packetbuf_write_hdr :: "nat \<Rightarrow> u8 list \<Rightarrow> 'a pbuf_state_scheme \<Rightarrow> 'a pbuf_state_scheme option" where
  "packetbuf_write_hdr off bs s = do {
     pb \<leftarrow> put_opt (packetbuf s) (packetbuf_hdrptr s + off) bs;
     Some (s\<lparr> packetbuf := pb \<rparr>)
   }"

definition packetbuf_data :: "'a pbuf_state_scheme \<Rightarrow> u8 list option" where
  "packetbuf_data s = slice_opt (packetbuf s) (packetbuf_dataptr s) (unat (packetbuf_datalen s))"

subsection \<open>Well-formed buffers\<close>

text \<open>The buffer has its size, and header, consumed header and data fit in it.\<close>

definition pb_wf :: "'a pbuf_state_scheme \<Rightarrow> bool" where
  "pb_wf s \<longleftrightarrow> length (packetbuf s) = PACKETBUF_SIZE \<and>
     unat (hdrlen s) + unat (bufptr s) + unat (buflen s) \<le> PACKETBUF_SIZE \<and>
     addr_wf (packetbuf_addrs s PACKETBUF_ADDR_SENDER) \<and> addr_wf (packetbuf_addrs s PACKETBUF_ADDR_RECEIVER)"

lemma unat_ucast_u8_u16 [simp]: "unat (ucast (w :: u8) :: u16) = unat w"
  by (simp add: unsigned_ucast_eq take_bit_nat_eq_self_iff less_trans [OF unat_lt_256])

lemma unat_add16: "unat (a :: u16) + unat b < 65536 \<Longrightarrow> unat (a + b) = unat a + unat b"
  by (simp add: unat_word_ariths)

lemma pb_wf_lens:
  assumes "pb_wf s"
  shows "unat (packetbuf_hdrlen s) = unat (bufptr s) + unat (hdrlen s)"
    "unat (packetbuf_totlen s) = unat (bufptr s) + unat (hdrlen s) + unat (buflen s)"
proof -
  have b: "unat (hdrlen s) + unat (bufptr s) + unat (buflen s) \<le> 96" using assms by (simp add: pb_wf_def)
  then have "unat (bufptr s + ucast (hdrlen s)) = unat (bufptr s) + unat (hdrlen s)"
    by (simp add: unat_add16)
  then show h: "unat (packetbuf_hdrlen s) = unat (bufptr s) + unat (hdrlen s)"
    using b by (simp add: packetbuf_hdrlen_def unsigned_ucast_eq take_bit_nat_eq_self_iff)
  then show "unat (packetbuf_totlen s) = unat (bufptr s) + unat (hdrlen s) + unat (buflen s)"
    using b by (simp add: packetbuf_totlen_def packetbuf_datalen_def unat_add16)
qed

text \<open>The bytes a packet consists of: header part and data part.\<close>

definition pb_frame :: "'a pbuf_state_scheme \<Rightarrow> u8 list" where
  "pb_frame s = take (unat (hdrlen s)) (packetbuf s) @
     take (unat (buflen s)) (drop (unat (bufptr s) + unat (hdrlen s)) (packetbuf s))"

lemma length_pb_frame: "pb_wf s \<Longrightarrow> length (pb_frame s) = unat (hdrlen s) + unat (buflen s)"
  by (auto simp: pb_frame_def pb_wf_def)

lemma packetbuf_data_wf:
  "pb_wf s \<Longrightarrow> packetbuf_data s = Some (drop (unat (hdrlen s)) (pb_frame s))"
  by (auto simp: packetbuf_data_def pb_wf_lens packetbuf_dataptr_def packetbuf_datalen_def pb_frame_def pb_wf_def)

lemma hdralloc_loop_spec:
  "sz + n \<le> length buf \<Longrightarrow> hdralloc_loop buf sz n = Some (put_at buf sz (take n buf))"
proof (induction n arbitrary: buf)
  case (Suc i)
  let ?buf' = "buf[i + sz := buf ! i]"
  have "hdralloc_loop buf sz (Suc i) = Some (put_at ?buf' sz (take i ?buf'))"
    using Suc by (simp add: nth_opt_def upd_opt_def)
  also have "put_at ?buf' sz (take i ?buf') = put_at buf sz (take (Suc i) buf)"
    using Suc.prems by (intro nth_equalityI) (auto simp: nth_put_at nth_list_update)
  finally show ?case .
qed (simp add: put_at_def)

text \<open>Header allocation keeps the packet: the old frame becomes the tail of the new one.\<close>

lemma packetbuf_hdralloc_wf:
  assumes "pb_wf s" "bufptr s = 0"
  shows "packetbuf_hdralloc sz s = Some (r, s') \<Longrightarrow> r \<longleftrightarrow> sz + length (pb_frame s) \<le> PACKETBUF_SIZE"
    "packetbuf_hdralloc sz s \<noteq> None"
    "packetbuf_hdralloc sz s = Some (True, s') \<Longrightarrow> pb_wf s' \<and> bufptr s' = 0 \<and>
       unat (hdrlen s') = sz + unat (hdrlen s) \<and> buflen s' = buflen s \<and>
       length (pb_frame s') = sz + length (pb_frame s) \<and> drop sz (pb_frame s') = pb_frame s \<and>
       packetbuf_attrs s' = packetbuf_attrs s \<and> packetbuf_addrs s' = packetbuf_addrs s"
proof -
  let ?t = "unat (hdrlen s) + unat (buflen s)"
  have wf: "length (packetbuf s) = 96" "?t \<le> 96" using assms by (auto simp: pb_wf_def)
  have t: "unat (packetbuf_totlen s) = ?t" "length (pb_frame s) = ?t"
    using pb_wf_lens(2) [OF assms(1)] length_pb_frame [OF assms(1)] assms(2) by auto
  show "packetbuf_hdralloc sz s = Some (r, s') \<Longrightarrow> r \<longleftrightarrow> sz + length (pb_frame s) \<le> PACKETBUF_SIZE"
    using wf t by (auto simp: packetbuf_hdralloc_def bind_eq_Some_conv split: if_splits)
  show "packetbuf_hdralloc sz s \<noteq> None"
    using wf t by (auto simp: packetbuf_hdralloc_def hdralloc_loop_spec)
  assume a: "packetbuf_hdralloc sz s = Some (True, s')"
  then have sz: "sz + ?t \<le> 96"
    and s': "s' = s\<lparr> packetbuf := put_at (packetbuf s) sz (take ?t (packetbuf s)), hdrlen := hdrlen s + of_nat sz \<rparr>"
    using wf t by (auto simp: packetbuf_hdralloc_def hdralloc_loop_spec split: if_splits)
  have h: "unat (hdrlen s') = sz + unat (hdrlen s)"
    using sz unfolding s' by (simp add: unat_word_ariths unsigned_of_nat take_bit_nat_eq_self)
  have f: "pb_frame x = take (unat (hdrlen x) + unat (buflen x)) (packetbuf x)" if "bufptr x = 0"
    for x :: "'a pbuf_state_scheme"
    using that by (simp add: pb_frame_def take_add)
  have "pb_frame s' = take (sz + ?t) (put_at (packetbuf s) sz (take ?t (packetbuf s)))"
    using f [of s'] h assms(2) by (simp add: s' add.assoc)
  then have "drop sz (pb_frame s') = pb_frame s" "length (pb_frame s') = sz + ?t"
    using f [of s] sz wf assms(2) by (simp_all add: put_at_def drop_take)
  then show "pb_wf s' \<and> bufptr s' = 0 \<and>
       unat (hdrlen s') = sz + unat (hdrlen s) \<and> buflen s' = buflen s \<and>
       length (pb_frame s') = sz + length (pb_frame s) \<and> drop sz (pb_frame s') = pb_frame s \<and>
       packetbuf_attrs s' = packetbuf_attrs s \<and> packetbuf_addrs s' = packetbuf_addrs s"
    using h sz wf t assms by (auto simp: pb_wf_def s')
qed

text \<open>\<open>packetbuf_copyto\<close> writes exactly the frame, \<open>packetbuf_copyfrom\<close> makes it the data part.\<close>

lemma packetbuf_copyto_wf:
  assumes "pb_wf s" "length to = PACKETBUF_SIZE"
  shows "packetbuf_copyto to s = Some (length (pb_frame s), put_at to 0 (pb_frame s))"
proof -
  have "unat (hdrlen s) + unat (bufptr s) + unat (buflen s) \<le> 96" "length (packetbuf s) = 96"
    using assms(1) by (auto simp: pb_wf_def)
  then show ?thesis
    using assms by (simp add: packetbuf_copyto_def packetbuf_hdrptr_def packetbuf_dataptr_def pb_wf_lens
        slice_opt_def put_opt_def length_pb_frame) (simp add: put_at_def pb_frame_def add.commute)
qed

lemma packetbuf_copyfrom_eq:
  assumes "length (packetbuf s) = PACKETBUF_SIZE" "unat len \<le> length from"
  defines "l \<equiv> min PACKETBUF_SIZE (unat len)"
  shows "packetbuf_copyfrom from len s =
    Some (l, (packetbuf_clear s)\<lparr> packetbuf := put_at (packetbuf s) 0 (take l from), buflen := of_nat l \<rparr>)"
  using assms by (simp add: packetbuf_copyfrom_def Let_def slice_opt_def put_opt_def packetbuf_clear_def
      packetbuf_attr_clear_def)

lemma packetbuf_copyfrom_wf:
  assumes "length (packetbuf s) = PACKETBUF_SIZE" "unat len \<le> length from"
    "packetbuf_copyfrom from len s = Some (l, s')"
  shows "pb_wf s'" "l = min PACKETBUF_SIZE (unat len)" "pb_frame s' = take l from" "hdrlen s' = 0" "bufptr s' = 0"
    "unat (buflen s') = l" "packetbuf_attrs s' = (\<lambda>_. 0)" "packetbuf_addrs s' = (\<lambda>_. linkaddr_null)"
  using assms unfolding packetbuf_copyfrom_eq [OF assms(1,2)]
  by (auto simp: packetbuf_clear_def packetbuf_attr_clear_def pb_wf_def pb_frame_def put_at_def)

end
