(* ===== verification/Memb.thy ===== *)
theory Memb
  imports Prelude
begin

text \<open>
  The block allocator (\<open>os/lib/memb.c\<close>). A \<open>struct memb\<close> is the array of reference counts (\<open>char\<close>) and
  the array of blocks; a block pointer is the index of the block. The contract of a fixed-size block
  allocator is a locale, interpreted on the C operations.
\<close>

subsection \<open>The C operations\<close>

record 'b memb =
  m_count :: "u8 list"
  m_mem :: "'b list"

definition memb_num :: "'b memb \<Rightarrow> nat" where
  "memb_num m = length (m_mem m)"

definition memb_init :: "'b \<Rightarrow> 'b memb \<Rightarrow> 'b memb" where
  "memb_init zero m = \<lparr> m_count = replicate (memb_num m) 0, m_mem = replicate (memb_num m) zero \<rparr>"

fun memb_alloc_loop :: "u8 list \<Rightarrow> nat \<Rightarrow> nat option" where
  "memb_alloc_loop [] i = None"
| "memb_alloc_loop (c # cs) i = (if c = 0 then Some i else memb_alloc_loop cs (Suc i))"

definition memb_alloc :: "'b memb \<Rightarrow> nat option \<times> 'b memb" where
  "memb_alloc m = (case memb_alloc_loop (m_count m) 0 of
     None \<Rightarrow> (None, m)
   | Some i \<Rightarrow> (Some i, m\<lparr> m_count := (m_count m)[i := m_count m ! i + 1] \<rparr>))"

definition memb_free :: "'b memb \<Rightarrow> nat \<Rightarrow> int \<times> 'b memb" where
  "memb_free m ptr =
     (if ptr < memb_num m then
        (let c = m_count m ! ptr; c' = (if 0 < sint c then c - 1 else c)
         in (sint c', m\<lparr> m_count := (m_count m)[ptr := c'] \<rparr>))
      else (- 1, m))"

definition memb_inmemb :: "'b memb \<Rightarrow> nat \<Rightarrow> bool" where
  "memb_inmemb m ptr \<longleftrightarrow> ptr < memb_num m"

definition memb_numfree :: "'b memb \<Rightarrow> int" where
  "memb_numfree m = int (length (filter (\<lambda>c. c = 0) (m_count m)))"

subsection \<open>The contract of a block allocator\<close>

locale block_allocator =
  fixes invar :: "'m \<Rightarrow> bool"
    and num :: "'m \<Rightarrow> nat"
    and used :: "'m \<Rightarrow> nat set"
    and data :: "'m \<Rightarrow> 'd"
    and alloc :: "'m \<Rightarrow> nat option \<times> 'm"
    and free :: "'m \<Rightarrow> nat \<Rightarrow> int \<times> 'm"
  assumes used_bound: "invar m \<Longrightarrow> used m \<subseteq> {..<num m}"
    and alloc_ok: "invar m \<Longrightarrow> used m \<noteq> {..<num m} \<Longrightarrow> \<exists>i m'. alloc m = (Some i, m') \<and> i < num m \<and>
          i \<notin> used m \<and> used m' = insert i (used m) \<and> invar m' \<and> num m' = num m \<and> data m' = data m"
    and alloc_full: "invar m \<Longrightarrow> used m = {..<num m} \<Longrightarrow> alloc m = (None, m)"
    and free_ok: "invar m \<Longrightarrow> used (snd (free m i)) = used m - {i} \<and> invar (snd (free m i)) \<and>
          num (snd (free m i)) = num m \<and> data (snd (free m i)) = data m"
begin

lemma allocD:
  assumes "invar m" "alloc m = (Some i, m')"
  shows "i < num m" "i \<notin> used m" "used m' = insert i (used m)" "invar m'" "num m' = num m" "data m' = data m"
  using alloc_ok [of m] alloc_full [of m] assms by (cases "used m = {..<num m}"; auto)+

lemma allocD_None:
  assumes "invar m" "alloc m = (None, m')"
  shows "m' = m" "used m = {..<num m}"
  using alloc_ok [of m] alloc_full [of m] assms by (cases "used m = {..<num m}"; auto)+

text \<open>A client that frees only what it allocated gets every block back.\<close>

lemma alloc_free_cancel:
  assumes "invar m" "alloc m = (Some i, m')"
  shows "used (snd (free m' i)) = used m" "invar (snd (free m' i))" "data (snd (free m' i)) = data m"
  using allocD [OF assms] free_ok [of m' i] by auto

lemma card_used_alloc:
  assumes "invar m" "alloc m = (Some i, m')"
  shows "card (used m') = Suc (card (used m))"
proof -
  have "finite (used m)" using used_bound [OF assms(1)] finite_subset by blast
  then show ?thesis using allocD [OF assms] by simp
qed

lemma alloc_succeeds_iff:
  "invar m \<Longrightarrow> fst (alloc m) \<noteq> None \<longleftrightarrow> card (used m) < num m"
  using alloc_ok [of m] alloc_full [of m] used_bound [of m]
  by (metis card_lessThan finite_lessThan fst_conv nless_le option.distinct(1) psubsetI psubset_card_mono)

end

subsection \<open>The C operations satisfy the contract\<close>

definition memb_wf :: "'b memb \<Rightarrow> bool" where
  "memb_wf m \<longleftrightarrow> length (m_count m) = length (m_mem m) \<and> (\<forall>c \<in> set (m_count m). c = 0 \<or> c = 1)"

definition memb_used :: "'b memb \<Rightarrow> nat set" where
  "memb_used m = {i. i < length (m_count m) \<and> m_count m ! i \<noteq> 0}"

lemma memb_alloc_loop_spec:
  "memb_alloc_loop cs k = None \<Longrightarrow> \<forall>i < length cs. cs ! i \<noteq> 0"
  "memb_alloc_loop cs k = Some j \<Longrightarrow> k \<le> j \<and> j - k < length cs \<and> cs ! (j - k) = 0 \<and> (\<forall>i < j - k. cs ! i \<noteq> 0)"
proof (induction cs k rule: memb_alloc_loop.induct)
  case (2 c cs i)
  { case 1 then show ?case using "2.IH" by (auto simp: nth_Cons split: nat.split if_splits)
  next
    case 2
    show ?case
    proof (cases "c = 0")
      case True then show ?thesis using 2 by auto
    next
      case False
      then have "Suc i \<le> j" and IH: "j - Suc i < length cs" "cs ! (j - Suc i) = 0" "\<forall>ia < j - Suc i. cs ! ia \<noteq> 0"
        using "2.IH"(2) 2 by auto
      then obtain d where d: "j = Suc i + d" using le_Suc_ex by blast
      then show ?thesis using IH False by (auto simp: nth_Cons Suc_diff_le split: nat.split)
    qed
  }
qed auto

lemma nth_count_cases: "memb_wf m \<Longrightarrow> i < length (m_count m) \<Longrightarrow> m_count m ! i = 0 \<or> m_count m ! i = 1"
  unfolding memb_wf_def by (meson nth_mem)

lemma memb_wf_upd: "memb_wf m \<Longrightarrow> c = 0 \<or> c = 1 \<Longrightarrow> memb_wf (m\<lparr> m_count := (m_count m)[i := c] \<rparr>)"
  unfolding memb_wf_def by (auto dest: set_update_subset_insert [THEN subsetD])

interpretation mb: block_allocator memb_wf memb_num memb_used m_mem memb_alloc memb_free
proof unfold_locales
  fix m :: "'b memb" assume m: "memb_wf m"
  have len: "length (m_count m) = memb_num m" using m by (simp add: memb_wf_def memb_num_def)
  show "memb_used m \<subseteq> {..<memb_num m}" by (auto simp: memb_used_def len)
  show "\<exists>i m'. memb_alloc m = (Some i, m') \<and> i < memb_num m \<and> i \<notin> memb_used m \<and>
      memb_used m' = insert i (memb_used m) \<and> memb_wf m' \<and> memb_num m' = memb_num m \<and> m_mem m' = m_mem m"
    if u: "memb_used m \<noteq> {..<memb_num m}"
  proof (cases "memb_alloc_loop (m_count m) 0")
    case None
    from memb_alloc_loop_spec(1) [OF this] have False using u len by (auto simp: memb_used_def)
    then show ?thesis ..
  next
    case (Some i)
    from memb_alloc_loop_spec(2) [OF this] have i: "i < length (m_count m)" "m_count m ! i = 0" by auto
    then have "memb_wf (m\<lparr> m_count := (m_count m)[i := 1] \<rparr>)" using memb_wf_upd [OF m] by blast
    then show ?thesis using i Some len
      by (auto simp: memb_alloc_def memb_used_def memb_num_def nth_list_update)
  qed
  show "memb_alloc m = (None, m)" if "memb_used m = {..<memb_num m}"
  proof (cases "memb_alloc_loop (m_count m) 0")
    case (Some i)
    from memb_alloc_loop_spec(2) [OF this] have "i < length (m_count m)" "m_count m ! i = 0" by auto
    then show ?thesis using that len by (auto simp: memb_used_def)
  qed (simp add: memb_alloc_def)
  show "memb_used (snd (memb_free m i)) = memb_used m - {i} \<and> memb_wf (snd (memb_free m i)) \<and>
      memb_num (snd (memb_free m i)) = memb_num m \<and> m_mem (snd (memb_free m i)) = m_mem m" for i
  proof (cases "i < memb_num m")
    case True
    let ?c = "m_count m ! i"
    have "?c = 0 \<or> ?c = 1" using nth_count_cases [OF m] True len by simp
    then have c: "(if 0 < sint ?c then ?c - 1 else ?c) = 0" by auto
    have "memb_wf (m\<lparr> m_count := (m_count m)[i := 0] \<rparr>)" using memb_wf_upd [OF m] by blast
    then show ?thesis using True c len
      by (auto simp: memb_free_def Let_def memb_used_def memb_num_def nth_list_update)
  qed (use m len in \<open>auto simp: memb_free_def memb_used_def\<close>)
qed

lemma memb_init_wf [simp]: "memb_wf (memb_init z m)" "memb_used (memb_init z m) = {}"
  "memb_num (memb_init z m) = memb_num m"
  by (auto simp: memb_init_def memb_wf_def memb_used_def memb_num_def)

text \<open>A client writes its data into a block.\<close>

definition memb_put :: "'b memb \<Rightarrow> nat \<Rightarrow> 'b \<Rightarrow> 'b memb" where
  "memb_put m i x = m\<lparr> m_mem := (m_mem m)[i := x] \<rparr>"

lemma memb_put_simps [simp]:
  "m_count (memb_put m i x) = m_count m" "memb_num (memb_put m i x) = memb_num m"
  "memb_used (memb_put m i x) = memb_used m" "memb_wf (memb_put m i x) = memb_wf m"
  "m_mem (memb_put m i x) = (m_mem m)[i := x]"
  by (simp_all add: memb_put_def memb_num_def memb_used_def memb_wf_def)

lemma memb_numfree_used:
  assumes "memb_wf m"
  shows "memb_numfree m = int (memb_num m - card (memb_used m))"
proof -
  have "{i. i < length (m_count m) \<and> m_count m ! i = 0} = {..<memb_num m} - memb_used m"
    using assms by (auto simp: memb_used_def memb_wf_def memb_num_def)
  moreover have "memb_used m \<subseteq> {..<memb_num m}" by (rule mb.used_bound [OF assms])
  ultimately show ?thesis
    by (simp add: memb_numfree_def length_filter_conv_card card_Diff_subset finite_subset)
qed

text \<open>
  On a well-formed pool \<open>memb_alloc\<close> succeeds exactly when \<open>memb_numfree\<close> is positive; the block it
  returns was free, the pool then has one free block less and the blocks' contents are unchanged;
  freeing that block restores the set of used blocks, and returns the new reference count 0.
\<close>

theorem memb_alloc_free:
  assumes "memb_wf m"
  shows "(fst (memb_alloc m) \<noteq> None \<longleftrightarrow> 0 < memb_numfree m) \<and>
    (\<forall>i m'. memb_alloc m = (Some i, m') \<longrightarrow>
       i \<notin> memb_used m \<and> memb_inmemb m i \<and> memb_numfree m' = memb_numfree m - 1 \<and> m_mem m' = m_mem m \<and>
       fst (memb_free m' i) = 0 \<and> memb_used (snd (memb_free m' i)) = memb_used m)"
proof (intro conjI allI impI)
  show "fst (memb_alloc m) \<noteq> None \<longleftrightarrow> 0 < memb_numfree m"
    using mb.alloc_succeeds_iff [OF assms] by (auto simp: memb_numfree_used [OF assms])
  fix i m' assume a: "memb_alloc m = (Some i, m')"
  note d = mb.allocD [OF assms a]
  show "i \<notin> memb_used m" "memb_inmemb m i" "m_mem m' = m_mem m" using d by (auto simp: memb_inmemb_def)
  show "memb_numfree m' = memb_numfree m - 1"
    using mb.alloc_succeeds_iff [OF assms] a mb.card_used_alloc [OF assms a] d
    by (simp add: memb_numfree_used assms of_nat_diff)
  have "i < length (m_count m')" using d by (simp add: memb_wf_def memb_num_def)
  then have "m_count m' ! i = 0 \<or> m_count m' ! i = 1" using nth_count_cases d by blast
  then show "fst (memb_free m' i) = 0" using d by (auto simp: memb_free_def Let_def)
  show "memb_used (snd (memb_free m' i)) = memb_used m"
    using mb.alloc_free_cancel [OF assms a] by blast
qed

theorem memb_alloc_free_witness:
  "let m = \<lparr> m_count = [1, 0], m_mem = [True, False] \<rparr> in
     fst (memb_alloc m) = Some 1 \<and> memb_numfree (snd (memb_alloc m)) = 0 \<and>
     memb_used (snd (memb_free (snd (memb_alloc m)) 1)) = memb_used m"
  using memb_alloc_free [of "\<lparr> m_count = [1, 0], m_mem = [True, False] \<rparr>"]
  by (simp add: memb_wf_def memb_alloc_def memb_numfree_def)

end
