(* ===== verification/QueueBuf.thy ===== *)
theory QueueBuf
  imports PacketBuf Memb
begin

text \<open>
  The queue buffers (\<open>os/net/queuebuf.c\<close>, without swapping to flash): copies of the packet buffer in a
  pool of \<open>QUEUEBUF_NUM\<close> blocks, each a descriptor pointing to a data block of a second pool.
\<close>

record queuebuf =
  ram_ptr :: "nat option"

record queuebuf_data =
  qd_data :: "u8 list"
  qd_len :: u16
  qd_attrs :: attrs
  qd_addrs :: addrs

record qbuf_state = pbuf_state +
  bufmem :: "queuebuf memb"
  buframmem :: "queuebuf_data memb"

definition zero_queuebuf :: queuebuf where
  "zero_queuebuf = \<lparr> ram_ptr = None \<rparr>"

definition zero_queuebuf_data :: queuebuf_data where
  "zero_queuebuf_data = \<lparr> qd_data = replicate PACKETBUF_SIZE 0, qd_len = 0, qd_attrs = \<lambda>_. 0,
     qd_addrs = \<lambda>_. linkaddr_null \<rparr>"

text \<open>The block \<open>queuebuf_load_to_ram\<close> points to; a null \<open>ram_ptr\<close> must not be dereferenced.\<close>

definition queuebuf_load_to_ram :: "nat \<Rightarrow> 'a qbuf_state_scheme \<Rightarrow> (nat \<times> queuebuf_data) option" where
  "queuebuf_load_to_ram b s = do {
     buf \<leftarrow> nth_opt (m_mem (bufmem s)) b;
     j \<leftarrow> ram_ptr buf;
     d \<leftarrow> nth_opt (m_mem (buframmem s)) j;
     Some (j, d)
   }"

definition queuebuf_init :: "'a qbuf_state_scheme \<Rightarrow> 'a qbuf_state_scheme" where
  "queuebuf_init s = s\<lparr> buframmem := memb_init zero_queuebuf_data (buframmem s),
                        bufmem := memb_init zero_queuebuf (bufmem s) \<rparr>"

definition queuebuf_numfree :: "'a qbuf_state_scheme \<Rightarrow> int" where
  "queuebuf_numfree s = memb_numfree (bufmem s)"

definition queuebuf_new_from_packetbuf ::
    "'a qbuf_state_scheme \<Rightarrow> (nat option \<times> 'a qbuf_state_scheme) option" where
  "queuebuf_new_from_packetbuf s =
     (case memb_alloc (bufmem s) of
        (None, bm) \<Rightarrow> Some (None, s\<lparr> bufmem := bm \<rparr>)
      | (Some b, bm) \<Rightarrow>
          (case memb_alloc (buframmem s) of
             (None, rm) \<Rightarrow>
               Some (None, s\<lparr> bufmem := snd (memb_free (memb_put bm b \<lparr> ram_ptr = None \<rparr>) b), buframmem := rm \<rparr>)
           | (Some j, rm) \<Rightarrow> do {
               d \<leftarrow> nth_opt (m_mem rm) j;
               (len, data) \<leftarrow> packetbuf_copyto (qd_data d) s;
               let (ats, ads) = packetbuf_attr_copyto s;
               let d = \<lparr> qd_data = data, qd_len = of_nat len, qd_attrs = ats, qd_addrs = ads \<rparr>;
               Some (Some b, s\<lparr> bufmem := memb_put bm b \<lparr> ram_ptr = Some j \<rparr>, buframmem := memb_put rm j d \<rparr>)
             }))"

definition queuebuf_update_attr_from_packetbuf ::
    "nat \<Rightarrow> 'a qbuf_state_scheme \<Rightarrow> 'a qbuf_state_scheme option" where
  "queuebuf_update_attr_from_packetbuf b s = do {
     (j, d) \<leftarrow> queuebuf_load_to_ram b s;
     let (ats, ads) = packetbuf_attr_copyto s;
     Some (s\<lparr> buframmem := memb_put (buframmem s) j (d\<lparr> qd_attrs := ats, qd_addrs := ads \<rparr>) \<rparr>)
   }"

definition queuebuf_update_from_packetbuf ::
    "nat \<Rightarrow> 'a qbuf_state_scheme \<Rightarrow> 'a qbuf_state_scheme option" where
  "queuebuf_update_from_packetbuf b s = do {
     (j, d) \<leftarrow> queuebuf_load_to_ram b s;
     let (ats, ads) = packetbuf_attr_copyto s;
     (len, data) \<leftarrow> packetbuf_copyto (qd_data d) s;
     Some (s\<lparr> buframmem := memb_put (buframmem s) j
               \<lparr> qd_data = data, qd_len = of_nat len, qd_attrs = ats, qd_addrs = ads \<rparr> \<rparr>)
   }"

text \<open>The pointer passed to \<open>queuebuf_free\<close> may be null: then it is not in the pool.\<close>

definition queuebuf_free :: "nat option \<Rightarrow> 'a qbuf_state_scheme \<Rightarrow> 'a qbuf_state_scheme" where
  "queuebuf_free buf s =
     (case buf of
        Some b \<Rightarrow>
          if memb_inmemb (bufmem s) b then
            s\<lparr> buframmem := (case ram_ptr (m_mem (bufmem s) ! b) of
                               None \<Rightarrow> buframmem s
                             | Some j \<Rightarrow> snd (memb_free (buframmem s) j)),
               bufmem := snd (memb_free (bufmem s) b) \<rparr>
          else s
      | None \<Rightarrow> s)"

definition queuebuf_to_packetbuf :: "nat \<Rightarrow> 'a qbuf_state_scheme \<Rightarrow> 'a qbuf_state_scheme option" where
  "queuebuf_to_packetbuf b s =
     (if memb_inmemb (bufmem s) b then do {
        (j, d) \<leftarrow> queuebuf_load_to_ram b s;
        (_, s) \<leftarrow> packetbuf_copyfrom (qd_data d) (qd_len d) s;
        Some (packetbuf_attr_copyfrom (qd_attrs d) (qd_addrs d) s)
      }
      else Some s)"

text \<open>\<open>queuebuf_dataptr\<close> gives access to the bytes of the data block.\<close>

definition queuebuf_dataptr :: "nat \<Rightarrow> 'a qbuf_state_scheme \<Rightarrow> u8 list option option" where
  "queuebuf_dataptr b s =
     (if memb_inmemb (bufmem s) b then do { (j, d) \<leftarrow> queuebuf_load_to_ram b s; Some (Some (qd_data d)) }
      else Some None)"

definition queuebuf_datalen :: "nat \<Rightarrow> 'a qbuf_state_scheme \<Rightarrow> u16 option" where
  "queuebuf_datalen b s = do { (j, d) \<leftarrow> queuebuf_load_to_ram b s; Some (qd_len d) }"

definition queuebuf_addr :: "nat \<Rightarrow> packetbuf_addr_type \<Rightarrow> 'a qbuf_state_scheme \<Rightarrow> linkaddr option" where
  "queuebuf_addr b ty s = do { (j, d) \<leftarrow> queuebuf_load_to_ram b s; Some (qd_addrs d ty) }"

definition queuebuf_attr :: "nat \<Rightarrow> packetbuf_attr_type \<Rightarrow> 'a qbuf_state_scheme \<Rightarrow> u16 option" where
  "queuebuf_attr b ty s = do { (j, d) \<leftarrow> queuebuf_load_to_ram b s; Some (qd_attrs d ty) }"

subsection \<open>Invariant\<close>

text \<open>
  Both pools are well formed, and the descriptors in use point one to one to the data blocks in use.
\<close>

definition qd_wf :: "queuebuf_data \<Rightarrow> bool" where
  "qd_wf d \<longleftrightarrow> length (qd_data d) = PACKETBUF_SIZE \<and> unat (qd_len d) \<le> PACKETBUF_SIZE \<and>
     addr_wf (qd_addrs d PACKETBUF_ADDR_SENDER) \<and> addr_wf (qd_addrs d PACKETBUF_ADDR_RECEIVER)"

definition qb_block :: "'a qbuf_state_scheme \<Rightarrow> nat \<Rightarrow> nat" where
  "qb_block s i = the (ram_ptr (m_mem (bufmem s) ! i))"

definition qb_wf :: "'a qbuf_state_scheme \<Rightarrow> bool" where
  "qb_wf s \<longleftrightarrow> memb_wf (bufmem s) \<and> memb_wf (buframmem s) \<and>
     memb_num (bufmem s) = QUEUEBUF_NUM \<and> memb_num (buframmem s) = QUEUEBUF_NUM \<and>
     (\<forall>i \<in> memb_used (bufmem s). ram_ptr (m_mem (bufmem s) ! i) \<noteq> None) \<and>
     bij_betw (qb_block s) (memb_used (bufmem s)) (memb_used (buframmem s)) \<and>
     list_all qd_wf (m_mem (buframmem s))"

definition qb_contents :: "'a qbuf_state_scheme \<Rightarrow> nat \<Rightarrow> queuebuf_data" where
  "qb_contents s b = m_mem (buframmem s) ! qb_block s b"

lemma qb_wfD:
  assumes "qb_wf s" "b \<in> memb_used (bufmem s)"
  shows "queuebuf_load_to_ram b s = Some (qb_block s b, qb_contents s b)"
    "ram_ptr (m_mem (bufmem s) ! b) = Some (qb_block s b)"
    "qb_block s b \<in> memb_used (buframmem s)" "qb_block s b < length (m_mem (buframmem s))"
    "b < length (m_mem (bufmem s))" "memb_inmemb (bufmem s) b" "qd_wf (qb_contents s b)"
proof -
  show r: "ram_ptr (m_mem (bufmem s) ! b) = Some (qb_block s b)"
    using assms unfolding qb_wf_def qb_block_def by auto
  show u: "qb_block s b \<in> memb_used (buframmem s)"
    using assms unfolding qb_wf_def by (meson bij_betwE)
  have "memb_used (bufmem s) \<subseteq> {..<memb_num (bufmem s)}" "memb_used (buframmem s) \<subseteq> {..<memb_num (buframmem s)}"
    using assms(1) mb.used_bound unfolding qb_wf_def by blast+
  then show l: "qb_block s b < length (m_mem (buframmem s))" "b < length (m_mem (bufmem s))"
    "memb_inmemb (bufmem s) b"
    using u assms(2) by (auto simp: memb_num_def memb_inmemb_def)
  show "queuebuf_load_to_ram b s = Some (qb_block s b, qb_contents s b)"
    using r l by (simp add: queuebuf_load_to_ram_def qb_contents_def nth_opt_def)
  show "qd_wf (qb_contents s b)"
    using assms(1) l unfolding qb_wf_def qb_contents_def by (simp add: list_all_length)
qed

lemma list_all_upd: "list_all P xs \<Longrightarrow> P x \<Longrightarrow> list_all P (xs[i := x])"
  by (cases "i < length xs") (auto simp: list_all_length nth_list_update)

lemma bij_betw_insert_new:
  assumes "bij_betw f B R" "b \<notin> B" "j \<notin> R" "g b = j" "\<And>c. c \<in> B \<Longrightarrow> g c = f c"
  shows "bij_betw g (insert b B) (insert j R)"
proof -
  have "bij_betw g B R" using assms(1,5) bij_betw_cong [of B g f R] by blast
  then have "bij_betw g (B \<union> {b}) (R \<union> {g b})" using assms(2-4) by (intro notIn_Un_bij_betw) auto
  then show ?thesis by (simp add: assms(4))
qed

text \<open>The data block a copy of the packet buffer becomes.\<close>

definition qd_of_packetbuf :: "u8 list \<Rightarrow> 'a pbuf_state_scheme \<Rightarrow> queuebuf_data" where
  "qd_of_packetbuf old s = \<lparr> qd_data = put_at old 0 (pb_frame s), qd_len = of_nat (length (pb_frame s)),
     qd_attrs = packetbuf_attrs s, qd_addrs = packetbuf_addrs s \<rparr>"

lemma pb_frame_le: "pb_wf s \<Longrightarrow> length (pb_frame s) \<le> 96"
  using length_pb_frame [of s] by (auto simp: pb_wf_def)

lemma qd_of_packetbuf_wf: "pb_wf s \<Longrightarrow> length old = PACKETBUF_SIZE \<Longrightarrow> qd_wf (qd_of_packetbuf old s)"
  using pb_frame_le [of s] by (auto simp: qd_wf_def qd_of_packetbuf_def pb_wf_def)

lemma queuebuf_new_full:
  "qb_wf s \<Longrightarrow> queuebuf_numfree s = 0 \<Longrightarrow> queuebuf_new_from_packetbuf s = Some (None, s)"
proof -
  assume w: "qb_wf s" "queuebuf_numfree s = 0"
  then have "memb_wf (bufmem s)" by (simp add: qb_wf_def)
  then have "fst (memb_alloc (bufmem s)) = None"
    using w(2) mb.alloc_succeeds_iff [of "bufmem s"] by (auto simp: queuebuf_numfree_def memb_numfree_used)
  then have "memb_alloc (bufmem s) = (None, bufmem s)"
    using mb.allocD_None(1) [OF \<open>memb_wf (bufmem s)\<close>] by (metis prod.collapse)
  then show ?thesis by (simp add: queuebuf_new_from_packetbuf_def)
qed

lemma queuebuf_new_ok:
  assumes w: "qb_wf s" "pb_wf s" and f: "queuebuf_numfree s \<noteq> 0"
  shows "\<exists>b old s'. queuebuf_new_from_packetbuf s = Some (Some b, s') \<and> qb_wf s' \<and>
    b \<notin> memb_used (bufmem s) \<and> memb_used (bufmem s') = insert b (memb_used (bufmem s)) \<and>
    length old = PACKETBUF_SIZE \<and> qb_contents s' b = qd_of_packetbuf old s \<and>
    (\<forall>c \<in> memb_used (bufmem s). qb_contents s' c = qb_contents s c) \<and>
    s' = s\<lparr> bufmem := bufmem s', buframmem := buframmem s' \<rparr>"
proof -
  let ?B = "memb_used (bufmem s)" and ?R = "memb_used (buframmem s)"
  have wf: "memb_wf (bufmem s)" "memb_wf (buframmem s)" "memb_num (bufmem s) = memb_num (buframmem s)"
    and bij: "bij_betw (qb_block s) ?B ?R" and la: "list_all qd_wf (m_mem (buframmem s))"
    using w(1) by (auto simp: qb_wf_def)
  have c: "card ?B < memb_num (bufmem s)"
    using f wf by (auto simp: queuebuf_numfree_def memb_numfree_used)
  obtain b bm where b: "memb_alloc (bufmem s) = (Some b, bm)"
    using mb.alloc_succeeds_iff [OF wf(1)] c by (cases "memb_alloc (bufmem s)") auto
  have "card ?R < memb_num (buframmem s)" using c wf(3) bij_betw_same_card [OF bij] by simp
  then obtain j rm where j: "memb_alloc (buframmem s) = (Some j, rm)"
    using mb.alloc_succeeds_iff [OF wf(2)] by (cases "memb_alloc (buframmem s)") auto
  note bD = mb.allocD [OF wf(1) b] and jD = mb.allocD [OF wf(2) j]
  have jl: "j < length (m_mem rm)" "j < length (m_mem (buframmem s))" using jD by (auto simp: memb_num_def)
  let ?old = "qd_data (m_mem (buframmem s) ! j)"
  have old: "length ?old = PACKETBUF_SIZE" using la jl by (auto simp: list_all_length qd_wf_def)
  define d where "d = qd_of_packetbuf ?old s"
  let ?s' = "s\<lparr> bufmem := memb_put bm b \<lparr> ram_ptr = Some j \<rparr>, buframmem := memb_put rm j d \<rparr>"
  have bl: "b < length (m_mem (bufmem s))" using bD by (simp add: memb_num_def)
  have new: "queuebuf_new_from_packetbuf s = Some (Some b, ?s')"
    using b j jl jD old packetbuf_copyto_wf [OF w(2) old]
    by (simp add: queuebuf_new_from_packetbuf_def nth_opt_def packetbuf_attr_copyto_def d_def qd_of_packetbuf_def)
  have blk: "qb_block ?s' b = j" "\<And>c. c \<noteq> b \<Longrightarrow> qb_block ?s' c = qb_block s c"
    using bD bl by (simp_all add: qb_block_def)
  have "bij_betw (qb_block ?s') (insert b ?B) (insert j ?R)"
    by (rule bij_betw_insert_new [OF bij bD(2) jD(2)], rule blk(1), rule blk(2)) (use bD(2) in blast)
  moreover have "ram_ptr (m_mem (bufmem ?s') ! i) \<noteq> None" if "i \<in> insert b ?B" for i
    using that w(1) bD bl by (cases "i = b") (auto simp: qb_wf_def)
  moreover have "list_all qd_wf (m_mem (buframmem ?s'))"
    using la jD qd_of_packetbuf_wf [OF w(2) old] by (simp add: list_all_upd d_def)
  ultimately have "qb_wf ?s'"
    using w(1) bD jD by (simp add: qb_wf_def)
  moreover have "qb_contents ?s' b = qd_of_packetbuf ?old s"
    using blk(1) jl by (simp add: qb_contents_def d_def)
  moreover have "qb_contents ?s' c = qb_contents s c" if "c \<in> ?B" for c
  proof -
    have "c \<noteq> b" "qb_block s c \<noteq> j" using qb_wfD(3) [OF w(1) that] jD(2) bD(2) that by auto
    then show ?thesis using blk(2) [of c] jD(6) by (simp add: qb_contents_def)
  qed
  ultimately show ?thesis using new bD(2,3) old
    by (intro exI [of _ b] exI [of _ ?old] exI [of _ ?s']) simp
qed

lemma queuebuf_free_ok:
  assumes w: "qb_wf s" and b: "b \<in> memb_used (bufmem s)"
  shows "qb_wf (queuebuf_free (Some b) s)"
    "memb_used (bufmem (queuebuf_free (Some b) s)) = memb_used (bufmem s) - {b}"
    "c \<in> memb_used (bufmem s) \<Longrightarrow> qb_contents (queuebuf_free (Some b) s) c = qb_contents s c"
    "queuebuf_free (Some b) s = s\<lparr> bufmem := snd (memb_free (bufmem s) b),
       buframmem := snd (memb_free (buframmem s) (qb_block s b)) \<rparr>"
proof -
  let ?s' = "queuebuf_free (Some b) s"
  show s': "?s' = s\<lparr> bufmem := snd (memb_free (bufmem s) b),
       buframmem := snd (memb_free (buframmem s) (qb_block s b)) \<rparr>"
    using qb_wfD [OF w b] by (simp add: queuebuf_free_def)
  have m: "memb_wf (bufmem s)" "memb_wf (buframmem s)" using w by (auto simp: qb_wf_def)
  note f = mb.free_ok [OF m(1), of b] mb.free_ok [OF m(2), of "qb_block s b"]
  have blk: "qb_block ?s' = qb_block s" using f by (simp add: s' qb_block_def fun_eq_iff)
  show "memb_used (bufmem ?s') = memb_used (bufmem s) - {b}" using f by (simp add: s')
  show "qb_contents ?s' c = qb_contents s c" if "c \<in> memb_used (bufmem s)"
    unfolding qb_contents_def blk using f by (simp add: s')
  have "bij_betw (qb_block s) (memb_used (bufmem s) - {b}) (memb_used (buframmem s) - {qb_block s b})"
    using w b unfolding qb_wf_def by (intro bij_betw_DiffI) (auto simp: bij_betw_def)
  then show "qb_wf ?s'" using w f unfolding qb_wf_def blk by (simp add: s')
qed

text \<open>Copying out of the pool touches the packet buffer only.\<close>

lemma queuebuf_to_packetbuf_ok:
  assumes w: "qb_wf s" "length (packetbuf s) = PACKETBUF_SIZE" and b: "b \<in> memb_used (bufmem s)"
  shows "\<exists>s'. queuebuf_to_packetbuf b s = Some s' \<and> pb_wf s' \<and>
    pb_frame s' = take (unat (qd_len (qb_contents s b))) (qd_data (qb_contents s b)) \<and>
    hdrlen s' = 0 \<and> bufptr s' = 0 \<and>
    packetbuf_attrs s' = qd_attrs (qb_contents s b) \<and> packetbuf_addrs s' = qd_addrs (qb_contents s b) \<and>
    bufmem s' = bufmem s \<and> buframmem s' = buframmem s"
proof -
  let ?d = "qb_contents s b"
  note d = qb_wfD [OF w(1) b]
  then have l: "unat (qd_len ?d) \<le> length (qd_data ?d)" "unat (qd_len ?d) \<le> 96" by (auto simp: qd_wf_def)
  note e = packetbuf_copyfrom_eq [OF w(2) l(1)]
  note c = packetbuf_copyfrom_wf [OF w(2) l(1) e]
  let ?s1 = "snd (the (packetbuf_copyfrom (qd_data ?d) (qd_len ?d) s))"
  let ?s' = "packetbuf_attr_copyfrom (qd_attrs ?d) (qd_addrs ?d) ?s1"
  have "queuebuf_to_packetbuf b s = Some ?s'"
    using d e by (simp add: queuebuf_to_packetbuf_def)
  moreover have "pb_wf ?s'" using c(1) d(7) e by (simp add: pb_wf_def qd_wf_def packetbuf_attr_copyfrom_def)
  moreover have "pb_frame ?s' = take (unat (qd_len ?d)) (qd_data ?d)"
    using c(3) e l by (simp add: pb_frame_def packetbuf_attr_copyfrom_def min_absorb2)
  ultimately show ?thesis using c(4,5) e
    by (simp add: packetbuf_attr_copyfrom_def packetbuf_clear_def packetbuf_attr_clear_def)
qed

text \<open>The zero-initialised state of the C globals, and the state after \<open>queuebuf_init\<close>.\<close>

definition qbuf_zero :: qbuf_state where
  "qbuf_zero = \<lparr> packetbuf = replicate PACKETBUF_SIZE 0, buflen = 0, bufptr = 0, hdrlen = 0,
     packetbuf_attrs = \<lambda>_. 0, packetbuf_addrs = \<lambda>_. linkaddr_null,
     bufmem = \<lparr> m_count = replicate QUEUEBUF_NUM 0, m_mem = replicate QUEUEBUF_NUM zero_queuebuf \<rparr>,
     buframmem = \<lparr> m_count = replicate QUEUEBUF_NUM 0, m_mem = replicate QUEUEBUF_NUM zero_queuebuf_data \<rparr> \<rparr>"

lemma queuebuf_init_wf:
  assumes "memb_num (bufmem s) = QUEUEBUF_NUM" "memb_num (buframmem s) = QUEUEBUF_NUM"
  shows "qb_wf (queuebuf_init s)" "memb_used (bufmem (queuebuf_init s)) = {}" "queuebuf_numfree (queuebuf_init s) = 8"
  using assms by (auto simp: qb_wf_def queuebuf_init_def bij_betw_def list_all_length queuebuf_numfree_def
      memb_numfree_used, simp add: memb_init_def qd_wf_def zero_queuebuf_data_def)

lemma qbuf_zero_wf: "pb_wf qbuf_zero" "memb_num (bufmem qbuf_zero) = QUEUEBUF_NUM"
  "memb_num (buframmem qbuf_zero) = QUEUEBUF_NUM"
  by (simp_all add: pb_wf_def qbuf_zero_def memb_num_def)

text \<open>
  C5. Queueing a packet and loading it back is the identity on what is transmitted: as long as a
  descriptor is free, \<open>queuebuf_new_from_packetbuf\<close> returns a fresh one, keeps every other queued
  packet, and, whatever happens to the packet buffer in between, \<open>queuebuf_to_packetbuf\<close> brings back the
  same header and data bytes, attributes and addresses; \<open>queuebuf_free\<close> then restores the pool.
\<close>

theorem queuebuf_roundtrip:
  assumes "qb_wf s" "pb_wf s" "queuebuf_numfree s \<noteq> 0"
  shows "\<exists>b s1. queuebuf_new_from_packetbuf s = Some (Some b, s1) \<and> qb_wf s1 \<and> b \<notin> memb_used (bufmem s) \<and>
    (\<forall>c \<in> memb_used (bufmem s). qb_contents s1 c = qb_contents s c) \<and>
    memb_used (bufmem (queuebuf_free (Some b) s1)) = memb_used (bufmem s) \<and>
    (\<forall>s2. bufmem s2 = bufmem s1 \<and> buframmem s2 = buframmem s1 \<and> length (packetbuf s2) = PACKETBUF_SIZE \<longrightarrow>
       (\<exists>s3. queuebuf_to_packetbuf b s2 = Some s3 \<and> pb_frame s3 = pb_frame s \<and>
             packetbuf_attrs s3 = packetbuf_attrs s \<and> packetbuf_addrs s3 = packetbuf_addrs s))"
proof -
  from queuebuf_new_ok [OF assms] obtain b old s1 where
    n: "queuebuf_new_from_packetbuf s = Some (Some b, s1)" "qb_wf s1" "b \<notin> memb_used (bufmem s)"
      "memb_used (bufmem s1) = insert b (memb_used (bufmem s))" "length old = PACKETBUF_SIZE"
      "qb_contents s1 b = qd_of_packetbuf old s" "\<forall>c \<in> memb_used (bufmem s). qb_contents s1 c = qb_contents s c"
    by blast
  have "\<exists>s3. queuebuf_to_packetbuf b s2 = Some s3 \<and> pb_frame s3 = pb_frame s \<and>
             packetbuf_attrs s3 = packetbuf_attrs s \<and> packetbuf_addrs s3 = packetbuf_addrs s"
    if s2: "bufmem s2 = bufmem s1 \<and> buframmem s2 = buframmem s1 \<and> length (packetbuf s2) = PACKETBUF_SIZE" for s2
  proof -
    have blk: "qb_block s2 = qb_block s1" using s2 by (simp add: qb_block_def fun_eq_iff)
    then have "qb_wf s2" "qb_contents s2 b = qb_contents s1 b" "b \<in> memb_used (bufmem s2)"
      using n s2 by (auto simp: qb_wf_def qb_contents_def)
    from queuebuf_to_packetbuf_ok [OF this(1) _ this(3)] this(2) n(5,6) s2 show ?thesis
      using pb_frame_le [OF assms(2)] by (auto simp: qd_of_packetbuf_def put_at_def)
  qed
  then show ?thesis using n queuebuf_free_ok(2) [OF n(2), of b] by auto
qed

theorem queuebuf_roundtrip_witness:
  "\<exists>b s1. queuebuf_new_from_packetbuf (queuebuf_init qbuf_zero) = Some (Some b, s1) \<and>
     memb_used (bufmem (queuebuf_free (Some b) s1)) = {}"
proof -
  have "pb_wf (queuebuf_init qbuf_zero)" using qbuf_zero_wf(1) by (simp add: pb_wf_def queuebuf_init_def)
  then show ?thesis
    using queuebuf_roundtrip [of "queuebuf_init qbuf_zero"] queuebuf_init_wf [OF qbuf_zero_wf(2,3)] by auto
qed

end
