(* ===== verification/RingBufIndex.thy ===== *)
theory RingBufIndex
  imports Prelude
begin

text \<open>
  The ring buffer index library (\<open>os/lib/ringbufindex.c\<close>): the indices of a circular array, kept in
  three bytes. The theory states the contract of a bounded FIFO of array slots as a locale, proves
  from the contract alone what a client that stores its elements in the slots gets, and interprets
  the locale on the C operations.
\<close>

subsection \<open>The C operations\<close>

record ringbufindex =
  rb_mask :: u8
  rb_put_ptr :: u8
  rb_get_ptr :: u8

definition ringbufindex_init :: "u8 \<Rightarrow> ringbufindex" where
  "ringbufindex_init sz = \<lparr> rb_mask = sz - 1, rb_put_ptr = 0, rb_get_ptr = 0 \<rparr>"

definition ringbufindex_elements :: "ringbufindex \<Rightarrow> int" where
  "ringbufindex_elements r = (uint (rb_put_ptr r) - uint (rb_get_ptr r)) AND uint (rb_mask r)"

definition ringbufindex_put :: "ringbufindex \<Rightarrow> int \<times> ringbufindex" where
  "ringbufindex_put r =
     (if (uint (rb_put_ptr r) - uint (rb_get_ptr r)) AND uint (rb_mask r) = uint (rb_mask r)
      then (0, r)
      else (1, r\<lparr> rb_put_ptr := word_of_int ((uint (rb_put_ptr r) + 1) AND uint (rb_mask r)) \<rparr>))"

definition ringbufindex_peek_put :: "ringbufindex \<Rightarrow> int" where
  "ringbufindex_peek_put r =
     (if (uint (rb_put_ptr r) - uint (rb_get_ptr r)) AND uint (rb_mask r) = uint (rb_mask r)
      then - 1 else uint (rb_put_ptr r))"

definition ringbufindex_get :: "ringbufindex \<Rightarrow> int \<times> ringbufindex" where
  "ringbufindex_get r =
     (if (uint (rb_put_ptr r) - uint (rb_get_ptr r)) AND uint (rb_mask r) > 0
      then (uint (rb_get_ptr r),
            r\<lparr> rb_get_ptr := word_of_int ((uint (rb_get_ptr r) + 1) AND uint (rb_mask r)) \<rparr>)
      else (- 1, r))"

definition ringbufindex_peek_get :: "ringbufindex \<Rightarrow> int" where
  "ringbufindex_peek_get r =
     (if (uint (rb_put_ptr r) - uint (rb_get_ptr r)) AND uint (rb_mask r) > 0
      then uint (rb_get_ptr r) else - 1)"

definition ringbufindex_size :: "ringbufindex \<Rightarrow> int" where
  "ringbufindex_size r = uint (rb_mask r) + 1"

definition ringbufindex_full :: "ringbufindex \<Rightarrow> bool" where
  "ringbufindex_full r \<longleftrightarrow>
     (uint (rb_put_ptr r) - uint (rb_get_ptr r)) AND uint (rb_mask r) = uint (rb_mask r)"

definition ringbufindex_empty :: "ringbufindex \<Rightarrow> bool" where
  "ringbufindex_empty r \<longleftrightarrow> ringbufindex_elements r = 0"

subsection \<open>A client and its abstract counterpart\<close>

text \<open>
  A client of the ring buffer: \<open>Some x\<close> stores \<open>x\<close> at the put index if there is one, \<open>None\<close> fetches
  from the get index; \<open>list_run\<close> is the same client on a bounded list.
\<close>

fun fifo_run :: "('q \<Rightarrow> int \<times> 'q) \<Rightarrow> ('q \<Rightarrow> int) \<Rightarrow> ('q \<Rightarrow> int \<times> 'q) \<Rightarrow> ('q \<Rightarrow> int) \<Rightarrow>
    'q \<Rightarrow> 'e list \<Rightarrow> 'e option list \<Rightarrow> 'e option list" where
  "fifo_run put peek_put get peek_get q arr [] = []"
| "fifo_run put peek_put get peek_get q arr (Some x # ops) =
     (if peek_put q = - 1 then fifo_run put peek_put get peek_get q arr ops
      else fifo_run put peek_put get peek_get (snd (put q)) (arr[nat (peek_put q) := x]) ops)"
| "fifo_run put peek_put get peek_get q arr (None # ops) =
     (if peek_get q = - 1 then None # fifo_run put peek_put get peek_get q arr ops
      else Some (arr ! nat (peek_get q)) # fifo_run put peek_put get peek_get (snd (get q)) arr ops)"

fun list_run :: "nat \<Rightarrow> 'e list \<Rightarrow> 'e option list \<Rightarrow> 'e option list" where
  "list_run n xs [] = []"
| "list_run n xs (Some x # ops) = (if length xs = n then list_run n xs ops else list_run n (xs @ [x]) ops)"
| "list_run n [] (None # ops) = None # list_run n [] ops"
| "list_run n (x # xs) (None # ops) = Some x # list_run n xs ops"

subsection \<open>The contract of a bounded FIFO of slots\<close>

locale slot_fifo =
  fixes invar :: "'q \<Rightarrow> bool"
    and cap :: "'q \<Rightarrow> nat"
    and slots :: "'q \<Rightarrow> nat list"
    and put :: "'q \<Rightarrow> int \<times> 'q"
    and peek_put :: "'q \<Rightarrow> int"
    and get :: "'q \<Rightarrow> int \<times> 'q"
    and peek_get :: "'q \<Rightarrow> int"
  assumes slots_distinct: "invar q \<Longrightarrow> distinct (slots q)"
    and slots_bound: "invar q \<Longrightarrow> i \<in> set (slots q) \<Longrightarrow> i \<le> cap q"
    and slots_len: "invar q \<Longrightarrow> length (slots q) \<le> cap q"
    and put_ok: "invar q \<Longrightarrow> length (slots q) < cap q \<Longrightarrow>
          \<exists>i q'. i \<le> cap q \<and> i \<notin> set (slots q) \<and> peek_put q = int i \<and> put q = (1, q') \<and>
                 invar q' \<and> cap q' = cap q \<and> slots q' = slots q @ [i]"
    and put_full: "invar q \<Longrightarrow> length (slots q) = cap q \<Longrightarrow> peek_put q = - 1 \<and> put q = (0, q)"
    and get_ok: "invar q \<Longrightarrow> slots q = i # is \<Longrightarrow>
          \<exists>q'. peek_get q = int i \<and> get q = (int i, q') \<and> invar q' \<and> cap q' = cap q \<and> slots q' = is"
    and get_empty: "invar q \<Longrightarrow> slots q = [] \<Longrightarrow> peek_get q = - 1 \<and> get q = (- 1, q)"
begin

text \<open>A client keeps the elements in an array indexed by the slots; \<open>contents\<close> is the queue it sees.\<close>

definition contents :: "'q \<Rightarrow> 'e list \<Rightarrow> 'e list" where
  "contents q arr = map (nth arr) (slots q)"

lemma contents_store:
  assumes "invar q" "length (slots q) < cap q" "length arr = Suc (cap q)"
  shows "contents (snd (put q)) (arr[nat (peek_put q) := x]) = contents q arr @ [x]"
proof -
  from put_ok [OF assms(1,2)] obtain i q' where i: "i \<le> cap q" "i \<notin> set (slots q)"
    "peek_put q = int i" "put q = (1, q')" "slots q' = slots q @ [i]"
    by blast
  have "map (nth (arr[i := x])) (slots q) = map (nth arr) (slots q)"
    by (rule map_cong [OF refl]) (metis i(2) nth_list_update_neq)
  then show ?thesis
    using i assms(3) by (simp add: contents_def)
qed

lemma contents_fetch:
  assumes "invar q" "contents q arr = x # xs"
  shows "arr ! nat (peek_get q) = x" "peek_get q \<noteq> - 1" "get q = (peek_get q, snd (get q))"
    "contents (snd (get q)) arr = xs" "invar (snd (get q))" "cap (snd (get q)) = cap q"
proof -
  from assms(2) obtain i "is" where s: "slots q = i # is" and x: "arr ! i = x" "map (nth arr) is = xs"
    by (auto simp: contents_def)
  from get_ok [OF assms(1) s] obtain q' where q': "peek_get q = int i" "get q = (int i, q')" "invar q'"
      "cap q' = cap q" "slots q' = is"
    by blast
  show "arr ! nat (peek_get q) = x" "peek_get q \<noteq> - 1" "get q = (peek_get q, snd (get q))"
    "contents (snd (get q)) arr = xs" "invar (snd (get q))" "cap (snd (get q)) = cap q"
    using q' x by (simp_all add: contents_def)
qed

lemma peek_get_empty_iff: "invar q \<Longrightarrow> peek_get q = - 1 \<longleftrightarrow> slots q = []"
  using get_ok [of q] get_empty [of q] by (cases "slots q") force+

lemma peek_put_full_iff: "invar q \<Longrightarrow> peek_put q = - 1 \<longleftrightarrow> length (slots q) = cap q"
  using put_ok [of q] put_full [of q] slots_len [of q] by (cases "length (slots q) < cap q") force+

text \<open>The operations keep the invariant and the capacity, full and empty rings included.\<close>

lemma put_invar: "invar q \<Longrightarrow> invar (snd (put q)) \<and> cap (snd (put q)) = cap q"
  using put_ok [of q] put_full [of q] slots_len [of q] by (cases "length (slots q) < cap q") force+

lemma get_invar: "invar q \<Longrightarrow> invar (snd (get q)) \<and> cap (snd (get q)) = cap q"
  using get_ok [of q] get_empty [of q] by (cases "slots q") force+

lemma fifo_run_refines:
  assumes "invar q" "length arr = Suc (cap q)"
  shows "fifo_run put peek_put get peek_get q arr ops = list_run (cap q) (contents q arr) ops"
  using assms
proof (induction ops arbitrary: q arr)
  case (Cons op ops)
  have len: "length (contents q arr) = length (slots q)" by (simp add: contents_def)
  show ?case
  proof (cases op)
    case (Some x)
    then show ?thesis
      using Cons contents_store [of q arr x] put_invar [of q] peek_put_full_iff [of q]
        slots_len [of q] len
      by (cases "length (slots q) = cap q") auto
  next
    case None
    then show ?thesis
      using Cons contents_fetch [of q arr] peek_get_empty_iff [of q]
      by (cases "contents q arr") (auto simp: contents_def)
  qed
qed simp

end

subsection \<open>The C operations satisfy the contract\<close>

definition ring_wf :: "ringbufindex \<Rightarrow> bool" where
  "ring_wf r \<longleftrightarrow> list_ex (\<lambda>k. Suc (unat (rb_mask r)) = 2 ^ k) [0..<9] \<and>
     rb_put_ptr r \<le> rb_mask r \<and> rb_get_ptr r \<le> rb_mask r"

definition ring_cap :: "ringbufindex \<Rightarrow> nat" where
  "ring_cap r = unat (rb_mask r)"

definition ring_slots :: "ringbufindex \<Rightarrow> nat list" where
  "ring_slots r = map (\<lambda>i. (unat (rb_get_ptr r) + i) mod Suc (unat (rb_mask r)))
     [0..<nat (ringbufindex_elements r)]"

lemma and_pow2_mask: "Suc m = 2 ^ k \<Longrightarrow> (x :: int) AND int m = x mod int (Suc m)"
proof -
  assume m: "Suc m = 2 ^ k"
  then have "int (Suc m) = 2 ^ k" by (simp only: of_nat_power of_nat_numeral)
  then have "int m = mask k" and "int (Suc m) = 2 ^ k" by (simp_all add: mask_eq_exp_minus_1)
  then show ?thesis by (simp only: flip: take_bit_eq_mask) (simp add: take_bit_eq_mod)
qed

lemma ring_and: "ring_wf r \<Longrightarrow> x AND uint (rb_mask r) = x mod int (Suc (ring_cap r))"
proof -
  assume "ring_wf r"
  then obtain k where "Suc (unat (rb_mask r)) = 2 ^ k"
    unfolding ring_wf_def list_ex_iff by blast
  from and_pow2_mask [OF this] show ?thesis
    by (simp only: ring_cap_def uint_nat)
qed

lemma ring_ptrs: "ring_wf r \<Longrightarrow> unat (rb_put_ptr r) \<le> ring_cap r \<and> unat (rb_get_ptr r) \<le> ring_cap r"
  by (simp add: ring_wf_def ring_cap_def word_le_nat_alt)

lemma diff_mod_unique:
  assumes "p < S" "g < S"
  shows "nat ((int p - int g) mod int S) < S" "(g + nat ((int p - int g) mod int S)) mod S = p"
proof -
  have "int ((g + nat ((int p - int g) mod int S)) mod S) = int p"
    using assms by (simp add: zmod_int mod_add_right_eq)
  then show "(g + nat ((int p - int g) mod int S)) mod S = p" by (simp only: of_nat_eq_iff)
  show "nat ((int p - int g) mod int S) < S"
    using assms by (simp add: nat_less_iff)
qed

lemma mod_shift_inject:
  assumes "(g + a) mod S = (g + b) mod S" "a < S" "b < (S :: nat)"
  shows "a = b"
proof -
  have "(int g + int a) mod int S = (int g + int b) mod int S"
    using assms(1) by (metis of_nat_add zmod_int)
  then have "int a mod int S = int b mod int S" by (metis add_diff_cancel_left' mod_diff_left_eq)
  then show ?thesis using assms(2,3) by simp
qed

definition ring_count :: "ringbufindex \<Rightarrow> nat" where
  "ring_count r = nat (ringbufindex_elements r)"

lemma ring_count:
  assumes "ring_wf r"
  shows "ring_count r \<le> ring_cap r"
    "(unat (rb_get_ptr r) + ring_count r) mod Suc (ring_cap r) = unat (rb_put_ptr r)"
    "ringbufindex_elements r = int (ring_count r)"
proof -
  let ?p = "unat (rb_put_ptr r)" and ?g = "unat (rb_get_ptr r)" and ?S = "Suc (ring_cap r)"
  have pg: "?p < ?S" "?g < ?S" using ring_ptrs [OF assms] by auto
  have e: "ringbufindex_elements r = (int ?p - int ?g) mod int ?S"
    unfolding ringbufindex_elements_def using ring_and [OF assms] by (simp only: uint_nat)
  show "ring_count r \<le> ring_cap r" "(?g + ring_count r) mod ?S = ?p"
    using diff_mod_unique [OF pg] unfolding ring_count_def e by simp_all
  show "ringbufindex_elements r = int (ring_count r)"
    unfolding ring_count_def e by simp
qed

lemma ring_countI:
  assumes "ring_wf r" "n \<le> ring_cap r"
    "(unat (rb_get_ptr r) + n) mod Suc (ring_cap r) = unat (rb_put_ptr r)"
  shows "ring_count r = n"
  by (rule mod_shift_inject [of "unat (rb_get_ptr r)" _ "Suc (ring_cap r)"])
    (simp_all add: assms(3) ring_count [OF assms(1)] assms(2) le_imp_less_Suc)

text \<open>Advancing a pointer is addition modulo the size.\<close>

lemma ring_advance:
  assumes "ring_wf r"
  shows "unat (word_of_int ((uint w + 1) AND uint (rb_mask r)) :: u8) = Suc (unat w) mod Suc (ring_cap r)"
proof -
  let ?n = "Suc (unat w) mod Suc (ring_cap r)"
  have "ring_cap r < 256" by (simp add: ring_cap_def)
  then have n: "?n < 256"
    by (meson Suc_leI le_trans less_le_trans mod_less_divisor zero_less_Suc)
  have "(uint w + 1) AND uint (rb_mask r) = int ?n"
    unfolding ring_and [OF assms] by (simp add: zmod_int add.commute)
  then show ?thesis
    using n by simp
qed

lemma ring_cap_int: "uint (rb_mask r) = int (ring_cap r)"
  by (simp add: ring_cap_def)

lemma ring_full: "ring_wf r \<Longrightarrow> ringbufindex_full r \<longleftrightarrow> ring_count r = ring_cap r"
  unfolding ringbufindex_full_def ringbufindex_elements_def [symmetric]
  using ring_count(3) [of r] ring_cap_int [of r] by (metis of_nat_eq_iff)

lemma length_ring_slots: "length (ring_slots r) = ring_count r"
  by (simp add: ring_slots_def ring_count_def)

lemma ring_slots_distinct: "ring_wf r \<Longrightarrow> distinct (ring_slots r)"
  using ring_count(1) [of r]
  by (auto simp: ring_slots_def distinct_map ring_count_def ring_cap_def
      intro!: inj_onI dest!: mod_shift_inject)

lemma ring_put_not_full:
  assumes r: "ring_wf r" and nf: "ring_count r < ring_cap r"
  defines "r' \<equiv> snd (ringbufindex_put r)"
  shows "ringbufindex_put r = (1, r')" "ring_wf r'" "ring_cap r' = ring_cap r"
    "ring_slots r' = ring_slots r @ [unat (rb_put_ptr r)]" "unat (rb_put_ptr r) \<notin> set (ring_slots r)"
    "ringbufindex_peek_put r = int (unat (rb_put_ptr r))"
proof -
  let ?g = "unat (rb_get_ptr r)" and ?S = "Suc (ring_cap r)" and ?n = "ring_count r"
  have not_full: "\<not> ringbufindex_full r" using ring_full [OF r] nf by simp
  then have r': "ringbufindex_put r = (1, r')" "r' = r\<lparr> rb_put_ptr := rb_put_ptr r' \<rparr>"
      "rb_put_ptr r' = word_of_int ((uint (rb_put_ptr r) + 1) AND uint (rb_mask r))"
    unfolding r'_def by (simp_all add: ringbufindex_put_def ringbufindex_full_def)
  have same: "rb_mask r' = rb_mask r" "rb_get_ptr r' = rb_get_ptr r" by (subst r'(2), simp)+
  then have cap: "ring_cap r' = ring_cap r" by (simp add: ring_cap_def)
  have put: "unat (rb_put_ptr r') = Suc (unat (rb_put_ptr r)) mod ?S"
    unfolding r'(3) by (rule ring_advance [OF r])
  have "rb_put_ptr r' \<le> rb_mask r'"
    unfolding word_le_nat_alt put same(1) ring_cap_def by (rule mod_le_divisor_Suc)
  then have wf: "ring_wf r'" using r same by (simp add: ring_wf_def)
  have cnt: "ring_count r' = Suc ?n"
    using nf cap same put ring_count(2) [OF r]
    by (intro ring_countI [OF wf]) (simp, metis add_Suc_right mod_Suc_eq)
  show "ringbufindex_put r = (1, r')" "ring_wf r'" "ring_cap r' = ring_cap r" by fact+
  show "ring_slots r' = ring_slots r @ [unat (rb_put_ptr r)]"
    using cnt ring_count(2) [OF r] by (simp add: ring_slots_def same ring_count_def ring_cap_def)
  then show "unat (rb_put_ptr r) \<notin> set (ring_slots r)"
    using ring_slots_distinct [OF wf] by simp
  show "ringbufindex_peek_put r = int (unat (rb_put_ptr r))"
    using not_full by (simp add: ringbufindex_peek_put_def ringbufindex_full_def)
qed

lemma ring_get_not_empty:
  assumes r: "ring_wf r" and ne: "ring_count r = Suc n"
  defines "r' \<equiv> snd (ringbufindex_get r)"
  shows "ringbufindex_get r = (int (unat (rb_get_ptr r)), r')" "ring_wf r'" "ring_cap r' = ring_cap r"
    "ring_slots r = unat (rb_get_ptr r) # ring_slots r'"
    "ringbufindex_peek_get r = int (unat (rb_get_ptr r))"
proof -
  let ?g = "unat (rb_get_ptr r)" and ?S = "Suc (ring_cap r)"
  have pos: "0 < ringbufindex_elements r" using ring_count(3) [OF r] ne by simp
  then have r': "ringbufindex_get r = (int ?g, r')" "r' = r\<lparr> rb_get_ptr := rb_get_ptr r' \<rparr>"
      "rb_get_ptr r' = word_of_int ((uint (rb_get_ptr r) + 1) AND uint (rb_mask r))"
    unfolding r'_def by (simp_all add: ringbufindex_get_def ringbufindex_elements_def)
  have same: "rb_mask r' = rb_mask r" "rb_put_ptr r' = rb_put_ptr r" by (subst r'(2), simp)+
  then have cap: "ring_cap r' = ring_cap r" by (simp add: ring_cap_def)
  have get: "unat (rb_get_ptr r') = Suc ?g mod ?S"
    unfolding r'(3) by (rule ring_advance [OF r])
  have "rb_get_ptr r' \<le> rb_mask r'"
    unfolding word_le_nat_alt get same(1) ring_cap_def by (rule mod_le_divisor_Suc)
  then have wf: "ring_wf r'" using r same by (simp add: ring_wf_def)
  have cnt: "ring_count r' = n"
    using ne cap same get ring_count(1,2) [OF r]
    by (intro ring_countI [OF wf]) (simp_all add: mod_add_left_eq)
  show "ringbufindex_get r = (int ?g, r')" "ring_wf r'" "ring_cap r' = ring_cap r" by fact+
  have "[0..<Suc n] = 0 # map Suc [0..<n]" by (simp add: map_Suc_upt upt_conv_Cons)
  moreover have "?g mod ?S = ?g" using ring_ptrs [OF r] by simp
  ultimately show "ring_slots r = ?g # ring_slots r'"
    using cnt ne get same unfolding ring_slots_def ring_count_def
    by (simp add: ring_cap_def mod_add_left_eq)
  show "ringbufindex_peek_get r = int ?g"
    using pos by (simp add: ringbufindex_peek_get_def ringbufindex_elements_def)
qed

lemma ring_slots_Nil: "ring_wf r \<Longrightarrow> ring_slots r = [] \<longleftrightarrow> ring_count r = 0"
  by (metis length_0_conv length_ring_slots)

lemma ring_get_empty:
  "ring_wf r \<Longrightarrow> ring_count r = 0 \<Longrightarrow> ringbufindex_peek_get r = - 1 \<and> ringbufindex_get r = (- 1, r)"
  using ring_count(3) [of r]
  by (simp add: ringbufindex_peek_get_def ringbufindex_get_def ringbufindex_elements_def)

lemma ring_put_full:
  "ring_wf r \<Longrightarrow> ring_count r = ring_cap r \<Longrightarrow> ringbufindex_peek_put r = - 1 \<and> ringbufindex_put r = (0, r)"
  using ring_full [of r]
  by (simp add: ringbufindex_peek_put_def ringbufindex_put_def ringbufindex_full_def)

lemma ring_slots_le: "i \<in> set (ring_slots r) \<Longrightarrow> i \<le> ring_cap r"
  unfolding ring_slots_def ring_cap_def using mod_le_divisor_Suc by auto

interpretation rb: slot_fifo ring_wf ring_cap ring_slots
  ringbufindex_put ringbufindex_peek_put ringbufindex_get ringbufindex_peek_get
proof unfold_locales
  fix q assume q: "ring_wf q"
  show "distinct (ring_slots q)" by (rule ring_slots_distinct [OF q])
  show "length (ring_slots q) \<le> ring_cap q" using ring_count(1) [OF q] by (simp add: length_ring_slots)
  show "i \<le> ring_cap q" if "i \<in> set (ring_slots q)" for i using ring_slots_le that by blast
  show "\<exists>i q'. i \<le> ring_cap q \<and> i \<notin> set (ring_slots q) \<and> ringbufindex_peek_put q = int i \<and>
      ringbufindex_put q = (1, q') \<and> ring_wf q' \<and> ring_cap q' = ring_cap q \<and> ring_slots q' = ring_slots q @ [i]"
    if "length (ring_slots q) < ring_cap q"
    using ring_put_not_full [OF q] that ring_ptrs [OF q] unfolding length_ring_slots by blast
  show "ringbufindex_peek_put q = - 1 \<and> ringbufindex_put q = (0, q)" if "length (ring_slots q) = ring_cap q"
    using ring_put_full [OF q] that unfolding length_ring_slots by simp
  show "\<exists>q'. ringbufindex_peek_get q = int i \<and> ringbufindex_get q = (int i, q') \<and> ring_wf q' \<and>
      ring_cap q' = ring_cap q \<and> ring_slots q' = is" if "ring_slots q = i # is" for i "is"
  proof -
    have "ring_count q = Suc (length is)" using that length_ring_slots [of q] by simp
    from ring_get_not_empty [OF q this] show ?thesis using that by auto
  qed
  show "ringbufindex_peek_get q = - 1 \<and> ringbufindex_get q = (- 1, q)" if "ring_slots q = []"
    using ring_get_empty [OF q] ring_slots_Nil [OF q] that by simp
qed

lemma ring_init_wf:
  assumes "k \<le> 7"
  shows "ring_wf (ringbufindex_init (2 ^ k))" "ring_cap (ringbufindex_init (2 ^ k)) = 2 ^ k - 1"
    "ring_slots (ringbufindex_init sz) = []"
proof -
  have "k \<in> {0, 1, 2, 3, 4, 5, 6, 7}" using assms by auto
  then show "ring_wf (ringbufindex_init (2 ^ k))" "ring_cap (ringbufindex_init (2 ^ k)) = 2 ^ k - 1"
    by (auto simp: ring_wf_def ring_cap_def ringbufindex_init_def upt_rec)
  show "ring_slots (ringbufindex_init sz) = []"
    by (simp add: ring_slots_def ringbufindex_init_def ringbufindex_elements_def)
qed

text \<open>
  C6. A ring buffer initialised with a power-of-two size \<open>2 ^ k\<close> (at most 128, the largest one a
  \<open>uint8_t\<close> argument can hold), driven by any sequence of stores at \<open>ringbufindex_peek_put\<close> followed by
  \<open>ringbufindex_put\<close> and of fetches at \<open>ringbufindex_peek_get\<close> followed by \<open>ringbufindex_get\<close>, delivers
  exactly what a FIFO list bounded by \<open>2 ^ k - 1\<close> elements delivers: elements in order, none lost
  or duplicated, rejection exactly when full, the empty answer exactly when empty.
\<close>

theorem ringbufindex_fifo:
  assumes "k \<le> 7" "length arr = 2 ^ k"
  shows "fifo_run ringbufindex_put ringbufindex_peek_put ringbufindex_get ringbufindex_peek_get
           (ringbufindex_init (2 ^ k)) arr ops = list_run (2 ^ k - 1) [] ops"
  using rb.fifo_run_refines [OF ring_init_wf(1) [OF assms(1)], of arr ops] ring_init_wf(2,3) [OF assms(1)] assms(2)
  by (simp add: rb.contents_def)

theorem ringbufindex_fifo_witness:
  "fifo_run ringbufindex_put ringbufindex_peek_put ringbufindex_get ringbufindex_peek_get
     (ringbufindex_init 2) [0, 0 :: nat] [Some 5, Some 6, None, None] = [Some 5, None]"
  using ringbufindex_fifo [of 1 "[0, 0 :: nat]" "[Some 5, Some 6, None, None]"] by simp

end
