(* ===== verification/Asn.thy ===== *)
theory Asn
  imports Prelude
begin

text \<open>
  The 5-byte absolute slot number (\<open>os/net/mac/tsch/tsch-asn.h\<close>) and the wrap-safe comparison of
  16-bit slot numbers (\<open>os/net/mac/tsch/tsch-private.h\<close>), against 40-bit arithmetic.
\<close>

record tsch_asn_t =
  ls4b :: u32
  ms1b :: u8

record tsch_asn_divisor_t =
  asn_val :: u16
  asn_ms1b_remainder :: u16

definition TSCH_ASN_INIT :: "u8 \<Rightarrow> u32 \<Rightarrow> tsch_asn_t" where
  "TSCH_ASN_INIT ms ls = \<lparr> ls4b = ls, ms1b = ms \<rparr>"

definition TSCH_ASN_INC :: "tsch_asn_t \<Rightarrow> u32 \<Rightarrow> tsch_asn_t" where
  "TSCH_ASN_INC asn n =
     (let new_ls4b = ls4b asn + n;
          asn = (if new_ls4b < ls4b asn then asn\<lparr> ms1b := ms1b asn + 1 \<rparr> else asn)
      in asn\<lparr> ls4b := new_ls4b \<rparr>)"

definition TSCH_ASN_DEC :: "tsch_asn_t \<Rightarrow> u32 \<Rightarrow> tsch_asn_t" where
  "TSCH_ASN_DEC asn n =
     (let new_ls4b = ls4b asn - n;
          asn = (if new_ls4b > ls4b asn then asn\<lparr> ms1b := ms1b asn - 1 \<rparr> else asn)
      in asn\<lparr> ls4b := new_ls4b \<rparr>)"

definition TSCH_ASN_DIFF :: "tsch_asn_t \<Rightarrow> tsch_asn_t \<Rightarrow> u32" where
  "TSCH_ASN_DIFF asn1 asn2 = ls4b asn1 - ls4b asn2"

definition TSCH_ASN_DIVISOR_INIT :: "u16 \<Rightarrow> tsch_asn_divisor_t" where
  "TSCH_ASN_DIVISOR_INIT v =
     \<lparr> asn_val = v, asn_ms1b_remainder = ucast ((0xffffffff mod (ucast v) + 1) mod (ucast v :: u32)) \<rparr>"

text \<open>The sum of the two 16-bit casts and the product are \<open>int\<close> expressions of at most 24 bits.\<close>

definition TSCH_ASN_MOD :: "tsch_asn_t \<Rightarrow> tsch_asn_divisor_t \<Rightarrow> u16" where
  "TSCH_ASN_MOD asn d =
     word_of_int ((uint (ucast (ls4b asn mod ucast (asn_val d)) :: u16) +
       uint (word_of_int (uint (ms1b asn) * uint (asn_ms1b_remainder d) mod uint (asn_val d)) :: u16))
       mod uint (asn_val d))"

definition TSCH_SLOTNUM_DIFF16 :: "u16 \<Rightarrow> u16 \<Rightarrow> int" where
  "TSCH_SLOTNUM_DIFF16 s1 s2 = sint (word_of_int ((uint s1 - uint s2) AND 0xFFFF) :: u16)"

definition TSCH_SLOTNUM_LT :: "u16 \<Rightarrow> u16 \<Rightarrow> bool" where
  "TSCH_SLOTNUM_LT s1 s2 \<longleftrightarrow> TSCH_SLOTNUM_DIFF16 s1 s2 < 0"

subsection \<open>The absolute slot number as a 40-bit number\<close>

definition asn_int :: "tsch_asn_t \<Rightarrow> int" where
  "asn_int a = uint (ms1b a) * 2 ^ 32 + uint (ls4b a)"

lemma mod_once: "0 \<le> x \<Longrightarrow> x < 2 * m \<Longrightarrow> x mod (m :: int) = (if x < m then x else x - m)"
  by (smt (verit) minus_mod_self2 mod_pos_pos_trivial)

lemma uint_bounds:
  "uint (w :: u8) < 256" "uint (v :: u16) < 65536" "uint (x :: u32) < 4294967296"
  using unsigned_less [of w] unsigned_less [of v] unsigned_less [of x] by simp_all

lemma uint_plus32: "uint (a + b :: u32) =
    (if uint a + uint b < 4294967296 then uint a + uint b else uint a + uint b - 4294967296)"
  using uint_bounds(3) [of a] uint_bounds(3) [of b] uint_ge_0 [of a] uint_ge_0 [of b]
  by (simp add: uint_word_ariths mod_once)

lemma uint_minus32: "uint (a - b :: u32) =
    (if uint b \<le> uint a then uint a - uint b else uint a - uint b + 4294967296)"
  using uint_bounds(3) [of a] uint_bounds(3) [of b] uint_ge_0 [of a] uint_ge_0 [of b]
  by (simp add: uint_sub_if')

lemma uint_succ8: "uint (a + 1 :: u8) = (if uint a = 255 then 0 else uint a + 1)"
  using uint_bounds(1) [of a] uint_ge_0 [of a] by (simp add: uint_word_ariths mod_once)

lemma uint_pred8: "uint (a - 1 :: u8) = (if uint a = 0 then 255 else uint a - 1)"
proof (cases "uint a = 0")
  case False
  then have "1 \<le> uint a" using uint_ge_0 [of a] by linarith
  then show ?thesis by (simp add: uint_sub_if')
qed (simp add: uint_sub_if')

lemma uint_pos: "(v :: 'a :: len word) \<noteq> 0 \<Longrightarrow> 0 < uint v"
  by (metis order_less_le uint_0_iff uint_ge_0)

lemma asn_int_bounds: "0 \<le> asn_int a" "asn_int a < 2 ^ 40"
  using uint_bounds(1) [of "ms1b a"] uint_bounds(3) [of "ls4b a"] by (simp_all add: asn_int_def)

lemma asn_int_inject: "asn_int a = asn_int b \<longleftrightarrow> (a :: tsch_asn_t) = b"
proof
  assume e: "asn_int a = asn_int b"
  have l: "asn_int c mod 2 ^ 32 = uint (ls4b c)" "asn_int c div 2 ^ 32 = uint (ms1b c)" for c :: tsch_asn_t
    using uint_bounds(3) [of "ls4b c"] uint_ge_0 [of "ls4b c"] by (simp_all add: asn_int_def)
  have "ls4b a = ls4b b" "ms1b a = ms1b b" using l [of a] l [of b] e by (simp_all add: word_uint_eq_iff)
  then show "a = b" by simp
qed simp

lemma mod_2_40: "0 \<le> x \<Longrightarrow> x < 2 ^ 41 \<Longrightarrow> x mod (2 ^ 40 :: int) = (if x < 2 ^ 40 then x else x - 2 ^ 40)"
  by (simp add: mod_once)

lemma mod_2_40_neg: "- (2 ^ 40) \<le> x \<Longrightarrow> x < 2 ^ 40 \<Longrightarrow> x mod (2 ^ 40 :: int) = (if x < 0 then x + 2 ^ 40 else x)"
  using mod_2_40 [of "x + 2 ^ 40"] by (cases "x < 0") simp_all

lemma inc_arith:
  fixes m l k :: int
  assumes "0 \<le> m" "m < 256" "0 \<le> l" "l < 4294967296" "0 \<le> k" "k < 4294967296"
  shows "(m * 4294967296 + l + k) mod 1099511627776 =
    (if l + k < 4294967296 then m * 4294967296 + (l + k)
     else (if m = 255 then 0 else m + 1) * 4294967296 + (l + k - 4294967296))"
  using assms by (subst mod_once) auto

lemma dec_arith:
  fixes m l k :: int
  assumes "0 \<le> m" "m < 256" "0 \<le> l" "l < 4294967296" "0 \<le> k" "k < 4294967296"
  shows "(m * 4294967296 + l - k) mod 1099511627776 =
    (if k \<le> l then m * 4294967296 + (l - k)
     else (if m = 0 then 255 else m - 1) * 4294967296 + (l - k + 4294967296))"
  using assms mod_2_40_neg [of "m * 4294967296 + l - k"] by auto

lemma asn_int_INC: "asn_int (TSCH_ASN_INC a n) = (asn_int a + uint n) mod 2 ^ 40"
proof -
  have c: "ls4b a + n < ls4b a \<longleftrightarrow> \<not> uint (ls4b a) + uint n < 4294967296"
    using uint_bounds(3) [of n] by (auto simp: word_less_def uint_plus32 split: if_splits)
  show ?thesis
    using inc_arith [of "uint (ms1b a)" "uint (ls4b a)" "uint n"]
    by (simp add: TSCH_ASN_INC_def Let_def asn_int_def c uint_plus32 uint_succ8 uint_bounds)
qed

lemma asn_int_DEC: "asn_int (TSCH_ASN_DEC a n) = (asn_int a - uint n) mod 2 ^ 40"
proof -
  have c: "ls4b a < ls4b a - n \<longleftrightarrow> \<not> uint n \<le> uint (ls4b a)"
    using uint_bounds(3) [of n] uint_ge_0 [of n] unfolding word_less_def uint_minus32 by auto
  show ?thesis
    using dec_arith [of "uint (ms1b a)" "uint (ls4b a)" "uint n"]
    by (simp add: TSCH_ASN_DEC_def Let_def asn_int_def c uint_minus32 uint_pred8 uint_bounds)
qed

text \<open>
  \<open>TSCH_ASN_INC\<close> and \<open>TSCH_ASN_DEC\<close> are addition and subtraction of a 32-bit amount modulo \<open>2 ^ 40\<close>:
  the carry into and the borrow from the fifth byte are exact, so a decrement undoes an increment
  for every slot number, wrap-around included; and \<open>TSCH_ASN_DIFF\<close> recovers the amount.
\<close>

theorem asn_inc_dec:
  "asn_int (TSCH_ASN_INC a n) = (asn_int a + uint n) mod 2 ^ 40 \<and>
   asn_int (TSCH_ASN_DEC a n) = (asn_int a - uint n) mod 2 ^ 40 \<and>
   TSCH_ASN_DEC (TSCH_ASN_INC a n) n = (a :: tsch_asn_t) \<and> TSCH_ASN_DIFF (TSCH_ASN_INC a n) a = n"
proof (intro conjI)
  have "asn_int (TSCH_ASN_DEC (TSCH_ASN_INC a n) n) = asn_int a mod 2 ^ 40"
    unfolding asn_int_INC asn_int_DEC by (simp add: mod_diff_left_eq)
  then show "TSCH_ASN_DEC (TSCH_ASN_INC a n) n = a"
    using asn_int_bounds [of a] by (simp flip: asn_int_inject)
  show "TSCH_ASN_DIFF (TSCH_ASN_INC a n) a = n"
    by (simp add: TSCH_ASN_DIFF_def TSCH_ASN_INC_def Let_def)
qed (fact asn_int_INC asn_int_DEC)+

lemma uint_ucast32 [simp]: "uint (ucast (v :: u16) :: u32) = uint v"
  by (simp add: unsigned_ucast_eq take_bit_int_eq_self_iff less_trans [OF uint_bounds(2)])

lemma mod_combine: "(a mod v + b * (c mod v) mod v) mod v = (b * c + a) mod (v :: int)"
  by (simp add: mod_simps add.commute)

lemma asn_remainder:
  assumes "v \<noteq> 0"
  shows "uint (asn_ms1b_remainder (TSCH_ASN_DIVISOR_INIT v)) = 2 ^ 32 mod uint v"
proof -
  let ?v = "ucast v :: u32" and ?V = "uint v"
  have V: "0 < ?V" "?V < 65536" by (rule uint_pos [OF assms], rule uint_bounds)
  have m: "uint (0xffffffff mod ?v) = 4294967295 mod ?V" by (simp add: uint_mod_distrib)
  have B: "x mod ?V < 65536" for x using V pos_mod_bound [OF V(1), of x] by linarith
  have "uint (0xffffffff mod ?v + 1) = 4294967295 mod ?V + 1"
    using B [of 4294967295] by (simp add: uint_plus32 m)
  then have r: "uint ((0xffffffff mod ?v + 1) mod ?v) = 2 ^ 32 mod ?V"
    by (simp add: uint_mod_distrib mod_add_left_eq)
  then have "uint (ucast ((0xffffffff mod ?v + 1) mod ?v) :: u16) = 2 ^ 32 mod ?V"
    using V B [of "2 ^ 32"] by (simp add: unsigned_ucast_eq take_bit_int_eq_self_iff)
  then show ?thesis by (simp add: TSCH_ASN_DIVISOR_INIT_def)
qed

lemma asn_mod_exact:
  assumes "v \<noteq> 0"
  shows "uint (TSCH_ASN_MOD a (TSCH_ASN_DIVISOR_INIT v)) = asn_int a mod uint v"
proof -
  let ?V = "uint v" and ?d = "TSCH_ASN_DIVISOR_INIT v"
  have V: "0 < ?V" "?V < 65536" by (rule uint_pos [OF assms], rule uint_bounds)
  have B: "x mod ?V < 65536" for x using V pos_mod_bound [OF V(1), of x] by linarith
  have small: "uint (word_of_int (x mod ?V) :: u16) = x mod ?V" for x
    using V B [of x] by (simp add: unsigned_of_int take_bit_int_eq_self_iff)
  have "uint (ls4b a mod (ucast v :: u32)) = uint (ls4b a) mod ?V"
    by (simp add: uint_mod_distrib)
  then have ls: "uint (ucast (ls4b a mod (ucast v :: u32)) :: u16) = uint (ls4b a) mod ?V"
    using V B [of "uint (ls4b a)"] by (simp add: unsigned_ucast_eq take_bit_int_eq_self_iff)
  have val: "asn_val ?d = v" by (simp add: TSCH_ASN_DIVISOR_INIT_def)
  have "uint (TSCH_ASN_MOD a ?d) =
      (uint (ls4b a) mod ?V + uint (ms1b a) * (2 ^ 32 mod ?V) mod ?V) mod ?V"
    unfolding TSCH_ASN_MOD_def val asn_remainder [OF assms] small ls ..
  also have "\<dots> = asn_int a mod ?V" unfolding asn_int_def by (rule mod_combine)
  finally show ?thesis .
qed

text \<open>
  C7. For every non-zero slotframe size the quick modulo \<open>TSCH_ASN_MOD\<close>, computed from 16-bit
  remainders, is the true remainder of the 40-bit slot number.
\<close>

theorem asn_mod_correct:
  assumes "v \<noteq> 0"
  shows "uint (TSCH_ASN_MOD a (TSCH_ASN_DIVISOR_INIT v)) = asn_int a mod uint v"
  using assms by (rule asn_mod_exact)

theorem asn_mod_correct_witness:
  "TSCH_ASN_MOD \<lparr> ls4b = 7, ms1b = 3 \<rparr> (TSCH_ASN_DIVISOR_INIT 31) = word_of_int ((3 * 2 ^ 32 + 7) mod 31)"
proof -
  have "uint (TSCH_ASN_MOD \<lparr> ls4b = 7, ms1b = 3 \<rparr> (TSCH_ASN_DIVISOR_INIT 31)) = (3 * 2 ^ 32 + 7) mod 31"
    using asn_mod_correct [of 31 "\<lparr> ls4b = 7, ms1b = 3 \<rparr>"] by (simp add: asn_int_def)
  then show ?thesis by (metis word_of_int_uint)
qed

lemma sint_neg_iff: "sint (w :: u16) < 0 \<longleftrightarrow> 32768 \<le> unat w"
proof -
  have "sint w < 0 \<longleftrightarrow> bit (unat w) 15" using bit_last_iff [of w] by (simp add: bit_unsigned_iff)
  also have "\<dots> \<longleftrightarrow> odd (unat w div 32768)" by (simp add: bit_iff_odd)
  also have "\<dots> \<longleftrightarrow> 32768 \<le> unat w"
  proof (cases "unat w < 32768")
    case False
    then have "unat w div 32768 = 1" using unat_lt_65536 [of w] by (intro div_nat_eqI) auto
    then show ?thesis using False by simp
  qed simp
  finally show ?thesis .
qed

lemma slotnum_diff16: "TSCH_SLOTNUM_DIFF16 a b = sint (a - b)"
proof -
  have ff: "y AND 0xFFFF = take_bit 16 y" for y :: int
    by (simp add: take_bit_eq_mask mask_eq_exp_minus_1)
  have tb: "(word_of_int (take_bit 16 y) :: u16) = word_of_int y" for y
    by (rule bit_word_eqI) (simp add: bit_simps)
  show ?thesis by (simp add: TSCH_SLOTNUM_DIFF16_def ff tb)
qed

text \<open>The comparison in terms of the number of slots left from the first to the second.\<close>

lemma slotnum_lt_left: "TSCH_SLOTNUM_LT a b \<longleftrightarrow> 0 < unat (b - a) \<and> unat (b - a) \<le> 32768"
proof -
  have "TSCH_SLOTNUM_LT a b \<longleftrightarrow> 32768 \<le> unat (- (b - a))"
    by (simp add: TSCH_SLOTNUM_LT_def slotnum_diff16 sint_neg_iff)
  also have "\<dots> \<longleftrightarrow> 0 < unat (b - a) \<and> unat (b - a) \<le> 32768"
  proof (cases "b - a = 0")
    case False
    then have "unat (- (b - a)) = 65536 - unat (b - a)" 
      using unat_sub_if' [of 0 "b - a"] by (auto simp: unat_gt_0 not_le)
    moreover have "0 < unat (b - a)" using False by (simp add: unat_gt_0)
    ultimately show ?thesis using unat_lt_65536 [of "b - a"] by auto
  qed simp
  finally show ?thesis .
qed

text \<open>
  \<open>TSCH_SLOTNUM_LT\<close> is overflow-safe: whenever the second slot number is less than half the range
  ahead of or behind the first, however the 16-bit counters have wrapped, it decides the order.
\<close>

theorem slotnum_lt_wrap_safe:
  assumes "- 32768 \<le> d" "d < 32768"
  shows "TSCH_SLOTNUM_LT (word_of_int (x + d)) (word_of_int x) \<longleftrightarrow> d < 0"
proof -
  let ?w = "word_of_int (x + d) :: u16" and ?x = "word_of_int x :: u16"
  have "TSCH_SLOTNUM_DIFF16 ?w ?x = sint (word_of_int d :: u16)" by (simp add: slotnum_diff16 flip: wi_hom_sub)
  also have "\<dots> = d" using assms by (simp add: signed_of_int signed_take_bit_int_eq_self)
  finally show ?thesis by (simp add: TSCH_SLOTNUM_LT_def)
qed

theorem slotnum_lt_wrap_safe_witness: "TSCH_SLOTNUM_LT 0xFFFE 3 \<and> \<not> TSCH_SLOTNUM_LT 3 0xFFFE"
proof -
  have e: "(65539 :: u16) = 3" by simp
  have "TSCH_SLOTNUM_LT 65534 65539" "\<not> TSCH_SLOTNUM_LT 65539 65534"
    using slotnum_lt_wrap_safe [of "- 5" 65539] slotnum_lt_wrap_safe [of 5 65534] by simp_all
  then show ?thesis unfolding e by simp
qed

end
