(* ===== verification/TschQueue.thy ===== *)
theory TschQueue
  imports QueueBuf RingBufIndex ListLib Asn
begin

text \<open>
  The per-neighbour transmission queues of TSCH (\<open>os/net/mac/tsch/tsch-queue.c\<close>), with the lock of
  \<open>tsch-slot-operation.c\<close> and the keep-alive timer of \<open>tsch.c\<close> they use. A neighbour or packet pointer is
  the index of its block in the pool; the neighbour list is the list of the blocks linked in it, the
  abstraction that \<open>ListLib\<close> justifies. The \<open>sent\<close> function pointer of a packet is a value of
  \<open>mac_callback_t\<close>; its meaning is the parameter \<open>cb\<close> of the operations that call it.
\<close>

subsection \<open>State\<close>

datatype mac_callback_t = NO_CALLBACK | MASTER_ROUTING_OUTPUT_CALLBACK | KEEPALIVE_PACKET_SENT

type_synonym 's mac_cb = "mac_callback_t \<Rightarrow> u8 \<Rightarrow> u8 \<Rightarrow> 's \<Rightarrow> 's option"

record tsch_packet =
  tp_qb :: "nat option"
  tp_sent :: mac_callback_t
  tp_transmissions :: u8
  tp_max_transmissions :: u8
  tp_ret :: u8
  tp_header_len :: u8
  tp_sync_ie_offset :: u8

record tsch_neighbor =
  n_addr :: linkaddr
  n_is_broadcast :: bool
  n_is_time_source :: bool
  n_rank :: u8
  n_time_source :: u8
  n_first_eb :: u16
  n_last_eb :: u16
  n_count :: u16
  n_missed_ebs :: u16
  n_etx_link :: u16
  n_etx_metric_received :: u8
  n_backoff_exponent :: u8
  n_backoff_window :: u8
  n_last_backoff_window :: u8
  n_tx_links_count :: u8
  n_dedicated_tx_links_count :: u8
  n_tx_array :: "nat option list"
  n_tx_ringbuf :: ringbufindex

datatype link_type = LINK_TYPE_NORMAL | LINK_TYPE_ADVERTISING | LINK_TYPE_ADVERTISING_ONLY

record tsch_link =
  l_handle :: u16
  l_addr :: linkaddr
  l_slotframe_handle :: u16
  l_timeslot :: u16
  l_channel_offset :: u16
  l_link_options :: u8
  l_link_type :: link_type

record tsch_state = qbuf_state +
  tsch_locked :: bool
  tsch_lock_requested :: bool
  tsch_in_slot_operation :: bool
  tsch_current_asn :: tsch_asn_t
  tsch_is_coordinator :: bool
  tsch_is_associated :: bool
  tsch_current_ka_timeout :: u32
  keepalive_timer :: "u32 option"
  random_seq :: "nat \<Rightarrow> u16"
  random_pos :: nat
  packet_memb :: "tsch_packet memb"
  neighbor_memb :: "tsch_neighbor memb"
  neighbor_list :: "nat list"
  n_broadcast :: "nat option"
  n_eb :: "nat option"
  num_eb_packets :: u8

definition zero_packet :: tsch_packet where
  "zero_packet = \<lparr> tp_qb = None, tp_sent = NO_CALLBACK, tp_transmissions = 0, tp_max_transmissions = 0,
     tp_ret = 0, tp_header_len = 0, tp_sync_ie_offset = 0 \<rparr>"

definition zero_neighbor :: tsch_neighbor where
  "zero_neighbor = \<lparr> n_addr = linkaddr_null, n_is_broadcast = False, n_is_time_source = False, n_rank = 0,
     n_time_source = 0, n_first_eb = 0, n_last_eb = 0, n_count = 0, n_missed_ebs = 0, n_etx_link = 0,
     n_etx_metric_received = 0, n_backoff_exponent = 0, n_backoff_window = 0, n_last_backoff_window = 0,
     n_tx_links_count = 0, n_dedicated_tx_links_count = 0,
     n_tx_array = replicate (unat TSCH_QUEUE_NUM_PER_NEIGHBOR) None,
     n_tx_ringbuf = \<lparr> rb_mask = 0, rb_put_ptr = 0, rb_get_ptr = 0 \<rparr> \<rparr>"

text \<open>Dereferencing a neighbour or packet pointer, and assigning through it.\<close>

definition nbr :: "'a tsch_state_scheme \<Rightarrow> nat \<Rightarrow> tsch_neighbor" where
  "nbr s n = m_mem (neighbor_memb s) ! n"

definition set_nbr :: "nat \<Rightarrow> tsch_neighbor \<Rightarrow> 'a tsch_state_scheme \<Rightarrow> 'a tsch_state_scheme" where
  "set_nbr n x s = s\<lparr> neighbor_memb := memb_put (neighbor_memb s) n x \<rparr>"

definition pkt :: "'a tsch_state_scheme \<Rightarrow> nat \<Rightarrow> tsch_packet" where
  "pkt s p = m_mem (packet_memb s) ! p"

definition set_pkt :: "nat \<Rightarrow> tsch_packet \<Rightarrow> 'a tsch_state_scheme \<Rightarrow> 'a tsch_state_scheme" where
  "set_pkt p x s = s\<lparr> packet_memb := memb_put (packet_memb s) p x \<rparr>"

definition random_rand :: "'a tsch_state_scheme \<Rightarrow> u16 \<times> 'a tsch_state_scheme" where
  "random_rand s = (random_seq s (random_pos s), s\<lparr> random_pos := Suc (random_pos s) \<rparr>)"

subsection \<open>The lock and the keep-alive timer\<close>

text \<open>
  \<open>tsch_get_lock\<close> busy-waits until the slot operation that may be running (in interrupt context) has
  ended, then takes the lock.
\<close>

definition tsch_is_locked :: "'a tsch_state_scheme \<Rightarrow> bool" where
  "tsch_is_locked s = tsch_locked s"

definition tsch_get_lock :: "'a tsch_state_scheme \<Rightarrow> bool \<times> 'a tsch_state_scheme" where
  "tsch_get_lock s =
     (if \<not> tsch_locked s then
        (True, s\<lparr> tsch_in_slot_operation := False, tsch_locked := True, tsch_lock_requested := False \<rparr>)
      else (False, s))"

definition tsch_release_lock :: "'a tsch_state_scheme \<Rightarrow> 'a tsch_state_scheme" where
  "tsch_release_lock s = s\<lparr> tsch_locked := False \<rparr>"

definition TSCH_KEEPALIVE_TIMEOUT :: u32 where
  "TSCH_KEEPALIVE_TIMEOUT = 12 * 1000"

text \<open>The remainder by \<open>tsch_current_ka_timeout / 10\<close> is undefined for a timeout below ten ticks.\<close>

definition tsch_schedule_keepalive :: "'a tsch_state_scheme \<Rightarrow> 'a tsch_state_scheme option" where
  "tsch_schedule_keepalive s =
     (if \<not> tsch_is_coordinator s \<and> tsch_is_associated s \<and> tsch_current_ka_timeout s > 0 then do {
        let ka = tsch_current_ka_timeout s;
        guard_opt (ka div 10 \<noteq> 0);
        let (r, s) = random_rand s;
        Some (s\<lparr> keepalive_timer := Some ((ka - ka div 10) + (ucast r) mod (ka div 10)) \<rparr>)
      }
      else Some s)"

definition tsch_schedule_keepalive_immediately :: "'a tsch_state_scheme \<Rightarrow> 'a tsch_state_scheme" where
  "tsch_schedule_keepalive_immediately s =
     (if \<not> tsch_is_coordinator s \<and> tsch_is_associated s then s\<lparr> keepalive_timer := Some 0 \<rparr> else s)"

definition tsch_set_ka_timeout :: "u32 \<Rightarrow> 'a tsch_state_scheme \<Rightarrow> 'a tsch_state_scheme option" where
  "tsch_set_ka_timeout timeout s =
     (let s = s\<lparr> tsch_current_ka_timeout := timeout \<rparr> in
      if timeout = 0 then Some (s\<lparr> keepalive_timer := None \<rparr>) else tsch_schedule_keepalive s)"

subsection \<open>Back-off\<close>

definition tsch_queue_backoff_expired :: "tsch_neighbor \<Rightarrow> bool" where
  "tsch_queue_backoff_expired n \<longleftrightarrow> n_backoff_window n = 0"

definition tsch_queue_backoff_reset :: "nat \<Rightarrow> 'a tsch_state_scheme \<Rightarrow> 'a tsch_state_scheme" where
  "tsch_queue_backoff_reset n s =
     set_nbr n ((nbr s n)\<lparr> n_backoff_window := 0, n_backoff_exponent := TSCH_MAC_MIN_BE \<rparr>) s"

definition tsch_queue_backoff_inc :: "nat \<Rightarrow> 'a tsch_state_scheme \<Rightarrow> 'a tsch_state_scheme" where
  "tsch_queue_backoff_inc n s =
     (let be = (if uint (n_backoff_exponent (nbr s n)) + 1 < uint TSCH_MAC_MAX_BE
                then n_backoff_exponent (nbr s n) + 1 else TSCH_MAC_MAX_BE);
          (r, s) = random_rand s;
          w = word_of_int (uint (drop_bit 6 r) mod 2 ^ unat be) :: u8
      in set_nbr n ((nbr s n)\<lparr> n_backoff_exponent := be, n_backoff_window := w + 1 \<rparr>) s)"

subsection \<open>Neighbours\<close>

text \<open>A loop along the list, starting at an element or at the head, that returns the first match.\<close>

definition list_from :: "nat option \<Rightarrow> nat list \<Rightarrow> nat list" where
  "list_from p xs = (case p of None \<Rightarrow> [] | Some x \<Rightarrow> dropWhile (\<lambda>y. y \<noteq> x) xs)"

definition tsch_queue_get_nbr :: "linkaddr \<Rightarrow> 'a tsch_state_scheme \<Rightarrow> nat option" where
  "tsch_queue_get_nbr addr s =
     (if \<not> tsch_is_locked s then find (\<lambda>n. linkaddr_cmp (n_addr (nbr s n)) addr) (neighbor_list s) else None)"

definition tsch_queue_get_nbr_by_node_id :: "u8 \<Rightarrow> 'a tsch_state_scheme \<Rightarrow> nat option" where
  "tsch_queue_get_nbr_by_node_id node_id s =
     (if \<not> tsch_is_locked s then find (\<lambda>n. n_addr (nbr s n) ! NODE_ID_INDEX = node_id) (neighbor_list s)
      else None)"

text \<open>Flow addresses have a zero node id and a non-zero second byte.\<close>

definition is_real_nbr :: "tsch_neighbor \<Rightarrow> bool" where
  "is_real_nbr n \<longleftrightarrow>
     (if linkaddr_cmp (n_addr n) tsch_broadcast_address \<or> linkaddr_cmp (n_addr n) tsch_eb_address then False
      else if n_addr n ! 1 \<noteq> 0 \<and> n_addr n ! NODE_ID_INDEX = 0 then False
      else True)"

definition tsch_queue_first_nbr :: "'a tsch_state_scheme \<Rightarrow> nat option" where
  "tsch_queue_first_nbr s =
     (if \<not> tsch_is_locked s then find (\<lambda>n. is_real_nbr (nbr s n)) (neighbor_list s) else None)"

definition tsch_queue_next_nbr :: "nat option \<Rightarrow> 'a tsch_state_scheme \<Rightarrow> nat option" where
  "tsch_queue_next_nbr neighbour s =
     (if \<not> tsch_is_locked s then
        find (\<lambda>n. is_real_nbr (nbr s n)) (tl (list_from neighbour (neighbor_list s)))
      else None)"

definition tsch_queue_count_nbr :: "'a tsch_state_scheme \<Rightarrow> int" where
  "tsch_queue_count_nbr s =
     (if \<not> tsch_is_locked s then
        int (length (filter (\<lambda>n. \<not> (linkaddr_cmp (n_addr (nbr s n)) tsch_broadcast_address \<or>
                                   linkaddr_cmp (n_addr (nbr s n)) tsch_eb_address \<or>
                                   (n_addr (nbr s n) ! 1 \<noteq> 0 \<and> n_addr (nbr s n) ! NODE_ID_INDEX = 0)))
               (neighbor_list s)))
      else 0)"

definition tsch_queue_add_nbr :: "linkaddr \<Rightarrow> 'a tsch_state_scheme \<Rightarrow> nat option \<times> 'a tsch_state_scheme" where
  "tsch_queue_add_nbr addr s =
     (case tsch_queue_get_nbr addr s of
        Some n \<Rightarrow> (Some n, s)
      | None \<Rightarrow>
          (case tsch_get_lock s of
             (False, s) \<Rightarrow> (None, s)
           | (True, s) \<Rightarrow>
               (case memb_alloc (neighbor_memb s) of
                  (None, m) \<Rightarrow> (None, tsch_release_lock (s\<lparr> neighbor_memb := m \<rparr>))
                | (Some n, m) \<Rightarrow>
                    (let s = s\<lparr> neighbor_memb := m \<rparr>;
                         s = set_nbr n (zero_neighbor
                               \<lparr> n_tx_ringbuf := ringbufindex_init TSCH_QUEUE_NUM_PER_NEIGHBOR, n_addr := addr,
                                 n_is_broadcast := (linkaddr_cmp addr tsch_eb_address \<or>
                                                    linkaddr_cmp addr tsch_broadcast_address) \<rparr>) s;
                         s = tsch_queue_backoff_reset n s;
                         s = s\<lparr> neighbor_list := remove1 n (neighbor_list s) @ [n] \<rparr>
                     in (Some n, tsch_release_lock s)))))"

definition tsch_queue_get_time_source :: "'a tsch_state_scheme \<Rightarrow> nat option" where
  "tsch_queue_get_time_source s =
     (if \<not> tsch_is_locked s then find (\<lambda>n. n_is_time_source (nbr s n)) (neighbor_list s) else None)"

definition tsch_queue_update_time_source ::
    "linkaddr option \<Rightarrow> 'a tsch_state_scheme \<Rightarrow> (bool \<times> 'a tsch_state_scheme) option" where
  "tsch_queue_update_time_source new_addr s =
     (if \<not> tsch_is_locked s \<and> \<not> tsch_is_coordinator s then
        (let old_time_src = tsch_queue_get_time_source s;
             (new_time_src, s) = (case new_addr of
                                    Some a \<Rightarrow> tsch_queue_add_nbr a s
                                  | None \<Rightarrow> (None, s))
         in if new_addr \<noteq> None \<and> new_time_src = None then Some (False, s)
            else if new_time_src \<noteq> old_time_src then do {
              s \<leftarrow> (case new_time_src of
                      Some n \<Rightarrow> tsch_set_ka_timeout TSCH_KEEPALIVE_TIMEOUT
                                 (set_nbr n ((nbr s n)\<lparr> n_is_time_source := True \<rparr>) s)
                    | None \<Rightarrow> tsch_set_ka_timeout 0 s);
              let s = (case old_time_src of
                         Some n \<Rightarrow> set_nbr n ((nbr s n)\<lparr> n_is_time_source := False \<rparr>) s
                       | None \<Rightarrow> s);
              Some (True, s)
            }
            else Some (True, s))
      else Some (False, s))"

definition tsch_queue_update_time_source_rank :: "u8 \<Rightarrow> 'a tsch_state_scheme \<Rightarrow> 'a tsch_state_scheme option" where
  "tsch_queue_update_time_source_rank time_source_rank s = do {
     n \<leftarrow> tsch_queue_get_time_source s;
     Some (set_nbr n ((nbr s n)\<lparr> n_rank := time_source_rank \<rparr>) s)
   }"

definition tsch_queue_update_neighbour_rank_and_time_source ::
    "linkaddr option \<Rightarrow> u8 \<Rightarrow> u8 \<Rightarrow> 'a tsch_state_scheme \<Rightarrow> 'a tsch_state_scheme" where
  "tsch_queue_update_neighbour_rank_and_time_source neighbour_addr rank time_source s =
     (case neighbour_addr of
        None \<Rightarrow> s
      | Some a \<Rightarrow>
          (case tsch_queue_get_nbr a s of
             None \<Rightarrow> s
           | Some n \<Rightarrow> set_nbr n ((nbr s n)\<lparr> n_rank := rank, n_time_source := time_source \<rparr>) s))"

subsection \<open>Packets\<close>

definition tsch_queue_is_empty :: "nat option \<Rightarrow> 'a tsch_state_scheme \<Rightarrow> bool" where
  "tsch_queue_is_empty n s =
     (\<not> tsch_is_locked s \<and> (case n of None \<Rightarrow> False | Some n \<Rightarrow> ringbufindex_empty (n_tx_ringbuf (nbr s n))))"

text \<open>The packet pointer stored at an index of a neighbour's array; reading past the array is undefined.\<close>

definition tx_array_at :: "tsch_neighbor \<Rightarrow> int \<Rightarrow> nat option option" where
  "tx_array_at n i = nth_opt (n_tx_array n) (nat i)"

definition tsch_queue_is_packet_in_nbr_queue ::
    "nat option \<Rightarrow> u8 \<Rightarrow> 'a tsch_state_scheme \<Rightarrow> bool option" where
  "tsch_queue_is_packet_in_nbr_queue n packet_number s =
     (if \<not> tsch_is_locked s then
        (case n of
           None \<Rightarrow> Some False
         | Some n \<Rightarrow>
             (let index = ringbufindex_peek_get (n_tx_ringbuf (nbr s n)) in
              if index \<noteq> - 1 then do {
                e \<leftarrow> tx_array_at (nbr s n) index;
                p \<leftarrow> e;
                (case tp_qb (pkt s p) of
                   None \<Rightarrow> Some False
                 | Some q \<Rightarrow> do {
                     a \<leftarrow> queuebuf_attr q PACKETBUF_ATTR_PACKET_NUMBER s;
                     Some (a = ucast packet_number)
                   })
              }
              else Some False))
      else Some False)"

definition tsch_queue_remove_packet_from_queue ::
    "nat option \<Rightarrow> 'a tsch_state_scheme \<Rightarrow> (nat option \<times> 'a tsch_state_scheme) option" where
  "tsch_queue_remove_packet_from_queue n s =
     (if \<not> tsch_is_locked s then
        (case n of
           None \<Rightarrow> Some (None, s)
         | Some n \<Rightarrow>
             (let (get_index, ring) = ringbufindex_get (n_tx_ringbuf (nbr s n));
                  s = set_nbr n ((nbr s n)\<lparr> n_tx_ringbuf := ring \<rparr>) s
              in if get_index \<noteq> - 1 then do {
                   let s = (if n_eb s = Some n then s\<lparr> num_eb_packets := num_eb_packets s - 1 \<rparr> else s);
                   p \<leftarrow> tx_array_at (nbr s n) get_index;
                   Some (p, s)
                 }
                 else Some (None, s)))
      else Some (None, s))"

definition tsch_queue_free_packet :: "nat option \<Rightarrow> 'a tsch_state_scheme \<Rightarrow> 'a tsch_state_scheme" where
  "tsch_queue_free_packet p s =
     (case p of
        None \<Rightarrow> s
      | Some p \<Rightarrow>
          (let s = queuebuf_free (tp_qb (pkt s p)) s
           in s\<lparr> packet_memb := snd (memb_free (packet_memb s) p) \<rparr>))"

definition mac_call_sent_callback :: "'s mac_cb \<Rightarrow> mac_callback_t \<Rightarrow> u8 \<Rightarrow> u8 \<Rightarrow> 's \<Rightarrow> 's option" where
  "mac_call_sent_callback cb sent status num_tx s =
     (if sent \<noteq> NO_CALLBACK then cb sent status num_tx s else Some s)"

text \<open>
  The loop ends only when the queue is empty: it runs forever while TSCH is locked, or when the
  callback always queues another packet.
\<close>

partial_function (option) tsch_queue_flush_nbr_queue ::
    "'a tsch_state_scheme mac_cb \<Rightarrow> nat \<Rightarrow> 'a tsch_state_scheme \<Rightarrow> 'a tsch_state_scheme option" where
  "tsch_queue_flush_nbr_queue cb n s =
     (if tsch_queue_is_empty (Some n) s then Some s
      else do {
        (p, s) \<leftarrow> tsch_queue_remove_packet_from_queue (Some n) s;
        (case p of
           None \<Rightarrow> tsch_queue_flush_nbr_queue cb n s
         | Some p \<Rightarrow> do {
             let s = set_pkt p ((pkt s p)\<lparr> tp_ret := MAC_TX_ERR \<rparr>) s;
             s \<leftarrow> mac_call_sent_callback cb (tp_sent (pkt s p)) (tp_ret (pkt s p)) (tp_transmissions (pkt s p)) s;
             let s = tsch_queue_free_packet (Some p) s;
             tsch_queue_flush_nbr_queue cb n s
           })
      })"

definition tsch_queue_remove_nbr ::
    "'a tsch_state_scheme mac_cb \<Rightarrow> nat option \<Rightarrow> 'a tsch_state_scheme \<Rightarrow> 'a tsch_state_scheme option" where
  "tsch_queue_remove_nbr cb n s =
     (case n of
        None \<Rightarrow> Some s
      | Some n \<Rightarrow>
          (case tsch_get_lock s of
             (False, s) \<Rightarrow> Some s
           | (True, s) \<Rightarrow> do {
               let s = s\<lparr> neighbor_list := remove1 n (neighbor_list s) \<rparr>;
               let s = tsch_release_lock s;
               s \<leftarrow> tsch_queue_flush_nbr_queue cb n s;
               Some (s\<lparr> neighbor_memb := snd (memb_free (neighbor_memb s) n) \<rparr>)
             }))"

definition tsch_queue_add_packet ::
    "linkaddr \<Rightarrow> u8 \<Rightarrow> mac_callback_t \<Rightarrow> 'a tsch_state_scheme \<Rightarrow> (nat option \<times> 'a tsch_state_scheme) option" where
  "tsch_queue_add_packet addr max_transmissions sent s =
     (if \<not> tsch_is_locked s then
        (case tsch_queue_add_nbr addr s of
           (None, s) \<Rightarrow> Some (None, s)
         | (Some n, s) \<Rightarrow>
             (let put_index = ringbufindex_peek_put (n_tx_ringbuf (nbr s n)) in
              if put_index \<noteq> - 1 then
                (case memb_alloc (packet_memb s) of
                   (None, m) \<Rightarrow> Some (None, s\<lparr> packet_memb := m \<rparr>)
                 | (Some p, m) \<Rightarrow> do {
                     let s = s\<lparr> packet_memb := m \<rparr>;
                     (qb, s) \<leftarrow> queuebuf_new_from_packetbuf s;
                     let s = set_pkt p ((pkt s p)\<lparr> tp_qb := qb \<rparr>) s;
                     if qb \<noteq> None then do {
                       let s = set_pkt p ((pkt s p)\<lparr> tp_sent := sent, tp_ret := MAC_TX_DEFERRED,
                                 tp_transmissions := 0, tp_max_transmissions := max_transmissions \<rparr>) s;
                       arr \<leftarrow> upd_opt (n_tx_array (nbr s n)) (nat put_index) (Some p);
                       let s = set_nbr n ((nbr s n)\<lparr> n_tx_array := arr,
                                 n_tx_ringbuf := snd (ringbufindex_put (n_tx_ringbuf (nbr s n))) \<rparr>) s;
                       let s = (if n_eb s = Some n then s\<lparr> num_eb_packets := num_eb_packets s + 1 \<rparr> else s);
                       Some (Some p, s)
                     }
                     else Some (None, s\<lparr> packet_memb := snd (memb_free (packet_memb s) p) \<rparr>)
                   })
              else Some (None, s)))
      else Some (None, s))"

definition tsch_queue_global_packet_count :: "'a tsch_state_scheme \<Rightarrow> int" where
  "tsch_queue_global_packet_count s = int QUEUEBUF_NUM - memb_numfree (packet_memb s)"

text \<open>Counting the packets of an address creates its neighbour entry when there is none.\<close>

definition tsch_queue_packet_count :: "linkaddr \<Rightarrow> 'a tsch_state_scheme \<Rightarrow> int \<times> 'a tsch_state_scheme" where
  "tsch_queue_packet_count addr s =
     (if \<not> tsch_is_locked s then
        (case tsch_queue_add_nbr addr s of
           (Some n, s) \<Rightarrow> (ringbufindex_elements (n_tx_ringbuf (nbr s n)), s)
         | (None, s) \<Rightarrow> (- 1, s))
      else (- 1, s))"

definition tsch_queue_packet_sent ::
    "nat \<Rightarrow> nat \<Rightarrow> tsch_link \<Rightarrow> u8 \<Rightarrow> 'a tsch_state_scheme \<Rightarrow> (bool \<times> 'a tsch_state_scheme) option" where
  "tsch_queue_packet_sent n p link mac_tx_status s = do {
     let is_shared_link = (l_link_options link AND LINK_OPTION_SHARED \<noteq> 0);
     let is_unicast = (\<not> n_is_broadcast (nbr s n));
     if mac_tx_status = MAC_TX_OK then do {
       (_, s) \<leftarrow> tsch_queue_remove_packet_from_queue (Some n) s;
       let s = (if is_unicast \<and> (is_shared_link \<or> tsch_queue_is_empty (Some n) s)
                then tsch_queue_backoff_reset n s else s);
       Some (False, s)
     }
     else do {
       let timeslot_diff = 1;
       let next_asn_ls4b = (ucast (ls4b (tsch_current_asn s)) + timeslot_diff :: u16);
       qb \<leftarrow> tp_qb (pkt s p);
       ttl \<leftarrow> queuebuf_attr qb PACKETBUF_ATTR_TRANSMISSION_TTL s;
       let s = (if TSCH_SLOTNUM_LT (next_asn_ls4b - 1) ttl
                then set_pkt p ((pkt s p)\<lparr> tp_max_transmissions :=
                       ucast (ttl - (next_asn_ls4b - 1)) + tp_transmissions (pkt s p) \<rparr>) s
                else set_pkt p ((pkt s p)\<lparr> tp_max_transmissions := tp_transmissions (pkt s p) \<rparr>) s);
       (in_queue, s) \<leftarrow>
         (if tp_transmissions (pkt s p) \<ge> tp_max_transmissions (pkt s p) then do {
            (_, s) \<leftarrow> tsch_queue_remove_packet_from_queue (Some n) s;
            Some (False, s)
          }
          else Some (True, s));
       let s = (if is_unicast \<and> is_shared_link then tsch_queue_backoff_inc n s else s);
       Some (in_queue, s)
     }
   }"

partial_function (option) queue_reset_loop ::
    "'a tsch_state_scheme mac_cb \<Rightarrow> nat option \<Rightarrow> 'a tsch_state_scheme \<Rightarrow> 'a tsch_state_scheme option" where
  "queue_reset_loop cb n s =
     (case n of
        None \<Rightarrow> Some s
      | Some n \<Rightarrow> do {
          let next_n = item_after n (neighbor_list s);
          s \<leftarrow> tsch_queue_flush_nbr_queue cb n s;
          queue_reset_loop cb next_n (tsch_queue_backoff_reset n s)
        })"

definition list_first :: "nat list \<Rightarrow> nat option" where
  "list_first xs = (case xs of [] \<Rightarrow> None | x # _ \<Rightarrow> Some x)"

definition tsch_queue_reset ::
    "'a tsch_state_scheme mac_cb \<Rightarrow> 'a tsch_state_scheme \<Rightarrow> 'a tsch_state_scheme option" where
  "tsch_queue_reset cb s =
     (if \<not> tsch_is_locked s then queue_reset_loop cb (list_first (neighbor_list s)) s else Some s)"

partial_function (option) free_unused_loop ::
    "'a tsch_state_scheme mac_cb \<Rightarrow> nat option \<Rightarrow> 'a tsch_state_scheme \<Rightarrow> 'a tsch_state_scheme option" where
  "free_unused_loop cb n s =
     (case n of
        None \<Rightarrow> Some s
      | Some n \<Rightarrow> do {
          let next_n = item_after n (neighbor_list s);
          s \<leftarrow> (if \<not> n_is_broadcast (nbr s n) \<and> \<not> n_is_time_source (nbr s n) \<and> n_tx_links_count (nbr s n) = 0 \<and>
                   tsch_queue_is_empty (Some n) s
                then tsch_queue_remove_nbr cb (Some n) s
                else Some s);
          free_unused_loop cb next_n s
        })"

definition tsch_queue_free_unused_neighbors ::
    "'a tsch_state_scheme mac_cb \<Rightarrow> 'a tsch_state_scheme \<Rightarrow> 'a tsch_state_scheme option" where
  "tsch_queue_free_unused_neighbors cb s =
     (if \<not> tsch_is_locked s then free_unused_loop cb (list_first (neighbor_list s)) s else Some s)"

definition tsch_queue_get_packet_for_nbr ::
    "nat option \<Rightarrow> tsch_link option \<Rightarrow> 'a tsch_state_scheme \<Rightarrow> nat option option" where
  "tsch_queue_get_packet_for_nbr n link s =
     (if \<not> tsch_is_locked s then
        (let is_shared_link = (case link of None \<Rightarrow> False | Some l \<Rightarrow> l_link_options l AND LINK_OPTION_SHARED \<noteq> 0) in
         case n of
           None \<Rightarrow> Some None
         | Some n \<Rightarrow>
             (let get_index = ringbufindex_peek_get (n_tx_ringbuf (nbr s n)) in
              if get_index \<noteq> - 1 \<and> \<not> (is_shared_link \<and> \<not> tsch_queue_backoff_expired (nbr s n))
              then tx_array_at (nbr s n) get_index
              else Some None))
      else Some None)"

definition tsch_queue_get_packet_for_dest_addr ::
    "linkaddr \<Rightarrow> tsch_link option \<Rightarrow> 'a tsch_state_scheme \<Rightarrow> nat option option" where
  "tsch_queue_get_packet_for_dest_addr addr link s =
     (if \<not> tsch_is_locked s then tsch_queue_get_packet_for_nbr (tsch_queue_get_nbr addr s) link s else Some None)"

text \<open>The result is the packet and the neighbour it was found at.\<close>

fun unicast_any_loop ::
    "nat list \<Rightarrow> tsch_link option \<Rightarrow> 'a tsch_state_scheme \<Rightarrow> (nat option \<times> nat option) option" where
  "unicast_any_loop [] link s = Some (None, None)"
| "unicast_any_loop (n # ns) link s =
     (if \<not> n_is_broadcast (nbr s n) \<and> n_tx_links_count (nbr s n) = 0 then do {
        p \<leftarrow> tsch_queue_get_packet_for_nbr (Some n) link s;
        if p \<noteq> None then Some (p, Some n) else unicast_any_loop ns link s
      }
      else unicast_any_loop ns link s)"

definition tsch_queue_get_unicast_packet_for_any ::
    "tsch_link option \<Rightarrow> 'a tsch_state_scheme \<Rightarrow> (nat option \<times> nat option) option" where
  "tsch_queue_get_unicast_packet_for_any link s =
     (if \<not> tsch_is_locked s then unicast_any_loop (neighbor_list s) link s else Some (None, None))"

definition update_backoff_window :: "linkaddr \<Rightarrow> bool \<Rightarrow> nat \<Rightarrow> 'a tsch_state_scheme \<Rightarrow> 'a tsch_state_scheme" where
  "update_backoff_window dest_addr is_broadcast n s =
     (if n_backoff_window (nbr s n) \<noteq> 0 \<and>
         ((n_tx_links_count (nbr s n) = 0 \<and> is_broadcast) \<or>
          (n_tx_links_count (nbr s n) > 0 \<and> linkaddr_cmp dest_addr (n_addr (nbr s n))))
      then set_nbr n ((nbr s n)\<lparr> n_backoff_window := n_backoff_window (nbr s n) - 1 \<rparr>) s
      else s)"

definition tsch_queue_update_all_backoff_windows :: "linkaddr \<Rightarrow> 'a tsch_state_scheme \<Rightarrow> 'a tsch_state_scheme" where
  "tsch_queue_update_all_backoff_windows dest_addr s =
     (if \<not> tsch_is_locked s then
        fold (update_backoff_window dest_addr (linkaddr_cmp dest_addr tsch_broadcast_address)) (neighbor_list s) s
      else s)"

definition tsch_queue_init :: "'a tsch_state_scheme \<Rightarrow> 'a tsch_state_scheme" where
  "tsch_queue_init s =
     (let s = s\<lparr> neighbor_list := [], neighbor_memb := memb_init zero_neighbor (neighbor_memb s),
                 packet_memb := memb_init zero_packet (packet_memb s) \<rparr>;
          (eb, s) = tsch_queue_add_nbr tsch_eb_address s;
          s = s\<lparr> n_eb := eb \<rparr>;
          (bc, s) = tsch_queue_add_nbr tsch_broadcast_address s
      in s\<lparr> n_broadcast := bc \<rparr>)"

end
