(* ===== verification/TschQueueInv.thy ===== *)
theory TschQueueInv
  imports TschQueue
begin

text \<open>
  Invariant and functional correctness of the TSCH queues: pools, ring buffers and lists stay
  consistent, no packet is in two queues or shares its queue buffer, addresses are unique, there is at
  most one time source, and the back-off state stays in its range.
\<close>

subsection \<open>Invariant\<close>

definition nqueue :: "tsch_neighbor \<Rightarrow> nat option list" where
  "nqueue x = map (nth (n_tx_array x)) (ring_slots (n_tx_ringbuf x))"

text \<open>The packets queued for a neighbour, first one first.\<close>

definition qpackets :: "'a tsch_state_scheme \<Rightarrow> nat \<Rightarrow> nat list" where
  "qpackets s n = map the (nqueue (nbr s n))"

definition backoff_wf :: "tsch_neighbor \<Rightarrow> bool" where
  "backoff_wf x \<longleftrightarrow> TSCH_MAC_MIN_BE \<le> n_backoff_exponent x \<and> n_backoff_exponent x \<le> TSCH_MAC_MAX_BE \<and>
     unat (n_backoff_window x) \<le> 2 ^ unat (n_backoff_exponent x)"

definition nbr_wf :: "tsch_neighbor \<Rightarrow> bool" where
  "nbr_wf x \<longleftrightarrow> addr_wf (n_addr x) \<and> ring_wf (n_tx_ringbuf x) \<and> ring_cap (n_tx_ringbuf x) = 7 \<and>
     length (n_tx_array x) = 8 \<and> None \<notin> set (nqueue x) \<and> backoff_wf x"

definition pools_wf :: "'a tsch_state_scheme \<Rightarrow> bool" where
  "pools_wf s \<longleftrightarrow> qb_wf s \<and>
     memb_wf (neighbor_memb s) \<and> memb_num (neighbor_memb s) = TSCH_QUEUE_MAX_NEIGHBOR_QUEUES \<and>
     memb_wf (packet_memb s) \<and> memb_num (packet_memb s) = QUEUEBUF_NUM"

definition nbrs_wf :: "'a tsch_state_scheme \<Rightarrow> bool" where
  "nbrs_wf s \<longleftrightarrow> distinct (neighbor_list s) \<and> set (neighbor_list s) = memb_used (neighbor_memb s) \<and>
     (\<forall>n \<in> set (neighbor_list s). nbr_wf (nbr s n)) \<and>
     inj_on (\<lambda>n. n_addr (nbr s n)) (set (neighbor_list s)) \<and>
     (\<forall>n \<in> set (neighbor_list s). \<forall>m \<in> set (neighbor_list s).
        n_is_time_source (nbr s n) \<and> n_is_time_source (nbr s m) \<longrightarrow> n = m)"

definition pkts_wf :: "'a tsch_state_scheme \<Rightarrow> bool" where
  "pkts_wf s \<longleftrightarrow>
     (\<forall>n \<in> set (neighbor_list s). distinct (qpackets s n) \<and> set (qpackets s n) \<subseteq> memb_used (packet_memb s)) \<and>
     (\<forall>n \<in> set (neighbor_list s). \<forall>m \<in> set (neighbor_list s). n \<noteq> m \<longrightarrow> set (qpackets s n) \<inter> set (qpackets s m) = {}) \<and>
     (\<forall>p \<in> memb_used (packet_memb s). \<exists>b \<in> memb_used (bufmem s). tp_qb (pkt s p) = Some b) \<and>
     inj_on (\<lambda>p. tp_qb (pkt s p)) (memb_used (packet_memb s))"

definition q_wf :: "'a tsch_state_scheme \<Rightarrow> bool" where
  "q_wf s \<longleftrightarrow> pools_wf s \<and> nbrs_wf s \<and> pkts_wf s"

subsection \<open>Accesses\<close>

lemma nbr_set_nbr:
  "nbr (set_nbr n x s) m = (if m = n \<and> n < memb_num (neighbor_memb s) then x else nbr s m)"
  by (auto simp: nbr_def set_nbr_def memb_num_def nth_list_update list_update_beyond)

lemma pkt_set_pkt:
  "pkt (set_pkt p x s) q = (if q = p \<and> p < memb_num (packet_memb s) then x else pkt s q)"
  by (auto simp: pkt_def set_pkt_def memb_num_def nth_list_update list_update_beyond)

lemma set_nbr_fields [simp]:
  "neighbor_list (set_nbr n x s) = neighbor_list s" "packet_memb (set_nbr n x s) = packet_memb s"
  "memb_used (neighbor_memb (set_nbr n x s)) = memb_used (neighbor_memb s)"
  "memb_num (neighbor_memb (set_nbr n x s)) = memb_num (neighbor_memb s)"
  "memb_wf (neighbor_memb (set_nbr n x s)) = memb_wf (neighbor_memb s)"
  "bufmem (set_nbr n x s) = bufmem s" "buframmem (set_nbr n x s) = buframmem s"
  "tsch_locked (set_nbr n x s) = tsch_locked s" "n_eb (set_nbr n x s) = n_eb s"
  "pkt (set_nbr n x s) = pkt s" "packetbuf (set_nbr n x s) = packetbuf s" "buflen (set_nbr n x s) = buflen s"
  "bufptr (set_nbr n x s) = bufptr s" "hdrlen (set_nbr n x s) = hdrlen s"
  "packetbuf_attrs (set_nbr n x s) = packetbuf_attrs s" "packetbuf_addrs (set_nbr n x s) = packetbuf_addrs s"
  "tsch_current_asn (set_nbr n x s) = tsch_current_asn s" "tsch_is_coordinator (set_nbr n x s) = tsch_is_coordinator s"
  by (simp_all add: set_nbr_def pkt_def fun_eq_iff)

lemma set_pkt_fields [simp]:
  "neighbor_list (set_pkt p x s) = neighbor_list s" "neighbor_memb (set_pkt p x s) = neighbor_memb s"
  "memb_used (packet_memb (set_pkt p x s)) = memb_used (packet_memb s)"
  "memb_num (packet_memb (set_pkt p x s)) = memb_num (packet_memb s)"
  "memb_wf (packet_memb (set_pkt p x s)) = memb_wf (packet_memb s)"
  "bufmem (set_pkt p x s) = bufmem s" "buframmem (set_pkt p x s) = buframmem s"
  "tsch_locked (set_pkt p x s) = tsch_locked s" "n_eb (set_pkt p x s) = n_eb s" "nbr (set_pkt p x s) = nbr s"
  "qpackets (set_pkt p x s) = qpackets s"
  by (simp_all add: set_pkt_def nbr_def qpackets_def fun_eq_iff)

lemma qb_wf_cong: "bufmem s' = bufmem s \<Longrightarrow> buframmem s' = buframmem s \<Longrightarrow> qb_wf s' = qb_wf s"
proof -
  assume e: "bufmem s' = bufmem s" "buframmem s' = buframmem s"
  then have "qb_block s' = qb_block s" by (simp add: qb_block_def fun_eq_iff)
  then show ?thesis using e by (simp add: qb_wf_def)
qed

lemma q_wfD:
  assumes "q_wf s"
  shows "qb_wf s" "memb_wf (neighbor_memb s)" "memb_wf (packet_memb s)" "distinct (neighbor_list s)"
    "set (neighbor_list s) = memb_used (neighbor_memb s)"
    "n \<in> set (neighbor_list s) \<Longrightarrow> nbr_wf (nbr s n)"
    "n \<in> set (neighbor_list s) \<Longrightarrow> n < memb_num (neighbor_memb s)"
    "n \<in> set (neighbor_list s) \<Longrightarrow> distinct (qpackets s n)"
    "n \<in> set (neighbor_list s) \<Longrightarrow> p \<in> set (qpackets s n) \<Longrightarrow> p \<in> memb_used (packet_memb s)"
proof -
  show "qb_wf s" "memb_wf (packet_memb s)" "distinct (neighbor_list s)"
    "n \<in> set (neighbor_list s) \<Longrightarrow> nbr_wf (nbr s n)" "n \<in> set (neighbor_list s) \<Longrightarrow> distinct (qpackets s n)"
    "n \<in> set (neighbor_list s) \<Longrightarrow> p \<in> set (qpackets s n) \<Longrightarrow> p \<in> memb_used (packet_memb s)"
    using assms by (auto simp: q_wf_def pools_wf_def nbrs_wf_def pkts_wf_def)
  show m: "memb_wf (neighbor_memb s)" and u: "set (neighbor_list s) = memb_used (neighbor_memb s)"
    using assms by (auto simp: q_wf_def pools_wf_def nbrs_wf_def)
  show "n \<in> set (neighbor_list s) \<Longrightarrow> n < memb_num (neighbor_memb s)"
    using mb.used_bound [OF m] u by auto
qed

text \<open>
  Changing a neighbour but not its address; its queue may shrink, and it may become the time source
  when no other one is.
\<close>

lemma q_wf_set_nbr:
  assumes w: "q_wf s" and n: "n \<in> set (neighbor_list s)" and x: "nbr_wf x" "n_addr x = n_addr (nbr s n)"
    "set (nqueue x) \<subseteq> set (nqueue (nbr s n))" "distinct (map the (nqueue x))"
    and ts: "n_is_time_source x \<Longrightarrow> \<forall>m \<in> set (neighbor_list s). m \<noteq> n \<longrightarrow> \<not> n_is_time_source (nbr s m)"
  shows "q_wf (set_nbr n x s)"
proof -
  let ?s = "set_nbr n x s"
  have nb: "nbr ?s m = (if m = n then x else nbr s m)" for m
    using q_wfD(7) [OF w n] by (simp add: nbr_set_nbr)
  have sub: "set (qpackets ?s m) \<subseteq> set (qpackets s m)" for m using x(3) by (auto simp: qpackets_def nb)
  have "distinct (qpackets ?s m)" if "m \<in> set (neighbor_list s)" for m
    using x(4) q_wfD(8) [OF w that] by (auto simp: qpackets_def nb)
  moreover have "set (qpackets ?s m) \<inter> set (qpackets ?s k) = {}"
    if "m \<in> set (neighbor_list s)" "k \<in> set (neighbor_list s)" "m \<noteq> k" for m k
    using sub [of m] sub [of k] w that unfolding q_wf_def pkts_wf_def by blast
  moreover have "set (qpackets ?s m) \<subseteq> memb_used (packet_memb s)" if "m \<in> set (neighbor_list s)" for m
    using sub [of m] q_wfD(9) [OF w that] by blast
  ultimately have "pkts_wf ?s" using w unfolding q_wf_def pkts_wf_def by simp
  moreover have "pools_wf ?s" using w qb_wf_cong [of ?s s] by (simp add: q_wf_def pools_wf_def)
  moreover have ad: "(\<lambda>m. n_addr (nbr ?s m)) = (\<lambda>m. n_addr (nbr s m))" using x(2) by (simp add: nb fun_eq_iff)
  have "nbrs_wf ?s"
    using w x(1) ts unfolding q_wf_def nbrs_wf_def ad by (auto simp: nb)
  ultimately show ?thesis by (simp add: q_wf_def)
qed

subsection \<open>Looking up and adding neighbours\<close>

lemma find_Some_iff2: "find P xs = Some x \<Longrightarrow> x \<in> set xs \<and> P x"
  by (induction xs) (auto split: if_splits)

lemma get_nbr_Some:
  assumes "q_wf s" "addr_wf addr" "tsch_queue_get_nbr addr s = Some n"
  shows "n \<in> set (neighbor_list s)" "n_addr (nbr s n) = addr" "\<not> tsch_locked s"
proof -
  have "n \<in> set (neighbor_list s) \<and> linkaddr_cmp (n_addr (nbr s n)) addr" "\<not> tsch_locked s"
    using assms(3) by (auto simp: tsch_queue_get_nbr_def tsch_is_locked_def split: if_splits dest: find_Some_iff2)
  then show "n \<in> set (neighbor_list s)" "n_addr (nbr s n) = addr" "\<not> tsch_locked s"
    using q_wfD(6) [OF assms(1)] assms(2) by (auto simp: linkaddr_cmp_eq nbr_wf_def)
qed

lemma get_nbr_None:
  assumes "tsch_queue_get_nbr addr s = None" "\<not> tsch_locked s" "n \<in> set (neighbor_list s)"
  shows "n_addr (nbr s n) \<noteq> addr"
  using assms by (auto simp: tsch_queue_get_nbr_def tsch_is_locked_def find_None_iff)

text \<open>The lookup finds exactly the entry of an address.\<close>

lemma get_nbr_iff:
  assumes "q_wf s" "addr_wf addr" "\<not> tsch_locked s"
  shows "tsch_queue_get_nbr addr s = Some n \<longleftrightarrow> n \<in> set (neighbor_list s) \<and> n_addr (nbr s n) = addr"
proof
  assume r: "n \<in> set (neighbor_list s) \<and> n_addr (nbr s n) = addr"
  then obtain m where m: "tsch_queue_get_nbr addr s = Some m"
    using get_nbr_None [of addr s n] assms(3) by fastforce
  then have "m \<in> set (neighbor_list s)" "n_addr (nbr s m) = addr" using get_nbr_Some [OF assms(1,2)] by auto
  moreover have "inj_on (\<lambda>n. n_addr (nbr s n)) (set (neighbor_list s))"
    using assms(1) unfolding q_wf_def nbrs_wf_def by blast
  ultimately show "tsch_queue_get_nbr addr s = Some n" using r m by (auto dest: inj_onD)
qed (use get_nbr_Some [OF assms(1,2)] in auto)

definition fresh_nbr :: "linkaddr \<Rightarrow> tsch_neighbor" where
  "fresh_nbr addr = zero_neighbor\<lparr> n_tx_ringbuf := ringbufindex_init TSCH_QUEUE_NUM_PER_NEIGHBOR, n_addr := addr,
     n_is_broadcast := (linkaddr_cmp addr tsch_eb_address \<or> linkaddr_cmp addr tsch_broadcast_address),
     n_backoff_window := 0, n_backoff_exponent := TSCH_MAC_MIN_BE \<rparr>"

lemma fresh_nbr_wf:
  "addr_wf addr \<Longrightarrow> nbr_wf (fresh_nbr addr)" "nqueue (fresh_nbr addr) = []" "n_addr (fresh_nbr addr) = addr"
  "\<not> n_is_time_source (fresh_nbr addr)" "n_tx_ringbuf (fresh_nbr addr) = ringbufindex_init 8"
  "n_tx_links_count (fresh_nbr addr) = 0"
proof -
  have r: "ring_wf (ringbufindex_init 8)" "ring_cap (ringbufindex_init 8) = 7" "ring_slots (ringbufindex_init 8) = []"
    using ring_init_wf [of 3] by simp_all
  then show "nqueue (fresh_nbr addr) = []" by (simp add: nqueue_def fresh_nbr_def)
  then show "addr_wf addr \<Longrightarrow> nbr_wf (fresh_nbr addr)"
    using r by (simp add: nbr_wf_def fresh_nbr_def backoff_wf_def zero_neighbor_def)
qed (simp_all add: fresh_nbr_def zero_neighbor_def)

text \<open>The three outcomes of \<open>tsch_queue_add_nbr\<close>.\<close>

lemma add_nbr_cases:
  assumes "q_wf s" "\<not> tsch_locked s"
  obtains (found) n where "tsch_queue_get_nbr addr s = Some n" "tsch_queue_add_nbr addr s = (Some n, s)"
  | (full) "tsch_queue_get_nbr addr s = None" "memb_used (neighbor_memb s) = {..<memb_num (neighbor_memb s)}"
      "tsch_queue_add_nbr addr s =
         (None, s\<lparr> tsch_in_slot_operation := False, tsch_locked := False, tsch_lock_requested := False \<rparr>)"
  | (new) n m where "tsch_queue_get_nbr addr s = None" "memb_alloc (neighbor_memb s) = (Some n, m)"
      "n \<notin> set (neighbor_list s)" "n < memb_num (neighbor_memb s)"
      "tsch_queue_add_nbr addr s =
         (Some n, s\<lparr> tsch_in_slot_operation := False, tsch_locked := False, tsch_lock_requested := False,
            neighbor_memb := memb_put m n (fresh_nbr addr), neighbor_list := neighbor_list s @ [n] \<rparr>)"
proof (cases "tsch_queue_get_nbr addr s")
  case (Some n)
  then show ?thesis using found by (simp add: tsch_queue_add_nbr_def)
next
  case None
  note m = q_wfD(2) [OF assms(1)]
  show ?thesis
  proof (cases "memb_alloc (neighbor_memb s)")
    case (Pair r m')
    show ?thesis
    proof (cases r)
      case None': None
      then show ?thesis using full None Pair mb.allocD_None [OF m] assms(2)
        by (simp add: tsch_queue_add_nbr_def tsch_get_lock_def tsch_release_lock_def)
    next
      case (Some n)
      note d = mb.allocD [OF m Pair [unfolded Some]]
      have "n \<notin> set (neighbor_list s)" using d(2) q_wfD(5) [OF assms(1)] by simp
      moreover have "n < length (m_mem m')" using d by (simp add: memb_num_def)
      ultimately show ?thesis using new [of n m'] None Pair Some d assms(2)
        by (simp add: tsch_queue_add_nbr_def tsch_get_lock_def tsch_release_lock_def set_nbr_def
            tsch_queue_backoff_reset_def nbr_def memb_put_def remove1_idem fresh_nbr_def)
    qed
  qed
qed

text \<open>The invariant reads the pools, the neighbour list and nothing else.\<close>

lemma q_wf_frame:
  assumes "bufmem s' = bufmem s" "buframmem s' = buframmem s" "neighbor_memb s' = neighbor_memb s"
    "packet_memb s' = packet_memb s" "neighbor_list s' = neighbor_list s"
  shows "q_wf s' = q_wf s" "nbr s' = nbr s" "pkt s' = pkt s" "qpackets s' = qpackets s"
proof -
  show e: "nbr s' = nbr s" "pkt s' = pkt s" "qpackets s' = qpackets s"
    using assms by (auto simp: nbr_def pkt_def qpackets_def fun_eq_iff)
  have "qb_wf s' = qb_wf s" using assms by (intro qb_wf_cong)
  then show "q_wf s' = q_wf s" using e assms by (simp add: q_wf_def pools_wf_def nbrs_wf_def pkts_wf_def)
qed

lemma q_wf_new_nbr:
  assumes w: "q_wf s" and a: "addr_wf addr" "\<And>k. k \<in> set (neighbor_list s) \<Longrightarrow> n_addr (nbr s k) \<noteq> addr"
    and m: "memb_alloc (neighbor_memb s) = (Some n, m)"
    and s': "bufmem s' = bufmem s" "buframmem s' = buframmem s" "packet_memb s' = packet_memb s"
      "neighbor_memb s' = memb_put m n (fresh_nbr addr)" "neighbor_list s' = neighbor_list s @ [n]"
  shows "q_wf s'" "nbr s' n = fresh_nbr addr" "qpackets s' n = []"
    "k \<in> set (neighbor_list s) \<Longrightarrow> nbr s' k = nbr s k" "k \<in> set (neighbor_list s) \<Longrightarrow> qpackets s' k = qpackets s k"
proof -
  note d = mb.allocD [OF q_wfD(2) [OF w] m] and L = q_wfD(5) [OF w]
  have nl: "n \<notin> set (neighbor_list s)" "n < length (m_mem m)" using d L by (auto simp: memb_num_def)
  show n: "nbr s' n = fresh_nbr addr" using nl by (simp add: nbr_def s')
  show k: "nbr s' k = nbr s k" if "k \<in> set (neighbor_list s)" for k
    using that nl d(6) by (auto simp: nbr_def s' nth_list_update)
  show qn: "qpackets s' n = []" by (simp add: qpackets_def n fresh_nbr_wf)
  show qk: "qpackets s' k = qpackets s k" if "k \<in> set (neighbor_list s)" for k
    using k [OF that] by (simp add: qpackets_def)
  have pk: "pkt s' = pkt s" by (simp add: pkt_def s' fun_eq_iff)
  have "pools_wf s'"
    using w d qb_wf_cong [of s' s] s' by (simp add: q_wf_def pools_wf_def)
  moreover have "nbrs_wf s'" unfolding nbrs_wf_def
  proof (intro conjI ballI impI)
    show "distinct (neighbor_list s')" using q_wfD(4) [OF w] nl by (simp add: s')
    show "set (neighbor_list s') = memb_used (neighbor_memb s')" using d L by (simp add: s')
    show "nbr_wf (nbr s' j)" if "j \<in> set (neighbor_list s')" for j
      using that n k q_wfD(6) [OF w] fresh_nbr_wf(1) [OF a(1)] by (auto simp: s')
    have "inj_on (\<lambda>j. n_addr (nbr s j)) (set (neighbor_list s))" using w unfolding q_wf_def nbrs_wf_def by blast
    then have "inj_on (\<lambda>j. n_addr (nbr s' j)) (set (neighbor_list s))"
      by (rule inj_on_cong [THEN iffD2, rotated]) (simp add: k)
    moreover have "n_addr (nbr s' n) \<notin> (\<lambda>j. n_addr (nbr s' j)) ` set (neighbor_list s)"
      using a(2) n k fresh_nbr_wf(3) by auto
    ultimately show "inj_on (\<lambda>j. n_addr (nbr s' j)) (set (neighbor_list s'))"
      using nl by (simp add: s' inj_on_insert)
    fix i j assume "i \<in> set (neighbor_list s')" "j \<in> set (neighbor_list s')"
      "n_is_time_source (nbr s' i) \<and> n_is_time_source (nbr s' j)"
    then have "i \<in> set (neighbor_list s)" "j \<in> set (neighbor_list s)"
      "n_is_time_source (nbr s i)" "n_is_time_source (nbr s j)"
      using n k fresh_nbr_wf(4) by (auto simp: s')
    then show "i = j" using w unfolding q_wf_def nbrs_wf_def by blast
  qed
  moreover have "pkts_wf s'"
    using w qn qk unfolding q_wf_def pkts_wf_def pk by (auto simp: s')
  ultimately show "q_wf s'" by (simp add: q_wf_def)
qed

lemma add_nbr_spec:
  assumes w: "q_wf s" "addr_wf addr" "\<not> tsch_locked s" and r: "tsch_queue_add_nbr addr s = (r, s')"
  shows "q_wf s' \<and> \<not> tsch_locked s' \<and> packet_memb s' = packet_memb s \<and> bufmem s' = bufmem s \<and>
    buframmem s' = buframmem s \<and> n_eb s' = n_eb s \<and> pbuf_state.truncate s' = pbuf_state.truncate s \<and>
    (\<forall>k \<in> set (neighbor_list s). nbr s' k = nbr s k) \<and>
    (case r of
       None \<Rightarrow> neighbor_list s' = neighbor_list s \<and> tsch_queue_get_nbr addr s = None \<and>
               fst (memb_alloc (neighbor_memb s)) = None
     | Some n \<Rightarrow> set (neighbor_list s') = insert n (set (neighbor_list s)) \<and> n_addr (nbr s' n) = addr \<and>
               (n \<notin> set (neighbor_list s) \<longrightarrow> nbr s' n = fresh_nbr addr) \<and>
               (n \<in> set (neighbor_list s) \<or> fst (memb_alloc (neighbor_memb s)) \<noteq> None) \<and>
               neighbor_list s' = (if n \<in> set (neighbor_list s) then neighbor_list s else neighbor_list s @ [n]))"
  using w(1,3)
proof (cases rule: add_nbr_cases [of s addr])
  case (found n)
  then show ?thesis using r w get_nbr_Some [OF w(1,2) found(1)] by (auto simp: insert_absorb)
next
  case full
  have s': "r = None" "s' = s\<lparr> tsch_in_slot_operation := False, tsch_locked := False, tsch_lock_requested := False \<rparr>"
    using full r by auto
  then have "q_wf s'" "nbr s' = nbr s" using q_wf_frame [of s' s] w(1) by simp_all
  then show ?thesis
    using s' full mb.alloc_full [OF q_wfD(2) [OF w(1)]] by (simp add: pbuf_state.truncate_def)
next
  case (new n m)
  have s': "r = Some n" "s' = s\<lparr> tsch_in_slot_operation := False, tsch_locked := False, tsch_lock_requested := False,
            neighbor_memb := memb_put m n (fresh_nbr addr), neighbor_list := neighbor_list s @ [n] \<rparr>"
    using new r by auto
  have "\<And>k. k \<in> set (neighbor_list s) \<Longrightarrow> n_addr (nbr s k) \<noteq> addr"
    using get_nbr_None [OF new(1) w(3)] by blast
  note q = q_wf_new_nbr [OF w(1,2) this new(2), of s']
  have "q_wf s'" "nbr s' n = fresh_nbr addr" "\<And>k. k \<in> set (neighbor_list s) \<Longrightarrow> nbr s' k = nbr s k"
    using q by (simp_all add: s')
  then show ?thesis using s' new by (simp add: pbuf_state.truncate_def fresh_nbr_wf)
qed

lemma add_nbr_wf:
  assumes "q_wf s" "addr_wf addr" "\<not> tsch_locked s" "tsch_queue_add_nbr addr s = (r, s')"
  shows "q_wf s'" "\<not> tsch_locked s'" "packet_memb s' = packet_memb s" "bufmem s' = bufmem s"
    "buframmem s' = buframmem s" "n_eb s' = n_eb s" "pbuf_state.truncate s' = pbuf_state.truncate s"
    "k \<in> set (neighbor_list s) \<Longrightarrow> nbr s' k = nbr s k"
    "r = Some n \<Longrightarrow> set (neighbor_list s') = insert n (set (neighbor_list s))"
    "r = Some n \<Longrightarrow> n_addr (nbr s' n) = addr"
    "r = Some n \<Longrightarrow> n \<notin> set (neighbor_list s) \<Longrightarrow> nbr s' n = fresh_nbr addr"
    "r = None \<longleftrightarrow> tsch_queue_get_nbr addr s = None \<and> memb_numfree (neighbor_memb s) = 0"
    "r = None \<Longrightarrow> neighbor_list s' = neighbor_list s"
proof -
  note sp = add_nbr_spec [OF assms]
  show "q_wf s'" "\<not> tsch_locked s'" "packet_memb s' = packet_memb s" "bufmem s' = bufmem s"
    "buframmem s' = buframmem s" "n_eb s' = n_eb s" "pbuf_state.truncate s' = pbuf_state.truncate s"
    using sp by simp_all
  show "k \<in> set (neighbor_list s) \<Longrightarrow> nbr s' k = nbr s k"
    "r = Some n \<Longrightarrow> set (neighbor_list s') = insert n (set (neighbor_list s))"
    "r = Some n \<Longrightarrow> n_addr (nbr s' n) = addr"
    "r = Some n \<Longrightarrow> n \<notin> set (neighbor_list s) \<Longrightarrow> nbr s' n = fresh_nbr addr"
    "r = None \<Longrightarrow> neighbor_list s' = neighbor_list s"
    using sp by (auto split: option.splits)
  have "memb_numfree (neighbor_memb s) = 0 \<longleftrightarrow> fst (memb_alloc (neighbor_memb s)) = None"
    using mb.alloc_succeeds_iff [OF q_wfD(2) [OF assms(1)]] by (auto simp: memb_numfree_used q_wfD(2) [OF assms(1)])
  moreover have "r = None \<longleftrightarrow> tsch_queue_get_nbr addr s = None \<and> fst (memb_alloc (neighbor_memb s)) = None"
  proof (cases r)
    case (Some n)
    show ?thesis
    proof (cases "n \<in> set (neighbor_list s)")
      case True
      then have "n_addr (nbr s n) = addr" using sp Some by auto
      then show ?thesis using get_nbr_None [OF _ assms(3) True, of addr] Some by blast
    qed (use sp Some in simp)
  qed (use sp in simp)
  ultimately show "r = None \<longleftrightarrow> tsch_queue_get_nbr addr s = None \<and> memb_numfree (neighbor_memb s) = 0" by simp
qed

subsection \<open>Enqueueing and dequeueing\<close>

lemma nqueue_contents: "nqueue x = rb.contents (n_tx_ringbuf x) (n_tx_array x)"
  by (simp add: nqueue_def rb.contents_def)

lemma nqueue_len: "nbr_wf x \<Longrightarrow> length (nqueue x) \<le> 7" "length (nqueue x) = length (ring_slots (n_tx_ringbuf x))"
  using rb.slots_len [of "n_tx_ringbuf x"] by (auto simp: nbr_wf_def nqueue_def)

lemma nqueue_put_full: "nbr_wf x \<Longrightarrow> ringbufindex_peek_put (n_tx_ringbuf x) = - 1 \<longleftrightarrow> length (nqueue x) = 7"
  using rb.peek_put_full_iff [of "n_tx_ringbuf x"] by (auto simp: nbr_wf_def nqueue_def)

lemma nqueue_enq:
  fixes p :: nat
  assumes x: "nbr_wf x" and l: "length (nqueue x) < 7"
  defines "i \<equiv> nat (ringbufindex_peek_put (n_tx_ringbuf x))"
  defines "x' \<equiv> x\<lparr> n_tx_array := (n_tx_array x)[i := Some p], n_tx_ringbuf := snd (ringbufindex_put (n_tx_ringbuf x)) \<rparr>"
  shows "i < length (n_tx_array x)" "nqueue x' = nqueue x @ [Some p]" "nbr_wf x'"
proof -
  let ?r = "n_tx_ringbuf x"
  have r: "ring_wf ?r" "ring_cap ?r = 7" "length (n_tx_array x) = Suc (ring_cap ?r)" "length (ring_slots ?r) < ring_cap ?r"
    using x l by (auto simp: nbr_wf_def nqueue_def)
  from rb.put_ok [OF r(1,4)] show "i < length (n_tx_array x)" using r by (auto simp: i_def)
  show q: "nqueue x' = nqueue x @ [Some p]"
    using rb.contents_store [OF r(1,4,3)] unfolding nqueue_contents by (simp add: x'_def i_def)
  show "nbr_wf x'"
    using x q rb.put_invar [OF r(1)] unfolding nbr_wf_def by (simp add: x'_def backoff_wf_def)
qed

lemma nqueue_deq:
  assumes x: "nbr_wf x" and q: "nqueue x = e # es"
  defines "g \<equiv> ringbufindex_get (n_tx_ringbuf x)"
  shows "fst g = ringbufindex_peek_get (n_tx_ringbuf x)" "fst g \<noteq> - 1" "tx_array_at x (fst g) = Some e"
    "nqueue (x\<lparr> n_tx_ringbuf := snd g \<rparr>) = es" "nbr_wf (x\<lparr> n_tx_ringbuf := snd g \<rparr>)" "e \<noteq> None"
proof -
  let ?r = "n_tx_ringbuf x"
  have r: "ring_wf ?r" "ring_cap ?r = 7" "length (n_tx_array x) = 8" using x by (auto simp: nbr_wf_def)
  note f = rb.contents_fetch [OF r(1) q [unfolded nqueue_contents]]
  show fg: "fst g = ringbufindex_peek_get ?r" unfolding g_def using f(3) by (metis fst_conv)
  then show "fst g \<noteq> - 1" using f(2) by simp
  obtain i "is" where i: "ring_slots ?r = i # is" using q by (auto simp: nqueue_def)
  then have "ringbufindex_peek_get ?r = int i" "i \<le> 7"
    using rb.get_ok [OF r(1)] rb.slots_bound [OF r(1)] r(2) by force+
  then show "tx_array_at x (fst g) = Some e" using fg f(1) r(3) by (simp add: tx_array_at_def)
  show q': "nqueue (x\<lparr> n_tx_ringbuf := snd g \<rparr>) = es" using f(4) by (simp add: nqueue_contents g_def)
  show "nbr_wf (x\<lparr> n_tx_ringbuf := snd g \<rparr>)"
    using x q f(5,6) q' by (auto simp: nbr_wf_def g_def backoff_wf_def)
  have "None \<notin> set (e # es)" using x q unfolding nbr_wf_def by metis
  then show "e \<noteq> None" by (metis list.set_intros(1))
qed

lemma nqueue_get_empty:
  "nbr_wf x \<Longrightarrow> nqueue x = [] \<Longrightarrow> ringbufindex_get (n_tx_ringbuf x) = (- 1, n_tx_ringbuf x) \<and>
     ringbufindex_peek_get (n_tx_ringbuf x) = - 1"
  using rb.get_empty [of "n_tx_ringbuf x"] by (simp add: nbr_wf_def nqueue_def)

lemma ring_empty_iff: "nbr_wf x \<Longrightarrow> ringbufindex_empty (n_tx_ringbuf x) \<longleftrightarrow> nqueue x = []"
  using ring_count(3) [of "n_tx_ringbuf x"] ring_slots_Nil [of "n_tx_ringbuf x"]
  by (auto simp: nbr_wf_def ringbufindex_empty_def nqueue_def)

lemma q_wf_enq:
  assumes w: "q_wf s" and n: "n \<in> set (neighbor_list s)"
    and x: "nbr_wf x" "nqueue x = nqueue (nbr s n) @ [Some p]" "n_addr x = n_addr (nbr s n)"
      "n_is_time_source x = n_is_time_source (nbr s n)"
    and p: "memb_alloc (packet_memb s) = (Some p, m)"
    and b: "qb_wf s'" "memb_used (bufmem s') = insert b (memb_used (bufmem s))" "b \<notin> memb_used (bufmem s)" "tp_qb y = Some b"
    and s': "neighbor_list s' = neighbor_list s" "neighbor_memb s' = memb_put (neighbor_memb s) n x"
      "packet_memb s' = memb_put m p y"
  shows "q_wf s'" "qpackets s' n = qpackets s n @ [p]" "k \<noteq> n \<Longrightarrow> qpackets s' k = qpackets s k" "pkt s' p = y"
    "q \<noteq> p \<Longrightarrow> pkt s' q = pkt s q"
proof -
  note d = mb.allocD [OF q_wfD(3) [OF w] p]
  have nb: "nbr s' k = (if k = n then x else nbr s k)" for k
    using q_wfD(7) [OF w n] by (auto simp: nbr_def s' nth_list_update memb_num_def)
  have pk: "pkt s' q = (if q = p then y else pkt s q)" for q
    using d by (auto simp: pkt_def s' nth_list_update memb_num_def)
  then show "pkt s' p = y" "q \<noteq> p \<Longrightarrow> pkt s' q = pkt s q" by simp_all
  show qn: "qpackets s' n = qpackets s n @ [p]" by (simp add: qpackets_def nb x)
  show qk: "k \<noteq> n \<Longrightarrow> qpackets s' k = qpackets s k" for k by (simp add: qpackets_def nb)
  have "pools_wf s'" using w b d by (simp add: q_wf_def pools_wf_def s')
  moreover have ad: "(\<lambda>m. n_addr (nbr s' m)) = (\<lambda>m. n_addr (nbr s m))"
    and ts: "(\<lambda>m. n_is_time_source (nbr s' m)) = (\<lambda>m. n_is_time_source (nbr s m))"
    using x by (auto simp: nb fun_eq_iff)
  have "nbrs_wf s'"
    using w x(1) unfolding q_wf_def nbrs_wf_def ad fun_cong [OF ts] by (auto simp: nb s')
  moreover have "pkts_wf s'" unfolding pkts_wf_def
  proof (intro conjI ballI impI)
    fix k assume k: "k \<in> set (neighbor_list s')"
    then have k': "k \<in> set (neighbor_list s)" by (simp add: s')
    then have "p \<notin> set (qpackets s k)" using q_wfD(9) [OF w] d(2) by blast
    then show "distinct (qpackets s' k)" using q_wfD(8) [OF w k'] qn qk by (cases "k = n") auto
    show "set (qpackets s' k) \<subseteq> memb_used (packet_memb s')"
      using q_wfD(9) [OF w k'] d(3) qn qk by (cases "k = n") (auto simp: s')
    fix j assume j: "j \<in> set (neighbor_list s')" "k \<noteq> j"
    then have "j \<in> set (neighbor_list s)" by (simp add: s')
    moreover have "p \<notin> set (qpackets s j)" using calculation q_wfD(9) [OF w] d(2) by blast
    moreover have "set (qpackets s k) \<inter> set (qpackets s j) = {}"
      using w k' calculation(1) j(2) unfolding q_wf_def pkts_wf_def by blast
    ultimately show "set (qpackets s' k) \<inter> set (qpackets s' j) = {}"
      using j(2) qn qk \<open>p \<notin> set (qpackets s k)\<close> by (cases "k = n"; cases "j = n") auto
  next
    have U: "memb_used (packet_memb s') = insert p (memb_used (packet_memb s))" using d by (simp add: s')
    have old: "\<exists>c \<in> memb_used (bufmem s). tp_qb (pkt s q) = Some c" if "q \<in> memb_used (packet_memb s)" for q
      using w that unfolding q_wf_def pkts_wf_def by blast
    show "\<exists>c \<in> memb_used (bufmem s'). tp_qb (pkt s' q) = Some c" if "q \<in> memb_used (packet_memb s')" for q
      using that old U b by (cases "q = p") (auto simp: pk)
    have "inj_on (\<lambda>q. tp_qb (pkt s q)) (memb_used (packet_memb s))" using w unfolding q_wf_def pkts_wf_def by blast
    then have "inj_on (\<lambda>q. tp_qb (pkt s' q)) (memb_used (packet_memb s))"
      using d(2) by (subst inj_on_cong [of _ _ "\<lambda>q. tp_qb (pkt s q)"]) (auto simp: pk)
    moreover have "tp_qb (pkt s' p) \<noteq> tp_qb (pkt s' q)" if "q \<in> memb_used (packet_memb s)" for q
      using old [OF that] b(3,4) d(2) that by (cases "q = p") (auto simp: pk)
    then have "tp_qb (pkt s' p) \<notin> (\<lambda>q. tp_qb (pkt s' q)) ` memb_used (packet_memb s)" by auto
    ultimately show "inj_on (\<lambda>q. tp_qb (pkt s' q)) (memb_used (packet_memb s'))"
      unfolding U using d(2) by (simp add: inj_on_insert)
  qed
  ultimately show "q_wf s'" by (simp add: q_wf_def)
qed

lemma pb_wf_truncate: "pbuf_state.truncate s' = pbuf_state.truncate s \<Longrightarrow> pb_wf s' = pb_wf s \<and> pb_frame s' = pb_frame s \<and>
    packetbuf_attrs s' = packetbuf_attrs s \<and> packetbuf_addrs s' = packetbuf_addrs s"
  by (simp add: pbuf_state.truncate_def pb_wf_def pb_frame_def)

lemma qb_contents_cong: "bufmem s' = bufmem s \<Longrightarrow> buframmem s' = buframmem s \<Longrightarrow> qb_contents s' = qb_contents s"
  by (simp add: qb_contents_def qb_block_def fun_eq_iff)

text \<open>Enqueueing for a neighbour that exists and has room, when a packet block and a queue buffer are free.\<close>

lemma add_packet_enq:
  assumes w: "q_wf s" "pb_wf s" and n: "n \<in> set (neighbor_list s)" "tsch_queue_get_nbr addr s = Some n"
    and l: "length (qpackets s n) < 7" and f: "memb_numfree (packet_memb s) \<noteq> 0" "queuebuf_numfree s \<noteq> 0"
    and u: "\<not> tsch_locked s"
  shows "\<exists>p s'. tsch_queue_add_packet addr mx sent s = Some (Some p, s') \<and> q_wf s' \<and> \<not> tsch_locked s' \<and>
    neighbor_list s' = neighbor_list s \<and> (\<forall>k. n_addr (nbr s' k) = n_addr (nbr s k)) \<and>
    p \<notin> memb_used (packet_memb s) \<and> memb_used (packet_memb s') = insert p (memb_used (packet_memb s)) \<and>
    qpackets s' n = qpackets s n @ [p] \<and> (\<forall>k. k \<noteq> n \<longrightarrow> qpackets s' k = qpackets s k) \<and>
    tp_sent (pkt s' p) = sent \<and> tp_transmissions (pkt s' p) = 0 \<and> tp_max_transmissions (pkt s' p) = mx \<and>
    (\<exists>b old. tp_qb (pkt s' p) = Some b \<and> length old = PACKETBUF_SIZE \<and> qb_contents s' b = qd_of_packetbuf old s) \<and>
    (\<forall>q \<in> memb_used (packet_memb s). pkt s' q = pkt s q \<and>
       (\<forall>c. tp_qb (pkt s q) = Some c \<longrightarrow> qb_contents s' c = qb_contents s c))"
proof -
  let ?x = "nbr s n"
  have x: "nbr_wf ?x" "length (nqueue ?x) < 7" using q_wfD(6) [OF w(1) n(1)] l by (auto simp: qpackets_def)
  have pi: "ringbufindex_peek_put (n_tx_ringbuf ?x) \<noteq> - 1" using nqueue_put_full [OF x(1)] x(2) by simp
  have pm: "memb_wf (packet_memb s)" using q_wfD(3) [OF w(1)] .
  obtain p m where p: "memb_alloc (packet_memb s) = (Some p, m)"
    using f(1) mb.alloc_succeeds_iff [OF pm] by (cases "memb_alloc (packet_memb s)") (auto simp: memb_numfree_used pm)
  note d = mb.allocD [OF pm p]
  let ?s2 = "s\<lparr> packet_memb := m \<rparr>"
  have "qb_wf ?s2" "pb_wf ?s2" "queuebuf_numfree ?s2 \<noteq> 0"
    using q_wfD(1) [OF w(1)] w(2) f(2) by (simp_all add: qb_wf_cong [of ?s2 s] pb_wf_def queuebuf_numfree_def)
  from queuebuf_new_ok [OF this] obtain b old s3 where q:
    "queuebuf_new_from_packetbuf ?s2 = Some (Some b, s3)" "qb_wf s3" "b \<notin> memb_used (bufmem s)"
    "memb_used (bufmem s3) = insert b (memb_used (bufmem s))" "length old = PACKETBUF_SIZE"
    "qb_contents s3 b = qd_of_packetbuf old ?s2" "\<forall>c \<in> memb_used (bufmem s). qb_contents s3 c = qb_contents ?s2 c"
    "s3 = ?s2\<lparr> bufmem := bufmem s3, buframmem := buframmem s3 \<rparr>"
    by auto
  have s3: "neighbor_memb s3 = neighbor_memb s" "neighbor_list s3 = neighbor_list s" "packet_memb s3 = m"
    "tsch_locked s3 = tsch_locked s" "n_eb s3 = n_eb s" by (subst q(8), simp)+
  have nb3: "nbr s3 = nbr s" by (simp add: nbr_def s3 fun_eq_iff)
  define i where "i = nat (ringbufindex_peek_put (n_tx_ringbuf ?x))"
  define x' where "x' = ?x\<lparr> n_tx_array := (n_tx_array ?x)[i := Some p], n_tx_ringbuf := snd (ringbufindex_put (n_tx_ringbuf ?x)) \<rparr>"
  note e = nqueue_enq(1) [OF x, folded i_def] nqueue_enq(2,3) [OF x, of p, folded i_def, folded x'_def]
  define y where "y = (pkt s3 p)\<lparr> tp_qb := Some b, tp_sent := sent, tp_ret := MAC_TX_DEFERRED,
                                 tp_transmissions := 0, tp_max_transmissions := mx \<rparr>"
  define s4 where "s4 = s3\<lparr> packet_memb := memb_put m p y, neighbor_memb := memb_put (neighbor_memb s) n x' \<rparr>"
  define s' where "s' = (if n_eb s = Some n then s4\<lparr> num_eb_packets := num_eb_packets s4 + 1 \<rparr> else s4)"
  have pl: "p < length (m_mem m)" using d by (simp add: memb_num_def)
  have add: "tsch_queue_add_packet addr mx sent s = Some (Some p, s')"
    using u n(2) pi p q(1) e(1) pl
    by (simp add: tsch_queue_add_packet_def tsch_is_locked_def tsch_queue_add_nbr_def i_def Let_def
        upd_opt_def s'_def s4_def x'_def y_def set_pkt_def set_nbr_def nbr_def pkt_def memb_put_def s3)
  have s': "neighbor_list s' = neighbor_list s" "neighbor_memb s' = memb_put (neighbor_memb s) n x'"
    "packet_memb s' = memb_put m p y" "bufmem s' = bufmem s3" "buframmem s' = buframmem s3" "tsch_locked s' = tsch_locked s"
    by (simp_all add: s'_def s4_def s3)
  have xs: "n_addr x' = n_addr ?x" "n_is_time_source x' = n_is_time_source ?x" by (simp_all add: x'_def)
  have "qb_wf s'" "memb_used (bufmem s') = insert b (memb_used (bufmem s))" "tp_qb y = Some b"
    using q qb_wf_cong [of s' s3] by (simp_all add: s' y_def)
  note r = q_wf_enq [OF w(1) n(1) e(3,2) xs p this(1,2) q(3) this(3) s'(1-3)]
  have "n_addr (nbr s' k) = n_addr (nbr s k)" for k
    using q_wfD(7) [OF w(1) n(1)] xs(1) by (cases "k = n") (simp_all add: nbr_def s' memb_num_def)
  moreover have "qb_contents s' b = qd_of_packetbuf old s"
    using q(6) qb_contents_cong [of s' s3] by (simp add: s' qd_of_packetbuf_def pb_frame_def)
  moreover have "qb_contents s' c = qb_contents s c" if "q' \<in> memb_used (packet_memb s)" "tp_qb (pkt s q') = Some c" for q' c
  proof -
    have "c \<in> memb_used (bufmem s)" using w(1) that unfolding q_wf_def pkts_wf_def by fastforce
    then show ?thesis using q(7) qb_contents_cong [of s' s3] qb_contents_cong [of ?s2 s] by (simp add: s')
  qed
  moreover have "pkt s' q' = pkt s q'" if "q' \<in> memb_used (packet_memb s)" for q'
    by (metis r(5) that d(2))
  ultimately show ?thesis
    using add r q(5) d u by (intro exI [of _ p] exI [of _ s']) (auto simp: s' y_def)
qed

subsection \<open>Abstract queues\<close>

text \<open>
  The abstract state: for every address the list of queued packets, each with the bytes, attributes
  and addresses that will be transmitted and its retransmission state.
\<close>

record apacket =
  ap_frame :: "u8 list"
  ap_attrs :: attrs
  ap_addrs :: addrs
  ap_sent :: mac_callback_t
  ap_transmissions :: u8
  ap_max_transmissions :: u8

definition abs_pkt :: "'a tsch_state_scheme \<Rightarrow> nat \<Rightarrow> apacket" where
  "abs_pkt s p = (let d = qb_contents s (the (tp_qb (pkt s p))) in
     \<lparr> ap_frame = take (unat (qd_len d)) (qd_data d), ap_attrs = qd_attrs d, ap_addrs = qd_addrs d,
       ap_sent = tp_sent (pkt s p), ap_transmissions = tp_transmissions (pkt s p),
       ap_max_transmissions = tp_max_transmissions (pkt s p) \<rparr>)"

definition queues :: "'a tsch_state_scheme \<Rightarrow> linkaddr \<Rightarrow> apacket list" where
  "queues s a = (case find (\<lambda>n. n_addr (nbr s n) = a) (neighbor_list s) of
     None \<Rightarrow> [] | Some n \<Rightarrow> map (abs_pkt s) (qpackets s n))"

text \<open>The abstract packet made from the packet buffer.\<close>

definition abs_packetbuf :: "u8 \<Rightarrow> mac_callback_t \<Rightarrow> 'a pbuf_state_scheme \<Rightarrow> apacket" where
  "abs_packetbuf mx sent s = \<lparr> ap_frame = pb_frame s, ap_attrs = packetbuf_attrs s, ap_addrs = packetbuf_addrs s,
     ap_sent = sent, ap_transmissions = 0, ap_max_transmissions = mx \<rparr>"

lemma queues_at:
  assumes "q_wf s" "n \<in> set (neighbor_list s)"
  shows "queues s (n_addr (nbr s n)) = map (abs_pkt s) (qpackets s n)"
proof -
  have inj: "inj_on (\<lambda>n. n_addr (nbr s n)) (set (neighbor_list s))" using assms(1) unfolding q_wf_def nbrs_wf_def by blast
  obtain m where m: "find (\<lambda>k. n_addr (nbr s k) = n_addr (nbr s n)) (neighbor_list s) = Some m"
    using assms(2) by (metis (mono_tags, lifting) find_None_iff option.exhaust)
  then have "m \<in> set (neighbor_list s) \<and> n_addr (nbr s m) = n_addr (nbr s n)" by (rule find_Some_iff2)
  then have "m = n" using inj assms(2) by (auto dest: inj_onD)
  then show ?thesis using m by (simp add: queues_def)
qed

lemma queues_none: "(\<And>n. n \<in> set (neighbor_list s) \<Longrightarrow> n_addr (nbr s n) \<noteq> a) \<Longrightarrow> queues s a = []"
  unfolding queues_def by (subst find_None_iff [THEN iffD2]) auto

text \<open>Two well-formed states with the same entries, up to entries with empty queues, have the same queues.\<close>

lemma queues_eqI:
  assumes w: "q_wf s" "q_wf s'"
    and sub: "set (neighbor_list s) \<subseteq> set (neighbor_list s')"
    and old: "\<And>n. n \<in> set (neighbor_list s) \<Longrightarrow> n_addr (nbr s' n) = n_addr (nbr s n) \<and>
        map (abs_pkt s') (qpackets s' n) = f (n_addr (nbr s n)) (map (abs_pkt s) (qpackets s n))"
    and new: "\<And>n. n \<in> set (neighbor_list s') \<Longrightarrow> n \<notin> set (neighbor_list s) \<Longrightarrow>
        map (abs_pkt s') (qpackets s' n) = f (n_addr (nbr s' n)) []"
    and none: "\<And>a. a \<notin> (\<lambda>n. n_addr (nbr s' n)) ` set (neighbor_list s') \<Longrightarrow> f a [] = []"
  shows "queues s' a = f a (queues s a)"
proof (cases "\<exists>n \<in> set (neighbor_list s'). n_addr (nbr s' n) = a")
  case True
  then obtain n where n: "n \<in> set (neighbor_list s')" "n_addr (nbr s' n) = a" by blast
  show ?thesis
  proof (cases "n \<in> set (neighbor_list s)")
    case True
    then show ?thesis using queues_at [OF w(2) n(1)] queues_at [OF w(1) True] old [OF True] n(2) by simp
  next
    case False
    have inj: "inj_on (\<lambda>n. n_addr (nbr s' n)) (set (neighbor_list s'))" using w(2) unfolding q_wf_def nbrs_wf_def by blast
    have "n_addr (nbr s k) \<noteq> a" if "k \<in> set (neighbor_list s)" for k
      using inj_onD [OF inj, of k n] old [OF that] sub that n False by auto
    then have "queues s a = []" by (rule queues_none)
    then show ?thesis using queues_at [OF w(2) n(1)] new [OF n(1) False] n(2) by simp
  qed
next
  case False
  then have "queues s' a = []" by (intro queues_none) blast
  moreover have "queues s a = []" using False old sub by (intro queues_none) fastforce
  moreover have "a \<notin> (\<lambda>n. n_addr (nbr s' n)) ` set (neighbor_list s')" using False by blast
  ultimately show ?thesis using none by simp
qed

end
