(* ===== verification/TschQueueProps.thy ===== *)
theory TschQueueProps
  imports TschQueueInv
begin

text \<open>
  The queue operations refine the abstract queues: adding a packet appends the packet buffer to the
  queue of its address, removing takes the first packet off, and every other queue is untouched.
\<close>

subsection \<open>Adding a packet\<close>

lemma add_packet_redirect:
  assumes "tsch_queue_add_nbr addr s = (Some n, s1)" "\<not> tsch_locked s" "\<not> tsch_locked s1"
    "tsch_queue_get_nbr addr s1 = Some n"
  shows "tsch_queue_add_packet addr mx sent s = tsch_queue_add_packet addr mx sent s1"
  using assms by (simp add: tsch_queue_add_packet_def tsch_is_locked_def tsch_queue_add_nbr_def [of addr s1])

lemma abs_pkt_cong:
  "pkt s' q = pkt s q \<Longrightarrow> (\<And>c. tp_qb (pkt s q) = Some c \<Longrightarrow> qb_contents s' c = qb_contents s c) \<Longrightarrow>
   tp_qb (pkt s q) \<noteq> None \<Longrightarrow> abs_pkt s' q = abs_pkt s q"
  by (auto simp: abs_pkt_def)

lemma used_has_qb: "q_wf s \<Longrightarrow> q \<in> memb_used (packet_memb s) \<Longrightarrow> tp_qb (pkt s q) \<noteq> None"
  unfolding q_wf_def pkts_wf_def by fastforce

lemma queued_used: "q_wf s \<Longrightarrow> n \<in> set (neighbor_list s) \<Longrightarrow> q \<in> set (qpackets s n) \<Longrightarrow> q \<in> memb_used (packet_memb s)"
  using q_wfD(9) by blast

lemma abs_pkt_new:
  assumes "pb_wf s" "tp_qb (pkt s' p) = Some b" "length old = PACKETBUF_SIZE" "qb_contents s' b = qd_of_packetbuf old s"
    "tp_sent (pkt s' p) = sent" "tp_transmissions (pkt s' p) = 0" "tp_max_transmissions (pkt s' p) = mx"
  shows "abs_pkt s' p = abs_packetbuf mx sent s"
  using assms pb_frame_le [OF assms(1)]
  by (simp add: abs_pkt_def abs_packetbuf_def qd_of_packetbuf_def put_at_def)

text \<open>Adding a neighbour entry changes no queue.\<close>

lemma add_nbr_queues:
  assumes "q_wf s" "addr_wf addr" "\<not> tsch_locked s" "tsch_queue_add_nbr addr s = (r, s')"
  shows "queues s' = queues s"
proof
  fix a
  note d = add_nbr_wf [OF assms]
  have "pkt s' q = pkt s q" for q by (simp add: pkt_def d(3))
  then have ap: "abs_pkt s' = abs_pkt s"
    by (simp add: abs_pkt_def fun_eq_iff qb_contents_cong [OF d(4,5)])
  have sub: "set (neighbor_list s) \<subseteq> set (neighbor_list s')" using d(9,13) by (cases r) auto
  show "queues s' a = queues s a"
  proof (rule queues_eqI [OF assms(1) d(1) sub, of "\<lambda>a q. q"])
    show "n_addr (nbr s' n) = n_addr (nbr s n) \<and> map (abs_pkt s') (qpackets s' n) = map (abs_pkt s) (qpackets s n)"
      if "n \<in> set (neighbor_list s)" for n
      using d(8) [OF that] by (simp add: ap qpackets_def)
    show "map (abs_pkt s') (qpackets s' n) = []" if "n \<in> set (neighbor_list s')" "n \<notin> set (neighbor_list s)" for n
      using that d(9,11,13) fresh_nbr_wf(2) by (cases r) (auto simp: qpackets_def)
  qed simp
qed

text \<open>The conditions under which a packet can be queued for an address.\<close>

definition can_queue :: "linkaddr \<Rightarrow> 'a tsch_state_scheme \<Rightarrow> bool" where
  "can_queue addr s \<longleftrightarrow> (tsch_queue_get_nbr addr s \<noteq> None \<or> memb_numfree (neighbor_memb s) \<noteq> 0) \<and>
     length (queues s addr) < 7 \<and> memb_numfree (packet_memb s) \<noteq> 0 \<and> queuebuf_numfree s \<noteq> 0"

lemma add_packet_ok:
  assumes w: "q_wf s" "pb_wf s" "addr_wf addr" "\<not> tsch_locked s" and c: "can_queue addr s"
  shows "\<exists>p s'. tsch_queue_add_packet addr mx sent s = Some (Some p, s') \<and> q_wf s' \<and> \<not> tsch_locked s' \<and>
    queues s' = (queues s)(addr := queues s addr @ [abs_packetbuf mx sent s])"
proof -
  obtain r s1 where r: "tsch_queue_add_nbr addr s = (r, s1)" by fastforce
  note d = add_nbr_wf [OF w(1,3,4) r]
  obtain n where n: "r = Some n" using d(12) c by (cases r) (auto simp: can_queue_def)
  have L: "n \<in> set (neighbor_list s1)" "n_addr (nbr s1 n) = addr" using d(9,10) n by auto
  have g: "tsch_queue_get_nbr addr s1 = Some n" using get_nbr_iff [OF d(1) w(3) d(2)] L by simp
  have pb: "pb_wf s1" "abs_packetbuf mx sent s1 = abs_packetbuf mx sent s"
    using pb_wf_truncate [OF d(7)] w(2) by (auto simp: abs_packetbuf_def)
  have q1: "queues s1 = queues s" by (rule add_nbr_queues [OF w(1,3,4) r])
  have q1n: "queues s1 addr = map (abs_pkt s1) (qpackets s1 n)" using queues_at [OF d(1) L(1)] L(2) by simp
  have "length (qpackets s1 n) < 7" using c q1 q1n by (metis can_queue_def length_map)
  moreover have "memb_numfree (packet_memb s1) \<noteq> 0" "queuebuf_numfree s1 \<noteq> 0"
    using c d(3,4) by (auto simp: can_queue_def queuebuf_numfree_def)
  ultimately obtain p s' where p: "tsch_queue_add_packet addr mx sent s1 = Some (Some p, s')" "q_wf s'"
      "\<not> tsch_locked s'" "neighbor_list s' = neighbor_list s1" "\<forall>k. n_addr (nbr s' k) = n_addr (nbr s1 k)"
      "p \<notin> memb_used (packet_memb s1)" "qpackets s' n = qpackets s1 n @ [p]" "\<forall>k. k \<noteq> n \<longrightarrow> qpackets s' k = qpackets s1 k"
      "tp_sent (pkt s' p) = sent" "tp_transmissions (pkt s' p) = 0" "tp_max_transmissions (pkt s' p) = mx"
      "\<exists>b old. tp_qb (pkt s' p) = Some b \<and> length old = PACKETBUF_SIZE \<and> qb_contents s' b = qd_of_packetbuf old s1"
      "\<forall>q \<in> memb_used (packet_memb s1). pkt s' q = pkt s1 q \<and>
         (\<forall>c. tp_qb (pkt s1 q) = Some c \<longrightarrow> qb_contents s' c = qb_contents s1 c)"
    using add_packet_enq [OF d(1) pb(1) L(1) g _ _ _ d(2), of mx sent] by blast
  obtain b old where b: "tp_qb (pkt s' p) = Some b" "length old = PACKETBUF_SIZE" "qb_contents s' b = qd_of_packetbuf old s1"
    using p(12) by blast
  have new: "abs_pkt s' p = abs_packetbuf mx sent s" using abs_pkt_new [OF pb(1) b p(9-11)] pb(2) by simp
  have old: "abs_pkt s' q = abs_pkt s1 q" if "q \<in> memb_used (packet_memb s1)" for q
    using p(13) that used_has_qb [OF d(1) that] by (intro abs_pkt_cong) auto
  have olds: "map (abs_pkt s') (qpackets s1 k) = map (abs_pkt s1) (qpackets s1 k)" if "k \<in> set (neighbor_list s1)" for k
    using old queued_used [OF d(1) that] by simp
  let ?f = "\<lambda>a q. if a = addr then q @ [abs_packetbuf mx sent s] else q"
  have "queues s' a = ?f a (queues s1 a)" for a
  proof (rule queues_eqI [OF d(1) p(2), of ?f])
    show "n_addr (nbr s' k) = n_addr (nbr s1 k) \<and> map (abs_pkt s') (qpackets s' k) =
        ?f (n_addr (nbr s1 k)) (map (abs_pkt s1) (qpackets s1 k))" if k: "k \<in> set (neighbor_list s1)" for k
    proof (cases "k = n")
      case False
      then have "n_addr (nbr s1 k) \<noteq> addr"
        using get_nbr_iff [OF d(1) w(3) d(2), of k] g k by auto
      then show ?thesis using p(5,8) olds [OF k] False by simp
    qed (use p(5,7) olds [OF k] L new in simp)
    show "?f a [] = []" if "a \<notin> (\<lambda>n. n_addr (nbr s' n)) ` set (neighbor_list s')" for a
      using that p(4,5) L by auto
  qed (use p(4) in auto)
  then have "queues s' = (queues s)(addr := queues s addr @ [abs_packetbuf mx sent s])"
    by (auto simp: q1 fun_eq_iff)
  then show ?thesis using add_packet_redirect [OF r [unfolded n] w(4) d(2) g] p(1-3) by auto
qed

lemma queues_frame:
  assumes "q_wf s" "neighbor_list s' = neighbor_list s" "nbr s' = nbr s"
    "\<And>q. q \<in> memb_used (packet_memb s) \<Longrightarrow> abs_pkt s' q = abs_pkt s q"
  shows "queues s' = queues s"
proof
  fix a
  have "map (abs_pkt s') (qpackets s' n) = map (abs_pkt s) (qpackets s n)" if "n \<in> set (neighbor_list s)" for n
    using assms(3,4) queued_used [OF assms(1) that] by (simp add: qpackets_def)
  then show "queues s' a = queues s a"
    using assms(2,3) by (auto simp: queues_def split: option.splits dest: find_Some_iff2)
qed

text \<open>Writing to a free packet block.\<close>

lemma q_wf_free_block:
  assumes w: "q_wf s" and m: "memb_wf m" "memb_num m = memb_num (packet_memb s)" "memb_used m = memb_used (packet_memb s)"
    and same: "\<And>q. q \<in> memb_used (packet_memb s) \<Longrightarrow> m_mem m ! q = m_mem (packet_memb s) ! q"
  shows "q_wf (s\<lparr> packet_memb := m \<rparr>)" "queues (s\<lparr> packet_memb := m \<rparr>) = queues s"
proof -
  let ?s = "s\<lparr> packet_memb := m \<rparr>"
  have nb: "nbr ?s = nbr s" "qpackets ?s = qpackets s" by (simp_all add: nbr_def qpackets_def fun_eq_iff)
  have pk: "pkt ?s q = pkt s q" if "q \<in> memb_used (packet_memb s)" for q using same [OF that] by (simp add: pkt_def)
  have "qb_wf ?s = qb_wf s" by (intro qb_wf_cong) simp_all
  moreover have "inj_on (\<lambda>q. tp_qb (pkt ?s q)) (memb_used (packet_memb s)) = inj_on (\<lambda>q. tp_qb (pkt s q)) (memb_used (packet_memb s))"
    by (rule inj_on_cong) (simp add: pk)
  ultimately show "q_wf ?s"
    using w m pk by (auto simp: q_wf_def pools_wf_def nbrs_wf_def pkts_wf_def nb)
  have "abs_pkt ?s q = abs_pkt s q" if "q \<in> memb_used (packet_memb s)" for q
    using pk [OF that] qb_contents_cong [of ?s s] by (simp add: abs_pkt_def)
  then show "queues ?s = queues s" using w nb by (intro queues_frame) auto
qed

lemma add_packet_fail:
  assumes w: "q_wf s" "pb_wf s" "addr_wf addr" "\<not> tsch_locked s" and c: "\<not> can_queue addr s"
  shows "\<exists>s'. tsch_queue_add_packet addr mx sent s = Some (None, s') \<and> q_wf s' \<and> \<not> tsch_locked s' \<and> queues s' = queues s"
proof -
  obtain r s1 where r: "tsch_queue_add_nbr addr s = (r, s1)" by fastforce
  note d = add_nbr_wf [OF w(1,3,4) r]
  have q1: "queues s1 = queues s" by (rule add_nbr_queues [OF w(1,3,4) r])
  show ?thesis
  proof (cases r)
    case None
    then show ?thesis using r d q1 w(4) by (simp add: tsch_queue_add_packet_def tsch_is_locked_def)
  next
    case (Some n)
    let ?pi = "ringbufindex_peek_put (n_tx_ringbuf (nbr s1 n))"
    have L: "n \<in> set (neighbor_list s1)" "n_addr (nbr s1 n) = addr" using d(9,10) Some by auto
    have "?pi = - 1 \<longleftrightarrow> length (queues s addr) = 7"
      using nqueue_put_full [OF q_wfD(6) [OF d(1) L(1)]] queues_at [OF d(1) L(1)] L(2) q1 by (simp add: qpackets_def)
    moreover have "length (queues s addr) \<le> 7"
      using nqueue_len(1) [OF q_wfD(6) [OF d(1) L(1)]] queues_at [OF d(1) L(1)] L(2) q1 by (simp add: qpackets_def)
    ultimately consider (full) "?pi = - 1" | (nop) "?pi \<noteq> - 1" "memb_numfree (packet_memb s1) = 0"
      | (noq) "?pi \<noteq> - 1" "memb_numfree (packet_memb s1) \<noteq> 0" "queuebuf_numfree s1 = 0"
      using c Some d(3,4,12) by (cases "?pi = - 1") (auto simp: can_queue_def queuebuf_numfree_def)
    then show ?thesis
    proof cases
      case full
      then show ?thesis using r Some d q1 w(4) by (simp add: tsch_queue_add_packet_def tsch_is_locked_def)
    next
      case nop
      note pm = q_wfD(3) [OF d(1)]
      have "memb_alloc (packet_memb s1) = (None, packet_memb s1)"
        using nop(2) mb.alloc_succeeds_iff [OF pm] mb.allocD_None(1) [OF pm]
        by (cases "memb_alloc (packet_memb s1)") (auto simp: memb_numfree_used pm)
      then have "tsch_queue_add_packet addr mx sent s = Some (None, s1\<lparr> packet_memb := packet_memb s1 \<rparr>)"
        using nop(1) r Some w(4) by (simp add: tsch_queue_add_packet_def tsch_is_locked_def Let_def)
      then show ?thesis using q_wf_free_block [OF d(1) pm refl refl refl] d(2) q1 by simp
    next
      case noq
      note pm = q_wfD(3) [OF d(1)]
      obtain p m where p: "memb_alloc (packet_memb s1) = (Some p, m)"
        using noq(2) mb.alloc_succeeds_iff [OF pm] by (cases "memb_alloc (packet_memb s1)") (auto simp: memb_numfree_used pm)
      note a = mb.allocD [OF pm p]
      let ?s2 = "s1\<lparr> packet_memb := m \<rparr>"
      have "queuebuf_new_from_packetbuf ?s2 = Some (None, ?s2)"
        using q_wfD(1) [OF d(1)] noq(3) by (intro queuebuf_new_full) (simp_all add: qb_wf_cong [of ?s2 s1] queuebuf_numfree_def)
      moreover define m2 where "m2 = snd (memb_free (memb_put m p ((pkt ?s2 p)\<lparr> tp_qb := None \<rparr>)) p)"
      ultimately have add: "tsch_queue_add_packet addr mx sent s = Some (None, s1\<lparr> packet_memb := m2 \<rparr>)"
        using noq(1) r Some p w(4) by (simp add: tsch_queue_add_packet_def tsch_is_locked_def Let_def set_pkt_def)
      have m2: "memb_wf m2" "memb_num m2 = memb_num (packet_memb s1)" "memb_used m2 = memb_used (packet_memb s1)"
        "m_mem m2 = (m_mem (packet_memb s1))[p := (pkt ?s2 p)\<lparr> tp_qb := None \<rparr>]"
        using mb.free_ok [of "memb_put m p ((pkt ?s2 p)\<lparr> tp_qb := None \<rparr>)" p] a by (auto simp: m2_def)
      have "m_mem m2 ! q = m_mem (packet_memb s1) ! q" if "q \<in> memb_used (packet_memb s1)" for q
        using m2(4) a(2) that by (cases "q = p") auto
      from q_wf_free_block [OF d(1) m2(1-3) this] show ?thesis using add d(2) q1 by simp
    qed
  qed
qed


subsection \<open>Taking packets off\<close>

lemma set_nbr_queues:
  assumes w: "q_wf s" "q_wf (set_nbr n x s)" and n: "n \<in> set (neighbor_list s)" and a: "n_addr x = n_addr (nbr s n)"
  shows "queues (set_nbr n x s) = (queues s)(n_addr (nbr s n) := map (abs_pkt s) (map the (nqueue x)))"
proof
  fix b
  let ?s = "set_nbr n x s" and ?f = "\<lambda>b q. if b = n_addr (nbr s n) then map (abs_pkt s) (map the (nqueue x)) else q"
  have nb: "nbr ?s m = (if m = n then x else nbr s m)" for m using q_wfD(7) [OF w(1) n] by (simp add: nbr_set_nbr)
  have ap: "abs_pkt ?s = abs_pkt s" using qb_contents_cong [of ?s s] by (simp add: abs_pkt_def fun_eq_iff)
  have inj: "inj_on (\<lambda>n. n_addr (nbr s n)) (set (neighbor_list s))" using w(1) unfolding q_wf_def nbrs_wf_def by blast
  have "queues ?s b = ?f b (queues s b)"
  proof (rule queues_eqI [OF w(1) w(2), of ?f])
    show "n_addr (nbr ?s k) = n_addr (nbr s k) \<and> map (abs_pkt ?s) (qpackets ?s k) =
        ?f (n_addr (nbr s k)) (map (abs_pkt s) (qpackets s k))" if k: "k \<in> set (neighbor_list s)" for k
      using a n k inj_onD [OF inj _ k n] by (auto simp: nb ap qpackets_def)
    show "?f c [] = []" if "c \<notin> (\<lambda>n. n_addr (nbr ?s n)) ` set (neighbor_list ?s)" for c
      using that n a by (auto simp: nb image_iff)
  qed simp_all
  then show "queues ?s b = ((queues s)(n_addr (nbr s n) := map (abs_pkt s) (map the (nqueue x)))) b" by simp
qed

lemma queues_cong:
  assumes "bufmem s' = bufmem s" "buframmem s' = buframmem s" "neighbor_memb s' = neighbor_memb s"
    "packet_memb s' = packet_memb s" "neighbor_list s' = neighbor_list s"
  shows "queues s' = queues s" "abs_pkt s' = abs_pkt s"
proof -
  note f = q_wf_frame [OF assms] and c = qb_contents_cong [OF assms(1,2)]
  show a: "abs_pkt s' = abs_pkt s" by (rule ext) (simp only: abs_pkt_def f(3) c)
  show "queues s' = queues s" by (rule ext) (simp only: queues_def f(2,4) a assms(5))
qed

lemma q_wf_num_eb: "q_wf (s\<lparr> num_eb_packets := k \<rparr>) = q_wf s" "queues (s\<lparr> num_eb_packets := k \<rparr>) = queues s"
  "nbr (s\<lparr> num_eb_packets := k \<rparr>) = nbr s" "pkt (s\<lparr> num_eb_packets := k \<rparr>) = pkt s"
  using q_wf_frame [of "s\<lparr> num_eb_packets := k \<rparr>" s] queues_cong(1) [of "s\<lparr> num_eb_packets := k \<rparr>" s] by simp_all

lemma remove_packet_cons:
  assumes w: "q_wf s" "\<not> tsch_locked s" and n: "n \<in> set (neighbor_list s)" and q: "qpackets s n = p # ps"
  shows "\<exists>s'. tsch_queue_remove_packet_from_queue (Some n) s = Some (Some p, s') \<and> q_wf s' \<and> \<not> tsch_locked s' \<and>
    queues s' = (queues s)(n_addr (nbr s n) := tl (queues s (n_addr (nbr s n)))) \<and>
    qpackets s' n = ps \<and> (\<forall>k. k \<noteq> n \<longrightarrow> qpackets s' k = qpackets s k) \<and> pkt s' = pkt s \<and>
    packet_memb s' = packet_memb s \<and> bufmem s' = bufmem s \<and> buframmem s' = buframmem s \<and>
    neighbor_list s' = neighbor_list s \<and> (\<forall>k. n_addr (nbr s' k) = n_addr (nbr s k))"
proof -
  let ?x = "nbr s n"
  have x: "nbr_wf ?x" using q_wfD(6) [OF w(1) n] .
  obtain e es where e: "nqueue ?x = e # es" "the e = p" "map the es = ps" using q by (auto simp: qpackets_def)
  let ?g = "ringbufindex_get (n_tx_ringbuf ?x)"
  define y where "y = ?x\<lparr> n_tx_ringbuf := snd ?g \<rparr>"
  note dq = nqueue_deq [OF x e(1), folded y_def]
  let ?s1 = "set_nbr n y s"
  have ya: "n_addr y = n_addr ?x" "n_is_time_source y = n_is_time_source ?x" by (simp_all add: y_def)
  have ts: "\<forall>m \<in> set (neighbor_list s). m \<noteq> n \<longrightarrow> \<not> n_is_time_source (nbr s m)" if "n_is_time_source y"
    using w(1) n that ya unfolding q_wf_def nbrs_wf_def by blast
  have wf1: "q_wf ?s1"
    using q_wf_set_nbr [OF w(1) n dq(5) ya(1) _ _ ts] q_wfD(8) [OF w(1) n] e q by (auto simp: dq(4))
  have qs: "queues ?s1 = (queues s)(n_addr ?x := tl (queues s (n_addr ?x)))"
    using set_nbr_queues [OF w(1) wf1 n ya(1)] queues_at [OF w(1) n] q e by (simp add: dq(4))
  have nb: "nbr ?s1 k = (if k = n then y else nbr s k)" for k using q_wfD(7) [OF w(1) n] by (simp add: nbr_set_nbr)
  have ar: "tx_array_at y (fst ?g) = Some e" using dq(3) by (simp add: tx_array_at_def y_def)
  define s' where "s' = (if n_eb s = Some n then ?s1\<lparr> num_eb_packets := num_eb_packets ?s1 - 1 \<rparr> else ?s1)"
  have s': "q_wf s'" "queues s' = queues ?s1" "nbr s' = nbr ?s1" "pkt s' = pkt s"
    using wf1 by (simp_all add: s'_def q_wf_num_eb)
  have "e = Some p" using e(2) dq(6) by auto
  then have "tsch_queue_remove_packet_from_queue (Some n) s = Some (Some p, s')"
    using w(2) dq(2) ar nb [of n]
    by (simp add: tsch_queue_remove_packet_from_queue_def tsch_is_locked_def Let_def case_prod_unfold s'_def y_def
        q_wf_num_eb)
  moreover have "packet_memb s' = packet_memb s" "bufmem s' = bufmem s" "buframmem s' = buframmem s"
    "neighbor_list s' = neighbor_list s" "\<not> tsch_locked s'" using w(2) by (simp_all add: s'_def)
  ultimately show ?thesis using s' qs nb e(3) ya(1) by (simp add: qpackets_def dq(4))
qed

lemma remove_packet_nil:
  assumes w: "q_wf s" "\<not> tsch_locked s" and n: "n \<in> set (neighbor_list s)" and q: "qpackets s n = []"
  shows "\<exists>s'. tsch_queue_remove_packet_from_queue (Some n) s = Some (None, s') \<and> q_wf s' \<and> \<not> tsch_locked s' \<and>
    queues s' = queues s \<and> pkt s' = pkt s \<and> packet_memb s' = packet_memb s"
proof -
  let ?x = "nbr s n"
  have x: "nbr_wf ?x" "nqueue ?x = []" using q_wfD(6) [OF w(1) n] q by (auto simp: qpackets_def)
  have ts: "\<forall>m \<in> set (neighbor_list s). m \<noteq> n \<longrightarrow> \<not> n_is_time_source (nbr s m)" if "n_is_time_source ?x"
    using w(1) n that unfolding q_wf_def nbrs_wf_def by blast
  have wf: "q_wf (set_nbr n ?x s)" using q_wf_set_nbr [OF w(1) n x(1) refl _ _ ts] x(2) by simp
  have "tsch_queue_remove_packet_from_queue (Some n) s = Some (None, set_nbr n (?x\<lparr> n_tx_ringbuf := n_tx_ringbuf ?x \<rparr>) s)"
    using w(2) nqueue_get_empty [OF x] by (simp add: tsch_queue_remove_packet_from_queue_def tsch_is_locked_def)
  moreover have "queues (set_nbr n ?x s) = queues s"
    using set_nbr_queues [OF w(1) wf n refl] queues_at [OF w(1) n] q x(2) by (auto simp: fun_eq_iff)
  ultimately show ?thesis using wf w(2) by simp
qed

text \<open>
  C2. \<open>tsch_queue_remove_packet_from_queue\<close> refines the abstract dequeue: on an unlocked, consistent
  module it takes the first packet of the neighbour's queue off and returns it, leaves every other
  queue alone, and returns null exactly when the queue is empty; it always agrees with the packet that
  \<open>tsch_queue_get_packet_for_nbr\<close> offers for transmission on a dedicated link.
\<close>

theorem tsch_queue_remove_packet_refines:
  assumes "q_wf s" "\<not> tsch_locked s" "n \<in> set (neighbor_list s)"
  shows "\<exists>r s'. tsch_queue_remove_packet_from_queue (Some n) s = Some (r, s') \<and> q_wf s' \<and>
    queues s' = (queues s)(n_addr (nbr s n) := tl (queues s (n_addr (nbr s n)))) \<and>
    map_option (abs_pkt s) r = (case queues s (n_addr (nbr s n)) of [] \<Rightarrow> None | p # _ \<Rightarrow> Some p) \<and>
    tsch_queue_get_packet_for_nbr (Some n) None s = Some r"
proof (cases "qpackets s n")
  case Nil
  then have q: "queues s (n_addr (nbr s n)) = []" using queues_at [OF assms(1,3)] by simp
  have "nqueue (nbr s n) = []" using Nil by (simp add: qpackets_def)
  then have "tsch_queue_get_packet_for_nbr (Some n) None s = Some None"
    using nqueue_get_empty [OF q_wfD(6) [OF assms(1,3)]] assms(2)
    by (simp add: tsch_queue_get_packet_for_nbr_def tsch_is_locked_def)
  then show ?thesis using remove_packet_nil [OF assms Nil] q by (auto simp: fun_eq_iff)
next
  case (Cons p ps)
  then have q: "queues s (n_addr (nbr s n)) = abs_pkt s p # map (abs_pkt s) ps" using queues_at [OF assms(1,3)] by simp
  obtain e es where e: "nqueue (nbr s n) = e # es" "the e = p" using Cons by (auto simp: qpackets_def)
  note dq = nqueue_deq [OF q_wfD(6) [OF assms(1,3)] e(1)]
  have "tsch_queue_get_packet_for_nbr (Some n) None s = Some (Some p)"
    using dq(1-3,6) e(2) assms(2) by (auto simp: tsch_queue_get_packet_for_nbr_def tsch_is_locked_def Let_def)
  then show ?thesis using remove_packet_cons [OF assms Cons] q by auto
qed

subsection \<open>Freeing a packet\<close>

lemma free_packet_wf:
  assumes w: "q_wf s" and p: "p \<in> memb_used (packet_memb s)" "\<And>n. n \<in> set (neighbor_list s) \<Longrightarrow> p \<notin> set (qpackets s n)"
  defines "s' \<equiv> tsch_queue_free_packet (Some p) s"
  shows "q_wf s'" "queues s' = queues s" "memb_used (packet_memb s') = memb_used (packet_memb s) - {p}"
    "neighbor_list s' = neighbor_list s" "tsch_locked s' = tsch_locked s" "nbr s' = nbr s" "qpackets s' = qpackets s"
    "card (memb_used (bufmem s')) = card (memb_used (bufmem s)) - 1" "pkt s' = pkt s"
proof -
  obtain b where b: "tp_qb (pkt s p) = Some b" "b \<in> memb_used (bufmem s)"
    using w p(1) unfolding q_wf_def pkts_wf_def by blast
  note f = queuebuf_free_ok [OF q_wfD(1) [OF w] b(2)]
  let ?s1 = "queuebuf_free (Some b) s"
  have s': "s' = ?s1\<lparr> packet_memb := snd (memb_free (packet_memb s) p) \<rparr>"
    unfolding s'_def tsch_queue_free_packet_def by (simp add: b(1) f(4))
  note m = mb.free_ok [OF q_wfD(3) [OF w], of p]
  have fields: "neighbor_list s' = neighbor_list s" "neighbor_memb s' = neighbor_memb s" "tsch_locked s' = tsch_locked s"
    "packet_memb s' = snd (memb_free (packet_memb s) p)" "bufmem s' = bufmem ?s1" "buframmem s' = buframmem ?s1"
    by (simp_all add: s') (simp_all add: f(4))
  have pk: "pkt s' = pkt s" using m by (simp add: pkt_def fun_eq_iff fields)
  have nb: "nbr s' = nbr s" by (simp add: nbr_def fun_eq_iff fields)
  then have qp: "qpackets s' = qpackets s" by (simp add: qpackets_def fun_eq_iff)
  show u: "memb_used (packet_memb s') = memb_used (packet_memb s) - {p}" using m by (simp add: fields)
  have ub: "memb_used (bufmem s') = memb_used (bufmem s) - {b}" using f(2) by (simp add: fields)
  have inj: "inj_on (\<lambda>q. tp_qb (pkt s q)) (memb_used (packet_memb s))" using w unfolding q_wf_def pkts_wf_def by blast
  have "pools_wf s'" using w f(1) m qb_wf_cong [of s' ?s1] by (simp add: q_wf_def pools_wf_def fields)
  moreover have "nbrs_wf s' = nbrs_wf s" by (simp only: nbrs_wf_def nb fields)
  then have "nbrs_wf s'" using w by (simp add: q_wf_def)
  moreover have "pkts_wf s'" unfolding pkts_wf_def qp pk fields(1) u
  proof (intro conjI ballI impI)
    show "\<exists>c \<in> memb_used (bufmem s'). tp_qb (pkt s q) = Some c" if q: "q \<in> memb_used (packet_memb s) - {p}" for q
    proof -
      obtain c where c: "c \<in> memb_used (bufmem s)" "tp_qb (pkt s q) = Some c"
        using w q unfolding q_wf_def pkts_wf_def by blast
      moreover have "c \<noteq> b" using inj_onD [OF inj, of q p] q p(1) c b by auto
      ultimately show ?thesis unfolding ub by blast
    qed
    show "inj_on (\<lambda>q. tp_qb (pkt s q)) (memb_used (packet_memb s) - {p})" using inj by (rule inj_on_subset) blast
  qed (use w p(2) in \<open>auto simp: q_wf_def pkts_wf_def\<close>)
  ultimately show wf: "q_wf s'" by (simp add: q_wf_def)
  have "abs_pkt s' q = abs_pkt s q" if q: "q \<in> memb_used (packet_memb s)" for q
  proof -
    obtain c where c: "c \<in> memb_used (bufmem s)" "tp_qb (pkt s q) = Some c" using w q unfolding q_wf_def pkts_wf_def by blast
    then show ?thesis using f(3) [OF c(1)] qb_contents_cong [OF fields(5,6)] pk by (simp add: abs_pkt_def)
  qed
  then show "queues s' = queues s" using w nb fields(1) by (intro queues_frame) auto
  show "neighbor_list s' = neighbor_list s" "tsch_locked s' = tsch_locked s" "nbr s' = nbr s" "qpackets s' = qpackets s" "pkt s' = pkt s"
    by (fact fields nb qp pk)+
  have "finite (memb_used (bufmem s))" using mb.used_bound [of "bufmem s"] q_wfD(1) [OF w] finite_subset
    unfolding qb_wf_def by blast
  then show "card (memb_used (bufmem s')) = card (memb_used (bufmem s)) - 1" using b(2) by (simp add: ub)
qed

subsection \<open>Back-off\<close>

text \<open>Changing bookkeeping fields of a neighbour: not the address, the queue or the time source flag.\<close>

lemma set_nbr_book:
  assumes w: "q_wf s" "n \<in> set (neighbor_list s)" and x: "nbr_wf x" "n_addr x = n_addr (nbr s n)"
    "nqueue x = nqueue (nbr s n)" "n_is_time_source x = n_is_time_source (nbr s n)"
  shows "q_wf (set_nbr n x s)" "queues (set_nbr n x s) = queues s"
proof -
  have ts: "\<forall>m \<in> set (neighbor_list s). m \<noteq> n \<longrightarrow> \<not> n_is_time_source (nbr s m)" if "n_is_time_source x"
    using w that x(4) unfolding q_wf_def nbrs_wf_def by simp blast
  show wf: "q_wf (set_nbr n x s)"
    using q_wf_set_nbr [OF w x(1,2) _ _ ts] q_wfD(8) [OF w] x(3) by (simp add: qpackets_def)
  show "queues (set_nbr n x s) = queues s"
    using set_nbr_queues [OF w(1) wf w(2) x(2)] queues_at [OF w] x(3) by (auto simp: qpackets_def fun_eq_iff)
qed

lemma nqueue_upd [simp]:
  "nqueue (x\<lparr> n_backoff_window := a \<rparr>) = nqueue x" "nqueue (x\<lparr> n_backoff_exponent := a \<rparr>) = nqueue x"
  "nqueue (x\<lparr> n_rank := a \<rparr>) = nqueue x" "nqueue (x\<lparr> n_time_source := a \<rparr>) = nqueue x"
  "nqueue (x\<lparr> n_is_time_source := b \<rparr>) = nqueue x" "nqueue (x\<lparr> n_tx_links_count := a \<rparr>) = nqueue x"
  "nqueue (x\<lparr> n_dedicated_tx_links_count := a \<rparr>) = nqueue x" "nqueue (x\<lparr> n_etx_metric_received := a \<rparr>) = nqueue x"
  by (simp_all add: nqueue_def)

lemma nbr_wf_upd [simp]:
  "nbr_wf (x\<lparr> n_rank := a \<rparr>) = nbr_wf x" "nbr_wf (x\<lparr> n_time_source := a \<rparr>) = nbr_wf x"
  "nbr_wf (x\<lparr> n_is_time_source := b \<rparr>) = nbr_wf x" "nbr_wf (x\<lparr> n_tx_links_count := a \<rparr>) = nbr_wf x"
  "nbr_wf (x\<lparr> n_dedicated_tx_links_count := a \<rparr>) = nbr_wf x" "nbr_wf (x\<lparr> n_etx_metric_received := a \<rparr>) = nbr_wf x"
  by (simp_all add: nbr_wf_def backoff_wf_def)

lemma backoff_reset_wf:
  assumes "q_wf s" "n \<in> set (neighbor_list s)"
  shows "q_wf (tsch_queue_backoff_reset n s)" "queues (tsch_queue_backoff_reset n s) = queues s"
  unfolding tsch_queue_backoff_reset_def
  by (rule set_nbr_book [OF assms]; use q_wfD(6) [OF assms] in \<open>simp add: nbr_wf_def backoff_wf_def\<close>)+

lemma backoff_inc_exponent:
  fixes e :: u8
  defines "e' \<equiv> (if uint e + 1 < uint TSCH_MAC_MAX_BE then e + 1 else TSCH_MAC_MAX_BE)"
  shows "unat e' = min (unat e + 1) 5" "TSCH_MAC_MIN_BE \<le> e'" "e' \<le> TSCH_MAC_MAX_BE"
proof -
  have i: "uint e + 1 < 5 \<longleftrightarrow> unat e + 1 < 5" unfolding uint_nat by linarith
  show u: "unat e' = min (unat e + 1) 5"
  proof (cases "unat e + 1 < 5")
    case True
    then have "unat (e + 1) = unat e + 1" by (simp add: unat_word_ariths)
    then show ?thesis using True i by (simp add: e'_def)
  qed (use i in \<open>simp add: e'_def\<close>)
  show "TSCH_MAC_MIN_BE \<le> e'" "e' \<le> TSCH_MAC_MAX_BE" using u by (simp_all add: word_le_nat_alt)
qed

lemma backoff_inc_window:
  assumes "unat e \<le> 5"
  shows "unat ((word_of_int (uint (r :: u16) mod 2 ^ unat (e :: u8)) :: u8) + 1) \<le> 2 ^ unat e"
    "0 < unat ((word_of_int (uint r mod 2 ^ unat e) :: u8) + 1)"
proof -
  let ?m = "unat r mod 2 ^ unat e"
  have le: "(2 :: nat) ^ unat e \<le> 32" using power_increasing [OF assms, of "2 :: nat"] by simp
  have m1: "?m < 2 ^ unat e" by simp
  note m = m1 less_le_trans [OF m1 le]
  have "uint r mod 2 ^ unat e = int ?m" by (simp add: zmod_int)
  then have "unat (word_of_int (uint r mod 2 ^ unat e) :: u8) = ?m" using m(2) by simp
  then have "unat ((word_of_int (uint r mod 2 ^ unat e) :: u8) + 1) = ?m + 1" using m(2) by (simp add: unat_word_ariths)
  then show "unat ((word_of_int (uint r mod 2 ^ unat e) :: u8) + 1) \<le> 2 ^ unat e"
    "0 < unat ((word_of_int (uint r mod 2 ^ unat e) :: u8) + 1)" using Suc_leI [OF m(1)] by simp_all
qed

lemma random_rand_q_wf:
  "q_wf (snd (random_rand s)) = q_wf s" "queues (snd (random_rand s)) = queues s" "nbr (snd (random_rand s)) = nbr s"
  "neighbor_list (snd (random_rand s)) = neighbor_list s"
  using q_wf_frame [of "snd (random_rand s)" s] queues_cong(1) [of "snd (random_rand s)" s]
  by (simp_all add: random_rand_def)

lemma backoff_inc_spec:
  assumes "q_wf s" "n \<in> set (neighbor_list s)"
  defines "s' \<equiv> tsch_queue_backoff_inc n s"
  shows "q_wf s'" "queues s' = queues s" "qpackets s' = qpackets s"
    "unat (n_backoff_exponent (nbr s' n)) = min (unat (n_backoff_exponent (nbr s n)) + 1) 5"
    "0 < unat (n_backoff_window (nbr s' n))"
    "unat (n_backoff_window (nbr s' n)) \<le> 2 ^ unat (n_backoff_exponent (nbr s' n))"
proof -
  let ?x = "nbr s n" and ?s1 = "snd (random_rand s)" and ?r = "drop_bit 6 (fst (random_rand s))"
  define e where "e = (if uint (n_backoff_exponent ?x) + 1 < uint TSCH_MAC_MAX_BE then n_backoff_exponent ?x + 1 else TSCH_MAC_MAX_BE)"
  define y where "y = ?x\<lparr> n_backoff_exponent := e, n_backoff_window := word_of_int (uint ?r mod 2 ^ unat e) + 1 \<rparr>"
  note be = backoff_inc_exponent [of "n_backoff_exponent ?x", folded e_def]
  have e5: "unat e \<le> 5" using be(1) by simp
  have s': "s' = set_nbr n y ?s1"
    by (simp add: s'_def tsch_queue_backoff_inc_def Let_def case_prod_unfold random_rand_q_wf y_def e_def)
  have "nbr_wf y" using q_wfD(6) [OF assms(1,2)] be backoff_inc_window(1) [OF e5]
    by (simp add: nbr_wf_def backoff_wf_def y_def)
  then show "q_wf s'" "queues s' = queues s"
    using set_nbr_book [of ?s1 n y] assms(1,2) by (simp_all add: s' random_rand_q_wf y_def)
  have nb: "nbr s' k = (if k = n then y else nbr s k)" for k
    using q_wfD(7) [OF assms(1,2)] by (simp add: s' nbr_set_nbr random_rand_q_wf) (simp add: random_rand_def)
  then show "unat (n_backoff_exponent (nbr s' n)) = min (unat (n_backoff_exponent (nbr s n)) + 1) 5"
    "0 < unat (n_backoff_window (nbr s' n))"
    "unat (n_backoff_window (nbr s' n)) \<le> 2 ^ unat (n_backoff_exponent (nbr s' n))"
    using be(1) backoff_inc_window [OF e5] by (simp_all add: y_def)
  show "qpackets s' = qpackets s" using nb by (simp add: qpackets_def fun_eq_iff y_def)
qed

text \<open>
  After a failed transmission on a shared link \<open>tsch_queue_backoff_inc\<close> doubles the contention
  window up to the maximum: the exponent grows by one and saturates at \<open>TSCH_MAC_MAX_BE\<close>, the window is
  drawn from \<open>1 .. 2 ^ exponent\<close> whatever the random number is, and the queues and their invariant stay.
\<close>

theorem tsch_queue_backoff_inc_bounds:
  assumes "q_wf s" "n \<in> set (neighbor_list s)"
  shows "q_wf (tsch_queue_backoff_inc n s) \<and> queues (tsch_queue_backoff_inc n s) = queues s \<and>
    unat (n_backoff_exponent (nbr (tsch_queue_backoff_inc n s) n)) = min (unat (n_backoff_exponent (nbr s n)) + 1) 5 \<and>
    0 < unat (n_backoff_window (nbr (tsch_queue_backoff_inc n s) n)) \<and>
    unat (n_backoff_window (nbr (tsch_queue_backoff_inc n s) n)) \<le>
      2 ^ unat (n_backoff_exponent (nbr (tsch_queue_backoff_inc n s) n))"
  using backoff_inc_spec [OF assms] by blast

subsection \<open>The end of a transmission\<close>

lemma set_pkt_wf:
  assumes "q_wf s" "tp_qb x = tp_qb (pkt s p)"
  shows "q_wf (set_pkt p x s)"
proof -
  let ?s = "set_pkt p x s"
  have qb: "tp_qb (pkt ?s q) = tp_qb (pkt s q)" for q using assms(2) by (simp add: pkt_set_pkt)
  have "pkts_wf ?s = pkts_wf s" by (simp add: pkts_wf_def qb)
  moreover have "nbrs_wf ?s = nbrs_wf s" by (simp add: nbrs_wf_def)
  moreover have "pools_wf ?s = pools_wf s" using qb_wf_cong [of ?s s] by (simp add: pools_wf_def)
  ultimately show ?thesis using assms(1) by (simp add: q_wf_def)
qed

lemma queuebuf_attr_wf:
  assumes "q_wf s" "p \<in> memb_used (packet_memb s)"
  shows "\<exists>b. tp_qb (pkt s p) = Some b \<and> queuebuf_attr b ty s = Some (ap_attrs (abs_pkt s p) ty)"
proof -
  obtain b where b: "b \<in> memb_used (bufmem s)" "tp_qb (pkt s p) = Some b"
    using assms unfolding q_wf_def pkts_wf_def by blast
  then show ?thesis using qb_wfD(1) [OF q_wfD(1) [OF assms(1)] b(1)] by (simp add: queuebuf_attr_def abs_pkt_def Let_def)
qed

text \<open>Whether a packet with some slots left may be sent again: the eight-bit bound of the code.\<close>

definition keeps_packet :: "nat \<Rightarrow> u8 \<Rightarrow> bool" where
  "keeps_packet left transmissions \<longleftrightarrow> 0 < left \<and> left \<le> 32768 \<and> left mod 256 \<noteq> 0 \<and>
     unat transmissions + left mod 256 < 256"

lemma byte_sum_less:
  fixes a t :: nat
  assumes "a < 256" "t < 256"
  shows "t < (a + t) mod 256 \<longleftrightarrow> a \<noteq> 0 \<and> t + a < 256"
  using assms by (cases "a + t < 256") (auto simp: le_mod_geq)

lemma keeps_packet_word:
  fixes now ttl :: u16 and t :: u8
  defines "m \<equiv> (if TSCH_SLOTNUM_LT now ttl then ucast (ttl - now) + t else t)"
  shows "t < m \<longleftrightarrow> keeps_packet (unat (ttl - now)) t"
proof (cases "TSCH_SLOTNUM_LT now ttl")
  case True
  let ?l = "unat (ttl - now)"
  have u: "unat (ucast (ttl - now) :: u8) = ?l mod 256" by (simp add: unsigned_ucast_eq take_bit_eq_mod)
  have "unat m = (?l mod 256 + unat t) mod 256" using True by (simp add: m_def unat_word_ariths u)
  then have "unat t < unat m \<longleftrightarrow> ?l mod 256 \<noteq> 0 \<and> unat t + ?l mod 256 < 256"
    using byte_sum_less [of "?l mod 256" "unat t"] by simp
  then show ?thesis using True slotnum_lt_left [of now ttl] by (simp add: keeps_packet_def word_less_nat_alt)
next
  case False
  then show ?thesis using slotnum_lt_left [of now ttl] by (auto simp: m_def keeps_packet_def)
qed

lemma packet_sent_failure_spec:
  assumes w: "q_wf s" "\<not> tsch_locked s" "n \<in> set (neighbor_list s)" "qpackets s n = p # ps" and st: "status \<noteq> MAC_TX_OK"
  defines "left \<equiv> unat (ap_attrs (abs_pkt s p) PACKETBUF_ATTR_TRANSMISSION_TTL - ucast (ls4b (tsch_current_asn s)))"
  shows "\<exists>s'. tsch_queue_packet_sent n p link status s = Some (keeps_packet left (tp_transmissions (pkt s p)), s') \<and>
    q_wf s' \<and> qpackets s' n = (if keeps_packet left (tp_transmissions (pkt s p)) then p # ps else ps)"
proof -
  let ?now = "ucast (ls4b (tsch_current_asn s)) :: u16" and ?t = "tp_transmissions (pkt s p)"
  let ?ttl = "ap_attrs (abs_pkt s p) PACKETBUF_ATTR_TRANSMISSION_TTL"
  define mx where "mx = (if TSCH_SLOTNUM_LT ?now ?ttl then ucast (?ttl - ?now) + ?t else ?t)"
  define s1 where "s1 = set_pkt p ((pkt s p)\<lparr> tp_max_transmissions := mx \<rparr>) s"
  have pu: "p \<in> memb_used (packet_memb s)" using queued_used [OF w(1,3)] w(4) by simp
  obtain b where b: "tp_qb (pkt s p) = Some b" "queuebuf_attr b PACKETBUF_ATTR_TRANSMISSION_TTL s = Some ?ttl"
    using queuebuf_attr_wf [OF w(1) pu] by blast
  have pn: "p < memb_num (packet_memb s)" using pu mb.used_bound [OF q_wfD(3) [OF w(1)]] by auto
  have s1: "q_wf s1" "\<not> tsch_locked s1" "n \<in> set (neighbor_list s1)" "qpackets s1 n = p # ps" "nbr s1 = nbr s"
    "pkt s1 p = (pkt s p)\<lparr> tp_max_transmissions := mx \<rparr>"
    using w set_pkt_wf [OF w(1)] pn by (simp_all add: s1_def pkt_set_pkt)
  have keep: "\<not> mx \<le> ?t \<longleftrightarrow> keeps_packet left ?t"
    using keeps_packet_word [of ?t ?now ?ttl] by (simp add: mx_def left_def not_le)
  let ?u = "\<not> n_is_broadcast (nbr s n) \<and> l_link_options link AND LINK_OPTION_SHARED \<noteq> 0"
  have fin: "q_wf (if ?u then tsch_queue_backoff_inc n x else x) \<and>
      qpackets (if ?u then tsch_queue_backoff_inc n x else x) n = qpackets x n"
    if x: "q_wf x" "n \<in> set (neighbor_list x)" for x :: "'a tsch_state_scheme"
    using backoff_inc_spec(1,3) [OF x] x by simp
  have eq: "tsch_queue_packet_sent n p link status s = do {
      (k, s) \<leftarrow> (if mx \<le> ?t then do { (_, s) \<leftarrow> tsch_queue_remove_packet_from_queue (Some n) s1; Some (False, s) }
                 else Some (True, s1));
      Some (k, if ?u then tsch_queue_backoff_inc n s else s) }"
    using st b s1(6) by (cases "TSCH_SLOTNUM_LT ?now ?ttl")
      (simp_all add: tsch_queue_packet_sent_def Let_def s1_def mx_def split del: if_split cong: if_cong)
  show ?thesis
  proof (cases "keeps_packet left ?t")
    case True
    then show ?thesis using eq keep fin [OF s1(1,3)] s1(4) by simp
  next
    case False
    obtain s2 where s2: "tsch_queue_remove_packet_from_queue (Some n) s1 = Some (Some p, s2)" "q_wf s2"
      "qpackets s2 n = ps" "neighbor_list s2 = neighbor_list s1"
      using remove_packet_cons [OF s1(1-4)] by blast
    then show ?thesis using eq keep False fin [OF s2(2)] s1(3) by simp
  qed
qed

text \<open>
  C3. After a failed transmission of the packet at the head of its queue the queue module keeps its
  invariant and retains the packet exactly when \<open>keeps_packet\<close> holds of the number of slots left until
  its time-to-live slot and of its transmission count: the deadline must lie ahead, and, because the
  remaining transmissions are kept in a byte, the number of slots left must not be a multiple of 256
  and must not overflow the byte together with the transmissions made. Otherwise the packet leaves the
  queue, and the other packets of the queue stay in order.
\<close>

theorem tsch_queue_packet_sent_failure:
  assumes w: "q_wf s" "\<not> tsch_locked s" "n \<in> set (neighbor_list s)" "qpackets s n = p # ps" and st: "status \<noteq> MAC_TX_OK"
    and left: "left = unat (ap_attrs (abs_pkt s p) PACKETBUF_ATTR_TRANSMISSION_TTL - ucast (ls4b (tsch_current_asn s)))"
  shows "\<exists>s'. tsch_queue_packet_sent n p link status s = Some (keeps_packet left (tp_transmissions (pkt s p)), s') \<and>
    q_wf s' \<and> qpackets s' n = (if keeps_packet left (tp_transmissions (pkt s p)) then p # ps else ps)"
  unfolding left by (rule packet_sent_failure_spec [OF w st])

subsection \<open>Initialisation\<close>

lemma tsch_queue_init_wf:
  assumes "qb_wf s" "memb_num (neighbor_memb s) = TSCH_QUEUE_MAX_NEIGHBOR_QUEUES" "memb_num (packet_memb s) = QUEUEBUF_NUM"
    "\<not> tsch_locked s"
  defines "s' \<equiv> tsch_queue_init s"
  shows "q_wf s'" "\<not> tsch_locked s'" "tsch_queue_get_nbr tsch_eb_address s' = n_eb s'"
    "tsch_queue_get_nbr tsch_broadcast_address s' = n_broadcast s'" "n_eb s' \<noteq> None" "n_broadcast s' \<noteq> None"
    "queues s' = (\<lambda>_. [])" "memb_numfree (packet_memb s') = 8" "bufmem s' = bufmem s" "buframmem s' = buframmem s"
    "pbuf_state.truncate s' = pbuf_state.truncate s" "memb_numfree (neighbor_memb s') \<noteq> 0"
proof -
  define s0 where "s0 = s\<lparr> neighbor_list := [], neighbor_memb := memb_init zero_neighbor (neighbor_memb s),
                 packet_memb := memb_init zero_packet (packet_memb s) \<rparr>"
  have w0: "q_wf s0" "\<not> tsch_locked s0"
    using assms(1-4) qb_wf_cong [of s0 s] by (simp_all add: q_wf_def pools_wf_def nbrs_wf_def pkts_wf_def s0_def)
  obtain eb s1 where eb: "tsch_queue_add_nbr tsch_eb_address s0 = (eb, s1)" by fastforce
  note d1 = add_nbr_wf [OF w0(1) addr_wf_consts(3) w0(2) eb]
  have "memb_numfree (neighbor_memb s0) \<noteq> 0" using assms(2) by (simp add: s0_def memb_numfree_used)
  then obtain n where n: "eb = Some n" using d1(12) by (cases eb) auto
  define s2 where "s2 = s1\<lparr> n_eb := eb \<rparr>"
  have w2: "q_wf s2" "\<not> tsch_locked s2" "neighbor_list s2 = neighbor_list s1" "nbr s2 = nbr s1"
    using d1 q_wf_frame [of s2 s1] by (simp_all add: s2_def)
  obtain bc s3 where bc: "tsch_queue_add_nbr tsch_broadcast_address s2 = (bc, s3)" by fastforce
  note d3 = add_nbr_wf [OF w2(1) addr_wf_consts(2) w2(2) bc]
  have L1: "set (neighbor_list s1) = {n}" using d1(9) n by (simp add: s0_def)
  then have "card (memb_used (neighbor_memb s2)) = 1" using q_wfD(5) [OF w2(1)] w2(3) by (metis is_singletonI is_singleton_altdef)
  then have "memb_numfree (neighbor_memb s2) \<noteq> 0"
    using w2(1) by (simp add: memb_numfree_used q_wf_def pools_wf_def)
  then obtain m where m: "bc = Some m" using d3(12) by (cases bc) auto
  have s': "s' = s3\<lparr> n_broadcast := bc \<rparr>"
    unfolding s'_def tsch_queue_init_def s0_def [symmetric] using bc by (simp add: eb s2_def)
  note f = q_wf_frame [of s' s3]
  show w: "q_wf s'" "\<not> tsch_locked s'" using d3 f s' by simp_all
  have L3: "set (neighbor_list s') = {n, m}" using d3(9) m L1 w2(3) s' by auto
  have an: "n_addr (nbr s' n) = tsch_eb_address" "n_addr (nbr s' m) = tsch_broadcast_address"
    using d3(8) [of n] d3(10) m d1(10) n L1 w2 f s' by simp_all
  show "tsch_queue_get_nbr tsch_eb_address s' = n_eb s'" "tsch_queue_get_nbr tsch_broadcast_address s' = n_broadcast s'"
    using get_nbr_iff [OF w(1) addr_wf_consts(3) w(2), of n] get_nbr_iff [OF w(1) addr_wf_consts(2) w(2), of m] an L3 n m
      d3(6) by (simp_all add: s' s2_def)
  show "n_eb s' \<noteq> None" "n_broadcast s' \<noteq> None" using n m d3(6) by (simp_all add: s' s2_def)
  have q0: "queues s0 = (\<lambda>_. [])" by (simp add: queues_def s0_def fun_eq_iff)
  show "queues s' = (\<lambda>_. [])"
    using queues_cong(1) [of s' s3] add_nbr_queues [OF w2(1) addr_wf_consts(2) w2(2) bc] queues_cong(1) [of s2 s1]
      add_nbr_queues [OF w0(1) addr_wf_consts(3) w0(2) eb] q0 by (simp add: s' s2_def)
  have p: "packet_memb s' = memb_init zero_packet (packet_memb s)" using d3(3) d1(3) by (simp add: s' s2_def s0_def)
  show "memb_numfree (packet_memb s') = 8" using assms(3) by (simp add: p memb_numfree_used)
  show "bufmem s' = bufmem s" "buframmem s' = buframmem s" using d3(4,5) d1(4,5) by (simp_all add: s' s2_def s0_def)
  show "pbuf_state.truncate s' = pbuf_state.truncate s" using d3(7) d1(7)
    by (simp add: s' s2_def s0_def pbuf_state.truncate_def)
  have "card (memb_used (neighbor_memb s')) \<le> 2"
    using q_wfD(5) [OF w(1)] L3 card_length [of "[n, m]"] by simp
  then show "memb_numfree (neighbor_memb s') \<noteq> 0"
    using w(1) by (simp add: memb_numfree_used q_wf_def pools_wf_def)
qed

text \<open>The boot state: zero-initialised globals, then \<open>queuebuf_init\<close> and \<open>tsch_queue_init\<close>.\<close>

definition tsch_zero :: tsch_state where
  "tsch_zero = qbuf_state.extend qbuf_zero
     \<lparr> tsch_locked = False, tsch_lock_requested = False, tsch_in_slot_operation = False,
       tsch_current_asn = \<lparr> ls4b = 0, ms1b = 0 \<rparr>, tsch_is_coordinator = False, tsch_is_associated = True,
       tsch_current_ka_timeout = 0, keepalive_timer = None, random_seq = \<lambda>_. 0, random_pos = 0,
       packet_memb = \<lparr> m_count = replicate QUEUEBUF_NUM 0, m_mem = replicate QUEUEBUF_NUM zero_packet \<rparr>,
       neighbor_memb = \<lparr> m_count = replicate TSCH_QUEUE_MAX_NEIGHBOR_QUEUES 0,
                         m_mem = replicate TSCH_QUEUE_MAX_NEIGHBOR_QUEUES zero_neighbor \<rparr>,
       neighbor_list = [], n_broadcast = None, n_eb = None, num_eb_packets = 0 \<rparr>"

definition tsch_boot :: tsch_state where
  "tsch_boot = tsch_queue_init (queuebuf_init tsch_zero)"

lemma tsch_boot_wf:
  "q_wf tsch_boot" "pb_wf tsch_boot" "\<not> tsch_locked tsch_boot" "queues tsch_boot = (\<lambda>_. [])"
  "addr_wf a \<Longrightarrow> can_queue a tsch_boot" "n_eb tsch_boot \<noteq> None" "n_broadcast tsch_boot \<noteq> None"
proof -
  let ?s = "queuebuf_init tsch_zero"
  have z: "memb_num (bufmem tsch_zero) = QUEUEBUF_NUM" "memb_num (buframmem tsch_zero) = QUEUEBUF_NUM"
    "packetbuf tsch_zero = replicate 96 0" "hdrlen tsch_zero = 0" "bufptr tsch_zero = 0" "buflen tsch_zero = 0"
    "packetbuf_addrs tsch_zero = (\<lambda>_. linkaddr_null)"
    by (simp_all add: tsch_zero_def qbuf_state.extend_def qbuf_zero_def memb_num_def)
  note q = queuebuf_init_wf [OF z(1,2)]
  have "memb_num (neighbor_memb ?s) = TSCH_QUEUE_MAX_NEIGHBOR_QUEUES" "memb_num (packet_memb ?s) = QUEUEBUF_NUM"
    "\<not> tsch_locked ?s" "pb_wf ?s"
    using z by (simp_all add: tsch_zero_def qbuf_state.extend_def memb_num_def queuebuf_init_def pb_wf_def)
  note i = tsch_queue_init_wf [OF q(1) this(1-3), folded tsch_boot_def]
  show "q_wf tsch_boot" "\<not> tsch_locked tsch_boot" "queues tsch_boot = (\<lambda>_. [])" "n_eb tsch_boot \<noteq> None"
    "n_broadcast tsch_boot \<noteq> None" by (fact i)+
  show "pb_wf tsch_boot" using pb_wf_truncate [OF i(11)] \<open>pb_wf ?s\<close> by simp
  have "queuebuf_numfree tsch_boot = 8" using q(3) i(9) by (simp add: queuebuf_numfree_def)
  then show "addr_wf a \<Longrightarrow> can_queue a tsch_boot" using i(7,8,12) by (simp add: can_queue_def)
qed


text \<open>A reachable state with one packet queued, with any time-to-live slot, for the witnesses.\<close>

lemma queued_state:
  "\<exists>(s :: tsch_state) n p. q_wf s \<and> \<not> tsch_locked s \<and> n \<in> set (neighbor_list s) \<and> qpackets s n = [p] \<and>
     ap_attrs (abs_pkt s p) PACKETBUF_ATTR_TRANSMISSION_TTL = t \<and> ls4b (tsch_current_asn s) = 0"
proof -
  let ?a = "[3, 0, 0, 0, 0, 0, 0, 0] :: linkaddr"
  define s0 where "s0 = packetbuf_set_attr PACKETBUF_ATTR_TRANSMISSION_TTL t tsch_boot"
  have a: "addr_wf ?a" by (simp add: addr_wf_def)
  have e: "q_wf s0 = q_wf tsch_boot" "nbr s0 = nbr tsch_boot" "queues s0 = queues tsch_boot"
    using q_wf_frame [of s0 tsch_boot] queues_cong(1) [of s0 tsch_boot] by (simp_all add: s0_def packetbuf_set_attr_def)
  have "can_queue ?a s0 = can_queue ?a tsch_boot"
    using e by (simp add: can_queue_def tsch_queue_get_nbr_def tsch_is_locked_def queuebuf_numfree_def)
      (simp add: s0_def packetbuf_set_attr_def)
  then have b: "q_wf s0" "pb_wf s0" "\<not> tsch_locked s0" "can_queue ?a s0" "queues s0 = (\<lambda>_. [])"
    using tsch_boot_wf a e by (simp_all add: s0_def packetbuf_set_attr_def pb_wf_def)
  obtain s :: tsch_state where s: "q_wf s" "\<not> tsch_locked s" "queues s = (queues s0)(?a := queues s0 ?a @ [abs_packetbuf 1 NO_CALLBACK s0])"
    using add_packet_ok [OF b(1,2) a b(3,4), of 1 NO_CALLBACK] by auto
  then have q: "queues s ?a = [abs_packetbuf 1 NO_CALLBACK s0]" using b(5) by simp
  then obtain n where n: "n \<in> set (neighbor_list s)" "n_addr (nbr s n) = ?a"
    using queues_none [of s ?a] by fastforce
  then have m: "map (abs_pkt s) (qpackets s n) = [abs_packetbuf 1 NO_CALLBACK s0]" using queues_at [OF s(1) n(1)] q by simp
  then obtain p where p: "qpackets s n = [p]" "abs_pkt s p = abs_packetbuf 1 NO_CALLBACK s0" by auto
  let ?s = "s\<lparr> tsch_current_asn := \<lparr> ls4b = 0, ms1b = 0 \<rparr> \<rparr>"
  have f: "q_wf ?s" "qpackets ?s = qpackets s" "abs_pkt ?s = abs_pkt s"
    using q_wf_frame [of ?s s] queues_cong(2) [of ?s s] s(1) by simp_all
  have "ap_attrs (abs_pkt ?s p) PACKETBUF_ATTR_TRANSMISSION_TTL = t"
    using p(2) f(3) by (simp add: abs_packetbuf_def s0_def packetbuf_set_attr_def)
  then show ?thesis using f s(2) n(1) p(1) by (intro exI [of _ ?s] exI [of _ n] exI [of _ p]) simp
qed

theorem tsch_queue_remove_packet_refines_witness:
  "\<exists>(s :: tsch_state) n r s'. tsch_queue_remove_packet_from_queue (Some n) s = Some (r, s') \<and> r \<noteq> None \<and> q_wf s'"
proof -
  obtain s :: tsch_state and n p where s: "q_wf s" "\<not> tsch_locked s" "n \<in> set (neighbor_list s)" "qpackets s n = [p]"
    using queued_state by blast
  then have "queues s (n_addr (nbr s n)) = [abs_pkt s p]" using queues_at [OF s(1,3)] by simp
  then show ?thesis using tsch_queue_remove_packet_refines [OF s(1-3)] by fastforce
qed

theorem tsch_queue_backoff_inc_bounds_witness:
  "\<exists>(s :: tsch_state) n. q_wf s \<and> 0 < unat (n_backoff_window (nbr (tsch_queue_backoff_inc n s) n))"
  using tsch_queue_backoff_inc_bounds queued_state by blast

theorem tsch_queue_packet_sent_failure_witness:
  "\<exists>(s :: tsch_state) n p link s'. qpackets s n = [p] \<and>
     tsch_queue_packet_sent n p link MAC_TX_NOACK s = Some (keeps_packet 200 (tp_transmissions (pkt s p)), s') \<and> q_wf s'"
proof -
  obtain s :: tsch_state and n p where s: "q_wf s" "\<not> tsch_locked s" "n \<in> set (neighbor_list s)" "qpackets s n = [p]"
    "ap_attrs (abs_pkt s p) PACKETBUF_ATTR_TRANSMISSION_TTL = 200" "ls4b (tsch_current_asn s) = 0"
    using queued_state by blast
  then show ?thesis using tsch_queue_packet_sent_failure [OF s(1-4), of MAC_TX_NOACK 200] by (simp, blast)
qed

text \<open>
  The eight-bit transmission budget loses packets: a packet whose time-to-live slot is exactly 256
  slots ahead has time left (\<open>TSCH_SLOTNUM_LT\<close> holds), and one 255 slots ahead is kept, but the failed
  transmission drops it, because 256 is truncated to 0 when it is stored in \<open>max_transmissions\<close>.
\<close>

theorem ttl_budget_truncated:
  assumes w: "q_wf s" "\<not> tsch_locked s" "n \<in> set (neighbor_list s)" "qpackets s n = p # ps"
    and ttl: "ap_attrs (abs_pkt s p) PACKETBUF_ATTR_TRANSMISSION_TTL = ucast (ls4b (tsch_current_asn s)) + 256"
  shows "TSCH_SLOTNUM_LT (ucast (ls4b (tsch_current_asn s))) (ap_attrs (abs_pkt s p) PACKETBUF_ATTR_TRANSMISSION_TTL) \<and>
    (\<exists>s'. tsch_queue_packet_sent n p link MAC_TX_NOACK s = Some (False, s') \<and> qpackets s' n = ps) \<and>
    keeps_packet 255 0"
proof -
  have l: "unat (ap_attrs (abs_pkt s p) PACKETBUF_ATTR_TRANSMISSION_TTL - ucast (ls4b (tsch_current_asn s))) = 256"
    by (simp add: ttl)
  have k: "\<not> keeps_packet 256 (tp_transmissions (pkt s p))" by (simp add: keeps_packet_def)
  show ?thesis
    using packet_sent_failure_spec [OF w, of MAC_TX_NOACK link] l k by (auto simp: slotnum_lt_left keeps_packet_def)
qed

theorem ttl_budget_truncated_witness:
  "\<exists>(s :: tsch_state) n p link s'. qpackets s n = [p] \<and> tsch_queue_packet_sent n p link MAC_TX_NOACK s = Some (False, s') \<and>
     qpackets s' n = []"
proof -
  obtain s :: tsch_state and n p where s: "q_wf s" "\<not> tsch_locked s" "n \<in> set (neighbor_list s)" "qpackets s n = [p]"
    "ap_attrs (abs_pkt s p) PACKETBUF_ATTR_TRANSMISSION_TTL = 256" "ls4b (tsch_current_asn s) = 0"
    using queued_state by blast
  then show ?thesis using ttl_budget_truncated [OF s(1-4)] by (simp, blast)
qed

subsection \<open>The time source\<close>

lemma set_ka_timeout_frame:
  assumes "t = 0 \<or> t = TSCH_KEEPALIVE_TIMEOUT"
  shows "\<exists>s'. tsch_set_ka_timeout t s = Some s' \<and> bufmem s' = bufmem s \<and> buframmem s' = buframmem s \<and>
    neighbor_memb s' = neighbor_memb s \<and> packet_memb s' = packet_memb s \<and> neighbor_list s' = neighbor_list s \<and>
    tsch_locked s' = tsch_locked s"
proof -
  have "(12000 :: u32) div 10 \<noteq> 0" by simp
  then show ?thesis using assms
    by (auto simp: tsch_set_ka_timeout_def tsch_schedule_keepalive_def TSCH_KEEPALIVE_TIMEOUT_def Let_def
        random_rand_def guard_opt_def)
qed

lemma time_source_iff:
  assumes "q_wf s" "\<not> tsch_locked s"
  shows "tsch_queue_get_time_source s = Some n \<longleftrightarrow> n \<in> set (neighbor_list s) \<and> n_is_time_source (nbr s n)"
proof
  assume r: "n \<in> set (neighbor_list s) \<and> n_is_time_source (nbr s n)"
  obtain m where m: "find (\<lambda>n. n_is_time_source (nbr s n)) (neighbor_list s) = Some m"
    using r by (metis (mono_tags, lifting) find_None_iff option.exhaust)
  then have "m \<in> set (neighbor_list s) \<and> n_is_time_source (nbr s m)" by (rule find_Some_iff2)
  then have "m = n" using r assms(1) unfolding q_wf_def nbrs_wf_def by blast
  then show "tsch_queue_get_time_source s = Some n" using m assms(2) by (simp add: tsch_queue_get_time_source_def tsch_is_locked_def)
qed (use assms(2) in \<open>auto simp: tsch_queue_get_time_source_def tsch_is_locked_def dest: find_Some_iff2\<close>)

lemma time_source_cong:
  assumes "neighbor_list s' = neighbor_list s" "nbr s' = nbr s" "tsch_locked s' = tsch_locked s"
  shows "tsch_queue_get_time_source s' = tsch_queue_get_time_source s" "tsch_queue_get_nbr a s' = tsch_queue_get_nbr a s"
  using assms by (simp_all add: tsch_queue_get_time_source_def tsch_queue_get_nbr_def tsch_is_locked_def)

lemma set_time_source_flag:
  assumes w: "q_wf s" "n \<in> set (neighbor_list s)"
    and b: "b \<Longrightarrow> \<forall>m \<in> set (neighbor_list s). m \<noteq> n \<longrightarrow> \<not> n_is_time_source (nbr s m)"
  shows "q_wf (set_nbr n ((nbr s n)\<lparr> n_is_time_source := b \<rparr>) s)"
  using q_wf_set_nbr [OF w, of "(nbr s n)\<lparr> n_is_time_source := b \<rparr>"] q_wfD(6,8) [OF w] b by (simp add: qpackets_def)

lemma set_nbr_commute:
  "n \<noteq> m \<Longrightarrow> neighbor_memb (set_nbr n x (set_nbr m y s)) = neighbor_memb (set_nbr m y (set_nbr n x s))"
  by (simp add: set_nbr_def memb_put_def list_update_swap)

text \<open>Giving up the old time source.\<close>

lemma drop_time_source:
  assumes w: "q_wf s" "\<not> tsch_locked s"
  defines "s' \<equiv> (case tsch_queue_get_time_source s of
      Some n \<Rightarrow> set_nbr n ((nbr s n)\<lparr> n_is_time_source := False \<rparr>) s | None \<Rightarrow> s)"
  shows "q_wf s'" "\<forall>m \<in> set (neighbor_list s'). \<not> n_is_time_source (nbr s' m)" "neighbor_list s' = neighbor_list s"
    "tsch_locked s' = tsch_locked s" "tsch_queue_get_time_source s \<noteq> Some k \<Longrightarrow> nbr s' k = nbr s k"
    "n_addr (nbr s' k) = n_addr (nbr s k)"
proof -
  have "q_wf s' \<and> (\<forall>m \<in> set (neighbor_list s'). \<not> n_is_time_source (nbr s' m)) \<and> neighbor_list s' = neighbor_list s \<and>
    tsch_locked s' = tsch_locked s \<and> (\<forall>k. tsch_queue_get_time_source s \<noteq> Some k \<longrightarrow> nbr s' k = nbr s k) \<and>
    (\<forall>k. n_addr (nbr s' k) = n_addr (nbr s k))"
  proof (cases "tsch_queue_get_time_source s")
    case None
    then show ?thesis using w time_source_iff [OF w] by (auto simp: s'_def)
  next
    case (Some n)
    then have n: "n \<in> set (neighbor_list s)" "n_is_time_source (nbr s n)" using time_source_iff [OF w] by auto
    have "\<not> n_is_time_source (nbr s m)" if "m \<in> set (neighbor_list s)" "m \<noteq> n" for m
      using time_source_iff [OF w, of m] Some that by auto
    then show ?thesis using Some set_time_source_flag [OF w(1) n(1), of False] q_wfD(7) [OF w(1) n(1)]
      by (auto simp: s'_def nbr_set_nbr)
  qed
  then show "q_wf s'" "\<forall>m \<in> set (neighbor_list s'). \<not> n_is_time_source (nbr s' m)" "neighbor_list s' = neighbor_list s"
    "tsch_locked s' = tsch_locked s" "tsch_queue_get_time_source s \<noteq> Some k \<Longrightarrow> nbr s' k = nbr s k"
    "n_addr (nbr s' k) = n_addr (nbr s k)" by blast+
qed

lemma switch_time_source:
  assumes w: "q_wf s" "\<not> tsch_locked s" and n: "n \<in> set (neighbor_list s)" "tsch_queue_get_time_source s \<noteq> Some n"
  defines "dts s' \<equiv> (case tsch_queue_get_time_source s of
      Some m \<Rightarrow> set_nbr m ((nbr s' m)\<lparr> n_is_time_source := False \<rparr>) s' | None \<Rightarrow> s')"
  shows "\<exists>s'. tsch_set_ka_timeout TSCH_KEEPALIVE_TIMEOUT (set_nbr n ((nbr s n)\<lparr> n_is_time_source := True \<rparr>) s) = Some s' \<and>
    q_wf (dts s') \<and> \<not> tsch_locked (dts s') \<and> neighbor_list (dts s') = neighbor_list s \<and>
    tsch_queue_get_time_source (dts s') = Some n \<and> n_addr (nbr (dts s') n) = n_addr (nbr s n)"
proof -
  let ?s2 = "set_nbr n ((nbr s n)\<lparr> n_is_time_source := True \<rparr>) s"
  obtain s' where s': "tsch_set_ka_timeout TSCH_KEEPALIVE_TIMEOUT ?s2 = Some s'" "bufmem s' = bufmem s"
    "buframmem s' = buframmem s" "neighbor_memb s' = neighbor_memb ?s2" "packet_memb s' = packet_memb s"
    "neighbor_list s' = neighbor_list s" "tsch_locked s' = tsch_locked s"
    using set_ka_timeout_frame [of TSCH_KEEPALIVE_TIMEOUT ?s2] by auto
  define t where "t = set_nbr n ((nbr (dts s) n)\<lparr> n_is_time_source := True \<rparr>) (dts s)"
  have d: "q_wf (dts s)" "\<forall>m \<in> set (neighbor_list s). \<not> n_is_time_source (nbr (dts s) m)"
    "neighbor_list (dts s) = neighbor_list s" "tsch_locked (dts s) = tsch_locked s"
    "nbr (dts s) n = nbr s n"
    using drop_time_source [OF w] n(2) by (auto simp: dts_def)
  have t: "q_wf t" "neighbor_list t = neighbor_list s" "\<not> tsch_locked t"
    using set_time_source_flag [OF d(1), of n True] d(2-4) n(1) w(2) by (auto simp: t_def)
  have nt: "nbr t n = (nbr s n)\<lparr> n_is_time_source := True \<rparr>"
    using q_wfD(7) [OF d(1)] d(3,5) n(1) by (simp add: t_def nbr_set_nbr)
  have nb: "nbr s' m = (if m = n then (nbr s n)\<lparr> n_is_time_source := True \<rparr> else nbr s m)" for m
    using s'(4) q_wfD(7) [OF w(1) n(1)] nbr_set_nbr [of n _ s m] by (simp add: nbr_def)
  have m: "neighbor_memb (dts s') = neighbor_memb t"
  proof (cases "tsch_queue_get_time_source s")
    case (Some k)
    then have "k \<noteq> n" using n(2) by simp
    then show ?thesis using Some s'(4) set_nbr_commute [of n k] nb [of k] d(5)
      by (simp add: dts_def t_def set_nbr_def memb_put_def list_update_swap)
  qed (use s'(4) in \<open>simp add: dts_def t_def\<close>)
  have o: "bufmem (dts s') = bufmem t" "buframmem (dts s') = buframmem t" "packet_memb (dts s') = packet_memb t"
    "neighbor_list (dts s') = neighbor_list t" "tsch_locked (dts s') = tsch_locked t"
    using s' by (simp_all add: dts_def t_def split: option.splits)
  have f: "q_wf (dts s') = q_wf t" "nbr (dts s') = nbr t" using q_wf_frame [OF o(1,2) m o(3,4)] by auto
  have "tsch_queue_get_time_source t = Some n" using time_source_iff [OF t(1,3)] t(2) n(1) nt by simp
  then show ?thesis using s'(1) t f o nt time_source_cong(1) [OF o(4) f(2) o(5)] by (intro exI [of _ s']) simp
qed

lemma clear_time_source:
  assumes w: "q_wf s" "\<not> tsch_locked s"
  defines "dts s' \<equiv> (case tsch_queue_get_time_source s of
      Some m \<Rightarrow> set_nbr m ((nbr s' m)\<lparr> n_is_time_source := False \<rparr>) s' | None \<Rightarrow> s')"
  shows "\<exists>s'. tsch_set_ka_timeout 0 s = Some s' \<and> q_wf (dts s') \<and> tsch_queue_get_time_source (dts s') = None"
proof -
  obtain s' where s': "tsch_set_ka_timeout 0 s = Some s'" "bufmem s' = bufmem s"
    "buframmem s' = buframmem s" "neighbor_memb s' = neighbor_memb s" "packet_memb s' = packet_memb s"
    "neighbor_list s' = neighbor_list s" "tsch_locked s' = tsch_locked s"
    using set_ka_timeout_frame [of 0 s] by auto
  note f = q_wf_frame [OF s'(2-6)]
  have w': "q_wf s'" "\<not> tsch_locked s'" "tsch_queue_get_time_source s' = tsch_queue_get_time_source s"
    using f w s'(7) time_source_cong(1) [OF s'(6) f(2) s'(7)] by auto
  note d = drop_time_source [OF w'(1,2), folded w'(3)]
  have "q_wf (dts s')" "\<forall>m \<in> set (neighbor_list (dts s')). \<not> n_is_time_source (nbr (dts s') m)"
    "\<not> tsch_locked (dts s')"
    using d(1,2,4) w' by (auto simp: dts_def)
  then show ?thesis using s'(1) time_source_iff [of "dts s'"] by (metis not_Some_eq)
qed

lemma add_nbr_time_source:
  assumes "q_wf s" "addr_wf a" "\<not> tsch_locked s" "tsch_queue_add_nbr a s = (r, s')"
  shows "tsch_queue_get_time_source s' = tsch_queue_get_time_source s"
proof -
  note ad = add_nbr_wf [OF assms]
  have "tsch_queue_get_time_source s' = Some m \<longleftrightarrow> tsch_queue_get_time_source s = Some m" for m
  proof -
    have "n_is_time_source (nbr s' m) \<longleftrightarrow> n_is_time_source (nbr s m) \<and> m \<in> set (neighbor_list s)"
      if "m \<in> set (neighbor_list s')"
    proof (cases "m \<in> set (neighbor_list s)")
      case False
      then have "r = Some m" using that ad(9,13) by (cases r) auto
      then have "\<not> n_is_time_source (nbr s' m)" using ad(11) False by (simp add: fresh_nbr_def zero_neighbor_def)
      then show ?thesis using False by blast
    qed (simp add: ad(8))
    moreover have "set (neighbor_list s) \<subseteq> set (neighbor_list s')" using ad(9,13) by (cases r) auto
    ultimately show ?thesis using time_source_iff [OF ad(1,2)] time_source_iff [OF assms(1,3)] ad(8) by blast
  qed
  then show ?thesis by (metis option.exhaust)
qed



end
