(* ===== verification/TschSchedule.thy ===== *)
theory TschSchedule
  imports TschQueueProps
begin

text \<open>
  The TSCH schedule (\<open>os/net/mac/tsch/tsch-schedule.c\<close>): slotframes, each with its list of links, kept in
  two block pools, and the search for the next active link. Slotframe and link pointers are indices
  of pool blocks, as for the queues. Adding and removing transmission links updates the link counters of
  the queue module, and removing the link that is about to be executed clears \<open>current_link\<close>.
\<close>

subsection \<open>State\<close>

record tsch_slotframe =
  sf_handle :: u16
  sf_size :: tsch_asn_divisor_t
  sf_links :: "nat list"

record sched_state = tsch_state +
  link_memb :: "tsch_link memb"
  slotframe_memb :: "tsch_slotframe memb"
  slotframe_list :: "nat list"
  current_link :: "nat option"
  current_link_handle :: u32

definition zero_link :: tsch_link where
  "zero_link = \<lparr> l_handle = 0, l_addr = linkaddr_null, l_slotframe_handle = 0, l_timeslot = 0,
     l_channel_offset = 0, l_link_options = 0, l_link_type = LINK_TYPE_NORMAL \<rparr>"

definition zero_slotframe :: tsch_slotframe where
  "zero_slotframe = \<lparr> sf_handle = 0, sf_size = \<lparr> asn_val = 0, asn_ms1b_remainder = 0 \<rparr>, sf_links = [] \<rparr>"

definition lnk :: "'a sched_state_scheme \<Rightarrow> nat \<Rightarrow> tsch_link" where
  "lnk s l = m_mem (link_memb s) ! l"

definition set_lnk :: "nat \<Rightarrow> tsch_link \<Rightarrow> 'a sched_state_scheme \<Rightarrow> 'a sched_state_scheme" where
  "set_lnk l x s = s\<lparr> link_memb := memb_put (link_memb s) l x \<rparr>"

definition sfr :: "'a sched_state_scheme \<Rightarrow> nat \<Rightarrow> tsch_slotframe" where
  "sfr s f = m_mem (slotframe_memb s) ! f"

definition set_sfr :: "nat \<Rightarrow> tsch_slotframe \<Rightarrow> 'a sched_state_scheme \<Rightarrow> 'a sched_state_scheme" where
  "set_sfr f x s = s\<lparr> slotframe_memb := memb_put (slotframe_memb s) f x \<rparr>"

subsection \<open>Lookups\<close>

definition tsch_schedule_get_slotframe_by_handle :: "u16 \<Rightarrow> 'a sched_state_scheme \<Rightarrow> nat option" where
  "tsch_schedule_get_slotframe_by_handle handle s =
     (if \<not> tsch_is_locked s then find (\<lambda>f. sf_handle (sfr s f) = handle) (slotframe_list s) else None)"

text \<open>The nested loop over the slotframes and their links.\<close>

definition tsch_schedule_get_link_by_handle :: "u16 \<Rightarrow> 'a sched_state_scheme \<Rightarrow> nat option" where
  "tsch_schedule_get_link_by_handle handle s =
     (if \<not> tsch_is_locked s then
        find (\<lambda>l. l_handle (lnk s l) = handle) (concat (map (\<lambda>f. sf_links (sfr s f)) (slotframe_list s)))
      else None)"

definition tsch_schedule_get_link_by_timeslot :: "nat option \<Rightarrow> u16 \<Rightarrow> 'a sched_state_scheme \<Rightarrow> nat option" where
  "tsch_schedule_get_link_by_timeslot slotframe timeslot s =
     (if \<not> tsch_is_locked s then
        (case slotframe of
           None \<Rightarrow> None
         | Some f \<Rightarrow> find (\<lambda>l. l_timeslot (lnk s l) = timeslot) (sf_links (sfr s f)))
      else None)"

definition tsch_schedule_slotframe_head :: "'a sched_state_scheme \<Rightarrow> nat option" where
  "tsch_schedule_slotframe_head s = (case slotframe_list s of [] \<Rightarrow> None | f # _ \<Rightarrow> Some f)"

definition tsch_schedule_slotframe_next :: "nat option \<Rightarrow> 'a sched_state_scheme \<Rightarrow> nat option" where
  "tsch_schedule_slotframe_next sf s =
     (case tl (list_from sf (slotframe_list s)) of [] \<Rightarrow> None | f # _ \<Rightarrow> Some f)"

subsection \<open>Adding and removing\<close>

definition tsch_schedule_add_slotframe ::
    "u16 \<Rightarrow> u16 \<Rightarrow> 'a sched_state_scheme \<Rightarrow> nat option \<times> 'a sched_state_scheme" where
  "tsch_schedule_add_slotframe handle sz s =
     (if sz = 0 then (None, s)
      else if tsch_schedule_get_slotframe_by_handle handle s \<noteq> None then (None, s)
      else (case tsch_get_lock s of
              (False, s) \<Rightarrow> (None, s)
            | (True, s) \<Rightarrow>
                (case memb_alloc (slotframe_memb s) of
                   (None, m) \<Rightarrow> (None, tsch_release_lock (s\<lparr> slotframe_memb := m \<rparr>))
                 | (Some f, m) \<Rightarrow>
                     (let s = s\<lparr> slotframe_memb := m \<rparr>;
                          s = set_sfr f ((sfr s f)\<lparr> sf_handle := handle, sf_size := TSCH_ASN_DIVISOR_INIT sz,
                                                   sf_links := [] \<rparr>) s;
                          s = s\<lparr> slotframe_list := remove1 f (slotframe_list s) @ [f] \<rparr>
                      in (Some f, tsch_release_lock s)))))"

text \<open>The counters are 8-bit and wrap.\<close>

definition count_tx_link :: "u8 \<Rightarrow> u8 \<Rightarrow> linkaddr \<Rightarrow> 'a sched_state_scheme \<Rightarrow> 'a sched_state_scheme" where
  "count_tx_link d link_options addr s =
     (if link_options AND LINK_OPTION_TX \<noteq> 0 then
        (case tsch_queue_add_nbr addr s of
           (None, s) \<Rightarrow> s
         | (Some n, s) \<Rightarrow>
             set_nbr n ((nbr s n)
               \<lparr> n_tx_links_count := n_tx_links_count (nbr s n) + d,
                 n_dedicated_tx_links_count :=
                   (if link_options AND LINK_OPTION_SHARED = 0 then n_dedicated_tx_links_count (nbr s n) + d
                    else n_dedicated_tx_links_count (nbr s n)) \<rparr>) s)
      else s)"

definition tsch_schedule_remove_link ::
    "nat option \<Rightarrow> nat option \<Rightarrow> 'a sched_state_scheme \<Rightarrow> bool \<times> 'a sched_state_scheme" where
  "tsch_schedule_remove_link slotframe link s =
     (case (slotframe, link) of
        (Some f, Some l) \<Rightarrow>
          if l_slotframe_handle (lnk s l) = sf_handle (sfr s f) then
            (case tsch_get_lock s of
               (False, s) \<Rightarrow> (False, s)
             | (True, s) \<Rightarrow>
                 (let link_options = l_link_options (lnk s l);
                      addr = l_addr (lnk s l);
                      s = (if current_link s = Some l then s\<lparr> current_link := None \<rparr> else s);
                      s = set_sfr f ((sfr s f)\<lparr> sf_links := remove1 l (sf_links (sfr s f)) \<rparr>) s;
                      s = s\<lparr> link_memb := snd (memb_free (link_memb s) l) \<rparr>;
                      s = tsch_release_lock s
                  in (True, count_tx_link (- 1) link_options addr s)))
          else (False, s)
      | _ \<Rightarrow> (False, s))"

definition tsch_schedule_remove_link_by_timeslot ::
    "nat option \<Rightarrow> u16 \<Rightarrow> 'a sched_state_scheme \<Rightarrow> bool \<times> 'a sched_state_scheme" where
  "tsch_schedule_remove_link_by_timeslot slotframe timeslot s =
     (case slotframe of
        None \<Rightarrow> (False, s)
      | Some f \<Rightarrow> tsch_schedule_remove_link (Some f) (tsch_schedule_get_link_by_timeslot (Some f) timeslot s) s)"

text \<open>The address of the queue of a flow: the slotframe handle in the second byte.\<close>

definition flow_addr :: "u16 \<Rightarrow> linkaddr" where
  "flow_addr slotframe_handle = linkaddr_null[1 := ucast slotframe_handle]"

definition install_link ::
    "nat \<Rightarrow> u8 \<Rightarrow> link_type \<Rightarrow> linkaddr option \<Rightarrow> u16 \<Rightarrow> u16 \<Rightarrow> 'a sched_state_scheme \<Rightarrow>
     nat option \<times> 'a sched_state_scheme" where
  "install_link f link_options link_type address timeslot channel_offset s =
     (case tsch_get_lock s of
        (False, s) \<Rightarrow> (None, s)
      | (True, s) \<Rightarrow>
          (case memb_alloc (link_memb s) of
             (None, m) \<Rightarrow> (None, tsch_release_lock (s\<lparr> link_memb := m \<rparr>))
           | (Some l, m) \<Rightarrow>
               (let s = s\<lparr> link_memb := m \<rparr>;
                    s = set_sfr f ((sfr s f)\<lparr> sf_links := remove1 l (sf_links (sfr s f)) @ [l] \<rparr>) s;
                    s = set_lnk l \<lparr> l_handle = ucast (current_link_handle s),
                          l_addr = (case address of None \<Rightarrow> linkaddr_null | Some a \<Rightarrow> a),
                          l_slotframe_handle = sf_handle (sfr s f), l_timeslot = timeslot,
                          l_channel_offset = channel_offset, l_link_options = link_options,
                          l_link_type = link_type \<rparr> s;
                    s = s\<lparr> current_link_handle := current_link_handle s + 1 \<rparr>;
                    s = tsch_release_lock s
                in (Some l, count_tx_link 1 link_options (flow_addr (l_slotframe_handle (lnk s l))) s))))"

definition tsch_schedule_add_link ::
    "nat option \<Rightarrow> u8 \<Rightarrow> link_type \<Rightarrow> linkaddr option \<Rightarrow> u16 \<Rightarrow> u16 \<Rightarrow> 'a sched_state_scheme \<Rightarrow>
     nat option \<times> 'a sched_state_scheme" where
  "tsch_schedule_add_link slotframe link_options link_type address timeslot channel_offset s =
     (case slotframe of
        None \<Rightarrow> (None, s)
      | Some f \<Rightarrow>
          if uint timeslot > uint (asn_val (sf_size (sfr s f))) - 1 then (None, s)
          else if channel_offset > 15 then (None, s)
          else
            (let s = snd (tsch_schedule_remove_link_by_timeslot (Some f) timeslot s)
             in install_link f link_options link_type address timeslot channel_offset s))"

text \<open>
  Emptying a slotframe removes its first link until none is left. Removal fails while TSCH is locked, and
  the loop then never ends.
\<close>

partial_function (option) remove_links_loop :: "nat \<Rightarrow> 'a sched_state_scheme \<Rightarrow> 'a sched_state_scheme option" where
  "remove_links_loop f s =
     (case sf_links (sfr s f) of
        [] \<Rightarrow> Some s
      | l # _ \<Rightarrow> remove_links_loop f (snd (tsch_schedule_remove_link (Some f) (Some l) s)))"

definition tsch_schedule_remove_slotframe ::
    "nat option \<Rightarrow> 'a sched_state_scheme \<Rightarrow> (bool \<times> 'a sched_state_scheme) option" where
  "tsch_schedule_remove_slotframe slotframe s =
     (case slotframe of
        None \<Rightarrow> Some (False, s)
      | Some f \<Rightarrow> do {
          s \<leftarrow> remove_links_loop f s;
          Some (case tsch_get_lock s of
                  (False, s) \<Rightarrow> (False, s)
                | (True, s) \<Rightarrow>
                    (let s = s\<lparr> slotframe_memb := snd (memb_free (slotframe_memb s) f) \<rparr>;
                         s = s\<lparr> slotframe_list := remove1 f (slotframe_list s) \<rparr>
                     in (True, tsch_release_lock s)))
        })"

partial_function (option) tsch_schedule_remove_all_slotframes ::
    "'a sched_state_scheme \<Rightarrow> (bool \<times> 'a sched_state_scheme) option" where
  "tsch_schedule_remove_all_slotframes s =
     (case slotframe_list s of
        [] \<Rightarrow> Some (True, s)
      | f # _ \<Rightarrow> do {
          (r, s) \<leftarrow> tsch_schedule_remove_slotframe (Some f) s;
          if \<not> r then Some (False, s) else tsch_schedule_remove_all_slotframes s
        })"

definition tsch_schedule_init :: "'a sched_state_scheme \<Rightarrow> bool \<times> 'a sched_state_scheme" where
  "tsch_schedule_init s =
     (case tsch_get_lock s of
        (False, s) \<Rightarrow> (False, s)
      | (True, s) \<Rightarrow>
          (True, tsch_release_lock (s\<lparr> link_memb := memb_init zero_link (link_memb s),
             slotframe_memb := memb_init zero_slotframe (slotframe_memb s), slotframe_list := [] \<rparr>)))"

definition TSCH_SCHEDULE_DEFAULT_LENGTH :: u16 where
  "TSCH_SCHEDULE_DEFAULT_LENGTH = 7"

definition tsch_schedule_create_minimal :: "'a sched_state_scheme \<Rightarrow> 'a sched_state_scheme option" where
  "tsch_schedule_create_minimal s = do {
     (_, s) \<leftarrow> tsch_schedule_remove_all_slotframes s;
     let (sf_min, s) = tsch_schedule_add_slotframe 0 TSCH_SCHEDULE_DEFAULT_LENGTH s;
     Some (snd (tsch_schedule_add_link sf_min
       (LINK_OPTION_RX OR LINK_OPTION_TX OR LINK_OPTION_SHARED OR LINK_OPTION_TIME_KEEPING)
       LINK_TYPE_ADVERTISING (Some tsch_broadcast_address) 0 0 s))
   }"

subsection \<open>The next active link\<close>

text \<open>The loop variables \<open>curr_best\<close>, \<open>time_to_curr_best\<close> and \<open>curr_backup\<close>.\<close>

record best_link =
  curr_best :: "nat option"
  time_to_curr_best :: u16
  curr_backup :: "nat option"

definition time_to_timeslot :: "u16 \<Rightarrow> u16 \<Rightarrow> u16 \<Rightarrow> u16" where
  "time_to_timeslot sz timeslot lt =
     (if lt > timeslot then lt - timeslot else sz + lt - timeslot)"

text \<open>Two links fall on the same slot.\<close>

definition overlap_step :: "'a sched_state_scheme \<Rightarrow> nat \<Rightarrow> nat \<Rightarrow> best_link \<Rightarrow> best_link" where
  "overlap_step s best l acc =
     (let new_best =
            (if l_link_options (lnk s best) AND LINK_OPTION_TX = l_link_options (lnk s l) AND LINK_OPTION_TX then
               (if l_slotframe_handle (lnk s l) < l_slotframe_handle (lnk s best) then Some l else None)
             else if l_link_options (lnk s l) AND LINK_OPTION_TX \<noteq> 0 then Some l else None);
          backup =
            (if curr_backup acc = None then
               (let b = (if new_best \<noteq> Some l \<and> l_link_options (lnk s l) AND LINK_OPTION_RX \<noteq> 0 then Some l
                         else curr_backup acc)
                in if new_best \<noteq> Some best \<and> l_link_options (lnk s best) AND LINK_OPTION_RX \<noteq> 0 then Some best
                   else b)
             else curr_backup acc)
      in acc\<lparr> curr_backup := backup, curr_best := (if new_best \<noteq> None then new_best else curr_best acc) \<rparr>)"

definition link_step :: "'a sched_state_scheme \<Rightarrow> u16 \<Rightarrow> u16 \<Rightarrow> nat \<Rightarrow> best_link \<Rightarrow> best_link" where
  "link_step s sz timeslot l acc =
     (let t = time_to_timeslot sz timeslot (l_timeslot (lnk s l))
      in case curr_best acc of
           None \<Rightarrow> \<lparr> curr_best = Some l, time_to_curr_best = t, curr_backup = None \<rparr>
         | Some best \<Rightarrow>
             if t < time_to_curr_best acc then \<lparr> curr_best = Some l, time_to_curr_best = t, curr_backup = None \<rparr>
             else if t = time_to_curr_best acc then overlap_step s best l acc
             else acc)"

definition slotframe_step :: "'a sched_state_scheme \<Rightarrow> tsch_asn_t \<Rightarrow> nat \<Rightarrow> best_link \<Rightarrow> best_link" where
  "slotframe_step s asn f acc =
     fold (link_step s (asn_val (sf_size (sfr s f))) (TSCH_ASN_MOD asn (sf_size (sfr s f)))) (sf_links (sfr s f)) acc"

text \<open>
  The result is the best link, its time offset (written only while TSCH is not locked) and the backup
  link.
\<close>

definition tsch_schedule_get_next_active_link ::
    "tsch_asn_t \<Rightarrow> 'a sched_state_scheme \<Rightarrow> nat option \<times> u16 option \<times> nat option" where
  "tsch_schedule_get_next_active_link asn s =
     (let acc0 = \<lparr> curr_best = None, time_to_curr_best = 0, curr_backup = None \<rparr>
      in if \<not> tsch_is_locked s then
           (let acc = fold (slotframe_step s asn) (slotframe_list s) acc0
            in (curr_best acc, Some (time_to_curr_best acc), curr_backup acc))
         else (None, None, None))"

end
