(* ===== verification/Frame802154.thy ===== *)
theory Frame802154
  imports MasterConf
begin

text \<open>
  IEEE 802.15.4 frame headers (\<open>os/net/mac/framer/frame802154.c\<close>) in the build without link-layer
  security. The parser's pointer \<open>p\<close> is the list of bytes it still points at; dereferencing it beyond the
  frame buffer is undefined (\<open>None\<close>). The creator's successive stores \<open>buf[pos++] = b\<close> append to the header,
  which is then placed at the start of the buffer.
\<close>

subsection \<open>Data\<close>

definition FRAME802154_BEACONFRAME :: u8 where [simp]: "FRAME802154_BEACONFRAME = 0"
definition FRAME802154_DATAFRAME :: u8 where [simp]: "FRAME802154_DATAFRAME = 1"
definition FRAME802154_ACKFRAME :: u8 where [simp]: "FRAME802154_ACKFRAME = 2"
definition FRAME802154_CMDFRAME :: u8 where [simp]: "FRAME802154_CMDFRAME = 3"
definition FRAME802154_NOADDR :: u8 where [simp]: "FRAME802154_NOADDR = 0"
definition FRAME802154_SHORTADDRMODE :: u8 where [simp]: "FRAME802154_SHORTADDRMODE = 2"
definition FRAME802154_LONGADDRMODE :: u8 where [simp]: "FRAME802154_LONGADDRMODE = 3"
definition FRAME802154_BROADCASTPANDID :: u16 where [simp]: "FRAME802154_BROADCASTPANDID = 0xFFFF"
definition FRAME802154_IEEE802154_2015 :: u8 where [simp]: "FRAME802154_IEEE802154_2015 = 2"

record frame802154_fcf_t =
  fcf_frame_type :: u8
  fcf_security_enabled :: u8
  fcf_frame_pending :: u8
  fcf_ack_required :: u8
  fcf_panid_compression :: u8
  fcf_sequence_number_suppression :: u8
  fcf_ie_list_present :: u8
  fcf_dest_addr_mode :: u8
  fcf_frame_version :: u8
  fcf_src_addr_mode :: u8

record frame802154_t =
  fr_dest_addr :: linkaddr
  fr_src_addr :: linkaddr
  fr_fcf :: frame802154_fcf_t
  fr_seq :: u8
  fr_dest_pid :: u16
  fr_src_pid :: u16
  fr_payload :: nat
  fr_payload_len :: int

record field_length_t =
  fl_seqno_len :: u8
  fl_dest_pid_len :: u8
  fl_dest_addr_len :: u8
  fl_src_pid_len :: u8
  fl_src_addr_len :: u8
  fl_aux_sec_len :: u8

definition addr_len :: "u8 \<Rightarrow> u8" where
  "addr_len mode = (if mode = FRAME802154_SHORTADDRMODE then 2 else if mode = FRAME802154_LONGADDRMODE then 8 else 0)"

subsection \<open>PAN identifiers and addresses\<close>

text \<open>The pair (source PAN identifier present, destination PAN identifier present).\<close>

definition frame802154_has_panid :: "frame802154_fcf_t \<Rightarrow> bool \<times> bool" where
  "frame802154_has_panid fcf =
     (let d = fcf_dest_addr_mode fcf; s = fcf_src_addr_mode fcf; c = fcf_panid_compression fcf in
      if fcf_frame_version fcf = FRAME802154_IEEE802154_2015 then
        (c = 0 \<and>
           (d = FRAME802154_NOADDR \<and> s = FRAME802154_LONGADDRMODE \<or>
            d = FRAME802154_NOADDR \<and> s = FRAME802154_SHORTADDRMODE \<or>
            d = FRAME802154_SHORTADDRMODE \<and> s = FRAME802154_SHORTADDRMODE \<or>
            d = FRAME802154_SHORTADDRMODE \<and> s = FRAME802154_LONGADDRMODE \<or>
            d = FRAME802154_LONGADDRMODE \<and> s = FRAME802154_SHORTADDRMODE),
         d = FRAME802154_NOADDR \<and> s = FRAME802154_NOADDR \<and> c = 1 \<or>
         d \<noteq> FRAME802154_NOADDR \<and> s = FRAME802154_NOADDR \<and> c = 0 \<or>
         d = FRAME802154_LONGADDRMODE \<and> s = FRAME802154_LONGADDRMODE \<and> c = 0 \<or>
         (d = FRAME802154_SHORTADDRMODE \<and> s \<noteq> FRAME802154_NOADDR \<or>
          d \<noteq> FRAME802154_NOADDR \<and> s = FRAME802154_SHORTADDRMODE))
      else if fcf_frame_type fcf \<noteq> FRAME802154_ACKFRAME then (c = 0 \<and> s AND 3 \<noteq> 0, d AND 3 \<noteq> 0)
      else (False, False))"

definition frame802154_check_dest_panid :: "u16 \<Rightarrow> frame802154_t option \<Rightarrow> bool" where
  "frame802154_check_dest_panid mac_pan_id frame =
     (case frame of
        None \<Rightarrow> False
      | Some fr \<Rightarrow>
          \<not> (\<not> snd (frame802154_has_panid (fr_fcf fr)) \<or>
             fr_dest_pid fr \<noteq> mac_pan_id \<and> fr_dest_pid fr \<noteq> FRAME802154_BROADCASTPANDID))"

definition frame802154_is_broadcast_addr :: "u8 \<Rightarrow> linkaddr \<Rightarrow> bool" where
  "frame802154_is_broadcast_addr mode addr =
     list_all (\<lambda>b. b = 0xff) (take (if mode = FRAME802154_SHORTADDRMODE then 2 else 8) addr)"

text \<open>The address to copy out for one side, or \<open>None\<close> when its size cannot be handled.\<close>

definition extract_addr :: "u8 \<Rightarrow> linkaddr \<Rightarrow> linkaddr option" where
  "extract_addr mode addr =
     (let addr_len = (if mode \<noteq> 0 then if mode = FRAME802154_SHORTADDRMODE then 2 else 8 else 0 :: nat) in
      if addr_len = 0 \<or> frame802154_is_broadcast_addr mode addr then Some linkaddr_null
      else if addr_len \<noteq> LINKADDR_SIZE then None
      else Some (take LINKADDR_SIZE addr))"

text \<open>
  The arguments \<open>source_address\<close> and \<open>dest_address\<close> are the old contents of the output addresses; the
  source address is stored even when the destination turns out to be unusable.
\<close>

definition frame802154_extract_linkaddr ::
    "frame802154_t option \<Rightarrow> linkaddr \<Rightarrow> linkaddr \<Rightarrow> bool \<times> linkaddr \<times> linkaddr" where
  "frame802154_extract_linkaddr frame source_address dest_address =
     (case frame of
        None \<Rightarrow> (False, source_address, dest_address)
      | Some fr \<Rightarrow>
          (case extract_addr (fcf_src_addr_mode (fr_fcf fr)) (fr_src_addr fr) of
             None \<Rightarrow> (False, source_address, dest_address)
           | Some source_address \<Rightarrow>
               (case extract_addr (fcf_dest_addr_mode (fr_fcf fr)) (fr_dest_addr fr) of
                  None \<Rightarrow> (False, source_address, dest_address)
                | Some dest_address \<Rightarrow> (True, source_address, dest_address))))"

subsection \<open>Creating a header\<close>

text \<open>\<open>field_len\<close> also sets the compression bit of frames before the 2015 version.\<close>

definition set_compression :: "frame802154_t \<Rightarrow> frame802154_t" where
  "set_compression p =
     (if fcf_frame_version (fr_fcf p) < FRAME802154_IEEE802154_2015 then
        p\<lparr> fr_fcf := (fr_fcf p)\<lparr> fcf_panid_compression :=
          (if fcf_dest_addr_mode (fr_fcf p) AND 3 \<noteq> 0 \<and> fcf_src_addr_mode (fr_fcf p) AND 3 \<noteq> 0 \<and> fr_src_pid p = fr_dest_pid p
           then 1 else 0) \<rparr> \<rparr>
      else p)"

definition field_len :: "frame802154_t \<Rightarrow> field_length_t \<times> frame802154_t" where
  "field_len p =
     (let p' = set_compression p; (has_src_panid, has_dest_panid) = frame802154_has_panid (fr_fcf p') in
      (\<lparr> fl_seqno_len = (if fcf_sequence_number_suppression (fr_fcf p) AND 1 = 0 then 1 else 0),
         fl_dest_pid_len = (if has_dest_panid then 2 else 0),
         fl_dest_addr_len = addr_len (fcf_dest_addr_mode (fr_fcf p) AND 3),
         fl_src_pid_len = (if has_src_panid then 2 else 0),
         fl_src_addr_len = addr_len (fcf_src_addr_mode (fr_fcf p) AND 3),
         fl_aux_sec_len = 0 \<rparr>, p'))"

definition frame802154_hdrlen :: "frame802154_t \<Rightarrow> int \<times> frame802154_t" where
  "frame802154_hdrlen p =
     (let (flen, p) = field_len p in
      (2 + uint (fl_seqno_len flen) + uint (fl_dest_pid_len flen) + uint (fl_dest_addr_len flen) +
         uint (fl_src_pid_len flen) + uint (fl_src_addr_len flen) + uint (fl_aux_sec_len flen), p))"

definition frame802154_create_fcf :: "frame802154_fcf_t \<Rightarrow> u8 list" where
  "frame802154_create_fcf fcf =
     [(fcf_frame_type fcf AND 7) OR push_bit 3 (fcf_security_enabled fcf AND 1) OR
        push_bit 4 (fcf_frame_pending fcf AND 1) OR push_bit 5 (fcf_ack_required fcf AND 1) OR
        push_bit 6 (fcf_panid_compression fcf AND 1),
      (fcf_sequence_number_suppression fcf AND 1) OR push_bit 1 (fcf_ie_list_present fcf AND 1) OR
        push_bit 2 (fcf_dest_addr_mode fcf AND 3) OR push_bit 4 (fcf_frame_version fcf AND 3) OR
        push_bit 6 (fcf_src_addr_mode fcf AND 3)]"

text \<open>A loop \<open>for(c = len; c > 0; c--) buf[pos++] = addr[c - 1]\<close> stores the first \<open>len\<close> bytes backwards.\<close>

definition frame802154_header :: "field_length_t \<Rightarrow> frame802154_t \<Rightarrow> u8 list" where
  "frame802154_header flen p =
     frame802154_create_fcf (fr_fcf p) @
     (if fl_seqno_len flen = 1 then [fr_seq p] else []) @
     (if fl_dest_pid_len flen = 2 then [lo8 (fr_dest_pid p), hi8 (fr_dest_pid p)] else []) @
     rev (take (unat (fl_dest_addr_len flen)) (fr_dest_addr p)) @
     (if fl_src_pid_len flen = 2 then [lo8 (fr_src_pid p), hi8 (fr_src_pid p)] else []) @
     rev (take (unat (fl_src_addr_len flen)) (fr_src_addr p))"

definition frame802154_create :: "frame802154_t \<Rightarrow> u8 list \<Rightarrow> (int \<times> frame802154_t \<times> u8 list) option" where
  "frame802154_create p buf =
     (let (flen, p) = field_len p; hdr = frame802154_header flen p in do {
        buf \<leftarrow> put_opt buf 0 hdr;
        Some (int (length hdr), p, buf)
      })"

subsection \<open>Parsing\<close>

definition frame802154_parse_fcf :: "u8 list \<Rightarrow> frame802154_fcf_t option" where
  "frame802154_parse_fcf data = do {
     d0 \<leftarrow> nth_opt data 0;
     d1 \<leftarrow> nth_opt data 1;
     Some \<lparr> fcf_frame_type = d0 AND 7, fcf_security_enabled = drop_bit 3 d0 AND 1,
       fcf_frame_pending = drop_bit 4 d0 AND 1, fcf_ack_required = drop_bit 5 d0 AND 1,
       fcf_panid_compression = drop_bit 6 d0 AND 1, fcf_sequence_number_suppression = d1 AND 1,
       fcf_ie_list_present = drop_bit 1 d1 AND 1, fcf_dest_addr_mode = drop_bit 2 d1 AND 3,
       fcf_frame_version = drop_bit 4 d1 AND 3, fcf_src_addr_mode = drop_bit 6 d1 AND 3 \<rparr>
   }"

definition parse_pid :: "u8 list \<Rightarrow> (u16 \<times> u8 list) option" where
  "parse_pid p = do { a \<leftarrow> nth_opt p 0; b \<leftarrow> nth_opt p 1; Some (mk16 a b, drop 2 p) }"

text \<open>One address field; a reserved mode leaves the field of the output structure as it was.\<close>

definition parse_addr :: "u8 \<Rightarrow> linkaddr \<Rightarrow> u8 list \<Rightarrow> (linkaddr \<times> u8 list) option" where
  "parse_addr mode old p =
     (if mode = FRAME802154_SHORTADDRMODE then do {
        a \<leftarrow> nth_opt p 1; b \<leftarrow> nth_opt p 0;
        Some (linkaddr_null[0 := a, 1 := b], drop 2 p)
      } else if mode = FRAME802154_LONGADDRMODE then do {
        guard_opt (8 \<le> length p);
        Some (rev (take 8 p), drop 8 p)
      } else Some (old, p))"

definition parse_dest :: "frame802154_fcf_t \<Rightarrow> bool \<Rightarrow> frame802154_t \<Rightarrow> u8 list \<Rightarrow> (frame802154_t \<times> u8 list) option" where
  "parse_dest fcf has_dest_panid pf p =
     (if fcf_dest_addr_mode fcf \<noteq> 0 then do {
        (pid, p) \<leftarrow> (if has_dest_panid then parse_pid p else Some (0, p));
        (a, p) \<leftarrow> parse_addr (fcf_dest_addr_mode fcf) (fr_dest_addr pf) p;
        Some (pf\<lparr> fr_dest_pid := pid, fr_dest_addr := a \<rparr>, p)
      } else Some (pf\<lparr> fr_dest_addr := linkaddr_null, fr_dest_pid := 0 \<rparr>, p))"

definition parse_src :: "frame802154_fcf_t \<Rightarrow> bool \<Rightarrow> bool \<Rightarrow> frame802154_t \<Rightarrow> u8 list \<Rightarrow> (frame802154_t \<times> u8 list) option" where
  "parse_src fcf has_src_panid has_dest_panid pf p =
     (if fcf_src_addr_mode fcf \<noteq> 0 then do {
        (pf, p) \<leftarrow> (if has_src_panid then do {
                      (pid, p) \<leftarrow> parse_pid p;
                      Some (pf\<lparr> fr_src_pid := pid,
                        fr_dest_pid := (if \<not> has_dest_panid then pid else fr_dest_pid pf) \<rparr>, p)
                    } else Some (pf\<lparr> fr_src_pid := fr_dest_pid pf \<rparr>, p));
        (a, p) \<leftarrow> parse_addr (fcf_src_addr_mode fcf) (fr_src_addr pf) p;
        Some (pf\<lparr> fr_src_addr := a \<rparr>, p)
      } else Some (pf\<lparr> fr_src_addr := linkaddr_null, fr_src_pid := 0 \<rparr>, p))"

definition frame802154_parse :: "u8 list \<Rightarrow> int \<Rightarrow> frame802154_t \<Rightarrow> (int \<times> frame802154_t) option" where
  "frame802154_parse data len pf =
     (if len < 2 then Some (0, pf) else do {
        fcf \<leftarrow> frame802154_parse_fcf data;
        let pf = pf\<lparr> fr_fcf := fcf \<rparr>;
        let p = drop 2 data;
        (pf, p) \<leftarrow> (if fcf_sequence_number_suppression fcf = 0
                    then do { b \<leftarrow> nth_opt p 0; Some (pf\<lparr> fr_seq := b \<rparr>, drop 1 p) } else Some (pf, p));
        let (has_src_panid, has_dest_panid) = frame802154_has_panid fcf;
        (pf, p) \<leftarrow> parse_dest fcf has_dest_panid pf p;
        (pf, p) \<leftarrow> parse_src fcf has_src_panid has_dest_panid pf p;
        let c = length data - length p;
        let pf = pf\<lparr> fr_payload_len := len - int c, fr_payload := c \<rparr>;
        Some (if int c > len then 0 else int c, pf)
      })"

subsection \<open>Round trip\<close>

definition addr_mode_ok :: "u8 \<Rightarrow> bool" where
  "addr_mode_ok m \<longleftrightarrow> m = FRAME802154_NOADDR \<or> m = FRAME802154_SHORTADDRMODE \<or> m = FRAME802154_LONGADDRMODE"

definition fcf_wf :: "frame802154_fcf_t \<Rightarrow> bool" where
  "fcf_wf f \<longleftrightarrow> fcf_frame_type f < 8 \<and> fcf_security_enabled f < 2 \<and> fcf_frame_pending f < 2 \<and> fcf_ack_required f < 2 \<and>
     fcf_panid_compression f < 2 \<and> fcf_sequence_number_suppression f < 2 \<and> fcf_ie_list_present f < 2 \<and>
     addr_mode_ok (fcf_dest_addr_mode f) \<and> fcf_frame_version f < 4 \<and> addr_mode_ok (fcf_src_addr_mode f)"

lemma and_masks8: "(x :: u8) AND 7 = take_bit 3 x" "x AND 3 = take_bit 2 x" "x AND 1 = take_bit (Suc 0) x"
  by (simp_all add: take_bit_eq_mask mask_eq_exp_minus_1)

lemma take_bit_small8: "(x :: u8) < 8 \<Longrightarrow> take_bit 3 x = x" "x < 4 \<Longrightarrow> take_bit 2 x = x" "x < 2 \<Longrightarrow> take_bit (Suc 0) x = x"
proof -
  show "x < 8 \<Longrightarrow> take_bit 3 x = x" "x < 4 \<Longrightarrow> take_bit 2 x = x"
    by (simp_all add: word_unat_eq_iff word_less_nat_alt unsigned_take_bit_eq take_bit_nat_eq_self)
  have "x < 2 \<Longrightarrow> x = 0 \<or> x = 1" by (auto simp: word_unat_eq_iff word_less_nat_alt)
  then show "x < 2 \<Longrightarrow> take_bit (Suc 0) x = x" by auto
qed

lemmas bits_of = bit_take_bit_iff bit_or_iff bit_push_bit_iff bit_drop_bit_eq o_def

lemma fcf_byte0:
  fixes t s f a c :: u8
  defines "b \<equiv> take_bit 3 t OR push_bit 3 (take_bit (Suc 0) s) OR push_bit 4 (take_bit (Suc 0) f) OR
    push_bit 5 (take_bit (Suc 0) a) OR push_bit 6 (take_bit (Suc 0) c)"
  shows "take_bit 3 b = take_bit 3 t" "take_bit (Suc 0) (drop_bit 3 b) = take_bit (Suc 0) s"
    "take_bit (Suc 0) (drop_bit 4 b) = take_bit (Suc 0) f" "take_bit (Suc 0) (drop_bit 5 b) = take_bit (Suc 0) a"
    "take_bit (Suc 0) (drop_bit 6 b) = take_bit (Suc 0) c"
  unfolding b_def by (rule bit_word_eqI; simp only: bits_of; auto simp: possible_bit_def)+

lemma fcf_byte1:
  fixes q i d v s :: u8
  defines "b \<equiv> take_bit (Suc 0) q OR push_bit 1 (take_bit (Suc 0) i) OR push_bit 2 (take_bit 2 d) OR
    push_bit 4 (take_bit 2 v) OR push_bit 6 (take_bit 2 s)"
  shows "take_bit (Suc 0) b = take_bit (Suc 0) q" "take_bit (Suc 0) (drop_bit 1 b) = take_bit (Suc 0) i"
    "take_bit 2 (drop_bit 2 b) = take_bit 2 d" "take_bit 2 (drop_bit 4 b) = take_bit 2 v"
    "take_bit 2 (drop_bit 6 b) = take_bit 2 s"
  unfolding b_def by (rule bit_word_eqI; simp only: bits_of; auto simp: possible_bit_def)+

lemma addr_mode_take_bit: "addr_mode_ok m \<Longrightarrow> m AND 3 = m" "addr_mode_ok m \<Longrightarrow> m AND 3 = 0 \<longleftrightarrow> m = 0"
  by (auto simp: addr_mode_ok_def)

lemma parse_create_fcf:
  assumes "fcf_wf f"
  shows "frame802154_parse_fcf (frame802154_create_fcf f @ r) = Some f"
proof -
  have m: "take_bit 2 (fcf_dest_addr_mode f) = fcf_dest_addr_mode f" "take_bit 2 (fcf_src_addr_mode f) = fcf_src_addr_mode f"
    using assms addr_mode_take_bit(1) unfolding fcf_wf_def and_masks8 by blast+
  have w: "fcf_frame_type f < 8" "fcf_security_enabled f < 2" "fcf_frame_pending f < 2" "fcf_ack_required f < 2"
     "fcf_panid_compression f < 2" "fcf_sequence_number_suppression f < 2" "fcf_ie_list_present f < 2" "fcf_frame_version f < 4"
    using assms unfolding fcf_wf_def by blast+
  have s: "take_bit 3 (fcf_frame_type f) = fcf_frame_type f" "take_bit (Suc 0) (fcf_security_enabled f) = fcf_security_enabled f"
    "take_bit (Suc 0) (fcf_frame_pending f) = fcf_frame_pending f" "take_bit (Suc 0) (fcf_ack_required f) = fcf_ack_required f"
    "take_bit (Suc 0) (fcf_panid_compression f) = fcf_panid_compression f"
    "take_bit (Suc 0) (fcf_ie_list_present f) = fcf_ie_list_present f"
    "take_bit (Suc 0) (fcf_sequence_number_suppression f) = fcf_sequence_number_suppression f"
    "take_bit 2 (fcf_frame_version f) = fcf_frame_version f"
    using w by (simp_all only: take_bit_small8)
  have p: "frame802154_parse_fcf (b0 # b1 # r) = Some \<lparr> fcf_frame_type = take_bit 3 b0,
      fcf_security_enabled = take_bit (Suc 0) (drop_bit 3 b0), fcf_frame_pending = take_bit (Suc 0) (drop_bit 4 b0),
      fcf_ack_required = take_bit (Suc 0) (drop_bit 5 b0), fcf_panid_compression = take_bit (Suc 0) (drop_bit 6 b0),
      fcf_sequence_number_suppression = take_bit (Suc 0) b1, fcf_ie_list_present = take_bit (Suc 0) (drop_bit 1 b1),
      fcf_dest_addr_mode = take_bit 2 (drop_bit 2 b1), fcf_frame_version = take_bit 2 (drop_bit 4 b1),
      fcf_src_addr_mode = take_bit 2 (drop_bit 6 b1) \<rparr>" for b0 b1
    unfolding frame802154_parse_fcf_def and_masks8 by (simp add: nth_opt_def)
  show ?thesis
    unfolding frame802154_create_fcf_def and_masks8 append_Cons append_Nil p
    unfolding fcf_byte0 fcf_byte1
    unfolding s m by simp
qed

lemma parse_pid_bytes: "parse_pid (lo8 w # hi8 w # r) = Some (w, r)"
  by (simp add: parse_pid_def nth_opt_def)

lemma parse_addr_bytes:
  assumes "addr_mode_ok m" "length a = 8"
  shows "parse_addr m old (rev (take (unat (addr_len m)) a) @ r) =
    Some (if m = FRAME802154_SHORTADDRMODE then take 2 a @ replicate 6 0 else if m = FRAME802154_LONGADDRMODE then a else old, r)"
proof -
  obtain x y zs where a: "a = x # y # zs" using assms(2) by (cases a; cases "tl a") auto
  have n: "linkaddr_null[0 := x, Suc 0 := y] = x # y # replicate 6 0"
    by (simp add: linkaddr_null_def numeral_eq_Suc)
  consider "m = 0" | "m = 2" | "m = 3" using assms(1) by (auto simp: addr_mode_ok_def)
  then show ?thesis
  proof cases
    case 1
    then show ?thesis by (simp add: parse_addr_def addr_len_def)
  next
    case 2
    then show ?thesis using a n by (simp add: parse_addr_def addr_len_def nth_opt_def)
  next
    case 3
    then show ?thesis using assms(2) by (simp add: parse_addr_def addr_len_def)
  qed
qed

definition anonymous_pan :: "frame802154_fcf_t \<Rightarrow> bool" where
  "anonymous_pan f \<longleftrightarrow> fcf_frame_version f = FRAME802154_IEEE802154_2015 \<and> fcf_dest_addr_mode f = FRAME802154_NOADDR \<and>
     fcf_src_addr_mode f = FRAME802154_NOADDR \<and> fcf_panid_compression f = 1"

lemma has_panid_addr:
  assumes "fcf_wf f"
  shows "fst (frame802154_has_panid f) \<Longrightarrow> fcf_src_addr_mode f \<noteq> 0"
    "\<not> anonymous_pan f \<Longrightarrow> snd (frame802154_has_panid f) \<Longrightarrow> fcf_dest_addr_mode f \<noteq> 0"
  using assms by (auto simp: frame802154_has_panid_def Let_def anonymous_pan_def split: if_splits)

lemma set_compression_wf: "fcf_wf (fr_fcf p) \<Longrightarrow> fcf_wf (fr_fcf (set_compression p))"
  by (simp add: set_compression_def fcf_wf_def)

lemma set_compression_fields [simp]:
  "fr_dest_addr (set_compression p) = fr_dest_addr p" "fr_src_addr (set_compression p) = fr_src_addr p"
  "fr_seq (set_compression p) = fr_seq p" "fr_dest_pid (set_compression p) = fr_dest_pid p"
  "fr_src_pid (set_compression p) = fr_src_pid p"
  "fcf_dest_addr_mode (fr_fcf (set_compression p)) = fcf_dest_addr_mode (fr_fcf p)"
  "fcf_src_addr_mode (fr_fcf (set_compression p)) = fcf_src_addr_mode (fr_fcf p)"
  "fcf_sequence_number_suppression (fr_fcf (set_compression p)) = fcf_sequence_number_suppression (fr_fcf p)"
  by (simp_all add: set_compression_def)

text \<open>What the parser reads back from a header: the fields that are on the air.\<close>

definition parsed_addr :: "u8 \<Rightarrow> linkaddr \<Rightarrow> linkaddr" where
  "parsed_addr m a = (if m = FRAME802154_NOADDR then linkaddr_null
     else if m = FRAME802154_SHORTADDRMODE then take 2 a @ replicate 6 0 else a)"

definition parsed_frame :: "frame802154_t \<Rightarrow> nat \<Rightarrow> int \<Rightarrow> frame802154_t \<Rightarrow> frame802154_t" where
  "parsed_frame p n len pf =
     (let f = fr_fcf p; (hs, hd) = frame802154_has_panid f; s = fcf_src_addr_mode f; d = fcf_dest_addr_mode f;
          dpid = (if hd then fr_dest_pid p else if hs then fr_src_pid p else 0)
      in \<lparr> fr_dest_addr = parsed_addr d (fr_dest_addr p), fr_src_addr = parsed_addr s (fr_src_addr p), fr_fcf = f,
           fr_seq = (if fcf_sequence_number_suppression f = 0 then fr_seq p else fr_seq pf),
           fr_dest_pid = dpid, fr_src_pid = (if s = 0 then 0 else if hs then fr_src_pid p else dpid),
           fr_payload = n, fr_payload_len = len - int n \<rparr>)"

lemma header_length:
  assumes "fcf_wf (fr_fcf p)" "length (fr_dest_addr p) = 8" "length (fr_src_addr p) = 8" "field_len p = (flen, p')"
  shows "int (length (frame802154_header flen p')) = fst (frame802154_hdrlen p)"
proof -
  have a: "int (min 8 (unat (addr_len m))) = uint (addr_len m)" for m by (simp add: addr_len_def)
  show ?thesis using assms(2-4)
    by (auto simp: frame802154_header_def frame802154_hdrlen_def field_len_def Let_def frame802154_create_fcf_def a
        split: prod.splits)
qed

lemma parse_header:
  assumes f: "fcf_wf (fr_fcf p)" "length (fr_dest_addr p) = 8" "length (fr_src_addr p) = 8" "field_len p = (flen, p')"
    and n: "\<not> anonymous_pan (fr_fcf p')" "int (length (frame802154_header flen p')) \<le> len"
  shows "frame802154_parse (frame802154_header flen p' @ rest) len pf =
    Some (int (length (frame802154_header flen p')), parsed_frame p' (length (frame802154_header flen p')) len pf)"
proof -
  let ?f = "fr_fcf p'" and ?h = "frame802154_header flen p'"
  obtain hs hd where h: "frame802154_has_panid ?f = (hs, hd)" by fastforce
  have p': "p' = set_compression p" using f(4) by (simp add: field_len_def Let_def split: prod.splits)
  have w: "fcf_wf ?f" using f(1) set_compression_wf p' by simp
  then have m: "addr_mode_ok (fcf_dest_addr_mode ?f)" "addr_mode_ok (fcf_src_addr_mode ?f)"
      "fcf_sequence_number_suppression ?f < 2" by (simp_all add: fcf_wf_def)
  have sq: "fcf_sequence_number_suppression ?f AND 1 = fcf_sequence_number_suppression ?f"
    unfolding and_masks8 using m(3) by (rule take_bit_small8)
  have hd: "hs \<Longrightarrow> fcf_src_addr_mode ?f \<noteq> 0" "hd \<Longrightarrow> fcf_dest_addr_mode ?f \<noteq> 0"
    using has_panid_addr [OF w] n(1) h by auto
  have len: "2 \<le> len" using n(2) by (simp add: frame802154_header_def frame802154_create_fcf_def)
  have fl: "fl_seqno_len flen = (if fcf_sequence_number_suppression ?f = 0 then 1 else 0)"
    "fl_dest_pid_len flen = (if hd then 2 else 0)" "fl_src_pid_len flen = (if hs then 2 else 0)"
    "fl_dest_addr_len flen = addr_len (fcf_dest_addr_mode ?f)" "fl_src_addr_len flen = addr_len (fcf_src_addr_mode ?f)"
    using f(4) h sq m addr_mode_take_bit(1) by (auto simp: field_len_def Let_def p')
  have la: "length (fr_dest_addr p') = 8" "length (fr_src_addr p') = 8" using f p' by simp_all
  have l2: "length (frame802154_create_fcf ?f) = 2" by (simp add: frame802154_create_fcf_def)
  have md: "parse_addr (fcf_dest_addr_mode ?f) old (rev (take (unat (addr_len (fcf_dest_addr_mode ?f))) (fr_dest_addr p')) @ r) =
      Some (parsed_addr (fcf_dest_addr_mode ?f) (fr_dest_addr p'), r)" if "fcf_dest_addr_mode ?f \<noteq> 0" for old r
    using parse_addr_bytes [OF m(1) la(1)] that m(1) by (auto simp: parsed_addr_def addr_mode_ok_def)
  have ms: "parse_addr (fcf_src_addr_mode ?f) old (rev (take (unat (addr_len (fcf_src_addr_mode ?f))) (fr_src_addr p')) @ r) =
      Some (parsed_addr (fcf_src_addr_mode ?f) (fr_src_addr p'), r)" if "fcf_src_addr_mode ?f \<noteq> 0" for old r
    using parse_addr_bytes [OF m(2) la(2)] that m(2) by (auto simp: parsed_addr_def addr_mode_ok_def)
  have z: "addr_len 0 = 0" by (simp add: addr_len_def)
  have p0: "parsed_addr 0 a = linkaddr_null" for a by (simp add: parsed_addr_def)
  have e: "?h = frame802154_create_fcf ?f @ (if fcf_sequence_number_suppression ?f = 0 then [fr_seq p'] else []) @
     (if hd then [lo8 (fr_dest_pid p'), hi8 (fr_dest_pid p')] else []) @
     rev (take (unat (addr_len (fcf_dest_addr_mode ?f))) (fr_dest_addr p')) @
     (if hs then [lo8 (fr_src_pid p'), hi8 (fr_src_pid p')] else []) @
     rev (take (unat (addr_len (fcf_src_addr_mode ?f))) (fr_src_addr p'))"
    by (simp add: frame802154_header_def fl)
  show ?thesis using len n(2) h hd z p0 unfolding frame802154_parse_def e append_assoc
    by (cases "fcf_sequence_number_suppression ?f = 0"; cases hd; cases hs; cases "fcf_dest_addr_mode ?f = 0";
        cases "fcf_src_addr_mode ?f = 0")
      (simp_all add: parse_create_fcf [OF w] l2 nth_opt_def Let_def parse_dest_def parse_src_def parse_pid_bytes md ms parsed_frame_def)
qed


definition data_frame_example :: frame802154_t where
  "data_frame_example = \<lparr> fr_dest_addr = [1, 2, 3, 4, 5, 6, 7, 8], fr_src_addr = [9, 0, 0, 0, 0, 0, 0, 0],
     fr_fcf = \<lparr> fcf_frame_type = 1, fcf_security_enabled = 0, fcf_frame_pending = 0, fcf_ack_required = 1,
       fcf_panid_compression = 0, fcf_sequence_number_suppression = 0, fcf_ie_list_present = 0,
       fcf_dest_addr_mode = 3, fcf_frame_version = 2, fcf_src_addr_mode = 3 \<rparr>,
     fr_seq = 42, fr_dest_pid = 0x4bb4, fr_src_pid = 0x4bb4, fr_payload = 0, fr_payload_len = 0 \<rparr>"


text \<open>
  For a 2015 frame without addresses but with PAN identifier compression the two functions disagree:
  \<open>frame802154_has_panid\<close> announces a destination PAN identifier and \<open>frame802154_create\<close> writes its two
  bytes, but \<open>frame802154_parse\<close> skips them only when there is a destination address, so it takes them for
  the start of the payload.
\<close>

theorem frame802154_anonymous_pan_mismatch:
  assumes f: "fcf_wf (fr_fcf p)" "anonymous_pan (fr_fcf p)" "fcf_sequence_number_suppression (fr_fcf p) = 1"
    and b: "4 \<le> length buf" "4 \<le> len"
  shows "\<exists>buf' pf'. frame802154_create p buf = Some (4, p, buf') \<and> frame802154_parse buf' len pf = Some (2, pf') \<and>
    fr_payload pf' = 2"
proof -
  have v: "fcf_frame_version (fr_fcf p) = 2" "fcf_dest_addr_mode (fr_fcf p) = 0" "fcf_src_addr_mode (fr_fcf p) = 0"
    "fcf_panid_compression (fr_fcf p) = 1" using f(2) by (simp_all add: anonymous_pan_def)
  have h: "frame802154_has_panid (fr_fcf p) = (False, True)" using v by (simp add: frame802154_has_panid_def Let_def)
  let ?h = "frame802154_create_fcf (fr_fcf p) @ [lo8 (fr_dest_pid p), hi8 (fr_dest_pid p)]"
  have l: "length (frame802154_create_fcf (fr_fcf p)) = 2" by (simp add: frame802154_create_fcf_def)
  have "frame802154_create p buf = Some (4, p, put_at buf 0 ?h)"
    using v h f(3) b(1) l by (simp add: frame802154_create_def field_len_def set_compression_def Let_def frame802154_header_def
        addr_len_def put_opt_def)
  moreover have "\<exists>pf'. frame802154_parse (frame802154_create_fcf (fr_fcf p) @ r) len pf = Some (2, pf') \<and> fr_payload pf' = 2" for r
    using v h f(3) b(2) l by (simp add: frame802154_parse_def parse_create_fcf [OF f(1)] Let_def parse_dest_def parse_src_def)
  ultimately show ?thesis by (simp add: put_at_def)
qed

theorem frame802154_anonymous_pan_mismatch_witness:
  "\<exists>p buf' pf'. frame802154_create p (replicate 40 0) = Some (4, p, buf') \<and> frame802154_parse buf' 40 p = Some (2, pf')"
proof -
  let ?p = "data_frame_example\<lparr> fr_fcf := (fr_fcf data_frame_example)\<lparr> fcf_panid_compression := 1,
    fcf_sequence_number_suppression := 1, fcf_dest_addr_mode := 0, fcf_src_addr_mode := 0 \<rparr> \<rparr>"
  have "fcf_wf (fr_fcf ?p)" "anonymous_pan (fr_fcf ?p)" "fcf_sequence_number_suppression (fr_fcf ?p) = 1"
    by (simp_all add: data_frame_example_def fcf_wf_def addr_mode_ok_def anonymous_pan_def)
  from frame802154_anonymous_pan_mismatch [OF this, of "replicate 40 0" 40 ?p] show ?thesis by auto
qed

lemma parse_pid_safe: "2 \<le> length p \<Longrightarrow> \<exists>v. parse_pid p = Some (v, drop 2 p)"
  by (simp add: parse_pid_def nth_opt_def del: length_greater_0_conv)

lemma parse_addr_safe: "8 \<le> length p \<Longrightarrow> \<exists>a k. parse_addr m old p = Some (a, drop k p) \<and> k \<le> 8"
  unfolding parse_addr_def by (auto simp: nth_opt_def intro: exI [of _ 0])

lemma parse_dest_safe:
  assumes "10 \<le> length p"
  shows "\<exists>pf' k. parse_dest fcf hdp pf p = Some (pf', drop k p) \<and> k \<le> 10"
proof (cases "fcf_dest_addr_mode fcf \<noteq> 0")
  case True
  obtain v j where v: "(if hdp then parse_pid p else Some (0, p)) = Some (v, drop j p)" "j \<le> 2"
    using parse_pid_safe [of p] assms by (cases hdp) (auto intro: that [of _ 2] that [of _ 0])
  have "8 \<le> length (drop j p)" using assms v(2) by simp
  then obtain a k where a: "parse_addr (fcf_dest_addr_mode fcf) (fr_dest_addr pf) (drop j p) = Some (a, drop k (drop j p))" "k \<le> 8"
    using parse_addr_safe [of "drop j p" "fcf_dest_addr_mode fcf" "fr_dest_addr pf"] by blast
  show ?thesis using True v a by (auto simp: parse_dest_def intro!: exI [of _ "k + j"])
qed (auto simp: parse_dest_def intro!: exI [of _ 0])

lemma parse_src_safe:
  assumes "10 \<le> length p"
  shows "\<exists>pf' k. parse_src fcf hs hdp pf p = Some (pf', drop k p) \<and> k \<le> 10"
proof (cases "fcf_src_addr_mode fcf \<noteq> 0")
  case True
  obtain pf1 j where v: "(if hs then do { (pid, p) \<leftarrow> parse_pid p;
      Some (pf\<lparr> fr_src_pid := pid, fr_dest_pid := (if \<not> hdp then pid else fr_dest_pid pf) \<rparr>, p) }
      else Some (pf\<lparr> fr_src_pid := fr_dest_pid pf \<rparr>, p)) = Some (pf1, drop j p)" "j \<le> 2"
    using parse_pid_safe [of p] assms by (cases hs) (auto intro: that [of _ 2] that [of _ 0])
  have "8 \<le> length (drop j p)" using assms v(2) by simp
  then obtain a k where a: "parse_addr (fcf_src_addr_mode fcf) (fr_src_addr pf1) (drop j p) = Some (a, drop k (drop j p))" "k \<le> 8"
    using parse_addr_safe [of "drop j p" "fcf_src_addr_mode fcf" "fr_src_addr pf1"] by blast
  show ?thesis using True v a by (auto simp: parse_src_def intro!: exI [of _ "k + j"])
qed (auto simp: parse_src_def intro!: exI [of _ 0])

lemma header_parse_safe:
  assumes "23 \<le> length data"
  shows "\<exists>n pf'. frame802154_parse data len pf = Some (n, pf') \<and> (n = 0 \<or> 2 \<le> n \<and> n \<le> len \<and> n \<le> 23)"
proof (cases "len < 2")
  case False
  obtain fcf where f: "frame802154_parse_fcf data = Some fcf" using assms
    by (simp add: frame802154_parse_fcf_def nth_opt_def del: length_greater_0_conv)
  obtain hs hdp where h: "frame802154_has_panid fcf = (hs, hdp)" by fastforce
  define d where "d = drop 2 data"
  have "\<exists>pf1 k. k \<le> 1 \<and> (if fcf_sequence_number_suppression fcf = 0
      then do { b \<leftarrow> nth_opt d 0; Some (pf\<lparr> fr_fcf := fcf, fr_seq := b \<rparr>, drop 1 d) } else Some (pf\<lparr> fr_fcf := fcf \<rparr>, d)) = Some (pf1, drop k d)"
  proof (cases "fcf_sequence_number_suppression fcf = 0")
    case True
    have "0 < length d" using assms by (simp add: d_def)
    then show ?thesis using True
      by (intro exI [of _ "pf\<lparr> fr_fcf := fcf, fr_seq := d ! 0 \<rparr>"] exI [of _ 1]) (simp add: nth_opt_def)
  next
    case False
    then show ?thesis by (intro exI [of _ "pf\<lparr> fr_fcf := fcf \<rparr>"] exI [of _ 0]) simp
  qed
  then obtain pf1 k1 where s1: "k1 \<le> 1" "(if fcf_sequence_number_suppression fcf = 0
      then do { b \<leftarrow> nth_opt d 0; Some (pf\<lparr> fr_fcf := fcf, fr_seq := b \<rparr>, drop 1 d) } else Some (pf\<lparr> fr_fcf := fcf \<rparr>, d)) = Some (pf1, drop k1 d)"
    by blast
  have "10 \<le> length (drop k1 d)" using assms s1(1) by (simp add: d_def)
  then obtain pf2 k2 where s2: "parse_dest fcf hdp pf1 (drop k1 d) = Some (pf2, drop k2 (drop k1 d))" "k2 \<le> 10"
    using parse_dest_safe by blast
  have "10 \<le> length (drop k2 (drop k1 d))" using assms s1(1) s2(2) by (simp add: d_def)
  then obtain pf3 k3 where s3: "parse_src fcf hs hdp pf2 (drop k2 (drop k1 d)) = Some (pf3, drop k3 (drop k2 (drop k1 d)))" "k3 \<le> 10"
    using parse_src_safe by blast
  define p1 p2 p3 where "p1 = drop k1 d" and "p2 = drop k2 p1" and "p3 = drop k3 p2"
  note fold = p1_def [symmetric] p2_def [symmetric] p3_def [symmetric]
  let ?c = "length data - length p3"
  have c: "2 \<le> ?c" "?c \<le> 23" using s1(1) s2(2) s3(2) assms by (simp_all add: d_def p1_def p2_def p3_def)
  have "frame802154_parse data len pf = Some (if int ?c > len then 0 else int ?c, pf3\<lparr> fr_payload_len := len - int ?c, fr_payload := ?c \<rparr>)"
    using False f h s1(2) [unfolded fold] s2(1) [unfolded fold] s3(1) [unfolded fold]
    unfolding frame802154_parse_def d_def [symmetric] by (simp add: Let_def)
  then show ?thesis using c by auto
qed (simp add: frame802154_parse_def)

text \<open>
  \<open>frame802154_parse\<close> checks the frame length only at its two ends: on arbitrary bytes it never reads
  further than 23 bytes from the start, so it is safe when that many bytes of the buffer exist, and its
  result is 0 or a header length between 2 and the given length.
\<close>

theorem frame802154_parse_safe:
  assumes "23 \<le> length data"
  shows "\<exists>n pf'. frame802154_parse data len pf = Some (n, pf') \<and> (n = 0 \<or> 2 \<le> n \<and> n \<le> len \<and> n \<le> 23)"
  by (rule header_parse_safe [OF assms])

theorem frame802154_parse_safe_witness:
  "\<exists>n pf'. frame802154_parse (replicate 30 0xff) 10 data_frame_example = Some (n, pf') \<and> (n = 0 \<or> n \<le> 10)"
  using frame802154_parse_safe [of "replicate 30 0xff" 10 data_frame_example] by auto

end
