(* ===== verification/FrameIE.thy ===== *)
theory FrameIE
  imports MasterConf Asn
begin

text \<open>
  Information elements (\<open>os/net/mac/framer/frame802154e-ie.c\<close>): the creators and the parser of the
  elements TSCH uses, including the ones added for neighbour discovery and schedule distribution. A
  buffer pointer is the list of bytes from it to the end of the underlying buffer, so an access beyond
  that end is undefined; the creators' stores into one element are contiguous and written as one store.
\<close>

subsection \<open>Data\<close>

definition HEADER_IE_ACK_NACK_TIME_CORRECTION :: u8 where "HEADER_IE_ACK_NACK_TIME_CORRECTION = 0x1e"
definition HEADER_IE_LIST_TERMINATION_1 :: u8 where "HEADER_IE_LIST_TERMINATION_1 = 0x7e"
definition HEADER_IE_LIST_TERMINATION_2 :: u8 where "HEADER_IE_LIST_TERMINATION_2 = 0x7f"
definition PAYLOAD_IE_MLME :: u8 where "PAYLOAD_IE_MLME = 1"
definition PAYLOAD_IE_LIST_TERMINATION :: u8 where "PAYLOAD_IE_LIST_TERMINATION = 0xf"
definition MLME_SHORT_IE_TSCH_SYNCHRONIZATION :: u8 where "MLME_SHORT_IE_TSCH_SYNCHRONIZATION = 0x1a"
definition MLME_SHORT_IE_TSCH_SLOFTRAME_AND_LINK :: u8 where "MLME_SHORT_IE_TSCH_SLOFTRAME_AND_LINK = 0x1b"
definition MLME_SHORT_IE_TSCH_TIMESLOT :: u8 where "MLME_SHORT_IE_TSCH_TIMESLOT = 0x1c"
definition MLME_SHORT_IE_TSCH_OVERHEARING :: u8 where "MLME_SHORT_IE_TSCH_OVERHEARING = 0x37"
definition MLME_SHORT_IE_SEQUENCE_NUMBER :: u8 where "MLME_SHORT_IE_SEQUENCE_NUMBER = 0x38"
definition MLME_SHORT_IE_RANK :: u8 where "MLME_SHORT_IE_RANK = 0x39"
definition MLME_SHORT_IE_TIME_SOURCE :: u8 where "MLME_SHORT_IE_TIME_SOURCE = 0x3a"
definition MLME_SHORT_IE_SCHEDULE_VERSION :: u8 where "MLME_SHORT_IE_SCHEDULE_VERSION = 0x3b"
definition MLME_SHORT_IE_SCHEDULE_PACKETS :: u8 where "MLME_SHORT_IE_SCHEDULE_PACKETS = 0x3c"
definition MLME_SHORT_IE_SCHEDULE_RECEIVED :: u8 where "MLME_SHORT_IE_SCHEDULE_RECEIVED = 0x3d"
definition MLME_LONG_IE_TSCH_CHANNEL_HOPPING_SEQUENCE :: u8 where "MLME_LONG_IE_TSCH_CHANNEL_HOPPING_SEQUENCE = 0x9"

lemmas ie_ids = HEADER_IE_ACK_NACK_TIME_CORRECTION_def HEADER_IE_LIST_TERMINATION_1_def HEADER_IE_LIST_TERMINATION_2_def
  PAYLOAD_IE_MLME_def PAYLOAD_IE_LIST_TERMINATION_def MLME_SHORT_IE_TSCH_SYNCHRONIZATION_def
  MLME_SHORT_IE_TSCH_SLOFTRAME_AND_LINK_def MLME_SHORT_IE_TSCH_TIMESLOT_def MLME_SHORT_IE_TSCH_OVERHEARING_def
  MLME_SHORT_IE_SEQUENCE_NUMBER_def MLME_SHORT_IE_RANK_def MLME_SHORT_IE_TIME_SOURCE_def
  MLME_SHORT_IE_SCHEDULE_VERSION_def MLME_SHORT_IE_SCHEDULE_PACKETS_def MLME_SHORT_IE_SCHEDULE_RECEIVED_def
  MLME_LONG_IE_TSCH_CHANNEL_HOPPING_SEQUENCE_def

definition FRAME802154E_IE_MAX_LINKS :: nat where [simp]: "FRAME802154E_IE_MAX_LINKS = 4"
definition FRAME802154E_IE_SCHEDULE_BIT_VECTOR :: nat where [simp]: "FRAME802154E_IE_SCHEDULE_BIT_VECTOR = 3"
definition tsch_ts_elements_count :: nat where [simp]: "tsch_ts_elements_count = 12"
definition TSCH_HOPPING_SEQUENCE_MAX_LEN :: nat where [simp]: "TSCH_HOPPING_SEQUENCE_MAX_LEN = 16"

record tsch_slotframe_and_links_link =
  sl_timeslot :: u16
  sl_channel_offset :: u16
  sl_link_options :: u8

record tsch_slotframe_and_links =
  num_slotframes :: u8
  slotframe_handle :: u8
  slotframe_size :: u16
  num_links :: u8
  links :: "tsch_slotframe_and_links_link list"

text \<open>The \<open>int16_t\<close> time correction is its two's complement word.\<close>

record ieee802154_ies =
  ie_time_correction :: u16
  ie_is_nack :: u8
  ie_payload_ie_offset :: u8
  ie_mlme_len :: u16
  ie_asn :: tsch_asn_t
  ie_join_priority :: u8
  ie_tsch_timeslot_id :: u8
  ie_tsch_timeslot :: "u16 list"
  ie_tsch_slotframe_and_link :: tsch_slotframe_and_links
  ie_overhearing :: u8
  ie_sequence_number :: u16
  ie_rank :: u8
  ie_time_source :: u8
  ie_schedule_version :: u8
  ie_schedule_packets :: u16
  ie_schedule_received :: "u8 list"
  ie_channel_hopping_sequence_id :: u8
  ie_hopping_sequence_len :: u16
  ie_hopping_sequence_list :: "u8 list"

text \<open>The structure after \<open>memset(&ies, 0, sizeof(ies))\<close>.\<close>

definition ies_zero :: ieee802154_ies where
  "ies_zero = \<lparr> ie_time_correction = 0, ie_is_nack = 0, ie_payload_ie_offset = 0, ie_mlme_len = 0,
     ie_asn = \<lparr> ls4b = 0, ms1b = 0 \<rparr>, ie_join_priority = 0, ie_tsch_timeslot_id = 0,
     ie_tsch_timeslot = replicate tsch_ts_elements_count 0,
     ie_tsch_slotframe_and_link = \<lparr> num_slotframes = 0, slotframe_handle = 0, slotframe_size = 0, num_links = 0,
       links = replicate FRAME802154E_IE_MAX_LINKS \<lparr> sl_timeslot = 0, sl_channel_offset = 0, sl_link_options = 0 \<rparr> \<rparr>,
     ie_overhearing = 0, ie_sequence_number = 0, ie_rank = 0, ie_time_source = 0, ie_schedule_version = 0,
     ie_schedule_packets = 0, ie_schedule_received = replicate FRAME802154E_IE_SCHEDULE_BIT_VECTOR 0,
     ie_channel_hopping_sequence_id = 0, ie_hopping_sequence_len = 0,
     ie_hopping_sequence_list = replicate TSCH_HOPPING_SEQUENCE_MAX_LEN 0 \<rparr>"

text \<open>\<open>WRITE16\<close> and \<open>READ16\<close>.\<close>

definition WRITE16 :: "u16 \<Rightarrow> u8 list" where
  "WRITE16 val = [lo8 val, hi8 val]"

definition READ16 :: "u8 list \<Rightarrow> nat \<Rightarrow> u16 option" where
  "READ16 buf i = do { a \<leftarrow> nth_opt buf i; b \<leftarrow> nth_opt buf (i + 1); Some (mk16 a b) }"

subsection \<open>Creating\<close>

definition create_header_ie_descriptor :: "u8 \<Rightarrow> nat \<Rightarrow> u8 list" where
  "create_header_ie_descriptor element_id ie_len =
     WRITE16 ((word_of_nat ie_len AND 0x7f) + push_bit 7 (ucast (element_id AND 0xff)))"

definition create_payload_ie_descriptor :: "u8 \<Rightarrow> nat \<Rightarrow> u8 list" where
  "create_payload_ie_descriptor group_id ie_len =
     WRITE16 ((word_of_nat ie_len AND 0x07ff) + push_bit 11 (ucast (group_id AND 0x0f)) + push_bit 15 1)"

definition create_mlme_short_ie_descriptor :: "u8 \<Rightarrow> nat \<Rightarrow> u8 list" where
  "create_mlme_short_ie_descriptor sub_id ie_len =
     WRITE16 ((word_of_nat ie_len AND 0xff) + push_bit 8 (ucast (sub_id AND 0x7f)))"

definition create_mlme_long_ie_descriptor :: "u8 \<Rightarrow> nat \<Rightarrow> u8 list" where
  "create_mlme_long_ie_descriptor sub_id ie_len =
     WRITE16 ((word_of_nat ie_len AND 0x07ff) + push_bit 11 (ucast (sub_id AND 0x0f)) + push_bit 15 1)"

text \<open>
  Every creator returns the number of bytes of the element, or -1 when the space \<open>len\<close> or the argument is
  missing; then the buffer is unchanged.
\<close>

definition put_ie :: "u8 list \<Rightarrow> u8 list \<Rightarrow> nat \<Rightarrow> (int \<times> u8 list) option" where
  "put_ie buf bytes ret = do { buf \<leftarrow> put_opt buf 0 bytes; Some (int ret, buf) }"

definition frame80215e_create_ie_header_ack_nack_time_correction ::
    "u8 list \<Rightarrow> int \<Rightarrow> ieee802154_ies option \<Rightarrow> (int \<times> u8 list) option" where
  "frame80215e_create_ie_header_ack_nack_time_correction buf len ies =
     (case ies of
        Some ies \<Rightarrow>
          if len \<ge> 2 + 2 then
            (let time_sync_field = ie_time_correction ies AND 0x0fff;
                 time_sync_field = (if ie_is_nack ies \<noteq> 0 then time_sync_field OR 0x8000 else time_sync_field)
             in put_ie buf (create_header_ie_descriptor HEADER_IE_ACK_NACK_TIME_CORRECTION 2 @ WRITE16 time_sync_field) (2 + 2))
          else Some (- 1, buf)
      | None \<Rightarrow> Some (- 1, buf))"

definition frame80215e_create_ie_header_list_termination_1 ::
    "u8 list \<Rightarrow> int \<Rightarrow> ieee802154_ies option \<Rightarrow> (int \<times> u8 list) option" where
  "frame80215e_create_ie_header_list_termination_1 buf len ies =
     (if len \<ge> 2 + 0 \<and> ies \<noteq> None then put_ie buf (create_header_ie_descriptor HEADER_IE_LIST_TERMINATION_1 0) 2
      else Some (- 1, buf))"

definition frame80215e_create_ie_header_list_termination_2 ::
    "u8 list \<Rightarrow> int \<Rightarrow> ieee802154_ies option \<Rightarrow> (int \<times> u8 list) option" where
  "frame80215e_create_ie_header_list_termination_2 buf len ies =
     (if len \<ge> 2 + 0 \<and> ies \<noteq> None then put_ie buf (create_header_ie_descriptor HEADER_IE_LIST_TERMINATION_2 0) 2
      else Some (- 1, buf))"

definition frame80215e_create_ie_payload_list_termination ::
    "u8 list \<Rightarrow> int \<Rightarrow> ieee802154_ies option \<Rightarrow> (int \<times> u8 list) option" where
  "frame80215e_create_ie_payload_list_termination buf len ies =
     (if len \<ge> 2 + 0 \<and> ies \<noteq> None then put_ie buf (create_payload_ie_descriptor PAYLOAD_IE_LIST_TERMINATION 0) 2
      else Some (- 1, buf))"

definition frame80215e_create_ie_mlme :: "u8 list \<Rightarrow> int \<Rightarrow> ieee802154_ies option \<Rightarrow> (int \<times> u8 list) option" where
  "frame80215e_create_ie_mlme buf len ies =
     (case ies of
        Some ies \<Rightarrow> if len \<ge> 2 + 0 then put_ie buf (create_payload_ie_descriptor PAYLOAD_IE_MLME (unat (ie_mlme_len ies))) 2
                    else Some (- 1, buf)
      | None \<Rightarrow> Some (- 1, buf))"

definition frame80215e_create_ie_tsch_synchronization ::
    "u8 list \<Rightarrow> int \<Rightarrow> ieee802154_ies option \<Rightarrow> (int \<times> u8 list) option" where
  "frame80215e_create_ie_tsch_synchronization buf len ies =
     (case ies of
        Some ies \<Rightarrow>
          if len \<ge> 2 + 6 then
            put_ie buf (create_mlme_short_ie_descriptor MLME_SHORT_IE_TSCH_SYNCHRONIZATION 6 @
              [ucast (ls4b (ie_asn ies)), ucast (drop_bit 8 (ls4b (ie_asn ies))), ucast (drop_bit 16 (ls4b (ie_asn ies))),
               ucast (drop_bit 24 (ls4b (ie_asn ies))), ms1b (ie_asn ies), ie_join_priority ies]) (2 + 6)
          else Some (- 1, buf)
      | None \<Rightarrow> Some (- 1, buf))"

text \<open>Storing the links: the loop reads \<open>links[i]\<close> for \<open>i < num_links\<close>.\<close>

definition link_bytes :: "tsch_slotframe_and_links_link \<Rightarrow> u8 list" where
  "link_bytes l = WRITE16 (sl_timeslot l) @ WRITE16 (sl_channel_offset l) @ [sl_link_options l]"

definition frame80215e_create_ie_tsch_slotframe_and_link ::
    "u8 list \<Rightarrow> int \<Rightarrow> ieee802154_ies option \<Rightarrow> (int \<times> u8 list) option" where
  "frame80215e_create_ie_tsch_slotframe_and_link buf len ies =
     (case ies of
        None \<Rightarrow> Some (- 1, buf)
      | Some ies \<Rightarrow>
          (let sl = ie_tsch_slotframe_and_link ies; ns = unat (num_slotframes sl); nl = unat (num_links sl);
               ie_len = 1 + ns * (4 + 5 * nl)
           in if ns > 1 \<or> nl > FRAME802154E_IE_MAX_LINKS \<or> len < 2 + int ie_len then Some (- 1, buf)
              else do {
                ls \<leftarrow> slice_opt (links sl) 0 nl;
                put_ie buf (create_mlme_short_ie_descriptor MLME_SHORT_IE_TSCH_SLOFTRAME_AND_LINK ie_len @ [num_slotframes sl] @
                  (if ns = 1 then [slotframe_handle sl] @ WRITE16 (slotframe_size sl) @ [num_links sl] @ concat (map link_bytes ls)
                   else [])) (2 + ie_len)
              }))"

definition frame80215e_create_ie_tsch_timeslot ::
    "u8 list \<Rightarrow> int \<Rightarrow> ieee802154_ies option \<Rightarrow> (int \<times> u8 list) option" where
  "frame80215e_create_ie_tsch_timeslot buf len ies =
     (case ies of
        None \<Rightarrow> Some (- 1, buf)
      | Some ies \<Rightarrow>
          (let ie_len = (if ie_tsch_timeslot_id ies = 0 then 1 else 25 :: nat)
           in if len \<ge> 2 + int ie_len then do {
                ts \<leftarrow> (if ie_tsch_timeslot_id ies \<noteq> 0 then slice_opt (ie_tsch_timeslot ies) 0 tsch_ts_elements_count else Some []);
                put_ie buf (create_mlme_short_ie_descriptor MLME_SHORT_IE_TSCH_TIMESLOT ie_len @ [ie_tsch_timeslot_id ies] @
                  concat (map WRITE16 ts)) (2 + ie_len)
              }
              else Some (- 1, buf)))"

text \<open>
  With sequence id 0 the announced length is one byte, but the whole description is stored all the same.
\<close>

definition frame80215e_create_ie_tsch_channel_hopping_sequence ::
    "u8 list \<Rightarrow> int \<Rightarrow> ieee802154_ies option \<Rightarrow> (int \<times> u8 list) option" where
  "frame80215e_create_ie_tsch_channel_hopping_sequence buf len ies =
     (case ies of
        None \<Rightarrow> Some (- 1, buf)
      | Some ies \<Rightarrow>
          if unat (ie_hopping_sequence_len ies) > TSCH_HOPPING_SEQUENCE_MAX_LEN then Some (- 1, buf)
          else
            (let n = unat (ie_hopping_sequence_len ies);
                 ie_len = (if ie_channel_hopping_sequence_id ies = 0 then 1 else 12 + n)
             in if len \<ge> 2 + int ie_len then do {
                  sq \<leftarrow> slice_opt (ie_hopping_sequence_list ies) 0 n;
                  put_ie buf (create_mlme_long_ie_descriptor MLME_LONG_IE_TSCH_CHANNEL_HOPPING_SEQUENCE ie_len @
                    [ie_channel_hopping_sequence_id ies, 0] @ WRITE16 0 @ WRITE16 0 @ WRITE16 0 @
                    WRITE16 (ie_hopping_sequence_len ies) @ sq @ WRITE16 0) (2 + ie_len)
                }
                else Some (- 1, buf)))"

text \<open>The elements added for neighbour discovery and schedule distribution.\<close>

definition frame80215e_create_ie_overhearing :: "u8 list \<Rightarrow> int \<Rightarrow> ieee802154_ies option \<Rightarrow> (int \<times> u8 list) option" where
  "frame80215e_create_ie_overhearing buf len ies =
     (case ies of
        None \<Rightarrow> Some (- 1, buf)
      | Some ies \<Rightarrow> if len < 1 + 1 then Some (- 1, buf)
          else put_ie buf (create_mlme_short_ie_descriptor MLME_SHORT_IE_TSCH_OVERHEARING 1 @ [ie_overhearing ies]) (2 + 1))"

definition frame80215e_create_ie_tsch_neighbor_discovery ::
    "u8 list \<Rightarrow> int \<Rightarrow> ieee802154_ies option \<Rightarrow> (int \<times> u8 list) option" where
  "frame80215e_create_ie_tsch_neighbor_discovery buf len ies =
     (case ies of
        None \<Rightarrow> Some (- 1, buf)
      | Some ies \<Rightarrow> if len < 2 + 2 then Some (- 1, buf)
          else put_ie buf (create_mlme_short_ie_descriptor MLME_SHORT_IE_SEQUENCE_NUMBER 2 @ WRITE16 (ie_sequence_number ies)) (2 + 2))"

definition frame80215e_create_ie_tsch_rank :: "u8 list \<Rightarrow> int \<Rightarrow> ieee802154_ies option \<Rightarrow> (int \<times> u8 list) option" where
  "frame80215e_create_ie_tsch_rank buf len ies =
     (case ies of
        None \<Rightarrow> Some (- 1, buf)
      | Some ies \<Rightarrow> if len < 1 + 1 then Some (- 1, buf)
          else put_ie buf (create_mlme_short_ie_descriptor MLME_SHORT_IE_RANK 1 @ [ie_rank ies]) (2 + 1))"

definition frame80215e_create_ie_time_source :: "u8 list \<Rightarrow> int \<Rightarrow> ieee802154_ies option \<Rightarrow> (int \<times> u8 list) option" where
  "frame80215e_create_ie_time_source buf len ies =
     (case ies of
        None \<Rightarrow> Some (- 1, buf)
      | Some ies \<Rightarrow> if len < 1 + 1 then Some (- 1, buf)
          else put_ie buf (create_mlme_short_ie_descriptor MLME_SHORT_IE_TIME_SOURCE 1 @ [ie_time_source ies]) (2 + 1))"

definition frame80215e_create_ie_schedule_version :: "u8 list \<Rightarrow> int \<Rightarrow> ieee802154_ies option \<Rightarrow> (int \<times> u8 list) option" where
  "frame80215e_create_ie_schedule_version buf len ies =
     (case ies of
        None \<Rightarrow> Some (- 1, buf)
      | Some ies \<Rightarrow> if len < 1 + 1 then Some (- 1, buf)
          else put_ie buf (create_mlme_short_ie_descriptor MLME_SHORT_IE_SCHEDULE_VERSION 1 @ [ie_schedule_version ies]) (2 + 1))"

definition frame80215e_create_ie_schedule_packets :: "u8 list \<Rightarrow> int \<Rightarrow> ieee802154_ies option \<Rightarrow> (int \<times> u8 list) option" where
  "frame80215e_create_ie_schedule_packets buf len ies =
     (case ies of
        None \<Rightarrow> Some (- 1, buf)
      | Some ies \<Rightarrow> if len < 2 + 2 then Some (- 1, buf)
          else put_ie buf (create_mlme_short_ie_descriptor MLME_SHORT_IE_SCHEDULE_PACKETS 2 @ WRITE16 (ie_schedule_packets ies)) (2 + 2))"

definition frame80215e_create_ie_schedule_received ::
    "u8 list \<Rightarrow> int \<Rightarrow> ieee802154_ies option \<Rightarrow> u8 \<Rightarrow> (int \<times> u8 list) option" where
  "frame80215e_create_ie_schedule_received buf len ies array_len =
     (case ies of
        None \<Rightarrow> Some (- 1, buf)
      | Some ies \<Rightarrow> if len < 2 + uint array_len then Some (- 1, buf)
          else do {
            bs \<leftarrow> slice_opt (ie_schedule_received ies) 0 (unat array_len);
            put_ie buf (create_mlme_short_ie_descriptor MLME_SHORT_IE_SCHEDULE_RECEIVED (unat array_len) @ bs) (2 + unat array_len)
          })"

subsection \<open>Parsing\<close>

text \<open>The parsers of one element return its length, or -1 when they do not accept it.\<close>

definition frame802154e_parse_header_ie :: "u8 list \<Rightarrow> nat \<Rightarrow> u8 \<Rightarrow> ieee802154_ies \<Rightarrow> (int \<times> ieee802154_ies) option" where
  "frame802154e_parse_header_ie buf len element_id ies =
     (if element_id = HEADER_IE_ACK_NACK_TIME_CORRECTION \<and> len = 2 then do {
        time_sync_field \<leftarrow> READ16 buf 0;
        let drift_us = (if time_sync_field AND 0x0800 \<noteq> 0 then time_sync_field OR 0xf000 else time_sync_field AND 0x0fff);
        Some (int len, ies\<lparr> ie_is_nack := (if time_sync_field AND 0x8000 \<noteq> 0 then 1 else 0), ie_time_correction := drift_us \<rparr>)
      } else Some (- 1, ies))"

text \<open>Reading \<open>n\<close> links of five bytes each, and \<open>n\<close> 16-bit values.\<close>

fun read_links :: "u8 list \<Rightarrow> nat \<Rightarrow> nat \<Rightarrow> tsch_slotframe_and_links_link list option" where
  "read_links buf off 0 = Some []"
| "read_links buf off (Suc n) = do {
     ts \<leftarrow> READ16 buf off;
     co \<leftarrow> READ16 buf (off + 2);
     lo \<leftarrow> nth_opt buf (off + 4);
     ls \<leftarrow> read_links buf (off + 5) n;
     Some (\<lparr> sl_timeslot = ts, sl_channel_offset = co, sl_link_options = lo \<rparr> # ls)
   }"

fun read_words :: "u8 list \<Rightarrow> nat \<Rightarrow> nat \<Rightarrow> u16 list option" where
  "read_words buf off 0 = Some []"
| "read_words buf off (Suc n) = do { w \<leftarrow> READ16 buf off; ws \<leftarrow> read_words buf (off + 2) n; Some (w # ws) }"

definition parse_slotframe_and_link :: "u8 list \<Rightarrow> nat \<Rightarrow> ieee802154_ies \<Rightarrow> (int \<times> ieee802154_ies) option" where
  "parse_slotframe_and_link buf len ies =
     (if len \<ge> 1 then do {
        ns \<leftarrow> nth_opt buf 0;
        nl \<leftarrow> nth_opt buf 4;
        if ns = 0 then Some (int len, ies)
        else if unat ns \<le> 1 \<and> unat nl \<le> FRAME802154E_IE_MAX_LINKS \<and> len = 1 + unat ns * (4 + 5 * unat nl) then do {
          h \<leftarrow> nth_opt buf 1;
          sz \<leftarrow> READ16 buf 2;
          ls \<leftarrow> read_links buf 5 (unat nl);
          Some (int len, ies\<lparr> ie_tsch_slotframe_and_link :=
            \<lparr> num_slotframes = ns, slotframe_handle = h, slotframe_size = sz, num_links = nl,
              links = put_at (links (ie_tsch_slotframe_and_link ies)) 0 ls \<rparr> \<rparr>)
        }
        else Some (- 1, ies)
      } else Some (- 1, ies))"

definition parse_byte :: "u8 list \<Rightarrow> nat \<Rightarrow> (u8 \<Rightarrow> ieee802154_ies \<Rightarrow> ieee802154_ies) \<Rightarrow> ieee802154_ies \<Rightarrow> (int \<times> ieee802154_ies) option" where
  "parse_byte buf len upd ies =
     (if len = 1 then do { b \<leftarrow> nth_opt buf 0; Some (int len, upd b ies) } else Some (- 1, ies))"

definition parse_word :: "u8 list \<Rightarrow> nat \<Rightarrow> (u16 \<Rightarrow> ieee802154_ies \<Rightarrow> ieee802154_ies) \<Rightarrow> ieee802154_ies \<Rightarrow> (int \<times> ieee802154_ies) option" where
  "parse_word buf len upd ies =
     (if len = 2 then do { w \<leftarrow> READ16 buf 0; Some (int len, upd w ies) } else Some (- 1, ies))"

definition parse_schedule_received :: "u8 list \<Rightarrow> nat \<Rightarrow> ieee802154_ies \<Rightarrow> (int \<times> ieee802154_ies) option" where
  "parse_schedule_received buf len ies =
     (if len = 3 then do {
        bs \<leftarrow> slice_opt buf 0 FRAME802154E_IE_SCHEDULE_BIT_VECTOR;
        Some (int len, ies\<lparr> ie_schedule_received := bs \<rparr>)
      } else Some (- 1, ies))"

text \<open>
  The case of the schedule packets has no \<open>break\<close>: with a length other than 2 it falls through to the case of
  the received schedule packets.
\<close>

definition frame802154e_parse_mlme_short_ie :: "u8 list \<Rightarrow> nat \<Rightarrow> u8 \<Rightarrow> ieee802154_ies \<Rightarrow> (int \<times> ieee802154_ies) option" where
  "frame802154e_parse_mlme_short_ie buf len sub_id ies =
     (if sub_id = MLME_SHORT_IE_TSCH_SLOFTRAME_AND_LINK then parse_slotframe_and_link buf len ies
      else if sub_id = MLME_SHORT_IE_TSCH_SYNCHRONIZATION then
        (if len = 6 then do {
           b0 \<leftarrow> nth_opt buf 0; b1 \<leftarrow> nth_opt buf 1; b2 \<leftarrow> nth_opt buf 2; b3 \<leftarrow> nth_opt buf 3;
           b4 \<leftarrow> nth_opt buf 4; b5 \<leftarrow> nth_opt buf 5;
           Some (int len, ies\<lparr> ie_asn := \<lparr> ls4b = ((ucast b0 OR push_bit 8 (ucast b1)) OR push_bit 16 (ucast b2)) OR
                                                push_bit 24 (ucast b3), ms1b = b4 \<rparr>, ie_join_priority := b5 \<rparr>)
         } else Some (- 1, ies))
      else if sub_id = MLME_SHORT_IE_TSCH_TIMESLOT then
        (if len = 1 \<or> len = 25 then do {
           b \<leftarrow> nth_opt buf 0;
           let ies = ies\<lparr> ie_tsch_timeslot_id := b \<rparr>;
           (if len = 25 then do {
              ws \<leftarrow> read_words buf 1 tsch_ts_elements_count;
              Some (int len, ies\<lparr> ie_tsch_timeslot := ws \<rparr>)
            } else Some (int len, ies))
         } else Some (- 1, ies))
      else if sub_id = MLME_SHORT_IE_TSCH_OVERHEARING then parse_byte buf len (\<lambda>b ies. ies\<lparr> ie_overhearing := b \<rparr>) ies
      else if sub_id = MLME_SHORT_IE_SEQUENCE_NUMBER then parse_word buf len (\<lambda>w ies. ies\<lparr> ie_sequence_number := w \<rparr>) ies
      else if sub_id = MLME_SHORT_IE_RANK then parse_byte buf len (\<lambda>b ies. ies\<lparr> ie_rank := b \<rparr>) ies
      else if sub_id = MLME_SHORT_IE_TIME_SOURCE then parse_byte buf len (\<lambda>b ies. ies\<lparr> ie_time_source := b \<rparr>) ies
      else if sub_id = MLME_SHORT_IE_SCHEDULE_VERSION then parse_byte buf len (\<lambda>b ies. ies\<lparr> ie_schedule_version := b \<rparr>) ies
      else if sub_id = MLME_SHORT_IE_SCHEDULE_PACKETS then
        (if len = 2 then parse_word buf len (\<lambda>w ies. ies\<lparr> ie_schedule_packets := w \<rparr>) ies
         else parse_schedule_received buf len ies)
      else if sub_id = MLME_SHORT_IE_SCHEDULE_RECEIVED then parse_schedule_received buf len ies
      else Some (- 1, ies))"

definition frame802154e_parse_mlme_long_ie :: "u8 list \<Rightarrow> nat \<Rightarrow> u8 \<Rightarrow> ieee802154_ies \<Rightarrow> (int \<times> ieee802154_ies) option" where
  "frame802154e_parse_mlme_long_ie buf len sub_id ies =
     (if sub_id = MLME_LONG_IE_TSCH_CHANNEL_HOPPING_SEQUENCE \<and> len > 0 then do {
        b \<leftarrow> nth_opt buf 0;
        let ies = ies\<lparr> ie_channel_hopping_sequence_id := b \<rparr>;
        (if len > 1 then do {
           n \<leftarrow> READ16 buf 8;
           let ies = ies\<lparr> ie_hopping_sequence_len := n \<rparr>;
           (if unat n \<le> TSCH_HOPPING_SEQUENCE_MAX_LEN \<and> len = 12 + unat n then do {
              sq \<leftarrow> slice_opt buf 10 (unat n);
              Some (int len, ies\<lparr> ie_hopping_sequence_list := put_at (ie_hopping_sequence_list ies) 0 sq \<rparr>)
            } else Some (int len, ies))
         } else Some (int len, ies))
      } else Some (- 1, ies))"

datatype parsing_state = PARSING_HEADER_IE | PARSING_PAYLOAD_IE | PARSING_MLME_SUBIE

text \<open>
  The loop. \<open>pos\<close> is \<open>buf - start\<close>; \<open>buf_size\<close> is a \<open>uint8_t\<close> that never wraps, since what is subtracted has
  been checked against it; \<open>nested\<close> is \<open>nested_mlme_len\<close>.
\<close>

function (sequential) parse_ies_loop ::
    "parsing_state \<Rightarrow> int \<Rightarrow> nat \<Rightarrow> nat \<Rightarrow> u8 list \<Rightarrow> ieee802154_ies \<Rightarrow> (int \<times> ieee802154_ies) option" where
  "parse_ies_loop st nested pos buf_size buf ies =
     (if buf_size = 0 then
        Some (int pos, if st = PARSING_HEADER_IE then ies\<lparr> ie_payload_ie_offset := word_of_nat pos \<rparr> else ies)
      else if buf_size < 2 then Some (- 1, ies)
      else do {
        ie_desc \<leftarrow> READ16 buf 0;
        let n = buf_size - 2;
        let p = drop 2 buf;
        let typ = (ie_desc AND 0x8000 \<noteq> 0);
        (case st of
           PARSING_HEADER_IE \<Rightarrow>
             if typ then Some (- 1, ies)
             else
               (let len = unat (ie_desc AND 0x007f); ident = ucast (drop_bit 7 (ie_desc AND 0x7f80)) in
                if ident = HEADER_IE_LIST_TERMINATION_1 then
                  (if len = 0 then parse_ies_loop PARSING_PAYLOAD_IE nested (pos + 2) n p (ies\<lparr> ie_payload_ie_offset := word_of_nat (pos + 2) \<rparr>)
                   else Some (- 1, ies))
                else if ident = HEADER_IE_LIST_TERMINATION_2 then
                  (if len = 0 then Some (int (pos + 2), ies\<lparr> ie_payload_ie_offset := word_of_nat (pos + 2) \<rparr>) else Some (- 1, ies))
                else if len > n then Some (- 1, ies)
                else do {
                  (r, ies) \<leftarrow> frame802154e_parse_header_ie p len ident ies;
                  if r = - 1 then Some (- 1, ies)
                  else parse_ies_loop PARSING_HEADER_IE nested (pos + 2 + len) (n - len) (drop len p) ies
                })
         | PARSING_PAYLOAD_IE \<Rightarrow>
             if \<not> typ then Some (- 1, ies)
             else
               (let len = unat (ie_desc AND 0x7ff); ident = ucast (drop_bit 11 (ie_desc AND 0x7800)) in
                if ident = PAYLOAD_IE_MLME then parse_ies_loop PARSING_MLME_SUBIE (int len) (pos + 2) n p ies
                else if ident = PAYLOAD_IE_LIST_TERMINATION then Some (if len = 0 then int (pos + 2) else - 1, ies)
                else Some (- 1, ies))
         | PARSING_MLME_SUBIE \<Rightarrow>
             (let len = (if \<not> typ then unat (ie_desc AND 0x00ff) else unat (ie_desc AND 0x7ff));
                  ident = (if \<not> typ then ucast (drop_bit 8 (ie_desc AND 0x7f00)) else ucast (drop_bit 11 (ie_desc AND 0x7800)))
              in if len > n then Some (- 1, ies)
                 else do {
                   (r, ies) \<leftarrow> (if \<not> typ then frame802154e_parse_mlme_short_ie p len ident ies
                                else frame802154e_parse_mlme_long_ie p len ident ies);
                   if r = - 1 then Some (- 1, ies)
                   else
                     (let nested = nested - int (2 + len) in
                      if nested < 0 then Some (- 1, ies)
                      else parse_ies_loop (if nested = 0 then PARSING_PAYLOAD_IE else PARSING_MLME_SUBIE) nested
                             (pos + 2 + len) (n - len) (drop len p) ies)
                 }))
      })"
  by pat_completeness auto
termination by (relation "measure (\<lambda>(st, nested, pos, n, buf, ies). n)") auto

definition frame802154e_parse_information_elements ::
    "u8 list \<Rightarrow> u8 \<Rightarrow> ieee802154_ies option \<Rightarrow> (int \<times> ieee802154_ies option) option" where
  "frame802154e_parse_information_elements buf buf_size ies =
     (case ies of
        None \<Rightarrow> Some (- 1, None)
      | Some ies \<Rightarrow> do {
          (r, ies) \<leftarrow> parse_ies_loop PARSING_HEADER_IE 0 0 (unat buf_size) buf (ies\<lparr> ie_payload_ie_offset := 0 \<rparr>);
          Some (r, Some ies)
        })"

declare parse_ies_loop.simps [simp del]

end
