(* ===== verification/TschPacket.thy ===== *)
theory TschPacket
  imports TschSchedule Frame802154 FrameIE
begin

text \<open>
  The 802.15.4 framer (\<open>os/net/mac/framer/framer-802154.c\<close>) and the TSCH packets (\<open>os/net/mac/tsch/tsch-packet.c\<close>):
  enhanced beacons, enhanced acknowledgements and the elements inserted into important unicast packets. The
  state adds the globals of these files to the one of the schedule. A local structure that the code leaves
  uninitialised is an argument of the function.
\<close>

definition FRAMER_FAILED :: int where [simp]: "FRAMER_FAILED = - 1"
definition FRAME802154_VERSION :: u8 where [simp]: "FRAME802154_VERSION = FRAME802154_IEEE802154_2015"
definition FRAME802154_SUPPR_SEQNO :: u8 where [simp]: "FRAME802154_SUPPR_SEQNO = 0"

record net_state = sched_state +
  mac_pan_id :: u16
  linkaddr_node_addr :: linkaddr
  mac_dsn :: u8
  initialized :: bool
  eackbuf_attrs :: attrs
  sequence_number :: u16
  tsch_rank :: u8
  schedule_version :: u8
  schedule_packets :: u16
  schedule_received :: "u8 list"
  tsch_join_priority :: u8

definition frame802154_get_pan_id :: "'a net_state_scheme \<Rightarrow> u16" where
  "frame802154_get_pan_id s = mac_pan_id s"

definition frame802154_set_pan_id :: "u16 \<Rightarrow> 'a net_state_scheme \<Rightarrow> 'a net_state_scheme" where
  "frame802154_set_pan_id pan_id s = s\<lparr> mac_pan_id := pan_id \<rparr>"

subsection \<open>Framer\<close>

definition framer_802154_setup_params :: "(packetbuf_attr_type \<Rightarrow> u16) \<Rightarrow> bool \<Rightarrow> u16 \<Rightarrow> frame802154_t \<Rightarrow> frame802154_t" where
  "framer_802154_setup_params get_attr dest_is_broadcast pan_id params =
     (let fcf = fr_fcf params;
          fcf = fcf\<lparr> fcf_frame_type := ucast (get_attr PACKETBUF_ATTR_FRAME_TYPE), fcf_frame_pending := 0 \<rparr>;
          fcf = (if dest_is_broadcast
                 then fcf\<lparr> fcf_ack_required := 0,
                        fcf_sequence_number_suppression := (if FRAME802154_VERSION \<ge> FRAME802154_IEEE802154_2015 then 1 else 0) \<rparr>
                 else fcf\<lparr> fcf_ack_required := ucast (get_attr PACKETBUF_ATTR_MAC_ACK),
                        fcf_sequence_number_suppression := FRAME802154_SUPPR_SEQNO \<rparr>);
          fcf = fcf\<lparr> fcf_ie_list_present := ucast (get_attr PACKETBUF_ATTR_MAC_METADATA), fcf_frame_version := FRAME802154_VERSION,
                   fcf_security_enabled := 0 \<rparr>;
          fcf = fcf\<lparr> fcf_src_addr_mode := (if get_attr PACKETBUF_ATTR_MAC_NO_SRC_ADDR = 1 then FRAME802154_NOADDR
                                         else if LINKADDR_SIZE = 2 then FRAME802154_SHORTADDRMODE else FRAME802154_LONGADDRMODE) \<rparr>;
          fcf = fcf\<lparr> fcf_dest_addr_mode := (if get_attr PACKETBUF_ATTR_MAC_NO_DEST_ADDR = 1 then FRAME802154_NOADDR
                                          else if dest_is_broadcast then FRAME802154_SHORTADDRMODE
                                          else if LINKADDR_SIZE = 2 then FRAME802154_SHORTADDRMODE else FRAME802154_LONGADDRMODE) \<rparr>;
          fcf = fcf\<lparr> fcf_panid_compression := (if fcf_src_addr_mode fcf = FRAME802154_SHORTADDRMODE \<or>
                                                  fcf_dest_addr_mode fcf = FRAME802154_SHORTADDRMODE then 1 else 0) \<rparr>
      in params\<lparr> fr_fcf := fcf, fr_seq := ucast (get_attr PACKETBUF_ATTR_MAC_SEQNO), fr_src_pid := pan_id, fr_dest_pid := pan_id \<rparr>)"

text \<open>The structure after \<open>memset(&params, 0, sizeof(params))\<close>.\<close>

definition zero_frame :: frame802154_t where
  "zero_frame = \<lparr> fr_dest_addr = linkaddr_null, fr_src_addr = linkaddr_null,
     fr_fcf = \<lparr> fcf_frame_type = 0, fcf_security_enabled = 0, fcf_frame_pending = 0, fcf_ack_required = 0, fcf_panid_compression = 0,
       fcf_sequence_number_suppression = 0, fcf_ie_list_present = 0, fcf_dest_addr_mode = 0, fcf_frame_version = 0, fcf_src_addr_mode = 0 \<rparr>,
     fr_seq = 0, fr_dest_pid = 0, fr_src_pid = 0, fr_payload = 0, fr_payload_len = 0 \<rparr>"

definition create_frame :: "bool \<Rightarrow> 'a net_state_scheme \<Rightarrow> (int \<times> 'a net_state_scheme) option" where
  "create_frame do_create s =
     (if frame802154_get_pan_id s = 0xffff then Some (- 1, s)
      else do {
        let s = (if \<not> initialized s then (let (r, s) = random_rand (s\<lparr> initialized := True \<rparr>) in s\<lparr> mac_dsn := ucast (r AND 0xff) \<rparr>) else s);
        let s = (if do_create \<and> packetbuf_attr PACKETBUF_ATTR_MAC_SEQNO s = 0 then
                   (let s = (if mac_dsn s = 0 then s\<lparr> mac_dsn := mac_dsn s + 1 \<rparr> else s);
                        s = packetbuf_set_attr PACKETBUF_ATTR_MAC_SEQNO (ucast (mac_dsn s)) s
                    in s\<lparr> mac_dsn := mac_dsn s + 1 \<rparr>)
                 else s);
        let params = framer_802154_setup_params (\<lambda>ty. packetbuf_attr ty s) (packetbuf_holds_broadcast s) (frame802154_get_pan_id s) zero_frame;
        let params = (if packetbuf_holds_broadcast s then params\<lparr> fr_dest_addr := (fr_dest_addr params)[0 := 0xFF, 1 := 0xFF] \<rparr>
                      else params\<lparr> fr_dest_addr := packetbuf_addr PACKETBUF_ADDR_RECEIVER s \<rparr>);
        let params = params\<lparr> fr_src_addr := packetbuf_addr PACKETBUF_ADDR_SENDER s \<rparr>;
        let params = params\<lparr> fr_payload := packetbuf_dataptr s, fr_payload_len := uint (packetbuf_datalen s) \<rparr>;
        let (hdr_len, params) = frame802154_hdrlen params;
        if \<not> do_create then Some (hdr_len, s)
        else do {
          (ok, s) \<leftarrow> packetbuf_hdralloc (nat hdr_len) s;
          if ok then do {
            (_, _, pb) \<leftarrow> frame802154_create params (packetbuf s);
            Some (hdr_len, s\<lparr> packetbuf := pb \<rparr>)
          }
          else Some (FRAMER_FAILED, s)
        }
      })"

definition hdr_length :: "'a net_state_scheme \<Rightarrow> (int \<times> 'a net_state_scheme) option" where
  "hdr_length s = create_frame False s"

definition framer_create :: "'a net_state_scheme \<Rightarrow> (int \<times> 'a net_state_scheme) option" where
  "framer_create s = create_frame True s"

definition framer_parse :: "frame802154_t \<Rightarrow> 'a net_state_scheme \<Rightarrow> (int \<times> 'a net_state_scheme) option" where
  "framer_parse frame s = do {
     (hdr_len, frame) \<leftarrow> frame802154_parse (drop (packetbuf_dataptr s) (packetbuf s)) (uint (packetbuf_datalen s)) frame;
     if hdr_len = 0 then Some (FRAMER_FAILED, s)
     else
       (case packetbuf_hdrreduce (nat hdr_len) s of
          (False, s) \<Rightarrow> Some (FRAMER_FAILED, s)
        | (True, s) \<Rightarrow>
            (let fcf = fr_fcf frame;
                 s = packetbuf_set_attr PACKETBUF_ATTR_FRAME_TYPE (ucast (fcf_frame_type fcf)) s;
                 s = packetbuf_set_attr PACKETBUF_ATTR_MAC_METADATA (ucast (fcf_ie_list_present fcf)) s
             in if fcf_dest_addr_mode fcf \<noteq> 0 \<and> fr_dest_pid frame \<noteq> frame802154_get_pan_id s \<and>
                   fr_dest_pid frame \<noteq> FRAME802154_BROADCASTPANDID \<and> fcf_ie_list_present fcf \<noteq> 1
                then Some (FRAMER_FAILED, s)
                else
                  (let s = (if fcf_dest_addr_mode fcf \<noteq> 0 \<and> \<not> frame802154_is_broadcast_addr (fcf_dest_addr_mode fcf) (fr_dest_addr frame)
                            then packetbuf_set_addr PACKETBUF_ADDR_RECEIVER (fr_dest_addr frame) s else s);
                       s = packetbuf_set_addr PACKETBUF_ADDR_SENDER (fr_src_addr frame) s;
                       s = packetbuf_set_attr PACKETBUF_ATTR_MAC_SEQNO
                             (if fcf_sequence_number_suppression fcf = 0 then ucast (fr_seq frame) else 0xffff) s
                   in Some (hdr_len, s))))
   }"

subsection \<open>Enhanced acknowledgements\<close>

definition tsch_packet_eackbuf_set_attr :: "packetbuf_attr_type \<Rightarrow> u16 \<Rightarrow> 'a net_state_scheme \<Rightarrow> 'a net_state_scheme" where
  "tsch_packet_eackbuf_set_attr ty val s = s\<lparr> eackbuf_attrs := (eackbuf_attrs s)(ty := val) \<rparr>"

definition tsch_packet_eackbuf_attr :: "packetbuf_attr_type \<Rightarrow> 'a net_state_scheme \<Rightarrow> u16" where
  "tsch_packet_eackbuf_attr ty s = eackbuf_attrs s ty"

definition tsch_packet_create_eack ::
    "frame802154_t \<Rightarrow> u8 list option \<Rightarrow> u16 \<Rightarrow> linkaddr option \<Rightarrow> u8 \<Rightarrow> u16 \<Rightarrow> int \<Rightarrow> 'a net_state_scheme \<Rightarrow>
     (int \<times> u8 list option \<times> 'a net_state_scheme) option" where
  "tsch_packet_create_eack params buf buf_len dest_addr seqno drift nack s =
     (case buf of
        None \<Rightarrow> Some (- 1, None, s)
      | Some buf \<Rightarrow> do {
          let s = s\<lparr> eackbuf_attrs := \<lambda>_. 0 \<rparr>;
          let s = tsch_packet_eackbuf_set_attr PACKETBUF_ATTR_FRAME_TYPE (ucast FRAME802154_ACKFRAME) s;
          let s = tsch_packet_eackbuf_set_attr PACKETBUF_ATTR_MAC_METADATA 1 s;
          let s = tsch_packet_eackbuf_set_attr PACKETBUF_ATTR_MAC_SEQNO (ucast seqno) s;
          let s = tsch_packet_eackbuf_set_attr PACKETBUF_ATTR_MAC_NO_DEST_ADDR 1 s;
          let (params, s) = (case dest_addr of
                               Some a \<Rightarrow> (params\<lparr> fr_dest_addr := a \<rparr>, tsch_packet_eackbuf_set_attr PACKETBUF_ATTR_MAC_NO_DEST_ADDR 0 s)
                             | None \<Rightarrow> (params, s));
          let s = tsch_packet_eackbuf_set_attr PACKETBUF_ATTR_MAC_NO_SRC_ADDR 1 s;
          let params = framer_802154_setup_params (\<lambda>ty. tsch_packet_eackbuf_attr ty s) False (frame802154_get_pan_id s) params;
          let (hdr_len, params) = frame802154_hdrlen params;
          buf \<leftarrow> put_opt buf 0 (replicate (unat buf_len) 0);
          let ies = ies_zero\<lparr> ie_time_correction := drift, ie_is_nack := word_of_int nack \<rparr>;
          (ack_len, tail) \<leftarrow> frame80215e_create_ie_header_ack_nack_time_correction (drop (nat hdr_len) buf) (uint buf_len - hdr_len) (Some ies);
          let buf = take (nat hdr_len) buf @ tail;
          if ack_len < 0 then Some (- 1, Some buf, s)
          else do {
            (_, _, buf) \<leftarrow> frame802154_create params buf;
            Some (ack_len + hdr_len, Some buf, s)
          }
        })"

text \<open>
  The parsers return the parsed length, the frame, the elements, and the header length for the caller that asks for
  it; adding the payload offset to it dereferences \<open>ies\<close>.
\<close>

definition add_payload_offset :: "u8 option \<Rightarrow> ieee802154_ies option \<Rightarrow> u8 option option" where
  "add_payload_offset hdr_len ies =
     (case hdr_len of None \<Rightarrow> Some None | Some h \<Rightarrow> do { i \<leftarrow> ies; Some (Some (h + ie_payload_ie_offset i)) })"

definition tsch_packet_parse_eack ::
    "u8 list \<Rightarrow> int \<Rightarrow> u8 \<Rightarrow> frame802154_t option \<Rightarrow> ieee802154_ies option \<Rightarrow> bool \<Rightarrow> linkaddr \<Rightarrow> 'a net_state_scheme \<Rightarrow>
     (int \<times> frame802154_t option \<times> ieee802154_ies option \<times> u8 option) option" where
  "tsch_packet_parse_eack buf buf_size seqno frame ies want_hdr_len dest s =
     (case frame of
        None \<Rightarrow> Some (0, None, ies, None)
      | Some fr \<Rightarrow>
          if buf_size < 0 then Some (0, Some fr, ies, None)
          else do {
            (ret, fr) \<leftarrow> frame802154_parse buf buf_size fr;
            if ret < 3 then Some (0, Some fr, ies, None)
            else do {
              let hdr_len = (if want_hdr_len then Some (word_of_int ret) else None);
              let curr_len = (word_of_int ret :: u8);
              if seqno \<noteq> fr_seq fr then Some (0, Some fr, ies, hdr_len)
              else if \<not> frame802154_check_dest_panid (frame802154_get_pan_id s) (Some fr) then Some (0, Some fr, ies, hdr_len)
              else
                (case frame802154_extract_linkaddr (Some fr) linkaddr_null dest of
                   (ok, _, dest) \<Rightarrow>
                     if \<not> ok \<or> \<not> linkaddr_cmp dest (linkaddr_node_addr s) \<and> \<not> linkaddr_cmp dest linkaddr_null
                     then Some (0, Some fr, ies, hdr_len)
                     else do {
                       let ies = map_option (\<lambda>_. ies_zero) ies;
                       (ok, curr_len, ies) \<leftarrow>
                         (if fcf_ie_list_present (fr_fcf fr) \<noteq> 0 then do {
                            (ret, ies) \<leftarrow> frame802154e_parse_information_elements (drop (unat curr_len) buf)
                                           (word_of_int (buf_size - uint curr_len)) ies;
                            Some (ret \<noteq> - 1, curr_len + word_of_int ret, ies)
                          }
                          else Some (True, curr_len, ies));
                       if \<not> ok then Some (0, Some fr, ies, hdr_len)
                       else do {
                         hdr_len \<leftarrow> add_payload_offset hdr_len ies;
                         Some (uint curr_len, Some fr, ies, hdr_len)
                       }
                     })
            }
          })"

subsection \<open>Enhanced beacons\<close>

type_synonym ie_creator = "u8 list \<Rightarrow> int \<Rightarrow> ieee802154_ies option \<Rightarrow> (int \<times> u8 list) option"

text \<open>A creator called with the pointer \<open>packetbuf + off\<close> and the remaining length.\<close>

definition create_ie_at :: "ie_creator \<Rightarrow> nat \<Rightarrow> ieee802154_ies \<Rightarrow> 'a pbuf_state_scheme \<Rightarrow> (int \<times> 'a pbuf_state_scheme) option" where
  "create_ie_at create off ies s = do {
     (ie_len, tail) \<leftarrow> create (drop off (packetbuf s)) (uint (packetbuf_remaininglen s)) (Some ies);
     Some (ie_len, s\<lparr> packetbuf := take off (packetbuf s) @ tail \<rparr>)
   }"

text \<open>
  The elements are stored one after the other: create, stop with failure if there is no space, advance the pointer
  \<open>p\<close> and the length of the data.
\<close>

fun add_ies :: "ie_creator list \<Rightarrow> nat \<Rightarrow> ieee802154_ies \<Rightarrow> 'a pbuf_state_scheme \<Rightarrow> (bool \<times> 'a pbuf_state_scheme) option" where
  "add_ies [] p ies s = Some (True, s)"
| "add_ies (create # cs) p ies s = do {
     (ie_len, s) \<leftarrow> create_ie_at create p ies s;
     if ie_len < 0 then Some (False, s)
     else add_ies cs (p + nat ie_len) ies (packetbuf_set_datalen (packetbuf_datalen s + word_of_int ie_len) s)
   }"

definition create_schedule_received :: ie_creator where
  "create_schedule_received buf len ies = frame80215e_create_ie_schedule_received buf len ies (word_of_nat FRAME802154E_IE_SCHEDULE_BIT_VECTOR)"

definition eb_creators :: "ie_creator list" where
  "eb_creators =
     [frame80215e_create_ie_tsch_synchronization, frame80215e_create_ie_tsch_timeslot, frame80215e_create_ie_tsch_channel_hopping_sequence,
      frame80215e_create_ie_tsch_slotframe_and_link, frame80215e_create_ie_tsch_neighbor_discovery, frame80215e_create_ie_tsch_rank,
      frame80215e_create_ie_time_source, frame80215e_create_ie_schedule_version, frame80215e_create_ie_schedule_packets,
      create_schedule_received]"

text \<open>\<open>memmove(dataptr + n, dataptr, datalen)\<close>.\<close>

definition packetbuf_shift_data :: "nat \<Rightarrow> 'a pbuf_state_scheme \<Rightarrow> 'a pbuf_state_scheme option" where
  "packetbuf_shift_data n s = do {
     d \<leftarrow> slice_opt (packetbuf s) (packetbuf_dataptr s) (unat (packetbuf_datalen s));
     pb \<leftarrow> put_opt (packetbuf s) (packetbuf_dataptr s + n) d;
     Some (s\<lparr> packetbuf := pb \<rparr>)
   }"

definition prepare_eb_ies :: "'a net_state_scheme \<Rightarrow> (ieee802154_ies \<times> 'a net_state_scheme) option" where
  "prepare_eb_ies s = do {
     let s = s\<lparr> sequence_number := sequence_number s + 1 \<rparr>;
     let ies = ies_zero\<lparr> ie_sequence_number := sequence_number s, ie_rank := tsch_rank s \<rparr>;
     let time_source = tsch_queue_get_time_source s;
     ts \<leftarrow> (if tsch_is_coordinator s then nth_opt (linkaddr_node_addr s) NODE_ID_INDEX
            else do { n \<leftarrow> time_source; nth_opt (n_addr (nbr s n)) NODE_ID_INDEX });
     received \<leftarrow> slice_opt (schedule_received s) 0 FRAME802154E_IE_SCHEDULE_BIT_VECTOR;
     Some (ies\<lparr> ie_time_source := ts, ie_schedule_version := schedule_version s, ie_schedule_packets := schedule_packets s,
            ie_schedule_received := received \<rparr>, s)
   }"

text \<open>The result is the length of the frame, with the header length and the offset of the synchronisation element.\<close>

definition tsch_packet_create_eb :: "'a net_state_scheme \<Rightarrow> (int \<times> (u8 \<times> u8) option \<times> 'a net_state_scheme) option" where
  "tsch_packet_create_eb s = do {
     let payload_ie_hdr_len = 2;
     let s = packetbuf_clear s;
     (ies, s) \<leftarrow> prepare_eb_ies s;
     (ok, s) \<leftarrow> add_ies eb_creators (packetbuf_dataptr s) ies s;
     if \<not> ok then Some (- 1, None, s)
     else do {
       let ies = ies\<lparr> ie_mlme_len := packetbuf_datalen s \<rparr>;
       s \<leftarrow> packetbuf_shift_data payload_ie_hdr_len s;
       let s = packetbuf_set_datalen (packetbuf_datalen s + word_of_nat payload_ie_hdr_len) s;
       (ie_len, s) \<leftarrow> create_ie_at frame80215e_create_ie_mlme (packetbuf_dataptr s) ies s;
       if ie_len < 0 then Some (- 1, None, s)
       else do {
         (_, s) \<leftarrow> packetbuf_hdralloc 2 s;
         (ie_len, s) \<leftarrow> create_ie_at frame80215e_create_ie_header_list_termination_1 (packetbuf_hdrptr s) ies s;
         if ie_len < 0 then Some (- 1, None, s)
         else do {
           let s = packetbuf_set_attr PACKETBUF_ATTR_FRAME_TYPE (ucast FRAME802154_BEACONFRAME) s;
           let s = packetbuf_set_attr PACKETBUF_ATTR_MAC_METADATA 1 s;
           let s = packetbuf_set_addr PACKETBUF_ADDR_SENDER (linkaddr_node_addr s) s;
           let s = packetbuf_set_addr PACKETBUF_ADDR_RECEIVER tsch_eb_address s;
           (r, s) \<leftarrow> framer_create s;
           if r < 0 then Some (- 1, None, s)
           else Some (uint (packetbuf_totlen s), Some (packetbuf_hdrlen s, packetbuf_hdrlen s + word_of_nat payload_ie_hdr_len), s)
         }
       }
     }
   }"

definition tsch_packet_create_unicast :: "'a net_state_scheme \<Rightarrow> (int \<times> 'a net_state_scheme) option" where
  "tsch_packet_create_unicast s = do {
     let payload_ie_hdr_len = 2;
     let payload_ie_len = 3;
     let payload_ie_termination2 = 2;
     let ies = ies_zero\<lparr> ie_overhearing := 1, ie_mlme_len := word_of_nat payload_ie_len \<rparr>;
     s \<leftarrow> packetbuf_shift_data (payload_ie_hdr_len + payload_ie_len + payload_ie_termination2) s;
     let s = packetbuf_set_datalen (packetbuf_datalen s + word_of_nat (payload_ie_hdr_len + payload_ie_len + payload_ie_termination2)) s;
     (ie_len, s) \<leftarrow> create_ie_at frame80215e_create_ie_mlme (packetbuf_dataptr s) ies s;
     if ie_len < 0 then Some (- 1, s)
     else do {
       (ie_len, s) \<leftarrow> create_ie_at frame80215e_create_ie_overhearing (packetbuf_dataptr s + payload_ie_hdr_len) ies s;
       if ie_len < 0 then Some (- 1, s)
       else do {
         (ie_len, s) \<leftarrow> create_ie_at frame80215e_create_ie_payload_list_termination (packetbuf_dataptr s + payload_ie_hdr_len + payload_ie_len) ies s;
         if ie_len < 0 then Some (- 1, s)
         else do {
           (_, s) \<leftarrow> packetbuf_hdralloc 2 s;
           (ie_len, s) \<leftarrow> create_ie_at frame80215e_create_ie_header_list_termination_1 (packetbuf_hdrptr s) ies s;
           Some (if ie_len < 0 then - 1 else 1, s)
         }
       }
     }
   }"

definition tsch_packet_update_eb :: "u8 list \<Rightarrow> int \<Rightarrow> u8 \<Rightarrow> 'a net_state_scheme \<Rightarrow> (int \<times> u8 list) option" where
  "tsch_packet_update_eb buf buf_size tsch_sync_ie_offset s = do {
     let ies = ies_zero\<lparr> ie_asn := tsch_current_asn s, ie_join_priority := tsch_join_priority s \<rparr>;
     guard_opt (unat tsch_sync_ie_offset \<le> length buf);
     (_, tail) \<leftarrow> frame80215e_create_ie_tsch_synchronization (drop (unat tsch_sync_ie_offset) buf) (buf_size - uint tsch_sync_ie_offset) (Some ies);
     Some (1, take (unat tsch_sync_ie_offset) buf @ tail)
   }"

definition tsch_packet_parse_eb ::
    "u8 list \<Rightarrow> int \<Rightarrow> frame802154_t option \<Rightarrow> ieee802154_ies option \<Rightarrow> bool \<Rightarrow>
     (int \<times> frame802154_t option \<times> ieee802154_ies option \<times> u8 option) option" where
  "tsch_packet_parse_eb buf buf_size frame ies want_hdr_len =
     (case frame of
        None \<Rightarrow> Some (0, None, ies, None)
      | Some fr \<Rightarrow>
          if buf_size < 0 then Some (0, Some fr, ies, None)
          else do {
            (ret, fr) \<leftarrow> frame802154_parse buf buf_size fr;
            if ret = 0 then Some (0, Some fr, ies, None)
            else if fcf_frame_version (fr_fcf fr) < FRAME802154_IEEE802154_2015 \<or> fcf_frame_type (fr_fcf fr) \<noteq> FRAME802154_BEACONFRAME
            then Some (0, Some fr, ies, None)
            else do {
              let hdr_len = (if want_hdr_len then Some (word_of_int ret) else None);
              let curr_len = (word_of_int ret :: u8);
              let ies = map_option (\<lambda>_. ies_zero\<lparr> ie_join_priority := 0xff \<rparr>) ies;
              (ok, curr_len, ies) \<leftarrow>
                (if fcf_ie_list_present (fr_fcf fr) \<noteq> 0 then do {
                   (ret, ies) \<leftarrow> frame802154e_parse_information_elements (drop (unat curr_len) buf)
                                  (word_of_int (buf_size - uint curr_len)) ies;
                   Some (ret \<noteq> - 1, curr_len + word_of_int ret, ies)
                 }
                 else Some (True, curr_len, ies));
              if \<not> ok then Some (0, Some fr, ies, hdr_len)
              else do {
                hdr_len \<leftarrow> add_payload_offset hdr_len ies;
                Some (uint curr_len, Some fr, ies, hdr_len)
              }
            }
          })"

end
