(* ===== verification/Floats.thy ===== *)
theory Floats
  imports Complex_Main "HOL-Library.Log_Nat"
begin

text \<open>
  The floating-point arithmetic the sources use (\<open>float\<close> and \<open>double\<close> of non-negative values in the normal
  range): every operation rounds the exact result to the nearest number with 24 or 53 significant bits, ties
  to even. A value is the rational number it denotes, so the definitions are executable.
\<close>

subsection \<open>Rounding\<close>

definition round_half_even :: "rat \<Rightarrow> int" where
  "round_half_even x = (let f = \<lfloor>x\<rfloor>; d = x - of_int f in
     if d < 1 / 2 \<or> d = 1 / 2 \<and> even f then f else f + 1)"

definition exponent2 :: "rat \<Rightarrow> int" where
  "exponent2 x = (let (a, b) = quotient_of x; e = int (floorlog 2 (nat a)) - int (floorlog 2 (nat b)) in
     if 2 powi e \<le> x then e else e - 1)"

definition round_to :: "nat \<Rightarrow> rat \<Rightarrow> rat" where
  "round_to p x = (if x = 0 then 0
     else (let k = exponent2 x - (int p - 1) in of_int (round_half_even (x * 2 powi (- k))) * 2 powi k))"

definition fdiv :: "rat \<Rightarrow> rat \<Rightarrow> rat" where "fdiv x y = round_to 24 (x / y)"
definition ddiv :: "rat \<Rightarrow> rat \<Rightarrow> rat" where "ddiv x y = round_to 53 (x / y)"
definition dmul :: "rat \<Rightarrow> rat \<Rightarrow> rat" where "dmul x y = round_to 53 (x * y)"

subsection \<open>The rounding error\<close>

lemma round_half_even_error: "\<bar>of_int (round_half_even x) - x\<bar> \<le> 1 / 2"
proof -
  have "of_int \<lfloor>x\<rfloor> \<le> x" "x < of_int \<lfloor>x\<rfloor> + 1" by linarith+
  then show ?thesis by (auto simp: round_half_even_def Let_def)
qed

lemma floorlog2_bounds: "0 < n \<Longrightarrow> 2 ^ (floorlog 2 n - 1) \<le> n \<and> n < 2 ^ floorlog 2 n"
  using floorlog_bounds [of n 2] by simp

lemma exponent2_le:
  assumes "0 < x"
  shows "2 powi exponent2 x \<le> x"
proof -
  obtain a b where q: "quotient_of x = (a, b)" by fastforce
  have b: "0 < b" using quotient_of_denom_pos [OF q] .
  have x: "x = of_int a / of_int b" using quotient_of_div [OF q] .
  then have a: "0 < a" using assms b by (simp add: zero_less_divide_iff)
  let ?m = "floorlog 2 (nat a)" and ?n = "floorlog 2 (nat b)"
  have m: "2 ^ (?m - 1) \<le> nat a" "0 < ?m" using floorlog2_bounds [of "nat a"] a by (auto simp: floorlog_def)
  have n: "nat b < 2 ^ ?n" using floorlog2_bounds [of "nat b"] b by auto
  have "(2 :: rat) powi (int ?m - int ?n - 1) = 2 ^ (?m - 1) / 2 ^ ?n"
    using m(2) by (simp add: power_int_diff power_diff)
  also have "\<dots> \<le> of_int a / of_int b"
  proof (rule frac_le)
    have "(2 :: int) ^ (?m - 1) \<le> a" using m(1) a by (metis int_nat_eq of_nat_le_iff of_nat_numeral of_nat_power order_less_imp_le)
    then show "(2 :: rat) ^ (?m - 1) \<le> of_int a" by (metis of_int_le_iff of_int_numeral of_int_power)
    have "b < (2 :: int) ^ ?n" using n b by (metis int_nat_eq of_nat_less_iff of_nat_numeral of_nat_power order_less_imp_le)
    then show "of_int b \<le> (2 :: rat) ^ ?n" by (metis less_imp_le of_int_less_iff of_int_numeral of_int_power)
  qed (use a b in simp_all)
  finally show ?thesis unfolding x [symmetric] by (simp add: exponent2_def q Let_def)
qed

lemma round_to_error:
  assumes "0 < x"
  shows "\<bar>round_to p x - x\<bar> \<le> x / 2 ^ p"
proof -
  let ?k = "exponent2 x - (int p - 1)"
  let ?y = "x * 2 powi (- ?k)"
  have "(2 :: rat) powi (- ?k) * 2 powi ?k = 1" by (subst power_int_add [symmetric]) simp_all
  then have y: "x = ?y * 2 powi ?k" by (simp only: mult.assoc mult_1_right)
  have "round_to p x - x = (of_int (round_half_even ?y) - ?y) * 2 powi ?k"
    using assms by (subst (2) y) (simp add: round_to_def Let_def left_diff_distrib)
  then have "\<bar>round_to p x - x\<bar> \<le> 1 / 2 * 2 powi ?k"
    using round_half_even_error [of ?y] by (simp add: abs_mult mult_right_mono)
  also have "1 / 2 * (2 :: rat) powi ?k = 2 powi exponent2 x / 2 ^ p"
    by (simp add: power_int_diff power_int_add)
  also have "\<dots> \<le> x / 2 ^ p" using exponent2_le [OF assms] by (simp add: divide_right_mono)
  finally show ?thesis .
qed

subsection \<open>Evaluation\<close>

text \<open>The exponent is the one with \<open>2 ^ e \<le> x < 2 ^ (e + 1)\<close>, so a rounding is determined by its distance to the result.\<close>

lemma exponent2_less:
  assumes "0 < x"
  shows "x < 2 powi (exponent2 x + 1)"
proof -
  obtain a b where q: "quotient_of x = (a, b)" by fastforce
  have b: "0 < b" using quotient_of_denom_pos [OF q] .
  have x: "x = of_int a / of_int b" using quotient_of_div [OF q] .
  then have a: "0 < a" using assms b by (simp add: zero_less_divide_iff)
  let ?m = "floorlog 2 (nat a)" and ?n = "floorlog 2 (nat b)"
  have m: "nat a < 2 ^ ?m" using floorlog2_bounds [of "nat a"] a by auto
  have n: "2 ^ (?n - 1) \<le> nat b" "0 < ?n" using floorlog2_bounds [of "nat b"] b by (auto simp: floorlog_def)
  have "of_int a / of_int b < (2 :: rat) ^ ?m / 2 ^ (?n - 1)"
  proof (rule frac_less)
    have "a < (2 :: int) ^ ?m" using m a by (metis int_nat_eq of_nat_less_iff of_nat_numeral of_nat_power order_less_imp_le)
    then show "of_int a < (2 :: rat) ^ ?m" by (metis of_int_less_iff of_int_numeral of_int_power)
    have "(2 :: int) ^ (?n - 1) \<le> b" using n(1) b by (metis int_nat_eq of_nat_le_iff of_nat_numeral of_nat_power order_less_imp_le)
    then show "(2 :: rat) ^ (?n - 1) \<le> of_int b" by (metis of_int_le_iff of_int_numeral of_int_power)
  qed (use a b in simp_all)
  also have "\<dots> = 2 powi (int ?m - int ?n + 1)"
    using n(2) by (simp add: power_int_diff power_int_add power_diff)
  finally show ?thesis unfolding x [symmetric] by (simp add: exponent2_def q Let_def not_le)
qed

lemma exponent2_eqI:
  assumes "2 powi e \<le> x" "x < 2 powi (e + 1)"
  shows "exponent2 x = e"
proof -
  have p: "0 < x" using assms(1) by (meson less_le_trans zero_less_numeral zero_less_power_int)
  have less: "(2 :: rat) powi i < 2 powi j \<Longrightarrow> i < j" for i j
    by (rule ccontr) (simp add: not_less power_int_increasing leD)
  have "e < exponent2 x + 1" by (rule less [OF le_less_trans [OF assms(1) exponent2_less [OF p]]])
  moreover have "exponent2 x < e + 1" by (rule less [OF le_less_trans [OF exponent2_le [OF p] assms(2)]])
  ultimately show ?thesis by linarith
qed

lemma round_to_eqI:
  assumes "2 powi (k + int p - 1) \<le> x" "x < 2 powi (k + int p)" "2 * \<bar>x * 2 powi (- k) - of_int m\<bar> < 1"
  shows "round_to p x = of_int m * 2 powi k"
proof -
  have e: "exponent2 x = k + int p - 1" using exponent2_eqI [of "k + int p - 1" x] assms(1,2) by simp
  let ?y = "x * 2 powi (- k)"
  define y where "y = ?y"
  have d: "2 * \<bar>y - of_int m\<bar> < 1" using assms(3) by (simp add: y_def)
  then have "\<lfloor>y\<rfloor> = m \<or> \<lfloor>y\<rfloor> = m - 1" by (cases "of_int m \<le> y") (auto simp: floor_eq_iff abs_if split: if_splits)
  then have r: "round_half_even ?y = m" using d unfolding y_def [symmetric]
    by (auto simp: round_half_even_def Let_def abs_if split: if_splits)
  have "x \<noteq> 0" using assms(1) by (metis less_le_not_le zero_less_numeral zero_less_power_int)
  then show ?thesis using r by (simp add: round_to_def e Let_def)
qed

end
