(* ===== verification/Tsch.thy ===== *)
theory Tsch
  imports TschPacket Floats
begin

text \<open>
  The TSCH MAC layer (\<open>os/net/mac/tsch/tsch.c\<close>) with the duplicate filter it uses (\<open>os/net/mac/mac-sequence.c\<close>)
  and the synchronisation of the slot operation. The state adds the globals of \<open>tsch.c\<close>; the clocks are fields
  of it. The functions the MAC layer calls through pointers are parameters: the sent callback of a packet
  (\<open>cb\<close>), the input function of the network layer (\<open>net_input\<close>) and the two callbacks of the routing layer
  for beacons (\<open>diff_cb\<close>, \<open>recv_cb\<close>). Posted events and started processes are appended to \<open>events\<close>.
\<close>

subsection \<open>State\<close>

type_synonym u64 = "64 word"

text \<open>\<open>unsigned long\<close>, of 32 bits.\<close>

type_synonym clock_time_t = u32

record input_packet =
  ip_payload :: "u8 list"
  ip_rx_asn :: tsch_asn_t
  ip_len :: int
  ip_rssi :: u16
  ip_channel :: u8

record seqno =
  sq_sender :: linkaddr
  sq_timestamp :: clock_time_t
  sq_seqno :: u8

datatype sys_event =
    EV_POLL_TSCH_PROCESS
  | EV_POLL_PENDING_EVENTS
  | EV_ASSOCIATED_TO_NETWORK
  | EV_START_TSCH_PROCESSES
  | EV_STOP_TSCH_TIMER
  | EV_START_SERIAL_LINE_SCHEDULE_INPUT
  | EV_START_DISTRIBUTOR_CALLBACK
  | EV_PRINT string
  | EV_DELIVER "u8 list" u16 u8 u8

record mac_state = net_state +
  tsch_is_started :: bool
  tsch_is_initialized :: bool
  tsch_association_count :: int
  tsch_is_pan_secured :: u8
  tsch_packet_seqno :: u8
  tsch_current_eb_period :: clock_time_t
  tsch_timing :: "u64 list"
  tsch_hopping_sequence :: "u8 list"
  tsch_hopping_sequence_length :: tsch_asn_divisor_t
  last_eb_nbr_addr :: linkaddr
  last_eb_nbr_jp :: u8
  tx_count :: clock_time_t
  rx_count :: clock_time_t
  sync_count :: clock_time_t
  tsch_change_time_source_active :: u8
  schedule_difference_callback :: bool
  schedule_received_callback :: bool
  dont_inc_first_beacons :: u8
  input_array :: "input_packet list"
  input_ringbuf :: ringbufindex
  dequeued_array :: "nat option list"
  dequeued_ringbuf :: ringbufindex
  current_slot_start :: u64
  last_sync_asn :: tsch_asn_t
  last_sync_time :: clock_time_t
  received_seqnos :: "seqno list"
  clock_time :: clock_time_t
  rtimer_now :: u64
  events :: "sys_event list"

definition post_event :: "sys_event \<Rightarrow> 'a mac_state_scheme \<Rightarrow> 'a mac_state_scheme" where
  "post_event e s = s\<lparr> events := events s @ [e] \<rparr>"

definition CLOCK_SECOND :: nat where [simp]: "CLOCK_SECOND = 1000"
definition RTIMER_SECOND :: nat where [simp]: "RTIMER_SECOND = 1000000"
definition TSCH_EB_PERIOD :: clock_time_t where [simp]: "TSCH_EB_PERIOD = 4 * 1000"
definition TSCH_MAX_EB_PERIOD :: clock_time_t where [simp]: "TSCH_MAX_EB_PERIOD = 4 * 1000"
definition TSCH_MAX_JOIN_PRIORITY :: u8 where [simp]: "TSCH_MAX_JOIN_PRIORITY = 32"
definition TSCH_MAX_INCOMING_PACKETS :: u8 where [simp]: "TSCH_MAX_INCOMING_PACKETS = 4"
definition TSCH_DEQUEUED_ARRAY_SIZE :: u8 where [simp]: "TSCH_DEQUEUED_ARRAY_SIZE = 8"
definition tsch_ts_tx_offset :: nat where [simp]: "tsch_ts_tx_offset = 2"
definition tsch_ts_timeslot_length :: nat where [simp]: "tsch_ts_timeslot_length = 11"
definition SEQNO_MAX_AGE :: clock_time_t where [simp]: "SEQNO_MAX_AGE = 20 * 1000"
definition MAX_SEQNOS :: nat where [simp]: "MAX_SEQNOS = 16"

definition TSCH_DEFAULT_HOPPING_SEQUENCE :: "u8 list" where
  "TSCH_DEFAULT_HOPPING_SEQUENCE = [15, 25, 26, 20]"

text \<open>In microseconds, which on this platform are the ticks of the real-time timer.\<close>

definition tsch_default_timing_us :: "u64 list" where
  "tsch_default_timing_us = [1800, 128, 2120, 2120 - 2200 div 2, 800, 1000, 2200, 400, 192, 2400, 4256, 10000]"

subsection \<open>Setters\<close>

definition tsch_set_schedule_difference_callback :: "bool \<Rightarrow> 'a mac_state_scheme \<Rightarrow> 'a mac_state_scheme" where
  "tsch_set_schedule_difference_callback callback s = s\<lparr> schedule_difference_callback := callback \<rparr>"

definition tsch_set_schedule_received_callback :: "bool \<Rightarrow> 'a mac_state_scheme \<Rightarrow> 'a mac_state_scheme" where
  "tsch_set_schedule_received_callback callback s = s\<lparr> schedule_received_callback := callback \<rparr>"

definition tsch_reset_schedule_received_callback :: "'a mac_state_scheme \<Rightarrow> 'a mac_state_scheme" where
  "tsch_reset_schedule_received_callback s = s\<lparr> schedule_received_callback := False \<rparr>"

definition tsch_set_eb_period :: "clock_time_t \<Rightarrow> 'a mac_state_scheme \<Rightarrow> 'a mac_state_scheme" where
  "tsch_set_eb_period period s = s\<lparr> tsch_current_eb_period := min period TSCH_MAX_EB_PERIOD \<rparr>"

definition tsch_set_coordinator :: "bool \<Rightarrow> 'a mac_state_scheme \<Rightarrow> 'a mac_state_scheme" where
  "tsch_set_coordinator enable s =
     (let s = (if tsch_is_coordinator s \<noteq> enable then s\<lparr> tsch_is_associated := False \<rparr> else s);
          s = s\<lparr> tsch_is_coordinator := enable \<rparr>
      in tsch_set_eb_period TSCH_EB_PERIOD s)"

definition tsch_set_rank :: "int \<Rightarrow> 'a mac_state_scheme \<Rightarrow> 'a mac_state_scheme" where
  "tsch_set_rank r s = s\<lparr> tsch_rank := word_of_int r \<rparr>"

definition tsch_set_pan_secured :: "bool \<Rightarrow> 'a mac_state_scheme \<Rightarrow> 'a mac_state_scheme" where
  "tsch_set_pan_secured enable s = s\<lparr> tsch_is_pan_secured := 0 \<rparr>"

definition tsch_set_join_priority :: "u8 \<Rightarrow> 'a mac_state_scheme \<Rightarrow> 'a mac_state_scheme" where
  "tsch_set_join_priority jp s = s\<lparr> tsch_join_priority := jp \<rparr>"

definition tsch_disassociate :: "'a mac_state_scheme \<Rightarrow> 'a mac_state_scheme" where
  "tsch_disassociate s =
     (if tsch_is_associated s then post_event EV_POLL_TSCH_PROCESS (s\<lparr> tsch_is_associated := False \<rparr>) else s)"

definition tsch_slot_operation_sync :: "u64 \<Rightarrow> tsch_asn_t \<Rightarrow> 'a mac_state_scheme \<Rightarrow> 'a mac_state_scheme" where
  "tsch_slot_operation_sync next_slot_start next_slot_asn s =
     (let s = s\<lparr> current_slot_start := next_slot_start, tsch_current_asn := next_slot_asn \<rparr>
      in s\<lparr> last_sync_asn := tsch_current_asn s, last_sync_time := clock_time s, current_link := None \<rparr>)"

subsection \<open>Neighbour discovery\<close>

text \<open>
  \<open>(int) (1000 * (1.0 / ((float) count / last_eb)))\<close>. A sequence number that has wrapped to zero makes the
  division infinite and its reciprocal zero.
\<close>

definition etx_of_beacons :: "u16 \<Rightarrow> u16 \<Rightarrow> int" where
  "etx_of_beacons count last_eb =
     (if last_eb = 0 then 0 else \<lfloor>dmul 1000 (ddiv 1 (fdiv (of_int (uint count)) (of_int (uint last_eb))))\<rfloor>)"

definition neighbor_discovery_input :: "u16 \<Rightarrow> nat option \<Rightarrow> 'a mac_state_scheme \<Rightarrow> 'a mac_state_scheme" where
  "neighbor_discovery_input data n s =
     (case n of
        None \<Rightarrow> s
      | Some n \<Rightarrow>
          if data = n_last_eb (nbr s n) then s
          else
            (let x = nbr s n;
                 x = x\<lparr> n_missed_ebs := n_missed_ebs x + (data - (n_last_eb x + 1)), n_last_eb := data, n_count := n_count x + 1 \<rparr>;
                 current_etx = etx_of_beacons (n_count x) (n_last_eb x);
                 current_etx = (if current_etx > 30000 then 25555 else current_etx)
             in set_nbr n (x\<lparr> n_etx_link := word_of_int current_etx \<rparr>) s))"

subsection \<open>Duplicate filter\<close>

definition mac_sequence_is_duplicate :: "'a mac_state_scheme \<Rightarrow> bool" where
  "mac_sequence_is_duplicate s =
     (case find (\<lambda>q. linkaddr_cmp (packetbuf_addr PACKETBUF_ADDR_SENDER s) (sq_sender q)) (received_seqnos s) of
        None \<Rightarrow> False
      | Some q \<Rightarrow> packetbuf_attr PACKETBUF_ATTR_MAC_SEQNO s = ucast (sq_seqno q) \<and> clock_time s - sq_timestamp q \<le> SEQNO_MAX_AGE)"

text \<open>The entry of the sender, or the last one, is removed and the new entry put in front.\<close>

definition mac_sequence_register_seqno :: "'a mac_state_scheme \<Rightarrow> 'a mac_state_scheme" where
  "mac_sequence_register_seqno s =
     (let sender = packetbuf_addr PACKETBUF_ADDR_SENDER s;
          k = length (takeWhile (\<lambda>q. \<not> linkaddr_cmp sender (sq_sender q)) (received_seqnos s));
          i = (if k < MAX_SEQNOS then k + 1 else MAX_SEQNOS);
          q = \<lparr> sq_sender = sender, sq_timestamp = clock_time s, sq_seqno = ucast (packetbuf_attr PACKETBUF_ATTR_MAC_SEQNO s) \<rparr>
      in s\<lparr> received_seqnos := q # take (i - 1) (received_seqnos s) @ drop i (received_seqnos s) \<rparr>)"

subsection \<open>Keep-alive messages\<close>

text \<open>
  \<open>link_stats\<close> stands for \<open>link_stats_packet_sent\<close>. The new time source may be missing when the update failed.
\<close>

definition keepalive_packet_sent ::
    "(linkaddr \<Rightarrow> u8 \<Rightarrow> u8 \<Rightarrow> 'a mac_state_scheme \<Rightarrow> 'a mac_state_scheme) \<Rightarrow> u8 \<Rightarrow> u8 \<Rightarrow> 'a mac_state_scheme \<Rightarrow> 'a mac_state_scheme option" where
  "keepalive_packet_sent link_stats status transmissions s = do {
     let s = link_stats (packetbuf_addr PACKETBUF_ADDR_RECEIVER s) status transmissions s;
     if status \<noteq> MAC_TX_OK then
       if linkaddr_cmp (last_eb_nbr_addr s) linkaddr_null
       then tsch_schedule_keepalive (if sync_count s = 0 then tsch_disassociate s else s)
       else do {
         (_, s) \<leftarrow> tsch_queue_update_time_source (Some (last_eb_nbr_addr s)) s;
         time_source \<leftarrow> tsch_queue_get_time_source s;
         let s = s\<lparr> tsch_rank := n_rank (nbr s time_source) + 1 \<rparr>;
         let s = s\<lparr> tsch_join_priority := last_eb_nbr_jp s + 1 \<rparr>;
         Some (tsch_schedule_keepalive_immediately s)
       }
     else tsch_schedule_keepalive s
   }"

text \<open>\<open>mac_send\<close> stands for the \<open>send\<close> function of the MAC driver, called with the callback \<open>keepalive_packet_sent\<close>.\<close>

definition keepalive_send ::
    "(mac_callback_t \<Rightarrow> 'a mac_state_scheme \<Rightarrow> 'a mac_state_scheme option) \<Rightarrow> 'a mac_state_scheme \<Rightarrow> 'a mac_state_scheme option" where
  "keepalive_send mac_send s =
     (if tsch_is_associated s then
        (case tsch_queue_get_time_source s of
           Some n \<Rightarrow>
             (let s = packetbuf_clear s;
                  s = packetbuf_set_addr PACKETBUF_ADDR_RECEIVER (n_addr (nbr s n)) s
              in mac_send KEEPALIVE_PACKET_SENT s)
         | None \<Rightarrow> Some s)
      else Some s)"

subsection \<open>Beacons from neighbours\<close>

text \<open>
  The time source is looked up again for each comparison; a node without one that reaches the comparison
  dereferences a null pointer.
\<close>

definition better_time_source :: "nat \<Rightarrow> 'a mac_state_scheme \<Rightarrow> bool option" where
  "better_time_source n s =
     (if \<not> tsch_is_coordinator s \<and> linkaddr_node_addr s ! NODE_ID_INDEX \<noteq> MASTER_TSCH_DISTRIBUTOR \<and> n_etx_link (nbr s n) \<noteq> 0 \<and>
         n_addr (nbr s n) ! NODE_ID_INDEX \<noteq> MASTER_TSCH_DISTRIBUTOR
      then do {
        t \<leftarrow> tsch_queue_get_time_source s;
        if linkaddr_cmp (n_addr (nbr s n)) (n_addr (nbr s t)) then Some False
        else
          (let nbr_closer_to_cpan = (n_rank (nbr s n) < n_rank (nbr s t) \<and> n_etx_link (nbr s n) < 2000);
               nbr_is_better = (n_rank (nbr s n) = tsch_rank s \<and> n_etx_link (nbr s n) < n_etx_link (nbr s t) \<and> n_etx_link (nbr s t) > 2000)
           in Some (tsch_change_time_source_active s \<noteq> 0 \<and> (nbr_closer_to_cpan \<or> nbr_is_better)))
      }
      else Some False)"

definition eb_from_time_source :: "input_packet \<Rightarrow> ieee802154_ies \<Rightarrow> 'a mac_state_scheme \<Rightarrow> 'a mac_state_scheme" where
  "eb_from_time_source current_input eb_ies s =
     (let asn_diff = sint (TSCH_ASN_DIFF (ip_rx_asn current_input) (ie_asn eb_ies));
          s = (if asn_diff \<noteq> 0 then tsch_disassociate s else s)
      in if ie_join_priority eb_ies \<ge> TSCH_MAX_JOIN_PRIORITY then tsch_disassociate s else s)"

definition eb_from_other ::
    "(linkaddr \<Rightarrow> u8 \<Rightarrow> u16 \<Rightarrow> 'a mac_state_scheme \<Rightarrow> 'a mac_state_scheme option) \<Rightarrow> linkaddr \<Rightarrow> ieee802154_ies \<Rightarrow> nat \<Rightarrow>
     'a mac_state_scheme \<Rightarrow> 'a mac_state_scheme option" where
  "eb_from_other diff_cb src eb_ies n s = do {
     let s = set_nbr n ((nbr s n)\<lparr> n_rank := ie_rank eb_ies, n_time_source := ie_time_source eb_ies \<rparr>) s;
     better \<leftarrow> better_time_source n s;
     s \<leftarrow> (if better then do {
              (_, s) \<leftarrow> tsch_queue_update_time_source (Some src) s;
              Some (s\<lparr> tsch_rank := ie_rank eb_ies + 1 \<rparr>)
            }
            else Some s);
     if ie_schedule_version eb_ies \<noteq> schedule_version s then do {
       guard_opt (schedule_difference_callback s);
       diff_cb src (ie_schedule_version eb_ies) (ie_schedule_packets eb_ies) s
     }
     else Some s
   }"

definition eb_input ::
    "(linkaddr \<Rightarrow> u8 \<Rightarrow> u16 \<Rightarrow> 'a mac_state_scheme \<Rightarrow> 'a mac_state_scheme option) \<Rightarrow>
     (u8 list \<Rightarrow> u8 \<Rightarrow> 'a mac_state_scheme \<Rightarrow> 'a mac_state_scheme option) \<Rightarrow>
     frame802154_t \<Rightarrow> input_packet \<Rightarrow> 'a mac_state_scheme \<Rightarrow> 'a mac_state_scheme option" where
  "eb_input diff_cb recv_cb frame0 current_input s = do {
     (r, fr, ies, _) \<leftarrow> tsch_packet_parse_eb (ip_payload current_input) (ip_len current_input) (Some frame0) (Some ies_zero) False;
     if r = 0 then Some s
     else do {
       frame \<leftarrow> fr;
       eb_ies \<leftarrow> ies;
       let src = fr_src_addr frame;
       let ts = tsch_queue_get_time_source s;
       let s = (if (case ts of None \<Rightarrow> True | Some t \<Rightarrow> \<not> linkaddr_cmp (last_eb_nbr_addr s) (n_addr (nbr s t)))
                then s\<lparr> last_eb_nbr_addr := src, last_eb_nbr_jp := ie_join_priority eb_ies \<rparr> else s);
       let (n, s) = tsch_queue_add_nbr src s;
       s \<leftarrow> (case n of
                None \<Rightarrow> Some s
              | Some _ \<Rightarrow>
                  (let s = neighbor_discovery_input (ie_sequence_number eb_ies) n s
                   in if schedule_received_callback s
                      then recv_cb (ie_schedule_received eb_ies) (word_of_nat FRAME802154E_IE_SCHEDULE_BIT_VECTOR) s else Some s));
       case ts of
         Some t \<Rightarrow>
           if linkaddr_cmp src (n_addr (nbr s t)) then Some (eb_from_time_source current_input eb_ies s)
           else (case n of Some n \<Rightarrow> eb_from_other diff_cb src eb_ies n s | None \<Rightarrow> Some s)
       | None \<Rightarrow> (case n of Some n \<Rightarrow> eb_from_other diff_cb src eb_ies n s | None \<Rightarrow> Some s)
     }
   }"

subsection \<open>Received and sent packets\<close>

definition packet_input ::
    "('a mac_state_scheme \<Rightarrow> 'a mac_state_scheme option) \<Rightarrow> frame802154_t \<Rightarrow> 'a mac_state_scheme \<Rightarrow> 'a mac_state_scheme option" where
  "packet_input net_input frame0 s = do {
     (frame_parsed, s) \<leftarrow> framer_parse frame0 s;
     if frame_parsed < 0 then Some s
     else if packetbuf_attr PACKETBUF_ATTR_MAC_SEQNO s \<noteq> 0xffff then
       if mac_sequence_is_duplicate s then Some s else net_input (mac_sequence_register_seqno s)
     else net_input s
   }"

text \<open>
  Removing the information elements of a data frame: the length that the parser returns is stored in an unsigned
  byte, so the failure value never equals \<open>- 1\<close> and the test for it has no effect.
\<close>

definition strip_ies :: "u8 \<Rightarrow> input_packet \<Rightarrow> input_packet option" where
  "strip_ies ret current_input = do {
     guard_opt (unat ret \<le> length (ip_payload current_input));
     (r, _) \<leftarrow> frame802154e_parse_information_elements (drop (unat ret) (ip_payload current_input))
                 (word_of_int (ip_len current_input - uint ret)) (Some ies_zero);
     let ie_len = (word_of_int r :: u8);
     let len = ip_len current_input - uint ie_len;
     guard_opt (0 \<le> len - uint ret);
     b \<leftarrow> slice_opt (ip_payload current_input) (unat ret + unat ie_len) (nat (len - uint ret));
     payload \<leftarrow> put_opt (ip_payload current_input) (unat ret) b;
     Some (current_input\<lparr> ip_payload := payload, ip_len := len \<rparr>)
   }"

definition rx_data ::
    "('a mac_state_scheme \<Rightarrow> 'a mac_state_scheme option) \<Rightarrow> frame802154_t \<Rightarrow> input_packet \<Rightarrow> 'a mac_state_scheme \<Rightarrow> 'a mac_state_scheme option" where
  "rx_data net_input frame0 current_input s = do {
     (_, s) \<leftarrow> packetbuf_copyfrom (ip_payload current_input) (word_of_int (ip_len current_input)) s;
     let s = packetbuf_set_attr PACKETBUF_ATTR_RSSI (ip_rssi current_input) s;
     let s = packetbuf_set_attr PACKETBUF_ATTR_CHANNEL (ucast (ip_channel current_input)) s;
     let s = packetbuf_set_attr PACKETBUF_ATTR_RECEIVED_ASN (ucast (ls4b (ip_rx_asn current_input))) s;
     packet_input net_input frame0 s
   }"

definition rx_one ::
    "('a mac_state_scheme \<Rightarrow> 'a mac_state_scheme option) \<Rightarrow> (linkaddr \<Rightarrow> u8 \<Rightarrow> u16 \<Rightarrow> 'a mac_state_scheme \<Rightarrow> 'a mac_state_scheme option) \<Rightarrow>
     (u8 list \<Rightarrow> u8 \<Rightarrow> 'a mac_state_scheme \<Rightarrow> 'a mac_state_scheme option) \<Rightarrow> frame802154_t \<Rightarrow> nat \<Rightarrow> 'a mac_state_scheme \<Rightarrow>
     'a mac_state_scheme option" where
  "rx_one net_input diff_cb recv_cb frame0 input_index s = do {
     current_input \<leftarrow> nth_opt (input_array s) input_index;
     (r, frame) \<leftarrow> frame802154_parse (ip_payload current_input) (ip_len current_input) frame0;
     let ret = (word_of_int r :: u8);
     let is_data = (ret \<noteq> 0 \<and> fcf_frame_type (fr_fcf frame) = FRAME802154_DATAFRAME);
     let is_eb = (ret \<noteq> 0 \<and> fcf_frame_version (fr_fcf frame) = FRAME802154_IEEE802154_2015 \<and> fcf_frame_type (fr_fcf frame) = FRAME802154_BEACONFRAME);
     if is_data then
       if fcf_ie_list_present (fr_fcf frame) \<noteq> 0 then do {
         current_input \<leftarrow> strip_ies ret current_input;
         rx_data net_input frame0 current_input (s\<lparr> input_array := (input_array s)[input_index := current_input] \<rparr>)
       }
       else rx_data net_input frame0 current_input s
     else if is_eb then eb_input diff_cb recv_cb frame0 current_input s
     else Some s
   }"

partial_function (option) tsch_rx_process_pending ::
    "('a mac_state_scheme \<Rightarrow> 'a mac_state_scheme option) \<Rightarrow> (linkaddr \<Rightarrow> u8 \<Rightarrow> u16 \<Rightarrow> 'a mac_state_scheme \<Rightarrow> 'a mac_state_scheme option) \<Rightarrow>
     (u8 list \<Rightarrow> u8 \<Rightarrow> 'a mac_state_scheme \<Rightarrow> 'a mac_state_scheme option) \<Rightarrow> frame802154_t \<Rightarrow> 'a mac_state_scheme \<Rightarrow>
     'a mac_state_scheme option" where
  "tsch_rx_process_pending net_input diff_cb recv_cb frame0 s =
     (let input_index = ringbufindex_peek_get (input_ringbuf s) in
      if input_index = - 1 then Some s
      else do {
        s \<leftarrow> rx_one net_input diff_cb recv_cb frame0 (nat input_index) s;
        tsch_rx_process_pending net_input diff_cb recv_cb frame0 (s\<lparr> input_ringbuf := snd (ringbufindex_get (input_ringbuf s)) \<rparr>)
      })"

partial_function (option) tsch_tx_process_pending :: "'a mac_state_scheme mac_cb \<Rightarrow> 'a mac_state_scheme \<Rightarrow> 'a mac_state_scheme option" where
  "tsch_tx_process_pending cb s =
     (let dequeued_index = ringbufindex_peek_get (dequeued_ringbuf s) in
      if dequeued_index = - 1 then Some s
      else do {
        p0 \<leftarrow> nth_opt (dequeued_array s) (nat dequeued_index);
        p \<leftarrow> p0;
        b \<leftarrow> tp_qb (pkt s p);
        s \<leftarrow> queuebuf_to_packetbuf b s;
        s \<leftarrow> mac_call_sent_callback cb (tp_sent (pkt s p)) (tp_ret (pkt s p)) (tp_transmissions (pkt s p)) s;
        let s = tsch_queue_free_packet (Some p) s;
        tsch_tx_process_pending cb (s\<lparr> dequeued_ringbuf := snd (ringbufindex_get (dequeued_ringbuf s)) \<rparr>)
      })"

subsection \<open>Joining and leaving a network\<close>

text \<open>
  The synchronous poll runs the pending events when their process has been started; logs are not modelled.
\<close>

definition tsch_pending_events ::
    "'a mac_state_scheme mac_cb \<Rightarrow> ('a mac_state_scheme \<Rightarrow> 'a mac_state_scheme option) \<Rightarrow>
     (linkaddr \<Rightarrow> u8 \<Rightarrow> u16 \<Rightarrow> 'a mac_state_scheme \<Rightarrow> 'a mac_state_scheme option) \<Rightarrow>
     (u8 list \<Rightarrow> u8 \<Rightarrow> 'a mac_state_scheme \<Rightarrow> 'a mac_state_scheme option) \<Rightarrow> frame802154_t \<Rightarrow> 'a mac_state_scheme \<Rightarrow>
     'a mac_state_scheme option" where
  "tsch_pending_events cb net_input diff_cb recv_cb frame0 s = do {
     s \<leftarrow> tsch_rx_process_pending net_input diff_cb recv_cb frame0 s;
     tsch_tx_process_pending cb s
   }"

definition tsch_reset ::
    "'a mac_state_scheme mac_cb \<Rightarrow> ('a mac_state_scheme \<Rightarrow> 'a mac_state_scheme option) \<Rightarrow>
     (linkaddr \<Rightarrow> u8 \<Rightarrow> u16 \<Rightarrow> 'a mac_state_scheme \<Rightarrow> 'a mac_state_scheme option) \<Rightarrow>
     (u8 list \<Rightarrow> u8 \<Rightarrow> 'a mac_state_scheme \<Rightarrow> 'a mac_state_scheme option) \<Rightarrow> frame802154_t \<Rightarrow> 'a mac_state_scheme \<Rightarrow>
     'a mac_state_scheme option" where
  "tsch_reset cb net_input diff_cb recv_cb frame0 s = do {
     let s = frame802154_set_pan_id 0xffff s;
     s \<leftarrow> (if tsch_is_started s then tsch_pending_events cb net_input diff_cb recv_cb frame0 s else Some s);
     s \<leftarrow> tsch_queue_reset cb s;
     s \<leftarrow> tsch_queue_free_unused_neighbors cb s;
     (_, s) \<leftarrow> tsch_queue_update_time_source None s;
     let s = s\<lparr> tsch_join_priority := 0xff, tsch_current_asn := TSCH_ASN_INIT 0 0, current_link := None,
              tsch_timing := tsch_default_timing_us, last_eb_nbr_addr := linkaddr_null \<rparr>;
     Some (tsch_set_eb_period TSCH_EB_PERIOD s)
   }"

definition default_hopping_sequence :: "'a mac_state_scheme \<Rightarrow> 'a mac_state_scheme option" where
  "default_hopping_sequence s = do {
     hs \<leftarrow> put_opt (tsch_hopping_sequence s) 0 TSCH_DEFAULT_HOPPING_SEQUENCE;
     Some (s\<lparr> tsch_hopping_sequence := hs,
            tsch_hopping_sequence_length := TSCH_ASN_DIVISOR_INIT (word_of_nat (length TSCH_DEFAULT_HOPPING_SEQUENCE)) \<rparr>)
   }"

definition tsch_start_coordinator :: "'a mac_state_scheme \<Rightarrow> 'a mac_state_scheme option" where
  "tsch_start_coordinator s = do {
     let s = frame802154_set_pan_id IEEE802154_PANID s;
     s \<leftarrow> default_hopping_sequence s;
     let s = s\<lparr> tsch_is_associated := True, tsch_join_priority := 0 \<rparr>;
     Some (tsch_slot_operation_sync (rtimer_now s) (tsch_current_asn s) s)
   }"

text \<open>The hopping sequence and the schedule that a beacon announces; a false flag is the early return.\<close>

definition associate_hopping :: "ieee802154_ies \<Rightarrow> 'a mac_state_scheme \<Rightarrow> (bool \<times> 'a mac_state_scheme) option" where
  "associate_hopping ies s =
     (if ie_channel_hopping_sequence_id ies = 0 then do { s \<leftarrow> default_hopping_sequence s; Some (True, s) }
      else if unat (ie_hopping_sequence_len ies) \<le> TSCH_HOPPING_SEQUENCE_MAX_LEN then do {
        b \<leftarrow> slice_opt (ie_hopping_sequence_list ies) 0 (unat (ie_hopping_sequence_len ies));
        hs \<leftarrow> put_opt (tsch_hopping_sequence s) 0 b;
        guard_opt (ie_hopping_sequence_len ies \<noteq> 0);
        Some (True, s\<lparr> tsch_hopping_sequence := hs, tsch_hopping_sequence_length := TSCH_ASN_DIVISOR_INIT (ie_hopping_sequence_len ies) \<rparr>)
      }
      else Some (False, s))"

fun associate_links :: "nat option \<Rightarrow> tsch_slotframe_and_links_link list \<Rightarrow> 'a mac_state_scheme \<Rightarrow> 'a mac_state_scheme" where
  "associate_links sf [] s = s"
| "associate_links sf (l # ls) s =
     associate_links sf ls
       (snd (tsch_schedule_add_link sf (sl_link_options l) LINK_TYPE_ADVERTISING (Some tsch_broadcast_address) (sl_timeslot l) (sl_channel_offset l) s))"

definition associate_schedule :: "ieee802154_ies \<Rightarrow> 'a mac_state_scheme \<Rightarrow> (bool \<times> 'a mac_state_scheme) option" where
  "associate_schedule ies s =
     (let sl = ie_tsch_slotframe_and_link ies in
      if num_slotframes sl = 0 then Some (True, s)
      else do {
        (_, s) \<leftarrow> tsch_schedule_remove_all_slotframes s;
        if unat (num_links sl) \<le> FRAME802154E_IE_MAX_LINKS then do {
          ls \<leftarrow> slice_opt (links sl) 0 (unat (num_links sl));
          let (sf, s) = tsch_schedule_add_slotframe (ucast (slotframe_handle sl)) (slotframe_size sl) s;
          Some (True, associate_links sf ls s)
        }
        else Some (False, s)
      })"

text \<open>The last part: the sender of the beacon becomes a neighbour and the time source.\<close>

definition associate_finish :: "u64 \<Rightarrow> frame802154_t \<Rightarrow> ieee802154_ies \<Rightarrow> 'a mac_state_scheme \<Rightarrow> (bool \<times> 'a mac_state_scheme) option" where
  "associate_finish timestamp frame ies s =
     (if tsch_join_priority s < TSCH_MAX_JOIN_PRIORITY then
        (case tsch_queue_add_nbr (fr_src_addr frame) s of
           (None, s) \<Rightarrow> Some (False, s)
         | (Some n, s) \<Rightarrow> do {
             (_, s) \<leftarrow> tsch_queue_update_time_source (Some (fr_src_addr frame)) s;
             let s = set_nbr n ((nbr s n)\<lparr> n_rank := ie_rank ies \<rparr>) s;
             let s = s\<lparr> tsch_rank := ie_rank ies + 1 \<rparr>;
             let s = neighbor_discovery_input (ie_sequence_number ies) (Some n) s;
             let s = frame802154_set_pan_id (fr_src_pid frame) s;
             t \<leftarrow> nth_opt (tsch_timing s) tsch_ts_tx_offset;
             let s = tsch_slot_operation_sync (timestamp - t) (tsch_current_asn s) s;
             let s = s\<lparr> tsch_is_associated := True, tsch_is_pan_secured := fcf_security_enabled (fr_fcf frame),
                      tx_count := 0, rx_count := 0, sync_count := 0 \<rparr>;
             s \<leftarrow> tsch_schedule_keepalive s;
             let s = s\<lparr> tsch_association_count := tsch_association_count s + 1 \<rparr>;
             Some (True, post_event EV_ASSOCIATED_TO_NETWORK s)
           })
      else Some (False, s))"

text \<open>A null \<open>input_eb\<close> is dereferenced by the error message.\<close>

definition tsch_associate :: "frame802154_t \<Rightarrow> input_packet option \<Rightarrow> u64 \<Rightarrow> 'a mac_state_scheme \<Rightarrow> (bool \<times> 'a mac_state_scheme) option" where
  "tsch_associate frame0 input_eb timestamp s = do {
     input_eb \<leftarrow> input_eb;
     (r, fr, ie, _) \<leftarrow> tsch_packet_parse_eb (ip_payload input_eb) (ip_len input_eb) (Some frame0) (Some ies_zero) True;
     if r = 0 then Some (False, s)
     else do {
       frame \<leftarrow> fr;
       ies \<leftarrow> ie;
       src \<leftarrow> nth_opt (fr_src_addr frame) NODE_ID_INDEX;
       own \<leftarrow> nth_opt (linkaddr_node_addr s) NODE_ID_INDEX;
       if src = MASTER_TSCH_DISTRIBUTOR then Some (False, s)
       else if own = MASTER_TSCH_DISTRIBUTOR \<and> src \<noteq> MASTER_TSCH_COORDINATOR then Some (False, s)
       else do {
         let s = s\<lparr> tsch_current_asn := ie_asn ies, tsch_join_priority := ie_join_priority ies + 1 \<rparr>;
         if fcf_security_enabled (fr_fcf frame) = 1 then Some (False, s)
         else if fr_src_pid frame \<noteq> IEEE802154_PANID then Some (False, s)
         else if ie_join_priority ies = 0xff then Some (False, s)
         else do {
           let s = s\<lparr> tsch_timing := (if ie_tsch_timeslot_id ies = 0 then tsch_default_timing_us else map ucast (ie_tsch_timeslot ies)) \<rparr>;
           (ok, s) \<leftarrow> associate_hopping ies s;
           if \<not> ok then Some (False, s)
           else do {
             (ok, s) \<leftarrow> associate_schedule ies s;
             if \<not> ok then Some (False, s) else associate_finish timestamp frame ies s
           }
         }
       }
     }
   }"

subsection \<open>Sending\<close>

text \<open>One round of the process that queues beacons, without the wait for the next one.\<close>

definition send_eb :: "'a mac_state_scheme \<Rightarrow> 'a mac_state_scheme option" where
  "send_eb s =
     (if tsch_is_associated s \<and> tsch_current_eb_period s > 0 then
        (case tsch_queue_packet_count tsch_eb_address s of
           (k, s) \<Rightarrow>
             if k = 0 then do {
               (r, offsets, s) \<leftarrow> tsch_packet_create_eb s;
               if r > 0 then do {
                 (hdr_len, sync_offset) \<leftarrow> offsets;
                 (p, s) \<leftarrow> tsch_queue_add_packet tsch_eb_address 1 NO_CALLBACK s;
                 case p of
                   None \<Rightarrow> Some (s\<lparr> sequence_number := sequence_number s - 1 \<rparr>)
                 | Some p \<Rightarrow>
                     (let s = set_pkt p ((pkt s p)\<lparr> tp_sync_ie_offset := sync_offset, tp_header_len := hdr_len \<rparr>) s
                      in Some (if dont_inc_first_beacons s > 0
                               then s\<lparr> sequence_number := sequence_number s - 1, dont_inc_first_beacons := dont_inc_first_beacons s - 1 \<rparr>
                               else s))
               }
               else Some s
             }
             else Some s)
      else Some s)"

text \<open>
  The queue is the one of the flow, unless the packet is a broadcast or asks for the queue of the neighbour. The
  log message of the first case counts the packets of the receiver, which creates its neighbour entry.
\<close>

definition enqueue_packet :: "mac_callback_t \<Rightarrow> linkaddr \<Rightarrow> bool \<Rightarrow> u8 \<Rightarrow> int \<Rightarrow> 'a mac_state_scheme \<Rightarrow> (u8 \<times> 'a mac_state_scheme) option" where
  "enqueue_packet sent addr bcast max_transmissions hdr_len s = do {
     let flow_addr = linkaddr_null[1 := ucast (packetbuf_attr PACKETBUF_ATTR_FLOW_NUMBER s)];
     let send_to_nbr = (ucast (packetbuf_attr PACKETBUF_ATTR_SEND_NBR s) :: u8);
     (p, s) \<leftarrow>
       (if \<not> bcast \<and> send_to_nbr = 0 then do {
          (p, s) \<leftarrow> tsch_queue_add_packet flow_addr max_transmissions sent s;
          Some (p, snd (tsch_queue_packet_count addr s))
        }
        else tsch_queue_add_packet addr max_transmissions sent s);
     case p of
       None \<Rightarrow> Some (MAC_TX_ERR, s)
     | Some p \<Rightarrow> Some (MAC_TX_DEFERRED, set_pkt p ((pkt s p)\<lparr> tp_header_len := word_of_int hdr_len \<rparr>) s)
   }"

definition send_packet :: "'a mac_state_scheme mac_cb \<Rightarrow> mac_callback_t \<Rightarrow> 'a mac_state_scheme \<Rightarrow> 'a mac_state_scheme option" where
  "send_packet cb sent s =
     (if \<not> tsch_is_associated s then mac_call_sent_callback cb sent MAC_TX_ERR 1 s
      else
        (let addr = packetbuf_addr PACKETBUF_ADDR_RECEIVER s;
             bcast = linkaddr_cmp addr linkaddr_null;
             s = (if \<not> bcast then
                    (let s = s\<lparr> tsch_packet_seqno := tsch_packet_seqno s + 1 \<rparr>;
                         s = (if tsch_packet_seqno s = 0 then s\<lparr> tsch_packet_seqno := tsch_packet_seqno s + 1 \<rparr> else s);
                         s = packetbuf_set_attr PACKETBUF_ATTR_MAC_SEQNO (ucast (tsch_packet_seqno s)) s
                     in packetbuf_set_attr PACKETBUF_ATTR_MAC_ACK 1 s)
                  else s);
             addr = (if bcast then tsch_broadcast_address else addr);
             s = packetbuf_set_attr PACKETBUF_ATTR_FRAME_TYPE (ucast FRAME802154_DATAFRAME) s;
             s = packetbuf_set_addr PACKETBUF_ADDR_SENDER (linkaddr_node_addr s) s;
             max_transmissions = (ucast (packetbuf_attr PACKETBUF_ATTR_MAX_MAC_TRANSMISSIONS s) :: u8)
         in if max_transmissions = 0 then Some s
            else do {
              s \<leftarrow> (if packetbuf_attr PACKETBUF_ATTR_MAC_METADATA s \<noteq> 0 then do { (_, s) \<leftarrow> tsch_packet_create_unicast s; Some s } else Some s);
              (hdr_len, s) \<leftarrow> framer_create s;
              (ret, s) \<leftarrow> (if hdr_len < 0 then Some (MAC_TX_ERR, s) else enqueue_packet sent addr bcast max_transmissions hdr_len s);
              if ret \<noteq> MAC_TX_DEFERRED then mac_call_sent_callback cb sent ret 1 s else Some s
            }))"

definition turn_on :: "'a mac_state_scheme \<Rightarrow> bool \<times> 'a mac_state_scheme" where
  "turn_on s =
     (if tsch_is_initialized s \<and> \<not> tsch_is_started s
      then (True, post_event EV_START_TSCH_PROCESSES (s\<lparr> tsch_is_started := True \<rparr>)) else (False, s))"

text \<open>\<open>radio_ok\<close>: the radio accepts the settings. Automatic start is on by default.\<close>

definition tsch_init ::
    "bool \<Rightarrow> 'a mac_state_scheme mac_cb \<Rightarrow> ('a mac_state_scheme \<Rightarrow> 'a mac_state_scheme option) \<Rightarrow>
     (linkaddr \<Rightarrow> u8 \<Rightarrow> u16 \<Rightarrow> 'a mac_state_scheme \<Rightarrow> 'a mac_state_scheme option) \<Rightarrow>
     (u8 list \<Rightarrow> u8 \<Rightarrow> 'a mac_state_scheme \<Rightarrow> 'a mac_state_scheme option) \<Rightarrow> frame802154_t \<Rightarrow> 'a mac_state_scheme \<Rightarrow>
     'a mac_state_scheme option" where
  "tsch_init radio_ok cb net_input diff_cb recv_cb frame0 s =
     (if \<not> radio_ok then Some s
      else do {
        let s = queuebuf_init s;
        s \<leftarrow> tsch_reset cb net_input diff_cb recv_cb frame0 s;
        let s = tsch_queue_init s;
        let s = snd (tsch_schedule_init s);
        let s = s\<lparr> input_ringbuf := ringbufindex_init TSCH_MAX_INCOMING_PACKETS, dequeued_ringbuf := ringbufindex_init TSCH_DEQUEUED_ARRAY_SIZE \<rparr>;
        let (r, s) = random_rand s;
        let s = s\<lparr> tsch_packet_seqno := ucast r, tsch_is_initialized := True \<rparr>;
        Some (snd (turn_on s))
      })"

end
