(* ===== verification/TimeSync.thy ===== *)
theory TimeSync
  imports Tsch "HOL-Library.Signed_Division"
begin

text \<open>
  The adaptive time synchronisation (\<open>os/net/mac/tsch/tsch-adaptive-timesync.c\<close>): a moving average of the drift
  of the time source and the compensation of that drift before each slot. The static variables of the file are the
  fields of \<open>timesync_state\<close>. A signed variable is an \<open>int\<close>; a value stored in it is cut to its width by
  \<open>to_i32\<close> or \<open>to_i16\<close>, and division truncates (\<open>sdiv\<close>). A tick of the real-time timer of the simulated platform is
  one microsecond.
\<close>

subsection \<open>Model\<close>

definition to_i32 :: "int \<Rightarrow> int" where "to_i32 x = sint (word_of_int x :: u32)"
definition to_i16 :: "int \<Rightarrow> int" where "to_i16 x = sint (word_of_int x :: u16)"

record timesync_state =
  last_timesource_neighbor :: "nat option"
  drift_ppm :: int
  compensated_ticks :: int
  timesync_entry_count :: u8
  asn_since_last_learning :: u32
  te_buffer :: "int list"
  te_pos :: u8
  comp_remainder :: int
  tick_conversion_error :: int

definition TSCH_DRIFT_UNIT :: int where [simp]: "TSCH_DRIFT_UNIT = 1000 * 1000 * 256"
definition NUM_TIMESYNC_ENTRIES :: u8 where [simp]: "NUM_TIMESYNC_ENTRIES = 8"
definition TSCH_SLOTS_PER_SECOND :: u32 where [simp]: "TSCH_SLOTS_PER_SECOND = 1000000 div 10000"
definition TSCH_MAX_KEEPALIVE_TIMEOUT :: u32 where [simp]: "TSCH_MAX_KEEPALIVE_TIMEOUT = 60 * 1000"

definition tsch_adaptive_timesync_get_drift_ppm :: "timesync_state \<Rightarrow> int" where
  "tsch_adaptive_timesync_get_drift_ppm g = drift_ppm g sdiv 256"

definition timesync_entry_add :: "int \<Rightarrow> 'g timesync_state_scheme \<Rightarrow> 'a mac_state_scheme \<Rightarrow>
    (int \<times> 'g timesync_state_scheme \<times> 'a mac_state_scheme) option" where
  "timesync_entry_add val g s = do {
     let g = (if timesync_entry_count g = 0 then g\<lparr> te_pos := 0 \<rparr> else g);
     buf \<leftarrow> upd_opt (te_buffer g) (unat (te_pos g)) val;
     let g = g\<lparr> te_buffer := buf \<rparr>;
     (g, s) \<leftarrow> (if timesync_entry_count g < NUM_TIMESYNC_ENTRIES
                then Some (g\<lparr> timesync_entry_count := timesync_entry_count g + 1 \<rparr>, s)
                else do { s \<leftarrow> tsch_set_ka_timeout TSCH_MAX_KEEPALIVE_TIMEOUT s; Some (g, s) });
     let g = g\<lparr> te_pos := (te_pos g + 1) mod NUM_TIMESYNC_ENTRIES \<rparr>;
     vs \<leftarrow> slice_opt (te_buffer g) 0 (unat (timesync_entry_count g));
     Some (fold (\<lambda>v sum. to_i32 (sum + v)) vs 0 sdiv uint (timesync_entry_count g), g, s)
   }"

text \<open>A product that is zero as a 32-bit number makes the division undefined.\<close>

definition timesync_learn_drift_ticks :: "u32 \<Rightarrow> int \<Rightarrow> 'g timesync_state_scheme \<Rightarrow> 'a mac_state_scheme \<Rightarrow>
    ('g timesync_state_scheme \<times> 'a mac_state_scheme) option" where
  "timesync_learn_drift_ticks time_delta_asn drift_ticks g s = do {
     slot \<leftarrow> nth_opt (tsch_timing s) tsch_ts_timeslot_length;
     let time_delta_ticks = to_i32 (uint (ucast time_delta_asn * slot));
     let real_drift_ticks = to_i32 (drift_ticks + compensated_ticks g);
     guard_opt (time_delta_ticks \<noteq> 0);
     let last_drift_ppm = to_i32 (real_drift_ticks * TSCH_DRIFT_UNIT sdiv time_delta_ticks);
     (avg, g, s) \<leftarrow> timesync_entry_add last_drift_ppm g s;
     Some (g\<lparr> drift_ppm := avg \<rparr>, s)
   }"

definition tsch_timesync_update :: "nat option \<Rightarrow> u16 \<Rightarrow> int \<Rightarrow> 'g timesync_state_scheme \<Rightarrow> 'a mac_state_scheme \<Rightarrow>
    ('g timesync_state_scheme \<times> 'a mac_state_scheme) option" where
  "tsch_timesync_update n time_delta_asn drift_correction g s =
     (if last_timesource_neighbor g \<noteq> n
      then Some (g\<lparr> last_timesource_neighbor := n, drift_ppm := 0, timesync_entry_count := 0, compensated_ticks := 0,
                  asn_since_last_learning := 0 \<rparr>, s)
      else do {
        let g = g\<lparr> asn_since_last_learning := asn_since_last_learning g + ucast time_delta_asn \<rparr>;
        if asn_since_last_learning g \<ge> 4 * TSCH_SLOTS_PER_SECOND then do {
          (g, s) \<leftarrow> timesync_learn_drift_ticks (asn_since_last_learning g) drift_correction g s;
          Some (g\<lparr> compensated_ticks := 0, asn_since_last_learning := 0 \<rparr>, s)
        }
        else Some (g\<lparr> compensated_ticks := to_i32 (compensated_ticks g + drift_correction) \<rparr>, s)
      })"

text \<open>
  The product of \<open>amount\<close> with the unit is computed in the width of \<open>long\<close>, here 32 bits; the remainder is stored in
  32 bits, so that a wider product gives the same one. The limit is an unsigned 64-bit number: its negation
  divided by 128 and stored in 32 bits is \<open>- 7813\<close>.
\<close>

definition compensate_internal :: "u32 \<Rightarrow> int \<Rightarrow> int \<Rightarrow> int \<Rightarrow> int \<times> int \<times> int" where
  "compensate_internal time_delta_usec drift rem err =
     (let d = uint time_delta_usec * drift + rem;
          amount = to_i32 (d sdiv TSCH_DRIFT_UNIT);
          rem = to_i32 (d - to_i32 (amount * TSCH_DRIFT_UNIT));
          amount = to_i32 (amount + err);
          amount_ticks = amount;
          err = to_i16 (amount - amount_ticks);
          amount_ticks = (if \<bar>amount_ticks\<bar> > int RTIMER_SECOND div 128
                          then to_i32 (uint ((if amount_ticks > 0 then word_of_nat RTIMER_SECOND else - word_of_nat RTIMER_SECOND :: u64) div 128))
                          else amount_ticks)
      in (amount_ticks, rem, err))"

text \<open>No base drift is configured, so only the learned drift is compensated.\<close>

definition tsch_timesync_adaptive_compensate :: "u64 \<Rightarrow> 'g timesync_state_scheme \<Rightarrow> int \<times> 'g timesync_state_scheme" where
  "tsch_timesync_adaptive_compensate time_delta_ticks g =
     (let time_delta_usec = ucast time_delta_ticks in
      if drift_ppm g \<noteq> 0 \<and> last_timesource_neighbor g \<noteq> None then
        (case compensate_internal time_delta_usec (drift_ppm g) (comp_remainder g) (tick_conversion_error g) of
           (result, rem, err) \<Rightarrow>
             (result, g\<lparr> comp_remainder := rem, tick_conversion_error := err, compensated_ticks := to_i32 (compensated_ticks g + result) \<rparr>))
      else (0, g))"

subsection \<open>Narrowing\<close>

lemma to_i32_id: "- (2 ^ 31) \<le> x \<Longrightarrow> x < 2 ^ 31 \<Longrightarrow> to_i32 x = x"
  by (simp add: to_i32_def signed_of_int signed_take_bit_int_eq_self)

lemma to_i32_cong: "(word_of_int x :: u32) = word_of_int y \<Longrightarrow> to_i32 x = to_i32 y"
  by (simp add: to_i32_def)

lemma word_of_to_i32 [simp]: "(word_of_int (to_i32 x) :: u32) = word_of_int x"
  by (simp add: to_i32_def)

lemma to_i32_add: "to_i32 (to_i32 x + y) = to_i32 (x + y)" "to_i32 (x - to_i32 y) = to_i32 (x - y)"
  by (rule to_i32_cong, simp)+

lemma to_i16_0 [simp]: "to_i16 0 = 0" by (simp add: to_i16_def)

subsection \<open>The compensation\<close>

lemma sdiv_bounds:
  fixes d u :: int
  assumes "0 < u"
  shows "d sdiv u * u + d smod u = d" "\<bar>d smod u\<bar> < u" "\<bar>d\<bar> < k * u \<Longrightarrow> \<bar>d sdiv u\<bar> < k"
proof -
  show "d sdiv u * u + d smod u = d" by (rule sdiv_mult_smod_eq)
  show "\<bar>d smod u\<bar> < u" using assms by (simp add: signed_modulo_int_def abs_mult abs_sgn_eq)
  show "\<bar>d\<bar> < k * u \<Longrightarrow> \<bar>d sdiv u\<bar> < k"
  proof -
    assume d: "\<bar>d\<bar> < k * u"
    have "\<bar>d\<bar> div u * u \<le> \<bar>d\<bar>" using assms by (simp add: minus_mod_eq_div_mult [symmetric])
    then have "\<bar>d\<bar> div u < k" using d assms by (metis le_less_trans mult_less_cancel_right_pos)
    moreover have "0 \<le> \<bar>d\<bar> div u" using assms by (simp add: pos_imp_zdiv_nonneg_iff)
    ultimately show "\<bar>d sdiv u\<bar> < k" using assms by (auto simp: signed_divide_int_def abs_mult abs_sgn_eq)
  qed
qed

text \<open>
  The 32-bit product of the amount may wrap, but the remainder that is computed from it is the true one; below the
  limit the amount is the true quotient.
\<close>

lemma compensate_internal_exact:
  assumes "\<bar>uint t * drift + rem\<bar> < 7813 * TSCH_DRIFT_UNIT"
  defines "d \<equiv> uint t * drift + rem"
  shows "compensate_internal t drift rem 0 = (d sdiv TSCH_DRIFT_UNIT, d smod TSCH_DRIFT_UNIT, 0)"
proof -
  define q where "q = d sdiv TSCH_DRIFT_UNIT"
  define r where "r = d smod TSCH_DRIFT_UNIT"
  have u: "0 < TSCH_DRIFT_UNIT" by simp
  note b = sdiv_bounds [OF u, of d, folded q_def r_def]
  have q: "\<bar>q\<bar> < 7813" using b(3) [of 7813] assms(1) unfolding d_def by blast
  then have a: "to_i32 q = q" by (intro to_i32_id) simp_all
  have e: "d - q * TSCH_DRIFT_UNIT = r" using b(1) by linarith
  have r: "to_i32 (d - to_i32 (q * TSCH_DRIFT_UNIT)) = r"
    unfolding to_i32_add e using b(2) by (intro to_i32_id) (simp_all add: abs_less_iff)
  have l: "\<not> \<bar>q\<bar> > int RTIMER_SECOND div 128" using q by simp
  show ?thesis
    unfolding compensate_internal_def d_def [symmetric] Let_def q_def [symmetric] r_def [symmetric] a r add_0_right if_not_P [OF l] by simp
qed

fun compensate_all :: "u64 list \<Rightarrow> 'g timesync_state_scheme \<Rightarrow> int \<times> 'g timesync_state_scheme" where
  "compensate_all [] g = (0, g)"
| "compensate_all (t # ts) g =
     (case tsch_timesync_adaptive_compensate t g of (r, g) \<Rightarrow> case compensate_all ts g of (rs, g) \<Rightarrow> (r + rs, g))"

lemma compensate_exact:
  assumes "drift_ppm g \<noteq> 0" "last_timesource_neighbor g \<noteq> None" "tick_conversion_error g = 0" "\<bar>comp_remainder g\<bar> < TSCH_DRIFT_UNIT"
    and "uint t < 2 ^ 32" "uint t * \<bar>drift_ppm g\<bar> \<le> 7812 * TSCH_DRIFT_UNIT"
  shows "\<exists>r c. tsch_timesync_adaptive_compensate t g = (r, g\<lparr> comp_remainder := c, compensated_ticks := to_i32 (compensated_ticks g + r) \<rparr>) \<and>
    r * TSCH_DRIFT_UNIT + c = uint t * drift_ppm g + comp_remainder g \<and> \<bar>c\<bar> < TSCH_DRIFT_UNIT"
proof -
  define d where "d = uint t * drift_ppm g + comp_remainder g"
  have t: "uint (ucast t :: u32) = uint t" using assms(5) by (simp add: unsigned_ucast_eq take_bit_int_eq_self)
  have "\<bar>uint t * drift_ppm g\<bar> \<le> 7812 * TSCH_DRIFT_UNIT" using assms(6) by (simp add: abs_mult)
  then have "\<bar>d\<bar> < 7813 * TSCH_DRIFT_UNIT" unfolding d_def using assms(4) by simp
  then have c: "compensate_internal (ucast t) (drift_ppm g) (comp_remainder g) 0 = (d sdiv TSCH_DRIFT_UNIT, d smod TSCH_DRIFT_UNIT, 0)"
    using compensate_internal_exact [of "ucast t" "drift_ppm g" "comp_remainder g"] unfolding t d_def by blast
  have "tsch_timesync_adaptive_compensate t g = (d sdiv TSCH_DRIFT_UNIT,
      g\<lparr> comp_remainder := d smod TSCH_DRIFT_UNIT, compensated_ticks := to_i32 (compensated_ticks g + d sdiv TSCH_DRIFT_UNIT) \<rparr>)"
    unfolding tsch_timesync_adaptive_compensate_def Let_def assms(3) c by (insert assms(1-3), cases g) auto
  then show ?thesis using sdiv_bounds(1,2) [of TSCH_DRIFT_UNIT d] unfolding d_def [symmetric] by fastforce
qed

lemma compensate_all_exact:
  assumes "drift_ppm g \<noteq> 0" "last_timesource_neighbor g \<noteq> None" "tick_conversion_error g = 0" "\<bar>comp_remainder g\<bar> < TSCH_DRIFT_UNIT"
    and "\<forall>t\<in>set ts. uint t < 2 ^ 32 \<and> uint t * \<bar>drift_ppm g\<bar> \<le> 7812 * TSCH_DRIFT_UNIT"
  shows "\<exists>total g'. compensate_all ts g = (total, g') \<and>
    total * TSCH_DRIFT_UNIT + comp_remainder g' = (\<Sum>t\<leftarrow>ts. uint t) * drift_ppm g + comp_remainder g \<and>
    \<bar>comp_remainder g'\<bar> < TSCH_DRIFT_UNIT \<and> compensated_ticks g' = (if ts = [] then compensated_ticks g else to_i32 (compensated_ticks g + total))"
  using assms
proof (induction ts arbitrary: g)
  case (Cons t ts)
  obtain r c where r: "tsch_timesync_adaptive_compensate t g = (r, g\<lparr> comp_remainder := c, compensated_ticks := to_i32 (compensated_ticks g + r) \<rparr>)"
      "r * TSCH_DRIFT_UNIT + c = uint t * drift_ppm g + comp_remainder g" "\<bar>c\<bar> < TSCH_DRIFT_UNIT"
    using compensate_exact [OF Cons.prems(1-4), of t] Cons.prems(5) by auto
  let ?g = "g\<lparr> comp_remainder := c, compensated_ticks := to_i32 (compensated_ticks g + r) \<rparr>"
  have "\<exists>total g'. compensate_all ts ?g = (total, g') \<and>
      total * TSCH_DRIFT_UNIT + comp_remainder g' = (\<Sum>t\<leftarrow>ts. uint t) * drift_ppm ?g + comp_remainder ?g \<and>
      \<bar>comp_remainder g'\<bar> < TSCH_DRIFT_UNIT \<and> compensated_ticks g' = (if ts = [] then compensated_ticks ?g else to_i32 (compensated_ticks ?g + total))"
    by (rule Cons.IH) (use Cons.prems r(3) in simp_all)
  then obtain total g' where t: "compensate_all ts ?g = (total, g')" "\<bar>comp_remainder g'\<bar> < TSCH_DRIFT_UNIT"
      "total * TSCH_DRIFT_UNIT + comp_remainder g' = (\<Sum>t\<leftarrow>ts. uint t) * drift_ppm g + c"
      "compensated_ticks g' = (if ts = [] then to_i32 (compensated_ticks g + r) else to_i32 (to_i32 (compensated_ticks g + r) + total))"
    by auto
  have "ts = [] \<Longrightarrow> total = 0" using t(1) by auto
  then have "compensated_ticks g' = to_i32 (compensated_ticks g + (r + total))" using t(4) by (auto simp: to_i32_add add.assoc)
  moreover have "(r + total) * TSCH_DRIFT_UNIT + comp_remainder g' = (\<Sum>t\<leftarrow>t # ts. uint t) * drift_ppm g + comp_remainder g"
    using t(3) r(2) by (simp add: algebra_simps)
  ultimately show ?case using r(1) t(1,2) by (intro exI [of _ "r + total"] exI [of _ g']) simp
qed simp



end
