(* ===== verification/SlotOperation.thy ===== *)
theory SlotOperation
  imports TimeSync
begin

text \<open>
  The slot operation (\<open>os/net/mac/tsch/tsch-slot-operation.c\<close>): what a node does in an active time slot. The static
  variables of the file are the fields of \<open>slot_state\<close>, kept beside the state of the MAC layer. The radio is the
  record \<open>slot_io\<close>: what the driver answers during one slot. The protothreads of a slot run as one step, so the waits
  inside a slot are not visible; the times between slots and the choice of the next slot are. The clock does not
  advance while a function runs, as on the simulated platform.
\<close>

subsection \<open>State\<close>

record slot_state = timesync_state +
  drift_correction :: int
  is_drift_correction_used :: bool
  current_channel :: u8
  backup_link :: "nat option"
  current_packet :: "nat option"
  current_neighbor :: "nat option"
  actual_current_neighbor :: "nat option"
  mac_tx_status :: u8
  input_queue_drop :: int
  radio_is_on :: bool
  stop :: bool
  waiting_for_restart :: bool
  slot_operation_timer :: "u64 option"

text \<open>
  The answers of the radio driver: to \<open>prepare\<close> and \<open>transmit\<close>, the buffer and length after reading an
  acknowledgement, whether a packet was seen and is pending, the time at which its start was detected, and its bytes.
\<close>

record slot_io =
  io_prepare :: int
  io_transmit :: u8
  io_ackbuf :: "u8 list"
  io_ack_len :: int
  io_packet_seen :: bool
  io_rx_start_time :: u64
  io_pending_packet :: bool
  io_read :: "u8 list"
  io_rssi :: u16

definition RADIO_TX_OK :: u8 where [simp]: "RADIO_TX_OK = 0"
definition TSCH_PACKET_MAX_LEN :: nat where [simp]: "TSCH_PACKET_MAX_LEN = min 127 PACKETBUF_SIZE"
definition SYNC_IE_BOUND :: int where [simp]: "SYNC_IE_BOUND = 2200 div 4"
definition RTIMER_GUARD :: u64 where [simp]: "RTIMER_GUARD = 0"
definition TSCH_RADIO_ON_DURING_TIMESLOT :: bool where [simp]: "TSCH_RADIO_ON_DURING_TIMESLOT = False"
definition TSCH_DESYNC_THRESHOLD :: u32 where [simp]: "TSCH_DESYNC_THRESHOLD = 2 * TSCH_MAX_KEEPALIVE_TIMEOUT"

subsection \<open>Channel, timing, radio\<close>

definition tsch_calculate_channel :: "tsch_asn_t \<Rightarrow> u8 \<Rightarrow> 'a mac_state_scheme \<Rightarrow> u8 option" where
  "tsch_calculate_channel asn channel_offset s = do {
     guard_opt (asn_val (tsch_hopping_sequence_length s) \<noteq> 0);
     let index_of_0 = TSCH_ASN_MOD asn (tsch_hopping_sequence_length s);
     let index_of_offset = (word_of_int ((uint index_of_0 + uint channel_offset) mod uint (asn_val (tsch_hopping_sequence_length s))) :: u16);
     nth_opt (tsch_hopping_sequence s) (unat index_of_offset)
   }"

definition check_timer_miss :: "u64 \<Rightarrow> u64 \<Rightarrow> u64 \<Rightarrow> bool" where
  "check_timer_miss ref_time offset now =
     (let target = ref_time + offset;
          now_has_overflowed = now < ref_time;
          target_has_overflowed = target < ref_time
      in if now_has_overflowed = target_has_overflowed then target \<le> now else now_has_overflowed)"

text \<open>\<open>rtimer_set\<close> always succeeds; the timer calls \<open>tsch_slot_operation\<close> at the given time.\<close>

definition tsch_schedule_slot_operation :: "u64 \<Rightarrow> u64 \<Rightarrow> u64 \<Rightarrow> 'g slot_state_scheme \<Rightarrow> bool \<times> 'g slot_state_scheme" where
  "tsch_schedule_slot_operation now ref_time offset g =
     (if check_timer_miss ref_time (offset - RTIMER_GUARD) now then (False, g)
      else (True, g\<lparr> slot_operation_timer := Some (ref_time + offset) \<rparr>))"

datatype tsch_radio_state_on_cmd = TSCH_RADIO_CMD_ON_START_OF_TIMESLOT | TSCH_RADIO_CMD_ON_WITHIN_TIMESLOT | TSCH_RADIO_CMD_ON_FORCE
datatype tsch_radio_state_off_cmd = TSCH_RADIO_CMD_OFF_END_OF_TIMESLOT | TSCH_RADIO_CMD_OFF_WITHIN_TIMESLOT | TSCH_RADIO_CMD_OFF_FORCE

definition tsch_radio_on :: "tsch_radio_state_on_cmd \<Rightarrow> 'g slot_state_scheme \<Rightarrow> 'g slot_state_scheme" where
  "tsch_radio_on cmd g =
     (let do_it = (case cmd of
                     TSCH_RADIO_CMD_ON_START_OF_TIMESLOT \<Rightarrow> TSCH_RADIO_ON_DURING_TIMESLOT
                   | TSCH_RADIO_CMD_ON_WITHIN_TIMESLOT \<Rightarrow> \<not> TSCH_RADIO_ON_DURING_TIMESLOT
                   | TSCH_RADIO_CMD_ON_FORCE \<Rightarrow> True)
      in if do_it then g\<lparr> radio_is_on := True \<rparr> else g)"

definition tsch_radio_off :: "tsch_radio_state_off_cmd \<Rightarrow> 'g slot_state_scheme \<Rightarrow> 'g slot_state_scheme" where
  "tsch_radio_off cmd g =
     (let do_it = (case cmd of
                     TSCH_RADIO_CMD_OFF_END_OF_TIMESLOT \<Rightarrow> TSCH_RADIO_ON_DURING_TIMESLOT
                   | TSCH_RADIO_CMD_OFF_WITHIN_TIMESLOT \<Rightarrow> \<not> TSCH_RADIO_ON_DURING_TIMESLOT
                   | TSCH_RADIO_CMD_OFF_FORCE \<Rightarrow> True)
      in if do_it then g\<lparr> radio_is_on := False \<rparr> else g)"

subsection \<open>The packet for a link\<close>

definition packet_attr :: "packetbuf_attr_type \<Rightarrow> nat \<Rightarrow> 'a tsch_state_scheme \<Rightarrow> u16 option" where
  "packet_attr ty p s = do { b \<leftarrow> tp_qb (pkt s p); queuebuf_attr b ty s }"

text \<open>The loop that removes the packets whose time to live has passed.\<close>

partial_function (option) drop_expired ::
    "nat option \<Rightarrow> tsch_link \<Rightarrow> nat option \<Rightarrow> 'a tsch_state_scheme \<Rightarrow> (nat option \<times> 'a tsch_state_scheme) option" where
  "drop_expired n link p s =
     (case p of
        None \<Rightarrow> Some (None, s)
      | Some q \<Rightarrow> do {
          ttl \<leftarrow> packet_attr PACKETBUF_ATTR_TRANSMISSION_TTL q s;
          if TSCH_SLOTNUM_LT (ucast (ls4b (tsch_current_asn s) - 1)) ttl then Some (Some q, s)
          else do {
            (_, s) \<leftarrow> tsch_queue_remove_packet_from_queue n s;
            let s = tsch_queue_free_packet (Some q) s;
            p \<leftarrow> tsch_queue_get_packet_for_nbr n (Some link) s;
            drop_expired n link p s
          }
        })"

definition too_early :: "nat option \<Rightarrow> 'a tsch_state_scheme \<Rightarrow> bool option" where
  "too_early p s =
     (case p of
        None \<Rightarrow> Some False
      | Some q \<Rightarrow> do {
          earliest \<leftarrow> packet_attr PACKETBUF_ATTR_EARLIEST_TX_SLOT q s;
          Some (TSCH_SLOTNUM_LT (ucast (ls4b (tsch_current_asn s))) earliest)
        })"

text \<open>
  The packet of the flow that the slotframe belongs to, unless the neighbour of the link has a packet that asks to be
  sent by neighbour.
\<close>

definition flow_packet :: "tsch_link \<Rightarrow> nat option \<Rightarrow> nat option \<Rightarrow> 'a tsch_state_scheme \<Rightarrow>
    (nat option \<times> nat option \<times> 'a tsch_state_scheme) option" where
  "flow_packet link n actual s = do {
     p \<leftarrow> tsch_queue_get_packet_for_nbr n (Some link) s;
     actual_packet \<leftarrow> tsch_queue_get_packet_for_nbr actual (Some link) s;
     skip_ttl \<leftarrow> (case actual_packet of
                     None \<Rightarrow> Some False
                   | Some q \<Rightarrow> do { a \<leftarrow> packet_attr PACKETBUF_ATTR_SEND_NBR q s; Some (a \<noteq> 0) });
     if skip_ttl then Some (actual_packet, actual, s)
     else do {
       (p, s) \<leftarrow> drop_expired n link p s;
       early \<leftarrow> too_early p s;
       Some (if early then None else p, n, s)
     }
   }"

definition get_packet_and_neighbor_for_link :: "nat \<Rightarrow> 'g slot_state_scheme \<Rightarrow> 'a sched_state_scheme \<Rightarrow>
    (nat option \<times> nat option \<times> 'g slot_state_scheme \<times> 'a sched_state_scheme) option" where
  "get_packet_and_neighbor_for_link l g s = do {
     let link = lnk s l;
     if l_link_options link AND LINK_OPTION_TX \<noteq> 0 then do {
       (p, n) \<leftarrow> (if l_link_type link = LINK_TYPE_ADVERTISING \<or> l_link_type link = LINK_TYPE_ADVERTISING_ONLY
                  then do { p \<leftarrow> tsch_queue_get_packet_for_nbr (n_eb s) (Some link) s; Some (p, n_eb s) }
                  else Some (None, None));
       if l_link_type link \<noteq> LINK_TYPE_ADVERTISING_ONLY \<and> p = None then do {
         let n = tsch_queue_get_nbr (flow_addr (l_slotframe_handle link)) s;
         let g = g\<lparr> actual_current_neighbor := tsch_queue_get_nbr (l_addr link) s \<rparr>;
         (p, n, s) \<leftarrow> flow_packet link n (actual_current_neighbor g) s;
         if p = None \<and> n = n_broadcast s then do {
           (p, m) \<leftarrow> tsch_queue_get_unicast_packet_for_any (Some link) s;
           Some (p, if p \<noteq> None then m else n, g, s)
         }
         else Some (p, n, g, s)
       }
       else Some (p, n, g, s)
     }
     else Some (None, None, g, s)
   }"

subsection \<open>Transmission slot\<close>

definition is_time_source :: "nat option \<Rightarrow> 'a tsch_state_scheme \<Rightarrow> bool" where
  "is_time_source n s = (case n of None \<Rightarrow> False | Some n \<Rightarrow> n_is_time_source (nbr s n))"

text \<open>The synchronisation to a time source that has acknowledged a packet.\<close>

definition sync_from_ack :: "ieee802154_ies \<Rightarrow> 'g slot_state_scheme \<Rightarrow> 'a mac_state_scheme \<Rightarrow>
    ('g slot_state_scheme \<times> 'a mac_state_scheme) option" where
  "sync_from_ack ack_ies g s = do {
     let eack_time_correction = sint (ie_time_correction ack_ies);
     let since_last_timesync = TSCH_ASN_DIFF (tsch_current_asn s) (last_sync_asn s);
     let g = g\<lparr> drift_correction := (if eack_time_correction > SYNC_IE_BOUND then SYNC_IE_BOUND
                                    else if eack_time_correction < - SYNC_IE_BOUND then - SYNC_IE_BOUND else eack_time_correction),
              is_drift_correction_used := True \<rparr>;
     (g, s) \<leftarrow> tsch_timesync_update (if is_time_source (actual_current_neighbor g) s then actual_current_neighbor g else current_neighbor g)
                (ucast since_last_timesync) (drift_correction g) g s;
     let s = s\<lparr> last_sync_asn := tsch_current_asn s, last_sync_time := clock_time s \<rparr>;
     s \<leftarrow> tsch_schedule_keepalive s;
     Some (g, s)
   }"

definition wait_for_ack :: "frame802154_t \<Rightarrow> linkaddr \<Rightarrow> u8 \<Rightarrow> slot_io \<Rightarrow> 'g slot_state_scheme \<Rightarrow> 'a mac_state_scheme \<Rightarrow>
    ('g slot_state_scheme \<times> 'a mac_state_scheme) option" where
  "wait_for_ack frame0 dest0 seqno io g s = do {
     let g = tsch_radio_off TSCH_RADIO_CMD_OFF_WITHIN_TIMESLOT (tsch_radio_on TSCH_RADIO_CMD_ON_WITHIN_TIMESLOT g);
     let ack_len = io_ack_len io;
     let time_source = (ack_len > 0 \<and> (is_time_source (actual_current_neighbor g) s \<or> is_time_source (current_neighbor g) s));
     (ack_len, ies) \<leftarrow> (if ack_len > 0 then do {
                          (r, _, ies, _) \<leftarrow> tsch_packet_parse_eack (io_ackbuf io) ack_len seqno (Some frame0) (Some ies_zero) True dest0 s;
                          Some (if r = 0 then 0 else ack_len, ies)
                        }
                        else Some (ack_len, None));
     if ack_len \<noteq> 0 then do {
       (g, s) \<leftarrow> (if time_source then do { ack_ies \<leftarrow> ies; sync_from_ack ack_ies g s } else Some (g, s));
       Some (g\<lparr> mac_tx_status := MAC_TX_OK \<rparr>, s)
     }
     else Some (g\<lparr> mac_tx_status := MAC_TX_NOACK \<rparr>, s)
   }"

text \<open>The beacon is updated in the queue buffer itself.\<close>

definition queuebuf_write :: "nat \<Rightarrow> u8 list \<Rightarrow> 'a qbuf_state_scheme \<Rightarrow> 'a qbuf_state_scheme option" where
  "queuebuf_write b bytes s = do {
     (j, d) \<leftarrow> queuebuf_load_to_ram b s;
     Some (s\<lparr> buframmem := memb_put (buframmem s) j (d\<lparr> qd_data := bytes \<rparr>) \<rparr>)
   }"

text \<open>
  Sending the packet of a queue buffer. When the packet is not ready or the radio does not accept it, the status keeps
  the value of the slot before. The result has the bytes that were sent.
\<close>

definition transmit_packet :: "frame802154_t \<Rightarrow> linkaddr \<Rightarrow> slot_io \<Rightarrow> nat \<Rightarrow> nat \<Rightarrow> 'g slot_state_scheme \<Rightarrow> 'a mac_state_scheme \<Rightarrow>
    (u8 list option \<times> 'g slot_state_scheme \<times> 'a mac_state_scheme) option" where
  "transmit_packet frame0 dest0 io p b g s = do {
     d \<leftarrow> queuebuf_dataptr b s;
     bytes \<leftarrow> d;
     len \<leftarrow> queuebuf_datalen b s;
     let packet_len = (ucast len :: u8);
     n \<leftarrow> current_neighbor g;
     let is_broadcast = n_is_broadcast (nbr s n);
     seqno \<leftarrow> nth_opt bytes 2;
     (packet_ready, bytes, s) \<leftarrow>
       (if n_eb s = Some n then do {
          (r, bytes) \<leftarrow> tsch_packet_update_eb bytes (uint packet_len) (tp_sync_ie_offset (pkt s p)) s;
          s \<leftarrow> queuebuf_write b bytes s;
          Some (r \<noteq> 0, bytes, s)
        }
        else Some (True, bytes, s));
     if packet_ready \<and> io_prepare io = 0 then do {
       let s = s\<lparr> tx_count := tx_count s + 1 \<rparr>;
       let g = tsch_radio_off TSCH_RADIO_CMD_OFF_WITHIN_TIMESLOT g;
       (g, s) \<leftarrow> (if io_transmit io = RADIO_TX_OK
                  then if \<not> is_broadcast then wait_for_ack frame0 dest0 seqno io g s else Some (g\<lparr> mac_tx_status := MAC_TX_OK \<rparr>, s)
                  else Some (g\<lparr> mac_tx_status := MAC_TX_ERR \<rparr>, s));
       sent \<leftarrow> slice_opt bytes 0 (unat packet_len);
       Some (Some sent, g, s)
     }
     else Some (None, g, s)
   }"

text \<open>The end of the slot: the packet that has left its queue is handed to the process that calls the sent callbacks.\<close>

definition tx_slot_end :: "nat \<Rightarrow> 'g slot_state_scheme \<Rightarrow> 'a mac_state_scheme \<Rightarrow> ('g slot_state_scheme \<times> 'a mac_state_scheme) option" where
  "tx_slot_end dequeued_index g s = do {
     let g = tsch_radio_off TSCH_RADIO_CMD_OFF_END_OF_TIMESLOT g;
     p \<leftarrow> current_packet g;
     n \<leftarrow> current_neighbor g;
     l \<leftarrow> current_link s;
     let s = set_pkt p ((pkt s p)\<lparr> tp_transmissions := tp_transmissions (pkt s p) + 1, tp_ret := mac_tx_status g \<rparr>) s;
     (in_queue, s) \<leftarrow> tsch_queue_packet_sent n p (lnk s l) (mac_tx_status g) s;
     s \<leftarrow> (if \<not> in_queue then do {
              a \<leftarrow> upd_opt (dequeued_array s) dequeued_index (Some p);
              Some (s\<lparr> dequeued_array := a, dequeued_ringbuf := snd (ringbufindex_put (dequeued_ringbuf s)) \<rparr>)
            }
            else Some s);
     Some (g, post_event EV_POLL_PENDING_EVENTS s)
   }"

definition tsch_tx_slot :: "frame802154_t \<Rightarrow> linkaddr \<Rightarrow> slot_io \<Rightarrow> 'g slot_state_scheme \<Rightarrow> 'a mac_state_scheme \<Rightarrow>
    (u8 list option \<times> 'g slot_state_scheme \<times> 'a mac_state_scheme) option" where
  "tsch_tx_slot frame0 dest0 io g s =
     (let dequeued_index = ringbufindex_peek_put (dequeued_ringbuf s) in
      if dequeued_index \<noteq> - 1 then do {
        (sent, g, s) \<leftarrow>
          (case (do { p \<leftarrow> current_packet g; b \<leftarrow> tp_qb (pkt s p); Some (p, b) }) of
             None \<Rightarrow> Some (None, g\<lparr> mac_tx_status := MAC_TX_ERR_FATAL \<rparr>, s)
           | Some (p, b) \<Rightarrow> transmit_packet frame0 dest0 io p b g s);
        (g, s) \<leftarrow> tx_slot_end (nat dequeued_index) g s;
        Some (sent, g, s)
      }
      else Some (None, g, s))"

subsection \<open>Reception slot\<close>

text \<open>The acknowledgement of a received frame; without a \<open>TSCH_CALLBACK_DO_NACK\<close> it is never negative.\<close>

definition acknowledge :: "frame802154_t \<Rightarrow> linkaddr \<Rightarrow> u8 \<Rightarrow> int \<Rightarrow> 'a mac_state_scheme \<Rightarrow> (u8 list option \<times> 'a mac_state_scheme) option" where
  "acknowledge params0 source seqno estimated_drift s = do {
     (ack_len, buf, s) \<leftarrow> tsch_packet_create_eack params0 (Some (replicate TSCH_PACKET_MAX_LEN 0)) (word_of_nat TSCH_PACKET_MAX_LEN)
                            (Some source) seqno (word_of_int (to_i16 estimated_drift)) 0 s;
     if ack_len > 0 then do {
       buf \<leftarrow> buf;
       ack \<leftarrow> slice_opt buf 0 (nat ack_len);
       Some (Some ack, s)
     }
     else Some (None, s)
   }"

definition sync_from_packet :: "linkaddr \<Rightarrow> int \<Rightarrow> 'g slot_state_scheme \<Rightarrow> 'a mac_state_scheme \<Rightarrow>
    ('g slot_state_scheme \<times> 'a mac_state_scheme) option" where
  "sync_from_packet source estimated_drift g s =
     (let n = tsch_queue_get_nbr source s in
      if is_time_source n s then do {
        let since_last_timesync = TSCH_ASN_DIFF (tsch_current_asn s) (last_sync_asn s);
        let s = s\<lparr> last_sync_asn := tsch_current_asn s, last_sync_time := clock_time s \<rparr>;
        let g = g\<lparr> drift_correction := - estimated_drift, is_drift_correction_used := True \<rparr>;
        let s = s\<lparr> sync_count := sync_count s + 1 \<rparr>;
        (g, s) \<leftarrow> tsch_timesync_update n (ucast since_last_timesync) (- estimated_drift) g s;
        s \<leftarrow> tsch_schedule_keepalive s;
        Some (g, s)
      }
      else Some (g, s))"

definition accept_input :: "'a mac_state_scheme \<Rightarrow> 'a mac_state_scheme" where
  "accept_input s = s\<lparr> input_ringbuf := snd (ringbufindex_put (input_ringbuf s)) \<rparr>"

text \<open>A frame for this node, or a broadcast.\<close>

definition rx_own :: "frame802154_t \<Rightarrow> frame802154_t \<Rightarrow> linkaddr \<Rightarrow> u64 \<Rightarrow> u64 \<Rightarrow> 'g slot_state_scheme \<Rightarrow> 'a mac_state_scheme \<Rightarrow>
    (u8 list option \<times> 'g slot_state_scheme \<times> 'a mac_state_scheme) option" where
  "rx_own params0 frame source expected_rx_time rx_start_time g s = do {
     let s = s\<lparr> rx_count := rx_count s + 1 \<rparr>;
     let estimated_drift = to_i32 (sint (expected_rx_time - rx_start_time));
     (ack, s) \<leftarrow> (if fcf_ack_required (fr_fcf frame) \<noteq> 0 then acknowledge params0 source (fr_seq frame) estimated_drift s else Some (None, s));
     (g, s) \<leftarrow> sync_from_packet source estimated_drift g s;
     Some (ack, g, accept_input s)
   }"

text \<open>A frame for another node is accepted when its elements ask for overhearing.\<close>

definition rx_overheard :: "frame802154_t \<Rightarrow> int \<Rightarrow> input_packet \<Rightarrow> 'a mac_state_scheme \<Rightarrow> 'a mac_state_scheme option" where
  "rx_overheard frame header_len current_input s =
     (if fcf_ie_list_present (fr_fcf frame) \<noteq> 0 then do {
        (total_len, ies) \<leftarrow> frame802154e_parse_information_elements (drop (nat header_len) (ip_payload current_input))
                              (word_of_int (ip_len current_input - header_len)) (Some ies_zero);
        ies \<leftarrow> ies;
        Some (if \<not> tsch_is_coordinator s \<and> total_len \<noteq> 0 \<and> ie_overhearing ies \<noteq> 0 then accept_input s else s)
      }
      else Some s)"

definition rx_frame :: "frame802154_t \<Rightarrow> frame802154_t \<Rightarrow> nat \<Rightarrow> u64 \<Rightarrow> u64 \<Rightarrow> 'g slot_state_scheme \<Rightarrow> 'a mac_state_scheme \<Rightarrow>
    (u8 list option \<times> 'g slot_state_scheme \<times> 'a mac_state_scheme) option" where
  "rx_frame frame0 params0 input_index expected_rx_time rx_start_time g s = do {
     current_input \<leftarrow> nth_opt (input_array s) input_index;
     (header_len, frame) \<leftarrow> frame802154_parse (ip_payload current_input) (ip_len current_input) frame0;
     let (ok, source, dest) = frame802154_extract_linkaddr (Some frame) linkaddr_null linkaddr_null;
     let frame_valid = (header_len > 0 \<and> frame802154_check_dest_panid (frame802154_get_pan_id s) (Some frame) \<and> ok \<and>
                        (fcf_frame_type (fr_fcf frame) = FRAME802154_DATAFRAME \<or> fcf_frame_type (fr_fcf frame) = FRAME802154_BEACONFRAME));
     if frame_valid then do {
       (ack, g, s) \<leftarrow> (if linkaddr_cmp dest (linkaddr_node_addr s) \<or> linkaddr_cmp dest linkaddr_null
                       then rx_own params0 frame source expected_rx_time rx_start_time g s
                       else do { s \<leftarrow> rx_overheard frame header_len current_input s; Some (None, g, s) });
       Some (ack, g, post_event EV_POLL_PENDING_EVENTS s)
     }
     else Some (None, g, s)
   }"

definition tsch_rx_slot :: "frame802154_t \<Rightarrow> frame802154_t \<Rightarrow> slot_io \<Rightarrow> 'g slot_state_scheme \<Rightarrow> 'a mac_state_scheme \<Rightarrow>
    (u8 list option \<times> 'g slot_state_scheme \<times> 'a mac_state_scheme) option" where
  "tsch_rx_slot frame0 params0 io g s =
     (let input_index = ringbufindex_peek_put (input_ringbuf s) in
      if input_index = - 1 \<or> tsch_queue_global_packet_count s = int QUEUEBUF_NUM - 1
      then Some (None, g\<lparr> input_queue_drop := input_queue_drop g + 1 \<rparr>, s)
      else do {
        t \<leftarrow> nth_opt (tsch_timing s) tsch_ts_tx_offset;
        let expected_rx_time = current_slot_start s + t;
        let g = tsch_radio_on TSCH_RADIO_CMD_ON_WITHIN_TIMESLOT g;
        (ack, g, s) \<leftarrow>
          (if \<not> io_packet_seen io then Some (None, tsch_radio_off TSCH_RADIO_CMD_OFF_FORCE g, s)
           else do {
             let g = tsch_radio_off TSCH_RADIO_CMD_OFF_WITHIN_TIMESLOT g;
             (ack, g, s) \<leftarrow>
               (if io_pending_packet io then do {
                  current_input \<leftarrow> nth_opt (input_array s) (nat input_index);
                  payload \<leftarrow> put_opt (ip_payload current_input) 0 (io_read io);
                  let current_input = \<lparr> ip_payload = payload, ip_rx_asn = tsch_current_asn s, ip_len = int (length (io_read io)),
                                        ip_rssi = io_rssi io, ip_channel = current_channel g \<rparr>;
                  let s = s\<lparr> input_array := (input_array s)[nat input_index := current_input] \<rparr>;
                  rx_frame frame0 params0 (nat input_index) expected_rx_time (io_rx_start_time io) g s
                }
                else Some (None, g, s));
             Some (ack, tsch_radio_off TSCH_RADIO_CMD_OFF_END_OF_TIMESLOT g, s)
           });
        Some (ack, g\<lparr> input_queue_drop := 0 \<rparr>, s)
      })"

subsection \<open>One slot after the other\<close>

definition stop_tsch_timer :: "'g slot_state_scheme \<Rightarrow> 'g slot_state_scheme" where
  "stop_tsch_timer g = g\<lparr> stop := True \<rparr>"

text \<open>The work of an active slot. The result has the bytes that the node sends in the slot.\<close>

definition run_slot :: "frame802154_t \<Rightarrow> frame802154_t \<Rightarrow> linkaddr \<Rightarrow> slot_io \<Rightarrow> 'g slot_state_scheme \<Rightarrow> 'a mac_state_scheme \<Rightarrow>
    (u8 list option \<times> 'g slot_state_scheme \<times> 'a mac_state_scheme) option" where
  "run_slot frame0 params0 dest0 io g s =
     (if current_link s = None \<or> tsch_lock_requested s then Some (None, g, s)
      else do {
        l \<leftarrow> current_link s;
        let s = s\<lparr> tsch_in_slot_operation := True \<rparr>;
        let g = g\<lparr> drift_correction := 0, is_drift_correction_used := False \<rparr>;
        (p, n, g, s) \<leftarrow> get_packet_and_neighbor_for_link l g s;
        let g = g\<lparr> current_packet := p, current_neighbor := n \<rparr>;
        (g, s) \<leftarrow> (case backup_link g of
                      Some k \<Rightarrow>
                        if p = None \<and> l_link_options (lnk s l) AND LINK_OPTION_RX = 0 then do {
                          let s = s\<lparr> current_link := Some k \<rparr>;
                          (p, n, g, s) \<leftarrow> get_packet_and_neighbor_for_link k g s;
                          Some (g\<lparr> current_packet := p, current_neighbor := n \<rparr>, s)
                        }
                        else Some (g, s)
                    | None \<Rightarrow> Some (g, s));
        l \<leftarrow> current_link s;
        if current_packet g \<noteq> None \<or> l_link_options (lnk s l) AND LINK_OPTION_RX \<noteq> 0 then do {
          ch \<leftarrow> tsch_calculate_channel (tsch_current_asn s) (ucast (l_channel_offset (lnk s l))) s;
          let g = tsch_radio_on TSCH_RADIO_CMD_ON_START_OF_TIMESLOT (g\<lparr> current_channel := ch \<rparr>);
          if current_packet g \<noteq> None then tsch_tx_slot frame0 dest0 io g s else tsch_rx_slot frame0 params0 io g s
        }
        else Some (None, g, s)
      })"

text \<open>One round of the loop that looks for the next active slot.\<close>

definition shared_tx_link :: "'a mac_state_scheme \<Rightarrow> bool" where
  "shared_tx_link s =
     (case current_link s of
        None \<Rightarrow> False
      | Some l \<Rightarrow> l_link_options (lnk s l) AND LINK_OPTION_TX \<noteq> 0 \<and> l_link_options (lnk s l) AND LINK_OPTION_SHARED \<noteq> 0)"

text \<open>Without a next link the node wakes up in the next slot; a locked schedule leaves the distance as it was.\<close>

definition next_slot :: "'g slot_state_scheme \<Rightarrow> 'a mac_state_scheme \<Rightarrow> u16 \<times> 'g slot_state_scheme \<times> 'a mac_state_scheme" where
  "next_slot g s =
     (case tsch_schedule_get_next_active_link (tsch_current_asn s) s of
        (l, d, backup) \<Rightarrow>
          (let timeslot_diff = (case l of None \<Rightarrow> 1 | Some _ \<Rightarrow> (case d of None \<Rightarrow> 0 | Some d \<Rightarrow> d))
           in (timeslot_diff, g\<lparr> backup_link := backup \<rparr>,
               s\<lparr> current_link := l, tsch_current_asn := TSCH_ASN_INC (tsch_current_asn s) (ucast timeslot_diff) \<rparr>)))"

partial_function (option) schedule_next_slot :: "'g slot_state_scheme \<Rightarrow> 'a mac_state_scheme \<Rightarrow> ('g slot_state_scheme \<times> 'a mac_state_scheme) option" where
  "schedule_next_slot g s = do {
     let s = (if shared_tx_link s then tsch_queue_update_all_backoff_windows (l_addr (lnk s (the (current_link s)))) s else s);
     let (timeslot_diff, g, s) = next_slot g s;
     len \<leftarrow> nth_opt (tsch_timing s) tsch_ts_timeslot_length;
     let time_to_next_active_slot = ucast timeslot_diff * len + word_of_int (drift_correction g);
     let g = g\<lparr> drift_correction := 0, is_drift_correction_used := False \<rparr>;
     let prev_slot_start = current_slot_start s;
     let (comp, g) = tsch_timesync_adaptive_compensate time_to_next_active_slot g;
     let s = s\<lparr> current_slot_start := current_slot_start s + time_to_next_active_slot + word_of_int comp \<rparr>;
     let (ok, g) = tsch_schedule_slot_operation (rtimer_now s) prev_slot_start time_to_next_active_slot g;
     if ok then Some (g, s) else schedule_next_slot g s
   }"

text \<open>The difference, a signed 32-bit number, is compared as an unsigned 64-bit one.\<close>

definition lost_synchronisation :: "'a mac_state_scheme \<Rightarrow> bool option" where
  "lost_synchronisation s =
     (if tsch_is_coordinator s then Some False
      else do {
        len \<leftarrow> nth_opt (tsch_timing s) tsch_ts_timeslot_length;
        guard_opt (len \<noteq> 0);
        let slots = (ucast (TSCH_DESYNC_THRESHOLD div 100) * word_of_nat RTIMER_SECOND div word_of_nat CLOCK_SECOND) div len;
        Some (word_of_int (sint (TSCH_ASN_DIFF (tsch_current_asn s) (last_sync_asn s))) > 100 * slots)
      })"

definition slot_operation_body :: "frame802154_t \<Rightarrow> frame802154_t \<Rightarrow> linkaddr \<Rightarrow> slot_io \<Rightarrow> 'g slot_state_scheme \<Rightarrow> 'a mac_state_scheme \<Rightarrow>
    (u8 list option \<times> 'g slot_state_scheme \<times> 'a mac_state_scheme) option" where
  "slot_operation_body frame0 params0 dest0 io g s = do {
     (sent, g, s) \<leftarrow> run_slot frame0 params0 dest0 io g s;
     lost \<leftarrow> lost_synchronisation s;
     (g, s) \<leftarrow> (if lost then Some (g\<lparr> last_timesource_neighbor := None \<rparr>, tsch_disassociate s) else schedule_next_slot g s);
     Some (sent, g, s\<lparr> tsch_in_slot_operation := False \<rparr>)
   }"

text \<open>
  An expiry of the slot timer. When the timer has been stopped the protothread yields once before the slot, and the
  next expiry goes on from there.
\<close>

definition tsch_slot_operation :: "frame802154_t \<Rightarrow> frame802154_t \<Rightarrow> linkaddr \<Rightarrow> slot_io \<Rightarrow> 'g slot_state_scheme \<Rightarrow> 'a mac_state_scheme \<Rightarrow>
    (u8 list option \<times> 'g slot_state_scheme \<times> 'a mac_state_scheme) option" where
  "tsch_slot_operation frame0 params0 dest0 io g s =
     (if waiting_for_restart g then slot_operation_body frame0 params0 dest0 io (g\<lparr> waiting_for_restart := False \<rparr>) s
      else if tsch_is_associated s then
        if stop g then Some (None, g\<lparr> waiting_for_restart := True \<rparr>, s)
        else slot_operation_body frame0 params0 dest0 io g s
      else Some (None, g, s))"

text \<open>The first slot after joining a network.\<close>

partial_function (option) tsch_slot_operation_start :: "'g slot_state_scheme \<Rightarrow> 'a mac_state_scheme \<Rightarrow> ('g slot_state_scheme \<times> 'a mac_state_scheme) option" where
  "tsch_slot_operation_start g s = do {
     let (timeslot_diff, g, s) = next_slot g s;
     len \<leftarrow> nth_opt (tsch_timing s) tsch_ts_timeslot_length;
     let time_to_next_active_slot = ucast timeslot_diff * len;
     let prev_slot_start = current_slot_start s;
     let s = s\<lparr> current_slot_start := current_slot_start s + time_to_next_active_slot \<rparr>;
     let (ok, g) = tsch_schedule_slot_operation (rtimer_now s) prev_slot_start time_to_next_active_slot g;
     if ok then Some (g, s) else tsch_slot_operation_start g s
   }"

definition setUploadDone :: "'g slot_state_scheme \<Rightarrow> 'a mac_state_scheme \<Rightarrow> ('g slot_state_scheme \<times> 'a mac_state_scheme) option" where
  "setUploadDone g s = tsch_slot_operation_start (g\<lparr> stop := False \<rparr>) s"

end
