(* ===== verification/FrameIEProps.thy ===== *)
theory FrameIEProps
  imports FrameIE
begin

text \<open>
  The parser of information elements reads back what the creators write, and both stay within their
  buffers, with the exceptions the last section shows.
\<close>

subsection \<open>Descriptors\<close>

lemma READ16_WRITE16 [simp]: "READ16 (WRITE16 w @ r) 0 = Some w"
  by (simp add: READ16_def WRITE16_def nth_opt_def)

lemma length_WRITE16 [simp]: "length (WRITE16 w) = 2"
  by (simp add: WRITE16_def)

lemma take_bit_mod_unat: "unat (take_bit n (d :: u16)) = unat d mod 2 ^ n"
  by (simp add: unsigned_take_bit_eq flip: take_bit_eq_mod)

lemma drop_bit_div_unat: "unat (drop_bit n (d :: u16)) = unat d div 2 ^ n"
  by (simp add: unsigned_drop_bit_eq take_bit_nat_eq_self flip: drop_bit_eq_div)

lemma and_field:
  fixes d :: u16
  shows "d AND 0xff = take_bit 8 d" "d AND 0x7f = take_bit 7 d" "d AND 0x7ff = take_bit 11 d"
    "drop_bit 8 (d AND 0x7f00) = take_bit 7 (drop_bit 8 d)" "drop_bit 11 (d AND 0x7800) = take_bit 4 (drop_bit 11 d)"
    "drop_bit 7 (d AND 0x7f80) = take_bit 8 (drop_bit 7 d)"
proof -
  show "d AND 0xff = take_bit 8 d" "d AND 0x7f = take_bit 7 d" "d AND 0x7ff = take_bit 11 d"
    by (simp_all add: take_bit_eq_mask mask_eq_exp_minus_1)
  have c: "(0x7f00 :: u16) = push_bit 8 (mask 7)" "(0x7800 :: u16) = push_bit 11 (mask 4)" "(0x7f80 :: u16) = push_bit 7 (mask 8)"
    by (simp_all add: mask_eq_exp_minus_1)
  show "drop_bit 8 (d AND 0x7f00) = take_bit 7 (drop_bit 8 d)" "drop_bit 11 (d AND 0x7800) = take_bit 4 (drop_bit 11 d)"
    "drop_bit 7 (d AND 0x7f80) = take_bit 8 (drop_bit 7 d)"
    unfolding c by (rule bit_word_eqI; auto simp: bit_simps)+
qed

lemma and_top: "(d :: u16) AND 0x8000 \<noteq> 0 \<longleftrightarrow> odd (unat d div 32768)"
proof -
  have "(0x8000 :: u16) = push_bit 15 1" by simp
  then have "d AND 0x8000 \<noteq> 0 \<longleftrightarrow> bit d 15" by (metis and.commute bit_iff_and_push_bit_not_eq_0)
  also have "\<dots> \<longleftrightarrow> bit (unat d) 15" by (simp add: bit_unsigned_iff)
  finally show ?thesis by (simp add: bit_iff_odd)
qed

lemma ucast8_of_unat: "unat (w :: u16) = n \<Longrightarrow> n < 256 \<Longrightarrow> (ucast w :: u8) = word_of_nat n"
  by (simp add: word_unat_eq_iff unsigned_ucast_eq take_bit_nat_eq_self)

text \<open>What the parser extracts from a descriptor, given its value.\<close>

lemma short_fields:
  assumes "unat (d :: u16) = l + 256 * s" "l < 256" "s < 128"
  shows "\<not> d AND 0x8000 \<noteq> 0" "unat (d AND 0xff) = l" "(ucast (drop_bit 8 (d AND 0x7f00)) :: u8) = word_of_nat s"
  using assms unfolding and_field and_top
  by (auto simp: take_bit_mod_unat drop_bit_div_unat intro!: ucast8_of_unat)

lemma long_fields:
  assumes "unat (d :: u16) = l + 2048 * s + 32768" "l < 2048" "s < 16"
  shows "d AND 0x8000 \<noteq> 0" "unat (d AND 0x7ff) = l" "(ucast (drop_bit 11 (d AND 0x7800)) :: u8) = word_of_nat s"
proof -
  obtain k where k: "k = s + 16" by simp
  have e: "unat d = l + 2048 * k" using assms(1) by (simp add: k)
  have "unat d div 32768 = 1" using assms by (intro div_nat_eqI) simp_all
  then show "d AND 0x8000 \<noteq> 0" unfolding and_top by simp
  show "unat (d AND 0x7ff) = l" unfolding and_field take_bit_mod_unat e using assms(2) by simp
  have "(l + 2048 * k) div 2048 = k" using assms(2) by simp
  moreover have "k mod 16 = s" using assms(3) by (simp add: k)
  ultimately have "unat (take_bit 4 (drop_bit 11 d)) = s" unfolding take_bit_mod_unat drop_bit_div_unat e by simp
  then show "(ucast (drop_bit 11 (d AND 0x7800)) :: u8) = word_of_nat s"
    unfolding and_field using assms(3) by (intro ucast8_of_unat) simp_all
qed

lemma header_fields:
  assumes "unat (d :: u16) = l + 128 * s" "l < 128" "s < 256"
  shows "\<not> d AND 0x8000 \<noteq> 0" "unat (d AND 0x7f) = l" "(ucast (drop_bit 7 (d AND 0x7f80)) :: u8) = word_of_nat s"
  using assms unfolding and_field and_top
  by (auto simp: take_bit_mod_unat drop_bit_div_unat intro!: ucast8_of_unat)

lemma unat_word_mult_pow: "unat (push_bit n (w :: u16)) = unat w * 2 ^ n" if "unat w * 2 ^ n < 65536"
proof -
  have "unat (push_bit n w) = take_bit 16 (push_bit n (unat w))" by (simp add: unsigned_push_bit_eq)
  also have "\<dots> = take_bit 16 (unat w * 2 ^ n)" unfolding push_bit_eq_mult ..
  finally show ?thesis using that by (simp add: take_bit_nat_eq_self)
qed

lemma unat_sum16: "unat (a :: u16) + unat b < 65536 \<Longrightarrow> unat (a + b) = unat a + unat b"
  by (simp add: unat_word_ariths)

lemma unat_ucast16: "unat (ucast (b :: u8) :: u16) = unat b"
proof -
  have "unat b < 65536" using unat_lt_256 [of b] by linarith
  then show ?thesis by (simp add: unsigned_ucast_eq take_bit_nat_eq_self)
qed

lemma and_sub8:
  fixes b :: u8
  shows "b AND 0xff = b" "unat b < 128 \<Longrightarrow> b AND 0x7f = b" "unat b < 16 \<Longrightarrow> b AND 0x0f = b"
proof -
  have t: "unat b < 2 ^ n \<Longrightarrow> take_bit n b = b" for n
    by (simp add: word_unat_eq_iff unsigned_take_bit_eq take_bit_nat_eq_self)
  have m: "b AND 0xff = take_bit 8 b" "b AND 0x7f = take_bit 7 b" "b AND 0x0f = take_bit 4 b"
    by (simp_all add: take_bit_eq_mask mask_eq_exp_minus_1)
  show "b AND 0xff = b" "unat b < 128 \<Longrightarrow> b AND 0x7f = b" "unat b < 16 \<Longrightarrow> b AND 0x0f = b"
    unfolding m using t [of 8] t [of 7] t [of 4] by simp_all
qed

lemma desc_values:
  fixes i :: u8
  shows "n < 256 \<Longrightarrow> unat i < 128 \<Longrightarrow> unat ((word_of_nat n AND 0xff :: u16) + push_bit 8 (ucast (i AND 0x7f))) = n + 256 * unat i"
    "n < 128 \<Longrightarrow> unat ((word_of_nat n AND 0x7f :: u16) + push_bit 7 (ucast (i AND 0xff))) = n + 128 * unat i"
    "n < 2048 \<Longrightarrow> unat i < 16 \<Longrightarrow>
      unat ((word_of_nat n AND 0x07ff :: u16) + push_bit 11 (ucast (i AND 0x0f)) + push_bit 15 1) = n + 2048 * unat i + 32768"
proof -
  have w: "unat (take_bit k (word_of_nat n :: u16)) = n" if "n < 2 ^ k" "n < 65536" for k
    using that by (simp add: take_bit_mod_unat)
  have p: "unat (push_bit k (ucast i :: u16)) = unat i * 2 ^ k" if "unat i * 2 ^ k < 65536" for k
    using that by (simp add: unat_word_mult_pow unat_ucast16)
  have b: "unat i < 256" by simp
  show "n < 256 \<Longrightarrow> unat i < 128 \<Longrightarrow> unat ((word_of_nat n AND 0xff :: u16) + push_bit 8 (ucast (i AND 0x7f))) = n + 256 * unat i"
    using w [of 8] p [of 8] by (simp add: and_field and_sub8 unat_sum16)
  show "n < 128 \<Longrightarrow> unat ((word_of_nat n AND 0x7f :: u16) + push_bit 7 (ucast (i AND 0xff))) = n + 128 * unat i"
  proof -
    assume "n < 128"
    then have "unat (take_bit 7 (word_of_nat n) :: u16) = n" "unat (push_bit 7 (ucast i) :: u16) = 128 * unat i"
      using w [of 7] p [of 7] unat_lt_256 [of i] by simp_all
    then show ?thesis unfolding and_field and_sub8
      using unat_sum16 [of "take_bit 7 (word_of_nat n)" "push_bit 7 (ucast i)"] unat_lt_256 [of i] \<open>n < 128\<close> by linarith
  qed
  assume n: "n < 2048" "unat i < 16"
  let ?a = "take_bit 11 (word_of_nat n) :: u16" and ?b = "push_bit 11 (ucast i) :: u16" and ?c = "push_bit 15 1 :: u16"
  have v: "unat ?a = n" "unat ?b = 2048 * unat i" "unat ?c = 32768" using n w [of 11] p [of 11] by simp_all
  have ab: "unat (?a + ?b) = n + 2048 * unat i" using unat_sum16 [of ?a ?b] v n by linarith
  have "unat (?a + ?b + ?c) = n + 2048 * unat i + 32768" using unat_sum16 [of "?a + ?b" ?c] ab v n by linarith
  then show "unat ((word_of_nat n AND 0x07ff :: u16) + push_bit 11 (ucast (i AND 0x0f)) + push_bit 15 1) = n + 2048 * unat i + 32768"
    unfolding and_field and_sub8(3) [OF n(2)] .
qed

subsection \<open>One round of the parser\<close>

lemma unat_ids [simp]:
  "unat HEADER_IE_ACK_NACK_TIME_CORRECTION = 0x1e" "unat HEADER_IE_LIST_TERMINATION_1 = 0x7e"
  "unat HEADER_IE_LIST_TERMINATION_2 = 0x7f" "unat PAYLOAD_IE_MLME = 1" "unat PAYLOAD_IE_LIST_TERMINATION = 0xf"
  "unat MLME_SHORT_IE_TSCH_SYNCHRONIZATION = 0x1a" "unat MLME_SHORT_IE_TSCH_SLOFTRAME_AND_LINK = 0x1b"
  "unat MLME_SHORT_IE_TSCH_TIMESLOT = 0x1c" "unat MLME_SHORT_IE_TSCH_OVERHEARING = 0x37"
  "unat MLME_SHORT_IE_SEQUENCE_NUMBER = 0x38" "unat MLME_SHORT_IE_RANK = 0x39" "unat MLME_SHORT_IE_TIME_SOURCE = 0x3a"
  "unat MLME_SHORT_IE_SCHEDULE_VERSION = 0x3b" "unat MLME_SHORT_IE_SCHEDULE_PACKETS = 0x3c"
  "unat MLME_SHORT_IE_SCHEDULE_RECEIVED = 0x3d" "unat MLME_LONG_IE_TSCH_CHANNEL_HOPPING_SEQUENCE = 9"
  by (simp_all add: ie_ids)

lemma loop_termination_1:
  "parse_ies_loop PARSING_HEADER_IE k pos (Suc (Suc n)) (create_header_ie_descriptor HEADER_IE_LIST_TERMINATION_1 0 @ p) ies =
     parse_ies_loop PARSING_PAYLOAD_IE k (pos + 2) n p (ies\<lparr> ie_payload_ie_offset := word_of_nat (pos + 2) \<rparr>)"
proof -
  let ?d = "(word_of_nat 0 AND 0x7f :: u16) + push_bit 7 (ucast (HEADER_IE_LIST_TERMINATION_1 AND 0xff))"
  have v: "unat ?d = 0 + 128 * 0x7e" using desc_values(2) [of 0 HEADER_IE_LIST_TERMINATION_1] unfolding unat_ids by simp
  note f = header_fields [OF v]
  have i: "(word_of_nat 0x7e :: u8) = HEADER_IE_LIST_TERMINATION_1" by (simp add: ie_ids)
  show ?thesis unfolding create_header_ie_descriptor_def
    by (subst parse_ies_loop.simps) (use f i in \<open>simp add: Let_def\<close>)
qed

lemma loop_mlme:
  assumes "len < 2048"
  shows "parse_ies_loop PARSING_PAYLOAD_IE k pos (Suc (Suc n)) (create_payload_ie_descriptor PAYLOAD_IE_MLME len @ p) ies =
     parse_ies_loop PARSING_MLME_SUBIE (int len) (pos + 2) n p ies"
proof -
  let ?d = "(word_of_nat len AND 0x07ff :: u16) + push_bit 11 (ucast (PAYLOAD_IE_MLME AND 0x0f)) + push_bit 15 1"
  have v: "unat ?d = len + 2048 * 1 + 32768" using desc_values(3) [of len PAYLOAD_IE_MLME] assms unfolding unat_ids by simp
  note f = long_fields [OF v assms]
  have i: "(word_of_nat 1 :: u8) = PAYLOAD_IE_MLME" by (simp add: ie_ids)
  show ?thesis unfolding create_payload_ie_descriptor_def
    by (subst parse_ies_loop.simps) (use f i in \<open>simp add: Let_def\<close>)
qed

lemma loop_payload_termination:
  "parse_ies_loop PARSING_PAYLOAD_IE k pos (Suc (Suc n)) (create_payload_ie_descriptor PAYLOAD_IE_LIST_TERMINATION 0 @ p) ies =
     Some (int (pos + 2), ies)"
proof -
  let ?d = "(word_of_nat 0 AND 0x07ff :: u16) + push_bit 11 (ucast (PAYLOAD_IE_LIST_TERMINATION AND 0x0f)) + push_bit 15 1"
  have v: "unat ?d = 0 + 2048 * 0xf + 32768" using desc_values(3) [of 0 PAYLOAD_IE_LIST_TERMINATION] unfolding unat_ids by simp
  note f = long_fields [OF v]
  have i: "(word_of_nat 0xf :: u8) = PAYLOAD_IE_LIST_TERMINATION" "PAYLOAD_IE_LIST_TERMINATION \<noteq> PAYLOAD_IE_MLME" by (simp_all add: ie_ids)
  show ?thesis unfolding create_payload_ie_descriptor_def
    by (subst parse_ies_loop.simps) (use f i in \<open>simp add: Let_def\<close>)
qed

text \<open>A short sub-element that its parser accepts.\<close>

lemma loop_short:
  assumes len: "length content < 256" and i: "unat i < 128"
    and p: "frame802154e_parse_mlme_short_ie (content @ r) (length content) i ies = Some (int (length content), ies')"
    and k: "2 + int (length content) \<le> k"
  shows "parse_ies_loop PARSING_MLME_SUBIE k pos (2 + length content + n)
      (create_mlme_short_ie_descriptor i (length content) @ content @ r) ies =
    parse_ies_loop (if k = 2 + int (length content) then PARSING_PAYLOAD_IE else PARSING_MLME_SUBIE)
      (k - (2 + int (length content))) (pos + (2 + length content)) n r ies'"
proof -
  let ?d = "(word_of_nat (length content) AND 0xff :: u16) + push_bit 8 (ucast (i AND 0x7f))"
  have v: "unat ?d = length content + 256 * unat i" using desc_values(1) [OF len i] by simp
  note f = short_fields [OF v len i]
  show ?thesis unfolding create_mlme_short_ie_descriptor_def
    by (subst parse_ies_loop.simps) (use f p k in \<open>simp add: Let_def algebra_simps\<close>)
qed

lemma loop_long:
  assumes len: "length content < 2048" and i: "unat i < 16"
    and p: "frame802154e_parse_mlme_long_ie (content @ r) (length content) i ies = Some (int (length content), ies')"
    and k: "2 + int (length content) \<le> k"
  shows "parse_ies_loop PARSING_MLME_SUBIE k pos (2 + length content + n)
      (create_mlme_long_ie_descriptor i (length content) @ content @ r) ies =
    parse_ies_loop (if k = 2 + int (length content) then PARSING_PAYLOAD_IE else PARSING_MLME_SUBIE)
      (k - (2 + int (length content))) (pos + (2 + length content)) n r ies'"
proof -
  let ?d = "(word_of_nat (length content) AND 0x07ff :: u16) + push_bit 11 (ucast (i AND 0x0f)) + push_bit 15 1"
  have v: "unat ?d = length content + 2048 * unat i + 32768" using desc_values(3) [OF len i] by simp
  note f = long_fields [OF v len i]
  show ?thesis unfolding create_mlme_long_ie_descriptor_def
    by (subst parse_ies_loop.simps) (use f p k in \<open>simp add: Let_def algebra_simps\<close>)
qed

subsection \<open>Sequences of sub-elements\<close>

text \<open>
  \<open>reads m b g\<close>: wherever the parser meets the bytes \<open>b\<close> inside an MLME element, followed by at least \<open>m\<close>
  more bytes, it consumes them and updates the result by \<open>g\<close>.
\<close>

definition reads :: "nat \<Rightarrow> u8 list \<Rightarrow> (ieee802154_ies \<Rightarrow> ieee802154_ies) \<Rightarrow> bool" where
  "reads m b g \<longleftrightarrow> (\<forall>k pos n r ies. int (length b) \<le> k \<longrightarrow> m \<le> length r \<longrightarrow>
     parse_ies_loop PARSING_MLME_SUBIE k pos (length b + n) (b @ r) ies =
     parse_ies_loop (if k = int (length b) then PARSING_PAYLOAD_IE else PARSING_MLME_SUBIE)
       (k - int (length b)) (pos + length b) n r (g ies))"

lemma reads_append:
  assumes "reads m b g" "reads m' c h" "m \<le> length c" "c \<noteq> []"
  shows "reads m' (b @ c) (\<lambda>ies. h (g ies))"
  unfolding reads_def
proof (intro allI impI)
  fix k pos n and r :: "u8 list" and ies assume a: "int (length (b @ c)) \<le> k" "m' \<le> length r"
  have "parse_ies_loop PARSING_MLME_SUBIE k pos (length b + (length c + n)) (b @ (c @ r)) ies =
      parse_ies_loop (if k = int (length b) then PARSING_PAYLOAD_IE else PARSING_MLME_SUBIE)
        (k - int (length b)) (pos + length b) (length c + n) (c @ r) (g ies)"
    using assms(1,3) a(1) unfolding reads_def by simp
  moreover have "k \<noteq> int (length b)" using a(1) assms(4) by auto
  moreover have "parse_ies_loop PARSING_MLME_SUBIE (k - int (length b)) (pos + length b) (length c + n) (c @ r) (g ies) =
      parse_ies_loop (if k - int (length b) = int (length c) then PARSING_PAYLOAD_IE else PARSING_MLME_SUBIE)
        (k - int (length b) - int (length c)) (pos + length b + length c) n r (h (g ies))"
    using assms(2) a unfolding reads_def by simp
  ultimately show "parse_ies_loop PARSING_MLME_SUBIE k pos (length (b @ c) + n) ((b @ c) @ r) ies =
      parse_ies_loop (if k = int (length (b @ c)) then PARSING_PAYLOAD_IE else PARSING_MLME_SUBIE)
        (k - int (length (b @ c))) (pos + length (b @ c)) n r (h (g ies))"
    by (simp add: algebra_simps)
qed

lemma reads_short:
  assumes "length c < 256" "unat i < 128"
    and "\<And>r ies. m \<le> length r \<Longrightarrow> frame802154e_parse_mlme_short_ie (c @ r) (length c) i ies = Some (int (length c), g ies)"
  shows "reads m (create_mlme_short_ie_descriptor i (length c) @ c) g"
  using loop_short [OF assms(1,2) assms(3)] by (simp add: reads_def create_mlme_short_ie_descriptor_def)

lemma reads_long:
  assumes "length c < 2048" "unat i < 16"
    and "\<And>r ies. m \<le> length r \<Longrightarrow> frame802154e_parse_mlme_long_ie (c @ r) (length c) i ies = Some (int (length c), g ies)"
  shows "reads m (create_mlme_long_ie_descriptor i (length c) @ c) g"
  using loop_long [OF assms(1,2) assms(3)] by (simp add: reads_def create_mlme_long_ie_descriptor_def)

subsection \<open>The elements\<close>

text \<open>The bytes a creator stores for an element, as far as its announced length reaches.\<close>

definition element :: "(u8 list \<Rightarrow> int \<Rightarrow> ieee802154_ies option \<Rightarrow> (int \<times> u8 list) option) \<Rightarrow> ieee802154_ies \<Rightarrow> u8 list" where
  "element create ies = (case create (replicate 64 0) 64 (Some ies) of Some (n, b) \<Rightarrow> take (nat n) b | None \<Rightarrow> [])"

lemma put_ie_element: "length b \<le> 64 \<Longrightarrow> n \<le> length b \<Longrightarrow>
    (case put_ie (replicate 64 0) b n of Some (n, b) \<Rightarrow> take (nat n) b | None \<Rightarrow> []) = take n b"
  by (simp add: put_ie_def put_opt_def put_at_def)

lemma length_desc [simp]: "length (create_mlme_short_ie_descriptor i n) = 2" "length (create_mlme_long_ie_descriptor i n) = 2"
    "length (create_payload_ie_descriptor i n) = 2" "length (create_header_ie_descriptor i n) = 2"
  by (simp_all add: create_mlme_short_ie_descriptor_def create_mlme_long_ie_descriptor_def create_payload_ie_descriptor_def
      create_header_ie_descriptor_def)

lemma byte_elements:
  "element frame80215e_create_ie_overhearing ies = create_mlme_short_ie_descriptor MLME_SHORT_IE_TSCH_OVERHEARING 1 @ [ie_overhearing ies]"
  "element frame80215e_create_ie_tsch_rank ies = create_mlme_short_ie_descriptor MLME_SHORT_IE_RANK 1 @ [ie_rank ies]"
  "element frame80215e_create_ie_time_source ies = create_mlme_short_ie_descriptor MLME_SHORT_IE_TIME_SOURCE 1 @ [ie_time_source ies]"
  "element frame80215e_create_ie_schedule_version ies =
     create_mlme_short_ie_descriptor MLME_SHORT_IE_SCHEDULE_VERSION 1 @ [ie_schedule_version ies]"
  "element frame80215e_create_ie_tsch_neighbor_discovery ies =
     create_mlme_short_ie_descriptor MLME_SHORT_IE_SEQUENCE_NUMBER 2 @ WRITE16 (ie_sequence_number ies)"
  "element frame80215e_create_ie_schedule_packets ies =
     create_mlme_short_ie_descriptor MLME_SHORT_IE_SCHEDULE_PACKETS 2 @ WRITE16 (ie_schedule_packets ies)"
  by (simp_all add: element_def put_ie_element frame80215e_create_ie_overhearing_def frame80215e_create_ie_tsch_rank_def
      frame80215e_create_ie_time_source_def frame80215e_create_ie_schedule_version_def
      frame80215e_create_ie_tsch_neighbor_discovery_def frame80215e_create_ie_schedule_packets_def)

lemma reads_byte:
  assumes "unat i < 128" "\<And>buf len ies. frame802154e_parse_mlme_short_ie buf len i ies = parse_byte buf len u ies"
  shows "reads 0 (create_mlme_short_ie_descriptor i 1 @ [b]) (u b)"
  using reads_short [of "[b]" i 0 "u b"] assms by (simp add: parse_byte_def nth_opt_def)

lemma reads_word:
  assumes "unat i < 128" "\<And>buf ies. frame802154e_parse_mlme_short_ie buf 2 i ies = parse_word buf 2 u ies"
  shows "reads 0 (create_mlme_short_ie_descriptor i 2 @ WRITE16 w) (u w)"
  using reads_short [of "WRITE16 w" i 0 "u w"] assms by (simp add: parse_word_def)

lemma id_neqs [simp]:
  "MLME_SHORT_IE_TSCH_SYNCHRONIZATION \<noteq> MLME_SHORT_IE_TSCH_SLOFTRAME_AND_LINK"
  "MLME_SHORT_IE_TSCH_TIMESLOT \<noteq> MLME_SHORT_IE_TSCH_SLOFTRAME_AND_LINK" "MLME_SHORT_IE_TSCH_TIMESLOT \<noteq> MLME_SHORT_IE_TSCH_SYNCHRONIZATION"
  by (simp_all add: ie_ids)

lemma reads_bytes_words:
  "reads 0 (element frame80215e_create_ie_overhearing ies) (\<lambda>i. i\<lparr> ie_overhearing := ie_overhearing ies \<rparr>)"
  "reads 0 (element frame80215e_create_ie_tsch_rank ies) (\<lambda>i. i\<lparr> ie_rank := ie_rank ies \<rparr>)"
  "reads 0 (element frame80215e_create_ie_time_source ies) (\<lambda>i. i\<lparr> ie_time_source := ie_time_source ies \<rparr>)"
  "reads 0 (element frame80215e_create_ie_schedule_version ies) (\<lambda>i. i\<lparr> ie_schedule_version := ie_schedule_version ies \<rparr>)"
  "reads 0 (element frame80215e_create_ie_tsch_neighbor_discovery ies) (\<lambda>i. i\<lparr> ie_sequence_number := ie_sequence_number ies \<rparr>)"
  "reads 0 (element frame80215e_create_ie_schedule_packets ies) (\<lambda>i. i\<lparr> ie_schedule_packets := ie_schedule_packets ies \<rparr>)"
proof -
  have i: "unat MLME_SHORT_IE_TSCH_OVERHEARING < 128" "unat MLME_SHORT_IE_RANK < 128" "unat MLME_SHORT_IE_TIME_SOURCE < 128"
    "unat MLME_SHORT_IE_SCHEDULE_VERSION < 128" "unat MLME_SHORT_IE_SEQUENCE_NUMBER < 128" "unat MLME_SHORT_IE_SCHEDULE_PACKETS < 128"
    by simp_all
  note p = frame802154e_parse_mlme_short_ie_def
  show "reads 0 (element frame80215e_create_ie_overhearing ies) (\<lambda>i. i\<lparr> ie_overhearing := ie_overhearing ies \<rparr>)"
    unfolding byte_elements by (rule reads_byte [OF i(1)]) (simp add: p ie_ids)
  show "reads 0 (element frame80215e_create_ie_tsch_rank ies) (\<lambda>i. i\<lparr> ie_rank := ie_rank ies \<rparr>)"
    unfolding byte_elements by (rule reads_byte [OF i(2)]) (simp add: p ie_ids)
  show "reads 0 (element frame80215e_create_ie_time_source ies) (\<lambda>i. i\<lparr> ie_time_source := ie_time_source ies \<rparr>)"
    unfolding byte_elements by (rule reads_byte [OF i(3)]) (simp add: p ie_ids)
  show "reads 0 (element frame80215e_create_ie_schedule_version ies) (\<lambda>i. i\<lparr> ie_schedule_version := ie_schedule_version ies \<rparr>)"
    unfolding byte_elements by (rule reads_byte [OF i(4)]) (simp add: p ie_ids)
  show "reads 0 (element frame80215e_create_ie_tsch_neighbor_discovery ies) (\<lambda>i. i\<lparr> ie_sequence_number := ie_sequence_number ies \<rparr>)"
    unfolding byte_elements by (rule reads_word [OF i(5)]) (simp add: p ie_ids)
  show "reads 0 (element frame80215e_create_ie_schedule_packets ies) (\<lambda>i. i\<lparr> ie_schedule_packets := ie_schedule_packets ies \<rparr>)"
    unfolding byte_elements by (rule reads_word [OF i(6)]) (simp add: p ie_ids)
qed

lemma bytes32: "(((ucast (ucast (w :: u32) :: u8) OR push_bit 8 (ucast (ucast (drop_bit 8 w) :: u8))) OR
    push_bit 16 (ucast (ucast (drop_bit 16 w) :: u8))) OR push_bit 24 (ucast (ucast (drop_bit 24 w) :: u8)) :: u32) = w"
proof (rule bit_word_eqI)
  fix n assume n: "n < LENGTH(32)"
  consider "n < 8" | "8 \<le> n" "n < 16" | "16 \<le> n" "n < 24" | "24 \<le> n" by linarith
  then show "bit (((ucast (ucast w :: u8) OR push_bit 8 (ucast (ucast (drop_bit 8 w) :: u8))) OR
    push_bit 16 (ucast (ucast (drop_bit 16 w) :: u8))) OR push_bit 24 (ucast (ucast (drop_bit 24 w) :: u8)) :: u32) n = bit w n"
    by cases (use n in \<open>auto simp: bit_simps\<close>)
qed

lemma reads_sync:
  "reads 0 (element frame80215e_create_ie_tsch_synchronization ies)
     (\<lambda>i. i\<lparr> ie_asn := ie_asn ies, ie_join_priority := ie_join_priority ies \<rparr>)"
proof -
  let ?w = "ls4b (ie_asn ies)"
  let ?c = "[ucast ?w, ucast (drop_bit 8 ?w), ucast (drop_bit 16 ?w), ucast (drop_bit 24 ?w), ms1b (ie_asn ies), ie_join_priority ies]"
  have l: "length ?c = 6" by simp
  have "element frame80215e_create_ie_tsch_synchronization ies = create_mlme_short_ie_descriptor MLME_SHORT_IE_TSCH_SYNCHRONIZATION (length ?c) @ ?c"
    unfolding l by (simp add: element_def put_ie_element frame80215e_create_ie_tsch_synchronization_def)
  moreover have "frame802154e_parse_mlme_short_ie (?c @ r) (length ?c) MLME_SHORT_IE_TSCH_SYNCHRONIZATION i =
      Some (int (length ?c), i\<lparr> ie_asn := ie_asn ies, ie_join_priority := ie_join_priority ies \<rparr>)" for r i
    unfolding frame802154e_parse_mlme_short_ie_def by (simp add: nth_opt_def bytes32)
  ultimately show ?thesis using reads_short [of ?c MLME_SHORT_IE_TSCH_SYNCHRONIZATION 0] by simp
qed

lemma READ16_at: "length x = off \<Longrightarrow> READ16 (x @ WRITE16 w @ r) off = Some w"
  by (auto simp: READ16_def WRITE16_def nth_opt_def nth_append)

lemma read_words_bytes: "length x = off \<Longrightarrow> read_words (x @ concat (map WRITE16 ws) @ r) off (length ws) = Some ws"
proof (induction ws arbitrary: x off)
  case (Cons w ws)
  have "read_words ((x @ WRITE16 w) @ concat (map WRITE16 ws) @ r) (off + 2) (length ws) = Some ws"
    using Cons.IH [of "x @ WRITE16 w" "off + 2"] Cons.prems by simp
  then show ?case using READ16_at [OF Cons.prems, of w "concat (map WRITE16 ws) @ r"] by simp
qed simp

lemma length_words [simp]: "length (concat (map WRITE16 ws)) = 2 * length ws"
  by (induction ws) simp_all

lemma reads_timeslot:
  assumes "length (ie_tsch_timeslot ies) = tsch_ts_elements_count"
  shows "reads 0 (element frame80215e_create_ie_tsch_timeslot ies)
     (\<lambda>i. i\<lparr> ie_tsch_timeslot_id := ie_tsch_timeslot_id ies,
       ie_tsch_timeslot := (if ie_tsch_timeslot_id ies = 0 then ie_tsch_timeslot i else ie_tsch_timeslot ies) \<rparr>)"
proof -
  let ?ws = "if ie_tsch_timeslot_id ies = 0 then [] else ie_tsch_timeslot ies"
  let ?c = "[ie_tsch_timeslot_id ies] @ concat (map WRITE16 ?ws)"
  have l: "length ?c = (if ie_tsch_timeslot_id ies = 0 then 1 else 25)" using assms by simp
  have "element frame80215e_create_ie_tsch_timeslot ies = create_mlme_short_ie_descriptor MLME_SHORT_IE_TSCH_TIMESLOT (length ?c) @ ?c"
    unfolding l using assms by (simp add: element_def put_ie_element frame80215e_create_ie_tsch_timeslot_def slice_opt_def Let_def)
  moreover have "frame802154e_parse_mlme_short_ie (?c @ r) (length ?c) MLME_SHORT_IE_TSCH_TIMESLOT i =
      Some (int (length ?c), i\<lparr> ie_tsch_timeslot_id := ie_tsch_timeslot_id ies,
       ie_tsch_timeslot := (if ie_tsch_timeslot_id ies = 0 then ie_tsch_timeslot i else ie_tsch_timeslot ies) \<rparr>)" for r i
    using assms read_words_bytes [of "[ie_tsch_timeslot_id ies]" 1 "ie_tsch_timeslot ies" r] unfolding l frame802154e_parse_mlme_short_ie_def
    by (simp add: nth_opt_def)
  moreover have "length ?c < 256" unfolding l by simp
  ultimately show ?thesis using reads_short [of ?c MLME_SHORT_IE_TSCH_TIMESLOT 0] by simp
qed

lemma reads_hopping:
  assumes "unat (ie_hopping_sequence_len ies) \<le> TSCH_HOPPING_SEQUENCE_MAX_LEN"
    "length (ie_hopping_sequence_list ies) = TSCH_HOPPING_SEQUENCE_MAX_LEN"
  defines "sq \<equiv> take (unat (ie_hopping_sequence_len ies)) (ie_hopping_sequence_list ies)"
  shows "reads 0 (element frame80215e_create_ie_tsch_channel_hopping_sequence ies)
     (\<lambda>i. if ie_channel_hopping_sequence_id ies = 0 then i\<lparr> ie_channel_hopping_sequence_id := 0 \<rparr>
          else i\<lparr> ie_channel_hopping_sequence_id := ie_channel_hopping_sequence_id ies,
                 ie_hopping_sequence_len := ie_hopping_sequence_len ies,
                 ie_hopping_sequence_list := put_at (ie_hopping_sequence_list i) 0 sq \<rparr>)"
proof -
  let ?d = "[ie_channel_hopping_sequence_id ies, 0] @ WRITE16 0 @ WRITE16 0 @ WRITE16 0 @
     WRITE16 (ie_hopping_sequence_len ies) @ sq @ WRITE16 0"
  let ?c = "if ie_channel_hopping_sequence_id ies = 0 then [ie_channel_hopping_sequence_id ies] else ?d"
  have n: "length sq = unat (ie_hopping_sequence_len ies)" using assms by simp
  have l: "length ?c = (if ie_channel_hopping_sequence_id ies = 0 then 1 else 12 + unat (ie_hopping_sequence_len ies))"
    by (simp add: n)
  have "element frame80215e_create_ie_tsch_channel_hopping_sequence ies =
      create_mlme_long_ie_descriptor MLME_LONG_IE_TSCH_CHANNEL_HOPPING_SEQUENCE (length ?c) @ ?c"
    unfolding l using assms(1,2) n
    by (simp add: element_def put_ie_element frame80215e_create_ie_tsch_channel_hopping_sequence_def slice_opt_def Let_def sq_def)
  moreover have "frame802154e_parse_mlme_long_ie (?c @ r) (length ?c) MLME_LONG_IE_TSCH_CHANNEL_HOPPING_SEQUENCE i =
      Some (int (length ?c), if ie_channel_hopping_sequence_id ies = 0 then i\<lparr> ie_channel_hopping_sequence_id := 0 \<rparr>
          else i\<lparr> ie_channel_hopping_sequence_id := ie_channel_hopping_sequence_id ies,
                 ie_hopping_sequence_len := ie_hopping_sequence_len ies,
                 ie_hopping_sequence_list := put_at (ie_hopping_sequence_list i) 0 sq \<rparr>)" for r i
  proof (cases "ie_channel_hopping_sequence_id ies = 0")
    case False
    have r: "READ16 (?d @ r) 8 = Some (ie_hopping_sequence_len ies)"
      using READ16_at [of "[ie_channel_hopping_sequence_id ies, 0] @ WRITE16 0 @ WRITE16 0 @ WRITE16 0" 8 "ie_hopping_sequence_len ies" "sq @ WRITE16 0 @ r"]
      by simp
    have "take (unat (ie_hopping_sequence_len ies)) (drop 10 (?d @ r)) = sq"
      by (simp add: WRITE16_def n [symmetric])
    moreover have "length (?d @ r) \<ge> 10 + unat (ie_hopping_sequence_len ies)" by (simp add: n)
    ultimately have sl: "slice_opt (?d @ r) 10 (unat (ie_hopping_sequence_len ies)) = Some sq" by simp
    have "nth_opt (?d @ r) 0 = Some (ie_channel_hopping_sequence_id ies)" by (simp add: nth_opt_def)
    then show ?thesis using False r sl assms(1) unfolding l frame802154e_parse_mlme_long_ie_def
      by (simp del: nth_opt_eq_Some slice_opt_eq_Some)
  qed (simp add: frame802154e_parse_mlme_long_ie_def nth_opt_def)
  moreover have "length ?c < 2048" unfolding l using assms(1) by simp
  ultimately show ?thesis using reads_long [of ?c MLME_LONG_IE_TSCH_CHANNEL_HOPPING_SEQUENCE 0] by simp
qed

lemma length_link_bytes [simp]: "length (link_bytes l) = 5" "length (concat (map link_bytes ls)) = 5 * length ls"
proof -
  show e: "length (link_bytes l) = 5" for l by (simp add: link_bytes_def)
  show "length (concat (map link_bytes ls)) = 5 * length ls" by (induction ls) (simp_all add: e)
qed

lemma read_links_bytes: "length x = off \<Longrightarrow> read_links (x @ concat (map link_bytes ls) @ r) off (length ls) = Some ls"
proof (induction ls arbitrary: x off)
  case (Cons l ls)
  have i: "read_links ((x @ link_bytes l) @ concat (map link_bytes ls) @ r) (off + 5) (length ls) = Some ls"
    using Cons.IH [of "x @ link_bytes l" "off + 5"] Cons.prems by simp
  let ?b = "x @ link_bytes l @ concat (map link_bytes ls) @ r"
  have "READ16 ?b off = Some (sl_timeslot l)" using READ16_at [OF Cons.prems] by (simp add: link_bytes_def)
  moreover have "READ16 ?b (off + 2) = Some (sl_channel_offset l)"
    using READ16_at [of "x @ WRITE16 (sl_timeslot l)" "off + 2"] Cons.prems by (simp add: link_bytes_def)
  moreover have "nth_opt ?b (off + 4) = Some (sl_link_options l)"
    using Cons.prems by (auto simp: nth_opt_def link_bytes_def nth_append WRITE16_def)
  ultimately show ?case using i by (simp del: nth_opt_eq_Some)
qed simp

definition slotframe_update :: "tsch_slotframe_and_links \<Rightarrow> ieee802154_ies \<Rightarrow> ieee802154_ies" where
  "slotframe_update sl i = (if num_slotframes sl = 0 then i
     else i\<lparr> ie_tsch_slotframe_and_link := sl\<lparr> links := put_at (links (ie_tsch_slotframe_and_link i)) 0 (take (unat (num_links sl)) (links sl)) \<rparr> \<rparr>)"

lemma reads_slotframe:
  assumes "num_slotframes (ie_tsch_slotframe_and_link ies) \<le> 1"
    "unat (num_links (ie_tsch_slotframe_and_link ies)) \<le> FRAME802154E_IE_MAX_LINKS"
    "length (links (ie_tsch_slotframe_and_link ies)) = FRAME802154E_IE_MAX_LINKS"
  shows "reads 4 (element frame80215e_create_ie_tsch_slotframe_and_link ies) (slotframe_update (ie_tsch_slotframe_and_link ies))"
proof -
  let ?sl = "ie_tsch_slotframe_and_link ies"
  let ?ls = "take (unat (num_links ?sl)) (links ?sl)"
  let ?h = "[num_slotframes ?sl, slotframe_handle ?sl] @ WRITE16 (slotframe_size ?sl) @ [num_links ?sl]"
  let ?c = "if num_slotframes ?sl = 0 then [num_slotframes ?sl] else ?h @ concat (map link_bytes ?ls)"
  have ns: "num_slotframes ?sl = 0 \<or> num_slotframes ?sl = 1" using assms(1) by (auto simp: word_le_nat_alt word_unat_eq_iff)
  have n: "length ?ls = unat (num_links ?sl)" using assms by simp
  have l: "length ?c = 1 + unat (num_slotframes ?sl) * (4 + 5 * unat (num_links ?sl))" using ns n by auto
  have "element frame80215e_create_ie_tsch_slotframe_and_link ies =
      create_mlme_short_ie_descriptor MLME_SHORT_IE_TSCH_SLOFTRAME_AND_LINK (length ?c) @ ?c"
    unfolding l using assms(2,3) ns n
    by (auto simp: element_def put_ie_element frame80215e_create_ie_tsch_slotframe_and_link_def slice_opt_def Let_def)
  moreover have "frame802154e_parse_mlme_short_ie (?c @ r) (length ?c) MLME_SHORT_IE_TSCH_SLOFTRAME_AND_LINK i =
      Some (int (length ?c), slotframe_update ?sl i)" if r: "4 \<le> length r" for r i
    using ns
  proof
    assume z: "num_slotframes ?sl = 0"
    have "4 < length (0 # r)" using r by simp
    then show ?thesis using z
      by (simp add: frame802154e_parse_mlme_short_ie_def parse_slotframe_and_link_def slotframe_update_def nth_opt_def)
  next
    assume o: "num_slotframes ?sl = 1"
    let ?b = "?h @ concat (map link_bytes ?ls) @ r"
    have h: "nth_opt ?b 0 = Some 1" "nth_opt ?b 1 = Some (slotframe_handle ?sl)" "nth_opt ?b 4 = Some (num_links ?sl)"
      "READ16 ?b 2 = Some (slotframe_size ?sl)"
      using READ16_at [of "[num_slotframes ?sl, slotframe_handle ?sl]" 2] o by (simp_all add: nth_opt_def WRITE16_def)
    have b: "read_links ?b 5 (unat (num_links ?sl)) = Some ?ls"
      using read_links_bytes [of ?h 5 ?ls r] n by simp
    have c: "?c @ r = ?b" using o by simp
    show ?thesis unfolding c l unfolding frame802154e_parse_mlme_short_ie_def parse_slotframe_and_link_def slotframe_update_def
      using h b o assms(2) by (simp del: nth_opt_eq_Some)
  qed
  moreover have "length ?c < 256" unfolding l using ns assms(2) by auto
  ultimately show ?thesis using reads_short [of ?c MLME_SHORT_IE_TSCH_SLOFTRAME_AND_LINK 4] by simp
qed

lemma reads_received:
  assumes "length (ie_schedule_received ies) = FRAME802154E_IE_SCHEDULE_BIT_VECTOR"
  shows "reads 0 (element (\<lambda>b n i. frame80215e_create_ie_schedule_received b n i 3) ies)
    (\<lambda>i. i\<lparr> ie_schedule_received := ie_schedule_received ies \<rparr>)"
proof -
  let ?c = "ie_schedule_received ies"
  have l: "length ?c = 3" using assms by simp
  have "element (\<lambda>b n i. frame80215e_create_ie_schedule_received b n i 3) ies =
      create_mlme_short_ie_descriptor MLME_SHORT_IE_SCHEDULE_RECEIVED (length ?c) @ ?c"
    using l by (simp add: element_def put_ie_element frame80215e_create_ie_schedule_received_def slice_opt_def)
  moreover have "frame802154e_parse_mlme_short_ie (?c @ r) (length ?c) MLME_SHORT_IE_SCHEDULE_RECEIVED i =
      Some (int (length ?c), i\<lparr> ie_schedule_received := ?c \<rparr>)" for r i
    using l by (simp add: frame802154e_parse_mlme_short_ie_def parse_schedule_received_def slice_opt_def ie_ids)
  ultimately show ?thesis using reads_short [of ?c MLME_SHORT_IE_SCHEDULE_RECEIVED 0] l by simp
qed

subsection \<open>The elements of an enhanced beacon\<close>

definition ies_ok :: "ieee802154_ies \<Rightarrow> bool" where
  "ies_ok ies \<longleftrightarrow> length (ie_tsch_timeslot ies) = tsch_ts_elements_count \<and>
     unat (ie_hopping_sequence_len ies) \<le> TSCH_HOPPING_SEQUENCE_MAX_LEN \<and>
     length (ie_hopping_sequence_list ies) = TSCH_HOPPING_SEQUENCE_MAX_LEN \<and>
     num_slotframes (ie_tsch_slotframe_and_link ies) \<le> 1 \<and>
     unat (num_links (ie_tsch_slotframe_and_link ies)) \<le> FRAME802154E_IE_MAX_LINKS \<and>
     length (links (ie_tsch_slotframe_and_link ies)) = FRAME802154E_IE_MAX_LINKS \<and>
     length (ie_schedule_received ies) = FRAME802154E_IE_SCHEDULE_BIT_VECTOR"

text \<open>The sub-elements in the order \<open>tsch_packet_create_eb\<close> stores them, and what the parser makes of them.\<close>

definition create_received :: "u8 list \<Rightarrow> int \<Rightarrow> ieee802154_ies option \<Rightarrow> (int \<times> u8 list) option" where
  "create_received buf len ies = frame80215e_create_ie_schedule_received buf len ies 3"

definition discovery_elements :: "ieee802154_ies \<Rightarrow> u8 list" where
  "discovery_elements ies = element frame80215e_create_ie_tsch_neighbor_discovery ies @ element frame80215e_create_ie_tsch_rank ies @
     element frame80215e_create_ie_time_source ies @ element frame80215e_create_ie_schedule_version ies @
     element frame80215e_create_ie_schedule_packets ies @ element create_received ies"

definition eb_elements :: "ieee802154_ies \<Rightarrow> u8 list" where
  "eb_elements ies = element frame80215e_create_ie_tsch_synchronization ies @ element frame80215e_create_ie_tsch_timeslot ies @
     element frame80215e_create_ie_tsch_channel_hopping_sequence ies @ element frame80215e_create_ie_tsch_slotframe_and_link ies @
     discovery_elements ies"

definition sync_update :: "ieee802154_ies \<Rightarrow> ieee802154_ies \<Rightarrow> ieee802154_ies" where
  "sync_update ies i = i\<lparr> ie_asn := ie_asn ies, ie_join_priority := ie_join_priority ies \<rparr>"

definition timeslot_update :: "ieee802154_ies \<Rightarrow> ieee802154_ies \<Rightarrow> ieee802154_ies" where
  "timeslot_update ies i = i\<lparr> ie_tsch_timeslot_id := ie_tsch_timeslot_id ies,
     ie_tsch_timeslot := (if ie_tsch_timeslot_id ies = 0 then ie_tsch_timeslot i else ie_tsch_timeslot ies) \<rparr>"

definition hopping_update :: "ieee802154_ies \<Rightarrow> ieee802154_ies \<Rightarrow> ieee802154_ies" where
  "hopping_update ies i =
     (if ie_channel_hopping_sequence_id ies = 0 then i\<lparr> ie_channel_hopping_sequence_id := 0 \<rparr>
      else i\<lparr> ie_channel_hopping_sequence_id := ie_channel_hopping_sequence_id ies,
             ie_hopping_sequence_len := ie_hopping_sequence_len ies,
             ie_hopping_sequence_list := put_at (ie_hopping_sequence_list i) 0
               (take (unat (ie_hopping_sequence_len ies)) (ie_hopping_sequence_list ies)) \<rparr>)"

definition discovery_update :: "ieee802154_ies \<Rightarrow> ieee802154_ies \<Rightarrow> ieee802154_ies" where
  "discovery_update ies i = i\<lparr> ie_sequence_number := ie_sequence_number ies, ie_rank := ie_rank ies,
     ie_time_source := ie_time_source ies, ie_schedule_version := ie_schedule_version ies,
     ie_schedule_packets := ie_schedule_packets ies, ie_schedule_received := ie_schedule_received ies \<rparr>"

definition eb_update :: "ieee802154_ies \<Rightarrow> ieee802154_ies \<Rightarrow> ieee802154_ies" where
  "eb_update ies i = discovery_update ies (slotframe_update (ie_tsch_slotframe_and_link ies)
     (hopping_update ies (timeslot_update ies (sync_update ies i))))"

lemma reads_discovery:
  assumes "length (ie_schedule_received ies) = FRAME802154E_IE_SCHEDULE_BIT_VECTOR"
  shows "reads 0 (discovery_elements ies) (discovery_update ies)" "length (discovery_elements ies) = 22"
proof -
  have r: "reads 0 (element create_received ies) (\<lambda>i. i\<lparr> ie_schedule_received := ie_schedule_received ies \<rparr>)"
    using reads_received [OF assms] by (simp add: create_received_def [abs_def])
  have e: "element create_received ies = create_mlme_short_ie_descriptor MLME_SHORT_IE_SCHEDULE_RECEIVED 3 @ ie_schedule_received ies"
    using assms by (simp add: element_def put_ie_element create_received_def frame80215e_create_ie_schedule_received_def slice_opt_def)
  note b = reads_bytes_words [of ies]
  have ne: "element create_received ies \<noteq> []" "element frame80215e_create_ie_schedule_packets ies \<noteq> []"
    "element frame80215e_create_ie_schedule_version ies \<noteq> []" "element frame80215e_create_ie_time_source ies \<noteq> []"
    "element frame80215e_create_ie_tsch_rank ies \<noteq> []"
    using assms unfolding byte_elements e by (auto simp: WRITE16_def)
  show "reads 0 (discovery_elements ies) (discovery_update ies)"
    unfolding discovery_elements_def discovery_update_def
    by (rule reads_append [OF b(5) reads_append [OF b(2) reads_append [OF b(3) reads_append [OF b(4) reads_append [OF b(6) r]]]]])
      (simp_all add: ne)
  show "length (discovery_elements ies) = 22"
    using assms unfolding discovery_elements_def byte_elements e by simp
qed

lemma elements_length:
  assumes "ies_ok ies"
  shows "length (element frame80215e_create_ie_tsch_synchronization ies) = 8"
    "length (element frame80215e_create_ie_tsch_timeslot ies) = (if ie_tsch_timeslot_id ies = 0 then 3 else 27)"
    "length (element frame80215e_create_ie_tsch_channel_hopping_sequence ies) =
       (if ie_channel_hopping_sequence_id ies = 0 then 3 else 14 + unat (ie_hopping_sequence_len ies))"
    "length (element frame80215e_create_ie_tsch_slotframe_and_link ies) =
       3 + unat (num_slotframes (ie_tsch_slotframe_and_link ies)) * (4 + 5 * unat (num_links (ie_tsch_slotframe_and_link ies)))"
proof -
  have ns: "num_slotframes (ie_tsch_slotframe_and_link ies) = 0 \<or> num_slotframes (ie_tsch_slotframe_and_link ies) = 1"
    using assms by (auto simp: ies_ok_def word_le_nat_alt word_unat_eq_iff)
  show "length (element frame80215e_create_ie_tsch_synchronization ies) = 8"
    by (simp add: element_def put_ie_element frame80215e_create_ie_tsch_synchronization_def)
  show "length (element frame80215e_create_ie_tsch_timeslot ies) = (if ie_tsch_timeslot_id ies = 0 then 3 else 27)"
    using assms by (simp add: ies_ok_def element_def put_ie_element frame80215e_create_ie_tsch_timeslot_def slice_opt_def Let_def)
  show "length (element frame80215e_create_ie_tsch_channel_hopping_sequence ies) =
       (if ie_channel_hopping_sequence_id ies = 0 then 3 else 14 + unat (ie_hopping_sequence_len ies))"
    using assms by (simp add: ies_ok_def element_def put_ie_element frame80215e_create_ie_tsch_channel_hopping_sequence_def slice_opt_def Let_def)
  show "length (element frame80215e_create_ie_tsch_slotframe_and_link ies) =
       3 + unat (num_slotframes (ie_tsch_slotframe_and_link ies)) * (4 + 5 * unat (num_links (ie_tsch_slotframe_and_link ies)))"
    using ns assms
    by (auto simp: ies_ok_def element_def put_ie_element frame80215e_create_ie_tsch_slotframe_and_link_def slice_opt_def Let_def)
qed

lemma reads_eb:
  assumes "ies_ok ies"
  shows "reads 0 (eb_elements ies) (eb_update ies)" "length (eb_elements ies) < 128"
proof -
  note a = assms [unfolded ies_ok_def]
  note l = elements_length [OF assms]
  have d: "reads 0 (discovery_elements ies) (discovery_update ies)" "length (discovery_elements ies) = 22"
    using reads_discovery a by blast+
  have r: "reads 0 (element frame80215e_create_ie_tsch_synchronization ies) (sync_update ies)"
    "reads 0 (element frame80215e_create_ie_tsch_timeslot ies) (timeslot_update ies)"
    "reads 0 (element frame80215e_create_ie_tsch_channel_hopping_sequence ies) (hopping_update ies)"
    "reads 4 (element frame80215e_create_ie_tsch_slotframe_and_link ies) (slotframe_update (ie_tsch_slotframe_and_link ies))"
    using reads_sync [of ies] reads_timeslot [of ies] reads_hopping [of ies] reads_slotframe [of ies] a
    by (simp_all add: sync_update_def [abs_def] timeslot_update_def [abs_def] hopping_update_def [abs_def])
  show "reads 0 (eb_elements ies) (eb_update ies)"
    unfolding eb_elements_def eb_update_def
    by (rule reads_append [OF r(1) reads_append [OF r(2) reads_append [OF r(3) reads_append [OF r(4) d(1)]]]])
      (use l d(2) in \<open>auto simp flip: length_greater_0_conv split: if_splits\<close>)
  have "unat (num_slotframes (ie_tsch_slotframe_and_link ies)) * (4 + 5 * unat (num_links (ie_tsch_slotframe_and_link ies))) \<le> 1 * 24"
    using a by (intro mult_le_mono) (auto simp: word_le_nat_alt)
  moreover have "unat (ie_hopping_sequence_len ies) \<le> 16" using a by simp
  ultimately show "length (eb_elements ies) < 128" unfolding eb_elements_def using l d(2) by (auto split: if_splits)
qed

lemma header_and_mlme:
  "element frame80215e_create_ie_header_list_termination_1 ies = create_header_ie_descriptor HEADER_IE_LIST_TERMINATION_1 0"
  "element frame80215e_create_ie_mlme ies = create_payload_ie_descriptor PAYLOAD_IE_MLME (unat (ie_mlme_len ies))"
  "element frame80215e_create_ie_payload_list_termination ies = create_payload_ie_descriptor PAYLOAD_IE_LIST_TERMINATION 0"
  by (simp_all add: element_def put_ie_element frame80215e_create_ie_header_list_termination_1_def frame80215e_create_ie_mlme_def
      frame80215e_create_ie_payload_list_termination_def)

text \<open>The end of the buffer inside the payload elements ends the loop.\<close>

lemma loop_end: "parse_ies_loop PARSING_PAYLOAD_IE k pos 0 p ies = Some (int pos, ies)"
  by (subst parse_ies_loop.simps) simp

lemma parse_mlme_elements:
  assumes b: "reads 0 b g" "length b \<le> 251" "b \<noteq> []"
  shows "frame802154e_parse_information_elements
      (create_header_ie_descriptor HEADER_IE_LIST_TERMINATION_1 0 @ create_payload_ie_descriptor PAYLOAD_IE_MLME (length b) @ b @ rest)
      (word_of_nat (4 + length b)) (Some i) =
    Some (int (4 + length b), Some (g (i\<lparr> ie_payload_ie_offset := 2 \<rparr>)))"
proof -
  have u: "unat (word_of_nat (4 + length b) :: u8) = Suc (Suc (Suc (Suc (length b + 0))))"
    using b(2) by (simp add: take_bit_nat_eq_self unsigned_of_nat del: of_nat_add)
  have m: "length b < 2048" using b(2) by simp
  have i: "i\<lparr> ie_payload_ie_offset := 0, ie_payload_ie_offset := 2 \<rparr> = i\<lparr> ie_payload_ie_offset := 2 \<rparr>" by simp
  have r: "parse_ies_loop PARSING_MLME_SUBIE (int (length b)) 4 (length b + 0) (b @ rest) j =
      parse_ies_loop PARSING_PAYLOAD_IE 0 (4 + length b) 0 rest (g j)" for j
    using b(1) [unfolded reads_def, rule_format, of "int (length b)" rest 4 0 j] by simp
  show ?thesis unfolding frame802154e_parse_information_elements_def u loop_termination_1 option.case loop_mlme [OF m]
    using r loop_end by (simp add: eval_nat_numeral)
qed

text \<open>
  C13. Round trip of the information elements of an enhanced beacon: the bytes that the creators store in the
  order of \<open>tsch_packet_create_eb\<close> (header list termination, the MLME descriptor with the length of the
  sub-elements, synchronisation, timeslot, hopping sequence, slotframe and link, sequence number, rank, time
  source, schedule version, schedule packets, received schedule) are consumed completely by
  \<open>frame802154e_parse_information_elements\<close>, which gives back every field; the optional descriptions
  (timeslot template, hopping sequence, slotframe) come back when they are present.
\<close>

theorem eb_information_elements_roundtrip:
  assumes "ies_ok ies" "ie_mlme_len ies = word_of_nat (length (eb_elements ies))" "length (ie_hopping_sequence_list i) = 16"
    "length (links (ie_tsch_slotframe_and_link i)) = 4"
  shows "\<exists>i'. frame802154e_parse_information_elements
        (element frame80215e_create_ie_header_list_termination_1 ies @ element frame80215e_create_ie_mlme ies @ eb_elements ies @ rest)
        (word_of_nat (4 + length (eb_elements ies))) (Some i) = Some (int (4 + length (eb_elements ies)), Some i') \<and>
      ie_payload_ie_offset i' = 2 \<and> ie_asn i' = ie_asn ies \<and> ie_join_priority i' = ie_join_priority ies \<and>
      ie_tsch_timeslot_id i' = ie_tsch_timeslot_id ies \<and>
      (ie_tsch_timeslot_id ies \<noteq> 0 \<longrightarrow> ie_tsch_timeslot i' = ie_tsch_timeslot ies) \<and>
      ie_channel_hopping_sequence_id i' = ie_channel_hopping_sequence_id ies \<and>
      (ie_channel_hopping_sequence_id ies \<noteq> 0 \<longrightarrow> ie_hopping_sequence_len i' = ie_hopping_sequence_len ies \<and>
         take (unat (ie_hopping_sequence_len ies)) (ie_hopping_sequence_list i') =
         take (unat (ie_hopping_sequence_len ies)) (ie_hopping_sequence_list ies)) \<and>
      (num_slotframes (ie_tsch_slotframe_and_link ies) = 1 \<longrightarrow>
         slotframe_handle (ie_tsch_slotframe_and_link i') = slotframe_handle (ie_tsch_slotframe_and_link ies) \<and>
         slotframe_size (ie_tsch_slotframe_and_link i') = slotframe_size (ie_tsch_slotframe_and_link ies) \<and>
         num_links (ie_tsch_slotframe_and_link i') = num_links (ie_tsch_slotframe_and_link ies) \<and>
         take (unat (num_links (ie_tsch_slotframe_and_link ies))) (links (ie_tsch_slotframe_and_link i')) =
         take (unat (num_links (ie_tsch_slotframe_and_link ies))) (links (ie_tsch_slotframe_and_link ies))) \<and>
      ie_sequence_number i' = ie_sequence_number ies \<and> ie_rank i' = ie_rank ies \<and> ie_time_source i' = ie_time_source ies \<and>
      ie_schedule_version i' = ie_schedule_version ies \<and> ie_schedule_packets i' = ie_schedule_packets ies \<and>
      ie_schedule_received i' = ie_schedule_received ies"
proof -
  note r = reads_eb [OF assms(1)]
  have l: "unat (ie_mlme_len ies) = length (eb_elements ies)"
    using r(2) unfolding assms(2) by (simp add: take_bit_nat_eq_self unsigned_of_nat)
  have ne: "eb_elements ies \<noteq> []" using elements_length(1) [OF assms(1)] by (auto simp: eb_elements_def)
  have p: "frame802154e_parse_information_elements
        (element frame80215e_create_ie_header_list_termination_1 ies @ element frame80215e_create_ie_mlme ies @ eb_elements ies @ rest)
        (word_of_nat (4 + length (eb_elements ies))) (Some i) =
      Some (int (4 + length (eb_elements ies)), Some (eb_update ies (i\<lparr> ie_payload_ie_offset := 2 \<rparr>)))"
    unfolding header_and_mlme l using parse_mlme_elements [OF r(1) _ ne] r(2) by simp
  have t: "take k (put_at b 0 (take k a)) = take k a" if "k \<le> length a" for k and a b :: "'z list"
    using that by (simp add: put_at_def)
  note u = eb_update_def discovery_update_def slotframe_update_def hopping_update_def timeslot_update_def sync_update_def
  show ?thesis by (rule exI, rule conjI, rule p) (use assms in \<open>simp add: u t ies_ok_def\<close>)
qed

lemma ies_zero_ok [simp]: "ies_ok ies_zero"
  by (simp add: ies_ok_def ies_zero_def)

definition sample_ies :: ieee802154_ies where
  "sample_ies = ies_zero\<lparr> ie_mlme_len := 39, ie_asn := \<lparr> ls4b = 0x12345678, ms1b = 9 \<rparr>, ie_join_priority := 2,
     ie_sequence_number := 300, ie_rank := 4, ie_time_source := 7, ie_schedule_version := 3, ie_schedule_packets := 150,
     ie_schedule_received := [1, 2, 3] \<rparr>"

theorem eb_information_elements_roundtrip_witness:
  "\<exists>i'. frame802154e_parse_information_elements
      (element frame80215e_create_ie_header_list_termination_1 sample_ies @ element frame80215e_create_ie_mlme sample_ies @
       eb_elements sample_ies @ []) 43 (Some ies_zero) = Some (43, Some i') \<and>
    ie_asn i' = \<lparr> ls4b = 0x12345678, ms1b = 9 \<rparr> \<and> ie_schedule_received i' = [1, 2, 3]"
proof -
  have ok: "ies_ok sample_ies" by (simp add: sample_ies_def ies_ok_def ies_zero_def)
  have l: "length (eb_elements sample_ies) = 39"
    using elements_length [OF ok] reads_discovery(2) [of sample_ies] unfolding eb_elements_def
    by (simp add: sample_ies_def ies_zero_def)
  have m: "ie_mlme_len sample_ies = word_of_nat (length (eb_elements sample_ies))" unfolding l by (simp add: sample_ies_def)
  have z: "length (ie_hopping_sequence_list ies_zero) = 16" "length (links (ie_tsch_slotframe_and_link ies_zero)) = 4"
    by (simp_all add: ies_zero_def)
  show ?thesis using eb_information_elements_roundtrip [OF ok m z, of "[]"] unfolding l
    by (auto simp: sample_ies_def)
qed

subsection \<open>Time correction of an acknowledgement\<close>

lemma loop_header:
  assumes len: "length content < 128"
    and i: "i \<noteq> HEADER_IE_LIST_TERMINATION_1" "i \<noteq> HEADER_IE_LIST_TERMINATION_2"
    and p: "frame802154e_parse_header_ie (content @ r) (length content) i ies = Some (int (length content), ies')"
  shows "parse_ies_loop PARSING_HEADER_IE k pos (2 + length content + n)
      (create_header_ie_descriptor i (length content) @ content @ r) ies =
    parse_ies_loop PARSING_HEADER_IE k (pos + (2 + length content)) n r ies'"
proof -
  let ?d = "(word_of_nat (length content) AND 0x7f :: u16) + push_bit 7 (ucast (i AND 0xff))"
  have v: "unat ?d = length content + 128 * unat i" using desc_values(2) [OF len] by simp
  note f = header_fields [OF v len unat_lt_256]
  show ?thesis unfolding create_header_ie_descriptor_def
    by (subst parse_ies_loop.simps) (use f p i in \<open>simp add: Let_def algebra_simps\<close>)
qed

lemma bit_masks16:
  "bit (0x8000 :: u16) n \<longleftrightarrow> n = 15" "bit (0xf000 :: u16) n \<longleftrightarrow> 12 \<le> n \<and> n < 16" "bit (0x0fff :: u16) n \<longleftrightarrow> n < 12"
proof -
  have c: "(0xf000 :: u16) = push_bit 12 (mask 4)" "(0x0fff :: u16) = mask 12" "(0x8000 :: u16) = push_bit 15 1"
    by (simp_all add: mask_eq_exp_minus_1)
  show "bit (0x8000 :: u16) n \<longleftrightarrow> n = 15" unfolding c by (subst bit_push_bit_iff) (auto simp: bit_1_iff)
  show "bit (0xf000 :: u16) n \<longleftrightarrow> 12 \<le> n \<and> n < 16" unfolding c by (subst bit_push_bit_iff) (auto simp: bit_mask_iff)
  show "bit (0x0fff :: u16) n \<longleftrightarrow> n < 12" unfolding c by (auto simp: bit_mask_iff)
qed

lemma and_single_bit: "(f :: u16) AND 0x0800 \<noteq> 0 \<longleftrightarrow> bit f 11" "f AND 0x8000 \<noteq> 0 \<longleftrightarrow> bit f 15"
proof -
  have "(0x0800 :: u16) = push_bit 11 1" "(0x8000 :: u16) = push_bit 15 1" by simp_all
  then show "f AND 0x0800 \<noteq> 0 \<longleftrightarrow> bit f 11" "f AND 0x8000 \<noteq> 0 \<longleftrightarrow> bit f 15"
    by (metis and.commute bit_iff_and_push_bit_not_eq_0)+
qed

lemma sign_extended:
  fixes d f :: u16
  assumes "- 2048 \<le> sint d" "sint d < 2048" and f: "f = d AND 0x0fff \<or> f = (d AND 0x0fff) OR 0x8000"
  shows "(if f AND 0x0800 \<noteq> 0 then f OR 0xf000 else f AND 0x0fff) = d"
proof -
  have "signed_take_bit 11 (sint d) = sint d" using assms by (intro signed_take_bit_int_eq_self) simp_all
  then have m: "bit (sint d) n = bit (sint d) (min 11 n)" for n
    using bit_signed_take_bit_iff [of 11 "sint d" n] by simp
  have s: "bit (sint d) n = bit d n" if "n < 16" for n using that by (auto simp: bit_sint_iff min_def)
  have b: "bit d n \<longleftrightarrow> bit d 11" if "11 \<le> n" "n < 16" for n
    using m [of n] s [of n] s [of 11] that by (simp add: min_def)
  note k = bit_masks16 and t = and_single_bit(1) [of f]
  have l: "bit f n = bit d n" if "n < 12" for n
    using f that by (elim disjE) (simp_all only: bit_and_iff bit_or_iff k, simp_all)
  show ?thesis
  proof (rule bit_word_eqI)
    fix n assume "n < LENGTH(16)"
    then have n: "n < 16" by simp
    have "bit (if f AND 0x0800 \<noteq> 0 then f OR 0xf000 else f AND 0x0fff) n \<longleftrightarrow>
        (if bit f 11 then bit f n \<or> 12 \<le> n \<and> n < 16 else bit f n \<and> n < 12)"
      by (simp only: t bit_and_iff bit_or_iff k if_distrib [where f = "\<lambda>x. bit x n"])
    also have "\<dots> \<longleftrightarrow> bit d n" using l [of n] l [of 11] b [of n] n by (cases "n < 12") auto
    finally show "bit (if f AND 0x0800 \<noteq> 0 then f OR 0xf000 else f AND 0x0fff) n = bit d n" .
  qed
qed

lemma parse_ack_element:
  assumes "- 2048 \<le> sint (ie_time_correction ies)" "sint (ie_time_correction ies) < 2048"
  shows "frame802154e_parse_information_elements
      (element frame80215e_create_ie_header_ack_nack_time_correction ies @ rest) 4 (Some i) =
    Some (4, Some (i\<lparr> ie_time_correction := ie_time_correction ies, ie_is_nack := (if ie_is_nack ies = 0 then 0 else 1),
      ie_payload_ie_offset := 4 \<rparr>))"
proof -
  define f where "f = (if ie_is_nack ies \<noteq> 0 then (ie_time_correction ies AND 0x0fff) OR 0x8000 else ie_time_correction ies AND 0x0fff)"
  have e: "element frame80215e_create_ie_header_ack_nack_time_correction ies =
      create_header_ie_descriptor HEADER_IE_ACK_NACK_TIME_CORRECTION (length (WRITE16 f)) @ WRITE16 f"
    by (simp add: element_def put_ie_element frame80215e_create_ie_header_ack_nack_time_correction_def f_def Let_def)
  have n: "f AND 0x8000 \<noteq> 0 \<longleftrightarrow> ie_is_nack ies \<noteq> 0"
    unfolding and_single_bit f_def by (simp only: if_distrib [where f = "\<lambda>x. bit x 15"] bit_and_iff bit_or_iff bit_masks16) simp
  have d: "(if f AND 0x0800 \<noteq> 0 then f OR 0xf000 else f AND 0x0fff) = ie_time_correction ies"
    using assms by (intro sign_extended) (simp_all add: f_def)
  let ?i = "i\<lparr> ie_is_nack := (if ie_is_nack ies = 0 then 0 else 1), ie_time_correction := ie_time_correction ies, ie_payload_ie_offset := 0 \<rparr>"
  have "frame802154e_parse_header_ie (WRITE16 f @ rest) (length (WRITE16 f)) HEADER_IE_ACK_NACK_TIME_CORRECTION
      (i\<lparr> ie_payload_ie_offset := 0 \<rparr>) = Some (int (length (WRITE16 f)), ?i)"
    using n unfolding frame802154e_parse_header_ie_def by (simp add: d)
  from loop_header [OF _ _ _ this, of 0 0 0]
  have "parse_ies_loop PARSING_HEADER_IE 0 0 4 (create_header_ie_descriptor HEADER_IE_ACK_NACK_TIME_CORRECTION 2 @ WRITE16 f @ rest)
      (i\<lparr> ie_payload_ie_offset := 0 \<rparr>) = parse_ies_loop PARSING_HEADER_IE 0 4 0 rest ?i"
    by (simp add: ie_ids)
  moreover have "parse_ies_loop PARSING_HEADER_IE 0 4 0 rest ?i = Some (4, ?i\<lparr> ie_payload_ie_offset := 4 \<rparr>)"
    by (subst parse_ies_loop.simps) simp
  ultimately show ?thesis unfolding e frame802154e_parse_information_elements_def by simp
qed

text \<open>
  Round trip of the time correction of an enhanced acknowledgement: for every drift of 12 bits and every
  negative-acknowledgement flag, the parser reads back from the header element the drift with its sign and
  whether the flag was set, and reports the length of the element as the payload offset.
\<close>

theorem ack_time_correction_roundtrip:
  assumes "- 2048 \<le> sint (ie_time_correction ies)" "sint (ie_time_correction ies) < 2048"
  shows "frame802154e_parse_information_elements
      (element frame80215e_create_ie_header_ack_nack_time_correction ies @ rest) 4 (Some i) =
    Some (4, Some (i\<lparr> ie_time_correction := ie_time_correction ies, ie_is_nack := (if ie_is_nack ies = 0 then 0 else 1),
      ie_payload_ie_offset := 4 \<rparr>))"
  by (rule parse_ack_element [OF assms])

theorem ack_time_correction_roundtrip_witness:
  "frame802154e_parse_information_elements
      (element frame80215e_create_ie_header_ack_nack_time_correction (ies_zero\<lparr> ie_time_correction := - 150, ie_is_nack := 4 \<rparr>) @ [])
      4 (Some ies_zero) =
    Some (4, Some (ies_zero\<lparr> ie_time_correction := - 150, ie_is_nack := 1, ie_payload_ie_offset := 4 \<rparr>))"
  by (subst ack_time_correction_roundtrip) simp_all

subsection \<open>Bounds of the parser\<close>

text \<open>The arrays of the structure have their declared sizes.\<close>

definition ies_sized :: "ieee802154_ies \<Rightarrow> bool" where
  "ies_sized i \<longleftrightarrow> length (ie_tsch_timeslot i) = tsch_ts_elements_count \<and> length (links (ie_tsch_slotframe_and_link i)) = FRAME802154E_IE_MAX_LINKS \<and>
     length (ie_schedule_received i) = FRAME802154E_IE_SCHEDULE_BIT_VECTOR \<and> length (ie_hopping_sequence_list i) = TSCH_HOPPING_SEQUENCE_MAX_LEN"

definition accepts :: "(int \<times> ieee802154_ies) option \<Rightarrow> nat \<Rightarrow> bool" where
  "accepts x len \<longleftrightarrow> (\<exists>r i. x = Some (r, i) \<and> (r = - 1 \<or> r = int len) \<and> ies_sized i)"

lemma READ16_in: "i + 1 < length b \<Longrightarrow> \<exists>w. READ16 b i = Some w"
  by (simp add: READ16_def nth_opt_def)

lemma nth_opt_in: "i < length b \<Longrightarrow> \<exists>x. nth_opt b i = Some x"
  by (simp add: nth_opt_def)

lemma read_words_in: "off + 2 * n \<le> length b \<Longrightarrow> \<exists>ws. read_words b off n = Some ws \<and> length ws = n"
proof (induction n arbitrary: off)
  case (Suc n)
  then obtain w ws where "READ16 b off = Some w" "read_words b (off + 2) n = Some ws" "length ws = n"
    using READ16_in [of off b] Suc.IH [of "off + 2"] by fastforce
  then show ?case by simp
qed simp

lemma read_links_in: "off + 5 * n \<le> length b \<Longrightarrow> \<exists>ls. read_links b off n = Some ls \<and> length ls = n"
proof (induction n arbitrary: off)
  case (Suc n)
  then have l: "off + 1 < length b" "off + 2 + 1 < length b" "off + 4 < length b" "off + 5 + 5 * n \<le> length b" by simp_all
  obtain x y z ls where "READ16 b off = Some x" "READ16 b (off + 2) = Some y" "nth_opt b (off + 4) = Some z"
    "read_links b (off + 5) n = Some ls" "length ls = n"
    using READ16_in [OF l(1)] READ16_in [OF l(2)] nth_opt_in [OF l(3)] Suc.IH [OF l(4)] by (elim exE conjE)
  then show ?case by (simp del: nth_opt_eq_Some)
qed simp

lemma header_accepts: "len \<le> length p \<Longrightarrow> ies_sized i \<Longrightarrow> accepts (frame802154e_parse_header_ie p len x i) len"
  using READ16_in [of 0 p] by (auto simp: frame802154e_parse_header_ie_def accepts_def ies_sized_def Let_def)

lemma slotframe_accepts:
  assumes "len + 8 \<le> length p" "ies_sized i"
  shows "accepts (parse_slotframe_and_link p len i) len"
proof -
  have l: "0 < length p" "4 < length p" "1 < length p" "2 + 1 < length p" using assms(1) by linarith+
  obtain ns nl h sz where g: "nth_opt p 0 = Some ns" "nth_opt p 4 = Some nl" "nth_opt p 1 = Some h" "READ16 p 2 = Some sz"
    using nth_opt_in [OF l(1)] nth_opt_in [OF l(2)] nth_opt_in [OF l(3)] READ16_in [OF l(4)] by (elim exE)
  show ?thesis
  proof (cases "len \<ge> 1 \<and> ns \<noteq> 0 \<and> unat ns \<le> 1 \<and> unat nl \<le> 4 \<and> len = 1 + unat ns * (4 + 5 * unat nl)")
    case True
    then have "unat ns = 1" by (auto simp: word_unat_eq_iff)
    then obtain ls where "read_links p 5 (unat nl) = Some ls" "length ls = unat nl"
      using read_links_in [of 5 "unat nl" p] True assms(1) by auto
    then show ?thesis using True g assms(2) by (auto simp: parse_slotframe_and_link_def accepts_def ies_sized_def simp del: nth_opt_eq_Some)
  qed (use g assms(2) in \<open>auto simp: parse_slotframe_and_link_def accepts_def simp del: nth_opt_eq_Some\<close>)
qed

lemma ies_sized_updates [simp]:
  "ies_sized (i\<lparr> ie_overhearing := b \<rparr>) = ies_sized i" "ies_sized (i\<lparr> ie_rank := b \<rparr>) = ies_sized i"
  "ies_sized (i\<lparr> ie_time_source := b \<rparr>) = ies_sized i" "ies_sized (i\<lparr> ie_schedule_version := b \<rparr>) = ies_sized i"
  "ies_sized (i\<lparr> ie_sequence_number := w \<rparr>) = ies_sized i" "ies_sized (i\<lparr> ie_schedule_packets := w \<rparr>) = ies_sized i"
  "ies_sized (i\<lparr> ie_payload_ie_offset := b \<rparr>) = ies_sized i"
  by (simp_all add: ies_sized_def)

lemma accepts_if: "accepts a n \<Longrightarrow> accepts b n \<Longrightarrow> accepts (if c then a else b) n"
  by simp

lemma accepts_error: "ies_sized i \<Longrightarrow> accepts (Some (- 1, i)) n"
  by (simp add: accepts_def)

lemma byte_accepts: "len \<le> length p \<Longrightarrow> ies_sized i \<Longrightarrow> (\<And>b. ies_sized (u b i)) \<Longrightarrow> accepts (parse_byte p len u i) len"
  by (cases p) (auto simp: accepts_def parse_byte_def nth_opt_def)

lemma word_accepts: "len \<le> length p \<Longrightarrow> ies_sized i \<Longrightarrow> (\<And>w. ies_sized (u w i)) \<Longrightarrow> accepts (parse_word p len u i) len"
  using READ16_in [of 0 p] by (auto simp: accepts_def parse_word_def)

lemma received_accepts: "len \<le> length p \<Longrightarrow> ies_sized i \<Longrightarrow> accepts (parse_schedule_received p len i) len"
  by (auto simp: accepts_def parse_schedule_received_def ies_sized_def slice_opt_def)

lemma short_accepts:
  assumes "len + 8 \<le> length p" "ies_sized i"
  shows "accepts (frame802154e_parse_mlme_short_ie p len x i) len"
proof -
  have l: "len \<le> length p" using assms(1) by simp
  note bw = byte_accepts [OF l assms(2)] word_accepts [OF l assms(2)] received_accepts [OF l assms(2)]
  have sync: "accepts (if len = 6 then do {
           b0 \<leftarrow> nth_opt p 0; b1 \<leftarrow> nth_opt p 1; b2 \<leftarrow> nth_opt p 2; b3 \<leftarrow> nth_opt p 3;
           b4 \<leftarrow> nth_opt p 4; b5 \<leftarrow> nth_opt p 5;
           Some (int len, i\<lparr> ie_asn := \<lparr> ls4b = ((ucast b0 OR push_bit 8 (ucast b1)) OR push_bit 16 (ucast b2)) OR
                                                push_bit 24 (ucast b3), ms1b = b4 \<rparr>, ie_join_priority := b5 \<rparr>)
         } else Some (- 1, i)) len"
    using assms by (auto simp: accepts_def ies_sized_def nth_opt_def)
  have ts: "accepts (if len = 1 \<or> len = 25 then do {
           b \<leftarrow> nth_opt p 0;
           let ies = i\<lparr> ie_tsch_timeslot_id := b \<rparr>;
           (if len = 25 then do {
              ws \<leftarrow> read_words p 1 tsch_ts_elements_count;
              Some (int len, ies\<lparr> ie_tsch_timeslot := ws \<rparr>)
            } else Some (int len, ies))
         } else Some (- 1, i)) len"
    using assms read_words_in [of 1 12 p] by (auto simp: accepts_def ies_sized_def nth_opt_def)
  show ?thesis unfolding frame802154e_parse_mlme_short_ie_def
    by (rule slotframe_accepts [OF assms] | rule sync | rule ts | rule bw | rule accepts_error | rule accepts_if | simp add: assms(2))+
qed

lemma long_accepts:
  assumes "len + 8 \<le> length p" "ies_sized i"
  shows "accepts (frame802154e_parse_mlme_long_ie p len x i) len"
proof -
  consider "len = 0" | "len = 1" | "len > 1" by linarith
  then show ?thesis
  proof cases
    case 3
    have l: "0 < length p" "8 + 1 < length p" using assms(1) 3 by linarith+
    obtain b n where g: "nth_opt p 0 = Some b" "READ16 p 8 = Some n"
      using nth_opt_in [OF l(1)] READ16_in [OF l(2)] by (elim exE)
    then show ?thesis using 3 assms
      by (auto simp: frame802154e_parse_mlme_long_ie_def accepts_def ies_sized_def slice_opt_def Let_def simp del: nth_opt_eq_Some)
  qed (use assms in \<open>cases p; auto simp: frame802154e_parse_mlme_long_ie_def accepts_def ies_sized_def nth_opt_def\<close>)+
qed

text \<open>Every outcome of the loop that started at \<open>pos\<close> with \<open>n\<close> bytes left.\<close>

definition loop_safe :: "(int \<times> ieee802154_ies) option \<Rightarrow> nat \<Rightarrow> bool" where
  "loop_safe x t \<longleftrightarrow> (\<exists>r i. x = Some (r, i) \<and> - 1 \<le> r \<and> r \<le> int t \<and> ies_sized i)"

lemma accepts_bind:
  assumes "accepts x len" "\<And>i. x = Some (int len, i) \<Longrightarrow> ies_sized i \<Longrightarrow> loop_safe (f (int len, i)) t"
    "\<And>i. ies_sized i \<Longrightarrow> loop_safe (f (- 1, i)) t"
  shows "loop_safe (Option.bind x f) t"
  using assms by (auto simp: accepts_def)

lemma loop_safe_value: "ies_sized i \<Longrightarrow> - 1 \<le> r \<Longrightarrow> r \<le> int t \<Longrightarrow> loop_safe (Some (r, i)) t"
  by (simp add: loop_safe_def)

lemma parse_ies_loop_safe:
  "n + 8 \<le> length buf \<Longrightarrow> ies_sized i \<Longrightarrow> loop_safe (parse_ies_loop st nested pos n buf i) (pos + n)"
proof (induction n arbitrary: st nested pos buf i rule: less_induct)
  case (less n)
  note IH = less.IH and len = less.prems(1) and sz = less.prems(2)
  have step: "loop_safe (parse_ies_loop st' k p m b i') (pos + n)"
    if "m < n" "m + 8 \<le> length b" "ies_sized i'" "p + m = pos + n" for st' k p m b i'
    using IH [OF that(1-3), of st' k p] unfolding that(4) .
  show ?case
  proof (cases "n < 2")
    case True
    then show ?thesis using sz by (subst parse_ies_loop.simps) (auto intro!: loop_safe_value)
  next
    case False
    then have n: "2 \<le> n" "n \<noteq> 0" "\<not> n < 2" by simp_all
    obtain d where d: "READ16 buf 0 = Some d" using READ16_in [of 0 buf] len by auto
    have p: "l + 8 \<le> length (drop 2 buf)" "l \<le> length (drop 2 buf)" if "l \<le> n - 2" for l using that len n by simp_all
    note a = header_accepts [OF p(2) sz] short_accepts [OF p(1) sz] long_accepts [OF p(1) sz]
    show ?thesis
      by (subst parse_ies_loop.simps, unfold d, cases st)
        (use n len in \<open>auto intro!: accepts_bind a loop_safe_value step simp: Let_def not_less sz\<close>)
  qed
qed

lemma parse_elements_safe:
  assumes "unat buf_size + 8 \<le> length buf" "ies_sized i"
  shows "\<exists>r i'. frame802154e_parse_information_elements buf buf_size (Some i) = Some (r, Some i') \<and>
    - 1 \<le> r \<and> r \<le> int (unat buf_size) \<and> ies_sized i'"
proof -
  have "loop_safe (parse_ies_loop PARSING_HEADER_IE 0 0 (unat buf_size) buf (i\<lparr> ie_payload_ie_offset := 0 \<rparr>)) (0 + unat buf_size)"
    using assms by (intro parse_ies_loop_safe) simp_all
  then show ?thesis by (auto simp: loop_safe_def frame802154e_parse_information_elements_def)
qed

text \<open>
  C14. The parser of information elements stays in bounds: whatever the \<open>buf_size\<close> bytes contain, as long as the
  underlying buffer extends eight bytes beyond them (the fixed offsets of the slotframe and the hopping sequence
  elements are read before the element's length is compared), every access is defined, the result is -1 or
  a length within the frame, and no array of the structure is written beyond its declared size.
\<close>

theorem parse_information_elements_safe:
  assumes "unat buf_size + 8 \<le> length buf" "ies_sized i"
  shows "\<exists>r i'. frame802154e_parse_information_elements buf buf_size (Some i) = Some (r, Some i') \<and>
    - 1 \<le> r \<and> r \<le> int (unat buf_size) \<and> ies_sized i'"
  by (rule parse_elements_safe [OF assms])

theorem parse_information_elements_safe_witness:
  "\<exists>r i'. frame802154e_parse_information_elements (replicate 20 0xa5) 12 (Some ies_zero) = Some (r, Some i') \<and> r \<le> 12 \<and> ies_sized i'"
  using parse_information_elements_safe [of 12 "replicate 20 0xa5" ies_zero] by (fastforce simp: ies_zero_def ies_sized_def)

text \<open>
  Without such a margin the parser reads beyond its input: for the smallest slotframe and link element that
  the code itself creates (no slotframe, one byte) it loads the number of links at offset 4 of the element, so
  a frame ending with that element is read three bytes past its end.
\<close>

theorem slotframe_element_read_past_end:
  "frame802154e_parse_information_elements
     (element frame80215e_create_ie_header_list_termination_1 ies_zero @
      element frame80215e_create_ie_mlme (ies_zero\<lparr> ie_mlme_len := 3 \<rparr>) @ element frame80215e_create_ie_tsch_slotframe_and_link ies_zero)
     7 (Some ies_zero) = None"
proof -
  let ?e = "element frame80215e_create_ie_tsch_slotframe_and_link ies_zero"
  have m: "unat (ie_mlme_len (ies_zero\<lparr> ie_mlme_len := 3 \<rparr>)) = 3" by simp
  have e: "?e = [1, 0x1b, 0]"
    by (simp add: element_def frame80215e_create_ie_tsch_slotframe_and_link_def ies_zero_def put_ie_def put_opt_def put_at_def
        slice_opt_def create_mlme_short_ie_descriptor_def WRITE16_def ie_ids lo8_def hi8_def)
  have "parse_ies_loop PARSING_MLME_SUBIE 3 4 3 ?e i = None" for i
    unfolding e by (subst parse_ies_loop.simps)
      (simp add: READ16_def nth_opt_def mk16_def Let_def frame802154e_parse_mlme_short_ie_def parse_slotframe_and_link_def ie_ids)
  moreover have "unat (7 :: u8) = Suc (Suc (Suc (Suc 3)))" by simp
  ultimately show ?thesis unfolding header_and_mlme m frame802154e_parse_information_elements_def option.case
    by (simp only: loop_termination_1 loop_mlme) (simp add: eval_nat_numeral)
qed

text \<open>
  The creators of the elements added for schedule distribution do not protect the end of the buffer: with
  two bytes of space they pass their length check and store three bytes, and the hopping sequence element of
  sequence id 0 passes its check with three bytes of space and stores fourteen.
\<close>

theorem element_creators_overflow:
  assumes "length buf = 2" "length buf' = 3"
  shows "frame80215e_create_ie_overhearing buf 2 (Some ies) = None \<and> frame80215e_create_ie_tsch_rank buf 2 (Some ies) = None \<and>
    frame80215e_create_ie_time_source buf 2 (Some ies) = None \<and> frame80215e_create_ie_schedule_version buf 2 (Some ies) = None \<and>
    frame80215e_create_ie_tsch_channel_hopping_sequence buf' 3 (Some ies_zero) = None"
  using assms
  by (simp add: frame80215e_create_ie_overhearing_def frame80215e_create_ie_tsch_rank_def frame80215e_create_ie_time_source_def
      frame80215e_create_ie_schedule_version_def frame80215e_create_ie_tsch_channel_hopping_sequence_def put_ie_def put_opt_def
      ies_zero_def slice_opt_def Let_def)

theorem element_creators_overflow_witness:
  "frame80215e_create_ie_tsch_rank [0, 0] 2 (Some ies_zero) = None"
  using element_creators_overflow [of "[0, 0]" "[0, 0, 0]" ies_zero] by simp

text \<open>
  Without a \<open>break\<close> after the case of the schedule packets, a three-byte element with that identifier replaces the
  vector of received schedule packets.
\<close>

lemma schedule_packets_falls_through:
  "frame802154e_parse_mlme_short_ie [a, b, c] 3 MLME_SHORT_IE_SCHEDULE_PACKETS i = Some (3, i\<lparr> ie_schedule_received := [a, b, c] \<rparr>)"
  by (simp add: frame802154e_parse_mlme_short_ie_def parse_schedule_received_def slice_opt_def ie_ids)

end
