(* ===== verification/TschScheduleProps.thy ===== *)
theory TschScheduleProps
  imports TschSchedule
begin

text \<open>
  Invariant and correctness of the TSCH schedule. Abstractly a schedule maps the handle of each
  slotframe to its length and to a partial map from time slots to cells; the operations refine updates of
  that map, the removal loops end, and the next active link is the one the standard prescribes.
\<close>

subsection \<open>Invariant and abstraction\<close>

type_synonym acell = "u8 \<times> link_type \<times> linkaddr \<times> u16"
type_synonym aschedule = "u16 \<rightharpoonup> u16 \<times> (u16 \<rightharpoonup> acell)"

definition link_wf :: "tsch_slotframe \<Rightarrow> tsch_link \<Rightarrow> bool" where
  "link_wf sf l \<longleftrightarrow> l_slotframe_handle l = sf_handle sf \<and> l_timeslot l < asn_val (sf_size sf) \<and>
     l_channel_offset l \<le> 15 \<and> addr_wf (l_addr l)"

definition sf_wf :: "'a sched_state_scheme \<Rightarrow> nat \<Rightarrow> bool" where
  "sf_wf s f \<longleftrightarrow> asn_val (sf_size (sfr s f)) \<noteq> 0 \<and>
     sf_size (sfr s f) = TSCH_ASN_DIVISOR_INIT (asn_val (sf_size (sfr s f))) \<and>
     distinct (sf_links (sfr s f)) \<and> (\<forall>l \<in> set (sf_links (sfr s f)). link_wf (sfr s f) (lnk s l)) \<and>
     inj_on (\<lambda>l. l_timeslot (lnk s l)) (set (sf_links (sfr s f)))"

definition sc_wf :: "'a sched_state_scheme \<Rightarrow> bool" where
  "sc_wf s \<longleftrightarrow> memb_wf (link_memb s) \<and> memb_num (link_memb s) = TSCH_SCHEDULE_MAX_LINKS \<and>
     memb_wf (slotframe_memb s) \<and> memb_num (slotframe_memb s) = TSCH_SCHEDULE_MAX_SLOTFRAMES \<and>
     distinct (slotframe_list s) \<and> set (slotframe_list s) = memb_used (slotframe_memb s) \<and>
     inj_on (\<lambda>f. sf_handle (sfr s f)) (set (slotframe_list s)) \<and>
     (\<forall>f \<in> set (slotframe_list s). sf_wf s f) \<and>
     (\<Union>f \<in> set (slotframe_list s). set (sf_links (sfr s f))) = memb_used (link_memb s) \<and>
     (\<forall>f \<in> set (slotframe_list s). \<forall>g \<in> set (slotframe_list s). f \<noteq> g \<longrightarrow>
        set (sf_links (sfr s f)) \<inter> set (sf_links (sfr s g)) = {})"

definition sched_wf :: "'a sched_state_scheme \<Rightarrow> bool" where
  "sched_wf s \<longleftrightarrow> q_wf s \<and> sc_wf s"

definition cell :: "tsch_link \<Rightarrow> acell" where
  "cell x = (l_link_options x, l_link_type x, l_addr x, l_channel_offset x)"

definition cells :: "'a sched_state_scheme \<Rightarrow> nat \<Rightarrow> u16 \<rightharpoonup> acell" where
  "cells s f = (\<lambda>ts. map_option (\<lambda>l. cell (lnk s l)) (find (\<lambda>l. l_timeslot (lnk s l) = ts) (sf_links (sfr s f))))"

definition asched :: "'a sched_state_scheme \<Rightarrow> aschedule" where
  "asched s = (\<lambda>h. map_option (\<lambda>f. (asn_val (sf_size (sfr s f)), cells s f))
     (find (\<lambda>f. sf_handle (sfr s f) = h) (slotframe_list s)))"

subsection \<open>Frame\<close>

text \<open>The queue operations and the lock do not touch the schedule.\<close>

lemma sched_more:
  assumes "tsch_state.more s' = tsch_state.more s"
  shows "link_memb s' = link_memb s" "slotframe_memb s' = slotframe_memb s" "slotframe_list s' = slotframe_list s"
    "current_link s' = current_link s"
  using assms by (cases s; cases s'; simp)+

lemma set_nbr_more [simp]: "tsch_state.more (set_nbr n x s) = tsch_state.more s"
  by (simp add: set_nbr_def)

lemma add_nbr_more: "tsch_state.more (snd (tsch_queue_add_nbr a s)) = tsch_state.more s"
  by (simp add: tsch_queue_add_nbr_def tsch_get_lock_def tsch_release_lock_def tsch_queue_backoff_reset_def Let_def
      set_nbr_def split: option.split prod.split)

lemma sched_cong:
  assumes "link_memb s' = link_memb s" "slotframe_memb s' = slotframe_memb s" "slotframe_list s' = slotframe_list s"
  shows "sc_wf s' = sc_wf s" "asched s' = asched s" "sfr s' = sfr s" "lnk s' = lnk s"
proof -
  show e: "sfr s' = sfr s" "lnk s' = lnk s" using assms by (simp_all add: sfr_def lnk_def fun_eq_iff)
  then have "sf_wf s' = sf_wf s" "cells s' = cells s" by (simp_all add: sf_wf_def cells_def fun_eq_iff)
  then show "sc_wf s' = sc_wf s" "asched s' = asched s" using e assms by (simp_all add: sc_wf_def asched_def)
qed

lemma sc_wfD:
  assumes "sc_wf s"
  shows "memb_wf (link_memb s)" "memb_wf (slotframe_memb s)" "distinct (slotframe_list s)"
    "set (slotframe_list s) = memb_used (slotframe_memb s)"
    "inj_on (\<lambda>f. sf_handle (sfr s f)) (set (slotframe_list s))"
    "f \<in> set (slotframe_list s) \<Longrightarrow> sf_wf s f"
    "f \<in> set (slotframe_list s) \<Longrightarrow> f < length (m_mem (slotframe_memb s))"
    "f \<in> set (slotframe_list s) \<Longrightarrow> set (sf_links (sfr s f)) \<subseteq> memb_used (link_memb s)"
    "l \<in> memb_used (link_memb s) \<Longrightarrow> l < length (m_mem (link_memb s))"
    "f \<in> set (slotframe_list s) \<Longrightarrow> g \<in> set (slotframe_list s) \<Longrightarrow> f \<noteq> g \<Longrightarrow>
       set (sf_links (sfr s f)) \<inter> set (sf_links (sfr s g)) = {}"
    "memb_num (link_memb s) = TSCH_SCHEDULE_MAX_LINKS" "memb_num (slotframe_memb s) = TSCH_SCHEDULE_MAX_SLOTFRAMES"
    "(\<Union>f \<in> set (slotframe_list s). set (sf_links (sfr s f))) = memb_used (link_memb s)"
proof -
  note a = assms [unfolded sc_wf_def]
  show w: "memb_wf (link_memb s)" "memb_wf (slotframe_memb s)" "distinct (slotframe_list s)"
    "set (slotframe_list s) = memb_used (slotframe_memb s)"
    "inj_on (\<lambda>f. sf_handle (sfr s f)) (set (slotframe_list s))"
    "memb_num (link_memb s) = TSCH_SCHEDULE_MAX_LINKS" "memb_num (slotframe_memb s) = TSCH_SCHEDULE_MAX_SLOTFRAMES"
    "(\<Union>f \<in> set (slotframe_list s). set (sf_links (sfr s f))) = memb_used (link_memb s)"
    by (insert a, (elim conjE, assumption)+)
  have q: "\<forall>f \<in> set (slotframe_list s). sf_wf s f"
    "\<forall>f \<in> set (slotframe_list s). \<forall>g \<in> set (slotframe_list s). f \<noteq> g \<longrightarrow>
       set (sf_links (sfr s f)) \<inter> set (sf_links (sfr s g)) = {}"
    by (insert a, (elim conjE, assumption)+)
  show "f \<in> set (slotframe_list s) \<Longrightarrow> sf_wf s f" using q(1) by blast
  show "f \<in> set (slotframe_list s) \<Longrightarrow> set (sf_links (sfr s f)) \<subseteq> memb_used (link_memb s)"
    using w(8) by blast
  show "f \<in> set (slotframe_list s) \<Longrightarrow> g \<in> set (slotframe_list s) \<Longrightarrow> f \<noteq> g \<Longrightarrow>
       set (sf_links (sfr s f)) \<inter> set (sf_links (sfr s g)) = {}" using q(2) by blast
  show "f \<in> set (slotframe_list s) \<Longrightarrow> f < length (m_mem (slotframe_memb s))"
    "l \<in> memb_used (link_memb s) \<Longrightarrow> l < length (m_mem (link_memb s))"
    using mb.used_bound [OF w(1)] mb.used_bound [OF w(2)] w(4) by (auto simp: memb_num_def)
qed

lemmas sf_wfD = sf_wf_def [THEN iffD1, THEN conjunct1]
  sf_wf_def [THEN iffD1, THEN conjunct2, THEN conjunct1]
  sf_wf_def [THEN iffD1, THEN conjunct2, THEN conjunct2, THEN conjunct1]
  sf_wf_def [THEN iffD1, THEN conjunct2, THEN conjunct2, THEN conjunct2, THEN conjunct1]
  sf_wf_def [THEN iffD1, THEN conjunct2, THEN conjunct2, THEN conjunct2, THEN conjunct2]

subsection \<open>Searching\<close>

lemma find_snoc: "find P (xs @ [x]) = (case find P xs of None \<Rightarrow> if P x then Some x else None | Some y \<Rightarrow> Some y)"
  by (induction xs) auto

lemma find_inj:
  assumes "inj_on g (set xs)" "x \<in> set xs"
  shows "find (\<lambda>y. g y = g x) xs = Some x"
  using assms by (induction xs) (auto simp: inj_on_def)

lemma find_remove1:
  assumes "inj_on g (set xs)" "distinct xs" "x \<in> set xs"
  shows "find (\<lambda>y. g y = t) (remove1 x xs) = (if t = g x then None else find (\<lambda>y. g y = t) xs)"
proof (cases "t = g x")
  case True
  then have "\<forall>y \<in> set (remove1 x xs). g y \<noteq> t" using assms by (auto simp: inj_on_def)
  then have "find (\<lambda>y. g y = t) (remove1 x xs) = None" by (simp add: find_None_iff)
  then show ?thesis using True by simp
next
  case False
  have "find P (remove1 x ys) = find P ys" if "\<not> P x" for P ys using that by (induction ys) auto
  then show ?thesis using False by simp
qed

subsection \<open>Effect of the operations on the schedule\<close>

lemma asched_upd:
  assumes w: "sc_wf s" "f \<in> set (slotframe_list s)" and l: "slotframe_list s' = slotframe_list s"
    and f: "sf_handle (sfr s' f) = sf_handle (sfr s f)" "asn_val (sf_size (sfr s' f)) = asn_val (sf_size (sfr s f))"
    and o: "\<And>g. g \<in> set (slotframe_list s) \<Longrightarrow> g \<noteq> f \<Longrightarrow> sfr s' g = sfr s g \<and> cells s' g = cells s g"
  shows "asched s' = (asched s)(sf_handle (sfr s f) \<mapsto> (asn_val (sf_size (sfr s f)), cells s' f))"
proof (rule ext)
  fix h
  have e: "find (\<lambda>g. sf_handle (sfr s' g) = h) (slotframe_list s) = find (\<lambda>g. sf_handle (sfr s g) = h) (slotframe_list s)"
    using f o by (intro find_cong refl) metis
  show "asched s' h = ((asched s)(sf_handle (sfr s f) \<mapsto> (asn_val (sf_size (sfr s f)), cells s' f))) h"
  proof (cases "h = sf_handle (sfr s f)")
    case True
    then show ?thesis using e f find_inj [OF sc_wfD(5) [OF w(1)] w(2)] by (simp add: asched_def l)
  next
    case False
    have "g \<in> set (slotframe_list s) \<and> g \<noteq> f" if "find (\<lambda>g. sf_handle (sfr s g) = h) (slotframe_list s) = Some g" for g
      using find_Some_iff2 [OF that] False by auto
    then show ?thesis using e o False by (auto simp: asched_def l intro: option.map_cong)
  qed
qed

lemma remove_link_sched:
  assumes w: "sc_wf s" "f \<in> set (slotframe_list s)" "l \<in> set (sf_links (sfr s f))"
    and s': "link_memb s' = snd (memb_free (link_memb s) l)" "slotframe_list s' = slotframe_list s"
      "slotframe_memb s' = memb_put (slotframe_memb s) f ((sfr s f)\<lparr> sf_links := remove1 l (sf_links (sfr s f)) \<rparr>)"
  shows "sc_wf s'" "asched s' = (asched s)(sf_handle (sfr s f) \<mapsto>
      (asn_val (sf_size (sfr s f)), (cells s f)(l_timeslot (lnk s l) := None)))"
    "sfr s' f = (sfr s f)\<lparr> sf_links := remove1 l (sf_links (sfr s f)) \<rparr>"
proof -
  note d = sc_wfD [OF w(1)]
  note sf = d(6) [OF w(2)]
  note fr = mb.free_ok [OF d(1), of l]
  have k: "lnk s' = lnk s" using fr by (simp add: lnk_def s' fun_eq_iff)
  have g: "sfr s' g = (if g = f then (sfr s f)\<lparr> sf_links := remove1 l (sf_links (sfr s f)) \<rparr> else sfr s g)" for g
    using d(7) [OF w(2)] by (simp add: sfr_def s' memb_put_def)
  then show "sfr s' f = (sfr s f)\<lparr> sf_links := remove1 l (sf_links (sfr s f)) \<rparr>" by simp
  have ls: "set (sf_links (sfr s' g)) = (if g = f then set (sf_links (sfr s f)) - {l} else set (sf_links (sfr s g)))" for g
    using sf_wfD(3) [OF sf] by (simp add: g)
  have c: "cells s' f = (cells s f)(l_timeslot (lnk s l) := None)"
    using find_remove1 [OF sf_wfD(5) [OF sf] sf_wfD(3) [OF sf] w(3)] by (auto simp: cells_def g k fun_eq_iff)
  have co: "cells s' g = cells s g" if "g \<noteq> f" for g using that by (simp add: cells_def g k)
  show "asched s' = (asched s)(sf_handle (sfr s f) \<mapsto>
      (asn_val (sf_size (sfr s f)), (cells s f)(l_timeslot (lnk s l) := None)))"
    using asched_upd [OF w(1,2) s'(2)] g co c by simp
  have "sf_wf s' g" if "g \<in> set (slotframe_list s)" for g
    using sf d(6) [OF that] by (auto simp: sf_wf_def g k link_wf_def dest: notin_set_remove1 intro: inj_on_subset)
  moreover have "(\<Union>g \<in> set (slotframe_list s). set (sf_links (sfr s' g))) = memb_used (link_memb s')"
  proof -
    have "l \<notin> set (sf_links (sfr s g))" if "g \<in> set (slotframe_list s)" "g \<noteq> f" for g
      using d(10) [OF that(1) w(2) that(2)] w(3) by blast
    then have "(\<Union>g \<in> set (slotframe_list s). set (sf_links (sfr s' g))) = memb_used (link_memb s) - {l}"
      unfolding ls d(13) [symmetric] using w(2) by (auto split: if_splits)
    then show ?thesis using fr by (simp add: s')
  qed
  moreover have "set (sf_links (sfr s' g)) \<inter> set (sf_links (sfr s' h)) = {}"
    if "g \<in> set (slotframe_list s)" "h \<in> set (slotframe_list s)" "g \<noteq> h" for g h
    using d(10) [OF that] unfolding ls by auto
  moreover have "(\<lambda>g. sf_handle (sfr s' g)) = (\<lambda>g. sf_handle (sfr s g))" by (simp add: g fun_eq_iff)
  moreover have "memb_wf (slotframe_memb s')" "memb_num (slotframe_memb s') = memb_num (slotframe_memb s)"
    "memb_used (slotframe_memb s') = memb_used (slotframe_memb s)"
    using d(2) by (simp_all add: s' memb_put_def memb_wf_def memb_num_def memb_used_def)
  ultimately show "sc_wf s'" using d(3,4,5,11,12) fr unfolding sc_wf_def by (simp add: s'(1,2))
qed

lemma add_link_sched:
  assumes w: "sc_wf s" "f \<in> set (slotframe_list s)" and m: "memb_alloc (link_memb s) = (Some l, m)"
    and x: "link_wf (sfr s f) x" "\<And>k. k \<in> set (sf_links (sfr s f)) \<Longrightarrow> l_timeslot (lnk s k) \<noteq> l_timeslot x"
    and s': "link_memb s' = memb_put m l x" "slotframe_list s' = slotframe_list s"
      "slotframe_memb s' = memb_put (slotframe_memb s) f ((sfr s f)\<lparr> sf_links := sf_links (sfr s f) @ [l] \<rparr>)"
  shows "sc_wf s'" "asched s' = (asched s)(sf_handle (sfr s f) \<mapsto>
      (asn_val (sf_size (sfr s f)), (cells s f)(l_timeslot x \<mapsto> cell x)))"
proof -
  note d = sc_wfD [OF w(1)]
  note sf = d(6) [OF w(2)] and al = mb.allocD [OF d(1) m]
  have nl: "l \<notin> set (sf_links (sfr s g))" if "g \<in> set (slotframe_list s)" for g using al(2) d(8) [OF that] by blast
  have k: "lnk s' j = (if j = l then x else lnk s j)" for j
    using al(1,6) by (simp add: lnk_def s' memb_num_def nth_list_update)
  have g: "sfr s' g = (if g = f then (sfr s f)\<lparr> sf_links := sf_links (sfr s f) @ [l] \<rparr> else sfr s g)" for g
    using d(7) [OF w(2)] by (simp add: sfr_def s' memb_put_def)
  have kk: "lnk s' j = lnk s j" if "j \<in> set (sf_links (sfr s g))" "g \<in> set (slotframe_list s)" for j g
    using nl [OF that(2)] that(1) k by auto
  have fe: "find (\<lambda>j. l_timeslot (lnk s' j) = t) (sf_links (sfr s g)) = find (\<lambda>j. l_timeslot (lnk s j) = t) (sf_links (sfr s g))"
    if "g \<in> set (slotframe_list s)" for g t using kk [OF _ that] by (intro find_cong refl) simp
  have ce: "map_option (\<lambda>j. cell (lnk s' j)) (find P (sf_links (sfr s g))) = map_option (\<lambda>j. cell (lnk s j)) (find P (sf_links (sfr s g)))"
    if "g \<in> set (slotframe_list s)" for g P
    using kk [OF _ that] by (cases "find P (sf_links (sfr s g))") (auto dest: find_Some_iff2)
  have co: "cells s' h = cells s h" if "h \<in> set (slotframe_list s)" "h \<noteq> f" for h
    using that fe ce by (simp add: cells_def g fun_eq_iff)
  have "find (\<lambda>j. l_timeslot (lnk s j) = l_timeslot x) (sf_links (sfr s f)) = None"
    using x(2) by (auto simp: find_None_iff)
  then have "cells s' f t = ((cells s f)(l_timeslot x \<mapsto> cell x)) t" for t
    using fe [OF w(2), of t] ce [OF w(2), of "\<lambda>j. l_timeslot (lnk s j) = t"] k
    by (auto simp: cells_def g find_snoc split: option.split)
  then show "asched s' = (asched s)(sf_handle (sfr s f) \<mapsto>
      (asn_val (sf_size (sfr s f)), (cells s f)(l_timeslot x \<mapsto> cell x)))"
    using asched_upd [OF w(1,2) s'(2)] g co by (simp add: fun_eq_iff)
  have "sf_wf s' h" if h: "h \<in> set (slotframe_list s)" for h
  proof (cases "h = f")
    case False
    have "inj_on (\<lambda>j. l_timeslot (lnk s' j)) (set (sf_links (sfr s h)))"
      using sf_wfD(5) [OF d(6) [OF h]] kk [OF _ h] by (simp add: inj_on_def)
    then show ?thesis using False d(6) [OF h] kk [OF _ h] by (simp add: sf_wf_def g)
  next
    case True
    have "inj_on (\<lambda>j. l_timeslot (lnk s' j)) (set (sf_links (sfr s f)))"
      using sf_wfD(5) [OF sf] kk [OF _ w(2)] by (simp add: inj_on_def)
    moreover have "l_timeslot x \<notin> (\<lambda>j. l_timeslot (lnk s' j)) ` set (sf_links (sfr s f))"
    proof
      assume "l_timeslot x \<in> (\<lambda>j. l_timeslot (lnk s' j)) ` set (sf_links (sfr s f))"
      then obtain j where "j \<in> set (sf_links (sfr s f))" "l_timeslot x = l_timeslot (lnk s' j)" by blast
      then show False using x(2) [of j] kk [OF _ w(2), of j] by simp
    qed
    ultimately have "inj_on (\<lambda>j. l_timeslot (lnk s' j)) (insert l (set (sf_links (sfr s f))))"
      using k [of l] nl [OF w(2)] by simp
    moreover have "\<forall>j \<in> set (sf_links (sfr s f)). link_wf (sfr s f) (lnk s' j)"
      using sf_wfD(4) [OF sf] kk [OF _ w(2)] by simp
    ultimately show ?thesis using True sf x(1) nl [OF w(2)] k [of l] by (simp add: sf_wf_def g link_wf_def)
  qed
  moreover have ls: "set (sf_links (sfr s' h)) = (if h = f then insert l (set (sf_links (sfr s f))) else set (sf_links (sfr s h)))" for h
    by (simp add: g)
  have "(\<Union>h \<in> set (slotframe_list s). set (sf_links (sfr s' h))) = memb_used (link_memb s')"
    unfolding ls s' memb_put_simps al(3) d(13) [symmetric] using w(2) by (auto split: if_splits)
  moreover have "set (sf_links (sfr s' h)) \<inter> set (sf_links (sfr s' j)) = {}"
    if "h \<in> set (slotframe_list s)" "j \<in> set (slotframe_list s)" "h \<noteq> j" for h j
    using d(10) [OF that] nl [OF that(1)] nl [OF that(2)] that(3) unfolding ls by auto
  moreover have "(\<lambda>h. sf_handle (sfr s' h)) = (\<lambda>h. sf_handle (sfr s h))" by (simp add: g fun_eq_iff)
  ultimately show "sc_wf s'" using d(2-5,11,12) al(4,5) unfolding sc_wf_def by (simp add: s')
qed

lemma add_slotframe_sched:
  assumes w: "sc_wf s" and m: "memb_alloc (slotframe_memb s) = (Some f, m)"
    and h: "\<And>g. g \<in> set (slotframe_list s) \<Longrightarrow> sf_handle (sfr s g) \<noteq> h" "v \<noteq> 0"
    and s': "link_memb s' = link_memb s" "slotframe_list s' = slotframe_list s @ [f]"
      "slotframe_memb s' = memb_put m f \<lparr> sf_handle = h, sf_size = TSCH_ASN_DIVISOR_INIT v, sf_links = [] \<rparr>"
  shows "sc_wf s'" "asched s' = (asched s)(h \<mapsto> (v, Map.empty))" "f \<notin> set (slotframe_list s)"
proof -
  note d = sc_wfD [OF w]
  note al = mb.allocD [OF d(2) m]
  show nf: "f \<notin> set (slotframe_list s)" using al(2) d(4) by simp
  have k: "lnk s' = lnk s" by (simp add: lnk_def s' fun_eq_iff)
  have g: "sfr s' g = (if g = f then \<lparr> sf_handle = h, sf_size = TSCH_ASN_DIVISOR_INIT v, sf_links = [] \<rparr> else sfr s g)" for g
    using al(1,6) by (simp add: sfr_def s' memb_num_def nth_list_update)
  have v: "asn_val (TSCH_ASN_DIVISOR_INIT v) = v" by (simp add: TSCH_ASN_DIVISOR_INIT_def)
  have gg: "sfr s' g = sfr s g" "cells s' g = cells s g" if "g \<in> set (slotframe_list s)" for g
    using that nf by (auto simp: g cells_def k)
  have fe: "find (\<lambda>g. sf_handle (sfr s' g) = t) (slotframe_list s) = find (\<lambda>g. sf_handle (sfr s g) = t) (slotframe_list s)" for t
    using gg by (intro find_cong refl) simp
  have fn: "find (\<lambda>g. sf_handle (sfr s g) = h) (slotframe_list s) = None" using h(1) by (auto simp: find_None_iff)
  show "asched s' = (asched s)(h \<mapsto> (v, Map.empty))"
  proof
    fix t
    have "map_option (\<lambda>f. (asn_val (sf_size (sfr s' f)), cells s' f)) (find (\<lambda>g. sf_handle (sfr s g) = t) (slotframe_list s)) =
        map_option (\<lambda>f. (asn_val (sf_size (sfr s f)), cells s f)) (find (\<lambda>g. sf_handle (sfr s g) = t) (slotframe_list s))"
      using gg by (cases "find (\<lambda>g. sf_handle (sfr s g) = t) (slotframe_list s)") (auto dest: find_Some_iff2)
    moreover have "cells s' f = Map.empty" by (simp add: cells_def g fun_eq_iff)
    ultimately show "asched s' t = ((asched s)(h \<mapsto> (v, Map.empty))) t"
      using fe [of t] fn by (auto simp: asched_def s'(2) find_snoc g v split: option.split)
  qed
  have "sf_wf s' g" if "g \<in> insert f (set (slotframe_list s))" for g
    using that d(6) [of g] h(2) nf by (auto simp: sf_wf_def g v k)
  moreover have "inj_on (\<lambda>g. sf_handle (sfr s' g)) (insert f (set (slotframe_list s)))"
    using d(5) h(1) nf gg(1) by (auto simp: inj_on_def g)
  moreover have "(\<Union>g \<in> insert f (set (slotframe_list s)). set (sf_links (sfr s' g))) = memb_used (link_memb s')"
    using d(13) gg(1) by (simp add: s'(1) g [of f])
  moreover have "set (sf_links (sfr s' a)) \<inter> set (sf_links (sfr s' b)) = {}"
    if "a \<in> insert f (set (slotframe_list s))" "b \<in> insert f (set (slotframe_list s))" "a \<noteq> b" for a b
    using that d(10) [of a b] by (auto simp: g)
  ultimately show "sc_wf s'" using d(1,3,4,11,12) al(3,4,5) nf unfolding sc_wf_def by (simp add: s')
qed

lemma remove_slotframe_sched:
  assumes w: "sc_wf s" "f \<in> set (slotframe_list s)" "sf_links (sfr s f) = []"
    and s': "link_memb s' = link_memb s" "slotframe_list s' = remove1 f (slotframe_list s)"
      "slotframe_memb s' = snd (memb_free (slotframe_memb s) f)"
  shows "sc_wf s'" "asched s' = (asched s)(sf_handle (sfr s f) := None)"
proof -
  note d = sc_wfD [OF w(1)]
  note fr = mb.free_ok [OF d(2), of f]
  have k: "lnk s' = lnk s" "sfr s' = sfr s" using fr by (simp_all add: lnk_def sfr_def s' fun_eq_iff)
  then have c: "cells s' = cells s" "sf_wf s' = sf_wf s" by (simp_all add: cells_def sf_wf_def fun_eq_iff)
  have st: "set (remove1 f (slotframe_list s)) = set (slotframe_list s) - {f}" using d(3) by simp
  show "asched s' = (asched s)(sf_handle (sfr s f) := None)"
    using find_remove1 [OF d(5) d(3) w(2)] by (auto simp: asched_def c k s'(2) fun_eq_iff)
  have "(\<Union>g \<in> set (slotframe_list s) - {f}. set (sf_links (sfr s g))) = memb_used (link_memb s)"
    unfolding d(13) [symmetric] using insert_Diff [OF w(2)] w(3)
    by (metis (no_types, lifting) UN_insert empty_set sup_bot_left)
  moreover have "inj_on (\<lambda>g. sf_handle (sfr s g)) (set (slotframe_list s) - {f})"
    using d(5) by (rule inj_on_subset) blast
  ultimately show "sc_wf s'" using d(1-4,6,10,11,12) fr st unfolding sc_wf_def s'(1,2,3) k c by simp
qed

subsection \<open>The operations\<close>

lemma sched_wf_frame:
  assumes "bufmem s' = bufmem s" "buframmem s' = buframmem s" "neighbor_memb s' = neighbor_memb s"
    "packet_memb s' = packet_memb s" "neighbor_list s' = neighbor_list s"
    "link_memb s' = link_memb s" "slotframe_memb s' = slotframe_memb s" "slotframe_list s' = slotframe_list s"
  shows "sched_wf s' = sched_wf s" "asched s' = asched s"
  using q_wf_frame(1) [OF assms(1-5)] sched_cong [OF assms(6-8)] by (simp_all add: sched_wf_def)

text \<open>Counting a transmission link changes neither the packet queues' consistency nor the schedule.\<close>

lemma count_tx_link_wf:
  assumes w: "q_wf s" "\<not> tsch_locked s" "addr_wf a"
  shows "q_wf (count_tx_link d opts a s)" "\<not> tsch_locked (count_tx_link d opts a s)"
    "tsch_state.more (count_tx_link d opts a s) = tsch_state.more s"
proof -
  let ?s = "count_tx_link d opts a s"
  have "q_wf ?s \<and> \<not> tsch_locked ?s \<and> tsch_state.more ?s = tsch_state.more s"
  proof (cases "opts AND LINK_OPTION_TX \<noteq> 0")
    case True
    obtain r s1 where r: "tsch_queue_add_nbr a s = (r, s1)" by fastforce
    note ad = add_nbr_wf [OF w(1,3,2) r] and mo = add_nbr_more [of a s, unfolded r snd_conv]
    show ?thesis
    proof (cases r)
      case (Some n)
      then have n: "n \<in> set (neighbor_list s1)" using ad(9) by blast
      have "n_is_time_source (nbr s1 n) \<Longrightarrow> \<forall>m \<in> set (neighbor_list s1). m \<noteq> n \<longrightarrow> \<not> n_is_time_source (nbr s1 m)"
        using ad(1) n unfolding q_wf_def nbrs_wf_def by blast
      then have "q_wf (set_nbr n ((nbr s1 n)\<lparr> n_tx_links_count := x, n_dedicated_tx_links_count := y \<rparr>) s1)" for x y
        using q_wf_set_nbr [OF ad(1) n, of "(nbr s1 n)\<lparr> n_tx_links_count := x, n_dedicated_tx_links_count := y \<rparr>"]
          q_wfD(6,8) [OF ad(1) n] by (simp add: nbr_wf_def nqueue_def backoff_wf_def qpackets_def)
      then show ?thesis using Some True ad(2) mo r by (simp add: count_tx_link_def)
    qed (use True ad(1,2) mo r in \<open>simp add: count_tx_link_def\<close>)
  qed (use w in \<open>simp add: count_tx_link_def\<close>)
  then show "q_wf ?s" "\<not> tsch_locked ?s" "tsch_state.more ?s = tsch_state.more s" by auto
qed

lemma remove_link_ok:
  assumes w: "sched_wf s" "\<not> tsch_locked s" "f \<in> set (slotframe_list s)" "l \<in> set (sf_links (sfr s f))"
  obtains s' where "tsch_schedule_remove_link (Some f) (Some l) s = (True, s')" "sched_wf s'" "\<not> tsch_locked s'"
    "asched s' = (asched s)(sf_handle (sfr s f) \<mapsto>
      (asn_val (sf_size (sfr s f)), (cells s f)(l_timeslot (lnk s l) := None)))"
    "slotframe_list s' = slotframe_list s" "sfr s' f = (sfr s f)\<lparr> sf_links := remove1 l (sf_links (sfr s f)) \<rparr>"
    "current_link s' = (if current_link s = Some l then None else current_link s)"
    "memb_used (link_memb s') = memb_used (link_memb s) - {l}"
proof -
  have ww: "q_wf s" "sc_wf s" using w(1) by (simp_all add: sched_wf_def)
  have lw: "link_wf (sfr s f) (lnk s l)" using sf_wfD(4) [OF sc_wfD(6) [OF ww(2) w(3)]] w(4) by blast
  define t where "t = s\<lparr> tsch_in_slot_operation := False, tsch_lock_requested := False,
     current_link := (if current_link s = Some l then None else current_link s),
     slotframe_memb := memb_put (slotframe_memb s) f ((sfr s f)\<lparr> sf_links := remove1 l (sf_links (sfr s f)) \<rparr>),
     link_memb := snd (memb_free (link_memb s) l), tsch_locked := False \<rparr>"
  have t: "link_memb t = snd (memb_free (link_memb s) l)" "slotframe_list t = slotframe_list s"
      "slotframe_memb t = memb_put (slotframe_memb s) f ((sfr s f)\<lparr> sf_links := remove1 l (sf_links (sfr s f)) \<rparr>)"
    by (simp_all add: t_def)
  note r = remove_link_sched [OF ww(2) w(3,4) t]
  have q: "q_wf t" "\<not> tsch_locked t" using ww(1) q_wf_frame(1) [of t s] by (simp_all add: t_def)
  have a: "addr_wf (l_addr (lnk s l))" using lw by (simp add: link_wf_def)
  let ?s = "count_tx_link (- 1) (l_link_options (lnk s l)) (l_addr (lnk s l)) t"
  note c = count_tx_link_wf [OF q a, of "- 1" "l_link_options (lnk s l)"]
  note sm = sched_more [OF c(3)]
  note sc = sched_cong [OF sm(1-3)]
  have "tsch_schedule_remove_link (Some f) (Some l) s = (True, ?s)"
    using w(2) lw by (simp add: tsch_schedule_remove_link_def tsch_get_lock_def tsch_release_lock_def Let_def link_wf_def
        set_sfr_def lnk_def sfr_def t_def)
  moreover have "memb_used (link_memb ?s) = memb_used (link_memb s) - {l}"
    using mb.free_ok [OF sc_wfD(1) [OF ww(2)], of l] by (simp add: sm t)
  ultimately show ?thesis using that r c sc sm t(2) by (simp add: sched_wf_def) (simp add: t_def)
qed

lemma asched_at:
  assumes "sc_wf s" "f \<in> set (slotframe_list s)"
  shows "asched s (sf_handle (sfr s f)) = Some (asn_val (sf_size (sfr s f)), cells s f)"
  using find_inj [OF sc_wfD(5) [OF assms(1)] assms(2)] by (simp add: asched_def)

lemma get_slotframe_Some:
  assumes "tsch_schedule_get_slotframe_by_handle h s = Some f"
  shows "f \<in> set (slotframe_list s)" "sf_handle (sfr s f) = h" "\<not> tsch_locked s"
  using assms find_Some_iff2 [of "\<lambda>f. sf_handle (sfr s f) = h" "slotframe_list s" f]
  by (auto simp: tsch_schedule_get_slotframe_by_handle_def tsch_is_locked_def split: if_splits)

lemma get_slotframe_None:
  "\<not> tsch_locked s \<Longrightarrow> tsch_schedule_get_slotframe_by_handle h s = None \<longleftrightarrow> asched s h = None"
  by (simp add: tsch_schedule_get_slotframe_by_handle_def tsch_is_locked_def asched_def)

lemma cells_find: "cells s f ts = None \<longleftrightarrow> (\<forall>l \<in> set (sf_links (sfr s f)). l_timeslot (lnk s l) \<noteq> ts)"
  by (auto simp: cells_def find_None_iff)

lemma remove_by_timeslot_ok:
  assumes w: "sched_wf s" "\<not> tsch_locked s" "f \<in> set (slotframe_list s)"
  obtains s' where "tsch_schedule_remove_link_by_timeslot (Some f) ts s = (cells s f ts \<noteq> None, s')" "sched_wf s'"
    "\<not> tsch_locked s'" "slotframe_list s' = slotframe_list s" "cells s' f = (cells s f)(ts := None)"
    "sf_handle (sfr s' f) = sf_handle (sfr s f)" "sf_size (sfr s' f) = sf_size (sfr s f)"
    "asched s' = (asched s)(sf_handle (sfr s f) \<mapsto> (asn_val (sf_size (sfr s f)), (cells s f)(ts := None)))"
    "cells s f ts = None \<longrightarrow> s' = s"
    "cells s f ts \<noteq> None \<longrightarrow> memb_used (link_memb s') \<noteq> {..<memb_num (link_memb s')}"
proof (cases "find (\<lambda>l. l_timeslot (lnk s l) = ts) (sf_links (sfr s f))")
  case None
  have e: "(cells s f)(ts := None) = cells s f" "cells s f ts = None" using None by (auto simp: cells_def fun_eq_iff)
  have "asched s = (asched s)(sf_handle (sfr s f) \<mapsto> (asn_val (sf_size (sfr s f)), cells s f))"
    using asched_at [of s f] w(1,3) by (simp add: sched_wf_def fun_upd_idem)
  then show ?thesis using that [of s] w None e
    by (simp add: tsch_schedule_remove_link_by_timeslot_def tsch_schedule_get_link_by_timeslot_def tsch_is_locked_def
        tsch_schedule_remove_link_def)
next
  case (Some l)
  have l: "l \<in> set (sf_links (sfr s f))" "l_timeslot (lnk s l) = ts" using find_Some_iff2 [OF Some] by auto
  have c: "cells s f ts \<noteq> None" using Some by (simp add: cells_def)
  obtain s' where s': "tsch_schedule_remove_link (Some f) (Some l) s = (True, s')" "sched_wf s'" "\<not> tsch_locked s'"
    "asched s' = (asched s)(sf_handle (sfr s f) \<mapsto> (asn_val (sf_size (sfr s f)), (cells s f)(ts := None)))"
    "slotframe_list s' = slotframe_list s" "sfr s' f = (sfr s f)\<lparr> sf_links := remove1 l (sf_links (sfr s f)) \<rparr>"
    "memb_used (link_memb s') = memb_used (link_memb s) - {l}"
    using remove_link_ok [OF w l(1)] unfolding l(2) by blast
  have "asched s' (sf_handle (sfr s f)) = Some (asn_val (sf_size (sfr s f)), cells s' f)"
    using asched_at [of s' f] s'(2,5,6) w(3) by (simp add: sched_wf_def)
  then have "cells s' f = (cells s f)(ts := None)" using s'(4) by simp
  moreover have "l < memb_num (link_memb s')"
  proof -
    have "l \<in> memb_used (link_memb s)" using l(1) sc_wfD(8) w(1,3) by (auto simp: sched_wf_def)
    moreover have "memb_num (link_memb s') = memb_num (link_memb s)" using s'(2) w(1) by (simp add: sched_wf_def sc_wf_def)
    ultimately show ?thesis using sc_wfD(9) [of s l] w(1) by (simp add: sched_wf_def memb_num_def)
  qed
  ultimately show ?thesis using that [of s'] s' c Some w(2)
    by (auto simp: tsch_schedule_remove_link_by_timeslot_def tsch_schedule_get_link_by_timeslot_def tsch_is_locked_def)
qed

definition link_addr :: "linkaddr option \<Rightarrow> linkaddr" where
  "link_addr address = (case address of None \<Rightarrow> linkaddr_null | Some a \<Rightarrow> a)"

lemma install_link_ok:
  assumes w: "sched_wf s" "\<not> tsch_locked s" "f \<in> set (slotframe_list s)" and a: "addr_wf (link_addr address)"
    and v: "ts < asn_val (sf_size (sfr s f))" "ch \<le> 15" "cells s f ts = None"
  obtains r s' where "install_link f opts ty address ts ch s = (r, s')" "sched_wf s'" "\<not> tsch_locked s'"
    "r \<noteq> None \<longleftrightarrow> memb_used (link_memb s) \<noteq> {..<memb_num (link_memb s)}"
    "asched s' = (if r \<noteq> None then (asched s)(sf_handle (sfr s f) \<mapsto>
        (asn_val (sf_size (sfr s f)), (cells s f)(ts \<mapsto> (opts, ty, link_addr address, ch)))) else asched s)"
proof (cases "memb_alloc (link_memb s)")
  case (Pair r m)
  have ww: "q_wf s" "sc_wf s" using w(1) by (simp_all add: sched_wf_def)
  note d = sc_wfD [OF ww(2)]
  show ?thesis
  proof (cases r)
    case None
    let ?s = "s\<lparr> tsch_in_slot_operation := False, tsch_lock_requested := False, tsch_locked := False \<rparr>"
    have m: "m = link_memb s" "memb_used (link_memb s) = {..<memb_num (link_memb s)}"
      using mb.allocD_None [OF d(1)] Pair None by auto
    have "install_link f opts ty address ts ch s = (None, ?s)"
      using w(2) Pair None m by (simp add: install_link_def tsch_get_lock_def tsch_release_lock_def)
    then show ?thesis using that [of None ?s] m w(1) sched_wf_frame [of ?s s] by simp
  next
    case (Some l)
    let ?x = "\<lparr> l_handle = ucast (current_link_handle s), l_addr = link_addr address,
      l_slotframe_handle = sf_handle (sfr s f), l_timeslot = ts, l_channel_offset = ch, l_link_options = opts,
      l_link_type = ty \<rparr>"
    have al: "memb_alloc (link_memb s) = (Some l, m)" using Pair Some by simp
    note ad = mb.allocD [OF d(1) al]
    define t where "t = s\<lparr> tsch_in_slot_operation := False, tsch_lock_requested := False,
      slotframe_memb := memb_put (slotframe_memb s) f ((sfr s f)\<lparr> sf_links := sf_links (sfr s f) @ [l] \<rparr>),
      link_memb := memb_put m l ?x, current_link_handle := current_link_handle s + 1, tsch_locked := False \<rparr>"
    have l: "remove1 l (sf_links (sfr s f)) = sf_links (sfr s f)"
      using ad(2) d(8) [OF w(3)] by (auto intro: remove1_idem)
    have x: "link_wf (sfr s f) ?x" using v a by (simp add: link_wf_def)
    have xt: "k \<in> set (sf_links (sfr s f)) \<Longrightarrow> l_timeslot (lnk s k) \<noteq> l_timeslot ?x" for k
      using v(3) by (auto simp: cells_find)
    have t: "link_memb t = memb_put m l ?x" "slotframe_list t = slotframe_list s"
      "slotframe_memb t = memb_put (slotframe_memb s) f ((sfr s f)\<lparr> sf_links := sf_links (sfr s f) @ [l] \<rparr>)"
      by (simp_all add: t_def)
    note r = add_link_sched [OF ww(2) w(3) al x xt t]
    have q: "q_wf t" "\<not> tsch_locked t" using ww(1) q_wf_frame(1) [of t s] by (simp_all add: t_def)
    have fa: "addr_wf (flow_addr h)" for h by (simp add: flow_addr_def addr_wf_def linkaddr_null_def)
    let ?s = "count_tx_link 1 opts (flow_addr (sf_handle (sfr s f))) t"
    note c = count_tx_link_wf [OF q fa, of 1 opts "sf_handle (sfr s f)"]
    note sc = sched_cong [OF sched_more(1-3) [OF c(3)]]
    have fl: "f < length (m_mem (slotframe_memb s))" "l < length (m_mem m)" using d(7) w(3) ad by (auto simp: memb_num_def)
    have "install_link f opts ty address ts ch s = (Some l, ?s)"
      using w(2) al l fl by (simp add: install_link_def tsch_get_lock_def tsch_release_lock_def Let_def set_sfr_def sfr_def
          set_lnk_def lnk_def t_def link_addr_def)
    moreover have "memb_used (link_memb s) \<noteq> {..<memb_num (link_memb s)}" using ad(1,2) by blast
    ultimately show ?thesis using that [of "Some l" ?s] r c(1,2) sc(1,2) by (simp add: sched_wf_def cell_def)
  qed
qed

lemma add_link_ok:
  assumes w: "sched_wf s" "\<not> tsch_locked s" "f \<in> set (slotframe_list s)" and a: "addr_wf (link_addr address)"
  obtains r s' where "tsch_schedule_add_link (Some f) opts ty address ts ch s = (r, s')" "sched_wf s'" "\<not> tsch_locked s'"
    "r \<noteq> None \<longleftrightarrow> ts < asn_val (sf_size (sfr s f)) \<and> ch \<le> 15 \<and>
       (cells s f ts \<noteq> None \<or> memb_used (link_memb s) \<noteq> {..<memb_num (link_memb s)})"
    "asched s' = (if r \<noteq> None then (asched s)(sf_handle (sfr s f) \<mapsto>
        (asn_val (sf_size (sfr s f)), (cells s f)(ts \<mapsto> (opts, ty, link_addr address, ch)))) else asched s)"
proof (cases "ts < asn_val (sf_size (sfr s f)) \<and> ch \<le> 15")
  case False
  then have "tsch_schedule_add_link (Some f) opts ty address ts ch s = (None, s)"
    by (auto simp: tsch_schedule_add_link_def word_less_def word_le_def)
  then show ?thesis using that [of None s] w(1,2) False by auto
next
  case True
  obtain s1 where s1: "tsch_schedule_remove_link_by_timeslot (Some f) ts s = (cells s f ts \<noteq> None, s1)" "sched_wf s1"
    "\<not> tsch_locked s1" "slotframe_list s1 = slotframe_list s" "cells s1 f = (cells s f)(ts := None)"
    "sf_handle (sfr s1 f) = sf_handle (sfr s f)" "sf_size (sfr s1 f) = sf_size (sfr s f)"
    "asched s1 = (asched s)(sf_handle (sfr s f) \<mapsto> (asn_val (sf_size (sfr s f)), (cells s f)(ts := None)))"
    "cells s f ts = None \<longrightarrow> s1 = s"
    "cells s f ts \<noteq> None \<longrightarrow> memb_used (link_memb s1) \<noteq> {..<memb_num (link_memb s1)}"
    by (rule remove_by_timeslot_ok [OF w, of ts])
  have p: "f \<in> set (slotframe_list s1)" "ts < asn_val (sf_size (sfr s1 f))" "ch \<le> 15" "cells s1 f ts = None"
    using s1(4,5,7) w(3) True by simp_all
  obtain r s' where r: "install_link f opts ty address ts ch s1 = (r, s')" "sched_wf s'" "\<not> tsch_locked s'"
    "r \<noteq> None \<longleftrightarrow> memb_used (link_memb s1) \<noteq> {..<memb_num (link_memb s1)}"
    "asched s' = (if r \<noteq> None then (asched s1)(sf_handle (sfr s1 f) \<mapsto>
        (asn_val (sf_size (sfr s1 f)), (cells s1 f)(ts \<mapsto> (opts, ty, link_addr address, ch)))) else asched s1)"
    by (rule install_link_ok [OF s1(2,3) p(1) a p(2-4)])
  have "tsch_schedule_add_link (Some f) opts ty address ts ch s = (r, s')"
    using True s1(1) r(1) by (auto simp: tsch_schedule_add_link_def word_less_def word_le_def)
  moreover have "r \<noteq> None \<longleftrightarrow> cells s f ts \<noteq> None \<or> memb_used (link_memb s) \<noteq> {..<memb_num (link_memb s)}"
    using r(4) s1(9,10) by (cases "cells s f ts") auto
  moreover have "asched s' = (if r \<noteq> None then (asched s)(sf_handle (sfr s f) \<mapsto>
        (asn_val (sf_size (sfr s f)), (cells s f)(ts \<mapsto> (opts, ty, link_addr address, ch)))) else asched s)"
  proof (cases r)
    case None
    then have "s1 = s" using r(4) s1(9,10) by blast
    then show ?thesis using None r(5) by simp
  qed (use r(5) in \<open>simp add: s1(5-8)\<close>)
  ultimately show ?thesis using that [of r s'] r(2,3) True by blast
qed

lemma sf_upd_all: "(x :: tsch_slotframe)\<lparr> sf_handle := h, sf_size := v, sf_links := ls \<rparr> =
    \<lparr> sf_handle = h, sf_size = v, sf_links = ls \<rparr>"
  by (cases x) simp

lemma add_slotframe_ok:
  assumes w: "sched_wf s" "\<not> tsch_locked s"
  obtains r s' where "tsch_schedule_add_slotframe h sz s = (r, s')" "sched_wf s'" "\<not> tsch_locked s'"
    "r \<noteq> None \<longleftrightarrow> sz \<noteq> 0 \<and> asched s h = None \<and> memb_used (slotframe_memb s) \<noteq> {..<memb_num (slotframe_memb s)}"
    "asched s' = (if r \<noteq> None then (asched s)(h \<mapsto> (sz, Map.empty)) else asched s)"
    "r \<noteq> None \<longrightarrow> tsch_schedule_get_slotframe_by_handle h s' = r" "link_memb s' = link_memb s"
proof (cases "sz \<noteq> 0 \<and> asched s h = None")
  case False
  then have "tsch_schedule_add_slotframe h sz s = (None, s)"
    using get_slotframe_None [OF w(2), of h] by (auto simp: tsch_schedule_add_slotframe_def)
  then show ?thesis using that [of None s] w False by auto
next
  case True
  have ww: "q_wf s" "sc_wf s" using w(1) by (simp_all add: sched_wf_def)
  note d = sc_wfD [OF ww(2)]
  have n: "tsch_schedule_get_slotframe_by_handle h s = None" using True get_slotframe_None [OF w(2)] by blast
  then have h: "g \<in> set (slotframe_list s) \<Longrightarrow> sf_handle (sfr s g) \<noteq> h" for g
    using w(2) by (auto simp: tsch_schedule_get_slotframe_by_handle_def tsch_is_locked_def find_None_iff)
  show ?thesis
  proof (cases "memb_alloc (slotframe_memb s)")
    case (Pair r m)
    show ?thesis
    proof (cases r)
      case None
      let ?s = "s\<lparr> tsch_in_slot_operation := False, tsch_lock_requested := False, tsch_locked := False \<rparr>"
      have m: "m = slotframe_memb s" "memb_used (slotframe_memb s) = {..<memb_num (slotframe_memb s)}"
        using mb.allocD_None [OF d(2)] Pair None by auto
      have "tsch_schedule_add_slotframe h sz s = (None, ?s)"
        using w(2) True Pair None m n by (simp add: tsch_schedule_add_slotframe_def tsch_get_lock_def tsch_release_lock_def)
      then show ?thesis using that [of None ?s] m w(1) sched_wf_frame [of ?s s] by simp
    next
      case (Some f)
      have al: "memb_alloc (slotframe_memb s) = (Some f, m)" using Pair Some by simp
      note ad = mb.allocD [OF d(2) al]
      let ?x = "\<lparr> sf_handle = h, sf_size = TSCH_ASN_DIVISOR_INIT sz, sf_links = [] \<rparr>"
      define t where "t = s\<lparr> tsch_in_slot_operation := False, tsch_lock_requested := False,
        slotframe_memb := memb_put m f ?x, slotframe_list := slotframe_list s @ [f], tsch_locked := False \<rparr>"
      have t: "link_memb t = link_memb s" "slotframe_list t = slotframe_list s @ [f]" "slotframe_memb t = memb_put m f ?x"
        by (simp_all add: t_def)
      have r: "sc_wf t" "asched t = (asched s)(h \<mapsto> (sz, Map.empty))" "f \<notin> set (slotframe_list s)"
        using add_slotframe_sched [OF ww(2) al h _ t] True by auto
      have q: "q_wf t" "\<not> tsch_locked t" using ww(1) q_wf_frame(1) [of t s] by (simp_all add: t_def)
      have e: "tsch_schedule_add_slotframe h sz s = (Some f, t)"
        using w(2) True al n r(3) by (simp add: tsch_schedule_add_slotframe_def tsch_get_lock_def tsch_release_lock_def
          Let_def set_sfr_def t_def remove1_idem sf_upd_all)
      have "sfr t f = ?x" using ad by (simp add: sfr_def t memb_num_def)
      then have "sf_handle (sfr t f) = h" by simp
      then have "tsch_schedule_get_slotframe_by_handle h t = Some f"
        using find_inj [OF sc_wfD(5) [OF r(1)], of f] q(2)
        by (simp add: tsch_schedule_get_slotframe_by_handle_def tsch_is_locked_def t)
      moreover have "memb_used (slotframe_memb s) \<noteq> {..<memb_num (slotframe_memb s)}" using ad(1,2) by blast
      ultimately show ?thesis using that [of "Some f" t] e r q t(1) True by (simp add: sched_wf_def)
    qed
  qed
qed

text \<open>The loop that empties a slotframe ends on an unlocked schedule.\<close>

lemma remove_links_loop_ok:
  assumes "sched_wf s" "\<not> tsch_locked s" "f \<in> set (slotframe_list s)"
  shows "\<exists>s'. remove_links_loop f s = Some s' \<and> sched_wf s' \<and> \<not> tsch_locked s' \<and> slotframe_list s' = slotframe_list s \<and>
    sf_links (sfr s' f) = [] \<and> sf_handle (sfr s' f) = sf_handle (sfr s f) \<and>
    (\<forall>h. h \<noteq> sf_handle (sfr s f) \<longrightarrow> asched s' h = asched s h)"
  using assms
proof (induction "length (sf_links (sfr s f))" arbitrary: s rule: less_induct)
  case less
  show ?case
  proof (cases "sf_links (sfr s f)")
    case Nil
    then show ?thesis using less.prems by (simp add: remove_links_loop.simps)
  next
    case (Cons l ls)
    obtain s1 where s1: "tsch_schedule_remove_link (Some f) (Some l) s = (True, s1)" "sched_wf s1" "\<not> tsch_locked s1"
      "asched s1 = (asched s)(sf_handle (sfr s f) \<mapsto> (asn_val (sf_size (sfr s f)), (cells s f)(l_timeslot (lnk s l) := None)))"
      "slotframe_list s1 = slotframe_list s" "sfr s1 f = (sfr s f)\<lparr> sf_links := remove1 l (sf_links (sfr s f)) \<rparr>"
      using remove_link_ok [OF less.prems, of l] Cons by (metis list.set_intros(1))
    have "length (sf_links (sfr s1 f)) < length (sf_links (sfr s f))" using s1(6) Cons by simp
    note ih = less.hyps [OF this s1(2,3)]
    have e: "remove_links_loop f s = remove_links_loop f s1" using Cons s1(1) by (subst remove_links_loop.simps) simp
    show ?thesis unfolding e using ih less.prems(3) s1(4-6) by auto
  qed
qed

lemma remove_slotframe_ok:
  assumes w: "sched_wf s" "\<not> tsch_locked s" "f \<in> set (slotframe_list s)"
  obtains s' where "tsch_schedule_remove_slotframe (Some f) s = Some (True, s')" "sched_wf s'" "\<not> tsch_locked s'"
    "slotframe_list s' = remove1 f (slotframe_list s)" "asched s' = (asched s)(sf_handle (sfr s f) := None)"
proof -
  obtain s1 where s1: "remove_links_loop f s = Some s1" "sched_wf s1" "\<not> tsch_locked s1" "slotframe_list s1 = slotframe_list s"
    "sf_links (sfr s1 f) = []" "sf_handle (sfr s1 f) = sf_handle (sfr s f)"
    "\<forall>h. h \<noteq> sf_handle (sfr s f) \<longrightarrow> asched s1 h = asched s h"
    using remove_links_loop_ok [OF w] by blast
  have ww: "q_wf s1" "sc_wf s1" using s1(2) by (simp_all add: sched_wf_def)
  define t where "t = s1\<lparr> tsch_in_slot_operation := False, tsch_lock_requested := False,
    slotframe_memb := snd (memb_free (slotframe_memb s1) f), slotframe_list := remove1 f (slotframe_list s1), tsch_locked := False \<rparr>"
  have t: "link_memb t = link_memb s1" "slotframe_list t = remove1 f (slotframe_list s1)"
    "slotframe_memb t = snd (memb_free (slotframe_memb s1) f)" by (simp_all add: t_def)
  have f: "f \<in> set (slotframe_list s1)" using w(3) s1(4) by simp
  note r = remove_slotframe_sched [OF ww(2) f s1(5) t]
  have q: "q_wf t" "\<not> tsch_locked t" using ww(1) q_wf_frame(1) [of t s1] by (simp_all add: t_def)
  have "tsch_schedule_remove_slotframe (Some f) s = Some (True, t)"
    using s1(1,3) by (simp add: tsch_schedule_remove_slotframe_def tsch_get_lock_def tsch_release_lock_def Let_def t_def)
  moreover have "asched t = (asched s)(sf_handle (sfr s f) := None)" using r(2) s1(6,7) by (auto simp: fun_eq_iff)
  ultimately show ?thesis using that [of t] r(1) q t(2) s1(4) by (simp add: sched_wf_def)
qed

lemma remove_all_slotframes_ok:
  assumes "sched_wf s" "\<not> tsch_locked s"
  shows "\<exists>s'. tsch_schedule_remove_all_slotframes s = Some (True, s') \<and> sched_wf s' \<and> \<not> tsch_locked s' \<and>
    slotframe_list s' = [] \<and> memb_used (link_memb s') = {} \<and> memb_used (slotframe_memb s') = {}"
  using assms
proof (induction "length (slotframe_list s)" arbitrary: s)
  case 0
  then have "slotframe_list s = []" by simp
  then show ?case using 0 sc_wfD(4,13) [of s] by (auto simp: tsch_schedule_remove_all_slotframes.simps sched_wf_def)
next
  case (Suc n)
  then obtain f fs where fs: "slotframe_list s = f # fs" by (cases "slotframe_list s") auto
  obtain s1 where s1: "tsch_schedule_remove_slotframe (Some f) s = Some (True, s1)" "sched_wf s1" "\<not> tsch_locked s1"
    "slotframe_list s1 = fs"
    using remove_slotframe_ok [OF Suc.prems, of f] fs by (metis list.set_intros(1) remove1.simps(2))
  have e: "tsch_schedule_remove_all_slotframes s = tsch_schedule_remove_all_slotframes s1"
    by (subst tsch_schedule_remove_all_slotframes.simps) (simp add: fs s1(1))
  have "n = length (slotframe_list s1)" using Suc.hyps(2) fs s1(4) by simp
  then show ?case unfolding e using Suc.hyps(1) s1(2,3) by blast
qed

subsection \<open>The initial schedule\<close>

definition sched_zero :: sched_state where
  "sched_zero = tsch_state.extend tsch_boot
     \<lparr> link_memb = \<lparr> m_count = replicate TSCH_SCHEDULE_MAX_LINKS 0, m_mem = replicate TSCH_SCHEDULE_MAX_LINKS zero_link \<rparr>,
       slotframe_memb = \<lparr> m_count = replicate TSCH_SCHEDULE_MAX_SLOTFRAMES 0,
                          m_mem = replicate TSCH_SCHEDULE_MAX_SLOTFRAMES zero_slotframe \<rparr>,
       slotframe_list = [], current_link = None, current_link_handle = 0 \<rparr>"

definition sched_boot :: sched_state where
  "sched_boot = snd (tsch_schedule_init sched_zero)"

lemma sched_boot_wf:
  "sched_wf sched_boot" "\<not> tsch_locked sched_boot" "asched sched_boot = Map.empty"
  "memb_used (slotframe_memb sched_boot) = {}" "memb_used (link_memb sched_boot) = {}"
proof -
  have z: "\<not> tsch_locked sched_zero" "memb_num (link_memb sched_zero) = 110" "memb_num (slotframe_memb sched_zero) = 9"
    using tsch_boot_wf(3) by (simp_all add: sched_zero_def tsch_state.extend_def memb_num_def)
  have "q_wf sched_zero" using q_wf_frame(1) [of sched_zero tsch_boot] tsch_boot_wf(1)
    by (simp add: sched_zero_def tsch_state.extend_def)
  then have "q_wf sched_boot" using q_wf_frame(1) [of sched_boot sched_zero] z
    by (simp add: sched_boot_def tsch_schedule_init_def tsch_get_lock_def tsch_release_lock_def)
  then show "sched_wf sched_boot" "\<not> tsch_locked sched_boot" "asched sched_boot = Map.empty"
    "memb_used (slotframe_memb sched_boot) = {}" "memb_used (link_memb sched_boot) = {}" using z
    by (simp_all add: sched_wf_def sc_wf_def sched_boot_def tsch_schedule_init_def tsch_get_lock_def tsch_release_lock_def
        asched_def fun_eq_iff)
qed

lemma empty_neq_lessThan: "n \<noteq> 0 \<Longrightarrow> ({} :: nat set) \<noteq> {..<n}"
  by (metis lessThan_empty_iff)

subsection \<open>Properties\<close>

text \<open>
  \<open>tsch_schedule_add_slotframe\<close> on a consistent, unlocked schedule keeps it consistent and succeeds
  exactly when the length is not zero, the handle is new and a slotframe block is free; it then adds an
  empty slotframe of that length, which \<open>tsch_schedule_get_slotframe_by_handle\<close> finds, and otherwise
  leaves the schedule as it was.
\<close>

theorem tsch_schedule_add_slotframe_refines:
  assumes "sched_wf s" "\<not> tsch_locked s"
  shows "\<exists>r s'. tsch_schedule_add_slotframe h sz s = (r, s') \<and> sched_wf s' \<and>
    (r \<noteq> None \<longleftrightarrow> sz \<noteq> 0 \<and> asched s h = None \<and> memb_used (slotframe_memb s) \<noteq> {..<TSCH_SCHEDULE_MAX_SLOTFRAMES}) \<and>
    asched s' = (if r \<noteq> None then (asched s)(h \<mapsto> (sz, Map.empty)) else asched s) \<and>
    (r \<noteq> None \<longrightarrow> tsch_schedule_get_slotframe_by_handle h s' = r)"
proof -
  have "memb_num (slotframe_memb s) = TSCH_SCHEDULE_MAX_SLOTFRAMES" using assms(1) by (simp add: sched_wf_def sc_wf_def)
  then show ?thesis by (metis add_slotframe_ok [OF assms, of h sz])
qed

theorem tsch_schedule_add_slotframe_refines_witness:
  "\<exists>f s'. tsch_schedule_add_slotframe 3 31 sched_boot = (Some f, s') \<and> asched s' = [3 \<mapsto> (31, Map.empty)]"
proof -
  have "({} :: nat set) \<noteq> {..<9}" by (rule empty_neq_lessThan) simp
  then show ?thesis
    using tsch_schedule_add_slotframe_refines [OF sched_boot_wf(1,2), of 3 31] sched_boot_wf(3,4) by auto
qed

text \<open>
  C9. \<open>tsch_schedule_add_link\<close> on a consistent, unlocked schedule keeps it consistent (in particular one
  link per time slot of a slotframe, and no link block leaked or shared) and succeeds exactly when the time
  slot lies in the slotframe, the channel offset is at most 15, and the time slot is occupied or a link
  block is free; then the cell at the time slot is replaced by the new one and nothing else of the
  schedule changes; when it fails, no cell changes.
\<close>

theorem tsch_schedule_add_link_refines:
  assumes w: "sched_wf s" "tsch_schedule_get_slotframe_by_handle h s = Some f" "addr_wf (link_addr address)"
    and a: "asched s h = Some (sz, cs)"
  shows "\<exists>r s'. tsch_schedule_add_link (Some f) opts ty address ts ch s = (r, s') \<and> sched_wf s' \<and>
    (r \<noteq> None \<longleftrightarrow> ts < sz \<and> ch \<le> 15 \<and> (cs ts \<noteq> None \<or> memb_used (link_memb s) \<noteq> {..<TSCH_SCHEDULE_MAX_LINKS})) \<and>
    asched s' = (if r \<noteq> None then (asched s)(h \<mapsto> (sz, cs(ts \<mapsto> (opts, ty, link_addr address, ch)))) else asched s)"
proof -
  note g = get_slotframe_Some [OF w(2)]
  have sc: "sc_wf s" using w(1) by (simp add: sched_wf_def)
  have e: "sz = asn_val (sf_size (sfr s f))" "cs = cells s f" using asched_at [OF sc g(1)] a g(2) by auto
  show ?thesis unfolding e using add_link_ok [OF w(1) g(3,1) w(3), of opts ty ts ch] sc_wfD(11) [OF sc] g(2) by metis
qed

lemma boot_slotframe:
  obtains f and s :: sched_state where "tsch_schedule_get_slotframe_by_handle h s = Some f" "sched_wf s"
    "asched s = [h \<mapsto> (31, Map.empty)]" "memb_used (link_memb s) = {}"
proof -
  have n: "({} :: nat set) \<noteq> {..<9}" "memb_num (slotframe_memb sched_boot) = 9"
    using empty_neq_lessThan [of 9] sc_wfD(12) [of sched_boot] sched_boot_wf(1) by (simp_all add: sched_wf_def)
  obtain r and s :: sched_state where s: "tsch_schedule_add_slotframe h 31 sched_boot = (r, s)" "sched_wf s"
    "r \<noteq> None \<longleftrightarrow> (31 :: u16) \<noteq> 0 \<and> asched sched_boot h = None \<and> memb_used (slotframe_memb sched_boot) \<noteq> {..<memb_num (slotframe_memb sched_boot)}"
    "asched s = (if r \<noteq> None then (asched sched_boot)(h \<mapsto> (31, Map.empty)) else asched sched_boot)"
    "r \<noteq> None \<longrightarrow> tsch_schedule_get_slotframe_by_handle h s = r" "link_memb s = link_memb sched_boot"
    by (rule add_slotframe_ok [OF sched_boot_wf(1,2), of h 31])
  then have "r \<noteq> None" using n sched_boot_wf(3,4) by simp
  then show ?thesis using that [of s] s sched_boot_wf(3,5) by auto
qed

theorem tsch_schedule_add_link_refines_witness:
  "\<exists>(s :: sched_state) f l s'. tsch_schedule_add_link (Some f) LINK_OPTION_TX LINK_TYPE_NORMAL (Some [3, 0, 0, 0, 0, 0, 0, 0]) 5 2 s =
     (Some l, s') \<and> asched s' = [4 \<mapsto> (31, [5 \<mapsto> (LINK_OPTION_TX, LINK_TYPE_NORMAL, [3, 0, 0, 0, 0, 0, 0, 0], 2)])]"
proof -
  obtain f and s :: sched_state where s: "tsch_schedule_get_slotframe_by_handle 4 s = Some f" "sched_wf s"
    "asched s = [4 \<mapsto> (31, Map.empty)]" "memb_used (link_memb s) = {}" by (rule boot_slotframe)
  have a: "addr_wf (link_addr (Some [3, 0, 0, 0, 0, 0, 0, 0]))" by (simp add: link_addr_def addr_wf_def)
  have "{} \<noteq> {..<TSCH_SCHEDULE_MAX_LINKS}" by (rule empty_neq_lessThan) simp
  then show ?thesis
    using tsch_schedule_add_link_refines [OF s(2,1) a, of 31 Map.empty LINK_OPTION_TX LINK_TYPE_NORMAL 5 2] s(3,4)
    by (auto simp: link_addr_def)
qed

text \<open>
  C10. The removal loops end: on a consistent, unlocked schedule \<open>tsch_schedule_remove_slotframe\<close> returns
  successfully, deletes exactly that slotframe with all its links and keeps the schedule consistent, and
  \<open>tsch_schedule_remove_all_slotframes\<close> returns successfully, leaves the schedule empty and returns every
  link and slotframe block to its pool.
\<close>

theorem tsch_schedule_removal_terminates:
  assumes w: "sched_wf s" "tsch_schedule_get_slotframe_by_handle h s = Some f"
  shows "(\<exists>s'. tsch_schedule_remove_slotframe (Some f) s = Some (True, s') \<and> sched_wf s' \<and> asched s' = (asched s)(h := None)) \<and>
    (\<exists>s'. tsch_schedule_remove_all_slotframes s = Some (True, s') \<and> sched_wf s' \<and> asched s' = Map.empty \<and>
       memb_used (link_memb s') = {} \<and> memb_used (slotframe_memb s') = {})"
proof -
  note g = get_slotframe_Some [OF w(2)]
  obtain s' where s': "tsch_schedule_remove_all_slotframes s = Some (True, s')" "sched_wf s'" "slotframe_list s' = []"
    "memb_used (link_memb s') = {}" "memb_used (slotframe_memb s') = {}"
    using remove_all_slotframes_ok [OF w(1) g(3)] by blast
  then have "asched s' = Map.empty" by (simp add: asched_def fun_eq_iff)
  then show ?thesis using s' remove_slotframe_ok [OF w(1) g(3,1)] g(2) by metis
qed

theorem tsch_schedule_removal_terminates_witness:
  "\<exists>(s :: sched_state) f s'. asched s = [4 \<mapsto> (31, Map.empty)] \<and> tsch_schedule_remove_slotframe (Some f) s = Some (True, s') \<and>
     asched s' = Map.empty"
proof -
  obtain f and s :: sched_state where s: "tsch_schedule_get_slotframe_by_handle 4 s = Some f" "sched_wf s"
    "asched s = [4 \<mapsto> (31, Map.empty)]" by (rule boot_slotframe)
  then show ?thesis using tsch_schedule_removal_terminates [OF s(2,1)] by auto
qed

text \<open>
  \<open>tsch_schedule_create_minimal\<close> returns and, whatever consistent schedule it starts from, installs the
  6TiSCH minimal schedule: one slotframe with handle 0 and seven slots, whose only cell is a shared,
  time-keeping transmit and receive link for the broadcast address at time slot and channel offset 0.
\<close>

theorem tsch_schedule_create_minimal_correct:
  assumes w: "sched_wf s" "\<not> tsch_locked s"
  shows "\<exists>s'. tsch_schedule_create_minimal s = Some s' \<and> sched_wf s' \<and>
    asched s' = [0 \<mapsto> (7, [0 \<mapsto> (15, LINK_TYPE_ADVERTISING, tsch_broadcast_address, 0)])]"
proof -
  obtain s1 where s1: "tsch_schedule_remove_all_slotframes s = Some (True, s1)" "sched_wf s1" "\<not> tsch_locked s1"
    "slotframe_list s1 = []" "memb_used (link_memb s1) = {}" "memb_used (slotframe_memb s1) = {}"
    using remove_all_slotframes_ok [OF w] by blast
  have e1: "asched s1 = Map.empty" by (simp add: asched_def s1(4) fun_eq_iff)
  have ne: "({} :: nat set) \<noteq> {..<9}" "({} :: nat set) \<noteq> {..<110}"
    by (rule empty_neq_lessThan, simp)+
  obtain r s2 where s2: "tsch_schedule_add_slotframe 0 TSCH_SCHEDULE_DEFAULT_LENGTH s1 = (r, s2)" "sched_wf s2" "\<not> tsch_locked s2"
    "r \<noteq> None \<longleftrightarrow> TSCH_SCHEDULE_DEFAULT_LENGTH \<noteq> 0 \<and> asched s1 0 = None \<and> memb_used (slotframe_memb s1) \<noteq> {..<memb_num (slotframe_memb s1)}"
    "asched s2 = (if r \<noteq> None then (asched s1)(0 \<mapsto> (TSCH_SCHEDULE_DEFAULT_LENGTH, Map.empty)) else asched s1)"
    "r \<noteq> None \<longrightarrow> tsch_schedule_get_slotframe_by_handle 0 s2 = r" "link_memb s2 = link_memb s1"
    using add_slotframe_ok [OF s1(2,3), of 0 TSCH_SCHEDULE_DEFAULT_LENGTH] by metis
  have sc: "sc_wf s1" "sc_wf s2" using s1(2) s2(2) by (simp_all add: sched_wf_def)
  have "r \<noteq> None" using s2(4) s1(6) e1 ne sc_wfD(12) [OF sc(1)] by (simp add: TSCH_SCHEDULE_DEFAULT_LENGTH_def)
  then obtain f where f: "r = Some f" "tsch_schedule_get_slotframe_by_handle 0 s2 = Some f" "asched s2 = [0 \<mapsto> (7, Map.empty)]"
    using s2(5,6) e1 by (auto simp: TSCH_SCHEDULE_DEFAULT_LENGTH_def)
  note g = get_slotframe_Some [OF f(2)]
  have at: "asn_val (sf_size (sfr s2 f)) = 7" "cells s2 f = Map.empty" using asched_at [OF sc(2) g(1)] g(2) f(3) by auto
  have a: "addr_wf (link_addr (Some tsch_broadcast_address))" by (simp add: link_addr_def)
  obtain q s3 where s3: "tsch_schedule_add_link (Some f) 15 LINK_TYPE_ADVERTISING (Some tsch_broadcast_address) 0 0 s2 = (q, s3)"
    "sched_wf s3" "q \<noteq> None \<longleftrightarrow> 0 < asn_val (sf_size (sfr s2 f)) \<and> (0 :: u16) \<le> 15 \<and>
       (cells s2 f 0 \<noteq> None \<or> memb_used (link_memb s2) \<noteq> {..<memb_num (link_memb s2)})"
    "asched s3 = (if q \<noteq> None then (asched s2)(sf_handle (sfr s2 f) \<mapsto>
        (asn_val (sf_size (sfr s2 f)), (cells s2 f)(0 \<mapsto> (15, LINK_TYPE_ADVERTISING, link_addr (Some tsch_broadcast_address), 0)))) else asched s2)"
    using add_link_ok [OF s2(2,3) g(1) a, of 15 LINK_TYPE_ADVERTISING 0 0] by metis
  have "q \<noteq> None" using s3(3) at s1(5) s2(7) ne sc_wfD(11) [OF sc(2)] by simp
  then have "asched s3 = [0 \<mapsto> (7, [0 \<mapsto> (15, LINK_TYPE_ADVERTISING, tsch_broadcast_address, 0)])]"
    using s3(4) at f(3) g(2) by (simp add: link_addr_def)
  then show ?thesis using s1(1) s2(1) f(1) s3(1,2) by (simp add: tsch_schedule_create_minimal_def)
qed

theorem tsch_schedule_create_minimal_correct_witness:
  "\<exists>s'. tsch_schedule_create_minimal sched_boot = Some s' \<and>
    asched s' = [0 \<mapsto> (7, [0 \<mapsto> (15, LINK_TYPE_ADVERTISING, tsch_broadcast_address, 0)])]"
  using tsch_schedule_create_minimal_correct [OF sched_boot_wf(1,2)] by blast

end
