(* ===== verification/TschPacketProps.thy ===== *)
theory TschPacketProps
  imports TschPacket FrameIEProps TschScheduleProps
begin

text \<open>
  An acknowledgement and an enhanced beacon are understood by the node that receives them.
\<close>

subsection \<open>Acknowledgements\<close>

lemma create_header:
  assumes "field_len p = (flen, p')" "length (frame802154_header flen p') \<le> length buf"
  shows "frame802154_create p buf = Some (int (length (frame802154_header flen p')), p',
    frame802154_header flen p' @ drop (length (frame802154_header flen p')) buf)"
  using assms by (simp add: frame802154_create_def put_opt_def put_at_def Let_def)

text \<open>The parameters of the header of an acknowledgement.\<close>

definition eack_params :: "linkaddr \<Rightarrow> u8 \<Rightarrow> u16 \<Rightarrow> frame802154_t \<Rightarrow> frame802154_t" where
  "eack_params a seqno pan params = params\<lparr> fr_dest_addr := a,
     fr_fcf := \<lparr> fcf_frame_type = 2, fcf_security_enabled = 0, fcf_frame_pending = 0, fcf_ack_required = 0, fcf_panid_compression = 0,
       fcf_sequence_number_suppression = 0, fcf_ie_list_present = 1, fcf_dest_addr_mode = 3, fcf_frame_version = 2, fcf_src_addr_mode = 0 \<rparr>,
     fr_seq := seqno, fr_src_pid := pan, fr_dest_pid := pan \<rparr>"

definition eack_flen :: field_length_t where
  "eack_flen = \<lparr> fl_seqno_len = 1, fl_dest_pid_len = 2, fl_dest_addr_len = 8, fl_src_pid_len = 0, fl_src_addr_len = 0, fl_aux_sec_len = 0 \<rparr>"

lemma eack_field_len: "field_len (eack_params a seqno pan params) = (eack_flen, eack_params a seqno pan params)"
  by (simp add: field_len_def eack_params_def eack_flen_def set_compression_def frame802154_has_panid_def addr_len_def)

lemma eack_hdrlen: "frame802154_hdrlen (eack_params a seqno pan params) = (13, eack_params a seqno pan params)"
  unfolding frame802154_hdrlen_def eack_field_len by (simp add: eack_flen_def)

lemma eack_header_length: "length a = 8 \<Longrightarrow> length (frame802154_header eack_flen (eack_params a seqno pan params)) = 13"
  by (simp add: frame802154_header_def eack_flen_def eack_params_def frame802154_create_fcf_def)

lemma ucast_seqno [simp]: "(ucast (ucast (b :: u8) :: u16) :: u8) = b"
  by (rule bit_word_eqI) (auto simp: bit_simps)

lemma ack_element:
  assumes "17 \<le> length buf" "17 \<le> len"
  shows "frame80215e_create_ie_header_ack_nack_time_correction (drop 13 buf) (len - 13) (Some ies) =
    Some (4, element frame80215e_create_ie_header_ack_nack_time_correction ies @ drop 17 buf)"
    "length (element frame80215e_create_ie_header_ack_nack_time_correction ies) = 4"
  using assms
  by (simp_all add: frame80215e_create_ie_header_ack_nack_time_correction_def element_def put_ie_element put_ie_def put_opt_def put_at_def Let_def)

lemma create_eack_ok:
  fixes drift :: u16 and nack :: int
  assumes "length a = 8" "17 \<le> unat buf_len" "unat buf_len \<le> length buf"
  defines "ies \<equiv> ies_zero\<lparr> ie_time_correction := drift, ie_is_nack := word_of_int nack \<rparr>"
  shows "\<exists>attr rest. tsch_packet_create_eack params (Some buf) buf_len (Some a) seqno drift nack s =
    Some (17, Some (frame802154_header eack_flen (eack_params a seqno (mac_pan_id s) params) @
      element frame80215e_create_ie_header_ack_nack_time_correction ies @ rest), s\<lparr> eackbuf_attrs := attr \<rparr>)"
proof -
  let ?s = "s\<lparr> eackbuf_attrs := (\<lambda>_. 0)(PACKETBUF_ATTR_FRAME_TYPE := 2, PACKETBUF_ATTR_MAC_METADATA := 1, PACKETBUF_ATTR_MAC_SEQNO := ucast seqno,
    PACKETBUF_ATTR_MAC_NO_DEST_ADDR := 1, PACKETBUF_ATTR_MAC_NO_DEST_ADDR := 0, PACKETBUF_ATTR_MAC_NO_SRC_ADDR := 1) \<rparr>"
  let ?p = "eack_params a seqno (mac_pan_id s) params"
  define zb where "zb = replicate (unat buf_len) 0 @ drop (unat buf_len) buf"
  have p: "framer_802154_setup_params (\<lambda>ty. tsch_packet_eackbuf_attr ty ?s) False (frame802154_get_pan_id ?s) (params\<lparr> fr_dest_addr := a \<rparr>) = ?p"
    by (simp add: framer_802154_setup_params_def tsch_packet_eackbuf_attr_def frame802154_get_pan_id_def eack_params_def Let_def)
  have b: "put_opt buf 0 (replicate (unat buf_len) 0) = Some zb" using assms(3) by (simp add: put_opt_def put_at_def zb_def)
  have "int 17 \<le> int (unat buf_len)" using assms(2) by linarith
  then have l: "17 \<le> length zb" "17 \<le> uint buf_len" using assms(2,3) by (simp_all add: zb_def)
  note e = ack_element [OF l, of ies]
  define t where "t = take 13 zb @ element frame80215e_create_ie_header_ack_nack_time_correction ies @ drop 17 zb"
  have t: "length t = length zb" "drop 13 t = element frame80215e_create_ie_header_ack_nack_time_correction ies @ drop 17 zb"
    using e(2) l(1) by (simp_all add: t_def)
  have c: "frame802154_create ?p t = Some (13, ?p, frame802154_header eack_flen ?p @ drop 13 t)"
    using create_header [OF eack_field_len, of a seqno "mac_pan_id s" params t] eack_header_length [OF assms(1)] t(1) l(1) by simp
  have st: "tsch_packet_eackbuf_set_attr PACKETBUF_ATTR_MAC_NO_SRC_ADDR 1 (tsch_packet_eackbuf_set_attr PACKETBUF_ATTR_MAC_NO_DEST_ADDR 0
      (tsch_packet_eackbuf_set_attr PACKETBUF_ATTR_MAC_NO_DEST_ADDR 1 (tsch_packet_eackbuf_set_attr PACKETBUF_ATTR_MAC_SEQNO (ucast seqno)
        (tsch_packet_eackbuf_set_attr PACKETBUF_ATTR_MAC_METADATA 1 (tsch_packet_eackbuf_set_attr PACKETBUF_ATTR_FRAME_TYPE (ucast FRAME802154_ACKFRAME)
          (s\<lparr> eackbuf_attrs := \<lambda>_. 0 \<rparr>)))))) = ?s"
    by (simp add: tsch_packet_eackbuf_set_attr_def)
  have "tsch_packet_create_eack params (Some buf) buf_len (Some a) seqno drift nack s =
      Some (17, Some (frame802154_header eack_flen ?p @ drop 13 t), ?s)"
    unfolding tsch_packet_create_eack_def option.case Let_def prod.case st p eack_hdrlen b ies_def [symmetric]
    using e(1) c by (simp add: t_def)
  then show ?thesis unfolding t(2) by blast
qed

lemma parse_eack_header:
  assumes "length a = 8" "length (fr_src_addr params) = 8" "13 \<le> len"
  shows "frame802154_parse (frame802154_header eack_flen (eack_params a seqno pan params) @ r) len f0 =
    Some (13, parsed_frame (eack_params a seqno pan params) 13 len f0)"
proof -
  have w: "fcf_wf (fr_fcf (eack_params a seqno pan params))" by (simp add: fcf_wf_def addr_mode_ok_def eack_params_def)
  have n: "\<not> anonymous_pan (fr_fcf (eack_params a seqno pan params))" by (simp add: anonymous_pan_def eack_params_def)
  have d: "length (fr_dest_addr (eack_params a seqno pan params)) = 8" "length (fr_src_addr (eack_params a seqno pan params)) = 8"
    using assms(1,2) by (simp_all add: eack_params_def)
  show ?thesis using parse_header [OF w d eack_field_len n, of len] eack_header_length [OF assms(1)] assms(3) by simp
qed

lemma eack_extract:
  assumes "length a = 8"
  shows "\<exists>src d. frame802154_extract_linkaddr (Some (parsed_frame (eack_params a seqno pan params) 13 len f0)) linkaddr_null dest =
    (True, src, d) \<and> (d = a \<or> d = linkaddr_null)"
  using assms by (auto simp: frame802154_extract_linkaddr_def extract_addr_def parsed_frame_def eack_params_def parsed_addr_def
      frame802154_has_panid_def Let_def)

lemma eack_parsed_fields:
  "fr_seq (parsed_frame (eack_params a seqno pan params) n len f0) = seqno"
  "fcf_ie_list_present (fr_fcf (parsed_frame (eack_params a seqno pan params) n len f0)) = 1"
  "frame802154_check_dest_panid pan (Some (parsed_frame (eack_params a seqno pan params) n len f0))"
  by (simp_all add: parsed_frame_def eack_params_def frame802154_has_panid_def frame802154_check_dest_panid_def Let_def)

text \<open>The bytes of an acknowledgement are accepted whatever follows them in the buffer.\<close>

lemma eack_parse:
  fixes drift :: u16 and nack :: int
  assumes "length a = 8" "length (fr_src_addr params) = 8" and d: "- 2048 \<le> sint drift" "sint drift < 2048"
    and r: "linkaddr_node_addr t = a" "mac_pan_id t = pan"
  defines "ies \<equiv> ies_zero\<lparr> ie_time_correction := drift, ie_is_nack := word_of_int nack \<rparr>"
  shows "\<exists>fr i. tsch_packet_parse_eack (frame802154_header eack_flen (eack_params a seqno pan params) @
        element frame80215e_create_ie_header_ack_nack_time_correction ies @ rest) 17 seqno (Some f0) (Some i0) True dest t =
      Some (17, Some fr, Some i, Some 17) \<and> ie_time_correction i = drift \<and> ie_is_nack i = (if word_of_int nack = (0 :: u8) then 0 else 1)"
proof -
  let ?p = "eack_params a seqno pan params"
  let ?e = "element frame80215e_create_ie_header_ack_nack_time_correction ies"
  let ?f = "parsed_frame ?p 13 17 f0"
  have h: "frame802154_parse (frame802154_header eack_flen ?p @ ?e @ rest) 17 f0 = Some (13, ?f)"
    using parse_eack_header [OF assms(1,2)] by simp
  obtain src x where x: "frame802154_extract_linkaddr (Some ?f) linkaddr_null dest = (True, src, x)" "x = a \<or> x = linkaddr_null"
    using eack_extract [OF assms(1)] by blast
  have ie: "frame802154e_parse_information_elements (drop 13 (frame802154_header eack_flen ?p @ ?e @ rest)) 4 (Some ies_zero) =
      Some (4, Some (ies_zero\<lparr> ie_time_correction := drift, ie_is_nack := (if word_of_int nack = (0 :: u8) then 0 else 1), ie_payload_ie_offset := 4 \<rparr>))"
    using parse_ack_element [of ies rest ies_zero] d eack_header_length [OF assms(1)] by (simp add: ies_def)
  show ?thesis
    unfolding tsch_packet_parse_eack_def option.case h
    using x ie r eack_parsed_fields(3) [of pan a seqno params 13 17 f0]
    by (auto simp: eack_parsed_fields(1,2) frame802154_get_pan_id_def add_payload_offset_def)
qed

text \<open>
  C16. Round trip of an enhanced acknowledgement: the frame \<open>tsch_packet_create_eack\<close> builds for a
  destination is accepted by \<open>tsch_packet_parse_eack\<close> on that node, in the same PAN and with the same sequence number; the
  parser consumes the whole frame, reports its header length, and recovers the signed drift and whether it is a
  negative acknowledgement.
\<close>

theorem eack_roundtrip:
  assumes "length a = 8" "length (fr_src_addr params) = 8" "17 \<le> unat buf_len" "unat buf_len \<le> length buf"
    and d: "- 2048 \<le> sint drift" "sint drift < 2048"
    and r: "linkaddr_node_addr t = a" "mac_pan_id t = mac_pan_id s"
  shows "\<exists>buf' s'. tsch_packet_create_eack params (Some buf) buf_len (Some a) seqno drift nack s = Some (17, Some buf', s') \<and>
    (\<exists>fr i. tsch_packet_parse_eack buf' 17 seqno (Some f0) (Some i0) True dest t = Some (17, Some fr, Some i, Some 17) \<and>
       ie_time_correction i = drift \<and> ie_is_nack i = (if word_of_int nack = (0 :: u8) then 0 else 1))"
proof -
  obtain attr rest where "tsch_packet_create_eack params (Some buf) buf_len (Some a) seqno drift nack s =
      Some (17, Some (frame802154_header eack_flen (eack_params a seqno (mac_pan_id s) params) @
        element frame80215e_create_ie_header_ack_nack_time_correction (ies_zero\<lparr> ie_time_correction := drift, ie_is_nack := word_of_int nack \<rparr>) @ rest),
        s\<lparr> eackbuf_attrs := attr \<rparr>)"
    using create_eack_ok [OF assms(1,3,4)] by blast
  then show ?thesis using eack_parse [OF assms(1,2) d r] by auto
qed

text \<open>A node after start-up.\<close>

definition net_boot :: "linkaddr \<Rightarrow> net_state" where
  "net_boot a = sched_state.extend sched_boot (net_state.fields IEEE802154_PANID a 0 False (\<lambda>_. 0) 0 255 0 0 [0, 0, 0] 0)"

lemma net_boot_simps [simp]: "linkaddr_node_addr (net_boot a) = a" "mac_pan_id (net_boot a) = IEEE802154_PANID"
  by (simp_all add: net_boot_def sched_state.defs net_state.defs)

theorem eack_roundtrip_witness:
  "\<exists>buf' s'. tsch_packet_create_eack zero_frame (Some (replicate 128 0)) 128 (Some [1, 0, 0, 0, 0, 0, 0, 2]) 77 (- 12) 4 (net_boot linkaddr_null) =
      Some (17, Some buf', s') \<and>
    (\<exists>fr i. tsch_packet_parse_eack buf' 17 77 (Some zero_frame) (Some ies_zero) True linkaddr_null (net_boot [1, 0, 0, 0, 0, 0, 0, 2]) =
       Some (17, Some fr, Some i, Some 17) \<and> ie_time_correction i = - 12 \<and> ie_is_nack i = 1)"
proof -
  have z: "length (fr_src_addr zero_frame) = 8" by (simp add: zero_frame_def linkaddr_null_def)
  have u: "unat (128 :: u16) = 128" by simp
  show ?thesis
    using eack_roundtrip [of "[1, 0, 0, 0, 0, 0, 0, 2]" zero_frame 128 "replicate 128 0" "- 12" "net_boot [1, 0, 0, 0, 0, 0, 0, 2]" "net_boot linkaddr_null"
        77 4 zero_frame ies_zero linkaddr_null] z u by simp
qed

subsection \<open>Storing elements\<close>

text \<open>
  \<open>stores c ies e\<close>: in a buffer of at least thirty bytes with enough space left, the creator stores the element \<open>e\<close>
  and returns its length.
\<close>

definition stores :: "ie_creator \<Rightarrow> ieee802154_ies \<Rightarrow> u8 list \<Rightarrow> bool" where
  "stores c ies e \<longleftrightarrow> (\<forall>buf len. 30 \<le> length buf \<longrightarrow> int (length e) \<le> len \<longrightarrow>
     (\<exists>tail. c buf len (Some ies) = Some (int (length e), e @ tail) \<and> length e + length tail = length buf))"

lemma put_ie_stores:
  assumes "n \<le> length bytes" "length bytes \<le> length buf"
  shows "put_ie buf bytes n = Some (int n, take n bytes @ drop n bytes @ drop (length bytes) buf)"
  using assms by (simp add: put_ie_def put_opt_def put_at_def)

text \<open>The values of the optional fields in the modelled beacon.\<close>

definition eb_plain :: "ieee802154_ies \<Rightarrow> bool" where
  "eb_plain ies \<longleftrightarrow> ies_ok ies \<and> ie_tsch_timeslot_id ies = 0 \<and> ie_channel_hopping_sequence_id ies = 0 \<and> ie_hopping_sequence_len ies = 0 \<and>
     num_slotframes (ie_tsch_slotframe_and_link ies) = 0"

lemma eb_creators_store:
  assumes "eb_plain ies"
  shows "stores frame80215e_create_ie_tsch_synchronization ies (element frame80215e_create_ie_tsch_synchronization ies)"
    "stores frame80215e_create_ie_tsch_timeslot ies (element frame80215e_create_ie_tsch_timeslot ies)"
    "stores frame80215e_create_ie_tsch_channel_hopping_sequence ies (element frame80215e_create_ie_tsch_channel_hopping_sequence ies)"
    "stores frame80215e_create_ie_tsch_slotframe_and_link ies (element frame80215e_create_ie_tsch_slotframe_and_link ies)"
    "stores frame80215e_create_ie_tsch_neighbor_discovery ies (element frame80215e_create_ie_tsch_neighbor_discovery ies)"
    "stores frame80215e_create_ie_tsch_rank ies (element frame80215e_create_ie_tsch_rank ies)"
    "stores frame80215e_create_ie_time_source ies (element frame80215e_create_ie_time_source ies)"
    "stores frame80215e_create_ie_schedule_version ies (element frame80215e_create_ie_schedule_version ies)"
    "stores frame80215e_create_ie_schedule_packets ies (element frame80215e_create_ie_schedule_packets ies)"
    "stores create_schedule_received ies (element create_schedule_received ies)"
proof -
  note p = assms [unfolded eb_plain_def ies_ok_def]
  note defs = stores_def element_def put_ie_element put_ie_stores slice_opt_def
  show "stores frame80215e_create_ie_tsch_synchronization ies (element frame80215e_create_ie_tsch_synchronization ies)"
    by (simp add: defs frame80215e_create_ie_tsch_synchronization_def)
  show "stores frame80215e_create_ie_tsch_timeslot ies (element frame80215e_create_ie_tsch_timeslot ies)"
    using p by (simp add: defs frame80215e_create_ie_tsch_timeslot_def Let_def)
  show "stores frame80215e_create_ie_tsch_channel_hopping_sequence ies (element frame80215e_create_ie_tsch_channel_hopping_sequence ies)"
    using p by (auto simp: defs frame80215e_create_ie_tsch_channel_hopping_sequence_def Let_def)
  show "stores frame80215e_create_ie_tsch_slotframe_and_link ies (element frame80215e_create_ie_tsch_slotframe_and_link ies)"
    using p by (simp add: defs frame80215e_create_ie_tsch_slotframe_and_link_def Let_def)
  show "stores frame80215e_create_ie_tsch_neighbor_discovery ies (element frame80215e_create_ie_tsch_neighbor_discovery ies)"
    by (simp add: defs frame80215e_create_ie_tsch_neighbor_discovery_def)
  show "stores frame80215e_create_ie_tsch_rank ies (element frame80215e_create_ie_tsch_rank ies)"
    by (simp add: defs frame80215e_create_ie_tsch_rank_def)
  show "stores frame80215e_create_ie_time_source ies (element frame80215e_create_ie_time_source ies)"
    by (simp add: defs frame80215e_create_ie_time_source_def)
  show "stores frame80215e_create_ie_schedule_version ies (element frame80215e_create_ie_schedule_version ies)"
    by (simp add: defs frame80215e_create_ie_schedule_version_def)
  show "stores frame80215e_create_ie_schedule_packets ies (element frame80215e_create_ie_schedule_packets ies)"
    by (simp add: defs frame80215e_create_ie_schedule_packets_def)
  show "stores create_schedule_received ies (element create_schedule_received ies)"
    using p by (simp add: defs create_schedule_received_def frame80215e_create_ie_schedule_received_def)
qed

lemma remaininglen:
  assumes "unat (packetbuf_totlen s) \<le> PACKETBUF_SIZE"
  shows "uint (packetbuf_remaininglen s) = int (PACKETBUF_SIZE - unat (packetbuf_totlen s))"
proof -
  have "packetbuf_totlen s \<le> 96" using assms by (simp add: word_le_nat_alt)
  then have "unat (96 - packetbuf_totlen s) = 96 - unat (packetbuf_totlen s)" by (subst unat_sub) simp_all
  then have "int (unat (96 - packetbuf_totlen s)) = int (96 - unat (packetbuf_totlen s))" by simp
  then show ?thesis by (simp add: packetbuf_remaininglen_def)
qed

lemma totlen_data: "hdrlen s = 0 \<Longrightarrow> bufptr s = 0 \<Longrightarrow> packetbuf_totlen s = buflen s"
  by (simp add: packetbuf_totlen_def packetbuf_hdrlen_def packetbuf_datalen_def)

lemma unat_eq_of_nat: "unat (w :: u16) = n \<Longrightarrow> w = word_of_nat n"
  by auto

lemma add_ies_ok:
  assumes "list_all2 (\<lambda>c e. stores c ies e) cs es" "length (packetbuf s) = PACKETBUF_SIZE"
    "hdrlen s = 0" "bufptr s = 0" "unat (buflen s) = p" "p + length (concat es) + 30 \<le> PACKETBUF_SIZE"
  shows "\<exists>tail. add_ies cs p ies s =
      Some (True, s\<lparr> packetbuf := take p (packetbuf s) @ concat es @ tail, buflen := word_of_nat (p + length (concat es)) \<rparr>) \<and>
    p + length (concat es) + length tail = PACKETBUF_SIZE"
  using assms
proof (induction cs es arbitrary: p s rule: list_all2_induct)
  case Nil
  then show ?case using unat_eq_of_nat [OF Nil(4)] by (auto intro!: exI [of _ "drop p (packetbuf s)"])
next
  case (Cons c cs e es)
  have rem: "uint (packetbuf_remaininglen s) = int (96 - p)"
    using remaininglen [of s] totlen_data [OF Cons.prems(2,3)] Cons.prems(4,5) by simp
  have "int (length e) \<le> uint (packetbuf_remaininglen s)" unfolding rem using Cons.prems(5) by simp
  moreover have "30 \<le> length (drop p (packetbuf s))" using Cons.prems(1,5) by simp
  ultimately obtain tail where t: "c (drop p (packetbuf s)) (uint (packetbuf_remaininglen s)) (Some ies) = Some (int (length e), e @ tail)"
    "length e + length tail = length (drop p (packetbuf s))"
    using Cons.hyps(1) unfolding stores_def by blast
  let ?s = "s\<lparr> packetbuf := take p (packetbuf s) @ e @ tail, buflen := buflen s + word_of_int (int (length e)) \<rparr>"
  have q: "unat (buflen ?s) = p + length e" using Cons.prems(4,5) by (simp add: unat_word_ariths)
  have l: "length (packetbuf ?s) = PACKETBUF_SIZE" using t(2) Cons.prems(1,5) by simp
  obtain tail' where IH: "add_ies cs (p + length e) ies ?s = Some (True, ?s\<lparr> packetbuf := take (p + length e) (packetbuf ?s) @ concat es @ tail',
      buflen := word_of_nat (p + length e + length (concat es)) \<rparr>)" "p + length e + length (concat es) + length tail' = PACKETBUF_SIZE"
    using Cons.IH [OF l _ _ q] Cons.prems(2,3,5) by auto
  have "take (p + length e) (packetbuf ?s) = take p (packetbuf s) @ e" using Cons.prems(1,5) by simp
  then show ?case using t(1) IH by (auto simp: create_ie_at_def packetbuf_set_datalen_def packetbuf_datalen_def add.assoc)
qed

subsection \<open>The framer on a broadcast frame\<close>

definition eb_params :: "linkaddr \<Rightarrow> u16 \<Rightarrow> u8 \<Rightarrow> nat \<Rightarrow> int \<Rightarrow> frame802154_t" where
  "eb_params a pan sq ptr n = \<lparr> fr_dest_addr = linkaddr_null[0 := 0xFF, 1 := 0xFF], fr_src_addr = a,
     fr_fcf = \<lparr> fcf_frame_type = 0, fcf_security_enabled = 0, fcf_frame_pending = 0, fcf_ack_required = 0, fcf_panid_compression = 1,
       fcf_sequence_number_suppression = 1, fcf_ie_list_present = 1, fcf_dest_addr_mode = 2, fcf_frame_version = 2, fcf_src_addr_mode = 3 \<rparr>,
     fr_seq = sq, fr_dest_pid = pan, fr_src_pid = pan, fr_payload = ptr, fr_payload_len = n \<rparr>"

definition eb_flen :: field_length_t where
  "eb_flen = \<lparr> fl_seqno_len = 0, fl_dest_pid_len = 2, fl_dest_addr_len = 2, fl_src_pid_len = 0, fl_src_addr_len = 8, fl_aux_sec_len = 0 \<rparr>"

lemma eb_field_len: "field_len (eb_params a pan sq ptr n) = (eb_flen, eb_params a pan sq ptr n)"
  by (simp add: field_len_def eb_params_def eb_flen_def set_compression_def frame802154_has_panid_def addr_len_def)

lemma eb_hdrlen: "frame802154_hdrlen (eb_params a pan sq ptr n) = (14, eb_params a pan sq ptr n)"
  unfolding frame802154_hdrlen_def eb_field_len by (simp add: eb_flen_def)

lemma eb_header_length: "length a = 8 \<Longrightarrow> length (frame802154_header eb_flen (eb_params a pan sq ptr n)) = 14"
  by (simp add: frame802154_header_def eb_flen_def eb_params_def frame802154_create_fcf_def linkaddr_null_def)

definition eb_ready :: "linkaddr \<Rightarrow> 'a pbuf_state_scheme \<Rightarrow> bool" where
  "eb_ready a s \<longleftrightarrow> packetbuf_holds_broadcast s \<and> packetbuf_addrs s PACKETBUF_ADDR_SENDER = a \<and> packetbuf_attrs s PACKETBUF_ATTR_FRAME_TYPE = 0 \<and>
     packetbuf_attrs s PACKETBUF_ATTR_MAC_METADATA = 1 \<and> packetbuf_attrs s PACKETBUF_ATTR_MAC_NO_SRC_ADDR = 0 \<and>
     packetbuf_attrs s PACKETBUF_ATTR_MAC_NO_DEST_ADDR = 0"

lemma hdralloc_ok:
  assumes "length (packetbuf s) = PACKETBUF_SIZE" "sz + unat (packetbuf_totlen s) \<le> PACKETBUF_SIZE"
  shows "packetbuf_hdralloc sz s = Some (True, s\<lparr> packetbuf := take sz (packetbuf s) @ take (unat (packetbuf_totlen s)) (packetbuf s) @
    drop (sz + unat (packetbuf_totlen s)) (packetbuf s), hdrlen := hdrlen s + of_nat sz \<rparr>)"
proof -
  have l: "sz + unat (packetbuf_totlen s) \<le> length (packetbuf s)" "length (take (unat (packetbuf_totlen s)) (packetbuf s)) = unat (packetbuf_totlen s)"
    using assms by simp_all
  show ?thesis using assms(2) unfolding packetbuf_hdralloc_def hdralloc_loop_spec [OF l(1)] put_at_def l(2) by simp
qed

lemma framer_create_broadcast:
  assumes "eb_ready a s" "length a = 8" "mac_pan_id s \<noteq> 0xffff" "length (packetbuf s) = PACKETBUF_SIZE"
    "14 + unat (packetbuf_totlen s) \<le> PACKETBUF_SIZE"
  shows "\<exists>s' sq ptr n. framer_create s = Some (14, s') \<and>
    packetbuf s' = frame802154_header eb_flen (eb_params a (mac_pan_id s) sq ptr n) @ take (unat (packetbuf_totlen s)) (packetbuf s) @
      drop (14 + unat (packetbuf_totlen s)) (packetbuf s) \<and> hdrlen s' = hdrlen s + 14 \<and> buflen s' = buflen s \<and> bufptr s' = bufptr s"
proof -
  define s1 where "s1 = (if \<not> initialized s then (let (r, s) = random_rand (s\<lparr> initialized := True \<rparr>) in s\<lparr> mac_dsn := ucast (r AND 0xff) \<rparr>) else s)"
  define s2 where "s2 = (if packetbuf_attr PACKETBUF_ATTR_MAC_SEQNO s1 = 0 then
                   (let s = (if mac_dsn s1 = 0 then s1\<lparr> mac_dsn := mac_dsn s1 + 1 \<rparr> else s1);
                        s = packetbuf_set_attr PACKETBUF_ATTR_MAC_SEQNO (ucast (mac_dsn s)) s
                    in s\<lparr> mac_dsn := mac_dsn s + 1 \<rparr>)
                 else s1)"
  have e: "eb_ready a s2" "mac_pan_id s2 = mac_pan_id s" "packetbuf s2 = packetbuf s" "hdrlen s2 = hdrlen s" "buflen s2 = buflen s" "bufptr s2 = bufptr s"
    using assms(1) by (auto simp: s2_def s1_def eb_ready_def random_rand_def packetbuf_set_attr_def packetbuf_holds_broadcast_def Let_def)
  have tl: "packetbuf_totlen s2 = packetbuf_totlen s" by (simp add: packetbuf_totlen_def packetbuf_hdrlen_def packetbuf_datalen_def e)
  define sq ptr n where "sq = (ucast (packetbuf_attr PACKETBUF_ATTR_MAC_SEQNO s2) :: u8)" and "ptr = packetbuf_dataptr s2" and "n = uint (packetbuf_datalen s2)"
  let ?p = "eb_params a (mac_pan_id s) sq ptr n"
  define p1 where "p1 = framer_802154_setup_params (\<lambda>ty. packetbuf_attr ty s2) True (mac_pan_id s2) zero_frame"
  have p: "(p1\<lparr> fr_dest_addr := (fr_dest_addr p1)[0 := 0xFF, 1 := 0xFF] \<rparr>)\<lparr> fr_src_addr := packetbuf_addr PACKETBUF_ADDR_SENDER s2 \<rparr>
      \<lparr> fr_payload := packetbuf_dataptr s2, fr_payload_len := uint (packetbuf_datalen s2) \<rparr> = ?p"
    using e(1,2) unfolding p1_def
    by (simp add: framer_802154_setup_params_def eb_ready_def eb_params_def zero_frame_def packetbuf_attr_def packetbuf_addr_def
        frame802154_get_pan_id_def sq_def ptr_def n_def Let_def)
  define pb where "pb = take 14 (packetbuf s) @ take (unat (packetbuf_totlen s)) (packetbuf s) @ drop (14 + unat (packetbuf_totlen s)) (packetbuf s)"
  have l: "length pb = 96" using assms(4,5) by (simp add: pb_def)
  have h: "packetbuf_hdralloc 14 s2 = Some (True, s2\<lparr> packetbuf := pb, hdrlen := hdrlen s2 + 14 \<rparr>)"
    using hdralloc_ok [of s2 14] assms(4,5) tl e(3) by (simp add: pb_def)
  have c: "frame802154_create ?p pb = Some (14, ?p, frame802154_header eb_flen ?p @ drop 14 pb)"
    using create_header [OF eb_field_len, of a "mac_pan_id s" sq ptr n pb] eb_header_length [OF assms(2), of "mac_pan_id s" sq ptr n] l by simp
  have d: "drop 14 pb = take (unat (packetbuf_totlen s)) (packetbuf s) @ drop (14 + unat (packetbuf_totlen s)) (packetbuf s)"
    using assms(4) by (simp add: pb_def)
  have b: "packetbuf_holds_broadcast s2" using e(1) by (simp add: eb_ready_def)
  have "framer_create s = Some (14, s2\<lparr> packetbuf := frame802154_header eb_flen ?p @ drop 14 pb, hdrlen := hdrlen s2 + 14 \<rparr>)"
    unfolding framer_create_def create_frame_def
    using assms(3) h c b p by (simp add: frame802154_get_pan_id_def Let_def eb_hdrlen flip: s1_def s2_def p1_def)
  then show ?thesis using e d by auto
qed


subsection \<open>Beacons\<close>

lemma element_received: "element create_schedule_received ies = element create_received ies"
  by (simp add: element_def create_schedule_received_def create_received_def)

lemma eb_elements_stored:
  assumes "eb_plain ies"
  shows "\<exists>es. list_all2 (\<lambda>c e. stores c ies e) eb_creators es \<and> concat es = eb_elements ies"
  by (rule exI [of _ "[element frame80215e_create_ie_tsch_synchronization ies, element frame80215e_create_ie_tsch_timeslot ies,
     element frame80215e_create_ie_tsch_channel_hopping_sequence ies, element frame80215e_create_ie_tsch_slotframe_and_link ies,
     element frame80215e_create_ie_tsch_neighbor_discovery ies, element frame80215e_create_ie_tsch_rank ies,
     element frame80215e_create_ie_time_source ies, element frame80215e_create_ie_schedule_version ies,
     element frame80215e_create_ie_schedule_packets ies, element create_schedule_received ies]"])
    (simp add: eb_creators_def eb_creators_store [OF assms] eb_creators_store(10) [OF assms, unfolded element_received]
      eb_elements_def discovery_elements_def element_received)

lemma length_eb_elements: "eb_plain ies \<Longrightarrow> length (eb_elements ies) = 39"
  using elements_length [of ies] reads_discovery(2) [of ies] by (simp add: eb_plain_def eb_elements_def ies_ok_def)

lemma add_eb_ies:
  assumes "eb_plain ies" "length (packetbuf s) = PACKETBUF_SIZE" "hdrlen s = 0" "bufptr s = 0" "buflen s = 0"
  shows "\<exists>tail. add_ies eb_creators (packetbuf_dataptr s) ies s = Some (True, s\<lparr> packetbuf := eb_elements ies @ tail, buflen := 39 \<rparr>) \<and> length tail = 57"
proof -
  obtain es where es: "list_all2 (\<lambda>c e. stores c ies e) eb_creators es" "concat es = eb_elements ies"
    using eb_elements_stored [OF assms(1)] by blast
  show ?thesis using add_ies_ok [OF es(1) assms(2-4), of 0] length_eb_elements [OF assms(1)] assms(3-5) es(2)
    by (simp add: packetbuf_dataptr_def packetbuf_hdrlen_def)
qed

text \<open>A two-byte descriptor stored over the first two bytes of the buffer.\<close>

lemma create_descriptor_at:
  assumes "length (packetbuf s) = PACKETBUF_SIZE" "unat (packetbuf_totlen s) + 2 \<le> PACKETBUF_SIZE"
  shows "create_ie_at frame80215e_create_ie_mlme 0 ies s =
      Some (2, s\<lparr> packetbuf := create_payload_ie_descriptor PAYLOAD_IE_MLME (unat (ie_mlme_len ies)) @ drop 2 (packetbuf s) \<rparr>)"
    "create_ie_at frame80215e_create_ie_header_list_termination_1 0 ies s =
      Some (2, s\<lparr> packetbuf := create_header_ie_descriptor HEADER_IE_LIST_TERMINATION_1 0 @ drop 2 (packetbuf s) \<rparr>)"
proof -
  have "unat (packetbuf_totlen s) \<le> 94" using assms(2) by simp
  then have "int (unat (packetbuf_totlen s)) \<le> 94" by linarith
  then have "2 \<le> uint (packetbuf_remaininglen s)" using remaininglen [of s] assms(2) by simp
  then show "create_ie_at frame80215e_create_ie_mlme 0 ies s =
      Some (2, s\<lparr> packetbuf := create_payload_ie_descriptor PAYLOAD_IE_MLME (unat (ie_mlme_len ies)) @ drop 2 (packetbuf s) \<rparr>)"
    "create_ie_at frame80215e_create_ie_header_list_termination_1 0 ies s =
      Some (2, s\<lparr> packetbuf := create_header_ie_descriptor HEADER_IE_LIST_TERMINATION_1 0 @ drop 2 (packetbuf s) \<rparr>)"
    using assms(1) by (simp_all add: create_ie_at_def frame80215e_create_ie_mlme_def frame80215e_create_ie_header_list_termination_1_def
        put_ie_def put_opt_def put_at_def numeral_2_eq_2)
qed

text \<open>The frame of a beacon: header, header list termination, the MLME descriptor and the sub-elements.\<close>

definition eb_frame :: "linkaddr \<Rightarrow> u16 \<Rightarrow> u8 \<Rightarrow> nat \<Rightarrow> int \<Rightarrow> ieee802154_ies \<Rightarrow> u8 list" where
  "eb_frame a pan sq ptr n ies = frame802154_header eb_flen (eb_params a pan sq ptr n) @
     create_header_ie_descriptor HEADER_IE_LIST_TERMINATION_1 0 @ create_payload_ie_descriptor PAYLOAD_IE_MLME (length (eb_elements ies)) @
     eb_elements ies"

lemma length_eb_frame: "eb_plain ies \<Longrightarrow> length a = 8 \<Longrightarrow> length (eb_frame a pan sq ptr n ies) = 57"
  by (simp add: eb_frame_def eb_header_length length_eb_elements)

text \<open>The elements a node advertises.\<close>

definition eb_ies :: "u8 \<Rightarrow> 'a net_state_scheme \<Rightarrow> ieee802154_ies" where
  "eb_ies ts s = ies_zero\<lparr> ie_sequence_number := sequence_number s + 1, ie_rank := tsch_rank s, ie_time_source := ts,
     ie_schedule_version := schedule_version s, ie_schedule_packets := schedule_packets s, ie_schedule_received := schedule_received s \<rparr>"

lemma eb_ies_plain: "length (schedule_received s) = 3 \<Longrightarrow> eb_plain (eb_ies ts s)"
  by (simp add: eb_plain_def ies_ok_def eb_ies_def ies_zero_def)

text \<open>The identifier of the time source a node advertises: its own on the coordinator.\<close>

definition eb_time_source :: "'a net_state_scheme \<Rightarrow> u8 option" where
  "eb_time_source s = (if tsch_is_coordinator s then nth_opt (linkaddr_node_addr s) NODE_ID_INDEX
     else do { n \<leftarrow> tsch_queue_get_time_source s; nth_opt (n_addr (nbr s n)) NODE_ID_INDEX })"

lemma prepare_eb:
  assumes "eb_time_source s = Some ts" "length (schedule_received s) = 3"
  shows "prepare_eb_ies (packetbuf_clear s) = Some (eb_ies ts s, (packetbuf_clear s)\<lparr> sequence_number := sequence_number s + 1 \<rparr>)"
proof -
  let ?s = "(packetbuf_clear s)\<lparr> sequence_number := sequence_number s + 1 \<rparr>"
  have f: "sequence_number (packetbuf_clear s) = sequence_number s" "tsch_rank (packetbuf_clear s) = tsch_rank s"
    "schedule_received (packetbuf_clear s) = schedule_received s" "schedule_version (packetbuf_clear s) = schedule_version s"
    "schedule_packets (packetbuf_clear s) = schedule_packets s" "eb_time_source ?s = eb_time_source s"
    by (simp_all add: packetbuf_clear_def packetbuf_attr_clear_def eb_time_source_def tsch_queue_get_time_source_def nbr_def tsch_is_locked_def)
  show ?thesis unfolding prepare_eb_ies_def Let_def eb_time_source_def [symmetric]
    using assms f by (simp add: eb_ies_def slice_opt_def)
qed

text \<open>
  Creating the elements, moving them behind the descriptor of the MLME element and allocating the header list
  termination in front of it.
\<close>

lemma create_eb_payload:
  assumes "eb_plain ies" "length (packetbuf s) = PACKETBUF_SIZE" "hdrlen s = 0" "bufptr s = 0" "buflen s = 0" "ie_mlme_len ies' = 39"
  shows "\<exists>s2 s3 s4 s5 tail. add_ies eb_creators (packetbuf_dataptr s) ies s = Some (True, s2) \<and> packetbuf_datalen s2 = 39 \<and>
    packetbuf_shift_data 2 s2 = Some s3 \<and> packetbuf_datalen s3 = 39 \<and>
    create_ie_at frame80215e_create_ie_mlme (packetbuf_dataptr (packetbuf_set_datalen 41 s3)) ies' (packetbuf_set_datalen 41 s3) = Some (2, s4) \<and>
    packetbuf_hdralloc 2 s4 = Some (True, s5) \<and>
    create_ie_at frame80215e_create_ie_header_list_termination_1 (packetbuf_hdrptr s5) ies' s5 =
      Some (2, s\<lparr> packetbuf := create_header_ie_descriptor HEADER_IE_LIST_TERMINATION_1 0 @
        create_payload_ie_descriptor PAYLOAD_IE_MLME (length (eb_elements ies)) @ eb_elements ies @ tail, hdrlen := 2, buflen := 41 \<rparr>) \<and>
    length tail = 53"
proof -
  let ?e = "eb_elements ies"
  let ?m = "create_payload_ie_descriptor PAYLOAD_IE_MLME (length ?e)"
  have e: "length ?e = 39" by (rule length_eb_elements [OF assms(1)])
  obtain tail where 1: "add_ies eb_creators (packetbuf_dataptr s) ies s = Some (True, s\<lparr> packetbuf := ?e @ tail, buflen := 39 \<rparr>)" "length tail = 57"
    using add_eb_ies [OF assms(1-5)] by blast
  let ?s3 = "s\<lparr> packetbuf := take 2 ?e @ ?e @ drop 2 tail, buflen := 39 \<rparr>"
  have 2: "packetbuf_shift_data 2 (s\<lparr> packetbuf := ?e @ tail, buflen := 39 \<rparr>) = Some ?s3"
    using e 1(2) assms(3,4) by (simp add: packetbuf_shift_data_def slice_opt_def put_opt_def put_at_def packetbuf_dataptr_def packetbuf_hdrlen_def
        packetbuf_datalen_def) (simp add: numeral_2_eq_2)
  let ?s3' = "s\<lparr> packetbuf := take 2 ?e @ ?e @ drop 2 tail, buflen := 41 \<rparr>"
  let ?s4 = "s\<lparr> packetbuf := ?m @ ?e @ drop 2 tail, buflen := 41 \<rparr>"
  have 3: "create_ie_at frame80215e_create_ie_mlme 0 ies' ?s3' = Some (2, ?s4)"
    using create_descriptor_at(1) [of ?s3' ies'] e 1(2) assms(3,4,6) totlen_data [of ?s3'] by simp
  let ?s5 = "s\<lparr> packetbuf := ?m @ ?m @ ?e @ drop 4 tail, buflen := 41, hdrlen := 2 \<rparr>"
  have 4: "packetbuf_hdralloc 2 ?s4 = Some (True, ?s5)"
    using hdralloc_ok [of ?s4 2] e 1(2) assms(3,4) totlen_data [of ?s4] by simp
  have 5: "create_ie_at frame80215e_create_ie_header_list_termination_1 0 ies' ?s5 =
      Some (2, ?s5\<lparr> packetbuf := create_header_ie_descriptor HEADER_IE_LIST_TERMINATION_1 0 @ ?m @ ?e @ drop 4 tail \<rparr>)"
    using create_descriptor_at(2) [of ?s5 ies'] e 1(2) assms(3,4) by (simp add: packetbuf_totlen_def packetbuf_hdrlen_def packetbuf_datalen_def)
  have d: "packetbuf_dataptr (packetbuf_set_datalen 41 ?s3) = 0" "packetbuf_set_datalen 41 ?s3 = ?s3'" "packetbuf_hdrptr ?s5 = 0"
    using assms(3,4) by (simp_all add: packetbuf_dataptr_def packetbuf_hdrlen_def packetbuf_set_datalen_def packetbuf_hdrptr_def)
  show ?thesis
    apply (rule exI [of _ "s\<lparr> packetbuf := ?e @ tail, buflen := 39 \<rparr>"], rule exI [of _ ?s3], rule exI [of _ ?s4], rule exI [of _ ?s5], rule exI [of _ "drop 4 tail"])
    using 1 2 3 4 5 d by (simp add: packetbuf_datalen_def)
qed

text \<open>What \<open>tsch_packet_create_eb\<close> returns.\<close>

lemma create_eb_ok:
  assumes "eb_time_source s = Some ts" "length (schedule_received s) = 3" "length (packetbuf s) = PACKETBUF_SIZE"
    "length (linkaddr_node_addr s) = 8" "mac_pan_id s \<noteq> 0xffff"
  shows "\<exists>s' sq ptr n tail. tsch_packet_create_eb s = Some (57, Some (16, 18), s') \<and>
    packetbuf s' = eb_frame (linkaddr_node_addr s) (mac_pan_id s) sq ptr n (eb_ies ts s) @ tail"
proof -
  let ?s1 = "(packetbuf_clear s)\<lparr> sequence_number := sequence_number s + 1 \<rparr>"
  let ?i = "eb_ies ts s"
  let ?b = "create_header_ie_descriptor HEADER_IE_LIST_TERMINATION_1 0 @ create_payload_ie_descriptor PAYLOAD_IE_MLME (length (eb_elements ?i)) @ eb_elements ?i"
  have c: "length (packetbuf ?s1) = PACKETBUF_SIZE" "hdrlen ?s1 = 0" "bufptr ?s1 = 0" "buflen ?s1 = 0"
    using assms(3) by (simp_all add: packetbuf_clear_def packetbuf_attr_clear_def)
  obtain s2 s3 s4 s5 tail where p: "add_ies eb_creators (packetbuf_dataptr ?s1) ?i ?s1 = Some (True, s2)" "packetbuf_datalen s2 = 39"
      "packetbuf_shift_data 2 s2 = Some s3" "packetbuf_datalen s3 = 39"
      "create_ie_at frame80215e_create_ie_mlme (packetbuf_dataptr (packetbuf_set_datalen 41 s3)) (?i\<lparr> ie_mlme_len := 39 \<rparr>)
         (packetbuf_set_datalen 41 s3) = Some (2, s4)"
      "packetbuf_hdralloc 2 s4 = Some (True, s5)"
      "create_ie_at frame80215e_create_ie_header_list_termination_1 (packetbuf_hdrptr s5) (?i\<lparr> ie_mlme_len := 39 \<rparr>) s5 =
         Some (2, ?s1\<lparr> packetbuf := ?b @ tail, hdrlen := 2, buflen := 41 \<rparr>)" "length tail = 53"
    using create_eb_payload [OF eb_ies_plain [OF assms(2), of ts] c, of "?i\<lparr> ie_mlme_len := 39 \<rparr>"] by auto
  define s6 where "s6 = packetbuf_set_addr PACKETBUF_ADDR_RECEIVER tsch_eb_address (packetbuf_set_addr PACKETBUF_ADDR_SENDER (linkaddr_node_addr s)
    (packetbuf_set_attr PACKETBUF_ATTR_MAC_METADATA 1 (packetbuf_set_attr PACKETBUF_ATTR_FRAME_TYPE (ucast FRAME802154_BEACONFRAME)
      (?s1\<lparr> packetbuf := ?b @ tail, hdrlen := 2, buflen := 41 \<rparr>))))"
  have b: "length ?b = 43" using length_eb_elements [OF eb_ies_plain [OF assms(2)]] by simp
  have r: "eb_ready (linkaddr_node_addr s) s6" "mac_pan_id s6 = mac_pan_id s" "packetbuf s6 = ?b @ tail" "packetbuf_totlen s6 = 43"
    "hdrlen s6 = 2" "buflen s6 = 41" "bufptr s6 = 0"
    by (simp_all add: s6_def eb_ready_def packetbuf_set_addr_def packetbuf_set_attr_def packetbuf_clear_def packetbuf_attr_clear_def
        packetbuf_holds_broadcast_def linkaddr_cmp_def tsch_eb_address_def linkaddr_null_def packetbuf_totlen_def packetbuf_hdrlen_def packetbuf_datalen_def)
  have l: "length (packetbuf s6) = PACKETBUF_SIZE" "14 + unat (packetbuf_totlen s6) \<le> PACKETBUF_SIZE" using b p(8) r(3,4) by simp_all
  have m: "mac_pan_id s6 \<noteq> 0xffff" using assms(5) r(2) by simp
  obtain s7 sq ptr n where f: "framer_create s6 = Some (14, s7)"
      "packetbuf s7 = frame802154_header eb_flen (eb_params (linkaddr_node_addr s) (mac_pan_id s) sq ptr n) @ ?b @ drop 14 tail"
      "hdrlen s7 = 16" "buflen s7 = 41" "bufptr s7 = 0"
    using framer_create_broadcast [OF r(1) assms(4) m l] r b by (auto simp: drop_append)
  have a: "linkaddr_node_addr (packetbuf_set_attr PACKETBUF_ATTR_MAC_METADATA 1 (packetbuf_set_attr PACKETBUF_ATTR_FRAME_TYPE (ucast FRAME802154_BEACONFRAME)
      (?s1\<lparr> packetbuf := ?b @ tail, hdrlen := 2, buflen := 41 \<rparr>))) = linkaddr_node_addr s"
    by (simp add: packetbuf_set_attr_def packetbuf_clear_def packetbuf_attr_clear_def)
  have "tsch_packet_create_eb s = Some (57, Some (16, 18), s7)"
    unfolding tsch_packet_create_eb_def Let_def prepare_eb [OF assms(1,2)]
    using p f s6_def a by (simp add: packetbuf_totlen_def packetbuf_hdrlen_def packetbuf_datalen_def)
  then show ?thesis using f(2) unfolding eb_frame_def by (auto simp: append_assoc)
qed

lemma update_eb_ok:
  assumes "eb_plain ies" "length a = 8"
  shows "\<exists>tail'. tsch_packet_update_eb (eb_frame a pan sq ptr n ies @ tail) 57 18 t =
    Some (1, eb_frame a pan sq ptr n (ies\<lparr> ie_asn := tsch_current_asn t, ie_join_priority := tsch_join_priority t \<rparr>) @ tail')"
proof -
  let ?h = "frame802154_header eb_flen (eb_params a pan sq ptr n) @ create_header_ie_descriptor HEADER_IE_LIST_TERMINATION_1 0 @
    create_payload_ie_descriptor PAYLOAD_IE_MLME (length (eb_elements ies))"
  let ?j = "ies_zero\<lparr> ie_asn := tsch_current_asn t, ie_join_priority := tsch_join_priority t \<rparr>"
  let ?k = "ies\<lparr> ie_asn := tsch_current_asn t, ie_join_priority := tsch_join_priority t \<rparr>"
  let ?e = "element frame80215e_create_ie_tsch_synchronization"
  have k: "eb_plain ?k" using assms(1) by (simp add: eb_plain_def ies_ok_def)
  define rest where "rest = drop 8 (eb_elements ies)"
  have l: "length (?e ies) = 8" "length (?e ?k) = 8" using elements_length(1) assms(1) k by (simp_all add: eb_plain_def)
  have e: "?e ?j = ?e ?k" by (simp add: element_def frame80215e_create_ie_tsch_synchronization_def)
  have r: "eb_elements ies = ?e ies @ rest" "eb_elements ?k = ?e ?k @ rest"
    using l(1) by (simp_all add: rest_def eb_elements_def discovery_elements_def element_def frame80215e_create_ie_tsch_timeslot_def
        frame80215e_create_ie_tsch_channel_hopping_sequence_def frame80215e_create_ie_tsch_slotframe_and_link_def
        frame80215e_create_ie_tsch_neighbor_discovery_def frame80215e_create_ie_tsch_rank_def frame80215e_create_ie_time_source_def
        frame80215e_create_ie_schedule_version_def frame80215e_create_ie_schedule_packets_def create_received_def
        frame80215e_create_ie_schedule_received_def Let_def)
  have h: "length ?h = 18" using eb_header_length [OF assms(2)] by simp
  have f: "eb_frame a pan sq ptr n ies @ tail = ?h @ eb_elements ies @ tail" "length (eb_elements ies) = length (eb_elements ?k)"
    using length_eb_elements assms(1) k by (simp_all add: eb_frame_def)
  have st: "stores frame80215e_create_ie_tsch_synchronization ?j (?e ?k)"
    unfolding e [symmetric] by (rule eb_creators_store(1)) (simp add: eb_plain_def ies_ok_def ies_zero_def)
  have "30 \<le> length (eb_elements ies @ tail)" using length_eb_elements [OF assms(1)] by simp
  then obtain tl where t: "frame80215e_create_ie_tsch_synchronization (eb_elements ies @ tail) 39 (Some ?j) = Some (8, ?e ?k @ tl)"
    using st [unfolded stores_def, rule_format, of "eb_elements ies @ tail" 39] l(2) by auto
  have "drop 8 (?e ?k @ tl) = rest @ tail"
    using t r(1) l by (auto simp: element_def put_ie_element frame80215e_create_ie_tsch_synchronization_def put_ie_def put_opt_def put_at_def
        Let_def split: if_splits)
  then have "?e ?k @ tl = eb_elements ?k @ tail" using l(2) r(2) by simp
  then have "tsch_packet_update_eb (eb_frame a pan sq ptr n ies @ tail) 57 18 t = Some (1, ?h @ eb_elements ?k @ tail)"
    unfolding f tsch_packet_update_eb_def Let_def using h t by (simp add: guard_opt_def)
  then show ?thesis unfolding eb_frame_def f(2) by auto
qed

lemma parse_eb_ok:
  assumes "eb_plain ies" "length a = 8"
  shows "\<exists>fr. tsch_packet_parse_eb (eb_frame a pan sq ptr n ies @ tail) 57 (Some f0) (Some i0) True =
      Some (57, Some fr, Some (eb_update ies (ies_zero\<lparr> ie_join_priority := 0xff, ie_payload_ie_offset := 2 \<rparr>)), Some 16) \<and>
    fr_src_addr fr = a \<and> fr_src_pid fr = pan \<and> fr_dest_pid fr = pan \<and> fcf_security_enabled (fr_fcf fr) = 0"
proof -
  let ?p = "eb_params a pan sq ptr n"
  let ?r = "create_header_ie_descriptor HEADER_IE_LIST_TERMINATION_1 0 @ create_payload_ie_descriptor PAYLOAD_IE_MLME (length (eb_elements ies)) @
     eb_elements ies @ tail"
  have w: "fcf_wf (fr_fcf ?p)" "\<not> anonymous_pan (fr_fcf ?p)" "length (fr_dest_addr ?p) = 8" "length (fr_src_addr ?p) = 8"
    using assms(2) by (simp_all add: fcf_wf_def addr_mode_ok_def anonymous_pan_def eb_params_def linkaddr_null_def)
  have f: "eb_frame a pan sq ptr n ies @ tail = frame802154_header eb_flen ?p @ ?r" by (simp add: eb_frame_def)
  have h: "frame802154_parse (frame802154_header eb_flen ?p @ ?r) 57 f0 = Some (14, parsed_frame ?p 14 57 f0)"
    using parse_header [OF w(1,3,4) eb_field_len w(2), of 57] eb_header_length [OF assms(2)] by simp
  have v: "fr_fcf (parsed_frame ?p 14 57 f0) = fr_fcf ?p" "fr_src_addr (parsed_frame ?p 14 57 f0) = a"
    "fr_src_pid (parsed_frame ?p 14 57 f0) = pan" "fr_dest_pid (parsed_frame ?p 14 57 f0) = pan"
    by (simp_all add: parsed_frame_def parsed_addr_def eb_params_def frame802154_has_panid_def Let_def)
  have c: "fcf_frame_version (fr_fcf ?p) = 2" "fcf_frame_type (fr_fcf ?p) = 0" "fcf_ie_list_present (fr_fcf ?p) = 1"
    "fcf_security_enabled (fr_fcf ?p) = 0"
    by (simp_all add: eb_params_def)
  have e: "length (eb_elements ies) = 39" by (rule length_eb_elements [OF assms(1)])
  then have ne: "eb_elements ies \<noteq> []" by auto
  have d: "drop 14 (frame802154_header eb_flen ?p @ ?r) = ?r" using eb_header_length [OF assms(2)] by simp
  have ok: "ies_ok ies" using assms(1) by (simp add: eb_plain_def)
  have p: "frame802154e_parse_information_elements ?r 43 (Some (ies_zero\<lparr> ie_join_priority := 0xff \<rparr>)) =
      Some (43, Some (eb_update ies (ies_zero\<lparr> ie_join_priority := 0xff, ie_payload_ie_offset := 2 \<rparr>)))"
    using parse_mlme_elements [OF reads_eb(1) [OF ok], of tail "ies_zero\<lparr> ie_join_priority := 0xff \<rparr>"] e ne by simp
  have o: "ie_payload_ie_offset (eb_update ies i) = ie_payload_ie_offset i" for i
    by (simp add: eb_update_def discovery_update_def slotframe_update_def hopping_update_def timeslot_update_def sync_update_def)
  show ?thesis
    apply (rule exI [of _ "parsed_frame ?p 14 57 f0"])
    unfolding f tsch_packet_parse_eb_def option.case h
    using v c d p o by (simp add: add_payload_offset_def Let_def)
qed

lemma eb_update_fields:
  "ie_asn (eb_update ies i) = ie_asn ies" "ie_join_priority (eb_update ies i) = ie_join_priority ies"
  "ie_sequence_number (eb_update ies i) = ie_sequence_number ies" "ie_rank (eb_update ies i) = ie_rank ies"
  "ie_time_source (eb_update ies i) = ie_time_source ies" "ie_schedule_version (eb_update ies i) = ie_schedule_version ies"
  "ie_schedule_packets (eb_update ies i) = ie_schedule_packets ies" "ie_schedule_received (eb_update ies i) = ie_schedule_received ies"
  by (simp_all add: eb_update_def discovery_update_def slotframe_update_def hopping_update_def timeslot_update_def sync_update_def)

text \<open>
  C15. Round trip of an enhanced beacon. A node that has a time source, or is the coordinator, and belongs to a PAN
  builds a beacon of 57 bytes with \<open>tsch_packet_create_eb\<close>, reporting the header length 16 and the offset 18 of the synchronisation
  element. \<open>tsch_packet_update_eb\<close>, run when the beacon is sent (in the state \<open>t\<close>), writes the current slot
  number and join priority at that offset, and \<open>tsch_packet_parse_eb\<close> on a receiver accepts the frame, consumes all of it and
  recovers the source address, the PAN and everything the beacon advertises: slot number, join
  priority, sequence number, rank, time source, schedule version, number of schedule packets and received schedules.
\<close>

theorem eb_roundtrip:
  assumes "eb_time_source s = Some ts" "length (schedule_received s) = 3" "length (packetbuf s) = PACKETBUF_SIZE"
    "length (linkaddr_node_addr s) = 8" "mac_pan_id s \<noteq> 0xffff"
  shows "\<exists>s' buf. tsch_packet_create_eb s = Some (57, Some (16, 18), s') \<and> tsch_packet_update_eb (packetbuf s') 57 18 t = Some (1, buf) \<and>
    (\<exists>fr i. tsch_packet_parse_eb buf 57 (Some f0) (Some i0) True = Some (57, Some fr, Some i, Some 16) \<and>
      fr_src_addr fr = linkaddr_node_addr s \<and> fr_src_pid fr = mac_pan_id s \<and> fr_dest_pid fr = mac_pan_id s \<and>
      ie_asn i = tsch_current_asn t \<and> ie_join_priority i = tsch_join_priority t \<and>
      ie_sequence_number i = sequence_number s + 1 \<and> ie_rank i = tsch_rank s \<and> ie_time_source i = ts \<and>
      ie_schedule_version i = schedule_version s \<and> ie_schedule_packets i = schedule_packets s \<and> ie_schedule_received i = schedule_received s)"
proof -
  let ?a = "linkaddr_node_addr s" and ?m = "mac_pan_id s"
  let ?i = "(eb_ies ts s)\<lparr> ie_asn := tsch_current_asn t, ie_join_priority := tsch_join_priority t \<rparr>"
  obtain s' sq ptr n tail where c: "tsch_packet_create_eb s = Some (57, Some (16, 18), s')" "packetbuf s' = eb_frame ?a ?m sq ptr n (eb_ies ts s) @ tail"
    using create_eb_ok [OF assms] by blast
  have p: "eb_plain (eb_ies ts s)" "eb_plain ?i" using eb_ies_plain [OF assms(2), of ts] by (simp_all add: eb_plain_def ies_ok_def)
  obtain tail' where u: "tsch_packet_update_eb (packetbuf s') 57 18 t = Some (1, eb_frame ?a ?m sq ptr n ?i @ tail')"
    using update_eb_ok [OF p(1) assms(4)] unfolding c(2) by blast
  obtain fr where "tsch_packet_parse_eb (eb_frame ?a ?m sq ptr n ?i @ tail') 57 (Some f0) (Some i0) True =
      Some (57, Some fr, Some (eb_update ?i (ies_zero\<lparr> ie_join_priority := 0xff, ie_payload_ie_offset := 2 \<rparr>)), Some 16)"
    "fr_src_addr fr = ?a" "fr_src_pid fr = ?m" "fr_dest_pid fr = ?m"
    using parse_eb_ok [OF p(2) assms(4)] by blast
  then show ?thesis using c(1) u by (auto simp: eb_update_fields eb_ies_def)
qed

lemma packetbuf_boot: "length (packetbuf sched_boot) = PACKETBUF_SIZE"
proof -
  have "packetbuf sched_boot = packetbuf tsch_boot"
    by (simp add: sched_boot_def tsch_schedule_init_def tsch_get_lock_def tsch_release_lock_def sched_zero_def tsch_state.extend_def)
  then show ?thesis using tsch_boot_wf(2) by (simp add: pb_wf_def)
qed

theorem eb_roundtrip_witness:
  "\<exists>s' buf. tsch_packet_create_eb ((net_boot [7, 0, 0, 0, 0, 0, 0, 2])\<lparr> tsch_is_coordinator := True \<rparr>) = Some (57, Some (16, 18), s') \<and>
    tsch_packet_update_eb (packetbuf s') 57 18 ((net_boot linkaddr_null)\<lparr> tsch_current_asn := \<lparr> ls4b = 4711, ms1b = 1 \<rparr> \<rparr>) = Some (1, buf) \<and>
    (\<exists>fr i. tsch_packet_parse_eb buf 57 (Some zero_frame) (Some ies_zero) True = Some (57, Some fr, Some i, Some 16) \<and>
      ie_asn i = \<lparr> ls4b = 4711, ms1b = 1 \<rparr> \<and> ie_time_source i = 7)"
proof -
  let ?s = "(net_boot [7, 0, 0, 0, 0, 0, 0, 2])\<lparr> tsch_is_coordinator := True \<rparr>"
  have "eb_time_source ?s = Some 7" by (simp add: eb_time_source_def nth_opt_def)
  moreover have "length (schedule_received ?s) = 3" "length (packetbuf ?s) = PACKETBUF_SIZE"
    using packetbuf_boot by (simp_all add: net_boot_def sched_state.defs net_state.defs)
  ultimately show ?thesis
    using eb_roundtrip [of ?s 7 "(net_boot linkaddr_null)\<lparr> tsch_current_asn := \<lparr> ls4b = 4711, ms1b = 1 \<rparr> \<rparr>" zero_frame ies_zero] by fastforce
qed

end
