(* ===== verification/TschProps.thy ===== *)
theory TschProps
  imports Tsch TschPacketProps
begin

text \<open>
  Properties of the TSCH MAC layer: a node that hears a beacon joins the network.
\<close>

subsection \<open>What the queue operations leave alone\<close>

text \<open>The fields outside the queue module, the coordinator flag, the association and the slot number.\<close>

definition mac_same :: "'a mac_state_scheme \<Rightarrow> 'a mac_state_scheme \<Rightarrow> bool" where
  "mac_same s s' \<longleftrightarrow> tsch_state.more s' = tsch_state.more s \<and> tsch_is_coordinator s' = tsch_is_coordinator s \<and>
     tsch_is_associated s' = tsch_is_associated s \<and> tsch_current_asn s' = tsch_current_asn s"

lemma mac_sameD:
  assumes "mac_same s s'"
  shows "tsch_is_coordinator s' = tsch_is_coordinator s" "tsch_is_associated s' = tsch_is_associated s" "tsch_current_asn s' = tsch_current_asn s"
    "tsch_timing s' = tsch_timing s" "tsch_rank s' = tsch_rank s" "mac_pan_id s' = mac_pan_id s" "tsch_join_priority s' = tsch_join_priority s"
    "linkaddr_node_addr s' = linkaddr_node_addr s" "events s' = events s" "current_link s' = current_link s"
    "slotframe_list s' = slotframe_list s" "link_memb s' = link_memb s" "slotframe_memb s' = slotframe_memb s"
    "tsch_hopping_sequence s' = tsch_hopping_sequence s" "tsch_hopping_sequence_length s' = tsch_hopping_sequence_length s"
  using assms unfolding mac_same_def by (cases s; cases s'; simp)+

lemma mac_same_refl [simp]: "mac_same s s"
  by (simp add: mac_same_def)

lemma mac_same_trans: "mac_same s s' \<Longrightarrow> mac_same s' s'' \<Longrightarrow> mac_same s s''"
  by (simp add: mac_same_def)

lemma mac_same_set_nbr [simp]: "mac_same s (set_nbr n x s') \<longleftrightarrow> mac_same s s'"
  by (simp add: mac_same_def set_nbr_def)

lemma mac_same_add_nbr: "tsch_queue_add_nbr a s = (r, s') \<Longrightarrow> mac_same s s'"
  by (auto simp: tsch_queue_add_nbr_def tsch_get_lock_def tsch_release_lock_def tsch_queue_backoff_reset_def set_nbr_def mac_same_def Let_def
      split: option.splits if_splits prod.splits)

lemma mac_same_keepalive: "tsch_schedule_keepalive s = Some s' \<Longrightarrow> mac_same s s'"
  by (auto simp: tsch_schedule_keepalive_def random_rand_def mac_same_def Let_def bind_eq_Some_conv split: if_splits)

lemma mac_same_ka_timeout: "tsch_set_ka_timeout t s = Some s' \<Longrightarrow> mac_same s s'"
  by (auto simp: tsch_set_ka_timeout_def tsch_schedule_keepalive_def random_rand_def mac_same_def Let_def bind_eq_Some_conv split: if_splits)

lemma mac_same_update_time_source:
  assumes "tsch_queue_update_time_source a s = Some (r, s')"
  shows "mac_same s s'"
proof -
  define n1 s1 where "n1 = fst (case a of Some a \<Rightarrow> tsch_queue_add_nbr a s | None \<Rightarrow> (None, s))"
    and "s1 = snd (case a of Some a \<Rightarrow> tsch_queue_add_nbr a s | None \<Rightarrow> (None, s))"
  have 1: "(case a of Some a \<Rightarrow> tsch_queue_add_nbr a s | None \<Rightarrow> (None, s)) = (n1, s1)" by (simp add: n1_def s1_def)
  have 2: "mac_same s s1" by (cases a) (auto simp: s1_def intro: mac_same_add_nbr [OF prod.collapse [symmetric]])
  have 3: "mac_same s s2" if "tsch_set_ka_timeout t (set_nbr n x s1) = Some s2" for s2 n x t
    using mac_same_ka_timeout [OF that] 2 by (auto intro: mac_same_trans [of s "set_nbr n x s1"])
  have 4: "mac_same s s2" if "tsch_set_ka_timeout t s1 = Some s2" for s2 t
    using mac_same_ka_timeout [OF that] 2 by (rule mac_same_trans [rotated])
  show ?thesis
    using assms 2 unfolding tsch_queue_update_time_source_def 1
    by (cases "tsch_queue_get_time_source s") (auto simp: Let_def bind_eq_Some_conv split: if_splits option.splits dest!: 3 4)
qed

subsection \<open>Joining\<close>

lemma q_wf_cong_mac:
  assumes "bufmem s' = bufmem s" "buframmem s' = buframmem s" "neighbor_memb s' = neighbor_memb s"
    "packet_memb s' = packet_memb s" "neighbor_list s' = neighbor_list s" "tsch_locked s' = tsch_locked s"
  shows "q_wf s' = q_wf s" "nbr s' = nbr s" "tsch_queue_get_time_source s' = tsch_queue_get_time_source s"
  using q_wf_frame [OF assms(1-5)] time_source_cong(1) [OF assms(5) _ assms(6)] by auto

lemma join_time_source:
  assumes w: "q_wf s" "\<not> tsch_locked s" "\<not> tsch_is_coordinator s" "addr_wf a" "tsch_queue_get_nbr a s = Some n"
    and ts: "tsch_queue_get_time_source s = None"
  shows "\<exists>s'. tsch_queue_update_time_source (Some a) s = Some (True, s') \<and> q_wf s' \<and> \<not> tsch_locked s' \<and> neighbor_list s' = neighbor_list s \<and>
    tsch_queue_get_time_source s' = Some n \<and> n_addr (nbr s' n) = a \<and> tsch_current_ka_timeout s' = TSCH_KEEPALIVE_TIMEOUT \<and> mac_same s s'"
proof -
  have n: "n \<in> set (neighbor_list s)" "n_addr (nbr s n) = a" using get_nbr_Some [OF w(1,4,5)] by auto
  let ?s1 = "set_nbr n ((nbr s n)\<lparr> n_is_time_source := True \<rparr>) s"
  obtain s' where s': "tsch_set_ka_timeout TSCH_KEEPALIVE_TIMEOUT ?s1 = Some s'" "q_wf s'" "\<not> tsch_locked s'" "neighbor_list s' = neighbor_list s"
      "tsch_queue_get_time_source s' = Some n" "n_addr (nbr s' n) = n_addr (nbr s n)"
    using switch_time_source [OF w(1,2) n(1)] ts by auto
  have u: "tsch_queue_update_time_source (Some a) s = Some (True, s')"
    using w ts s'(1) by (simp add: tsch_queue_update_time_source_def tsch_queue_add_nbr_def tsch_is_locked_def)
  have "tsch_current_ka_timeout s' = TSCH_KEEPALIVE_TIMEOUT"
    using s'(1) by (auto simp: tsch_set_ka_timeout_def tsch_schedule_keepalive_def random_rand_def Let_def bind_eq_Some_conv split: if_splits)
  then show ?thesis using u s' n(2) mac_same_update_time_source [OF u] by blast
qed

text \<open>Updating fields of a neighbour that are neither its address nor its queue nor its time source flag.\<close>

lemma q_wf_update_nbr:
  assumes "q_wf s" "n \<in> set (neighbor_list s)" "n_addr x = n_addr (nbr s n)" "n_tx_ringbuf x = n_tx_ringbuf (nbr s n)"
    "n_tx_array x = n_tx_array (nbr s n)" "n_is_time_source x = n_is_time_source (nbr s n)" "n_backoff_exponent x = n_backoff_exponent (nbr s n)"
    "n_backoff_window x = n_backoff_window (nbr s n)" "n_is_broadcast x = n_is_broadcast (nbr s n)"
  shows "q_wf (set_nbr n x s)" "n_is_time_source (nbr (set_nbr n x s) m) = n_is_time_source (nbr s m)" "nbr (set_nbr n x s) n = x"
    "neighbor_list (set_nbr n x s) = neighbor_list s" "tsch_locked (set_nbr n x s) = tsch_locked s"
proof -
  show e: "nbr (set_nbr n x s) n = x" using q_wfD(7) [OF assms(1,2)] by (simp add: nbr_set_nbr)
  show "n_is_time_source (nbr (set_nbr n x s) m) = n_is_time_source (nbr s m)" using assms(6) by (simp add: nbr_set_nbr)
  show "neighbor_list (set_nbr n x s) = neighbor_list s" "tsch_locked (set_nbr n x s) = tsch_locked s" by (simp_all add: set_nbr_def)
  have q: "nqueue x = nqueue (nbr s n)" using assms(4,5) by (simp add: nqueue_def)
  have "nbr_wf x" using q_wfD(6) [OF assms(1,2)] assms(3-5,7,8) q by (simp add: nbr_wf_def backoff_wf_def)
  moreover have "distinct (map the (nqueue x))" using q_wfD(8) [OF assms(1,2)] q by (simp add: qpackets_def)
  moreover have "\<forall>m \<in> set (neighbor_list s). m \<noteq> n \<longrightarrow> \<not> n_is_time_source (nbr s m)" if "n_is_time_source x"
    using that assms(1,2,6) unfolding q_wf_def nbrs_wf_def by blast
  ultimately show "q_wf (set_nbr n x s)" using q_wf_set_nbr [OF assms(1,2), of x] q assms(3) by simp
qed

lemma discovery_wf:
  assumes "q_wf s" "\<not> tsch_locked s" "n \<in> set (neighbor_list s)"
  shows "q_wf (neighbor_discovery_input d (Some n) s)" "\<not> tsch_locked (neighbor_discovery_input d (Some n) s)"
    "tsch_queue_get_time_source (neighbor_discovery_input d (Some n) s) = tsch_queue_get_time_source s"
    "mac_same s (neighbor_discovery_input d (Some n) s)" "n_addr (nbr (neighbor_discovery_input d (Some n) s) n) = n_addr (nbr s n)"
    "n_rank (nbr (neighbor_discovery_input d (Some n) s) n) = n_rank (nbr s n)"
    "tsch_current_ka_timeout (neighbor_discovery_input d (Some n) s) = tsch_current_ka_timeout s"
proof -
  define e where "e = etx_of_beacons (n_count (nbr s n) + 1) d"
  define x where "x = (nbr s n)\<lparr> n_missed_ebs := n_missed_ebs (nbr s n) + (d - (n_last_eb (nbr s n) + 1)), n_last_eb := d,
    n_count := n_count (nbr s n) + 1, n_etx_link := word_of_int (if e > 30000 then 25555 else e) \<rparr>"
  have x: "neighbor_discovery_input d (Some n) s = (if d = n_last_eb (nbr s n) then s else set_nbr n x s)"
    "n_addr x = n_addr (nbr s n)" "n_tx_ringbuf x = n_tx_ringbuf (nbr s n)"
    "n_tx_array x = n_tx_array (nbr s n)" "n_is_time_source x = n_is_time_source (nbr s n)" "n_backoff_exponent x = n_backoff_exponent (nbr s n)"
    "n_backoff_window x = n_backoff_window (nbr s n)" "n_is_broadcast x = n_is_broadcast (nbr s n)" "n_rank x = n_rank (nbr s n)"
    by (simp_all add: neighbor_discovery_input_def Let_def x_def e_def)
  note u = q_wf_update_nbr [OF assms(1,3) x(2-8)]
  have w: "q_wf (set_nbr n x s)" "\<not> tsch_locked (set_nbr n x s)" using u(1,5) assms(2) by auto
  have k: "tsch_current_ka_timeout (set_nbr n x s) = tsch_current_ka_timeout s" by (simp add: set_nbr_def)
  have "tsch_queue_get_time_source (set_nbr n x s) = tsch_queue_get_time_source s"
    using u(2,4) assms(2) by (simp add: tsch_queue_get_time_source_def tsch_is_locked_def set_nbr_def)
  then show "q_wf (neighbor_discovery_input d (Some n) s)" "\<not> tsch_locked (neighbor_discovery_input d (Some n) s)"
    "tsch_queue_get_time_source (neighbor_discovery_input d (Some n) s) = tsch_queue_get_time_source s"
    "mac_same s (neighbor_discovery_input d (Some n) s)" "n_addr (nbr (neighbor_discovery_input d (Some n) s) n) = n_addr (nbr s n)"
    "n_rank (nbr (neighbor_discovery_input d (Some n) s) n) = n_rank (nbr s n)"
    "tsch_current_ka_timeout (neighbor_discovery_input d (Some n) s) = tsch_current_ka_timeout s"
    using w u(3) assms(1,2) x k by simp_all
qed

lemma keepalive_ok:
  assumes "tsch_current_ka_timeout s = TSCH_KEEPALIVE_TIMEOUT"
  shows "\<exists>s'. tsch_schedule_keepalive s = Some s' \<and> bufmem s' = bufmem s \<and> buframmem s' = buframmem s \<and>
    neighbor_memb s' = neighbor_memb s \<and> packet_memb s' = packet_memb s \<and> neighbor_list s' = neighbor_list s \<and> tsch_locked s' = tsch_locked s"
proof -
  have "(12000 :: u32) div 10 \<noteq> 0" by simp
  then show ?thesis using assms by (simp add: tsch_schedule_keepalive_def TSCH_KEEPALIVE_TIMEOUT_def random_rand_def Let_def)
qed

lemma associate_finish_ok:
  assumes w: "q_wf s" "\<not> tsch_locked s" "\<not> tsch_is_coordinator s" and a: "addr_wf (fr_src_addr frame)"
    and r: "tsch_queue_get_nbr (fr_src_addr frame) s \<noteq> None \<or> memb_numfree (neighbor_memb s) \<noteq> 0"
    and ts: "tsch_queue_get_time_source s = None" and jp: "tsch_join_priority s < TSCH_MAX_JOIN_PRIORITY"
    and tm: "length (tsch_timing s) = 12"
  shows "\<exists>s' n. associate_finish timestamp frame ies s = Some (True, s') \<and> q_wf s' \<and> \<not> tsch_locked s' \<and> tsch_is_associated s' \<and>
    tsch_queue_get_time_source s' = Some n \<and> n_addr (nbr s' n) = fr_src_addr frame \<and> n_rank (nbr s' n) = ie_rank ies \<and>
    tsch_rank s' = ie_rank ies + 1 \<and> mac_pan_id s' = fr_src_pid frame \<and> tsch_current_asn s' = tsch_current_asn s \<and>
    tsch_join_priority s' = tsch_join_priority s \<and> events s' = events s @ [EV_ASSOCIATED_TO_NETWORK]"
proof -
  let ?a = "fr_src_addr frame"
  obtain o1 s1 where 1: "tsch_queue_add_nbr ?a s = (o1, s1)" by fastforce
  note ad = add_nbr_wf [OF w(1) a w(2) 1]
  obtain n where n: "o1 = Some n" using ad(12) r by (cases o1) auto
  have m1: "mac_same s s1" by (rule mac_same_add_nbr [OF 1])
  have g: "tsch_queue_get_nbr ?a s1 = Some n" using get_nbr_iff [OF ad(1) a ad(2)] ad(9,10) n by simp
  have c1: "\<not> tsch_is_coordinator s1" "tsch_queue_get_time_source s1 = None"
    using mac_sameD(1) [OF m1] w(3) add_nbr_time_source [OF w(1) a w(2) 1] ts by auto
  obtain s2 where 2: "tsch_queue_update_time_source (Some ?a) s1 = Some (True, s2)" "q_wf s2" "\<not> tsch_locked s2" "neighbor_list s2 = neighbor_list s1"
      "tsch_queue_get_time_source s2 = Some n" "n_addr (nbr s2 n) = ?a" "tsch_current_ka_timeout s2 = TSCH_KEEPALIVE_TIMEOUT" "mac_same s1 s2"
    using join_time_source [OF ad(1,2) c1(1) a g c1(2)] by blast
  have n2: "n \<in> set (neighbor_list s2)" using 2(4) ad(9) n by simp
  define s3 where "s3 = set_nbr n ((nbr s2 n)\<lparr> n_rank := ie_rank ies \<rparr>) s2"
  note u = q_wf_update_nbr [OF 2(2) n2, of "(nbr s2 n)\<lparr> n_rank := ie_rank ies \<rparr>", simplified, folded s3_def]
  have l3: "neighbor_list s3 = neighbor_list s2" "tsch_locked s3 = tsch_locked s2" by (simp_all add: s3_def set_nbr_def)
  have t3: "tsch_queue_get_time_source s3 = Some n" using u(2) l3 2(3,5) by (simp add: tsch_queue_get_time_source_def tsch_is_locked_def)
  define s4 where "s4 = s3\<lparr> tsch_rank := ie_rank ies + 1 \<rparr>"
  have f4: "q_wf s4 = q_wf s3" "nbr s4 = nbr s3" "tsch_queue_get_time_source s4 = tsch_queue_get_time_source s3"
    by (rule q_wf_cong_mac; simp add: s4_def)+
  have w4: "q_wf s4" "\<not> tsch_locked s4" "n \<in> set (neighbor_list s4)" using f4 u(1) n2 2(3) l3 by (simp_all add: s4_def)
  define s5 where "s5 = neighbor_discovery_input (ie_sequence_number ies) (Some n) s4"
  note d = discovery_wf [OF w4, of "ie_sequence_number ies", folded s5_def]
  have m: "mac_same s4 s5" "mac_same s s2" using d(4) mac_same_trans [OF m1 2(8)] by auto
  have f5: "tsch_timing s5 = tsch_timing s" "tsch_current_asn s5 = tsch_current_asn s" "tsch_join_priority s5 = tsch_join_priority s"
    "events s5 = events s" "tsch_rank s5 = ie_rank ies + 1"
    using mac_sameD [OF m(1)] mac_sameD [OF m(2)] by (simp_all add: s4_def s3_def set_nbr_def)
  define t where "t = tsch_timing s ! 2"
  define s6 where "s6 = (tsch_slot_operation_sync (timestamp - t) (tsch_current_asn s5) (frame802154_set_pan_id (fr_src_pid frame) s5))
    \<lparr> tsch_is_associated := True, tsch_is_pan_secured := fcf_security_enabled (fr_fcf frame), tx_count := 0, rx_count := 0, sync_count := 0 \<rparr>"
  have f6: "q_wf s6 = q_wf s5" "nbr s6 = nbr s5" "tsch_queue_get_time_source s6 = tsch_queue_get_time_source s5"
    by (rule q_wf_cong_mac; simp add: s6_def tsch_slot_operation_sync_def frame802154_set_pan_id_def)+
  have e6: "tsch_locked s6 = tsch_locked s5" "tsch_is_associated s6" "tsch_rank s6 = tsch_rank s5" "mac_pan_id s6 = fr_src_pid frame"
    "tsch_current_asn s6 = tsch_current_asn s5" "tsch_join_priority s6 = tsch_join_priority s5" "events s6 = events s5"
    "tsch_current_ka_timeout s6 = TSCH_KEEPALIVE_TIMEOUT"
    using d(7) 2(7) by (simp_all add: s6_def tsch_slot_operation_sync_def frame802154_set_pan_id_def s4_def s3_def set_nbr_def)
  obtain s7 where 7: "tsch_schedule_keepalive s6 = Some s7" "bufmem s7 = bufmem s6" "buframmem s7 = buframmem s6"
      "neighbor_memb s7 = neighbor_memb s6" "packet_memb s7 = packet_memb s6" "neighbor_list s7 = neighbor_list s6" "tsch_locked s7 = tsch_locked s6"
    using keepalive_ok [OF e6(8)] by blast
  note f7 = q_wf_cong_mac [OF 7(2-7)] and m7 = mac_sameD [OF mac_same_keepalive [OF 7(1)]]
  define s8 where "s8 = post_event EV_ASSOCIATED_TO_NETWORK (s7\<lparr> tsch_association_count := tsch_association_count s7 + 1 \<rparr>)"
  have f8: "q_wf s8 = q_wf s7" "nbr s8 = nbr s7" "tsch_queue_get_time_source s8 = tsch_queue_get_time_source s7"
    by (rule q_wf_cong_mac; simp add: s8_def post_event_def)+
  have "associate_finish timestamp frame ies s = Some (True, s8)"
    unfolding associate_finish_def 1 n
    using jp 2(1) tm f5(1) 7(1) by (simp add: Let_def frame802154_set_pan_id_def nth_opt_def
        t_def [symmetric] flip: s3_def) (simp add: s8_def flip: s4_def s5_def, simp add: s6_def frame802154_set_pan_id_def t_def)
  moreover have "q_wf s8" "tsch_queue_get_time_source s8 = Some n" "\<not> tsch_locked s8"
    using f8 f7 f6 d(1-3) w4 f4 t3 7(7) e6(1) by (simp_all add: s8_def post_event_def)
  ultimately show ?thesis using f8(2) f7(2) f6(2) d(5,6) f4(2) u(3) 2(6) e6 f5 m7
    by (intro exI [of _ s8] exI [of _ n]) (simp add: s8_def post_event_def)
qed

lemma default_hopping_ok:
  assumes "length (tsch_hopping_sequence s) = TSCH_HOPPING_SEQUENCE_MAX_LEN"
  shows "\<exists>hs d. default_hopping_sequence s = Some (s\<lparr> tsch_hopping_sequence := hs, tsch_hopping_sequence_length := d \<rparr>)"
  using assms by (auto simp: default_hopping_sequence_def put_opt_def TSCH_DEFAULT_HOPPING_SEQUENCE_def)

text \<open>The elements a beacon leaves at their defaults.\<close>

lemma eb_update_plain:
  assumes "eb_plain ies"
  shows "ie_tsch_timeslot_id (eb_update ies i) = 0" "ie_channel_hopping_sequence_id (eb_update ies i) = 0"
    "ie_tsch_slotframe_and_link (eb_update ies i) = ie_tsch_slotframe_and_link i"
  using assms by (simp_all add: eb_plain_def eb_update_def discovery_update_def slotframe_update_def hopping_update_def timeslot_update_def sync_update_def)

text \<open>What joining does to the schedule and to the time: the slot of the beacon began one transmission offset before it arrived.\<close>

definition joined_view :: "u64 \<Rightarrow> 'a mac_state_scheme \<Rightarrow> 'a mac_state_scheme \<Rightarrow> bool" where
  "joined_view timestamp s s' \<longleftrightarrow> link_memb s' = link_memb s \<and> slotframe_memb s' = slotframe_memb s \<and> slotframe_list s' = slotframe_list s \<and>
     tsch_timing s' = tsch_timing s \<and> rtimer_now s' = rtimer_now s \<and> current_slot_start s' = timestamp - tsch_timing s ! tsch_ts_tx_offset"

lemma mac_same_view:
  assumes "mac_same s s'"
  shows "link_memb s' = link_memb s" "slotframe_memb s' = slotframe_memb s" "slotframe_list s' = slotframe_list s" "tsch_timing s' = tsch_timing s"
    "rtimer_now s' = rtimer_now s" "current_slot_start s' = current_slot_start s"
  using assms unfolding mac_same_def by (cases s; cases s'; simp)+

lemma associate_finish_view:
  assumes "associate_finish timestamp frame ies s = Some (True, s')"
  shows "joined_view timestamp s s'"
proof -
  obtain n s1 s2 s7 b where c: "tsch_queue_add_nbr (fr_src_addr frame) s = (Some n, s1)" "tsch_queue_update_time_source (Some (fr_src_addr frame)) s1 = Some (b, s2)"
    and k: "\<exists>s5. s5 = neighbor_discovery_input (ie_sequence_number ies) (Some n) ((set_nbr n ((nbr s2 n)\<lparr> n_rank := ie_rank ies \<rparr>) s2)\<lparr> tsch_rank := ie_rank ies + 1 \<rparr>) \<and>
      tsch_schedule_keepalive ((tsch_slot_operation_sync (timestamp - tsch_timing s5 ! tsch_ts_tx_offset) (tsch_current_asn s5) (frame802154_set_pan_id (fr_src_pid frame) s5))
         \<lparr> tsch_is_associated := True, tsch_is_pan_secured := fcf_security_enabled (fr_fcf frame), tx_count := 0, rx_count := 0, sync_count := 0 \<rparr>) = Some s7"
    and s': "s' = post_event EV_ASSOCIATED_TO_NETWORK (s7\<lparr> tsch_association_count := tsch_association_count s7 + 1 \<rparr>)"
    using assms by (auto simp: associate_finish_def bind_eq_Some_conv Let_def frame802154_set_pan_id_def split: if_splits prod.splits option.splits)
  obtain s5 where k: "s5 = neighbor_discovery_input (ie_sequence_number ies) (Some n) ((set_nbr n ((nbr s2 n)\<lparr> n_rank := ie_rank ies \<rparr>) s2)\<lparr> tsch_rank := ie_rank ies + 1 \<rparr>)"
    "tsch_schedule_keepalive ((tsch_slot_operation_sync (timestamp - tsch_timing s5 ! tsch_ts_tx_offset) (tsch_current_asn s5) (frame802154_set_pan_id (fr_src_pid frame) s5))
         \<lparr> tsch_is_associated := True, tsch_is_pan_secured := fcf_security_enabled (fr_fcf frame), tx_count := 0, rx_count := 0, sync_count := 0 \<rparr>) = Some s7"
    using k by blast
  note m = mac_same_view [OF mac_same_add_nbr [OF c(1)]] mac_same_view [OF mac_same_update_time_source [OF c(2)]] mac_same_view [OF mac_same_keepalive [OF k(2)]]
  have d: "link_memb (neighbor_discovery_input i (Some n) t) = link_memb t" "slotframe_memb (neighbor_discovery_input i (Some n) t) = slotframe_memb t"
    "slotframe_list (neighbor_discovery_input i (Some n) t) = slotframe_list t" "tsch_timing (neighbor_discovery_input i (Some n) t) = tsch_timing t"
    "rtimer_now (neighbor_discovery_input i (Some n) t) = rtimer_now t" for i and t :: "'a mac_state_scheme"
    by (simp_all add: neighbor_discovery_input_def set_nbr_def Let_def)
  have "link_memb s5 = link_memb s2" "slotframe_memb s5 = slotframe_memb s2" "slotframe_list s5 = slotframe_list s2" "tsch_timing s5 = tsch_timing s2" "rtimer_now s5 = rtimer_now s2"
    unfolding k(1) d by (simp_all add: set_nbr_def)
  then show ?thesis using m unfolding s' by (simp add: joined_view_def post_event_def tsch_slot_operation_sync_def frame802154_set_pan_id_def)
qed

lemma associate_ok:
  assumes p: "tsch_packet_parse_eb (ip_payload inp) (ip_len inp) (Some f0) (Some ies_zero) True = Some (57, Some fr, Some i, h)"
    and src: "addr_wf (fr_src_addr fr)" "fr_src_addr fr ! 0 \<noteq> MASTER_TSCH_DISTRIBUTOR"
      "linkaddr_node_addr u ! 0 = MASTER_TSCH_DISTRIBUTOR \<longrightarrow> fr_src_addr fr ! 0 = MASTER_TSCH_COORDINATOR"
    and f: "fr_src_pid fr = IEEE802154_PANID" "fcf_security_enabled (fr_fcf fr) = 0"
    and i: "unat (ie_join_priority i) < 31" "ie_tsch_timeslot_id i = 0" "ie_channel_hopping_sequence_id i = 0"
      "num_slotframes (ie_tsch_slotframe_and_link i) = 0"
    and u: "q_wf u" "\<not> tsch_locked u" "\<not> tsch_is_coordinator u" "tsch_queue_get_time_source u = None" "linkaddr_node_addr u \<noteq> []"
      "length (tsch_hopping_sequence u) = TSCH_HOPPING_SEQUENCE_MAX_LEN"
      "tsch_queue_get_nbr (fr_src_addr fr) u \<noteq> None \<or> memb_numfree (neighbor_memb u) \<noteq> 0"
  shows "\<exists>u' n. tsch_associate f0 (Some inp) timestamp u = Some (True, u') \<and> q_wf u' \<and> \<not> tsch_locked u' \<and> tsch_is_associated u' \<and>
    tsch_queue_get_time_source u' = Some n \<and> n_addr (nbr u' n) = fr_src_addr fr \<and> n_rank (nbr u' n) = ie_rank i \<and>
    tsch_rank u' = ie_rank i + 1 \<and> mac_pan_id u' = fr_src_pid fr \<and> tsch_current_asn u' = ie_asn i \<and>
    tsch_join_priority u' = ie_join_priority i + 1 \<and> events u' = events u @ [EV_ASSOCIATED_TO_NETWORK] \<and>
    joined_view timestamp (u\<lparr> tsch_timing := tsch_default_timing_us \<rparr>) u'"
proof -
  let ?j = "ie_join_priority i"
  have j: "?j \<noteq> 0xff" "?j + 1 < 32" using i(1) by (auto simp: word_less_nat_alt unat_word_ariths)
  define u1 where "u1 = u\<lparr> tsch_current_asn := ie_asn i, tsch_join_priority := ?j + 1, tsch_timing := tsch_default_timing_us \<rparr>"
  obtain hs d where h: "default_hopping_sequence u1 = Some (u1\<lparr> tsch_hopping_sequence := hs, tsch_hopping_sequence_length := d \<rparr>)"
    using default_hopping_ok [of u1] u(6) by (auto simp: u1_def)
  define u2 where "u2 = u1\<lparr> tsch_hopping_sequence := hs, tsch_hopping_sequence_length := d \<rparr>"
  have e: "q_wf u2 = q_wf u" "tsch_queue_get_time_source u2 = tsch_queue_get_time_source u" "nbr u2 = nbr u"
    by (rule q_wf_cong_mac; simp add: u2_def u1_def)+
  have g: "tsch_queue_get_nbr a u2 = tsch_queue_get_nbr a u" for a
    using e(3) by (simp add: tsch_queue_get_nbr_def tsch_is_locked_def u2_def u1_def)
  have f2: "\<not> tsch_locked u2" "\<not> tsch_is_coordinator u2" "tsch_join_priority u2 = ?j + 1" "tsch_current_asn u2 = ie_asn i" "events u2 = events u"
    "length (tsch_timing u2) = 12" "neighbor_memb u2 = neighbor_memb u"
    using u(2,3) by (simp_all add: u2_def u1_def tsch_default_timing_us_def)
  have "fr_src_addr fr \<noteq> []" using src(1) by (auto simp: addr_wf_def)
  then have a: "tsch_associate f0 (Some inp) timestamp u = associate_finish timestamp fr i u2"
    unfolding tsch_associate_def associate_hopping_def associate_schedule_def
    using p src u(5) f i j(1) h u1_def u2_def by (cases "linkaddr_node_addr u ! 0 = 7") (simp_all add: nth_opt_def)
  have v: "joined_view timestamp (u\<lparr> tsch_timing := tsch_default_timing_us \<rparr>) u'" if "associate_finish timestamp fr i u2 = Some (True, u')" for u'
    using associate_finish_view [OF that] by (simp add: joined_view_def u2_def u1_def)
  show ?thesis unfolding a
    using associate_finish_ok [of u2 fr timestamp i] e g f2 u src(1) j(2) v by auto
qed

lemma beacon_joins:
  assumes s: "eb_time_source s = Some ts" "length (schedule_received s) = 3" "length (packetbuf s) = PACKETBUF_SIZE"
      "addr_wf (linkaddr_node_addr s)" "mac_pan_id s = IEEE802154_PANID"
    and d: "linkaddr_node_addr s ! 0 \<noteq> MASTER_TSCH_DISTRIBUTOR"
      "linkaddr_node_addr u ! 0 = MASTER_TSCH_DISTRIBUTOR \<longrightarrow> linkaddr_node_addr s ! 0 = MASTER_TSCH_COORDINATOR"
    and t: "unat (tsch_join_priority t) < 31"
    and u: "q_wf u" "\<not> tsch_locked u" "\<not> tsch_is_coordinator u" "tsch_queue_get_time_source u = None" "linkaddr_node_addr u \<noteq> []"
      "length (tsch_hopping_sequence u) = TSCH_HOPPING_SEQUENCE_MAX_LEN"
      "tsch_queue_get_nbr (linkaddr_node_addr s) u \<noteq> None \<or> memb_numfree (neighbor_memb u) \<noteq> 0"
  shows "\<exists>s' buf. tsch_packet_create_eb s = Some (57, Some (16, 18), s') \<and> tsch_packet_update_eb (packetbuf s') 57 18 t = Some (1, buf) \<and> 57 \<le> length buf \<and>
    (\<exists>u' n. tsch_associate f0 (Some (inp\<lparr> ip_payload := take 57 buf @ rest, ip_len := 57 \<rparr>)) timestamp u = Some (True, u') \<and>
      q_wf u' \<and> tsch_is_associated u' \<and> tsch_current_asn u' = tsch_current_asn t \<and> tsch_join_priority u' = tsch_join_priority t + 1 \<and>
      tsch_rank u' = tsch_rank s + 1 \<and> mac_pan_id u' = mac_pan_id s \<and>
      tsch_queue_get_time_source u' = Some n \<and> n_addr (nbr u' n) = linkaddr_node_addr s \<and>
      events u' = events u @ [EV_ASSOCIATED_TO_NETWORK] \<and>
      \<not> tsch_locked u' \<and> joined_view timestamp (u\<lparr> tsch_timing := tsch_default_timing_us \<rparr>) u')"
proof -
  let ?a = "linkaddr_node_addr s" and ?m = "mac_pan_id s"
  let ?i = "(eb_ies ts s)\<lparr> ie_asn := tsch_current_asn t, ie_join_priority := tsch_join_priority t \<rparr>"
  let ?z = "ies_zero\<lparr> ie_join_priority := 0xff, ie_payload_ie_offset := 2 \<rparr>"
  have a: "length ?a = 8" "mac_pan_id s \<noteq> 0xffff" using s(4,5) by (simp_all add: addr_wf_def)
  obtain s' sq ptr n tail where c: "tsch_packet_create_eb s = Some (57, Some (16, 18), s')" "packetbuf s' = eb_frame ?a ?m sq ptr n (eb_ies ts s) @ tail"
    using create_eb_ok [OF s(1-3) a] by blast
  have p: "eb_plain (eb_ies ts s)" "eb_plain ?i" using eb_ies_plain [OF s(2), of ts] by (simp_all add: eb_plain_def ies_ok_def)
  obtain tail' where b: "tsch_packet_update_eb (packetbuf s') 57 18 t = Some (1, eb_frame ?a ?m sq ptr n ?i @ tail')"
    using update_eb_ok [OF p(1) a(1)] unfolding c(2) by blast
  obtain fr where f: "tsch_packet_parse_eb (eb_frame ?a ?m sq ptr n ?i @ rest) 57 (Some f0) (Some ies_zero) True =
      Some (57, Some fr, Some (eb_update ?i ?z), Some 16)"
    "fr_src_addr fr = ?a" "fr_src_pid fr = ?m" "fr_dest_pid fr = ?m" "fcf_security_enabled (fr_fcf fr) = 0"
    using parse_eb_ok [OF p(2) a(1)] by blast
  let ?in = "inp\<lparr> ip_payload := take 57 (eb_frame ?a ?m sq ptr n ?i @ tail') @ rest, ip_len := 57 \<rparr>"
  have e: "tsch_packet_parse_eb (ip_payload ?in) (ip_len ?in) (Some f0) (Some ies_zero) True = Some (57, Some fr, Some (eb_update ?i ?z), Some 16)"
    using f(1) length_eb_frame [OF p(2) a(1)] by simp
  define j where "j = eb_update ?i ?z"
  have z: "num_slotframes (ie_tsch_slotframe_and_link j) = 0" "ie_tsch_timeslot_id j = 0" "ie_channel_hopping_sequence_id j = 0"
    unfolding j_def eb_update_plain [OF p(2)] by (simp_all add: ies_zero_def)
  have k: "ie_asn j = tsch_current_asn t" "ie_join_priority j = tsch_join_priority t" "ie_rank j = tsch_rank s"
    unfolding j_def eb_update_fields by (simp_all add: eb_ies_def)
  show ?thesis
    using associate_ok [OF e [folded j_def], of u timestamp] f(2-) s(4,5) d t u c(1) b z k length_eb_frame [OF p(2) a(1)] by auto
qed

text \<open>
  A node that hears a beacon joins the network. Let a node \<open>s\<close> of the PAN (the coordinator, or a node with a
  time source) build a beacon with \<open>tsch_packet_create_eb\<close> and complete it when it is sent, in the
  state \<open>t\<close>, with \<open>tsch_packet_update_eb\<close>. When a scanning node \<open>u\<close> (not the coordinator, without a time source, with
  a free neighbour entry) hears it, the sender is not the distributor and its join priority is below 31,
  then \<open>tsch_associate\<close> succeeds: \<open>u\<close> is associated, has the slot number of the sender, a join priority and a rank one
  above the sender's, the PAN of the sender, the sender as its only time source, and announces the association; the invariant
  of the queues is kept. (The distributor accepts only the coordinator.)
\<close>

theorem beacon_joins_network:
  assumes s: "eb_time_source s = Some ts" "length (schedule_received s) = 3" "length (packetbuf s) = PACKETBUF_SIZE"
      "addr_wf (linkaddr_node_addr s)" "mac_pan_id s = IEEE802154_PANID"
    and d: "linkaddr_node_addr s ! 0 \<noteq> MASTER_TSCH_DISTRIBUTOR"
      "linkaddr_node_addr u ! 0 = MASTER_TSCH_DISTRIBUTOR \<longrightarrow> linkaddr_node_addr s ! 0 = MASTER_TSCH_COORDINATOR"
    and t: "unat (tsch_join_priority t) < 31"
    and u: "q_wf u" "\<not> tsch_locked u" "\<not> tsch_is_coordinator u" "tsch_queue_get_time_source u = None" "linkaddr_node_addr u \<noteq> []"
      "length (tsch_hopping_sequence u) = TSCH_HOPPING_SEQUENCE_MAX_LEN"
      "tsch_queue_get_nbr (linkaddr_node_addr s) u \<noteq> None \<or> memb_numfree (neighbor_memb u) \<noteq> 0"
  shows "\<exists>s' buf. tsch_packet_create_eb s = Some (57, Some (16, 18), s') \<and> tsch_packet_update_eb (packetbuf s') 57 18 t = Some (1, buf) \<and>
    (\<exists>u' n. tsch_associate f0 (Some (inp\<lparr> ip_payload := take 57 buf @ rest, ip_len := 57 \<rparr>)) timestamp u = Some (True, u') \<and>
      q_wf u' \<and> tsch_is_associated u' \<and> tsch_current_asn u' = tsch_current_asn t \<and> tsch_join_priority u' = tsch_join_priority t + 1 \<and>
      tsch_rank u' = tsch_rank s + 1 \<and> mac_pan_id u' = mac_pan_id s \<and>
      tsch_queue_get_time_source u' = Some n \<and> n_addr (nbr u' n) = linkaddr_node_addr s \<and>
      events u' = events u @ [EV_ASSOCIATED_TO_NETWORK])"
  using beacon_joins [OF assms, where ?f0.0 = f0 and inp = inp and rest = rest and timestamp = timestamp] by auto

definition mac_boot :: "linkaddr \<Rightarrow> mac_state" where
  "mac_boot a = net_state.extend (net_boot a)
     (mac_state.fields True True 0 0 0 0 tsch_default_timing_us (replicate TSCH_HOPPING_SEQUENCE_MAX_LEN 0) \<lparr> asn_val = 1, asn_ms1b_remainder = 0 \<rparr>
       linkaddr_null 0 0 0 0 1 False False 10 [] (ringbufindex_init TSCH_MAX_INCOMING_PACKETS) [] (ringbufindex_init TSCH_DEQUEUED_ARRAY_SIZE)
       0 \<lparr> ls4b = 0, ms1b = 0 \<rparr> 0 (replicate MAX_SEQNOS \<lparr> sq_sender = linkaddr_null, sq_timestamp = 0, sq_seqno = 0 \<rparr>) 0 0 [])"

lemma add_nbr_coordinator: "tsch_queue_add_nbr a s = (r, s') \<Longrightarrow> tsch_is_coordinator s' = tsch_is_coordinator s"
  by (auto simp: tsch_queue_add_nbr_def tsch_get_lock_def tsch_release_lock_def tsch_queue_backoff_reset_def set_nbr_def Let_def
      split: option.splits if_splits prod.splits)

lemma queue_init_time_source:
  assumes "qb_wf s" "memb_num (neighbor_memb s) = TSCH_QUEUE_MAX_NEIGHBOR_QUEUES" "memb_num (packet_memb s) = QUEUEBUF_NUM" "\<not> tsch_locked s"
  shows "tsch_queue_get_time_source (tsch_queue_init s) = None" "tsch_is_coordinator (tsch_queue_init s) = tsch_is_coordinator s"
proof -
  define s0 where "s0 = s\<lparr> neighbor_list := [], neighbor_memb := memb_init zero_neighbor (neighbor_memb s),
                 packet_memb := memb_init zero_packet (packet_memb s) \<rparr>"
  have w0: "q_wf s0" "\<not> tsch_locked s0"
    using assms qb_wf_cong [of s0 s] by (simp_all add: q_wf_def pools_wf_def nbrs_wf_def pkts_wf_def s0_def)
  obtain eb s1 where eb: "tsch_queue_add_nbr tsch_eb_address s0 = (eb, s1)" by fastforce
  define s2 where "s2 = s1\<lparr> n_eb := eb \<rparr>"
  note d1 = add_nbr_wf [OF w0(1) addr_wf_consts(3) w0(2) eb]
  have w2: "q_wf s2" "\<not> tsch_locked s2" "tsch_queue_get_time_source s2 = tsch_queue_get_time_source s1"
    using d1(1,2) q_wf_frame(1) [of s2 s1] time_source_cong(1) [of s2 s1] by (simp_all add: s2_def nbr_def fun_eq_iff)
  obtain bc s3 where bc: "tsch_queue_add_nbr tsch_broadcast_address s2 = (bc, s3)" by fastforce
  have i: "tsch_queue_init s = s3\<lparr> n_broadcast := bc \<rparr>"
    using eb bc by (simp add: tsch_queue_init_def Let_def flip: s0_def s2_def)
  have "tsch_queue_get_time_source s0 = None" by (simp add: tsch_queue_get_time_source_def s0_def)
  then have "tsch_queue_get_time_source s3 = None"
    using add_nbr_time_source [OF w0(1) addr_wf_consts(3) w0(2) eb] add_nbr_time_source [OF w2(1) addr_wf_consts(2) w2(2) bc] w2(3) by simp
  then show "tsch_queue_get_time_source (tsch_queue_init s) = None"
    unfolding i using time_source_cong(1) [of "s3\<lparr> n_broadcast := bc \<rparr>" s3] by (simp add: nbr_def fun_eq_iff)
  show "tsch_is_coordinator (tsch_queue_init s) = tsch_is_coordinator s"
    unfolding i using add_nbr_coordinator [OF eb] add_nbr_coordinator [OF bc] by (simp add: s2_def s0_def)
qed

lemma mac_boot_ok:
  "q_wf (mac_boot a)" "\<not> tsch_locked (mac_boot a)" "\<not> tsch_is_coordinator (mac_boot a)" "tsch_queue_get_time_source (mac_boot a) = None"
  "linkaddr_node_addr (mac_boot a) = a" "length (tsch_hopping_sequence (mac_boot a)) = 16" "memb_numfree (neighbor_memb (mac_boot a)) \<noteq> 0"
  "length (schedule_received (mac_boot a)) = 3" "length (packetbuf (mac_boot a)) = 96" "mac_pan_id (mac_boot a) = IEEE802154_PANID"
proof -
  have e: "bufmem (mac_boot a) = bufmem tsch_boot" "buframmem (mac_boot a) = buframmem tsch_boot" "neighbor_memb (mac_boot a) = neighbor_memb tsch_boot"
    "packet_memb (mac_boot a) = packet_memb tsch_boot" "neighbor_list (mac_boot a) = neighbor_list tsch_boot" "\<not> tsch_locked (mac_boot a)"
    "tsch_is_coordinator (mac_boot a) = tsch_is_coordinator tsch_boot" "packetbuf (mac_boot a) = packetbuf tsch_boot"
    using tsch_boot_wf(3) by (simp_all add: mac_boot_def net_state.defs net_boot_def sched_state.defs sched_boot_def tsch_schedule_init_def
        tsch_get_lock_def tsch_release_lock_def sched_zero_def tsch_state.extend_def mac_state.defs)
  have z: "qb_wf (queuebuf_init tsch_zero)" "memb_num (neighbor_memb (queuebuf_init tsch_zero)) = TSCH_QUEUE_MAX_NEIGHBOR_QUEUES"
    "memb_num (packet_memb (queuebuf_init tsch_zero)) = QUEUEBUF_NUM" "\<not> tsch_locked (queuebuf_init tsch_zero)"
    "\<not> tsch_is_coordinator (queuebuf_init tsch_zero)"
  proof -
    have m: "memb_num (bufmem tsch_zero) = QUEUEBUF_NUM" "memb_num (buframmem tsch_zero) = QUEUEBUF_NUM"
      by (simp_all add: tsch_zero_def qbuf_state.extend_def qbuf_zero_def memb_num_def)
    show "qb_wf (queuebuf_init tsch_zero)" by (rule queuebuf_init_wf(1) [OF m])
  qed (simp_all add: tsch_zero_def qbuf_state.extend_def memb_num_def queuebuf_init_def)
  note i = queue_init_time_source [OF z(1-4), folded tsch_boot_def]
  show "q_wf (mac_boot a)" using q_wf_frame(1) [OF e(1-5)] tsch_boot_wf(1) by simp
  show "tsch_queue_get_time_source (mac_boot a) = None"
    using i(1) time_source_cong(1) [of "mac_boot a" tsch_boot] e tsch_boot_wf(3) by (simp add: nbr_def fun_eq_iff)
  show "\<not> tsch_locked (mac_boot a)" "\<not> tsch_is_coordinator (mac_boot a)" using e i(2) z(5) by simp_all
  show "length (packetbuf (mac_boot a)) = 96" using e(8) tsch_boot_wf(2) by (simp add: pb_wf_def)
  show "linkaddr_node_addr (mac_boot a) = a" "length (tsch_hopping_sequence (mac_boot a)) = 16" "length (schedule_received (mac_boot a)) = 3"
     "mac_pan_id (mac_boot a) = IEEE802154_PANID"
    by (simp_all add: mac_boot_def net_state.defs net_boot_def sched_state.defs mac_state.defs)
  show "memb_numfree (neighbor_memb (mac_boot a)) \<noteq> 0" using e(3) tsch_queue_init_wf(12) [OF z(1-4), folded tsch_boot_def] by simp
qed

theorem beacon_joins_network_witness:
  "\<exists>s' buf. tsch_packet_create_eb ((mac_boot [8, 0, 0, 0, 0, 0, 0, 2])\<lparr> tsch_is_coordinator := True \<rparr>) = Some (57, Some (16, 18), s') \<and>
    tsch_packet_update_eb (packetbuf s') 57 18 ((mac_boot linkaddr_null)\<lparr> tsch_join_priority := 0 \<rparr>) = Some (1, buf) \<and>
    (\<exists>u'. tsch_associate zero_frame
        (Some \<lparr> ip_payload = take 57 buf @ [0], ip_rx_asn = \<lparr> ls4b = 0, ms1b = 0 \<rparr>, ip_len = 57, ip_rssi = 0, ip_channel = 26 \<rparr>) 0
        (mac_boot [3, 0, 0, 0, 0, 0, 0, 2]) = Some (True, u') \<and>
      tsch_is_associated u' \<and> tsch_join_priority u' = 1)"
proof -
  let ?s = "(mac_boot [8, 0, 0, 0, 0, 0, 0, 2])\<lparr> tsch_is_coordinator := True \<rparr>"
  let ?t = "(mac_boot linkaddr_null)\<lparr> tsch_join_priority := 0 \<rparr>"
  let ?u = "mac_boot [3, 0, 0, 0, 0, 0, 0, 2]"
  let ?z = "\<lparr> ip_payload = [], ip_rx_asn = \<lparr> ls4b = 0, ms1b = 0 \<rparr>, ip_len = 0, ip_rssi = 0, ip_channel = 26 \<rparr>"
  have "eb_time_source ?s = Some 8" by (simp add: eb_time_source_def nth_opt_def mac_boot_ok)
  from beacon_joins_network [where ?s = ?s and ts = 8 and u = ?u and t = ?t and ?f0.0 = zero_frame and inp = ?z and rest = "[0]" and timestamp = 0, OF this] show ?thesis
    by (fastforce simp: mac_boot_ok addr_wf_def)
qed

end
