(* ===== verification/NextLink.thy ===== *)
theory NextLink
  imports TschScheduleProps
begin

text \<open>
  Correctness of \<open>tsch_schedule_get_next_active_link\<close>: the two nested loops find, among the links of all
  slotframes, one whose next occurrence after the given absolute slot number is the earliest, with ties
  broken in favour of transmission links and then of the lowest slotframe handle.
\<close>

subsection \<open>When a link fires\<close>

definition fires :: "'a sched_state_scheme \<Rightarrow> tsch_asn_t \<Rightarrow> int \<Rightarrow> nat \<Rightarrow> bool" where
  "fires s asn t l \<longleftrightarrow> (\<exists>f \<in> set (slotframe_list s). l \<in> set (sf_links (sfr s f)) \<and>
     (asn_int asn + t) mod uint (asn_val (sf_size (sfr s f))) = uint (l_timeslot (lnk s l)))"

definition link_time :: "'a sched_state_scheme \<Rightarrow> tsch_asn_t \<Rightarrow> nat \<Rightarrow> nat \<Rightarrow> u16" where
  "link_time s asn f l =
     time_to_timeslot (asn_val (sf_size (sfr s f))) (TSCH_ASN_MOD asn (sf_size (sfr s f))) (l_timeslot (lnk s l))"

lemma uint_sub16: "uint (b :: u16) \<le> uint a \<Longrightarrow> uint (a - b) = uint a - uint b"
  by (simp add: uint_sub_if')

lemma uint_time_to_timeslot:
  assumes "m < v" "lt < v"
  shows "uint (time_to_timeslot v m lt) = (if uint lt > uint m then uint lt - uint m else uint v + uint lt - uint m)"
proof (cases "lt > m")
  case True
  then show ?thesis by (simp add: time_to_timeslot_def word_less_def uint_sub16)
next
  case False
  then have le: "uint lt \<le> uint m" by (simp add: word_less_def)
  have a: "uint (m - lt) = uint m - uint lt" using le by (rule uint_sub16)
  have "uint (m - lt) \<le> uint v" unfolding a using assms(1) uint_ge_0 [of lt] unfolding word_less_def by linarith
  then have u: "uint (v - (m - lt)) = uint v - (uint m - uint lt)" unfolding a [symmetric] by (rule uint_sub16)
  have t: "time_to_timeslot v m lt = v - (m - lt)" using False by (simp add: time_to_timeslot_def algebra_simps)
  have nl: "\<not> uint m < uint lt" using le by simp
  show ?thesis unfolding t u if_not_P [OF nl] by simp
qed

text \<open>The distance to a time slot is the first positive time at which it comes round.\<close>

lemma first_occurrence:
  fixes a v lt :: int
  assumes v: "0 < v" "0 \<le> lt" "lt < v"
  defines "m \<equiv> a mod v"
  defines "T \<equiv> (if lt > m then lt - m else v + lt - m)"
  shows "0 < T" "(a + T) mod v = lt" "\<And>t. 0 < t \<Longrightarrow> (a + t) mod v = lt \<Longrightarrow> T \<le> t"
proof -
  have m: "0 \<le> m" "m < v" using v(1) by (simp_all add: m_def)
  show T: "0 < T" using m v by (simp add: T_def)
  have e: "(a + x) mod v = (m + x) mod v" for x by (simp add: m_def mod_add_left_eq)
  show mt: "(a + T) mod v = lt" unfolding e T_def using v m by simp
  fix t assume t: "0 < t" "(a + t) mod v = lt"
  show "T \<le> t"
  proof (rule ccontr)
    assume "\<not> T \<le> t"
    then have d: "0 < T - t" "T - t < v" using t(1) m v by (auto simp: T_def split: if_splits)
    have "(a + T) mod v = (a + t) mod v" using mt t(2) by simp
    then have "v dvd (a + T) - (a + t)" by (simp only: mod_eq_dvd_iff)
    then have "v dvd T - t" by simp
    then show False using d zdvd_not_zless by blast
  qed
qed

lemma link_time_first:
  assumes w: "sc_wf s" "f \<in> set (slotframe_list s)" "l \<in> set (sf_links (sfr s f))"
  defines "v \<equiv> uint (asn_val (sf_size (sfr s f)))" and "lt \<equiv> uint (l_timeslot (lnk s l))"
  shows "0 < uint (link_time s asn f l)" "(asn_int asn + uint (link_time s asn f l)) mod v = lt"
    "0 < t \<Longrightarrow> (asn_int asn + t) mod v = lt \<Longrightarrow> uint (link_time s asn f l) \<le> t"
proof -
  let ?v = "asn_val (sf_size (sfr s f))" and ?m = "TSCH_ASN_MOD asn (sf_size (sfr s f))"
  note sf = sc_wfD(6) [OF w(1,2)]
  have nz: "?v \<noteq> 0" by (rule sf_wfD(1) [OF sf])
  have m: "uint ?m = asn_int asn mod v" using asn_mod_exact [OF nz, of asn] sf_wfD(2) [OF sf] by (simp add: v_def)
  have v: "0 < v" unfolding v_def by (rule uint_pos [OF nz])
  have lt: "l_timeslot (lnk s l) < ?v" using sf_wfD(4) [OF sf] w(3) by (auto simp: link_wf_def)
  have mv: "?m < ?v" unfolding word_less_def m using v by (simp add: v_def)
  have u: "uint (link_time s asn f l) = (if lt > asn_int asn mod v then lt - asn_int asn mod v else v + lt - asn_int asn mod v)"
    using uint_time_to_timeslot [OF mv lt] by (simp add: link_time_def lt_def v_def m [unfolded v_def])
  have b: "0 \<le> lt" "lt < v" using lt by (simp_all add: lt_def v_def word_less_def)
  show "0 < uint (link_time s asn f l)" "(asn_int asn + uint (link_time s asn f l)) mod v = lt"
    unfolding u using first_occurrence(1,2) [OF v b, of "asn_int asn"] by blast+
  show "0 < t \<Longrightarrow> (asn_int asn + t) mod v = lt \<Longrightarrow> uint (link_time s asn f l) \<le> t"
    unfolding u by (rule first_occurrence(3) [OF v b])
qed

subsection \<open>The search\<close>

definition tx_option :: "'a sched_state_scheme \<Rightarrow> nat \<Rightarrow> u8" where
  "tx_option s l = l_link_options (lnk s l) AND LINK_OPTION_TX"

definition preferred :: "'a sched_state_scheme \<Rightarrow> nat \<Rightarrow> nat \<Rightarrow> bool" where
  "preferred s b l \<longleftrightarrow>
     (if tx_option s b = tx_option s l then l_slotframe_handle (lnk s b) \<le> l_slotframe_handle (lnk s l)
      else tx_option s b \<noteq> 0)"

lemma tx_option_cases: "tx_option s l = 0 \<or> tx_option s l = 1"
  unfolding tx_option_def LINK_OPTION_TX_def and_one_eq by (simp add: mod2_eq_if)

lemma preferred_refl [simp]: "preferred s b b" by (simp add: preferred_def)

lemma preferred_trans: "preferred s a b \<Longrightarrow> preferred s b c \<Longrightarrow> preferred s a c"
  using tx_option_cases [of s a] tx_option_cases [of s b] tx_option_cases [of s c]
  by (auto simp: preferred_def split: if_splits)

definition best_inv :: "'a sched_state_scheme \<Rightarrow> tsch_asn_t \<Rightarrow> (nat \<times> nat) set \<Rightarrow> best_link \<Rightarrow> bool" where
  "best_inv s asn P acc \<longleftrightarrow>
     (case curr_best acc of
        None \<Rightarrow> P = {} \<and> curr_backup acc = None
      | Some b \<Rightarrow> (\<exists>f. (f, b) \<in> P \<and> link_time s asn f b = time_to_curr_best acc) \<and>
          (\<forall>(g, l) \<in> P. time_to_curr_best acc \<le> link_time s asn g l \<and>
             (link_time s asn g l = time_to_curr_best acc \<longrightarrow> preferred s b l)) \<and>
          (\<forall>k. curr_backup acc = Some k \<longrightarrow>
             (\<exists>g. (g, k) \<in> P \<and> link_time s asn g k = time_to_curr_best acc) \<and>
             l_link_options (lnk s k) AND LINK_OPTION_RX \<noteq> 0))"

lemma overlap_step_spec:
  "curr_best (overlap_step s best l acc) = Some best \<and> preferred s best l \<or>
   curr_best (overlap_step s best l acc) = Some l \<and> preferred s l best"
  if "curr_best acc = Some best"
  using that tx_option_cases [of s best] tx_option_cases [of s l]
  by (auto simp: overlap_step_def Let_def preferred_def tx_option_def)

lemma overlap_step_rest:
  "time_to_curr_best (overlap_step s best l acc) = time_to_curr_best acc"
  "curr_backup (overlap_step s best l acc) = Some k \<Longrightarrow> curr_backup acc = Some k \<or>
     (k = l \<or> k = best) \<and> l_link_options (lnk s k) AND LINK_OPTION_RX \<noteq> 0"
  by (auto simp: overlap_step_def Let_def split: if_splits)

lemma link_step_inv:
  fixes f l :: nat
  assumes i: "best_inv s asn P acc"
  defines "acc' \<equiv> link_step s (asn_val (sf_size (sfr s f))) (TSCH_ASN_MOD asn (sf_size (sfr s f))) l acc"
  shows "best_inv s asn (insert (f, l) P) acc'"
proof (cases "curr_best acc")
  case None
  then show ?thesis using i by (simp add: acc'_def best_inv_def link_step_def Let_def link_time_def)
next
  case (Some b)
  let ?t = "link_time s asn f l" and ?T = "time_to_curr_best acc"
  have e: "acc' = (if ?t < ?T then \<lparr> curr_best = Some l, time_to_curr_best = ?t, curr_backup = None \<rparr>
      else if ?t = ?T then overlap_step s b l acc else acc)"
    using Some by (simp add: acc'_def link_step_def Let_def link_time_def)
  obtain g where g: "(g, b) \<in> P" "link_time s asn g b = ?T" using i Some by (auto simp: best_inv_def)
  have all: "?T \<le> link_time s asn h k" "link_time s asn h k = ?T \<Longrightarrow> preferred s b k" if "(h, k) \<in> P" for h k
    using i Some that by (auto simp: best_inv_def)
  have bk: "(\<exists>g. (g, k) \<in> P \<and> link_time s asn g k = ?T) \<and> l_link_options (lnk s k) AND LINK_OPTION_RX \<noteq> 0"
    if "curr_backup acc = Some k" for k using i Some that by (auto simp: best_inv_def)
  consider "?t < ?T" | "?t = ?T" | "?T < ?t" by fastforce
  then show ?thesis
  proof cases
    case 1
    then have "acc' = \<lparr> curr_best = Some l, time_to_curr_best = ?t, curr_backup = None \<rparr>" using e by simp
    moreover have "?t \<le> link_time s asn h k \<and> link_time s asn h k \<noteq> ?t" if "(h, k) \<in> P" for h k
      using all(1) [OF that] 1 by auto
    ultimately show ?thesis by (auto simp: best_inv_def)
  next
    case 2
    then have a: "acc' = overlap_step s b l acc" using e by simp
    have T: "time_to_curr_best acc' = ?T" unfolding a by (rule overlap_step_rest)
    have K: "(\<exists>g. (g, k) \<in> insert (f, l) P \<and> link_time s asn g k = ?T) \<and> l_link_options (lnk s k) AND LINK_OPTION_RX \<noteq> 0"
      if "curr_backup acc' = Some k" for k
      using overlap_step_rest(2) [OF that [unfolded a]] bk g 2 by blast
    from overlap_step_spec [OF Some, of s l] show ?thesis unfolding a [symmetric]
    proof (elim disjE conjE)
      assume "curr_best acc' = Some b" "preferred s b l"
      then show ?thesis using T K g all 2 by (auto simp: best_inv_def)
    next
      assume "curr_best acc' = Some l" "preferred s l b"
      then show ?thesis using T K all 2 preferred_trans [of s l b] by (auto simp: best_inv_def)
    qed
  next
    case 3
    then have "acc' = acc" using e by auto
    then show ?thesis using Some g all bk 3 by (auto simp: best_inv_def)
  qed
qed

lemma slotframe_step_inv:
  assumes "best_inv s asn P acc"
  shows "best_inv s asn (P \<union> Pair f ` set (sf_links (sfr s f))) (slotframe_step s asn f acc)"
proof -
  have "best_inv s asn (P \<union> Pair f ` set ls)
      (fold (link_step s (asn_val (sf_size (sfr s f))) (TSCH_ASN_MOD asn (sf_size (sfr s f)))) ls acc)" for ls
    using assms
  proof (induction ls arbitrary: acc P)
    case (Cons l ls)
    show ?case using Cons.IH [OF link_step_inv [OF Cons.prems, of f l]] by (simp add: insert_commute)
  qed simp
  then show ?thesis by (simp add: slotframe_step_def)
qed

lemma slotframes_inv:
  assumes "best_inv s asn P acc"
  shows "best_inv s asn (P \<union> (\<Union>f \<in> set fs. Pair f ` set (sf_links (sfr s f)))) (fold (slotframe_step s asn) fs acc)"
  using assms
proof (induction fs arbitrary: acc P)
  case (Cons f fs)
  show ?case using Cons.IH [OF slotframe_step_inv [OF Cons.prems, of f]] by (simp add: Un_assoc)
qed simp

lemma next_active_link_inv:
  assumes "\<not> tsch_locked s" "tsch_schedule_get_next_active_link asn s = (best, off, backup)"
  shows "\<exists>t. off = Some t \<and> best_inv s asn (\<Union>f \<in> set (slotframe_list s). Pair f ` set (sf_links (sfr s f)))
    \<lparr> curr_best = best, time_to_curr_best = t, curr_backup = backup \<rparr>"
proof -
  let ?a = "\<lparr> curr_best = None, time_to_curr_best = 0, curr_backup = None \<rparr>"
  define acc where "acc = fold (slotframe_step s asn) (slotframe_list s) ?a"
  have "best_inv s asn {} ?a" by (simp add: best_inv_def)
  from slotframes_inv [OF this, of "slotframe_list s"]
  have i: "best_inv s asn (\<Union>f \<in> set (slotframe_list s). Pair f ` set (sf_links (sfr s f))) acc"
    by (simp add: acc_def)
  have "best = curr_best acc" "off = Some (time_to_curr_best acc)" "backup = curr_backup acc"
    using assms by (auto simp: tsch_schedule_get_next_active_link_def tsch_is_locked_def acc_def Let_def)
  then show ?thesis using i by (cases acc) simp
qed

lemma next_active_link_spec:
  assumes w: "sched_wf s" "\<not> tsch_locked s" and r: "tsch_schedule_get_next_active_link asn s = (best, off, backup)"
  shows "case best of
      None \<Rightarrow> (\<forall>f \<in> set (slotframe_list s). sf_links (sfr s f) = []) \<and> backup = None
    | Some b \<Rightarrow> \<exists>t. off = Some t \<and> 0 < uint t \<and> fires s asn (uint t) b \<and>
        (\<forall>t' l. 0 < t' \<and> fires s asn t' l \<longrightarrow> uint t \<le> t') \<and>
        (\<forall>l. fires s asn (uint t) l \<longrightarrow> preferred s b l) \<and>
        (\<forall>k. backup = Some k \<longrightarrow> fires s asn (uint t) k \<and> l_link_options (lnk s k) AND LINK_OPTION_RX \<noteq> 0)"
proof -
  have sc: "sc_wf s" using w(1) by (simp add: sched_wf_def)
  obtain t where t: "off = Some t" and i: "best_inv s asn (\<Union>f \<in> set (slotframe_list s). Pair f ` set (sf_links (sfr s f)))
      \<lparr> curr_best = best, time_to_curr_best = t, curr_backup = backup \<rparr>"
    using next_active_link_inv [OF w(2) r] by blast
  note lt = link_time_first [OF sc]
  show ?thesis
  proof (cases best)
    case None
    then show ?thesis using i by (auto simp: best_inv_def)
  next
    case (Some b)
    have min: "t \<le> link_time s asn g l" "link_time s asn g l = t \<Longrightarrow> preferred s b l"
      if "g \<in> set (slotframe_list s)" "l \<in> set (sf_links (sfr s g))" for g l
      using i that by (auto simp: best_inv_def Some)
    obtain f where f: "f \<in> set (slotframe_list s)" "b \<in> set (sf_links (sfr s f))" "link_time s asn f b = t"
      using i by (auto simp: best_inv_def Some)
    have fi: "fires s asn (uint t) l" if "g \<in> set (slotframe_list s)" "l \<in> set (sf_links (sfr s g))" "link_time s asn g l = t" for g l
      using lt(2) [OF that(1,2)] that by (auto simp: fires_def)
    have "0 < uint t" using lt(1) [OF f(1,2), of asn] f(3) by simp
    moreover have "uint t \<le> t'" if p: "0 < t'" "fires s asn t' l" for t' l
    proof -
      obtain g where g: "g \<in> set (slotframe_list s)" "l \<in> set (sf_links (sfr s g))"
        "(asn_int asn + t') mod uint (asn_val (sf_size (sfr s g))) = uint (l_timeslot (lnk s l))"
        using p(2) by (auto simp: fires_def)
      show ?thesis using lt(3) [OF g(1,2) p(1) g(3)] min(1) [OF g(1,2)] by (simp add: word_le_def)
    qed
    moreover have "preferred s b l" if p: "fires s asn (uint t) l" for l
    proof -
      obtain g where g: "g \<in> set (slotframe_list s)" "l \<in> set (sf_links (sfr s g))"
        "(asn_int asn + uint t) mod uint (asn_val (sf_size (sfr s g))) = uint (l_timeslot (lnk s l))"
        using p by (auto simp: fires_def)
      have "link_time s asn g l = t"
        using lt(3) [OF g(1,2) \<open>0 < uint t\<close> g(3)] min(1) [OF g(1,2)] by (simp add: word_le_def word_uint_eq_iff)
      then show ?thesis using min(2) [OF g(1,2)] by blast
    qed
    moreover have "fires s asn (uint t) k \<and> l_link_options (lnk s k) AND LINK_OPTION_RX \<noteq> 0" if "backup = Some k" for k
      using i that fi by (auto simp: best_inv_def Some)
    ultimately show ?thesis using t fi [OF f] Some by auto
  qed
qed

text \<open>
  C11. On a consistent, unlocked schedule \<open>tsch_schedule_get_next_active_link\<close> returns no link exactly when
  no slotframe has one; otherwise the returned offset is the smallest positive number of slots after
  which any link of any slotframe is due, the returned link is due then, among the links due then it is
  a transmission link if there is one and has the lowest slotframe handle among its kind, and the
  backup link, when there is one, is due at the same slot and has the receive option.
\<close>

theorem next_active_link_correct:
  assumes "sched_wf s" "\<not> tsch_locked s" "tsch_schedule_get_next_active_link asn s = (best, off, backup)"
  shows "case best of
      None \<Rightarrow> (\<forall>f \<in> set (slotframe_list s). sf_links (sfr s f) = []) \<and> backup = None
    | Some b \<Rightarrow> \<exists>t. off = Some t \<and> 0 < uint t \<and> fires s asn (uint t) b \<and>
        (\<forall>t' l. 0 < t' \<and> fires s asn t' l \<longrightarrow> uint t \<le> t') \<and>
        (\<forall>l. fires s asn (uint t) l \<longrightarrow> preferred s b l) \<and>
        (\<forall>k. backup = Some k \<longrightarrow> fires s asn (uint t) k \<and> l_link_options (lnk s k) AND LINK_OPTION_RX \<noteq> 0)"
  using assms by (rule next_active_link_spec)

text \<open>A schedule with one link, built by the operations.\<close>

lemma one_link_schedule:
  obtains s :: sched_state where "sched_wf s" "\<not> tsch_locked s"
    "asched s = [4 \<mapsto> (31, [5 \<mapsto> (opts, LINK_TYPE_NORMAL, [3, 0, 0, 0, 0, 0, 0, 0], 2)])]"
proof -
  let ?a = "Some [3, 0, 0, 0, 0, 0, 0, 0]"
  obtain f and s :: sched_state where s: "tsch_schedule_get_slotframe_by_handle 4 s = Some f" "sched_wf s"
    "asched s = [4 \<mapsto> (31, Map.empty)]" "memb_used (link_memb s) = {}" by (rule boot_slotframe)
  note g = get_slotframe_Some [OF s(1)]
  have sc: "sc_wf s" using s(2) by (simp add: sched_wf_def)
  have at: "asn_val (sf_size (sfr s f)) = 31" "cells s f = Map.empty" using asched_at [OF sc g(1)] g(2) s(3) by auto
  have a: "addr_wf (link_addr ?a)" by (simp add: link_addr_def addr_wf_def)
  obtain r :: "nat option" and s' :: sched_state where s': "sched_wf s'" "\<not> tsch_locked s'"
    "r \<noteq> None \<longleftrightarrow> 5 < asn_val (sf_size (sfr s f)) \<and> (2 :: u16) \<le> 15 \<and>
       (cells s f 5 \<noteq> None \<or> memb_used (link_memb s) \<noteq> {..<memb_num (link_memb s)})"
    "asched s' = (if r \<noteq> None then (asched s)(sf_handle (sfr s f) \<mapsto>
        (asn_val (sf_size (sfr s f)), (cells s f)(5 \<mapsto> (opts, LINK_TYPE_NORMAL, link_addr ?a, 2)))) else asched s)"
    using add_link_ok [OF s(2) g(3,1) a, of opts LINK_TYPE_NORMAL 5 2] by metis
  have "({} :: nat set) \<noteq> {..<110}" by (rule empty_neq_lessThan) simp
  then have "r \<noteq> None" using s'(3) at s(4) sc_wfD(11) [OF sc] by simp
  then show ?thesis using that [of s'] s'(1,2,4) at g(2) s(3) by (simp add: link_addr_def)
qed

theorem next_active_link_correct_witness:
  "\<exists>(s :: sched_state) b t k. tsch_schedule_get_next_active_link \<lparr> ls4b = 7, ms1b = 0 \<rparr> s = (Some b, Some t, k) \<and>
     fires s \<lparr> ls4b = 7, ms1b = 0 \<rparr> (uint t) b"
proof -
  let ?asn = "\<lparr> ls4b = 7, ms1b = 0 \<rparr>"
  obtain s :: sched_state where s: "sched_wf s" "\<not> tsch_locked s"
    "asched s = [4 \<mapsto> (31, [5 \<mapsto> (1, LINK_TYPE_NORMAL, [3, 0, 0, 0, 0, 0, 0, 0], 2)])]" by (rule one_link_schedule)
  obtain best off backup where r: "tsch_schedule_get_next_active_link ?asn s = (best, off, backup)" by (metis prod_cases3)
  have "asched s 4 \<noteq> None" "snd (the (asched s 4)) 5 \<noteq> None" using s(3) by simp_all
  then obtain f where "f \<in> set (slotframe_list s)" "cells s f 5 \<noteq> None"
    using find_Some_iff2 [of "\<lambda>f. sf_handle (sfr s f) = 4" "slotframe_list s"]
    by (cases "find (\<lambda>f. sf_handle (sfr s f) = 4) (slotframe_list s)") (auto simp: asched_def)
  then have "\<not> (\<forall>f \<in> set (slotframe_list s). sf_links (sfr s f) = [])"
    using cells_find [of s f 5] by force
  then show ?thesis using next_active_link_correct [OF s(1,2) r] r by (cases best) auto
qed

subsection \<open>Two flaws\<close>

text \<open>
  The backup link can be the best link itself. When the links of two slotframes are due at the same
  slot, the first one is kept as the best and it has the receive option, \<open>curr_backup\<close> is set to that
  same link, although the comment asks for another link to fall back to; a receive link of the second
  slotframe is then not used as backup.
\<close>

theorem backup_link_is_best:
  assumes s: "\<not> tsch_locked s" "slotframe_list s = [f, g]" "sf_links (sfr s f) = [b]" "sf_links (sfr s g) = [l]"
    and t: "link_time s asn g l = link_time s asn f b"
    and p: "preferred s b l" "l_link_options (lnk s b) AND LINK_OPTION_RX \<noteq> 0" "b \<noteq> l"
  shows "tsch_schedule_get_next_active_link asn s = (Some b, Some (link_time s asn f b), Some b)"
proof -
  have "overlap_step s b l \<lparr> curr_best = Some b, time_to_curr_best = t, curr_backup = None \<rparr> =
      \<lparr> curr_best = Some b, time_to_curr_best = t, curr_backup = Some b \<rparr>" for t
    using p tx_option_cases [of s b] tx_option_cases [of s l]
    by (auto simp: overlap_step_def Let_def preferred_def tx_option_def split: if_splits)
  then show ?thesis using s t
    by (simp add: tsch_schedule_get_next_active_link_def tsch_is_locked_def slotframe_step_def link_step_def Let_def link_time_def)
qed

definition overlap_example :: sched_state where
  "overlap_example = sched_zero
     \<lparr> link_memb := \<lparr> m_count = [1, 1], m_mem = [zero_link\<lparr> l_slotframe_handle := 1, l_link_options := 3 \<rparr>,
         zero_link\<lparr> l_slotframe_handle := 2, l_link_options := 2 \<rparr>] \<rparr>,
       slotframe_memb := \<lparr> m_count = [1, 1],
         m_mem = [\<lparr> sf_handle = 1, sf_size = TSCH_ASN_DIVISOR_INIT 7, sf_links = [0] \<rparr>,
                  \<lparr> sf_handle = 2, sf_size = TSCH_ASN_DIVISOR_INIT 7, sf_links = [1] \<rparr>] \<rparr>,
       slotframe_list := [0, 1], tsch_locked := False \<rparr>"

theorem backup_link_is_best_witness:
  "\<exists>t. tsch_schedule_get_next_active_link \<lparr> ls4b = 7, ms1b = 0 \<rparr> overlap_example = (Some 0, Some t, Some 0)"
proof -
  have "\<not> tsch_locked overlap_example" "slotframe_list overlap_example = [0, 1]" "sf_links (sfr overlap_example 0) = [0]"
    "sf_links (sfr overlap_example 1) = [1]"
    "link_time overlap_example \<lparr> ls4b = 7, ms1b = 0 \<rparr> 1 1 = link_time overlap_example \<lparr> ls4b = 7, ms1b = 0 \<rparr> 0 0"
    "preferred overlap_example 0 1" "l_link_options (lnk overlap_example 0) AND LINK_OPTION_RX \<noteq> 0"
    by (simp_all add: overlap_example_def sfr_def lnk_def link_time_def preferred_def tx_option_def zero_link_def)
  from backup_link_is_best [OF this] show ?thesis by simp
qed

text \<open>
  The link counters of the queues are not kept in sync. With flow-based queues
  \<open>tsch_schedule_add_link\<close> counts a transmission link at the entry of the flow address, but
  \<open>tsch_schedule_remove_link\<close> counts it off at the entry of the link's own address: removing a dedicated
  transmission link whose address has no entry creates one (while the pool lasts) whose 8-bit counters
  have wrapped to 255, and the flow's entry keeps its count.
\<close>

theorem remove_link_counter_wraps:
  assumes w: "sched_wf s" "\<not> tsch_locked s" "f \<in> set (slotframe_list s)" "l \<in> set (sf_links (sfr s f))"
    and l: "l_link_options (lnk s l) = LINK_OPTION_TX" "l_addr (lnk s l) = a"
    and n: "tsch_queue_get_nbr a s = None" "memb_numfree (neighbor_memb s) \<noteq> 0"
  shows "\<exists>s' n. tsch_schedule_remove_link (Some f) (Some l) s = (True, s') \<and> tsch_queue_get_nbr a s' = Some n \<and>
    n_tx_links_count (nbr s' n) = 255 \<and> n_dedicated_tx_links_count (nbr s' n) = 255 \<and>
    (\<forall>k \<in> set (neighbor_list s). nbr s' k = nbr s k)"
proof -
  have ww: "q_wf s" "sc_wf s" using w(1) by (simp_all add: sched_wf_def)
  have lw: "link_wf (sfr s f) (lnk s l)" using sf_wfD(4) [OF sc_wfD(6) [OF ww(2) w(3)]] w(4) by blast
  have a: "addr_wf a" using lw l(2) by (simp add: link_wf_def)
  define t where "t = s\<lparr> tsch_in_slot_operation := False, tsch_lock_requested := False,
     current_link := (if current_link s = Some l then None else current_link s),
     slotframe_memb := memb_put (slotframe_memb s) f ((sfr s f)\<lparr> sf_links := remove1 l (sf_links (sfr s f)) \<rparr>),
     link_memb := snd (memb_free (link_memb s) l), tsch_locked := False \<rparr>"
  have q: "q_wf t" "\<not> tsch_locked t" "nbr t = nbr s" using ww(1) q_wf_frame(1,2) [of t s] by (simp_all add: t_def)
  have r: "tsch_schedule_remove_link (Some f) (Some l) s = (True, count_tx_link (- 1) LINK_OPTION_TX a t)"
    using w(2) lw l by (simp add: tsch_schedule_remove_link_def tsch_get_lock_def tsch_release_lock_def Let_def link_wf_def
        set_sfr_def lnk_def sfr_def t_def)
  obtain x s1 where x: "tsch_queue_add_nbr a t = (x, s1)" by fastforce
  note ad = add_nbr_wf [OF q(1) a q(2) x]
  have nt: "tsch_queue_get_nbr a t = None" "memb_numfree (neighbor_memb t) \<noteq> 0" "neighbor_list t = neighbor_list s"
    using n time_source_cong(2) [of t s a] q w(2) by (simp_all add: t_def)
  then obtain m where m: "x = Some m" using ad(12) by (cases x) auto
  have m': "m \<in> set (neighbor_list s1)" "m \<notin> set (neighbor_list t)" "n_addr (nbr s1 m) = a"
    using ad(8,9,10) [of m] m get_nbr_None [OF nt(1) q(2), of m] by auto
  then have fr: "nbr s1 m = fresh_nbr a" using ad(11) m by blast
  let ?x = "(nbr s1 m)\<lparr> n_tx_links_count := - 1, n_dedicated_tx_links_count := - 1 \<rparr>"
  let ?s = "set_nbr m ?x s1"
  have c: "count_tx_link (- 1) LINK_OPTION_TX a t = ?s"
    using x m fr by (simp add: count_tx_link_def fresh_nbr_def zero_neighbor_def)
  have qs: "q_wf ?s" "\<not> tsch_locked ?s" using count_tx_link_wf(1,2) [OF q(1,2) a, of "- 1" LINK_OPTION_TX] unfolding c by auto
  have nb: "nbr ?s k = (if k = m then ?x else nbr s1 k)" for k using q_wfD(7) [OF ad(1) m'(1)] by (simp add: nbr_set_nbr)
  have "tsch_queue_get_nbr a ?s = Some m" using get_nbr_iff [OF qs(1) a qs(2)] m' nb [of m] by simp
  moreover have "nbr ?s k = nbr s k" if "k \<in> set (neighbor_list s)" for k
    using that m'(2) nt(3) ad(8) [of k] q(3) nb [of k] by auto
  ultimately show ?thesis using r nb [of m] unfolding c by auto
qed

definition counter_example :: sched_state where
  "counter_example = sched_boot
     \<lparr> neighbor_list := [], neighbor_memb := memb_init zero_neighbor (neighbor_memb sched_boot),
       packet_memb := memb_init zero_packet (packet_memb sched_boot),
       link_memb := \<lparr> m_count = 1 # replicate 109 0, m_mem =
         zero_link\<lparr> l_addr := [3, 0, 0, 0, 0, 0, 0, 0], l_slotframe_handle := 1, l_link_options := 1 \<rparr> # replicate 109 zero_link \<rparr>,
       slotframe_memb := \<lparr> m_count = 1 # replicate 8 0,
         m_mem = \<lparr> sf_handle = 1, sf_size = TSCH_ASN_DIVISOR_INIT 7, sf_links = [0] \<rparr> # replicate 8 zero_slotframe \<rparr>,
       slotframe_list := [0] \<rparr>"

lemma counter_example_wf: "sched_wf counter_example" "\<not> tsch_locked counter_example"
proof -
  have b: "q_wf sched_boot" "\<not> tsch_locked sched_boot" using sched_boot_wf(1,2) by (simp_all add: sched_wf_def)
  have n: "memb_num (neighbor_memb sched_boot) = TSCH_QUEUE_MAX_NEIGHBOR_QUEUES" "memb_num (packet_memb sched_boot) = QUEUEBUF_NUM"
    using b(1) by (simp_all add: q_wf_def pools_wf_def)
  have "q_wf counter_example"
    using n q_wfD(1) [OF b(1)] qb_wf_cong [of counter_example sched_boot]
    by (simp add: q_wf_def pools_wf_def nbrs_wf_def pkts_wf_def counter_example_def)
  moreover have u: "memb_used \<lparr> m_count = 1 # replicate n 0, m_mem = m \<rparr> = {0}" for n and m :: "'x list"
  proof -
    have "((1 :: u8) # replicate n 0) ! x \<noteq> 0 \<longleftrightarrow> x = 0" if "x < Suc n" for x using that by (cases x) auto
    then show ?thesis by (auto simp: memb_used_def)
  qed
  have "sc_wf counter_example"
    by (simp add: sc_wf_def counter_example_def memb_wf_def memb_num_def u sf_wf_def sfr_def lnk_def link_wf_def
        TSCH_ASN_DIVISOR_INIT_def addr_wf_def zero_link_def)
  ultimately show "sched_wf counter_example" by (simp add: sched_wf_def)
  show "\<not> tsch_locked counter_example" using b(2) by (simp add: counter_example_def)
qed

theorem remove_link_counter_wraps_witness:
  "\<exists>s' n. tsch_schedule_remove_link (Some 0) (Some 0) counter_example = (True, s') \<and>
     tsch_queue_get_nbr [3, 0, 0, 0, 0, 0, 0, 0] s' = Some n \<and> n_tx_links_count (nbr s' n) = 255"
proof -
  have n: "memb_num (neighbor_memb sched_boot) = TSCH_QUEUE_MAX_NEIGHBOR_QUEUES"
    using sched_boot_wf(1) by (simp add: sched_wf_def q_wf_def pools_wf_def)
  have "0 \<in> set (slotframe_list counter_example)" "0 \<in> set (sf_links (sfr counter_example 0))"
    "l_link_options (lnk counter_example 0) = LINK_OPTION_TX" "l_addr (lnk counter_example 0) = [3, 0, 0, 0, 0, 0, 0, 0]"
    "tsch_queue_get_nbr [3, 0, 0, 0, 0, 0, 0, 0] counter_example = None" "memb_numfree (neighbor_memb counter_example) \<noteq> 0"
    using n by (simp_all add: counter_example_def sfr_def lnk_def tsch_queue_get_nbr_def memb_numfree_used)
  from remove_link_counter_wraps [OF counter_example_wf this] show ?thesis by blast
qed

end
