(* ===== verification/SlotProps.thy ===== *)
theory SlotProps
  imports SlotOperation TschProps NextLink
begin

text \<open>
  Properties of the slot operation: channel hopping, the deadline test, the choice of the next slot, the packet that is
  sent in a slot, and what a transmission and a reception slot do to the queues.
\<close>

subsection \<open>Channel hopping\<close>

lemma channel_spec:
  assumes "tsch_hopping_sequence_length s = TSCH_ASN_DIVISOR_INIT v" "v \<noteq> 0" "unat v \<le> length (tsch_hopping_sequence s)"
  shows "tsch_calculate_channel asn off s = Some (tsch_hopping_sequence s ! nat ((asn_int asn + uint off) mod uint v))"
proof -
  have v: "0 < uint v" "asn_val (TSCH_ASN_DIVISOR_INIT v) = v" by (simp_all add: uint_pos assms(2) TSCH_ASN_DIVISOR_INIT_def)
  define m where "m = (asn_int asn + uint off) mod uint v"
  have m: "0 \<le> m" "m < uint v" using v(1) by (simp_all add: m_def)
  have "(uint (TSCH_ASN_MOD asn (TSCH_ASN_DIVISOR_INIT v)) + uint off) mod uint v = m"
    unfolding asn_mod_exact [OF assms(2)] m_def by (simp add: mod_add_left_eq)
  moreover have "m < 65536" using m(2) uint_bounds(2) [of v] by linarith
  then have "unat (word_of_int m :: u16) = nat m" using m(1) by (simp add: unsigned_of_int take_bit_int_eq_self)
  moreover have "nat m < length (tsch_hopping_sequence s)" using m assms(3) by (metis less_le_trans nat_less_iff uint_nat)
  ultimately show ?thesis using assms(2) by (simp add: tsch_calculate_channel_def assms(1) v(2) flip: m_def)
qed

lemma channels_visited:
  assumes "tsch_hopping_sequence_length s = TSCH_ASN_DIVISOR_INIT v" "v \<noteq> 0" "unat v \<le> length (tsch_hopping_sequence s)"
    and "asn_int asn + uint v \<le> 2 ^ 40"
  shows "(\<lambda>k. tsch_calculate_channel (TSCH_ASN_INC asn k) off s) ` {k. uint k < uint v} = Some ` set (take (unat v) (tsch_hopping_sequence s))"
proof -
  let ?h = "tsch_hopping_sequence s" and ?a = "asn_int asn"
  have v: "0 < uint v" "uint v < 65536" using uint_bounds(2) [of v] by (simp_all add: uint_pos assms(2))
  have c: "tsch_calculate_channel (TSCH_ASN_INC asn k) off s = Some (?h ! nat ((?a + uint k + uint off) mod uint v))" if "uint k < uint v" for k
    using that assms(4) asn_int_bounds [of asn] by (simp add: channel_spec [OF assms(1-3)] asn_int_INC)
  have im: "(\<lambda>k :: u32. nat ((?a + uint k + uint off) mod uint v)) ` {k. uint k < uint v} = {..<unat v}"
  proof (intro equalityI subsetI)
    fix i assume i: "i \<in> {..<unat v}"
    define k where "k = (int i - ?a - uint off) mod uint v"
    have k: "0 \<le> k" "k < uint v" using v by (simp_all add: k_def)
    then have u: "uint (word_of_int k :: u32) = k" using v by (simp add: unsigned_of_int take_bit_int_eq_self)
    have "int i < uint v" using i by (metis lessThan_iff of_nat_less_iff uint_nat)
    moreover have "(?a + k + uint off) mod uint v = int i mod uint v"
      unfolding k_def by (metis (no_types, opaque_lifting) add.assoc add.commute add_diff_cancel_left' diff_diff_eq diff_add_cancel mod_add_left_eq)
    ultimately have "nat ((?a + uint (word_of_int k :: u32) + uint off) mod uint v) = i" unfolding u by simp
    then show "i \<in> (\<lambda>k :: u32. nat ((?a + uint k + uint off) mod uint v)) ` {k. uint k < uint v}"
      using u k by (intro image_eqI [of _ _ "word_of_int k"]) simp_all
  qed (use v in \<open>auto simp: nat_less_iff\<close>)
  have "(\<lambda>k :: u32. ?h ! nat ((?a + uint k + uint off) mod uint v)) ` {k. uint k < uint v} =
      (!) ?h ` (\<lambda>k :: u32. nat ((?a + uint k + uint off) mod uint v)) ` {k. uint k < uint v}" by (simp only: image_image)
  also have "\<dots> = (!) ?h ` {..<unat v}" by (simp only: im)
  also have "\<dots> = set (take (unat v) ?h)" using assms(3) by (simp add: nth_image lessThan_atLeast0)
  finally show "(\<lambda>k. tsch_calculate_channel (TSCH_ASN_INC asn k) off s) ` {k. uint k < uint v} = Some ` set (take (unat v) ?h)"
    using c by (metis (no_types, lifting) image_cong image_image mem_Collect_eq)
qed

text \<open>
  C21. Channel hopping: in every slot the channel is the entry of the hopping sequence at the absolute slot number plus
  the channel offset, modulo the length of the sequence. Hence, for a sequence of different channels, links that share a
  slot but have different offsets (below the length) never use the same channel, and one link visits each channel of the
  sequence exactly once in as many consecutive slots as the sequence is long.
\<close>

theorem channel_hopping:
  assumes "tsch_hopping_sequence_length s = TSCH_ASN_DIVISOR_INIT v" "v \<noteq> 0" "unat v \<le> length (tsch_hopping_sequence s)"
    and "distinct (take (unat v) (tsch_hopping_sequence s))" "asn_int asn + uint v \<le> 2 ^ 40"
  shows "tsch_calculate_channel asn off s = Some (tsch_hopping_sequence s ! nat ((asn_int asn + uint off) mod uint v)) \<and>
    (\<forall>off'. uint off < uint v \<and> uint off' < uint v \<and> off' \<noteq> off \<longrightarrow> tsch_calculate_channel asn off' s \<noteq> tsch_calculate_channel asn off s) \<and>
    (\<lambda>k. tsch_calculate_channel (TSCH_ASN_INC asn k) off s) ` {k. uint k < uint v} = Some ` set (take (unat v) (tsch_hopping_sequence s))"
proof (intro conjI allI impI)
  let ?h = "tsch_hopping_sequence s" and ?a = "asn_int asn"
  note c = channel_spec [OF assms(1-3)]
  have v: "0 < uint v" by (simp add: uint_pos assms(2))
  have in_seq: "?h ! nat (x mod uint v) = take (unat v) ?h ! nat (x mod uint v)" "nat (x mod uint v) < length (take (unat v) ?h)" for x
    using v assms(3) by (simp_all add: nat_less_iff)
  show "tsch_calculate_channel asn off s = Some (?h ! nat ((?a + uint off) mod uint v))" by (rule c)
  fix off' assume o: "uint off < uint v \<and> uint off' < uint v \<and> off' \<noteq> off"
  have "(?a + uint off') mod uint v \<noteq> (?a + uint off) mod uint v"
  proof
    assume "(?a + uint off') mod uint v = (?a + uint off) mod uint v"
    then have "uint off' mod uint v = uint off mod uint v" by (simp add: mod_eq_dvd_iff)
    then show False using o by (simp add: word_uint_eq_iff)
  qed
  then have "nat ((?a + uint off') mod uint v) \<noteq> nat ((?a + uint off) mod uint v)" using v by (simp add: eq_nat_nat_iff)
  then show "tsch_calculate_channel asn off' s \<noteq> tsch_calculate_channel asn off s"
    unfolding c using nth_eq_iff_index_eq [OF assms(4) in_seq(2) in_seq(2)] in_seq(1) by simp
qed (rule channels_visited [OF assms(1-3,5)])

theorem channel_hopping_witness:
  "\<exists>s :: mac_state. tsch_calculate_channel (TSCH_ASN_INIT 0 5) 2 s = Some 20"
proof -
  let ?s = "(mac_boot linkaddr_null)\<lparr> tsch_hopping_sequence := TSCH_DEFAULT_HOPPING_SEQUENCE, tsch_hopping_sequence_length := TSCH_ASN_DIVISOR_INIT 4 \<rparr>"
  have "tsch_hopping_sequence_length ?s = TSCH_ASN_DIVISOR_INIT 4" "(4 :: u16) \<noteq> 0" "unat (4 :: u16) \<le> length (tsch_hopping_sequence ?s)"
    "distinct (take (unat (4 :: u16)) (tsch_hopping_sequence ?s))" "asn_int (TSCH_ASN_INIT 0 5) + uint (4 :: u16) \<le> 2 ^ 40"
    by (simp_all add: TSCH_DEFAULT_HOPPING_SEQUENCE_def asn_int_def TSCH_ASN_INIT_def)
  from channel_hopping [OF this, of 2, THEN conjunct1] show ?thesis
    by (intro exI [of _ ?s]) (simp add: TSCH_DEFAULT_HOPPING_SEQUENCE_def asn_int_def TSCH_ASN_INIT_def)
qed

subsection \<open>Deadlines\<close>

lemma check_timer_miss_iff: "check_timer_miss ref_time offset now \<longleftrightarrow> offset \<le> now - ref_time"
proof -
  define r n k where "r = uint ref_time" and "n = uint now" and "k = uint offset"
  have "0 \<le> x" "x < 2 ^ 64" if "x \<in> {r, n, k}" for x
    using that unsigned_less [of ref_time] unsigned_less [of now] unsigned_less [of offset] by (auto simp: r_def n_def k_def)
  then have b: "0 \<le> r" "r < 2 ^ 64" "0 \<le> n" "n < 2 ^ 64" "0 \<le> k" "k < 2 ^ 64" by auto
  show ?thesis
    unfolding check_timer_miss_def Let_def word_less_def word_le_def uint_plus_if' uint_sub_if' r_def [symmetric] n_def [symmetric] k_def [symmetric]
    using b by auto
qed

text \<open>
  The deadline test is exact for any wrap-around of the 64-bit timer: a target \<open>offset\<close> after a reference time has been
  missed exactly when at least \<open>offset\<close> ticks (modulo the range of the timer) have passed since the reference time.
\<close>

theorem check_timer_miss_exact: "check_timer_miss ref_time offset now \<longleftrightarrow> offset \<le> now - ref_time"
  by (rule check_timer_miss_iff)

subsection \<open>The next slot\<close>

lemma next_slot_cases:
  assumes "sched_wf s" "\<not> tsch_locked s"
  obtains d l b where "next_slot g s = (d, g\<lparr> backup_link := b \<rparr>,
      s\<lparr> current_link := l, tsch_current_asn := TSCH_ASN_INC (tsch_current_asn s) (ucast d) \<rparr>)"
    "0 < uint d" "\<And>t k. 0 < t \<Longrightarrow> fires s (tsch_current_asn s) t k \<Longrightarrow> uint d \<le> t"
    "case l of None \<Rightarrow> \<forall>f \<in> set (slotframe_list s). sf_links (sfr s f) = [] | Some k \<Rightarrow> fires s (tsch_current_asn s) (uint d) k"
proof -
  obtain l o' b where r: "tsch_schedule_get_next_active_link (tsch_current_asn s) s = (l, o', b)" by (cases "tsch_schedule_get_next_active_link (tsch_current_asn s) s")
  note sp = next_active_link_spec [OF assms r]
  show ?thesis
  proof (cases l)
    case None
    then have n: "\<not> fires s (tsch_current_asn s) t k" for t k using sp by (auto simp: fires_def)
    show ?thesis
      by (rule that [of 1 b None]) (use r sp None n in \<open>auto simp: next_slot_def\<close>)
  next
    case (Some k)
    then obtain t where t: "o' = Some t" "0 < uint t" "fires s (tsch_current_asn s) (uint t) k" "\<And>t' l. 0 < t' \<Longrightarrow> fires s (tsch_current_asn s) t' l \<Longrightarrow> uint t \<le> t'"
      using sp by auto
    show ?thesis by (rule that [of t b l]) (use r Some t in \<open>auto simp: next_slot_def\<close>)
  qed
qed

lemma fires_later:
  assumes "asn_int a' = asn_int a + d" "slotframe_list s' = slotframe_list s" "slotframe_memb s' = slotframe_memb s" "link_memb s' = link_memb s"
  shows "fires s' a' t k = fires s a (d + t) k"
  using assms by (simp add: fires_def sfr_def lnk_def add.assoc)

lemma asn_int_add:
  assumes "asn_int a + uint d < 2 ^ 40"
  shows "asn_int (TSCH_ASN_INC a (ucast (d :: u16))) = asn_int a + uint d"
  using assms asn_int_bounds [of a] by (simp add: asn_int_INC unsigned_ucast_eq take_bit_int_eq_self)

text \<open>The time to the next slot is computed without overflow.\<close>

lemma slot_time:
  fixes d :: u16 and len :: u64
  assumes "65535 * uint len < 2 ^ 64"
  shows "uint (ucast d * len) = uint d * uint len"
proof -
  have "uint d * uint len \<le> 65535 * uint len" using uint_bounds(2) [of d] by (intro mult_right_mono) auto
  then have "uint d * uint len < 2 ^ 64" using assms by linarith
  moreover have "uint (ucast d :: u64) = uint d" using uint_bounds(2) [of d] by (simp add: unsigned_ucast_eq take_bit_int_eq_self_iff)
  ultimately show ?thesis by (simp add: uint_mult_lem [THEN iffD1])
qed

text \<open>One round of the loop: it returns, or starts again nearer to the present.\<close>

lemma slot_start_round:
  fixes s :: "'a mac_state_scheme" and g :: "'g slot_state_scheme"
  assumes "sched_wf s" "\<not> tsch_locked s" "tsch_ts_timeslot_length < length (tsch_timing s) \<and> tsch_timing s ! tsch_ts_timeslot_length = len"
    and "65535 * uint len < 2 ^ 64" "asn_int (tsch_current_asn s) + 65536 \<le> 2 ^ 40"
  obtains d :: u16 and b l s1 where
    "s1 = s\<lparr> current_link := l, tsch_current_asn := TSCH_ASN_INC (tsch_current_asn s) (ucast d), current_slot_start := current_slot_start s + word_of_int (uint d * uint len) \<rparr>"
    "0 < uint d" "\<And>t k. 0 < t \<Longrightarrow> fires s (tsch_current_asn s) t k \<Longrightarrow> uint d \<le> t" "asn_int (tsch_current_asn s1) = asn_int (tsch_current_asn s) + uint d"
    "case l of None \<Rightarrow> \<forall>f \<in> set (slotframe_list s). sf_links (sfr s f) = [] | Some k \<Rightarrow> fires s (tsch_current_asn s1) 0 k"
    "tsch_slot_operation_start g s =
       (if uint d * uint len \<le> uint (rtimer_now s - current_slot_start s) then tsch_slot_operation_start (g\<lparr> backup_link := b \<rparr>) s1
        else Some (g\<lparr> backup_link := b, slot_operation_timer := Some (current_slot_start s1) \<rparr>, s1))"
    "uint d * uint len \<le> uint (rtimer_now s - current_slot_start s) \<Longrightarrow>
       uint (rtimer_now s1 - current_slot_start s1) = uint (rtimer_now s - current_slot_start s) - uint d * uint len"
proof -
  let ?e = "uint (rtimer_now s - current_slot_start s)" and ?a = "tsch_current_asn s"
  obtain d b l where n: "next_slot g s = (d, g\<lparr> backup_link := b \<rparr>, s\<lparr> current_link := l, tsch_current_asn := TSCH_ASN_INC ?a (ucast d) \<rparr>)"
    "0 < uint d" "\<And>t k. 0 < t \<Longrightarrow> fires s ?a t k \<Longrightarrow> uint d \<le> t"
    "case l of None \<Rightarrow> \<forall>f \<in> set (slotframe_list s). sf_links (sfr s f) = [] | Some k \<Rightarrow> fires s ?a (uint d) k"
    by (rule next_slot_cases [OF assms(1,2), where g = g], rule that) assumption+
  have a: "asn_int (TSCH_ASN_INC ?a (ucast d)) = asn_int ?a + uint d" using assms(5) uint_bounds(2) [of d] by (intro asn_int_add) linarith
  have t: "uint (ucast d * len) = uint d * uint len" by (rule slot_time [OF assms(4)])
  then have w: "word_of_int (uint d * uint len) = ucast d * len" by (metis word_of_int_uint)
  define s1 where "s1 = s\<lparr> current_link := l, tsch_current_asn := TSCH_ASN_INC ?a (ucast d), current_slot_start := current_slot_start s + ucast d * len \<rparr>"
  have miss: "check_timer_miss (current_slot_start s) (ucast d * len) (rtimer_now s) \<longleftrightarrow> uint d * uint len \<le> ?e"
    unfolding check_timer_miss_iff by (simp add: word_le_def t)
  have due: "case l of None \<Rightarrow> \<forall>f \<in> set (slotframe_list s). sf_links (sfr s f) = [] | Some k \<Rightarrow> fires s (tsch_current_asn s1) 0 k"
    using n(4) fires_later [OF a refl refl refl, of s 0] by (cases l) (simp_all add: s1_def)
  have st: "tsch_slot_operation_start g s = (if uint d * uint len \<le> ?e then tsch_slot_operation_start (g\<lparr> backup_link := b \<rparr>) s1
        else Some (g\<lparr> backup_link := b, slot_operation_timer := Some (current_slot_start s1) \<rparr>, s1))"
    using miss assms(3)
    by (simp add: tsch_slot_operation_start.simps [of g s] n(1) tsch_schedule_slot_operation_def s1_def nth_opt_def Let_def)
  have "rtimer_now s1 - current_slot_start s1 = (rtimer_now s - current_slot_start s) - ucast d * len" by (simp add: s1_def)
  then have e1: "uint (rtimer_now s1 - current_slot_start s1) = ?e - uint d * uint len" if "uint d * uint len \<le> ?e"
    using that t by (simp add: uint_sub_lem [THEN iffD1])
  show ?thesis
    by (rule that [where ?s1.0 = s1 and l = l and d = d and b = b, unfolded w, OF s1_def n(2,3) _ due st e1]) (use a in \<open>simp_all add: s1_def\<close>)
qed

lemma slot_operation_start_ok:
  fixes s :: "'a mac_state_scheme" and g :: "'g slot_state_scheme"
  assumes "sched_wf s" "\<not> tsch_locked s" "tsch_ts_timeslot_length < length (tsch_timing s) \<and> tsch_timing s ! tsch_ts_timeslot_length = len"
    and "0 < uint len" "65535 * uint len < 2 ^ 64"
    and "asn_int (tsch_current_asn s) + uint (rtimer_now s - current_slot_start s) div uint len + 65536 \<le> 2 ^ 40"
  shows "\<exists>k g' l asn'. tsch_slot_operation_start g s = Some (g',
        s\<lparr> current_link := l, tsch_current_asn := asn', current_slot_start := current_slot_start s + word_of_int (k * uint len) \<rparr>) \<and>
      asn_int asn' = asn_int (tsch_current_asn s) + k \<and>
      slot_operation_timer g' = Some (current_slot_start s + word_of_int (k * uint len)) \<and>
      uint (rtimer_now s - current_slot_start s) < k * uint len \<and>
      (case l of None \<Rightarrow> \<forall>f \<in> set (slotframe_list s). sf_links (sfr s f) = [] | Some b \<Rightarrow> fires s asn' 0 b) \<and>
      (\<forall>t b. 0 < t \<and> t < k \<and> fires s (tsch_current_asn s) t b \<longrightarrow> t * uint len \<le> uint (rtimer_now s - current_slot_start s))"
  using assms(1-3,6)
proof (induction "nat (uint (rtimer_now s - current_slot_start s))" arbitrary: s g rule: less_induct)
  case less
  let ?e = "uint (rtimer_now s - current_slot_start s)" and ?a = "tsch_current_asn s"
  have "0 \<le> ?e div uint len" using assms(4) by (simp add: pos_imp_zdiv_nonneg_iff)
  then have "asn_int ?a + 65536 \<le> 2 ^ 40" using less.prems(4) by linarith
  then obtain d :: u16 and b l s1 where s1: "s1 = s\<lparr> current_link := l, tsch_current_asn := TSCH_ASN_INC ?a (ucast d),
        current_slot_start := current_slot_start s + word_of_int (uint d * uint len) \<rparr>"
    and d: "0 < uint d" "\<And>t k. 0 < t \<Longrightarrow> fires s ?a t k \<Longrightarrow> uint d \<le> t" and a: "asn_int (tsch_current_asn s1) = asn_int ?a + uint d"
    and due: "case l of None \<Rightarrow> \<forall>f \<in> set (slotframe_list s). sf_links (sfr s f) = [] | Some k \<Rightarrow> fires s (tsch_current_asn s1) 0 k"
    and st: "tsch_slot_operation_start g s = (if uint d * uint len \<le> ?e then tsch_slot_operation_start (g\<lparr> backup_link := b \<rparr>) s1
        else Some (g\<lparr> backup_link := b, slot_operation_timer := Some (current_slot_start s1) \<rparr>, s1))"
    and e1: "uint d * uint len \<le> ?e \<Longrightarrow> uint (rtimer_now s1 - current_slot_start s1) = ?e - uint d * uint len"
    by (rule slot_start_round [OF less.prems(1-3) assms(5), where g = g]) (erule that)
  show ?case
  proof (cases "uint d * uint len \<le> ?e")
    case False
    have "\<not> (0 < t \<and> t < uint d \<and> fires s ?a t b)" for t b using d(2) [of t b] by auto
    then show ?thesis
      by (intro exI [of _ "uint d"] exI [of _ "g\<lparr> backup_link := b, slot_operation_timer := Some (current_slot_start s1) \<rparr>"] exI [of _ l] exI [of _ "tsch_current_asn s1"])
        (use False due a in \<open>simp add: st, simp add: s1, blast\<close>)
  next
    case True
    have "(?e - uint d * uint len) div uint len = ?e div uint len - uint d" using div_mult_self1 [of "uint len" ?e "- uint d"] assms(4) by simp
    then have a1: "asn_int (tsch_current_asn s1) + uint (rtimer_now s1 - current_slot_start s1) div uint len + 65536 \<le> 2 ^ 40"
      using less.prems(4) unfolding e1 [OF True] by (simp add: a)
    have w1: "sched_wf s1" "\<not> tsch_locked s1" "tsch_ts_timeslot_length < length (tsch_timing s1) \<and> tsch_timing s1 ! tsch_ts_timeslot_length = len"
      using less.prems(1-3) sched_wf_frame(1) [of s1 s] by (simp_all add: s1)
    have "0 < uint d * uint len" using d(1) assms(4) by simp
    then have "nat (uint (rtimer_now s1 - current_slot_start s1)) < nat ?e" unfolding e1 [OF True] using True by linarith
    from less.hyps [OF this w1 a1, of "g\<lparr> backup_link := b \<rparr>"]
    obtain k g' l' asn' where r: "tsch_slot_operation_start (g\<lparr> backup_link := b \<rparr>) s1 = Some (g',
          s1\<lparr> current_link := l', tsch_current_asn := asn', current_slot_start := current_slot_start s1 + word_of_int (k * uint len) \<rparr>)"
        "asn_int asn' = asn_int (tsch_current_asn s1) + k" "slot_operation_timer g' = Some (current_slot_start s1 + word_of_int (k * uint len))"
        "?e - uint d * uint len < k * uint len"
        "case l' of None \<Rightarrow> \<forall>f \<in> set (slotframe_list s1). sf_links (sfr s1 f) = [] | Some b \<Rightarrow> fires s1 asn' 0 b"
        "\<And>t b. 0 < t \<Longrightarrow> t < k \<Longrightarrow> fires s1 (tsch_current_asn s1) t b \<Longrightarrow> t * uint len \<le> ?e - uint d * uint len"
      unfolding e1 [OF True] by blast
    have f1: "fires s1 (tsch_current_asn s1) t b = fires s ?a (uint d + t) b" "fires s1 asn' 0 b = fires s asn' 0 b" for t b
      by (rule fires_later [OF a]) (simp_all add: s1 fires_def sfr_def lnk_def)
    have "word_of_int ((uint d + k) * uint len) = (word_of_int (uint d * uint len) :: u64) + word_of_int (k * uint len)"
      unfolding distrib_right by (rule of_int_add)
    then have cs: "current_slot_start s + word_of_int (uint d * uint len) + word_of_int (k * uint len) = current_slot_start s + word_of_int ((uint d + k) * uint len)"
      by (simp only: add.assoc)
    have early: "t * uint len \<le> ?e" if t: "0 < t" "t < uint d + k" "fires s ?a t b" for t b
    proof (cases "t = uint d")
      case False
      then have "0 < t - uint d" using d(2) [OF t(1,3)] by simp
      then show ?thesis using r(6) [of "t - uint d" b] t f1(1) [of "t - uint d" b] by (simp add: left_diff_distrib)
    qed (use True in simp)
    have due': "case l' of None \<Rightarrow> \<forall>f \<in> set (slotframe_list s). sf_links (sfr s f) = [] | Some b \<Rightarrow> fires s asn' 0 b"
      using r(5) by (cases l') (simp_all add: f1(2), simp add: s1 sfr_def)
    show ?thesis
      by (rule exI [of _ "uint d + k"], rule exI [of _ g'], rule exI [of _ l'], rule exI [of _ asn'])
        (use True r(2,4) early due' in \<open>simp add: st r(1,3) a cs [symmetric], simp add: s1 distrib_right, blast\<close>)
  qed
qed

text \<open>
  C22. Starting the slot operation always ends with the timer set, and slot number and time advance in lockstep: when the loop
  returns, it has gone forward some number \<open>k\<close> of slots, by which the absolute slot number has grown and by exactly
  \<open>k\<close> slot lengths the start of the slot. The timer is set to that start, which lies in the future; the chosen link is due in
  that slot (or the schedule has no link); and every slot before it in which some link is due has begun already, so no
  slot that can still be reached is skipped.
\<close>

theorem slot_operation_start_correct:
  fixes s :: "'a mac_state_scheme" and g :: "'g slot_state_scheme"
  assumes "sched_wf s" "\<not> tsch_locked s" "tsch_ts_timeslot_length < length (tsch_timing s) \<and> tsch_timing s ! tsch_ts_timeslot_length = len"
    and "0 < uint len" "65535 * uint len < 2 ^ 64"
    and "asn_int (tsch_current_asn s) + uint (rtimer_now s - current_slot_start s) div uint len + 65536 \<le> 2 ^ 40"
  shows "\<exists>k g' l asn'. tsch_slot_operation_start g s = Some (g',
        s\<lparr> current_link := l, tsch_current_asn := asn', current_slot_start := current_slot_start s + word_of_int (k * uint len) \<rparr>) \<and>
      asn_int asn' = asn_int (tsch_current_asn s) + k \<and>
      slot_operation_timer g' = Some (current_slot_start s + word_of_int (k * uint len)) \<and>
      uint (rtimer_now s - current_slot_start s) < k * uint len \<and>
      (case l of None \<Rightarrow> \<forall>f \<in> set (slotframe_list s). sf_links (sfr s f) = [] | Some b \<Rightarrow> fires s asn' 0 b) \<and>
      (\<forall>t b. 0 < t \<and> t < k \<and> fires s (tsch_current_asn s) t b \<longrightarrow> t * uint len \<le> uint (rtimer_now s - current_slot_start s))"
  by (rule slot_operation_start_ok [OF assms])

lemma mac_boot_sched_wf: "sched_wf (mac_boot a)" "asched (mac_boot a) = Map.empty"
proof -
  have e: "bufmem (mac_boot a) = bufmem sched_boot" "buframmem (mac_boot a) = buframmem sched_boot" "neighbor_memb (mac_boot a) = neighbor_memb sched_boot"
    "packet_memb (mac_boot a) = packet_memb sched_boot" "neighbor_list (mac_boot a) = neighbor_list sched_boot"
    "link_memb (mac_boot a) = link_memb sched_boot" "slotframe_memb (mac_boot a) = slotframe_memb sched_boot" "slotframe_list (mac_boot a) = slotframe_list sched_boot"
    by (simp_all add: mac_boot_def net_state.defs net_boot_def sched_state.defs mac_state.defs)
  show "sched_wf (mac_boot a)" "asched (mac_boot a) = Map.empty" using sched_wf_frame [of "mac_boot a" sched_boot, OF e] sched_boot_wf(1,3) by simp_all
qed

lemma mac_boot_times [simp]: "tsch_timing (mac_boot a) = tsch_default_timing_us" "rtimer_now (mac_boot a) = 0" "current_slot_start (mac_boot a) = 0"
  by (simp_all add: mac_boot_def net_state.defs mac_state.defs)

definition slot_boot :: slot_state where
  "slot_boot = \<lparr> last_timesource_neighbor = None, drift_ppm = 0, compensated_ticks = 0, timesync_entry_count = 0, asn_since_last_learning = 0,
     te_buffer = replicate 8 0, te_pos = 0, comp_remainder = 0, tick_conversion_error = 0,
     drift_correction = 0, is_drift_correction_used = False, current_channel = 0, backup_link = None, current_packet = None,
     current_neighbor = None, actual_current_neighbor = None, mac_tx_status = 0, input_queue_drop = 0, radio_is_on = False, stop = False,
     waiting_for_restart = False, slot_operation_timer = None \<rparr>"

theorem slot_operation_start_correct_witness:
  "\<exists>k g' l asn'. tsch_slot_operation_start slot_boot ((mac_boot linkaddr_null)\<lparr> tsch_current_asn := TSCH_ASN_INIT 0 17 \<rparr>) = Some (g', (mac_boot linkaddr_null)
      \<lparr> current_link := l, tsch_current_asn := asn', current_slot_start := word_of_int (k * 10000) \<rparr>) \<and> asn_int asn' = 17 + k"
proof -
  let ?s = "(mac_boot linkaddr_null)\<lparr> tsch_current_asn := TSCH_ASN_INIT 0 17 \<rparr>"
  have a: "asn_int (TSCH_ASN_INIT 0 17) = 17" by (simp add: asn_int_def TSCH_ASN_INIT_def)
  have "sched_wf ?s" "\<not> tsch_locked ?s" "tsch_ts_timeslot_length < length (tsch_timing ?s) \<and> tsch_timing ?s ! tsch_ts_timeslot_length = 10000"
    "0 < uint (10000 :: u64)" "65535 * uint (10000 :: u64) < 2 ^ 64"
    "asn_int (tsch_current_asn ?s) + uint (rtimer_now ?s - current_slot_start ?s) div uint (10000 :: u64) + 65536 \<le> 2 ^ 40"
    using sched_wf_frame(1) [of ?s "mac_boot linkaddr_null"] by (simp_all add: mac_boot_sched_wf mac_boot_ok tsch_default_timing_us_def a)
  from slot_operation_start_correct [OF this, of slot_boot] show ?thesis by (auto simp: a)
qed

subsection \<open>The packet for a slot\<close>

definition may_send :: "tsch_link \<Rightarrow> tsch_neighbor \<Rightarrow> bool" where
  "may_send link x \<longleftrightarrow> l_link_options link AND LINK_OPTION_SHARED = 0 \<or> tsch_queue_backoff_expired x"

definition expired :: "tsch_asn_t \<Rightarrow> apacket \<Rightarrow> bool" where
  "expired asn a \<longleftrightarrow> \<not> TSCH_SLOTNUM_LT (ucast (ls4b asn - 1)) (ap_attrs a PACKETBUF_ATTR_TRANSMISSION_TTL)"

definition early :: "tsch_asn_t \<Rightarrow> apacket \<Rightarrow> bool" where
  "early asn a \<longleftrightarrow> TSCH_SLOTNUM_LT (ucast (ls4b asn)) (ap_attrs a PACKETBUF_ATTR_EARLIEST_TX_SLOT)"

lemma get_packet_first:
  assumes "q_wf s" "\<not> tsch_locked s" "n \<in> set (neighbor_list s)" "may_send link (nbr s n)"
  shows "tsch_queue_get_packet_for_nbr (Some n) (Some link) s = Some (list_first (qpackets s n))"
proof (cases "nqueue (nbr s n)")
  case Nil
  then show ?thesis using nqueue_get_empty [OF q_wfD(6) [OF assms(1,3)]] assms(2)
    by (simp add: tsch_queue_get_packet_for_nbr_def tsch_is_locked_def qpackets_def list_first_def)
next
  case (Cons e es)
  note dq = nqueue_deq [OF q_wfD(6) [OF assms(1,3)] Cons]
  show ?thesis using assms(2,4) dq Cons
    by (auto simp: tsch_queue_get_packet_for_nbr_def tsch_is_locked_def qpackets_def list_first_def may_send_def tx_array_at_def)
qed

lemma packet_attr_ok:
  "q_wf s \<Longrightarrow> p \<in> memb_used (packet_memb s) \<Longrightarrow> packet_attr ty p s = Some (ap_attrs (abs_pkt s p) ty)"
  using queuebuf_attr_wf [of s p ty] by (auto simp: packet_attr_def)

lemma set_nbr_broadcast [simp]: "n_broadcast (set_nbr n x s) = n_broadcast s"
  by (simp add: set_nbr_def)

lemma remove_packet_rest:
  assumes "tsch_queue_remove_packet_from_queue n s = Some (r, s')"
  shows "n_backoff_window (nbr s' k) = n_backoff_window (nbr s k)" "tsch_current_asn s' = tsch_current_asn s" "n_broadcast s' = n_broadcast s"
  using assms by (auto simp: tsch_queue_remove_packet_from_queue_def nbr_set_nbr q_wf_num_eb case_prod_unfold Let_def bind_eq_Some_conv
      split: if_splits option.splits)

lemma free_packet_asn: "tsch_current_asn (tsch_queue_free_packet p s) = tsch_current_asn s" "n_broadcast (tsch_queue_free_packet p s) = n_broadcast s"
  by (auto simp: tsch_queue_free_packet_def queuebuf_free_def Let_def split: option.splits)

text \<open>Removing and freeing the first packet of a queue.\<close>

lemma discard_first:
  assumes w: "q_wf s" "\<not> tsch_locked s" and n: "n \<in> set (neighbor_list s)" and q: "qpackets s n = p # ps"
  obtains s1 where "tsch_queue_remove_packet_from_queue (Some n) s = Some (Some p, s1)"
    "q_wf (tsch_queue_free_packet (Some p) s1)" "\<not> tsch_locked (tsch_queue_free_packet (Some p) s1)"
    "neighbor_list (tsch_queue_free_packet (Some p) s1) = neighbor_list s" "qpackets (tsch_queue_free_packet (Some p) s1) n = ps"
    "queues (tsch_queue_free_packet (Some p) s1) = (queues s)(n_addr (nbr s n) := tl (queues s (n_addr (nbr s n))))"
    "n_addr (nbr (tsch_queue_free_packet (Some p) s1) n) = n_addr (nbr s n)"
    "n_backoff_window (nbr (tsch_queue_free_packet (Some p) s1) n) = n_backoff_window (nbr s n)"
    "tsch_current_asn (tsch_queue_free_packet (Some p) s1) = tsch_current_asn s" "n_broadcast (tsch_queue_free_packet (Some p) s1) = n_broadcast s"
proof -
  obtain s1 where r: "tsch_queue_remove_packet_from_queue (Some n) s = Some (Some p, s1)" and s1: "q_wf s1" "\<not> tsch_locked s1"
      "queues s1 = (queues s)(n_addr (nbr s n) := tl (queues s (n_addr (nbr s n))))" "qpackets s1 n = ps" "\<And>k. k \<noteq> n \<Longrightarrow> qpackets s1 k = qpackets s k"
      "packet_memb s1 = packet_memb s" "neighbor_list s1 = neighbor_list s" "\<And>k. n_addr (nbr s1 k) = n_addr (nbr s k)"
    using remove_packet_cons [OF w n q] by blast
  have u: "p \<in> memb_used (packet_memb s1)" using q_wfD(9) [OF w(1) n] q s1(6) by simp
  have out: "p \<notin> set (qpackets s1 k)" if k: "k \<in> set (neighbor_list s1)" for k
  proof (cases "k = n")
    case True
    then show ?thesis using q_wfD(8) [OF w(1) n] q s1(4) by simp
  next
    case False
    then have "set (qpackets s n) \<inter> set (qpackets s k) = {}" using w(1) n k s1(7) unfolding q_wf_def pkts_wf_def by auto
    then show ?thesis using s1(5) [OF False] q by auto
  qed
  note f = free_packet_wf [OF s1(1) u out]
  show ?thesis
    by (rule that [OF r]) (use f s1 remove_packet_rest [OF r] in \<open>simp_all add: free_packet_asn\<close>)
qed

text \<open>The loop ends with the first packet that has time left, and has freed exactly the packets before it.\<close>

lemma drop_expired_ok:
  assumes "q_wf s" "\<not> tsch_locked s" "n \<in> set (neighbor_list s)" "may_send link (nbr s n)"
  shows "\<exists>s'. drop_expired (Some n) link (list_first (qpackets s n)) s = Some (list_first (qpackets s' n), s') \<and> q_wf s' \<and> \<not> tsch_locked s' \<and>
    neighbor_list s' = neighbor_list s \<and> n_addr (nbr s' n) = n_addr (nbr s n) \<and> tsch_current_asn s' = tsch_current_asn s \<and> n_broadcast s' = n_broadcast s \<and>
    queues s' = (queues s)(n_addr (nbr s n) := dropWhile (expired (tsch_current_asn s)) (queues s (n_addr (nbr s n))))"
  using assms
proof (induction "qpackets s n" arbitrary: s)
  case Nil
  then have "queues s (n_addr (nbr s n)) = []" using queues_at [OF Nil.prems(1,3)] by simp
  then show ?case using Nil
    by (intro exI [of _ s]) (auto simp: drop_expired.simps [of "Some n" link None] list_first_def)
next
  case (Cons p ps)
  let ?a = "n_addr (nbr s n)"
  have q: "qpackets s n = p # ps" using Cons.hyps(2) by simp
  have qs: "queues s ?a = abs_pkt s p # map (abs_pkt s) ps" using queues_at [OF Cons.prems(1,3)] q by simp
  have "p \<in> memb_used (packet_memb s)" using q_wfD(9) [OF Cons.prems(1,3)] q by simp
  note attr = packet_attr_ok [OF Cons.prems(1) this]
  show ?case
  proof (cases "expired (tsch_current_asn s) (abs_pkt s p)")
    case False
    then show ?thesis using Cons.prems qs q attr
      by (intro exI [of _ s]) (auto simp: drop_expired.simps [of "Some n" link "Some p"] list_first_def expired_def)
  next
    case True
    obtain s1 where s1: "tsch_queue_remove_packet_from_queue (Some n) s = Some (Some p, s1)" and s2: "q_wf (tsch_queue_free_packet (Some p) s1)"
      "\<not> tsch_locked (tsch_queue_free_packet (Some p) s1)" "neighbor_list (tsch_queue_free_packet (Some p) s1) = neighbor_list s"
      "qpackets (tsch_queue_free_packet (Some p) s1) n = ps"
      "queues (tsch_queue_free_packet (Some p) s1) = (queues s)(?a := tl (queues s ?a))"
      "n_addr (nbr (tsch_queue_free_packet (Some p) s1) n) = ?a"
      "n_backoff_window (nbr (tsch_queue_free_packet (Some p) s1) n) = n_backoff_window (nbr s n)"
      "tsch_current_asn (tsch_queue_free_packet (Some p) s1) = tsch_current_asn s" "n_broadcast (tsch_queue_free_packet (Some p) s1) = n_broadcast s"
      by (rule discard_first [OF Cons.prems(1-3) q])
    define s2 where "s2 = tsch_queue_free_packet (Some p) s1"
    note s2 = s2 [folded s2_def]
    have w: "n \<in> set (neighbor_list s2)" "may_send link (nbr s2 n)"
      using Cons.prems(3,4) s2(3,7) by (simp_all add: may_send_def tsch_queue_backoff_expired_def)
    have "drop_expired (Some n) link (list_first (qpackets s n)) s = drop_expired (Some n) link (list_first (qpackets s2 n)) s2"
      using True s1 get_packet_first [OF s2(1,2) w] attr
      by (simp add: drop_expired.simps [of "Some n" link "Some p"] list_first_def q expired_def s2_def Let_def)
    then show ?thesis using Cons.hyps(1) [OF s2(4) [symmetric] s2(1,2) w] s2(3,5,6,8,9) qs True by simp
  qed
qed

lemma flow_packet_ok:
  assumes w: "q_wf s" "\<not> tsch_locked s" and n: "n \<in> set (neighbor_list s)" "may_send link (nbr s n)"
    and m: "m \<in> set (neighbor_list s)" "may_send link (nbr s m)"
    and a: "\<forall>x xs. queues s (n_addr (nbr s m)) = x # xs \<longrightarrow> ap_attrs x PACKETBUF_ATTR_SEND_NBR = 0"
  shows "\<exists>p s'. flow_packet link (Some n) (Some m) s = Some (p, Some n, s') \<and> q_wf s' \<and> \<not> tsch_locked s' \<and> n_broadcast s' = n_broadcast s \<and>
    queues s' = (queues s)(n_addr (nbr s n) := dropWhile (expired (tsch_current_asn s)) (queues s (n_addr (nbr s n)))) \<and>
    map_option (abs_pkt s') p = (case dropWhile (expired (tsch_current_asn s)) (queues s (n_addr (nbr s n))) of
      [] \<Rightarrow> None | x # _ \<Rightarrow> if early (tsch_current_asn s) x then None else Some x)"
proof -
  let ?a = "n_addr (nbr s n)"
  obtain s' where d: "drop_expired (Some n) link (list_first (qpackets s n)) s = Some (list_first (qpackets s' n), s')" and s': "q_wf s'" "\<not> tsch_locked s'"
      "neighbor_list s' = neighbor_list s" "n_addr (nbr s' n) = ?a" "tsch_current_asn s' = tsch_current_asn s" "n_broadcast s' = n_broadcast s"
      "queues s' = (queues s)(?a := dropWhile (expired (tsch_current_asn s)) (queues s ?a))"
    using drop_expired_ok [OF w n] by blast
  have skip: "case list_first (qpackets s m) of None \<Rightarrow> True | Some q \<Rightarrow> packet_attr PACKETBUF_ATTR_SEND_NBR q s = Some 0"
  proof (cases "qpackets s m")
    case (Cons q qs)
    then have "queues s (n_addr (nbr s m)) = abs_pkt s q # map (abs_pkt s) qs" using queues_at [OF w(1) m(1)] by simp
    moreover have "packet_attr PACKETBUF_ATTR_SEND_NBR q s = Some (ap_attrs (abs_pkt s q) PACKETBUF_ATTR_SEND_NBR)"
      using q_wfD(9) [OF w(1) m(1)] Cons by (intro packet_attr_ok [OF w(1)]) simp
    ultimately show ?thesis using a Cons by (simp add: list_first_def)
  qed (simp add: list_first_def)
  have n': "n \<in> set (neighbor_list s')" using n(1) s'(3) by simp
  have q': "map (abs_pkt s') (qpackets s' n) = dropWhile (expired (tsch_current_asn s)) (queues s ?a)"
    using queues_at [OF s'(1) n'] s'(4,7) by simp
  have te: "too_early (list_first (qpackets s' n)) s' = Some (case qpackets s' n of [] \<Rightarrow> False | q # _ \<Rightarrow> early (tsch_current_asn s) (abs_pkt s' q))"
    using packet_attr_ok [OF s'(1) q_wfD(9) [OF s'(1) n']] by (cases "qpackets s' n") (simp_all add: too_early_def list_first_def early_def s'(5))
  have "flow_packet link (Some n) (Some m) s = Some
      (case qpackets s' n of [] \<Rightarrow> None | q # _ \<Rightarrow> if early (tsch_current_asn s) (abs_pkt s' q) then None else Some q, Some n, s')"
    using skip d te
    by (cases "list_first (qpackets s m)"; cases "qpackets s' n")
      (simp_all add: flow_packet_def get_packet_first [OF w n] get_packet_first [OF w m] list_first_def)
  then show ?thesis using s' q' by (cases "qpackets s' n") (auto simp: q' [symmetric])
qed

definition sends_by_nbr :: "apacket list \<Rightarrow> bool" where
  "sends_by_nbr q \<longleftrightarrow> (case q of [] \<Rightarrow> False | x # _ \<Rightarrow> ap_attrs x PACKETBUF_ATTR_SEND_NBR \<noteq> 0)"


text \<open>A state with one packet in the queue of a flow and a link of the slotframe of the flow, for the witnesses.\<close>

lemma mac_boot_can_queue:
  assumes "addr_wf a"
  shows "can_queue a (mac_boot b)" "pb_wf (mac_boot b)" "queues (mac_boot b) = (\<lambda>_. [])"
proof -
  have e: "bufmem (mac_boot b) = bufmem tsch_boot" "buframmem (mac_boot b) = buframmem tsch_boot" "neighbor_memb (mac_boot b) = neighbor_memb tsch_boot"
    "packet_memb (mac_boot b) = packet_memb tsch_boot" "neighbor_list (mac_boot b) = neighbor_list tsch_boot"
    "packetbuf (mac_boot b) = packetbuf tsch_boot" "hdrlen (mac_boot b) = hdrlen tsch_boot" "bufptr (mac_boot b) = bufptr tsch_boot"
    "buflen (mac_boot b) = buflen tsch_boot" "packetbuf_addrs (mac_boot b) = packetbuf_addrs tsch_boot"
    by (simp_all add: mac_boot_def net_state.defs net_boot_def sched_state.defs sched_boot_def tsch_schedule_init_def
        tsch_get_lock_def tsch_release_lock_def sched_zero_def tsch_state.extend_def mac_state.defs)
  note q = queues_cong(1) [OF e(1-5)] q_wf_frame(2) [OF e(1-5)]
  show "queues (mac_boot b) = (\<lambda>_. [])" using q(1) tsch_boot_wf(4) by simp
  have "tsch_queue_get_nbr a (mac_boot b) = tsch_queue_get_nbr a tsch_boot"
    using q(2) e(5) tsch_boot_wf(3) mac_boot_ok(2) by (simp add: tsch_queue_get_nbr_def tsch_is_locked_def)
  then show "can_queue a (mac_boot b)" using tsch_boot_wf(5) [OF assms] q(1) e by (simp add: can_queue_def queuebuf_numfree_def)
  show "pb_wf (mac_boot b)" using tsch_boot_wf(2) e by (simp add: pb_wf_def)
qed

lemma flow_queued_frame:
  assumes fr: "length fr \<le> 96"
  shows "\<exists>(s :: mac_state) n p. q_wf s \<and> \<not> tsch_locked s \<and> tsch_queue_get_nbr (flow_addr h) s = Some n \<and> qpackets s n = [p] \<and> n_broadcast s = None \<and>
     (\<forall>ty. ap_attrs (abs_pkt s p) ty = ats ty) \<and> ls4b (tsch_current_asn s) = k \<and> lnk s 0 = x \<and> ap_frame (abs_pkt s p) = fr"
proof -
  let ?a = "flow_addr h"
  define s0 where "s0 = (mac_boot linkaddr_null)\<lparr> packetbuf_attrs := ats, packetbuf := fr @ replicate (96 - length fr) 0, hdrlen := 0, bufptr := 0,
      buflen := word_of_nat (length fr) \<rparr>"
  have a: "addr_wf ?a" by (simp add: flow_addr_def addr_wf_def linkaddr_null_def)
  note b = mac_boot_can_queue [OF a, of linkaddr_null]
  have e: "q_wf s0 = q_wf (mac_boot linkaddr_null)" "nbr s0 = nbr (mac_boot linkaddr_null)" "queues s0 = queues (mac_boot linkaddr_null)"
    using q_wf_frame [of s0 "mac_boot linkaddr_null"] queues_cong(1) [of s0 "mac_boot linkaddr_null"] by (simp_all add: s0_def)
  have "can_queue ?a s0 = can_queue ?a (mac_boot linkaddr_null)"
    using e by (simp add: can_queue_def tsch_queue_get_nbr_def tsch_is_locked_def queuebuf_numfree_def) (simp add: s0_def)
  then have w0: "q_wf s0" "pb_wf s0" "\<not> tsch_locked s0" "can_queue ?a s0" "queues s0 = (\<lambda>_. [])"
    using b e mac_boot_ok(1,2) fr by (simp_all add: s0_def pb_wf_def)
  have frame: "ap_frame (abs_packetbuf 1 NO_CALLBACK s0) = fr" using fr by (simp add: abs_packetbuf_def pb_frame_def s0_def)
  from w0 obtain s :: mac_state where s: "q_wf s" "\<not> tsch_locked s" "queues s ?a = [abs_packetbuf 1 NO_CALLBACK s0]"
    using add_packet_ok [of s0 ?a 1 NO_CALLBACK] a by force
  then obtain n where n: "n \<in> set (neighbor_list s)" "n_addr (nbr s n) = ?a" using queues_none [of s ?a] by fastforce
  then obtain p where p: "qpackets s n = [p]" "abs_pkt s p = abs_packetbuf 1 NO_CALLBACK s0" using queues_at [OF s(1) n(1)] s(3) by auto
  let ?s = "s\<lparr> tsch_current_asn := \<lparr> ls4b = k, ms1b = 0 \<rparr>, n_broadcast := None, link_memb := (link_memb s)\<lparr> m_mem := [x] \<rparr> \<rparr>"
  have f: "q_wf ?s" "qpackets ?s = qpackets s" "abs_pkt ?s = abs_pkt s" "nbr ?s = nbr s"
    using q_wf_frame [of ?s s] queues_cong(2) [of ?s s] s(1) by simp_all
  have "tsch_queue_get_nbr ?a ?s = Some n" using get_nbr_iff [OF f(1) a, of n] s(2) n f(4) by simp
  then show ?thesis using f s(2) p frame by (intro exI [of _ ?s] exI [of _ n] exI [of _ p]) (simp add: abs_packetbuf_def s0_def lnk_def)
qed

lemma flow_queued_state:
  "\<exists>(s :: mac_state) n p. q_wf s \<and> \<not> tsch_locked s \<and> tsch_queue_get_nbr (flow_addr h) s = Some n \<and> qpackets s n = [p] \<and> n_broadcast s = None \<and>
     (\<forall>ty. ap_attrs (abs_pkt s p) ty = ats ty) \<and> ls4b (tsch_current_asn s) = k \<and> lnk s 0 = x"
  using flow_queued_frame [of "[]" h ats k x] by fastforce


subsection \<open>The radio\<close>

lemma timesync_update_radio:
  fixes g :: "'g slot_state_scheme"
  assumes "tsch_timesync_update n t d g s = Some (g', s')"
  shows "radio_is_on g' = radio_is_on g"
  using assms by (auto simp: tsch_timesync_update_def timesync_learn_drift_ticks_def timesync_entry_add_def Let_def bind_eq_Some_conv split: if_splits)

lemma sync_radio:
  fixes g :: "'g slot_state_scheme"
  shows "sync_from_ack ies g s = Some (g', s') \<Longrightarrow> radio_is_on g' = radio_is_on g"
    "sync_from_packet source drift g s = Some (g', s') \<Longrightarrow> radio_is_on g' = radio_is_on g"
  by (auto simp: sync_from_ack_def sync_from_packet_def Let_def bind_eq_Some_conv split: if_splits dest!: timesync_update_radio)

lemma wait_for_ack_radio: "wait_for_ack f0 d0 q io g s = Some (g', s') \<Longrightarrow> \<not> radio_is_on g'"
  by (auto simp: wait_for_ack_def tsch_radio_off_def tsch_radio_on_def Let_def bind_eq_Some_conv split: if_splits dest!: sync_radio(1))

lemma transmit_radio: "transmit_packet f0 d0 io p b g s = Some (out, g', s') \<Longrightarrow> \<not> radio_is_on g \<Longrightarrow> \<not> radio_is_on g'"
  by (auto simp: transmit_packet_def tsch_radio_off_def Let_def bind_eq_Some_conv split: if_splits dest!: wait_for_ack_radio)

lemma tx_slot_radio: "tsch_tx_slot f0 d0 io g s = Some (out, g', s') \<Longrightarrow> \<not> radio_is_on g \<Longrightarrow> \<not> radio_is_on g'"
  by (auto simp: tsch_tx_slot_def tx_slot_end_def tsch_radio_off_def Let_def bind_eq_Some_conv split: if_splits option.splits dest: transmit_radio)

lemma rx_frame_radio: "rx_frame f0 p0 i e t g s = Some (out, g', s') \<Longrightarrow> radio_is_on g' = radio_is_on g"
  by (auto simp: rx_frame_def rx_own_def Let_def bind_eq_Some_conv case_prod_unfold split: if_splits dest!: sync_radio(2))

lemma rx_slot_radio: "tsch_rx_slot f0 p0 io g s = Some (out, g', s') \<Longrightarrow> \<not> radio_is_on g \<Longrightarrow> \<not> radio_is_on g'"
  by (auto simp: tsch_rx_slot_def tsch_radio_off_def tsch_radio_on_def Let_def bind_eq_Some_conv split: if_splits dest!: rx_frame_radio)

lemma get_packet_radio: "get_packet_and_neighbor_for_link l g s = Some (p, n, g', s') \<Longrightarrow> radio_is_on g' = radio_is_on g"
  by (auto simp: get_packet_and_neighbor_for_link_def Let_def bind_eq_Some_conv split: if_splits)

text \<open>
  The radio is never left on: whatever a node does in a slot (sending with or without an acknowledgement, listening with or without
  a packet, or nothing) and whatever the radio driver answers, a radio that is off when the slot begins is off when it ends.
\<close>

theorem radio_off_after_slot:
  assumes "\<not> radio_is_on g" "run_slot frame0 params0 dest0 io g s = Some (sent, g', s')"
  shows "\<not> radio_is_on g'"
  using assms
  by (auto simp: run_slot_def tsch_radio_on_def Let_def bind_eq_Some_conv split: if_splits option.splits
      dest!: get_packet_radio dest: tx_slot_radio rx_slot_radio)

text \<open>A node that listens and hears nothing it can read.\<close>

definition listening :: mac_state where
  "listening = (mac_boot linkaddr_null)\<lparr> tsch_lock_requested := False, current_link := Some 0,
     link_memb := \<lparr> m_count = [1], m_mem = [zero_link\<lparr> l_link_options := LINK_OPTION_RX \<rparr>] \<rparr>,
     packet_memb := \<lparr> m_count = replicate 8 0, m_mem = replicate 8 zero_packet \<rparr>, input_ringbuf := ringbufindex_init 4,
     tsch_hopping_sequence := TSCH_DEFAULT_HOPPING_SEQUENCE, tsch_hopping_sequence_length := TSCH_ASN_DIVISOR_INIT 4 \<rparr>"

theorem radio_off_after_slot_witness:
  "\<exists>g' s'. run_slot zero_frame zero_frame linkaddr_null
     \<lparr> io_prepare = 0, io_transmit = 0, io_ackbuf = [], io_ack_len = 0, io_packet_seen = True, io_rx_start_time = 0, io_pending_packet = False, io_read = [], io_rssi = 0 \<rparr>
     slot_boot listening = Some (None, g', s') \<and> \<not> radio_is_on g'"
proof -
  let ?io = "\<lparr> io_prepare = 0, io_transmit = 0, io_ackbuf = [], io_ack_len = 0, io_packet_seen = True, io_rx_start_time = 0, io_pending_packet = False, io_read = [], io_rssi = 0 \<rparr>"
  obtain ch where "tsch_calculate_channel (tsch_current_asn listening) 0 (listening\<lparr> tsch_in_slot_operation := True \<rparr>) = Some ch"
    using channel_spec [of "listening\<lparr> tsch_in_slot_operation := True \<rparr>" 4 "tsch_current_asn listening" 0]
    by (simp add: listening_def TSCH_DEFAULT_HOPPING_SEQUENCE_def)
  then have "\<exists>g' s'. run_slot zero_frame zero_frame linkaddr_null ?io slot_boot listening = Some (None, g', s')"
    by (simp add: run_slot_def get_packet_and_neighbor_for_link_def slot_boot_def)
      (simp add: listening_def lnk_def zero_link_def tsch_queue_global_packet_count_def memb_numfree_def ringbufindex_init_def
        ringbufindex_peek_put_def tsch_default_timing_us_def nth_opt_def Let_def tsch_radio_on_def tsch_radio_off_def tsch_rx_slot_def)
  moreover have "\<not> radio_is_on slot_boot" by (simp add: slot_boot_def)
  ultimately show ?thesis using radio_off_after_slot by blast
qed

subsection \<open>The end of a transmission slot\<close>

definition dequeued :: "'a mac_state_scheme \<Rightarrow> nat option list" where
  "dequeued s = rb.contents (dequeued_ringbuf s) (dequeued_array s)"

definition dequeued_wf :: "'a mac_state_scheme \<Rightarrow> bool" where
  "dequeued_wf s \<longleftrightarrow> ring_wf (dequeued_ringbuf s) \<and> length (dequeued_array s) = Suc (ring_cap (dequeued_ringbuf s))"

lemma dequeued_put:
  assumes "dequeued_wf s" "ringbufindex_peek_put (dequeued_ringbuf s) \<noteq> - 1"
  defines "i \<equiv> nat (ringbufindex_peek_put (dequeued_ringbuf s))"
  shows "i < length (dequeued_array s)"
    "dequeued (s\<lparr> dequeued_array := (dequeued_array s)[i := Some p], dequeued_ringbuf := snd (ringbufindex_put (dequeued_ringbuf s)) \<rparr>) = dequeued s @ [Some p]"
proof -
  have r: "ring_wf (dequeued_ringbuf s)" "length (ring_slots (dequeued_ringbuf s)) < ring_cap (dequeued_ringbuf s)"
    "length (dequeued_array s) = Suc (ring_cap (dequeued_ringbuf s))"
    using assms(1,2) rb.peek_put_full_iff [of "dequeued_ringbuf s"] rb.slots_len [of "dequeued_ringbuf s"] by (auto simp: dequeued_wf_def)
  show "i < length (dequeued_array s)" using rb.put_ok [OF r(1,2)] r(3) by (auto simp: i_def)
  show "dequeued (s\<lparr> dequeued_array := (dequeued_array s)[i := Some p], dequeued_ringbuf := snd (ringbufindex_put (dequeued_ringbuf s)) \<rparr>) = dequeued s @ [Some p]"
    using rb.contents_store [OF r] by (simp add: dequeued_def i_def)
qed

lemma packet_sent_success_spec:
  assumes w: "q_wf s" "\<not> tsch_locked s" "n \<in> set (neighbor_list s)" "qpackets s n = p # ps"
  shows "\<exists>s'. tsch_queue_packet_sent n p link MAC_TX_OK s = Some (False, s') \<and> q_wf s' \<and> qpackets s' n = ps"
proof -
  obtain s1 where r: "tsch_queue_remove_packet_from_queue (Some n) s = Some (Some p, s1)" "q_wf s1" "qpackets s1 n = ps" "neighbor_list s1 = neighbor_list s"
    using remove_packet_cons [OF w] by blast
  have n: "n \<in> set (neighbor_list s1)" using w(3) r(4) by simp
  have "qpackets (tsch_queue_backoff_reset n s1) n = qpackets s1 n"
    using q_wfD(7) [OF r(2) n] by (simp add: qpackets_def tsch_queue_backoff_reset_def nbr_set_nbr)
  then show ?thesis using r backoff_reset_wf(1) [OF r(2) n] by (simp add: tsch_queue_packet_sent_def)
qed

text \<open>What the queue module does not touch: the array of sent packets, and the status of each packet.\<close>

definition sent_view :: "'a mac_state_scheme \<Rightarrow> ringbufindex \<times> nat option list \<times> u8 list" where
  "sent_view s = (dequeued_ringbuf s, dequeued_array s, map tp_ret (m_mem (packet_memb s)))"

lemma remove_packet_view:
  "tsch_queue_remove_packet_from_queue n s = Some (r, s') \<Longrightarrow> sent_view s' = sent_view s"
  by (auto simp: sent_view_def tsch_queue_remove_packet_from_queue_def set_nbr_def case_prod_unfold Let_def bind_eq_Some_conv
      split: if_splits option.splits)

lemma sent_view_simps [simp]:
  "sent_view (tsch_queue_backoff_inc n s) = sent_view s" "sent_view (tsch_queue_backoff_reset n s) = sent_view s"
  "sent_view (set_pkt p ((pkt s p)\<lparr> tp_max_transmissions := m \<rparr>) s) = sent_view s"
  by (simp_all add: sent_view_def tsch_queue_backoff_inc_def tsch_queue_backoff_reset_def set_nbr_def random_rand_def Let_def set_pkt_def memb_put_def
      map_update pkt_def) (metis list_update_beyond list_update_id map_update not_le nth_map length_map)

lemma packet_sent_view: "tsch_queue_packet_sent n p link status s = Some (k, s') \<Longrightarrow> sent_view s' = sent_view s"
  by (auto simp: tsch_queue_packet_sent_def Let_def bind_eq_Some_conv split: if_splits dest!: remove_packet_view)

lemma sent_view_eqD:
  assumes "sent_view s' = sent_view s"
  shows "dequeued s' = dequeued s" "dequeued_wf s' = dequeued_wf s" "dequeued_ringbuf s' = dequeued_ringbuf s"
    "p < memb_num (packet_memb s) \<Longrightarrow> tp_ret (pkt s' p) = tp_ret (pkt s p)"
proof -
  show "dequeued s' = dequeued s" "dequeued_wf s' = dequeued_wf s" "dequeued_ringbuf s' = dequeued_ringbuf s"
    using assms by (simp_all add: sent_view_def dequeued_def dequeued_wf_def)
  assume p: "p < memb_num (packet_memb s)"
  have "map tp_ret (m_mem (packet_memb s')) = map tp_ret (m_mem (packet_memb s))" using assms by (simp add: sent_view_def)
  then show "tp_ret (pkt s' p) = tp_ret (pkt s p)" using p unfolding pkt_def memb_num_def by (metis length_map nth_map)
qed

lemma tx_slot_end_ok:
  assumes w: "q_wf s" "\<not> tsch_locked s" "dequeued_wf s" "ringbufindex_peek_put (dequeued_ringbuf s) \<noteq> - 1"
    and c: "current_packet g = Some p" "current_neighbor g = Some n" "current_link s = Some l" "n \<in> set (neighbor_list s)" "qpackets s n = p # ps"
  defines "left \<equiv> unat (ap_attrs (abs_pkt s p) PACKETBUF_ATTR_TRANSMISSION_TTL - ucast (ls4b (tsch_current_asn s)))"
  defines "kept \<equiv> mac_tx_status g \<noteq> MAC_TX_OK \<and> keeps_packet left (tp_transmissions (pkt s p) + 1)"
  shows "\<exists>s'. tx_slot_end (nat (ringbufindex_peek_put (dequeued_ringbuf s))) g s = Some (tsch_radio_off TSCH_RADIO_CMD_OFF_END_OF_TIMESLOT g, s') \<and> q_wf s' \<and>
    qpackets s' n = (if kept then p # ps else ps) \<and> dequeued s' = (if kept then dequeued s else dequeued s @ [Some p]) \<and>
    tp_ret (pkt s' p) = mac_tx_status g"
proof -
  define s1 where "s1 = set_pkt p ((pkt s p)\<lparr> tp_transmissions := tp_transmissions (pkt s p) + 1, tp_ret := mac_tx_status g \<rparr>) s"
  have pu: "p \<in> memb_used (packet_memb s)" using q_wfD(9) [OF w(1) c(4)] c(5) by simp
  then have pn: "p < memb_num (packet_memb s)" using mb.used_bound [OF q_wfD(3) [OF w(1)]] by auto
  have s1: "q_wf s1" "\<not> tsch_locked s1" "n \<in> set (neighbor_list s1)" "qpackets s1 n = p # ps" "ls4b (tsch_current_asn s1) = ls4b (tsch_current_asn s)"
    "pkt s1 p = (pkt s p)\<lparr> tp_transmissions := tp_transmissions (pkt s p) + 1, tp_ret := mac_tx_status g \<rparr>" "current_link s1 = Some l"
    "bufmem s1 = bufmem s" "buframmem s1 = buframmem s" "dequeued s1 = dequeued s" "dequeued_wf s1" "dequeued_ringbuf s1 = dequeued_ringbuf s"
    "memb_num (packet_memb s1) = memb_num (packet_memb s)"
    using w c set_pkt_wf [OF w(1)] pn by (simp_all add: s1_def pkt_set_pkt) (simp_all add: set_pkt_def dequeued_def dequeued_wf_def)
  have at: "ap_attrs (abs_pkt s1 p) = ap_attrs (abs_pkt s p)" using s1(6) qb_contents_cong [OF s1(8,9)] by (simp add: abs_pkt_def Let_def)
  have "\<exists>s2. tsch_queue_packet_sent n p (lnk s1 l) (mac_tx_status g) s1 = Some (kept, s2) \<and> q_wf s2 \<and> qpackets s2 n = (if kept then p # ps else ps)"
  proof (cases "mac_tx_status g = MAC_TX_OK")
    case True
    then show ?thesis using packet_sent_success_spec [OF s1(1-4)] by (simp add: kept_def)
  next
    case False
    then show ?thesis using packet_sent_failure_spec [OF s1(1-4) False, of "lnk s1 l"] by (simp add: kept_def left_def s1(5,6) at)
  qed
  then obtain s2 where s2: "tsch_queue_packet_sent n p (lnk s1 l) (mac_tx_status g) s1 = Some (kept, s2)" "q_wf s2" "qpackets s2 n = (if kept then p # ps else ps)"
    by blast
  note v = sent_view_eqD [OF packet_sent_view [OF s2(1)]]
  have v': "dequeued s2 = dequeued s" "dequeued_wf s2" "ringbufindex_peek_put (dequeued_ringbuf s2) = ringbufindex_peek_put (dequeued_ringbuf s)"
    "tp_ret (pkt s2 p) = mac_tx_status g" using v(1-3) v(4) [of p] s1 pn w(4) by simp_all
  note put = dequeued_put [OF v'(2), unfolded v'(3), OF w(4)]
  define s3 where "s3 = post_event EV_POLL_PENDING_EVENTS (if kept then s2 else s2\<lparr> dequeued_array := (dequeued_array s2)[nat (ringbufindex_peek_put (dequeued_ringbuf s)) := Some p],
      dequeued_ringbuf := snd (ringbufindex_put (dequeued_ringbuf s2)) \<rparr>)"
  have eq: "tx_slot_end (nat (ringbufindex_peek_put (dequeued_ringbuf s))) g s = Some (tsch_radio_off TSCH_RADIO_CMD_OFF_END_OF_TIMESLOT g, s3)"
    using c(1-3) s2(1) put(1) s1(7)
    by (simp add: tx_slot_end_def s1_def [symmetric] tsch_radio_off_def upd_opt_def s3_def)
  have "q_wf s3" "qpackets s3 = qpackets s2" "pkt s3 = pkt s2" using q_wf_frame [of s3 s2] s2(2) by (simp_all add: s3_def post_event_def)
  moreover have "dequeued s3 = (if kept then dequeued s else dequeued s @ [Some p])"
    using put(2) v'(1) by (simp add: s3_def post_event_def dequeued_def)
  ultimately show ?thesis using eq s2(3) v'(4) by (intro exI [of _ s3]) simp
qed

text \<open>
  C24. The end of a transmission slot neither loses nor duplicates a packet: the packet at the head of its queue stays there
  exactly when the transmission failed and the packet may be sent again (\<open>keeps_packet\<close>); otherwise it leaves the queue and is appended to the
  packets whose sent callback is to be called. It records the status of the transmission, and the queues stay consistent.
\<close>

theorem tx_slot_conserves_packet:
  assumes "q_wf s" "\<not> tsch_locked s" "dequeued_wf s" "ringbufindex_peek_put (dequeued_ringbuf s) \<noteq> - 1"
    and "current_packet g = Some p" "current_neighbor g = Some n" "current_link s = Some l" "n \<in> set (neighbor_list s)" "qpackets s n = p # ps"
    and left: "left = unat (ap_attrs (abs_pkt s p) PACKETBUF_ATTR_TRANSMISSION_TTL - ucast (ls4b (tsch_current_asn s)))"
    and kept: "kept \<longleftrightarrow> mac_tx_status g \<noteq> MAC_TX_OK \<and> keeps_packet left (tp_transmissions (pkt s p) + 1)"
  shows "\<exists>g' s'. tx_slot_end (nat (ringbufindex_peek_put (dequeued_ringbuf s))) g s = Some (g', s') \<and> q_wf s' \<and>
    qpackets s' n = (if kept then p # ps else ps) \<and> dequeued s' = (if kept then dequeued s else dequeued s @ [Some p]) \<and>
    tp_ret (pkt s' p) = mac_tx_status g"
  using tx_slot_end_ok [OF assms(1-9)] unfolding kept left by blast

text \<open>
  C25. The status of a transmission is a static variable that is not set when the radio does not accept the packet: if the transmission
  of the slot before was acknowledged, a packet that the radio rejects, so that nothing is sent, leaves its queue and is reported as
  delivered.
\<close>

theorem rejected_packet_reported_as_sent:
  assumes w: "q_wf s" "\<not> tsch_locked s" "dequeued_wf s" "ringbufindex_peek_put (dequeued_ringbuf s) \<noteq> - 1"
    and c: "current_packet g = Some p" "current_neighbor g = Some n" "current_link s = Some l" "n \<in> set (neighbor_list s)" "qpackets s n = p # ps"
    and "n_eb s \<noteq> Some n" "io_prepare io \<noteq> 0" "mac_tx_status g = MAC_TX_OK"
  shows "\<exists>g' s'. tsch_tx_slot frame0 dest0 io g s = Some (None, g', s') \<and> qpackets s' n = ps \<and> dequeued s' = dequeued s @ [Some p] \<and>
    tp_ret (pkt s' p) = MAC_TX_OK"
proof -
  have pu: "p \<in> memb_used (packet_memb s)" using q_wfD(9) [OF w(1) c(4)] c(5) by simp
  obtain b where b: "b \<in> memb_used (bufmem s)" "tp_qb (pkt s p) = Some b" using w(1) pu unfolding q_wf_def pkts_wf_def by blast
  note q = qb_wfD [OF q_wfD(1) [OF w(1)] b(1)]
  have "length (qd_data (qb_contents s b)) = 96" using q(7) by (simp add: qd_wf_def)
  then have "transmit_packet frame0 dest0 io p b g s = Some (None, g, s)"
    using q(1,6) c(2) assms(10,11) by (simp add: transmit_packet_def queuebuf_dataptr_def queuebuf_datalen_def nth_opt_def Let_def)
  then have "tsch_tx_slot frame0 dest0 io g s = do {
      (g, s) \<leftarrow> tx_slot_end (nat (ringbufindex_peek_put (dequeued_ringbuf s))) g s; Some (None, g, s) }"
    using w(4) c(1) b(2) by (simp add: tsch_tx_slot_def)
  then show ?thesis using tx_slot_end_ok [OF w c] assms(12) by auto
qed

lemma sending_state:
  "\<exists>(s :: mac_state) n p. q_wf s \<and> \<not> tsch_locked s \<and> dequeued_wf s \<and> ringbufindex_peek_put (dequeued_ringbuf s) \<noteq> - 1 \<and> current_link s = Some 0 \<and>
     n \<in> set (neighbor_list s) \<and> qpackets s n = [p] \<and> n_eb s = None \<and> dequeued s = []"
proof -
  obtain s :: mac_state and n p where s: "q_wf s" "\<not> tsch_locked s" "tsch_queue_get_nbr (flow_addr 2) s = Some n" "qpackets s n = [p]"
    using flow_queued_state [of 2 "\<lambda>_. 0" 0 zero_link] by blast
  let ?s = "s\<lparr> current_link := Some 0, n_eb := None, dequeued_array := replicate 8 None, dequeued_ringbuf := ringbufindex_init 8 \<rparr>"
  have f: "q_wf ?s" "qpackets ?s = qpackets s" using q_wf_frame [of ?s s] s(1) by simp_all
  have r: "ring_wf (ringbufindex_init 8)" "ring_cap (ringbufindex_init 8) = 7" "ring_slots (ringbufindex_init 8) = []" using ring_init_wf [of 3] by simp_all
  have "addr_wf (flow_addr 2)" by (simp add: flow_addr_def addr_wf_def linkaddr_null_def)
  then have "n \<in> set (neighbor_list s)" using get_nbr_Some(1) [OF s(1) _ s(3)] by blast
  then show ?thesis using f s(2,4) r rb.peek_put_full_iff [OF r(1)]
    by (intro exI [of _ ?s] exI [of _ n] exI [of _ p]) (simp add: dequeued_wf_def dequeued_def rb.contents_def)
qed

theorem tx_slot_conserves_packet_witness:
  "\<exists>(s :: mac_state) (g :: slot_state) n p g' s'. qpackets s n = [p] \<and> tx_slot_end (nat (ringbufindex_peek_put (dequeued_ringbuf s))) g s = Some (g', s') \<and>
     qpackets s' n = [] \<and> dequeued s' = [Some p] \<and> tp_ret (pkt s' p) = MAC_TX_OK"
proof -
  obtain s :: mac_state and n p where s: "q_wf s" "\<not> tsch_locked s" "dequeued_wf s" "ringbufindex_peek_put (dequeued_ringbuf s) \<noteq> - 1"
      "current_link s = Some 0" "n \<in> set (neighbor_list s)" "qpackets s n = [p]" "dequeued s = []"
    using sending_state by blast
  let ?g = "slot_boot\<lparr> current_packet := Some p, current_neighbor := Some n, mac_tx_status := MAC_TX_OK \<rparr>"
  have "current_packet ?g = Some p" "current_neighbor ?g = Some n" by simp_all
  from tx_slot_conserves_packet [OF s(1-4) this s(5-7) refl refl] obtain g' s' where
      "tx_slot_end (nat (ringbufindex_peek_put (dequeued_ringbuf s))) ?g s = Some (g', s')" "qpackets s' n = []" "dequeued s' = [Some p]"
      "tp_ret (pkt s' p) = MAC_TX_OK" using s(8) by auto
  with s(7) show ?thesis by blast
qed

theorem rejected_packet_reported_as_sent_witness:
  "\<exists>(s :: mac_state) (g :: slot_state) n p g' s'. qpackets s n = [p] \<and> tsch_tx_slot zero_frame linkaddr_null
     \<lparr> io_prepare = 1, io_transmit = 0, io_ackbuf = [], io_ack_len = 0, io_packet_seen = False, io_rx_start_time = 0, io_pending_packet = False, io_read = [], io_rssi = 0 \<rparr>
     g s = Some (None, g', s') \<and> qpackets s' n = [] \<and> dequeued s' = [Some p] \<and> tp_ret (pkt s' p) = MAC_TX_OK"
proof -
  obtain s :: mac_state and n p where s: "q_wf s" "\<not> tsch_locked s" "dequeued_wf s" "ringbufindex_peek_put (dequeued_ringbuf s) \<noteq> - 1"
      "current_link s = Some 0" "n \<in> set (neighbor_list s)" "qpackets s n = [p]" "dequeued s = []" "n_eb s = None"
    using sending_state by blast
  let ?g = "slot_boot\<lparr> current_packet := Some p, current_neighbor := Some n, mac_tx_status := MAC_TX_OK \<rparr>"
  let ?io = "\<lparr> io_prepare = 1, io_transmit = 0, io_ackbuf = [], io_ack_len = 0, io_packet_seen = False, io_rx_start_time = 0, io_pending_packet = False, io_read = [], io_rssi = 0 \<rparr>"
  have g: "current_packet ?g = Some p" "current_neighbor ?g = Some n" "mac_tx_status ?g = MAC_TX_OK" and i: "io_prepare ?io \<noteq> 0" "n_eb s \<noteq> Some n"
    using s(9) by simp_all
  from rejected_packet_reported_as_sent [OF s(1-4) g(1,2) s(5-7) i(2,1) g(3), of zero_frame linkaddr_null] obtain g' s' where
      "tsch_tx_slot zero_frame linkaddr_null ?io ?g s = Some (None, g', s')" "qpackets s' n = []" "dequeued s' = [Some p]"
      "tp_ret (pkt s' p) = MAC_TX_OK" using s(8) by auto
  with s(7) show ?thesis by blast
qed

end
