(* ===== verification/Exchange.thy ===== *)
theory Exchange
  imports SlotProps
begin

text \<open>
  One slot at two nodes: the sender's transmission slot and the receiver's reception slot together deliver a unicast
  frame. The bytes the sender hands to its radio are those the receiver's radio reads, and the acknowledgement goes
  back the same way.
\<close>

subsection \<open>Unicast data frames\<close>

definition unicast_frame :: "linkaddr \<Rightarrow> linkaddr \<Rightarrow> u16 \<Rightarrow> frame802154_t \<Rightarrow> bool" where
  "unicast_frame a b pan f \<longleftrightarrow> length a = 8 \<and> length b = 8 \<and> a \<noteq> replicate 8 0xff \<and> b \<noteq> replicate 8 0xff \<and>
     fr_src_addr f = a \<and> fr_dest_addr f = b \<and> fr_dest_pid f = pan \<and> fcf_wf (fr_fcf f) \<and>
     fcf_frame_type (fr_fcf f) = FRAME802154_DATAFRAME \<and> fcf_ack_required (fr_fcf f) = 1 \<and> fcf_panid_compression (fr_fcf f) = 0 \<and>
     fcf_sequence_number_suppression (fr_fcf f) = 0 \<and> fcf_dest_addr_mode (fr_fcf f) = FRAME802154_LONGADDRMODE \<and>
     fcf_frame_version (fr_fcf f) = FRAME802154_IEEE802154_2015 \<and> fcf_src_addr_mode (fr_fcf f) = FRAME802154_LONGADDRMODE"

definition unicast_flen :: field_length_t where
  "unicast_flen = \<lparr> fl_seqno_len = 1, fl_dest_pid_len = 2, fl_dest_addr_len = 8, fl_src_pid_len = 0, fl_src_addr_len = 8, fl_aux_sec_len = 0 \<rparr>"

definition unicast_header :: "frame802154_t \<Rightarrow> u8 list" where
  "unicast_header f = frame802154_header unicast_flen f"

lemma unicast_field_len: "unicast_frame a b pan f \<Longrightarrow> field_len f = (unicast_flen, f)"
  by (simp add: unicast_frame_def field_len_def unicast_flen_def set_compression_def frame802154_has_panid_def addr_len_def)

lemma unicast_header_length: "unicast_frame a b pan f \<Longrightarrow> length (unicast_header f) = 21"
  by (simp add: unicast_frame_def unicast_header_def frame802154_header_def unicast_flen_def frame802154_create_fcf_def)

lemma unicast_header_seq: "unicast_frame a b pan f \<Longrightarrow> (unicast_header f @ r) ! 2 = fr_seq f"
  by (simp add: unicast_header_def frame802154_header_def unicast_flen_def frame802154_create_fcf_def)

lemma unicast_parse:
  fixes f f0 :: frame802154_t and len :: int
  assumes u: "unicast_frame a b pan f" and "21 \<le> len"
  defines "fr \<equiv> parsed_frame f 21 len f0"
  shows "frame802154_parse (unicast_header f @ r) len f0 = Some (21, fr)"
    "frame802154_extract_linkaddr (Some fr) x y = (True, a, b)"
    "frame802154_check_dest_panid pan (Some fr)" "fr_fcf fr = fr_fcf f" "fr_seq fr = fr_seq f"
proof -
  have w: "fcf_wf (fr_fcf f)" "length (fr_dest_addr f) = 8" "length (fr_src_addr f) = 8" "\<not> anonymous_pan (fr_fcf f)"
    using u by (simp_all add: unicast_frame_def anonymous_pan_def)
  show "frame802154_parse (unicast_header f @ r) len f0 = Some (21, fr)"
    using parse_header [OF w(1-3) unicast_field_len [OF u] w(4), of len r f0] assms(2) unicast_header_length [OF u]
    unfolding unicast_header_def [symmetric] fr_def by simp
  have nb: "\<not> list_all (\<lambda>b. b = 0xff) a" if "length a = 8" "a \<noteq> replicate 8 (0xff :: u8)" for a
    using that unfolding list_all_iff by (metis replicate_eqI)
  show "frame802154_extract_linkaddr (Some fr) x y = (True, a, b)"
    using u nb [of a] nb [of b]
    by (simp add: fr_def unicast_frame_def frame802154_extract_linkaddr_def extract_addr_def parsed_frame_def parsed_addr_def
        frame802154_has_panid_def frame802154_is_broadcast_addr_def Let_def)
  show "frame802154_check_dest_panid pan (Some fr)" "fr_fcf fr = fr_fcf f" "fr_seq fr = fr_seq f"
    using u by (simp_all add: fr_def unicast_frame_def frame802154_check_dest_panid_def parsed_frame_def frame802154_has_panid_def Let_def)
qed

subsection \<open>The receiver\<close>

definition inputs :: "'a mac_state_scheme \<Rightarrow> input_packet list" where
  "inputs s = rb.contents (input_ringbuf s) (input_array s)"

definition inputs_wf :: "'a mac_state_scheme \<Rightarrow> bool" where
  "inputs_wf s \<longleftrightarrow> ring_wf (input_ringbuf s) \<and> length (input_array s) = Suc (ring_cap (input_ringbuf s)) \<and>
     (\<forall>x \<in> set (input_array s). length (ip_payload x) = TSCH_PACKET_MAX_LEN)"

text \<open>The acknowledgement a node sends for a frame of \<open>a\<close>.\<close>

definition eack_bytes :: "linkaddr \<Rightarrow> u8 \<Rightarrow> u16 \<Rightarrow> frame802154_t \<Rightarrow> u16 \<Rightarrow> u8 list" where
  "eack_bytes a seqno pan params drift = frame802154_header eack_flen (eack_params a seqno pan params) @
     element frame80215e_create_ie_header_ack_nack_time_correction (ies_zero\<lparr> ie_time_correction := drift, ie_is_nack := 0 \<rparr>)"

lemma length_eack_bytes: "length a = 8 \<Longrightarrow> length (eack_bytes a seqno pan params drift) = 17"
  using ack_element(2) [of "replicate 17 0" 17] by (simp add: eack_bytes_def eack_header_length)

lemma acknowledge_ok:
  assumes "length a = 8"
  shows "\<exists>attr. acknowledge params a seqno d s = Some (Some (eack_bytes a seqno (mac_pan_id s) params (word_of_int (to_i16 d))), s\<lparr> eackbuf_attrs := attr \<rparr>)"
proof -
  obtain attr rest where "tsch_packet_create_eack params (Some (replicate 96 0)) 96 (Some a) seqno (word_of_int (to_i16 d)) 0 s =
      Some (17, Some (frame802154_header eack_flen (eack_params a seqno (mac_pan_id s) params) @
        element frame80215e_create_ie_header_ack_nack_time_correction (ies_zero\<lparr> ie_time_correction := word_of_int (to_i16 d), ie_is_nack := word_of_int 0 \<rparr>) @
        rest), s\<lparr> eackbuf_attrs := attr \<rparr>)"
    using create_eack_ok [OF assms, of 96 "replicate 96 0" params seqno "word_of_int (to_i16 d)" 0 s] by auto
  then have "tsch_packet_create_eack params (Some (replicate 96 0)) 96 (Some a) seqno (word_of_int (to_i16 d)) 0 s =
      Some (17, Some (eack_bytes a seqno (mac_pan_id s) params (word_of_int (to_i16 d)) @ rest), s\<lparr> eackbuf_attrs := attr \<rparr>)"
    by (simp add: eack_bytes_def)
  then show ?thesis using length_eack_bytes [OF assms] by (intro exI [of _ attr]) (simp add: acknowledge_def slice_opt_def)
qed

lemma rx_slot_delivers:
  fixes t :: "'a mac_state_scheme"
  assumes u: "unicast_frame a (linkaddr_node_addr t) (mac_pan_id t) f" and bytes: "io_read io = unicast_header f @ payload" "length (io_read io) \<le> TSCH_PACKET_MAX_LEN"
    and w: "inputs_wf t" "ringbufindex_peek_put (input_ringbuf t) \<noteq> - 1" "tsch_queue_global_packet_count t \<noteq> int QUEUEBUF_NUM - 1"
    and io: "io_packet_seen io" "io_pending_packet io" "tsch_ts_tx_offset < length (tsch_timing t) \<and> tsch_timing t ! tsch_ts_tx_offset = off"
    and n: "\<not> is_time_source (tsch_queue_get_nbr a t) t"
  shows "\<exists>x g' t'. tsch_rx_slot f0 params io g t =
      Some (Some (eack_bytes a (fr_seq f) (mac_pan_id t) params (word_of_int (to_i16 (to_i32 (sint (current_slot_start t + off - io_rx_start_time io)))))), g', t') \<and>
    inputs t' = inputs t @ [x] \<and> take (length (io_read io)) (ip_payload x) = io_read io \<and> ip_len x = int (length (io_read io)) \<and>
    ip_rx_asn x = tsch_current_asn t"
proof -
  define i where "i = nat (ringbufindex_peek_put (input_ringbuf t))"
  have r: "ring_wf (input_ringbuf t)" "length (ring_slots (input_ringbuf t)) < ring_cap (input_ringbuf t)"
    "length (input_array t) = Suc (ring_cap (input_ringbuf t))" "\<forall>x \<in> set (input_array t). length (ip_payload x) = TSCH_PACKET_MAX_LEN"
    using w(1,2) rb.peek_put_full_iff [of "input_ringbuf t"] rb.slots_len [of "input_ringbuf t"] by (auto simp: inputs_wf_def)
  have i: "i < length (input_array t)" using rb.put_ok [OF r(1,2)] r(3) by (auto simp: i_def)
  then have l: "length (ip_payload (input_array t ! i)) = TSCH_PACKET_MAX_LEN" using r(4) by simp
  define x where "x = \<lparr> ip_payload = put_at (ip_payload (input_array t ! i)) 0 (io_read io), ip_rx_asn = tsch_current_asn t,
      ip_len = int (length (io_read io)), ip_rssi = io_rssi io, ip_channel = current_channel g \<rparr>"
  have x: "\<lparr> ip_payload = ip_payload x, ip_rx_asn = tsch_current_asn t, ip_len = int (length (io_read io)), ip_rssi = io_rssi io,
      ip_channel = current_channel g \<rparr> = x" by (simp add: x_def)
  define t1 where "t1 = t\<lparr> input_array := (input_array t)[i := x] \<rparr>"
  define d where "d = to_i32 (sint (current_slot_start t + off - io_rx_start_time io))"
  have p: "put_opt (ip_payload (input_array t ! i)) 0 (io_read io) = Some (ip_payload x)" using bytes(2) l by (simp add: x_def put_opt_def)
  have hl: "length (unicast_header f) = 21" by (rule unicast_header_length [OF u])
  obtain rest where px: "ip_payload x = unicast_header f @ rest" using bytes(1) by (simp add: x_def put_at_def)
  note ps = unicast_parse [OF u, where len = "ip_len x" and ?f0.0 = f0]
  have lx: "21 \<le> ip_len x" using bytes(1) hl by (simp add: x_def)
  have a: "length a = 8" using u by (simp add: unicast_frame_def)
  obtain attr where ack: "acknowledge params a (fr_seq f) d (t1\<lparr> rx_count := rx_count t1 + 1 \<rparr>) =
      Some (Some (eack_bytes a (fr_seq f) (mac_pan_id t) params (word_of_int (to_i16 d))), t1\<lparr> rx_count := rx_count t1 + 1, eackbuf_attrs := attr \<rparr>)"
    using acknowledge_ok [OF a, of params "fr_seq f" d "t1\<lparr> rx_count := rx_count t1 + 1 \<rparr>"] by (auto simp: t1_def)
  define t2 where "t2 = t1\<lparr> rx_count := rx_count t1 + 1, eackbuf_attrs := attr \<rparr>"
  have n2: "tsch_queue_get_nbr a t2 = tsch_queue_get_nbr a t" "nbr t2 = nbr t"
    by (simp_all add: t2_def t1_def tsch_queue_get_nbr_def tsch_is_locked_def nbr_def fun_eq_iff)
  then have "\<not> is_time_source (tsch_queue_get_nbr a t2) t2" using n by (auto simp: is_time_source_def split: option.splits)
  then have sync: "sync_from_packet a d g' t2 = Some (g', t2)" for g' :: "'b slot_state_scheme"
    by (simp add: sync_from_packet_def Let_def)
  have own: "rx_own params (parsed_frame f 21 (ip_len x) f0) a (current_slot_start t + off) (io_rx_start_time io) g' t1 =
      Some (Some (eack_bytes a (fr_seq f) (mac_pan_id t) params (word_of_int (to_i16 d))), g', accept_input t2)" for g' :: "'b slot_state_scheme"
    using u ack sync unfolding rx_own_def d_def [symmetric] ps(4,5) [OF lx]
    by (simp add: unicast_frame_def t2_def)
  have fr: "rx_frame f0 params i (current_slot_start t + off) (io_rx_start_time io) g' t1 =
      Some (Some (eack_bytes a (fr_seq f) (mac_pan_id t) params (word_of_int (to_i16 d))), g', post_event EV_POLL_PENDING_EVENTS (accept_input t2))"
    for g' :: "'b slot_state_scheme"
  proof -
    have "nth_opt (input_array t1) i = Some x" using i by (simp add: t1_def)
    moreover have "frame802154_get_pan_id t1 = mac_pan_id t" "linkaddr_node_addr t1 = linkaddr_node_addr t"
      by (simp_all add: t1_def frame802154_get_pan_id_def)
    ultimately show ?thesis
      using own u ps(1) [OF lx, of rest] ps(2,3,4) [OF lx] unfolding rx_frame_def px [symmetric]
      by (simp add: unicast_frame_def linkaddr_cmp_def nth_opt_def)
  qed
  let ?t = "post_event EV_POLL_PENDING_EVENTS (accept_input t2)"
  have "inputs ?t = inputs t @ [x]"
    using rb.contents_store [OF r(1-3), of x] by (simp add: inputs_def post_event_def accept_input_def t2_def t1_def i_def)
  moreover have "take (length (io_read io)) (ip_payload x) = io_read io" using bytes(2) l slice_put_at [of 0 "io_read io" "ip_payload (input_array t ! i)"]
    by (simp add: x_def)
  moreover have "\<exists>g'. tsch_rx_slot f0 params io g t =
      Some (Some (eack_bytes a (fr_seq f) (mac_pan_id t) params (word_of_int (to_i16 d))), g', ?t)"
    using w(2,3) io i p fr
    unfolding tsch_rx_slot_def Let_def i_def [symmetric]
    by (simp add: tsch_radio_off_def tsch_radio_on_def put_opt_def nth_opt_def x t1_def [symmetric])
  ultimately show ?thesis unfolding d_def [symmetric] by (auto simp: x_def)
qed


subsection \<open>The sender\<close>

lemma tx_slot_acknowledged:
  fixes s :: "'a mac_state_scheme"
  assumes w: "q_wf s" "\<not> tsch_locked s" "dequeued_wf s" "ringbufindex_peek_put (dequeued_ringbuf s) \<noteq> - 1"
    and c: "current_packet g = Some p" "current_neighbor g = Some n" "current_link s = Some l" "n \<in> set (neighbor_list s)" "qpackets s n = p # ps"
    and n: "n_eb s \<noteq> Some n" "\<not> n_is_broadcast (nbr s n)" "\<not> is_time_source (actual_current_neighbor g) s" "\<not> n_is_time_source (nbr s n)"
    and u: "unicast_frame (linkaddr_node_addr s) b (mac_pan_id s) f" "ap_frame (abs_pkt s p) = unicast_header f @ payload"
    and io: "io_prepare io = 0" "io_transmit io = RADIO_TX_OK" "length (fr_src_addr params) = 8" "- 2048 \<le> sint drift" "sint drift < 2048"
      "io_ackbuf io = eack_bytes (linkaddr_node_addr s) (fr_seq f) (mac_pan_id s) params drift @ rest" "io_ack_len io = 17"
  shows "\<exists>g' s'. tsch_tx_slot f0 dest0 io g s = Some (Some (unicast_header f @ payload), g', s') \<and> q_wf s' \<and> qpackets s' n = ps \<and>
    dequeued s' = dequeued s @ [Some p] \<and> tp_ret (pkt s' p) = MAC_TX_OK"
proof -
  have pu: "p \<in> memb_used (packet_memb s)" using q_wfD(9) [OF w(1) c(4)] c(5) by simp
  obtain q where q: "q \<in> memb_used (bufmem s)" "tp_qb (pkt s p) = Some q" using w(1) pu unfolding q_wf_def pkts_wf_def by blast
  define d where "d = qb_contents s q"
  note qd = qb_wfD [OF q_wfD(1) [OF w(1)] q(1), folded d_def]
  have d: "length (qd_data d) = 96" "unat (qd_len d) \<le> 96" "take (unat (qd_len d)) (qd_data d) = unicast_header f @ payload"
    using qd(7) u(2) q(2) by (simp_all add: qd_wf_def abs_pkt_def d_def Let_def)
  have len: "unat (ucast (qd_len d) :: u8) = unat (qd_len d)" using d(2) by (simp add: unsigned_ucast_eq take_bit_nat_eq_self)
  have "21 \<le> length (take (unat (qd_len d)) (qd_data d))" using unicast_header_length [OF u(1)] unfolding d(3) by simp
  then have "qd_data d ! 2 = take (unat (qd_len d)) (qd_data d) ! 2" by simp
  then have seq: "qd_data d ! 2 = fr_seq f" using unicast_header_seq [OF u(1)] unfolding d(3) by simp
  define s1 where "s1 = s\<lparr> tx_count := tx_count s + 1 \<rparr>"
  have a: "length (linkaddr_node_addr s) = 8" using u(1) by (simp add: unicast_frame_def)
  obtain fr i where e: "tsch_packet_parse_eack (io_ackbuf io) 17 (fr_seq f) (Some f0) (Some ies_zero) True dest0 s1 = Some (17, Some fr, Some i, Some 17)"
    using eack_parse [OF a io(3-5), of s1 "mac_pan_id s" "fr_seq f" 0 rest f0 ies_zero dest0] io(6)
    by (auto simp: s1_def eack_bytes_def)
  have s1: "nbr s1 = nbr s" "n_eb s1 = n_eb s" by (simp_all add: s1_def nbr_def fun_eq_iff)
  have ts: "\<not> is_time_source (actual_current_neighbor g) s1" "\<not> is_time_source (Some n) s1"
    using n(3,4) s1 by (auto simp: is_time_source_def split: option.splits)
  have ack: "\<exists>g'. wait_for_ack f0 dest0 (fr_seq f) io (tsch_radio_off TSCH_RADIO_CMD_OFF_WITHIN_TIMESLOT g) s1 = Some (g', s1) \<and> mac_tx_status g' = MAC_TX_OK \<and>
      current_packet g' = Some p \<and> current_neighbor g' = Some n"
    using ts c(1,2) e io(7) by (simp add: wait_for_ack_def tsch_radio_off_def tsch_radio_on_def Let_def)
  then obtain g' where g': "wait_for_ack f0 dest0 (fr_seq f) io (tsch_radio_off TSCH_RADIO_CMD_OFF_WITHIN_TIMESLOT g) s1 = Some (g', s1)"
      "mac_tx_status g' = MAC_TX_OK" "current_packet g' = Some p" "current_neighbor g' = Some n" by blast
  have tr: "transmit_packet f0 dest0 io p q g s = Some (Some (unicast_header f @ payload), g', s1)"
    using qd(1,6) c(2) n(1,2) io(1,2) g'(1) d len seq
    by (simp add: transmit_packet_def queuebuf_dataptr_def queuebuf_datalen_def nth_opt_def slice_opt_def Let_def s1_def [symmetric])
  have s1': "q_wf s1" "\<not> tsch_locked s1" "dequeued_wf s1" "ringbufindex_peek_put (dequeued_ringbuf s1) \<noteq> - 1" "current_link s1 = Some l"
    "n \<in> set (neighbor_list s1)" "qpackets s1 n = p # ps" "dequeued_ringbuf s1 = dequeued_ringbuf s" "dequeued s1 = dequeued s"
    using q_wf_frame [of s1 s] w c by (simp_all add: s1_def dequeued_wf_def dequeued_def)
  obtain s2 where "tx_slot_end (nat (ringbufindex_peek_put (dequeued_ringbuf s))) g' s1 = Some (tsch_radio_off TSCH_RADIO_CMD_OFF_END_OF_TIMESLOT g', s2)"
      "q_wf s2" "qpackets s2 n = ps" "dequeued s2 = dequeued s @ [Some p]" "tp_ret (pkt s2 p) = MAC_TX_OK"
    using tx_slot_end_ok [OF s1'(1-4) g'(3,4) s1'(5-7)] g'(2) s1'(8,9) by auto
  moreover from this(1) have "tsch_tx_slot f0 dest0 io g s = Some (Some (unicast_header f @ payload), tsch_radio_off TSCH_RADIO_CMD_OFF_END_OF_TIMESLOT g', s2)"
    using tr w(4) c(1) q(2) by (simp add: tsch_tx_slot_def)
  ultimately show ?thesis by blast
qed


subsection \<open>The exchange\<close>

text \<open>
  C26. A slot in which one node sends a unicast data frame to another that listens, on the simulated radio that carries the bytes
  unchanged both ways: the receiver's input queue gets the frame, byte for byte, and the acknowledgement it answers with is accepted by
  the sender, whose packet leaves its queue and is reported as delivered. The frame has to have arrived within the range of the
  twelve-bit time correction, and neither node uses the other as time source.
\<close>

theorem unicast_exchange:
  fixes s :: "'a mac_state_scheme" and t :: "'b mac_state_scheme"
  assumes sender: "q_wf s" "\<not> tsch_locked s" "dequeued_wf s" "ringbufindex_peek_put (dequeued_ringbuf s) \<noteq> - 1"
      "current_packet g = Some p" "current_neighbor g = Some n" "current_link s = Some l" "n \<in> set (neighbor_list s)" "qpackets s n = p # ps"
      "n_eb s \<noteq> Some n" "\<not> n_is_broadcast (nbr s n)" "\<not> is_time_source (actual_current_neighbor g) s" "\<not> n_is_time_source (nbr s n)"
    and receiver: "inputs_wf t" "ringbufindex_peek_put (input_ringbuf t) \<noteq> - 1" "tsch_queue_global_packet_count t \<noteq> int QUEUEBUF_NUM - 1"
      "tsch_ts_tx_offset < length (tsch_timing t) \<and> tsch_timing t ! tsch_ts_tx_offset = off"
      "\<not> is_time_source (tsch_queue_get_nbr (linkaddr_node_addr s) t) t" "length (fr_src_addr params) = 8"
    and frame: "unicast_frame (linkaddr_node_addr s) (linkaddr_node_addr t) (mac_pan_id s) f" "mac_pan_id t = mac_pan_id s"
      "ap_frame (abs_pkt s p) = unicast_header f @ payload"
    and air: "io_packet_seen io" "io_pending_packet io" "io_read io = ap_frame (abs_pkt s p)" "\<bar>sint (current_slot_start t + off - io_rx_start_time io)\<bar> < 2048"
  shows "\<exists>ack x h' t'. tsch_rx_slot f0 params io h t = Some (Some ack, h', t') \<and> inputs t' = inputs t @ [x] \<and>
    take (nat (ip_len x)) (ip_payload x) = ap_frame (abs_pkt s p) \<and>
    (\<forall>io' rest. io_prepare io' = 0 \<and> io_transmit io' = RADIO_TX_OK \<and> io_ackbuf io' = ack @ rest \<and> io_ack_len io' = int (length ack) \<longrightarrow>
      (\<exists>g' s'. tsch_tx_slot f1 dest io' g s = Some (Some (ap_frame (abs_pkt s p)), g', s') \<and> q_wf s' \<and> qpackets s' n = ps \<and>
        dequeued s' = dequeued s @ [Some p] \<and> tp_ret (pkt s' p) = MAC_TX_OK))"
proof -
  define d where "d = sint (current_slot_start t + off - io_rx_start_time io)"
  have d: "- 2048 < d" "d < 2048" using air(4) by (simp_all add: d_def abs_less_iff)
  have d32: "to_i32 d = d" using d by (intro to_i32_id) simp_all
  have d16: "sint (word_of_int (to_i16 d) :: u16) = d" using d by (simp add: to_i16_def signed_of_int signed_take_bit_int_eq_self)
  have pu: "p \<in> memb_used (packet_memb s)" using q_wfD(9) [OF sender(1,8)] sender(9) by simp
  obtain q where q: "q \<in> memb_used (bufmem s)" "tp_qb (pkt s p) = Some q" using sender(1) pu unfolding q_wf_def pkts_wf_def by blast
  have len: "length (io_read io) \<le> TSCH_PACKET_MAX_LEN"
    using qb_wfD(7) [OF q_wfD(1) [OF sender(1)] q(1)] air(3) q(2) by (simp add: qd_wf_def abs_pkt_def Let_def)
  have a: "length (linkaddr_node_addr s) = 8" using frame(1) by (simp add: unicast_frame_def)
  let ?ack = "eack_bytes (linkaddr_node_addr s) (fr_seq f) (mac_pan_id s) params (word_of_int (to_i16 d))"
  obtain x h' t' where r: "tsch_rx_slot f0 params io h t = Some (Some ?ack, h', t')" "inputs t' = inputs t @ [x]"
      "take (length (io_read io)) (ip_payload x) = io_read io" "ip_len x = int (length (io_read io))"
    using rx_slot_delivers [of "linkaddr_node_addr s" t f io payload off f0 params h] frame air(1-3) len receiver
    unfolding d_def [symmetric] d32 by auto
  have "\<exists>g' s'. tsch_tx_slot f1 dest io' g s = Some (Some (ap_frame (abs_pkt s p)), g', s') \<and> q_wf s' \<and> qpackets s' n = ps \<and>
        dequeued s' = dequeued s @ [Some p] \<and> tp_ret (pkt s' p) = MAC_TX_OK"
    if "io_prepare io' = 0" "io_transmit io' = RADIO_TX_OK" "io_ackbuf io' = ?ack @ rest" "io_ack_len io' = int (length ?ack)" for io' rest
    unfolding frame(3)
    by (rule tx_slot_acknowledged [OF sender frame(1,3) that(1,2) receiver(6) _ _ that(3)])
      (use d d16 that(4) length_eack_bytes [OF a] in simp_all)
  then show ?thesis using r air(3) by (intro exI [of _ ?ack] exI [of _ x] exI [of _ h'] exI [of _ t']) auto
qed


text \<open>Node 1 with a data frame for node 2 queued, and node 2 listening.\<close>

definition node1 :: linkaddr where "node1 = [1, 0, 0, 0, 0, 0, 0, 0]"
definition node2 :: linkaddr where "node2 = [2, 0, 0, 0, 0, 0, 0, 0]"

definition frame12 :: frame802154_t where
  "frame12 = data_frame_example\<lparr> fr_dest_addr := node2, fr_src_addr := node1 \<rparr>"

lemma frame12: "unicast_frame node1 node2 0x4bb4 frame12"
  by (simp add: unicast_frame_def frame12_def data_frame_example_def node1_def node2_def fcf_wf_def addr_mode_ok_def Cons_replicate_eq)

definition listener :: mac_state where
  "listener = (mac_boot node2)\<lparr> neighbor_list := [], packet_memb := \<lparr> m_count = replicate 8 0, m_mem = replicate 8 zero_packet \<rparr>, mac_pan_id := 0x4bb4,
     input_array := replicate 4 \<lparr> ip_payload = replicate 96 0, ip_rx_asn = \<lparr> ls4b = 0, ms1b = 0 \<rparr>, ip_len = 0, ip_rssi = 0, ip_channel = 0 \<rparr>,
     input_ringbuf := ringbufindex_init 4, current_slot_start := 0, tsch_timing := tsch_default_timing_us \<rparr>"

lemma listener: "inputs_wf listener" "ringbufindex_peek_put (input_ringbuf listener) \<noteq> - 1" "tsch_queue_global_packet_count listener \<noteq> int QUEUEBUF_NUM - 1"
  "tsch_ts_tx_offset < length (tsch_timing listener) \<and> tsch_timing listener ! tsch_ts_tx_offset = 2120"
  "\<not> is_time_source (tsch_queue_get_nbr a listener) listener" "linkaddr_node_addr listener = node2" "mac_pan_id listener = 0x4bb4"
  "current_slot_start listener = 0" "inputs listener = []"
proof -
  have r: "ring_wf (ringbufindex_init 4)" "ring_cap (ringbufindex_init 4) = 3" "ring_slots (ringbufindex_init 4) = []" using ring_init_wf [of 2] by simp_all
  show "inputs_wf listener" "inputs listener = []" using r by (simp_all add: inputs_wf_def inputs_def listener_def rb.contents_def)
  show "ringbufindex_peek_put (input_ringbuf listener) \<noteq> - 1" using rb.peek_put_full_iff [OF r(1)] r by (simp add: listener_def)
  show "tsch_queue_global_packet_count listener \<noteq> int QUEUEBUF_NUM - 1" by (simp add: listener_def tsch_queue_global_packet_count_def memb_numfree_def)
  show "tsch_ts_tx_offset < length (tsch_timing listener) \<and> tsch_timing listener ! tsch_ts_tx_offset = 2120"
    by (simp add: listener_def tsch_default_timing_us_def)
  show "\<not> is_time_source (tsch_queue_get_nbr a listener) listener" by (simp add: listener_def tsch_queue_get_nbr_def is_time_source_def)
  show "linkaddr_node_addr listener = node2" using mac_boot_ok(5) by (simp add: listener_def)
  show "mac_pan_id listener = 0x4bb4" "current_slot_start listener = 0" by (simp_all add: listener_def)
qed

lemma speaker:
  "\<exists>(s :: mac_state) n p. q_wf s \<and> \<not> tsch_locked s \<and> dequeued_wf s \<and> ringbufindex_peek_put (dequeued_ringbuf s) \<noteq> - 1 \<and> current_link s = Some 0 \<and>
     n \<in> set (neighbor_list s) \<and> qpackets s n = [p] \<and> n_eb s = None \<and> dequeued s = [] \<and> \<not> n_is_broadcast (nbr s n) \<and> \<not> n_is_time_source (nbr s n) \<and>
     linkaddr_node_addr s = node1 \<and> mac_pan_id s = 0x4bb4 \<and> ap_frame (abs_pkt s p) = unicast_header frame12 @ [7]"
proof -
  have l: "length (unicast_header frame12 @ [7]) \<le> 96" using unicast_header_length [OF frame12] by simp
  obtain s :: mac_state and n p where s: "q_wf s" "\<not> tsch_locked s" "tsch_queue_get_nbr (flow_addr 2) s = Some n" "qpackets s n = [p]"
      "ap_frame (abs_pkt s p) = unicast_header frame12 @ [7]"
    using flow_queued_frame [OF l, of 2 "\<lambda>_. 0" 0 zero_link] by blast
  let ?s = "s\<lparr> current_link := Some 0, n_eb := None, dequeued_array := replicate 8 None, dequeued_ringbuf := ringbufindex_init 8,
    linkaddr_node_addr := node1, mac_pan_id := 0x4bb4 \<rparr>"
  have f: "q_wf ?s" "qpackets ?s = qpackets s" "nbr ?s = nbr s" "abs_pkt ?s = abs_pkt s"
    using q_wf_frame [of ?s s] queues_cong(2) [of ?s s] s(1) by simp_all
  have "addr_wf (flow_addr 2)" by (simp add: flow_addr_def addr_wf_def linkaddr_null_def)
  then have n: "n \<in> set (neighbor_list ?s)" using get_nbr_Some(1) [OF s(1) _ s(3)] by simp
  let ?x = "(nbr s n)\<lparr> n_is_broadcast := False, n_is_time_source := False \<rparr>"
  have x: "nbr_wf ?x" "n_addr ?x = n_addr (nbr ?s n)" "nqueue ?x = nqueue (nbr ?s n)"
    using q_wfD(6) [OF f(1) n] f(3) by (simp_all add: nbr_wf_def backoff_wf_def nqueue_def)
  let ?t = "set_nbr n ?x ?s"
  have "q_wf ?t" using q_wf_set_nbr [OF f(1) n x(1,2)] x(3) q_wfD(8) [OF f(1) n] by (simp add: qpackets_def)
  moreover have nb: "nbr ?t n = ?x" using q_wfD(7) [OF f(1) n] by (simp add: nbr_set_nbr)
  moreover have "qpackets ?t n = [p]" using nb x(3) f(3) s(4) by (simp add: qpackets_def)
  moreover have "abs_pkt ?t p = abs_pkt s p" using f(4) by (simp add: abs_pkt_def pkt_def qb_contents_def qb_block_def set_nbr_def)
  moreover have r: "ring_wf (ringbufindex_init 8)" "ring_cap (ringbufindex_init 8) = 7" "ring_slots (ringbufindex_init 8) = []" using ring_init_wf [of 3] by simp_all
  ultimately show ?thesis using s(2,5) n rb.peek_put_full_iff [OF r(1)] nb
    by (intro exI [of _ ?t] exI [of _ n] exI [of _ p]) (simp add: dequeued_wf_def dequeued_def rb.contents_def set_nbr_def)
qed

theorem unicast_exchange_witness:
  "\<exists>(s :: mac_state) g p n x ack h' t'. qpackets s n = [p] \<and>
     tsch_rx_slot zero_frame zero_frame \<lparr> io_prepare = 0, io_transmit = 0, io_ackbuf = [], io_ack_len = 0, io_packet_seen = True, io_rx_start_time = 2100,
       io_pending_packet = True, io_read = ap_frame (abs_pkt s p), io_rssi = 0 \<rparr> slot_boot listener = Some (Some ack, h', t') \<and>
     inputs t' = [x] \<and> take (nat (ip_len x)) (ip_payload x) = unicast_header frame12 @ [7] \<and>
     (\<exists>(g' :: slot_state) s'. tsch_tx_slot zero_frame linkaddr_null \<lparr> io_prepare = 0, io_transmit = 0, io_ackbuf = ack, io_ack_len = int (length ack), io_packet_seen = False,
       io_rx_start_time = 0, io_pending_packet = False, io_read = [], io_rssi = 0 \<rparr> g s = Some (Some (unicast_header frame12 @ [7]), g', s') \<and>
       qpackets s' n = [] \<and> dequeued s' = [Some p] \<and> tp_ret (pkt s' p) = MAC_TX_OK)"
proof -
  obtain s :: mac_state and n p where s: "q_wf s" "\<not> tsch_locked s" "dequeued_wf s" "ringbufindex_peek_put (dequeued_ringbuf s) \<noteq> - 1"
      "current_link s = Some 0" "n \<in> set (neighbor_list s)" "qpackets s n = [p]" "\<not> n_is_broadcast (nbr s n)" "\<not> n_is_time_source (nbr s n)"
      "n_eb s = None" "dequeued s = []" "linkaddr_node_addr s = node1" "mac_pan_id s = 0x4bb4" "ap_frame (abs_pkt s p) = unicast_header frame12 @ [7]"
    using speaker by blast
  let ?g = "slot_boot\<lparr> current_packet := Some p, current_neighbor := Some n \<rparr>"
  let ?io = "\<lparr> io_prepare = 0, io_transmit = 0, io_ackbuf = [], io_ack_len = 0, io_packet_seen = True, io_rx_start_time = 2100, io_pending_packet = True,
    io_read = ap_frame (abs_pkt s p), io_rssi = 0 \<rparr>"
  have g: "current_packet ?g = Some p" "current_neighbor ?g = Some n" "\<not> is_time_source (actual_current_neighbor ?g) s" "n_eb s \<noteq> Some n"
    using s(10) by (simp_all add: slot_boot_def is_time_source_def)
  have z: "length (fr_src_addr zero_frame) = 8" by (simp add: zero_frame_def linkaddr_null_def)
  have f: "unicast_frame (linkaddr_node_addr s) (linkaddr_node_addr listener) (mac_pan_id s) frame12" "mac_pan_id listener = mac_pan_id s"
    using frame12 s(12,13) listener(6,7) by simp_all
  have io: "io_packet_seen ?io" "io_pending_packet ?io" "io_read ?io = ap_frame (abs_pkt s p)" "\<bar>sint (current_slot_start listener + 2120 - io_rx_start_time ?io)\<bar> < 2048"
    by (simp_all add: listener(8))
  from unicast_exchange [OF s(1-4) g(1,2) s(5-7) g(4) s(8) g(3) s(9) listener(1-5) z f s(14) io, of zero_frame slot_boot zero_frame linkaddr_null]
  obtain ack x h' t' where r: "tsch_rx_slot zero_frame zero_frame ?io slot_boot listener = Some (Some ack, h', t')" "inputs t' = inputs listener @ [x]"
      "take (nat (ip_len x)) (ip_payload x) = ap_frame (abs_pkt s p)"
      "\<forall>io' rest. io_prepare io' = 0 \<and> io_transmit io' = RADIO_TX_OK \<and> io_ackbuf io' = ack @ rest \<and> io_ack_len io' = int (length ack) \<longrightarrow>
        (\<exists>g' s'. tsch_tx_slot zero_frame linkaddr_null io' ?g s = Some (Some (ap_frame (abs_pkt s p)), g', s') \<and> q_wf s' \<and> qpackets s' n = [] \<and>
          dequeued s' = dequeued s @ [Some p] \<and> tp_ret (pkt s' p) = MAC_TX_OK)" by blast
  let ?a = "\<lparr> io_prepare = 0, io_transmit = 0, io_ackbuf = ack, io_ack_len = int (length ack), io_packet_seen = False, io_rx_start_time = 0,
    io_pending_packet = False, io_read = [], io_rssi = 0 \<rparr>"
  obtain g' s' where "tsch_tx_slot zero_frame linkaddr_null ?a ?g s = Some (Some (unicast_header frame12 @ [7]), g', s')" "qpackets s' n = []"
      "dequeued s' = [Some p]" "tp_ret (pkt s' p) = MAC_TX_OK"
    using r(4) [rule_format, of ?a "[]"] s(11,14) by auto
  then show ?thesis using r(1-3) s(7,14) listener(9)
    by (intro exI [of _ s] exI [of _ ?g] exI [of _ p] exI [of _ n] exI [of _ x] exI [of _ ack] exI [of _ h'] exI [of _ t'] conjI exI [of _ g'] exI [of _ s']) simp_all
qed

end
