(* ===== verification/SlotSafety.thy ===== *)
theory SlotSafety
  imports Exchange
begin

text \<open>
  Safety of the slot operation: the well-formedness of the state of the MAC layer is an invariant of every slot, whatever the
  radio driver answers and whatever bytes arrive, and no slot makes an undefined access.
\<close>

subsection \<open>The invariant\<close>

definition timing_wf :: "'a mac_state_scheme \<Rightarrow> bool" where
  "timing_wf s \<longleftrightarrow> length (tsch_timing s) = tsch_ts_elements_count \<and> 0 < uint (tsch_timing s ! tsch_ts_timeslot_length) \<and>
     uint (tsch_timing s ! tsch_ts_timeslot_length) \<le> 65000"

definition hopping_wf :: "'a mac_state_scheme \<Rightarrow> bool" where
  "hopping_wf s \<longleftrightarrow> (\<exists>v. tsch_hopping_sequence_length s = TSCH_ASN_DIVISOR_INIT v \<and> v \<noteq> 0 \<and> unat v \<le> length (tsch_hopping_sequence s))"

definition mac_wf :: "'a mac_state_scheme \<Rightarrow> bool" where
  "mac_wf s \<longleftrightarrow> sched_wf s \<and> \<not> tsch_locked s \<and> dequeued_wf s \<and> inputs_wf s \<and> timing_wf s \<and> hopping_wf s \<and>
     (\<forall>n. n_eb s = Some n \<longrightarrow> n \<in> set (neighbor_list s)) \<and>
     (tsch_current_ka_timeout s = 0 \<or> tsch_current_ka_timeout s div 10 \<noteq> 0) \<and>
     (\<forall>x \<in> set (map tp_sync_ie_offset (m_mem (packet_memb s))). unat x \<le> PACKETBUF_SIZE)"

text \<open>The state of the time synchronisation.\<close>

definition entries_wf :: "'g timesync_state_scheme \<Rightarrow> bool" where
  "entries_wf g \<longleftrightarrow> length (te_buffer g) = 8 \<and> te_pos g < 8 \<and> timesync_entry_count g \<le> 8"

definition slot_wf :: "'g timesync_state_scheme \<Rightarrow> bool" where
  "slot_wf g \<longleftrightarrow> entries_wf g \<and> asn_since_last_learning g < 400"

lemma mac_wfD:
  assumes "mac_wf s"
  shows "q_wf s" "sc_wf s" "\<not> tsch_locked s" "dequeued_wf s" "inputs_wf s" "timing_wf s" "hopping_wf s"
    "n_eb s = Some n \<Longrightarrow> n \<in> set (neighbor_list s)" "tsch_current_ka_timeout s = 0 \<or> tsch_current_ka_timeout s div 10 \<noteq> 0"
    "p < memb_num (packet_memb s) \<Longrightarrow> unat (tp_sync_ie_offset (pkt s p)) \<le> PACKETBUF_SIZE"
  using assms by (auto simp: mac_wf_def sched_wf_def pkt_def memb_num_def)

text \<open>What the queue operations of a slot leave alone.\<close>

definition slot_view :: "'a tsch_state_scheme \<Rightarrow> 'a \<times> bool \<times> nat option \<times> u32 \<times> nat list \<times> u8 list" where
  "slot_view s = (tsch_state.more s, tsch_locked s, n_eb s, tsch_current_ka_timeout s, neighbor_list s, map tp_sync_ie_offset (m_mem (packet_memb s)))"

lemma mac_more:
  assumes "tsch_state.more s' = tsch_state.more s"
  shows "link_memb s' = link_memb s" "slotframe_memb s' = slotframe_memb s" "slotframe_list s' = slotframe_list s" "current_link s' = current_link s"
    "dequeued_array s' = dequeued_array s" "dequeued_ringbuf s' = dequeued_ringbuf s" "input_array s' = input_array s" "input_ringbuf s' = input_ringbuf s"
    "tsch_timing s' = tsch_timing s" "tsch_hopping_sequence s' = tsch_hopping_sequence s"
    "tsch_hopping_sequence_length s' = tsch_hopping_sequence_length s"
  using assms by (cases s; cases s'; simp)+

lemma mac_wf_view:
  assumes "mac_wf s" "q_wf s'" "slot_view s' = slot_view s"
  shows "mac_wf s'"
proof -
  have v: "tsch_state.more s' = tsch_state.more s" "tsch_locked s' = tsch_locked s" "n_eb s' = n_eb s" "tsch_current_ka_timeout s' = tsch_current_ka_timeout s"
    "neighbor_list s' = neighbor_list s" "map tp_sync_ie_offset (m_mem (packet_memb s')) = map tp_sync_ie_offset (m_mem (packet_memb s))"
    using assms(3) by (simp_all add: slot_view_def)
  note m = mac_more [OF v(1)]
  show ?thesis using assms(1,2) v(2-5) m sched_cong(1) [OF m(1-3)] unfolding mac_wf_def v(6)
    by (simp add: sched_wf_def dequeued_wf_def inputs_wf_def timing_wf_def hopping_wf_def)
qed

lemma mac_wf_frame:
  assumes "bufmem s' = bufmem s" "buframmem s' = buframmem s" "neighbor_memb s' = neighbor_memb s" "packet_memb s' = packet_memb s"
    "neighbor_list s' = neighbor_list s" "link_memb s' = link_memb s" "slotframe_memb s' = slotframe_memb s" "slotframe_list s' = slotframe_list s"
    "tsch_locked s' = tsch_locked s" "n_eb s' = n_eb s" "tsch_current_ka_timeout s' = tsch_current_ka_timeout s"
    "dequeued_array s' = dequeued_array s" "dequeued_ringbuf s' = dequeued_ringbuf s" "input_array s' = input_array s" "input_ringbuf s' = input_ringbuf s"
    "tsch_timing s' = tsch_timing s" "tsch_hopping_sequence s' = tsch_hopping_sequence s"
    "tsch_hopping_sequence_length s' = tsch_hopping_sequence_length s"
  shows "mac_wf s' = mac_wf s"
  using sched_wf_frame(1) [OF assms(1-8)] assms by (simp add: mac_wf_def dequeued_wf_def inputs_wf_def timing_wf_def hopping_wf_def)

lemma mac_wf_upd [simp]:
  "mac_wf (s\<lparr> tx_count := k \<rparr>) = mac_wf s" "mac_wf (s\<lparr> rx_count := k \<rparr>) = mac_wf s" "mac_wf (s\<lparr> sync_count := k \<rparr>) = mac_wf s"
  "mac_wf (s\<lparr> last_sync_asn := a \<rparr>) = mac_wf s" "mac_wf (s\<lparr> last_sync_time := c \<rparr>) = mac_wf s" "mac_wf (s\<lparr> events := e \<rparr>) = mac_wf s"
  "mac_wf (s\<lparr> eackbuf_attrs := b \<rparr>) = mac_wf s" "mac_wf (s\<lparr> current_link := l \<rparr>) = mac_wf s" "mac_wf (s\<lparr> tsch_in_slot_operation := i \<rparr>) = mac_wf s"
  "mac_wf (s\<lparr> keepalive_timer := t \<rparr>) = mac_wf s" "mac_wf (s\<lparr> random_pos := r \<rparr>) = mac_wf s" "mac_wf (s\<lparr> tsch_current_asn := a \<rparr>) = mac_wf s"
  "mac_wf (s\<lparr> current_slot_start := u \<rparr>) = mac_wf s" "mac_wf (s\<lparr> tsch_is_associated := y \<rparr>) = mac_wf s"
  "mac_wf (s\<lparr> clock_time := c \<rparr>) = mac_wf s" "mac_wf (s\<lparr> rtimer_now := u \<rparr>) = mac_wf s" "mac_wf (post_event ev s) = mac_wf s"
  by (rule mac_wf_frame; simp add: post_event_def)+

subsection \<open>Queues\<close>

lemma remove_packet_slot_view: "tsch_queue_remove_packet_from_queue n s = Some (r, s') \<Longrightarrow> slot_view s' = slot_view s"
  by (auto simp: slot_view_def tsch_queue_remove_packet_from_queue_def set_nbr_def case_prod_unfold Let_def bind_eq_Some_conv
      split: if_splits option.splits)

lemma free_packet_slot_view: "slot_view (tsch_queue_free_packet p s) = slot_view s"
  by (auto simp: slot_view_def tsch_queue_free_packet_def queuebuf_free_def memb_free_def Let_def split: option.splits)

lemma slot_view_upd [simp]:
  "slot_view (tsch_queue_backoff_inc n s) = slot_view s" "slot_view (tsch_queue_backoff_reset n s) = slot_view s" "slot_view (set_nbr n x s) = slot_view s"
  by (simp_all add: slot_view_def tsch_queue_backoff_inc_def tsch_queue_backoff_reset_def set_nbr_def random_rand_def Let_def)

lemma set_pkt_slot_view:
  "tp_sync_ie_offset x = tp_sync_ie_offset (pkt s p) \<Longrightarrow> slot_view (set_pkt p x s) = slot_view s"
  by (simp add: slot_view_def set_pkt_def memb_put_def map_update pkt_def) (metis list_update_beyond list_update_id map_update not_le nth_map length_map)

lemma packet_sent_slot_view: "tsch_queue_packet_sent n p link status s = Some (k, s') \<Longrightarrow> slot_view s' = slot_view s"
  by (auto simp: tsch_queue_packet_sent_def Let_def bind_eq_Some_conv set_pkt_slot_view split: if_splits dest!: remove_packet_slot_view)

lemma drop_expired_slot_view:
  assumes "drop_expired n link p s = Some r"
  shows "slot_view (snd r) = slot_view s"
  using _ assms
proof (rule drop_expired.raw_induct [where P = "\<lambda>n link p s r. slot_view (snd r) = slot_view s"], goal_cases)
  case (1 f n link p s r)
  then show ?case
    by (cases r) (auto simp: bind_eq_Some_conv free_packet_slot_view Let_def split: option.splits if_splits dest!: remove_packet_slot_view)
qed


text \<open>The packet for a link is the first of the queue of its neighbour.\<close>

definition first_of :: "'a tsch_state_scheme \<Rightarrow> nat option \<Rightarrow> nat option \<Rightarrow> bool" where
  "first_of s p n \<longleftrightarrow> (\<forall>q. p = Some q \<longrightarrow> (\<exists>m. n = Some m \<and> m \<in> set (neighbor_list s) \<and> (\<exists>ps. qpackets s m = q # ps)))"

lemma first_of_None [simp]: "first_of s None n" by (simp add: first_of_def)

lemma list_first_Some: "list_first xs = Some x \<Longrightarrow> \<exists>ys. xs = x # ys"
  by (cases xs) (simp_all add: list_first_def)

lemma get_packet_None [simp]: "tsch_queue_get_packet_for_nbr None link s = Some None"
  by (simp add: tsch_queue_get_packet_for_nbr_def Let_def)

lemma get_packet_blocked:
  "\<not> may_send link (nbr s n) \<Longrightarrow> tsch_queue_get_packet_for_nbr (Some n) (Some link) s = Some None"
  by (simp add: tsch_queue_get_packet_for_nbr_def may_send_def)

lemma get_packet_for_nbr_safe:
  assumes "q_wf s" "\<not> tsch_locked s" "\<And>m. n = Some m \<Longrightarrow> m \<in> set (neighbor_list s)"
  shows "\<exists>p. tsch_queue_get_packet_for_nbr n (Some link) s = Some p \<and> first_of s p n"
proof (cases n)
  case (Some m)
  then show ?thesis using get_packet_first [OF assms(1,2), of m link] get_packet_blocked [of link s m] assms(3)
    by (cases "may_send link (nbr s m)") (auto simp: first_of_def dest: list_first_Some)
qed simp

lemma first_of_used: "q_wf s \<Longrightarrow> first_of s (Some p) n \<Longrightarrow> p \<in> memb_used (packet_memb s)"
  using q_wfD(9) by (fastforce simp: first_of_def)

lemma get_nbr_in_list: "q_wf s \<Longrightarrow> tsch_queue_get_nbr a s = Some n \<Longrightarrow> n \<in> set (neighbor_list s)"
  by (auto simp: tsch_queue_get_nbr_def split: if_splits dest: find_Some_iff2)

lemma flow_packet_safe:
  fixes s :: "'a mac_state_scheme"
  assumes w: "mac_wf s" and n: "\<And>m. n = Some m \<Longrightarrow> m \<in> set (neighbor_list s)" "\<And>m. actual = Some m \<Longrightarrow> m \<in> set (neighbor_list s)"
  shows "\<exists>p k s'. flow_packet link n actual s = Some (p, k, s') \<and> mac_wf s' \<and> slot_view s' = slot_view s \<and> first_of s' p k"
proof -
  note q = mac_wfD(1,3) [OF w]
  obtain p where p: "tsch_queue_get_packet_for_nbr n (Some link) s = Some p" "first_of s p n" using get_packet_for_nbr_safe [OF q n(1)] by blast
  obtain a where a: "tsch_queue_get_packet_for_nbr actual (Some link) s = Some a" "first_of s a actual" using get_packet_for_nbr_safe [OF q n(2)] by blast
  have attr: "first_of s (Some x) k \<Longrightarrow> packet_attr ty x s = Some (ap_attrs (abs_pkt s x) ty)" for x k ty
    using packet_attr_ok [OF q(1) first_of_used [OF q(1)]] by blast
  have d: "\<exists>p' s'. drop_expired n link p s = Some (p', s') \<and> q_wf s' \<and> slot_view s' = slot_view s \<and> first_of s' p' n"
  proof (cases "\<exists>m. n = Some m \<and> may_send link (nbr s m)")
    case True
    then obtain m where m: "n = Some m" "may_send link (nbr s m)" by blast
    then have "p = list_first (qpackets s m)" using p(1) get_packet_first [OF q n(1) m(2)] by simp
    then obtain s' where s': "drop_expired n link p s = Some (list_first (qpackets s' m), s')" "q_wf s'" "neighbor_list s' = neighbor_list s"
      using drop_expired_ok [OF q n(1) m(2)] m(1) by blast
    moreover have "first_of s' (list_first (qpackets s' m)) n" using n(1) m(1) s'(3) by (auto simp: first_of_def dest: list_first_Some)
    ultimately show ?thesis using drop_expired_slot_view [OF s'(1)] by auto
  next
    case False
    then have "p = None" using p(1) get_packet_blocked [of link s] by (cases n) auto
    then show ?thesis using q by (simp add: drop_expired.simps)
  qed
  then obtain p' s' where s': "drop_expired n link p s = Some (p', s')" "q_wf s'" "slot_view s' = slot_view s" "first_of s' p' n" by blast
  have e: "\<exists>b. too_early p' s' = Some b"
    using packet_attr_ok [OF s'(2) first_of_used [OF s'(2)]] s'(4) by (cases p') (auto simp: too_early_def)
  have sk: "\<exists>b. (case a of None \<Rightarrow> Some False | Some q \<Rightarrow> do { x \<leftarrow> packet_attr PACKETBUF_ATTR_SEND_NBR q s; Some (x \<noteq> 0) }) = Some b"
    using attr a(2) by (cases a) auto
  show ?thesis using p a s' e sk w mac_wf_view [OF w s'(2,3)]
    by (auto simp: flow_packet_def)
qed

lemma unicast_any_safe:
  assumes "q_wf s" "\<not> tsch_locked s" "set ns \<subseteq> set (neighbor_list s)"
  shows "\<exists>p m. unicast_any_loop ns (Some link) s = Some (p, m) \<and> first_of s p m"
  using assms(3)
proof (induction ns)
  case (Cons n ns)
  obtain p where "tsch_queue_get_packet_for_nbr (Some n) (Some link) s = Some p" "first_of s p (Some n)"
    using get_packet_for_nbr_safe [OF assms(1,2), of "Some n"] Cons.prems by auto
  then show ?case using Cons by auto
qed simp

lemma get_packet_safe:
  fixes s :: "'a mac_state_scheme"
  assumes w: "mac_wf s"
  shows "\<exists>p n a s'. get_packet_and_neighbor_for_link l g s = Some (p, n, g\<lparr> actual_current_neighbor := a \<rparr>, s') \<and> mac_wf s' \<and>
    slot_view s' = slot_view s \<and> first_of s' p n"
proof -
  note q = mac_wfD(1,3) [OF w]
  let ?l = "lnk s l" and ?a = "tsch_queue_get_nbr (l_addr (lnk s l)) s" and ?g = "g\<lparr> actual_current_neighbor := tsch_queue_get_nbr (l_addr (lnk s l)) s \<rparr>"
  obtain e where e: "tsch_queue_get_packet_for_nbr (n_eb s) (Some ?l) s = Some e" "first_of s e (n_eb s)"
    using get_packet_for_nbr_safe [OF q mac_wfD(8) [OF w]] by blast
  obtain p k s' where f: "flow_packet ?l (tsch_queue_get_nbr (flow_addr (l_slotframe_handle ?l)) s) ?a s = Some (p, k, s')" "mac_wf s'"
      "slot_view s' = slot_view s" "first_of s' p k"
    using flow_packet_safe [OF w, of "tsch_queue_get_nbr (flow_addr (l_slotframe_handle ?l)) s" ?a ?l] get_nbr_in_list [OF q(1)] by metis
  have u: "\<exists>p m. tsch_queue_get_unicast_packet_for_any (Some ?l) s' = Some (p, m) \<and> first_of s' p m"
    using unicast_any_safe [OF mac_wfD(1,3) [OF f(2)] order_refl] by (auto simp: tsch_queue_get_unicast_packet_for_any_def tsch_is_locked_def)
  define adv where "adv \<longleftrightarrow> l_link_type ?l = LINK_TYPE_ADVERTISING \<or> l_link_type ?l = LINK_TYPE_ADVERTISING_ONLY"
  obtain p0 n0 where i: "(if adv then do { p \<leftarrow> tsch_queue_get_packet_for_nbr (n_eb s) (Some ?l) s; Some (p, n_eb s) } else Some (None, None)) = Some (p0, n0)"
      "first_of s p0 n0"
    using e by (cases adv) auto
  define data where "data = do {
      (p, n, s) \<leftarrow> flow_packet ?l (tsch_queue_get_nbr (flow_addr (l_slotframe_handle ?l)) s) ?a s;
      if p = None \<and> n = n_broadcast s then do {
        (p, m) \<leftarrow> tsch_queue_get_unicast_packet_for_any (Some ?l) s;
        Some (p, if p \<noteq> None then m else n, ?g, s)
      }
      else Some (p, n, ?g, s) }"
  have data: "\<exists>p n s'. data = Some (p, n, ?g, s') \<and> mac_wf s' \<and> slot_view s' = slot_view s \<and> first_of s' p n"
    using f u by (cases "p = None \<and> k = n_broadcast s'") (auto simp: data_def)
  have "get_packet_and_neighbor_for_link l g s =
      (if l_link_options ?l AND LINK_OPTION_TX \<noteq> 0
       then if l_link_type ?l \<noteq> LINK_TYPE_ADVERTISING_ONLY \<and> p0 = None then data else Some (p0, n0, g, s)
       else Some (None, None, g, s))"
    using i(1) by (simp add: get_packet_and_neighbor_for_link_def adv_def data_def Let_def)
  moreover have "g = g\<lparr> actual_current_neighbor := actual_current_neighbor g \<rparr>" by simp
  ultimately show ?thesis using data w i(2) first_of_None by metis
qed


subsection \<open>Time synchronisation\<close>

text \<open>What the end of a slot needs of the state before it.\<close>

definition tx_same :: "'a mac_state_scheme \<Rightarrow> 'a mac_state_scheme \<Rightarrow> bool" where
  "tx_same s' s \<longleftrightarrow> neighbor_memb s' = neighbor_memb s \<and> neighbor_list s' = neighbor_list s \<and> packet_memb s' = packet_memb s \<and>
     current_link s' = current_link s \<and> dequeued_ringbuf s' = dequeued_ringbuf s"

definition slot_same :: "'g slot_state_scheme \<Rightarrow> 'g slot_state_scheme \<Rightarrow> bool" where
  "slot_same g' g \<longleftrightarrow> current_packet g' = current_packet g \<and> current_neighbor g' = current_neighbor g \<and> radio_is_on g' = radio_is_on g"

lemma keepalive_safe:
  assumes "mac_wf s"
  shows "\<exists>s'. tsch_schedule_keepalive s = Some s' \<and> mac_wf s' \<and> tx_same s' s"
  using assms mac_wfD(9) [OF assms] by (auto simp: tsch_schedule_keepalive_def random_rand_def tx_same_def Let_def)

lemma ka_timeout_safe:
  assumes "mac_wf s"
  shows "\<exists>s'. tsch_set_ka_timeout TSCH_MAX_KEEPALIVE_TIMEOUT s = Some s' \<and> mac_wf s' \<and> tx_same s' s"
proof -
  let ?s = "s\<lparr> tsch_current_ka_timeout := TSCH_MAX_KEEPALIVE_TIMEOUT \<rparr>"
  have "mac_wf ?s" using assms sched_wf_frame(1) [of ?s s]
    by (simp add: mac_wf_def dequeued_wf_def inputs_wf_def timing_wf_def hopping_wf_def)
  from keepalive_safe [OF this] show ?thesis by (simp add: tsch_set_ka_timeout_def tx_same_def)
qed

lemma entry_add_safe:
  fixes g :: "'g slot_state_scheme" and s :: "'a mac_state_scheme"
  assumes "entries_wf g" "mac_wf s"
  shows "\<exists>v g' s'. timesync_entry_add val g s = Some (v, g', s') \<and> entries_wf g' \<and> mac_wf s' \<and> tx_same s' s \<and> slot_same g' g"
proof -
  define g0 where "g0 = (if timesync_entry_count g = 0 then g\<lparr> te_pos := 0 \<rparr> else g)"
  have g0: "length (te_buffer g0) = 8" "te_pos g0 < 8" "timesync_entry_count g0 \<le> 8" "timesync_entry_count g0 = timesync_entry_count g" "slot_same g0 g"
    using assms(1) by (simp_all add: g0_def entries_wf_def slot_same_def)
  have pos: "unat (te_pos g0) < 8" "(te_pos g0 + 1) mod 8 < 8" using g0(2) by (simp_all add: word_less_nat_alt unat_mod)
  define g1 where "g1 = g0\<lparr> te_buffer := (te_buffer g0)[unat (te_pos g0) := val] \<rparr>"
  have g1: "timesync_entry_count g1 = timesync_entry_count g" "te_pos g1 = te_pos g0" "length (te_buffer g1) = 8" by (simp_all add: g1_def g0)
  show ?thesis
  proof (cases "timesync_entry_count g < 8")
    case True
    then have "timesync_entry_count g + 1 \<le> 8" by (simp add: inc_le)
    moreover from this have "unat (timesync_entry_count g + 1) \<le> 8" by (simp add: word_le_nat_alt)
    ultimately show ?thesis using True g0 g1 pos assms(2)
      unfolding timesync_entry_add_def g0_def [symmetric] Let_def
      by (simp add: upd_opt_def slice_opt_def g1_def [symmetric]) (simp add: g1_def entries_wf_def slot_same_def tx_same_def)
  next
    case False
    obtain s' where "tsch_set_ka_timeout TSCH_MAX_KEEPALIVE_TIMEOUT s = Some s'" "mac_wf s'" "tx_same s' s" using ka_timeout_safe [OF assms(2)] by blast
    moreover have "timesync_entry_count g = 8" using False g0(3,4) by simp
    ultimately show ?thesis using g0 g1 pos
      unfolding timesync_entry_add_def g0_def [symmetric] Let_def
      by (simp add: upd_opt_def slice_opt_def g1_def [symmetric]) (simp add: g1_def entries_wf_def slot_same_def)
  qed
qed

lemma delta_ticks_nonzero:
  assumes "400 \<le> uint (a :: u32)" "uint a < 65936" "0 < uint (len :: u64)" "uint len \<le> 65000"
  shows "to_i32 (uint (ucast a * len)) \<noteq> 0"
proof
  define x where "x = uint a * uint len"
  have "x \<le> 65935 * 65000" unfolding x_def using assms by (intro mult_mono) simp_all
  moreover have "0 < x" unfolding x_def using assms by simp
  ultimately have x: "0 < x" "x < 2 ^ 32" by simp_all
  have "uint (ucast a :: u64) = uint a" using assms(2) by (simp add: unsigned_ucast_eq take_bit_int_eq_self)
  then have u: "uint (ucast a * len) = x" using x by (simp add: uint_word_ariths x_def)
  assume "to_i32 (uint (ucast a * len)) = 0"
  then have "(word_of_int x :: u32) = 0" unfolding u to_i32_def by (simp add: signed_eq_0_iff)
  then have "uint (word_of_int x :: u32) = 0" by simp
  then show False using x by (simp add: unsigned_of_int take_bit_int_eq_self)
qed

lemma timesync_update_safe:
  assumes g: "slot_wf g" and s: "mac_wf s"
  shows "\<exists>g' s'. tsch_timesync_update n d c g s = Some (g', s') \<and> slot_wf g' \<and> mac_wf s' \<and> tx_same s' s \<and> slot_same g' g"
proof (cases "last_timesource_neighbor g = n")
  case False
  then show ?thesis using assms by (simp add: tsch_timesync_update_def slot_wf_def entries_wf_def tx_same_def slot_same_def)
next
  case True
  define a where "a = asn_since_last_learning g + ucast d"
  define g1 where "g1 = g\<lparr> asn_since_last_learning := a \<rparr>"
  have "uint (asn_since_last_learning g) < 400" using g by (simp add: slot_wf_def word_less_def)
  moreover have "uint (ucast d :: u32) < 65536" using unsigned_less [of d] by (simp add: unsigned_ucast_eq take_bit_int_eq_self)
  ultimately have a: "uint a < 65936" unfolding a_def by (simp add: uint_plus_if')
  have t: "nth_opt (tsch_timing s) tsch_ts_timeslot_length = Some (tsch_timing s ! 11)" "0 < uint (tsch_timing s ! 11)" "uint (tsch_timing s ! 11) \<le> 65000"
    using mac_wfD(6) [OF s] by (simp_all add: timing_wf_def tsch_ts_elements_count_def)
  show ?thesis
  proof (cases "a < 400")
    case small: True
    then have "\<not> 400 \<le> a" by (simp add: not_le)
    then show ?thesis using small True assms
      by (simp add: tsch_timesync_update_def a_def [symmetric] slot_wf_def entries_wf_def tx_same_def slot_same_def Let_def)
  next
    case False
    then have "400 \<le> uint a" by (simp add: word_less_def)
    note nz = delta_ticks_nonzero [OF this a t(2,3)]
    let ?v = "to_i32 (to_i32 (c + compensated_ticks g) * TSCH_DRIFT_UNIT sdiv to_i32 (uint (ucast a * tsch_timing s ! 11)))"
    obtain v g' s' where e: "timesync_entry_add ?v g1 s = Some (v, g', s')" "entries_wf g'" "mac_wf s'" "tx_same s' s" "slot_same g' g1"
      using entry_add_safe [of g1 s ?v] assms by (auto simp: slot_wf_def entries_wf_def g1_def)
    then have "timesync_learn_drift_ticks a c g1 s = Some (g'\<lparr> drift_ppm := v \<rparr>, s')"
      using t(1) nz by (simp add: timesync_learn_drift_ticks_def g1_def nth_opt_def Let_def)
    moreover have "400 \<le> a" using False by simp
    ultimately show ?thesis using e True
      by (simp add: tsch_timesync_update_def g1_def a_def [symmetric] Let_def slot_wf_def entries_wf_def slot_same_def)
  qed
qed


subsection \<open>The transmission slot\<close>

lemma unat_of_int8: "0 \<le> k \<Longrightarrow> k < 256 \<Longrightarrow> unat (word_of_int k :: u8) = nat k"
  by (simp add: unsigned_of_int take_bit_int_eq_self)

lemma parse_eack_safe:
  assumes "len + 8 \<le> int (length buf)" "23 \<le> length buf" "len < 200"
  shows "\<exists>r fr i h. tsch_packet_parse_eack buf len seqno (Some f0) (Some i0) True dest s = Some (r, fr, i, h) \<and> (r \<noteq> 0 \<longrightarrow> i \<noteq> None)"
proof (cases "len < 0")
  case False
  obtain n fr where p: "frame802154_parse buf len f0 = Some (n, fr)" "n = 0 \<or> 2 \<le> n \<and> n \<le> len \<and> n \<le> 23"
    using header_parse_safe [OF assms(2), of len f0] by blast
  define c where "c = (word_of_int n :: u8)"
  have c: "n \<ge> 3 \<Longrightarrow> uint c = n" using p(2) by (auto simp: c_def unsigned_of_int take_bit_int_eq_self)
  have ie: "\<exists>r i. frame802154e_parse_information_elements (drop (unat c) buf) (word_of_int (len - uint c)) (Some ies_zero) = Some (r, Some i)" if "n \<ge> 3"
  proof -
    have "unat (word_of_int (len - uint c) :: u8) = nat (len - n)" unfolding c [OF that] using that p(2) assms(3) by (intro unat_of_int8) auto
    moreover have "unat c = nat n" using c [OF that] by (metis nat_uint_eq)
    ultimately have "unat (word_of_int (len - uint c) :: u8) + 8 \<le> length (drop (unat c) buf)"
      using that assms(1) p(2) unfolding length_drop by linarith
    then show ?thesis using parse_elements_safe [of "word_of_int (len - uint c)" "drop (unat c) buf" ies_zero] by (fastforce simp: ies_zero_def ies_sized_def)
  qed
  obtain ok src d where x: "frame802154_extract_linkaddr (Some fr) linkaddr_null dest = (ok, src, d)" by (cases "frame802154_extract_linkaddr (Some fr) linkaddr_null dest")
  show ?thesis
  proof (cases "n \<ge> 3")
    case True
    from ie [OF this] obtain r i where "frame802154e_parse_information_elements (drop (unat c) buf) (word_of_int (len - uint c)) (Some ies_zero) = Some (r, Some i)"
      by blast
    then show ?thesis using True p(1) x
      unfolding tsch_packet_parse_eack_def option.case Let_def c_def
      by (auto simp: add_payload_offset_def)
  qed (use p(1) False in \<open>simp add: tsch_packet_parse_eack_def\<close>)
qed (simp add: tsch_packet_parse_eack_def)


lemma sync_from_ack_safe:
  fixes g :: "'g slot_state_scheme" and s :: "'a mac_state_scheme"
  assumes "slot_wf g" "mac_wf s"
  shows "\<exists>g' s'. sync_from_ack i g s = Some (g', s') \<and> slot_wf g' \<and> mac_wf s' \<and> tx_same s' s \<and> slot_same g' g"
proof -
  obtain c where "\<exists>n d g' s'. sync_from_ack i g s = (do {
      (g, s) \<leftarrow> tsch_timesync_update n d c (g\<lparr> drift_correction := c, is_drift_correction_used := True \<rparr>) s;
      let s = s\<lparr> last_sync_asn := tsch_current_asn s, last_sync_time := clock_time s \<rparr>;
      s \<leftarrow> tsch_schedule_keepalive s;
      Some (g, s) })"
    unfolding sync_from_ack_def Let_def by fastforce
  then obtain n d where e: "sync_from_ack i g s = (do {
      (g, s) \<leftarrow> tsch_timesync_update n d c (g\<lparr> drift_correction := c, is_drift_correction_used := True \<rparr>) s;
      let s = s\<lparr> last_sync_asn := tsch_current_asn s, last_sync_time := clock_time s \<rparr>;
      s \<leftarrow> tsch_schedule_keepalive s;
      Some (g, s) })" by blast
  let ?g = "g\<lparr> drift_correction := c, is_drift_correction_used := True \<rparr>"
  have "slot_wf ?g" using assms(1) by (simp add: slot_wf_def entries_wf_def)
  then obtain g' s' where u: "tsch_timesync_update n d c ?g s = Some (g', s')" "slot_wf g'" "mac_wf s'" "tx_same s' s" "slot_same g' ?g"
    using timesync_update_safe [OF _ assms(2)] by blast
  obtain s2 where "tsch_schedule_keepalive (s'\<lparr> last_sync_asn := tsch_current_asn s', last_sync_time := clock_time s' \<rparr>) = Some s2" "mac_wf s2"
      "tx_same s2 (s'\<lparr> last_sync_asn := tsch_current_asn s', last_sync_time := clock_time s' \<rparr>)"
    using keepalive_safe u(3) by (metis mac_wf_upd(4,5))
  then show ?thesis using e u by (simp add: Let_def tx_same_def slot_same_def)
qed

definition io_wf :: "slot_io \<Rightarrow> bool" where
  "io_wf io \<longleftrightarrow> length (io_ackbuf io) = TSCH_PACKET_MAX_LEN \<and> io_ack_len io + 8 \<le> int TSCH_PACKET_MAX_LEN \<and> length (io_read io) + 8 \<le> TSCH_PACKET_MAX_LEN"

lemma wait_for_ack_safe:
  fixes g :: "'g slot_state_scheme" and s :: "'a mac_state_scheme"
  assumes "slot_wf g" "mac_wf s" "io_wf io" "\<not> radio_is_on g"
  shows "\<exists>g' s'. wait_for_ack f0 dest seqno io g s = Some (g', s') \<and> slot_wf g' \<and> mac_wf s' \<and> tx_same s' s \<and> slot_same g' g"
proof -
  define h where "h = g\<lparr> radio_is_on := False \<rparr>"
  have h: "tsch_radio_off TSCH_RADIO_CMD_OFF_WITHIN_TIMESLOT (tsch_radio_on TSCH_RADIO_CMD_ON_WITHIN_TIMESLOT g) = h" "slot_wf h" "slot_same h g"
    using assms(1,4) by (simp_all add: h_def tsch_radio_off_def tsch_radio_on_def slot_wf_def entries_wf_def slot_same_def)
  obtain r fr i l where p: "tsch_packet_parse_eack (io_ackbuf io) (io_ack_len io) seqno (Some f0) (Some ies_zero) True dest s = Some (r, fr, i, l)" "r \<noteq> 0 \<longrightarrow> i \<noteq> None"
    using parse_eack_safe [of "io_ack_len io" "io_ackbuf io" seqno f0 ies_zero dest s] assms(3) by (auto simp: io_wf_def)
  have st: "slot_wf (g'\<lparr> mac_tx_status := x \<rparr>) = slot_wf g'" "slot_same (g'\<lparr> mac_tx_status := x \<rparr>) g = slot_same g' g" for g' :: "'g slot_state_scheme" and x
    by (simp_all add: slot_wf_def entries_wf_def slot_same_def)
  show ?thesis
  proof (cases "io_ack_len io > 0 \<and> r \<noteq> 0 \<and> (is_time_source (actual_current_neighbor h) s \<or> is_time_source (current_neighbor h) s)")
    case True
    obtain j where j: "i = Some j" using True p(2) by auto
    obtain g' s' where y: "sync_from_ack j h s = Some (g', s')" "slot_wf g'" "mac_wf s'" "tx_same s' s" "slot_same g' h"
      using sync_from_ack_safe [OF h(2) assms(2)] by blast
    then have "slot_same g' g" using h(3) by (simp add: slot_same_def)
    then show ?thesis using True p y j h(1) by (simp add: wait_for_ack_def Let_def st)
  next
    case False
    then have "wait_for_ack f0 dest seqno io g s =
        Some (h\<lparr> mac_tx_status := (if io_ack_len io = 0 \<or> io_ack_len io > 0 \<and> r = 0 then MAC_TX_NOACK else MAC_TX_OK) \<rparr>, s)"
      using p(1) h(1) by (cases "io_ack_len io > 0"; cases "r = 0") (simp_all add: wait_for_ack_def)
    then show ?thesis using h(2,3) assms(2) by (simp add: st tx_same_def)
  qed
qed


text \<open>Writing the bytes of a packet keeps the queues.\<close>

lemma queuebuf_write_safe:
  fixes s :: "'a mac_state_scheme"
  assumes "mac_wf s" "b \<in> memb_used (bufmem s)" "length bytes = PACKETBUF_SIZE"
  shows "\<exists>s'. queuebuf_write b bytes s = Some s' \<and> mac_wf s' \<and> tx_same s' s"
proof -
  note w = mac_wfD(1) [OF assms(1)]
  note q = qb_wfD [OF q_wfD(1) [OF w] assms(2)]
  let ?s = "s\<lparr> buframmem := memb_put (buframmem s) (qb_block s b) ((qb_contents s b)\<lparr> qd_data := bytes \<rparr>) \<rparr>"
  have qb: "qb_block ?s = qb_block s" by (simp add: qb_block_def fun_eq_iff)
  have "qd_wf ((qb_contents s b)\<lparr> qd_data := bytes \<rparr>)" using q(7) assms(3) by (simp add: qd_wf_def)
  moreover have "\<forall>d \<in> set (m_mem (buframmem s)). qd_wf d" using q_wfD(1) [OF w] by (simp add: qb_wf_def list_all_iff)
  ultimately have "list_all qd_wf (m_mem (buframmem ?s))"
    using set_update_subset_insert [of "m_mem (buframmem s)" "qb_block s b" "(qb_contents s b)\<lparr> qd_data := bytes \<rparr>"] unfolding list_all_iff by auto
  then have "qb_wf ?s" using q_wfD(1) [OF w] unfolding qb_wf_def qb by simp
  moreover have "nbr ?s = nbr s" "pkt ?s = pkt s" "qpackets ?s = qpackets s" by (simp_all add: nbr_def pkt_def qpackets_def fun_eq_iff)
  ultimately have "q_wf ?s" using w by (auto simp: q_wf_def pools_wf_def nbrs_wf_def pkts_wf_def)
  then have "mac_wf ?s" using assms(1) sched_cong(1) [of ?s s]
    by (simp add: mac_wf_def sched_wf_def dequeued_wf_def inputs_wf_def timing_wf_def hopping_wf_def)
  then show ?thesis using q(1) by (simp add: queuebuf_write_def tx_same_def)
qed

lemma update_eb_safe:
  assumes "length buf = PACKETBUF_SIZE" "sz \<le> int (length buf)" "unat off \<le> length buf"
  shows "\<exists>buf'. tsch_packet_update_eb buf sz off s = Some (1, buf') \<and> length buf' = length buf"
proof -
  have "uint off = int (unat off)" by simp
  then have "8 \<le> sz - uint off \<Longrightarrow> 8 \<le> length buf - unat off" using assms(2) by linarith
  then show ?thesis using assms
    by (auto simp: tsch_packet_update_eb_def frame80215e_create_ie_tsch_synchronization_def put_ie_def put_opt_def Let_def)
qed


lemma transmit_safe:
  fixes g :: "'g slot_state_scheme" and s :: "'a mac_state_scheme"
  assumes w: "slot_wf g" "mac_wf s" "io_wf io" "\<not> radio_is_on g"
    and c: "current_neighbor g = Some n" "p \<in> memb_used (packet_memb s)" "tp_qb (pkt s p) = Some b"
  shows "\<exists>out g' s'. transmit_packet f0 dest io p b g s = Some (out, g', s') \<and> slot_wf g' \<and> mac_wf s' \<and> tx_same s' s \<and> slot_same g' g"
proof -
  note q = mac_wfD(1) [OF w(2)]
  have b: "b \<in> memb_used (bufmem s)" using q c(2,3) unfolding q_wf_def pkts_wf_def by force
  note qb = qb_wfD [OF q_wfD(1) [OF q] b]
  define d where "d = qb_contents s b"
  define len where "len = (ucast (qd_len d) :: u8)"
  have d: "length (qd_data d) = 96" "unat (qd_len d) \<le> 96" using qb(7) by (simp_all add: qd_wf_def d_def)
  have len: "unat len \<le> 96" using d(2) by (simp add: len_def unsigned_ucast_eq take_bit_nat_eq_self)
  then have len': "uint len \<le> 96" by (metis nat_uint_eq nat_le_iff of_nat_numeral)
  have "p < memb_num (packet_memb s)" using mb.used_bound [OF q_wfD(3) [OF q]] c(2) by auto
  then have off: "unat (tp_sync_ie_offset (pkt s p)) \<le> length (qd_data d)" using mac_wfD(10) [OF w(2)] d(1) by simp
  have "\<exists>bytes s1. length bytes = 96 \<and> mac_wf s1 \<and> tx_same s1 s \<and>
      (if n_eb s = Some n then do {
          (r, bytes) \<leftarrow> tsch_packet_update_eb (qd_data d) (uint len) (tp_sync_ie_offset (pkt s p)) s;
          s \<leftarrow> queuebuf_write b bytes s;
          Some (r \<noteq> 0, bytes, s)
        }
        else Some (True, qd_data d, s)) = Some (True, bytes, s1)"
  proof (cases "n_eb s = Some n")
    case True
    obtain buf where buf: "tsch_packet_update_eb (qd_data d) (uint len) (tp_sync_ie_offset (pkt s p)) s = Some (1, buf)" "length buf = 96"
      using update_eb_safe [of "qd_data d" "uint len" _ s] off d(1) len' by auto
    then show ?thesis using True queuebuf_write_safe [OF w(2) b, of buf] by auto
  qed (use d(1) w(2) in \<open>simp add: tx_same_def\<close>)
  then obtain bytes s1 where e: "length bytes = 96" "mac_wf s1" "tx_same s1 s"
      "(if n_eb s = Some n then do {
          (r, bytes) \<leftarrow> tsch_packet_update_eb (qd_data d) (uint len) (tp_sync_ie_offset (pkt s p)) s;
          s \<leftarrow> queuebuf_write b bytes s;
          Some (r \<noteq> 0, bytes, s)
        }
        else Some (True, qd_data d, s)) = Some (True, bytes, s1)" by blast
  define h where "h = tsch_radio_off TSCH_RADIO_CMD_OFF_WITHIN_TIMESLOT g"
  have h: "slot_wf h" "slot_same h g" "\<not> radio_is_on h" using w(1,4) by (simp_all add: h_def tsch_radio_off_def slot_wf_def entries_wf_def slot_same_def)
  define s2 where "s2 = s1\<lparr> tx_count := tx_count s1 + 1 \<rparr>"
  have s2: "mac_wf s2" "tx_same s2 s" using e(2,3) by (simp_all add: s2_def tx_same_def)
  define act where "act = (if io_transmit io = RADIO_TX_OK
      then if \<not> n_is_broadcast (nbr s n) then wait_for_ack f0 dest (qd_data d ! 2) io h s2 else Some (h\<lparr> mac_tx_status := MAC_TX_OK \<rparr>, s2)
      else Some (h\<lparr> mac_tx_status := MAC_TX_ERR \<rparr>, s2))"
  have "\<exists>g' s'. act = Some (g', s') \<and> slot_wf g' \<and> mac_wf s' \<and> tx_same s' s2 \<and> slot_same g' h"
    using wait_for_ack_safe [OF h(1) s2(1) w(3) h(3)] h(1) s2(1) by (auto simp: act_def slot_wf_def entries_wf_def tx_same_def slot_same_def)
  then obtain g' s' where a: "act = Some (g', s')" "slot_wf g'" "mac_wf s'" "tx_same s' s" "slot_same g' g"
    using s2(2) h(2) by (auto simp: tx_same_def slot_same_def)
  have "transmit_packet f0 dest io p b g s =
      (if io_prepare io = 0 then Some (Some (take (unat len) bytes), g', s') else Some (None, g, s1))"
    using qb(1,6) c(1) d(1) e(1,4) a(1) len
    unfolding transmit_packet_def act_def len_def s2_def
    by (cases "io_prepare io = 0") (simp_all add: queuebuf_dataptr_def queuebuf_datalen_def nth_opt_def slice_opt_def d_def [symmetric] h_def [symmetric] Let_def
        split del: if_split)
  then show ?thesis using a e(2,3) w(1) by (auto simp: slot_same_def)
qed

lemma dequeued_put_wf:
  assumes "dequeued_wf s" "ringbufindex_peek_put (dequeued_ringbuf s) \<noteq> - 1"
  shows "dequeued_wf (s\<lparr> dequeued_array := (dequeued_array s)[i := x], dequeued_ringbuf := snd (ringbufindex_put (dequeued_ringbuf s)) \<rparr>)"
proof -
  have r: "ring_wf (dequeued_ringbuf s)" "length (ring_slots (dequeued_ringbuf s)) < ring_cap (dequeued_ringbuf s)"
    using assms rb.peek_put_full_iff [of "dequeued_ringbuf s"] rb.slots_len [of "dequeued_ringbuf s"] by (auto simp: dequeued_wf_def)
  show ?thesis using rb.put_ok [OF r] assms(1) by (auto simp: dequeued_wf_def)
qed

lemma tx_slot_end_wf:
  assumes w: "mac_wf s" "ringbufindex_peek_put (dequeued_ringbuf s) \<noteq> - 1" and e: "tx_slot_end i g s = Some (g', s')" "q_wf s'"
  shows "mac_wf s'"
proof -
  from e(1) obtain p n l k s1 s2 where s: "tsch_queue_packet_sent n p l (mac_tx_status g) s1 = Some (k, s2)" "slot_view s1 = slot_view s"
      "s' = post_event EV_POLL_PENDING_EVENTS (if k then s2 else s2\<lparr> dequeued_array := (dequeued_array s2)[i := Some p],
        dequeued_ringbuf := snd (ringbufindex_put (dequeued_ringbuf s2)) \<rparr>)"
    by (auto simp: tx_slot_end_def tsch_radio_off_def Let_def bind_eq_Some_conv set_pkt_slot_view split: if_splits)
  have v: "slot_view s2 = slot_view s" using packet_sent_slot_view [OF s(1)] s(2) by simp
  have q: "q_wf s2" using e(2) q_wf_frame [of s' s2] s(3) by (simp add: post_event_def split: if_splits)
  have m: "mac_wf s2" by (rule mac_wf_view [OF w(1) q v])
  have r: "ringbufindex_peek_put (dequeued_ringbuf s2) \<noteq> - 1" using w(2) mac_more(6) [of s2 s] v by (simp add: slot_view_def)
  note d = dequeued_put_wf [OF mac_wfD(4) [OF m] r, of i "Some p"]
  let ?s = "s2\<lparr> dequeued_array := (dequeued_array s2)[i := Some p], dequeued_ringbuf := snd (ringbufindex_put (dequeued_ringbuf s2)) \<rparr>"
  have "mac_wf ?s" using m d sched_wf_frame(1) [of ?s s2] by (simp add: mac_wf_def inputs_wf_def timing_wf_def hopping_wf_def)
  then show ?thesis using m s(3) by (simp split: if_splits)
qed

lemma tx_slot_safe:
  fixes g :: "'g slot_state_scheme" and s :: "'a mac_state_scheme"
  assumes w: "slot_wf g" "mac_wf s" "io_wf io" "\<not> radio_is_on g"
    and c: "current_packet g = Some p" "first_of s (Some p) (current_neighbor g)" "current_link s = Some l"
  shows "\<exists>out g' s'. tsch_tx_slot f0 dest io g s = Some (out, g', s') \<and> slot_wf g' \<and> mac_wf s' \<and> \<not> radio_is_on g'"
proof (cases "ringbufindex_peek_put (dequeued_ringbuf s) = - 1")
  case False
  note q = mac_wfD(1) [OF w(2)]
  obtain n ps where n: "current_neighbor g = Some n" "n \<in> set (neighbor_list s)" "qpackets s n = p # ps" using c(2) by (auto simp: first_of_def)
  have pu: "p \<in> memb_used (packet_memb s)" using q_wfD(9) [OF q n(2)] n(3) by simp
  then obtain b where b: "tp_qb (pkt s p) = Some b" using used_has_qb [OF q] by blast
  obtain out h t where t: "transmit_packet f0 dest io p b g s = Some (out, h, t)" "slot_wf h" "mac_wf t" "tx_same t s" "slot_same h g"
    using transmit_safe [OF w n(1) pu b] by blast
  have t': "current_link t = Some l" "n \<in> set (neighbor_list t)" "qpackets t n = p # ps" "dequeued_ringbuf t = dequeued_ringbuf s"
    "current_packet h = Some p" "current_neighbor h = Some n" "\<not> radio_is_on h"
    using t(4,5) n c w(4) by (simp_all add: tx_same_def slot_same_def qpackets_def nbr_def)
  have p: "ringbufindex_peek_put (dequeued_ringbuf t) \<noteq> - 1" using False t'(4) by simp
  obtain s' where e: "tx_slot_end (nat (ringbufindex_peek_put (dequeued_ringbuf t))) h t = Some (tsch_radio_off TSCH_RADIO_CMD_OFF_END_OF_TIMESLOT h, s')" "q_wf s'"
    using tx_slot_end_ok [OF mac_wfD(1,3,4) [OF t(3)] p t'(5,6,1-3)] by blast
  have "mac_wf s'" by (rule tx_slot_end_wf [OF t(3) p e])
  moreover have "tsch_tx_slot f0 dest io g s = Some (out, tsch_radio_off TSCH_RADIO_CMD_OFF_END_OF_TIMESLOT h, s')"
    using False c(1) b t(1) e(1) t'(4) by (simp add: tsch_tx_slot_def)
  ultimately show ?thesis using t(2) t'(7) by (auto simp: tsch_radio_off_def)
qed (use w in \<open>simp add: tsch_tx_slot_def\<close>)


subsection \<open>The reception slot\<close>

lemma acknowledge_safe:
  assumes "mac_wf s" "length a = 8"
  shows "\<exists>ack s'. acknowledge params a seqno d s = Some (ack, s') \<and> mac_wf s' \<and> nbr s' = nbr s \<and> neighbor_list s' = neighbor_list s"
proof -
  obtain attr where "acknowledge params a seqno d s = Some (Some (eack_bytes a seqno (mac_pan_id s) params (word_of_int (to_i16 d))), s\<lparr> eackbuf_attrs := attr \<rparr>)"
    using acknowledge_ok [OF assms(2), of params seqno d s] by blast
  then show ?thesis using assms(1) by (simp add: nbr_def fun_eq_iff)
qed

lemma sync_from_packet_safe:
  fixes g :: "'g slot_state_scheme" and s :: "'a mac_state_scheme"
  assumes "slot_wf g" "mac_wf s"
  shows "\<exists>g' s'. sync_from_packet a d g s = Some (g', s') \<and> slot_wf g' \<and> mac_wf s' \<and> slot_same g' g"
proof (cases "is_time_source (tsch_queue_get_nbr a s) s")
  case True
  define s1 where "s1 = s\<lparr> last_sync_asn := tsch_current_asn s, last_sync_time := clock_time s, sync_count := sync_count s + 1 \<rparr>"
  define g1 where "g1 = g\<lparr> drift_correction := - d, is_drift_correction_used := True \<rparr>"
  have w: "slot_wf g1" "mac_wf s1" using assms by (simp_all add: s1_def g1_def slot_wf_def entries_wf_def)
  obtain g' s' where u: "tsch_timesync_update (tsch_queue_get_nbr a s) (ucast (TSCH_ASN_DIFF (tsch_current_asn s) (last_sync_asn s))) (- d) g1 s1 = Some (g', s')"
      "slot_wf g'" "mac_wf s'" "slot_same g' g1"
    using timesync_update_safe [OF w] by blast
  obtain s2 where "tsch_schedule_keepalive s' = Some s2" "mac_wf s2" using keepalive_safe [OF u(3)] by blast
  then show ?thesis using True u by (simp add: sync_from_packet_def Let_def s1_def g1_def slot_same_def)
qed (use assms in \<open>simp add: sync_from_packet_def slot_same_def Let_def\<close>)

lemma input_written:
  fixes s :: "'a mac_state_scheme"
  assumes "mac_wf s" "length (ip_payload x) = TSCH_PACKET_MAX_LEN"
  shows "mac_wf (s\<lparr> input_array := (input_array s)[i := x] \<rparr>)"
proof -
  have "inputs_wf (s\<lparr> input_array := (input_array s)[i := x] \<rparr>)"
    using mac_wfD(5) [OF assms(1)] assms(2) set_update_subset_insert [of "input_array s" i x] by (auto simp: inputs_wf_def)
  then show ?thesis using assms(1) sched_wf_frame(1) [of "s\<lparr> input_array := (input_array s)[i := x] \<rparr>" s]
    by (simp add: mac_wf_def dequeued_wf_def timing_wf_def hopping_wf_def)
qed

lemma accept_input_wf:
  fixes s :: "'a mac_state_scheme"
  assumes "mac_wf s"
  shows "mac_wf (accept_input s)"
proof -
  have "ring_wf (snd (ringbufindex_put r)) \<and> ring_cap (snd (ringbufindex_put r)) = ring_cap r" if "ring_wf r" for r
    using rb.put_ok [OF that] rb.put_full [OF that] rb.slots_len [OF that] that by (cases "length (ring_slots r) = ring_cap r") force+
  then have "inputs_wf (accept_input s)" using mac_wfD(5) [OF assms] by (simp add: inputs_wf_def accept_input_def)
  then show ?thesis using assms sched_wf_frame(1) [of "accept_input s" s]
    by (simp add: mac_wf_def dequeued_wf_def timing_wf_def hopping_wf_def accept_input_def)
qed

lemma rx_own_safe:
  fixes g :: "'g slot_state_scheme" and s :: "'a mac_state_scheme"
  assumes "slot_wf g" "mac_wf s" "length a = 8"
  shows "\<exists>ack g' s'. rx_own params fr a t0 t1 g s = Some (ack, g', s') \<and> slot_wf g' \<and> mac_wf s' \<and> slot_same g' g"
proof -
  define d where "d = to_i32 (sint (t0 - t1))"
  define s1 where "s1 = s\<lparr> rx_count := rx_count s + 1 \<rparr>"
  have s1: "mac_wf s1" using assms(2) by (simp add: s1_def)
  obtain ack s2 where a: "(if fcf_ack_required (fr_fcf fr) \<noteq> 0 then acknowledge params a (fr_seq fr) d s1 else Some (None, s1)) = Some (ack, s2)" "mac_wf s2"
    using acknowledge_safe [OF s1 assms(3), of params "fr_seq fr" d] s1 by (cases "fcf_ack_required (fr_fcf fr) \<noteq> 0") auto
  obtain g' s3 where "sync_from_packet a d g s2 = Some (g', s3)" "slot_wf g'" "mac_wf s3" "slot_same g' g"
    using sync_from_packet_safe [OF assms(1) a(2)] by blast
  then show ?thesis using a accept_input_wf by (simp add: rx_own_def d_def [symmetric] s1_def [symmetric])
qed

lemma extract_length:
  assumes "frame802154_extract_linkaddr (Some fr) x y = (True, a, b)" "length (fr_src_addr fr) = 8"
  shows "length a = 8"
  using assms by (auto simp: frame802154_extract_linkaddr_def extract_addr_def linkaddr_null_def Let_def split: option.splits if_splits)


lemma parse_addr_length: "parse_addr m old p = Some (a, q) \<Longrightarrow> length old = 8 \<Longrightarrow> length a = 8"
  by (auto simp: parse_addr_def linkaddr_null_def bind_eq_Some_conv split: if_splits)

lemma parse_src_length: "parse_src fcf x y pf p = Some (pf', q) \<Longrightarrow> length (fr_src_addr pf) = 8 \<Longrightarrow> length (fr_src_addr pf') = 8"
  by (auto simp: parse_src_def bind_eq_Some_conv linkaddr_null_def split: if_splits dest!: parse_addr_length)

lemma parse_dest_src: "parse_dest fcf x pf p = Some (pf', q) \<Longrightarrow> fr_src_addr pf' = fr_src_addr pf"
  by (auto simp: parse_dest_def bind_eq_Some_conv split: if_splits)

lemma parse_length:
  assumes p: "frame802154_parse data len pf = Some (n, pf')" and a: "length (fr_src_addr pf) = 8"
  shows "length (fr_src_addr pf') = 8"
proof (cases "len < 2")
  case False
  obtain fcf where f: "frame802154_parse_fcf data = Some fcf" using p False by (cases "frame802154_parse_fcf data") (simp_all add: frame802154_parse_def)
  obtain x y where h: "frame802154_has_panid fcf = (x, y)" by fastforce
  define d where "d = (if fcf_sequence_number_suppression fcf = 0
      then do { b \<leftarrow> nth_opt (drop 2 data) 0; Some (pf\<lparr> fr_fcf := fcf, fr_seq := b \<rparr>, drop 1 (drop 2 data)) }
      else Some (pf\<lparr> fr_fcf := fcf \<rparr>, drop 2 data))"
  have e: "do { (pf, p) \<leftarrow> d; (pf, p) \<leftarrow> parse_dest fcf y pf p; (pf, p) \<leftarrow> parse_src fcf x y pf p;
      let c = length data - length p;
      let pf = pf\<lparr> fr_payload_len := len - int c, fr_payload := c \<rparr>;
      Some (if int c > len then 0 else int c, pf) } = Some (n, pf')"
    using p False f h by (simp add: frame802154_parse_def d_def Let_def cong: if_cong split del: if_split)
  then obtain pf1 p1 pf2 p2 pf3 p3 where s: "d = Some (pf1, p1)" "parse_dest fcf y pf1 p1 = Some (pf2, p2)"
      "parse_src fcf x y pf2 p2 = Some (pf3, p3)" "fr_src_addr pf' = fr_src_addr pf3"
    by (auto simp: bind_eq_Some_conv Let_def)
  have "fr_src_addr pf1 = fr_src_addr pf" using s(1) by (auto simp: d_def bind_eq_Some_conv split: if_splits)
  then show ?thesis using parse_src_length [OF s(3)] parse_dest_src [OF s(2)] a s(4) by simp
qed (use p a in \<open>simp add: frame802154_parse_def\<close>)

lemma ies_zero_sized: "ies_sized ies_zero"
  by (simp add: ies_sized_def ies_zero_def)

lemma rx_overheard_safe:
  fixes s :: "'a mac_state_scheme"
  assumes "mac_wf s" "length (ip_payload x) = TSCH_PACKET_MAX_LEN" "0 < h" "h \<le> ip_len x" "ip_len x + 8 \<le> int TSCH_PACKET_MAX_LEN"
  shows "\<exists>s'. rx_overheard fr h x s = Some s' \<and> mac_wf s'"
proof (cases "fcf_ie_list_present (fr_fcf fr) \<noteq> 0")
  case True
  have "unat (word_of_int (ip_len x - h) :: u8) = nat (ip_len x - h)" using assms(3-5) by (intro unat_of_int8) auto
  then have "unat (word_of_int (ip_len x - h) :: u8) + 8 \<le> length (drop (nat h) (ip_payload x))" using assms(2-5) by simp
  then obtain r i where "frame802154e_parse_information_elements (drop (nat h) (ip_payload x)) (word_of_int (ip_len x - h)) (Some ies_zero) = Some (r, Some i)"
    using parse_elements_safe [OF _ ies_zero_sized] by blast
  then show ?thesis using True assms(1) accept_input_wf [OF assms(1)] by (simp add: rx_overheard_def)
qed (use assms in \<open>simp add: rx_overheard_def\<close>)


lemma rx_frame_safe:
  fixes g :: "'g slot_state_scheme" and s :: "'a mac_state_scheme"
  assumes w: "slot_wf g" "mac_wf s" "length (fr_src_addr f0) = 8" and i: "i < length (input_array s)" "ip_len (input_array s ! i) + 8 \<le> int TSCH_PACKET_MAX_LEN"
  shows "\<exists>ack g' s'. rx_frame f0 params i t0 t1 g s = Some (ack, g', s') \<and> slot_wf g' \<and> mac_wf s' \<and> slot_same g' g"
proof -
  define x where "x = input_array s ! i"
  have x: "length (ip_payload x) = TSCH_PACKET_MAX_LEN" using mac_wfD(5) [OF w(2)] i(1) by (simp add: inputs_wf_def x_def)
  then have "23 \<le> length (ip_payload x)" by simp
  then obtain h fr where p: "frame802154_parse (ip_payload x) (ip_len x) f0 = Some (h, fr)" "h = 0 \<or> 2 \<le> h \<and> h \<le> ip_len x"
    using header_parse_safe [of "ip_payload x" "ip_len x" f0] by blast
  obtain ok a b where e: "frame802154_extract_linkaddr (Some fr) linkaddr_null linkaddr_null = (ok, a, b)" by (metis surj_pair)
  define v where "v \<longleftrightarrow> h > 0 \<and> frame802154_check_dest_panid (frame802154_get_pan_id s) (Some fr) \<and> ok \<and>
      (fcf_frame_type (fr_fcf fr) = FRAME802154_DATAFRAME \<or> fcf_frame_type (fr_fcf fr) = FRAME802154_BEACONFRAME)"
  define m where "m \<longleftrightarrow> linkaddr_cmp b (linkaddr_node_addr s) \<or> linkaddr_cmp b linkaddr_null"
  define act where "act = (if m then rx_own params fr a t0 t1 g s else do { s \<leftarrow> rx_overheard fr h x s; Some (None, g, s) })"
  have r: "rx_frame f0 params i t0 t1 g s =
      (if v then do { (ack, g, s) \<leftarrow> act; Some (ack, g, post_event EV_POLL_PENDING_EVENTS s) } else Some (None, g, s))"
    using i(1) p(1) e unfolding act_def m_def v_def by (simp add: rx_frame_def nth_opt_def x_def [symmetric] split del: if_split)
  show ?thesis
  proof (cases v)
    case True
    have "length a = 8" using extract_length e parse_length [OF p(1) w(3)] True by (simp add: v_def)
    then obtain ack g' s' where o: "rx_own params fr a t0 t1 g s = Some (ack, g', s')" "slot_wf g'" "mac_wf s'" "slot_same g' g"
      using rx_own_safe [OF w(1,2)] by blast
    have "0 < h" "h \<le> ip_len x" using p(2) True by (auto simp: v_def)
    then obtain s2 where "rx_overheard fr h x s = Some s2" "mac_wf s2"
      using rx_overheard_safe [OF w(2) x] i(2) by (auto simp: x_def)
    then show ?thesis using r True o w by (cases m) (simp_all add: act_def slot_same_def)
  qed (use r w in \<open>simp add: slot_same_def\<close>)
qed

lemma rx_slot_safe:
  fixes g :: "'g slot_state_scheme" and s :: "'a mac_state_scheme"
  assumes w: "slot_wf g" "mac_wf s" "io_wf io" "\<not> radio_is_on g" "length (fr_src_addr f0) = 8"
  shows "\<exists>ack g' s'. tsch_rx_slot f0 params io g s = Some (ack, g', s') \<and> slot_wf g' \<and> mac_wf s' \<and> \<not> radio_is_on g'"
proof -
  define i where "i = ringbufindex_peek_put (input_ringbuf s)"
  note iw = mac_wfD(5) [OF w(2)]
  obtain t where t: "nth_opt (tsch_timing s) tsch_ts_tx_offset = Some t" using mac_wfD(6) [OF w(2)] by (simp add: timing_wf_def nth_opt_def)
  define h where "h = tsch_radio_off TSCH_RADIO_CMD_OFF_WITHIN_TIMESLOT (tsch_radio_on TSCH_RADIO_CMD_ON_WITHIN_TIMESLOT g)"
  have h: "slot_wf h" "\<not> radio_is_on h" using w(1,4) by (auto simp: h_def tsch_radio_on_def tsch_radio_off_def slot_wf_def entries_wf_def)
  show ?thesis
  proof (cases "i = - 1")
    case False
    have n: "nat i < length (input_array s)" using iw rb.peek_put_full_iff [of "input_ringbuf s"] rb.slots_len [of "input_ringbuf s"] rb.put_ok [of "input_ringbuf s"] False
      by (fastforce simp: inputs_wf_def i_def)
    have p: "length (ip_payload (input_array s ! nat i)) = TSCH_PACKET_MAX_LEN" using iw n by (simp add: inputs_wf_def)
    obtain y where y: "put_opt (ip_payload (input_array s ! nat i)) 0 (io_read io) = Some y" "length y = TSCH_PACKET_MAX_LEN"
      using p w(3) by (auto simp: io_wf_def put_opt_def)
    define x where "x = \<lparr> ip_payload = y, ip_rx_asn = tsch_current_asn s, ip_len = int (length (io_read io)), ip_rssi = io_rssi io, ip_channel = current_channel h \<rparr>"
    define s1 where "s1 = s\<lparr> input_array := (input_array s)[nat i := x] \<rparr>"
    have s1: "mac_wf s1" unfolding s1_def using input_written [OF w(2)] y(2) by (simp add: x_def)
    have "nat i < length (input_array s1)" "ip_len (input_array s1 ! nat i) + 8 \<le> int TSCH_PACKET_MAX_LEN"
      using n w(3) by (simp_all add: s1_def x_def io_wf_def)
    then obtain ack g' s' where r: "rx_frame f0 params (nat i) (current_slot_start s + t) (io_rx_start_time io) h s1 = Some (ack, g', s')"
        "slot_wf g'" "mac_wf s'" "slot_same g' h"
      using rx_frame_safe [OF h(1) s1 w(5)] by blast
    have o: "slot_wf (tsch_radio_off c k) \<and> \<not> radio_is_on (tsch_radio_off c k)" if "slot_wf k" "\<not> radio_is_on k" for c and k :: "'g slot_state_scheme"
      using that by (simp add: tsch_radio_off_def slot_wf_def entries_wf_def)
    define recv where "recv = do { current_input \<leftarrow> nth_opt (input_array s) (nat i); payload \<leftarrow> put_opt (ip_payload current_input) 0 (io_read io);
        let current_input = \<lparr> ip_payload = payload, ip_rx_asn = tsch_current_asn s, ip_len = int (length (io_read io)),
                              ip_rssi = io_rssi io, ip_channel = current_channel h \<rparr>;
        let s1 = s\<lparr> input_array := (input_array s)[nat i := current_input] \<rparr>;
        rx_frame f0 params (nat i) (current_slot_start s + t) (io_rx_start_time io) h s1 }"
    have f: "recv = Some (ack, g', s')" using n y(1) r(1) unfolding recv_def by (simp add: nth_opt_def x_def s1_def del: put_opt_eq_Some)
    obtain ack2 g2 s2 where q: "(if io_pending_packet io then recv else Some (None, h, s)) = Some (ack2, g2, s2)"
        "slot_wf g2" "mac_wf s2" "\<not> radio_is_on g2"
      using f r(2-4) h w(2) by (cases "io_pending_packet io") (auto simp: slot_same_def)
    have e: "tsch_rx_slot f0 params io g s = (if i = - 1 \<or> tsch_queue_global_packet_count s = int QUEUEBUF_NUM - 1
        then Some (None, g\<lparr> input_queue_drop := input_queue_drop g + 1 \<rparr>, s)
        else do { (ack, g, s) \<leftarrow> (if \<not> io_packet_seen io
            then Some (None, tsch_radio_off TSCH_RADIO_CMD_OFF_FORCE (tsch_radio_on TSCH_RADIO_CMD_ON_WITHIN_TIMESLOT g), s)
            else do { (ack, g, s) \<leftarrow> (if io_pending_packet io then recv else Some (None, h, s));
              Some (ack, tsch_radio_off TSCH_RADIO_CMD_OFF_END_OF_TIMESLOT g, s) });
          Some (ack, g\<lparr> input_queue_drop := 0 \<rparr>, s) })"
      by (simp only: tsch_rx_slot_def recv_def h_def i_def t Let_def Option.bind.simps)
    show ?thesis unfolding e q(1) using w(1,2,4) o [OF q(2,4), of TSCH_RADIO_CMD_OFF_END_OF_TIMESLOT] q(3) False
      by (simp add: slot_wf_def entries_wf_def tsch_radio_on_def tsch_radio_off_def)
  qed (use w in \<open>simp add: tsch_rx_slot_def i_def [symmetric] slot_wf_def entries_wf_def\<close>)
qed


subsection \<open>The slot\<close>

lemma run_slot_safe:
  fixes g :: "'g slot_state_scheme" and s :: "'a mac_state_scheme"
  assumes w: "slot_wf g" "mac_wf s" "io_wf io" "\<not> radio_is_on g" "length (fr_src_addr f0) = 8"
  shows "\<exists>sent g' s'. run_slot f0 params dest io g s = Some (sent, g', s') \<and> slot_wf g' \<and> mac_wf s' \<and> \<not> radio_is_on g'"
proof (cases "current_link s = None \<or> tsch_lock_requested s")
  case False
  then obtain l where l: "current_link s = Some l" by auto
  define s1 where "s1 = s\<lparr> tsch_in_slot_operation := True \<rparr>"
  define g1 where "g1 = g\<lparr> drift_correction := 0, is_drift_correction_used := False \<rparr>"
  have s1: "mac_wf s1" using w(2) by (simp add: s1_def)
  obtain p n a s2 where p: "get_packet_and_neighbor_for_link l g1 s1 = Some (p, n, g1\<lparr> actual_current_neighbor := a \<rparr>, s2)" "mac_wf s2"
      "slot_view s2 = slot_view s1" "first_of s2 p n"
    using get_packet_safe [OF s1, of l g1] by blast
  define g2 where "g2 = g1\<lparr> actual_current_neighbor := a, current_packet := p, current_neighbor := n \<rparr>"
  have c: "current_link s2 = Some l" using mac_more(4) [of s2 s1] p(3) l by (simp add: slot_view_def s1_def)
  define pick where "pick = (case backup_link g1 of
      Some k \<Rightarrow> if p = None \<and> l_link_options (lnk s2 l) AND LINK_OPTION_RX = 0 then do {
          let s = s2\<lparr> current_link := Some k \<rparr>; (p, n, g, s) \<leftarrow> get_packet_and_neighbor_for_link k g2 s;
          Some (g\<lparr> current_packet := p, current_neighbor := n \<rparr>, s) } else Some (g2, s2)
    | None \<Rightarrow> Some (g2, s2))"
  define good where "good k t \<longleftrightarrow> mac_wf t \<and> slot_wf k \<and> \<not> radio_is_on k \<and> first_of t (current_packet k) (current_neighbor k) \<and> current_link t \<noteq> None"
    for k :: "'g slot_state_scheme" and t :: "'a mac_state_scheme"
  have g2: "good g2 s2" using p(2,4) c w(1,4) by (simp add: good_def g2_def g1_def slot_wf_def entries_wf_def)
  have alt: "\<exists>g3 s3. do { let s = s2\<lparr> current_link := Some k \<rparr>; (p, n, g, s) \<leftarrow> get_packet_and_neighbor_for_link k g2 s;
          Some (g\<lparr> current_packet := p, current_neighbor := n \<rparr>, s) } = Some (g3, s3) \<and> good g3 s3" for k
  proof -
    have m: "mac_wf (s2\<lparr> current_link := Some k \<rparr>)" using p(2) by simp
    obtain p' n' a' s3 where p': "get_packet_and_neighbor_for_link k g2 (s2\<lparr> current_link := Some k \<rparr>) = Some (p', n', g2\<lparr> actual_current_neighbor := a' \<rparr>, s3)"
        "mac_wf s3" "slot_view s3 = slot_view (s2\<lparr> current_link := Some k \<rparr>)" "first_of s3 p' n'"
      using get_packet_safe [OF m, of k g2] by blast
    have "current_link s3 = Some k" using mac_more(4) [of s3 "s2\<lparr> current_link := Some k \<rparr>"] p'(3) by (simp add: slot_view_def)
    then show ?thesis using p' w(1,4) by (simp add: good_def g2_def g1_def slot_wf_def entries_wf_def)
  qed
  obtain g3 s3 where k: "pick = Some (g3, s3)" "good g3 s3"
    unfolding pick_def using g2 alt [of "the (backup_link g1)"] by (cases "backup_link g1"; cases "p = None \<and> l_link_options (lnk s2 l) AND LINK_OPTION_RX = 0") auto
  then obtain l3 where l3: "current_link s3 = Some l3" by (auto simp: good_def)
  have m3: "mac_wf s3" using k(2) by (simp add: good_def)
  obtain v where "tsch_hopping_sequence_length s3 = TSCH_ASN_DIVISOR_INIT v" "v \<noteq> 0" "unat v \<le> length (tsch_hopping_sequence s3)"
    using mac_wfD(7) [OF m3] unfolding hopping_wf_def by blast
  from channel_spec [OF this] obtain ch where
    ch: "tsch_calculate_channel (tsch_current_asn s3) (ucast (l_channel_offset (lnk s3 l3))) s3 = Some ch" by blast
  define g4 where "g4 = g3\<lparr> current_channel := ch \<rparr>"
  have g4: "slot_wf g4" "\<not> radio_is_on g4" "tsch_radio_on TSCH_RADIO_CMD_ON_START_OF_TIMESLOT g4 = g4" "first_of s3 (current_packet g4) (current_neighbor g4)"
    using k(2) by (simp_all add: g4_def good_def slot_wf_def entries_wf_def tsch_radio_on_def)
  define run where "run = (if current_packet g4 \<noteq> None then tsch_tx_slot f0 dest io g4 s3 else tsch_rx_slot f0 params io g4 s3)"
  have r: "\<exists>sent g' s'. run = Some (sent, g', s') \<and> slot_wf g' \<and> mac_wf s' \<and> \<not> radio_is_on g'"
    unfolding run_def using rx_slot_safe [OF g4(1) m3 w(3) g4(2) w(5)] tx_slot_safe [OF g4(1) m3 w(3) g4(2) _ _ l3] g4(4)
    by (cases "current_packet g4") auto
  have e: "run_slot f0 params dest io g s =
      (if current_packet g3 \<noteq> None \<or> l_link_options (lnk s3 l3) AND LINK_OPTION_RX \<noteq> 0 then run else Some (None, g3, s3))"
    using False l p(1) k(1) l3 ch g4(3)
    by (cases "current_packet g3 \<noteq> None \<or> l_link_options (lnk s3 l3) AND LINK_OPTION_RX \<noteq> 0")
      (simp_all add: run_slot_def s1_def [symmetric] g1_def [symmetric] g2_def [symmetric] pick_def [symmetric] g4_def [symmetric] run_def split del: if_split)
  show ?thesis unfolding e using r k(2) by (auto simp: good_def)
qed (use w in \<open>simp add: run_slot_def\<close>)

end
