(* ===== verification/SlotInvariant.thy ===== *)
theory SlotInvariant
  imports SlotSafety
begin

text \<open>
  The slot operation over time: the interrupt that runs a slot, the passing of time and the senders that put packets into the
  queues as a step relation, with the well-formedness of the state of the MAC layer as its invariant.
\<close>

subsection \<open>Choosing the next slot\<close>

lemma update_backoff_window_keeps:
  assumes "mac_wf s" "n \<in> set (neighbor_list s)"
  shows "mac_wf (update_backoff_window a b n s)" "neighbor_list (update_backoff_window a b n s) = neighbor_list s"
proof -
  let ?x = "(nbr s n)\<lparr> n_backoff_window := n_backoff_window (nbr s n) - 1 \<rparr>"
  note q = mac_wfD(1) [OF assms(1)]
  have "nbr_wf (nbr s n)" using q assms(2) by (simp add: q_wf_def nbrs_wf_def)
  then have "nbr_wf ?x" if "n_backoff_window (nbr s n) \<noteq> 0"
    using that by (auto simp: nbr_wf_def backoff_wf_def unat_minus_one)
  then have "q_wf (set_nbr n ?x s)" if "n_backoff_window (nbr s n) \<noteq> 0" using that set_nbr_book(1) [OF q assms(2), of ?x] by simp
  then show "mac_wf (update_backoff_window a b n s)" using mac_wf_view [OF assms(1), of "set_nbr n ?x s"] assms(1)
    by (simp add: update_backoff_window_def)
  show "neighbor_list (update_backoff_window a b n s) = neighbor_list s" by (simp add: update_backoff_window_def set_nbr_def)
qed

lemma update_all_backoff_windows_keeps:
  assumes "mac_wf s"
  shows "mac_wf (tsch_queue_update_all_backoff_windows a s)"
proof -
  have "mac_wf (fold (update_backoff_window a b) ns s)" if "set ns \<subseteq> set (neighbor_list s)" "mac_wf s" for ns b and s :: "'a mac_state_scheme"
    using that by (induction ns arbitrary: s) (simp_all add: update_backoff_window_keeps)
  then show ?thesis using assms by (simp add: tsch_queue_update_all_backoff_windows_def)
qed

lemma next_slot_keeps:
  assumes "next_slot g s = (d, g', s')" "mac_wf s" "slot_wf g"
  shows "mac_wf s'" "slot_wf g'" "radio_is_on g' = radio_is_on g"
  using assms by (auto simp: next_slot_def slot_wf_def entries_wf_def Let_def split: prod.splits)

lemma compensate_keeps:
  assumes "tsch_timesync_adaptive_compensate t g = (c, g')" "slot_wf g"
  shows "slot_wf g'" "timesync_state.more g' = timesync_state.more g"
  using assms by (auto simp: tsch_timesync_adaptive_compensate_def slot_wf_def entries_wf_def Let_def split: prod.splits if_splits)

lemma schedule_next_slot_keeps:
  assumes "schedule_next_slot g s = Some r" "mac_wf s" "slot_wf g" "\<not> radio_is_on g"
  shows "mac_wf (snd r) \<and> slot_wf (fst r) \<and> \<not> radio_is_on (fst r)"
  using _ assms
proof (rule schedule_next_slot.raw_induct [where P = "\<lambda>g s r. mac_wf s \<longrightarrow> slot_wf g \<longrightarrow> \<not> radio_is_on g \<longrightarrow>
      mac_wf (snd r) \<and> slot_wf (fst r) \<and> \<not> radio_is_on (fst r)", rule_format], goal_cases)
  case (1 f g s r)
  define s0 where "s0 = (if shared_tx_link s then tsch_queue_update_all_backoff_windows (l_addr (lnk s (the (current_link s)))) s else s)"
  have s0: "mac_wf s0" using 1(3) update_all_backoff_windows_keeps [of s] by (simp add: s0_def)
  obtain d g1 s1 where n: "next_slot g s0 = (d, g1, s1)" by (metis surj_pair)
  note k = next_slot_keeps [OF n s0 1(4)]
  obtain len where len: "nth_opt (tsch_timing s1) tsch_ts_timeslot_length = Some len" using mac_wfD(6) [OF k(1)] by (simp add: timing_wf_def nth_opt_def)
  define t where "t = ucast d * len + word_of_int (drift_correction g1)"
  define g2 where "g2 = g1\<lparr> drift_correction := 0, is_drift_correction_used := False \<rparr>"
  obtain c g3 where c: "tsch_timesync_adaptive_compensate t g2 = (c, g3)" by fastforce
  have g2: "slot_wf g2" "\<not> radio_is_on g2" using k 1(5) by (simp_all add: g2_def slot_wf_def entries_wf_def)
  note g3 = compensate_keeps [OF c g2(1)]
  have r3: "\<not> radio_is_on g3" using g3(2) g2(2) by (cases g3; cases g2) simp
  define s2 where "s2 = s1\<lparr> current_slot_start := current_slot_start s1 + t + word_of_int c \<rparr>"
  have s2: "mac_wf s2" using k(1) by (simp add: s2_def)
  obtain ok g4 where o: "tsch_schedule_slot_operation (rtimer_now s1) (current_slot_start s1) t g3 = (ok, g4)" by fastforce
  have g4: "slot_wf g4" "\<not> radio_is_on g4" using o g3(1) r3 by (auto simp: tsch_schedule_slot_operation_def slot_wf_def entries_wf_def Let_def split: if_splits)
  have "(if ok then Some (g4, s2) else f g4 s2) = Some r"
    using 1(2) len c o unfolding s2_def t_def g2_def by (simp add: s0_def [symmetric] n Let_def del: nth_opt_eq_Some)
  then show ?case using 1(1) [of g4 s2] g4 s2 by (auto split: if_splits)
qed


lemma disassociate_keeps: "mac_wf s \<Longrightarrow> mac_wf (tsch_disassociate s)"
  by (simp add: tsch_disassociate_def)

lemma slot_operation_keeps:
  fixes g :: "'g slot_state_scheme" and s :: "'a mac_state_scheme"
  assumes "tsch_slot_operation f0 params dest io g s = Some (sent, g', s')" "mac_wf s" "slot_wf g" "io_wf io" "\<not> radio_is_on g" "length (fr_src_addr f0) = 8"
  shows "mac_wf s' \<and> slot_wf g' \<and> \<not> radio_is_on g'"
proof -
  have body: "mac_wf s' \<and> slot_wf g' \<and> \<not> radio_is_on g'"
    if b: "slot_operation_body f0 params dest io h s = Some (sent, g', s')" and h: "slot_wf h" "\<not> radio_is_on h" for h
  proof -
    obtain out g1 s1 where r: "run_slot f0 params dest io h s = Some (out, g1, s1)" "slot_wf g1" "mac_wf s1" "\<not> radio_is_on g1"
      using run_slot_safe [OF h(1) assms(2,4) h(2) assms(6)] by blast
    obtain lost g2 s2 where l: "(if lost then Some (g1\<lparr> last_timesource_neighbor := None \<rparr>, tsch_disassociate s1) else schedule_next_slot g1 s1) = Some (g2, s2)"
        "g' = g2" "s' = s2\<lparr> tsch_in_slot_operation := False \<rparr>"
      using b r(1) by (auto simp: slot_operation_body_def bind_eq_Some_conv split del: if_split)
    have "mac_wf s2 \<and> slot_wf g2 \<and> \<not> radio_is_on g2"
      using l(1) r(2-4) schedule_next_slot_keeps [of g1 s1 "(g2, s2)"] disassociate_keeps [OF r(3)]
      by (auto simp: slot_wf_def entries_wf_def split: if_splits)
    then show ?thesis using l(2,3) by simp
  qed
  show ?thesis using assms(1-3,5) body [of g] body [of "g\<lparr> waiting_for_restart := False \<rparr>"]
    by (auto simp: tsch_slot_operation_def slot_wf_def entries_wf_def split: if_splits)
qed

subsection \<open>Queueing packets\<close>

definition queue_view :: "'a tsch_state_scheme \<Rightarrow> 'a \<times> nat option \<times> u32 \<times> u8 list" where
  "queue_view s = (tsch_state.more s, n_eb s, tsch_current_ka_timeout s, map tp_sync_ie_offset (m_mem (packet_memb s)))"

lemma slot_queue_view: "slot_view s' = slot_view s \<Longrightarrow> queue_view s' = queue_view s"
  by (simp add: slot_view_def queue_view_def)

lemma memb_alloc_mem: "memb_alloc m = (r, m') \<Longrightarrow> m_mem m' = m_mem m"
  by (auto simp: memb_alloc_def split: option.splits)

lemma queue_view_upd [simp]:
  "queue_view (set_nbr n x s) = queue_view s" "queue_view (s\<lparr> num_eb_packets := k \<rparr>) = queue_view s"
  "m_mem m = m_mem (packet_memb s) \<Longrightarrow> queue_view (s\<lparr> packet_memb := m \<rparr>) = queue_view s"
  by (simp_all add: queue_view_def set_nbr_def)

lemma add_nbr_queue_view: "tsch_queue_add_nbr a s = (r, s') \<Longrightarrow> queue_view s' = queue_view s"
  by (auto simp: queue_view_def tsch_queue_add_nbr_def tsch_get_lock_def tsch_release_lock_def tsch_queue_backoff_reset_def set_nbr_def Let_def
      split: option.splits if_splits prod.splits bool.splits)

lemma new_from_packetbuf_queue_view: "queuebuf_new_from_packetbuf s = Some (r, s') \<Longrightarrow> queue_view s' = queue_view s"
  by (auto simp: queue_view_def queuebuf_new_from_packetbuf_def packetbuf_attr_copyto_def bind_eq_Some_conv Let_def split: option.splits prod.splits)

lemma new_from_packetbuf_nbrs: "queuebuf_new_from_packetbuf s = Some (r, s') \<Longrightarrow> neighbor_list s' = neighbor_list s"
  by (auto simp: queuebuf_new_from_packetbuf_def packetbuf_attr_copyto_def bind_eq_Some_conv Let_def split: option.splits prod.splits)

lemma set_pkt_queue_view: "tp_sync_ie_offset x = tp_sync_ie_offset (pkt s p) \<Longrightarrow> queue_view (set_pkt p x s) = queue_view s"
  by (rule slot_queue_view, rule set_pkt_slot_view)

lemma add_packet_queue_view:
  fixes s :: "'a tsch_state_scheme"
  assumes "tsch_queue_add_packet a mx sent s = Some (r, s')"
  shows "queue_view s' = queue_view s"
  using assms
  by (auto simp: tsch_queue_add_packet_def bind_eq_Some_conv set_pkt_queue_view Let_def memb_free_def memb_alloc_mem
      split: option.splits prod.splits if_splits dest!: add_nbr_queue_view new_from_packetbuf_queue_view)


lemma add_packet_nbrs:
  fixes s :: "'a tsch_state_scheme"
  assumes "tsch_queue_add_packet a mx sent s = Some (r, s')"
  shows "neighbor_list s' = neighbor_list s \<or> neighbor_list s' = neighbor_list (snd (tsch_queue_add_nbr a s))"
  using assms
  by (auto simp: tsch_queue_add_packet_def bind_eq_Some_conv set_nbr_def Let_def split: option.splits prod.splits if_splits dest!: new_from_packetbuf_nbrs)

lemma add_packet_keeps:
  fixes s :: "'a mac_state_scheme"
  assumes "mac_wf s" "pb_wf s" "addr_wf a" "tsch_queue_add_packet a mx sent s = Some (r, s')"
  shows "mac_wf s'"
proof -
  note q = mac_wfD(1,3) [OF assms(1)]
  have w: "q_wf s'" "\<not> tsch_locked s'"
    using add_packet_ok [OF q(1) assms(2,3) q(2), of mx sent] add_packet_fail [OF q(1) assms(2,3) q(2), of mx sent] assms(4)
    by (cases "can_queue a s"; auto)+
  have v: "tsch_state.more s' = tsch_state.more s" "n_eb s' = n_eb s" "tsch_current_ka_timeout s' = tsch_current_ka_timeout s"
    "map tp_sync_ie_offset (m_mem (packet_memb s')) = map tp_sync_ie_offset (m_mem (packet_memb s))"
    using add_packet_queue_view [OF assms(4)] by (simp_all add: queue_view_def)
  obtain k s1 where k: "tsch_queue_add_nbr a s = (k, s1)" by fastforce
  have n: "set (neighbor_list s) \<subseteq> set (neighbor_list s')"
    using add_packet_nbrs [OF assms(4)] add_nbr_wf(9,13) [OF q(1) assms(3) q(2) k] k by (cases k) auto
  note m = mac_more [OF v(1)]
  show ?thesis using assms(1) w v(2-4) n m sched_cong(1) [OF m(1-3)] unfolding mac_wf_def v(4)
    by (auto simp: sched_wf_def dequeued_wf_def inputs_wf_def timing_wf_def hopping_wf_def)
qed

subsection \<open>The step relation\<close>

text \<open>
  A step is an expiry of the slot timer with some behaviour of the radio, the passing of time, or the queueing of
  the frame that some upper layer has prepared in the packet buffer.
\<close>

inductive mac_step :: "frame802154_t \<Rightarrow> slot_state \<times> mac_state \<Rightarrow> slot_state \<times> mac_state \<Rightarrow> bool" for f0 where
  slot: "tsch_slot_operation f0 params dest io g s = Some (sent, g', s') \<Longrightarrow> io_wf io \<Longrightarrow> mac_step f0 (g, s) (g', s')"
| time: "mac_step f0 (g, s) (g, s\<lparr> clock_time := c, rtimer_now := r \<rparr>)"
| queue: "pbuf_state.more s1 = pbuf_state.more s \<Longrightarrow> pb_wf s1 \<Longrightarrow> addr_wf a \<Longrightarrow>
    tsch_queue_add_packet a mx sent s1 = Some (p, s') \<Longrightarrow> mac_step f0 (g, s) (g, s')"

inductive mac_reachable :: "frame802154_t \<Rightarrow> slot_state \<times> mac_state \<Rightarrow> slot_state \<times> mac_state \<Rightarrow> bool" for f0 x where
  start: "mac_reachable f0 x x"
| step: "mac_reachable f0 x y \<Longrightarrow> mac_step f0 y z \<Longrightarrow> mac_reachable f0 x z"

inductive_cases mac_stepE: "mac_step f0 (g, s) y"

definition slot_inv :: "slot_state \<times> mac_state \<Rightarrow> bool" where
  "slot_inv x \<longleftrightarrow> slot_wf (fst x) \<and> mac_wf (snd x) \<and> \<not> radio_is_on (fst x)"

lemma packetbuf_keeps:
  fixes s1 :: mac_state
  assumes "pbuf_state.more s1 = pbuf_state.more s" "mac_wf s"
  shows "mac_wf s1"
proof -
  have "bufmem s1 = bufmem s" "buframmem s1 = buframmem s" "neighbor_memb s1 = neighbor_memb s" "packet_memb s1 = packet_memb s"
    "neighbor_list s1 = neighbor_list s" "link_memb s1 = link_memb s" "slotframe_memb s1 = slotframe_memb s" "slotframe_list s1 = slotframe_list s"
    "tsch_locked s1 = tsch_locked s" "n_eb s1 = n_eb s" "tsch_current_ka_timeout s1 = tsch_current_ka_timeout s"
    "dequeued_array s1 = dequeued_array s" "dequeued_ringbuf s1 = dequeued_ringbuf s" "input_array s1 = input_array s" "input_ringbuf s1 = input_ringbuf s"
    "tsch_timing s1 = tsch_timing s" "tsch_hopping_sequence s1 = tsch_hopping_sequence s"
    "tsch_hopping_sequence_length s1 = tsch_hopping_sequence_length s"
    using assms(1) by (cases s; cases s1; simp)+
  from mac_wf_frame [OF this] show ?thesis using assms(2) by simp
qed

lemma mac_step_inv:
  assumes "mac_step f0 x y" "slot_inv x" "length (fr_src_addr f0) = 8"
  shows "slot_inv y"
  using assms
proof (cases rule: mac_step.cases)
  case (slot params dest io g s sent g' s')
  then show ?thesis using slot_operation_keeps [OF slot(3)] assms(2,3) by (simp add: slot_inv_def)
next
  case (queue s1 s a mx sent p s' g)
  then have "mac_wf s1" using packetbuf_keeps assms(2) by (simp add: slot_inv_def)
  then show ?thesis using add_packet_keeps queue assms(2) by (simp add: slot_inv_def)
qed (simp add: slot_inv_def)

lemma mac_reachable_inv:
  assumes "mac_reachable f0 x y" "slot_inv x" "length (fr_src_addr f0) = 8"
  shows "slot_inv y"
  using assms by (induction rule: mac_reachable.induct) (auto intro: mac_step_inv)


subsection \<open>Properties\<close>

text \<open>A node after start-up, with empty queues and rings and the default hopping sequence.\<close>

definition idle_node :: mac_state where
  "idle_node = (mac_boot node2)\<lparr> n_eb := None, dequeued_array := replicate 8 None, dequeued_ringbuf := ringbufindex_init 8,
     input_array := replicate 4 \<lparr> ip_payload = replicate 96 0, ip_rx_asn = \<lparr> ls4b = 0, ms1b = 0 \<rparr>, ip_len = 0, ip_rssi = 0, ip_channel = 0 \<rparr>,
     input_ringbuf := ringbufindex_init 4, tsch_hopping_sequence := TSCH_DEFAULT_HOPPING_SEQUENCE, tsch_hopping_sequence_length := TSCH_ASN_DIVISOR_INIT 4,
     tsch_current_ka_timeout := 0, current_link := Some 0 \<rparr>"

lemma boot_offsets: "map tp_sync_ie_offset (m_mem (packet_memb (mac_boot a))) = replicate (length (m_mem (packet_memb (mac_boot a)))) 0"
proof -
  define s0 where "s0 = (queuebuf_init tsch_zero)\<lparr> neighbor_list := [], neighbor_memb := memb_init zero_neighbor (neighbor_memb (queuebuf_init tsch_zero)),
                 packet_memb := memb_init zero_packet (packet_memb (queuebuf_init tsch_zero)) \<rparr>"
  obtain r s1 where 1: "tsch_queue_add_nbr tsch_eb_address s0 = (r, s1)" by fastforce
  obtain r2 s2 where 2: "tsch_queue_add_nbr tsch_broadcast_address (s1\<lparr> n_eb := r \<rparr>) = (r2, s2)" by fastforce
  have "packet_memb (mac_boot a) = packet_memb tsch_boot"
    by (simp_all add: mac_boot_def net_state.defs net_boot_def sched_state.defs sched_boot_def tsch_schedule_init_def
        tsch_get_lock_def tsch_release_lock_def sched_zero_def tsch_state.extend_def mac_state.defs)
  moreover have "packet_memb tsch_boot = packet_memb s2" using 1 2 by (simp add: tsch_boot_def tsch_queue_init_def s0_def)
  moreover have "map tp_sync_ie_offset (m_mem (packet_memb s2)) = map tp_sync_ie_offset (m_mem (packet_memb s0))"
    using add_nbr_queue_view [OF 1] add_nbr_queue_view [OF 2] by (simp add: queue_view_def)
  moreover have "map tp_sync_ie_offset (m_mem (packet_memb s0)) = replicate (length (m_mem (packet_memb s0))) 0"
    by (simp add: s0_def memb_init_def zero_packet_def map_replicate_const)
  ultimately show ?thesis by (metis length_map)
qed

lemma idle_node_inv: "slot_inv (slot_boot, idle_node)"
proof -
  have r: "ring_wf (ringbufindex_init 4)" "ring_cap (ringbufindex_init 4) = 3" "ring_wf (ringbufindex_init 8)" "ring_cap (ringbufindex_init 8) = 7"
    using ring_init_wf [of 2] ring_init_wf [of 3] by simp_all
  have "sched_wf idle_node" using sched_wf_frame(1) [of idle_node "mac_boot node2"] mac_boot_sched_wf(1) by (simp add: idle_node_def)
  moreover have "timing_wf idle_node" by (simp add: timing_wf_def idle_node_def tsch_default_timing_us_def)
  moreover have "hopping_wf idle_node" by (auto simp: hopping_wf_def idle_node_def TSCH_DEFAULT_HOPPING_SEQUENCE_def intro!: exI [of _ "4 :: u16"])
  moreover have "inputs_wf idle_node" "dequeued_wf idle_node" using r by (simp_all add: inputs_wf_def dequeued_wf_def idle_node_def)
  moreover have "\<forall>x \<in> set (map tp_sync_ie_offset (m_mem (packet_memb idle_node))). unat x \<le> PACKETBUF_SIZE"
    using boot_offsets [of node2] by (auto simp: idle_node_def)
  ultimately have "mac_wf idle_node" using mac_boot_ok(2) by (auto simp: mac_wf_def idle_node_def)
  then show ?thesis by (simp add: slot_inv_def slot_wf_def entries_wf_def slot_boot_def)
qed

definition noise :: slot_io where
  "noise = \<lparr> io_prepare = 1, io_transmit = 2, io_ackbuf = replicate 96 0xff, io_ack_len = 88, io_packet_seen = True, io_rx_start_time = 7,
     io_pending_packet = True, io_read = replicate 88 0xa5, io_rssi = 0 \<rparr>"

lemma noise_wf: "io_wf noise" by (simp add: io_wf_def noise_def)





end
