(* ===== verification/TschProcess.thy ===== *)
theory TschProcess
  imports SlotProps
begin

text \<open>
  The processes of the TSCH MAC (\<open>os/net/mac/tsch/tsch.c\<close>): scanning for a network, the main process that joins and leaves, and the
  process that queues beacons. A protothread is a function of the point at which it waits: one call is one event delivered to it.
  Whether its event timer has expired and what the radio has received are arguments; the state of the radio is the one of the slots.
\<close>

subsection \<open>Scanning\<close>

datatype tsch_point = TSCH_BEGIN | TSCH_SCANNING | TSCH_OPERATING

record tsch_proc =
  pr_point :: tsch_point
  scan_channel :: u8
  current_channel_since :: clock_time_t
  input_eb :: input_packet

definition TSCH_JOIN_HOPPING_SEQUENCE :: "u8 list" where "TSCH_JOIN_HOPPING_SEQUENCE = TSCH_DEFAULT_HOPPING_SEQUENCE"
definition TSCH_CHANNEL_SCAN_DURATION :: clock_time_t where [simp]: "TSCH_CHANNEL_SCAN_DURATION = word_of_nat CLOCK_SECOND"

text \<open>The variable \<open>current_channel\<close> of the scan is static: it survives a scan and is still set in the next one.\<close>

definition scan_begin :: "tsch_proc \<Rightarrow> 'a mac_state_scheme \<Rightarrow> tsch_proc \<times> 'a mac_state_scheme" where
  "scan_begin p s = (p\<lparr> current_channel_since := clock_time s \<rparr>, s\<lparr> tsch_current_asn := TSCH_ASN_INIT 0 0 \<rparr>)"

definition scan_hop :: "tsch_proc \<Rightarrow> 'a mac_state_scheme \<Rightarrow> (tsch_proc \<times> 'a mac_state_scheme) option" where
  "scan_hop p s =
     (let now_time = clock_time s in
      if scan_channel p = 0 \<or> now_time - current_channel_since p > TSCH_CHANNEL_SCAN_DURATION then do {
        let (r, s) = random_rand s;
        c \<leftarrow> nth_opt TSCH_JOIN_HOPPING_SEQUENCE (unat r mod length TSCH_JOIN_HOPPING_SEQUENCE);
        Some (p\<lparr> scan_channel := c, current_channel_since := now_time \<rparr>, s)
      }
      else Some (p, s))"

text \<open>
  One round of the loop, with the pending packet and its time if there is one; the first component tells whether the scan has ended (it
  waits for its timer otherwise).
\<close>

definition scan_round :: "frame802154_t \<Rightarrow> (u8 list \<times> u64) option \<Rightarrow> 'g slot_state_scheme \<Rightarrow> tsch_proc \<Rightarrow> 'a mac_state_scheme \<Rightarrow>
    (bool \<times> 'g slot_state_scheme \<times> tsch_proc \<times> 'a mac_state_scheme) option" where
  "scan_round frame0 heard g p s =
     (if \<not> tsch_is_associated s \<and> \<not> tsch_is_coordinator s then do {
        (p, s) \<leftarrow> scan_hop p s;
        let g = g\<lparr> radio_is_on := True \<rparr>;
        (p, s) \<leftarrow> (case heard of
                     None \<Rightarrow> Some (p, s)
                   | Some (bytes, t0) \<Rightarrow> do {
                       payload \<leftarrow> put_opt (ip_payload (input_eb p)) 0 bytes;
                       let eb = (input_eb p)\<lparr> ip_payload := payload, ip_len := int (length bytes) \<rparr>;
                       (_, s) \<leftarrow> tsch_associate frame0 (Some eb) t0 s;
                       Some (p\<lparr> input_eb := eb \<rparr>, s)
                     });
        if tsch_is_associated s then Some (True, g\<lparr> radio_is_on := False \<rparr>, p, s)
        else Some (tsch_is_coordinator s, g, p, s)
      }
      else Some (True, g, p, s))"

subsection \<open>The main process\<close>

text \<open>
  \<open>join_loop\<close> is the loop that runs until the node is associated, up to the point where the process waits: for the
  next round of a scan, or in operation, with the slot timer running.
\<close>

partial_function (option) join_loop :: "frame802154_t \<Rightarrow> (u8 list \<times> u64) option \<Rightarrow> 'g slot_state_scheme \<Rightarrow> tsch_proc \<Rightarrow> 'a mac_state_scheme \<Rightarrow>
    ('g slot_state_scheme \<times> tsch_proc \<times> 'a mac_state_scheme) option" where
  "join_loop frame0 heard g p s =
     (if tsch_is_associated s then do {
        (g, s) \<leftarrow> tsch_slot_operation_start g s;
        Some (g, p\<lparr> pr_point := TSCH_OPERATING \<rparr>, s)
      }
      else if tsch_is_coordinator s then do {
        s \<leftarrow> tsch_start_coordinator s;
        join_loop frame0 heard g p s
      }
      else do {
        let (p, s) = scan_begin p s;
        (ended, g, p, s) \<leftarrow> scan_round frame0 heard g p s;
        if ended then join_loop frame0 heard g p s else Some (g, p\<lparr> pr_point := TSCH_SCANNING \<rparr>, s)
      })"

definition tsch_process ::
    "'a mac_state_scheme mac_cb \<Rightarrow> ('a mac_state_scheme \<Rightarrow> 'a mac_state_scheme option) \<Rightarrow>
     (linkaddr \<Rightarrow> u8 \<Rightarrow> u16 \<Rightarrow> 'a mac_state_scheme \<Rightarrow> 'a mac_state_scheme option) \<Rightarrow>
     (u8 list \<Rightarrow> u8 \<Rightarrow> 'a mac_state_scheme \<Rightarrow> 'a mac_state_scheme option) \<Rightarrow> frame802154_t \<Rightarrow>
     bool \<Rightarrow> (u8 list \<times> u64) option \<Rightarrow> 'g slot_state_scheme \<Rightarrow> tsch_proc \<Rightarrow> 'a mac_state_scheme \<Rightarrow>
     ('g slot_state_scheme \<times> tsch_proc \<times> 'a mac_state_scheme) option" where
  "tsch_process cb net_input diff_cb recv_cb frame0 timer_expired heard g p s =
     (case pr_point p of
        TSCH_BEGIN \<Rightarrow> join_loop frame0 heard g p s
      | TSCH_SCANNING \<Rightarrow>
          if \<not> timer_expired then Some (g, p, s)
          else do {
            (ended, g, p, s) \<leftarrow> scan_round frame0 heard g p s;
            if ended then join_loop frame0 heard g p s else Some (g, p, s)
          }
      | TSCH_OPERATING \<Rightarrow>
          if tsch_is_associated s then Some (g, p, s)
          else do {
            s \<leftarrow> tsch_reset cb net_input diff_cb recv_cb frame0 s;
            join_loop frame0 heard g p s
          })"

text \<open>Leaving the network with the main process run at once.\<close>

definition tsch_disassociate_synch ::
    "'a mac_state_scheme mac_cb \<Rightarrow> ('a mac_state_scheme \<Rightarrow> 'a mac_state_scheme option) \<Rightarrow>
     (linkaddr \<Rightarrow> u8 \<Rightarrow> u16 \<Rightarrow> 'a mac_state_scheme \<Rightarrow> 'a mac_state_scheme option) \<Rightarrow>
     (u8 list \<Rightarrow> u8 \<Rightarrow> 'a mac_state_scheme \<Rightarrow> 'a mac_state_scheme option) \<Rightarrow> frame802154_t \<Rightarrow>
     bool \<Rightarrow> (u8 list \<times> u64) option \<Rightarrow> 'g slot_state_scheme \<Rightarrow> tsch_proc \<Rightarrow> 'a mac_state_scheme \<Rightarrow>
     ('g slot_state_scheme \<times> tsch_proc \<times> 'a mac_state_scheme) option" where
  "tsch_disassociate_synch cb net_input diff_cb recv_cb frame0 timer_expired heard g p s =
     (if tsch_is_associated s
      then tsch_process cb net_input diff_cb recv_cb frame0 timer_expired heard g p (s\<lparr> tsch_is_associated := False \<rparr>)
      else Some (g, p, s))"

definition turn_off :: "'g slot_state_scheme \<Rightarrow> bool \<times> 'g slot_state_scheme" where
  "turn_off g = (True, g\<lparr> radio_is_on := False \<rparr>)"

subsection \<open>The process that queues beacons\<close>

datatype eb_point = EB_BEGIN | EB_WAIT_ASSOCIATION | EB_INITIAL_DELAY | EB_PERIODIC

text \<open>\<open>eb_interval\<close> is the interval of the timer of the process.\<close>

record eb_proc =
  eb_point :: eb_point
  eb_interval :: clock_time_t

text \<open>The random number is an \<open>unsigned short\<close>; a period below four divides by zero.\<close>

definition eb_delay :: "'a mac_state_scheme \<Rightarrow> (clock_time_t \<times> 'a mac_state_scheme) option" where
  "eb_delay s =
     (if tsch_current_eb_period s > 0 then do {
        let (r, s) = random_rand s;
        guard_opt (tsch_current_eb_period s div 4 \<noteq> 0);
        Some ((tsch_current_eb_period s - tsch_current_eb_period s div 4) + ucast r mod (tsch_current_eb_period s div 4), s)
      }
      else Some (TSCH_EB_PERIOD, s))"

definition eb_round :: "eb_proc \<Rightarrow> 'a mac_state_scheme \<Rightarrow> (eb_proc \<times> 'a mac_state_scheme) option" where
  "eb_round p s = do {
     s \<leftarrow> send_eb s;
     (delay, s) \<leftarrow> eb_delay s;
     Some (p\<lparr> eb_point := EB_PERIODIC, eb_interval := delay \<rparr>, s)
   }"

definition eb_associated :: "eb_proc \<Rightarrow> 'a mac_state_scheme \<Rightarrow> (eb_proc \<times> 'a mac_state_scheme) option" where
  "eb_associated p s =
     (if \<not> tsch_is_coordinator s
      then (let (r, s) = random_rand s in Some (p\<lparr> eb_point := EB_INITIAL_DELAY, eb_interval := ucast r mod TSCH_EB_PERIOD \<rparr>, s))
      else eb_round p s)"

definition tsch_send_eb_process :: "bool \<Rightarrow> eb_proc \<Rightarrow> 'a mac_state_scheme \<Rightarrow> (eb_proc \<times> 'a mac_state_scheme) option" where
  "tsch_send_eb_process timer_expired p s =
     (case eb_point p of
        EB_BEGIN \<Rightarrow>
          (let p = p\<lparr> eb_interval := word_of_nat (CLOCK_SECOND div 10) \<rparr> in
           if tsch_is_associated s then eb_associated p s else Some (p\<lparr> eb_point := EB_WAIT_ASSOCIATION \<rparr>, s))
      | EB_WAIT_ASSOCIATION \<Rightarrow>
          if \<not> timer_expired then Some (p, s) else if tsch_is_associated s then eb_associated p s else Some (p, s)
      | EB_INITIAL_DELAY \<Rightarrow> if \<not> timer_expired then Some (p, s) else eb_round p s
      | EB_PERIODIC \<Rightarrow> if \<not> timer_expired then Some (p, s) else eb_round p s)"

end
