(* ===== verification/TschProcessProps.thy ===== *)
theory TschProcessProps
  imports TschProcess
begin

text \<open>
  The processes of the MAC layer: a node that hears a beacon while scanning, and a coordinator, end up in operation with the slot timer set; the
  beacons keep their period.
\<close>

subsection \<open>Starting the slots\<close>

lemma slot_operation_start_radio:
  assumes "tsch_slot_operation_start g s = Some r"
  shows "radio_is_on (fst r) = radio_is_on g"
  using _ assms
proof (rule tsch_slot_operation_start.raw_induct [where P = "\<lambda>g s r. radio_is_on (fst r) = radio_is_on g"], goal_cases)
  case (1 f g s r)
  obtain d g1 s1 where n: "next_slot g s = (d, g1, s1)" by (metis surj_pair)
  have g1: "radio_is_on g1 = radio_is_on g" using n by (auto simp: next_slot_def Let_def split: prod.splits)
  show ?case using 1 g1 unfolding n by (cases r) (auto simp: bind_eq_Some_conv tsch_schedule_slot_operation_def Let_def split: if_splits)
qed

lemma start_slots:
  fixes u :: "'a mac_state_scheme" and g :: "'g slot_state_scheme"
  assumes w: "sched_wf u" "\<not> tsch_locked u" "tsch_timing u = tsch_default_timing_us"
    and b: "asn_int (tsch_current_asn u) + uint (rtimer_now u - current_slot_start u) div 10000 + 65536 \<le> 2 ^ 40"
  shows "\<exists>k g' l asn'. tsch_slot_operation_start g u = Some (g', u\<lparr> current_link := l, tsch_current_asn := asn', current_slot_start := current_slot_start u + word_of_int (k * 10000) \<rparr>) \<and>
    asn_int asn' = asn_int (tsch_current_asn u) + k \<and> slot_operation_timer g' = Some (current_slot_start u + word_of_int (k * 10000)) \<and>
    uint (rtimer_now u - current_slot_start u) < k * 10000 \<and> radio_is_on g' = radio_is_on g"
proof -
  have "tsch_ts_timeslot_length < length (tsch_timing u) \<and> tsch_timing u ! tsch_ts_timeslot_length = 10000" by (simp add: w(3) tsch_default_timing_us_def)
  from slot_operation_start_ok [OF w(1,2) this] b slot_operation_start_radio [of g u] show ?thesis by fastforce
qed


subsection \<open>Scanning\<close>

lemma scan_hop_ok:
  "\<exists>c t n. scan_hop p s = Some (p\<lparr> scan_channel := c, current_channel_since := t \<rparr>, s\<lparr> random_pos := n \<rparr>) \<and>
     (c \<in> set TSCH_JOIN_HOPPING_SEQUENCE \<or> c = scan_channel p \<and> c \<noteq> 0)"
proof (cases "scan_channel p = 0 \<or> clock_time s - current_channel_since p > TSCH_CHANNEL_SCAN_DURATION")
  case True
  have "unat r mod length TSCH_JOIN_HOPPING_SEQUENCE < length TSCH_JOIN_HOPPING_SEQUENCE" for r :: u16
    by (simp add: TSCH_JOIN_HOPPING_SEQUENCE_def TSCH_DEFAULT_HOPPING_SEQUENCE_def)
  then have i: "unat (random_seq s (random_pos s)) mod length TSCH_JOIN_HOPPING_SEQUENCE < length TSCH_JOIN_HOPPING_SEQUENCE" .
  have "scan_hop p s = Some (p\<lparr> scan_channel := TSCH_JOIN_HOPPING_SEQUENCE ! (unat (random_seq s (random_pos s)) mod length TSCH_JOIN_HOPPING_SEQUENCE),
      current_channel_since := clock_time s \<rparr>, s\<lparr> random_pos := Suc (random_pos s) \<rparr>)"
    using True i by (auto simp: scan_hop_def random_rand_def nth_opt_def Let_def)
  then show ?thesis using i by (metis nth_mem)
next
  case False
  then have "scan_hop p s = Some (p\<lparr> scan_channel := scan_channel p, current_channel_since := current_channel_since p \<rparr>, s\<lparr> random_pos := random_pos s \<rparr>)"
    by (simp add: scan_hop_def Let_def)
  then show ?thesis using False by blast
qed

lemma join_loop_associated:
  assumes "tsch_is_associated s" "tsch_slot_operation_start g s = Some (g', s')"
  shows "join_loop f0 heard g p s = Some (g', p\<lparr> pr_point := TSCH_OPERATING \<rparr>, s')"
  using assms by (simp add: join_loop.simps [of f0 heard g p s])

lemma scan_round_heard:
  assumes "\<not> tsch_is_associated s" "\<not> tsch_is_coordinator s" "scan_hop p s = Some (p1, s1)" "put_opt (ip_payload (input_eb p1)) 0 bytes = Some y"
    and "tsch_associate f0 (Some ((input_eb p1)\<lparr> ip_payload := y, ip_len := int (length bytes) \<rparr>)) t0 s1 = Some (b, s2)" "tsch_is_associated s2"
  shows "scan_round f0 (Some (bytes, t0)) g p s =
    Some (True, g\<lparr> radio_is_on := False \<rparr>, p1\<lparr> input_eb := (input_eb p1)\<lparr> ip_payload := y, ip_len := int (length bytes) \<rparr> \<rparr>, s2)"
  using assms by (simp add: scan_round_def del: put_opt_eq_Some)

lemma scanning_joins:
  fixes u :: "'a mac_state_scheme" and g :: "'g slot_state_scheme"
  assumes s: "eb_time_source s = Some ts" "length (schedule_received s) = 3" "length (packetbuf s) = PACKETBUF_SIZE"
      "addr_wf (linkaddr_node_addr s)" "mac_pan_id s = IEEE802154_PANID"
    and d: "linkaddr_node_addr s ! 0 \<noteq> MASTER_TSCH_DISTRIBUTOR"
      "linkaddr_node_addr u ! 0 = MASTER_TSCH_DISTRIBUTOR \<longrightarrow> linkaddr_node_addr s ! 0 = MASTER_TSCH_COORDINATOR"
    and t: "unat (tsch_join_priority t) < 31"
    and u: "sched_wf u" "\<not> tsch_locked u" "\<not> tsch_is_coordinator u" "tsch_queue_get_time_source u = None" "linkaddr_node_addr u \<noteq> []"
      "length (tsch_hopping_sequence u) = TSCH_HOPPING_SEQUENCE_MAX_LEN"
      "tsch_queue_get_nbr (linkaddr_node_addr s) u \<noteq> None \<or> memb_numfree (neighbor_memb u) \<noteq> 0" "\<not> tsch_is_associated u"
    and p: "pr_point p = TSCH_SCANNING" "length (ip_payload (input_eb p)) = TSCH_PACKET_MAX_LEN"
    and b: "asn_int (tsch_current_asn t) + uint (rtimer_now u - (t0 - 2120)) div 10000 + 65536 \<le> 2 ^ 40"
  shows "\<exists>s' buf. tsch_packet_create_eb s = Some (57, Some (16, 18), s') \<and> tsch_packet_update_eb (packetbuf s') 57 18 t = Some (1, buf) \<and>
    (\<exists>g' p' u' k n. tsch_process cb net_input diff_cb recv_cb f0 True (Some (take 57 buf, t0)) g p u = Some (g', p', u') \<and>
      pr_point p' = TSCH_OPERATING \<and> tsch_is_associated u' \<and> \<not> radio_is_on g' \<and> asn_int (tsch_current_asn u') = asn_int (tsch_current_asn t) + k \<and>
      slot_operation_timer g' = Some (t0 - 2120 + word_of_int (k * 10000)) \<and> uint (rtimer_now u - (t0 - 2120)) < k * 10000 \<and>
      tsch_queue_get_time_source u' = Some n \<and> n_addr (nbr u' n) = linkaddr_node_addr s)"
proof -
  obtain c ti r where h: "scan_hop p u = Some (p\<lparr> scan_channel := c, current_channel_since := ti \<rparr>, u\<lparr> random_pos := r \<rparr>)" using scan_hop_ok [of p u] by blast
  define u1 where "u1 = u\<lparr> random_pos := r \<rparr>"
  define p1 where "p1 = p\<lparr> scan_channel := c, current_channel_since := ti \<rparr>"
  have e: "q_wf u1 = q_wf u" "nbr u1 = nbr u" "tsch_queue_get_time_source u1 = tsch_queue_get_time_source u" by (rule q_wf_cong_mac; simp add: u1_def)+
  have gn: "tsch_queue_get_nbr a u1 = tsch_queue_get_nbr a u" for a using e(2) by (simp add: tsch_queue_get_nbr_def tsch_is_locked_def u1_def)
  have w1: "q_wf u1" "\<not> tsch_locked u1" "\<not> tsch_is_coordinator u1" "tsch_queue_get_time_source u1 = None" "linkaddr_node_addr u1 \<noteq> []"
      "length (tsch_hopping_sequence u1) = TSCH_HOPPING_SEQUENCE_MAX_LEN" "tsch_queue_get_nbr (linkaddr_node_addr s) u1 \<noteq> None \<or> memb_numfree (neighbor_memb u1) \<noteq> 0"
      "linkaddr_node_addr u1 ! 0 = MASTER_TSCH_DISTRIBUTOR \<longrightarrow> linkaddr_node_addr s ! 0 = MASTER_TSCH_COORDINATOR"
    using u e gn d(2) by (simp_all add: sched_wf_def) (simp_all add: u1_def)
  obtain s' buf where j: "tsch_packet_create_eb s = Some (57, Some (16, 18), s')" "tsch_packet_update_eb (packetbuf s') 57 18 t = Some (1, buf)" "57 \<le> length buf"
    and j2: "\<exists>u' n. tsch_associate f0 (Some ((input_eb p1)\<lparr> ip_payload := take 57 buf @ drop 57 (ip_payload (input_eb p1)), ip_len := 57 \<rparr>)) t0 u1 = Some (True, u') \<and>
      q_wf u' \<and> tsch_is_associated u' \<and> tsch_current_asn u' = tsch_current_asn t \<and> tsch_queue_get_time_source u' = Some n \<and>
      n_addr (nbr u' n) = linkaddr_node_addr s \<and> \<not> tsch_locked u' \<and> joined_view t0 (u1\<lparr> tsch_timing := tsch_default_timing_us \<rparr>) u'"
    using beacon_joins [OF s d(1) w1(8) t w1(1-7), where ?f0.0 = f0 and inp = "input_eb p1" and rest = "drop 57 (ip_payload (input_eb p1))" and timestamp = t0] by blast
  obtain u2 n where u2: "tsch_associate f0 (Some ((input_eb p1)\<lparr> ip_payload := take 57 buf @ drop 57 (ip_payload (input_eb p1)), ip_len := 57 \<rparr>)) t0 u1 = Some (True, u2)"
      "q_wf u2" "tsch_is_associated u2" "tsch_current_asn u2 = tsch_current_asn t" "tsch_queue_get_time_source u2 = Some n"
      "n_addr (nbr u2 n) = linkaddr_node_addr s" "\<not> tsch_locked u2" "joined_view t0 (u1\<lparr> tsch_timing := tsch_default_timing_us \<rparr>) u2" using j2 by blast
  have v: "link_memb u2 = link_memb u" "slotframe_memb u2 = slotframe_memb u" "slotframe_list u2 = slotframe_list u" "tsch_timing u2 = tsch_default_timing_us"
    "rtimer_now u2 = rtimer_now u" "current_slot_start u2 = t0 - 2120"
    using u2(8) by (simp_all add: joined_view_def u1_def tsch_default_timing_us_def)
  have sw: "sched_wf u2" using u2(2) u(1) sched_cong(1) [OF v(1-3)] by (simp add: sched_wf_def)
  have l: "length (take 57 buf) = 57" using j(3) by simp
  have put: "put_opt (ip_payload (input_eb p1)) 0 (take 57 buf) = Some (take 57 buf @ drop 57 (ip_payload (input_eb p1)))"
    using l p(2) by (simp add: put_opt_def put_at_def p1_def)
  have sr: "scan_round f0 (Some (take 57 buf, t0)) g p u =
      Some (True, g\<lparr> radio_is_on := False \<rparr>, p1\<lparr> input_eb := (input_eb p1)\<lparr> ip_payload := take 57 buf @ drop 57 (ip_payload (input_eb p1)), ip_len := 57 \<rparr> \<rparr>, u2)"
    using scan_round_heard [OF u(8,3) h [folded u1_def p1_def] put, unfolded l, of f0 t0 True u2 g] u2(1,3) by simp
  obtain k g' ln asn' where st: "tsch_slot_operation_start (g\<lparr> radio_is_on := False \<rparr>) u2 = Some (g', u2\<lparr> current_link := ln, tsch_current_asn := asn',
        current_slot_start := t0 - 2120 + word_of_int (k * 10000) \<rparr>)" "asn_int asn' = asn_int (tsch_current_asn t) + k"
      "slot_operation_timer g' = Some (t0 - 2120 + word_of_int (k * 10000))" "uint (rtimer_now u - (t0 - 2120)) < k * 10000" "\<not> radio_is_on g'"
    using start_slots [OF sw u2(7) v(4), of "g\<lparr> radio_is_on := False \<rparr>"] b unfolding v(5,6) u2(4) by auto
  let ?u = "u2\<lparr> current_link := ln, tsch_current_asn := asn', current_slot_start := t0 - 2120 + word_of_int (k * 10000) \<rparr>"
  have f: "nbr ?u = nbr u2" "tsch_queue_get_time_source ?u = tsch_queue_get_time_source u2" by (rule q_wf_cong_mac; simp)+
  have "tsch_process cb net_input diff_cb recv_cb f0 True (Some (take 57 buf, t0)) g p u =
      Some (g', (p1\<lparr> input_eb := (input_eb p1)\<lparr> ip_payload := take 57 buf @ drop 57 (ip_payload (input_eb p1)), ip_len := 57 \<rparr> \<rparr>)\<lparr> pr_point := TSCH_OPERATING \<rparr>, ?u)"
    using p(1) sr join_loop_associated [OF u2(3) st(1)] by (simp add: tsch_process_def)
  moreover have "tsch_is_associated ?u" "tsch_queue_get_time_source ?u = Some n" "n_addr (nbr ?u n) = linkaddr_node_addr s" "asn_int (tsch_current_asn ?u) = asn_int (tsch_current_asn t) + k"
    using u2(3,5,6) f st(2) by simp_all
  ultimately show ?thesis using j(1,2) st(3-5) by (intro exI [of _ s'] exI [of _ buf] conjI) (simp, simp, force)
qed


subsection \<open>Properties\<close>


definition scanning_proc :: tsch_proc where
  "scanning_proc = \<lparr> pr_point = TSCH_SCANNING, scan_channel = 0, current_channel_since = 0,
     input_eb = \<lparr> ip_payload = replicate 96 0, ip_rx_asn = \<lparr> ls4b = 0, ms1b = 0 \<rparr>, ip_len = 0, ip_rssi = 0, ip_channel = 0 \<rparr> \<rparr>"


text \<open>
  A coordinator starts its network at once: the first event of the main process associates it with join priority 0, the PAN of the network and
  the default hopping sequence, and sets the slot timer to a slot boundary after the present, with the slot number in step.
\<close>

lemma coordinator_starts:
  fixes s :: "'a mac_state_scheme" and g :: "'g slot_state_scheme"
  assumes "pr_point p = TSCH_BEGIN" "tsch_is_coordinator s" "\<not> tsch_is_associated s" "sched_wf s" "\<not> tsch_locked s" "tsch_timing s = tsch_default_timing_us"
    "length (tsch_hopping_sequence s) = TSCH_HOPPING_SEQUENCE_MAX_LEN" "asn_int (tsch_current_asn s) + 65536 \<le> 2 ^ 40"
  shows "\<exists>g' s' k. tsch_process cb net_input diff_cb recv_cb f0 te heard g p s = Some (g', p\<lparr> pr_point := TSCH_OPERATING \<rparr>, s') \<and> tsch_is_associated s' \<and>
    tsch_join_priority s' = 0 \<and> mac_pan_id s' = IEEE802154_PANID \<and> 0 < k \<and> asn_int (tsch_current_asn s') = asn_int (tsch_current_asn s) + k \<and>
    slot_operation_timer g' = Some (rtimer_now s + word_of_int (k * 10000))"
proof -
  let ?s1 = "frame802154_set_pan_id IEEE802154_PANID s"
  obtain hs d where h: "default_hopping_sequence ?s1 = Some (?s1\<lparr> tsch_hopping_sequence := hs, tsch_hopping_sequence_length := d \<rparr>)"
    using default_hopping_ok [of ?s1] assms(7) by (auto simp: frame802154_set_pan_id_def)
  define s2 where "s2 = tsch_slot_operation_sync (rtimer_now s) (tsch_current_asn s)
      (?s1\<lparr> tsch_hopping_sequence := hs, tsch_hopping_sequence_length := d, tsch_is_associated := True, tsch_join_priority := 0 \<rparr>)"
  have c: "tsch_start_coordinator s = Some s2" using h by (simp add: tsch_start_coordinator_def s2_def) (simp add: frame802154_set_pan_id_def)
  have w: "sched_wf s2" using sched_wf_frame(1) [of s2 s] assms(4) by (simp add: s2_def tsch_slot_operation_sync_def frame802154_set_pan_id_def)
  have v: "\<not> tsch_locked s2" "tsch_timing s2 = tsch_default_timing_us" "tsch_is_associated s2" "tsch_current_asn s2 = tsch_current_asn s" "rtimer_now s2 = rtimer_now s"
    "current_slot_start s2 = rtimer_now s" "tsch_join_priority s2 = 0" "mac_pan_id s2 = IEEE802154_PANID"
    using assms(5,6) by (simp_all add: s2_def tsch_slot_operation_sync_def frame802154_set_pan_id_def)
  obtain k g' ln asn' where st: "tsch_slot_operation_start g s2 = Some (g', s2\<lparr> current_link := ln, tsch_current_asn := asn',
        current_slot_start := rtimer_now s + word_of_int (k * 10000) \<rparr>)" "asn_int asn' = asn_int (tsch_current_asn s) + k"
      "slot_operation_timer g' = Some (rtimer_now s + word_of_int (k * 10000))" "0 < k * 10000"
    using start_slots [OF w v(1,2), of g] assms(8) unfolding v(4-6) by auto
  have "join_loop f0 heard g p s = join_loop f0 heard g p s2" using assms(2,3) c by (simp add: join_loop.simps [of f0 heard g p s])
  also have "\<dots> = Some (g', p\<lparr> pr_point := TSCH_OPERATING \<rparr>, s2\<lparr> current_link := ln, tsch_current_asn := asn', current_slot_start := rtimer_now s + word_of_int (k * 10000) \<rparr>)"
    by (rule join_loop_associated [OF v(3) st(1)])
  finally show ?thesis using assms(1) st(2-4) v(3,7,8) by (simp add: tsch_process_def)
qed

text \<open>
  Beacons keep their period. Whenever its timer has expired, the beacon process queues a beacon if none is waiting and waits again: with
  a period of zero for the default period, otherwise for a random time of at least three quarters of the period and
  below it. (A period of one to three ticks divides by zero.)
\<close>

theorem beacon_interval:
  fixes s :: "'a mac_state_scheme"
  assumes "eb_point p \<in> {EB_INITIAL_DELAY, EB_PERIODIC}" "send_eb s = Some s1" "tsch_current_eb_period s1 = 0 \<or> 4 \<le> tsch_current_eb_period s1"
  shows "\<exists>d n. tsch_send_eb_process True p s = Some (p\<lparr> eb_point := EB_PERIODIC, eb_interval := d \<rparr>, s1\<lparr> random_pos := n \<rparr>) \<and>
    (if tsch_current_eb_period s1 = 0 then d = TSCH_EB_PERIOD
     else 3 * uint (tsch_current_eb_period s1) \<le> 4 * uint d \<and> uint d < uint (tsch_current_eb_period s1))"
proof (cases "tsch_current_eb_period s1 = 0")
  case True
  then have "eb_delay s1 = Some (TSCH_EB_PERIOD, s1\<lparr> random_pos := random_pos s1 \<rparr>)" by (simp add: eb_delay_def)
  then have "tsch_send_eb_process True p s = Some (p\<lparr> eb_point := EB_PERIODIC, eb_interval := TSCH_EB_PERIOD \<rparr>, s1\<lparr> random_pos := random_pos s1 \<rparr>)"
    using assms(1,2) by (auto simp: tsch_send_eb_process_def eb_round_def)
  then show ?thesis using True by (intro exI [of _ TSCH_EB_PERIOD] exI [of _ "random_pos s1"]) simp
next
  case False
  define q where "q = tsch_current_eb_period s1"
  define r where "r = ucast (random_seq s1 (random_pos s1)) mod (q div 4)"
  have q: "4 \<le> uint q" using assms(3) False by (simp add: q_def word_le_def)
  have dv: "uint (q div 4) = uint q div 4" "uint r < uint (q div 4)"
  proof -
    show "uint (q div 4) = uint q div 4" by (simp add: uint_div)
    then show "uint r < uint (q div 4)" using q by (simp add: r_def uint_mod)
  qed
  have "uint (q - q div 4) = uint q - uint q div 4" using dv(1) q by (simp add: uint_sub_lem [THEN iffD1])
  moreover have "uint q - uint q div 4 + uint r < 2 ^ 32" using dv q uint_lt2p [of q] by simp
  ultimately have d: "uint ((q - q div 4) + r) = uint q - uint q div 4 + uint r" by (simp add: uint_add_lem [THEN iffD1])
  have "uint (q div 4) \<noteq> 0" unfolding dv(1) using q by linarith
  then have "q div 4 \<noteq> 0" by auto
  then have "eb_delay s1 = Some ((q - q div 4) + r, s1\<lparr> random_pos := Suc (random_pos s1) \<rparr>)"
    using False by (simp add: eb_delay_def random_rand_def q_def r_def word_gt_0)
  then have "tsch_send_eb_process True p s = Some (p\<lparr> eb_point := EB_PERIODIC, eb_interval := (q - q div 4) + r \<rparr>, s1\<lparr> random_pos := Suc (random_pos s1) \<rparr>)"
    using assms(1,2) by (auto simp: tsch_send_eb_process_def eb_round_def)
  moreover have "3 * uint q \<le> 4 * uint ((q - q div 4) + r)" "uint ((q - q div 4) + r) < uint q" 
  proof -
    have "0 \<le> uint r" "4 * (uint q div 4) \<le> uint q" by simp_all
    then show "3 * uint q \<le> 4 * uint ((q - q div 4) + r)" "uint ((q - q div 4) + r) < uint q" unfolding d using dv by (simp_all, linarith)
  qed
  ultimately show ?thesis using False unfolding q_def by auto
qed

theorem beacon_interval_witness:
  "\<exists>d s'. tsch_send_eb_process True \<lparr> eb_point = EB_PERIODIC, eb_interval = 0 \<rparr> ((mac_boot linkaddr_null)\<lparr> tsch_is_associated := False, tsch_current_eb_period := 4000 \<rparr>) =
     Some (\<lparr> eb_point = EB_PERIODIC, eb_interval = d \<rparr>, s') \<and> 12000 \<le> 4 * uint d \<and> uint d < 4000"
  using beacon_interval [of "\<lparr> eb_point = EB_PERIODIC, eb_interval = 0 \<rparr>" "(mac_boot linkaddr_null)\<lparr> tsch_is_associated := False, tsch_current_eb_period := 4000 \<rparr>"
      "(mac_boot linkaddr_null)\<lparr> tsch_is_associated := False, tsch_current_eb_period := 4000 \<rparr>"]
  by (auto simp: send_eb_def)

end
