(* ===== verification/Process.thy ===== *)
theory Process
  imports ListLib
begin

text \<open>
  The process kernel (\<open>os/sys/process.c\<close>): the list of processes, the ring of posted events, polling and the delivery of
  events to the protothreads. A process is a block; the heap of \<open>next\<close> pointers is the one of the list library. A protothread
  is a parameter \<open>thread\<close>: it gets the event and its data, may change the kernel (post events, start, poll or end processes) and returns
  how it ended; a process without a thread function is outside \<open>has_thread\<close>. Delivering an event may end a process, which is announced to
  all others, which may end in turn: the functions that run threads have fuel, and \<open>None\<close> also stands for fuel that has run out.
\<close>

subsection \<open>State\<close>

type_synonym process_event_t = u8
type_synonym process_data_t = "nat option"

record event_data =
  ev_ev :: process_event_t
  ev_data :: process_data_t
  ev_p :: "nat option"

record kernel =
  process_list :: "nat option"
  process_next :: heap
  process_state :: "nat \<Rightarrow> u8"
  process_needspoll :: "nat \<Rightarrow> bool"
  process_current :: "nat option"
  lastevent :: process_event_t
  nevents :: u8
  fevent :: u8
  event_array :: "event_data list"
  poll_requested :: bool

definition PROCESS_CONF_NUMEVENTS :: u8 where [simp]: "PROCESS_CONF_NUMEVENTS = 32"
definition PROCESS_EVENT_INIT :: u8 where [simp]: "PROCESS_EVENT_INIT = 0x81"
definition PROCESS_EVENT_POLL :: u8 where [simp]: "PROCESS_EVENT_POLL = 0x82"
definition PROCESS_EVENT_EXIT :: u8 where [simp]: "PROCESS_EVENT_EXIT = 0x83"
definition PROCESS_EVENT_EXITED :: u8 where [simp]: "PROCESS_EVENT_EXITED = 0x87"
definition PROCESS_EVENT_TIMER :: u8 where [simp]: "PROCESS_EVENT_TIMER = 0x88"
definition PROCESS_EVENT_MAX :: u8 where [simp]: "PROCESS_EVENT_MAX = 0x8a"
definition PROCESS_STATE_NONE :: u8 where [simp]: "PROCESS_STATE_NONE = 0"
definition PROCESS_STATE_RUNNING :: u8 where [simp]: "PROCESS_STATE_RUNNING = 1"
definition PROCESS_STATE_CALLED :: u8 where [simp]: "PROCESS_STATE_CALLED = 2"
definition PROCESS_ERR_OK :: int where [simp]: "PROCESS_ERR_OK = 0"
definition PROCESS_ERR_FULL :: int where [simp]: "PROCESS_ERR_FULL = 1"

datatype pt_ret = PT_WAITING | PT_YIELDED | PT_EXITED | PT_ENDED

type_synonym 'k thread = "nat \<Rightarrow> process_event_t \<Rightarrow> process_data_t \<Rightarrow> 'k \<Rightarrow> (pt_ret \<times> 'k) option"

subsection \<open>Events and polls\<close>

definition process_alloc_event :: "'k kernel_scheme \<Rightarrow> process_event_t \<times> 'k kernel_scheme" where
  "process_alloc_event k = (lastevent k, k\<lparr> lastevent := lastevent k + 1 \<rparr>)"

definition process_init :: "'k kernel_scheme \<Rightarrow> 'k kernel_scheme" where
  "process_init k = k\<lparr> lastevent := PROCESS_EVENT_MAX, nevents := 0, fevent := 0, process_current := None, process_list := None \<rparr>"

definition process_is_running :: "nat \<Rightarrow> 'k kernel_scheme \<Rightarrow> bool" where
  "process_is_running p k = (process_state k p \<noteq> PROCESS_STATE_NONE)"

definition process_nevents :: "'k kernel_scheme \<Rightarrow> int" where
  "process_nevents k = uint (nevents k) + of_bool (poll_requested k)"

definition process_poll :: "nat option \<Rightarrow> 'k kernel_scheme \<Rightarrow> 'k kernel_scheme" where
  "process_poll q k =
     (case q of
        None \<Rightarrow> k
      | Some p \<Rightarrow>
          if process_state k p = PROCESS_STATE_RUNNING \<or> process_state k p = PROCESS_STATE_CALLED
          then k\<lparr> process_needspoll := (process_needspoll k)(p := True), poll_requested := True \<rparr> else k)"

text \<open>The sum of two \<open>unsigned char\<close> is an \<open>int\<close>; the cast binds tighter than the remainder.\<close>

definition process_post :: "nat option \<Rightarrow> process_event_t \<Rightarrow> process_data_t \<Rightarrow> 'k kernel_scheme \<Rightarrow> (int \<times> 'k kernel_scheme) option" where
  "process_post p ev data k =
     (if nevents k = PROCESS_CONF_NUMEVENTS then Some (PROCESS_ERR_FULL, k)
      else do {
        let snum = (fevent k + nevents k) mod PROCESS_CONF_NUMEVENTS;
        es \<leftarrow> upd_opt (event_array k) (unat snum) \<lparr> ev_ev = ev, ev_data = data, ev_p = p \<rparr>;
        Some (PROCESS_ERR_OK, k\<lparr> event_array := es, nevents := nevents k + 1 \<rparr>)
      })"

subsection \<open>Running threads\<close>

partial_function (option) find_process :: "heap \<Rightarrow> nat \<Rightarrow> nat option \<Rightarrow> nat option option" where
  "find_process nx p q = (case q of None \<Rightarrow> Some None | Some x \<Rightarrow> if x = p then Some (Some x) else find_process nx p (nx x))"

partial_function (option) unlink_process :: "heap \<Rightarrow> nat \<Rightarrow> nat option \<Rightarrow> heap option" where
  "unlink_process nx p q =
     (case q of None \<Rightarrow> Some nx | Some x \<Rightarrow> if nx x = Some p then Some (nx(x := nx p)) else unlink_process nx p (nx x))"

text \<open>
  \<open>call_process\<close> runs a thread; \<open>exit_process\<close> ends a process, with \<open>tell_exited\<close> the loop that announces the end to
  the other processes of the list, as the list is at the time of each step. The last two call \<open>call_process\<close> with the
  event \<open>PROCESS_EVENT_EXITED\<close>, which is their argument \<open>call\<close>.
\<close>

primrec tell_exited :: "nat \<Rightarrow> (nat \<Rightarrow> 'k kernel_scheme \<Rightarrow> 'k kernel_scheme option) \<Rightarrow> nat \<Rightarrow> nat option \<Rightarrow> 'k kernel_scheme \<Rightarrow> 'k kernel_scheme option" where
  "tell_exited 0 call p q k = None"
| "tell_exited (Suc fuel) call p q k =
     (case q of
        None \<Rightarrow> Some k
      | Some x \<Rightarrow> do {
          k \<leftarrow> (if p \<noteq> x then call x k else Some k);
          tell_exited fuel call p (process_next k x) k
        })"

definition exit_process :: "nat \<Rightarrow> (nat \<Rightarrow> 'k kernel_scheme \<Rightarrow> 'k kernel_scheme option) \<Rightarrow> 'k kernel_scheme thread \<Rightarrow> nat set \<Rightarrow> nat \<Rightarrow> nat option \<Rightarrow>
    'k kernel_scheme \<Rightarrow> 'k kernel_scheme option" where
  "exit_process fuel call thread has_thread p from k =
     (let old_current = process_current k in do {
        q \<leftarrow> find_process (process_next k) p (process_list k);
        if q = None then Some k
        else do {
          k \<leftarrow> (if process_is_running p k then do {
                  let k = k\<lparr> process_state := (process_state k)(p := PROCESS_STATE_NONE) \<rparr>;
                  k \<leftarrow> tell_exited fuel call p (process_list k) k;
                  if p \<in> has_thread \<and> from \<noteq> Some p then do {
                    (_, k) \<leftarrow> thread p PROCESS_EVENT_EXIT None (k\<lparr> process_current := Some p \<rparr>);
                    Some k
                  }
                  else Some k
                }
                else Some k);
          k \<leftarrow> (if process_list k = Some p then Some (k\<lparr> process_list := process_next k p \<rparr>)
                else do {
                  nx \<leftarrow> unlink_process (process_next k) p (process_list k);
                  Some (k\<lparr> process_next := nx \<rparr>)
                });
          Some (k\<lparr> process_current := old_current \<rparr>)
        }
      })"

primrec call_process :: "nat \<Rightarrow> 'k kernel_scheme thread \<Rightarrow> nat set \<Rightarrow> nat \<Rightarrow> process_event_t \<Rightarrow> process_data_t \<Rightarrow> 'k kernel_scheme \<Rightarrow>
    'k kernel_scheme option" where
  "call_process 0 thread has_thread p ev data k = None"
| "call_process (Suc fuel) thread has_thread p ev data k =
     (if process_state k p AND PROCESS_STATE_RUNNING \<noteq> 0 \<and> p \<in> has_thread then do {
        let k = k\<lparr> process_current := Some p, process_state := (process_state k)(p := PROCESS_STATE_CALLED) \<rparr>;
        (ret, k) \<leftarrow> thread p ev data k;
        if ret = PT_EXITED \<or> ret = PT_ENDED \<or> ev = PROCESS_EVENT_EXIT
        then exit_process fuel (\<lambda>x. call_process fuel thread has_thread x PROCESS_EVENT_EXITED (Some p)) thread has_thread p (Some p) k
        else Some (k\<lparr> process_state := (process_state k)(p := PROCESS_STATE_RUNNING) \<rparr>)
      }
      else Some k)"

definition process_exit :: "nat \<Rightarrow> 'k kernel_scheme thread \<Rightarrow> nat set \<Rightarrow> nat \<Rightarrow> 'k kernel_scheme \<Rightarrow> 'k kernel_scheme option" where
  "process_exit fuel thread has_thread p k =
     exit_process fuel (\<lambda>x. call_process fuel thread has_thread x PROCESS_EVENT_EXITED (Some p)) thread has_thread p (process_current k) k"

definition process_post_synch :: "nat \<Rightarrow> 'k kernel_scheme thread \<Rightarrow> nat set \<Rightarrow> nat \<Rightarrow> process_event_t \<Rightarrow> process_data_t \<Rightarrow> 'k kernel_scheme \<Rightarrow>
    'k kernel_scheme option" where
  "process_post_synch fuel thread has_thread p ev data k =
     (let caller = process_current k in do {
        k \<leftarrow> call_process fuel thread has_thread p ev data k;
        Some (k\<lparr> process_current := caller \<rparr>)
      })"

text \<open>The line that resets the protothread of a started process is left to the thread, which sees the initialisation event.\<close>

definition process_start :: "nat \<Rightarrow> 'k kernel_scheme thread \<Rightarrow> nat set \<Rightarrow> nat \<Rightarrow> process_data_t \<Rightarrow> 'k kernel_scheme \<Rightarrow> 'k kernel_scheme option" where
  "process_start fuel thread has_thread p data k = do {
     q \<leftarrow> find_process (process_next k) p (process_list k);
     if q = Some p then Some k
     else process_post_synch fuel thread has_thread p PROCESS_EVENT_INIT data
            (k\<lparr> process_next := (process_next k)(p := process_list k), process_list := Some p,
               process_state := (process_state k)(p := PROCESS_STATE_RUNNING) \<rparr>)
   }"

primrec do_poll_loop :: "nat \<Rightarrow> 'k kernel_scheme thread \<Rightarrow> nat set \<Rightarrow> nat option \<Rightarrow> 'k kernel_scheme \<Rightarrow> 'k kernel_scheme option" where
  "do_poll_loop 0 thread has_thread q k = None"
| "do_poll_loop (Suc fuel) thread has_thread q k =
     (case q of
        None \<Rightarrow> Some k
      | Some p \<Rightarrow> do {
          k \<leftarrow> (if process_needspoll k p
                then call_process fuel thread has_thread p PROCESS_EVENT_POLL None
                       (k\<lparr> process_state := (process_state k)(p := PROCESS_STATE_RUNNING), process_needspoll := (process_needspoll k)(p := False) \<rparr>)
                else Some k);
          do_poll_loop fuel thread has_thread (process_next k p) k
        })"

definition do_poll :: "nat \<Rightarrow> 'k kernel_scheme thread \<Rightarrow> nat set \<Rightarrow> 'k kernel_scheme \<Rightarrow> 'k kernel_scheme option" where
  "do_poll fuel thread has_thread k = do_poll_loop fuel thread has_thread (process_list k) (k\<lparr> poll_requested := False \<rparr>)"

primrec do_broadcast :: "nat \<Rightarrow> 'k kernel_scheme thread \<Rightarrow> nat set \<Rightarrow> process_event_t \<Rightarrow> process_data_t \<Rightarrow> nat option \<Rightarrow> 'k kernel_scheme \<Rightarrow>
    'k kernel_scheme option" where
  "do_broadcast 0 thread has_thread ev data q k = None"
| "do_broadcast (Suc fuel) thread has_thread ev data q k =
     (case q of
        None \<Rightarrow> Some k
      | Some p \<Rightarrow> do {
          k \<leftarrow> (if poll_requested k then do_poll fuel thread has_thread k else Some k);
          k \<leftarrow> call_process fuel thread has_thread p ev data k;
          do_broadcast fuel thread has_thread ev data (process_next k p) k
        })"

definition do_event :: "nat \<Rightarrow> 'k kernel_scheme thread \<Rightarrow> nat set \<Rightarrow> 'k kernel_scheme \<Rightarrow> 'k kernel_scheme option" where
  "do_event fuel thread has_thread k =
     (if nevents k > 0 then do {
        e \<leftarrow> nth_opt (event_array k) (unat (fevent k));
        let k = k\<lparr> fevent := (fevent k + 1) mod PROCESS_CONF_NUMEVENTS, nevents := nevents k - 1 \<rparr>;
        case ev_p e of
          None \<Rightarrow> do_broadcast fuel thread has_thread (ev_ev e) (ev_data e) (process_list k) k
        | Some p \<Rightarrow>
            (let k = (if ev_ev e = PROCESS_EVENT_INIT then k\<lparr> process_state := (process_state k)(p := PROCESS_STATE_RUNNING) \<rparr> else k)
             in call_process fuel thread has_thread p (ev_ev e) (ev_data e) k)
      }
      else Some k)"

definition process_run :: "nat \<Rightarrow> 'k kernel_scheme thread \<Rightarrow> nat set \<Rightarrow> 'k kernel_scheme \<Rightarrow> (int \<times> 'k kernel_scheme) option" where
  "process_run fuel thread has_thread k = do {
     k \<leftarrow> (if poll_requested k then do_poll fuel thread has_thread k else Some k);
     k \<leftarrow> do_event fuel thread has_thread k;
     Some (process_nevents k, k)
   }"

end
