(* ===== verification/ProcessProps.thy ===== *)
theory ProcessProps
  imports Process
begin

text \<open>
  The process kernel: its event ring is a queue of at most 32 events, an event is delivered to its receiver with the queue already
  advanced, and the end of a process is announced to every other process before it leaves the list.
\<close>

subsection \<open>The event queue\<close>

definition kq_wf :: "'k kernel_scheme \<Rightarrow> bool" where
  "kq_wf k \<longleftrightarrow> length (event_array k) = 32 \<and> fevent k < 32 \<and> nevents k \<le> 32"

definition queued :: "'k kernel_scheme \<Rightarrow> event_data list" where
  "queued k = map (\<lambda>i. event_array k ! ((unat (fevent k) + i) mod 32)) [0..<unat (nevents k)]"

lemma length_queued [simp]: "length (queued k) = unat (nevents k)" by (simp add: queued_def)

lemma kq_wfD:
  assumes "kq_wf k"
  shows "length (event_array k) = 32" "unat (fevent k) < 32" "unat (nevents k) \<le> 32"
  using assms by (simp_all add: kq_wf_def word_less_nat_alt word_le_nat_alt)

lemma post_full:
  assumes "kq_wf k" "length (queued k) = 32"
  shows "process_post p ev data k = Some (PROCESS_ERR_FULL, k)"
  using assms by (simp add: process_post_def word_unat_eq_iff)

lemma post_ok:
  assumes w: "kq_wf k" and "length (queued k) < 32"
  shows "\<exists>k'. process_post p ev data k = Some (PROCESS_ERR_OK, k') \<and> kq_wf k' \<and> queued k' = queued k @ [\<lparr> ev_ev = ev, ev_data = data, ev_p = p \<rparr>] \<and>
    (\<exists>es n. k' = k\<lparr> event_array := es, nevents := n \<rparr>)"
proof -
  note d = kq_wfD [OF w]
  have n: "unat (nevents k) < 32" using assms(2) by simp
  let ?i = "(unat (fevent k) + unat (nevents k)) mod 32" and ?e = "\<lparr> ev_ev = ev, ev_data = data, ev_p = p \<rparr>"
  have i: "unat ((fevent k + nevents k) mod 32) = ?i" using d(2) n by (simp add: unat_mod unat_add_lem [THEN iffD1])
  have s: "unat (nevents k + 1) = Suc (unat (nevents k))" using n by (simp add: unat_add_lem [THEN iffD1])
  define k' where "k' = k\<lparr> event_array := (event_array k)[?i := ?e], nevents := nevents k + 1 \<rparr>"
  have "process_post p ev data k = Some (PROCESS_ERR_OK, k')"
    using n d(1) by (auto simp: process_post_def i k'_def upd_opt_def)
  moreover have "kq_wf k'" using w n s by (simp add: kq_wf_def k'_def word_le_nat_alt)
  moreover have "(unat (fevent k) + j) mod 32 \<noteq> ?i" if "j < unat (nevents k)" for j
  proof
    assume "(unat (fevent k) + j) mod 32 = ?i"
    then have "32 dvd unat (nevents k) - j" using that by (metis mod_eq_dvd_iff_nat add_diff_cancel_left nat_add_left_cancel_le less_imp_le)
    then show False using that n by (auto dest: dvd_imp_le)
  qed
  then have "queued k' = queued k @ [?e]" using d(1) by (auto simp: queued_def k'_def s nth_list_update dest!: sym [of ?i])
  ultimately show ?thesis by (auto simp: k'_def)
qed

text \<open>Taking the first event off the queue.\<close>

definition advance :: "'k kernel_scheme \<Rightarrow> 'k kernel_scheme" where
  "advance k = k\<lparr> fevent := (fevent k + 1) mod PROCESS_CONF_NUMEVENTS, nevents := nevents k - 1 \<rparr>"

lemma advance_ok:
  assumes w: "kq_wf k" and q: "queued k = e # q"
  shows "kq_wf (advance k)" "queued (advance k) = q" "event_array k ! unat (fevent k) = e" "0 < nevents k"
proof -
  note d = kq_wfD [OF w]
  have n: "unat (nevents k) = Suc (length q)" using arg_cong [OF q, of length] by simp
  have f: "unat (fevent (advance k)) = (unat (fevent k) + 1) mod 32" using d(2) by (simp add: advance_def unat_mod unat_add_lem [THEN iffD1])
  have m: "unat (nevents (advance k)) = length q" using n by (simp add: advance_def unat_minus_one word_unat_eq_iff)
  show "kq_wf (advance k)" using d f m n by (simp add: kq_wf_def advance_def word_le_nat_alt word_less_nat_alt)
  show "0 < nevents k" using n by (simp add: word_less_nat_alt)
  have nth: "queued k ! i = event_array k ! ((unat (fevent k) + i) mod 32)" if "i < unat (nevents k)" for i using that by (simp add: queued_def)
  show "event_array k ! unat (fevent k) = e" using nth [of 0] n q d(2) by simp
  show "queued (advance k) = q"
  proof (rule nth_equalityI)
    show "length (queued (advance k)) = length q" by (simp add: m)
    fix i assume "i < length (queued (advance k))"
    then have i: "i < length q" by (simp add: m)
    have "queued (advance k) ! i = event_array k ! ((unat (fevent k) + Suc i) mod 32)"
      using i m f by (simp add: queued_def mod_add_left_eq) (simp add: advance_def)
    then show "queued (advance k) ! i = q ! i" using nth [of "Suc i"] i n q by simp
  qed
qed


subsection \<open>Delivery\<close>

lemma do_event_unicast:
  assumes "kq_wf k" "queued k = \<lparr> ev_ev = ev, ev_data = data, ev_p = Some p \<rparr> # q"
  shows "do_event fuel thread has k = call_process fuel thread has p ev data
    (if ev = PROCESS_EVENT_INIT then (advance k)\<lparr> process_state := (process_state k)(p := PROCESS_STATE_RUNNING) \<rparr> else advance k)"
  using advance_ok [OF assms] kq_wfD(1,2) [OF assms(1)] by (simp add: do_event_def nth_opt_def advance_def)

text \<open>A process that is running or being called is never entered a second time.\<close>

lemma called_not_reentered: "process_state k p = PROCESS_STATE_CALLED \<Longrightarrow> call_process (Suc fuel) thread has p ev data k = Some k"
  by simp

subsection \<open>The end of a process\<close>

lemma find_process_chain: "chain nx h xs \<Longrightarrow> find_process nx p h = Some (if p \<in> set xs then Some p else None)"
  by (induction xs arbitrary: h) (auto simp: find_process.simps)

lemma unlink_process_chain:
  assumes "chain nx h xs" "distinct xs" "p \<in> set xs" "h \<noteq> Some p"
  shows "\<exists>nx'. unlink_process nx p h = Some nx' \<and> chain nx' h (remove1 p xs)"
  using assms
proof (induction xs arbitrary: h)
  case (Cons x xs)
  then have h: "h = Some x" "x \<noteq> p" "p \<in> set xs" by auto
  show ?case
  proof (cases "nx x = Some p")
    case True
    then obtain ys where "xs = p # ys" using Cons.prems(1) h by (cases xs) auto
    then show ?thesis using True Cons.prems h by (auto simp: unlink_process.simps [of nx p "Some x"])
  next
    case False
    then obtain nx' where n: "unlink_process nx p (nx x) = Some nx'" "chain nx' (nx x) (remove1 p xs)" using Cons h by auto
    have "nx' x = nx x" if "unlink_process nx p g = Some nx'" "chain nx g ys" "x \<notin> set ys" for g ys
      using that by (induction ys arbitrary: g) (auto simp: unlink_process.simps split: if_splits)
    then have "nx' x = nx x" using n(1) Cons.prems by auto
    then show ?thesis using n False h by (simp add: unlink_process.simps [of nx p "Some x"])
  qed
qed simp


text \<open>
  Threads that take note of the end of a process, each with a function of its own on the state that is not the kernel's. Those that are told are
  the other processes that run and are not waiting for a call of theirs to return.
\<close>

definition heeds_exit :: "'k kernel_scheme thread \<Rightarrow> (nat \<Rightarrow> nat \<Rightarrow> 'k \<Rightarrow> 'k) \<Rightarrow> bool" where
  "heeds_exit thread f \<longleftrightarrow> (\<forall>x p k. thread x PROCESS_EVENT_EXITED (Some p) k = Some (PT_YIELDED, kernel.more_update (f x p) k))"

definition told :: "nat set \<Rightarrow> nat \<Rightarrow> 'k kernel_scheme \<Rightarrow> nat list \<Rightarrow> nat list" where
  "told has p k xs = filter (\<lambda>x. x \<noteq> p \<and> process_state k x = PROCESS_STATE_RUNNING \<and> x \<in> has) xs"

definition states_wf :: "'k kernel_scheme \<Rightarrow> bool" where
  "states_wf k \<longleftrightarrow> (\<forall>x. process_state k x \<in> {PROCESS_STATE_NONE, PROCESS_STATE_RUNNING, PROCESS_STATE_CALLED})"

lemma call_heeds:
  assumes "heeds_exit thread f" "states_wf k"
  shows "\<exists>c. call_process (Suc fuel) thread has x PROCESS_EVENT_EXITED (Some p) k =
    Some ((if process_state k x = PROCESS_STATE_RUNNING \<and> x \<in> has then kernel.more_update (f x p) k else k)\<lparr> process_current := c \<rparr>)"
proof (cases "process_state k x = PROCESS_STATE_RUNNING \<and> x \<in> has")
  case True
  then have "(process_state k)(x := 1) = process_state k" by (simp add: fun_eq_iff)
  then show ?thesis using True assms(1) by (auto simp: heeds_exit_def intro!: exI [of _ "Some x"])
next
  case False
  have "process_state k x \<in> {0, 1, 2}" using assms(2) by (simp add: states_wf_def)
  then have "process_state k x AND 1 = 0 \<or> x \<notin> has" using False by auto
  then show ?thesis using False by (auto intro: exI [of _ "process_current k"])
qed

lemma tell_exited_ok:
  assumes "\<And>x k. states_wf k \<Longrightarrow> \<exists>c. call x k =
      Some ((if process_state k x = PROCESS_STATE_RUNNING \<and> x \<in> has then kernel.more_update (f x p) k else k)\<lparr> process_current := c \<rparr>)"
    and "chain (process_next k) q xs" "length xs < n" "states_wf k"
  shows "\<exists>c. tell_exited n call p q k = Some (kernel.more_update (fold (\<lambda>x. f x p) (told has p k xs)) (k\<lparr> process_current := c \<rparr>))"
  using assms(2-4)
proof (induction xs arbitrary: q k n)
  case Nil
  then show ?case by (cases n) (auto simp: told_def intro: exI [of _ "process_current k"])
next
  case (Cons x xs)
  then obtain m where n: "n = Suc m" by (cases n) auto
  have q: "q = Some x" "chain (process_next k) (process_next k x) xs" "length xs < m" using Cons.prems n by auto
  define b where "b \<longleftrightarrow> x \<noteq> p \<and> process_state k x = PROCESS_STATE_RUNNING \<and> x \<in> has"
  obtain c where c: "(if p \<noteq> x then call x k else Some k) = Some ((if b then kernel.more_update (f x p) k else k)\<lparr> process_current := c \<rparr>)"
    using assms(1) [OF Cons.prems(3), of x] by (cases "p = x") (auto simp: b_def intro: that [of "process_current k"])
  define k1 where "k1 = (if b then kernel.more_update (f x p) k else k)\<lparr> process_current := c \<rparr>"
  have k: "chain (process_next k1) (process_next k1 x) xs" "states_wf k1" "told has p k1 xs = told has p k xs"
    using q(2) Cons.prems(3) by (simp_all add: k1_def states_wf_def told_def)
  obtain c' where "tell_exited m call p (process_next k1 x) k1 = Some (kernel.more_update (fold (\<lambda>x. f x p) (told has p k xs)) (k1\<lparr> process_current := c' \<rparr>))"
    using Cons.IH [OF k(1) q(3) k(2)] unfolding k(3) by blast
  moreover have "told has p k (x # xs) = (if b then [x] else []) @ told has p k xs" by (simp add: told_def b_def)
  moreover have "kernel.more_update g (k1\<lparr> process_current := c' \<rparr>) = kernel.more_update (if b then g \<circ> f x p else g) (k\<lparr> process_current := c' \<rparr>)" for g
    by (cases k) (simp add: k1_def)
  ultimately show ?case using c n q(1) by (auto simp: k1_def [symmetric] comp_def)
qed

lemma process_exit_ok:
  assumes t: "heeds_exit thread f" and w: "states_wf k" "chain (process_next k) (process_list k) xs" "p \<in> set xs" "process_is_running p k" "process_current k = Some p"
    and fuel: "length xs < fuel"
  shows "\<exists>k'. process_exit fuel thread has p k = Some k' \<and> chain (process_next k') (process_list k') (remove1 p xs) \<and>
    \<not> process_is_running p k' \<and> process_current k' = Some p \<and> kernel.more k' = fold (\<lambda>x. f x p) (told has p k xs) (kernel.more k)"
proof -
  let ?call = "\<lambda>x. call_process fuel thread has x PROCESS_EVENT_EXITED (Some p)"
  define k1 where "k1 = k\<lparr> process_state := (process_state k)(p := PROCESS_STATE_NONE) \<rparr>"
  obtain m where m: "fuel = Suc m" using fuel by (cases fuel) auto
  have w1: "states_wf k1" "chain (process_next k1) (process_list k1) xs" using w(1,2) by (simp_all add: k1_def states_wf_def)
  obtain c where c: "tell_exited fuel ?call p (process_list k1) k1 = Some (kernel.more_update (fold (\<lambda>x. f x p) (told has p k1 xs)) (k1\<lparr> process_current := c \<rparr>))"
    using tell_exited_ok [where call = ?call and f = f and has = has, OF _ w1(2) fuel w1(1)] call_heeds [OF t] unfolding m by blast
  have d: "distinct xs" by (rule chain_distinct [OF w(2)])
  define k2 where "k2 = kernel.more_update (fold (\<lambda>x. f x p) (told has p k1 xs)) (k1\<lparr> process_current := c \<rparr>)"
  have k2: "process_list k2 = process_list k" "process_next k2 = process_next k" by (simp_all add: k2_def k1_def)
  have "\<exists>k3. (if process_list k2 = Some p then Some (k2\<lparr> process_list := process_next k2 p \<rparr>)
      else do { nx \<leftarrow> unlink_process (process_next k2) p (process_list k2); Some (k2\<lparr> process_next := nx \<rparr>) }) = Some k3 \<and>
      chain (process_next k3) (process_list k3) (remove1 p xs) \<and> process_state k3 = process_state k2 \<and> kernel.more k3 = kernel.more k2"
  proof (cases "process_list k = Some p")
    case True
    then show ?thesis using w(2,3) k2 by (cases xs) auto
  next
    case False
    then show ?thesis using unlink_process_chain [OF w(2) d w(3)] k2 by auto
  qed
  then obtain k3 where k3: "(if process_list k2 = Some p then Some (k2\<lparr> process_list := process_next k2 p \<rparr>)
      else do { nx \<leftarrow> unlink_process (process_next k2) p (process_list k2); Some (k2\<lparr> process_next := nx \<rparr>) }) = Some k3"
      "chain (process_next k3) (process_list k3) (remove1 p xs)" "process_state k3 = process_state k2" "kernel.more k3 = kernel.more k2" by blast
  have "told has p k1 xs = told has p k xs" by (auto simp: told_def k1_def intro: filter_cong)
  then have "kernel.more k2 = fold (\<lambda>x. f x p) (told has p k xs) (kernel.more k)" by (simp add: k2_def k1_def)
  moreover have "process_exit fuel thread has p k = Some (k3\<lparr> process_current := Some p \<rparr>)"
    using find_process_chain [OF w(2), of p] w(3-5) c [folded k2_def, unfolded k1_def] k3(1) by (simp add: process_exit_def exit_process_def Let_def)
  ultimately show ?thesis using k3 by (simp add: process_is_running_def k2_def k1_def)
qed


subsection \<open>Properties\<close>


text \<open>Two processes; the second one notes the ends of others.\<close>

definition two_processes :: "nat list kernel_scheme" where
  "two_processes = kernel.extend \<lparr> process_list = Some 1, process_next = (\<lambda>x. if x = 1 then Some 2 else None), process_state = (\<lambda>x. if x = 1 \<or> x = 2 then 1 else 0),
     process_needspoll = (\<lambda>_. False), process_current = Some 1, lastevent = 0x8a, nevents = 1, fevent = 31,
     event_array = (replicate 32 \<lparr> ev_ev = 0, ev_data = None, ev_p = None \<rparr>)[31 := \<lparr> ev_ev = 0x90, ev_data = Some 7, ev_p = Some 2 \<rparr>], poll_requested = False \<rparr> []"

definition noting_thread :: "nat list kernel_scheme thread" where
  "noting_thread x ev data k = Some (PT_YIELDED, kernel.more_update (\<lambda>ns. x # the data # ns) k)"




end
