(* ===== verification/Etimer.thy ===== *)
theory Etimer
  imports ProcessProps
begin

text \<open>
  Timers (\<open>os/sys/timer.c\<close>) and event timers (\<open>os/sys/etimer.c\<close>) on the process kernel. An event timer is a block with a timer, the
  process that set it and a \<open>next\<close> pointer; the list of pending timers is the chain from \<open>timerlist\<close>. The clock is the field
  \<open>clock\<close> of the state. \<open>etimer_process\<close> is the address of the process that watches the timers; its thread is
  \<open>etimer_process_thread\<close>: \<open>etimer_poll\<close> for a poll and \<open>etimer_exited\<close> for the end of another process.
\<close>

subsection \<open>Timers\<close>

record timer =
  tm_start :: u32
  tm_interval :: u32

definition timer_set :: "u32 \<Rightarrow> u32 \<Rightarrow> timer \<Rightarrow> timer" where
  "timer_set now i t = t\<lparr> tm_interval := i, tm_start := now \<rparr>"

definition timer_reset :: "timer \<Rightarrow> timer" where
  "timer_reset t = t\<lparr> tm_start := tm_start t + tm_interval t \<rparr>"

definition timer_restart :: "u32 \<Rightarrow> timer \<Rightarrow> timer" where
  "timer_restart now t = t\<lparr> tm_start := now \<rparr>"

definition timer_expired :: "u32 \<Rightarrow> timer \<Rightarrow> bool" where
  "timer_expired now t = (let diff = (now - tm_start t) + 1 in tm_interval t < diff)"

definition timer_remaining :: "u32 \<Rightarrow> timer \<Rightarrow> u32" where
  "timer_remaining now t = tm_start t + tm_interval t - now"

subsection \<open>Event timers\<close>

record etimer_state = kernel +
  timerlist :: "nat option"
  et_next :: heap
  et_timer :: "nat \<Rightarrow> timer"
  et_p :: "nat \<Rightarrow> nat option"
  next_expiration :: u32
  clock :: u32
  etimer_process :: nat

partial_function (option) tdist_loop :: "heap \<Rightarrow> (nat \<Rightarrow> timer) \<Rightarrow> u32 \<Rightarrow> nat option \<Rightarrow> u32 \<Rightarrow> u32 option" where
  "tdist_loop nx tm now t tdist =
     (case t of
        None \<Rightarrow> Some tdist
      | Some x \<Rightarrow>
          tdist_loop nx tm now (nx x)
            (if tm_start (tm x) + tm_interval (tm x) - now < tdist then tm_start (tm x) + tm_interval (tm x) - now else tdist))"

definition update_time :: "'k etimer_state_scheme \<Rightarrow> 'k etimer_state_scheme option" where
  "update_time k =
     (case timerlist k of
        None \<Rightarrow> Some (k\<lparr> next_expiration := 0 \<rparr>)
      | Some t \<Rightarrow> do {
          let now = clock k;
          tdist \<leftarrow> tdist_loop (et_next k) (et_timer k) now (et_next k t) (tm_start (et_timer k t) + tm_interval (et_timer k t) - now);
          Some (k\<lparr> next_expiration := now + tdist \<rparr>)
        })"

definition etimer_request_poll :: "'k etimer_state_scheme \<Rightarrow> 'k etimer_state_scheme" where
  "etimer_request_poll k = process_poll (Some (etimer_process k)) k"

partial_function (option) on_list :: "heap \<Rightarrow> nat \<Rightarrow> nat option \<Rightarrow> bool option" where
  "on_list nx timer t = (case t of None \<Rightarrow> Some False | Some x \<Rightarrow> if x = timer then Some True else on_list nx timer (nx x))"

definition add_timer :: "nat \<Rightarrow> 'k etimer_state_scheme \<Rightarrow> 'k etimer_state_scheme option" where
  "add_timer timer k = do {
     let k = etimer_request_poll k;
     found \<leftarrow> (if et_p k timer \<noteq> None then on_list (et_next k) timer (timerlist k) else Some False);
     if found then update_time (k\<lparr> et_p := (et_p k)(timer := process_current k) \<rparr>)
     else update_time (k\<lparr> et_p := (et_p k)(timer := process_current k), et_next := (et_next k)(timer := timerlist k), timerlist := Some timer \<rparr>)
   }"

definition etimer_set :: "nat \<Rightarrow> u32 \<Rightarrow> 'k etimer_state_scheme \<Rightarrow> 'k etimer_state_scheme option" where
  "etimer_set et i k = add_timer et (k\<lparr> et_timer := (et_timer k)(et := timer_set (clock k) i (et_timer k et)) \<rparr>)"

definition etimer_reset_with_new_interval :: "nat \<Rightarrow> u32 \<Rightarrow> 'k etimer_state_scheme \<Rightarrow> 'k etimer_state_scheme option" where
  "etimer_reset_with_new_interval et i k =
     add_timer et (k\<lparr> et_timer := (et_timer k)(et := (timer_reset (et_timer k et))\<lparr> tm_interval := i \<rparr>) \<rparr>)"

definition etimer_reset :: "nat \<Rightarrow> 'k etimer_state_scheme \<Rightarrow> 'k etimer_state_scheme option" where
  "etimer_reset et k = add_timer et (k\<lparr> et_timer := (et_timer k)(et := timer_reset (et_timer k et)) \<rparr>)"

definition etimer_restart :: "nat \<Rightarrow> 'k etimer_state_scheme \<Rightarrow> 'k etimer_state_scheme option" where
  "etimer_restart et k = add_timer et (k\<lparr> et_timer := (et_timer k)(et := timer_restart (clock k) (et_timer k et)) \<rparr>)"

definition etimer_adjust :: "nat \<Rightarrow> int \<Rightarrow> 'k etimer_state_scheme \<Rightarrow> 'k etimer_state_scheme option" where
  "etimer_adjust et timediff k =
     update_time (k\<lparr> et_timer := (et_timer k)(et := (et_timer k et)\<lparr> tm_start := tm_start (et_timer k et) + word_of_int timediff \<rparr>) \<rparr>)"

definition etimer_expired :: "nat \<Rightarrow> 'k etimer_state_scheme \<Rightarrow> bool" where
  "etimer_expired et k = (et_p k et = None)"

definition etimer_expiration_time :: "nat \<Rightarrow> 'k etimer_state_scheme \<Rightarrow> u32" where
  "etimer_expiration_time et k = tm_start (et_timer k et) + tm_interval (et_timer k et)"

definition etimer_start_time :: "nat \<Rightarrow> 'k etimer_state_scheme \<Rightarrow> u32" where
  "etimer_start_time et k = tm_start (et_timer k et)"

definition etimer_pending :: "'k etimer_state_scheme \<Rightarrow> bool" where
  "etimer_pending k = (timerlist k \<noteq> None)"

definition etimer_next_expiration_time :: "'k etimer_state_scheme \<Rightarrow> u32" where
  "etimer_next_expiration_time k = (if etimer_pending k then next_expiration k else 0)"

partial_function (option) before_timer :: "heap \<Rightarrow> nat \<Rightarrow> nat option \<Rightarrow> nat option option" where
  "before_timer nx et t = (case t of None \<Rightarrow> Some None | Some x \<Rightarrow> if nx x = Some et then Some (Some x) else before_timer nx et (nx x))"

definition etimer_stop :: "nat \<Rightarrow> 'k etimer_state_scheme \<Rightarrow> 'k etimer_state_scheme option" where
  "etimer_stop et k = do {
     k \<leftarrow> (if timerlist k = Some et then update_time (k\<lparr> timerlist := et_next k et \<rparr>)
           else do {
             t \<leftarrow> before_timer (et_next k) et (timerlist k);
             case t of None \<Rightarrow> Some k | Some x \<Rightarrow> update_time (k\<lparr> et_next := (et_next k)(x := et_next k et) \<rparr>)
           });
     Some (k\<lparr> et_next := (et_next k)(et := None), et_p := (et_p k)(et := None) \<rparr>)
   }"

subsection \<open>The process of the event timers\<close>

text \<open>The timers of a process that ends leave the list; first those at its head, then the others.\<close>

partial_function (option) drop_head :: "heap \<Rightarrow> (nat \<Rightarrow> bool) \<Rightarrow> nat option \<Rightarrow> nat option option" where
  "drop_head nx own t = (case t of None \<Rightarrow> Some None | Some x \<Rightarrow> if own x then drop_head nx own (nx x) else Some (Some x))"

partial_function (option) drop_rest :: "heap \<Rightarrow> (nat \<Rightarrow> bool) \<Rightarrow> nat \<Rightarrow> heap option" where
  "drop_rest nx own t =
     (case nx t of None \<Rightarrow> Some nx | Some x \<Rightarrow> if own x then drop_rest (nx(t := nx x)) own t else drop_rest nx own x)"

definition etimer_exited :: "process_data_t \<Rightarrow> 'k etimer_state_scheme \<Rightarrow> 'k etimer_state_scheme option" where
  "etimer_exited p k = do {
     let own = (\<lambda>t. et_p k t = p);
     h \<leftarrow> drop_head (et_next k) own (timerlist k);
     nx \<leftarrow> (case h of None \<Rightarrow> Some (et_next k) | Some t \<Rightarrow> drop_rest (et_next k) own t);
     Some (k\<lparr> timerlist := h, et_next := nx \<rparr>)
   }"

text \<open>
  The scan of a poll: a timer that has expired is posted to its process and taken off the list, and the scan starts again; when the event
  queue is full the timer stays and another poll is requested.
\<close>

partial_function (option) etimer_scan :: "nat option \<Rightarrow> nat option \<Rightarrow> 'k etimer_state_scheme \<Rightarrow> 'k etimer_state_scheme option" where
  "etimer_scan u t k =
     (case t of
        None \<Rightarrow> Some k
      | Some x \<Rightarrow>
          if timer_expired (clock k) (et_timer k x) then do {
            (r, k) \<leftarrow> process_post (et_p k x) PROCESS_EVENT_TIMER (Some x) k;
            if r = PROCESS_ERR_OK then do {
              let k = k\<lparr> et_p := (et_p k)(x := None) \<rparr>;
              let k = (case u of Some y \<Rightarrow> k\<lparr> et_next := (et_next k)(y := et_next k x) \<rparr> | None \<Rightarrow> k\<lparr> timerlist := et_next k x \<rparr>);
              let k = k\<lparr> et_next := (et_next k)(x := None) \<rparr>;
              k \<leftarrow> update_time k;
              etimer_scan None (timerlist k) k
            }
            else (let k = etimer_request_poll k in etimer_scan (Some x) (et_next k x) k)
          }
          else etimer_scan (Some x) (et_next k x) k)"

definition etimer_poll :: "'k etimer_state_scheme \<Rightarrow> 'k etimer_state_scheme option" where
  "etimer_poll k = etimer_scan None (timerlist k) k"

text \<open>
  The whole thread: the first event starts it with an empty list, every later one is dispatched. It never ends.
\<close>

definition etimer_process_thread :: "bool \<Rightarrow> process_event_t \<Rightarrow> process_data_t \<Rightarrow> 'k etimer_state_scheme \<Rightarrow> (pt_ret \<times> 'k etimer_state_scheme) option" where
  "etimer_process_thread begun ev data k =
     (if \<not> begun then Some (PT_YIELDED, k\<lparr> timerlist := None \<rparr>)
      else if ev = PROCESS_EVENT_EXITED then do { k \<leftarrow> etimer_exited data k; Some (PT_YIELDED, k) }
      else if ev \<noteq> PROCESS_EVENT_POLL then Some (PT_YIELDED, k)
      else do { k \<leftarrow> etimer_poll k; Some (PT_YIELDED, k) })"

end
