(* ===== verification/EtimerProps.thy ===== *)
theory EtimerProps
  imports Etimer
begin

text \<open>
  Correctness of the timers: expiry across the wrap-around of the clock, the list of event timers as a HOL list, and the process that turns expired
  timers into events without losing or doubling one.
\<close>

subsection \<open>Timers\<close>

text \<open>
  A timer has expired when the interval has passed since its start, computed modulo \<open>2 ^ 32\<close>; only when the clock is one tick short
  of the start (after a full turn) the increment in the comparison overflows and the answer is no.
\<close>

lemma timer_expired_iff: "timer_expired now t \<longleftrightarrow> tm_interval t \<le> now - tm_start t \<and> now - tm_start t \<noteq> - 1"
proof -
  have "v < w + 1 \<longleftrightarrow> v \<le> w \<and> w \<noteq> - 1" for v w :: u32
  proof (cases "w = - 1")
    case False
    then have "w < w + 1" using inc_less_eq_triv_imp [of w] by (meson not_le)
    then show ?thesis using False less_inc_imp_less_eq [of v w] by auto
  qed simp
  then show ?thesis by (simp add: timer_expired_def Let_def)
qed

subsection \<open>The list of pending timers\<close>

definition et_wf :: "'k etimer_state_scheme \<Rightarrow> nat list \<Rightarrow> bool" where
  "et_wf k xs \<longleftrightarrow> chain (et_next k) (timerlist k) xs \<and> (\<forall>t \<in> set xs. et_p k t \<noteq> None)"

lemma et_wf_distinct: "et_wf k xs \<Longrightarrow> distinct xs"
  unfolding et_wf_def using chain_distinct by blast

lemma tdist_loop_chain:
  assumes "chain nx t xs"
  shows "tdist_loop nx tm now t d = Some (Min (insert d (timer_remaining now ` tm ` set xs)))"
  using assms
proof (induction xs arbitrary: t d)
  case Nil
  then show ?case by (simp add: tdist_loop.simps)
next
  case (Cons x xs)
  let ?r = "timer_remaining now (tm x)" and ?A = "timer_remaining now ` tm ` set xs"
  have m: "Min (insert (min ?r d) ?A) = Min (insert d (insert ?r ?A))"
    by (cases "?A = {}") (simp_all add: min.assoc min.commute min.left_commute)
  have "tdist_loop nx tm now t d = tdist_loop nx tm now (nx x) (min ?r d)"
    using Cons.prems by (auto simp: tdist_loop.simps [of nx tm now "Some x"] timer_remaining_def min_def)
  then show ?case using Cons m by simp
qed

text \<open>The time of the next expiration is the minimal distance to an end, counted from now.\<close>

definition soonest :: "'k etimer_state_scheme \<Rightarrow> nat list \<Rightarrow> u32" where
  "soonest k xs = (if xs = [] then 0 else clock k + Min (timer_remaining (clock k) ` et_timer k ` set xs))"

lemma update_time_ok: "chain (et_next k) (timerlist k) xs \<Longrightarrow> update_time k = Some (k\<lparr> next_expiration := soonest k xs \<rparr>)"
  by (cases xs) (auto simp: update_time_def soonest_def tdist_loop_chain Let_def simp flip: timer_remaining_def)

lemma on_list_chain: "chain nx t xs \<Longrightarrow> on_list nx x t = Some (x \<in> set xs)"
  by (induction xs arbitrary: t) (auto simp: on_list.simps)

lemma request_poll_eq:
  "\<exists>n b. etimer_request_poll k = k\<lparr> process_needspoll := n, poll_requested := b \<rparr>"
  "process_state k (etimer_process k) \<noteq> PROCESS_STATE_NONE \<Longrightarrow> states_wf k \<Longrightarrow>
     poll_requested (etimer_request_poll k) \<and> process_needspoll (etimer_request_poll k) (etimer_process k)"
proof -
  show "\<exists>n b. etimer_request_poll k = k\<lparr> process_needspoll := n, poll_requested := b \<rparr>"
  proof (cases "process_state k (etimer_process k) = PROCESS_STATE_RUNNING \<or> process_state k (etimer_process k) = PROCESS_STATE_CALLED")
    case True
    then show ?thesis by (auto simp: etimer_request_poll_def process_poll_def)
  next
    case False
    then have "etimer_request_poll k = k\<lparr> process_needspoll := process_needspoll k, poll_requested := poll_requested k \<rparr>"
      by (simp add: etimer_request_poll_def process_poll_def)
    then show ?thesis by blast
  qed
  show "process_state k (etimer_process k) \<noteq> PROCESS_STATE_NONE \<Longrightarrow> states_wf k \<Longrightarrow>
     poll_requested (etimer_request_poll k) \<and> process_needspoll (etimer_request_poll k) (etimer_process k)"
    unfolding states_wf_def by (drule spec [of _ "etimer_process k"]) (auto simp: etimer_request_poll_def process_poll_def)
qed

lemma add_timer_ok:
  fixes t :: nat
  assumes w: "et_wf k xs" and p: "process_current k = Some p"
  defines "ys \<equiv> if t \<in> set xs then xs else t # xs"
  shows "\<exists>k'. add_timer t k = Some k' \<and> et_wf k' ys \<and> et_p k' = (et_p k)(t := Some p) \<and> et_timer k' = et_timer k \<and> clock k' = clock k \<and>
    next_expiration k' = soonest k ys"
proof -
  obtain n b where r: "etimer_request_poll k = k\<lparr> process_needspoll := n, poll_requested := b \<rparr>" using request_poll_eq(1) [of k] by blast
  define k1 where "k1 = k\<lparr> process_needspoll := n, poll_requested := b, et_p := (et_p k)(t := Some p) \<rparr>"
  define k2 where "k2 = k1\<lparr> et_next := (et_next k)(t := timerlist k), timerlist := Some t \<rparr>"
  have c: "chain (et_next k) (timerlist k) xs" "\<forall>t \<in> set xs. et_p k t \<noteq> None" using w by (simp_all add: et_wf_def)
  have f: "(if et_p k t \<noteq> None then on_list (et_next k) t (timerlist k) else Some False) = Some (t \<in> set xs)"
    using on_list_chain [OF c(1), of t] c(2) by auto
  have a: "add_timer t k = update_time (if t \<in> set xs then k1 else k2)"
    using f p by (cases "et_p k t") (auto simp: add_timer_def r k1_def k2_def Let_def)
  have ch: "chain (et_next (if t \<in> set xs then k1 else k2)) (timerlist (if t \<in> set xs then k1 else k2)) ys"
    using c(1) by (simp add: ys_def k1_def k2_def)
  have s: "soonest (if t \<in> set xs then k1 else k2) ys = soonest k ys" by (simp add: soonest_def k1_def k2_def)
  show ?thesis unfolding a update_time_ok [OF ch] s using c ch by (auto simp: et_wf_def k1_def k2_def ys_def)
qed


subsection \<open>Stopping a timer and ending a process\<close>

lemma chain_if1: "x \<notin> set xs \<Longrightarrow> chain (\<lambda>a. if a = x then v else nx a) h xs = chain nx h xs"
  by (rule chain_cong) auto

lemma before_timer_chain:
  assumes "chain nx h xs" "distinct xs" "h \<noteq> Some t"
  shows "t \<in> set xs \<Longrightarrow> \<exists>y. before_timer nx t h = Some (Some y) \<and> chain (nx(y := nx t)) h (remove1 t xs) \<and> y \<in> set xs \<and> y \<noteq> t"
    "t \<notin> set xs \<Longrightarrow> before_timer nx t h = Some None"
  using assms
proof (induction xs arbitrary: h)
  case (Cons x xs)
  {
    case 1
    then have h: "h = Some x" "x \<noteq> t" "t \<in> set xs" by auto
    show ?case
    proof (cases "nx x = Some t")
      case True
      then obtain ys where "xs = t # ys" using 1(2) h by (cases xs) auto
      then show ?thesis using True 1 h by (intro exI [of _ x]) (simp add: before_timer.simps [of nx t "Some x"] chain_if1)
    next
      case False
      have "chain nx (nx x) xs" "distinct xs" using 1 by simp_all
      from Cons.IH(1) [OF h(3) this False] obtain y where
        y: "before_timer nx t (nx x) = Some (Some y)" "chain (nx(y := nx t)) (nx x) (remove1 t xs)" "y \<in> set xs" "y \<noteq> t" by blast
      then have "y \<noteq> x" using 1(3) by auto
      then show ?thesis using y False h by (auto simp: before_timer.simps [of nx t "Some x"] fun_upd_def)
    qed
  next
    case 2
    then have "nx x \<noteq> Some t" by (cases xs) auto
    then show ?case using 2 Cons.IH(2) [of "nx x"] by (auto simp: before_timer.simps [of nx t "Some x"])
  }
qed (simp_all add: before_timer.simps)

lemma chain_drop_end: "chain nx h xs \<Longrightarrow> x \<notin> set xs \<Longrightarrow> chain (nx(x := None)) h xs" by simp

lemma etimer_stop_ok:
  assumes w: "et_wf k xs"
  shows "\<exists>k'. etimer_stop t k = Some k' \<and> et_wf k' (remove1 t xs) \<and> et_p k' = (et_p k)(t := None) \<and> et_timer k' = et_timer k \<and> clock k' = clock k \<and>
    (t \<in> set xs \<longrightarrow> next_expiration k' = soonest k (remove1 t xs))"
proof -
  have c: "chain (et_next k) (timerlist k) xs" "\<forall>t \<in> set xs. et_p k t \<noteq> None" using w by (simp_all add: et_wf_def)
  have d: "distinct xs" by (rule chain_distinct [OF c(1)])
  have fin: "et_wf (k1\<lparr> et_next := (et_next k1)(t := None), et_p := (et_p k1)(t := None) \<rparr>) (remove1 t xs)"
    if "chain (et_next k1) (timerlist k1) (remove1 t xs)" "et_p k1 = et_p k" for k1 :: "'a etimer_state_scheme"
    using that c(2) d by (auto simp: et_wf_def dest: in_set_remove1 [THEN iffD1, rotated] notin_set_remove1)
  consider "timerlist k = Some t" | "timerlist k \<noteq> Some t" "t \<in> set xs" | "timerlist k \<noteq> Some t" "t \<notin> set xs" by blast
  then show ?thesis
  proof cases
    case 1
    then obtain ys where x: "xs = t # ys" using c(1) by (cases xs) auto
    have ch: "chain (et_next (k\<lparr> timerlist := et_next k t \<rparr>)) (timerlist (k\<lparr> timerlist := et_next k t \<rparr>)) ys" using c(1) x by simp
    have s: "soonest (k\<lparr> timerlist := et_next k t \<rparr>) ys = soonest k ys" by (simp add: soonest_def)
    show ?thesis using 1 x fin [of "k\<lparr> timerlist := et_next k t, next_expiration := soonest k ys \<rparr>"] ch
      by (simp add: etimer_stop_def update_time_ok [OF ch] s)
  next
    case 2
    then obtain y where y: "before_timer (et_next k) t (timerlist k) = Some (Some y)" "chain ((et_next k)(y := et_next k t)) (timerlist k) (remove1 t xs)"
      using before_timer_chain(1) [OF c(1) d] by blast
    let ?k = "k\<lparr> et_next := (et_next k)(y := et_next k t) \<rparr>"
    have ch: "chain (et_next ?k) (timerlist ?k) (remove1 t xs)" using y(2) by simp
    have s: "soonest ?k (remove1 t xs) = soonest k (remove1 t xs)" by (simp add: soonest_def)
    show ?thesis using 2 y(1) fin [of "?k\<lparr> next_expiration := soonest k (remove1 t xs) \<rparr>"] ch
      by (simp add: etimer_stop_def update_time_ok [OF ch] s)
  next
    case 3
    then show ?thesis using before_timer_chain(2) [OF c(1) d] fin [of k] c(1) by (simp add: etimer_stop_def remove1_idem)
  qed
qed


lemma drop_head_chain:
  assumes "chain nx h xs"
  shows "\<exists>g. drop_head nx own h = Some g \<and> chain nx g (dropWhile own xs)"
  using assms by (induction xs arbitrary: h) (auto simp: drop_head.simps)

lemma drop_rest_chain:
  assumes "chain nx (Some t) (t # xs)" "distinct (t # xs)"
  shows "\<exists>nx'. drop_rest nx own t = Some nx' \<and> chain nx' (Some t) (t # filter (\<lambda>x. \<not> own x) xs) \<and> (\<forall>y. y \<notin> set (t # xs) \<longrightarrow> nx' y = nx y)"
  using assms
proof (induction xs arbitrary: nx t)
  case (Cons x xs)
  have n: "nx t = Some x" "chain nx (nx x) xs" using Cons.prems by simp_all
  show ?case
  proof (cases "own x")
    case True
    have "chain (nx(t := nx x)) (Some t) (t # xs)" "distinct (t # xs)" using n Cons.prems by simp_all
    from Cons.IH [OF this] obtain nx' where "drop_rest (nx(t := nx x)) own t = Some nx'" "chain nx' (Some t) (t # filter (\<lambda>x. \<not> own x) xs)"
      "\<forall>y. y \<notin> set (t # xs) \<longrightarrow> nx' y = (nx(t := nx x)) y" by blast
    then show ?thesis using True n(1) by (auto simp: drop_rest.simps [of nx])
  next
    case False
    have "chain nx (Some x) (x # xs)" "distinct (x # xs)" using n Cons.prems by simp_all
    from Cons.IH [OF this] obtain nx' where "drop_rest nx own x = Some nx'" "chain nx' (Some x) (x # filter (\<lambda>x. \<not> own x) xs)"
      "\<forall>y. y \<notin> set (x # xs) \<longrightarrow> nx' y = nx y" by blast
    then show ?thesis using False n(1) Cons.prems(2) by (auto simp: drop_rest.simps [of nx])
  qed
qed (simp add: drop_rest.simps)

lemma etimer_exited_ok:
  assumes w: "et_wf k xs"
  shows "\<exists>k'. etimer_exited (Some p) k = Some k' \<and> et_wf k' (filter (\<lambda>t. et_p k t \<noteq> Some p) xs) \<and> et_p k' = et_p k \<and> et_timer k' = et_timer k"
proof -
  let ?own = "\<lambda>t. et_p k t = Some p"
  have c: "chain (et_next k) (timerlist k) xs" "\<forall>t \<in> set xs. et_p k t \<noteq> None" using w by (simp_all add: et_wf_def)
  have f: "filter (\<lambda>t. \<not> ?own t) (dropWhile ?own xs) = filter (\<lambda>t. \<not> ?own t) xs" by (induction xs) auto
  obtain g where g: "drop_head (et_next k) ?own (timerlist k) = Some g" "chain (et_next k) g (dropWhile ?own xs)" using drop_head_chain [OF c(1)] by blast
  show ?thesis
  proof (cases "dropWhile ?own xs")
    case Nil
    have "g = None" "filter (\<lambda>t. \<not> ?own t) xs = []" using g(2) f unfolding Nil by simp_all
    then show ?thesis using g(1) by (simp add: etimer_exited_def et_wf_def)
  next
    case (Cons t ys)
    then have t: "g = Some t" "\<not> ?own t" using g(2) hd_dropWhile [of ?own xs] by auto
    have "distinct (t # ys)" using chain_distinct [OF g(2)] Cons by simp
    then obtain nx' where n: "drop_rest (et_next k) ?own t = Some nx'" "chain nx' (Some t) (t # filter (\<lambda>x. \<not> ?own x) ys)"
      using drop_rest_chain [of "et_next k" t ys ?own] g(2) t(1) Cons by auto
    have e: "filter (\<lambda>t. \<not> ?own t) xs = t # filter (\<lambda>x. \<not> ?own x) ys" using f t(2) unfolding Cons by simp
    have "\<forall>x \<in> set (filter (\<lambda>t. \<not> ?own t) xs). et_p k x \<noteq> None" using c(2) by simp
    then show ?thesis unfolding e using g(1) t(1) n by (simp add: etimer_exited_def et_wf_def Let_def)
  qed
qed


subsection \<open>Expired timers\<close>

definition expired_timer :: "'k etimer_state_scheme \<Rightarrow> nat \<Rightarrow> bool" where
  "expired_timer k t \<longleftrightarrow> timer_expired (clock k) (et_timer k t)"

text \<open>The scan passes over timers that have not expired, and over all timers when the event queue is full.\<close>

lemma scan_skip:
  assumes "chain (et_next k) t (ys @ zs)" "\<forall>y \<in> set ys. \<not> expired_timer k y"
  shows "\<exists>t'. etimer_scan u t k = etimer_scan (if ys = [] then u else Some (last ys)) t' k \<and> chain (et_next k) t' zs"
  using assms
proof (induction ys arbitrary: u t)
  case (Cons y ys)
  then have "t = Some y" "\<not> timer_expired (clock k) (et_timer k y)" "chain (et_next k) (et_next k y) (ys @ zs)" by (simp_all add: expired_timer_def)
  then show ?case using Cons.IH [of "et_next k y" "Some y"] Cons.prems(2) by (cases "ys = []") (simp_all add: etimer_scan.simps [of u])
qed auto

lemma request_poll_twice: "etimer_request_poll (etimer_request_poll k) = etimer_request_poll k"
  by (auto simp: etimer_request_poll_def process_poll_def)

lemma scan_full:
  fixes k :: "'k etimer_state_scheme"
  assumes "chain (et_next k) t xs" "kq_wf k" "length (queued k) = 32"
  shows "etimer_scan u t k = Some (if \<exists>x \<in> set xs. expired_timer k x then etimer_request_poll k else k)"
  using assms
proof (induction xs arbitrary: u t k)
  case Nil
  then show ?case by (simp add: etimer_scan.simps)
next
  case (Cons x xs)
  have t: "t = Some x" "chain (et_next k) (et_next k x) xs" using Cons.prems by simp_all
  obtain n b where r: "etimer_request_poll k = k\<lparr> process_needspoll := n, poll_requested := b \<rparr>" using request_poll_eq(1) [of k] by blast
  let ?k = "etimer_request_poll k"
  have k: "et_next ?k = et_next k" "expired_timer ?k = expired_timer k" "kq_wf ?k" "queued ?k = queued k"
    using Cons.prems(2) unfolding r by (simp_all add: expired_timer_def fun_eq_iff kq_wf_def queued_def)
  have post: "process_post (et_p k x) PROCESS_EVENT_TIMER (Some x) k = Some (PROCESS_ERR_FULL, k)" by (rule post_full [OF Cons.prems(2,3)])
  show ?case
  proof (cases "expired_timer k x")
    case True
    then have "etimer_scan u t k = etimer_scan (Some x) (et_next k x) ?k"
      using t(1) post k(1) by (simp add: etimer_scan.simps [of u] expired_timer_def Let_def)
    also have "\<dots> = Some ?k" using Cons.IH [of ?k "et_next k x" "Some x"] t(2) k Cons.prems(3) by (simp add: request_poll_twice)
    finally show ?thesis using True by simp
  next
    case False
    then show ?thesis using t Cons.IH [OF t(2) Cons.prems(2,3)] by (simp add: etimer_scan.simps [of u] expired_timer_def)
  qed
qed


text \<open>The timers that a poll posts: the first expired ones, as many as the event queue has room for.\<close>

definition posted :: "'k etimer_state_scheme \<Rightarrow> nat list \<Rightarrow> nat list" where
  "posted k xs = take (32 - length (queued k)) (filter (expired_timer k) xs)"

definition timer_event :: "'k etimer_state_scheme \<Rightarrow> nat \<Rightarrow> event_data" where
  "timer_event k t = \<lparr> ev_ev = PROCESS_EVENT_TIMER, ev_data = Some t, ev_p = et_p k t \<rparr>"

text \<open>One expired timer is posted and taken off the list.\<close>

lemma scan_post:
  fixes k :: "'k etimer_state_scheme"
  assumes w: "et_wf k (ys @ x # zs)" "kq_wf k" "length (queued k) < 32" and x: "\<forall>y \<in> set ys. \<not> expired_timer k y" "expired_timer k x"
  shows "\<exists>k'. etimer_scan None (timerlist k) k = etimer_scan None (timerlist k') k' \<and> et_wf k' (ys @ zs) \<and> kq_wf k' \<and> queued k' = queued k @ [timer_event k x] \<and>
    et_p k' = (et_p k)(x := None) \<and> et_timer k' = et_timer k \<and> clock k' = clock k \<and> process_state k' = process_state k \<and> etimer_process k' = etimer_process k"
proof -
  have c: "chain (et_next k) (timerlist k) (ys @ x # zs)" "\<forall>t \<in> set (ys @ x # zs). et_p k t \<noteq> None" using w(1) by (simp_all add: et_wf_def)
  have d: "distinct (ys @ x # zs)" by (rule chain_distinct [OF c(1)])
  obtain t where t: "etimer_scan None (timerlist k) k = etimer_scan (if ys = [] then None else Some (last ys)) t k" "chain (et_next k) t (x # zs)"
    using scan_skip [OF c(1) x(1)] by blast
  obtain k1 es n where p: "process_post (et_p k x) PROCESS_EVENT_TIMER (Some x) k = Some (PROCESS_ERR_OK, k1)" "kq_wf k1" "queued k1 = queued k @ [timer_event k x]"
      "k1 = k\<lparr> event_array := es, nevents := n \<rparr>"
    using post_ok [OF w(2,3), of "et_p k x" PROCESS_EVENT_TIMER "Some x"] unfolding timer_event_def by blast
  define k2 where "k2 = (if ys = [] then k1\<lparr> et_p := (et_p k)(x := None), timerlist := et_next k x, et_next := (et_next k)(x := None) \<rparr>
      else k1\<lparr> et_p := (et_p k)(x := None), et_next := (et_next k)(last ys := et_next k x, x := None) \<rparr>)"
  have ch: "chain (et_next k2) (timerlist k2) (ys @ zs)"
    using chain_unlink [OF c(1) d] c(1) d by (cases "ys = []") (simp_all add: k2_def p(4))
  have q: "kq_wf k2" "queued k2 = queued k1" using p(2) by (simp_all add: k2_def kq_wf_def queued_def)
  define k3 where "k3 = k2\<lparr> next_expiration := soonest k2 (ys @ zs) \<rparr>"
  have k3: "queued k3 = queued k2" "kq_wf k3" using q by (simp_all add: k3_def kq_wf_def queued_def)
  have "last ys \<noteq> x" if "ys \<noteq> []" using that d by auto
  then have "etimer_scan None (timerlist k) k = etimer_scan None (timerlist k3) k3"
    using t p(1) x(2) update_time_ok [OF ch]
    by (cases "ys = []") (auto simp: etimer_scan.simps [of _ "Some x"] expired_timer_def k2_def k3_def p(4) Let_def)
  moreover have "et_wf k3 (ys @ zs)" using ch c(2) d by (auto simp: et_wf_def k3_def k2_def p(4))
  ultimately show ?thesis using k3 q p(3) by (intro exI [of _ k3]) (simp add: k3_def k2_def p(4))
qed

lemma scan_ok:
  fixes k :: "'k etimer_state_scheme"
  assumes "et_wf k xs" "kq_wf k"
  shows "\<exists>k'. etimer_scan None (timerlist k) k = Some k' \<and> et_wf k' (filter (\<lambda>t. t \<notin> set (posted k xs)) xs) \<and> kq_wf k' \<and>
    queued k' = queued k @ map (timer_event k) (posted k xs) \<and> et_p k' = (\<lambda>t. if t \<in> set (posted k xs) then None else et_p k t) \<and>
    et_timer k' = et_timer k \<and> clock k' = clock k \<and>
    (posted k xs \<noteq> filter (expired_timer k) xs \<and> process_state k (etimer_process k) \<noteq> PROCESS_STATE_NONE \<and> states_wf k \<longrightarrow>
       poll_requested k' \<and> process_needspoll k' (etimer_process k))"
  using assms
proof (induction "length (filter (expired_timer k) xs)" arbitrary: k xs)
  case 0
  then have n: "filter (expired_timer k) xs = []" by simp
  have c: "chain (et_next k) (timerlist k) (xs @ [])" using 0(2) by (simp add: et_wf_def)
  have "\<forall>x \<in> set xs. \<not> expired_timer k x" using n by (simp add: filter_empty_conv)
  then obtain u where "etimer_scan None (timerlist k) k = etimer_scan u None k" using scan_skip [OF c, where u = None] by auto
  then have "etimer_scan None (timerlist k) k = Some k" by (simp add: etimer_scan.simps)
  then show ?case using 0 n by (simp add: posted_def)
next
  case (Suc n)
  show ?case
  proof (cases "length (queued k) = 32")
    case True
    obtain nn b where r: "etimer_request_poll k = k\<lparr> process_needspoll := nn, poll_requested := b \<rparr>" using request_poll_eq(1) [of k] by blast
    have "\<exists>x \<in> set xs. expired_timer k x" using Suc(2) by (metis filter_False list.size(3) nat.distinct(1))
    then have "etimer_scan None (timerlist k) k = Some (etimer_request_poll k)" using scan_full [of k "timerlist k" xs None] Suc.prems True by (simp add: et_wf_def)
    then show ?thesis using True Suc.prems request_poll_eq(2) [of k] by (simp add: posted_def r et_wf_def kq_wf_def queued_def)
  next
    case False
    then have room: "length (queued k) < 32" using kq_wfD(3) [OF Suc.prems(2)] by simp
    have "\<exists>x \<in> set xs. expired_timer k x" using Suc(2) by (metis filter_False list.size(3) nat.distinct(1))
    then obtain ys x zs where x: "xs = ys @ x # zs" "expired_timer k x" "\<forall>y \<in> set ys. \<not> expired_timer k y" using split_list_first_prop by metis
    have d: "distinct (ys @ x # zs)" using et_wf_distinct [OF Suc.prems(1)] x(1) by simp
    obtain k1 where k1: "etimer_scan None (timerlist k) k = etimer_scan None (timerlist k1) k1" "et_wf k1 (ys @ zs)" "kq_wf k1" "queued k1 = queued k @ [timer_event k x]"
        "et_p k1 = (et_p k)(x := None)" "et_timer k1 = et_timer k" "clock k1 = clock k" "process_state k1 = process_state k" "etimer_process k1 = etimer_process k"
      using scan_post [OF Suc.prems(1) [unfolded x(1)] Suc.prems(2) room x(3,2)] by blast
    have e: "expired_timer k1 = expired_timer k" using k1(6,7) by (simp add: expired_timer_def fun_eq_iff)
    have f: "filter (expired_timer k) xs = x # filter (expired_timer k) (ys @ zs)" using x by (simp add: filter_empty_conv)
    have po: "posted k xs = x # posted k1 (ys @ zs)" using room k1(4) unfolding posted_def f e by (simp add: take_Cons' Suc_diff_Suc del: length_queued)
    have x': "x \<notin> set (posted k1 (ys @ zs))" using d by (auto simp: posted_def dest!: in_set_takeD)
    have st: "states_wf k1 = states_wf k" using k1(8) by (simp add: states_wf_def)
    have fl: "filter (\<lambda>t. t \<notin> set (posted k xs)) xs = filter (\<lambda>t. t \<notin> set (posted k1 (ys @ zs))) (ys @ zs)"
    proof -
      have "filter (\<lambda>t. t \<notin> set (x # ps)) (ys @ x # zs) = filter (\<lambda>t. t \<notin> set ps) (ys @ zs)" for ps
        using d by (auto intro!: arg_cong2 [where f = append] filter_cong)
      then show ?thesis unfolding po using x(1) by blast
    qed
    have m: "map (timer_event k1) (posted k1 (ys @ zs)) = map (timer_event k) (posted k1 (ys @ zs))" using x' k1(5) by (auto simp: timer_event_def)
    have p: "(\<lambda>t. if t \<in> set (posted k1 (ys @ zs)) then None else et_p k1 t) = (\<lambda>t. if t \<in> set (posted k xs) then None else et_p k t)"
      using k1(5) po by auto
    have "n = length (filter (expired_timer k1) (ys @ zs))" using Suc(2) unfolding f e by simp
    from Suc(1) [OF this k1(2,3)] obtain k' where k': "etimer_scan None (timerlist k1) k1 = Some k'" "et_wf k' (filter (\<lambda>t. t \<notin> set (posted k1 (ys @ zs))) (ys @ zs))" "kq_wf k'"
        "queued k' = queued k1 @ map (timer_event k1) (posted k1 (ys @ zs))" "et_p k' = (\<lambda>t. if t \<in> set (posted k1 (ys @ zs)) then None else et_p k1 t)"
        "et_timer k' = et_timer k1" "clock k' = clock k1"
        "posted k1 (ys @ zs) \<noteq> filter (expired_timer k1) (ys @ zs) \<and> process_state k1 (etimer_process k1) \<noteq> PROCESS_STATE_NONE \<and> states_wf k1 \<longrightarrow>
           poll_requested k' \<and> process_needspoll k' (etimer_process k1)"
      by blast
    have "et_wf k' (filter (\<lambda>t. t \<notin> set (posted k xs)) xs)" unfolding fl by (rule k'(2))
    then show ?thesis using k'(1,3-8) k1(1,4,6-9) unfolding m p po f e st by (intro exI [of _ k']) simp
  qed
qed


subsection \<open>Properties\<close>

lemma etimer_set_ok:
  fixes t :: nat
  assumes w: "et_wf k xs" "process_current k = Some p"
  defines "ys \<equiv> if t \<in> set xs then xs else t # xs"
  shows "\<exists>k'. etimer_set t i k = Some k' \<and> et_wf k' ys \<and> et_p k' t = Some p \<and> et_timer k' t = \<lparr> tm_start = clock k, tm_interval = i \<rparr> \<and>
    next_expiration k' = soonest k' ys"
proof -
  let ?k = "k\<lparr> et_timer := (et_timer k)(t := timer_set (clock k) i (et_timer k t)) \<rparr>"
  have "et_wf ?k xs" "process_current ?k = Some p" using w by (simp_all add: et_wf_def)
  from add_timer_ok [OF this, of t] obtain k' where "add_timer t ?k = Some k'" "et_wf k' ys" "et_p k' = (et_p ?k)(t := Some p)" "et_timer k' = et_timer ?k"
      "clock k' = clock ?k" "next_expiration k' = soonest ?k ys" unfolding ys_def by blast
  then show ?thesis by (auto simp: etimer_set_def timer_set_def soonest_def)
qed


text \<open>Two pending timers, of processes 1 and 2; the first one has expired although the clock has wrapped around since its start.\<close>

definition two_timers :: etimer_state where
  "two_timers = \<lparr> process_list = Some 1, process_next = (\<lambda>x. if x = 1 then Some 2 else None), process_state = (\<lambda>x. 1), process_needspoll = (\<lambda>_. False),
     process_current = Some 1, lastevent = 0x8a, nevents = 0, fevent = 0, event_array = replicate 32 \<lparr> ev_ev = 0, ev_data = None, ev_p = None \<rparr>,
     poll_requested = False, timerlist = Some 5, et_next = (\<lambda>t. if t = 5 then Some 6 else None),
     et_timer = (\<lambda>t. if t = 5 then \<lparr> tm_start = - 10, tm_interval = 30 \<rparr> else \<lparr> tm_start = 20, tm_interval = 100 \<rparr>),
     et_p = (\<lambda>t. if t = 5 then Some 1 else if t = 6 then Some 2 else None), next_expiration = 20, clock = 25, etimer_process = 9 \<rparr>"

lemma two_timers_wf: "et_wf two_timers [5, 6]" "kq_wf two_timers" "queued two_timers = []" "posted two_timers [5, 6] = [5]" "process_current two_timers = Some 1"
proof -
  show "et_wf two_timers [5, 6]" "kq_wf two_timers" "process_current two_timers = Some 1" by (simp_all add: et_wf_def two_timers_def kq_wf_def)
  show q: "queued two_timers = []" by (simp add: queued_def two_timers_def)
  have "expired_timer two_timers 5" "\<not> expired_timer two_timers 6" by (simp_all add: expired_timer_def timer_expired_def two_timers_def)
  then show "posted two_timers [5, 6] = [5]" unfolding posted_def q by simp
qed


text \<open>
  C32. Every expired timer becomes exactly one event. A poll of the timer process returns; the expired timers, as many of them as the event queue has
  room for and in the order of the list, are posted once each to the processes that set them and taken off the list, and are then seen as expired; all
  others stay on the list in their order. When the queue had no room for some expired timer, another poll has been requested, so that it is not
  forgotten.
\<close>

theorem etimer_poll_correct:
  fixes k :: "'k etimer_state_scheme"
  assumes "et_wf k xs" "kq_wf k"
  shows "\<exists>k'. etimer_process_thread True PROCESS_EVENT_POLL data k = Some (PT_YIELDED, k') \<and> et_wf k' (filter (\<lambda>t. t \<notin> set (posted k xs)) xs) \<and>
    queued k' = queued k @ map (\<lambda>t. \<lparr> ev_ev = PROCESS_EVENT_TIMER, ev_data = Some t, ev_p = et_p k t \<rparr>) (posted k xs) \<and>
    (\<forall>t \<in> set xs. etimer_expired t k' \<longleftrightarrow> t \<in> set (posted k xs)) \<and>
    (posted k xs \<noteq> filter (\<lambda>t. timer_expired (clock k) (et_timer k t)) xs \<and> states_wf k \<and> process_state k (etimer_process k) \<noteq> PROCESS_STATE_NONE \<longrightarrow>
       poll_requested k' \<and> process_needspoll k' (etimer_process k))"
proof -
  have f: "filter (\<lambda>t. timer_expired (clock k) (et_timer k t)) xs = filter (expired_timer k) xs" by (simp add: expired_timer_def [abs_def])
  have e: "(\<lambda>t. \<lparr> ev_ev = PROCESS_EVENT_TIMER, ev_data = Some t, ev_p = et_p k t \<rparr>) = timer_event k" by (simp add: timer_event_def fun_eq_iff)
  have p: "\<forall>t \<in> set xs. et_p k t \<noteq> None" using assms(1) by (simp add: et_wf_def)
  obtain k' where "etimer_scan None (timerlist k) k = Some k'" "et_wf k' (filter (\<lambda>t. t \<notin> set (posted k xs)) xs)"
    "queued k' = queued k @ map (timer_event k) (posted k xs)" "et_p k' = (\<lambda>t. if t \<in> set (posted k xs) then None else et_p k t)"
    "posted k xs \<noteq> filter (expired_timer k) xs \<and> process_state k (etimer_process k) \<noteq> PROCESS_STATE_NONE \<and> states_wf k \<longrightarrow>
       poll_requested k' \<and> process_needspoll k' (etimer_process k)"
    using scan_ok [OF assms] by blast
  then show ?thesis unfolding f e using p by (intro exI [of _ k']) (simp add: etimer_expired_def etimer_process_thread_def etimer_poll_def)
qed

theorem etimer_poll_correct_witness:
  "\<exists>k'. etimer_process_thread True PROCESS_EVENT_POLL None two_timers = Some (PT_YIELDED, k') \<and> et_wf k' [6] \<and> queued k' = [\<lparr> ev_ev = PROCESS_EVENT_TIMER, ev_data = Some 5, ev_p = Some 1 \<rparr>] \<and> etimer_expired 5 k'"
proof -
  have "et_p two_timers 5 = Some 1" by (simp add: two_timers_def)
  then show ?thesis using etimer_poll_correct [OF two_timers_wf(1,2), of None] unfolding two_timers_wf(3,4) by auto
qed

subsection \<open>Timers outside of a process\<close>

lemma cyclic_tdist: "nx t = Some t \<Longrightarrow> tdist_loop nx tm now (Some t) d = None"
proof (rule ccontr)
  assume c: "nx t = Some t" "tdist_loop nx tm now (Some t) d \<noteq> None"
  then obtain r where "tdist_loop nx tm now (Some t) d = Some r" by auto
  then have "Some t \<noteq> Some t"
    by (rule tdist_loop.raw_induct [where P = "\<lambda>nx' tm' now' s d r. nx' = nx \<longrightarrow> s \<noteq> Some t", rotated, rule_format]) (use c(1) in \<open>auto split: option.splits\<close>)
  then show False by simp
qed

text \<open>
  The list is searched for a timer only when the timer has a process. A timer that was set while no process was running (from an interrupt or
  before the kernel starts one) has none, so that setting it again links it to itself and the search for the next expiration does not end.
\<close>

lemma add_timer_outside:
  assumes "process_current k = None" "et_p k t = None \<or> timerlist k = None"
  shows "\<exists>n b. add_timer t k = update_time (k\<lparr> process_needspoll := n, poll_requested := b, et_p := (et_p k)(t := None),
    et_next := (et_next k)(t := timerlist k), timerlist := Some t \<rparr>)"
proof -
  obtain n b where r: "etimer_request_poll k = k\<lparr> process_needspoll := n, poll_requested := b \<rparr>" using request_poll_eq(1) [of k] by blast
  have "on_list nx t None = Some False" for nx by (simp add: on_list.simps)
  then have "add_timer t k = update_time (k\<lparr> process_needspoll := n, poll_requested := b, et_p := (et_p k)(t := None),
      et_next := (et_next k)(t := timerlist k), timerlist := Some t \<rparr>)"
    using assms by (auto simp: add_timer_def r Let_def)
  then show ?thesis by blast
qed

lemma etimer_set_outside_process_loops:
  fixes k :: "'k etimer_state_scheme"
  assumes "process_current k = None" "timerlist k = None"
  shows "\<exists>k'. etimer_set t i k = Some k' \<and> etimer_set t i k' = None"
proof -
  have n: "tdist_loop nx tm now None d = Some d" for nx tm now d by (simp add: tdist_loop.simps)
  let ?k = "\<lambda>k :: 'k etimer_state_scheme. k\<lparr> et_timer := (et_timer k)(t := timer_set (clock k) i (et_timer k t)) \<rparr>"
  have "process_current (?k k) = None" "et_p (?k k) t = None \<or> timerlist (?k k) = None" using assms by simp_all
  from add_timer_outside [OF this] obtain k' where k': "etimer_set t i k = Some k'" "process_current k' = None" "et_p k' t = None" "timerlist k' = Some t"
    using assms by (auto simp: etimer_set_def update_time_def n Let_def)
  have "process_current (?k k') = None" "et_p (?k k') t = None \<or> timerlist (?k k') = None" using k' by simp_all
  from add_timer_outside [OF this] have "etimer_set t i k' = None"
    using k'(4) by (auto simp: etimer_set_def update_time_def cyclic_tdist Let_def)
  then show ?thesis using k'(1) by blast
qed

end
