(* ===== verification/Cfs.thy ===== *)
theory Cfs
  imports MasterConf
begin

text \<open>
  The file system of the simulated node (\<open>arch/platform/cooja/cfs/cfs-cooja.c\<close>): one file of at most
  \<open>CFS_BUF_SIZE\<close> bytes. \<open>cfs_read\<close> returns the bytes it copies to the caller's buffer next to its result; the
  caller stores them. Opening for writing without appending sets the end of the file to zero.
\<close>

definition CFS_READ :: u8 where "CFS_READ = 1"
definition CFS_WRITE :: u8 where "CFS_WRITE = 2"
definition CFS_APPEND :: u8 where "CFS_APPEND = 4"
definition CFS_BUF_SIZE :: nat where [simp]: "CFS_BUF_SIZE = 4000"

datatype cfs_whence = CFS_SEEK_SET | CFS_SEEK_CUR | CFS_SEEK_END

record cfs_state =
  f_open :: bool
  f_access :: u8
  f_fileptr :: int
  f_endptr :: int
  simCFSData :: "u8 list"
  simCFSSize :: int
  simCFSChanged :: bool
  simCFSRead :: int
  simCFSWritten :: int

definition cfs_open :: "u8 \<Rightarrow> 'a cfs_state_scheme \<Rightarrow> int \<times> 'a cfs_state_scheme" where
  "cfs_open f s =
     (if \<not> f_open s then
        (let s = s\<lparr> f_open := True, f_access := f, f_fileptr := 0, f_endptr := simCFSSize s \<rparr>;
             s = (if f AND CFS_WRITE \<noteq> 0 then
                    (if f AND CFS_APPEND \<noteq> 0 then s\<lparr> f_fileptr := f_endptr s \<rparr> else s\<lparr> f_endptr := 0 \<rparr>)
                  else s)
         in (0, s))
      else (- 1, s))"

definition cfs_close :: "'a cfs_state_scheme \<Rightarrow> 'a cfs_state_scheme" where
  "cfs_close s = s\<lparr> f_open := False \<rparr>"

text \<open>
  The lengths are \<open>unsigned int\<close>: an end of file before the file pointer, or a pointer outside the data, makes
  \<open>memcpy\<close> leave the array.
\<close>

definition cfs_read :: "nat \<Rightarrow> 'a cfs_state_scheme \<Rightarrow> (int \<times> u8 list \<times> 'a cfs_state_scheme) option" where
  "cfs_read len s =
     (if f_open s \<and> f_access s AND CFS_READ \<noteq> 0 then do {
        guard_opt (0 \<le> f_fileptr s);
        len \<leftarrow> (if f_fileptr s + int len \<ge> f_endptr s then do {
                  guard_opt (f_fileptr s \<le> f_endptr s);
                  Some (nat (f_endptr s - f_fileptr s))
                } else Some len);
        bytes \<leftarrow> slice_opt (simCFSData s) (nat (f_fileptr s)) len;
        Some (int len, bytes, s\<lparr> f_fileptr := f_fileptr s + int len, simCFSChanged := True, simCFSRead := simCFSRead s + int len \<rparr>)
      }
      else Some (- 1, [], s))"

definition cfs_write :: "u8 list \<Rightarrow> nat \<Rightarrow> 'a cfs_state_scheme \<Rightarrow> (int \<times> 'a cfs_state_scheme) option" where
  "cfs_write buf len s =
     (if f_open s \<and> f_access s AND CFS_WRITE \<noteq> 0 then do {
        guard_opt (0 \<le> f_fileptr s);
        len \<leftarrow> (if f_fileptr s + int len > int CFS_BUF_SIZE then do {
                  guard_opt (f_fileptr s \<le> int CFS_BUF_SIZE);
                  Some (nat (int CFS_BUF_SIZE - f_fileptr s))
                } else Some len);
        bytes \<leftarrow> slice_opt buf 0 len;
        data \<leftarrow> put_opt (simCFSData s) (nat (f_fileptr s)) bytes;
        let s = s\<lparr> simCFSData := data \<rparr>;
        let s = s\<lparr> f_fileptr := f_fileptr s + int len, simCFSChanged := True, simCFSWritten := simCFSWritten s + int len \<rparr>;
        let s = (if f_fileptr s > f_endptr s then s\<lparr> f_endptr := f_fileptr s \<rparr> else s);
        let s = (if f_fileptr s > simCFSSize s then s\<lparr> simCFSSize := f_fileptr s \<rparr> else s);
        Some (int len, s)
      }
      else Some (- 1, s))"

definition cfs_seek :: "int \<Rightarrow> cfs_whence \<Rightarrow> 'a cfs_state_scheme \<Rightarrow> int \<times> 'a cfs_state_scheme" where
  "cfs_seek off w s =
     (if f_open s then
        (let s = s\<lparr> f_fileptr := (case w of CFS_SEEK_SET \<Rightarrow> off | CFS_SEEK_CUR \<Rightarrow> f_fileptr s + off
                                         | CFS_SEEK_END \<Rightarrow> f_endptr s + off) \<rparr>
         in if 0 \<le> f_fileptr s \<and> f_fileptr s \<le> int CFS_BUF_SIZE then
              (let s = (if f_fileptr s > f_endptr s then s\<lparr> f_endptr := f_fileptr s \<rparr> else s) in (f_fileptr s, s))
            else (- 1, s))
      else (- 1, s))"

definition cfs_remove :: "'a cfs_state_scheme \<Rightarrow> int \<times> 'a cfs_state_scheme" where
  "cfs_remove s = (0, s\<lparr> simCFSData := replicate CFS_BUF_SIZE 0 \<rparr>)"

subsection \<open>The file as a sequence of bytes\<close>

text \<open>The pointers lie in the data; every successful operation keeps it.\<close>

definition cfs_wf :: "'a cfs_state_scheme \<Rightarrow> bool" where
  "cfs_wf s \<longleftrightarrow> length (simCFSData s) = CFS_BUF_SIZE \<and> 0 \<le> simCFSSize s \<and> simCFSSize s \<le> int CFS_BUF_SIZE \<and>
     (f_open s \<longrightarrow> 0 \<le> f_fileptr s \<and> f_fileptr s \<le> f_endptr s \<and> f_endptr s \<le> int CFS_BUF_SIZE)"

definition file_content :: "'a cfs_state_scheme \<Rightarrow> u8 list" where
  "file_content s = take (nat (f_endptr s)) (simCFSData s)"

definition file_rest :: "'a cfs_state_scheme \<Rightarrow> u8 list" where
  "file_rest s = drop (nat (f_fileptr s)) (file_content s)"

definition readable :: "'a cfs_state_scheme \<Rightarrow> bool" where
  "readable s \<longleftrightarrow> cfs_wf s \<and> f_open s \<and> f_access s AND CFS_READ \<noteq> 0"

definition writable :: "'a cfs_state_scheme \<Rightarrow> bool" where
  "writable s \<longleftrightarrow> cfs_wf s \<and> f_open s \<and> f_access s AND CFS_WRITE \<noteq> 0"

text \<open>
  The contract of a readable byte source, which the parsers of the schedule rely on: a read returns as many of
  the remaining bytes as asked for and there are, and leaves the others.
\<close>

locale byte_source =
  fixes read :: "nat \<Rightarrow> 's \<Rightarrow> (int \<times> u8 list \<times> 's) option"
    and rest :: "'s \<Rightarrow> u8 list"
    and ready :: "'s \<Rightarrow> bool"
  assumes read_law: "ready s \<Longrightarrow> \<exists>s'. read n s = Some (int (min n (length (rest s))), take n (rest s), s') \<and>
      ready s' \<and> rest s' = drop n (rest s)"
begin

lemma read_all:
  assumes "ready s" "rest s = bs @ cs" "length bs = n"
  obtains s' where "read n s = Some (int n, bs, s')" "ready s'" "rest s' = cs"
  using read_law [OF assms(1), of n] assms(2,3) by auto

lemma read_byte:
  assumes "ready s" "rest s = b # cs"
  obtains s' where "read 1 s = Some (1, [b], s')" "ready s'" "rest s' = cs"
  using read_all [of s "[b]" cs 1] assms by auto

lemma read_empty:
  assumes "ready s" "rest s = []"
  obtains s' where "read n s = Some (0, [], s')" "ready s'" "rest s' = []"
  using read_law [OF assms(1), of n] assms(2) by auto

end

lemma cfs_read_rest:
  assumes "readable s"
  shows "\<exists>s'. cfs_read n s = Some (int (min n (length (file_rest s))), take n (file_rest s), s') \<and> readable s' \<and>
    file_rest s' = drop n (file_rest s)"
proof -
  obtain p e where p: "f_fileptr s = int p" "f_endptr s = int e" "p \<le> e" "e \<le> 4000" "length (simCFSData s) = 4000"
    using assms unfolding readable_def cfs_wf_def by (metis CFS_BUF_SIZE_def nonneg_int_cases of_nat_le_iff order_trans of_nat_0_le_iff)
  have r: "file_rest s = take (e - p) (drop p (simCFSData s))" by (simp add: file_rest_def file_content_def p drop_take)
  have l: "length (file_rest s) = e - p" using p by (simp add: r)
  show ?thesis
  proof (cases "e \<le> p + n")
    case True
    then have "take n (file_rest s) = file_rest s" "drop n (file_rest s) = []" "min n (e - p) = e - p" using l by simp_all
    then show ?thesis using assms p True unfolding l unfolding r
      by (auto simp: cfs_read_def readable_def cfs_wf_def file_rest_def file_content_def drop_take slice_opt_def simp flip: of_nat_add of_nat_diff)
  next
    case False
    then have "min n (e - p) = n" "n \<le> e - p" by simp_all
    then show ?thesis using assms p False unfolding l unfolding r
      by (auto simp: cfs_read_def readable_def cfs_wf_def file_rest_def file_content_def drop_take min_def slice_opt_def add.commute
          simp flip: of_nat_add of_nat_diff)
  qed
qed

interpretation cfs: byte_source cfs_read file_rest readable
  by unfold_locales (rule cfs_read_rest)

text \<open>Writing and seeking.\<close>

lemma cfs_write_ok:
  assumes "writable s" "f_fileptr s + int len \<le> int CFS_BUF_SIZE" "len \<le> length buf"
  shows "\<exists>s'. cfs_write buf len s = Some (int len, s') \<and> writable s' \<and> f_access s' = f_access s \<and>
    f_fileptr s' = f_fileptr s + int len \<and> f_endptr s' = max (f_endptr s) (f_fileptr s + int len) \<and>
    simCFSData s' = put_at (simCFSData s) (nat (f_fileptr s)) (take len buf)"
proof -
  obtain p where p: "f_fileptr s = int p" "length (simCFSData s) = 4000" "p + len \<le> 4000" "simCFSSize s \<le> 4000" "f_endptr s \<le> 4000"
    using assms unfolding writable_def cfs_wf_def by (metis CFS_BUF_SIZE_def nonneg_int_cases of_nat_le_iff of_nat_add of_nat_numeral)
  have b: "slice_opt buf 0 len = Some (take len buf)" using assms(3) by simp
  have "length (take len buf) = len" using assms(3) by simp
  then have d: "put_opt (simCFSData s) p (take len buf) = Some (put_at (simCFSData s) p (take len buf))" 
    "length (put_at (simCFSData s) p (take len buf)) = 4000" using p by simp_all
  show ?thesis using assms(1,2) p d(2)
    by (auto simp: cfs_write_def writable_def cfs_wf_def b d(1) max_def Let_def simp del: put_opt_eq_Some slice_opt_eq_Some)
qed

lemma cfs_seek_ok:
  assumes "cfs_wf s" "f_open s" "0 \<le> off" "off \<le> int CFS_BUF_SIZE"
  shows "\<exists>s'. cfs_seek off CFS_SEEK_SET s = (off, s') \<and> cfs_wf s' \<and> f_open s' \<and> f_access s' = f_access s \<and> f_fileptr s' = off \<and>
    f_endptr s' = max (f_endptr s) off \<and> simCFSData s' = simCFSData s"
  using assms by (auto simp: cfs_seek_def cfs_wf_def max_def Let_def)

end
