(* ===== verification/MasterSchedule.thy ===== *)
theory MasterSchedule
  imports Cfs
begin

text \<open>
  The schedule in flash memory and its bit vectors (\<open>os/net/master-routing/master-schedule.c\<close>). The serial
  line uploads the schedule as hexadecimal text at the distributor; every other node receives it packet by
  packet over the radio; \<open>read_from_flash_by_id\<close> parses the part of one node. The state extends the one of the file
  system; the array of links is kept as its bytes, four per link, since it is read as such.
\<close>

subsection \<open>Data\<close>

record scheduled_link_t =
  sk_slotframe_handle :: u8
  sk_send_receive :: u8
  sk_timeslot :: u8
  sk_channel_offset :: u8

record master_tsch_schedule_t =
  own_transmission_flow :: u8
  own_receiver :: u8
  flow_forwards :: "u8 list"
  max_transmission :: "u8 list"
  links_len :: u8
  link_mem :: "u8 list"

record master_tsch_schedule_universall_config_t =
  schedule_length :: u8
  slot_frames :: u8
  sender_of_flow :: "u8 list"
  receiver_of_flow :: "u8 list"
  first_tx_slot_in_flow :: "u8 list"
  last_tx_slot_in_flow :: "u8 list"
  last_received_relayed_packet_of_flow :: "u8 list"

text \<open>\<open>links[i]\<close>: four consecutive bytes of the array.\<close>

definition schedule_link :: "master_tsch_schedule_t \<Rightarrow> nat \<Rightarrow> scheduled_link_t option" where
  "schedule_link sch i = do {
     h \<leftarrow> nth_opt (link_mem sch) (4 * i);
     sr \<leftarrow> nth_opt (link_mem sch) (4 * i + 1);
     ts \<leftarrow> nth_opt (link_mem sch) (4 * i + 2);
     co \<leftarrow> nth_opt (link_mem sch) (4 * i + 3);
     Some \<lparr> sk_slotframe_handle = h, sk_send_receive = sr, sk_timeslot = ts, sk_channel_offset = co \<rparr>
   }"

record flash_state = cfs_state +
  fs_fd :: int
  bytes_in_flash :: int
  fs_open :: bool
  schedule_loading :: bool
  schedule :: master_tsch_schedule_t
  schedule_config :: master_tsch_schedule_universall_config_t

subsection \<open>Files\<close>

definition asciiHex_to_int :: "u8 list \<Rightarrow> u8 option" where
  "asciiHex_to_int asciiHex = do {
     c \<leftarrow> nth_opt asciiHex 0;
     if c = 0 then Some 0
     else do {
       lowerNibble \<leftarrow> nth_opt asciiHex 1;
       let HigherNibble = c;
       let lowerNibble = (if lowerNibble \<ge> 65 then lowerNibble - 55 else lowerNibble - 48);
       let HigherNibble = (if HigherNibble \<ge> 65 then HigherNibble - 55 else HigherNibble - 48);
       Some (push_bit 4 HigherNibble + lowerNibble)
     }
   }"

definition open_file :: "u8 \<Rightarrow> 'a flash_state_scheme \<Rightarrow> bool \<times> 'a flash_state_scheme" where
  "open_file mode s =
     (if \<not> fs_open s then
        (let s = s\<lparr> fs_open := True \<rparr>;
             (fd, s) = cfs_open mode s;
             s = s\<lparr> fs_fd := fd \<rparr>;
             s = (if fd < 0 then s\<lparr> fs_open := False \<rparr> else s)
         in (fs_open s, s))
      else (fs_open s, s))"

definition close_file :: "'a flash_state_scheme \<Rightarrow> 'a flash_state_scheme" where
  "close_file s = (cfs_close s)\<lparr> fs_open := False \<rparr>"

text \<open>The loop of \<open>write_to_flash\<close> converts the text in place, two characters to one byte.\<close>

function hex_loop :: "u8 list \<Rightarrow> nat \<Rightarrow> (u8 list \<times> nat) option" where
  "hex_loop data len =
     (if len < length data then
        (if data ! len \<noteq> 0 then
           (case asciiHex_to_int (drop len data) of
              None \<Rightarrow> None
            | Some b \<Rightarrow> hex_loop (data[len div 2 := b]) (len + 2))
         else Some (data, len))
      else None)"
  by pat_completeness auto
termination by (relation "measure (\<lambda>(data, len). length data - len)") auto

definition write_to_flash :: "u8 list \<Rightarrow> 'a flash_state_scheme \<Rightarrow> (u8 list \<times> 'a flash_state_scheme) option" where
  "write_to_flash data s = do {
     (data, len) \<leftarrow> hex_loop data 0;
     (r, s) \<leftarrow> cfs_write data (len div 2) s;
     if r \<noteq> int (len div 2) then Some (data, close_file s)
     else Some (data, s\<lparr> bytes_in_flash := bytes_in_flash s + r \<rparr>)
   }"

definition write_to_flash_offset :: "u8 list \<Rightarrow> int \<Rightarrow> u8 \<Rightarrow> 'a flash_state_scheme \<Rightarrow> (u8 \<times> 'a flash_state_scheme) option" where
  "write_to_flash_offset data offset len s =
     (case open_file (CFS_WRITE + CFS_READ) s of
        (False, s) \<Rightarrow> Some (0, s)
      | (True, s) \<Rightarrow>
          (case cfs_seek offset CFS_SEEK_SET s of
             (r, s) \<Rightarrow>
               if r \<noteq> offset then Some (0, close_file s)
               else do {
                 (wrote_bytes, s) \<leftarrow> cfs_write data (unat len) s;
                 if wrote_bytes \<noteq> uint len then Some (0, close_file s)
                 else Some (1, s\<lparr> bytes_in_flash := bytes_in_flash s + wrote_bytes \<rparr>)
               }))"

definition read_flash :: "u8 list \<Rightarrow> int \<Rightarrow> u8 \<Rightarrow> 'a flash_state_scheme \<Rightarrow> (u8 \<times> u8 list \<times> 'a flash_state_scheme) option" where
  "read_flash buf offset len s =
     (case open_file (CFS_WRITE + CFS_READ) s of
        (False, s) \<Rightarrow> Some (255, buf, s)
      | (True, s) \<Rightarrow>
          (case cfs_seek offset CFS_SEEK_SET s of
             (r, s) \<Rightarrow>
               if r \<noteq> offset then Some (255, buf, close_file s)
               else do {
                 (read_bytes, bytes, s) \<leftarrow> cfs_read (unat len) s;
                 buf \<leftarrow> put_opt buf 0 bytes;
                 if read_bytes \<noteq> uint len then Some (255, buf, close_file s)
                 else Some (word_of_int read_bytes, buf, s)
               }))"

text \<open>Reading into a single byte and into an array.\<close>

definition read_u8 :: "u8 \<Rightarrow> 'a cfs_state_scheme \<Rightarrow> (int \<times> u8 \<times> 'a cfs_state_scheme) option" where
  "read_u8 old s = do { (r, bytes, s) \<leftarrow> cfs_read 1 s; Some (r, (case bytes of [] \<Rightarrow> old | b # _ \<Rightarrow> b), s) }"

definition read_bytes :: "u8 list \<Rightarrow> nat \<Rightarrow> 'a cfs_state_scheme \<Rightarrow> (int \<times> u8 list \<times> 'a cfs_state_scheme) option" where
  "read_bytes old n s = do { (r, bytes, s) \<leftarrow> cfs_read n s; arr \<leftarrow> put_opt old 0 bytes; Some (r, arr, s) }"

definition read_config ::
    "master_tsch_schedule_universall_config_t \<Rightarrow> 'a cfs_state_scheme \<Rightarrow>
     (u16 \<times> master_tsch_schedule_universall_config_t \<times> 'a cfs_state_scheme) option" where
  "read_config config s = do {
     (r1, l, s) \<leftarrow> read_u8 (schedule_length config) s;
     (r2, f, s) \<leftarrow> read_u8 (slot_frames config) s;
     (r3, snd, s) \<leftarrow> read_bytes (sender_of_flow config) MASTER_NUM_FLOWS s;
     (r4, rcv, s) \<leftarrow> read_bytes (receiver_of_flow config) MASTER_NUM_FLOWS s;
     (r5, fst, s) \<leftarrow> read_bytes (first_tx_slot_in_flow config) MASTER_NUM_FLOWS s;
     (r6, lst, s) \<leftarrow> read_bytes (last_tx_slot_in_flow config) MASTER_NUM_FLOWS s;
     Some (word_of_int (r1 + r2 + r3 + r4 + r5 + r6),
       config\<lparr> schedule_length := l, slot_frames := f, sender_of_flow := snd, receiver_of_flow := rcv,
               first_tx_slot_in_flow := fst, last_tx_slot_in_flow := lst \<rparr>, s)
   }"

text \<open>
  One round of the loop: the entry of one node. The result is the number of bytes read, the number that should
  have been read, and the node of the entry.
\<close>

definition read_entry ::
    "u8 \<Rightarrow> master_tsch_schedule_t \<Rightarrow> 'a cfs_state_scheme \<Rightarrow>
     (u16 \<times> int \<times> u8 \<times> master_tsch_schedule_t \<times> 'a cfs_state_scheme) option" where
  "read_entry idx sch s = do {
     (r1, idx, s) \<leftarrow> read_u8 idx s;
     (r2, fl, s) \<leftarrow> read_u8 (own_transmission_flow sch) s;
     let sch = sch\<lparr> own_transmission_flow := fl \<rparr>;
     (r3, e3, sch, s) \<leftarrow>
       (if own_transmission_flow sch = 0 then Some (0, 0, sch\<lparr> own_receiver := 0 \<rparr>, s)
        else do {
          (r, v, s) \<leftarrow> read_u8 (own_receiver sch) s;
          Some (r, 1, sch\<lparr> own_receiver := v \<rparr>, s)
        });
     (r4, n, s) \<leftarrow> read_u8 (links_len sch) s;
     let sch = sch\<lparr> links_len := n \<rparr>;
     (r5, lm, s) \<leftarrow> read_bytes (link_mem sch) (unat (links_len sch) * 4) s;
     let sch = sch\<lparr> link_mem := lm \<rparr>;
     (r6, ff, s) \<leftarrow> read_bytes (flow_forwards sch) 8 s;
     let sch = sch\<lparr> flow_forwards := ff \<rparr>;
     (r7, mt, s) \<leftarrow> read_bytes (max_transmission sch) 8 s;
     let sch = sch\<lparr> max_transmission := mt \<rparr>;
     Some (word_of_int (r1 + r2 + r3 + r4 + r5 + r6 + r7),
           1 + 1 + e3 + 1 + int (unat (links_len sch) * 4) + 8 + 8, idx, sch, s)
   }"

partial_function (option) read_entries ::
    "int \<Rightarrow> int \<Rightarrow> u8 \<Rightarrow> master_tsch_schedule_t \<Rightarrow> 'a flash_state_scheme \<Rightarrow> (u8 \<times> master_tsch_schedule_t \<times> 'a flash_state_scheme) option" where
  "read_entries ident total_bytes_read idx sch s = do {
     (read_schedule_bytes, bytes_that_should_be_read, idx, sch, s) \<leftarrow> read_entry idx sch s;
     if uint read_schedule_bytes \<noteq> bytes_that_should_be_read then Some (0, sch, close_file s)
     else
       (let total_bytes_read = total_bytes_read + uint read_schedule_bytes
        in if uint idx \<noteq> ident \<and> total_bytes_read < bytes_in_flash s
           then read_entries ident total_bytes_read idx sch s
           else Some (1, sch, close_file s))
   }"

definition read_from_flash_by_id ::
    "master_tsch_schedule_universall_config_t \<Rightarrow> master_tsch_schedule_t \<Rightarrow> int \<Rightarrow> 'a flash_state_scheme \<Rightarrow>
     (u8 \<times> master_tsch_schedule_universall_config_t \<times> master_tsch_schedule_t \<times> 'a flash_state_scheme) option" where
  "read_from_flash_by_id config sch ident s =
     (case open_file (CFS_WRITE + CFS_READ) s of
        (False, s) \<Rightarrow> Some (0, config, sch, s)
      | (True, s) \<Rightarrow>
          (case cfs_seek 0 CFS_SEEK_SET s of
             (r, s) \<Rightarrow>
               if r \<noteq> 0 then Some (0, config, sch, close_file s)
               else do {
                 (read_config_bytes, config, s) \<leftarrow> read_config config s;
                 if unat read_config_bytes \<noteq> 4 * MASTER_NUM_FLOWS + 2 then Some (0, config, sch, close_file s)
                 else do {
                   (ret, sch, s) \<leftarrow> read_entries ident 0 0 sch s;
                   Some (ret, config, sch, s)
                 }
               }))"

subsection \<open>Serial input\<close>

definition MESSAGE_BEGIN :: u8 where "MESSAGE_BEGIN = 0"
definition MESSAGE_CONTINUE :: u8 where "MESSAGE_CONTINUE = 1"
definition MESSAGE_END :: u8 where "MESSAGE_END = 2"

text \<open>
  One line of serial input; the flag tells that the upload is complete, after which the process starts the slot
  operation, leaves the network it synchronised to, and ends.
\<close>

definition serial_line_message :: "u8 list \<Rightarrow> 'a flash_state_scheme \<Rightarrow> (bool \<times> 'a flash_state_scheme) option" where
  "serial_line_message data s = do {
     message_prefix \<leftarrow> asciiHex_to_int data;
     if message_prefix = MESSAGE_BEGIN then do {
       (_, s) \<leftarrow> write_to_flash (drop 2 data) (snd (open_file (CFS_WRITE + CFS_READ) s));
       Some (False, s)
     }
     else if message_prefix = MESSAGE_CONTINUE then do {
       (_, s) \<leftarrow> write_to_flash (drop 2 data) s;
       Some (False, s)
     }
     else if message_prefix = MESSAGE_END then do {
       (_, s) \<leftarrow> write_to_flash (drop 2 data) s;
       Some (True, s\<lparr> schedule_loading := False \<rparr>)
     }
     else Some (False, s)
   }"

fun serial_loop :: "u8 list list \<Rightarrow> 'a flash_state_scheme \<Rightarrow> 'a flash_state_scheme option" where
  "serial_loop [] s = Some s"
| "serial_loop (m # ms) s =
     (if schedule_loading s then do { (_, s) \<leftarrow> serial_line_message m s; serial_loop ms s } else Some s)"

definition serial_line_schedule_input :: "u8 list list \<Rightarrow> 'a flash_state_scheme \<Rightarrow> 'a flash_state_scheme option" where
  "serial_line_schedule_input ms s = serial_loop ms (s\<lparr> fs_fd := 0, bytes_in_flash := 0 \<rparr>)"

subsection \<open>Queries\<close>

definition get_own_schedule :: "'a flash_state_scheme \<Rightarrow> master_tsch_schedule_t" where
  "get_own_schedule s = schedule s"

definition get_node_receiver :: "'a flash_state_scheme \<Rightarrow> u8" where
  "get_node_receiver s = own_receiver (get_own_schedule s)"

definition node_is_sender :: "'a flash_state_scheme \<Rightarrow> bool" where
  "node_is_sender s \<longleftrightarrow> get_node_receiver s \<noteq> 0"

definition get_forward_dest :: "master_tsch_schedule_t \<Rightarrow> u8 \<Rightarrow> u8 option" where
  "get_forward_dest sch flow = do { guard_opt (flow \<noteq> 0); nth_opt (flow_forwards sch) (unat flow - 1) }"

definition get_forward_dest_by_slotframe :: "master_tsch_schedule_t \<Rightarrow> u8 \<Rightarrow> u8 option" where
  "get_forward_dest_by_slotframe sch link_idx = do {
     l \<leftarrow> schedule_link sch (unat link_idx);
     guard_opt (sk_slotframe_handle l \<noteq> 0);
     nth_opt (flow_forwards sch) (unat (sk_slotframe_handle l) - 1)
   }"

definition get_max_transmissions :: "master_tsch_schedule_t \<Rightarrow> u8 \<Rightarrow> u8 option" where
  "get_max_transmissions sch flow = do { guard_opt (flow \<noteq> 0); nth_opt (max_transmission sch) (unat flow - 1) }"

subsection \<open>Bit vectors\<close>

definition setBit :: "u32 list \<Rightarrow> nat \<Rightarrow> u32 list option" where
  "setBit bit_vector k = do { w \<leftarrow> nth_opt bit_vector (k div 32); upd_opt bit_vector (k div 32) (w OR push_bit (k mod 32) 1) }"

definition clearBit :: "u32 list \<Rightarrow> nat \<Rightarrow> u32 list option" where
  "clearBit bit_vector k = do { w \<leftarrow> nth_opt bit_vector (k div 32); upd_opt bit_vector (k div 32) (w AND NOT (push_bit (k mod 32) 1)) }"

definition isBitSet :: "u32 list \<Rightarrow> nat \<Rightarrow> u8 option" where
  "isBitSet bit_vector k = do { w \<leftarrow> nth_opt bit_vector (k div 32); Some (if w AND push_bit (k mod 32) 1 \<noteq> 0 then 1 else 0) }"

definition setBit1Byte :: "u8 list \<Rightarrow> nat \<Rightarrow> u8 list option" where
  "setBit1Byte bit_vector k = do { w \<leftarrow> nth_opt bit_vector (k div 8); upd_opt bit_vector (k div 8) (w OR push_bit (k mod 8) 1) }"

definition isBitSet1Byte :: "u8 list \<Rightarrow> nat \<Rightarrow> u8 option" where
  "isBitSet1Byte bit_vector k = do { w \<leftarrow> nth_opt bit_vector (k div 8); Some (if w AND push_bit (k mod 8) 1 \<noteq> 0 then 1 else 0) }"

definition resetBitVector :: "u32 list \<Rightarrow> u8 \<Rightarrow> u32 list option" where
  "resetBitVector bit_vector n = put_opt bit_vector 0 (replicate (unat n) 0)"

text \<open>The search reads the bit before it compares the position with the last packet.\<close>

function missing_loop :: "u32 list \<Rightarrow> int \<Rightarrow> nat \<Rightarrow> nat option" where
  "missing_loop bit_vector last_packet position =
     (case isBitSet bit_vector position of
        None \<Rightarrow> None
      | Some b \<Rightarrow> if b \<noteq> 0 \<and> int position \<le> last_packet then missing_loop bit_vector last_packet (position + 1) else Some position)"
  by pat_completeness auto
termination by (relation "measure (\<lambda>(bv, last_packet, position). nat (last_packet + 1 - int position))") auto

definition getMissingPacket :: "u32 list \<Rightarrow> int \<Rightarrow> int option" where
  "getMissingPacket bit_vector last_packet = do {
     position \<leftarrow> missing_loop bit_vector last_packet 1;
     Some (if int position > last_packet then - 1 else int position)
   }"

declare hex_loop.simps [simp del] missing_loop.simps [simp del]

end
