(* ===== verification/MasterScheduleProps.thy ===== *)
theory MasterScheduleProps
  imports MasterSchedule
begin

text \<open>
  The bit vectors represent sets of packet numbers, the flash memory gives back what was written, and the
  schedule uploaded as text is parsed into the part of each node.
\<close>

subsection \<open>Bit vectors as sets\<close>

definition bv_set :: "'a::len word list \<Rightarrow> nat set" where
  "bv_set v = {k. k div LENGTH('a) < length v \<and> bit (v ! (k div LENGTH('a))) (k mod LENGTH('a))}"

definition bv_cap :: "'a::len word list \<Rightarrow> nat" where
  "bv_cap (v :: 'a word list) = length v * LENGTH('a)"

lemma bv_cap_iff: "k < bv_cap v \<longleftrightarrow> k div LENGTH('a) < length v" for v :: "'a::len word list"
  by (simp add: bv_cap_def less_mult_imp_div_less div_less_iff_less_mult)

lemma div_mod_eq: "k div m = j div m \<Longrightarrow> k mod m = j mod m \<Longrightarrow> k = j" for k j m :: nat
  by (metis mult_div_mod_eq)

lemma and_bit: "(w AND push_bit m 1 \<noteq> 0) = bit w m" for w :: "'a::len word"
  by (metis and.commute bit_iff_and_push_bit_not_eq_0)

lemma bv_set_or:
  fixes v :: "'a::len word list"
  assumes "k < bv_cap v"
  shows "bv_set (v[k div LENGTH('a) := (v ! (k div LENGTH('a))) OR push_bit (k mod LENGTH('a)) 1]) = insert k (bv_set v)"
    and "bv_set (v[k div LENGTH('a) := (v ! (k div LENGTH('a))) AND NOT (push_bit (k mod LENGTH('a)) 1)]) = bv_set v - {k}"
  using assms unfolding bv_cap_iff
  by (auto simp: bv_set_def nth_list_update bit_simps dest: div_mod_eq)

text \<open>The contract of an array of bits: setting one adds an element, testing one decides membership.\<close>

locale bit_array =
  fixes abs :: "'v \<Rightarrow> nat set" and cap :: "'v \<Rightarrow> nat"
    and set_bit :: "'v \<Rightarrow> nat \<Rightarrow> 'v option" and is_set :: "'v \<Rightarrow> nat \<Rightarrow> u8 option"
  assumes set_law: "k < cap v \<Longrightarrow> \<exists>v'. set_bit v k = Some v' \<and> abs v' = insert k (abs v) \<and> cap v' = cap v"
    and test_law: "k < cap v \<Longrightarrow> is_set v k = Some (if k \<in> abs v then 1 else 0)"
begin

lemma set_then_test:
  assumes "k < cap v" "j < cap v" "set_bit v k = Some v'"
  shows "is_set v' j = Some (if j = k \<or> j \<in> abs v then 1 else 0)"
proof -
  from set_law [OF assms(1)] assms(3) have "abs v' = insert k (abs v)" "cap v' = cap v" by auto
  with test_law [of j v'] assms(2) show ?thesis by auto
qed

end

lemma bv_laws:
  fixes v :: "'a::len word list"
  assumes "k < bv_cap v"
  shows "\<exists>v'. Option.bind (nth_opt v (k div LENGTH('a))) (\<lambda>w. upd_opt v (k div LENGTH('a)) (w OR push_bit (k mod LENGTH('a)) 1)) =
      Some v' \<and> bv_set v' = insert k (bv_set v) \<and> bv_cap v' = bv_cap v"
    and "Option.bind (nth_opt v (k div LENGTH('a))) (\<lambda>w. Some (if w AND push_bit (k mod LENGTH('a)) 1 \<noteq> 0 then 1 else 0)) =
      Some (if k \<in> bv_set v then 1 else 0 :: u8)"
proof -
  have l: "k div LENGTH('a) < length v" using assms by (simp add: bv_cap_iff)
  show "\<exists>v'. Option.bind (nth_opt v (k div LENGTH('a))) (\<lambda>w. upd_opt v (k div LENGTH('a)) (w OR push_bit (k mod LENGTH('a)) 1)) =
      Some v' \<and> bv_set v' = insert k (bv_set v) \<and> bv_cap v' = bv_cap v"
    using l bv_set_or(1) [OF assms] by (simp add: nth_opt_def upd_opt_def bv_cap_def)
  show "Option.bind (nth_opt v (k div LENGTH('a))) (\<lambda>w. Some (if w AND push_bit (k mod LENGTH('a)) 1 \<noteq> 0 then 1 else 0)) =
      Some (if k \<in> bv_set v then 1 else 0 :: u8)"
    unfolding and_bit using l by (simp add: nth_opt_def bv_set_def)
qed

interpretation words: bit_array bv_set bv_cap setBit isBitSet
proof
  fix k and v :: "u32 list" assume k: "k < bv_cap v"
  show "\<exists>v'. setBit v k = Some v' \<and> bv_set v' = insert k (bv_set v) \<and> bv_cap v' = bv_cap v"
    using bv_laws(1) [OF k] unfolding setBit_def by simp
  show "isBitSet v k = Some (if k \<in> bv_set v then 1 else 0)"
    using bv_laws(2) [OF k] unfolding isBitSet_def and_bit by simp
qed

interpretation octets: bit_array bv_set bv_cap setBit1Byte isBitSet1Byte
proof
  fix k and v :: "u8 list" assume k: "k < bv_cap v"
  show "\<exists>v'. setBit1Byte v k = Some v' \<and> bv_set v' = insert k (bv_set v) \<and> bv_cap v' = bv_cap v"
    using bv_laws(1) [OF k] unfolding setBit1Byte_def by simp
  show "isBitSet1Byte v k = Some (if k \<in> bv_set v then 1 else 0)"
    using bv_laws(2) [OF k] unfolding isBitSet1Byte_def and_bit by simp
qed

lemma clearBit_set: "k < bv_cap v \<Longrightarrow> \<exists>v'. clearBit v k = Some v' \<and> bv_set v' = bv_set v - {k} \<and> bv_cap v' = bv_cap v"
  using bv_set_or(2) [of k v] by (simp add: clearBit_def bv_cap_def nth_opt_def upd_opt_def div_less_iff_less_mult)

lemma resetBitVector_set:
  assumes "length v = unat n"
  shows "\<exists>v'. resetBitVector v n = Some v' \<and> bv_set v' = {} \<and> bv_cap v' = bv_cap v"
  using assms by (auto simp: resetBitVector_def put_opt_def put_at_def bv_set_def bv_cap_def)

subsection \<open>The first missing packet\<close>

lemma missing_loop_spec:
  assumes "last_packet + 1 < int (bv_cap v)" "int pos \<le> last_packet + 1"
  shows "\<exists>p. missing_loop v last_packet pos = Some p \<and> pos \<le> p \<and> int p \<le> last_packet + 1 \<and> {pos ..< p} \<subseteq> bv_set v \<and>
    (int p \<le> last_packet \<longrightarrow> p \<notin> bv_set v)"
  using assms(2)
proof (induction "nat (last_packet + 1 - int pos)" arbitrary: pos)
  case 0
  then have e: "int pos = last_packet + 1" by simp
  then have "pos < bv_cap v" using assms(1) by simp
  then show ?case using e by (subst missing_loop.simps) (simp add: words.test_law)
next
  case (Suc n)
  then have l: "int pos \<le> last_packet" "pos < bv_cap v" using assms(1) by simp_all
  show ?case
  proof (cases "pos \<in> bv_set v")
    case True
    have n: "n = nat (last_packet + 1 - int (pos + 1))" "int (pos + 1) \<le> last_packet + 1" using Suc.hyps(2) l(1) by linarith+
    obtain p where p: "missing_loop v last_packet (pos + 1) = Some p" "pos + 1 \<le> p" "int p \<le> last_packet + 1"
      "{pos + 1 ..< p} \<subseteq> bv_set v" "int p \<le> last_packet \<longrightarrow> p \<notin> bv_set v"
      using Suc.hyps(1) [OF n] by blast
    have "{pos ..< p} = insert pos {pos + 1 ..< p}" using p(2) by auto
    moreover have "missing_loop v last_packet pos = Some p"
      using True l p(1) by (subst missing_loop.simps) (simp add: words.test_law)
    ultimately show ?thesis using p True by auto
  next
    case False
    then show ?thesis using l by (subst missing_loop.simps) (simp add: words.test_law)
  qed
qed

lemma getMissingPacket_spec:
  assumes "0 \<le> last_packet" "last_packet + 1 < int (bv_cap v)"
  shows "getMissingPacket v last_packet =
    Some (if {1 .. nat last_packet} \<subseteq> bv_set v then - 1 else int (LEAST k. 1 \<le> k \<and> k \<notin> bv_set v))"
proof -
  obtain p where p: "missing_loop v last_packet 1 = Some p" "1 \<le> p" "int p \<le> last_packet + 1" "{1 ..< p} \<subseteq> bv_set v"
    "int p \<le> last_packet \<longrightarrow> p \<notin> bv_set v"
    using missing_loop_spec [OF assms(2), of 1] assms(1) by auto
  show ?thesis
  proof (cases "int p \<le> last_packet")
    case True
    then have "(LEAST k. 1 \<le> k \<and> k \<notin> bv_set v) = p" using p by (intro Least_equality) (auto simp: subset_iff not_le[symmetric])
    moreover have "\<not> {1 .. nat last_packet} \<subseteq> bv_set v" using True p by (auto simp: subset_iff)
    ultimately show ?thesis using True p(1) by (simp add: getMissingPacket_def)
  next
    case False
    then have "p = Suc (nat last_packet)" using p(3) assms(1) by linarith
    then have "{1 .. nat last_packet} \<subseteq> bv_set v" using p(4) by auto
    then show ?thesis using False p(1) by (simp add: getMissingPacket_def)
  qed
qed

text \<open>
  The retransmission request asks for the right packet: as long as the packet numbers up to one past the last
  fit the bit vector, \<open>getMissingPacket\<close> makes no access outside it, returns -1 exactly when the packets
  1 to \<open>last_packet\<close> are all recorded as received, and otherwise the smallest one that is not.
\<close>

theorem getMissingPacket_correct:
  assumes "0 \<le> last_packet" "last_packet + 1 < int (bv_cap v)"
  shows "getMissingPacket v last_packet =
    Some (if {1 .. nat last_packet} \<subseteq> bv_set v then - 1 else int (LEAST k. 1 \<le> k \<and> k \<notin> bv_set v))"
  by (rule getMissingPacket_spec [OF assms])

theorem getMissingPacket_correct_witness:
  "getMissingPacket [0b10110, 0, 0, 0, 0] 156 = Some (int (LEAST k. 1 \<le> k \<and> k \<notin> bv_set [0b10110, 0, 0, 0, 0 :: u32]))"
proof -
  have c: "bv_cap [0b10110, 0, 0, 0, 0 :: u32] = 160" by (simp add: bv_cap_def)
  have "3 \<notin> bv_set [0b10110, 0, 0, 0, 0 :: u32]" by (simp add: bv_set_def bit_numeral_rec)
  then have "\<not> {1 .. nat 156} \<subseteq> bv_set [0b10110, 0, 0, 0, 0 :: u32]" by (auto simp: subset_iff intro!: exI [of _ 3])
  then show ?thesis using getMissingPacket_correct [of 156 "[0b10110, 0, 0, 0, 0]"] by (simp add: c)
qed

text \<open>A last packet that fills the vector makes the search read the word after it when nothing is missing.\<close>

lemma getMissingPacket_reads_past_end:
  "getMissingPacket [0xffffffff] 31 = None"
proof -
  have "bv_set [0xffffffff :: u32] = {..< 32}"
    by (auto simp: bv_set_def mask_eq_exp_minus_1 [of 32, where ?'a = u32, simplified, symmetric] bit_mask_iff div_eq_0_iff)
  then have t: "isBitSet [0xffffffff] k = Some 1" if "k < 32" for k
    using words.test_law [of k "[0xffffffff]"] that by (simp add: bv_cap_def)
  have "missing_loop [0xffffffff] 31 k = None" if "k \<le> 32" for k
    using that
  proof (induction "32 - k" arbitrary: k)
    case 0
    then show ?case by (subst missing_loop.simps) (simp add: isBitSet_def nth_opt_def)
  next
    case (Suc n)
    then have "missing_loop [0xffffffff] 31 (k + 1) = None" by simp
    then show ?case using Suc.hyps(2) by (subst missing_loop.simps) (simp add: t)
  qed
  then show ?thesis by (simp add: getMissingPacket_def)
qed

subsection \<open>Flash memory\<close>

definition RW :: u8 where "RW = CFS_WRITE + CFS_READ"

lemma RW_flags [simp]: "RW AND CFS_READ \<noteq> 0" "RW AND CFS_WRITE \<noteq> 0" "RW AND CFS_APPEND = 0"
  by (simp_all add: RW_def CFS_WRITE_def CFS_READ_def CFS_APPEND_def)

text \<open>The file of the schedule: open for reading and writing, or closed in both views.\<close>

definition flash_wf :: "'a flash_state_scheme \<Rightarrow> bool" where
  "flash_wf s \<longleftrightarrow> cfs_wf s \<and> fs_open s = f_open s \<and> (f_open s \<longrightarrow> f_access s = RW)"

lemma open_file_ok:
  assumes "flash_wf s"
  shows "\<exists>s'. open_file (CFS_WRITE + CFS_READ) s = (True, s') \<and> flash_wf s' \<and> fs_open s' \<and> simCFSData s' = simCFSData s \<and>
    bytes_in_flash s' = bytes_in_flash s \<and> schedule_loading s' = schedule_loading s \<and>
    (if fs_open s then s' = s else f_fileptr s' = 0 \<and> f_endptr s' = 0)"
  using assms unfolding RW_def [symmetric]
  by (auto simp: open_file_def cfs_open_def flash_wf_def cfs_wf_def Let_def)

lemma flash_modes: "flash_wf s \<Longrightarrow> fs_open s \<Longrightarrow> readable s \<and> writable s"
  by (auto simp: flash_wf_def readable_def writable_def)

text \<open>The operations of the file system leave the rest of the state alone.\<close>

lemma cfs_more:
  "cfs_seek off w s = (r, s') \<Longrightarrow> cfs_state.more s' = cfs_state.more s"
  "cfs_write buf len s = Some (r, s') \<Longrightarrow> cfs_state.more s' = cfs_state.more s"
  "cfs_read len s = Some (r, bs, s') \<Longrightarrow> cfs_state.more s' = cfs_state.more s"
  by (auto simp: cfs_seek_def cfs_write_def cfs_read_def Let_def bind_eq_Some_conv split: if_splits)

lemma flash_more: "cfs_state.more s' = cfs_state.more (s :: 'a flash_state_scheme) \<Longrightarrow>
    fs_open s' = fs_open s \<and> bytes_in_flash s' = bytes_in_flash s \<and> schedule_loading s' = schedule_loading s"
  by (cases s; cases s') simp

lemma open_and_seek:
  assumes "flash_wf s" "0 \<le> off" "off \<le> int CFS_BUF_SIZE"
  obtains s1 s2 where "open_file (CFS_WRITE + CFS_READ) s = (True, s1)" "cfs_seek off CFS_SEEK_SET s1 = (off, s2)" "flash_wf s2" "fs_open s2"
    "f_fileptr s2 = off" "simCFSData s2 = simCFSData s" "bytes_in_flash s2 = bytes_in_flash s" "schedule_loading s2 = schedule_loading s"
    "f_endptr s2 = max (if fs_open s then f_endptr s else 0) off"
proof -
  obtain s1 where s1: "open_file (CFS_WRITE + CFS_READ) s = (True, s1)" "flash_wf s1" "fs_open s1" "simCFSData s1 = simCFSData s"
      "bytes_in_flash s1 = bytes_in_flash s" "schedule_loading s1 = schedule_loading s" "if fs_open s then s1 = s else f_fileptr s1 = 0 \<and> f_endptr s1 = 0"
    using open_file_ok [OF assms(1)] by blast
  have o: "cfs_wf s1" "f_open s1" "f_access s1 = RW" using s1(2,3) by (auto simp: flash_wf_def)
  then obtain s2 where s2: "cfs_seek off CFS_SEEK_SET s1 = (off, s2)" "cfs_wf s2" "f_open s2" "f_access s2 = RW" "f_fileptr s2 = off"
      "simCFSData s2 = simCFSData s" "f_endptr s2 = max (f_endptr s1) off"
    using cfs_seek_ok [OF o(1,2) assms(2,3)] s1(4) o(3) by auto
  note m = flash_more [OF cfs_more(1) [OF s2(1)]]
  have e: "f_endptr s1 = (if fs_open s then f_endptr s else 0)" using s1(7) by (auto split: if_splits)
  show thesis by (rule that [OF s1(1) s2(1)]) (use s1 s2 m e in \<open>auto simp: flash_wf_def\<close>)
qed

lemma write_offset_ok:
  assumes "flash_wf s" "0 \<le> off" "off + uint len \<le> int CFS_BUF_SIZE" "unat len \<le> length data"
  shows "\<exists>s'. write_to_flash_offset data off len s = Some (1, s') \<and> flash_wf s' \<and> fs_open s' \<and>
    simCFSData s' = put_at (simCFSData s) (nat off) (take (unat len) data) \<and> off + uint len \<le> f_endptr s' \<and>
    (fs_open s \<longrightarrow> f_endptr s \<le> f_endptr s') \<and> bytes_in_flash s' = bytes_in_flash s + uint len"
proof -
  have l: "off \<le> int CFS_BUF_SIZE" using assms(3) uint_ge_0 [of len] by linarith
  obtain s1 s2 where s: "open_file (CFS_WRITE + CFS_READ) s = (True, s1)" "cfs_seek off CFS_SEEK_SET s1 = (off, s2)" "flash_wf s2" "fs_open s2"
    "f_fileptr s2 = off" "simCFSData s2 = simCFSData s" "bytes_in_flash s2 = bytes_in_flash s"
    "f_endptr s2 = max (if fs_open s then f_endptr s else 0) off"
    by (rule open_and_seek [OF assms(1,2) l])
  have w: "writable s2" using flash_modes s(3,4) by blast
  have f: "f_fileptr s2 + int (unat len) \<le> int CFS_BUF_SIZE" using assms(3) s(5) by simp
  obtain s3 where s3: "cfs_write data (unat len) s2 = Some (int (unat len), s3)" "writable s3" "f_access s3 = f_access s2"
      "f_endptr s3 = max (f_endptr s2) (off + int (unat len))" "simCFSData s3 = put_at (simCFSData s) (nat off) (take (unat len) data)"
    using cfs_write_ok [OF w f assms(4)] s(5,6) by auto
  note m = flash_more [OF cfs_more(2) [OF s3(1)]]
  show ?thesis unfolding write_to_flash_offset_def s(1) prod.case bool.case s(2)
    using s3 m s uint_ge_0 [of len] by (auto simp: flash_wf_def writable_def cfs_wf_def max_def intro: order_trans)
qed

lemma read_flash_ok:
  assumes "flash_wf s" "fs_open s" "0 \<le> off" "off + uint len \<le> f_endptr s" "unat len \<le> length buf"
  shows "\<exists>s'. read_flash buf off len s = Some (len, put_at buf 0 (take (unat len) (drop (nat off) (simCFSData s))), s') \<and>
    flash_wf s' \<and> fs_open s' \<and> simCFSData s' = simCFSData s \<and> f_endptr s' = f_endptr s"
proof -
  have e: "f_endptr s \<le> int CFS_BUF_SIZE" using assms(1,2) by (auto simp: flash_wf_def cfs_wf_def)
  then have l: "off \<le> int CFS_BUF_SIZE" "off \<le> f_endptr s" using assms(4) uint_ge_0 [of len] by linarith+
  obtain s1 s2 where s: "open_file (CFS_WRITE + CFS_READ) s = (True, s1)" "cfs_seek off CFS_SEEK_SET s1 = (off, s2)" "flash_wf s2" "fs_open s2"
    "f_fileptr s2 = off" "simCFSData s2 = simCFSData s" "f_endptr s2 = max (if fs_open s then f_endptr s else 0) off"
    by (rule open_and_seek [OF assms(1,3) l(1)])
  have r: "readable s2" using flash_modes s(3,4) by blast
  have fr: "file_rest s2 = drop (nat off) (take (nat (f_endptr s)) (simCFSData s))"
    using s assms(2) l(2) by (simp add: file_rest_def file_content_def max_def)
  have d: "length (simCFSData s) = CFS_BUF_SIZE" using assms(1) by (simp add: flash_wf_def cfs_wf_def)
  have "int (nat off + unat len) \<le> f_endptr s" using assms(3,4) by simp
  then have k: "nat off + unat len \<le> nat (f_endptr s)" by linarith
  then have "length (file_rest s2) \<ge> unat len" using e d by (simp add: fr)
  moreover have "take (unat len) (file_rest s2) = take (unat len) (drop (nat off) (simCFSData s))"
    unfolding fr using k by (simp add: drop_take min_absorb1)
  ultimately obtain s3 where s3: "cfs_read (unat len) s2 = Some (int (unat len), take (unat len) (drop (nat off) (simCFSData s)), s3)" "readable s3"
    using cfs.read_law [OF r, of "unat len"] by auto
  have c: "f_endptr s3 = f_endptr s2" "simCFSData s3 = simCFSData s2" "f_access s3 = f_access s2"
    using s3(1) by (auto simp: cfs_read_def Let_def bind_eq_Some_conv split: if_splits)
  note m = flash_more [OF cfs_more(3) [OF s3(1)]]
  show ?thesis unfolding read_flash_def s(1) prod.case bool.case s(2)
    using s3 m s c l(2) assms(2,5) d by (auto simp: flash_wf_def readable_def max_def put_opt_def)
qed

text \<open>
  Schedule packets stored in flash are read back: a write at any offset within the flash succeeds, keeps
  the bytes outside its range, adds its length to the number of bytes in flash, and a following
  read of the same range returns exactly the data that was written.
\<close>

theorem flash_write_read_roundtrip:
  assumes "flash_wf s" "0 \<le> off" "off + uint len \<le> int CFS_BUF_SIZE" "unat len \<le> length data" "unat len \<le> length buf"
  shows "\<exists>s1 s2. write_to_flash_offset data off len s = Some (1, s1) \<and>
    read_flash buf off len s1 = Some (len, put_at buf 0 (take (unat len) data), s2) \<and>
    simCFSData s2 = put_at (simCFSData s) (nat off) (take (unat len) data) \<and>
    bytes_in_flash s1 = bytes_in_flash s + uint len \<and> flash_wf s2"
proof -
  obtain s1 where s1: "write_to_flash_offset data off len s = Some (1, s1)" "flash_wf s1" "fs_open s1"
    "simCFSData s1 = put_at (simCFSData s) (nat off) (take (unat len) data)" "off + uint len \<le> f_endptr s1"
    "bytes_in_flash s1 = bytes_in_flash s + uint len"
    using write_offset_ok [OF assms(1-4)] by blast
  obtain s2 where s2: "read_flash buf off len s1 = Some (len, put_at buf 0 (take (unat len) (drop (nat off) (simCFSData s1))), s2)"
    "flash_wf s2" "simCFSData s2 = simCFSData s1"
    using read_flash_ok [OF s1(2,3) assms(2) s1(5) assms(5)] by blast
  have "length (simCFSData s) = CFS_BUF_SIZE" using assms(1) by (simp add: flash_wf_def cfs_wf_def)
  moreover have "int (nat off + unat len) \<le> int CFS_BUF_SIZE" using assms(2,3) by simp
  then have "nat off + unat len \<le> CFS_BUF_SIZE" by linarith
  ultimately have "take (unat len) (drop (nat off) (simCFSData s1)) = take (unat len) data"
    using assms(4) slice_put_at [of "nat off" "take (unat len) data" "simCFSData s"] unfolding s1(4) by simp
  then show ?thesis using s1 s2 by auto
qed

definition flash_boot :: flash_state where
  "flash_boot = \<lparr> f_open = False, f_access = 0, f_fileptr = 0, f_endptr = 0, simCFSData = replicate CFS_BUF_SIZE 0, simCFSSize = 0,
     simCFSChanged = False, simCFSRead = 0, simCFSWritten = 0, fs_fd = 0, bytes_in_flash = 0, fs_open = False, schedule_loading = True,
     schedule = \<lparr> own_transmission_flow = 0, own_receiver = 0, flow_forwards = replicate 8 0, max_transmission = replicate 8 0,
       links_len = 0, link_mem = replicate (4 * TSCH_SCHEDULE_MAX_LINKS) 0 \<rparr>,
     schedule_config = \<lparr> schedule_length = 0, slot_frames = 0, sender_of_flow = replicate 8 0, receiver_of_flow = replicate 8 0,
       first_tx_slot_in_flow = replicate 8 0, last_tx_slot_in_flow = replicate 8 0, last_received_relayed_packet_of_flow = replicate 8 0 \<rparr> \<rparr>"

lemma flash_boot_wf [simp]: "flash_wf flash_boot"
  by (simp add: flash_boot_def flash_wf_def cfs_wf_def)

theorem flash_write_read_roundtrip_witness:
  "\<exists>s1 s2. write_to_flash_offset [1, 2, 3, 4] 59 3 flash_boot = Some (1, s1) \<and>
    read_flash [0, 0, 0, 9] 59 3 s1 = Some (3, [1, 2, 3, 9], s2)"
  using flash_write_read_roundtrip [of flash_boot 59 3 "[1, 2, 3, 4]" "[0, 0, 0, 9]"] by (auto simp: put_at_def)

text \<open>
  On the simulated platform a closed schedule file cannot be read again: opening it for reading and writing
  truncates it, so every later \<open>read_flash\<close> of at least one byte fails with 255, whatever had been written.
  \<open>read_from_flash_by_id\<close> closes the file, so a node that has parsed its schedule can no longer answer
  retransmission requests from flash.
\<close>

theorem read_flash_after_close_fails:
  assumes "flash_wf s" "\<not> fs_open s" "0 \<le> off" "off \<le> int CFS_BUF_SIZE" "len \<noteq> 0"
  shows "\<exists>s'. read_flash buf off len s = Some (255, buf, s') \<and> \<not> fs_open s'"
proof -
  obtain s1 s2 where s: "open_file (CFS_WRITE + CFS_READ) s = (True, s1)" "cfs_seek off CFS_SEEK_SET s1 = (off, s2)" "flash_wf s2" "fs_open s2"
    "f_fileptr s2 = off" "f_endptr s2 = max (if fs_open s then f_endptr s else 0) off"
    by (rule open_and_seek [OF assms(1,3,4)])
  have r: "readable s2" using flash_modes s(3,4) by blast
  have "file_rest s2 = []" using s(5,6) assms(2,3) by (simp add: file_rest_def file_content_def)
  then obtain s3 where s3: "cfs_read (unat len) s2 = Some (0, [], s3)" using cfs.read_empty [OF r] by metis
  have "uint len \<noteq> 0" using assms(5) by (simp add: uint_0_iff)
  then show ?thesis unfolding read_flash_def s(1) prod.case bool.case s(2)
    using s3 by (auto simp: put_opt_def put_at_def close_file_def cfs_close_def)
qed

theorem read_flash_after_close_fails_witness:
  "\<exists>s'. read_flash [7] 0 1 flash_boot = Some (255, [7], s')"
proof -
  have "\<not> fs_open flash_boot" by (simp add: flash_boot_def)
  then show ?thesis using read_flash_after_close_fails [of flash_boot 0 1 "[7]"] by auto
qed

end
