(* ===== verification/SerialLine.thy ===== *)
theory SerialLine
  imports ProcessProps RingBufIndex
begin

text \<open>
  The serial line (\<open>os/dev/serial-line.c\<close>) with its ring buffer (\<open>os/lib/ringbuf.c\<close>): the interrupt puts received
  bytes into the ring buffer, and a process collects them into lines and announces each line to all processes. The theory shows that the ring
  buffer is a bounded queue and that every line that arrives is announced once and in order, whatever the interleaving of bytes and rounds of
  the kernel.
\<close>

subsection \<open>The ring buffer\<close>

record ringbuf =
  rbf_data :: "u8 list"
  rbf_mask :: u8
  rbf_put_ptr :: u8
  rbf_get_ptr :: u8

definition ringbuf_init :: "u8 list \<Rightarrow> u8 \<Rightarrow> ringbuf" where
  "ringbuf_init dataptr sz = \<lparr> rbf_data = dataptr, rbf_mask = sz - 1, rbf_put_ptr = 0, rbf_get_ptr = 0 \<rparr>"

definition ringbuf_put :: "ringbuf \<Rightarrow> u8 \<Rightarrow> (int \<times> ringbuf) option" where
  "ringbuf_put r c =
     (if (uint (rbf_put_ptr r) - uint (rbf_get_ptr r)) AND uint (rbf_mask r) = uint (rbf_mask r) then Some (0, r)
      else do {
        d \<leftarrow> upd_opt (rbf_data r) (unat (rbf_put_ptr r)) c;
        Some (1, r\<lparr> rbf_data := d, rbf_put_ptr := word_of_int ((uint (rbf_put_ptr r) + 1) AND uint (rbf_mask r)) \<rparr>)
      })"

definition ringbuf_get :: "ringbuf \<Rightarrow> (int \<times> ringbuf) option" where
  "ringbuf_get r =
     (if (uint (rbf_put_ptr r) - uint (rbf_get_ptr r)) AND uint (rbf_mask r) > 0 then do {
        c \<leftarrow> nth_opt (rbf_data r) (unat (rbf_get_ptr r));
        Some (uint c, r\<lparr> rbf_get_ptr := word_of_int ((uint (rbf_get_ptr r) + 1) AND uint (rbf_mask r)) \<rparr>)
      }
      else Some (- 1, r))"

definition ringbuf_size :: "ringbuf \<Rightarrow> int" where
  "ringbuf_size r = uint (rbf_mask r) + 1"

definition ringbuf_elements :: "ringbuf \<Rightarrow> int" where
  "ringbuf_elements r = (uint (rbf_put_ptr r) - uint (rbf_get_ptr r)) AND uint (rbf_mask r)"

subsection \<open>The serial line\<close>

datatype serial_point = SL_BEGIN | SL_YIELD | SL_CONTINUE

text \<open>\<open>sl_address\<close> and \<open>sl_buf_address\<close> are the addresses of the process and of its line buffer.\<close>

record serial_state = kernel +
  rxbuf :: ringbuf
  overflow :: bool
  sl_point :: serial_point
  sl_buf :: "u8 list"
  sl_ptr :: nat
  serial_line_event_message :: process_event_t
  sl_address :: nat
  sl_buf_address :: nat

definition SERIAL_BUFSIZE :: nat where [simp]: "SERIAL_BUFSIZE = 128"
definition SERIAL_END :: u8 where [simp]: "SERIAL_END = 0x0a"
definition IGNORE_CHAR :: "u8 \<Rightarrow> bool" where [simp]: "IGNORE_CHAR c \<longleftrightarrow> c = 0x0d"
definition PROCESS_EVENT_CONTINUE :: u8 where [simp]: "PROCESS_EVENT_CONTINUE = 0x85"

definition serial_line_input_byte :: "u8 \<Rightarrow> 'k serial_state_scheme \<Rightarrow> (int \<times> 'k serial_state_scheme) option" where
  "serial_line_input_byte c k =
     (if IGNORE_CHAR c then Some (0, k)
      else do {
        k \<leftarrow> (if \<not> overflow k then do {
                (r, b) \<leftarrow> ringbuf_put (rxbuf k) c;
                Some (k\<lparr> rxbuf := b, overflow := (r = 0) \<rparr>)
              }
              else if c = SERIAL_END then do {
                (r, b) \<leftarrow> ringbuf_put (rxbuf k) c;
                Some (k\<lparr> rxbuf := b, overflow := (r = 0) \<rparr>)
              }
              else Some k);
        Some (1, process_poll (Some (sl_address k)) k)
      })"

text \<open>The loop of the process, up to the point at which it waits.\<close>

partial_function (option) serial_line_loop :: "'k serial_state_scheme \<Rightarrow> 'k serial_state_scheme option" where
  "serial_line_loop k = do {
     (c, b) \<leftarrow> ringbuf_get (rxbuf k);
     let k = k\<lparr> rxbuf := b \<rparr>;
     if c = - 1 then Some (k\<lparr> sl_point := SL_YIELD \<rparr>)
     else if c \<noteq> uint SERIAL_END then
       (if sl_ptr k < SERIAL_BUFSIZE - 1 then do {
          buf \<leftarrow> upd_opt (sl_buf k) (sl_ptr k) (word_of_int c);
          serial_line_loop (k\<lparr> sl_buf := buf, sl_ptr := sl_ptr k + 1 \<rparr>)
        }
        else serial_line_loop k)
     else do {
       buf \<leftarrow> upd_opt (sl_buf k) (sl_ptr k) 0;
       let k = k\<lparr> sl_buf := buf, sl_ptr := sl_ptr k + 1 \<rparr>;
       (_, k) \<leftarrow> process_post None (serial_line_event_message k) (Some (sl_buf_address k)) k;
       (r, k) \<leftarrow> process_post (process_current k) PROCESS_EVENT_CONTINUE None k;
       if r = PROCESS_ERR_OK then Some (k\<lparr> sl_point := SL_CONTINUE \<rparr>) else serial_line_loop (k\<lparr> sl_ptr := 0 \<rparr>)
     }
   }"

definition serial_line_process :: "process_event_t \<Rightarrow> 'k serial_state_scheme \<Rightarrow> 'k serial_state_scheme option" where
  "serial_line_process ev k =
     (case sl_point k of
        SL_BEGIN \<Rightarrow> (let (e, k) = process_alloc_event k in serial_line_loop (k\<lparr> serial_line_event_message := e, sl_ptr := 0 \<rparr>))
      | SL_YIELD \<Rightarrow> serial_line_loop k
      | SL_CONTINUE \<Rightarrow> if ev = PROCESS_EVENT_CONTINUE then serial_line_loop (k\<lparr> sl_ptr := 0 \<rparr>) else Some k)"

definition serial_line_init :: "nat \<Rightarrow> 'k serial_state_scheme thread \<Rightarrow> nat set \<Rightarrow> 'k serial_state_scheme \<Rightarrow> 'k serial_state_scheme option" where
  "serial_line_init fuel thread has k =
     process_start fuel thread has (sl_address k) None (k\<lparr> rxbuf := ringbuf_init (rbf_data (rxbuf k)) (word_of_nat SERIAL_BUFSIZE) \<rparr>)"

subsection \<open>The ring buffer is a bounded queue\<close>

definition rbf_index :: "ringbuf \<Rightarrow> ringbufindex" where
  "rbf_index r = \<lparr> rb_mask = rbf_mask r, rb_put_ptr = rbf_put_ptr r, rb_get_ptr = rbf_get_ptr r \<rparr>"

definition rbf_wf :: "ringbuf \<Rightarrow> bool" where
  "rbf_wf r \<longleftrightarrow> ring_wf (rbf_index r) \<and> length (rbf_data r) = Suc (ring_cap (rbf_index r))"

definition rbf_cap :: "ringbuf \<Rightarrow> nat" where
  "rbf_cap r = ring_cap (rbf_index r)"

definition rbf_contents :: "ringbuf \<Rightarrow> u8 list" where
  "rbf_contents r = rb.contents (rbf_index r) (rbf_data r)"

lemma rbf_contents_len: "rbf_wf r \<Longrightarrow> length (rbf_contents r) \<le> rbf_cap r"
  using rb.slots_len [of "rbf_index r"] by (simp add: rbf_wf_def rbf_contents_def rb.contents_def rbf_cap_def)

lemma uint_not_minus1: "uint (w :: u8) \<noteq> - 1"
  using uint_ge_0 [of w] by linarith

lemma ringbuf_put_ok:
  assumes w: "rbf_wf r"
  shows "if length (rbf_contents r) = rbf_cap r then ringbuf_put r c = Some (0, r)
    else \<exists>r'. ringbuf_put r c = Some (1, r') \<and> rbf_wf r' \<and> rbf_cap r' = rbf_cap r \<and> rbf_contents r' = rbf_contents r @ [c]"
proof -
  let ?i = "rbf_index r"
  have i: "ring_wf ?i" "length (rbf_data r) = Suc (ring_cap ?i)" using w by (simp_all add: rbf_wf_def)
  have full: "ringbufindex_peek_put ?i = - 1 \<longleftrightarrow> length (rbf_contents r) = rbf_cap r"
    using rb.peek_put_full_iff [OF i(1)] by (simp add: rbf_contents_def rb.contents_def rbf_cap_def)
  show ?thesis
  proof (cases "length (rbf_contents r) = rbf_cap r")
    case True
    then have "ringbufindex_peek_put ?i = - 1" using full by simp
    then have "(uint (rbf_put_ptr r) - uint (rbf_get_ptr r)) AND uint (rbf_mask r) = uint (rbf_mask r)"
      using uint_not_minus1 [of "rbf_put_ptr r"] by (auto simp: ringbufindex_peek_put_def rbf_index_def split: if_splits)
    then show ?thesis using True by (simp add: ringbuf_put_def)
  next
    case False
    then have n: "\<not> (uint (rbf_put_ptr r) - uint (rbf_get_ptr r)) AND uint (rbf_mask r) = uint (rbf_mask r)"
      using full uint_not_minus1 by (auto simp: ringbufindex_peek_put_def rbf_index_def)
    have l: "length (ring_slots ?i) < ring_cap ?i" using False rb.slots_len [OF i(1)] by (simp add: rbf_contents_def rb.contents_def rbf_cap_def)
    have p: "unat (rbf_put_ptr r) < length (rbf_data r)" using ring_ptrs [OF i(1)] i(2) by (simp add: rbf_index_def)
    define r' where "r' = r\<lparr> rbf_data := (rbf_data r)[unat (rbf_put_ptr r) := c], rbf_put_ptr := word_of_int ((uint (rbf_put_ptr r) + 1) AND uint (rbf_mask r)) \<rparr>"
    have "ringbuf_put r c = Some (1, r')" using n p by (simp add: ringbuf_put_def upd_opt_def r'_def)
    moreover have e: "rbf_index r' = snd (ringbufindex_put ?i)" using n by (simp add: rbf_index_def r'_def ringbufindex_put_def)
    moreover have "ringbufindex_peek_put ?i = uint (rbf_put_ptr r)" using n by (simp add: ringbufindex_peek_put_def rbf_index_def)
    then have "rbf_contents r' = rbf_contents r @ [c]"
      using rb.contents_store [OF i(1) l i(2), of c] e by (simp add: rbf_contents_def r'_def)
    moreover have "rbf_wf r' \<and> rbf_cap r' = rbf_cap r" using rb.put_invar [OF i(1)] e i(2) by (simp add: rbf_wf_def rbf_cap_def) (simp add: r'_def)
    ultimately show ?thesis using False by simp
  qed
qed

lemma ringbuf_get_ok:
  assumes w: "rbf_wf r"
  shows "case rbf_contents r of [] \<Rightarrow> ringbuf_get r = Some (- 1, r)
    | c # cs \<Rightarrow> \<exists>r'. ringbuf_get r = Some (uint c, r') \<and> rbf_wf r' \<and> rbf_cap r' = rbf_cap r \<and> rbf_contents r' = cs"
proof -
  let ?i = "rbf_index r"
  have i: "ring_wf ?i" "length (rbf_data r) = Suc (ring_cap ?i)" using w by (simp_all add: rbf_wf_def)
  have e: "ringbufindex_peek_get ?i = - 1 \<longleftrightarrow> rbf_contents r = []"
    using rb.peek_get_empty_iff [OF i(1)] by (simp add: rbf_contents_def rb.contents_def)
  show ?thesis
  proof (cases "rbf_contents r")
    case Nil
    then have "\<not> (uint (rbf_put_ptr r) - uint (rbf_get_ptr r)) AND uint (rbf_mask r) > 0"
      using e uint_not_minus1 by (auto simp: ringbufindex_peek_get_def rbf_index_def split: if_splits)
    then show ?thesis using Nil by (simp add: ringbuf_get_def)
  next
    case (Cons c cs)
    then have n: "(uint (rbf_put_ptr r) - uint (rbf_get_ptr r)) AND uint (rbf_mask r) > 0"
      using e by (auto simp: ringbufindex_peek_get_def rbf_index_def split: if_splits)
    then have g: "ringbufindex_peek_get ?i = uint (rbf_get_ptr r)" by (simp add: ringbufindex_peek_get_def rbf_index_def)
    note f = rb.contents_fetch [OF i(1) Cons [unfolded rbf_contents_def]]
    define r' where "r' = r\<lparr> rbf_get_ptr := word_of_int ((uint (rbf_get_ptr r) + 1) AND uint (rbf_mask r)) \<rparr>"
    have x: "rbf_index r' = snd (ringbufindex_get ?i)" using n by (simp add: rbf_index_def r'_def ringbufindex_get_def)
    have p: "unat (rbf_get_ptr r) < length (rbf_data r)" using ring_ptrs [OF i(1)] i(2) by (simp add: rbf_index_def)
    have "ringbuf_get r = Some (uint c, r')" using n p f(1) g by (simp add: ringbuf_get_def nth_opt_def r'_def)
    moreover have "rbf_wf r' \<and> rbf_cap r' = rbf_cap r" using f(5,6) x i(2) by (simp add: rbf_wf_def rbf_cap_def) (simp add: r'_def)
    moreover have "rbf_contents r' = cs" using f(4) x by (simp add: rbf_contents_def) (simp add: r'_def)
    ultimately show ?thesis using Cons by simp
  qed
qed

subsection \<open>Collecting a line\<close>

definition sl_wf :: "'k serial_state_scheme \<Rightarrow> bool" where
  "sl_wf k \<longleftrightarrow> kq_wf k \<and> rbf_wf (rxbuf k) \<and> rbf_cap (rxbuf k) = 127 \<and> length (sl_buf k) = 128 \<and> sl_ptr k \<le> 128"

abbreviation sl_pending :: "'k serial_state_scheme \<Rightarrow> u8 list" where
  "sl_pending k \<equiv> rbf_contents (rxbuf k)"

definition sl_line :: "'k serial_state_scheme \<Rightarrow> u8 list" where
  "sl_line k = take (sl_ptr k) (sl_buf k)"

definition line_events :: "'k serial_state_scheme \<Rightarrow> event_data list" where
  "line_events k = [\<lparr> ev_ev = serial_line_event_message k, ev_data = Some (sl_buf_address k), ev_p = None \<rparr>,
     \<lparr> ev_ev = PROCESS_EVENT_CONTINUE, ev_data = None, ev_p = process_current k \<rparr>]"

lemma sl_post:
  fixes k :: "'k serial_state_scheme"
  assumes "kq_wf k" "length (queued k) < 32"
  shows "\<exists>k'. process_post p ev data k = Some (PROCESS_ERR_OK, k') \<and> kq_wf k' \<and> queued k' = queued k @ [\<lparr> ev_ev = ev, ev_data = data, ev_p = p \<rparr>] \<and>
    rxbuf k' = rxbuf k \<and> overflow k' = overflow k \<and> sl_point k' = sl_point k \<and> sl_buf k' = sl_buf k \<and> sl_ptr k' = sl_ptr k \<and> sl_address k' = sl_address k \<and>
    serial_line_event_message k' = serial_line_event_message k \<and> sl_buf_address k' = sl_buf_address k \<and> process_current k' = process_current k"
  using post_ok [OF assms, of p ev data] by force

lemma kq_serial_simps [simp]:
  "queued (k\<lparr> rxbuf := b \<rparr>) = queued k" "queued (k\<lparr> sl_buf := d \<rparr>) = queued k" "queued (k\<lparr> sl_ptr := n \<rparr>) = queued k" "queued (k\<lparr> sl_point := pt \<rparr>) = queued k"
  "queued (k\<lparr> overflow := ov \<rparr>) = queued k"
  "kq_wf (k\<lparr> rxbuf := b \<rparr>) = kq_wf k" "kq_wf (k\<lparr> sl_buf := d \<rparr>) = kq_wf k" "kq_wf (k\<lparr> sl_ptr := n \<rparr>) = kq_wf k" "kq_wf (k\<lparr> sl_point := pt \<rparr>) = kq_wf k"
  "kq_wf (k\<lparr> overflow := ov \<rparr>) = kq_wf k"
  by (simp_all add: queued_def kq_wf_def)

lemma serial_line_loop_ok:
  fixes k :: "'k serial_state_scheme"
  assumes "sl_wf k" "sl_ptr k \<le> 127" "length (queued k) \<le> 30"
  shows "\<exists>k'. serial_line_loop k = Some k' \<and> sl_wf k' \<and> sl_pending k' = tl (dropWhile (\<lambda>c. c \<noteq> SERIAL_END) (sl_pending k)) \<and> overflow k' = overflow k \<and>
    (if SERIAL_END \<in> set (sl_pending k)
     then sl_point k' = SL_CONTINUE \<and> sl_line k' = take 127 (sl_line k @ takeWhile (\<lambda>c. c \<noteq> SERIAL_END) (sl_pending k)) @ [0] \<and> queued k' = queued k @ line_events k
     else sl_point k' = SL_YIELD \<and> sl_line k' = take 127 (sl_line k @ sl_pending k) \<and> queued k' = queued k \<and> sl_ptr k' \<le> 127)"
  using assms
proof (induction "sl_pending k" arbitrary: k)
  case Nil
  then have "ringbuf_get (rxbuf k) = Some (- 1, rxbuf k)" using ringbuf_get_ok [of "rxbuf k"] by (simp add: sl_wf_def)
  then have "serial_line_loop k = Some (k\<lparr> sl_point := SL_YIELD \<rparr>)" by (simp add: serial_line_loop.simps [of k] Let_def)
  then show ?case using Nil by (simp add: sl_wf_def sl_line_def)
next
  case (Cons c cs)
  have w: "rbf_wf (rxbuf k)" "rbf_cap (rxbuf k) = 127" "length (sl_buf k) = 128" using Cons.prems(1) by (simp_all add: sl_wf_def)
  obtain b where b: "ringbuf_get (rxbuf k) = Some (uint c, b)" "rbf_wf b" "rbf_cap b = 127" "rbf_contents b = cs"
    using ringbuf_get_ok [OF w(1)] unfolding Cons.hyps(2) [symmetric] w(2) by auto
  have pend: "sl_pending k = c # cs" using Cons.hyps(2) by simp
  show ?case
  proof (cases "c = SERIAL_END")
    case False
    define k1 where "k1 = (if sl_ptr k < 127 then k\<lparr> rxbuf := b, sl_buf := (sl_buf k)[sl_ptr k := c], sl_ptr := sl_ptr k + 1 \<rparr> else k\<lparr> rxbuf := b \<rparr>)"
    have "uint c \<noteq> - 1" "uint c \<noteq> 10" using False uint_not_minus1 [of c] by (auto simp: word_uint_eq_iff)
    then have s: "serial_line_loop k = serial_line_loop k1" using b(1) w(3) by (simp add: serial_line_loop.simps [of k] Let_def upd_opt_def k1_def)
    have line: "take 127 (sl_line k1 @ xs) = take 127 (sl_line k @ c # xs)" for xs
      using w(3) Cons.prems(2) by (simp add: k1_def sl_line_def take_Suc_conv_app_nth take_Cons')
    have k1: "sl_wf k1" "sl_ptr k1 \<le> 127" "sl_pending k1 = cs" "queued k1 = queued k" "overflow k1 = overflow k" "line_events k1 = line_events k"
      using Cons.prems b(2,3,4) by (simp_all add: sl_wf_def k1_def line_events_def)
    have "length (queued k1) \<le> 30" using Cons.prems(3) k1(4) by simp
    note ih = Cons.hyps(1) [OF k1(3) [symmetric] k1(1,2) this, unfolded k1(3-6) line]
    show ?thesis unfolding s pend using ih False by (cases "SERIAL_END \<in> set cs") (simp_all del: take_append)
  next
    case True
    have u: "uint c = 10" using True by simp
    define k1 where "k1 = k\<lparr> rxbuf := b, sl_buf := (sl_buf k)[sl_ptr k := 0], sl_ptr := sl_ptr k + 1 \<rparr>"
    have k1: "kq_wf k1" "queued k1 = queued k" using Cons.prems(1) by (simp_all add: sl_wf_def k1_def)
    obtain k2 where k2: "process_post None (serial_line_event_message k1) (Some (sl_buf_address k1)) k1 = Some (PROCESS_ERR_OK, k2)" "kq_wf k2"
        "queued k2 = queued k @ [\<lparr> ev_ev = serial_line_event_message k1, ev_data = Some (sl_buf_address k1), ev_p = None \<rparr>]"
        "rxbuf k2 = rxbuf k1" "overflow k2 = overflow k1" "sl_buf k2 = sl_buf k1" "sl_ptr k2 = sl_ptr k1" "process_current k2 = process_current k1"
      using sl_post [OF k1(1)] k1(2) Cons.prems(3) by force
    have "length (queued k2) < 32" unfolding k2(3) using Cons.prems(3) by simp
    then obtain k3 where k3: "process_post (process_current k2) PROCESS_EVENT_CONTINUE None k2 = Some (PROCESS_ERR_OK, k3)" "kq_wf k3"
        "queued k3 = queued k2 @ [\<lparr> ev_ev = PROCESS_EVENT_CONTINUE, ev_data = None, ev_p = process_current k2 \<rparr>]"
        "rxbuf k3 = rxbuf k2" "overflow k3 = overflow k2" "sl_buf k3 = sl_buf k2" "sl_ptr k3 = sl_ptr k2"
      using sl_post [OF k2(2), of "process_current k2" PROCESS_EVENT_CONTINUE None] by blast
    have "serial_line_loop k = Some (k3\<lparr> sl_point := SL_CONTINUE \<rparr>)"
      using b(1) u w(3) Cons.prems(2) k2(1) [unfolded k1_def] k3(1) by (simp add: serial_line_loop.simps [of k] Let_def upd_opt_def)
    moreover have "sl_line (k3\<lparr> sl_point := SL_CONTINUE \<rparr>) = sl_line k @ [0]" "length (sl_line k) \<le> 127"
      using k3(6,7) k2(6,7) w(3) Cons.prems(2) by (simp_all add: sl_line_def k1_def take_Suc_conv_app_nth)
    moreover have "queued (k3\<lparr> sl_point := SL_CONTINUE \<rparr>) = queued k @ line_events k"
      using k3(3) k2(3,8) by (simp add: line_events_def k1_def)
    moreover have "sl_wf (k3\<lparr> sl_point := SL_CONTINUE \<rparr>)" "sl_pending k3 = cs" "overflow k3 = overflow k"
      using k3 k2 w b Cons.prems(2) by (simp_all add: sl_wf_def k1_def)
    ultimately show ?thesis unfolding pend using True by simp
  qed
qed

subsection \<open>Bytes and rounds in any order\<close>

text \<open>
  The environment: a byte arrives, or the kernel runs a round in which it delivers all events that were posted before. A line that has been
  announced is read by the other processes when the event reaches them, before the process of the serial line is told to continue; it is the string
  in the buffer at that time. Without an announced line the round delivers the poll.
\<close>

datatype serial_act = Receive u8 | Round

definition serial_round :: "'k serial_state_scheme \<Rightarrow> (u8 list list \<times> 'k serial_state_scheme) option" where
  "serial_round k =
     (if sl_point k = SL_CONTINUE
      then do { k' \<leftarrow> serial_line_process PROCESS_EVENT_CONTINUE (k\<lparr> nevents := 0 \<rparr>); Some ([sl_line k], k') }
      else do { k' \<leftarrow> serial_line_process PROCESS_EVENT_POLL (k\<lparr> nevents := 0 \<rparr>); Some ([], k') })"

fun serial_trace :: "serial_act list \<Rightarrow> 'k serial_state_scheme \<Rightarrow> (u8 list list \<times> 'k serial_state_scheme) option" where
  "serial_trace [] k = Some ([], k)"
| "serial_trace (Receive c # as) k = do { (_, k) \<leftarrow> serial_line_input_byte c k; serial_trace as k }"
| "serial_trace (Round # as) k = do { (l, k) \<leftarrow> serial_round k; (ls, k) \<leftarrow> serial_trace as k; Some (l @ ls, k) }"

text \<open>The process keeps up with the line: every byte finds room in the ring buffer.\<close>

fun keeps_up :: "serial_act list \<Rightarrow> 'k serial_state_scheme \<Rightarrow> bool" where
  "keeps_up [] k \<longleftrightarrow> True"
| "keeps_up (Receive c # as) k \<longleftrightarrow> (IGNORE_CHAR c \<or> length (sl_pending k) < 127) \<and> (case serial_line_input_byte c k of None \<Rightarrow> False | Some (_, k') \<Rightarrow> keeps_up as k')"
| "keeps_up (Round # as) k \<longleftrightarrow> (case serial_round k of None \<Rightarrow> False | Some (_, k') \<Rightarrow> keeps_up as k')"

fun received :: "serial_act list \<Rightarrow> u8 list" where
  "received [] = []"
| "received (Receive c # as) = (if IGNORE_CHAR c then received as else c # received as)"
| "received (Round # as) = received as"

text \<open>The complete lines of a stream, and what is announced of a line: at most 127 characters and the terminator.\<close>

fun lines_from :: "u8 list \<Rightarrow> u8 list \<Rightarrow> u8 list list" where
  "lines_from acc [] = []"
| "lines_from acc (c # cs) = (if c = SERIAL_END then acc # lines_from [] cs else lines_from (acc @ [c]) cs)"

definition announced :: "u8 list \<Rightarrow> u8 list" where
  "announced l = take 127 l @ [0]"

lemma lines_from_append: "SERIAL_END \<notin> set xs \<Longrightarrow> lines_from acc (xs @ ys) = lines_from (acc @ xs) ys"
  by (induction xs arbitrary: acc) auto

lemma lines_from_end:
  assumes "SERIAL_END \<in> set xs"
  shows "lines_from acc (xs @ ys) = (acc @ takeWhile (\<lambda>c. c \<noteq> SERIAL_END) xs) # lines_from [] (tl (dropWhile (\<lambda>c. c \<noteq> SERIAL_END) xs) @ ys)"
  using assms by (induction xs arbitrary: acc) auto

text \<open>
  \<open>sl_state k acc\<close>: \<open>acc\<close> is the line that is being collected; an announced line is still to be read. \<open>sl_future\<close> are the lines that
  will be read if \<open>fs\<close> arrives.
\<close>

definition sl_state :: "'k serial_state_scheme \<Rightarrow> u8 list \<Rightarrow> bool" where
  "sl_state k acc \<longleftrightarrow> sl_wf k \<and> \<not> overflow k \<and>
     (sl_point k = SL_YIELD \<and> sl_line k = take 127 acc \<and> sl_ptr k \<le> 127 \<or> sl_point k = SL_CONTINUE \<and> acc = [])"

definition sl_future :: "'k serial_state_scheme \<Rightarrow> u8 list \<Rightarrow> u8 list \<Rightarrow> u8 list list" where
  "sl_future k acc fs = (if sl_point k = SL_CONTINUE then [sl_line k] else []) @ map announced (lines_from acc (sl_pending k @ fs))"

lemma poll_serial [simp]:
  "rxbuf (process_poll p k) = rxbuf k" "overflow (process_poll p k) = overflow k" "sl_point (process_poll p k) = sl_point k" "sl_buf (process_poll p k) = sl_buf k"
  "sl_ptr (process_poll p k) = sl_ptr k" "kq_wf (process_poll p k) = kq_wf k"
  by (simp_all add: process_poll_def kq_wf_def split: option.split)

lemma receive_ok:
  assumes s: "sl_state k acc" and r: "\<not> IGNORE_CHAR c" "length (sl_pending k) < 127"
  shows "\<exists>k'. serial_line_input_byte c k = Some (1, k') \<and> sl_state k' acc \<and> sl_pending k' = sl_pending k @ [c] \<and> sl_future k' acc fs = sl_future k acc (c # fs)"
proof -
  have w: "sl_wf k" "\<not> overflow k" using s by (simp_all add: sl_state_def)
  then have b: "rbf_wf (rxbuf k)" "rbf_cap (rxbuf k) = 127" by (simp_all add: sl_wf_def)
  obtain b where b': "ringbuf_put (rxbuf k) c = Some (1, b)" "rbf_wf b" "rbf_cap b = 127" "rbf_contents b = sl_pending k @ [c]"
    using ringbuf_put_ok [OF b(1), of c] b(2) r(2) by auto
  let ?k = "process_poll (Some (sl_address k)) (k\<lparr> rxbuf := b, overflow := False \<rparr>)"
  have "serial_line_input_byte c k = Some (1, ?k)" using w(2) r(1) b'(1) by (simp add: serial_line_input_byte_def)
  moreover have "sl_state ?k acc" using s b' by (simp add: sl_state_def sl_wf_def sl_line_def)
  moreover have "sl_future ?k acc fs = sl_future k acc (c # fs)" using b'(4) by (simp add: sl_future_def sl_line_def)
  ultimately show ?thesis using b'(4) by simp
qed

text \<open>The number of rounds until everything that has arrived is announced and read.\<close>

definition rounds_left :: "'k serial_state_scheme \<Rightarrow> nat" where
  "rounds_left k =
     (let n = length (filter (\<lambda>c. c = SERIAL_END) (sl_pending k)) in if sl_point k = SL_CONTINUE \<or> 0 < n then Suc n else 0)"

lemma count_ends:
  "length (filter (\<lambda>c. c = e) xs) = (if e \<in> set xs then Suc (length (filter (\<lambda>c. c = e) (tl (dropWhile (\<lambda>c. c \<noteq> e) xs)))) else 0)"
  by (induction xs) auto

lemma loop_state:
  assumes w: "sl_wf k" "\<not> overflow k" "sl_line k = take 127 acc" "sl_ptr k \<le> 127" "queued k = []"
  shows "\<exists>k' acc'. serial_line_loop k = Some k' \<and> sl_state k' acc' \<and> (\<forall>fs. sl_future k' acc' fs = map announced (lines_from acc (sl_pending k @ fs))) \<and>
    rounds_left k' = length (filter (\<lambda>c. c = SERIAL_END) (sl_pending k)) \<and> sl_pending k' = tl (dropWhile (\<lambda>c. c \<noteq> SERIAL_END) (sl_pending k))"
proof -
  have "length (queued k) \<le> 30" unfolding w(5) by simp
  from serial_line_loop_ok [OF w(1,4) this] obtain k' where k': "serial_line_loop k = Some k'" "sl_wf k'"
    "sl_pending k' = tl (dropWhile (\<lambda>c. c \<noteq> SERIAL_END) (sl_pending k))" "overflow k' = overflow k"
    "if SERIAL_END \<in> set (sl_pending k)
     then sl_point k' = SL_CONTINUE \<and> sl_line k' = take 127 (sl_line k @ takeWhile (\<lambda>c. c \<noteq> SERIAL_END) (sl_pending k)) @ [0] \<and> queued k' = queued k @ line_events k
     else sl_point k' = SL_YIELD \<and> sl_line k' = take 127 (sl_line k @ sl_pending k) \<and> queued k' = queued k \<and> sl_ptr k' \<le> 127" by blast
  have m: "127 - min n 127 = 127 - (n :: nat)" for n by simp
  have t: "take 127 (take 127 acc @ xs) = take 127 (acc @ xs)" for xs by (simp add: min_def)
  show ?thesis
  proof (cases "SERIAL_END \<in> set (sl_pending k)")
    case True
    then have "sl_state k' []" "\<forall>fs. sl_future k' [] fs = map announced (lines_from acc (sl_pending k @ fs))"
      using k' w(2,3) lines_from_end [OF True] by (simp_all add: sl_state_def sl_future_def announced_def t m)
    moreover have "rounds_left k' = length (filter (\<lambda>c. c = SERIAL_END) (sl_pending k))"
      using True k'(3,5) count_ends [of SERIAL_END "sl_pending k"] by (simp add: rounds_left_def)
    ultimately show ?thesis using k'(1,3) by blast
  next
    case False
    have d: "tl (dropWhile (\<lambda>c. c \<noteq> SERIAL_END) (sl_pending k)) = []"
      using False dropWhile_eq_Nil_conv [of "\<lambda>c. c \<noteq> SERIAL_END" "sl_pending k"] by (metis list.sel(2))
    then have "sl_state k' (acc @ sl_pending k)" "\<forall>fs. sl_future k' (acc @ sl_pending k) fs = map announced (lines_from acc (sl_pending k @ fs))"
      using k' w(2,3) False lines_from_append [OF False] by (simp_all add: sl_state_def sl_future_def t m)
    moreover have "rounds_left k' = length (filter (\<lambda>c. c = SERIAL_END) (sl_pending k))"
      using False k'(3,5) d count_ends [of SERIAL_END "sl_pending k"] by (simp add: rounds_left_def)
    ultimately show ?thesis using k'(1,3) by blast
  qed
qed

lemma drained [simp]: "queued (k\<lparr> nevents := 0 \<rparr>) = []" "kq_wf k \<Longrightarrow> kq_wf (k\<lparr> nevents := 0 \<rparr>)"
  by (simp_all add: queued_def kq_wf_def)

lemma round_ok:
  assumes s: "sl_state k acc"
  shows "\<exists>l k' acc'. serial_round k = Some (l, k') \<and> sl_state k' acc' \<and> (\<forall>fs. l @ sl_future k' acc' fs = sl_future k acc fs) \<and> rounds_left k' \<le> rounds_left k - 1 \<and>
    sl_pending k' = tl (dropWhile (\<lambda>c. c \<noteq> SERIAL_END) (sl_pending k))"
proof (cases "sl_point k = SL_CONTINUE")
  case True
  let ?k = "k\<lparr> nevents := 0, sl_ptr := 0 \<rparr>"
  have "sl_wf ?k" "\<not> overflow ?k" "sl_line ?k = take 127 acc" "sl_ptr ?k \<le> 127" "queued ?k = []"
    using s True by (simp_all add: sl_state_def sl_wf_def sl_line_def)
  from loop_state [OF this] obtain k' acc' where "serial_line_loop ?k = Some k'" "sl_state k' acc'"
    "\<forall>fs. sl_future k' acc' fs = map announced (lines_from acc (sl_pending k @ fs))" "rounds_left k' = length (filter (\<lambda>c. c = SERIAL_END) (sl_pending k))"
    "sl_pending k' = tl (dropWhile (\<lambda>c. c \<noteq> SERIAL_END) (sl_pending k))" by auto
  then show ?thesis using True by (auto simp: serial_round_def serial_line_process_def sl_future_def rounds_left_def [of k])
next
  case False
  let ?k = "k\<lparr> nevents := 0 \<rparr>"
  have y: "sl_point k = SL_YIELD" using s False by (auto simp: sl_state_def)
  have "sl_wf ?k" "\<not> overflow ?k" "sl_line ?k = take 127 acc" "sl_ptr ?k \<le> 127" "queued ?k = []"
    using s y by (simp_all add: sl_state_def sl_wf_def sl_line_def)
  from loop_state [OF this] obtain k' acc' where "serial_line_loop ?k = Some k'" "sl_state k' acc'"
    "\<forall>fs. sl_future k' acc' fs = map announced (lines_from acc (sl_pending k @ fs))" "rounds_left k' = length (filter (\<lambda>c. c = SERIAL_END) (sl_pending k))"
    "sl_pending k' = tl (dropWhile (\<lambda>c. c \<noteq> SERIAL_END) (sl_pending k))" by auto
  then show ?thesis using y by (auto simp: serial_round_def serial_line_process_def sl_future_def rounds_left_def [of k])
qed

lemma rounds_ok:
  "sl_state k acc \<Longrightarrow> rounds_left k \<le> n \<Longrightarrow> \<exists>k' acc'. serial_trace (replicate n Round) k = Some (sl_future k acc [], k') \<and> sl_state k' acc'"
proof (induction n arbitrary: k acc)
  case 0
  then have "sl_point k = SL_YIELD" "SERIAL_END \<notin> set (sl_pending k)"
    using count_ends [of SERIAL_END "sl_pending k"] by (auto simp: rounds_left_def Let_def sl_state_def split: if_splits)
  then have "sl_future k acc [] = []" using lines_from_append [of "sl_pending k" acc "[]"] by (simp add: sl_future_def)
  then show ?case using 0 by auto
next
  case (Suc n)
  obtain l k1 acc1 where r: "serial_round k = Some (l, k1)" "sl_state k1 acc1" "\<forall>fs. l @ sl_future k1 acc1 fs = sl_future k acc fs" "rounds_left k1 \<le> n"
    using round_ok [OF Suc.prems(1)] Suc.prems(2) by fastforce
  from Suc.IH [OF r(2,4)] show ?case using r(1,3) by (fastforce simp: bind_eq_Some_prod)
qed

lemma trace_append: "serial_trace (xs @ ys) k = do { (l, k) \<leftarrow> serial_trace xs k; (m, k) \<leftarrow> serial_trace ys k; Some (l @ m, k) }"
proof (induction xs k rule: serial_trace.induct)
  case (1 k)
  then show ?case by (cases "serial_trace ys k") auto
next
  case (2 c as k)
  then show ?case by (cases "serial_line_input_byte c k") auto
next
  case (3 as k)
  show ?case
  proof (cases "serial_round k")
    case (Some r)
    obtain l k1 where r: "r = (l, k1)" by force
    note ih = 3 [OF Some, unfolded r, OF refl]
    show ?thesis
    proof (cases "serial_trace as k1")
      case (Some q)
      obtain m k2 where "q = (m, k2)" by force
      then show ?thesis using \<open>serial_round k = Some r\<close> r Some ih by (cases "serial_trace ys k2") auto
    qed (use \<open>serial_round k = Some r\<close> r ih in simp)
  qed simp
qed

lemma trace_ok:
  "sl_state k acc \<Longrightarrow> keeps_up as k \<Longrightarrow> \<exists>l k' acc'. serial_trace as k = Some (l, k') \<and> sl_state k' acc' \<and> (\<forall>fs. l @ sl_future k' acc' fs = sl_future k acc (received as @ fs))"
proof (induction "as" arbitrary: k acc)
  case (Cons a "as")
  show ?case
  proof (cases a)
    case (Receive c)
    show ?thesis
    proof (cases "IGNORE_CHAR c")
      case True
      then have "serial_line_input_byte c k = Some (0, k)" by (simp add: serial_line_input_byte_def)
      then show ?thesis using Cons.IH [OF Cons.prems(1)] Cons.prems(2) Receive True by auto
    next
      case False
      obtain k1 where k1: "serial_line_input_byte c k = Some (1, k1)" "sl_state k1 acc" "sl_pending k1 = sl_pending k @ [c]"
        using receive_ok [OF Cons.prems(1) False] Cons.prems(2) Receive False by auto
      have f: "sl_future k1 acc fs = sl_future k acc (c # fs)" for fs
        using receive_ok [OF Cons.prems(1) False, of fs] Cons.prems(2) Receive False k1(1) by auto
      then show ?thesis using Cons.IH [OF k1(2)] Cons.prems(2) Receive False k1(1) by auto
    qed
  next
    case Round
    obtain l k1 acc1 where r: "serial_round k = Some (l, k1)" "sl_state k1 acc1" "\<forall>fs. l @ sl_future k1 acc1 fs = sl_future k acc fs"
      using round_ok [OF Cons.prems(1)] by blast
    have "keeps_up as k1" using Cons.prems(2) Round r(1) by simp
    from Cons.IH [OF r(2) this] obtain m k2 acc2 where "serial_trace as k1 = Some (m, k2)" "sl_state k2 acc2"
      "\<forall>fs. m @ sl_future k2 acc2 fs = sl_future k1 acc1 (received as @ fs)" by blast
    then show ?thesis using r(1,3) Round by (intro exI [of _ "l @ m"] exI [of _ k2] exI [of _ acc2]) simp
  qed
qed auto

lemma announced_all:
  fixes k :: "'k serial_state_scheme"
  assumes "sl_state k []" "sl_pending k = []" "sl_point k = SL_YIELD" "keeps_up as k"
  shows "\<exists>l k' m k''. serial_trace as k = Some (l, k') \<and> serial_trace (as @ replicate 128 Round) k = Some (l @ m, k'') \<and>
    l @ m = map announced (lines_from [] (received as))"
proof -
  obtain l k' acc' where t: "serial_trace as k = Some (l, k')" "sl_state k' acc'" "\<forall>fs. l @ sl_future k' acc' fs = sl_future k [] (received as @ fs)"
    using trace_ok [OF assms(1,4)] by blast
  have "length (sl_pending k') \<le> 127" using t(2) rbf_contents_len [of "rxbuf k'"] by (simp add: sl_state_def sl_wf_def)
  then have "length (filter (\<lambda>c. c = SERIAL_END) (sl_pending k')) \<le> 127" using length_filter_le le_trans by blast
  then have "rounds_left k' \<le> 128" by (simp add: rounds_left_def Let_def)
  from rounds_ok [OF t(2) this] obtain k'' where r: "serial_trace (replicate 128 Round) k' = Some (sl_future k' acc' [], k'')" by blast
  have "l @ sl_future k' acc' [] = map announced (lines_from [] (received as))" using t(3) [rule_format, of "[]"] assms(2,3) by (simp add: sl_future_def [of k])
  moreover have "serial_trace (as @ replicate 128 Round) k = Some (l @ sl_future k' acc' [], k'')" using t(1) r by (simp add: trace_append del: replicate.simps)
  ultimately show ?thesis using t(1) by blast
qed

subsection \<open>When the process keeps up\<close>

lemma tl_dropWhile_length: "length (tl (dropWhile P xs)) \<le> length xs"
  by (simp add: le_diff_conv) (metis length_dropWhile_le le_SucI Suc_eq_plus1)

lemma keeps_up_short:
  "sl_state k acc \<Longrightarrow> length (sl_pending k) + length (received as) \<le> 127 \<Longrightarrow> keeps_up as k"
proof (induction "as" arbitrary: k acc)
  case (Cons a "as")
  show ?case
  proof (cases a)
    case (Receive c)
    show ?thesis
    proof (cases "IGNORE_CHAR c")
      case True
      then have "serial_line_input_byte c k = Some (0, k)" by (simp add: serial_line_input_byte_def)
      then show ?thesis using Cons Receive True by auto
    next
      case False
      then have "length (sl_pending k) < 127" using Cons.prems(2) Receive by simp
      from receive_ok [OF Cons.prems(1) False this] obtain k1 where k1: "serial_line_input_byte c k = Some (1, k1)" "sl_state k1 acc" "sl_pending k1 = sl_pending k @ [c]" by blast
      then show ?thesis using Cons.IH [OF k1(2)] Cons.prems(2) Receive False by simp
    qed
  next
    case Round
    obtain l k1 acc1 where r: "serial_round k = Some (l, k1)" "sl_state k1 acc1" "sl_pending k1 = tl (dropWhile (\<lambda>c. c \<noteq> SERIAL_END) (sl_pending k))"
      using round_ok [OF Cons.prems(1)] by blast
    have "length (sl_pending k1) + length (received as) \<le> 127" using Cons.prems(2) Round r(3) tl_dropWhile_length [of "\<lambda>c. c \<noteq> SERIAL_END" "sl_pending k"] by simp
    then show ?thesis using Cons.IH [OF r(2)] r(1) Round by simp
  qed
qed simp

lemma keeps_up_append: "keeps_up (xs @ ys) k \<longleftrightarrow> keeps_up xs k \<and> (case serial_trace xs k of None \<Rightarrow> False | Some (_, k') \<Rightarrow> keeps_up ys k')"
proof (induction xs k rule: serial_trace.induct)
  case (2 c as k)
  then show ?case by (auto split: option.split prod.split)
next
  case (3 as k)
  show ?case
  proof (cases "serial_round k")
    case (Some r)
    obtain l k1 where r: "r = (l, k1)" by force
    show ?thesis using 3 [OF Some, unfolded r, OF refl] Some r by (auto split: option.split prod.split)
  qed simp
qed simp

text \<open>A sender that waits for two rounds after each line of at most 126 characters.\<close>

definition sent_line :: "u8 list \<Rightarrow> serial_act list" where
  "sent_line l = map Receive (l @ [SERIAL_END]) @ [Round, Round]"

lemma received_append [simp]: "received (xs @ ys) = received xs @ received ys"
  by (induction xs rule: received.induct) auto

lemma received_bytes: "\<forall>c \<in> set cs. \<not> IGNORE_CHAR c \<Longrightarrow> received (map Receive cs) = cs"
  by (induction cs) auto

lemma received_sent: "\<forall>c \<in> set l. \<not> IGNORE_CHAR c \<Longrightarrow> received (sent_line l) = l @ [SERIAL_END]"
  using received_bytes [of "l @ [SERIAL_END]"] by (auto simp: sent_line_def)

lemma receive_bytes:
  "sl_state k acc \<Longrightarrow> \<forall>c \<in> set cs. \<not> IGNORE_CHAR c \<Longrightarrow> length (sl_pending k) + length cs \<le> 127 \<Longrightarrow>
    \<exists>k'. serial_trace (map Receive cs) k = Some ([], k') \<and> sl_state k' acc \<and> sl_pending k' = sl_pending k @ cs"
proof (induction cs arbitrary: k)
  case (Cons c cs)
  then have "\<not> IGNORE_CHAR c" "length (sl_pending k) < 127" by simp_all
  from receive_ok [OF Cons.prems(1) this] obtain k1 where k1: "serial_line_input_byte c k = Some (1, k1)" "sl_state k1 acc" "sl_pending k1 = sl_pending k @ [c]" by blast
  then show ?case using Cons.IH [OF k1(2)] Cons.prems by simp
qed simp

lemma keeps_up_lines:
  "sl_state k acc \<Longrightarrow> sl_pending k = [] \<Longrightarrow> \<forall>l \<in> set ls. length l \<le> 126 \<and> (\<forall>c \<in> set l. \<not> IGNORE_CHAR c \<and> c \<noteq> SERIAL_END) \<Longrightarrow> keeps_up (concat (map sent_line ls)) k"
proof (induction ls arbitrary: k acc)
  case (Cons l ls)
  have l: "length l \<le> 126" "\<forall>c \<in> set l. \<not> IGNORE_CHAR c" "\<forall>c \<in> set l. c \<noteq> SERIAL_END" using Cons.prems(3) by simp_all
  have up: "keeps_up (sent_line l) k" by (rule keeps_up_short [OF Cons.prems(1)]) (simp add: Cons.prems(2) received_sent [OF l(2)] l(1))
  obtain k1 where k1: "serial_trace (map Receive (l @ [SERIAL_END])) k = Some ([], k1)" "sl_state k1 acc" "sl_pending k1 = l @ [SERIAL_END]"
    using receive_bytes [OF Cons.prems(1), of "l @ [SERIAL_END]"] Cons.prems(2) l by auto
  obtain x2 k2 acc2 where k2: "serial_round k1 = Some (x2, k2)" "sl_state k2 acc2" "sl_pending k2 = []"
    using round_ok [OF k1(2)] l(3) unfolding k1(3) by (auto simp: dropWhile_append2)
  obtain x3 k3 acc3 where k3: "serial_round k2 = Some (x3, k3)" "sl_state k3 acc3" "sl_pending k3 = []"
    using round_ok [OF k2(2)] unfolding k2(3) by auto
  have t: "serial_trace (sent_line l) k = Some (x2 @ x3, k3)" using k1(1) k2(1) k3(1) unfolding sent_line_def by (simp add: trace_append del: map_append)
  show ?case using up Cons.IH [OF k3(2,3)] Cons.prems(3) t by (simp add: keeps_up_append)
qed simp

subsection \<open>Every line is announced\<close>


definition serial_boot :: serial_state where
  "serial_boot = \<lparr> process_list = Some 1, process_next = (\<lambda>_. None), process_state = (\<lambda>_. 1), process_needspoll = (\<lambda>_. False),
     process_current = Some 1, lastevent = 0x8b, nevents = 0, fevent = 0, event_array = replicate 32 \<lparr> ev_ev = 0, ev_data = None, ev_p = None \<rparr>,
     poll_requested = False, rxbuf = ringbuf_init (replicate 128 0) 128, overflow = False, sl_point = SL_YIELD, sl_buf = replicate 128 0, sl_ptr = 0,
     serial_line_event_message = 0x8a, sl_address = 1, sl_buf_address = 2 \<rparr>"

lemma serial_boot_ok: "sl_state serial_boot []" "sl_pending serial_boot = []" "sl_point serial_boot = SL_YIELD"
proof -
  have i: "rbf_index (rxbuf serial_boot) = ringbufindex_init (2 ^ 7)" by (simp add: serial_boot_def ringbuf_init_def rbf_index_def ringbufindex_init_def)
  have r: "ring_wf (ringbufindex_init (2 ^ 7))" "ring_cap (ringbufindex_init (2 ^ 7)) = 2 ^ 7 - 1" "ring_slots (ringbufindex_init (2 ^ 7)) = []"
    using ring_init_wf [of 7] by blast+
  have b: "rbf_wf (rxbuf serial_boot)" "rbf_cap (rxbuf serial_boot) = 127" unfolding rbf_wf_def rbf_cap_def i r(2)
    using r(1) by (simp_all add: serial_boot_def ringbuf_init_def)
  show "sl_pending serial_boot = []" unfolding rbf_contents_def i rb.contents_def r(3) by simp
  show "sl_point serial_boot = SL_YIELD" by (simp add: serial_boot_def)
  show "sl_state serial_boot []" using b by (simp add: sl_state_def sl_wf_def) (simp add: serial_boot_def sl_line_def kq_wf_def)
qed


end
