(* ===== verification/ScheduleUpload.thy ===== *)
theory ScheduleUpload
  imports MasterScheduleProps
begin

text \<open>
  From the serial line to the schedule of a node: the text the operator's tool sends, the bytes in flash, and the
  entries \<open>read_from_flash_by_id\<close> finds there.
\<close>

subsection \<open>Hexadecimal text\<close>

definition hexdigit :: "nat \<Rightarrow> u8" where
  "hexdigit n = (if n < 10 then word_of_nat (48 + n) else word_of_nat (55 + n))"

definition hex_text :: "u8 list \<Rightarrow> u8 list" where
  "hex_text bs = concat (map (\<lambda>b. [hexdigit (unat b div 16), hexdigit (unat b mod 16)]) bs)"

lemma hex_text_simps [simp]:
  "hex_text [] = []" "hex_text (b # bs) = hexdigit (unat b div 16) # hexdigit (unat b mod 16) # hex_text bs"
  "length (hex_text bs) = 2 * length bs"
  by (simp_all add: hex_text_def) (induction bs; simp)

lemma hexdigit_value:
  assumes "n < 16"
  shows "hexdigit n \<noteq> 0" "(if hexdigit n \<ge> 65 then hexdigit n - 55 else hexdigit n - 48) = word_of_nat n"
proof -
  have "n \<in> {0, 1, 2, 3, 4, 5, 6, 7, 8, 9, 10, 11, 12, 13, 14, 15}"
    using assms by (simp add: numeral_eq_Suc less_Suc_eq)
  then show "hexdigit n \<noteq> 0" "(if hexdigit n \<ge> 65 then hexdigit n - 55 else hexdigit n - 48) = word_of_nat n"
    by (auto simp: hexdigit_def)
qed

lemma asciiHex_to_int_hex: "asciiHex_to_int (hex_text (b # bs) @ r) = Some b"
proof -
  have d: "unat b div 16 < 16" "unat b mod 16 < 16" using unat_lt_256 [of b] by (simp_all add: div_less_iff_less_mult)
  have "push_bit 4 (word_of_nat (unat b div 16)) + word_of_nat (unat b mod 16) = (word_of_nat (unat b div 16 * 16 + unat b mod 16) :: u8)"
    by (simp only: of_nat_add of_nat_mult push_bit_eq_mult) simp
  then have "push_bit 4 (word_of_nat (unat b div 16)) + word_of_nat (unat b mod 16) = b"
    unfolding div_mult_mod_eq by simp
  then show ?thesis unfolding asciiHex_to_int_def
    using hexdigit_value [OF d(1)] hexdigit_value [OF d(2)] by (simp add: nth_opt_def Let_def del: of_nat_mod of_nat_div)
qed

lemma hex_loop_text:
  assumes "drop (2 * k) data = hex_text cs @ 0 # post"
  shows "\<exists>data'. hex_loop data (2 * k) = Some (data', 2 * (k + length cs)) \<and> take (k + length cs) data' = take k data @ cs"
  using assms
proof (induction cs arbitrary: data k)
  case Nil
  then have "2 * k < length data" "data ! (2 * k) = 0" by (metis append_Nil drop_all hex_text_simps(1) list.distinct(1) not_le)
      (metis Nil append_Nil drop_all hex_text_simps(1) hd_drop_conv_nth list.distinct(1) list.sel(1) not_le)
  then show ?case by (subst hex_loop.simps) simp
next
  case (Cons c cs)
  have l: "2 * k < length data" using Cons.prems by (metis drop_all hex_text_simps(2) append_Cons list.distinct(1) not_le)
  have "data ! (2 * k) = hexdigit (unat c div 16)" using Cons.prems l by (metis append_Cons hd_drop_conv_nth hex_text_simps(2) list.sel(1))
  then have nz: "data ! (2 * k) \<noteq> 0" using hexdigit_value(1) [of "unat c div 16"] unat_lt_256 [of c] by (simp add: div_less_iff_less_mult)
  have a: "asciiHex_to_int (drop (2 * k) data) = Some c" unfolding Cons.prems by (rule asciiHex_to_int_hex)
  have "drop (2 * (k + 1)) (data[k := c]) = drop 2 (drop (2 * k) data)" by (simp add: add.commute)
  also have "\<dots> = hex_text cs @ 0 # post" unfolding Cons.prems by simp
  finally obtain data' where d: "hex_loop (data[k := c]) (2 * (k + 1)) = Some (data', 2 * (k + 1 + length cs))"
      "take (k + 1 + length cs) data' = take (k + 1) (data[k := c]) @ cs"
    using Cons.IH [of "k + 1" "data[k := c]"] by blast
  have "hex_loop data (2 * k) = hex_loop (data[k := c]) (2 * (k + 1))"
    using l nz a by (subst hex_loop.simps) simp
  moreover have "take (k + 1) (data[k := c]) = take k data @ [c]" using l by (simp add: take_Suc_conv_app_nth)
  ultimately show ?case using d by simp
qed

subsection \<open>Uploading\<close>

lemma write_to_flash_ok:
  assumes "flash_wf s" "fs_open s" "f_fileptr s + int (length cs) \<le> int CFS_BUF_SIZE"
  shows "\<exists>d s'. write_to_flash (hex_text cs @ 0 # post) s = Some (d, s') \<and> flash_wf s' \<and> fs_open s' \<and>
    f_fileptr s' = f_fileptr s + int (length cs) \<and> f_endptr s' = max (f_endptr s) (f_fileptr s + int (length cs)) \<and>
    simCFSData s' = put_at (simCFSData s) (nat (f_fileptr s)) cs \<and> bytes_in_flash s' = bytes_in_flash s + int (length cs) \<and>
    schedule_loading s' = schedule_loading s"
proof -
  obtain d where d: "hex_loop (hex_text cs @ 0 # post) 0 = Some (d, 2 * length cs)" "take (length cs) d = cs"
    using hex_loop_text [of 0 "hex_text cs @ 0 # post" cs post] by auto
  have w: "writable s" using flash_modes assms(1,2) by blast
  have l: "length cs \<le> length d" using d(2) by (metis length_take min.cobounded1)
  obtain s' where s': "cfs_write d (length cs) s = Some (int (length cs), s')" "writable s'" "f_access s' = f_access s"
    "f_fileptr s' = f_fileptr s + int (length cs)" "f_endptr s' = max (f_endptr s) (f_fileptr s + int (length cs))"
    "simCFSData s' = put_at (simCFSData s) (nat (f_fileptr s)) cs"
    using cfs_write_ok [OF w assms(3) l] d(2) by auto
  note m = flash_more [OF cfs_more(2) [OF s'(1)]]
  show ?thesis using d(1) s' m assms(1,2) by (auto simp: write_to_flash_def flash_wf_def writable_def cfs_wf_def)
qed

text \<open>A line of the upload: the part of the message it is, its bytes, the terminating zero.\<close>

definition upload_line :: "u8 \<Rightarrow> u8 list \<Rightarrow> u8 list" where
  "upload_line part bs = hex_text (part # bs) @ [0]"

text \<open>Appending at the end of the open file.\<close>

definition at_end :: "u8 list \<Rightarrow> 'a flash_state_scheme \<Rightarrow> bool" where
  "at_end bs s \<longleftrightarrow> flash_wf s \<and> fs_open s \<and> f_fileptr s = int (length bs) \<and> f_endptr s = int (length bs) \<and> file_content s = bs \<and>
     bytes_in_flash s = int (length bs)"

lemma write_to_flash_append:
  assumes "at_end bs s" "length bs + length cs \<le> CFS_BUF_SIZE"
  shows "\<exists>d s'. write_to_flash (hex_text cs @ 0 # post) s = Some (d, s') \<and> at_end (bs @ cs) s' \<and> schedule_loading s' = schedule_loading s"
proof -
  note a = assms(1) [unfolded at_end_def]
  have l: "f_fileptr s + int (length cs) \<le> int CFS_BUF_SIZE" using a assms(2) by simp
  have d: "length (simCFSData s) = CFS_BUF_SIZE" using a by (simp add: flash_wf_def cfs_wf_def)
  have b: "take (length bs) (simCFSData s) = bs" using a unfolding file_content_def by (metis nat_int)
  have t: "take (length bs + length cs) (put_at (simCFSData s) (length bs) cs) = bs @ cs"
    using assms(2) d b by (simp add: put_at_def)
  have e: "flash_wf s" "fs_open s" "f_fileptr s = int (length bs)" "f_endptr s = int (length bs)" "bytes_in_flash s = int (length bs)"
    using a by simp_all
  obtain d s' where "write_to_flash (hex_text cs @ 0 # post) s = Some (d, s')" "flash_wf s'" "fs_open s'"
    "f_fileptr s' = int (length (bs @ cs))" "f_endptr s' = int (length (bs @ cs))" "simCFSData s' = put_at (simCFSData s) (length bs) cs"
    "bytes_in_flash s' = int (length (bs @ cs))" "schedule_loading s' = schedule_loading s"
    using write_to_flash_ok [OF e(1,2) l, of post] unfolding e(3-5) by auto
  then show ?thesis using t by (simp add: at_end_def file_content_def nat_add_distrib)
qed

lemma serial_continue:
  assumes "at_end bs s" "length bs + length cs \<le> CFS_BUF_SIZE"
  shows "\<exists>s'. serial_line_message (upload_line MESSAGE_CONTINUE cs) s = Some (False, s') \<and> at_end (bs @ cs) s' \<and>
      schedule_loading s' = schedule_loading s"
    and "\<exists>s'. serial_line_message (upload_line MESSAGE_END cs) s = Some (True, s') \<and> at_end (bs @ cs) s' \<and> \<not> schedule_loading s'"
proof -
  obtain d s' where s': "write_to_flash (hex_text cs @ [0]) s = Some (d, s')" "at_end (bs @ cs) s'" "schedule_loading s' = schedule_loading s"
    using write_to_flash_append [OF assms, of "[]"] by blast
  have p: "asciiHex_to_int (upload_line m cs) = Some m" "drop 2 (upload_line m cs) = hex_text cs @ [0]" for m
    using asciiHex_to_int_hex [of m cs "[0]"] by (simp_all add: upload_line_def)
  show "\<exists>s'. serial_line_message (upload_line MESSAGE_CONTINUE cs) s = Some (False, s') \<and> at_end (bs @ cs) s' \<and>
      schedule_loading s' = schedule_loading s"
    using s' by (simp add: serial_line_message_def p MESSAGE_BEGIN_def MESSAGE_CONTINUE_def)
  show "\<exists>s'. serial_line_message (upload_line MESSAGE_END cs) s = Some (True, s') \<and> at_end (bs @ cs) s' \<and> \<not> schedule_loading s'"
    using s' by (auto simp: serial_line_message_def p MESSAGE_BEGIN_def MESSAGE_CONTINUE_def MESSAGE_END_def
        at_end_def flash_wf_def cfs_wf_def file_content_def)
qed

lemma serial_begin:
  assumes "flash_wf s" "\<not> fs_open s" "bytes_in_flash s = 0" "length cs \<le> CFS_BUF_SIZE"
  shows "\<exists>s'. serial_line_message (upload_line MESSAGE_BEGIN cs) s = Some (False, s') \<and> at_end cs s' \<and>
      schedule_loading s' = schedule_loading s"
proof -
  obtain s1 where s1: "open_file (CFS_WRITE + CFS_READ) s = (True, s1)" "at_end [] s1" "schedule_loading s1 = schedule_loading s"
    using open_file_ok [OF assms(1)] assms(2,3) by (auto simp: at_end_def file_content_def)
  obtain d s' where s': "write_to_flash (hex_text cs @ [0]) s1 = Some (d, s')" "at_end cs s'" "schedule_loading s' = schedule_loading s1"
    using write_to_flash_append [OF s1(2), of cs "[]"] assms(4) by auto
  have "asciiHex_to_int (upload_line MESSAGE_BEGIN cs) = Some MESSAGE_BEGIN" "drop 2 (upload_line MESSAGE_BEGIN cs) = hex_text cs @ [0]"
    using asciiHex_to_int_hex [of MESSAGE_BEGIN cs "[0]"] by (simp_all add: upload_line_def)
  then show ?thesis using s' s1 by (simp add: serial_line_message_def)
qed

lemma serial_loop_continue:
  assumes "at_end bs s" "schedule_loading s" "length (bs @ concat css) + length e \<le> CFS_BUF_SIZE"
  shows "\<exists>s'. serial_loop (map (upload_line MESSAGE_CONTINUE) css @ upload_line MESSAGE_END e # later) s = Some s' \<and>
    at_end (bs @ concat css @ e) s' \<and> \<not> schedule_loading s'"
  using assms
proof (induction css arbitrary: bs s)
  case Nil
  then obtain s' where s': "serial_line_message (upload_line MESSAGE_END e) s = Some (True, s')" "at_end (bs @ e) s'" "\<not> schedule_loading s'"
    using serial_continue(2) [of bs s e] by auto
  have "serial_loop later s' = Some s'" using s'(3) by (cases later) simp_all
  then show ?case using Nil.prems s' by simp
next
  case (Cons c css)
  obtain s1 where "serial_line_message (upload_line MESSAGE_CONTINUE c) s = Some (False, s1)" "at_end (bs @ c) s1"
      "schedule_loading s1 = schedule_loading s"
    using serial_continue(1) [of bs s c] Cons.prems by auto
  then show ?case using Cons.IH [of "bs @ c" s1] Cons.prems by simp
qed

text \<open>
  A complete upload over the serial line: a begin line, any number of continuation lines and an end line,
  each carrying its bytes as upper-case hexadecimal text, leave exactly the concatenation of these bytes in the file,
  count them, and end the input; lines after the end are ignored.
\<close>

lemma serial_upload_ok:
  assumes "flash_wf s" "\<not> fs_open s" "schedule_loading s" "length (b @ concat css @ e) \<le> CFS_BUF_SIZE"
  shows "\<exists>s'. serial_line_schedule_input
      (upload_line MESSAGE_BEGIN b # map (upload_line MESSAGE_CONTINUE) css @ upload_line MESSAGE_END e # later) s = Some s' \<and>
    file_content s' = b @ concat css @ e \<and> bytes_in_flash s' = int (length (b @ concat css @ e)) \<and> fs_open s' \<and> flash_wf s' \<and>
    \<not> schedule_loading s'"
proof -
  let ?s = "s\<lparr> fs_fd := 0, bytes_in_flash := 0 \<rparr>"
  have w: "flash_wf ?s" "\<not> fs_open ?s" "bytes_in_flash ?s = 0" using assms(1,2) by (simp_all add: flash_wf_def cfs_wf_def)
  obtain s1 where s1: "serial_line_message (upload_line MESSAGE_BEGIN b) ?s = Some (False, s1)" "at_end b s1" "schedule_loading s1"
    using serial_begin [OF w, of b] assms(3,4) by auto
  then show ?thesis using serial_loop_continue [OF s1(2,3), of css e later] assms(3,4)
    by (auto simp: serial_line_schedule_input_def at_end_def)
qed

subsection \<open>The entry of a node\<close>

definition sched_sized :: "master_tsch_schedule_t \<Rightarrow> bool" where
  "sched_sized sch \<longleftrightarrow> length (flow_forwards sch) = 8 \<and> length (max_transmission sch) = 8 \<and>
     length (link_mem sch) = 4 * TSCH_SCHEDULE_MAX_LINKS"

definition config_sized :: "master_tsch_schedule_universall_config_t \<Rightarrow> bool" where
  "config_sized c \<longleftrightarrow> length (sender_of_flow c) = 8 \<and> length (receiver_of_flow c) = 8 \<and> length (first_tx_slot_in_flow c) = 8 \<and>
     length (last_tx_slot_in_flow c) = 8"

definition config_bytes :: "master_tsch_schedule_universall_config_t \<Rightarrow> u8 list" where
  "config_bytes c = [schedule_length c, slot_frames c] @ sender_of_flow c @ receiver_of_flow c @ first_tx_slot_in_flow c @ last_tx_slot_in_flow c"

definition entry_ok :: "u8 \<times> master_tsch_schedule_t \<Rightarrow> bool" where
  "entry_ok = (\<lambda>(i, e). sched_sized e \<and> unat (links_len e) \<le> TSCH_SCHEDULE_MAX_LINKS \<and> (own_transmission_flow e = 0 \<longrightarrow> own_receiver e = 0))"

definition entry_bytes :: "u8 \<times> master_tsch_schedule_t \<Rightarrow> u8 list" where
  "entry_bytes = (\<lambda>(i, e). [i, own_transmission_flow e] @ (if own_transmission_flow e = 0 then [] else [own_receiver e]) @ [links_len e] @
     take (4 * unat (links_len e)) (link_mem e) @ flow_forwards e @ max_transmission e)"

definition loaded :: "master_tsch_schedule_t \<Rightarrow> master_tsch_schedule_t \<Rightarrow> master_tsch_schedule_t" where
  "loaded e sch = e\<lparr> link_mem := put_at (link_mem sch) 0 (take (4 * unat (links_len e)) (link_mem e)) \<rparr>"

lemma read_u8_ok:
  assumes "readable s" "file_rest s = b # cs"
  obtains s' where "read_u8 old s = Some (1, b, s')" "readable s'" "file_rest s' = cs" "cfs_state.more s' = cfs_state.more s"
proof -
  obtain s' where s': "cfs_read 1 s = Some (1, [b], s')" "readable s'" "file_rest s' = cs"
    using cfs.read_byte [OF assms] by blast
  show thesis by (rule that [of s']) (use s' cfs_more(3) [OF s'(1)] in \<open>simp_all add: read_u8_def\<close>)
qed

lemma read_bytes_ok:
  assumes "readable s" "file_rest s = bs @ cs" "length bs = n" "n \<le> length old"
  obtains s' where "read_bytes old n s = Some (int n, put_at old 0 bs, s')" "readable s'" "file_rest s' = cs" "cfs_state.more s' = cfs_state.more s"
proof -
  obtain s' where s': "cfs_read n s = Some (int n, bs, s')" "readable s'" "file_rest s' = cs"
    using cfs.read_all [OF assms(1-3)] by blast
  show thesis by (rule that [of s']) (use s' cfs_more(3) [OF s'(1)] assms(3,4) in \<open>simp_all add: read_bytes_def put_opt_def\<close>)
qed

lemma put_at_all: "length ys = length xs \<Longrightarrow> put_at xs 0 ys = ys"
  by (simp add: put_at_def)

lemma read_entry_ok:
  assumes "readable s" "file_rest s = entry_bytes (i, e) @ cs" "entry_ok (i, e)" "sched_sized sch"
  shows "\<exists>s'. read_entry idx sch s = Some (word_of_nat (length (entry_bytes (i, e))), int (length (entry_bytes (i, e))), i, loaded e sch, s') \<and>
    readable s' \<and> file_rest s' = cs \<and> cfs_state.more s' = cfs_state.more s"
proof -
  let ?lb = "take (4 * unat (links_len e)) (link_mem e)"
  note ok = assms(3,4) [unfolded entry_ok_def sched_sized_def prod.case]
  have lb: "length ?lb = unat (links_len e) * 4" "unat (links_len e) * 4 \<le> length (link_mem sch)" using ok by auto
  obtain s1 where s1: "read_u8 idx s = Some (1, i, s1)" "readable s1" "cfs_state.more s1 = cfs_state.more s"
    "file_rest s1 = own_transmission_flow e # (if own_transmission_flow e = 0 then [] else [own_receiver e]) @ [links_len e] @ ?lb @ flow_forwards e @ max_transmission e @ cs"
    using read_u8_ok [OF assms(1), of i _ idx] assms(2) unfolding entry_bytes_def by auto
  obtain s2 where s2: "read_u8 (own_transmission_flow sch) s1 = Some (1, own_transmission_flow e, s2)" "readable s2" "cfs_state.more s2 = cfs_state.more s"
    "file_rest s2 = (if own_transmission_flow e = 0 then [] else [own_receiver e]) @ [links_len e] @ ?lb @ flow_forwards e @ max_transmission e @ cs"
    using read_u8_ok [OF s1(2,4)] s1(3) by metis
  obtain s3 where s3: "own_transmission_flow e \<noteq> 0 \<longrightarrow> read_u8 (own_receiver sch) s2 = Some (1, own_receiver e, s3)"
    "own_transmission_flow e = 0 \<longrightarrow> s3 = s2" "readable s3" "cfs_state.more s3 = cfs_state.more s"
    "file_rest s3 = links_len e # ?lb @ flow_forwards e @ max_transmission e @ cs"
  proof (cases "own_transmission_flow e = 0")
    case False
    then show thesis using read_u8_ok [OF s2(2), of "own_receiver e" _ "own_receiver sch"] s2(3,4) that by auto
  qed (use that [of s2] s2 in simp)
  obtain s4 where s4: "read_u8 (links_len sch) s3 = Some (1, links_len e, s4)" "readable s4" "cfs_state.more s4 = cfs_state.more s"
    "file_rest s4 = ?lb @ flow_forwards e @ max_transmission e @ cs"
    using read_u8_ok [OF s3(3,5)] s3(4) by metis
  obtain s5 where s5: "read_bytes (link_mem sch) (unat (links_len e) * 4) s4 = Some (int (unat (links_len e) * 4), put_at (link_mem sch) 0 ?lb, s5)"
    "readable s5" "cfs_state.more s5 = cfs_state.more s" "file_rest s5 = flow_forwards e @ max_transmission e @ cs"
    using read_bytes_ok [OF s4(2,4) lb] s4(3) by metis
  obtain s6 where s6: "read_bytes (flow_forwards sch) 8 s5 = Some (8, flow_forwards e, s6)"
    "readable s6" "cfs_state.more s6 = cfs_state.more s" "file_rest s6 = max_transmission e @ cs"
    using read_bytes_ok [OF s5(2,4), of 8 "flow_forwards sch"] s5(3) ok by (auto simp: put_at_all)
  obtain s7 where s7: "read_bytes (max_transmission sch) 8 s6 = Some (8, max_transmission e, s7)"
    "readable s7" "cfs_state.more s7 = cfs_state.more s" "file_rest s7 = cs"
    using read_bytes_ok [OF s6(2,4), of 8 "max_transmission sch"] s6(3) ok by (auto simp: put_at_all)
  show ?thesis
  proof (cases "own_transmission_flow e = 0")
    case True
    then show ?thesis using s1(1) s2(1) s3(2) s4(1) s5(1) s6(1) s7 ok lb
      by (auto simp: read_entry_def entry_bytes_def loaded_def)
  next
    case False
    then show ?thesis using s1(1) s2(1) s3(1) s4(1) s5(1) s6(1) s7 ok lb
      by (auto simp: read_entry_def entry_bytes_def loaded_def)
  qed
qed

lemma read_entry_eof:
  assumes "readable s" "file_rest s = []" "sched_sized sch"
  shows "\<exists>n sch' s'. read_entry idx sch s = Some (0, n, idx, sch', s') \<and> n \<noteq> 0"
proof -
  have u: "\<exists>s'. read_u8 old t = Some (0, old, s') \<and> readable s' \<and> file_rest s' = []" if "readable t" "file_rest t = []" for old and t :: "'a cfs_state_scheme"
    by (rule cfs.read_empty [OF that, of 1]) (auto simp: read_u8_def)
  have b: "\<exists>s'. read_bytes old n t = Some (0, old, s') \<and> readable s' \<and> file_rest s' = []" if "readable t" "file_rest t = []" for old n and t :: "'a cfs_state_scheme"
    by (rule cfs.read_empty [OF that, of n]) (auto simp: read_bytes_def put_opt_def put_at_def)
  obtain s1 where s1: "read_u8 idx s = Some (0, idx, s1)" "readable s1" "file_rest s1 = []" using u [OF assms(1,2)] by blast
  obtain s2 where s2: "read_u8 (own_transmission_flow sch) s1 = Some (0, own_transmission_flow sch, s2)" "readable s2" "file_rest s2 = []"
    using u [OF s1(2,3)] by blast
  obtain s3 where s3: "own_transmission_flow sch \<noteq> 0 \<longrightarrow> read_u8 (own_receiver sch) s2 = Some (0, own_receiver sch, s3)"
    "own_transmission_flow sch = 0 \<longrightarrow> s3 = s2" "readable s3" "file_rest s3 = []"
    using u [OF s2(2,3)] s2(2,3) by metis
  obtain s4 where s4: "read_u8 (links_len sch) s3 = Some (0, links_len sch, s4)" "readable s4" "file_rest s4 = []" using u [OF s3(3,4)] by blast
  obtain s5 where s5: "read_bytes (link_mem sch) (unat (links_len sch) * 4) s4 = Some (0, link_mem sch, s5)" "readable s5" "file_rest s5 = []"
    using b [OF s4(2,3)] by blast
  obtain s6 where s6: "read_bytes (flow_forwards sch) 8 s5 = Some (0, flow_forwards sch, s6)" "readable s6" "file_rest s6 = []"
    using b [OF s5(2,3)] by blast
  obtain s7 where s7: "read_bytes (max_transmission sch) 8 s6 = Some (0, max_transmission sch, s7)" using b [OF s6(2,3)] by blast
  have z: "19 + uint (links_len sch) * 4 \<noteq> 0" "20 + uint (links_len sch) * 4 \<noteq> 0" using uint_ge_0 [of "links_len sch"] by linarith+
  show ?thesis
    by (cases "own_transmission_flow sch = 0") (use z s1(1) s2(1) s3(1,2) s4(1) s5(1) s6(1) s7 in \<open>auto simp: read_entry_def\<close>)
qed

lemma loaded_sized: "entry_ok (i, e) \<Longrightarrow> sched_sized sch \<Longrightarrow> sched_sized (loaded e sch)"
  by (auto simp: loaded_def entry_ok_def sched_sized_def)

lemma entry_length: "entry_ok (i, e) \<Longrightarrow> length (entry_bytes (i, e)) < 65536"
  by (auto simp: entry_bytes_def entry_ok_def sched_sized_def)

lemma read_entries_ok:
  assumes "readable s" "file_rest s = concat (map entry_bytes es)" "\<forall>e \<in> set es. entry_ok e" "sched_sized sch"
    "tot + int (length (concat (map entry_bytes es))) < bytes_in_flash s"
  shows "\<exists>sch' s'. read_entries ident tot idx sch s =
      Some ((if find (\<lambda>(i, e). uint i = ident) es = None then 0 else 1), sch', s') \<and> \<not> fs_open s' \<and>
    (\<forall>i e. find (\<lambda>(i, e). uint i = ident) es = Some (i, e) \<longrightarrow> (\<exists>m. length m = 4 * TSCH_SCHEDULE_MAX_LINKS \<and> sch' = loaded e (sch\<lparr> link_mem := m \<rparr>)))"
  using assms
proof (induction es arbitrary: s sch tot idx)
  case Nil
  then obtain n sch' s' where "read_entry idx sch s = Some (0, n, idx, sch', s')" "n \<noteq> 0" using read_entry_eof by fastforce
  then show ?case by (subst read_entries.simps) (auto simp: close_file_def cfs_close_def)
next
  case (Cons x es)
  obtain i e where x: "x = (i, e)" by fastforce
  obtain s' where s': "read_entry idx sch s = Some (word_of_nat (length (entry_bytes (i, e))), int (length (entry_bytes (i, e))), i, loaded e sch, s')"
    "readable s'" "file_rest s' = concat (map entry_bytes es)" "cfs_state.more s' = cfs_state.more s"
    using read_entry_ok [OF Cons.prems(1), of i e _ sch idx] Cons.prems(2,3,4) x by auto
  have ok: "entry_ok (i, e)" using Cons.prems(3) x by simp
  have u: "uint (word_of_nat (length (entry_bytes (i, e))) :: u16) = int (length (entry_bytes (i, e)))"
    using entry_length [OF ok] by (simp add: unsigned_of_nat take_bit_nat_eq_self)
  have bf: "bytes_in_flash s' = bytes_in_flash s" using flash_more [OF s'(4)] by blast
  have tot: "tot + int (length (entry_bytes (i, e))) + int (length (concat (map entry_bytes es))) < bytes_in_flash s'"
    using Cons.prems(5) bf by (simp add: x)
  show ?case
  proof (cases "uint i = ident")
    case True
    have "loaded e sch = loaded e (sch\<lparr> link_mem := link_mem sch \<rparr>)" by simp
    then show ?thesis using s'(1) u True x Cons.prems(4)
      by (subst read_entries.simps) (auto simp: close_file_def cfs_close_def sched_sized_def)
  next
    case False
    have lt: "tot + int (length (entry_bytes (i, e))) < bytes_in_flash s'" using tot by linarith
    have eq: "read_entries ident tot idx sch s = read_entries ident (tot + int (length (entry_bytes (i, e)))) i (loaded e sch) s'"
      using s'(1) u False lt by (subst read_entries.simps) simp
    have lm: "loaded e' ((loaded e sch)\<lparr> link_mem := m \<rparr>) = loaded e' (sch\<lparr> link_mem := m \<rparr>)" for e' m by (simp add: loaded_def)
    show ?thesis unfolding eq
      using Cons.IH [OF s'(2,3) _ loaded_sized [OF ok Cons.prems(4)] tot, of i] Cons.prems(3) False
      by (simp add: x lm)
  qed
qed

lemma read_config_ok:
  assumes "readable s" "file_rest s = config_bytes c @ cs" "config_sized c" "config_sized config"
  shows "\<exists>s'. read_config config s = Some (34, c\<lparr> last_received_relayed_packet_of_flow := last_received_relayed_packet_of_flow config \<rparr>, s') \<and>
    readable s' \<and> file_rest s' = cs \<and> cfs_state.more s' = cfs_state.more s"
proof -
  note ok = assms(3,4) [unfolded config_sized_def]
  obtain s1 where s1: "read_u8 (schedule_length config) s = Some (1, schedule_length c, s1)" "readable s1" "cfs_state.more s1 = cfs_state.more s"
    "file_rest s1 = slot_frames c # sender_of_flow c @ receiver_of_flow c @ first_tx_slot_in_flow c @ last_tx_slot_in_flow c @ cs"
    using read_u8_ok [OF assms(1), of "schedule_length c" _ "schedule_length config"] assms(2) unfolding config_bytes_def by auto
  obtain s2 where s2: "read_u8 (slot_frames config) s1 = Some (1, slot_frames c, s2)" "readable s2" "cfs_state.more s2 = cfs_state.more s"
    "file_rest s2 = sender_of_flow c @ receiver_of_flow c @ first_tx_slot_in_flow c @ last_tx_slot_in_flow c @ cs"
    using read_u8_ok [OF s1(2,4)] s1(3) by metis
  obtain s3 where s3: "read_bytes (sender_of_flow config) 8 s2 = Some (8, sender_of_flow c, s3)" "readable s3" "cfs_state.more s3 = cfs_state.more s"
    "file_rest s3 = receiver_of_flow c @ first_tx_slot_in_flow c @ last_tx_slot_in_flow c @ cs"
    using read_bytes_ok [OF s2(2,4), of 8 "sender_of_flow config"] s2(3) ok by (auto simp: put_at_all)
  obtain s4 where s4: "read_bytes (receiver_of_flow config) 8 s3 = Some (8, receiver_of_flow c, s4)" "readable s4" "cfs_state.more s4 = cfs_state.more s"
    "file_rest s4 = first_tx_slot_in_flow c @ last_tx_slot_in_flow c @ cs"
    using read_bytes_ok [OF s3(2,4), of 8 "receiver_of_flow config"] s3(3) ok by (auto simp: put_at_all)
  obtain s5 where s5: "read_bytes (first_tx_slot_in_flow config) 8 s4 = Some (8, first_tx_slot_in_flow c, s5)" "readable s5" "cfs_state.more s5 = cfs_state.more s"
    "file_rest s5 = last_tx_slot_in_flow c @ cs"
    using read_bytes_ok [OF s4(2,4), of 8 "first_tx_slot_in_flow config"] s4(3) ok by (auto simp: put_at_all)
  obtain s6 where s6: "read_bytes (last_tx_slot_in_flow config) 8 s5 = Some (8, last_tx_slot_in_flow c, s6)" "readable s6" "cfs_state.more s6 = cfs_state.more s"
    "file_rest s6 = cs"
    using read_bytes_ok [OF s5(2,4), of 8 "last_tx_slot_in_flow config"] s5(3) ok by (auto simp: put_at_all)
  show ?thesis using s1(1) s2(1) s3(1) s4(1) s5(1) s6 by (simp add: read_config_def)
qed

text \<open>The parts of the schedule that are used: everything but the links beyond \<open>links_len\<close>.\<close>

definition same_schedule :: "master_tsch_schedule_t \<Rightarrow> master_tsch_schedule_t \<Rightarrow> bool" where
  "same_schedule a e \<longleftrightarrow> own_transmission_flow a = own_transmission_flow e \<and> own_receiver a = own_receiver e \<and>
     flow_forwards a = flow_forwards e \<and> max_transmission a = max_transmission e \<and> links_len a = links_len e \<and>
     (\<forall>k < unat (links_len e). schedule_link a k = schedule_link e k)"

lemma loaded_same:
  assumes "entry_ok (i, e)" "length (link_mem sch) = 4 * TSCH_SCHEDULE_MAX_LINKS"
  shows "same_schedule (loaded e sch) e"
proof -
  have "link_mem (loaded e sch) ! j = link_mem e ! j \<and> j < length (link_mem (loaded e sch)) \<and> j < length (link_mem e)"
    if "j < 4 * unat (links_len e)" for j
    using that assms by (auto simp: loaded_def entry_ok_def sched_sized_def nth_put_at)
  then have "schedule_link (loaded e sch) k = schedule_link e k" if "k < unat (links_len e)" for k
    using that by (simp add: schedule_link_def nth_opt_def)
  then show ?thesis by (simp add: same_schedule_def) (simp add: loaded_def)
qed

lemma read_from_flash_ok:
  assumes "flash_wf s" "fs_open s" "file_content s = config_bytes c @ concat (map entry_bytes es)"
    "int (length (file_content s)) \<le> bytes_in_flash s" "\<forall>e \<in> set es. entry_ok e"
    "config_sized c" "config_sized config" "sched_sized sch"
  shows "\<exists>sch' s'. read_from_flash_by_id config sch ident s =
      Some ((if find (\<lambda>(i, e). uint i = ident) es = None then 0 else 1),
        c\<lparr> last_received_relayed_packet_of_flow := last_received_relayed_packet_of_flow config \<rparr>, sch', s') \<and>
    (\<forall>i e. find (\<lambda>(i, e). uint i = ident) es = Some (i, e) \<longrightarrow> same_schedule sch' e) \<and> \<not> fs_open s'"
proof -
  obtain s1 s2 where s: "open_file (CFS_WRITE + CFS_READ) s = (True, s1)" "cfs_seek 0 CFS_SEEK_SET s1 = (0, s2)" "flash_wf s2" "fs_open s2"
    "f_fileptr s2 = 0" "simCFSData s2 = simCFSData s" "bytes_in_flash s2 = bytes_in_flash s"
    "f_endptr s2 = max (if fs_open s then f_endptr s else 0) 0"
    by (rule open_and_seek [OF assms(1), of 0]) simp_all
  have "f_endptr s2 = f_endptr s" using s(8) assms(1,2) by (auto simp: flash_wf_def cfs_wf_def)
  then have fr: "file_rest s2 = config_bytes c @ concat (map entry_bytes es)"
    using s(5,6) assms(3) by (simp add: file_rest_def file_content_def)
  have r: "readable s2" using flash_modes s(3,4) by blast
  obtain s3 where s3: "read_config config s2 = Some (34, c\<lparr> last_received_relayed_packet_of_flow := last_received_relayed_packet_of_flow config \<rparr>, s3)"
    "readable s3" "file_rest s3 = concat (map entry_bytes es)" "cfs_state.more s3 = cfs_state.more s2"
    using read_config_ok [OF r fr assms(6,7)] by blast
  have "bytes_in_flash s3 = bytes_in_flash s" using flash_more [OF s3(4)] s(7) by simp
  then have t: "0 + int (length (concat (map entry_bytes es))) < bytes_in_flash s3"
    using assms(3,4) by (simp add: config_bytes_def)
  obtain sch' s4 where s4: "read_entries ident 0 0 sch s3 = Some ((if find (\<lambda>(i, e). uint i = ident) es = None then 0 else 1), sch', s4)"
    "\<not> fs_open s4" and m: "\<forall>i e. find (\<lambda>(i, e). uint i = ident) es = Some (i, e) \<longrightarrow>
       (\<exists>m. length m = 4 * TSCH_SCHEDULE_MAX_LINKS \<and> sch' = loaded e (sch\<lparr> link_mem := m \<rparr>))"
    using read_entries_ok [OF s3(2,3) assms(5,8) t, of ident 0] by blast
  have same: "same_schedule sch' e" if f: "find (\<lambda>(i, e). uint i = ident) es = Some (i, e)" for i e
  proof -
    have "entry_ok (i, e)" using f assms(5) unfolding find_Some_iff by (metis nth_mem)
    moreover obtain k where "length k = 4 * TSCH_SCHEDULE_MAX_LINKS" "sch' = loaded e (sch\<lparr> link_mem := k \<rparr>)" using m f by blast
    ultimately show ?thesis using loaded_same [of i e "sch\<lparr> link_mem := k \<rparr>"] by simp
  qed
  have "read_from_flash_by_id config sch ident s = Some ((if find (\<lambda>(i, e). uint i = ident) es = None then 0 else 1),
        c\<lparr> last_received_relayed_packet_of_flow := last_received_relayed_packet_of_flow config \<rparr>, sch', s4)"
    unfolding read_from_flash_by_id_def s(1) prod.case bool.case s(2) using s3(1) s4(1) by simp
  then show ?thesis using same s4(2) by blast
qed

text \<open>
  C17. Parsing the schedule in flash: if the file holds the common configuration followed by the entries of nodes, in
  the format the schedule generator writes, \<open>read_from_flash_by_id\<close> terminates, returns the configuration and
  the first entry of the requested node (its flow, receiver, forwarding and retransmission tables and all its links), and
  returns 0 exactly when the node has no entry.
\<close>

theorem read_from_flash_by_id_correct:
  assumes "flash_wf s" "fs_open s" "file_content s = config_bytes c @ concat (map entry_bytes es)"
    "int (length (file_content s)) \<le> bytes_in_flash s" "\<forall>e \<in> set es. entry_ok e"
    "config_sized c" "config_sized config" "sched_sized sch"
  shows "\<exists>sch' s'. read_from_flash_by_id config sch ident s =
      Some ((if find (\<lambda>(i, e). uint i = ident) es = None then 0 else 1),
        c\<lparr> last_received_relayed_packet_of_flow := last_received_relayed_packet_of_flow config \<rparr>, sch', s') \<and>
    (\<forall>i e. find (\<lambda>(i, e). uint i = ident) es = Some (i, e) \<longrightarrow> same_schedule sch' e)"
  using read_from_flash_ok [OF assms] by blast

text \<open>A state with a given file content.\<close>

definition flash_with :: "u8 list \<Rightarrow> flash_state" where
  "flash_with bs = flash_boot\<lparr> f_open := True, f_access := RW, f_endptr := int (length bs), simCFSData := bs @ replicate (CFS_BUF_SIZE - length bs) 0,
     simCFSSize := int (length bs), bytes_in_flash := int (length bs), fs_open := True \<rparr>"

lemma flash_with_wf:
  assumes "length bs \<le> CFS_BUF_SIZE"
  shows "flash_wf (flash_with bs)" "fs_open (flash_with bs)" "file_content (flash_with bs) = bs" "bytes_in_flash (flash_with bs) = int (length bs)"
  using assms by (simp_all add: flash_with_def flash_wf_def cfs_wf_def file_content_def) (simp_all add: flash_boot_def)

definition node_sched :: "u8 \<Rightarrow> master_tsch_schedule_t" where
  "node_sched f = (schedule flash_boot)\<lparr> own_transmission_flow := f, own_receiver := (if f = 0 then 0 else 9), links_len := 1,
     link_mem := [f, 1, 5, 2] @ replicate 436 0 \<rparr>"

theorem read_from_flash_by_id_correct_witness:
  "\<exists>sch' s'. read_from_flash_by_id (schedule_config flash_boot) (schedule flash_boot) 4
      (flash_with (config_bytes (schedule_config flash_boot) @ concat (map entry_bytes [(3, node_sched 0), (4, node_sched 2)]))) =
    Some (1, schedule_config flash_boot, sch', s') \<and> own_receiver sch' = 9"
proof -
  let ?c = "schedule_config flash_boot" and ?es = "[(3 :: u8, node_sched 0), (4, node_sched 2)]"
  let ?bs = "config_bytes ?c @ concat (map entry_bytes ?es)"
  have z: "config_sized ?c" "sched_sized (schedule flash_boot)" by (simp_all add: config_sized_def sched_sized_def flash_boot_def)
  have ok: "\<forall>e \<in> set ?es. entry_ok e" by (simp add: entry_ok_def sched_sized_def node_sched_def) (simp add: flash_boot_def)
  have l: "length ?bs \<le> CFS_BUF_SIZE" by (simp add: config_bytes_def entry_bytes_def node_sched_def) (simp add: flash_boot_def)
  note w = flash_with_wf [OF l]
  have i: "int (length (file_content (flash_with ?bs))) \<le> bytes_in_flash (flash_with ?bs)" unfolding w(3,4) ..
  have "?c\<lparr> last_received_relayed_packet_of_flow := last_received_relayed_packet_of_flow ?c \<rparr> = ?c" by simp
  moreover have "find (\<lambda>(i, e). uint i = 4) ?es = Some (4, node_sched 2)" by simp
  moreover have "own_receiver (node_sched 2) = 9" by (simp add: node_sched_def)
  ultimately show ?thesis
    using read_from_flash_by_id_correct [OF w(1,2,3) i ok z(1) z(1) z(2), of 4] by (auto simp: same_schedule_def)
qed

end
