(* ===== verification/SerialUpload.thy ===== *)
theory SerialUpload
  imports SerialLine ScheduleUpload
begin

text \<open>
  The upload of a schedule from the bytes on the serial line to the file in flash: the serial line collects the lines, and the process of
  the schedule (\<open>os/net/master-routing/master-schedule.c\<close>) writes what they carry.
\<close>

definition upload_text :: "u8 list \<Rightarrow> u8 list list \<Rightarrow> u8 list \<Rightarrow> u8 list list" where
  "upload_text b css e = hex_text (MESSAGE_BEGIN # b) # map (\<lambda>c. hex_text (MESSAGE_CONTINUE # c)) css @ [hex_text (MESSAGE_END # e)]"

lemma hexdigit_char: "n < 16 \<Longrightarrow> hexdigit n \<noteq> 10 \<and> hexdigit n \<noteq> 13"
proof -
  assume "n < 16"
  then have "unat (hexdigit n) = (if n < 10 then 48 + n else 55 + n)" unfolding hexdigit_def by (simp del: of_nat_add)
  then show ?thesis by (auto split: if_splits)
qed

lemma hex_text_chars: "\<forall>c \<in> set (hex_text bs). c \<noteq> SERIAL_END \<and> \<not> IGNORE_CHAR c"
proof (induction bs)
  case (Cons b bs)
  have "unat b div 16 < 16" "unat b mod 16 < 16" using unat_lt_256 [of b] by linarith+
  then show ?case using Cons hexdigit_char by simp
qed simp

lemma upload_text_chars: "l \<in> set (upload_text b css e) \<Longrightarrow> \<forall>c \<in> set l. c \<noteq> SERIAL_END \<and> \<not> IGNORE_CHAR c"
  using hex_text_chars unfolding upload_text_def by (auto simp del: hex_text_simps)

lemma upload_text_length:
  "l \<in> set (upload_text b css e) \<Longrightarrow> length b \<le> 62 \<Longrightarrow> \<forall>c \<in> set css. length c \<le> 62 \<Longrightarrow> length e \<le> 62 \<Longrightarrow> length l \<le> 126"
  unfolding upload_text_def by (auto simp del: hex_text_simps(2))

lemma lines_of_text: "\<forall>l \<in> set ls. SERIAL_END \<notin> set l \<Longrightarrow> lines_from [] (concat (map (\<lambda>l. l @ [SERIAL_END]) ls)) = ls"
proof (induction ls)
  case (Cons l ls)
  then show ?case using lines_from_append [of l "[]" "SERIAL_END # concat (map (\<lambda>l. l @ [SERIAL_END]) ls)"] by simp
qed simp

lemma announced_text:
  assumes "length b \<le> 62" "\<forall>c \<in> set css. length c \<le> 62" "length e \<le> 62"
  shows "map announced (upload_text b css e) = upload_line MESSAGE_BEGIN b # map (upload_line MESSAGE_CONTINUE) css @ upload_line MESSAGE_END e # []"
proof -
  have "announced (hex_text (m # c)) = upload_line m c" if "length c \<le> 62" for m c
    using that by (simp add: announced_def upload_line_def del: hex_text_simps(2))
  then show ?thesis using assms by (simp add: upload_text_def del: hex_text_simps)
qed



end
