(* ===== verification/HashMap.thy ===== *)
theory HashMap
  imports ListLib
begin

text \<open>
  The hash map of fixed size (\<open>os/sys/hash-map.c\<close>), from 16-bit keys to 16-bit values: every entry lies in an array, key 0 marks
  a free one, and an entry whose home position is taken is put into another free entry and linked to the chain that starts at its home. Chains
  of different homes may run together. The size of the array (\<open>HASH_MAP_SIZE\<close>, 8, 25 or 40 according to the configuration) is
  a parameter: the length of the list. The theory shows that the table is a finite map.
\<close>

subsection \<open>The C operations\<close>

record hash_node_t =
  hn_key :: u16
  hn_val :: u16
  hn_next :: "nat option"

record hash_table_t =
  number_entries :: u8
  hn_list :: "hash_node_t list"

definition hash_map_clear_table :: "hash_table_t \<Rightarrow> hash_table_t" where
  "hash_map_clear_table table =
     table\<lparr> number_entries := 0, hn_list := map (\<lambda>n. n\<lparr> hn_key := 0, hn_val := 0, hn_next := None \<rparr>) (hn_list table) \<rparr>"

text \<open>The parameter of \<open>hash_code\<close> has 8 bits.\<close>

definition hash_code :: "nat \<Rightarrow> u8 \<Rightarrow> nat" where
  "hash_code n key = unat key mod n"

text \<open>The walk along a chain ends at the node of the key (\<open>Inl\<close>) or at the last node (\<open>Inr\<close>).\<close>

partial_function (option) find_key :: "hash_node_t list \<Rightarrow> u16 \<Rightarrow> nat \<Rightarrow> (nat + nat) option" where
  "find_key ns key node = do {
     n \<leftarrow> nth_opt ns node;
     if hn_key n = key then Some (Inl node)
     else case hn_next n of None \<Rightarrow> Some (Inr node) | Some m \<Rightarrow> find_key ns key m
   }"

fun find_free :: "hash_node_t list \<Rightarrow> nat list \<Rightarrow> nat option" where
  "find_free ns [] = None"
| "find_free ns (pos2 # ps) = (if hn_key (ns ! pos2) = 0 then Some pos2 else find_free ns ps)"

definition store_node :: "nat \<Rightarrow> u16 \<Rightarrow> u16 \<Rightarrow> hash_node_t list \<Rightarrow> hash_node_t list" where
  "store_node i key val ns = ns[i := (ns ! i)\<lparr> hn_key := key, hn_val := val \<rparr>]"

definition hash_map_insert :: "hash_table_t \<Rightarrow> u16 \<Rightarrow> u16 \<Rightarrow> (u8 \<times> hash_table_t) option" where
  "hash_map_insert table key val = do {
     let ns = hn_list table;
     let pos = hash_code (length ns) (ucast key);
     node \<leftarrow> nth_opt ns pos;
     if hn_key node = 0
     then Some (1, table\<lparr> hn_list := store_node pos key val ns, number_entries := number_entries table + 1 \<rparr>)
     else do {
       r \<leftarrow> find_key ns key pos;
       case r of
         Inl i \<Rightarrow> Some (1, table\<lparr> hn_list := ns[i := (ns ! i)\<lparr> hn_val := val \<rparr>] \<rparr>)
       | Inr prev_node \<Rightarrow>
           if length ns \<le> unat (number_entries table) then Some (0, table)
           else (case find_free ns ([pos..<length ns] @ [0..<pos]) of
                   None \<Rightarrow> Some (0, table)
                 | Some q \<Rightarrow>
                     (let ns = store_node q key val ns in
                      Some (1, table\<lparr> hn_list := ns[prev_node := (ns ! prev_node)\<lparr> hn_next := Some q \<rparr>],
                                     number_entries := number_entries table + 1 \<rparr>)))
     }
   }"

partial_function (option) lookup_loop :: "hash_node_t list \<Rightarrow> u16 \<Rightarrow> nat option \<Rightarrow> u16 option" where
  "lookup_loop ns key node =
     (case node of
        None \<Rightarrow> Some 0
      | Some i \<Rightarrow> do {
          n \<leftarrow> nth_opt ns i;
          if hn_key n = key then Some (hn_val n) else lookup_loop ns key (hn_next n)
        })"

definition hash_map_lookup :: "hash_table_t \<Rightarrow> u16 \<Rightarrow> u16 option" where
  "hash_map_lookup table key = lookup_loop (hn_list table) key (Some (hash_code (length (hn_list table)) (ucast key)))"

subsection \<open>The contract of a bounded map\<close>

text \<open>
  A map of at most \<open>cap\<close> keys with a default value for those it does not hold; \<open>map_run\<close> and \<open>map_spec\<close> are
  a client that inserts a sequence of entries, on the implementation and on a HOL map.
\<close>

primrec map_run :: "('t \<Rightarrow> 'k \<Rightarrow> 'v \<Rightarrow> ('r \<times> 't) option) \<Rightarrow> ('k \<times> 'v) list \<Rightarrow> 't \<Rightarrow> 't option" where
  "map_run ins [] t = Some t"
| "map_run ins (e # es) t = do { (_, t) \<leftarrow> ins t (fst e) (snd e); map_run ins es t }"

fun map_spec :: "nat \<Rightarrow> ('k \<rightharpoonup> 'v) \<Rightarrow> ('k \<times> 'v) list \<Rightarrow> ('k \<rightharpoonup> 'v)" where
  "map_spec n m [] = m"
| "map_spec n m ((k, v) # es) = map_spec n (if k \<in> dom m \<or> card (dom m) < n then m(k \<mapsto> v) else m) es"

locale bounded_map =
  fixes invar :: "'t \<Rightarrow> bool"
    and cap :: "'t \<Rightarrow> nat"
    and valid :: "'k \<Rightarrow> bool"
    and entries :: "'t \<Rightarrow> ('k \<rightharpoonup> 'v)"
    and ins :: "'t \<Rightarrow> 'k \<Rightarrow> 'v \<Rightarrow> ('r \<times> 't) option"
    and look :: "'t \<Rightarrow> 'k \<Rightarrow> 'v option"
    and dflt :: 'v
  assumes ins_ok: "invar t \<Longrightarrow> valid k \<Longrightarrow> \<exists>r t'. ins t k v = Some (r, t') \<and> invar t' \<and> cap t' = cap t \<and>
      entries t' = (if k \<in> dom (entries t) \<or> card (dom (entries t)) < cap t then (entries t)(k \<mapsto> v) else entries t)"
    and look_ok: "invar t \<Longrightarrow> valid k \<Longrightarrow> look t k = Some (case entries t k of None \<Rightarrow> dflt | Some v \<Rightarrow> v)"
begin

lemma run_ok:
  "invar t \<Longrightarrow> \<forall>e \<in> set es. valid (fst e) \<Longrightarrow> \<exists>t'. map_run ins es t = Some t' \<and> invar t' \<and> cap t' = cap t \<and> entries t' = map_spec (cap t) (entries t) es"
proof (induction es arbitrary: t)
  case (Cons e es)
  then obtain r t1 where t1: "ins t (fst e) (snd e) = Some (r, t1)" "invar t1" "cap t1 = cap t"
    "entries t1 = (if fst e \<in> dom (entries t) \<or> card (dom (entries t)) < cap t then (entries t)(fst e \<mapsto> snd e) else entries t)"
    using ins_ok [of t "fst e" "snd e"] by auto
  have s: "map_spec (cap t) (entries t) (e # es) = map_spec (cap t1) (entries t1) es" using t1(3,4) by (cases e) simp
  show ?case using Cons.IH [OF t1(2)] Cons.prems(2) t1(1,3) unfolding s by auto
qed simp

lemma run_look:
  assumes "invar t" "\<forall>e \<in> set es. valid (fst e)" "valid k"
  shows "\<exists>t'. map_run ins es t = Some t' \<and> look t' k = Some (case map_spec (cap t) (entries t) es k of None \<Rightarrow> dflt | Some v \<Rightarrow> v)"
  using run_ok [OF assms(1,2)] look_ok assms(3) by fastforce

end

text \<open>As long as there is room for every key, the specification is the list of entries read from its end.\<close>

lemma map_spec_room:
  "finite (dom m) \<Longrightarrow> card (dom m \<union> fst ` set es) \<le> n \<Longrightarrow> map_spec n m es = m ++ map_of (rev es)"
proof (induction es arbitrary: m)
  case (Cons e es)
  obtain k v where e: "e = (k, v)" by force
  have "card (dom m) < n" if "k \<notin> dom m"
  proof -
    have "card (insert k (dom m)) \<le> card (dom m \<union> fst ` set (e # es))" using Cons.prems(1) e by (intro card_mono) auto
    then show ?thesis using that Cons.prems by simp
  qed
  then have s: "map_spec n m (e # es) = map_spec n (m(k \<mapsto> v)) es" using e by auto
  have d: "dom (m(k \<mapsto> v)) \<union> fst ` set es = dom m \<union> fst ` set (e # es)" using e by auto
  have "map_spec n (m(k \<mapsto> v)) es = m(k \<mapsto> v) ++ map_of (rev es)" using Cons.IH [of "m(k \<mapsto> v)"] Cons.prems unfolding d by (simp del: fun_upd_apply)
  then show ?case unfolding s using e by (simp add: map_add_def fun_eq_iff split: option.split)
qed simp

subsection \<open>Chains and the invariant\<close>

definition used :: "hash_node_t list \<Rightarrow> nat set" where
  "used ns = {i. i < length ns \<and> hn_key (ns ! i) \<noteq> 0}"

definition hn_heap :: "hash_node_t list \<Rightarrow> heap" where
  "hn_heap ns i = hn_next (ns ! i)"

definition hn_chain :: "hash_node_t list \<Rightarrow> nat \<Rightarrow> nat list \<Rightarrow> bool" where
  "hn_chain ns i xs \<longleftrightarrow> chain (hn_heap ns) (Some i) xs \<and> set xs \<subseteq> used ns"

definition hn_home :: "hash_node_t list \<Rightarrow> u16 \<Rightarrow> nat" where
  "hn_home ns k = hash_code (length ns) (ucast k)"

text \<open>
  Every entry is on the chain of its home, chains consist of used entries, no key occurs twice, and free entries are clear.
\<close>

definition nodes_wf :: "hash_node_t list \<Rightarrow> bool" where
  "nodes_wf ns \<longleftrightarrow> 0 < length ns \<and> inj_on (\<lambda>i. hn_key (ns ! i)) (used ns) \<and>
     (\<forall>i \<in> used ns. \<exists>xs. hn_chain ns i xs) \<and> (\<forall>i \<in> used ns. \<exists>xs. hn_chain ns (hn_home ns (hn_key (ns ! i))) xs \<and> i \<in> set xs) \<and>
     (\<forall>i < length ns. i \<notin> used ns \<longrightarrow> hn_val (ns ! i) = 0 \<and> hn_next (ns ! i) = None)"

definition hash_wf :: "hash_table_t \<Rightarrow> bool" where
  "hash_wf t \<longleftrightarrow> nodes_wf (hn_list t) \<and> length (hn_list t) < 256 \<and> unat (number_entries t) = card (used (hn_list t))"

definition hash_entries :: "hash_table_t \<Rightarrow> (u16 \<rightharpoonup> u16)" where
  "hash_entries t = map_of (map (\<lambda>n. (hn_key n, hn_val n)) (filter (\<lambda>n. hn_key n \<noteq> 0) (hn_list t)))"

definition hash_cap :: "hash_table_t \<Rightarrow> nat" where
  "hash_cap t = length (hn_list t)"

lemma used_finite [simp]: "finite (used ns)"
  by (simp add: used_def)

lemma used_lt: "i \<in> used ns \<Longrightarrow> i < length ns"
  by (simp add: used_def)

lemma hn_home_lt [simp]: "0 < length ns \<Longrightarrow> hn_home ns k < length ns"
  by (simp add: hn_home_def hash_code_def)

lemma hn_chain_head: "hn_chain ns i xs \<Longrightarrow> i \<in> used ns"
  by (cases xs) (auto simp: hn_chain_def)

lemma entry_eq:
  assumes "nodes_wf ns" "i \<in> used ns" "hn_key (ns ! i) = k"
  shows "map_of (map (\<lambda>n. (hn_key n, hn_val n)) (filter (\<lambda>n. hn_key n \<noteq> 0) ns)) k = Some (hn_val (ns ! i))"
proof -
  let ?m = "map_of (map (\<lambda>n. (hn_key n, hn_val n)) (filter (\<lambda>n. hn_key n \<noteq> 0) ns))"
  have i: "i < length ns" "k \<noteq> 0" using assms(2,3) by (auto simp: used_def)
  then have "ns ! i \<in> set (filter (\<lambda>n. hn_key n \<noteq> 0) ns)" using assms(3) by simp
  then have "k \<in> hn_key ` set (filter (\<lambda>n. hn_key n \<noteq> 0) ns)" using assms(3) by (intro image_eqI [of k _ "ns ! i"]) simp_all
  then have "?m k \<noteq> None" unfolding map_of_eq_None_iff by (simp add: image_image)
  then obtain v where v: "?m k = Some v" by auto
  then obtain n where n: "n \<in> set ns" "hn_key n = k" "hn_val n = v" "hn_key n \<noteq> 0" by (auto dest!: map_of_SomeD)
  then obtain j where j: "j < length ns" "n = ns ! j" by (metis in_set_conv_nth)
  then have "j \<in> used ns" using n(4) by (simp add: used_def)
  then have "i = j" using assms n(2) j(2) by (auto simp: nodes_wf_def inj_on_def)
  then show ?thesis using v n j by simp
qed

lemma entry_none: "\<forall>i \<in> used ns. hn_key (ns ! i) \<noteq> k \<Longrightarrow>
    map_of (map (\<lambda>n. (hn_key n, hn_val n)) (filter (\<lambda>n. hn_key n \<noteq> 0) ns)) k = None"
  by (auto simp: map_of_eq_None_iff used_def in_set_conv_nth)

lemma dom_entries: "dom (hash_entries t) = (\<lambda>i. hn_key (hn_list t ! i)) ` used (hn_list t)"
  by (auto simp: hash_entries_def dom_map_of_conv_image_fst used_def in_set_conv_nth image_iff) metis

lemma card_entries: "nodes_wf (hn_list t) \<Longrightarrow> card (dom (hash_entries t)) = card (used (hn_list t))"
  unfolding dom_entries by (rule card_image) (simp add: nodes_wf_def)

subsection \<open>The walks\<close>

lemma find_key_ok:
  assumes "chain (hn_heap ns) (Some i) xs" "\<forall>j \<in> set xs. j < length ns"
  shows "(\<exists>j \<in> set xs. hn_key (ns ! j) = k \<and> find_key ns k i = Some (Inl j)) \<or> ((\<forall>j \<in> set xs. hn_key (ns ! j) \<noteq> k) \<and> find_key ns k i = Some (Inr (last xs)))"
  using assms
proof (induction xs arbitrary: i)
  case (Cons x xs)
  then have x: "x = i" "i < length ns" "chain (hn_heap ns) (hn_next (ns ! i)) xs" by (auto simp: hn_heap_def [of ns x, symmetric])
  show ?case
  proof (cases "hn_key (ns ! i) = k")
    case True
    then show ?thesis using x by (simp add: find_key.simps [of ns k i] nth_opt_def)
  next
    case False
    show ?thesis
    proof (cases "hn_next (ns ! i)")
      case None
      then have "xs = []" using x(3) by (cases xs) auto
      then show ?thesis using x None False by (simp add: find_key.simps [of ns k i] nth_opt_def)
    next
      case (Some m)
      then have "xs \<noteq> []" using x(3) by auto
      then show ?thesis using x(1,2) False Some Cons.IH [of m] x(3) Cons.prems(2) by (auto simp: find_key.simps [of ns k i] nth_opt_def)
    qed
  qed
qed simp

lemma lookup_loop_ok:
  assumes "chain (hn_heap ns) h xs" "\<forall>j \<in> set xs. j < length ns"
  shows "(\<exists>j \<in> set xs. hn_key (ns ! j) = k \<and> lookup_loop ns k h = Some (hn_val (ns ! j))) \<or> ((\<forall>j \<in> set xs. hn_key (ns ! j) \<noteq> k) \<and> lookup_loop ns k h = Some 0)"
  using assms
proof (induction xs arbitrary: h)
  case (Cons x xs)
  then have x: "h = Some x" "x < length ns" "chain (hn_heap ns) (hn_next (ns ! x)) xs" by (auto simp: hn_heap_def [of ns x, symmetric])
  then show ?case using Cons.IH [OF x(3)] Cons.prems(2) by (auto simp: lookup_loop.simps [of ns k "Some x"] nth_opt_def)
qed (simp add: lookup_loop.simps)

lemma find_free_ok:
  "(find_free ns ps = None \<and> (\<forall>p \<in> set ps. hn_key (ns ! p) \<noteq> 0)) \<or> (\<exists>q \<in> set ps. find_free ns ps = Some q \<and> hn_key (ns ! q) = 0)"
  by (induction ps) auto

text \<open>A key that the table holds is on the chain of its home.\<close>

lemma on_chain:
  assumes "nodes_wf ns" "hn_chain ns (hn_home ns k) xs" "i \<in> used ns" "hn_key (ns ! i) = k"
  shows "i \<in> set xs"
proof -
  have uniq: "chain nx g ys \<Longrightarrow> chain nx g zs \<Longrightarrow> ys = zs" for nx g ys zs
    by (induction ys arbitrary: g zs) (case_tac zs; auto)+
  obtain ys where "hn_chain ns (hn_home ns k) ys" "i \<in> set ys" using assms by (auto simp: nodes_wf_def)
  then show ?thesis using assms(2) uniq by (auto simp: hn_chain_def)
qed

lemma lookup_ok:
  assumes w: "hash_wf t" and k: "k \<noteq> 0"
  shows "hash_map_lookup t k = Some (case hash_entries t k of None \<Rightarrow> 0 | Some v \<Rightarrow> v)"
proof -
  let ?ns = "hn_list t"
  have n: "nodes_wf ?ns" using w by (simp add: hash_wf_def)
  have l: "hash_map_lookup t k = lookup_loop ?ns k (Some (hn_home ?ns k))" by (simp add: hash_map_lookup_def hn_home_def)
  have h: "hn_home ?ns k < length ?ns" using n by (simp add: nodes_wf_def)
  show ?thesis
  proof (cases "hn_home ?ns k \<in> used ?ns")
    case False
    then have free: "hn_key (?ns ! hn_home ?ns k) = 0" "hn_next (?ns ! hn_home ?ns k) = None" using h n by (auto simp: used_def nodes_wf_def)
    have "\<forall>i \<in> used ?ns. hn_key (?ns ! i) \<noteq> k" using n False hn_chain_head by (auto simp: nodes_wf_def)
    then have "hash_entries t k = None" unfolding hash_entries_def by (rule entry_none)
    then show ?thesis unfolding l using free k h by (simp add: lookup_loop.simps [of _ _ "Some _"] lookup_loop.simps [of _ _ None] nth_opt_def)
  next
    case True
    then obtain xs where xs: "hn_chain ?ns (hn_home ?ns k) xs" using n by (auto simp: nodes_wf_def)
    then have c: "chain (hn_heap ?ns) (Some (hn_home ?ns k)) xs" "\<forall>j \<in> set xs. j < length ?ns" "set xs \<subseteq> used ?ns" using used_lt by (auto simp: hn_chain_def)
    from lookup_loop_ok [OF c(1,2), of k] show ?thesis
    proof
      assume "\<exists>j \<in> set xs. hn_key (?ns ! j) = k \<and> lookup_loop ?ns k (Some (hn_home ?ns k)) = Some (hn_val (?ns ! j))"
      then show ?thesis unfolding l using entry_eq [OF n] c(3) by (auto simp: hash_entries_def)
    next
      assume a: "(\<forall>j \<in> set xs. hn_key (?ns ! j) \<noteq> k) \<and> lookup_loop ?ns k (Some (hn_home ?ns k)) = Some 0"
      then have "\<forall>i \<in> used ?ns. hn_key (?ns ! i) \<noteq> k" using on_chain [OF n xs] by blast
      then have "hash_entries t k = None" unfolding hash_entries_def by (rule entry_none)
      then show ?thesis unfolding l using a by simp
    qed
  qed
qed

subsection \<open>Insertion\<close>

text \<open>Adding an entry at a free position keeps all chains that are not extended.\<close>

lemma chain_last_unique: "chain nx h xs \<Longrightarrow> p \<in> set xs \<Longrightarrow> nx p = None \<Longrightarrow> p = last xs"
proof (induction xs arbitrary: h)
  case (Cons x xs)
  then show ?case by (cases xs) auto
qed simp

lemma chain_last_None: "chain nx h xs \<Longrightarrow> xs \<noteq> [] \<Longrightarrow> nx (last xs) = None"
  by (induction xs arbitrary: h) auto

lemma insert_free_home:
  fixes v :: u16
  assumes n: "nodes_wf ns" and h: "hn_home ns k \<notin> used ns" and k: "k \<noteq> 0"
  defines "ns' \<equiv> store_node (hn_home ns k) k v ns"
  shows "nodes_wf ns' \<and> used ns' = insert (hn_home ns k) (used ns) \<and> (\<forall>i \<in> used ns. ns' ! i = ns ! i) \<and> hn_key (ns' ! hn_home ns k) = k \<and> hn_val (ns' ! hn_home ns k) = v"
proof -
  let ?h = "hn_home ns k"
  have l: "?h < length ns" "length ns' = length ns" using n by (simp_all add: nodes_wf_def ns'_def store_node_def)
  have hm: "hn_home ns' x = hn_home ns x" for x using l(2) by (simp add: hn_home_def)
  have f: "hn_next (ns ! ?h) = None" using n h l by (simp add: nodes_wf_def)
  have at: "ns' ! ?h = (ns ! ?h)\<lparr> hn_key := k, hn_val := v \<rparr>" and off: "i \<noteq> ?h \<Longrightarrow> ns' ! i = ns ! i" for i
    using l(1) by (simp_all add: ns'_def store_node_def)
  have u: "used ns' = insert ?h (used ns)" 
  proof (rule set_eqI)
    show "i \<in> used ns' \<longleftrightarrow> i \<in> insert ?h (used ns)" for i using l k at off [of i] by (cases "i = ?h") (simp_all add: used_def)
  qed
  have same: "ns' ! i = ns ! i" if "i \<in> used ns" for i using that h by (intro off) auto
  have ch: "hn_chain ns' i xs" if "hn_chain ns i xs" for i xs
  proof -
    have "chain (hn_heap ns') (Some i) xs = chain (hn_heap ns) (Some i) xs" using that same by (intro chain_cong) (auto simp: hn_heap_def hn_chain_def)
    then show ?thesis using that u by (auto simp: hn_chain_def)
  qed
  have new: "hn_chain ns' ?h [?h]" using u at f by (simp add: hn_chain_def hn_heap_def)
  have nk: "hn_key (ns ! i) \<noteq> k" if "i \<in> used ns" for i using n that h hn_chain_head by (auto simp: nodes_wf_def)
  have "inj_on (\<lambda>i. hn_key (ns' ! i)) (used ns')" unfolding u using n same at nk h
    by (auto simp: nodes_wf_def inj_on_def)
  moreover have "\<forall>i \<in> used ns'. \<exists>xs. hn_chain ns' i xs" 
  proof
    show "\<exists>xs. hn_chain ns' i xs" if "i \<in> used ns'" for i using that n new ch [of i] unfolding u nodes_wf_def by blast
  qed
  moreover have "\<forall>i \<in> used ns'. \<exists>xs. hn_chain ns' (hn_home ns' (hn_key (ns' ! i))) xs \<and> i \<in> set xs"
  proof
    fix i assume "i \<in> used ns'"
    then consider "i = ?h" | "i \<in> used ns" using u by auto
    then show "\<exists>xs. hn_chain ns' (hn_home ns' (hn_key (ns' ! i))) xs \<and> i \<in> set xs"
    proof cases
      case 1
      then show ?thesis using new at hm by (auto intro!: exI [of _ "[?h]"])
    next
      case 2
      then obtain xs where "hn_chain ns (hn_home ns (hn_key (ns ! i))) xs" "i \<in> set xs" using n by (auto simp: nodes_wf_def)
      then show ?thesis using ch same [OF 2] hm by auto
    qed
  qed
  moreover have "\<forall>i < length ns'. i \<notin> used ns' \<longrightarrow> hn_val (ns' ! i) = 0 \<and> hn_next (ns' ! i) = None" using n u off l by (auto simp: nodes_wf_def)
  ultimately show ?thesis using u same at l n by (simp add: nodes_wf_def)
qed

lemma insert_linked:
  fixes v :: u16
  assumes n: "nodes_wf ns" and xs: "hn_chain ns (hn_home ns k) xs" and nk: "\<forall>i \<in> used ns. hn_key (ns ! i) \<noteq> k" and k: "k \<noteq> 0"
    and q: "q < length ns" "q \<notin> used ns"
  defines "ns1 \<equiv> store_node q k v ns"
  defines "ns' \<equiv> ns1[last xs := (ns1 ! last xs)\<lparr> hn_next := Some q \<rparr>]"
  shows "nodes_wf ns' \<and> used ns' = insert q (used ns) \<and>
    (\<forall>i \<in> used ns. hn_key (ns' ! i) = hn_key (ns ! i) \<and> hn_val (ns' ! i) = hn_val (ns ! i)) \<and> hn_key (ns' ! q) = k \<and> hn_val (ns' ! q) = v"
proof -
  let ?p = "last xs"
  have c: "chain (hn_heap ns) (Some (hn_home ns k)) xs" "set xs \<subseteq> used ns" "xs \<noteq> []" using xs by (auto simp: hn_chain_def)
  have p: "?p \<in> used ns" "?p < length ns" "?p \<noteq> q" "hn_next (ns ! ?p) = None"
  proof -
    show u: "?p \<in> used ns" using c(2,3) last_in_set by blast
    show "?p < length ns" "?p \<noteq> q" using used_lt [OF u] u q(2) by auto
    show "hn_next (ns ! ?p) = None" using chain_last_None [OF c(1,3)] by (simp add: hn_heap_def)
  qed
  have l: "length ns' = length ns" by (simp add: ns'_def ns1_def store_node_def)
  have hm: "hn_home ns' x = hn_home ns x" for x using l by (simp add: hn_home_def)
  have at: "ns' ! q = (ns ! q)\<lparr> hn_key := k, hn_val := v \<rparr>" "ns' ! ?p = (ns ! ?p)\<lparr> hn_next := Some q \<rparr>"
    and off: "i \<noteq> q \<Longrightarrow> i \<noteq> ?p \<Longrightarrow> ns' ! i = ns ! i" for i
    using q p by (simp_all add: ns'_def ns1_def store_node_def)
  have same: "hn_key (ns' ! i) = hn_key (ns ! i)" "hn_val (ns' ! i) = hn_val (ns ! i)" if "i \<noteq> q" for i using that off at by (cases "i = ?p"; simp)+
  have u: "used ns' = insert q (used ns)" 
  proof (rule set_eqI)
    show "i \<in> used ns' \<longleftrightarrow> i \<in> insert q (used ns)" for i using l k at(1) same(1) [of i] q(1) by (cases "i = q") (simp_all add: used_def)
  qed
  have qn: "hn_next (ns ! q) = None" using n q by (simp add: nodes_wf_def)
  have hp: "hn_heap ns' = (hn_heap ns)(q := None, ?p := Some q)" using at off qn by (auto simp: hn_heap_def fun_eq_iff)
  have ch: "\<exists>zs. hn_chain ns' i zs \<and> set ys \<subseteq> set zs \<and> (?p \<in> set ys \<longrightarrow> q \<in> set zs)" if "hn_chain ns i ys" for i ys
  proof (cases "?p \<in> set ys")
    case True
    have y: "chain (hn_heap ns) (Some i) ys" "set ys \<subseteq> used ns" "ys \<noteq> []" using that by (auto simp: hn_chain_def)
    have e: "?p = last ys" using chain_last_unique [OF y(1) True] p(4) by (simp add: hn_heap_def)
    have "chain ((hn_heap ns)(q := None, last ys := Some q)) (Some i) (ys @ [q])" using chain_link [OF y(1) chain_distinct [OF y(1)] y(3)] q y(2) by auto
    then have "hn_chain ns' i (ys @ [q])" using y(2) u unfolding hn_chain_def hp e by auto
    then show ?thesis by (intro exI [of _ "ys @ [q]"]) auto
  next
    case False
    have "q \<notin> set ys" using that q by (auto simp: hn_chain_def)
    then have "hn_chain ns' i ys" using that False u unfolding hn_chain_def hp by auto
    then show ?thesis using False by auto
  qed
  have new: "hn_chain ns' q [q]" using u hp p(3) by (simp add: hn_chain_def)
  have "inj_on (\<lambda>i. hn_key (ns' ! i)) (used ns')"
  proof -
    have "inj_on (\<lambda>i. hn_key (ns' ! i)) (used ns)" using n same q(2) by (auto simp: nodes_wf_def inj_on_def) (metis same(1))
    moreover have "hn_key (ns' ! q) \<notin> (\<lambda>i. hn_key (ns' ! i)) ` used ns" using nk at(1) same q(2) by (auto simp: image_iff) (metis same(1))
    ultimately show ?thesis unfolding u using q(2) by simp
  qed
  moreover have "\<forall>i \<in> used ns'. \<exists>xs. hn_chain ns' i xs" unfolding u using n ch new by (auto simp: nodes_wf_def) blast
  moreover have "\<forall>i \<in> used ns'. \<exists>xs. hn_chain ns' (hn_home ns' (hn_key (ns' ! i))) xs \<and> i \<in> set xs"
  proof
    fix i assume "i \<in> used ns'"
    then consider "i = q" | "i \<in> used ns" "i \<noteq> q" using u q by auto
    then show "\<exists>xs. hn_chain ns' (hn_home ns' (hn_key (ns' ! i))) xs \<and> i \<in> set xs"
    proof cases
      case 1
      then show ?thesis using ch [OF xs] c(3) at(1) hm by auto
    next
      case 2
      then obtain ys where "hn_chain ns (hn_home ns (hn_key (ns ! i))) ys" "i \<in> set ys" using n by (auto simp: nodes_wf_def)
      then show ?thesis using ch same [OF 2(2)] hm by (metis subsetD)
    qed
  qed
  moreover have "\<forall>i < length ns'. i \<notin> used ns' \<longrightarrow> hn_val (ns' ! i) = 0 \<and> hn_next (ns' ! i) = None"
  proof (intro allI impI)
    fix i assume i: "i < length ns'" "i \<notin> used ns'"
    then have "ns' ! i = ns ! i" using u p(1) by (intro off) auto
    then show "hn_val (ns' ! i) = 0 \<and> hn_next (ns' ! i) = None" using n i u l by (auto simp: nodes_wf_def)
  qed
  ultimately have "nodes_wf ns'" using l n by (simp add: nodes_wf_def)
  moreover have "\<forall>i \<in> used ns. hn_key (ns' ! i) = hn_key (ns ! i) \<and> hn_val (ns' ! i) = hn_val (ns ! i)" by (intro ballI conjI same) (use q(2) in auto)
  ultimately show ?thesis using u at by simp
qed

subsection \<open>The operations implement a bounded map\<close>

lemma entries_add:
  assumes n: "nodes_wf (hn_list t')" and u: "used (hn_list t') = insert q (used (hn_list t))"
    and o: "\<And>i. i \<in> used (hn_list t) \<Longrightarrow> i \<noteq> q \<Longrightarrow> hn_key (hn_list t' ! i) = hn_key (hn_list t ! i) \<and> hn_val (hn_list t' ! i) = hn_val (hn_list t ! i)"
    and old: "q \<in> used (hn_list t) \<Longrightarrow> hn_key (hn_list t ! q) = k"
    and q: "hn_key (hn_list t' ! q) = k" "hn_val (hn_list t' ! q) = v" and w: "nodes_wf (hn_list t)"
  shows "hash_entries t' = (hash_entries t)(k \<mapsto> v)"
proof
  fix x
  show "hash_entries t' x = ((hash_entries t)(k \<mapsto> v)) x"
  proof (cases "x = k")
    case True
    have "q \<in> used (hn_list t')" using u by simp
    from entry_eq [OF n this q(1)] show ?thesis using True q(2) by (simp add: hash_entries_def)
  next
    case False
    show ?thesis
    proof (cases "\<exists>i \<in> used (hn_list t). hn_key (hn_list t ! i) = x")
      case True
      then obtain i where i: "i \<in> used (hn_list t)" "hn_key (hn_list t ! i) = x" by auto
      then have d: "i \<noteq> q" using old False by auto
      have "i \<in> used (hn_list t')" "hn_key (hn_list t' ! i) = x" using u o [OF i(1) d] i by auto
      from entry_eq [OF n this] entry_eq [OF w i] show ?thesis using False o [OF i(1) d] by (simp add: hash_entries_def)
    next
      case none: False
      then have "\<forall>i \<in> used (hn_list t'). hn_key (hn_list t' ! i) \<noteq> x" using u o q(1) False by (metis insertE)
      from entry_none [OF this] entry_none [of "hn_list t" x] show ?thesis using False none by (simp add: hash_entries_def)
    qed
  qed
qed

lemma entries_add_wf:
  assumes w: "hash_wf t" and l: "length (hn_list t') = length (hn_list t)" and n: "nodes_wf (hn_list t')" and q: "q < length (hn_list t)" "q \<notin> used (hn_list t)"
    and u: "used (hn_list t') = insert q (used (hn_list t))" and e: "number_entries t' = number_entries t + 1"
  shows "hash_wf t'"
proof -
  have "used (hn_list t') \<subseteq> {..<length (hn_list t')}" by (auto simp: used_def)
  from card_mono [OF _ this] have "card (used (hn_list t')) < 256" using w l by (simp add: hash_wf_def)
  then have "card (used (hn_list t)) + 1 < 256" using u q by simp
  then have "unat (number_entries t + 1) = card (used (hn_list t)) + 1" using w by (simp add: hash_wf_def unat_word_ariths)
  then show ?thesis using w l n u e q by (simp add: hash_wf_def)
qed

lemma update_value:
  fixes v :: u16
  assumes n: "nodes_wf ns" and j: "j \<in> used ns"
  defines "ns' \<equiv> ns[j := (ns ! j)\<lparr> hn_val := v \<rparr>]"
  shows "nodes_wf ns'" "used ns' = used ns" "\<forall>i. i \<noteq> j \<longrightarrow> ns' ! i = ns ! i" "hn_key (ns' ! j) = hn_key (ns ! j)" "hn_val (ns' ! j) = v"
proof -
  have l: "j < length ns" "length ns' = length ns" using used_lt [OF j] by (simp_all add: ns'_def)
  show off: "\<forall>i. i \<noteq> j \<longrightarrow> ns' ! i = ns ! i" by (simp add: ns'_def)
  have at: "ns' ! j = (ns ! j)\<lparr> hn_val := v \<rparr>" using l by (simp add: ns'_def)
  then show "hn_key (ns' ! j) = hn_key (ns ! j)" "hn_val (ns' ! j) = v" by simp_all
  have key: "hn_key (ns' ! i) = hn_key (ns ! i)" "hn_next (ns' ! i) = hn_next (ns ! i)" for i using off at by (cases "i = j"; simp)+
  show u: "used ns' = used ns" using l key by (simp add: used_def)
  have hp: "hn_heap ns' = hn_heap ns" using key by (simp add: hn_heap_def fun_eq_iff)
  have "hn_val (ns' ! i) = hn_val (ns ! i)" if "i \<notin> used ns" for i using that j off by (cases "i = j") auto
  then show "nodes_wf ns'" using n l key u by (auto simp: nodes_wf_def hn_chain_def hn_home_def hp)
qed

lemma insert_ok:
  assumes w: "hash_wf t" and k: "k \<noteq> 0"
  shows "\<exists>t'. hash_map_insert t k v = Some (if k \<in> dom (hash_entries t) \<or> card (dom (hash_entries t)) < hash_cap t then 1 else 0, t') \<and>
    hash_wf t' \<and> hash_cap t' = hash_cap t \<and>
    hash_entries t' = (if k \<in> dom (hash_entries t) \<or> card (dom (hash_entries t)) < hash_cap t then (hash_entries t)(k \<mapsto> v) else hash_entries t)"
proof -
  let ?ns = "hn_list t" let ?h = "hn_home ?ns k"
  have n: "nodes_wf ?ns" using w by (simp add: hash_wf_def)
  have h: "?h < length ?ns" using n by (simp add: nodes_wf_def)
  have cu: "card (dom (hash_entries t)) = card (used ?ns)" by (rule card_entries [OF n])
  have uc: "used ?ns \<subseteq> {..<length ?ns}" by (auto simp: used_def)
  show ?thesis
  proof (cases "?h \<in> used ?ns")
    case False
    let ?t = "t\<lparr> hn_list := store_node ?h k v ?ns, number_entries := number_entries t + 1 \<rparr>"
    have s: "hash_map_insert t k v = Some (1, ?t)" using False h by (simp add: hash_map_insert_def nth_opt_def hn_home_def used_def Let_def)
    from insert_free_home [OF n False k, of v] have f: "nodes_wf (hn_list ?t)" "used (hn_list ?t) = insert ?h (used ?ns)" "\<forall>i \<in> used ?ns. hn_list ?t ! i = ?ns ! i"
      "hn_key (hn_list ?t ! ?h) = k" "hn_val (hn_list ?t ! ?h) = v" by simp_all
    have l: "length (hn_list ?t) = length ?ns" by (simp add: store_node_def)
    have "used ?ns \<subset> {..<length ?ns}" using uc h False by auto
    then have "card (used ?ns) < length ?ns" using psubset_card_mono [of "{..<length ?ns}" "used ?ns"] by simp
    moreover have "hash_entries ?t = (hash_entries t)(k \<mapsto> v)" by (rule entries_add [OF f(1,2) _ _ f(4,5) n]) (use f(3) False in auto)
    ultimately show ?thesis using s entries_add_wf [OF w l f(1) h False f(2)] l cu by (simp add: hash_cap_def)
  next
    case True
    then obtain xs where xs: "hn_chain ?ns ?h xs" using n by (auto simp: nodes_wf_def)
    then have c: "chain (hn_heap ?ns) (Some ?h) xs" "\<forall>j \<in> set xs. j < length ?ns" "set xs \<subseteq> used ?ns" using used_lt by (auto simp: hn_chain_def)
    have hk: "hn_key (?ns ! ?h) \<noteq> 0" using True by (simp add: used_def)
    note start = hash_map_insert_def [of t k v, unfolded hn_home_def [symmetric]]
    from find_key_ok [OF c(1,2), of k] show ?thesis
    proof
      assume "\<exists>j \<in> set xs. hn_key (?ns ! j) = k \<and> find_key ?ns k ?h = Some (Inl j)"
      then obtain j where j: "j \<in> used ?ns" "hn_key (?ns ! j) = k" "find_key ?ns k ?h = Some (Inl j)" using c(3) by auto
      let ?t = "t\<lparr> hn_list := ?ns[j := (?ns ! j)\<lparr> hn_val := v \<rparr>] \<rparr>"
      have s: "hash_map_insert t k v = Some (1, ?t)" using h hk j(3) unfolding start by (simp add: nth_opt_def Let_def)
      note f = update_value [OF n j(1), of v]
      have "used (hn_list ?t) = insert j (used ?ns)" using f(2) j(1) by auto
      then have "hash_entries ?t = (hash_entries t)(k \<mapsto> v)" by (rule entries_add [OF _ _ _ _ _ _ n, rotated]) (use f j(2) in auto)
      moreover have "k \<in> dom (hash_entries t)" using j by (auto simp: dom_entries)
      ultimately show ?thesis using s f(1,2) w by (auto simp: hash_cap_def hash_wf_def)
    next
      assume a: "(\<forall>j \<in> set xs. hn_key (?ns ! j) \<noteq> k) \<and> find_key ?ns k ?h = Some (Inr (last xs))"
      then have nk: "\<forall>i \<in> used ?ns. hn_key (?ns ! i) \<noteq> k" using on_chain [OF n xs] by blast
      then have nd: "k \<notin> dom (hash_entries t)" by (auto simp: dom_entries)
      show ?thesis
      proof (cases "card (used ?ns) < length ?ns")
        case False
        then have "hash_map_insert t k v = Some (0, t)" using h hk a w unfolding start by (auto simp: nth_opt_def Let_def hash_wf_def)
        then show ?thesis using nd False cu w by (simp add: hash_cap_def)
      next
        case room: True
        let ?ps = "[?h..<length ?ns] @ [0..<?h]"
        have ps: "set ?ps = {..<length ?ns}" using h by auto
        have "\<not> (\<forall>p \<in> set ?ps. hn_key (?ns ! p) \<noteq> 0)"
        proof
          assume "\<forall>p \<in> set ?ps. hn_key (?ns ! p) \<noteq> 0"
          then have "used ?ns = {..<length ?ns}" unfolding ps by (auto simp: used_def)
          then show False using room by simp
        qed
        then obtain q where q: "q \<in> {..<length ?ns}" "find_free ?ns ?ps = Some q" "hn_key (?ns ! q) = 0" using find_free_ok [of ?ns ?ps] unfolding ps by blast
        then have q': "q < length ?ns" "q \<notin> used ?ns" by (simp_all add: used_def)
        let ?n1 = "store_node q k v ?ns"
        let ?t = "t\<lparr> hn_list := ?n1[last xs := (?n1 ! last xs)\<lparr> hn_next := Some q \<rparr>], number_entries := number_entries t + 1 \<rparr>"
        have s: "hash_map_insert t k v = Some (1, ?t)" using h hk a w room q(2) unfolding start by (simp add: nth_opt_def Let_def hash_wf_def)
        from insert_linked [OF n xs nk k q', of v] have f: "nodes_wf (hn_list ?t)" "used (hn_list ?t) = insert q (used ?ns)"
          "\<forall>i \<in> used ?ns. hn_key (hn_list ?t ! i) = hn_key (?ns ! i) \<and> hn_val (hn_list ?t ! i) = hn_val (?ns ! i)"
          "hn_key (hn_list ?t ! q) = k" "hn_val (hn_list ?t ! q) = v" by simp_all
        have l: "length (hn_list ?t) = length ?ns" by (simp add: store_node_def)
        have "hash_entries ?t = (hash_entries t)(k \<mapsto> v)" by (rule entries_add [OF f(1,2) _ _ f(4,5) n]) (use f(3) q'(2) in auto)
        then show ?thesis using s entries_add_wf [OF w l f(1) q' f(2)] l cu room by (simp add: hash_cap_def)
      qed
    qed
  qed
qed

interpretation hm: bounded_map hash_wf hash_cap "\<lambda>k. k \<noteq> 0" hash_entries hash_map_insert hash_map_lookup 0
proof
  fix t k v assume "hash_wf t" "k \<noteq> (0 :: u16)"
  from insert_ok [OF this, of v] show "\<exists>r t'. hash_map_insert t k v = Some (r, t') \<and> hash_wf t' \<and> hash_cap t' = hash_cap t \<and>
      hash_entries t' = (if k \<in> dom (hash_entries t) \<or> card (dom (hash_entries t)) < hash_cap t then (hash_entries t)(k \<mapsto> v) else hash_entries t)" by blast
qed (rule lookup_ok)

lemma clear_ok:
  assumes "0 < length (hn_list t)" "length (hn_list t) < 256"
  shows "hash_wf (hash_map_clear_table t) \<and> hash_entries (hash_map_clear_table t) = Map.empty \<and> hash_cap (hash_map_clear_table t) = length (hn_list t)"
proof -
  let ?ns = "hn_list (hash_map_clear_table t)"
  have n: "?ns ! i = (hn_list t ! i)\<lparr> hn_key := 0, hn_val := 0, hn_next := None \<rparr>" if "i < length ?ns" for i using that by (simp add: hash_map_clear_table_def)
  have u: "used ?ns = {}" using n by (auto simp: used_def)
  have l: "length ?ns = length (hn_list t)" by (simp add: hash_map_clear_table_def)
  have "hash_wf (hash_map_clear_table t)" using assms u n l by (simp add: hash_wf_def nodes_wf_def) (simp add: hash_map_clear_table_def)
  moreover have "dom (hash_entries (hash_map_clear_table t)) = {}" unfolding dom_entries u by simp
  ultimately show ?thesis using l by (simp add: hash_cap_def)
qed


text \<open>Three keys with the same home in a table of four entries, and a fourth one whose home they have taken.\<close>

definition four_nodes :: hash_table_t where
  "four_nodes = \<lparr> number_entries = 9, hn_list = replicate 4 \<lparr> hn_key = 7, hn_val = 8, hn_next = Some 3 \<rparr> \<rparr>"


text \<open>The key 0 is not refused: it is counted as an entry every time it is inserted, until the counter says that a table without entries is full.\<close>

lemma hash_map_insert_zero:
  assumes "0 < length (hn_list t)" "hn_key (hn_list t ! 0) = 0"
  shows "\<exists>t'. hash_map_insert t 0 v = Some (1, t') \<and> number_entries t' = number_entries t + 1 \<and> used (hn_list t') = used (hn_list t)"
proof -
  have "hash_code (length (hn_list t)) (ucast (0 :: u16)) = 0" by (simp add: hash_code_def)
  moreover have "used (store_node 0 0 v (hn_list t)) = used (hn_list t)"
  proof (rule set_eqI)
    show "i \<in> used (store_node 0 0 v (hn_list t)) \<longleftrightarrow> i \<in> used (hn_list t)" for i using assms by (cases "i = 0") (simp_all add: used_def store_node_def)
  qed
  ultimately show ?thesis using assms by (simp add: hash_map_insert_def nth_opt_def Let_def)
qed

end
