(* ===== verification/QueueReset.thy ===== *)
theory QueueReset
  imports TschScheduleProps
begin

text \<open>
  Emptying the queues (\<open>tsch_queue_flush_nbr_queue\<close> and \<open>tsch_queue_reset\<close> of \<open>os/net/mac/tsch/tsch-queue.c\<close>): both loops end when the
  callbacks of the packets do not queue new ones, and then every queue is empty and its packets are freed.
\<close>

subsection \<open>One queue\<close>

text \<open>The callbacks of the packets that are allocated.\<close>

definition callbacks :: "'a tsch_state_scheme \<Rightarrow> mac_callback_t set" where
  "callbacks s = (\<lambda>p. tp_sent (pkt s p)) ` memb_used (packet_memb s)"

text \<open>A callback that leaves the states alone in which the layers above have the given state.\<close>

definition quiet :: "'a tsch_state_scheme mac_cb \<Rightarrow> mac_callback_t set \<Rightarrow> 'a \<Rightarrow> bool" where
  "quiet cb C m \<longleftrightarrow> (\<forall>c \<in> C. \<forall>k t. tsch_state.more t = m \<longrightarrow> mac_call_sent_callback cb c MAC_TX_ERR k t = Some t)"

lemma quiet_mono: "quiet cb C m \<Longrightarrow> D \<subseteq> C \<Longrightarrow> quiet cb D m"
  unfolding quiet_def by blast

lemma remove_packet_more:
  "tsch_queue_remove_packet_from_queue n s = Some (r, s') \<Longrightarrow> tsch_state.more s' = tsch_state.more s"
  by (auto simp: tsch_queue_remove_packet_from_queue_def Let_def split: if_splits option.splits prod.splits Option.bind_splits)

lemma free_packet_more: "tsch_state.more (tsch_queue_free_packet p s) = tsch_state.more s"
  by (simp add: tsch_queue_free_packet_def queuebuf_free_def Let_def split: option.split)

lemma set_pkt_more [simp]: "tsch_state.more (set_pkt p x s) = tsch_state.more s"
  by (simp add: set_pkt_def)

text \<open>What the reset keeps and what it leaves behind.\<close>

definition flushed :: "nat set \<Rightarrow> 'a tsch_state_scheme \<Rightarrow> 'a tsch_state_scheme \<Rightarrow> bool" where
  "flushed N s s' \<longleftrightarrow> q_wf s' \<and> \<not> tsch_locked s' \<and> neighbor_list s' = neighbor_list s \<and> tsch_state.more s' = tsch_state.more s \<and>
     callbacks s' \<subseteq> callbacks s \<and> (\<forall>n. qpackets s' n = (if n \<in> N then [] else qpackets s n))"

lemma flushed_trans: "flushed M s t \<Longrightarrow> flushed N t u \<Longrightarrow> flushed (M \<union> N) s u"
  unfolding flushed_def by auto

lemma drop_packet:
  assumes w: "q_wf s" "\<not> tsch_locked s" and n: "n \<in> set (neighbor_list s)" "qpackets s n = p # ps"
    and cb: "quiet cb (callbacks s) (tsch_state.more s)"
  obtains s' where "tsch_queue_flush_nbr_queue cb n s = tsch_queue_flush_nbr_queue cb n s'" "q_wf s'" "\<not> tsch_locked s'"
    "neighbor_list s' = neighbor_list s" "tsch_state.more s' = tsch_state.more s" "callbacks s' \<subseteq> callbacks s"
    "qpackets s' n = ps" "\<And>k. k \<noteq> n \<Longrightarrow> qpackets s' k = qpackets s k"
proof -
  obtain s1 where s1: "tsch_queue_remove_packet_from_queue (Some n) s = Some (Some p, s1)" "q_wf s1" "\<not> tsch_locked s1"
    "qpackets s1 n = ps" "\<forall>k. k \<noteq> n \<longrightarrow> qpackets s1 k = qpackets s k" "pkt s1 = pkt s" "packet_memb s1 = packet_memb s"
    "neighbor_list s1 = neighbor_list s" using remove_packet_cons [OF w n] by blast
  have p: "p \<in> memb_used (packet_memb s)" using q_wfD(9) [OF w(1) n(1)] n(2) by simp
  have un: "p \<notin> set (qpackets s1 k)" if k: "k \<in> set (neighbor_list s1)" for k
  proof (cases "k = n")
    case True
    then show ?thesis using q_wfD(8) [OF w(1) n(1)] n(2) s1(4) by simp
  next
    case False
    have "set (qpackets s n) \<inter> set (qpackets s k) = {}" using w(1) n(1) k False unfolding q_wf_def pkts_wf_def s1(8) by blast
    then show ?thesis using n(2) s1(5) False by auto
  qed
  let ?t = "set_pkt p ((pkt s1 p)\<lparr> tp_ret := MAC_TX_ERR \<rparr>) s1"
  have t: "q_wf ?t" "tp_sent (pkt ?t p) = tp_sent (pkt s p)" using set_pkt_wf [OF s1(2)] s1(6) by (auto simp: pkt_set_pkt)
  have m: "tsch_state.more ?t = tsch_state.more s" using remove_packet_more [OF s1(1)] by simp
  have r: "tp_ret (pkt ?t p) = MAC_TX_ERR" using mb.used_bound [OF q_wfD(3) [OF w(1)]] p s1(7) by (auto simp: pkt_set_pkt)
  have "mac_call_sent_callback cb (tp_sent (pkt ?t p)) (tp_ret (pkt ?t p)) (tp_transmissions (pkt ?t p)) ?t = Some ?t"
    using cb p m unfolding quiet_def callbacks_def t(2) r by blast
  moreover have "\<not> tsch_queue_is_empty (Some n) s"
    using ring_empty_iff [OF q_wfD(6) [OF w(1) n(1)]] n(2) by (auto simp: tsch_queue_is_empty_def qpackets_def)
  ultimately have e: "tsch_queue_flush_nbr_queue cb n s = tsch_queue_flush_nbr_queue cb n (tsch_queue_free_packet (Some p) ?t)"
    using s1(1) by (subst tsch_queue_flush_nbr_queue.simps) (simp add: Let_def)
  have q: "qpackets ?t = qpackets s1" by (simp add: qpackets_def fun_eq_iff)
  have f: "p \<in> memb_used (packet_memb ?t)" "\<And>k. k \<in> set (neighbor_list ?t) \<Longrightarrow> p \<notin> set (qpackets ?t k)"
    using p s1(7) un q by simp_all
  note fr = free_packet_wf [OF t(1) f]
  have "tp_sent (pkt ?t q) = tp_sent (pkt s q)" for q using s1(6) by (simp add: pkt_set_pkt)
  moreover have "memb_used (packet_memb ?t) = memb_used (packet_memb s)" using s1(7) by simp
  ultimately have c: "callbacks (tsch_queue_free_packet (Some p) ?t) \<subseteq> callbacks s" using fr(3,9) unfolding callbacks_def by (simp only:) blast
  show ?thesis
    by (rule that [OF e fr(1)]) (use fr(4,5,7) c s1(3-5,8) m in \<open>simp_all add: free_packet_more q\<close>)
qed

lemma flush_ok:
  assumes "q_wf s" "\<not> tsch_locked s" "n \<in> set (neighbor_list s)" "quiet cb (callbacks s) (tsch_state.more s)"
  shows "\<exists>s'. tsch_queue_flush_nbr_queue cb n s = Some s' \<and> flushed {n} s s'"
  using assms
proof (induction "qpackets s n" arbitrary: s)
  case Nil
  then have "tsch_queue_is_empty (Some n) s"
    using ring_empty_iff [OF q_wfD(6) [OF Nil.prems(1,3)]] by (simp add: tsch_queue_is_empty_def qpackets_def tsch_is_locked_def)
  then show ?case using Nil by (auto simp: tsch_queue_flush_nbr_queue.simps flushed_def)
next
  case (Cons p ps)
  obtain t where t: "tsch_queue_flush_nbr_queue cb n s = tsch_queue_flush_nbr_queue cb n t" "q_wf t" "\<not> tsch_locked t"
    "neighbor_list t = neighbor_list s" "tsch_state.more t = tsch_state.more s" "callbacks t \<subseteq> callbacks s"
    "qpackets t n = ps" "\<And>k. k \<noteq> n \<Longrightarrow> qpackets t k = qpackets s k"
    using drop_packet [OF Cons.prems(1-3) Cons.hyps(2) [symmetric] Cons.prems(4)] by metis
  have q: "quiet cb (callbacks t) (tsch_state.more t)" using quiet_mono [OF Cons.prems(4) t(6)] t(5) by simp
  obtain s' where "tsch_queue_flush_nbr_queue cb n t = Some s'" "flushed {n} t s'"
    using Cons.hyps(1) [OF t(7) [symmetric] t(2,3) _ q] Cons.prems(3) t(4) by auto
  then show ?case using t unfolding flushed_def by auto
qed

subsection \<open>All queues\<close>

lemma backoff_reset_flushed:
  assumes "q_wf s" "\<not> tsch_locked s" "n \<in> set (neighbor_list s)"
  shows "flushed {} s (tsch_queue_backoff_reset n s)"
  using backoff_reset_wf [OF assms(1,3)] assms(2) q_wfD(7) [OF assms(1,3)]
  by (simp add: flushed_def callbacks_def tsch_queue_backoff_reset_def qpackets_def nbr_set_nbr)

lemma reset_loop_ok:
  assumes "q_wf s" "\<not> tsch_locked s" "neighbor_list s = ms @ ns" "quiet cb (callbacks s) (tsch_state.more s)"
  shows "\<exists>s'. queue_reset_loop cb (list_first ns) s = Some s' \<and> flushed (set ns) s s'"
  using assms
proof (induction ns arbitrary: s ms)
  case Nil
  then show ?case by (simp add: list_first_def queue_reset_loop.simps flushed_def)
next
  case (Cons n ns)
  have d: "n \<notin> set ms" "n \<notin> set ns" using q_wfD(4) [OF Cons.prems(1)] Cons.prems(3) by auto
  have it: "item_after n (neighbor_list s) = list_first ns"
  proof -
    have "item_after n (ms @ n # ns) = list_first ns" using d(1) by (induction ms) (auto simp: list_first_def)
    then show ?thesis using Cons.prems(3) by simp
  qed
  have n: "n \<in> set (neighbor_list s)" using Cons.prems(3) by simp
  obtain t where t: "tsch_queue_flush_nbr_queue cb n s = Some t" "flushed {n} s t" using flush_ok [OF Cons.prems(1,2) n Cons.prems(4)] by blast
  let ?u = "tsch_queue_backoff_reset n t"
  have "flushed {} t ?u" using t(2) n by (intro backoff_reset_flushed) (simp_all add: flushed_def)
  then have u: "flushed {n} s ?u" using flushed_trans [OF t(2)] by fastforce
  have "quiet cb (callbacks ?u) (tsch_state.more ?u)" using u quiet_mono [OF Cons.prems(4)] by (simp add: flushed_def)
  then obtain s' where s': "queue_reset_loop cb (list_first ns) ?u = Some s'" "flushed (set ns) ?u s'"
    using Cons.IH [of ?u "ms @ [n]"] u Cons.prems(3) by (auto simp: flushed_def)
  have "queue_reset_loop cb (list_first (n # ns)) s = queue_reset_loop cb (list_first ns) ?u"
    using t(1) it by (subst queue_reset_loop.simps) (simp add: list_first_def Let_def)
  then show ?case using s' flushed_trans [OF u s'(2)] by simp
qed

lemma tsch_queue_reset_ok:
  assumes "q_wf s" "\<not> tsch_locked s" "quiet cb (callbacks s) (tsch_state.more s)"
  shows "\<exists>s'. tsch_queue_reset cb s = Some s' \<and> q_wf s' \<and> \<not> tsch_locked s' \<and> tsch_state.more s' = tsch_state.more s \<and> (\<forall>a. queues s' a = [])"
proof -
  obtain s' where s': "queue_reset_loop cb (list_first (neighbor_list s)) s = Some s'" "flushed (set (neighbor_list s)) s s'"
    using reset_loop_ok [OF assms(1,2) _ assms(3), of "[]"] by auto
  have "queues s' a = []" for a
  proof (cases "\<exists>n \<in> set (neighbor_list s'). n_addr (nbr s' n) = a")
    case True
    then show ?thesis using queues_at [of s'] s'(2) by (auto simp: flushed_def)
  qed (use queues_none [of s' a] in blast)
  then show ?thesis using s' assms(2) by (simp add: tsch_queue_reset_def tsch_is_locked_def flushed_def)
qed

end
