(* ===== verification/MasterNet.thy ===== *)
theory MasterNet
  imports Tsch
begin

text \<open>
  The network layer of MASTER (\<open>os/net/master-net/master-net.c\<close>): it copies the packet of the routing layer into the
  packet buffer, sets the attributes the routing layer configured and hands the packet to the MAC layer; received
  packets go to the input callback. The functions set as callbacks are parameters; the state records
  which are set. The pointer \<open>masternet_buf\<close> is the parameter \<open>buf\<close>, the bytes it points to.
\<close>

record master_packetbuf_config_t =
  ttl_slot_number :: u16
  earliest_tx_slot :: u16
  flow_number :: u16
  max_tx :: u16
  command :: u8
  packet_nbr :: u8
  overhearing_active :: u8
  send_to_nbr :: u8

record masternet_state = mac_state +
  masternet_len :: u16
  current_input_callback :: bool
  current_output_callback :: mac_callback_t
  config_callback :: bool

definition MAC_MAX_PAYLOAD :: int where [simp]: "MAC_MAX_PAYLOAD = 127 - 2"
definition FIXED_HDRLEN :: int where [simp]: "FIXED_HDRLEN = 21"

definition masternet_init :: "'a masternet_state_scheme \<Rightarrow> 'a masternet_state_scheme" where
  "masternet_init s = s\<lparr> current_input_callback := False \<rparr>"

definition masternet_set_input_callback :: "bool \<Rightarrow> 'a masternet_state_scheme \<Rightarrow> 'a masternet_state_scheme" where
  "masternet_set_input_callback callback s = s\<lparr> current_input_callback := callback \<rparr>"

definition masternet_set_output_callback :: "mac_callback_t \<Rightarrow> 'a masternet_state_scheme \<Rightarrow> 'a masternet_state_scheme" where
  "masternet_set_output_callback callback s = s\<lparr> current_output_callback := callback \<rparr>"

definition masternet_set_config_callback :: "bool \<Rightarrow> 'a masternet_state_scheme \<Rightarrow> 'a masternet_state_scheme" where
  "masternet_set_config_callback callback s = s\<lparr> config_callback := callback \<rparr>"

text \<open>The data of the packet buffer is passed as the buffer from its data pointer on, with its length.\<close>

definition masternet_input ::
    "(u8 list \<Rightarrow> u16 \<Rightarrow> linkaddr \<Rightarrow> linkaddr \<Rightarrow> 'a masternet_state_scheme \<Rightarrow> 'a masternet_state_scheme option) \<Rightarrow>
     'a masternet_state_scheme \<Rightarrow> 'a masternet_state_scheme option" where
  "masternet_input input_cb s =
     (if current_input_callback s
      then input_cb (drop (packetbuf_dataptr s) (packetbuf s)) (packetbuf_datalen s)
             (packetbuf_addr PACKETBUF_ADDR_SENDER s) (packetbuf_addr PACKETBUF_ADDR_RECEIVER s) s
      else Some s)"

text \<open>
  The destination is a pointer: to an address, to the receiver in the packet buffer, or null. The packet buffer
  is cleared before the destination is read.
\<close>

datatype dest_ptr = Addr linkaddr | Packetbuf_Receiver | Null_Dest

definition dest_addr :: "dest_ptr \<Rightarrow> 'a masternet_state_scheme \<Rightarrow> linkaddr" where
  "dest_addr dest s =
     (case dest of Addr a \<Rightarrow> a | Packetbuf_Receiver \<Rightarrow> packetbuf_addr PACKETBUF_ADDR_RECEIVER s | Null_Dest \<Rightarrow> linkaddr_null)"

definition set_packet_configuration :: "master_packetbuf_config_t \<Rightarrow> 'a masternet_state_scheme \<Rightarrow> 'a masternet_state_scheme" where
  "set_packet_configuration c s =
     (let s = packetbuf_set_attr PACKETBUF_ATTR_MAX_MAC_TRANSMISSIONS (max_tx c) s;
          s = packetbuf_set_attr PACKETBUF_ATTR_PACKET_NUMBER (ucast (packet_nbr c)) s;
          s = packetbuf_set_attr PACKETBUF_ATTR_PACKET_COMMAND (ucast (command c)) s;
          s = packetbuf_set_attr PACKETBUF_ATTR_FLOW_NUMBER (flow_number c) s;
          s = packetbuf_set_attr PACKETBUF_ATTR_TRANSMISSION_TTL (ttl_slot_number c) s;
          s = packetbuf_set_attr PACKETBUF_ATTR_EARLIEST_TX_SLOT (earliest_tx_slot c) s;
          s = packetbuf_set_attr PACKETBUF_ATTR_MAC_METADATA (ucast (overhearing_active c)) s
      in packetbuf_set_attr PACKETBUF_ATTR_SEND_NBR (ucast (send_to_nbr c)) s)"

definition masternet_output ::
    "('a masternet_state_scheme \<Rightarrow> u8 list option) \<Rightarrow> ('a masternet_state_scheme \<Rightarrow> master_packetbuf_config_t) \<Rightarrow>
     (mac_callback_t \<Rightarrow> 'a masternet_state_scheme \<Rightarrow> 'a masternet_state_scheme option) \<Rightarrow> dest_ptr \<Rightarrow>
     'a masternet_state_scheme \<Rightarrow> (bool \<times> 'a masternet_state_scheme) option" where
  "masternet_output buf config_cb mac_send dest s = do {
     let s = packetbuf_clear s;
     b \<leftarrow> buf s;
     (_, s) \<leftarrow> packetbuf_copyfrom b (masternet_len s) s;
     let s = (if config_callback s then set_packet_configuration (config_cb s) s else s);
     let s = packetbuf_set_addr PACKETBUF_ADDR_RECEIVER (dest_addr dest s) s;
     let s = packetbuf_set_addr PACKETBUF_ADDR_SENDER (linkaddr_node_addr s) s;
     (l, s) \<leftarrow> hdr_length s;
     let framer_hdrlen = (if l < 0 then FIXED_HDRLEN else l);
     let s = packetbuf_set_attr PACKETBUF_ATTR_PACKET_HDR_SIZE (word_of_int framer_hdrlen) s;
     if uint (masternet_len s) \<le> MAC_MAX_PAYLOAD - framer_hdrlen then do {
       s \<leftarrow> mac_send (current_output_callback s) s;
       Some (True, s)
     }
     else Some (False, packetbuf_clear s)
   }"

end
