(* ===== verification/MasterRouting.thy ===== *)
theory MasterRouting
  imports MasterNet MasterSchedule
begin

text \<open>
  The routing layer of MASTER (\<open>os/net/master-routing/master-routing.c\<close>). Every node runs the same state machine:
  the coordinator (CPAN) polls the tree of time sources for the link metrics, the distributor floods the schedule that was
  uploaded at its serial line, every node stores it in flash and requests the packets it misses, and all install the
  schedule when every node has it; then application data is forwarded along the flows.

  The state extends the one of the lower layers; the flash memory of \<open>master-schedule.c\<close> is a field of it. The
  functions reached through other layers are parameters: \<open>out\<close> is \<open>NETSTACK_NETWORK.output\<close>, \<open>cb\<close> the sent
  callbacks, which \<open>tsch_queue_reset\<close> calls. The last section ties both back to this layer.
\<close>

subsection \<open>Data\<close>

datatype phase =
    ST_EB | ST_BEGIN_GATHER_METRIC | ST_POLL_NEIGHBOUR | ST_SEND_METRIC | ST_POLL_MISSING_METRIC | ST_SEARCH_MISSING_METRIC
  | ST_WAIT_FOR_SCHEDULE | ST_WAIT_FOR_DIST_COMMIT | ST_SCHEDULE_DIST | ST_SCHEDULE_OLD | ST_SCHEDULE_RETRANSMITTING
  | ST_SCHEDULE_RECEIVED | ST_SCHEDULE_INSTALLED | ST_IGNORE_COMMANDS | ST_END

text \<open>The order of the enumeration.\<close>

definition phase_index :: "phase \<Rightarrow> nat" where
  "phase_index p =
     (case p of ST_EB \<Rightarrow> 0 | ST_BEGIN_GATHER_METRIC \<Rightarrow> 1 | ST_POLL_NEIGHBOUR \<Rightarrow> 2 | ST_SEND_METRIC \<Rightarrow> 3 | ST_POLL_MISSING_METRIC \<Rightarrow> 4
      | ST_SEARCH_MISSING_METRIC \<Rightarrow> 5 | ST_WAIT_FOR_SCHEDULE \<Rightarrow> 6 | ST_WAIT_FOR_DIST_COMMIT \<Rightarrow> 7 | ST_SCHEDULE_DIST \<Rightarrow> 8
      | ST_SCHEDULE_OLD \<Rightarrow> 9 | ST_SCHEDULE_RETRANSMITTING \<Rightarrow> 10 | ST_SCHEDULE_RECEIVED \<Rightarrow> 11 | ST_SCHEDULE_INSTALLED \<Rightarrow> 12
      | ST_IGNORE_COMMANDS \<Rightarrow> 13 | ST_END \<Rightarrow> 14)"

lemma phase_index_inject: "phase_index p = phase_index q \<longleftrightarrow> p = q"
  by (cases p; cases q) (simp_all add: phase_index_def)

instantiation phase :: linorder
begin

definition less_eq_phase :: "phase \<Rightarrow> phase \<Rightarrow> bool" where
  "less_eq_phase p q \<longleftrightarrow> phase_index p \<le> phase_index q"

definition less_phase :: "phase \<Rightarrow> phase \<Rightarrow> bool" where
  "less_phase p q \<longleftrightarrow> phase_index p < phase_index q"

instance
  by standard (auto simp: less_eq_phase_def less_phase_def phase_index_inject)

end

definition CM_NO_COMMAND :: nat where [simp]: "CM_NO_COMMAND = 0"
definition CM_ETX_METRIC_GET :: nat where [simp]: "CM_ETX_METRIC_GET = 1"
definition CM_ETX_METRIC_MISSING :: nat where [simp]: "CM_ETX_METRIC_MISSING = 2"
definition CM_ETX_METRIC_SEND :: nat where [simp]: "CM_ETX_METRIC_SEND = 3"
definition CM_START_DIST_COMMIT :: nat where [simp]: "CM_START_DIST_COMMIT = 4"
definition CM_SCHEDULE :: nat where [simp]: "CM_SCHEDULE = 5"
definition CM_SCHEDULE_RETRANSMIT :: nat where [simp]: "CM_SCHEDULE_RETRANSMIT = 6"
definition CM_SCHEDULE_RETRANSMIT_REQ :: nat where [simp]: "CM_SCHEDULE_RETRANSMIT_REQ = 7"
definition CM_SCHEDULE_END :: nat where [simp]: "CM_SCHEDULE_END = 8"
definition CM_DATA :: nat where [simp]: "CM_DATA = 9"
definition CM_END :: nat where [simp]: "CM_END = 10"

record master_routing_packet_t =
  p_flow_number :: u8
  p_packet_number :: u16
  p_ttl_slot_number :: u16
  p_earliest_tx_slot :: u16
  p_data :: "u8 list"

text \<open>The packed structure as its bytes, in the little-endian order of the platform.\<close>

definition minimal_routing_packet_size :: nat where [simp]: "minimal_routing_packet_size = 7"
definition maximal_routing_packet_size :: nat where [simp]: "maximal_routing_packet_size = 7 + MASTER_MSG_LENGTH"

definition mrp_bytes :: "master_routing_packet_t \<Rightarrow> u8 list" where
  "mrp_bytes p =
     [p_flow_number p, lo8 (p_packet_number p), hi8 (p_packet_number p), lo8 (p_ttl_slot_number p), hi8 (p_ttl_slot_number p),
      lo8 (p_earliest_tx_slot p), hi8 (p_earliest_tx_slot p)] @ p_data p"

definition mrp_of_bytes :: "u8 list \<Rightarrow> master_routing_packet_t" where
  "mrp_of_bytes bs =
     \<lparr> p_flow_number = bs ! 0, p_packet_number = mk16 (bs ! 1) (bs ! 2), p_ttl_slot_number = mk16 (bs ! 3) (bs ! 4),
       p_earliest_tx_slot = mk16 (bs ! 5) (bs ! 6), p_data = drop 7 bs \<rparr>"

definition zero_mrp :: master_routing_packet_t where
  "zero_mrp = \<lparr> p_flow_number = 0, p_packet_number = 0, p_ttl_slot_number = 0, p_earliest_tx_slot = 0, p_data = replicate MASTER_MSG_LENGTH 0 \<rparr>"

text \<open>\<open>memcpy(&mrp, data, len)\<close>\<close>

definition memcpy_mrp :: "u8 list \<Rightarrow> int \<Rightarrow> master_routing_packet_t \<Rightarrow> master_routing_packet_t option" where
  "memcpy_mrp data len p = do {
     guard_opt (0 \<le> len);
     b \<leftarrow> slice_opt data 0 (nat len);
     bs \<leftarrow> put_opt (mrp_bytes p) 0 b;
     Some (mrp_of_bytes bs)
   }"

datatype timer_callback =
    INSTALL_SCHEDULE | MISSING_RESPONSE | MISSING_METRIC_TIMEOUT | ACTIVATE_MISSING_METRIC_REQUESTS
  | MASTER_START_METRIC_GATHERING | FINALIZE_NEIGHBOR_DISCOVERY

record ctimer =
  ct_listed :: bool
  ct_start :: clock_time_t
  ct_interval :: clock_time_t
  ct_f :: "timer_callback option"

subsection \<open>State\<close>

record route_state = masternet_state +
  node_id :: u16
  flash :: flash_state
  mrp :: master_routing_packet_t
  received_packets_as_bit_array :: "u32 list"
  metric_received :: "u32 list"
  destination :: linkaddr
  ingore_missing_metric_requests :: u8
  last_sent_packet_asn :: u16
  own_packet_number :: u16
  schedule_packet_number :: u8
  current_state :: phase
  next_dest :: "nat option"
  sf_array :: "nat option list"
  sent_packet_configuration :: master_packetbuf_config_t
  current_callback :: bool
  install_schedule_timer :: ctimer
  missing_response_to_request_timer :: ctimer
  missing_metric_timer :: ctimer
  ignore_metric_timer :: ctimer
  metric_complete :: u8
  etx_links :: "u8 list"

definition deployment_node_count :: nat where [simp]: "deployment_node_count = NUM_COOJA_NODES"
definition last_node_id :: nat where [simp]: "last_node_id = NUM_COOJA_NODES"
definition MAX_PACKETS_PER_SCHEDULE :: nat where
  [simp]: "MAX_PACKETS_PER_SCHEDULE =
     (NUM_COOJA_NODES * (4 * TSCH_SCHEDULE_MAX_LINKS + 2 * MASTER_NUM_FLOWS + 3) + 5 * MASTER_NUM_FLOWS + 7) div MASTER_MSG_LENGTH"
definition TSCH_BEACON_AMOUNT :: nat where [simp]: "TSCH_BEACON_AMOUNT = 340"
definition MASTER_BEACONS_AFTER_SCHEDULE_DIST :: nat where [simp]: "MASTER_BEACONS_AFTER_SCHEDULE_DIST = 5"
definition MAX_CHARS_PER_ETX_LINK :: nat where [simp]: "MAX_CHARS_PER_ETX_LINK = 12"
definition COMMAND_END :: nat where [simp]: "COMMAND_END = 1"

definition coordinator_addr :: linkaddr where
  "coordinator_addr = [MASTER_TSCH_COORDINATOR, 0, 0, 0, 0, 0, 0, 0]"

type_synonym route_step = "route_state \<Rightarrow> route_state option"
type_synonym output_fn = "dest_ptr \<Rightarrow> route_state \<Rightarrow> route_state option"

subsection \<open>Timers\<close>

text \<open>
  Callback timers (\<open>os/sys/ctimer.c\<close> over \<open>os/sys/timer.c\<close>) in the running system: \<open>ct_listed\<close> is membership in the
  timer list. Restarting a timer that was never set leaves it without a callback.
\<close>

definition ctimer_set :: "clock_time_t \<Rightarrow> clock_time_t \<Rightarrow> timer_callback \<Rightarrow> ctimer" where
  "ctimer_set now t f = \<lparr> ct_listed = True, ct_start = now, ct_interval = t, ct_f = Some f \<rparr>"

definition ctimer_restart :: "clock_time_t \<Rightarrow> ctimer \<Rightarrow> ctimer" where
  "ctimer_restart now c = c\<lparr> ct_start := now, ct_listed := True \<rparr>"

definition ctimer_stop :: "ctimer \<Rightarrow> ctimer" where
  "ctimer_stop c = c\<lparr> ct_listed := False \<rparr>"

subsection \<open>Small helpers\<close>

definition set_mrp :: "u8 \<Rightarrow> u16 \<Rightarrow> route_state \<Rightarrow> route_state" where
  "set_mrp f n s = s\<lparr> mrp := (mrp s)\<lparr> p_flow_number := f, p_packet_number := n \<rparr> \<rparr>"

definition data_at :: "nat \<Rightarrow> route_state \<Rightarrow> u8 option" where
  "data_at i s = nth_opt (p_data (mrp s)) i"

definition set_data :: "nat \<Rightarrow> u8 \<Rightarrow> route_step" where
  "set_data i x s = do { d \<leftarrow> upd_opt (p_data (mrp s)) i x; Some (s\<lparr> mrp := (mrp s)\<lparr> p_data := d \<rparr> \<rparr>) }"

text \<open>\<open>mrp.flow_number = node_id; mrp.packet_number = ++own_packet_number;\<close>\<close>

definition new_own_packet :: "route_state \<Rightarrow> route_state" where
  "new_own_packet s =
     (let s = s\<lparr> own_packet_number := own_packet_number s + 1 \<rparr> in set_mrp (ucast (node_id s)) (own_packet_number s) s)"

definition on_flash :: "(flash_state \<Rightarrow> ('b \<times> flash_state) option) \<Rightarrow> route_state \<Rightarrow> ('b \<times> route_state) option" where
  "on_flash f s = do { (r, fl) \<leftarrow> f (flash s); Some (r, s\<lparr> flash := fl \<rparr>) }"

definition slotframe1 :: "route_state \<Rightarrow> nat option option" where
  "slotframe1 s = nth_opt (sf_array s) 1"

definition handle_state_change :: "phase \<Rightarrow> route_state \<Rightarrow> route_state" where
  "handle_state_change new_state s = s\<lparr> current_state := new_state \<rparr>"

definition set_bit_array :: "nat \<Rightarrow> route_step" where
  "set_bit_array k s = do { v \<leftarrow> setBit (received_packets_as_bit_array s) k; Some (s\<lparr> received_packets_as_bit_array := v \<rparr>) }"

definition has_packet :: "nat \<Rightarrow> route_state \<Rightarrow> bool option" where
  "has_packet k s = do { b \<leftarrow> isBitSet (received_packets_as_bit_array s) k; Some (b \<noteq> 0) }"

text \<open>\<open>setBit1Byte(schedule_received, node_id - 1)\<close>\<close>

definition mark_own_schedule :: "route_step" where
  "mark_own_schedule s = do {
     guard_opt (node_id s \<noteq> 0);
     v \<leftarrow> setBit1Byte (schedule_received s) (unat (node_id s) - 1);
     Some (s\<lparr> schedule_received := v \<rparr>)
   }"

definition missing_packet :: "route_state \<Rightarrow> int option" where
  "missing_packet s = getMissingPacket (received_packets_as_bit_array s) (uint (schedule_packets s))"

text \<open>The loop over \<open>tsch_queue_first_nbr\<close> and \<open>tsch_queue_next_nbr\<close>.\<close>

definition real_nbrs :: "'a tsch_state_scheme \<Rightarrow> nat list" where
  "real_nbrs s = (if tsch_is_locked s then [] else filter (\<lambda>n. is_real_nbr (nbr s n)) (neighbor_list s))"

definition get_percent_of_second :: "nat \<Rightarrow> route_state \<Rightarrow> rat option" where
  "get_percent_of_second timing_element s = do {
     t \<leftarrow> nth_opt (tsch_timing s) timing_element;
     Some (ddiv (dmul (of_int (uint t)) 1) (of_nat RTIMER_SECOND))
   }"

text \<open>The product of the slot length with integer factors, in the order of the source, converted to ticks.\<close>

definition slot_ticks :: "nat list \<Rightarrow> route_state \<Rightarrow> clock_time_t option" where
  "slot_ticks factors s = do {
     p \<leftarrow> get_percent_of_second tsch_ts_timeslot_length s;
     Some (word_of_int \<lfloor>foldl (\<lambda>x n. dmul x (of_nat n)) p factors\<rfloor>)
   }"

definition get_tx_slot :: "u8 \<Rightarrow> u8" where
  "get_tx_slot ident = ident - 1"

definition get_beacon_slot :: "route_state \<Rightarrow> u8" where
  "get_beacon_slot s = get_tx_slot (ucast (node_id s))"

definition set_destination_link_addr :: "u8 \<Rightarrow> route_state \<Rightarrow> route_state" where
  "set_destination_link_addr destination_node_id s = s\<lparr> destination := (destination s)[NODE_ID_INDEX := destination_node_id] \<rparr>"

definition activate_missing_metric_requests :: "route_state \<Rightarrow> route_state" where
  "activate_missing_metric_requests s = s\<lparr> ingore_missing_metric_requests := 0 \<rparr>"

subsection \<open>Packets and links\<close>

text \<open>The counter of nodes that have the schedule is an unsigned byte.\<close>

fun count_schedules :: "u8 list \<Rightarrow> nat list \<Rightarrow> u8 \<Rightarrow> u8 option" where
  "count_schedules v [] k = Some k"
| "count_schedules v (i # is) k = do {
     b \<leftarrow> isBitSet1Byte v i;
     count_schedules v is (if b \<noteq> 0 then k + 1 else k)
   }"

definition check_received_schedules_by_nodes :: "route_state \<Rightarrow> (bool \<times> route_state) option" where
  "check_received_schedules_by_nodes s = do {
     nodes_have_schedule \<leftarrow> count_schedules (schedule_received s) [0..<deployment_node_count] 0;
     if unat nodes_have_schedule = deployment_node_count then Some (True, tsch_reset_schedule_received_callback s) else Some (False, s)
   }"

definition set_ttl_retransmissions :: route_step where
  "set_ttl_retransmissions s = do {
     f1 \<leftarrow> slotframe1 s;
     f \<leftarrow> f1;
     let sz = asn_val (sf_size (sfr s f));
     let asn = (ucast (ls4b (tsch_current_asn s)) :: u16);
     Some (s\<lparr> sent_packet_configuration := (sent_packet_configuration s)\<lparr> ttl_slot_number := asn + 10 * sz, earliest_tx_slot := asn \<rparr> \<rparr>)
   }"

definition reset_nbr_metric_received :: "route_state \<Rightarrow> route_state" where
  "reset_nbr_metric_received s = fold (\<lambda>n s. set_nbr n ((nbr s n)\<lparr> n_etx_metric_received := 0 \<rparr>) s) (real_nbrs s) s"

definition setup_packet_configuration :: "u16 \<Rightarrow> nat \<Rightarrow> u16 \<Rightarrow> u8 \<Rightarrow> route_step" where
  "setup_packet_configuration etx cmd pn overhearing s =
     (let tx = (if etx mod 1000 > 0 then etx div 1000 + 1 else etx div 1000)
      in set_ttl_retransmissions (s\<lparr> sent_packet_configuration := (sent_packet_configuration s)
           \<lparr> max_tx := tx, command := word_of_nat cmd, packet_nbr := ucast pn, overhearing_active := overhearing,
             flow_number := node_id s, send_to_nbr := 1 \<rparr> \<rparr>))"

definition fill_schedule_packet_from_flash :: "int \<Rightarrow> int \<Rightarrow> route_state \<Rightarrow> (u8 \<times> route_state) option" where
  "fill_schedule_packet_from_flash bytes_in_packet pn s = do {
     let schedule_payload_size = (word_of_int (int MASTER_MSG_LENGTH - bytes_in_packet) :: u8);
     let flash_offset = pn * uint schedule_payload_size - uint schedule_payload_size;
     let bytes_to_write = (word_of_int (int MASTER_MSG_LENGTH - bytes_in_packet) :: u8);
     let bytes_to_write = (if uint bytes_to_write > bytes_in_flash (flash s) - flash_offset
                           then word_of_int (bytes_in_flash (flash s) - flash_offset) else bytes_to_write);
     guard_opt (nat bytes_in_packet \<le> length (p_data (mrp s)));
     (r, buf, fl) \<leftarrow> read_flash (drop (nat bytes_in_packet) (p_data (mrp s))) flash_offset bytes_to_write (flash s);
     let s = s\<lparr> flash := fl, mrp := (mrp s)\<lparr> p_data := take (nat bytes_in_packet) (p_data (mrp s)) @ buf \<rparr> \<rparr>;
     if r = 255 then Some (2, s)
     else do {
       let s = s\<lparr> masternet_len := word_of_int (bytes_in_packet + uint r + int minimal_routing_packet_size) \<rparr>;
       Some (if flash_offset + uint r = bytes_in_flash (flash s) then 1 else 0, s)
     }
   }"

definition unpack_schedule_to_flash :: "int \<Rightarrow> route_state \<Rightarrow> (u8 \<times> route_state) option" where
  "unpack_schedule_to_flash packet_len s = do {
     pn \<leftarrow> data_at 1 s;
     let schedule_payload_size = (word_of_nat (MASTER_MSG_LENGTH - 2) :: u8);
     let offset = uint pn * uint schedule_payload_size - uint schedule_payload_size;
     on_flash (write_to_flash_offset (drop 2 (p_data (mrp s))) offset (word_of_int (packet_len - 2))) s
   }"

text \<open>A missing link of the slot is dereferenced.\<close>

definition change_link :: "link_type \<Rightarrow> linkaddr \<Rightarrow> u16 \<Rightarrow> route_step" where
  "change_link lt dest timeslot s = do {
     f \<leftarrow> slotframe1 s;
     l \<leftarrow> tsch_schedule_get_link_by_timeslot f timeslot s;
     Some (if linkaddr_cmp (l_addr (lnk s l)) dest then s
           else snd (tsch_schedule_add_link f LINK_OPTION_TX lt (Some dest) timeslot 0 s))
   }"

definition change_beacon_link :: "link_type \<Rightarrow> linkaddr \<Rightarrow> route_step" where
  "change_beacon_link lt dest s = change_link lt dest (ucast (get_beacon_slot s)) s"

definition master_schedule_loaded_callback :: "output_fn \<Rightarrow> route_step" where
  "master_schedule_loaded_callback out s = do {
     let s = handle_state_change ST_SCHEDULE_DIST s;
     let s = new_own_packet s;
     s \<leftarrow> set_data 0 (word_of_nat CM_SCHEDULE) s;
     s \<leftarrow> set_data 1 (schedule_packet_number s) s;
     s \<leftarrow> set_bit_array (unat (schedule_packet_number s)) s;
     (_, s) \<leftarrow> fill_schedule_packet_from_flash 2 (uint (schedule_packet_number s)) s;
     s \<leftarrow> setup_packet_configuration 10 CM_SCHEDULE (p_packet_number (mrp s)) 0 s;
     out (Addr tsch_broadcast_address) s
   }"

text \<open>What the process of the distributor does when the node has associated again.\<close>

definition distributor_callback :: "output_fn \<Rightarrow> route_step" where
  "distributor_callback out s = do {
     t \<leftarrow> slot_ticks [deployment_node_count, 2, CLOCK_SECOND] s;
     master_schedule_loaded_callback out (tsch_set_eb_period t s)
   }"

subsection \<open>Installing the schedule\<close>

definition renew_slotframe :: "nat \<Rightarrow> u16 \<Rightarrow> route_step" where
  "renew_slotframe i sz s = do {
     let f = tsch_schedule_get_slotframe_by_handle (word_of_nat i) s;
     arr \<leftarrow> upd_opt (sf_array s) i f;
     let s = s\<lparr> sf_array := arr \<rparr>;
     s \<leftarrow> (case f of None \<Rightarrow> Some s | Some _ \<Rightarrow> do { (_, s) \<leftarrow> tsch_schedule_remove_slotframe f s; Some s });
     let (f, s) = tsch_schedule_add_slotframe (word_of_nat i) sz s;
     arr \<leftarrow> upd_opt (sf_array s) i f;
     Some (s\<lparr> sf_array := arr \<rparr>)
   }"

fun renew_slotframes :: "nat list \<Rightarrow> u16 \<Rightarrow> route_step" where
  "renew_slotframes [] sz s = Some s"
| "renew_slotframes (i # is) sz s = do { s \<leftarrow> renew_slotframe i sz s; renew_slotframes is sz s }"

definition install_schedule_link :: "nat \<Rightarrow> route_step" where
  "install_schedule_link link_idx s = do {
     let sch = schedule (flash s);
     l \<leftarrow> schedule_link sch link_idx;
     let f = tsch_schedule_get_slotframe_by_handle (ucast (sk_slotframe_handle l)) s;
     d \<leftarrow> (if sk_send_receive l = LINK_OPTION_RX then Some 0 else get_forward_dest_by_slotframe sch (word_of_nat link_idx));
     let s = set_destination_link_addr d s;
     Some (snd (tsch_schedule_add_link f (sk_send_receive l) LINK_TYPE_NORMAL (Some (destination s)) (ucast (sk_timeslot l))
                  (ucast (sk_channel_offset l)) s))
   }"

fun install_schedule_links :: "nat list \<Rightarrow> route_step" where
  "install_schedule_links [] s = Some s"
| "install_schedule_links (i # is) s = do { s \<leftarrow> install_schedule_link i s; install_schedule_links is s }"

text \<open>Loading the configuration and the own part of the schedule from flash.\<close>

definition load_own_schedule :: route_step where
  "load_own_schedule s = do {
     (r, config, sch, fl) \<leftarrow> read_from_flash_by_id (schedule_config (flash s)) (schedule (flash s)) (uint (node_id s) - 1) (flash s);
     let s = s\<lparr> flash := fl\<lparr> schedule_config := config, schedule := sch \<rparr> \<rparr>;
     Some (if r = 0 then s\<lparr> flash := (flash s)\<lparr> schedule := (schedule (flash s))
                              \<lparr> links_len := 0, own_transmission_flow := 0, own_receiver := 0 \<rparr> \<rparr> \<rparr> else s)
   }"

definition install_schedule :: "route_state mac_cb \<Rightarrow> route_step" where
  "install_schedule cb s = do {
     (ok, s) \<leftarrow> check_received_schedules_by_nodes s;
     if \<not> ok then Some s
     else do {
       let s = handle_state_change ST_IGNORE_COMMANDS s;
       s \<leftarrow> load_own_schedule s;
       s \<leftarrow> renew_slotframe 0 MASTER_EBSF_PERIOD s;
       f0 \<leftarrow> nth_opt (sf_array s) 0;
       let s = snd (tsch_schedule_add_link f0 (LINK_OPTION_TX OR LINK_OPTION_RX) LINK_TYPE_ADVERTISING_ONLY (Some tsch_broadcast_address) 0 0 s);
       s \<leftarrow> renew_slotframes [1..<Suc (unat (slot_frames (schedule_config (flash s))))] (ucast (schedule_length (schedule_config (flash s)))) s;
       s \<leftarrow> tsch_queue_reset cb s;
       s \<leftarrow> install_schedule_links [0..<unat (links_len (schedule (flash s)))] s;
       f1 \<leftarrow> slotframe1 s;
       let s = snd (tsch_schedule_add_link f1 (LINK_OPTION_TX OR LINK_OPTION_RX) LINK_TYPE_ADVERTISING_ONLY (Some tsch_broadcast_address)
                      (ucast (schedule_length (schedule_config (flash s))) - 1) 0 s);
       let s = reset_nbr_metric_received s;
       let s = tsch_set_eb_period TSCH_EB_PERIOD s;
       Some (handle_state_change ST_SCHEDULE_INSTALLED s)
     }
   }"

subsection \<open>Metric gathering\<close>

text \<open>A null neighbour is dereferenced.\<close>

definition convergcast_poll_neighbor :: "output_fn \<Rightarrow> nat \<Rightarrow> nat option \<Rightarrow> route_step" where
  "convergcast_poll_neighbor out cmd dest s = do {
     let s = new_own_packet s;
     s \<leftarrow> set_data 0 (word_of_nat cmd) s;
     let s = s\<lparr> masternet_len := word_of_nat (minimal_routing_packet_size + 1) \<rparr>;
     n \<leftarrow> dest;
     s \<leftarrow> setup_packet_configuration (n_etx_link (nbr s n)) cmd (p_packet_number (mrp s)) 0 s;
     s \<leftarrow> change_beacon_link LINK_TYPE_ADVERTISING (n_addr (nbr s n)) s;
     out (Addr (n_addr (nbr s n))) s
   }"

definition convergcast_forward_to_timesource :: "output_fn \<Rightarrow> route_step" where
  "convergcast_forward_to_timesource out s = do {
     t \<leftarrow> tsch_queue_get_time_source s;
     s \<leftarrow> setup_packet_configuration (n_etx_link (nbr s t)) CM_ETX_METRIC_SEND (p_packet_number (mrp s)) 0 s;
     t \<leftarrow> tsch_queue_get_time_source s;
     s \<leftarrow> change_beacon_link LINK_TYPE_ADVERTISING (n_addr (nbr s t)) s;
     t \<leftarrow> tsch_queue_get_time_source s;
     out (Addr (n_addr (nbr s t))) s
   }"

definition handle_convergcast :: "output_fn \<Rightarrow> route_step" where
  "handle_convergcast out s =
     (if current_state s = ST_POLL_NEIGHBOUR then convergcast_poll_neighbor out CM_ETX_METRIC_GET (next_dest s) s
      else convergcast_forward_to_timesource out s)"

text \<open>\<open>sprintf\<close> with the conversion \<open>%i\<close> of a non-negative number.\<close>

fun decimal :: "nat \<Rightarrow> string" where
  "decimal n = (if n < 10 then [char_of (48 + n)] else decimal (n div 10) @ [char_of (48 + n mod 10)])"

declare decimal.simps [simp del]

definition etx_entry :: "u8 \<Rightarrow> u16 \<Rightarrow> string" where
  "etx_entry node etx = decimal (unat node) @ '':'' @ decimal (unat (etx div 1000)) @ ''.'' @ decimal (unat (etx mod 1000))"

function metric_string :: "u8 list \<Rightarrow> nat \<Rightarrow> nat \<Rightarrow> string option" where
  "metric_string metric len i =
     (if i < len then do {
        node \<leftarrow> nth_opt metric i;
        hi \<leftarrow> nth_opt metric (i + 1);
        lo \<leftarrow> nth_opt metric (i + 2);
        rest \<leftarrow> metric_string metric len (i + 3);
        Some (etx_entry node (push_bit 8 (ucast hi) + ucast lo) @ (if i + 3 < len then '', '' else []) @ rest)
      }
      else Some [])"
  by pat_completeness auto
termination by (relation "measure (\<lambda>(metric, len, i). len - i)") auto

declare metric_string.simps [simp del]

text \<open>The string buffer holds \<open>MAX_CHARS_PER_ETX_LINK\<close> characters per queue.\<close>

definition print_metric :: "u8 list \<Rightarrow> u8 \<Rightarrow> u16 \<Rightarrow> route_step" where
  "print_metric metric metric_owner len s = do {
     str \<leftarrow> metric_string metric (unat len) 0;
     guard_opt (length str \<le> MAX_CHARS_PER_ETX_LINK * TSCH_QUEUE_MAX_NEIGHBOR_QUEUES);
     Some (post_event (EV_PRINT (''ETX-Links - FROM '' @ decimal (unat metric_owner) @ ''; '' @ str)) s)
   }"

fun etx_loop :: "nat list \<Rightarrow> nat \<Rightarrow> route_state \<Rightarrow> (nat \<times> route_state) option" where
  "etx_loop [] pos s = Some (pos, s)"
| "etx_loop (n # ns) pos s = do {
     a \<leftarrow> nth_opt (n_addr (nbr s n)) NODE_ID_INDEX;
     e \<leftarrow> upd_opt (etx_links s) pos a;
     e \<leftarrow> upd_opt e (pos + 1) (hi8 (n_etx_link (nbr s n)));
     e \<leftarrow> upd_opt e (pos + 2) (lo8 (n_etx_link (nbr s n)));
     etx_loop ns (pos + 3) (s\<lparr> etx_links := e \<rparr>)
   }"

definition calculate_etx_metric :: "route_state \<Rightarrow> (nat \<times> route_state) option" where
  "calculate_etx_metric s = do {
     e \<leftarrow> put_opt (etx_links s) 0 (replicate ((TSCH_QUEUE_MAX_NEIGHBOR_QUEUES - 2) * 2) 0);
     etx_loop (real_nbrs s) 0 (s\<lparr> etx_links := e \<rparr>)
   }"

text \<open>
  The next neighbour whose time source is this node. The first call starts at the broadcast entry; a node without
  neighbours then dereferences a null pointer.
\<close>

definition has_next_neighbor :: "route_state \<Rightarrow> (bool \<times> route_state) option" where
  "has_next_neighbor s =
     (case next_dest s of
        None \<Rightarrow> Some (False, s)
      | Some d \<Rightarrow> do {
          nd \<leftarrow> (if linkaddr_cmp (n_addr (nbr s d)) tsch_broadcast_address then do {
                   own \<leftarrow> nth_opt (linkaddr_node_addr s) NODE_ID_INDEX;
                   guard_opt (real_nbrs s \<noteq> []);
                   Some (find (\<lambda>n. n_time_source (nbr s n) = own) (real_nbrs s))
                 }
                 else Some (if tsch_is_locked s then None
                            else find (\<lambda>n. is_real_nbr (nbr s n) \<and> ucast (n_time_source (nbr s n)) = node_id s)
                                   (tl (list_from (Some d) (neighbor_list s)))));
          Some (nd \<noteq> None, s\<lparr> next_dest := nd \<rparr>)
        })"

definition master_start_metric_gathering :: "output_fn \<Rightarrow> route_step" where
  "master_start_metric_gathering out s = do {
     t \<leftarrow> slot_ticks [deployment_node_count, 2, CLOCK_SECOND] s;
     let s = tsch_set_eb_period t s;
     let s = handle_state_change ST_POLL_NEIGHBOUR s;
     (len, s) \<leftarrow> calculate_etx_metric s;
     s \<leftarrow> print_metric (etx_links s) (ucast (node_id s)) (word_of_nat len) s;
     guard_opt (node_id s \<noteq> 0);
     m \<leftarrow> setBit (metric_received s) (unat (node_id s) - 1);
     let s = s\<lparr> metric_received := m \<rparr>;
     (_, s) \<leftarrow> has_next_neighbor s;
     handle_convergcast out s
   }"

definition finalize_neighbor_discovery :: route_step where
  "finalize_neighbor_discovery s = do {
     let s = s\<lparr> tsch_change_time_source_active := 0 \<rparr>;
     if tsch_is_coordinator s then do {
       t \<leftarrow> slot_ticks [CLOCK_SECOND * deployment_node_count * 50] s;
       Some (s\<lparr> install_schedule_timer := ctimer_set (clock_time s) t MASTER_START_METRIC_GATHERING \<rparr>)
     }
     else Some s
   }"

text \<open>The nodes whose metric is missing, counted from the second node on, are listed in the packet.\<close>

fun missing_nodes_loop :: "nat list \<Rightarrow> nat \<Rightarrow> route_state \<Rightarrow> (nat \<times> route_state) option" where
  "missing_nodes_loop [] missing_nodes s = Some (missing_nodes, s)"
| "missing_nodes_loop (i # is) missing_nodes s = do {
     b \<leftarrow> isBitSet (metric_received s) i;
     if b = 0 then do {
       s \<leftarrow> set_data (2 + missing_nodes) (word_of_nat (i + 1)) s;
       missing_nodes_loop is (missing_nodes + 1) s
     }
     else missing_nodes_loop is missing_nodes s
   }"

definition missing_metric_timeout :: "output_fn \<Rightarrow> route_step" where
  "missing_metric_timeout out s = do {
     let s = handle_state_change ST_SEARCH_MISSING_METRIC s;
     let s = new_own_packet s;
     s \<leftarrow> set_data 0 (word_of_nat CM_ETX_METRIC_MISSING) s;
     (missing_nodes, s) \<leftarrow> missing_nodes_loop [1..<deployment_node_count] 0 s;
     s \<leftarrow> set_data 1 (word_of_nat missing_nodes) s;
     s \<leftarrow> setup_packet_configuration 10 CM_ETX_METRIC_MISSING (p_packet_number (mrp s)) 0 s;
     s \<leftarrow> change_beacon_link LINK_TYPE_ADVERTISING tsch_broadcast_address s;
     let s = s\<lparr> masternet_len := word_of_nat (minimal_routing_packet_size + missing_nodes + 2) \<rparr>;
     s \<leftarrow> out (Addr tsch_broadcast_address) s;
     Some (s\<lparr> missing_metric_timer := ctimer_restart (clock_time s) (missing_metric_timer s) \<rparr>)
   }"

subsection \<open>Distribution of the schedule\<close>

text \<open>The loop stops at the first neighbour with a packet; counting may create entries, never for these neighbours.\<close>

fun nbr_with_packet :: "nat list \<Rightarrow> route_state \<Rightarrow> nat option \<times> route_state" where
  "nbr_with_packet [] s = (None, s)"
| "nbr_with_packet (n # ns) s =
     (case tsch_queue_packet_count (n_addr (nbr s n)) s of (k, s) \<Rightarrow> if k = 0 then nbr_with_packet ns s else (Some n, s))"

definition handle_retransmit :: route_step where
  "handle_retransmit s =
     (case nbr_with_packet (real_nbrs s) s of
        (Some n, s) \<Rightarrow> change_beacon_link LINK_TYPE_ADVERTISING (n_addr (nbr s n)) s
      | (None, s) \<Rightarrow> change_beacon_link LINK_TYPE_ADVERTISING tsch_broadcast_address (handle_state_change ST_SCHEDULE_RECEIVED s))"

text \<open>All packets are there: the version goes up and the node is marked as having the schedule.\<close>

definition complete_schedule :: route_step where
  "complete_schedule s = mark_own_schedule (s\<lparr> schedule_version := schedule_version s + 1 \<rparr>)"

text \<open>The request for a missing packet.\<close>

definition prepare_retransmit_request :: "int \<Rightarrow> nat option \<Rightarrow> route_step" where
  "prepare_retransmit_request missing n s = do {
     let s = new_own_packet s;
     s \<leftarrow> set_data 0 (word_of_nat CM_SCHEDULE_RETRANSMIT_REQ) s;
     s \<leftarrow> set_data 1 (word_of_int missing) s;
     n \<leftarrow> n;
     setup_packet_configuration (n_etx_link (nbr s n)) CM_SCHEDULE_RETRANSMIT_REQ (ucast (word_of_int missing :: u8)) 0 s
   }"

definition request_retransmit_or_finish :: "output_fn \<Rightarrow> linkaddr \<Rightarrow> route_step" where
  "request_retransmit_or_finish out dest s =
     (if current_state s \<noteq> ST_SCHEDULE_OLD then Some s
      else do {
        missing \<leftarrow> missing_packet s;
        if missing = - 1 then do {
          let (k, s) = tsch_queue_packet_count dest s;
          s \<leftarrow> (if k > 0 then do {
                  (p, s) \<leftarrow> tsch_queue_remove_packet_from_queue (tsch_queue_get_nbr dest s) s;
                  Some (tsch_queue_free_packet p s)
                }
                else Some s);
          let s = handle_state_change ST_SCHEDULE_RECEIVED s;
          s \<leftarrow> complete_schedule s;
          s \<leftarrow> change_beacon_link LINK_TYPE_ADVERTISING tsch_broadcast_address s;
          Some (s\<lparr> missing_response_to_request_timer := ctimer_stop (missing_response_to_request_timer s) \<rparr>)
        }
        else do {
          queued \<leftarrow> tsch_queue_is_packet_in_nbr_queue (tsch_queue_get_nbr dest s) (word_of_int missing) s;
          if queued then Some s
          else do {
            s \<leftarrow> prepare_retransmit_request missing (tsch_queue_get_nbr dest s) s;
            let s = s\<lparr> masternet_len := word_of_nat (minimal_routing_packet_size + 2) \<rparr>;
            s \<leftarrow> out (Addr dest) s;
            Some (s\<lparr> missing_response_to_request_timer := ctimer_restart (clock_time s) (missing_response_to_request_timer s) \<rparr>)
          }
        }
      })"

definition missing_response :: route_step where
  "missing_response s = do {
     s \<leftarrow> change_beacon_link LINK_TYPE_ADVERTISING tsch_broadcast_address s;
     Some (handle_state_change ST_WAIT_FOR_SCHEDULE s)
   }"

fun merge_schedules :: "u8 list \<Rightarrow> nat list \<Rightarrow> route_step" where
  "merge_schedules others [] s = Some s"
| "merge_schedules others (i # is) s = do {
     own \<leftarrow> isBitSet1Byte (schedule_received s) i;
     if own = 0 then do {
       b \<leftarrow> isBitSet1Byte others i;
       if b \<noteq> 0 then do {
         v \<leftarrow> setBit1Byte (schedule_received s) i;
         merge_schedules others is (s\<lparr> schedule_received := v \<rparr>)
       }
       else merge_schedules others is s
     }
     else merge_schedules others is s
   }"

definition master_schedule_received_callback :: "u8 list \<Rightarrow> u8 \<Rightarrow> route_step" where
  "master_schedule_received_callback schedule_received_from_others len s =
     (if current_state s \<ge> ST_SCHEDULE_RETRANSMITTING \<and> current_state s \<le> ST_SCHEDULE_RECEIVED then do {
        s \<leftarrow> merge_schedules schedule_received_from_others [0..<last_node_id] s;
        (ok, s) \<leftarrow> check_received_schedules_by_nodes s;
        if ok then do {
          t \<leftarrow> slot_ticks [deployment_node_count, CLOCK_SECOND] s;
          let s = tsch_set_eb_period t s;
          t \<leftarrow> slot_ticks [deployment_node_count, MASTER_BEACONS_AFTER_SCHEDULE_DIST, CLOCK_SECOND] s;
          Some (s\<lparr> install_schedule_timer := ctimer_set (clock_time s) t INSTALL_SCHEDULE \<rparr>)
        }
        else Some s
      }
      else Some s)"

definition master_schedule_difference_callback :: "output_fn \<Rightarrow> linkaddr \<Rightarrow> u8 \<Rightarrow> u16 \<Rightarrow> route_step" where
  "master_schedule_difference_callback out nb nbr_schedule_version nbr_schedule_packets s =
     (if current_state s = ST_SCHEDULE_OLD then Some s
      else if nbr_schedule_version > schedule_version s then do {
        n \<leftarrow> tsch_queue_get_nbr nb s;
        if n_etx_link (nbr s n) > 2000 then Some s
        else do {
          let s = s\<lparr> schedule_packets := nbr_schedule_packets \<rparr>;
          missing \<leftarrow> missing_packet s;
          if missing = - 1 then complete_schedule (handle_state_change ST_SCHEDULE_RECEIVED s)
          else do {
            let s = handle_state_change ST_SCHEDULE_OLD s;
            s \<leftarrow> prepare_retransmit_request missing (tsch_queue_get_nbr nb s) s;
            s \<leftarrow> change_beacon_link LINK_TYPE_ADVERTISING nb s;
            let s = s\<lparr> masternet_len := word_of_nat (minimal_routing_packet_size + 2) \<rparr>;
            s \<leftarrow> out (Addr nb) s;
            Some (s\<lparr> missing_response_to_request_timer := ctimer_set (clock_time s) (word_of_nat (CLOCK_SECOND * 5)) MISSING_RESPONSE \<rparr>)
          }
        }
      }
      else Some s)"

definition command_input_schedule_new_packet :: "u16 \<Rightarrow> route_step" where
  "command_input_schedule_new_packet len s = do {
     (ok, s) \<leftarrow> unpack_schedule_to_flash (uint len - int minimal_routing_packet_size) s;
     if ok \<noteq> 0 then do {
       pn \<leftarrow> data_at 1 s;
       set_bit_array (unat pn) s
     }
     else Some s
   }"

definition command_input_schedule_packet :: "output_fn \<Rightarrow> u16 \<Rightarrow> route_step" where
  "command_input_schedule_packet out len s = do {
     s \<leftarrow> command_input_schedule_new_packet len s;
     s \<leftarrow> setup_packet_configuration 10 CM_SCHEDULE (p_packet_number (mrp s)) 0 s;
     out (Addr tsch_broadcast_address) (s\<lparr> masternet_len := len \<rparr>)
   }"

definition command_input_schedule_last_packet :: "output_fn \<Rightarrow> u16 \<Rightarrow> route_step" where
  "command_input_schedule_last_packet out len s = do {
     s \<leftarrow> command_input_schedule_new_packet len s;
     pn \<leftarrow> data_at 1 s;
     let s = s\<lparr> schedule_packets := ucast pn \<rparr>;
     missing \<leftarrow> missing_packet s;
     s \<leftarrow> (if missing = - 1 then complete_schedule (handle_state_change ST_SCHEDULE_RECEIVED s) else Some s);
     let s = s\<lparr> tsch_change_time_source_active := 1 \<rparr>;
     s \<leftarrow> setup_packet_configuration 10 CM_SCHEDULE_END (p_packet_number (mrp s)) 0 s;
     out (Addr tsch_broadcast_address) (s\<lparr> masternet_len := len \<rparr>)
   }"

definition handle_schedule_distribution_state_changes :: "output_fn \<Rightarrow> nat \<Rightarrow> u16 \<Rightarrow> route_state \<Rightarrow> (int \<times> route_state) option" where
  "handle_schedule_distribution_state_changes out cmd len s =
     (if cmd = CM_SCHEDULE \<or> cmd = CM_SCHEDULE_END \<or> cmd = CM_SCHEDULE_RETRANSMIT then do {
        pn \<leftarrow> data_at 1 s;
        known \<leftarrow> has_packet (unat pn) s;
        if known then Some (- 1, s)
        else do {
          let s = handle_state_change ST_SCHEDULE_DIST s;
          s \<leftarrow> (if cmd = CM_SCHEDULE then command_input_schedule_packet out len s
                else if cmd = CM_SCHEDULE_END then command_input_schedule_last_packet out len s
                else command_input_schedule_new_packet len s);
          Some (1, s)
        }
      }
      else Some (- 1, s))"

definition callback_input_schedule_send :: "output_fn \<Rightarrow> route_step" where
  "callback_input_schedule_send out s =
     (if node_id s \<noteq> ucast MASTER_TSCH_DISTRIBUTOR then Some s
      else do {
        let s = s\<lparr> schedule_packet_number := schedule_packet_number s + 1 \<rparr>;
        let s = new_own_packet s;
        s \<leftarrow> set_data 0 (word_of_nat CM_SCHEDULE) s;
        s \<leftarrow> set_data 1 (schedule_packet_number s) s;
        s \<leftarrow> set_bit_array (unat (schedule_packet_number s)) s;
        (r, s) \<leftarrow> fill_schedule_packet_from_flash 2 (uint (schedule_packet_number s)) s;
        s \<leftarrow>
          (if r = 1 then do {
             s \<leftarrow> complete_schedule (s\<lparr> schedule_packets := ucast (schedule_packet_number s) \<rparr>);
             s \<leftarrow> set_data 0 (word_of_nat CM_SCHEDULE_END) s;
             setup_packet_configuration 10 CM_SCHEDULE_END (p_packet_number (mrp s)) 0 s
           }
           else do {
             (r, s) \<leftarrow> fill_schedule_packet_from_flash 2 (uint (schedule_packet_number s)) s;
             let s = (if r = 2 then s\<lparr> own_packet_number := own_packet_number s - 1 \<rparr> else s);
             setup_packet_configuration 10 CM_SCHEDULE (p_packet_number (mrp s)) 0 s
           });
        out (Addr tsch_broadcast_address) s
      })"

subsection \<open>Received commands\<close>

text \<open>The last packet number of a flow is kept in a byte, the packet number of a packet has 16 bits.\<close>

definition flow_index :: "u8 \<Rightarrow> nat option" where
  "flow_index f = do { guard_opt (f \<noteq> 0); Some (unat f - 1) }"

definition is_new_packet :: "route_state \<Rightarrow> bool option" where
  "is_new_packet s = do {
     i \<leftarrow> flow_index (p_flow_number (mrp s));
     last \<leftarrow> nth_opt (last_received_relayed_packet_of_flow (schedule_config (flash s))) i;
     Some (TSCH_SLOTNUM_LT (ucast last) (p_packet_number (mrp s)))
   }"

definition remember_packet :: route_step where
  "remember_packet s = do {
     i \<leftarrow> flow_index (p_flow_number (mrp s));
     v \<leftarrow> upd_opt (last_received_relayed_packet_of_flow (schedule_config (flash s))) i (ucast (p_packet_number (mrp s)));
     Some (s\<lparr> flash := (flash s)\<lparr> schedule_config := (schedule_config (flash s))\<lparr> last_received_relayed_packet_of_flow := v \<rparr> \<rparr> \<rparr>)
   }"

definition command_input_data_received :: "u16 \<Rightarrow> u16 \<Rightarrow> route_step" where
  "command_input_data_received received_asn len s = do {
     new \<leftarrow> is_new_packet s;
     if new then do {
       s \<leftarrow> remember_packet s;
       i \<leftarrow> flow_index (p_flow_number (mrp s));
       sender \<leftarrow> nth_opt (sender_of_flow (schedule_config (flash s))) i;
       receiver \<leftarrow> nth_opt (receiver_of_flow (schedule_config (flash s))) i;
       guard_opt (current_callback s);
       Some (post_event (EV_DELIVER (drop COMMAND_END (p_data (mrp s))) (len - word_of_nat minimal_routing_packet_size) sender receiver) s)
     }
     else Some s
   }"

text \<open>The number of transmissions up to and including the last slot of the packet's time to live.\<close>

definition ttl_transmissions :: "u16 \<Rightarrow> route_state \<Rightarrow> u16" where
  "ttl_transmissions ttl s = word_of_int (TSCH_SLOTNUM_DIFF16 ttl (ucast (ls4b (tsch_current_asn s) - 1)))"

definition command_input_data_forwarding :: "output_fn \<Rightarrow> master_tsch_schedule_t \<Rightarrow> u16 \<Rightarrow> u16 \<Rightarrow> route_step" where
  "command_input_data_forwarding out sch received_asn len s = do {
     next_receiver \<leftarrow> get_forward_dest sch (p_flow_number (mrp s));
     if next_receiver \<noteq> 0 then do {
       new \<leftarrow> is_new_packet s;
       if new then do {
         s \<leftarrow> remember_packet s;
         let s = set_destination_link_addr next_receiver s;
         let s = s\<lparr> sent_packet_configuration := (sent_packet_configuration s)
                    \<lparr> flow_number := ucast (p_flow_number (mrp s)), send_to_nbr := 0, command := word_of_nat CM_DATA,
                      packet_nbr := ucast (p_packet_number (mrp s)) \<rparr> \<rparr>;
         if TSCH_SLOTNUM_LT (ucast (ls4b (tsch_current_asn s))) (p_ttl_slot_number (mrp s) + 1) then do {
           let s = s\<lparr> sent_packet_configuration := (sent_packet_configuration s)
                      \<lparr> ttl_slot_number := p_ttl_slot_number (mrp s), earliest_tx_slot := p_earliest_tx_slot (mrp s),
                        max_tx := ttl_transmissions (p_ttl_slot_number (mrp s)) s \<rparr>, masternet_len := len \<rparr>;
           out (Addr (destination s)) s
         }
         else Some s
       }
       else Some s
     }
     else Some s
   }"

definition drop_first_packet :: "linkaddr \<Rightarrow> route_step" where
  "drop_first_packet a s = do {
     (p, s) \<leftarrow> tsch_queue_remove_packet_from_queue (tsch_queue_get_nbr a s) s;
     Some (tsch_queue_free_packet p s)
   }"

definition command_input_schedule_retransmitt :: "output_fn \<Rightarrow> u16 \<Rightarrow> linkaddr \<Rightarrow> linkaddr \<Rightarrow> route_step" where
  "command_input_schedule_retransmitt out len src dest s = do {
     retransmitted_packet \<leftarrow> data_at 1 s;
     known \<leftarrow> has_packet (unat retransmitted_packet) s;
     s \<leftarrow> (if \<not> known then command_input_schedule_new_packet len s else Some s);
     if linkaddr_cmp (linkaddr_node_addr s) dest then do {
       queued \<leftarrow> tsch_queue_is_packet_in_nbr_queue (tsch_queue_get_nbr src s) retransmitted_packet s;
       s \<leftarrow> (if queued then drop_first_packet src s else Some s);
       request_retransmit_or_finish out src s
     }
     else do {
       missing \<leftarrow> missing_packet s;
       if missing = - 1 then do {
         let s = handle_state_change ST_SCHEDULE_RECEIVED s;
         let s = s\<lparr> missing_response_to_request_timer := ctimer_stop (missing_response_to_request_timer s) \<rparr>;
         s \<leftarrow> change_beacon_link LINK_TYPE_ADVERTISING tsch_broadcast_address s;
         complete_schedule s
       }
       else Some s
     }
   }"

definition command_input_schedule_retransmitt_request :: "output_fn \<Rightarrow> linkaddr \<Rightarrow> route_step" where
  "command_input_schedule_retransmitt_request out src s = do {
     pn \<leftarrow> data_at 1 s;
     queued \<leftarrow> tsch_queue_is_packet_in_nbr_queue (tsch_queue_get_nbr src s) pn s;
     if queued then Some s
     else do {
       let s = handle_state_change ST_SCHEDULE_RETRANSMITTING s;
       let s = new_own_packet s;
       s \<leftarrow> set_data 0 (word_of_nat CM_SCHEDULE_RETRANSMIT) s;
       (r, s) \<leftarrow> fill_schedule_packet_from_flash 2 (uint pn) s;
       if r = 2 then Some s
       else do {
         n \<leftarrow> tsch_queue_get_nbr src s;
         s \<leftarrow> setup_packet_configuration (n_etx_link (nbr s n)) CM_SCHEDULE_RETRANSMIT (ucast pn) 1 s;
         s \<leftarrow> out (Addr src) s;
         f \<leftarrow> slotframe1 s;
         l \<leftarrow> tsch_schedule_get_link_by_timeslot f (ucast (get_beacon_slot s)) s;
         Some (if linkaddr_cmp (l_addr (lnk s l)) tsch_broadcast_address
               then snd (tsch_schedule_add_link f LINK_OPTION_TX LINK_TYPE_ADVERTISING (Some src) (ucast (get_beacon_slot s)) 0 s) else s)
       }
     }
   }"

text \<open>\<open>memcpy\<close> of the list of missing nodes into an array of \<open>TSCH_QUEUE_MAX_NEIGHBOR_QUEUES\<close> bytes.\<close>

definition missing_metric_nodes :: "route_state \<Rightarrow> u8 list option" where
  "missing_metric_nodes s = do {
     len \<leftarrow> data_at 1 s;
     guard_opt (unat len \<le> TSCH_QUEUE_MAX_NEIGHBOR_QUEUES);
     slice_opt (p_data (mrp s)) 2 (unat len)
   }"

definition missing_metric_from_myself :: "route_state \<Rightarrow> bool option" where
  "missing_metric_from_myself s = do { ids \<leftarrow> missing_metric_nodes s; Some (\<exists>i \<in> set ids. ucast i = node_id s) }"

definition better_missing_nbr :: "route_state \<Rightarrow> u8 list \<Rightarrow> nat \<Rightarrow> nat option \<Rightarrow> nat option" where
  "better_missing_nbr s ids n current_choice =
     (if n_addr (nbr s n) ! NODE_ID_INDEX \<in> set ids \<and> n_etx_link (nbr s n) < 2000 then
        (case current_choice of None \<Rightarrow> Some n | Some c \<Rightarrow> if n_rank (nbr s n) < n_rank (nbr s c) then Some n else current_choice)
      else current_choice)"

definition has_missing_node_as_nbr :: "route_state \<Rightarrow> nat option option" where
  "has_missing_node_as_nbr s = do { ids \<leftarrow> missing_metric_nodes s; Some (fold (better_missing_nbr s ids) (real_nbrs s) None) }"

definition command_input_missing_metric :: "output_fn \<Rightarrow> u16 \<Rightarrow> route_step" where
  "command_input_missing_metric out len s = do {
     to_poll \<leftarrow> has_missing_node_as_nbr s;
     case to_poll of
       Some n \<Rightarrow> convergcast_poll_neighbor out CM_ETX_METRIC_MISSING (Some n) (handle_state_change ST_POLL_MISSING_METRIC s)
     | None \<Rightarrow> do {
         let s = handle_state_change ST_SEARCH_MISSING_METRIC s;
         let s = new_own_packet s;
         c \<leftarrow> data_at 0 s;
         s \<leftarrow> setup_packet_configuration 10 (unat c) (p_packet_number (mrp s)) 0 s;
         s \<leftarrow> change_beacon_link LINK_TYPE_ADVERTISING tsch_broadcast_address s;
         out (Addr tsch_broadcast_address) (s\<lparr> masternet_len := len \<rparr>)
       }
   }"

definition command_input_prepare_distributor :: "output_fn \<Rightarrow> route_step" where
  "command_input_prepare_distributor out s = do {
     let s = new_own_packet s;
     s \<leftarrow> set_data 0 (word_of_nat CM_START_DIST_COMMIT) s;
     let s = s\<lparr> masternet_len := word_of_nat (minimal_routing_packet_size + 1) \<rparr>;
     t \<leftarrow> tsch_queue_get_time_source s;
     s \<leftarrow> setup_packet_configuration (n_etx_link (nbr s t)) CM_START_DIST_COMMIT (p_packet_number (mrp s)) 0 s;
     t \<leftarrow> tsch_queue_get_time_source s;
     s \<leftarrow> change_beacon_link LINK_TYPE_NORMAL (n_addr (nbr s t)) s;
     t \<leftarrow> tsch_queue_get_time_source s;
     out (Addr (n_addr (nbr s t))) s
   }"

definition command_input_get_metric :: "output_fn \<Rightarrow> route_step" where
  "command_input_get_metric out s = do {
     let s = new_own_packet s;
     (len, s) \<leftarrow> calculate_etx_metric s;
     s \<leftarrow> set_data 0 (word_of_nat CM_ETX_METRIC_SEND) s;
     b \<leftarrow> slice_opt (etx_links s) 0 len;
     d \<leftarrow> put_opt (p_data (mrp s)) 1 b;
     let s = s\<lparr> mrp := (mrp s)\<lparr> p_data := d \<rparr>, masternet_len := word_of_nat (minimal_routing_packet_size + 1 + len) \<rparr>;
     handle_convergcast out s
   }"

fun count_bits :: "u32 list \<Rightarrow> nat list \<Rightarrow> nat \<Rightarrow> nat option" where
  "count_bits v [] k = Some k"
| "count_bits v (i # is) k = do { b \<leftarrow> isBitSet v i; count_bits v is (if b \<noteq> 0 then k + 1 else k) }"

definition command_input_send_metric_CPAN :: "output_fn \<Rightarrow> u16 \<Rightarrow> route_step" where
  "command_input_send_metric_CPAN out len s =
     (if metric_complete s \<noteq> 0 then Some s
      else do {
        i \<leftarrow> flow_index (p_flow_number (mrp s));
        m \<leftarrow> setBit (metric_received s) i;
        let s = s\<lparr> metric_received := m \<rparr>;
        finished_nodes \<leftarrow> count_bits (metric_received s) [0..<deployment_node_count] 0;
        s \<leftarrow> print_metric (drop COMMAND_END (p_data (mrp s))) (p_flow_number (mrp s))
               (word_of_int (uint len - int minimal_routing_packet_size - int COMMAND_END)) s;
        if finished_nodes = deployment_node_count then do {
          let s = s\<lparr> missing_metric_timer := ctimer_stop (missing_metric_timer s), metric_complete := 1 \<rparr>;
          let s = handle_state_change ST_WAIT_FOR_DIST_COMMIT s;
          let s = new_own_packet s;
          s \<leftarrow> set_data 0 (word_of_nat CM_START_DIST_COMMIT) s;
          let s = s\<lparr> masternet_len := word_of_nat (minimal_routing_packet_size + 1) \<rparr>;
          case tsch_queue_get_nbr_by_node_id MASTER_TSCH_DISTRIBUTOR s of
            None \<Rightarrow> Some (tsch_disassociate s)
          | Some n \<Rightarrow> do {
              s \<leftarrow> setup_packet_configuration (n_etx_link (nbr s n)) CM_START_DIST_COMMIT (p_packet_number (mrp s)) 0 s;
              s \<leftarrow> change_beacon_link LINK_TYPE_NORMAL (n_addr (nbr s n)) s;
              out (Addr (n_addr (nbr s n))) s
            }
        }
        else Some (if current_state s = ST_WAIT_FOR_SCHEDULE
                   then s\<lparr> missing_metric_timer := ctimer_restart (clock_time s) (missing_metric_timer s) \<rparr> else s)
      })"

definition command_input_send_metric_Node :: "output_fn \<Rightarrow> u16 \<Rightarrow> route_step" where
  "command_input_send_metric_Node out len s = do {
     let s = s\<lparr> masternet_len := len \<rparr>;
     if current_state s = ST_WAIT_FOR_SCHEDULE \<and> tsch_queue_is_empty (tsch_queue_get_time_source s) s then handle_convergcast out s
     else do {
       t \<leftarrow> tsch_queue_get_time_source s;
       s \<leftarrow> setup_packet_configuration (n_etx_link (nbr s t)) CM_ETX_METRIC_SEND (p_packet_number (mrp s)) 0 s;
       t \<leftarrow> tsch_queue_get_time_source s;
       out (Addr (n_addr (nbr s t))) s
     }
   }"

definition command_input_send_metric :: "output_fn \<Rightarrow> u16 \<Rightarrow> linkaddr \<Rightarrow> route_state \<Rightarrow> (bool \<times> route_state) option" where
  "command_input_send_metric out len src s = do {
     let n = tsch_queue_get_nbr src s;
     a \<leftarrow> nth_opt src NODE_ID_INDEX;
     if p_flow_number (mrp s) = a \<and> (case n of None \<Rightarrow> False | Some n \<Rightarrow> n_etx_metric_received (nbr s n) \<noteq> 0) then Some (False, s)
     else do {
       let s = (case n of None \<Rightarrow> s | Some n \<Rightarrow> set_nbr n ((nbr s n)\<lparr> n_etx_metric_received := 1 \<rparr>) s);
       s \<leftarrow> (if tsch_is_coordinator s then command_input_send_metric_CPAN out len s else command_input_send_metric_Node out len s);
       Some (True, s)
     }
   }"

subsection \<open>The state machine\<close>

definition callback_convergcast :: "output_fn \<Rightarrow> phase \<Rightarrow> route_step" where
  "callback_convergcast out next_state s =
     (case next_state of
        ST_SEND_METRIC \<Rightarrow> do {
          t \<leftarrow> tsch_queue_get_time_source s;
          change_beacon_link LINK_TYPE_ADVERTISING (n_addr (nbr s t)) s
        }
      | ST_POLL_NEIGHBOUR \<Rightarrow> handle_convergcast out s
      | ST_WAIT_FOR_SCHEDULE \<Rightarrow>
          (let s = (if tsch_is_coordinator s
                    then s\<lparr> missing_metric_timer := ctimer_set (clock_time s) (word_of_nat (CLOCK_SECOND * 20)) MISSING_METRIC_TIMEOUT \<rparr> else s)
           in change_beacon_link LINK_TYPE_ADVERTISING tsch_broadcast_address s)
      | _ \<Rightarrow> Some s)"

text \<open>After a metric or a poll was sent: forward what is queued, poll the next neighbour, or wait.\<close>

definition after_metric :: "output_fn \<Rightarrow> bool \<Rightarrow> route_step" where
  "after_metric out has_packets_to_forward s = do {
     (next_state, s) \<leftarrow>
       (if has_packets_to_forward then Some (ST_SEND_METRIC, s)
        else do {
          (more_nbrs, s) \<leftarrow> has_next_neighbor s;
          Some (if more_nbrs then ST_POLL_NEIGHBOUR else ST_WAIT_FOR_SCHEDULE, s)
        });
     callback_convergcast out next_state (handle_state_change next_state s)
   }"

definition transition_to_new_state_after_callback :: "route_state mac_cb \<Rightarrow> output_fn \<Rightarrow> nat \<Rightarrow> bool \<Rightarrow> route_step" where
  "transition_to_new_state_after_callback cb out cmd has_packets_to_forward s =
     (if cmd = CM_ETX_METRIC_SEND \<or> cmd = CM_ETX_METRIC_GET then after_metric out has_packets_to_forward s
      else if cmd = CM_ETX_METRIC_MISSING then
        (let next_state = (if has_packets_to_forward then ST_SEND_METRIC else ST_WAIT_FOR_SCHEDULE)
         in callback_convergcast out next_state (handle_state_change next_state s))
      else if cmd = CM_START_DIST_COMMIT then
        (if node_id s = ucast MASTER_TSCH_DISTRIBUTOR then do {
           s \<leftarrow> change_beacon_link LINK_TYPE_ADVERTISING tsch_broadcast_address s;
           let s = post_event EV_STOP_TSCH_TIMER s;
           let s = handle_state_change ST_WAIT_FOR_SCHEDULE s;
           s \<leftarrow> tsch_queue_reset cb s;
           Some (post_event EV_START_DISTRIBUTOR_CALLBACK (post_event EV_START_SERIAL_LINE_SCHEDULE_INPUT s))
         }
         else Some s)
      else if cmd = CM_SCHEDULE then callback_input_schedule_send out s
      else if cmd = CM_SCHEDULE_END then do {
        missing \<leftarrow> missing_packet s;
        Some (if missing = - 1 then handle_state_change ST_SCHEDULE_RECEIVED s else s)
      }
      else if cmd = CM_SCHEDULE_RETRANSMIT_REQ then
        (if current_state s = ST_SCHEDULE_OLD then do {
           known \<leftarrow> has_packet (unat (packetbuf_attr PACKETBUF_ATTR_PACKET_NUMBER s)) s;
           if known then request_retransmit_or_finish out (packetbuf_addr PACKETBUF_ADDR_RECEIVER s) s
           else Some (s\<lparr> missing_response_to_request_timer := ctimer_restart (clock_time s) (missing_response_to_request_timer s) \<rparr>)
         }
         else Some s)
      else if cmd = CM_SCHEDULE_RETRANSMIT then
        (if current_state s = ST_SCHEDULE_RETRANSMITTING then handle_retransmit s else Some s)
      else Some s)"

text \<open>The cases of the switch over the current state; the result is the return value.\<close>

definition on_send_metric :: "output_fn \<Rightarrow> nat \<Rightarrow> u16 \<Rightarrow> linkaddr \<Rightarrow> route_step" where
  "on_send_metric out cmd len src s =
     (if cmd = CM_ETX_METRIC_SEND then do { (_, s) \<leftarrow> command_input_send_metric out len src s; Some s } else Some s)"

definition on_dist_commit :: "output_fn \<Rightarrow> nat \<Rightarrow> route_state \<Rightarrow> (int \<times> route_state) option" where
  "on_dist_commit out cmd s =
     (if cmd = CM_START_DIST_COMMIT then do { s \<leftarrow> command_input_prepare_distributor out s; Some (1, s) } else Some (- 1, s))"

definition on_ST_EB :: "output_fn \<Rightarrow> nat \<Rightarrow> linkaddr \<Rightarrow> route_state \<Rightarrow> (int \<times> route_state) option" where
  "on_ST_EB out cmd src s = do {
     s \<leftarrow> (if cmd = CM_ETX_METRIC_GET then do {
             t \<leftarrow> slot_ticks [deployment_node_count, 2, CLOCK_SECOND] s;
             command_input_get_metric out (handle_state_change ST_SEND_METRIC (tsch_set_eb_period t s))
           }
           else Some s);
     not_time_source \<leftarrow>
       (if cmd = CM_ETX_METRIC_MISSING then do {
          t \<leftarrow> tsch_queue_get_time_source s;
          Some (\<not> linkaddr_cmp src (n_addr (nbr s t)))
        }
        else Some False);
     if not_time_source then do {
       t \<leftarrow> slot_ticks [deployment_node_count, 2, CLOCK_SECOND] s;
       (_, s) \<leftarrow> tsch_queue_update_time_source (Some src) (tsch_set_eb_period t s);
       s \<leftarrow> command_input_get_metric out (handle_state_change ST_SEND_METRIC s);
       Some (1, s)
     }
     else Some (- 1, s)
   }"

definition on_ST_SEND_METRIC :: "output_fn \<Rightarrow> nat \<Rightarrow> u16 \<Rightarrow> linkaddr \<Rightarrow> route_state \<Rightarrow> (int \<times> route_state) option" where
  "on_ST_SEND_METRIC out cmd len src s = do {
     s \<leftarrow> on_send_metric out cmd len src s;
     s \<leftarrow> (if cmd = CM_ETX_METRIC_MISSING then do {
             (_, s) \<leftarrow> tsch_queue_update_time_source (Some src) s;
             command_input_get_metric out s
           }
           else Some s);
     on_dist_commit out cmd s
   }"

definition on_ST_WAIT_FOR_SCHEDULE :: "output_fn \<Rightarrow> nat \<Rightarrow> u16 \<Rightarrow> linkaddr \<Rightarrow> route_state \<Rightarrow> (int \<times> route_state) option" where
  "on_ST_WAIT_FOR_SCHEDULE out cmd len src s =
     (if cmd = CM_START_DIST_COMMIT then do { s \<leftarrow> command_input_prepare_distributor out s; Some (1, s) }
      else if cmd = CM_ETX_METRIC_SEND then do {
        (change_state, s) \<leftarrow> command_input_send_metric out len src s;
        Some (1, if \<not> tsch_is_coordinator s \<and> change_state then handle_state_change ST_SEND_METRIC s else s)
      }
      else if cmd = CM_ETX_METRIC_MISSING \<and> ingore_missing_metric_requests s = 0 then
        (if tsch_is_coordinator s then Some (0, s)
         else do {
           let s = s\<lparr> ingore_missing_metric_requests := 1,
                    ignore_metric_timer := ctimer_set (clock_time s) (word_of_nat (CLOCK_SECOND * 5)) ACTIVATE_MISSING_METRIC_REQUESTS \<rparr>;
           myself \<leftarrow> missing_metric_from_myself s;
           s \<leftarrow> (if myself then do {
                   (_, s) \<leftarrow> tsch_queue_update_time_source (Some src) s;
                   command_input_get_metric out s
                 }
                 else command_input_missing_metric out len s);
           Some (1, s)
         })
      else handle_schedule_distribution_state_changes out cmd len s)"

definition on_ST_SCHEDULE_INSTALLED :: "output_fn \<Rightarrow> nat \<Rightarrow> u16 \<Rightarrow> route_state \<Rightarrow> (int \<times> route_state) option" where
  "on_ST_SCHEDULE_INSTALLED out cmd len s =
     (if cmd = CM_DATA then do {
        let received_asn = packetbuf_attr PACKETBUF_ATTR_RECEIVED_ASN s;
        let sch = get_own_schedule (flash s);
        i \<leftarrow> flow_index (p_flow_number (mrp s));
        receiver \<leftarrow> nth_opt (receiver_of_flow (schedule_config (flash s))) i;
        s \<leftarrow> (if node_id s = ucast receiver then command_input_data_received received_asn len s
              else command_input_data_forwarding out sch received_asn len s);
        Some (1, s)
      }
      else Some (- 1, s))"

definition transition_to_new_state :: "output_fn \<Rightarrow> nat \<Rightarrow> u16 \<Rightarrow> linkaddr \<Rightarrow> linkaddr \<Rightarrow> route_state \<Rightarrow> (int \<times> route_state) option" where
  "transition_to_new_state out cmd len src dest s =
     (case current_state s of
        ST_EB \<Rightarrow> on_ST_EB out cmd src s
      | ST_POLL_NEIGHBOUR \<Rightarrow> do { s \<leftarrow> on_send_metric out cmd len src s; on_dist_commit out cmd s }
      | ST_SEND_METRIC \<Rightarrow> on_ST_SEND_METRIC out cmd len src s
      | ST_POLL_MISSING_METRIC \<Rightarrow> do { s \<leftarrow> on_send_metric out cmd len src s; on_dist_commit out cmd s }
      | ST_WAIT_FOR_DIST_COMMIT \<Rightarrow>
          if cmd = CM_START_DIST_COMMIT then do {
            let s = post_event (EV_PRINT ''ETX-Links finished!'') s;
            s \<leftarrow> change_beacon_link LINK_TYPE_ADVERTISING tsch_broadcast_address (handle_state_change ST_WAIT_FOR_SCHEDULE s);
            Some (1, s)
          }
          else Some (1, s)
      | ST_WAIT_FOR_SCHEDULE \<Rightarrow> on_ST_WAIT_FOR_SCHEDULE out cmd len src s
      | ST_SCHEDULE_DIST \<Rightarrow> handle_schedule_distribution_state_changes out cmd len s
      | ST_SCHEDULE_RECEIVED \<Rightarrow>
          if cmd = CM_SCHEDULE_RETRANSMIT_REQ then do { s \<leftarrow> command_input_schedule_retransmitt_request out src s; Some (1, s) } else Some (- 1, s)
      | ST_SCHEDULE_RETRANSMITTING \<Rightarrow>
          if cmd = CM_SCHEDULE_RETRANSMIT_REQ then do { s \<leftarrow> command_input_schedule_retransmitt_request out src s; Some (1, s) } else Some (- 1, s)
      | ST_SCHEDULE_OLD \<Rightarrow>
          if cmd = CM_SCHEDULE_RETRANSMIT then do { s \<leftarrow> command_input_schedule_retransmitt out len src dest s; Some (1, s) } else Some (- 1, s)
      | ST_SCHEDULE_INSTALLED \<Rightarrow> on_ST_SCHEDULE_INSTALLED out cmd len s
      | _ \<Rightarrow> Some (- 1, s))"

definition master_routing_input :: "output_fn \<Rightarrow> u8 list \<Rightarrow> u16 \<Rightarrow> linkaddr \<Rightarrow> linkaddr \<Rightarrow> route_step" where
  "master_routing_input out data len src dest s =
     (if unat len < minimal_routing_packet_size \<or> unat len > maximal_routing_packet_size then Some s
      else do {
        p \<leftarrow> memcpy_mrp data (uint len) (mrp s);
        let s = s\<lparr> mrp := p \<rparr>;
        cmd \<leftarrow> data_at 0 s;
        (_, s) \<leftarrow> transition_to_new_state out (unat cmd) len src dest s;
        Some s
      })"

subsection \<open>After a transmission\<close>

text \<open>The packet back from the packet buffer: \<open>skip\<close> bytes behind the data pointer.\<close>

definition reload_mrp :: "nat \<Rightarrow> route_step" where
  "reload_mrp skip s = do {
     guard_opt (packetbuf_dataptr s + skip \<le> length (packetbuf s));
     p \<leftarrow> memcpy_mrp (drop (packetbuf_dataptr s + skip) (packetbuf s)) (uint (packetbuf_datalen s) - int skip) zero_mrp;
     Some (s\<lparr> mrp := p \<rparr>)
   }"

definition packetbuf_len_after :: "nat \<Rightarrow> route_state \<Rightarrow> u16" where
  "packetbuf_len_after skip s = word_of_int (uint (packetbuf_datalen s) - int skip)"

definition handle_callback_commands_divergcast :: "route_state mac_cb \<Rightarrow> output_fn \<Rightarrow> nat \<Rightarrow> u8 \<Rightarrow> route_step" where
  "handle_callback_commands_divergcast cb out cmd ret s =
     (if ret = MAC_TX_ERR then
        if current_state s = ST_SCHEDULE_OLD then do {
          s \<leftarrow> change_beacon_link LINK_TYPE_ADVERTISING tsch_broadcast_address (handle_state_change ST_SCHEDULE_DIST s);
          Some (s\<lparr> missing_response_to_request_timer := ctimer_stop (missing_response_to_request_timer s) \<rparr>)
        }
        else if current_state s = ST_SCHEDULE_RETRANSMITTING then handle_retransmit s
        else Some s
      else if ret \<noteq> MAC_TX_OK then do {
        let ie_offset = (if packetbuf_attr PACKETBUF_ATTR_MAC_METADATA s \<noteq> 0 then 9 else 0);
        let skip = unat (packetbuf_attr PACKETBUF_ATTR_PACKET_HDR_SIZE s) + ie_offset;
        s \<leftarrow> reload_mrp skip s;
        let dest_resend = packetbuf_addr PACKETBUF_ADDR_RECEIVER s;
        if cmd = CM_SCHEDULE_RETRANSMIT_REQ then do {
          pn \<leftarrow> data_at 1 s;
          known \<leftarrow> has_packet (unat pn) s;
          if known then request_retransmit_or_finish out dest_resend s
          else do {
            s \<leftarrow> change_beacon_link LINK_TYPE_ADVERTISING tsch_broadcast_address (handle_state_change ST_SCHEDULE_DIST s);
            Some (s\<lparr> missing_response_to_request_timer := ctimer_stop (missing_response_to_request_timer s) \<rparr>)
          }
        }
        else if cmd = CM_SCHEDULE_RETRANSMIT then do {
          n \<leftarrow> tsch_queue_get_nbr dest_resend s;
          pn \<leftarrow> data_at 1 s;
          s \<leftarrow> setup_packet_configuration (n_etx_link (nbr s n)) CM_SCHEDULE_RETRANSMIT (ucast pn) 1 s;
          out (Addr dest_resend) (s\<lparr> masternet_len := packetbuf_len_after skip s \<rparr>)
        }
        else transition_to_new_state_after_callback cb out cmd False s
      }
      else transition_to_new_state_after_callback cb out cmd False s)"

definition after_convergcast :: "route_state mac_cb \<Rightarrow> output_fn \<Rightarrow> nat \<Rightarrow> route_step" where
  "after_convergcast cb out cmd s =
     (if tsch_is_coordinator s then transition_to_new_state_after_callback cb out cmd False s
      else transition_to_new_state_after_callback cb out cmd (\<not> tsch_queue_is_empty (tsch_queue_get_time_source s) s) s)"

definition handle_callback_commands_convergcast :: "route_state mac_cb \<Rightarrow> output_fn \<Rightarrow> nat \<Rightarrow> u8 \<Rightarrow> route_step" where
  "handle_callback_commands_convergcast cb out cmd ret s =
     (if ret \<noteq> MAC_TX_OK then
        (case tsch_queue_get_nbr (packetbuf_addr PACKETBUF_ADDR_RECEIVER s) s of
           None \<Rightarrow> Some s
         | Some n \<Rightarrow>
             if current_state s = ST_POLL_NEIGHBOUR \<and> n_etx_metric_received (nbr s n) \<noteq> 0 then after_convergcast cb out cmd s
             else if current_state s = ST_POLL_MISSING_METRIC \<and> cmd = CM_ETX_METRIC_MISSING then Some s
             else if current_state s = ST_SEND_METRIC then do {
               stale \<leftarrow> (if tsch_is_coordinator s then Some False
                         else do { t \<leftarrow> tsch_queue_get_time_source s; Some (\<not> linkaddr_cmp (n_addr (nbr s t)) (n_addr (nbr s n))) });
               if stale then Some s
               else do {
                 let skip = unat (packetbuf_attr PACKETBUF_ATTR_PACKET_HDR_SIZE s);
                 s \<leftarrow> reload_mrp skip s;
                 handle_convergcast out (s\<lparr> masternet_len := packetbuf_len_after skip s \<rparr>)
               }
             }
             else after_convergcast cb out cmd s)
      else after_convergcast cb out cmd s)"

definition master_routing_output_callback :: "route_state mac_cb \<Rightarrow> output_fn \<Rightarrow> u8 \<Rightarrow> u8 \<Rightarrow> route_step" where
  "master_routing_output_callback cb out ret transmissions s =
     (if current_state s = ST_IGNORE_COMMANDS \<or> current_state s = ST_SCHEDULE_INSTALLED then Some s
      else
        (let cmd = unat (packetbuf_attr PACKETBUF_ATTR_PACKET_COMMAND s) in
         if cmd = CM_DATA \<or> cmd = CM_NO_COMMAND \<or> cmd = CM_END then Some s
         else if CM_ETX_METRIC_GET \<le> cmd \<and> cmd \<le> CM_ETX_METRIC_SEND then handle_callback_commands_convergcast cb out cmd ret s
         else if CM_SCHEDULE \<le> cmd \<and> cmd \<le> CM_SCHEDULE_END then handle_callback_commands_divergcast cb out cmd ret s
         else if cmd = CM_START_DIST_COMMIT then
           (if ret \<noteq> MAC_TX_OK then
              (if current_state s \<noteq> ST_WAIT_FOR_DIST_COMMIT then Some s
               else do {
                 n \<leftarrow> tsch_queue_get_nbr (packetbuf_addr PACKETBUF_ADDR_RECEIVER s) s;
                 s \<leftarrow> setup_packet_configuration (n_etx_link (nbr s n)) CM_START_DIST_COMMIT (p_packet_number (mrp s)) 0 s;
                 out Packetbuf_Receiver (s\<lparr> masternet_len := word_of_nat (minimal_routing_packet_size + 1) \<rparr>)
               })
            else transition_to_new_state_after_callback cb out cmd False s)
         else Some s))"

subsection \<open>Application data\<close>

definition master_routing_configured :: "route_state \<Rightarrow> bool" where
  "master_routing_configured s \<longleftrightarrow> current_state s = ST_SCHEDULE_INSTALLED"

definition master_routing_sent_configuration :: "route_state \<Rightarrow> master_packetbuf_config_t" where
  "master_routing_sent_configuration s = sent_packet_configuration s"

text \<open>The packet for the next cycle of the flow's slotframe: its first and its last transmission slot there.\<close>

definition prepare_data_packet :: "u8 list \<Rightarrow> u16 \<Rightarrow> route_step" where
  "prepare_data_packet data datalen s = do {
     let flow = own_transmission_flow (get_own_schedule (flash s));
     let s = s\<lparr> own_packet_number := own_packet_number s + 1 \<rparr>;
     let s = set_mrp flow (own_packet_number s) s;
     s \<leftarrow> set_data 0 (word_of_nat CM_DATA) s;
     b \<leftarrow> slice_opt data 0 (unat datalen);
     d \<leftarrow> put_opt (p_data (mrp s)) 1 b;
     let s = s\<lparr> mrp := (mrp s)\<lparr> p_data := d \<rparr> \<rparr>;
     f \<leftarrow> tsch_schedule_get_slotframe_by_handle (ucast flow) s;
     let sz = asn_val (sf_size (sfr s f));
     let current_sf_slot = TSCH_ASN_MOD (tsch_current_asn s) (sf_size (sfr s f));
     i \<leftarrow> flow_index flow;
     last_slot \<leftarrow> nth_opt (last_tx_slot_in_flow (schedule_config (flash s))) i;
     first_slot \<leftarrow> nth_opt (first_tx_slot_in_flow (schedule_config (flash s))) i;
     let base = (ucast (ls4b (tsch_current_asn s)) + sz - current_sf_slot :: u16);
     Some (s\<lparr> mrp := (mrp s)\<lparr> p_ttl_slot_number := base + ucast last_slot, p_earliest_tx_slot := base + ucast first_slot \<rparr> \<rparr>)
   }"

definition master_routing_send :: "output_fn \<Rightarrow> u8 list \<Rightarrow> u16 \<Rightarrow> route_state \<Rightarrow> (bool \<times> route_state) option" where
  "master_routing_send out data datalen s =
     (if \<not> master_routing_configured s then Some (False, s)
      else if own_transmission_flow (get_own_schedule (flash s)) \<noteq> 0 then do {
        s \<leftarrow> prepare_data_packet data datalen s;
        if TSCH_SLOTNUM_LT (p_earliest_tx_slot (mrp s)) (last_sent_packet_asn s + ucast (schedule_length (schedule_config (flash s))))
        then Some (False, s\<lparr> own_packet_number := own_packet_number s - 1 \<rparr>)
        else do {
          let s = s\<lparr> last_sent_packet_asn := p_earliest_tx_slot (mrp s) \<rparr>;
          next_receiver \<leftarrow> get_forward_dest (get_own_schedule (flash s)) (p_flow_number (mrp s));
          if next_receiver \<noteq> 0 then do {
            let s = set_destination_link_addr next_receiver s;
            let s = s\<lparr> sent_packet_configuration := (sent_packet_configuration s)
                       \<lparr> flow_number := ucast (p_flow_number (mrp s)), send_to_nbr := 0, overhearing_active := 0,
                         ttl_slot_number := p_ttl_slot_number (mrp s), earliest_tx_slot := p_earliest_tx_slot (mrp s),
                         max_tx := ttl_transmissions (p_ttl_slot_number (mrp s)) s,
                         command := word_of_nat CM_DATA, packet_nbr := ucast (p_packet_number (mrp s)) \<rparr>,
                       masternet_len := word_of_nat (minimal_routing_packet_size + COMMAND_END) + datalen \<rparr>;
            s \<leftarrow> out (Addr (destination s)) s;
            Some (True, s)
          }
          else Some (True, s)
        }
      }
      else Some (False, s))"

definition master_routing_sendto :: "output_fn \<Rightarrow> u8 list \<Rightarrow> u16 \<Rightarrow> u8 \<Rightarrow> route_state \<Rightarrow> (bool \<times> route_state) option" where
  "master_routing_sendto out data datalen receiver s =
     (if receiver = get_node_receiver (flash s) then master_routing_send out data datalen s else Some (False, s))"

subsection \<open>Initialisation and timers\<close>

definition bit_array_size :: nat where
  [simp]: "bit_array_size = (if MAX_PACKETS_PER_SCHEDULE mod 32 \<noteq> 0 then MAX_PACKETS_PER_SCHEDULE div 32 + 1 else MAX_PACKETS_PER_SCHEDULE div 32)"

definition init_master_routing :: route_step where
  "init_master_routing s = do {
     let is_coordinator = linkaddr_cmp coordinator_addr (linkaddr_node_addr s);
     let s = tsch_set_coordinator is_coordinator s;
     t \<leftarrow> slot_ticks [deployment_node_count, CLOCK_SECOND] s;
     let s = tsch_set_eb_period t s;
     let s = (if is_coordinator then tsch_set_rank 0 s else s);
     let s = s\<lparr> masternet_len := word_of_nat maximal_routing_packet_size, current_callback := False \<rparr>;
     let s = masternet_set_input_callback True s;
     let s = masternet_set_output_callback MASTER_ROUTING_OUTPUT_CALLBACK s;
     let s = masternet_set_config_callback True s;
     let s = tsch_set_schedule_difference_callback True s;
     let s = tsch_set_schedule_received_callback True s;
     (_, s) \<leftarrow> tsch_schedule_remove_all_slotframes s;
     v \<leftarrow> resetBitVector (received_packets_as_bit_array s) (word_of_nat bit_array_size);
     m \<leftarrow> resetBitVector (metric_received s) (word_of_nat bit_array_size);
     let s = s\<lparr> received_packets_as_bit_array := v, metric_received := m \<rparr>;
     let (f0, s) = tsch_schedule_add_slotframe 0 1 s;
     let (f1, s) = tsch_schedule_add_slotframe 1
                     (word_of_nat (if deployment_node_count mod 2 \<noteq> 0 then deployment_node_count else deployment_node_count + 1)) s;
     arr \<leftarrow> put_opt (sf_array s) 0 [f0, f1];
     let s = s\<lparr> sf_array := arr \<rparr>;
     let s = snd (tsch_schedule_add_link f0 LINK_OPTION_RX LINK_TYPE_ADVERTISING (Some tsch_broadcast_address) 0 0 s);
     let s = snd (tsch_schedule_add_link f1 LINK_OPTION_TX LINK_TYPE_ADVERTISING (Some tsch_broadcast_address) (ucast (get_beacon_slot s)) 0 s);
     t \<leftarrow> slot_ticks [deployment_node_count, TSCH_BEACON_AMOUNT + 10, CLOCK_SECOND] s;
     let s = s\<lparr> install_schedule_timer := ctimer_set (clock_time s) t FINALIZE_NEIGHBOR_DISCOVERY \<rparr>;
     Some (s\<lparr> next_dest := tsch_queue_get_nbr tsch_broadcast_address s \<rparr>)
   }"

definition master_routing_set_input_callback :: "bool \<Rightarrow> route_step" where
  "master_routing_set_input_callback callback s = do {
     s \<leftarrow> (if current_state s \<noteq> ST_SCHEDULE_INSTALLED then init_master_routing s else Some s);
     Some (s\<lparr> current_callback := callback \<rparr>)
   }"

text \<open>The function that a timer calls when it expires.\<close>

definition timer_function :: "route_state mac_cb \<Rightarrow> output_fn \<Rightarrow> timer_callback \<Rightarrow> route_step" where
  "timer_function cb out f s =
     (case f of
        INSTALL_SCHEDULE \<Rightarrow> install_schedule cb s
      | MISSING_RESPONSE \<Rightarrow> missing_response s
      | MISSING_METRIC_TIMEOUT \<Rightarrow> missing_metric_timeout out s
      | ACTIVATE_MISSING_METRIC_REQUESTS \<Rightarrow> Some (activate_missing_metric_requests s)
      | MASTER_START_METRIC_GATHERING \<Rightarrow> master_start_metric_gathering out s
      | FINALIZE_NEIGHBOR_DISCOVERY \<Rightarrow> finalize_neighbor_discovery s)"

subsection \<open>The layers tied together\<close>

text \<open>
  \<open>masternet_buf\<close> points to the packet of this layer, the MAC layer calls back when a packet cannot be queued, and the callback may
  send again. The first argument of \<open>sent_callback\<close> bounds the depth of these nested calls; \<open>link_stats\<close> stands for
  \<open>link_stats_packet_sent\<close>, as in \<open>Tsch\<close>.
\<close>

definition masternet_send :: "route_state mac_cb \<Rightarrow> output_fn" where
  "masternet_send cb dest s = do {
     (_, s) \<leftarrow> masternet_output (\<lambda>s. Some (mrp_bytes (mrp s))) master_routing_sent_configuration (send_packet cb) dest s;
     Some s
   }"

fun sent_callback :: "(linkaddr \<Rightarrow> u8 \<Rightarrow> u8 \<Rightarrow> route_state \<Rightarrow> route_state) \<Rightarrow> nat \<Rightarrow> route_state mac_cb" where
  "sent_callback link_stats 0 sent ret transmissions s = None"
| "sent_callback link_stats (Suc k) sent ret transmissions s =
     (case sent of
        NO_CALLBACK \<Rightarrow> Some s
      | KEEPALIVE_PACKET_SENT \<Rightarrow> keepalive_packet_sent link_stats ret transmissions s
      | MASTER_ROUTING_OUTPUT_CALLBACK \<Rightarrow>
          master_routing_output_callback (sent_callback link_stats k) (masternet_send (sent_callback link_stats k)) ret transmissions s)"

definition network_output :: "(linkaddr \<Rightarrow> u8 \<Rightarrow> u8 \<Rightarrow> route_state \<Rightarrow> route_state) \<Rightarrow> nat \<Rightarrow> output_fn" where
  "network_output link_stats k = masternet_send (sent_callback link_stats k)"

definition network_input :: "(linkaddr \<Rightarrow> u8 \<Rightarrow> u8 \<Rightarrow> route_state \<Rightarrow> route_state) \<Rightarrow> nat \<Rightarrow> route_step" where
  "network_input link_stats k s = masternet_input (master_routing_input (network_output link_stats k)) s"

end
