(* ===== verification/MasterRoutingProps.thy ===== *)
theory MasterRoutingProps
  imports MasterRouting ScheduleUpload TschProps
begin

text \<open>
  Properties of the routing layer: the schedule that the distributor's packets carry is the one every node stores, the
  knowledge about complete nodes is merged and gates the installation, and application data is sent in its slots and delivered.
\<close>

lemma small_word:
  assumes "n < 2 ^ LENGTH('a)"
  shows "unat (word_of_nat n :: 'a::len word) = n" "uint (word_of_nat n :: 'a::len word) = int n"
proof -
  show u: "unat (word_of_nat n :: 'a word) = n" using assms by (simp add: unat_of_nat take_bit_nat_eq_self)
  show "uint (word_of_nat n :: 'a word) = int n" by (metis u uint_nat)
qed

subsection \<open>The routing packet\<close>

lemma length_mrp_bytes [simp]: "length (mrp_bytes p) = 7 + length (p_data p)"
  by (simp add: mrp_bytes_def)

lemma drop_mrp_bytes: "drop (7 + n) (mrp_bytes p) = drop n (p_data p)"
proof -
  have "drop 7 (mrp_bytes p) = p_data p" by (simp add: mrp_bytes_def)
  then show ?thesis by (metis add.commute drop_drop)
qed

lemma mrp_of_bytes_bytes [simp]: "mrp_of_bytes (mrp_bytes p) = p"
  by (simp add: mrp_of_bytes_def mrp_bytes_def)

subsection \<open>The packets of the schedule\<close>

text \<open>The part of the schedule file that packet \<open>k\<close> carries: 57 bytes, fewer in the last packet.\<close>

definition chunk_len :: "nat \<Rightarrow> nat \<Rightarrow> nat" where
  "chunk_len L k = min 57 (L - 57 * (k - 1))"

definition chunk :: "u8 list \<Rightarrow> nat \<Rightarrow> nat \<Rightarrow> u8 list" where
  "chunk F L k = take (chunk_len L k) (drop (57 * (k - 1)) F)"

lemma length_chunk [simp]: "L \<le> length F \<Longrightarrow> length (chunk F L k) = chunk_len L k"
  by (auto simp: chunk_def chunk_len_def)

lemma chunk_len_le: "chunk_len L k \<le> 57" "57 * (k - 1) < L \<Longrightarrow> 57 * (k - 1) + chunk_len L k \<le> L"
  by (auto simp: chunk_len_def)

text \<open>The schedule of a node that has all of it: \<open>L\<close> bytes in an open file.\<close>

definition holds_schedule :: "nat \<Rightarrow> u8 list \<Rightarrow> flash_state \<Rightarrow> bool" where
  "holds_schedule L F fl \<longleftrightarrow> flash_wf fl \<and> fs_open fl \<and> bytes_in_flash fl = int L \<and> int L \<le> f_endptr fl \<and> simCFSData fl = F"

lemma holds_schedule_length: "holds_schedule L F fl \<Longrightarrow> L \<le> 4000 \<and> length F = 4000"
  by (auto simp: holds_schedule_def flash_wf_def cfs_wf_def)

lemma read_flash_bytes_in_flash: "read_flash buf off len fl = Some (r, b, fl') \<Longrightarrow> bytes_in_flash fl' = bytes_in_flash fl"
  by (auto simp: read_flash_def open_file_def cfs_open_def close_file_def cfs_close_def cfs_seek_def cfs_read_def Let_def bind_eq_Some_conv
      split: if_splits prod.splits)

text \<open>The computation of \<open>fill_schedule_packet_from_flash\<close> with its offset and length given.\<close>

lemma fill_schedule_packet_step:
  assumes "int k * 57 - 57 = off" "(if 57 > bytes_in_flash (flash s) - off then word_of_int (bytes_in_flash (flash s) - off) else 57) = w"
    "read_flash (drop 2 (p_data (mrp s))) off w (flash s) = Some (w, buf, fl)" "w \<noteq> 255" "2 \<le> length (p_data (mrp s))"
  shows "fill_schedule_packet_from_flash 2 (int k) s = Some (if off + uint w = bytes_in_flash fl then 1 else 0,
    s\<lparr> flash := fl, mrp := (mrp s)\<lparr> p_data := take 2 (p_data (mrp s)) @ buf \<rparr>, masternet_len := word_of_int (9 + uint w) \<rparr>)"
proof -
  have e: "(word_of_int (int MASTER_MSG_LENGTH - 2) :: u8) = 57" "uint (57 :: u8) = 57" "nat 2 = 2" by simp_all
  show ?thesis
    unfolding fill_schedule_packet_from_flash_def Let_def e assms(1,2,3) using assms(4,5) by (simp add: add_ac)
qed

lemma fill_schedule_packet_ok:
  assumes "holds_schedule L F (flash s)" "length (p_data (mrp s)) = 59" "0 < k" "57 * (k - 1) < L"
  shows "\<exists>fl. fill_schedule_packet_from_flash 2 (int k) s = Some (if L \<le> 57 * k then 1 else 0,
    s\<lparr> flash := fl, mrp := (mrp s)\<lparr> p_data := put_at (p_data (mrp s)) 2 (chunk F L k) \<rparr>, masternet_len := word_of_nat (9 + chunk_len L k) \<rparr>) \<and>
    holds_schedule L F fl"
proof -
  have h: "flash_wf (flash s)" "fs_open (flash s)" "bytes_in_flash (flash s) = int L" "int L \<le> f_endptr (flash s)" "simCFSData (flash s) = F"
    using assms(1) by (simp_all add: holds_schedule_def)
  define c where "c = chunk_len L k"
  define off where "off = 57 * (k - 1)"
  define w :: u8 where "w = word_of_nat c"
  have c: "c \<le> 57" "off + c \<le> L" using chunk_len_le assms(4) by (simp_all add: c_def off_def)
  have u: "unat w = c" using c(1) by (simp add: w_def unat_of_nat take_bit_nat_eq_self)
  then have u2: "uint w = int c" by (metis uint_nat)
  have o: "int k * 57 - 57 = int off" using assms(3) by (cases k) (simp_all add: off_def)
  have btw: "(if 57 > bytes_in_flash (flash s) - int off then word_of_int (bytes_in_flash (flash s) - int off) else 57) = w"
    using assms(4) by (auto simp: h(3) w_def c_def off_def chunk_len_def min_def of_nat_diff)
  have bound: "int off + uint w \<le> f_endptr (flash s)" "unat w \<le> length (drop 2 (p_data (mrp s)))" using u u2 c h(4) assms(2) by simp_all
  obtain fl where fl: "read_flash (drop 2 (p_data (mrp s))) (int off) w (flash s) =
      Some (w, put_at (drop 2 (p_data (mrp s))) 0 (take c (drop off F)), fl)"
    "flash_wf fl" "fs_open fl" "simCFSData fl = F" "f_endptr fl = f_endptr (flash s)"
    using read_flash_ok [OF h(1,2) _ bound] u h(5) by auto
  have data: "take 2 (p_data (mrp s)) @ put_at (drop 2 (p_data (mrp s))) 0 (take c (drop off F)) = put_at (p_data (mrp s)) 2 (chunk F L k)"
    by (simp add: put_at_def chunk_def c_def off_def)
  have n255: "w \<noteq> 255"
  proof
    assume "w = 255"
    then have "unat w = 255" by simp
    with u c(1) show False by linarith
  qed
  have fin: "int off + int c = int L \<longleftrightarrow> L \<le> 57 * k" using assms(3,4) by (cases k) (auto simp: chunk_len_def off_def c_def)
  note b = read_flash_bytes_in_flash [OF fl(1)]
  have "fill_schedule_packet_from_flash 2 (int k) s = Some (if L \<le> 57 * k then 1 else 0,
    s\<lparr> flash := fl, mrp := (mrp s)\<lparr> p_data := put_at (p_data (mrp s)) 2 (chunk F L k) \<rparr>, masternet_len := word_of_nat (9 + c) \<rparr>)"
    using fill_schedule_packet_step [OF o btw fl(1) n255] assms(2) fin unfolding u2 b h(3) data by simp
  then show ?thesis using fl b h by (auto simp: holds_schedule_def c_def)
qed

text \<open>The bytes of a packet of the schedule, as the distributor and a retransmitting node build it.\<close>

definition schedule_packet :: "nat \<Rightarrow> nat \<Rightarrow> route_state \<Rightarrow> u8 list option" where
  "schedule_packet cmd k s = do {
     s \<leftarrow> set_data 0 (word_of_nat cmd) s;
     s \<leftarrow> set_data 1 (word_of_nat k) s;
     (_, s) \<leftarrow> fill_schedule_packet_from_flash 2 (int k) s;
     Some (take (unat (masternet_len s)) (mrp_bytes (mrp s)))
   }"

lemma schedule_packet_ok:
  assumes "holds_schedule L F (flash s)" "length (p_data (mrp s)) = 59" "0 < k" "57 * (k - 1) < L"
  shows "\<exists>hdr. length hdr = 7 \<and> schedule_packet cmd k s = Some (hdr @ [word_of_nat cmd, word_of_nat k] @ chunk F L k)"
proof -
  let ?d = "(p_data (mrp s))[0 := word_of_nat cmd, 1 := word_of_nat k]"
  let ?s = "s\<lparr> mrp := (mrp s)\<lparr> p_data := ?d \<rparr> \<rparr>"
  have F: "length (chunk F L k) = chunk_len L k" using holds_schedule_length [OF assms(1)] by simp
  obtain fl where fl: "fill_schedule_packet_from_flash 2 (int k) ?s = Some (if L \<le> 57 * k then 1 else 0,
    ?s\<lparr> flash := fl, mrp := (mrp ?s)\<lparr> p_data := put_at (p_data (mrp ?s)) 2 (chunk F L k) \<rparr>, masternet_len := word_of_nat (9 + chunk_len L k) \<rparr>)"
    using fill_schedule_packet_ok [of L F ?s k] assms by auto
  obtain a b d where d: "p_data (mrp s) = a # b # d" using assms(2) by (cases "p_data (mrp s)"; cases "tl (p_data (mrp s))") auto
  define hdr where "hdr = take 7 (mrp_bytes (mrp s))"
  have m: "unat (word_of_nat (9 + chunk_len L k) :: u16) = 9 + chunk_len L k"
    using chunk_len_le(1) [of L k] by (simp add: unat_of_nat take_bit_nat_eq_self del: of_nat_add)
  have h: "schedule_packet cmd k s = Some (take (9 + chunk_len L k) (hdr @ put_at ?d 2 (chunk F L k)))"
    using fl assms(2) by (simp add: schedule_packet_def set_data_def upd_opt_def m mrp_bytes_def hdr_def del: of_nat_add)
  have "length hdr = 7" by (simp add: hdr_def)
  moreover have "take (9 + chunk_len L k) (hdr @ put_at ?d 2 (chunk F L k)) = hdr @ [word_of_nat cmd, word_of_nat k] @ chunk F L k"
    using \<open>length hdr = 7\<close> F by (simp add: d put_at_def)
  ultimately show ?thesis using h by auto
qed

subsection \<open>Storing a packet\<close>

lemma memcpy_mrp_ok:
  assumes "length hdr = 7" "length (p_data p) = 59" "length xs \<le> 59"
  shows "\<exists>p'. memcpy_mrp (hdr @ xs) (int (7 + length xs)) p = Some p' \<and> p_data p' = xs @ drop (length xs) (p_data p)"
proof -
  have e: "nat (int (7 + length xs)) = 7 + length xs" by simp
  have "memcpy_mrp (hdr @ xs) (int (7 + length xs)) p = Some (mrp_of_bytes (put_at (mrp_bytes p) 0 (hdr @ xs)))"
    unfolding memcpy_mrp_def e using assms by (simp add: slice_opt_def put_opt_def)
  moreover have "p_data (mrp_of_bytes (put_at (mrp_bytes p) 0 (hdr @ xs))) = xs @ drop (length xs) (p_data p)"
    using assms(1) by (simp add: mrp_of_bytes_def put_at_def drop_mrp_bytes)
  ultimately show ?thesis by blast
qed

text \<open>Writing one chunk leaves the others.\<close>

lemma chunk_put_at:
  assumes "L \<le> length D" "57 * (k - 1) < L" "length xs = chunk_len L k" "0 < j" "0 < k" "57 * (j - 1) < L"
  shows "chunk (put_at D (57 * (k - 1)) xs) L j = (if j = k then xs else chunk D L j)"
proof -
  have k: "57 * (k - 1) + length xs \<le> length D" and j: "57 * (j - 1) + chunk_len L j \<le> length D"
    using chunk_len_le(2) [OF assms(2)] chunk_len_le(2) [OF assms(6)] assms(1,3) by linarith+
  show ?thesis
  proof (cases "j = k")
    case True
    then show ?thesis using k assms(3) by (simp add: chunk_def put_at_def)
  next
    case False
    have sep: "57 * (j - 1) + i < 57 * (k - 1) \<or> 57 * (k - 1) + length xs \<le> 57 * (j - 1) + i" if "i < chunk_len L j" for i
    proof (cases "j < k")
      case True
      then have "57 * (j - 1) + 57 \<le> 57 * (k - 1)" using assms(4) by (cases k; cases j) auto
      then show ?thesis using that chunk_len_le(1) [of L j] by linarith
    next
      case False
      then have "57 * (k - 1) + 57 \<le> 57 * (j - 1)" using \<open>j \<noteq> k\<close> assms(5) by (cases k; cases j) auto
      then show ?thesis using chunk_len_le(1) [of L k] assms(3) by linarith
    qed
    have "put_at D (57 * (k - 1)) xs ! (57 * (j - 1) + i) = D ! (57 * (j - 1) + i)" if "i < chunk_len L j" for i
      using sep [OF that] that k j by (auto simp: nth_put_at)
    then have "chunk (put_at D (57 * (k - 1)) xs) L j = chunk D L j"
      using k j assms(1) by (intro nth_equalityI) (auto simp: chunk_def)
    then show ?thesis using False by simp
  qed
qed

text \<open>A node that has stored the packets \<open>B\<close> of the schedule \<open>F\<close> of \<open>L\<close> bytes.\<close>

definition stored :: "nat \<Rightarrow> u8 list \<Rightarrow> nat set \<Rightarrow> route_state \<Rightarrow> bool" where
  "stored L F B r \<longleftrightarrow> flash_wf (flash r) \<and> (B \<noteq> {} \<longrightarrow> fs_open (flash r)) \<and> length (p_data (mrp r)) = 59 \<and>
     bv_cap (received_packets_as_bit_array r) = 160 \<and> bv_set (received_packets_as_bit_array r) = B \<and>
     bytes_in_flash (flash r) = (\<Sum>k\<in>B. int (chunk_len L k)) \<and>
     (\<forall>k\<in>B. chunk (simCFSData (flash r)) L k = chunk F L k \<and> int (57 * (k - 1) + chunk_len L k) \<le> f_endptr (flash r))"

lemma store_new_packet:
  assumes s: "stored L F B r" and k: "0 < k" "k < 160" "57 * (k - 1) < L" "k \<notin> B" and L: "L \<le> 4000" "L \<le> length F"
    and B: "finite B" "\<forall>j\<in>B. 0 < j \<and> 57 * (j - 1) < L"
    and d: "p_data (mrp r) = [c, word_of_nat k] @ chunk F L k @ rest"
  shows "\<exists>r'. command_input_schedule_new_packet (word_of_nat (9 + chunk_len L k)) r = Some r' \<and> stored L F (insert k B) r' \<and>
    current_state r' = current_state r"
proof -
  define n where "n = chunk_len L k"
  define off where "off = 57 * (k - 1)"
  define w :: u8 where "w = word_of_nat n"
  have n: "n \<le> 57" "off + n \<le> L" using chunk_len_le k(3) by (simp_all add: n_def off_def)
  have u: "unat w = n" "uint w = int n" using small_word [where 'a = 8, of n] n(1) by (simp_all add: w_def)
  have uk: "unat (word_of_nat k :: u8) = k" "uint (word_of_nat k :: u8) = int k" using small_word [where 'a = 8, of k] k(2) by simp_all
  have ul: "uint (word_of_nat (9 + n) :: u16) = int (9 + n)" using small_word(2) [where 'a = 16, of "9 + n"] n(1) by simp
  have o: "int k * 57 - 57 = int off" using k(1) by (cases k) (simp_all add: off_def)
  have w: "word_of_int (int (9 + n) - int minimal_routing_packet_size - 2) = w" by (simp add: w_def)
  have h: "flash_wf (flash r)" "bv_cap (received_packets_as_bit_array r) = 160" "bv_set (received_packets_as_bit_array r) = B"
    "bytes_in_flash (flash r) = (\<Sum>k\<in>B. int (chunk_len L k))" "length (p_data (mrp r)) = 59"
    and hb: "\<And>k. k \<in> B \<Longrightarrow> chunk (simCFSData (flash r)) L k = chunk F L k \<and> int (57 * (k - 1) + chunk_len L k) \<le> f_endptr (flash r)"
    and ho: "B \<noteq> {} \<Longrightarrow> fs_open (flash r)"
    using s by (auto simp: stored_def)
  have D: "length (simCFSData (flash r)) = 4000" using h(1) by (simp add: flash_wf_def cfs_wf_def)
  have c: "take n (drop 2 (p_data (mrp r))) = chunk F L k" using L(2) by (simp add: d n_def)
  have "int off + uint w \<le> int CFS_BUF_SIZE" "unat w \<le> length (drop 2 (p_data (mrp r)))"
    using n L(1) u h(5) by simp_all
  then obtain fl where fl: "write_to_flash_offset (drop 2 (p_data (mrp r))) (int off) w (flash r) = Some (1, fl)" "flash_wf fl" "fs_open fl"
      "simCFSData fl = put_at (simCFSData (flash r)) off (chunk F L k)" "int off + int n \<le> f_endptr fl"
      "fs_open (flash r) \<longrightarrow> f_endptr (flash r) \<le> f_endptr fl" "bytes_in_flash fl = bytes_in_flash (flash r) + int n"
    using write_offset_ok [OF h(1), of "int off" w "drop 2 (p_data (mrp r))"] u c by auto
  obtain v where v: "setBit (received_packets_as_bit_array r) k = Some v" "bv_set v = insert k B" "bv_cap v = 160"
    using words.set_law [of k "received_packets_as_bit_array r"] k(2) h(2,3) by auto
  have "command_input_schedule_new_packet (word_of_nat (9 + n)) r = Some (r\<lparr> flash := fl, received_packets_as_bit_array := v \<rparr>)"
    unfolding command_input_schedule_new_packet_def unpack_schedule_to_flash_def data_at_def set_bit_array_def on_flash_def ul w
    using fl(1) v(1) uk by (simp add: d nth_opt_def o flip: w)
  moreover have "stored L F (insert k B) (r\<lparr> flash := fl, received_packets_as_bit_array := v \<rparr>)"
  proof -
    have "chunk (simCFSData fl) L j = chunk F L j \<and> int (57 * (j - 1) + chunk_len L j) \<le> f_endptr fl" if j: "j \<in> insert k B" for j
    proof (cases "j = k")
      case True
      then show ?thesis using chunk_put_at [of L "simCFSData (flash r)" k "chunk F L k" k] fl(4,5) D L k by (simp add: off_def n_def)
    next
      case False
      then have "j \<in> B" using j by simp
      then show ?thesis using chunk_put_at [of L "simCFSData (flash r)" k "chunk F L k" j] fl(4,6) D L k B(2) False hb [of j] ho
        by (auto simp: off_def)
    qed
    then show ?thesis using fl v h B(1) k(4) by (simp add: stored_def n_def)
  qed
  ultimately show ?thesis unfolding n_def by force
qed

lemma stored_mrp: "stored L F B r \<Longrightarrow> length (p_data p) = 59 \<Longrightarrow> stored L F B (r\<lparr> mrp := p \<rparr>)"
  by (simp add: stored_def)

definition waiting :: "route_state \<Rightarrow> bool" where
  "waiting r \<longleftrightarrow> current_state r = ST_WAIT_FOR_SCHEDULE \<or> current_state r = ST_SCHEDULE_DIST"

lemma waiting_retransmit:
  "waiting r \<Longrightarrow> transition_to_new_state out CM_SCHEDULE_RETRANSMIT len src dest r =
    handle_schedule_distribution_state_changes out CM_SCHEDULE_RETRANSMIT len r"
  by (auto simp: waiting_def transition_to_new_state_def on_ST_WAIT_FOR_SCHEDULE_def)

lemma receive_packet:
  assumes s: "stored L F B r" "waiting r" and k: "0 < k" "k < 160" "57 * (k - 1) < L" and L: "L \<le> 4000" "L \<le> length F"
    and B: "finite B" "\<forall>j\<in>B. 0 < j \<and> 57 * (j - 1) < L"
    and b: "b = hdr @ [word_of_nat CM_SCHEDULE_RETRANSMIT, word_of_nat k] @ chunk F L k" "length hdr = 7"
  shows "\<exists>r'. master_routing_input out b (word_of_nat (length b)) src dest r = Some r' \<and> stored L F (insert k B) r' \<and> waiting r'"
proof -
  let ?xs = "[word_of_nat CM_SCHEDULE_RETRANSMIT, word_of_nat k] @ chunk F L k"
  have n: "length b = 9 + chunk_len L k" using b L(2) by simp
  have c: "chunk_len L k \<le> 57" by (rule chunk_len_le(1))
  have lb: "unat (word_of_nat (length b) :: u16) = length b" "uint (word_of_nat (length b) :: u16) = int (length b)"
    using small_word [where 'a = 16, of "length b"] n c by simp_all
  have uk: "unat (word_of_nat k :: u8) = k" using small_word(1) [where 'a = 8, of k] k(2) by simp
  have l59: "length (p_data (mrp r)) = 59" using s(1) by (simp add: stored_def)
  have i7: "int (length b) = int (7 + length ?xs)" "length ?xs \<le> 59" using n L(2) c by simp_all
  obtain p where p: "memcpy_mrp b (int (length b)) (mrp r) = Some p" "p_data p = ?xs @ drop (length ?xs) (p_data (mrp r))"
    using memcpy_mrp_ok [OF b(2) l59 i7(2), folded b(1) i7(1)] by blast
  define r1 where "r1 = r\<lparr> mrp := p \<rparr>"
  have p59: "length (p_data p) = 59" using p(2) l59 i7(2) by simp
  have r1: "stored L F B r1" "waiting r1" "p_data (mrp r1) = [6, word_of_nat k] @ chunk F L k @ drop (length ?xs) (p_data (mrp r))"
    "received_packets_as_bit_array r1 = received_packets_as_bit_array r"
    using stored_mrp [OF s(1) p59] s(2) p(2) by (simp_all add: r1_def waiting_def)
  have t: "isBitSet (received_packets_as_bit_array r1) k = Some (if k \<in> B then 1 else 0)"
    using words.test_law [of k "received_packets_as_bit_array r1"] k(2) r1(1) by (simp add: stored_def)
  have "transition_to_new_state out 6 (word_of_nat (length b)) src dest r1 =
      handle_schedule_distribution_state_changes out 6 (word_of_nat (length b)) r1"
    using waiting_retransmit [OF r1(2)] by simp
  moreover have "\<exists>x r2. handle_schedule_distribution_state_changes out 6 (word_of_nat (length b)) r1 = Some (x, r2) \<and>
      stored L F (insert k B) r2 \<and> waiting r2"
  proof (cases "k \<in> B")
    case True
    then show ?thesis using t r1 uk by (simp add: handle_schedule_distribution_state_changes_def data_at_def has_packet_def nth_opt_def insert_absorb)
  next
    case False
    let ?r = "handle_state_change ST_SCHEDULE_DIST r1"
    have "stored L F B ?r" "p_data (mrp ?r) = [6, word_of_nat k] @ chunk F L k @ drop (length ?xs) (p_data (mrp r))"
      using r1 by (simp_all add: stored_def handle_state_change_def)
    from store_new_packet [OF this(1) k False L B this(2)] obtain r2 where
      r2: "command_input_schedule_new_packet (word_of_nat (9 + chunk_len L k)) ?r = Some r2" "stored L F (insert k B) r2"
        "current_state r2 = ST_SCHEDULE_DIST"
      by (auto simp: handle_state_change_def)
    then show ?thesis using t r1 uk False n
      by (simp add: handle_schedule_distribution_state_changes_def data_at_def has_packet_def nth_opt_def waiting_def del: of_nat_add)
  qed
  ultimately obtain x r2 where r2: "transition_to_new_state out 6 (word_of_nat (length b)) src dest r1 = Some (x, r2)"
    "stored L F (insert k B) r2" "waiting r2" by auto
  have "master_routing_input out b (word_of_nat (length b)) src dest r = Some r2"
    unfolding master_routing_input_def lb using n c p r1(3) r2(1) by (simp add: data_at_def nth_opt_def flip: r1_def)
  then show ?thesis using r2 by blast
qed

subsection \<open>Dissemination of the schedule\<close>

fun receive_all :: "output_fn \<Rightarrow> linkaddr \<Rightarrow> linkaddr \<Rightarrow> u8 list list \<Rightarrow> route_step" where
  "receive_all out src dest [] r = Some r"
| "receive_all out src dest (b # bs) r = do {
     r \<leftarrow> master_routing_input out b (word_of_nat (length b)) src dest r;
     receive_all out src dest bs r
   }"

lemma chunks_sum: "(\<Sum>k = 1..m. int (chunk_len L k)) = int (min L (57 * m))"
proof (induction m)
  case (Suc m)
  have "(\<Sum>k = 1..Suc m. int (chunk_len L k)) = int (min L (57 * m)) + int (chunk_len L (Suc m))" using Suc by simp
  also have "\<dots> = int (min L (57 * Suc m))" by (simp add: chunk_len_def min_def) linarith
  finally show ?case .
qed simp

lemma chunks_determine:
  assumes "\<And>k. 1 \<le> k \<Longrightarrow> 57 * (k - 1) < L \<Longrightarrow> chunk D L k = chunk F L k" "L \<le> length D" "L \<le> length F"
  shows "take L D = take L F"
proof (rule nth_equalityI)
  fix i assume "i < length (take L D)"
  then have i: "i < L" by simp
  define k where "k = i div 57 + 1"
  have k: "57 * (k - 1) + i mod 57 = i" by (simp add: k_def)
  then have s: "57 * (k - 1) < L" "i mod 57 < chunk_len L k" using i by (auto simp: chunk_len_def)
  have "chunk D L k ! (i mod 57) = chunk F L k ! (i mod 57)" using assms(1) [of k] s(1) by (simp add: k_def)
  then show "take L D ! i = take L F ! i" using s(2) k assms(2,3) i by (simp add: chunk_def)
qed (use assms in simp)

lemma receive_all_ok:
  assumes "stored L F B r" "waiting r" "L \<le> 4000" "L \<le> length F" "finite B" "\<forall>j\<in>B. 0 < j \<and> 57 * (j - 1) < L"
    and "\<forall>k\<in>set ks. 0 < k \<and> k < 160 \<and> 57 * (k - 1) < L"
    and "\<And>k. k \<in> set ks \<Longrightarrow> \<exists>hdr. length hdr = 7 \<and> pk k = hdr @ [word_of_nat CM_SCHEDULE_RETRANSMIT, word_of_nat k] @ chunk F L k"
  shows "\<exists>r'. receive_all out src dest (map pk ks) r = Some r' \<and> stored L F (B \<union> set ks) r' \<and> waiting r'"
  using assms
proof (induction ks arbitrary: r B)
  case (Cons k ks)
  obtain hdr where hdr: "length hdr = 7" "pk k = hdr @ [word_of_nat CM_SCHEDULE_RETRANSMIT, word_of_nat k] @ chunk F L k"
    using Cons.prems(8) by auto
  have k: "0 < k" "k < 160" "57 * (k - 1) < L" using Cons.prems(7) by simp_all
  obtain r1 where r1: "master_routing_input out (pk k) (word_of_nat (length (pk k))) src dest r = Some r1" "stored L F (insert k B) r1" "waiting r1"
    using receive_packet [OF Cons.prems(1,2) k Cons.prems(3-6) hdr(2,1)] by blast
  have "\<exists>r'. receive_all out src dest (map pk ks) r1 = Some r' \<and> stored L F (insert k B \<union> set ks) r' \<and> waiting r'"
    by (rule Cons.IH [OF r1(2,3) Cons.prems(3,4)]) (use Cons.prems k in auto)
  then show ?case using r1(1) by auto
qed simp


text \<open>A node that has just been switched on, with routing not initialised.\<close>

definition timer_off :: ctimer where
  "timer_off = \<lparr> ct_listed = False, ct_start = 0, ct_interval = 0, ct_f = None \<rparr>"

definition config_zero :: master_packetbuf_config_t where
  "config_zero = \<lparr> ttl_slot_number = 0, earliest_tx_slot = 0, flow_number = 0, max_tx = 0, command = 0, packet_nbr = 0, overhearing_active = 0,
     send_to_nbr = 0 \<rparr>"

definition route_boot :: "linkaddr \<Rightarrow> route_state" where
  "route_boot a = masternet_state.extend (mac_state.extend (mac_boot a) (masternet_state.fields 66 False NO_CALLBACK False))
     (route_state.fields (ucast (a ! 0)) flash_boot zero_mrp (replicate 5 0) (replicate 5 0) linkaddr_null 0 0 0 1 ST_EB None (replicate 9 None)
       config_zero False timer_off timer_off timer_off timer_off 0 (replicate 76 0))"

lemma route_boot_simps [simp]:
  "flash (route_boot a) = flash_boot" "mrp (route_boot a) = zero_mrp" "received_packets_as_bit_array (route_boot a) = replicate 5 0"
  "current_state (route_boot a) = ST_EB" "node_id (route_boot a) = ucast (a ! 0)" "next_dest (route_boot a) = None"
  by (simp_all add: route_boot_def masternet_state.defs route_state.defs)

lemma bv_set_zero [simp]: "bv_set (replicate n 0) = {}"
  by (auto simp: bv_set_def)

lemma bv_set_ones: "bv_set (replicate n (- 1) :: u8 list) = {0..<8 * n}"
  by (auto simp: bv_set_def less_mult_imp_div_less div_less_iff_less_mult)

lemma route_boot_mac_simps [simp]: "tsch_timing (route_boot a) = tsch_timing (mac_boot a)" "clock_time (route_boot a) = clock_time (mac_boot a)"
  by (simp_all add: route_boot_def masternet_state.defs route_state.defs mac_state.defs)

lemma length_zero_mrp [simp]: "length (p_data zero_mrp) = 59"
  by (simp add: zero_mrp_def)

lemma flash_with_holds: "length F \<le> 4000 \<Longrightarrow> holds_schedule (length F) (F @ replicate (4000 - length F) 0) (flash_with F)"
  using flash_with_wf [of F] by (simp add: holds_schedule_def flash_with_def)


subsection \<open>Who has the schedule\<close>

lemma count_schedules_ok:
  assumes "\<forall>i\<in>set is. i < bv_cap v" "distinct is" "unat k + length is < 256"
  shows "\<exists>c. count_schedules v is k = Some c \<and> unat c = unat k + card (set is \<inter> bv_set v)"
  using assms
proof (induction "is" arbitrary: k)
  case (Cons i "is")
  let ?k = "if i \<in> bv_set v then k + 1 else k"
  have u: "unat ?k = unat k + (if i \<in> bv_set v then 1 else 0)"
    using Cons.prems(3) by (simp add: unat_add_lem [where 'a = 8, THEN iffD1])
  then obtain c where c: "count_schedules v is ?k = Some c" "unat c = unat ?k + card (set is \<inter> bv_set v)"
    using Cons.IH [of ?k] Cons.prems by (auto split: if_splits)
  have "set (i # is) \<inter> bv_set v = (if i \<in> bv_set v then insert i (set is \<inter> bv_set v) else set is \<inter> bv_set v)" by auto
  then have "unat c = unat k + card (set (i # is) \<inter> bv_set v)" using c(2) u Cons.prems(2) by simp
  then show ?case using c(1) Cons.prems(1) by (auto simp: octets.test_law)
qed simp

lemma check_received_schedules:
  assumes "length (schedule_received s) = 3"
  shows "check_received_schedules_by_nodes s =
    (if {0..<20} \<subseteq> bv_set (schedule_received s) then Some (True, tsch_reset_schedule_received_callback s) else Some (False, s))"
proof -
  let ?v = "schedule_received s"
  have "\<exists>c. count_schedules ?v [0..<20] 0 = Some c \<and> unat c = card ({0..<20} \<inter> bv_set ?v)"
    using count_schedules_ok [of "[0..<20]" ?v 0] assms by (simp add: bv_cap_def)
  then obtain c where c: "count_schedules ?v [0..<20] 0 = Some c" "unat c = card ({0..<20} \<inter> bv_set ?v)" by blast
  have "card ({0..<20} \<inter> bv_set ?v) = 20 \<longleftrightarrow> {0..<20} \<subseteq> bv_set ?v"
  proof
    assume "card ({0..<20} \<inter> bv_set ?v) = 20"
    then have "{0..<20} \<inter> bv_set ?v = {0..<20}" by (intro card_subset_eq) auto
    then show "{0..<20} \<subseteq> bv_set ?v" by blast
  qed (simp add: Int_absorb2)
  then show ?thesis using c by (simp add: check_received_schedules_by_nodes_def)
qed

lemma merge_schedules_ok:
  assumes "length others = 3" "\<forall>i\<in>set is. i < 20" "length (schedule_received s) = 3"
  shows "\<exists>v. merge_schedules others is s = Some (s\<lparr> schedule_received := v \<rparr>) \<and> length v = 3 \<and>
    bv_set v = bv_set (schedule_received s) \<union> (set is \<inter> bv_set others)"
  using assms
proof (induction "is" arbitrary: s)
  case Nil
  then show ?case by (intro exI [of _ "schedule_received s"]) simp
next
  case (Cons i "is")
  have i: "i < bv_cap (schedule_received s)" "i < bv_cap others" using Cons.prems by (auto simp: bv_cap_def)
  show ?case
  proof (cases "i \<notin> bv_set (schedule_received s) \<and> i \<in> bv_set others")
    case True
    obtain v where v: "setBit1Byte (schedule_received s) i = Some v" "bv_set v = insert i (bv_set (schedule_received s))" "bv_cap v = bv_cap (schedule_received s)"
      using octets.set_law [OF i(1)] by blast
    then have "length v = 3" using Cons.prems(3) by (simp add: bv_cap_def)
    then show ?thesis using Cons.IH [of "s\<lparr> schedule_received := v \<rparr>"] Cons.prems True v i by (auto simp: octets.test_law)
  next
    case False
    then show ?thesis using Cons.IH [of s] Cons.prems i by (auto simp: octets.test_law)
  qed
qed

lemma slot_ticks_default:
  assumes "tsch_timing s = tsch_default_timing_us"
  shows "slot_ticks [20, 1000] s = Some 200" "slot_ticks [20, 5, 1000] s = Some 1000" "slot_ticks [20, 2, 1000] s = Some 400"
    "slot_ticks [20, 350, 1000] s = Some 70000" "slot_ticks [1000000] s = Some 10000"
proof -
  define p where "p = ddiv (dmul 10000 1) 1000000"
  have g: "get_percent_of_second 11 s = Some p"
    by (simp add: get_percent_of_second_def assms tsch_default_timing_us_def nth_opt_def p_def)
  have p: "p = 5764607523034235 * 2 powi (- 59)"
    using round_to_eqI [of "- 39" 53 10000 5497558138880000] round_to_eqI [of "- 59" 53 "1 / 100" 5764607523034235]
    by (simp add: p_def ddiv_def dmul_def power_int_minus)
  have q: "dmul p 20 = 7205759403792794 * 2 powi (- 55)"
    using round_to_eqI [of "- 55" 53 "p * 20" 7205759403792794] by (simp add: p dmul_def power_int_minus)
  have q2: "dmul (dmul p 20) 2 = 7205759403792794 * 2 powi (- 54)"
    using round_to_eqI [of "- 54" 53 "dmul p 20 * 2" 7205759403792794] unfolding q by (simp add: dmul_def power_int_minus)
  have m: "dmul (dmul p 20) 1000 = 200" "dmul (dmul p 20) 5 = 1" "dmul (dmul p 20) 350 = 70" "dmul (dmul (dmul p 20) 2) 1000 = 400"
    using round_to_eqI [of "- 45" 53 "dmul p 20 * 1000" 7036874417766400] round_to_eqI [of "- 52" 53 "dmul p 20 * 5" 4503599627370496]
      round_to_eqI [of "- 46" 53 "dmul p 20 * 350" 4925812092436480] round_to_eqI [of "- 44" 53 "dmul (dmul p 20) 2 * 1000" 7036874417766400]
    unfolding q2 unfolding q by (simp_all add: dmul_def power_int_minus)
  have e: "dmul 1 1000 = 1000" "dmul 70 1000 = 70000" "dmul p 1000000 = 10000"
    using round_to_eqI [of "- 43" 53 1000 8796093022208000] round_to_eqI [of "- 36" 53 70000 4810363371520000]
      round_to_eqI [of "- 39" 53 "p * 1000000" 5497558138880000]
    by (simp_all add: p dmul_def power_int_minus)
  show "slot_ticks [20, 1000] s = Some 200" "slot_ticks [20, 5, 1000] s = Some 1000" "slot_ticks [20, 2, 1000] s = Some 400"
    "slot_ticks [20, 350, 1000] s = Some 70000" "slot_ticks [1000000] s = Some 10000"
    using g m e by (simp_all add: slot_ticks_def)
qed

text \<open>
  C19. The knowledge about which nodes have the schedule spreads by union and gates the installation. In the phases in
  which a node has the whole schedule (\<open>ST_SCHEDULE_RETRANSMITTING\<close> and \<open>ST_SCHEDULE_RECEIVED\<close>), a beacon's bit vector is merged into the own one; when all
  20 nodes are marked, the beacon period becomes 200 ms, the installation is scheduled for five beacon rounds (one second) later
  and further vectors are ignored, otherwise nothing else changes. In every other phase the vector is ignored. The timer's function
  \<open>install_schedule\<close> does nothing unless all nodes are marked.
\<close>

theorem schedule_received_gates_installation:
  assumes "length others = 3" "length (schedule_received s) = 3" "tsch_timing s = tsch_default_timing_us"
  shows "(\<exists>v. bv_set v = bv_set (schedule_received s) \<union> (bv_set others \<inter> {0..<20}) \<and> length v = 3 \<and>
    master_schedule_received_callback others len s = Some
      (if current_state s \<noteq> ST_SCHEDULE_RETRANSMITTING \<and> current_state s \<noteq> ST_SCHEDULE_RECEIVED then s
       else if {0..<20} \<subseteq> bv_set v
       then s\<lparr> schedule_received := v, schedule_received_callback := False, tsch_current_eb_period := 200,
               install_schedule_timer := ctimer_set (clock_time s) 1000 INSTALL_SCHEDULE \<rparr>
       else s\<lparr> schedule_received := v \<rparr>)) \<and>
    ({0..<20} \<subseteq> bv_set (schedule_received s) \<or> install_schedule cb s = Some s)"
proof
  have ph: "current_state s \<ge> ST_SCHEDULE_RETRANSMITTING \<and> current_state s \<le> ST_SCHEDULE_RECEIVED \<longleftrightarrow>
      current_state s = ST_SCHEDULE_RETRANSMITTING \<or> current_state s = ST_SCHEDULE_RECEIVED"
    by (cases "current_state s") (simp_all add: less_eq_phase_def phase_index_def)
  obtain v where v: "merge_schedules others [0..<20] s = Some (s\<lparr> schedule_received := v \<rparr>)" "length v = 3"
      "bv_set v = bv_set (schedule_received s) \<union> (bv_set others \<inter> {0..<20})"
    using merge_schedules_ok [OF assms(1) _ assms(2), of "[0..<20]"] by (auto simp: Int_commute)
  note t = slot_ticks_default [of "tsch_reset_schedule_received_callback (s\<lparr> schedule_received := v \<rparr>)"]
    slot_ticks_default(2) [of "tsch_set_eb_period 200 (tsch_reset_schedule_received_callback (s\<lparr> schedule_received := v \<rparr>))"]
  show "\<exists>v. bv_set v = bv_set (schedule_received s) \<union> (bv_set others \<inter> {0..<20}) \<and> length v = 3 \<and>
    master_schedule_received_callback others len s = Some
      (if current_state s \<noteq> ST_SCHEDULE_RETRANSMITTING \<and> current_state s \<noteq> ST_SCHEDULE_RECEIVED then s
       else if {0..<20} \<subseteq> bv_set v
       then s\<lparr> schedule_received := v, schedule_received_callback := False, tsch_current_eb_period := 200,
               install_schedule_timer := ctimer_set (clock_time s) 1000 INSTALL_SCHEDULE \<rparr>
       else s\<lparr> schedule_received := v \<rparr>)"
    unfolding master_schedule_received_callback_def ph
    using v t check_received_schedules [of "s\<lparr> schedule_received := v \<rparr>"] assms(3)
    by (intro exI [of _ v]) (auto simp: tsch_reset_schedule_received_callback_def tsch_set_eb_period_def)
  show "{0..<20} \<subseteq> bv_set (schedule_received s) \<or> install_schedule cb s = Some s"
    using check_received_schedules [OF assms(2)] by (auto simp add: install_schedule_def)
qed

theorem schedule_received_gates_installation_witness:
  "\<exists>v. master_schedule_received_callback (replicate 3 (- 1)) 3
      ((route_boot linkaddr_null)\<lparr> current_state := ST_SCHEDULE_RECEIVED, schedule_received := replicate 3 0 \<rparr>) =
    Some ((route_boot linkaddr_null)\<lparr> current_state := ST_SCHEDULE_RECEIVED, schedule_received := v, schedule_received_callback := False,
      tsch_current_eb_period := 200, install_schedule_timer := ctimer_set 0 1000 INSTALL_SCHEDULE \<rparr>)"
proof -
  let ?s = "(route_boot linkaddr_null)\<lparr> current_state := ST_SCHEDULE_RECEIVED, schedule_received := replicate 3 0 \<rparr>"
  have t: "tsch_timing ?s = tsch_default_timing_us" "clock_time ?s = 0" by (simp_all add: mac_boot_def net_state.defs mac_state.defs)
  have l: "length (replicate 3 (- 1 :: u8)) = 3" "length (schedule_received ?s) = 3" by simp_all
  from schedule_received_gates_installation [OF l t(1), THEN conjunct1, of 3] show ?thesis
    by (elim exE conjE) (auto simp: bv_set_ones t(2))
qed

end
