(* ===== verification/RoutingData.thy ===== *)
theory RoutingData
  imports MasterRoutingProps
begin

text \<open>
  Application data on its way through the network (\<open>os/net/master-routing/master-routing.c\<close>): what the sender hands to the network
  layer, every node on the route passes on unchanged and the receiver gives to the application, and packets seen before are dropped.
\<close>

subsection \<open>Frames\<close>

text \<open>The bytes that the network layer copies into the packet buffer.\<close>

definition frame_of :: "route_state \<Rightarrow> u8 list" where
  "frame_of s = take (unat (masternet_len s)) (mrp_bytes (mrp s))"

lemma mrp_bytes_of_bytes: "7 \<le> length bs \<Longrightarrow> mrp_bytes (mrp_of_bytes bs) = bs"
proof -
  assume "7 \<le> length bs"
  then have "Suc (Suc (Suc (Suc (Suc (Suc (Suc 0)))))) \<le> length bs" by simp
  then show ?thesis by (auto simp: Suc_le_length_iff mrp_bytes_def mrp_of_bytes_def)
qed

text \<open>A packet copied from a frame of at least its header and the command.\<close>

lemma receive_frame:
  assumes "length (p_data p) = 59" "length (p_data old) = 59" "8 \<le> len" "len \<le> 66"
  shows "\<exists>q. memcpy_mrp (take len (mrp_bytes p)) (int len) old = Some q \<and> p_flow_number q = p_flow_number p \<and> p_packet_number q = p_packet_number p \<and>
    p_ttl_slot_number q = p_ttl_slot_number p \<and> p_earliest_tx_slot q = p_earliest_tx_slot p \<and> take (len - 7) (p_data q) = take (len - 7) (p_data p) \<and>
    length (p_data q) = 59 \<and> take len (mrp_bytes q) = take len (mrp_bytes p)"
proof -
  let ?f = "take len (mrp_bytes p)" and ?bs = "take len (mrp_bytes p) @ drop len (mrp_bytes old)"
  have l: "length ?f = len" "length ?bs = 66" using assms by simp_all
  have m: "memcpy_mrp ?f (int len) old = Some (mrp_of_bytes ?bs)" using assms l by (simp add: memcpy_mrp_def slice_opt_def put_opt_def put_at_def)
  have b: "mrp_bytes (mrp_of_bytes ?bs) = ?bs" using l by (intro mrp_bytes_of_bytes) simp
  have n: "?bs ! i = mrp_bytes p ! i" if "i < 7" for i using that assms(1,3) by (simp add: nth_append)
  have d: "drop 7 (mrp_bytes x) = p_data x" for x using drop_mrp_bytes [of 0 x] by simp
  have "take (len - 7) (p_data (mrp_of_bytes ?bs)) = take (len - 7) (p_data p)"
    using assms unfolding mrp_of_bytes_def by (simp add: d drop_take)
  moreover have "p_flow_number (mrp_of_bytes ?bs) = p_flow_number p" "p_packet_number (mrp_of_bytes ?bs) = p_packet_number p"
    "p_ttl_slot_number (mrp_of_bytes ?bs) = p_ttl_slot_number p" "p_earliest_tx_slot (mrp_of_bytes ?bs) = p_earliest_tx_slot p"
    using n [of 0] n [of 1] n [of 2] n [of 3] n [of 4] n [of 5] n [of 6] by (simp_all add: mrp_of_bytes_def mrp_bytes_def del: nth_append_left)
  moreover have "length (p_data (mrp_of_bytes ?bs)) = 59" using l by (simp add: mrp_of_bytes_def)
  ultimately show ?thesis using m b l(1) by auto
qed

subsection \<open>Nodes on the route\<close>

definition knows_flow :: "u8 \<Rightarrow> route_state \<Rightarrow> bool" where
  "knows_flow f r \<longleftrightarrow> current_state r = ST_SCHEDULE_INSTALLED \<and> f \<noteq> 0 \<and> f \<le> 8 \<and> length (p_data (mrp r)) = 59 \<and>
     sched_sized (schedule (flash r)) \<and> config_sized (schedule_config (flash r)) \<and> length (last_received_relayed_packet_of_flow (schedule_config (flash r))) = 8"

definition fresh_packet :: "u8 \<Rightarrow> u16 \<Rightarrow> route_state \<Rightarrow> bool" where
  "fresh_packet f pn r \<longleftrightarrow> TSCH_SLOTNUM_LT (ucast (last_received_relayed_packet_of_flow (schedule_config (flash r)) ! (unat f - 1))) pn"

definition in_time :: "u16 \<Rightarrow> route_state \<Rightarrow> bool" where
  "in_time ttl r \<longleftrightarrow> TSCH_SLOTNUM_LT (ucast (ls4b (tsch_current_asn r))) (ttl + 1)"

definition flow_receiver :: "u8 \<Rightarrow> route_state \<Rightarrow> u8" where
  "flow_receiver f r = receiver_of_flow (schedule_config (flash r)) ! (unat f - 1)"

definition next_hop :: "u8 \<Rightarrow> route_state \<Rightarrow> u8" where
  "next_hop f r = flow_forwards (schedule (flash r)) ! (unat f - 1)"

lemma knows_flowD:
  assumes "knows_flow f r"
  shows "current_state r = ST_SCHEDULE_INSTALLED" "f \<noteq> 0" "unat f - 1 < 8" "length (p_data (mrp r)) = 59"
    "length (flow_forwards (schedule (flash r))) = 8" "length (receiver_of_flow (schedule_config (flash r))) = 8"
    "length (sender_of_flow (schedule_config (flash r))) = 8" "length (last_received_relayed_packet_of_flow (schedule_config (flash r))) = 8"
    "length (first_tx_slot_in_flow (schedule_config (flash r))) = 8" "length (last_tx_slot_in_flow (schedule_config (flash r))) = 8"
proof -
  show "unat f - 1 < 8"
  proof -
    have "unat f \<le> 8" using assms by (simp add: knows_flow_def word_le_nat_alt)
    then show ?thesis by simp
  qed
qed (use assms in \<open>simp_all add: knows_flow_def sched_sized_def config_sized_def\<close>)

text \<open>A data packet in its frame: the packet of the sender with the command in its first byte.\<close>

definition data_frame :: "master_routing_packet_t \<Rightarrow> nat \<Rightarrow> bool" where
  "data_frame p len \<longleftrightarrow> length (p_data p) = 59 \<and> 8 \<le> len \<and> len \<le> 66 \<and> p_data p ! 0 = word_of_nat CM_DATA"

lemma input_data:
  assumes k: "knows_flow (p_flow_number p) r" and d: "data_frame p len"
  shows "\<exists>q. p_flow_number q = p_flow_number p \<and> p_packet_number q = p_packet_number p \<and>
    p_ttl_slot_number q = p_ttl_slot_number p \<and> p_earliest_tx_slot q = p_earliest_tx_slot p \<and> take (len - 7) (p_data q) = take (len - 7) (p_data p) \<and>
    length (p_data q) = 59 \<and> take len (mrp_bytes q) = take len (mrp_bytes p) \<and>
    (\<forall>out src dest. master_routing_input out (take len (mrp_bytes p)) (word_of_nat len) src dest r =
      (if node_id r = ucast (flow_receiver (p_flow_number p) r)
       then command_input_data_received (packetbuf_attr PACKETBUF_ATTR_RECEIVED_ASN r) (word_of_nat len) (r\<lparr> mrp := q \<rparr>)
       else command_input_data_forwarding out (schedule (flash r)) (packetbuf_attr PACKETBUF_ATTR_RECEIVED_ASN r) (word_of_nat len) (r\<lparr> mrp := q \<rparr>)))"
proof -
  note kd = knows_flowD [OF k]
  have p: "length (p_data p) = 59" "8 \<le> len" "len \<le> 66" using d by (simp_all add: data_frame_def)
  have u: "unat (word_of_nat len :: u16) = len" "uint (word_of_nat len :: u16) = int len" using p(3) small_word [of len, where 'a = 16] by auto
  obtain q where q: "memcpy_mrp (take len (mrp_bytes p)) (int len) (mrp r) = Some q" "p_flow_number q = p_flow_number p" "p_packet_number q = p_packet_number p"
    "p_ttl_slot_number q = p_ttl_slot_number p" "p_earliest_tx_slot q = p_earliest_tx_slot p" "take (len - 7) (p_data q) = take (len - 7) (p_data p)"
    "length (p_data q) = 59" "take len (mrp_bytes q) = take len (mrp_bytes p)" using receive_frame [OF p(1) kd(4) p(2,3)] by blast
  have "take (len - 7) (p_data q) ! 0 = take (len - 7) (p_data p) ! 0" using q(6) by simp
  then have c: "p_data q ! 0 = 9" "p_data q \<noteq> []" using p d q(7) by (auto simp: data_frame_def)
  then have "\<forall>out src dest. master_routing_input out (take len (mrp_bytes p)) (word_of_nat len) src dest r =
      (if node_id r = ucast (flow_receiver (p_flow_number p) r)
       then command_input_data_received (packetbuf_attr PACKETBUF_ATTR_RECEIVED_ASN r) (word_of_nat len) (r\<lparr> mrp := q \<rparr>)
       else command_input_data_forwarding out (schedule (flash r)) (packetbuf_attr PACKETBUF_ATTR_RECEIVED_ASN r) (word_of_nat len) (r\<lparr> mrp := q \<rparr>))"
    using u p kd(1,2,3,6) q(1,2,7) by (simp add: master_routing_input_def data_at_def nth_opt_def transition_to_new_state_def on_ST_SCHEDULE_INSTALLED_def
      flow_index_def flow_receiver_def get_own_schedule_def packetbuf_attr_def Let_def)
  then show ?thesis using q by blast
qed


text \<open>A node on the route passes a new packet on to the next hop, with its frame unchanged, as long as its time to live lasts.\<close>

definition remembers :: "u8 \<Rightarrow> u16 \<Rightarrow> route_state \<Rightarrow> route_state \<Rightarrow> bool" where
  "remembers f pn r r' \<longleftrightarrow> last_received_relayed_packet_of_flow (schedule_config (flash r')) =
     (last_received_relayed_packet_of_flow (schedule_config (flash r)))[unat f - 1 := ucast pn]"

lemma relay_ok:
  assumes k: "knows_flow (p_flow_number p) r" and d: "data_frame p len"
    and n: "node_id r \<noteq> ucast (flow_receiver (p_flow_number p) r)" "next_hop (p_flow_number p) r \<noteq> 0"
    and fr: "fresh_packet (p_flow_number p) (p_packet_number p) r" and t: "in_time (p_ttl_slot_number p) r"
  shows "\<exists>r'. (\<forall>out src dest. master_routing_input out (take len (mrp_bytes p)) (word_of_nat len) src dest r =
        out (Addr ((destination r)[NODE_ID_INDEX := next_hop (p_flow_number p) r])) r') \<and>
    frame_of r' = take len (mrp_bytes p) \<and> masternet_len r' = word_of_nat len \<and> knows_flow (p_flow_number p) r' \<and>
    remembers (p_flow_number p) (p_packet_number p) r r' \<and> node_id r' = node_id r \<and> flow_receiver (p_flow_number p) r' = flow_receiver (p_flow_number p) r \<and>
    flow_number (sent_packet_configuration r') = ucast (p_flow_number p) \<and> send_to_nbr (sent_packet_configuration r') = 0 \<and>
    ttl_slot_number (sent_packet_configuration r') = p_ttl_slot_number p \<and> earliest_tx_slot (sent_packet_configuration r') = p_earliest_tx_slot p"
proof -
  note kd = knows_flowD [OF k]
  have u: "unat (word_of_nat len :: u16) = len" using d small_word(1) [of len, where 'a = 16] by (simp add: data_frame_def)
  obtain q where q: "p_flow_number q = p_flow_number p" "p_packet_number q = p_packet_number p" "p_ttl_slot_number q = p_ttl_slot_number p"
    "p_earliest_tx_slot q = p_earliest_tx_slot p" "length (p_data q) = 59" "take len (mrp_bytes q) = take len (mrp_bytes p)"
    "\<forall>out src dest. master_routing_input out (take len (mrp_bytes p)) (word_of_nat len) src dest r =
       command_input_data_forwarding out (schedule (flash r)) (packetbuf_attr PACKETBUF_ATTR_RECEIVED_ASN r) (word_of_nat len) (r\<lparr> mrp := q \<rparr>)"
    using input_data [OF k d] n(1) by auto
  define c where "c = (schedule_config (flash r))\<lparr> last_received_relayed_packet_of_flow :=
     (last_received_relayed_packet_of_flow (schedule_config (flash r)))[unat (p_flow_number p) - 1 := ucast (p_packet_number p)] \<rparr>"
  define r0 where "r0 = r\<lparr> mrp := q, flash := (flash r)\<lparr> schedule_config := c \<rparr>, destination := (destination r)[NODE_ID_INDEX := next_hop (p_flow_number p) r] \<rparr>"
  define r' where "r' = r0\<lparr> sent_packet_configuration := (sent_packet_configuration r0)\<lparr> flow_number := ucast (p_flow_number p), send_to_nbr := 0,
      command := word_of_nat CM_DATA, packet_nbr := ucast (p_packet_number p), ttl_slot_number := p_ttl_slot_number p, earliest_tx_slot := p_earliest_tx_slot p,
      max_tx := ttl_transmissions (p_ttl_slot_number p) r0 \<rparr>, masternet_len := word_of_nat len \<rparr>"
  have "command_input_data_forwarding out (schedule (flash r)) a (word_of_nat len) (r\<lparr> mrp := q \<rparr>) =
      out (Addr ((destination r)[NODE_ID_INDEX := next_hop (p_flow_number p) r])) r'" for out a
    using n fr t kd(2,3,5,8) q(1-4) by (simp add: command_input_data_forwarding_def get_forward_dest_def next_hop_def is_new_packet_def flow_index_def nth_opt_def
      fresh_packet_def remember_packet_def upd_opt_def in_time_def set_destination_link_addr_def Let_def r'_def r0_def c_def ttl_transmissions_def)
  moreover have "frame_of r' = take len (mrp_bytes p)" "masternet_len r' = word_of_nat len" using q(6) u by (simp_all add: frame_of_def r'_def r0_def)
  moreover have "knows_flow (p_flow_number p) r'" using k q(5) by (simp add: knows_flow_def r'_def r0_def c_def config_sized_def)
  moreover have "remembers (p_flow_number p) (p_packet_number p) r r'" "node_id r' = node_id r" "flow_receiver (p_flow_number p) r' = flow_receiver (p_flow_number p) r"
    by (simp_all add: remembers_def r'_def r0_def c_def flow_receiver_def)
  ultimately show ?thesis using q(7) by (intro exI [of _ r']) (simp add: r'_def r0_def)
qed

text \<open>The receiver gives the data of a new packet to the application.\<close>

lemma deliver_ok:
  assumes k: "knows_flow (p_flow_number p) r" and d: "data_frame p len"
    and n: "node_id r = ucast (flow_receiver (p_flow_number p) r)" and fr: "fresh_packet (p_flow_number p) (p_packet_number p) r" and cb: "current_callback r"
  shows "\<exists>r' payload. (\<forall>out src dest. master_routing_input out (take len (mrp_bytes p)) (word_of_nat len) src dest r = Some r') \<and>
    events r' = events r @ [EV_DELIVER payload (word_of_nat len - 7) (sender_of_flow (schedule_config (flash r)) ! (unat (p_flow_number p) - 1)) (flow_receiver (p_flow_number p) r)] \<and>
    take (len - 8) payload = take (len - 8) (drop 1 (p_data p)) \<and> knows_flow (p_flow_number p) r' \<and>
    remembers (p_flow_number p) (p_packet_number p) r r' \<and> node_id r' = node_id r \<and> flow_receiver (p_flow_number p) r' = flow_receiver (p_flow_number p) r"
proof -
  note kd = knows_flowD [OF k]
  obtain q where q: "p_flow_number q = p_flow_number p" "p_packet_number q = p_packet_number p" "take (len - 7) (p_data q) = take (len - 7) (p_data p)" "length (p_data q) = 59"
    "\<forall>out src dest. master_routing_input out (take len (mrp_bytes p)) (word_of_nat len) src dest r =
       command_input_data_received (packetbuf_attr PACKETBUF_ATTR_RECEIVED_ASN r) (word_of_nat len) (r\<lparr> mrp := q \<rparr>)"
    using input_data [OF k d] n by auto
  define c where "c = (schedule_config (flash r))\<lparr> last_received_relayed_packet_of_flow :=
     (last_received_relayed_packet_of_flow (schedule_config (flash r)))[unat (p_flow_number p) - 1 := ucast (p_packet_number p)] \<rparr>"
  define r' where "r' = post_event (EV_DELIVER (drop 1 (p_data q)) (word_of_nat len - 7) (sender_of_flow (schedule_config (flash r)) ! (unat (p_flow_number p) - 1))
      (flow_receiver (p_flow_number p) r)) (r\<lparr> mrp := q, flash := (flash r)\<lparr> schedule_config := c \<rparr> \<rparr>)"
  have "command_input_data_received a (word_of_nat len) (r\<lparr> mrp := q \<rparr>) = Some r'" for a
    using fr cb kd(2,3,6,7,8) q(1,2) by (simp add: command_input_data_received_def is_new_packet_def flow_index_def nth_opt_def fresh_packet_def remember_packet_def
      upd_opt_def r'_def c_def flow_receiver_def)
  moreover have "take (len - 8) (drop 1 (p_data q)) = take (len - 8) (drop 1 (p_data p))"
  proof -
    have "drop 1 (take (len - 7) (p_data q)) = drop 1 (take (len - 7) (p_data p))" using q(3) by simp
    then show ?thesis by (simp add: drop_take)
  qed
  moreover have "knows_flow (p_flow_number p) r'" using k q(4) by (simp add: knows_flow_def r'_def c_def config_sized_def post_event_def)
  moreover have "remembers (p_flow_number p) (p_packet_number p) r r'" "node_id r' = node_id r" "flow_receiver (p_flow_number p) r' = flow_receiver (p_flow_number p) r"
    by (simp_all add: remembers_def r'_def c_def flow_receiver_def post_event_def)
  ultimately show ?thesis using q(5) by (intro exI [of _ r'] exI [of _ "drop 1 (p_data q)"]) (simp add: r'_def post_event_def)
qed

text \<open>A packet that is not new is neither passed on nor delivered.\<close>

lemma duplicate_dropped:
  assumes k: "knows_flow (p_flow_number p) r" and d: "data_frame p len" and fr: "\<not> fresh_packet (p_flow_number p) (p_packet_number p) r"
  shows "\<exists>q. \<forall>out src dest. master_routing_input out (take len (mrp_bytes p)) (word_of_nat len) src dest r = Some (r\<lparr> mrp := q \<rparr>)"
proof -
  note kd = knows_flowD [OF k]
  obtain q where q: "p_flow_number q = p_flow_number p" "p_packet_number q = p_packet_number p"
    "\<forall>out src dest. master_routing_input out (take len (mrp_bytes p)) (word_of_nat len) src dest r =
      (if node_id r = ucast (flow_receiver (p_flow_number p) r)
       then command_input_data_received (packetbuf_attr PACKETBUF_ATTR_RECEIVED_ASN r) (word_of_nat len) (r\<lparr> mrp := q \<rparr>)
       else command_input_data_forwarding out (schedule (flash r)) (packetbuf_attr PACKETBUF_ATTR_RECEIVED_ASN r) (word_of_nat len) (r\<lparr> mrp := q \<rparr>))"
    using input_data [OF k d] by blast
  have "command_input_data_received a (word_of_nat len) (r\<lparr> mrp := q \<rparr>) = Some (r\<lparr> mrp := q \<rparr>)"
    "command_input_data_forwarding out (schedule (flash r)) a (word_of_nat len) (r\<lparr> mrp := q \<rparr>) = Some (r\<lparr> mrp := q \<rparr>)" for a out
    using fr kd(2,3,5,8) q(1,2) by (simp_all add: command_input_data_received_def command_input_data_forwarding_def get_forward_dest_def is_new_packet_def flow_index_def
      nth_opt_def fresh_packet_def)
  then show ?thesis using q(3) by auto
qed

text \<open>The number of the last packet is kept in a byte, so a packet is recognised up to number 255 and taken for a new one from 256 to 33023.\<close>

lemma remembered_not_fresh:
  assumes k: "knows_flow f r" and m: "remembers f pn r r'"
  shows "unat pn < 256 \<Longrightarrow> \<not> fresh_packet f pn r'" "256 \<le> unat pn \<Longrightarrow> unat pn \<le> 33023 \<Longrightarrow> fresh_packet f pn r'"
proof -
  have l: "last_received_relayed_packet_of_flow (schedule_config (flash r')) ! (unat f - 1) = ucast pn"
    using m knows_flowD(3,8) [OF k] by (simp add: remembers_def)
  have u: "unat (ucast (ucast pn :: u8) :: u16) = unat pn mod 256" by (simp add: unsigned_ucast_eq take_bit_eq_mod unat_mod)
  show "\<not> fresh_packet f pn r'" if "unat pn < 256"
  proof -
    have "ucast (ucast pn :: u8) = pn" using u that by (simp add: word_unat_eq_iff)
    then show ?thesis unfolding fresh_packet_def l by (simp add: slotnum_lt_left)
  qed
  show "fresh_packet f pn r'" if "256 \<le> unat pn" "unat pn \<le> 33023"
  proof -
    have "unat (pn - ucast (ucast pn :: u8)) = unat pn - unat pn mod 256" using u by (subst unat_sub) (simp_all add: word_le_nat_alt)
    moreover have "unat pn - unat pn mod 256 = 256 * (unat pn div 256)" by (simp add: minus_mod_eq_mult_div)
    moreover have "0 < unat pn div 256" "unat pn div 256 \<le> 128" using that by (simp_all add: div_greater_zero_iff less_eq_div_iff_mult_less_eq div_le_mono) 
    ultimately show ?thesis unfolding fresh_packet_def l slotnum_lt_left by simp
  qed
qed

subsection \<open>The sender\<close>

text \<open>
  A node that may send: its flow has a slotframe and a next hop, and the earliest slot of the packet is at least a schedule length after the
  one of the packet before. \<open>flow_base\<close> is the beginning of the next cycle of the flow's slotframe.
\<close>

definition flow_base :: "nat \<Rightarrow> route_state \<Rightarrow> u16" where
  "flow_base f s = ucast (ls4b (tsch_current_asn s)) + asn_val (sf_size (sfr s f)) - TSCH_ASN_MOD (tsch_current_asn s) (sf_size (sfr s f))"

definition earliest_slot :: "u8 \<Rightarrow> nat \<Rightarrow> route_state \<Rightarrow> u16" where
  "earliest_slot f sf s = flow_base sf s + ucast (first_tx_slot_in_flow (schedule_config (flash s)) ! (unat f - 1))"

definition ttl_slot :: "u8 \<Rightarrow> nat \<Rightarrow> route_state \<Rightarrow> u16" where
  "ttl_slot f sf s = flow_base sf s + ucast (last_tx_slot_in_flow (schedule_config (flash s)) ! (unat f - 1))"

definition may_send :: "u8 \<Rightarrow> nat \<Rightarrow> route_state \<Rightarrow> bool" where
  "may_send f sf s \<longleftrightarrow> knows_flow f s \<and> own_transmission_flow (schedule (flash s)) = f \<and> tsch_schedule_get_slotframe_by_handle (ucast f) s = Some sf \<and>
     next_hop f s \<noteq> 0 \<and> \<not> TSCH_SLOTNUM_LT (earliest_slot f sf s) (last_sent_packet_asn s + ucast (schedule_length (schedule_config (flash s))))"

lemma send_ok:
  assumes m: "may_send f sf s" and l: "length data \<le> 58"
  shows "\<exists>s' p. (\<forall>out. master_routing_sendto out data (word_of_nat (length data)) (own_receiver (schedule (flash s))) s =
        do { s \<leftarrow> out (Addr ((destination s)[NODE_ID_INDEX := next_hop f s])) s'; Some (True, s) }) \<and>
    data_frame p (8 + length data) \<and> frame_of s' = take (8 + length data) (mrp_bytes p) \<and> masternet_len s' = word_of_nat (8 + length data) \<and>
    p_flow_number p = f \<and> p_packet_number p = own_packet_number s + 1 \<and> p_ttl_slot_number p = ttl_slot f sf s \<and> p_earliest_tx_slot p = earliest_slot f sf s \<and>
    take (length data) (drop 1 (p_data p)) = data \<and>
    ttl_slot_number (sent_packet_configuration s') = ttl_slot f sf s \<and> earliest_tx_slot (sent_packet_configuration s') = earliest_slot f sf s"
proof -
  have k: "knows_flow f s" and o: "own_transmission_flow (schedule (flash s)) = f" "tsch_schedule_get_slotframe_by_handle (ucast f) s = Some sf" "next_hop f s \<noteq> 0"
    "\<not> TSCH_SLOTNUM_LT (earliest_slot f sf s) (last_sent_packet_asn s + ucast (schedule_length (schedule_config (flash s))))" using m by (simp_all add: may_send_def)
  note kd = knows_flowD [OF k]
  let ?n = "length data"
  have u: "unat (word_of_nat ?n :: u16) = ?n" "unat (word_of_nat (8 + ?n) :: u16) = 8 + ?n"
    using l small_word(1) [of ?n, where 'a = 16] small_word(1) [of "8 + ?n", where 'a = 16] by simp_all
  define p where "p = \<lparr> p_flow_number = f, p_packet_number = own_packet_number s + 1, p_ttl_slot_number = ttl_slot f sf s, p_earliest_tx_slot = earliest_slot f sf s,
     p_data = put_at ((p_data (mrp s))[0 := 9]) 1 data \<rparr>"
  have d: "p_data (mrp s) \<noteq> []" "length (p_data (mrp s)) = 59" using kd(4) by auto
  have sf: "tsch_schedule_get_slotframe_by_handle h (s\<lparr> own_packet_number := x, mrp := y \<rparr>) = tsch_schedule_get_slotframe_by_handle h s"
    "sfr (s\<lparr> own_packet_number := x, mrp := y \<rparr>) = sfr s" for h x y by (simp_all add: tsch_schedule_get_slotframe_by_handle_def tsch_is_locked_def sfr_def fun_eq_iff)
  define s1 where "s1 = s\<lparr> own_packet_number := own_packet_number s + 1, mrp := p \<rparr>"
  have prep: "prepare_data_packet data (word_of_nat ?n) s = Some s1"
    using o(1,2) u(1) d l kd(2,3,9,10) by (simp add: prepare_data_packet_def get_own_schedule_def set_mrp_def set_data_def upd_opt_def slice_opt_def put_opt_def sf
      flow_index_def nth_opt_def Let_def s1_def p_def flow_base_def earliest_slot_def ttl_slot_def)
  define s' where "s' = s1\<lparr> last_sent_packet_asn := earliest_slot f sf s, destination := (destination s)[NODE_ID_INDEX := next_hop f s],
     sent_packet_configuration := (sent_packet_configuration s)\<lparr> flow_number := ucast f, send_to_nbr := 0, overhearing_active := 0,
       ttl_slot_number := ttl_slot f sf s, earliest_tx_slot := earliest_slot f sf s, max_tx := ttl_transmissions (ttl_slot f sf s) s,
       command := word_of_nat CM_DATA, packet_nbr := ucast (own_packet_number s + 1) \<rparr>, masternet_len := word_of_nat (8 + ?n) \<rparr>"
  have "master_routing_sendto out data (word_of_nat ?n) (own_receiver (schedule (flash s))) s =
      do { s \<leftarrow> out (Addr ((destination s)[NODE_ID_INDEX := next_hop f s])) s'; Some (True, s) }" for out
    using o kd(1,2,3,5) prep by (simp add: master_routing_sendto_def get_node_receiver_def get_own_schedule_def master_routing_send_def master_routing_configured_def
      get_forward_dest_def nth_opt_def set_destination_link_addr_def Let_def s'_def s1_def p_def ttl_transmissions_def next_hop_def)
  moreover have "take ?n (drop 1 (p_data p)) = data" using d l by (simp add: p_def)
  moreover have "data_frame p (8 + ?n)" using d l by (simp add: data_frame_def p_def nth_put_at)
  ultimately show ?thesis using u(2) by (intro exI [of _ s'] exI [of _ p]) (simp add: s'_def s1_def frame_of_def, simp add: p_def)
qed


text \<open>Flow 1 from node 1 over node 2 to node 3, in a slotframe of 20 slots; slots 2 to 5 are those of the flow.\<close>

definition flow_node :: "u8 \<Rightarrow> u32 \<Rightarrow> u8 \<Rightarrow> u8 \<Rightarrow> route_state" where
  "flow_node a asn own_flow hop = (route_boot [a, 0, 0, 0, 0, 0, 0, 0])\<lparr> current_state := ST_SCHEDULE_INSTALLED, current_callback := True,
     tsch_current_asn := \<lparr> ls4b = asn, ms1b = 0 \<rparr>, tsch_locked := False, slotframe_list := [0],
     slotframe_memb := \<lparr> m_count = [1], m_mem = [\<lparr> sf_handle = 1, sf_size = \<lparr> asn_val = 20, asn_ms1b_remainder = 16 \<rparr>, sf_links = [] \<rparr>] \<rparr>,
     flash := flash_boot\<lparr> schedule := (schedule flash_boot)\<lparr> own_transmission_flow := own_flow, own_receiver := if own_flow = 0 then 0 else 3, flow_forwards := hop # replicate 7 0 \<rparr>,
       schedule_config := (schedule_config flash_boot)\<lparr> schedule_length := 20, slot_frames := 1, sender_of_flow := 1 # replicate 7 0,
         receiver_of_flow := 3 # replicate 7 0, first_tx_slot_in_flow := 2 # replicate 7 0, last_tx_slot_in_flow := 5 # replicate 7 0 \<rparr> \<rparr> \<rparr>"

lemma flow_node_knows: "knows_flow 1 (flow_node a asn fl hop)"
  by (simp add: knows_flow_def flow_node_def sched_sized_def config_sized_def flash_boot_def)

lemma flow_node_simps:
  "node_id (flow_node a asn fl hop) = ucast a" "flow_receiver 1 (flow_node a asn fl hop) = 3" "next_hop 1 (flow_node a asn fl hop) = hop"
  "own_packet_number (flow_node a asn fl hop) = 0" "fresh_packet 1 1 (flow_node a asn fl hop)" "current_callback (flow_node a asn fl hop)"
  "in_time ttl (flow_node a asn fl hop) \<longleftrightarrow> TSCH_SLOTNUM_LT (ucast asn) (ttl + 1)"
  "own_receiver (schedule (flash (flow_node a asn fl hop))) = (if fl = 0 then 0 else 3)"
proof -
  show "fresh_packet 1 1 (flow_node a asn fl hop)" by (simp add: fresh_packet_def flow_node_def flash_boot_def slotnum_lt_left)
  show "own_packet_number (flow_node a asn fl hop) = 0" by (simp add: flow_node_def route_boot_def masternet_state.defs route_state.defs)
qed (simp_all add: flow_node_def flow_receiver_def next_hop_def in_time_def)

lemma flow_node_base: "flow_base 0 (flow_node 1 103 fl hop) = 120"
proof -
  have "asn_int \<lparr> ls4b = 103, ms1b = 0 \<rparr> = 103" by (simp add: asn_int_def)
  moreover have "TSCH_ASN_DIVISOR_INIT 20 = \<lparr> asn_val = 20, asn_ms1b_remainder = 16 \<rparr>" by (simp add: TSCH_ASN_DIVISOR_INIT_def)
  ultimately have "uint (TSCH_ASN_MOD \<lparr> ls4b = 103, ms1b = 0 \<rparr> \<lparr> asn_val = 20, asn_ms1b_remainder = 16 \<rparr>) = 3"
    using asn_mod_exact [of 20 "\<lparr> ls4b = 103, ms1b = 0 \<rparr>"] by simp
  then have "TSCH_ASN_MOD \<lparr> ls4b = 103, ms1b = 0 \<rparr> \<lparr> asn_val = 20, asn_ms1b_remainder = 16 \<rparr> = 3" by (simp add: word_uint_eq_iff)
  then show ?thesis by (simp add: flow_base_def flow_node_def sfr_def)
qed

lemma flow_node_may_send: "may_send 1 0 (flow_node 1 103 1 2)" "ttl_slot 1 0 (flow_node 1 103 1 2) = 125"
proof -
  have c: "first_tx_slot_in_flow (schedule_config (flash (flow_node 1 103 1 2))) ! 0 = 2" "last_tx_slot_in_flow (schedule_config (flash (flow_node 1 103 1 2))) ! 0 = 5"
    "schedule_length (schedule_config (flash (flow_node 1 103 1 2))) = 20" "own_transmission_flow (schedule (flash (flow_node 1 103 1 2))) = 1"
    by (simp_all add: flow_node_def)
  then show "ttl_slot 1 0 (flow_node 1 103 1 2) = 125" by (simp add: ttl_slot_def flow_node_base)
  have "earliest_slot 1 0 (flow_node 1 103 1 2) = 122" using c by (simp add: earliest_slot_def flow_node_base)
  moreover have "last_sent_packet_asn (flow_node 1 103 1 2) = 0" by (simp add: flow_node_def route_boot_def masternet_state.defs route_state.defs)
  moreover have "tsch_schedule_get_slotframe_by_handle 1 (flow_node 1 103 1 2) = Some 0"
    by (simp add: flow_node_def tsch_schedule_get_slotframe_by_handle_def tsch_is_locked_def sfr_def)
  ultimately show "may_send 1 0 (flow_node 1 103 1 2)" using c flow_node_knows flow_node_simps(3) by (simp add: may_send_def slotnum_lt_left)
qed


end
