(* ===== verification/ScheduleInstall.thy ===== *)
theory ScheduleInstall
  imports QueueReset RoutingData
begin

text \<open>
  The installation of the schedule (\<open>install_schedule\<close> of \<open>os/net/master-routing/master-routing.c\<close>): from the file in flash memory
  to the slotframes and links of the MAC layer.
\<close>

subsection \<open>What the operations on the schedule leave alone\<close>

definition kept :: "'a sched_state_scheme \<Rightarrow> 'a sched_state_scheme \<Rightarrow> bool" where
  "kept s s' \<longleftrightarrow> sched_state.more s' = sched_state.more s \<and> packet_memb s' = packet_memb s"

definition same_frames :: "'a sched_state_scheme \<Rightarrow> 'a sched_state_scheme \<Rightarrow> bool" where
  "same_frames s s' \<longleftrightarrow> kept s s' \<and> slotframe_list s' = slotframe_list s \<and> (\<forall>g. sf_handle (sfr s' g) = sf_handle (sfr s g))"

lemma same_frames_refl [simp]: "same_frames s s" by (simp add: same_frames_def kept_def)

lemma same_frames_trans: "same_frames s t \<Longrightarrow> same_frames t u \<Longrightarrow> same_frames s u"
  by (simp add: same_frames_def kept_def)

lemma more_frames:
  assumes "tsch_state.more s' = tsch_state.more s" "packet_memb s' = packet_memb s"
  shows "same_frames s s'"
proof -
  have "sched_state.more s' = sched_state.more s" using assms(1) by (cases s; cases s'; simp)
  then show ?thesis using assms(2) sched_more [OF assms(1)] by (simp add: same_frames_def kept_def sfr_def)
qed

lemma add_nbr_packets: "packet_memb (snd (tsch_queue_add_nbr a s)) = packet_memb s"
  by (simp add: tsch_queue_add_nbr_def tsch_get_lock_def tsch_release_lock_def tsch_queue_backoff_reset_def Let_def split: option.split prod.split)

lemma add_nbr_frames: "same_frames s (snd (tsch_queue_add_nbr a s))"
  by (rule more_frames [OF add_nbr_more add_nbr_packets])

lemma count_tx_link_frames: "same_frames s (count_tx_link d opts a s)"
proof (cases "tsch_queue_add_nbr a s")
  case (Pair r t)
  have t: "same_frames s t" using add_nbr_frames [of s a] Pair by simp
  have "same_frames t (set_nbr n x t)" for n x by (rule more_frames) simp_all
  then show ?thesis using same_frames_trans [OF t] t Pair by (simp add: count_tx_link_def split: option.split)
qed

lemma set_sfr_handle: "sf_handle x = sf_handle (sfr s f) \<Longrightarrow> sf_handle (sfr (set_sfr f x s) g) = sf_handle (sfr s g)"
  by (cases "f < length (m_mem (slotframe_memb s))") (auto simp: sfr_def set_sfr_def memb_put_def nth_list_update list_update_beyond)

lemma remove_link_frames: "same_frames s (snd (tsch_schedule_remove_link f l s))"
proof -
  have "same_frames s (tsch_release_lock (set_sfr g ((sfr t g)\<lparr> sf_links := x \<rparr>) t\<lparr> link_memb := m \<rparr>))"
    if "same_frames s t" for g x m t
    using that set_sfr_handle [of "(sfr t g)\<lparr> sf_links := x \<rparr>" t g]
    by (simp add: same_frames_def kept_def tsch_release_lock_def) (simp add: set_sfr_def sfr_def)
  note a = same_frames_trans [OF this count_tx_link_frames]
  have b: "same_frames s (s\<lparr> tsch_in_slot_operation := False, tsch_locked := True, tsch_lock_requested := False \<rparr>)"
    "same_frames s (s\<lparr> tsch_in_slot_operation := False, tsch_locked := True, tsch_lock_requested := False, current_link := None \<rparr>)"
    by (simp_all add: same_frames_def kept_def sfr_def)
  show ?thesis by (simp add: tsch_schedule_remove_link_def tsch_get_lock_def Let_def a b split: option.split)
qed

lemma install_link_frames: "same_frames s (snd (install_link f opts ty address ts ch s))"
proof -
  have a: "same_frames s (tsch_release_lock (set_lnk l y (set_sfr f ((sfr t f)\<lparr> sf_links := x \<rparr>) t)\<lparr> current_link_handle := h \<rparr>))"
    if "same_frames s t" for x y h t l
    using that set_sfr_handle [of "(sfr t f)\<lparr> sf_links := x \<rparr>" t f]
    by (simp add: same_frames_def kept_def tsch_release_lock_def) (simp add: set_sfr_def set_lnk_def sfr_def)
  note b = same_frames_trans [OF a count_tx_link_frames]
  have c: "same_frames s (s\<lparr> tsch_in_slot_operation := False, tsch_locked := k, tsch_lock_requested := False, link_memb := m \<rparr>)"
    "same_frames s (s\<lparr> tsch_in_slot_operation := False, tsch_lock_requested := False, link_memb := m, tsch_locked := k \<rparr>)" for k m
    by (simp_all add: same_frames_def kept_def sfr_def)
  show ?thesis by (simp add: install_link_def tsch_get_lock_def tsch_release_lock_def Let_def split: option.split prod.split)
      (use b c in \<open>auto simp: tsch_release_lock_def\<close>)
qed

lemma add_link_frames: "same_frames s (snd (tsch_schedule_add_link f opts ty address ts ch s))"
  using same_frames_trans [OF remove_link_frames install_link_frames]
  by (auto simp: tsch_schedule_add_link_def tsch_schedule_remove_link_by_timeslot_def Let_def split: option.split)


text \<open>A pointer to the slotframe with a handle.\<close>

definition points :: "'a sched_state_scheme \<Rightarrow> nat \<Rightarrow> u16 \<Rightarrow> bool" where
  "points s f h \<longleftrightarrow> f \<in> set (slotframe_list s) \<and> sf_handle (sfr s f) = h"

lemma points_frames: "same_frames s s' \<Longrightarrow> points s' f h = points s f h"
  by (simp add: same_frames_def points_def)

lemma remove_links_frames:
  assumes "sched_wf s" "\<not> tsch_locked s" "f \<in> set (slotframe_list s)" "remove_links_loop f s = Some s'"
  shows "same_frames s s'"
  using assms
proof (induction "length (sf_links (sfr s f))" arbitrary: s rule: less_induct)
  case less
  show ?case
  proof (cases "sf_links (sfr s f)")
    case Nil
    then show ?thesis using less.prems by (simp add: remove_links_loop.simps)
  next
    case (Cons l ls)
    obtain s1 where s1: "tsch_schedule_remove_link (Some f) (Some l) s = (True, s1)" "sched_wf s1" "\<not> tsch_locked s1"
      "slotframe_list s1 = slotframe_list s" "sfr s1 f = (sfr s f)\<lparr> sf_links := remove1 l (sf_links (sfr s f)) \<rparr>"
      using remove_link_ok [OF less.prems(1-3), of l] Cons by (metis list.set_intros(1))
    have "length (sf_links (sfr s1 f)) < length (sf_links (sfr s f))" using s1(5) Cons by simp
    moreover have "remove_links_loop f s1 = Some s'" using less.prems(4) Cons s1(1) by (subst (asm) remove_links_loop.simps) simp
    ultimately have "same_frames s1 s'" using less.hyps [of s1] s1(2-4) less.prems(3) by simp
    then show ?thesis using remove_link_frames [of s "Some f" "Some l"] s1(1) same_frames_trans by fastforce
  qed
qed

lemma remove_slotframe_frames:
  assumes "sched_wf s" "\<not> tsch_locked s" "f \<in> set (slotframe_list s)" "tsch_schedule_remove_slotframe (Some f) s = Some (r, s')"
  shows "kept s s'" "g \<noteq> f \<Longrightarrow> points s' g h = points s g h"
proof -
  obtain t where t: "remove_links_loop f s = Some t" using assms(4) by (auto simp: tsch_schedule_remove_slotframe_def split: Option.bind_splits)
  note fr = remove_links_frames [OF assms(1-3) t]
  have u: "\<not> tsch_locked t" using remove_links_loop_ok [OF assms(1-3)] t by auto
  have e: "s' = t\<lparr> tsch_in_slot_operation := False, tsch_lock_requested := False, slotframe_memb := snd (memb_free (slotframe_memb t) f),
      slotframe_list := remove1 f (slotframe_list t), tsch_locked := False \<rparr>"
    using assms(4) t u by (simp add: tsch_schedule_remove_slotframe_def tsch_get_lock_def tsch_release_lock_def Let_def)
  have "sched_wf t" using remove_links_loop_ok [OF assms(1-3)] t by auto
  then have "memb_wf (slotframe_memb t)" using sc_wfD(2) [of t] by (simp add: sched_wf_def)
  then have m: "m_mem (snd (memb_free (slotframe_memb t) f)) = m_mem (slotframe_memb t)" using mb.free_ok by blast
  show "kept s s'" using fr by (simp add: e kept_def same_frames_def)
  show "points s' g h = points s g h" if "g \<noteq> f" unfolding points_frames [OF fr, symmetric] using that m by (simp add: points_def e sfr_def)
qed

lemma add_slotframe_frames:
  assumes "sched_wf s" "\<not> tsch_locked s"
  shows "kept s (snd (tsch_schedule_add_slotframe h sz s))" "points s g k \<Longrightarrow> points (snd (tsch_schedule_add_slotframe h sz s)) g k"
proof -
  have w: "sc_wf s" using assms(1) by (simp add: sched_wf_def)
  show "kept s (snd (tsch_schedule_add_slotframe h sz s))"
    using assms(2) by (simp add: tsch_schedule_add_slotframe_def tsch_get_lock_def tsch_release_lock_def Let_def kept_def set_sfr_def split: option.split prod.split)
  assume g: "points s g k"
  show "points (snd (tsch_schedule_add_slotframe h sz s)) g k"
  proof (cases "memb_alloc (slotframe_memb s)")
    case (Pair r m)
    show ?thesis
    proof (cases r)
      case None
      have "m = slotframe_memb s" using mb.allocD_None [OF sc_wfD(2) [OF w]] Pair None by auto
      then show ?thesis using g assms(2) Pair None
        by (simp add: tsch_schedule_add_slotframe_def tsch_get_lock_def tsch_release_lock_def points_def sfr_def)
    next
      case (Some f)
      note ad = mb.allocD [OF sc_wfD(2) [OF w], of f m]
      have "g \<noteq> f" "m_mem m = m_mem (slotframe_memb s)" using ad Pair Some g sc_wfD(4) [OF w] by (auto simp: points_def)
      then show ?thesis using g assms(2) Pair Some
        by (simp add: tsch_schedule_add_slotframe_def tsch_get_lock_def tsch_release_lock_def points_def sfr_def set_sfr_def memb_put_def Let_def)
    qed
  qed
qed


subsection \<open>Counting slotframes and links\<close>

definition used_cells :: "aschedule \<Rightarrow> nat" where
  "used_cells A = (\<Sum>h \<in> dom A. card (dom (snd (the (A h)))))"

lemma dom_asched: "dom (asched s) = (\<lambda>f. sf_handle (sfr s f)) ` set (slotframe_list s)"
proof -
  have "find P xs \<noteq> None \<longleftrightarrow> (\<exists>x \<in> set xs. P x)" for P and xs :: "nat list" by (auto simp: find_None_iff)
  then show ?thesis by (auto simp: asched_def dom_def)
qed

lemma dom_cells: "dom (cells s f) = (\<lambda>l. l_timeslot (lnk s l)) ` set (sf_links (sfr s f))"
proof -
  have "cells s f ts \<noteq> None \<longleftrightarrow> (\<exists>l \<in> set (sf_links (sfr s f)). l_timeslot (lnk s l) = ts)" for ts unfolding cells_find by blast
  note c = this
  show ?thesis by (rule set_eqI) (simp only: domIff c image_iff, blast)
qed

lemma sched_counts:
  assumes "sc_wf s"
  shows "finite (dom (asched s))" "card (memb_used (slotframe_memb s)) = card (dom (asched s))"
    "card (memb_used (link_memb s)) = used_cells (asched s)" "asched s h = Some (L, m) \<Longrightarrow> finite (dom m)"
proof -
  let ?F = "set (slotframe_list s)" and ?H = "\<lambda>f. sf_handle (sfr s f)"
  note d = sc_wfD [OF assms]
  show "finite (dom (asched s))" by (simp add: dom_asched)
  show "card (memb_used (slotframe_memb s)) = card (dom (asched s))" using card_image [OF d(5)] d(4) by (simp add: dom_asched)
  have c: "card (dom (cells s f)) = card (set (sf_links (sfr s f)))" if "f \<in> ?F" for f
    using card_image [OF sf_wfD(5) [OF d(6) [OF that]]] by (simp add: dom_cells)
  have "card (memb_used (link_memb s)) = (\<Sum>f \<in> ?F. card (set (sf_links (sfr s f))))"
    unfolding d(13) [symmetric] using d(10) by (intro card_UN_disjoint) auto
  also have "\<dots> = (\<Sum>f \<in> ?F. card (dom (snd (the (asched s (?H f))))))" using c asched_at [OF assms] by (intro sum.cong) auto
  also have "\<dots> = used_cells (asched s)" unfolding used_cells_def dom_asched by (simp add: sum.reindex [OF d(5)])
  finally show "card (memb_used (link_memb s)) = used_cells (asched s)" .
  show "finite (dom m)" if "asched s h = Some (L, m)"
  proof -
    have "h \<in> dom (asched s)" using that by blast
    then obtain f where "f \<in> ?F" "?H f = h" unfolding dom_asched by blast
    then have "m = cells s f" using that asched_at [OF assms, of f] by simp
    then show ?thesis by (simp add: dom_cells)
  qed
qed

lemma used_cells_upd:
  assumes "finite (dom A)"
  shows "used_cells (A(h \<mapsto> (L, m))) = (case A h of None \<Rightarrow> used_cells A | Some x \<Rightarrow> used_cells A - card (dom (snd x))) + card (dom m)"
proof -
  have d: "dom (A(h \<mapsto> (L, m))) = insert h (dom A)" by auto
  have r: "(\<Sum>k \<in> dom A - {h}. card (dom (snd (the ((A(h \<mapsto> (L, m))) k))))) = (\<Sum>k \<in> dom A - {h}. card (dom (snd (the (A k)))))"
    by (rule sum.cong) auto
  have "used_cells (A(h \<mapsto> (L, m))) = card (dom m) + (\<Sum>k \<in> dom A - {h}. card (dom (snd (the (A k)))))"
    unfolding used_cells_def d sum.insert_remove [OF assms] r by simp
  moreover have "(\<Sum>k \<in> dom A - {h}. card (dom (snd (the (A k))))) = (case A h of None \<Rightarrow> used_cells A | Some x \<Rightarrow> used_cells A - card (dom (snd x)))"
    using assms by (auto simp: used_cells_def sum_diff1_nat split: option.split)
  ultimately show ?thesis by simp
qed

lemma used_cells_put:
  assumes "finite (dom A)" "A h = Some (L, m)" "finite (dom m)"
  shows "used_cells (A(h \<mapsto> (L, m(ts \<mapsto> c)))) \<le> Suc (used_cells A)"
proof -
  have "card (dom m) \<le> used_cells A" unfolding used_cells_def
    using assms(1,2) member_le_sum [of h "dom A" "\<lambda>h. card (dom (snd (the (A h))))"] by auto
  then show ?thesis using used_cells_upd [OF assms(1), of h L "m(ts \<mapsto> c)"] assms(2,3) by (simp add: card_insert_if)
qed

lemma memb_room:
  assumes "card (memb_used m) < memb_num m"
  shows "memb_used m \<noteq> {..<memb_num m}"
proof
  assume "memb_used m = {..<memb_num m}"
  then have "card (memb_used m) = memb_num m" by (simp only: card_lessThan)
  then show False using assms by simp
qed

subsection \<open>The operations on the abstract schedule\<close>

lemma points_asched:
  assumes "sched_wf s" "points s f h"
  shows "asched s h = Some (asn_val (sf_size (sfr s f)), cells s f)"
  using asched_at [of s f] assms by (auto simp: sched_wf_def points_def)

lemma points_get:
  assumes "sched_wf s" "\<not> tsch_locked s"
  shows "tsch_schedule_get_slotframe_by_handle h s = Some f \<longleftrightarrow> points s f h"
proof
  assume "points s f h"
  then show "tsch_schedule_get_slotframe_by_handle h s = Some f"
    using assms find_inj [OF sc_wfD(5), of s f] by (auto simp: points_def tsch_schedule_get_slotframe_by_handle_def tsch_is_locked_def sched_wf_def)
qed (use get_slotframe_Some in \<open>auto simp: points_def\<close>)

lemma add_link_abs:
  assumes w: "sched_wf s" "\<not> tsch_locked s" and f: "points s f h" and A: "asched s h = Some (L, m)" "used_cells (asched s) < TSCH_SCHEDULE_MAX_LINKS"
    and r: "ts < L" "ch \<le> 15" "addr_wf a"
  obtains s' where "snd (tsch_schedule_add_link (Some f) opts ty (Some a) ts ch s) = s'" "sched_wf s'" "\<not> tsch_locked s'" "same_frames s s'"
    "asched s' = (asched s)(h \<mapsto> (L, m(ts \<mapsto> (opts, ty, a, ch))))" "used_cells (asched s') \<le> Suc (used_cells (asched s))"
proof -
  have p: "f \<in> set (slotframe_list s)" "sf_handle (sfr s f) = h" "asn_val (sf_size (sfr s f)) = L" "cells s f = m"
    using f points_asched [OF w(1) f] A(1) by (auto simp: points_def)
  have wf: "sc_wf s" using w(1) by (simp add: sched_wf_def)
  have room: "memb_used (link_memb s) \<noteq> {..<memb_num (link_memb s)}"
    using A(2) sched_counts(3) [OF wf] sc_wfD(11) [OF wf] by (intro memb_room) simp
  have a: "addr_wf (link_addr (Some a))" using r(3) by (simp add: link_addr_def)
  obtain x s' where s': "tsch_schedule_add_link (Some f) opts ty (Some a) ts ch s = (x, s')" "sched_wf s'" "\<not> tsch_locked s'"
    "x \<noteq> None \<longleftrightarrow> ts < L \<and> ch \<le> 15 \<and> (m ts \<noteq> None \<or> memb_used (link_memb s) \<noteq> {..<memb_num (link_memb s)})"
    "asched s' = (if x \<noteq> None then (asched s)(h \<mapsto> (L, m(ts \<mapsto> (opts, ty, link_addr (Some a), ch)))) else asched s)"
    by (rule add_link_ok [OF w p(1) a, of opts ty ts ch]) (unfold p, blast)
  then have e: "asched s' = (asched s)(h \<mapsto> (L, m(ts \<mapsto> (opts, ty, a, ch))))" using room r(1,2) by (simp add: link_addr_def)
  have "used_cells (asched s') \<le> Suc (used_cells (asched s))" unfolding e using used_cells_put sched_counts(1,4) [OF wf] A(1) by blast
  then show ?thesis using that [of s'] s'(1-3) add_link_frames [of s "Some f" opts ty "Some a" ts ch] e by simp
qed

subsection \<open>The slotframes of the node\<close>

text \<open>The node below which the schedule changes; only the last byte of the scratch address may change.\<close>

definition same_node :: "route_state \<Rightarrow> route_state \<Rightarrow> bool" where
  "same_node s s' \<longleftrightarrow> flash s' = flash s \<and> current_state s' = current_state s \<and> packet_memb s' = packet_memb s \<and>
     (\<forall>d. (destination s')[NODE_ID_INDEX := d] = (destination s)[NODE_ID_INDEX := d])"

lemma same_node_refl [simp]: "same_node s s" by (simp add: same_node_def)

lemma same_node_trans: "same_node s t \<Longrightarrow> same_node t u \<Longrightarrow> same_node s u" by (simp add: same_node_def)

lemma kept_node:
  fixes s :: route_state
  assumes "kept s s'"
  shows "same_node s s'" "sf_array s' = sf_array s"
proof -
  have "flash s' = flash s \<and> current_state s' = current_state s \<and> destination s' = destination s \<and> sf_array s' = sf_array s"
    using assms by (cases s; cases s') (simp add: kept_def)
  then show "same_node s s'" "sf_array s' = sf_array s" using assms by (simp_all add: same_node_def kept_def)
qed

lemma sf_array_frame:
  fixes s :: route_state
  shows "sched_wf (s\<lparr> sf_array := x \<rparr>) = sched_wf s" "asched (s\<lparr> sf_array := x \<rparr>) = asched s"
    "points (s\<lparr> sf_array := x \<rparr>) = points s" "same_node s (s\<lparr> sf_array := x \<rparr>)"
proof -
  let ?t = "s\<lparr> sf_array := x \<rparr>"
  have f: "link_memb ?t = link_memb s" "slotframe_memb ?t = slotframe_memb s" "slotframe_list ?t = slotframe_list s" by simp_all
  show "sched_wf ?t = sched_wf s" "asched ?t = asched s" by (rule sched_wf_frame; simp)+
  show "points ?t = points s" unfolding points_def [abs_def] sched_cong(3) [OF f] f(3) ..
  show "same_node s ?t" by (simp add: same_node_def)
qed

text \<open>Replacing a slotframe by an empty one.\<close>

lemma renew_abs:
  assumes w: "sched_wf s" "\<not> tsch_locked s" and i: "i < length (sf_array s)" "sz \<noteq> 0"
    and room: "card (insert (word_of_nat i) (dom (asched s))) \<le> TSCH_SCHEDULE_MAX_SLOTFRAMES"
  obtains f s' where "renew_slotframe i sz s = Some s'" "sched_wf s'" "\<not> tsch_locked s'" "points s' f (word_of_nat i)"
    "asched s' = (asched s)(word_of_nat i \<mapsto> (sz, Map.empty))" "sf_array s' = (sf_array s)[i := Some f]" "same_node s s'"
    "\<And>g k. k \<noteq> word_of_nat i \<Longrightarrow> points s g k \<Longrightarrow> points s' g k"
proof -
  let ?h = "word_of_nat i :: u16" and ?o = "tsch_schedule_get_slotframe_by_handle (word_of_nat i) s"
  let ?s = "s\<lparr> sf_array := (sf_array s)[i := ?o] \<rparr>"
  have w0: "sched_wf ?s" "\<not> tsch_locked ?s" using w by (simp_all add: sf_array_frame)
  obtain t where t: "(case ?o of None \<Rightarrow> Some ?s | Some _ \<Rightarrow> do { (_, s) \<leftarrow> tsch_schedule_remove_slotframe ?o ?s; Some s }) = Some t"
    "sched_wf t" "\<not> tsch_locked t" "kept ?s t" "asched t = (asched s)(?h := None)" "\<And>g k. k \<noteq> ?h \<Longrightarrow> points s g k \<Longrightarrow> points t g k"
  proof (cases ?o)
    case None
    then have "asched s ?h = None" using get_slotframe_None [OF w(2)] by blast
    then have "(asched s)(?h := None) = asched s" by auto
    then show ?thesis using that [of ?s] None w0 by (simp add: sf_array_frame kept_def)
  next
    case (Some f)
    have p: "points s f ?h" using Some points_get [OF w] by blast
    then have m: "f \<in> set (slotframe_list ?s)" "sf_handle (sfr ?s f) = ?h" by (simp_all add: points_def sfr_def)
    obtain t where t: "tsch_schedule_remove_slotframe (Some f) ?s = Some (True, t)" "sched_wf t" "\<not> tsch_locked t"
      "asched t = (asched ?s)(?h := None)" using remove_slotframe_ok [OF w0 m(1)] m(2) by metis
    note fr = remove_slotframe_frames [OF w0 m(1) t(1)]
    have "points t g k" if "k \<noteq> ?h" "points s g k" for g k
      using fr(2) [of g k] that p by (auto simp: sf_array_frame points_def)
    then show ?thesis using that [of t] Some t fr(1) by (simp add: sf_array_frame)
  qed
  have wt: "sc_wf t" using t(2) by (simp add: sched_wf_def)
  have "finite (dom (asched s))" using sched_counts(1) w(1) by (simp add: sched_wf_def)
  then have "card (dom (asched t)) < TSCH_SCHEDULE_MAX_SLOTFRAMES"
    using room card_Diff1_less [of "insert ?h (dom (asched s))" ?h] by (simp add: t(5))
  then have r: "memb_used (slotframe_memb t) \<noteq> {..<memb_num (slotframe_memb t)}"
    using sched_counts(2) [OF wt] sc_wfD(12) [OF wt] by (intro memb_room) simp
  obtain f u where u: "tsch_schedule_add_slotframe ?h sz t = (Some f, u)" "sched_wf u" "\<not> tsch_locked u"
    "asched u = (asched t)(?h \<mapsto> (sz, Map.empty))" "tsch_schedule_get_slotframe_by_handle ?h u = Some f"
    by (rule add_slotframe_ok [OF t(2,3), of ?h sz]) (use i(2) r t(5) in auto)
  have fu: "kept t u" "\<And>g k. points t g k \<Longrightarrow> points u g k" using add_slotframe_frames [OF t(2,3), where h = ?h and sz = sz] u(1) by simp_all
  have k: "kept ?s u" using t(4) fu(1) by (simp add: kept_def)
  let ?u = "u\<lparr> sf_array := (sf_array u)[i := Some f] \<rparr>"
  have "renew_slotframe i sz s = Some ?u" using i(1) t(1) u(1) kept_node(2) [OF k]
    by (simp add: renew_slotframe_def upd_opt_def Let_def)
  moreover have "same_node s ?u" using kept_node(1) [OF k] same_node_trans sf_array_frame(4) by blast
  moreover have "asched ?u = (asched s)(?h \<mapsto> (sz, Map.empty))" using u(4) t(5) by (simp add: sf_array_frame)
  ultimately show ?thesis using that [of ?u f] u(2,3,5) points_get [OF u(2,3)] kept_node(2) [OF k] fu(2) t(6) by (simp add: sf_array_frame)
qed


definition renewed :: "nat list \<Rightarrow> u16 \<Rightarrow> route_state \<Rightarrow> route_state \<Rightarrow> bool" where
  "renewed js sz s s' \<longleftrightarrow> sched_wf s' \<and> \<not> tsch_locked s' \<and> same_node s s' \<and> length (sf_array s') = length (sf_array s) \<and>
     asched s' = (\<lambda>h. if h \<in> word_of_nat ` set js then Some (sz, Map.empty) else asched s h) \<and>
     (\<forall>i \<in> set js. \<exists>f. sf_array s' ! i = Some f \<and> points s' f (word_of_nat i)) \<and>
     (\<forall>i. i \<notin> set js \<longrightarrow> sf_array s' ! i = sf_array s ! i) \<and>
     (\<forall>g k. k \<notin> word_of_nat ` set js \<longrightarrow> points s g k \<longrightarrow> points s' g k)"

lemma renew_slotframes_ok:
  assumes "sched_wf s" "\<not> tsch_locked s" "sz \<noteq> 0" "\<forall>i \<in> set js. i < length (sf_array s)"
    "inj_on (word_of_nat :: nat \<Rightarrow> u16) (set js)" "distinct js"
    "dom (asched s) \<subseteq> D" "word_of_nat ` set js \<subseteq> D" "finite D" "card D \<le> TSCH_SCHEDULE_MAX_SLOTFRAMES"
  shows "\<exists>s'. renew_slotframes js sz s = Some s' \<and> renewed js sz s s'"
  using assms(1,2,4-8)
proof (induction js arbitrary: s)
  case Nil
  then show ?case by (simp add: renewed_def)
next
  case (Cons j js)
  let ?h = "word_of_nat j :: u16"
  have "card (insert ?h (dom (asched s))) \<le> card D" using Cons.prems(6,7) assms(9) by (intro card_mono) auto
  then have room: "card (insert ?h (dom (asched s))) \<le> TSCH_SCHEDULE_MAX_SLOTFRAMES" using assms(10) by simp
  have j: "j < length (sf_array s)" using Cons.prems(3) by simp
  obtain f t where t: "renew_slotframe j sz s = Some t" "sched_wf t" "\<not> tsch_locked t" "points t f ?h"
    "asched t = (asched s)(?h \<mapsto> (sz, Map.empty))" "sf_array t = (sf_array s)[j := Some f]" "same_node s t"
    "\<And>g k. k \<noteq> ?h \<Longrightarrow> points s g k \<Longrightarrow> points t g k"
    using renew_abs [OF Cons.prems(1,2) j assms(3) room] by metis
  have h: "?h \<notin> word_of_nat ` set js" "j \<notin> set js" using Cons.prems(4,5) by (auto simp: inj_on_def)
  have p: "\<forall>i \<in> set js. i < length (sf_array t)" "inj_on (word_of_nat :: nat \<Rightarrow> u16) (set js)" "distinct js"
    "dom (asched t) \<subseteq> D" "word_of_nat ` set js \<subseteq> D"
    using Cons.prems(3-7) t(5,6) by auto
  obtain s' where s': "renew_slotframes js sz t = Some s'" "renewed js sz t s'" using Cons.IH [OF t(2,3) p] by blast
  note r = s'(2) [unfolded renewed_def]
  have a: "asched s' = (\<lambda>k. if k \<in> word_of_nat ` set (j # js) then Some (sz, Map.empty) else asched s k)"
    using r t(5) h(1) by (auto simp: fun_eq_iff)
  have q: "\<exists>g. sf_array s' ! i = Some g \<and> points s' g (word_of_nat i)" if i: "i \<in> set (j # js)" for i
  proof (cases "i \<in> set js")
    case False
    then have "i = j" using i by simp
    then show ?thesis using r h t(4,6) j by auto
  qed (use r in blast)
  have k: "sf_array s' ! i = sf_array s ! i" if "i \<notin> set (j # js)" for i using r t(6) that by simp
  have g: "points s' g k" if "k \<notin> word_of_nat ` set (j # js)" "points s g k" for g k using r t(8) that by simp
  have "renewed (j # js) sz s s'" unfolding renewed_def
    using r a q k g same_node_trans [OF t(7)] t(6) by (intro conjI) (simp_all del: list.set)
  then show ?case using t(1) s'(1) by simp
qed

subsection \<open>The links of the node\<close>

definition own_link :: "master_tsch_schedule_t \<Rightarrow> nat \<Rightarrow> scheduled_link_t" where
  "own_link sch i = the (schedule_link sch i)"

text \<open>The cell of a link: towards the next hop of its flow, or from any neighbour.\<close>

definition link_cell :: "master_tsch_schedule_t \<Rightarrow> linkaddr \<Rightarrow> scheduled_link_t \<Rightarrow> acell" where
  "link_cell sch d l =
     (sk_send_receive l, LINK_TYPE_NORMAL,
      d[NODE_ID_INDEX := (if sk_send_receive l = LINK_OPTION_RX then 0 else flow_forwards sch ! (unat (sk_slotframe_handle l) - 1))],
      ucast (sk_channel_offset l))"

definition link_cells :: "master_tsch_schedule_t \<Rightarrow> linkaddr \<Rightarrow> nat list \<Rightarrow> u16 \<Rightarrow> (u16 \<rightharpoonup> acell)" where
  "link_cells sch d is h =
     map_of (rev (map (\<lambda>l. (ucast (sk_timeslot l), link_cell sch d l))
       (filter (\<lambda>l. ucast (sk_slotframe_handle l) = h) (map (own_link sch) is))))"

definition link_fits :: "master_tsch_schedule_t \<Rightarrow> nat \<Rightarrow> u16 \<Rightarrow> nat \<Rightarrow> bool" where
  "link_fits sch n L i \<longleftrightarrow> (\<exists>l. schedule_link sch i = Some l \<and> 1 \<le> unat (sk_slotframe_handle l) \<and> unat (sk_slotframe_handle l) \<le> n \<and>
     unat (sk_slotframe_handle l) \<le> length (flow_forwards sch) \<and> ucast (sk_timeslot l) < L \<and> sk_channel_offset l \<le> 15)"

lemma link_cells_Cons:
  "link_cells sch d (i # is) h = (if ucast (sk_slotframe_handle (own_link sch i)) = h
     then [ucast (sk_timeslot (own_link sch i)) \<mapsto> link_cell sch d (own_link sch i)] ++ link_cells sch d is h else link_cells sch d is h)"
  by (simp add: link_cells_def)

lemma map_upd_add: "(m(k \<mapsto> v)) ++ r = m ++ ([k \<mapsto> v] ++ r)"
  by (auto simp: map_add_def fun_eq_iff split: option.split)

lemma destination_frame:
  fixes s :: route_state
  shows "sched_wf (s\<lparr> destination := x \<rparr>) = sched_wf s" "asched (s\<lparr> destination := x \<rparr>) = asched s" "points (s\<lparr> destination := x \<rparr>) = points s"
proof -
  let ?t = "s\<lparr> destination := x \<rparr>"
  have f: "link_memb ?t = link_memb s" "slotframe_memb ?t = slotframe_memb s" "slotframe_list ?t = slotframe_list s" by simp_all
  show "sched_wf ?t = sched_wf s" "asched ?t = asched s" by (rule sched_wf_frame; simp)+
  show "points ?t = points s" unfolding points_def [abs_def] sched_cong(3) [OF f] f(3) ..
qed

lemma install_link_abs:
  assumes w: "sched_wf s" "\<not> tsch_locked s" and l: "link_fits sch n L i" "schedule (flash s) = sch" "i < 256"
    and A: "\<And>h. 1 \<le> unat h \<Longrightarrow> unat h \<le> n \<Longrightarrow> \<exists>m. asched s h = Some (L, m)" "used_cells (asched s) < TSCH_SCHEDULE_MAX_LINKS"
    and d: "addr_wf d" "\<And>x. (destination s)[NODE_ID_INDEX := x] = d[NODE_ID_INDEX := x]"
  obtains h m s' where "install_schedule_link i s = Some s'" "sched_wf s'" "\<not> tsch_locked s'" "same_node s s'" "sf_array s' = sf_array s" "points s' = points s"
    "h = ucast (sk_slotframe_handle (own_link sch i))" "asched s h = Some (L, m)"
    "asched s' = (asched s)(h \<mapsto> (L, m(ucast (sk_timeslot (own_link sch i)) \<mapsto> link_cell sch d (own_link sch i))))"
    "used_cells (asched s') \<le> Suc (used_cells (asched s))"
proof -
  obtain l where li: "schedule_link sch i = Some l" "1 \<le> unat (sk_slotframe_handle l)" "unat (sk_slotframe_handle l) \<le> n"
    "unat (sk_slotframe_handle l) \<le> length (flow_forwards sch)" "ucast (sk_timeslot l) < L" "sk_channel_offset l \<le> 15"
    using l(1) unfolding link_fits_def by blast
  have o: "own_link sch i = l" using li(1) by (simp add: own_link_def)
  let ?h = "ucast (sk_slotframe_handle l) :: u16"
  have "unat ?h = unat (sk_slotframe_handle l)" by simp
  then obtain m where m: "asched s ?h = Some (L, m)" using A(1) [of ?h] li(2,3) by auto
  then obtain f where f: "points s f ?h" using get_slotframe_None [OF w(2), of ?h] points_get [OF w, of ?h] by (cases "tsch_schedule_get_slotframe_by_handle ?h s") auto
  define x where "x = (if sk_send_receive l = LINK_OPTION_RX then 0 else flow_forwards sch ! (unat (sk_slotframe_handle l) - 1))"
  let ?s = "set_destination_link_addr x s"
  have ds: "destination ?s = d[NODE_ID_INDEX := x]" using d(2) by (simp add: set_destination_link_addr_def)
  have ws: "sched_wf ?s" "\<not> tsch_locked ?s" "points ?s f ?h" "asched ?s ?h = Some (L, m)" "used_cells (asched ?s) < TSCH_SCHEDULE_MAX_LINKS"
    using w f m A(2) by (simp_all add: set_destination_link_addr_def destination_frame)
  have c: "(ucast (sk_channel_offset l) :: u16) \<le> 15" using li(6) by (simp add: word_le_nat_alt)
  have a: "addr_wf (destination ?s)" using d(1) unfolding ds by (simp add: addr_wf_def)
  obtain s' where s': "snd (tsch_schedule_add_link (Some f) (sk_send_receive l) LINK_TYPE_NORMAL (Some (destination ?s)) (ucast (sk_timeslot l)) (ucast (sk_channel_offset l)) ?s) = s'"
    "sched_wf s'" "\<not> tsch_locked s'" "same_frames ?s s'"
    "asched s' = (asched ?s)(?h \<mapsto> (L, m(ucast (sk_timeslot l) \<mapsto> (sk_send_receive l, LINK_TYPE_NORMAL, destination ?s, ucast (sk_channel_offset l)))))"
    "used_cells (asched s') \<le> Suc (used_cells (asched ?s))"
    by (rule add_link_abs [OF ws li(5) c a, of "sk_send_receive l" LINK_TYPE_NORMAL])
  have nz: "sk_slotframe_handle l \<noteq> 0" using li(2) by auto
  have fw: "(if sk_send_receive l = LINK_OPTION_RX then Some 0 else get_forward_dest_by_slotframe sch (word_of_nat i)) = Some x"
    using li(1,2,4) l(3) nz by (auto simp: x_def get_forward_dest_by_slotframe_def unat_of_nat nth_opt_def)
  have "install_schedule_link i s = Some s'"
    unfolding install_schedule_link_def Let_def l(2) li(1) bind.bind_lunit fw points_get [OF w, THEN iffD2, OF f] s'(1) ..
  moreover have "same_node s ?s" by (simp add: same_node_def set_destination_link_addr_def)
  moreover have "kept ?s s'" using s'(4) by (simp add: same_frames_def)
  moreover have "points s' = points s" using points_frames [OF s'(4)] by (simp add: fun_eq_iff set_destination_link_addr_def destination_frame)
  moreover have "asched s' = (asched s)(?h \<mapsto> (L, m(ucast (sk_timeslot l) \<mapsto> link_cell sch d l)))"
    using s'(5) unfolding ds by (simp add: x_def link_cell_def set_destination_link_addr_def destination_frame)
  ultimately show ?thesis using that [of s' ?h m] s'(2,3,6) m o kept_node [of ?s s'] same_node_trans
    by (auto simp: set_destination_link_addr_def destination_frame)
qed

lemma install_links_abs:
  assumes "sched_wf s" "\<not> tsch_locked s" "\<forall>i \<in> set is. link_fits sch n L i \<and> i < 256" "schedule (flash s) = sch"
    and "\<And>h. 1 \<le> unat h \<Longrightarrow> unat h \<le> n \<Longrightarrow> \<exists>m. asched s h = Some (L, m)" "used_cells (asched s) + length is \<le> TSCH_SCHEDULE_MAX_LINKS"
    and "addr_wf d" "\<And>x. (destination s)[NODE_ID_INDEX := x] = d[NODE_ID_INDEX := x]"
  shows "\<exists>s'. install_schedule_links is s = Some s' \<and> sched_wf s' \<and> \<not> tsch_locked s' \<and> same_node s s' \<and> sf_array s' = sf_array s \<and> points s' = points s \<and>
    asched s' = (\<lambda>h. map_option (\<lambda>(L, m). (L, m ++ link_cells sch d is h)) (asched s h)) \<and> used_cells (asched s') \<le> used_cells (asched s) + length is"
  using assms(1-6,8)
proof (induction "is" arbitrary: s)
  case Nil
  then show ?case by (simp add: link_cells_def option.map_ident case_prod_unfold)
next
  case (Cons i "is")
  have l: "link_fits sch n L i" "i < 256" using Cons.prems(3) by simp_all
  have u: "used_cells (asched s) < TSCH_SCHEDULE_MAX_LINKS" using Cons.prems(6) by simp
  obtain h m t where t: "install_schedule_link i s = Some t" "sched_wf t" "\<not> tsch_locked t" "same_node s t" "sf_array t = sf_array s" "points t = points s"
    "h = ucast (sk_slotframe_handle (own_link sch i))" "asched s h = Some (L, m)"
    "asched t = (asched s)(h \<mapsto> (L, m(ucast (sk_timeslot (own_link sch i)) \<mapsto> link_cell sch d (own_link sch i))))"
    "used_cells (asched t) \<le> Suc (used_cells (asched s))"
    using install_link_abs [OF Cons.prems(1,2) l(1) Cons.prems(4) l(2) Cons.prems(5) u assms(7) Cons.prems(7)] by metis
  have p: "schedule (flash t) = sch" "\<forall>i \<in> set is. link_fits sch n L i \<and> i < 256" "used_cells (asched t) + length is \<le> TSCH_SCHEDULE_MAX_LINKS"
    "(destination t)[NODE_ID_INDEX := x] = d[NODE_ID_INDEX := x]" for x
    using Cons.prems(3,4,6,7) t(4,10) by (auto simp: same_node_def)
  have A: "\<exists>m. asched t h = Some (L, m)" if "1 \<le> unat h" "unat h \<le> n" for h using Cons.prems(5) [OF that] t(8,9) by auto
  obtain s' where s': "install_schedule_links is t = Some s'" "sched_wf s'" "\<not> tsch_locked s'" "same_node t s'" "sf_array s' = sf_array t" "points s' = points t"
    "asched s' = (\<lambda>h. map_option (\<lambda>(L, m). (L, m ++ link_cells sch d is h)) (asched t h))" "used_cells (asched s') \<le> used_cells (asched t) + length is"
    using Cons.IH [OF t(2,3) p(2,1) A p(3,4)] by blast
  have "asched s' k = map_option (\<lambda>(L, m). (L, m ++ link_cells sch d (i # is) k)) (asched s k)" for k
  proof (cases "k = h")
    case True
    let ?c = "[ucast (sk_timeslot (own_link sch i)) \<mapsto> link_cell sch d (own_link sch i)]"
    have "link_cells sch d (i # is) h = ?c ++ link_cells sch d is h" using t(7) by (simp add: link_cells_Cons)
    moreover have "asched s' h = Some (L, m ++ (?c ++ link_cells sch d is h))" unfolding s'(7) t(9) map_upd_add [of m, symmetric] by simp
    ultimately show ?thesis unfolding True t(8) by simp
  next
    case False
    then have "link_cells sch d (i # is) k = link_cells sch d is k" using t(7) by (simp add: link_cells_Cons)
    then show ?thesis unfolding s'(7) t(9) using False by simp
  qed
  then have a: "asched s' = (\<lambda>h. map_option (\<lambda>(L, m). (L, m ++ link_cells sch d (i # is) h)) (asched s h))" by (rule ext)
  have "used_cells (asched s') \<le> used_cells (asched s) + length (i # is)" using s'(8) t(10) by simp
  then show ?case using t(1) s'(1-6) a same_node_trans [OF t(4) s'(4)] t(5,6) by simp
qed


subsection \<open>The parts of the installation\<close>

lemma more_node:
  fixes s :: route_state
  assumes "tsch_state.more s' = tsch_state.more s"
  shows "flash s' = flash s" "current_state s' = current_state s" "destination s' = destination s" "sf_array s' = sf_array s"
  using assms by (cases s; cases s'; simp)+

text \<open>While commands are ignored, the callbacks of the packets do nothing.\<close>

lemma ignore_quiet:
  assumes "current_state s = ST_IGNORE_COMMANDS" "KEEPALIVE_PACKET_SENT \<notin> C"
  shows "quiet (sent_callback link_stats (Suc k)) C (tsch_state.more s)"
proof -
  have "mac_call_sent_callback (sent_callback link_stats (Suc k)) c MAC_TX_ERR x t = Some t"
    if "tsch_state.more t = tsch_state.more s" "c \<in> C" for c x t
  proof -
    have "current_state t = ST_IGNORE_COMMANDS" "c \<noteq> KEEPALIVE_PACKET_SENT" using more_node(2) [OF that(1)] that(2) assms by auto
    then show ?thesis by (cases c) (simp_all add: mac_call_sent_callback_def master_routing_output_callback_def)
  qed
  then show ?thesis unfolding quiet_def by blast
qed

lemma reset_queues_abs:
  assumes "sched_wf s" "\<not> tsch_locked s" "current_state s = ST_IGNORE_COMMANDS" "KEEPALIVE_PACKET_SENT \<notin> callbacks s"
  obtains s' where "tsch_queue_reset (sent_callback link_stats (Suc k)) s = Some s'" "sched_wf s'" "\<not> tsch_locked s'" "asched s' = asched s" "points s' = points s"
    "flash s' = flash s" "destination s' = destination s" "sf_array s' = sf_array s" "\<And>a. queues s' a = []"
proof -
  have q: "q_wf s" "sc_wf s" using assms(1) by (simp_all add: sched_wf_def)
  obtain s' where s': "tsch_queue_reset (sent_callback link_stats (Suc k)) s = Some s'" "q_wf s'" "\<not> tsch_locked s'" "tsch_state.more s' = tsch_state.more s"
    "\<forall>a. queues s' a = []" using tsch_queue_reset_ok [OF q(1) assms(2) ignore_quiet [OF assms(3,4)]] by blast
  note m = sched_more [OF s'(4)]
  note c = sched_cong [OF m(1-3)]
  have "points s' = points s" unfolding points_def [abs_def] c(3) m(3) ..
  then show ?thesis using that [of s'] s' q(2) c(1,2) more_node [OF s'(4)] by (simp add: sched_wf_def)
qed

lemma reset_metric_abs:
  assumes "sched_wf s" "\<not> tsch_locked s"
  shows "sched_wf (reset_nbr_metric_received s)" "\<not> tsch_locked (reset_nbr_metric_received s)" "asched (reset_nbr_metric_received s) = asched s"
    "flash (reset_nbr_metric_received s) = flash s"
proof -
  let ?f = "\<lambda>n s. set_nbr n ((nbr s n)\<lparr> n_etx_metric_received := 0 \<rparr>) s"
  have f: "sched_wf (fold ?f ns s) \<and> \<not> tsch_locked (fold ?f ns s) \<and> asched (fold ?f ns s) = asched s \<and> flash (fold ?f ns s) = flash s"
    if "set ns \<subseteq> set (neighbor_list s)" "sched_wf s" "\<not> tsch_locked s" for ns and s :: route_state
    using that
  proof (induction ns arbitrary: s)
    case (Cons n ns)
    have q: "q_wf s" "sc_wf s" using Cons.prems(2) by (simp_all add: sched_wf_def)
    have n: "n \<in> set (neighbor_list s)" using Cons.prems(1) by simp
    have m: "tsch_state.more (?f n s) = tsch_state.more s" by simp
    have "q_wf (?f n s)" using set_nbr_book(1) [OF q(1) n, of "(nbr s n)\<lparr> n_etx_metric_received := 0 \<rparr>"] q_wfD(6) [OF q(1) n] by simp
    then have t: "sched_wf (?f n s)" "asched (?f n s) = asched s" using q(2) sched_cong(1,2) [OF sched_more(1-3) [OF m]] by (simp_all add: sched_wf_def)
    have l: "set ns \<subseteq> set (neighbor_list (?f n s))" "\<not> tsch_locked (?f n s)" "flash (?f n s) = flash s"
      using Cons.prems(1,3) more_node(1) [OF m] by simp_all
    show ?case using Cons.IH [OF l(1) t(1) l(2)] t(2) l(3) by simp
  qed simp
  have "set (real_nbrs s) \<subseteq> set (neighbor_list s)" by (auto simp: real_nbrs_def)
  then show "sched_wf (reset_nbr_metric_received s)" "\<not> tsch_locked (reset_nbr_metric_received s)" "asched (reset_nbr_metric_received s) = asched s"
    "flash (reset_nbr_metric_received s) = flash s" using f [of "real_nbrs s" s] assms unfolding reset_nbr_metric_received_def by blast+
qed

lemma update_frames:
  fixes s :: route_state
  shows "sched_wf (s\<lparr> current_state := a \<rparr>) = sched_wf s" "asched (s\<lparr> current_state := a \<rparr>) = asched s"
    "sched_wf (s\<lparr> flash := b \<rparr>) = sched_wf s" "asched (s\<lparr> flash := b \<rparr>) = asched s"
    "sched_wf (s\<lparr> schedule_received_callback := c \<rparr>) = sched_wf s" "asched (s\<lparr> schedule_received_callback := c \<rparr>) = asched s"
    "sched_wf (s\<lparr> tsch_current_eb_period := e \<rparr>) = sched_wf s" "asched (s\<lparr> tsch_current_eb_period := e \<rparr>) = asched s"
  by (rule sched_wf_frame; simp)+

text \<open>The part of the schedule that belongs to a node.\<close>

definition node_entry :: "(u8 \<times> master_tsch_schedule_t) list \<Rightarrow> u16 \<Rightarrow> master_tsch_schedule_t option" where
  "node_entry es n = map_option snd (find (\<lambda>(i, e). uint i = uint n - 1) es)"

definition node_links :: "master_tsch_schedule_t option \<Rightarrow> nat list" where
  "node_links e = (case e of None \<Rightarrow> [] | Some e \<Rightarrow> [0..<unat (links_len e)])"

lemma link_cells_same:
  assumes "same_schedule a e" "set is \<subseteq> {..<unat (links_len e)}"
  shows "link_cells a d is = link_cells e d is" "i \<in> set is \<Longrightarrow> link_fits a n L i = link_fits e n L i"
proof -
  have l: "schedule_link a i = schedule_link e i" if "i \<in> set is" for i using assms that by (auto simp: same_schedule_def)
  then have "map (own_link a) is = map (own_link e) is" by (simp add: own_link_def)
  moreover have "flow_forwards a = flow_forwards e" using assms(1) by (simp add: same_schedule_def)
  then have "link_cell a = link_cell e" unfolding link_cell_def [abs_def] by (simp only:)
  ultimately show "link_cells a d is = link_cells e d is" unfolding link_cells_def [abs_def] by (simp only:)
  show "link_fits a n L i = link_fits e n L i" if "i \<in> set is" using l [OF that] assms(1) by (simp add: link_fits_def same_schedule_def)
qed

text \<open>The file holds a schedule.\<close>

definition flash_holds :: "master_tsch_schedule_universall_config_t \<Rightarrow> (u8 \<times> master_tsch_schedule_t) list \<Rightarrow> flash_state \<Rightarrow> bool" where
  "flash_holds c es s \<longleftrightarrow> flash_wf s \<and> fs_open s \<and> file_content s = config_bytes c @ concat (map entry_bytes es) \<and>
     int (length (file_content s)) \<le> bytes_in_flash s \<and> (\<forall>e \<in> set es. entry_ok e) \<and> config_sized c \<and>
     config_sized (schedule_config s) \<and> sched_sized (schedule s)"

lemma load_own_abs:
  assumes "flash_holds c es (flash s)"
  obtains fl where "load_own_schedule s = Some (s\<lparr> flash := fl \<rparr>)" "slot_frames (schedule_config fl) = slot_frames c"
    "schedule_length (schedule_config fl) = schedule_length c"
    "case node_entry es (node_id s) of None \<Rightarrow> links_len (schedule fl) = 0 \<and> own_transmission_flow (schedule fl) = 0 | Some e \<Rightarrow> same_schedule (schedule fl) e"
proof -
  note a = assms [unfolded flash_holds_def]
  let ?fd = "find (\<lambda>(i, e). uint i = uint (node_id s) - 1) es"
  obtain sch' fl where r: "read_from_flash_by_id (schedule_config (flash s)) (schedule (flash s)) (uint (node_id s) - 1) (flash s) =
      Some ((if ?fd = None then 0 else 1), c\<lparr> last_received_relayed_packet_of_flow := last_received_relayed_packet_of_flow (schedule_config (flash s)) \<rparr>, sch', fl)"
    "\<forall>i e. ?fd = Some (i, e) \<longrightarrow> same_schedule sch' e"
    using read_from_flash_ok [of "flash s" c es "schedule_config (flash s)" "schedule (flash s)" "uint (node_id s) - 1"] a by blast
  let ?c = "c\<lparr> last_received_relayed_packet_of_flow := last_received_relayed_packet_of_flow (schedule_config (flash s)) \<rparr>"
  let ?sch = "if ?fd = None then sch'\<lparr> links_len := 0, own_transmission_flow := 0, own_receiver := 0 \<rparr> else sch'"
  show ?thesis
    by (rule that [of "fl\<lparr> schedule_config := ?c, schedule := ?sch \<rparr>"]; use r in \<open>cases ?fd\<close>)
      (auto simp: load_own_schedule_def node_entry_def)
qed


subsection \<open>The installed schedule\<close>

definition beacon_cell :: acell where
  "beacon_cell = (LINK_OPTION_TX OR LINK_OPTION_RX, LINK_TYPE_ADVERTISING_ONLY, tsch_broadcast_address, 0)"

definition own_cells :: "master_tsch_schedule_t option \<Rightarrow> linkaddr \<Rightarrow> u16 \<Rightarrow> (u16 \<rightharpoonup> acell)" where
  "own_cells e d h = (case e of None \<Rightarrow> Map.empty | Some e \<Rightarrow> link_cells e d [0..<unat (links_len e)] h)"

text \<open>A slotframe for the beacons, and one for every flow with the links of the node; the first one of them has a further slot for beacons.\<close>

definition installed :: "master_tsch_schedule_universall_config_t \<Rightarrow> master_tsch_schedule_t option \<Rightarrow> linkaddr \<Rightarrow> aschedule" where
  "installed c e d h =
     (if h = 0 then Some (MASTER_EBSF_PERIOD, [0 \<mapsto> beacon_cell])
      else if unat h \<le> unat (slot_frames c) then
        Some (ucast (schedule_length c),
          if h = 1 then (own_cells e d h)(ucast (schedule_length c) - 1 \<mapsto> beacon_cell) else own_cells e d h)
      else None)"

text \<open>The schedule fits the tables: handles, time slots, channels and the number of links.\<close>

definition schedule_fits :: "master_tsch_schedule_universall_config_t \<Rightarrow> master_tsch_schedule_t option \<Rightarrow> bool" where
  "schedule_fits c e \<longleftrightarrow> 1 \<le> unat (slot_frames c) \<and> unat (slot_frames c) \<le> MASTER_NUM_FLOWS \<and> schedule_length c \<noteq> 0 \<and>
     (case e of None \<Rightarrow> True | Some e \<Rightarrow> unat (links_len e) + 2 \<le> TSCH_SCHEDULE_MAX_LINKS \<and>
        (\<forall>i < unat (links_len e). link_fits e (unat (slot_frames c)) (ucast (schedule_length c)) i))"

text \<open>Slotframe 0.\<close>

lemma install_beacons:
  assumes w: "sched_wf s" "\<not> tsch_locked s" and n: "length (sf_array s) = Suc MASTER_NUM_FLOWS" "dom (asched s) \<subseteq> D" "0 \<in> D" "card D \<le> TSCH_SCHEDULE_MAX_SLOTFRAMES"
    and u: "used_cells (asched s) < TSCH_SCHEDULE_MAX_LINKS"
  obtains f t s' where "renew_slotframe 0 MASTER_EBSF_PERIOD s = Some t" "nth_opt (sf_array t) 0 = Some (Some f)"
    "snd (tsch_schedule_add_link (Some f) (LINK_OPTION_TX OR LINK_OPTION_RX) LINK_TYPE_ADVERTISING_ONLY (Some tsch_broadcast_address) 0 0 t) = s'"
    "sched_wf s'" "\<not> tsch_locked s'" "same_node s s'" "length (sf_array s') = Suc MASTER_NUM_FLOWS"
    "asched s' = (asched s)(0 \<mapsto> (MASTER_EBSF_PERIOD, [0 \<mapsto> beacon_cell]))"
proof -
  have "card (insert 0 (dom (asched s))) \<le> card D" using n(2,3) by (intro card_mono) (auto intro: finite_subset)
  then have room: "card (insert (word_of_nat 0) (dom (asched s))) \<le> TSCH_SCHEDULE_MAX_SLOTFRAMES" using n(4) by simp
  have i: "0 < length (sf_array s)" "MASTER_EBSF_PERIOD \<noteq> 0" using n(1) by simp_all
  obtain f t where t0: "renew_slotframe 0 MASTER_EBSF_PERIOD s = Some t" "sched_wf t" "\<not> tsch_locked t" "points t f (word_of_nat 0)"
    "asched t = (asched s)(word_of_nat 0 \<mapsto> (MASTER_EBSF_PERIOD, Map.empty))" "sf_array t = (sf_array s)[0 := Some f]" "same_node s t"
    by (rule renew_abs [OF w i room])
  have z: "(word_of_nat 0 :: u16) = 0" by simp
  note t = t0 [unfolded z]
  have fin: "finite (dom (asched s))" using sched_counts(1) w(1) by (simp add: sched_wf_def)
  have "used_cells (asched t) \<le> used_cells (asched s)" unfolding t(5) used_cells_upd [OF fin] by (simp split: option.split)
  then have u': "used_cells (asched t) < TSCH_SCHEDULE_MAX_LINKS" using u by simp
  have a: "asched t 0 = Some (MASTER_EBSF_PERIOD, Map.empty)" using t(5) by simp
  obtain s' where s': "snd (tsch_schedule_add_link (Some f) (LINK_OPTION_TX OR LINK_OPTION_RX) LINK_TYPE_ADVERTISING_ONLY (Some tsch_broadcast_address) 0 0 t) = s'"
    "sched_wf s'" "\<not> tsch_locked s'" "same_frames t s'"
    "asched s' = (asched t)(0 \<mapsto> (MASTER_EBSF_PERIOD, [0 \<mapsto> beacon_cell]))"
    by (rule add_link_abs [OF t(2-4) a u', of 0 0 tsch_broadcast_address "LINK_OPTION_TX OR LINK_OPTION_RX" LINK_TYPE_ADVERTISING_ONLY]) (simp_all add: beacon_cell_def)
  have k: "same_node t s'" "sf_array s' = sf_array t" using kept_node [of t s'] s'(4) by (simp_all add: same_frames_def)
  show ?thesis by (rule that [OF t(1) _ s'(1-3)]) (use k t(5-7) s'(5) n(1) same_node_trans in \<open>auto simp: nth_opt_def\<close>)
qed

text \<open>What all slotframes hold before the links are installed.\<close>

lemma used_cells_one:
  assumes "finite (dom A)" "\<And>h. h \<in> dom A \<Longrightarrow> h \<noteq> 0 \<Longrightarrow> card (dom (snd (the (A h)))) = 0" "card (dom (snd (the (A 0)))) \<le> 1"
  shows "used_cells A \<le> 1"
proof -
  have "used_cells A \<le> (\<Sum>h \<in> dom A. if h = 0 then 1 else 0)" unfolding used_cells_def using assms(2,3) by (intro sum_mono) auto
  also have "\<dots> \<le> 1" using assms(1) by (simp add: sum.delta)
  finally show ?thesis .
qed


lemma ucast_zero: "(ucast (x :: u8) :: u16) = 0 \<longleftrightarrow> x = 0"
  by (simp add: word_unat_eq_iff)

lemma handles: "n < 65536 \<Longrightarrow> (word_of_nat :: nat \<Rightarrow> u16) ` set [1..<Suc n] = {h. 1 \<le> unat h \<and> unat h \<le> n}"
proof (intro set_eqI iffI)
  fix h :: u16 assume "h \<in> {h. 1 \<le> unat h \<and> unat h \<le> n}"
  then show "h \<in> word_of_nat ` set [1..<Suc n]" by (intro image_eqI [of _ _ "unat h"]) auto
qed (auto simp: unat_of_nat)

lemma card_handles: "n \<le> MASTER_NUM_FLOWS \<Longrightarrow> card {h :: u16. unat h \<le> n} \<le> TSCH_SCHEDULE_MAX_SLOTFRAMES"
proof -
  assume n: "n \<le> MASTER_NUM_FLOWS"
  have "{h :: u16. unat h \<le> n} \<subseteq> word_of_nat ` {..n}" by (auto intro!: image_eqI [of _ _ "unat h" for h])
  then have "card {h :: u16. unat h \<le> n} \<le> card {..n}" by (meson card_image_le card_mono finite_atMost finite_imageI le_trans)
  then show ?thesis using n by simp
qed

text \<open>The empty slotframes of the flows.\<close>

lemma renew_flows:
  assumes w: "sched_wf s" "\<not> tsch_locked s" and n: "1 \<le> n" "n \<le> MASTER_NUM_FLOWS" "length (sf_array s) = Suc MASTER_NUM_FLOWS" "L \<noteq> 0"
    and A: "asched s 0 = Some (P, [0 \<mapsto> b])" "\<And>h. asched s h \<noteq> None \<Longrightarrow> unat h \<le> n"
  obtains f t where "renew_slotframes [1..<Suc n] L s = Some t" "sched_wf t" "\<not> tsch_locked t" "same_node s t" "nth_opt (sf_array t) 1 = Some (Some f)"
    "points t f 1" "asched t = (\<lambda>h. if h = 0 then asched s 0 else if unat h \<le> n then Some (L, Map.empty) else None)" "used_cells (asched t) \<le> 1"
proof -
  let ?D = "{h :: u16. unat h \<le> n}" and ?js = "[1..<Suc n]"
  have im: "word_of_nat ` set ?js = {h :: u16. 1 \<le> unat h \<and> unat h \<le> n}" by (rule handles) (use n(2) in simp)
  have c: "card ?D \<le> TSCH_SCHEDULE_MAX_SLOTFRAMES" by (rule card_handles [OF n(2)])
  have p: "\<forall>i \<in> set ?js. i < length (sf_array s)" "inj_on (word_of_nat :: nat \<Rightarrow> u16) (set ?js)" "distinct ?js" "dom (asched s) \<subseteq> ?D"
    "word_of_nat ` set ?js \<subseteq> ?D" "finite ?D"
    using n(2,3) A(2) unfolding im by (auto intro!: inj_on_inverseI [of _ unat] simp: unat_of_nat)
  obtain t where t: "renew_slotframes ?js L s = Some t" "renewed ?js L s t" using renew_slotframes_ok [OF w n(4) p c] by blast
  note r = t(2) [unfolded renewed_def im]
  have one: "(1 :: nat) \<in> set ?js" using n(1) by auto
  obtain f where f: "sf_array t ! 1 = Some f" "points t f (word_of_nat 1)" using r one by blast
  have a: "asched t = (\<lambda>h. if h = 0 then asched s 0 else if unat h \<le> n then Some (L, Map.empty) else None)"
  proof
    fix h :: u16
    have "1 \<le> unat h \<longleftrightarrow> h \<noteq> 0" by (simp add: Suc_le_eq unat_gt_0)
    moreover have "asched t h = (if 1 \<le> unat h \<and> unat h \<le> n then Some (L, Map.empty) else asched s h)" using r by (simp del: set_upt)
    moreover have "asched s h = None" if "\<not> unat h \<le> n" using A(2) that by blast
    ultimately show "asched t h = (if h = 0 then asched s 0 else if unat h \<le> n then Some (L, Map.empty) else None)" by auto
  qed
  have fin: "finite (dom (asched t))" using r sched_counts(1) [of t] by (simp add: sched_wf_def)
  have "used_cells (asched t) \<le> 1" by (rule used_cells_one [OF fin]) (auto simp: a A(1) split: if_splits)
  then show ?thesis using that [OF t(1)] r f a n(2,3) by (simp add: nth_opt_def)
qed

text \<open>The slotframes of the flows, their links and the slot for beacons.\<close>

lemma install_flows:
  fixes L :: u16
  assumes w: "sched_wf s" "\<not> tsch_locked s" and n: "n = unat (slot_frames c)" "L = ucast (schedule_length c)" "length (sf_array s) = Suc MASTER_NUM_FLOWS"
    and A: "asched s 0 = Some (P, [0 \<mapsto> b])" "\<And>h. asched s h \<noteq> None \<Longrightarrow> unat h \<le> n"
    and ig: "current_state s = ST_IGNORE_COMMANDS" "KEEPALIVE_PACKET_SENT \<notin> callbacks s" and d: "addr_wf (destination s)"
    and fl: "schedule_fits c e" "case e of None \<Rightarrow> links_len (schedule (flash s)) = 0 | Some e \<Rightarrow> same_schedule (schedule (flash s)) e"
  shows "\<exists>t1 t2 t3 f s'. renew_slotframes [1..<Suc n] L s = Some t1 \<and> tsch_queue_reset (sent_callback link_stats (Suc k)) t1 = Some t2 \<and>
    install_schedule_links [0..<unat (links_len (schedule (flash t2)))] t2 = Some t3 \<and> slotframe1 t3 = Some (Some f) \<and>
    snd (tsch_schedule_add_link (Some f) (LINK_OPTION_TX OR LINK_OPTION_RX) LINK_TYPE_ADVERTISING_ONLY (Some tsch_broadcast_address) (L - 1) 0 t3) = s' \<and>
    flash t3 = flash s \<and> sched_wf s' \<and> \<not> tsch_locked s' \<and> flash s' = flash s \<and>
    asched s' = (\<lambda>h. if h = 0 then asched s 0 else installed c e (destination s) h)"
proof -
  let ?d = "destination s" and ?sch = "schedule (flash s)"
  let ?is = "[0..<unat (links_len ?sch)]"
  have c: "1 \<le> n" "n \<le> MASTER_NUM_FLOWS" "L \<noteq> 0" using fl(1) by (auto simp: schedule_fits_def n ucast_zero)
  obtain f t1 where t1: "renew_slotframes [1..<Suc n] L s = Some t1" "sched_wf t1" "\<not> tsch_locked t1" "same_node s t1" "nth_opt (sf_array t1) 1 = Some (Some f)"
    "points t1 f 1" "asched t1 = (\<lambda>h. if h = 0 then asched s 0 else if unat h \<le> n then Some (L, Map.empty) else None)" "used_cells (asched t1) \<le> 1"
    by (rule renew_flows [OF w c(1,2) n(3) c(3) A])
  have i1: "current_state t1 = ST_IGNORE_COMMANDS" "KEEPALIVE_PACKET_SENT \<notin> callbacks t1" using t1(4) ig by (simp_all add: same_node_def callbacks_def pkt_def)
  obtain t2 where t2: "tsch_queue_reset (sent_callback link_stats (Suc k)) t1 = Some t2" "sched_wf t2" "\<not> tsch_locked t2" "asched t2 = asched t1" "points t2 = points t1"
    "flash t2 = flash t1" "destination t2 = destination t1" "sf_array t2 = sf_array t1"
    by (rule reset_queues_abs [OF t1(2,3) i1])
  have e: "unat (links_len ?sch) + 2 \<le> TSCH_SCHEDULE_MAX_LINKS \<and> (\<forall>i \<in> set ?is. link_fits ?sch n L i) \<and> link_cells ?sch ?d ?is = own_cells e ?d"
  proof (cases e)
    case (Some x)
    then have x: "same_schedule ?sch x" "links_len ?sch = links_len x" using fl(2) by (simp_all add: same_schedule_def)
    have "set ?is \<subseteq> {..<unat (links_len x)}" using x(2) by auto
    note sm = link_cells_same [OF x(1) this]
    show ?thesis using fl(1) Some sm x(2) by (auto simp: schedule_fits_def n own_cells_def fun_eq_iff)
  qed (use fl(2) in \<open>simp add: own_cells_def link_cells_def fun_eq_iff\<close>)
  have fits: "\<forall>i \<in> set ?is. link_fits ?sch n L i \<and> i < 256" using e by auto
  have u2: "used_cells (asched t2) + length ?is \<le> TSCH_SCHEDULE_MAX_LINKS" using t2(4) t1(8) e by simp
  have sf: "\<exists>m. asched t2 h = Some (L, m)" if "1 \<le> unat h" "unat h \<le> n" for h using that t2(4) t1(7) by auto
  have fl2: "schedule (flash t2) = ?sch" "\<And>x. (destination t2)[NODE_ID_INDEX := x] = ?d[NODE_ID_INDEX := x]" using t1(4) t2(6,7) by (simp_all add: same_node_def)
  obtain t3 where t3: "install_schedule_links ?is t2 = Some t3" "sched_wf t3" "\<not> tsch_locked t3" "same_node t2 t3" "sf_array t3 = sf_array t2" "points t3 = points t2"
    "asched t3 = (\<lambda>h. map_option (\<lambda>(L, m). (L, m ++ link_cells ?sch ?d ?is h)) (asched t2 h))" "used_cells (asched t3) \<le> used_cells (asched t2) + length ?is"
    using install_links_abs [OF t2(2,3) fits fl2(1) sf u2 d fl2(2)] by blast
  have one: "unat (1 :: u16) \<le> n" "(1 :: u16) \<noteq> 0" using c(1) by simp_all
  have a3: "asched t3 1 = Some (L, own_cells e ?d 1)" unfolding t3(7) t2(4) t1(7) using e one by simp
  have u3: "used_cells (asched t3) < TSCH_SCHEDULE_MAX_LINKS" using t3(8) t2(4) t1(8) e by simp
  have p3: "points t3 f 1" using t3(6) t2(5) t1(6) by simp
  have lt: "L - 1 < L" using c(3) by (simp add: word_less_nat_alt unat_minus_one unat_gt_0)
  obtain s' where s': "snd (tsch_schedule_add_link (Some f) (LINK_OPTION_TX OR LINK_OPTION_RX) LINK_TYPE_ADVERTISING_ONLY (Some tsch_broadcast_address) (L - 1) 0 t3) = s'"
    "sched_wf s'" "\<not> tsch_locked s'" "same_frames t3 s'" "asched s' = (asched t3)(1 \<mapsto> (L, (own_cells e ?d 1)(L - 1 \<mapsto> beacon_cell)))"
    by (rule add_link_abs [OF t3(2,3) p3 a3 u3 lt, of 0 tsch_broadcast_address "LINK_OPTION_TX OR LINK_OPTION_RX" LINK_TYPE_ADVERTISING_ONLY]) (simp_all add: beacon_cell_def)
  have lc: "link_cells ?sch ?d ?is = own_cells e ?d" using e by blast
  have z: "own_cells e ?d 0 = Map.empty"
  proof -
    have "filter (\<lambda>l. ucast (sk_slotframe_handle l) = (0 :: u16)) (map (own_link ?sch) ?is) = []"
      using fits by (auto simp: filter_empty_conv link_fits_def own_link_def ucast_zero)
    then have "link_cells ?sch ?d ?is 0 = Map.empty" by (simp add: link_cells_def)
    then show ?thesis unfolding lc .
  qed
  have "asched s' = (\<lambda>h. if h = 0 then asched s 0 else installed c e ?d h)"
    by (rule ext) (use z A(1) one in \<open>simp add: s'(5) t3(7) t2(4) t1(7) lc installed_def n\<close>)
  moreover have "flash s' = flash t3" using s'(4) kept_node(1) [of t3 s'] by (simp add: same_frames_def same_node_def)
  moreover have "flash t3 = flash s" "flash t2 = flash s" using t3(4) t2(6) t1(4) by (simp_all add: same_node_def)
  ultimately show ?thesis using t1(1,5) t2(1,8) t3(1,5) s'(1-3) by (auto simp: slotframe1_def)
qed


lemma installed_cong:
  assumes "\<And>x. d[NODE_ID_INDEX := x] = d'[NODE_ID_INDEX := x]"
  shows "installed c e d = installed c e d'"
proof -
  have "link_cell x d = link_cell x d'" for x unfolding link_cell_def [abs_def] assms ..
  then have "link_cells x d = link_cells x d'" for x unfolding link_cells_def [abs_def] by (simp only:)
  then have "own_cells e d = own_cells e d'" unfolding own_cells_def [abs_def] by (simp only:)
  then show ?thesis unfolding installed_def [abs_def] by (simp only:)
qed



text \<open>Node 5 of a network with two flows, which sends flow 2 to node 9 in slot 5 on channel offset 2.\<close>

definition two_flows :: master_tsch_schedule_universall_config_t where
  "two_flows = (schedule_config flash_boot)\<lparr> schedule_length := 20, slot_frames := 2 \<rparr>"

definition sender_entry :: master_tsch_schedule_t where
  "sender_entry = (schedule flash_boot)\<lparr> own_transmission_flow := 2, own_receiver := 9, flow_forwards := [0, 9] @ replicate 6 0, links_len := 1,
     link_mem := [2, 1, 5, 2] @ replicate 436 0 \<rparr>"

definition waiting_node :: route_state where
  "waiting_node = (route_boot [5, 0, 0, 0, 0, 0, 0, 0])\<lparr> schedule_received := replicate 3 (- 1),
     flash := flash_with (config_bytes two_flows @ concat (map entry_bytes [(4, sender_entry)])) \<rparr>"

lemma boot_packets: "memb_used (packet_memb (route_boot a)) = {}"
proof -
  define s0 where "s0 = (queuebuf_init tsch_zero)\<lparr> neighbor_list := [], neighbor_memb := memb_init zero_neighbor (neighbor_memb (queuebuf_init tsch_zero)),
                 packet_memb := memb_init zero_packet (packet_memb (queuebuf_init tsch_zero)) \<rparr>"
  obtain r s1 where 1: "tsch_queue_add_nbr tsch_eb_address s0 = (r, s1)" by fastforce
  obtain r2 s2 where 2: "tsch_queue_add_nbr tsch_broadcast_address (s1\<lparr> n_eb := r \<rparr>) = (r2, s2)" by fastforce
  have "packet_memb (route_boot a) = packet_memb tsch_boot"
    by (simp_all add: route_boot_def masternet_state.defs route_state.defs mac_boot_def net_state.defs net_boot_def sched_state.defs sched_boot_def
        tsch_schedule_init_def tsch_get_lock_def tsch_release_lock_def sched_zero_def tsch_state.extend_def mac_state.defs)
  moreover have "packet_memb tsch_boot = packet_memb s2" using 1 2 by (simp add: tsch_boot_def tsch_queue_init_def s0_def)
  moreover have "packet_memb s2 = packet_memb s0" using add_nbr_packets [of tsch_eb_address s0] add_nbr_packets [of tsch_broadcast_address "s1\<lparr> n_eb := r \<rparr>"] 1 2 by simp
  ultimately show ?thesis by (simp add: s0_def memb_init_def memb_used_def)
qed

lemma route_boot_sched: "sched_wf (route_boot a)" "asched (route_boot a) = Map.empty" "\<not> tsch_locked (route_boot a)"
proof -
  have e: "bufmem (route_boot a) = bufmem sched_boot" "buframmem (route_boot a) = buframmem sched_boot" "neighbor_memb (route_boot a) = neighbor_memb sched_boot"
    "packet_memb (route_boot a) = packet_memb sched_boot" "neighbor_list (route_boot a) = neighbor_list sched_boot"
    "link_memb (route_boot a) = link_memb sched_boot" "slotframe_memb (route_boot a) = slotframe_memb sched_boot" "slotframe_list (route_boot a) = slotframe_list sched_boot"
    "tsch_locked (route_boot a) = tsch_locked sched_boot"
    by (simp_all add: route_boot_def masternet_state.defs route_state.defs mac_boot_def net_state.defs net_boot_def sched_state.defs mac_state.defs)
  show "sched_wf (route_boot a)" "asched (route_boot a) = Map.empty" "\<not> tsch_locked (route_boot a)"
    using sched_wf_frame [of "route_boot a" sched_boot, OF e(1-8)] sched_boot_wf(1-3) e(9) by simp_all
qed


end
