(* ===== verification/NbrTable.thy ===== *)
theory NbrTable
  imports MasterConf Memb ListLib
begin

text \<open>
  The neighbour tables (\<open>os/net/nbr-table.c\<close>): modules keep data about neighbours in tables of their own, which share one pool of link-layer
  addresses. A neighbour is the index of its address in the pool, an item of a table is the index of the same place in the
  array of the table, and two bitmaps say which tables use and which lock a neighbour. When the pool is full, the neighbour that the fewest tables use is
  replaced. A table is a number; its fields are functions of it. The build has no \<open>NBR_TABLE_FIND_REMOVABLE\<close>, and \<open>removed\<close> stands for the callbacks of the
  tables. The lists of keys are HOL lists, as \<open>ListLib\<close> justifies.
\<close>

subsection \<open>State\<close>

record 'd nbr_tables =
  used_map :: "u8 list"
  locked_map :: "u8 list"
  all_tables :: "nat option list"
  num_tables :: nat
  t_index :: "nat \<Rightarrow> nat"
  t_callback :: "nat \<Rightarrow> bool"
  t_data :: "nat \<Rightarrow> 'd list"
  neighbor_addr_mem :: "linkaddr memb"
  nbr_table_keys :: "nat list"

definition MAX_NUM_TABLES :: nat where [simp]: "MAX_NUM_TABLES = 8"
definition NBR_TABLE_MAX_NEIGHBORS :: nat where [simp]: "NBR_TABLE_MAX_NEIGHBORS = NBR_TABLE_CONF_MAX_NEIGHBORS"

text \<open>The static storage before any call; \<open>z\<close> is the zero item of the tables.\<close>

definition nbr_tables_start :: "'d \<Rightarrow> 'd nbr_tables" where
  "nbr_tables_start z = \<lparr> used_map = replicate NBR_TABLE_MAX_NEIGHBORS 0, locked_map = replicate NBR_TABLE_MAX_NEIGHBORS 0,
     all_tables = replicate MAX_NUM_TABLES None, num_tables = 0, t_index = (\<lambda>_. 0), t_callback = (\<lambda>_. False), t_data = (\<lambda>_. replicate NBR_TABLE_MAX_NEIGHBORS z),
     neighbor_addr_mem = \<lparr> m_count = replicate NBR_TABLE_MAX_NEIGHBORS 0, m_mem = replicate NBR_TABLE_MAX_NEIGHBORS linkaddr_null \<rparr>, nbr_table_keys = [] \<rparr>"

definition key_addr :: "'d nbr_tables \<Rightarrow> nat \<Rightarrow> linkaddr" where
  "key_addr s k = m_mem (neighbor_addr_mem s) ! k"

subsection \<open>Indices, keys and items\<close>

text \<open>Writing the address of a key.\<close>

definition set_lladdr :: "nat \<Rightarrow> linkaddr \<Rightarrow> 'd nbr_tables \<Rightarrow> 'd nbr_tables" where
  "set_lladdr k a s = s\<lparr> neighbor_addr_mem := memb_put (neighbor_addr_mem s) k a \<rparr>"

definition key_from_index :: "int \<Rightarrow> nat option" where
  "key_from_index i = (if i \<noteq> - 1 then Some (nat i) else None)"

definition item_from_index :: "nat option \<Rightarrow> int \<Rightarrow> nat option" where
  "item_from_index table i = (if table \<noteq> None \<and> i \<noteq> - 1 then Some (nat i) else None)"

definition index_from_key :: "nat option \<Rightarrow> int" where
  "index_from_key key = (case key of Some k \<Rightarrow> int k | None \<Rightarrow> - 1)"

definition index_from_item :: "nat option \<Rightarrow> nat option \<Rightarrow> int" where
  "index_from_item table item = (case (table, item) of (Some _, Some i) \<Rightarrow> int i | _ \<Rightarrow> - 1)"

definition item_from_key :: "nat option \<Rightarrow> nat option \<Rightarrow> nat option" where
  "item_from_key table key = item_from_index table (index_from_key key)"

definition key_from_item :: "nat option \<Rightarrow> nat option \<Rightarrow> nat option" where
  "key_from_item table item = key_from_index (index_from_item table item)"

definition index_from_lladdr :: "linkaddr option \<Rightarrow> 'd nbr_tables \<Rightarrow> int" where
  "index_from_lladdr lladdr s =
     (let a = (case lladdr of None \<Rightarrow> linkaddr_null | Some a \<Rightarrow> a)
      in index_from_key (find (\<lambda>k. linkaddr_cmp a (key_addr s k)) (nbr_table_keys s)))"

subsection \<open>Bitmaps\<close>

definition nbr_get_bit :: "u8 list \<Rightarrow> nat option \<Rightarrow> nat option \<Rightarrow> 'd nbr_tables \<Rightarrow> bool option" where
  "nbr_get_bit bitmap table item s =
     (let item_index = index_from_item table item in
      case table of
        Some t \<Rightarrow> if item_index \<noteq> - 1 then do { b \<leftarrow> nth_opt bitmap (nat item_index); Some (b AND push_bit (t_index s t) 1 \<noteq> 0) } else Some False
      | None \<Rightarrow> Some False)"

definition nbr_set_bit :: "u8 list \<Rightarrow> nat option \<Rightarrow> nat option \<Rightarrow> bool \<Rightarrow> 'd nbr_tables \<Rightarrow> (int \<times> u8 list) option" where
  "nbr_set_bit bitmap table item v s =
     (let item_index = index_from_item table item in
      case table of
        Some t \<Rightarrow>
          if item_index \<noteq> - 1 then do {
            b \<leftarrow> nth_opt bitmap (nat item_index);
            m \<leftarrow> upd_opt bitmap (nat item_index) (if v then b OR push_bit (t_index s t) 1 else b AND NOT (push_bit (t_index s t) 1));
            Some (1, m)
          }
          else Some (0, bitmap)
      | None \<Rightarrow> Some (0, bitmap))"

subsection \<open>Replacing a neighbour\<close>

type_synonym 'd nbr_removed = "nat \<Rightarrow> nat \<Rightarrow> 'd nbr_tables \<Rightarrow> 'd nbr_tables"

fun call_removed :: "'d nbr_removed \<Rightarrow> nat \<Rightarrow> nat option list \<Rightarrow> 'd nbr_tables \<Rightarrow> 'd nbr_tables option" where
  "call_removed removed key [] s = Some s"
| "call_removed removed key (t # ts) s =
     (case t of
        None \<Rightarrow> call_removed removed key ts s
      | Some t \<Rightarrow>
          if t_callback s t then do {
            let removed_item = item_from_key (Some t) (Some key);
            b \<leftarrow> nbr_get_bit (used_map s) (Some t) removed_item s;
            call_removed removed key ts (if b then removed t (the removed_item) s else s)
          }
          else call_removed removed key ts s)"

definition remove_key :: "'d nbr_removed \<Rightarrow> nat \<Rightarrow> 'd nbr_tables \<Rightarrow> 'd nbr_tables option" where
  "remove_key removed least_used_key s = do {
     s \<leftarrow> call_removed removed least_used_key (all_tables s) s;
     m \<leftarrow> upd_opt (used_map s) least_used_key 0;
     Some (s\<lparr> used_map := m, nbr_table_keys := remove1 least_used_key (nbr_table_keys s) \<rparr>)
   }"

fun count_used :: "nat \<Rightarrow> nat" where
  "count_used used = (if used = 0 then 0 else (if used mod 2 = 1 then Suc (count_used (used div 2)) else count_used (used div 2)))"

declare count_used.simps [simp del]

fun least_used :: "'d nbr_tables \<Rightarrow> nat list \<Rightarrow> nat option \<Rightarrow> nat \<Rightarrow> nat option option" where
  "least_used s [] key cnt = Some key"
| "least_used s (k # ks) key cnt = do {
     locked \<leftarrow> nth_opt (locked_map s) k;
     if locked \<noteq> 0 then least_used s ks key cnt
     else do {
       used \<leftarrow> nth_opt (used_map s) k;
       let used_count = count_used (unat used);
       if key = None \<or> used_count < cnt then (if used_count = 0 then Some (Some k) else least_used s ks (Some k) used_count)
       else least_used s ks key cnt
     }
   }"

definition nbr_table_allocate :: "'d nbr_removed \<Rightarrow> 'd nbr_tables \<Rightarrow> (nat option \<times> 'd nbr_tables) option" where
  "nbr_table_allocate removed s =
     (case memb_alloc (neighbor_addr_mem s) of
        (Some key, m) \<Rightarrow> Some (Some key, s\<lparr> neighbor_addr_mem := m \<rparr>)
      | (None, m) \<Rightarrow> do {
          let s = s\<lparr> neighbor_addr_mem := m \<rparr>;
          least_used_key \<leftarrow> least_used s (nbr_table_keys s) None 0;
          case least_used_key of
            None \<Rightarrow> Some (None, s)
          | Some k \<Rightarrow> do { s \<leftarrow> remove_key removed k s; Some (Some k, s) }
        })"

subsection \<open>Tables\<close>

definition nbr_table_register :: "nat \<Rightarrow> bool \<Rightarrow> 'd nbr_tables \<Rightarrow> (int \<times> 'd nbr_tables) option" where
  "nbr_table_register table callback s =
     (if num_tables s < MAX_NUM_TABLES then do {
        a \<leftarrow> upd_opt (all_tables s) (num_tables s) (Some table);
        Some (1, s\<lparr> t_index := (t_index s)(table := num_tables s), num_tables := num_tables s + 1, t_callback := (t_callback s)(table := callback), all_tables := a \<rparr>)
      }
      else Some (0, s))"

definition nbr_table_is_register :: "nat option \<Rightarrow> 'd nbr_tables \<Rightarrow> bool option" where
  "nbr_table_is_register table s =
     (case table of None \<Rightarrow> Some False | Some t \<Rightarrow> do { a \<leftarrow> nth_opt (all_tables s) (t_index s t); Some (a = Some t) })"

definition key_item_next :: "nat option \<Rightarrow> 'd nbr_tables \<Rightarrow> nat option" where
  "key_item_next key s = (case key of None \<Rightarrow> None | Some k \<Rightarrow> item_after k (nbr_table_keys s))"

partial_function (option) nbr_table_next :: "nat option \<Rightarrow> nat option \<Rightarrow> 'd nbr_tables \<Rightarrow> nat option option" where
  "nbr_table_next table item s = do {
     let key = key_item_next (key_from_item table item) s;
     let item = item_from_key table key;
     if item = None then Some None
     else do { b \<leftarrow> nbr_get_bit (used_map s) table item s; if b then Some item else nbr_table_next table item s }
   }"

definition nbr_table_head :: "nat option \<Rightarrow> 'd nbr_tables \<Rightarrow> nat option option" where
  "nbr_table_head table s = do {
     let item = item_from_key table (case nbr_table_keys s of [] \<Rightarrow> None | k # _ \<Rightarrow> Some k);
     b \<leftarrow> nbr_get_bit (used_map s) table item s;
     if b then Some item else nbr_table_next table item s
   }"

text \<open>The zero item \<open>z\<close> is what \<open>memset\<close> leaves in the array of the table.\<close>

definition nbr_table_add_lladdr :: "'d nbr_removed \<Rightarrow> 'd \<Rightarrow> nat option \<Rightarrow> linkaddr option \<Rightarrow> 'd nbr_tables \<Rightarrow> (nat option \<times> 'd nbr_tables) option" where
  "nbr_table_add_lladdr removed z table lladdr s = do {
     let a = (case lladdr of None \<Rightarrow> linkaddr_null | Some a \<Rightarrow> a);
     let index = index_from_lladdr (Some a) s;
     (index, s) \<leftarrow> (if index = - 1 then do {
          (key, s) \<leftarrow> nbr_table_allocate removed s;
          (case key of
             None \<Rightarrow> Some (None, s)
           | Some k \<Rightarrow>
               (let s = s\<lparr> nbr_table_keys := remove1 k (nbr_table_keys s) @ [k] \<rparr>
                in Some (Some (index_from_key (Some k)), set_lladdr k a s)))
        }
        else Some (Some index, s));
     case index of
       None \<Rightarrow> Some (None, s)
     | Some index \<Rightarrow> do {
         let item = item_from_index table index;
         t \<leftarrow> table;
         i \<leftarrow> item;
         d \<leftarrow> upd_opt (t_data s t) i z;
         let s = s\<lparr> t_data := (t_data s)(t := d) \<rparr>;
         (_, m) \<leftarrow> nbr_set_bit (used_map s) table item True s;
         Some (item, s\<lparr> used_map := m \<rparr>)
       }
   }"

definition nbr_table_get_from_lladdr :: "nat option \<Rightarrow> linkaddr option \<Rightarrow> 'd nbr_tables \<Rightarrow> nat option option" where
  "nbr_table_get_from_lladdr table lladdr s = do {
     let item = item_from_index table (index_from_lladdr lladdr s);
     b \<leftarrow> nbr_get_bit (used_map s) table item s;
     Some (if b then item else None)
   }"

definition nbr_table_remove :: "nat option \<Rightarrow> nat option \<Rightarrow> 'd nbr_tables \<Rightarrow> (int \<times> 'd nbr_tables) option" where
  "nbr_table_remove table item s = do {
     (ret, m) \<leftarrow> nbr_set_bit (used_map s) table item False s;
     (_, l) \<leftarrow> nbr_set_bit (locked_map s) table item False s;
     Some (ret, s\<lparr> used_map := m, locked_map := l \<rparr>)
   }"

definition nbr_table_lock :: "nat option \<Rightarrow> nat option \<Rightarrow> 'd nbr_tables \<Rightarrow> (int \<times> 'd nbr_tables) option" where
  "nbr_table_lock table item s = do { (ret, l) \<leftarrow> nbr_set_bit (locked_map s) table item True s; Some (ret, s\<lparr> locked_map := l \<rparr>) }"

definition nbr_table_unlock :: "nat option \<Rightarrow> nat option \<Rightarrow> 'd nbr_tables \<Rightarrow> (int \<times> 'd nbr_tables) option" where
  "nbr_table_unlock table item s = do { (ret, l) \<leftarrow> nbr_set_bit (locked_map s) table item False s; Some (ret, s\<lparr> locked_map := l \<rparr>) }"

definition nbr_table_get_lladdr :: "nat option \<Rightarrow> nat option \<Rightarrow> 'd nbr_tables \<Rightarrow> linkaddr option" where
  "nbr_table_get_lladdr table item s = map_option (key_addr s) (key_from_item table item)"

definition nbr_table_update_lladdr :: "'d nbr_removed \<Rightarrow> linkaddr option \<Rightarrow> linkaddr \<Rightarrow> bool \<Rightarrow> 'd nbr_tables \<Rightarrow> (int \<times> 'd nbr_tables) option" where
  "nbr_table_update_lladdr removed old_addr new_addr remove_if_duplicate s =
     (let index = index_from_lladdr old_addr s; new_index = index_from_lladdr (Some new_addr) s in
      if index = - 1 then Some (0, s)
      else if new_index \<noteq> - 1 then
        (if new_index = index then Some (1, s)
         else if remove_if_duplicate then do { s \<leftarrow> remove_key removed (nat index) s; Some (0, s) }
         else Some (0, s))
      else Some (1, set_lladdr (nat index) new_addr s))"


subsection \<open>Tables as maps\<close>

text \<open>The neighbours a table uses, in the order of the keys, with their items.\<close>

definition uses :: "'d nbr_tables \<Rightarrow> nat \<Rightarrow> nat \<Rightarrow> bool" where
  "uses s t k \<longleftrightarrow> bit (used_map s ! k) (t_index s t)"

definition locks :: "'d nbr_tables \<Rightarrow> nat \<Rightarrow> nat \<Rightarrow> bool" where
  "locks s t k \<longleftrightarrow> bit (locked_map s ! k) (t_index s t)"

definition tab :: "'d nbr_tables \<Rightarrow> nat \<Rightarrow> (linkaddr \<rightharpoonup> 'd)" where
  "tab s t = map_of (map (\<lambda>k. (key_addr s k, t_data s t ! k)) (filter (uses s t) (nbr_table_keys s)))"

definition nt_wf :: "'d nbr_tables \<Rightarrow> bool" where
  "nt_wf s \<longleftrightarrow> length (used_map s) = NBR_TABLE_MAX_NEIGHBORS \<and> length (locked_map s) = NBR_TABLE_MAX_NEIGHBORS \<and> length (all_tables s) = MAX_NUM_TABLES \<and>
     memb_wf (neighbor_addr_mem s) \<and> memb_num (neighbor_addr_mem s) = NBR_TABLE_MAX_NEIGHBORS \<and>
     distinct (nbr_table_keys s) \<and> set (nbr_table_keys s) \<subseteq> memb_used (neighbor_addr_mem s) \<and>
     inj_on (key_addr s) (set (nbr_table_keys s)) \<and> (\<forall>k \<in> set (nbr_table_keys s). addr_wf (key_addr s k)) \<and>
     (\<forall>k < NBR_TABLE_MAX_NEIGHBORS. k \<notin> set (nbr_table_keys s) \<longrightarrow> used_map s ! k = 0) \<and>
     (\<forall>k < NBR_TABLE_MAX_NEIGHBORS. k \<notin> memb_used (neighbor_addr_mem s) \<longrightarrow> locked_map s ! k = 0)"

text \<open>A table that has an index and an array.\<close>

definition table_ok :: "'d nbr_tables \<Rightarrow> nat \<Rightarrow> bool" where
  "table_ok s t \<longleftrightarrow> t_index s t < MAX_NUM_TABLES \<and> length (t_data s t) = NBR_TABLE_MAX_NEIGHBORS"

lemma nt_wfD:
  assumes "nt_wf s"
  shows "length (used_map s) = 16" "length (locked_map s) = 16" "length (all_tables s) = 8" "memb_wf (neighbor_addr_mem s)"
    "memb_num (neighbor_addr_mem s) = 16" "length (m_mem (neighbor_addr_mem s)) = 16" "distinct (nbr_table_keys s)"
    "set (nbr_table_keys s) \<subseteq> memb_used (neighbor_addr_mem s)" "inj_on (key_addr s) (set (nbr_table_keys s))"
    "k \<in> set (nbr_table_keys s) \<Longrightarrow> addr_wf (key_addr s k)" "k \<in> set (nbr_table_keys s) \<Longrightarrow> k < 16"
    "k < 16 \<Longrightarrow> k \<notin> set (nbr_table_keys s) \<Longrightarrow> used_map s ! k = 0"
    "k < 16 \<Longrightarrow> k \<notin> memb_used (neighbor_addr_mem s) \<Longrightarrow> locked_map s ! k = 0"
proof -
  show w: "length (used_map s) = 16" "length (locked_map s) = 16" "length (all_tables s) = 8" "memb_wf (neighbor_addr_mem s)"
    "memb_num (neighbor_addr_mem s) = 16" "distinct (nbr_table_keys s)"
    "set (nbr_table_keys s) \<subseteq> memb_used (neighbor_addr_mem s)" "inj_on (key_addr s) (set (nbr_table_keys s))"
    "k \<in> set (nbr_table_keys s) \<Longrightarrow> addr_wf (key_addr s k)" "k < 16 \<Longrightarrow> k \<notin> set (nbr_table_keys s) \<Longrightarrow> used_map s ! k = 0"
    "k < 16 \<Longrightarrow> k \<notin> memb_used (neighbor_addr_mem s) \<Longrightarrow> locked_map s ! k = 0"
    using assms by (simp_all add: nt_wf_def)
  then show "length (m_mem (neighbor_addr_mem s)) = 16" by (simp add: memb_num_def memb_wf_def)
  show "k < 16" if "k \<in> set (nbr_table_keys s)" using that w(7) mb.used_bound [OF w(4)] w(5) by auto
qed

lemma bit_mask: "((b :: u8) AND 2 ^ i \<noteq> 0) = bit b i"
  using bit_iff_and_push_bit_not_eq_0 [of b i] by simp

lemma get_bit_used:
  assumes "nt_wf s" "table_ok s t" "k < 16"
  shows "nbr_get_bit (used_map s) (Some t) (Some k) s = Some (uses s t k)"
  using assms nt_wfD(1) [OF assms(1)] by (simp add: nbr_get_bit_def index_from_item_def nth_opt_def uses_def bit_mask table_ok_def)

lemma find_key:
  assumes "nt_wf s" "addr_wf a"
  shows "index_from_lladdr (Some a) s = index_from_key (find (\<lambda>k. key_addr s k = a) (nbr_table_keys s))"
proof -
  have "find (\<lambda>k. linkaddr_cmp a (key_addr s k)) (nbr_table_keys s) = find (\<lambda>k. key_addr s k = a) (nbr_table_keys s)"
    using linkaddr_cmp_eq [OF assms(2) nt_wfD(10) [OF assms(1)]] by (intro find_cong) auto
  then show ?thesis by (simp add: index_from_lladdr_def)
qed

lemma find_key_cases:
  assumes "nt_wf s" "addr_wf a"
  obtains (known) k where "k \<in> set (nbr_table_keys s)" "key_addr s k = a" "index_from_lladdr (Some a) s = int k"
  | (unknown) "a \<notin> key_addr s ` set (nbr_table_keys s)" "index_from_lladdr (Some a) s = - 1"
proof (cases "find (\<lambda>k. key_addr s k = a) (nbr_table_keys s)")
  case None
  then have "index_from_lladdr (Some a) s = - 1" "a \<notin> key_addr s ` set (nbr_table_keys s)"
    using find_key [OF assms] by (simp_all add: index_from_key_def) (auto simp: find_None_iff)
  then show ?thesis using unknown by blast
next
  case (Some k)
  then have "k \<in> set (nbr_table_keys s)" "key_addr s k = a" by (auto simp: find_Some_iff)
  then show ?thesis using known Some find_key [OF assms] by (simp add: index_from_key_def)
qed

lemma tab_key:
  assumes "nt_wf s" "k \<in> set (nbr_table_keys s)"
  shows "tab s t (key_addr s k) = (if uses s t k then Some (t_data s t ! k) else None)"
proof -
  let ?xs = "filter (uses s t) (nbr_table_keys s)"
  have d: "distinct (map fst (map (\<lambda>k. (key_addr s k, t_data s t ! k)) ?xs))"
    using nt_wfD(7,9) [OF assms(1)] by (auto simp: comp_def distinct_map intro: inj_on_subset)
  show ?thesis
  proof (cases "uses s t k")
    case True
    then show ?thesis using assms(2) d unfolding tab_def by (intro trans [OF map_of_is_SomeI [OF d]]) auto
  next
    case False
    have "key_addr s k \<notin> fst ` set (map (\<lambda>k. (key_addr s k, t_data s t ! k)) ?xs)"
      using False assms(2) inj_onD [OF nt_wfD(9) [OF assms(1)], of k] by auto
    then show ?thesis using False unfolding tab_def map_of_eq_None_iff [symmetric] by simp
  qed
qed

lemma tab_none: "a \<notin> key_addr s ` set (nbr_table_keys s) \<Longrightarrow> tab s t a = None"
  unfolding tab_def map_of_eq_None_iff by auto

lemma get_from_lladdr_ok:
  assumes "nt_wf s" "table_ok s t" "addr_wf a"
  shows "\<exists>r. nbr_table_get_from_lladdr (Some t) (Some a) s = Some r \<and> tab s t a = map_option (\<lambda>k. t_data s t ! k) r \<and>
    (\<forall>k. r = Some k \<longrightarrow> k \<in> set (nbr_table_keys s) \<and> key_addr s k = a \<and> uses s t k)"
proof (cases rule: find_key_cases [OF assms(1,3), case_names known unknown])
  case (known k)
  have "nbr_get_bit (used_map s) (Some t) (Some k) s = Some (uses s t k)" using get_bit_used [OF assms(1,2)] nt_wfD(11) [OF assms(1) known(1)] by blast
  then show ?thesis using known tab_key [OF assms(1) known(1), of t] by (simp add: nbr_table_get_from_lladdr_def item_from_index_def)
next
  case unknown
  then show ?thesis using tab_none [OF unknown(1)] by (simp add: nbr_table_get_from_lladdr_def item_from_index_def nbr_get_bit_def index_from_item_def)
qed


lemma tab_iff:
  assumes "nt_wf s"
  shows "tab s t a = Some d \<longleftrightarrow> (\<exists>k \<in> set (nbr_table_keys s). key_addr s k = a \<and> uses s t k \<and> t_data s t ! k = d)"
proof (cases "a \<in> key_addr s ` set (nbr_table_keys s)")
  case True
  then obtain k where k: "k \<in> set (nbr_table_keys s)" "a = key_addr s k" by blast
  have "l = k" if "l \<in> set (nbr_table_keys s)" "key_addr s l = a" for l using inj_onD [OF nt_wfD(9) [OF assms]] that k by blast
  then show ?thesis using tab_key [OF assms k(1), of t] k by auto
next
  case False
  then show ?thesis using tab_none [OF False] by auto
qed

lemma map_eqI: "(\<And>a d. m a = Some d \<longleftrightarrow> m' a = Some d) \<Longrightarrow> m = m'"
  by (rule ext, rule option.expand) (metis not_None_eq option.sel)+

subsection \<open>The neighbour that is replaced\<close>

text \<open>The number of tables that use a neighbour.\<close>

definition users :: "'d nbr_tables \<Rightarrow> nat \<Rightarrow> nat" where
  "users s k = card {i. bit (used_map s ! k) i}"

lemma bits_Suc: "{i. bit (n :: nat) i} = (if odd n then insert 0 (Suc ` {i. bit (n div 2) i}) else Suc ` {i. bit (n div 2) i})"
proof (rule set_eqI)
  fix i
  show "i \<in> {i. bit n i} \<longleftrightarrow> i \<in> (if odd n then insert 0 (Suc ` {i. bit (n div 2) i}) else Suc ` {i. bit (n div 2) i})"
    by (cases i) (auto simp: bit_0 bit_Suc)
qed

lemma count_used_card: "finite {i. bit n i} \<and> count_used n = card {i. bit n i}"
proof (induction n rule: count_used.induct)
  case (1 n)
  show ?case
  proof (cases "n = 0")
    case False
    then have f: "finite {i. bit (n div 2) i}" "count_used (n div 2) = card {i. bit (n div 2) i}" using 1 by (cases "n mod 2 = 1"; simp)+
    show ?thesis unfolding bits_Suc [of n] using False f
      by (subst count_used.simps) (simp add: card_image card_insert_if odd_iff_mod_2_eq_one image_iff)
  qed (simp add: count_used.simps)
qed

lemma arg_min_list_skip:
  "f y < f x \<Longrightarrow> arg_min_list f (x # y # zs) = arg_min_list f (y # zs)"
  "f x \<le> f y \<Longrightarrow> arg_min_list f (x # y # zs) = arg_min_list f (x # zs)" for f :: "'a \<Rightarrow> 'b :: linorder"
proof -
  show "arg_min_list f (x # y # zs) = arg_min_list f (y # zs)" if "f y < f x"
  proof -
    have "f (arg_min_list f (y # zs)) \<le> f y" by (cases zs) (auto simp: Let_def)
    then have "\<not> f x \<le> f (arg_min_list f (y # zs))" using that by simp
    then show ?thesis by (simp add: Let_def)
  qed
  show "arg_min_list f (x # y # zs) = arg_min_list f (x # zs)" if "f x \<le> f y"
    using that by (cases zs) (auto simp: Let_def)
qed

lemma arg_min_list_zero: "f x = (0 :: nat) \<Longrightarrow> arg_min_list f (x # xs) = x"
  by (cases xs) (auto simp: Let_def)

definition unlocked :: "'d nbr_tables \<Rightarrow> nat list" where
  "unlocked s = filter (\<lambda>k. locked_map s ! k = 0) (nbr_table_keys s)"

lemma least_used_arg_min:
  assumes "nt_wf s" "set ks \<subseteq> {..<16}"
  shows "least_used s ks (Some k) (users s k) = Some (Some (arg_min_list (users s) (k # filter (\<lambda>k. locked_map s ! k = 0) ks)))"
    "least_used s ks None 0 = Some (case filter (\<lambda>k. locked_map s ! k = 0) ks of [] \<Rightarrow> None | xs \<Rightarrow> Some (arg_min_list (users s) xs))"
proof -
  have c: "count_used (unat (used_map s ! k)) = users s k" for k using bit_imp_le_length by (auto simp: count_used_card users_def bit_unsigned_iff possible_bit_def intro!: arg_cong [of _ _ card])
  have a: "least_used s ls (Some k) (users s k) = Some (Some (arg_min_list (users s) (k # filter (\<lambda>k. locked_map s ! k = 0) ls)))"
    if "set ls \<subseteq> {..<16}" for ls k
    using that
  proof (induction ls arbitrary: k)
    case (Cons y ls)
    then show ?case using nt_wfD(1,2) [OF assms(1)] arg_min_list_skip [of "users s"] arg_min_list_zero [of "users s" y]
      by (auto simp: nth_opt_def c Let_def not_less)
  qed simp
  show "least_used s ks (Some k) (users s k) = Some (Some (arg_min_list (users s) (k # filter (\<lambda>k. locked_map s ! k = 0) ks)))" by (rule a [OF assms(2)])
  show "least_used s ks None 0 = Some (case filter (\<lambda>k. locked_map s ! k = 0) ks of [] \<Rightarrow> None | xs \<Rightarrow> Some (arg_min_list (users s) xs))"
    using assms(2)
  proof (induction ks)
    case (Cons y ks)
    then show ?case using nt_wfD(1,2) [OF assms(1)] a [of ks y] arg_min_list_zero [of "users s" y]
      by (auto simp: nth_opt_def c Let_def)
  qed simp
qed


lemma least_used_ok:
  assumes "nt_wf s"
  shows "least_used s (nbr_table_keys s) None 0 = Some (case unlocked s of [] \<Rightarrow> None | xs \<Rightarrow> Some (arg_min_list (users s) xs))"
  using least_used_arg_min(2) [OF assms, of "nbr_table_keys s"] nt_wfD(11) [OF assms] unfolding unlocked_def by blast

text \<open>Removing a neighbour from the list of keys, while the callbacks leave the tables alone.\<close>

definition evict :: "nat \<Rightarrow> 'd nbr_tables \<Rightarrow> 'd nbr_tables" where
  "evict k s = s\<lparr> used_map := (used_map s)[k := 0], nbr_table_keys := remove1 k (nbr_table_keys s) \<rparr>"

lemma remove_key_ok:
  assumes "nt_wf s" "k \<in> set (nbr_table_keys s)" "\<And>t i s. removed t i s = s"
  shows "remove_key removed k s = Some (evict k s)"
proof -
  have k: "k < 16" using nt_wfD(11) [OF assms(1,2)] .
  have "call_removed removed k ts s = Some s" for ts
  proof (induction ts)
    case (Cons t ts)
    have "\<exists>b. nbr_get_bit (used_map s) (Some u) (item_from_key (Some u) (Some k)) s = Some b" for u
      using k nt_wfD(1) [OF assms(1)] by (simp add: nbr_get_bit_def item_from_key_def item_from_index_def index_from_key_def index_from_item_def nth_opt_def)
    then show ?case using Cons assms(3) by (cases t) (auto simp: Let_def, metis bind.bind_lunit)
  qed simp
  then show ?thesis using k nt_wfD(1) [OF assms(1)] by (simp add: remove_key_def upd_opt_def evict_def)
qed

lemma evict_ok:
  assumes "nt_wf s" "k \<in> set (nbr_table_keys s)"
  shows "nt_wf (evict k s)" "tab (evict k s) t = (tab s t)(key_addr s k := None)" "set (nbr_table_keys (evict k s)) = set (nbr_table_keys s) - {k}"
    "key_addr (evict k s) = key_addr s" "neighbor_addr_mem (evict k s) = neighbor_addr_mem s" "used_map (evict k s) ! k = 0" "table_ok (evict k s) t = table_ok s t"
    "t_index (evict k s) = t_index s" "locked_map (evict k s) = locked_map s"
proof -
  let ?s = "evict k s"
  note d = nt_wfD [OF assms(1)]
  have k: "k < 16" using d(11) assms(2) by blast
  show st: "set (nbr_table_keys ?s) = set (nbr_table_keys s) - {k}" using d(7) by (simp add: evict_def set_remove1_eq)
  show ka: "key_addr ?s = key_addr s" by (simp add: evict_def key_addr_def fun_eq_iff)
  show mem: "neighbor_addr_mem ?s = neighbor_addr_mem s" and idx: "t_index ?s = t_index s" and "table_ok ?s t = table_ok s t" "locked_map ?s = locked_map s"
    by (simp_all add: evict_def table_ok_def)
  show u: "used_map ?s ! k = 0" using d(1) k by (simp add: evict_def)
  have um: "used_map ?s ! i = (if i = k then 0 else used_map s ! i)" for i using d(1) k by (simp add: evict_def)
  show w: "nt_wf ?s" using assms(1) d(7,8,9) unfolding nt_wf_def st ka mem um
    by (auto simp: evict_def inj_on_diff distinct_remove1)
  show "tab ?s t = (tab s t)(key_addr s k := None)"
  proof (rule map_eqI)
    fix a x
    have "uses ?s t i \<longleftrightarrow> i \<noteq> k \<and> uses s t i" for i by (simp add: uses_def um idx)
    moreover have "t_data ?s = t_data s" by (simp add: evict_def)
    ultimately show "tab ?s t a = Some x \<longleftrightarrow> ((tab s t)(key_addr s k := None)) a = Some x"
      using inj_onD [OF d(9)] assms(2) unfolding tab_iff [OF w] ka st by (auto simp: tab_iff [OF assms(1)])
  qed
qed

text \<open>A new key, and the use of a key by a table.\<close>

definition new_key :: "nat \<Rightarrow> linkaddr \<Rightarrow> 'd nbr_tables \<Rightarrow> 'd nbr_tables" where
  "new_key k a s = set_lladdr k a (s\<lparr> nbr_table_keys := remove1 k (nbr_table_keys s) @ [k] \<rparr>)"

definition mark :: "nat \<Rightarrow> nat \<Rightarrow> 'd \<Rightarrow> 'd nbr_tables \<Rightarrow> 'd nbr_tables" where
  "mark t k z s = s\<lparr> t_data := (t_data s)(t := (t_data s t)[k := z]), used_map := (used_map s)[k := used_map s ! k OR push_bit (t_index s t) 1] \<rparr>"

lemma new_key_ok:
  assumes w: "nt_wf s" and k: "k \<in> memb_used (neighbor_addr_mem s)" "k \<notin> set (nbr_table_keys s)" and a: "addr_wf a" "a \<notin> key_addr s ` set (nbr_table_keys s)"
  shows "nt_wf (new_key k a s)" "tab (new_key k a s) t = tab s t" "k \<in> set (nbr_table_keys (new_key k a s))" "key_addr (new_key k a s) k = a"
    "table_ok (new_key k a s) t = table_ok s t" "t_index (new_key k a s) = t_index s"
proof -
  let ?s = "new_key k a s"
  note d = nt_wfD [OF w]
  have k16: "k < 16" using mb.used_bound [OF d(4)] k(1) d(5) by auto
  have ks: "nbr_table_keys ?s = nbr_table_keys s @ [k]" using k(2) by (simp add: new_key_def set_lladdr_def remove1_idem)
  have ka: "key_addr ?s i = (if i = k then a else key_addr s i)" for i using k16 d(6) by (simp add: new_key_def set_lladdr_def key_addr_def)
  have f: "used_map ?s = used_map s" "locked_map ?s = locked_map s" "all_tables ?s = all_tables s" "memb_used (neighbor_addr_mem ?s) = memb_used (neighbor_addr_mem s)"
    "memb_wf (neighbor_addr_mem ?s) = memb_wf (neighbor_addr_mem s)" "memb_num (neighbor_addr_mem ?s) = memb_num (neighbor_addr_mem s)" "t_index ?s = t_index s" "t_data ?s = t_data s"
    by (simp_all add: new_key_def set_lladdr_def)
  have "inj_on (key_addr ?s) (insert k (set (nbr_table_keys s)))" using d(9) a(2) k(2) by (auto simp: inj_on_def ka)
  then show nw: "nt_wf ?s" using w k a(1) unfolding nt_wf_def f ks by (auto simp: ka)
  show "k \<in> set (nbr_table_keys ?s)" "key_addr ?s k = a" "table_ok ?s t = table_ok s t" "t_index ?s = t_index s" using ks ka f by (simp_all add: table_ok_def)
  have "\<not> uses s t k" using d(12) [OF k16 k(2)] by (simp add: uses_def)
  moreover have "uses ?s t = uses s t" by (simp add: uses_def f fun_eq_iff)
  ultimately show "tab ?s t = tab s t" unfolding tab_iff [OF nw] using k(2)
    by (intro map_eqI) (auto simp: tab_iff [OF nw] tab_iff [OF w] ks ka f)
qed


lemma mark_table_ok [simp]: "table_ok (mark t k z s) u = table_ok s u"
  by (simp add: mark_def table_ok_def)

lemma mark_ok:
  assumes w: "nt_wf s" and t: "table_ok s t" and k: "k \<in> set (nbr_table_keys s)"
  shows "nt_wf (mark t k z s)" "tab (mark t k z s) t = (tab s t)(key_addr s k \<mapsto> z)" "t_index s u \<noteq> t_index s t \<Longrightarrow> tab (mark t k z s) u = tab s u"
proof -
  let ?s = "mark t k z s"
  note d = nt_wfD [OF w]
  have k16: "k < 16" using d(11) k by blast
  have f: "locked_map ?s = locked_map s" "all_tables ?s = all_tables s" "neighbor_addr_mem ?s = neighbor_addr_mem s" "t_index ?s = t_index s" "nbr_table_keys ?s = nbr_table_keys s"
    "length (used_map ?s) = length (used_map s)" "key_addr ?s = key_addr s" by (simp_all add: mark_def key_addr_def fun_eq_iff)
  have um: "used_map ?s ! i = (if i = k then used_map s ! k OR push_bit (t_index s t) 1 else used_map s ! i)" for i using d(1) k16 by (simp add: mark_def)
  have us: "uses ?s v i \<longleftrightarrow> uses s v i \<or> i = k \<and> t_index s v = t_index s t" for v i
    using t by (auto simp: uses_def um f bit_or_iff bit_exp_iff table_ok_def possible_bit_def)
  show nw: "nt_wf ?s" using w k unfolding nt_wf_def f um by auto
  have dt: "t_data ?s t ! i = (if i = k then z else t_data s t ! i)" for i using t k16 by (simp add: mark_def table_ok_def)
  show "tab ?s t = (tab s t)(key_addr s k \<mapsto> z)"
  proof
    fix a
    show "tab ?s t a = ((tab s t)(key_addr s k \<mapsto> z)) a"
    proof (cases "a \<in> key_addr s ` set (nbr_table_keys s)")
      case True
      then obtain i where i: "i \<in> set (nbr_table_keys s)" "a = key_addr s i" by blast
      have "tab ?s t a = (if uses ?s t i then Some (t_data ?s t ! i) else None)" using tab_key [OF nw, of i t] i f by simp
      moreover have "tab s t a = (if uses s t i then Some (t_data s t ! i) else None)" using tab_key [OF w i(1)] i(2) by simp
      moreover have "a = key_addr s k \<longleftrightarrow> i = k" using inj_onD [OF d(9)] i k by blast
      ultimately show ?thesis by (simp add: us dt)
    next
      case False
      then show ?thesis using k tab_none [of a s t] tab_none [of a ?s t] f by auto
    qed
  qed
  show "tab ?s u = tab s u" if "t_index s u \<noteq> t_index s t"
  proof -
    have "t_data ?s u = t_data s u" using that by (auto simp: mark_def)
    then show ?thesis using that by (intro map_eqI) (simp add: tab_iff [OF nw] tab_iff [OF w] f us)
  qed
qed

subsection \<open>The operations\<close>

text \<open>The neighbour that an address replaces.\<close>

definition victim :: "linkaddr \<Rightarrow> 'd nbr_tables \<Rightarrow> nat option" where
  "victim a s =
     (if a \<in> key_addr s ` set (nbr_table_keys s) \<or> memb_used (neighbor_addr_mem s) \<noteq> {..<NBR_TABLE_MAX_NEIGHBORS} \<or> unlocked s = [] then None
      else Some (arg_min_list (users s) (unlocked s)))"

definition has_room :: "linkaddr \<Rightarrow> 'd nbr_tables \<Rightarrow> bool" where
  "has_room a s \<longleftrightarrow> a \<in> key_addr s ` set (nbr_table_keys s) \<or> memb_used (neighbor_addr_mem s) \<noteq> {..<NBR_TABLE_MAX_NEIGHBORS} \<or> unlocked s \<noteq> []"

definition without :: "nat option \<Rightarrow> 'd nbr_tables \<Rightarrow> 'd nbr_tables" where
  "without v s = (case v of None \<Rightarrow> s | Some k \<Rightarrow> evict k s)"

lemma add_known:
  assumes w: "nt_wf s" "table_ok s t" "addr_wf a" "k \<in> set (nbr_table_keys s)" "key_addr s k = a" "index_from_lladdr (Some a) s = int k"
  shows "nbr_table_add_lladdr removed z (Some t) (Some a) s = Some (Some k, mark t k z s)"
  using assms nt_wfD(1) [OF w(1)] nt_wfD(11) [OF w(1,4)]
  by (simp add: nbr_table_add_lladdr_def item_from_index_def upd_opt_def table_ok_def nbr_set_bit_def index_from_item_def nth_opt_def mark_def)

lemma add_unknown:
  assumes w: "nt_wf s" "table_ok s t" "addr_wf a" "index_from_lladdr (Some a) s = - 1" and al: "nbr_table_allocate removed s = Some (Some k, s1)"
    and s1: "nt_wf s1" "table_ok s1 t" "k \<in> memb_used (neighbor_addr_mem s1)" "k \<notin> set (nbr_table_keys s1)" "a \<notin> key_addr s1 ` set (nbr_table_keys s1)"
  shows "nbr_table_add_lladdr removed z (Some t) (Some a) s = Some (Some k, mark t k z (new_key k a s1))"
proof -
  note n = new_key_ok [OF s1(1,3,4) w(3) s1(5)]
  have "k < 16" using nt_wfD(11) [OF n(1,3)] .
  then show ?thesis using w(4) al n(5) [of t] s1(2) nt_wfD(1) [OF n(1)] unfolding new_key_def [symmetric]
    by (simp add: nbr_table_add_lladdr_def item_from_index_def index_from_key_def upd_opt_def table_ok_def nbr_set_bit_def index_from_item_def nth_opt_def mark_def new_key_def [symmetric])
qed

text \<open>The result of an allocation: a free block outside the list of keys, if there is room.\<close>

definition allocated :: "linkaddr \<Rightarrow> 'd nbr_tables \<Rightarrow> nat option \<Rightarrow> 'd nbr_tables \<Rightarrow> bool" where
  "allocated a s k s1 \<longleftrightarrow> (k \<noteq> None \<longleftrightarrow> has_room a s) \<and> (k = None \<longrightarrow> s1 = s) \<and>
    (\<forall>i. k = Some i \<longrightarrow> nt_wf s1 \<and> i \<in> memb_used (neighbor_addr_mem s1) \<and> i \<notin> set (nbr_table_keys s1) \<and>
      (\<forall>t. table_ok s1 t = table_ok s t \<and> tab s1 t = tab (without (victim a s) s) t) \<and> t_index s1 = t_index s \<and> key_addr s1 ` set (nbr_table_keys s1) \<subseteq> key_addr s ` set (nbr_table_keys s))"

lemma allocate_ok:
  assumes w: "nt_wf s" and r: "\<And>t i s. removed t i s = s" and a: "a \<notin> key_addr s ` set (nbr_table_keys s)"
  shows "\<exists>k s1. nbr_table_allocate removed s = Some (k, s1) \<and> allocated a s k s1"
proof (cases "memb_alloc (neighbor_addr_mem s)")
  case (Pair p m)
  note d = nt_wfD [OF w]
  show ?thesis
  proof (cases p)
    case (Some k)
    have al: "memb_alloc (neighbor_addr_mem s) = (Some k, m)" using Pair Some by simp
    note ad = mb.allocD [OF d(4) al]
    let ?s = "s\<lparr> neighbor_addr_mem := m \<rparr>"
    have ka: "key_addr ?s = key_addr s" using ad(6) by (simp add: key_addr_def fun_eq_iff)
    have nw: "nt_wf ?s" using w ad unfolding nt_wf_def ka by auto
    have room: "memb_used (neighbor_addr_mem s) \<noteq> {..<NBR_TABLE_MAX_NEIGHBORS}" using ad(1,2) d(5) by auto
    have "tab ?s t = tab s t" for t by (simp add: tab_def ka uses_def [abs_def])
    then show ?thesis using al ad(2,3) d(8) nw ka room
      by (auto simp: nbr_table_allocate_def allocated_def has_room_def victim_def without_def table_ok_def)
  next
    case None
    have m: "m = neighbor_addr_mem s" "memb_used (neighbor_addr_mem s) = {..<NBR_TABLE_MAX_NEIGHBORS}"
      using mb.allocD_None [OF d(4)] Pair None d(5) by auto
    have al: "nbr_table_allocate removed s = (case unlocked s of [] \<Rightarrow> Some (None, s) | x # xs \<Rightarrow>
        do { s' \<leftarrow> remove_key removed (arg_min_list (users s) (x # xs)) s; Some (Some (arg_min_list (users s) (x # xs)), s') })"
      using Pair None m(1) least_used_ok [OF w] by (simp add: nbr_table_allocate_def split: list.split)
    show ?thesis
    proof (cases "unlocked s")
      case Nil
      then show ?thesis using al m(2) a by (simp add: allocated_def has_room_def)
    next
      case (Cons x xs)
      let ?v = "arg_min_list (users s) (unlocked s)"
      have "?v \<in> set (unlocked s)" using arg_min_list_in [of "unlocked s" "users s"] Cons by simp
      then have v: "?v \<in> set (nbr_table_keys s)" by (simp add: unlocked_def)
      note ev = evict_ok [OF w v]
      have "nbr_table_allocate removed s = Some (Some ?v, evict ?v s)" using al remove_key_ok [OF w v r] Cons by simp
      moreover have "victim a s = Some ?v" "has_room a s" using Cons m(2) a by (simp_all add: victim_def has_room_def)
      ultimately show ?thesis using ev v d(8) by (auto simp: allocated_def without_def)
    qed
  qed
qed

lemma add_lladdr_ok:
  assumes w: "nt_wf s" "table_ok s t" "addr_wf a" and r: "\<And>t i s. removed t i s = s"
  shows "\<exists>k s'. nbr_table_add_lladdr removed z (Some t) (Some a) s = Some (k, s') \<and> (k \<noteq> None \<longleftrightarrow> has_room a s) \<and> (k = None \<longrightarrow> s' = s) \<and>
    (\<forall>i. k = Some i \<longrightarrow> nt_wf s' \<and> table_ok s' t \<and> i \<in> set (nbr_table_keys s') \<and> key_addr s' i = a \<and> tab s' t = (tab (without (victim a s) s) t)(a \<mapsto> z) \<and>
      (\<forall>u. t_index s u \<noteq> t_index s t \<longrightarrow> tab s' u = tab (without (victim a s) s) u))"
proof (cases rule: find_key_cases [OF w(1,3), case_names known unknown])
  case (known k)
  have "a \<in> key_addr s ` set (nbr_table_keys s)" using known by blast
  then have v: "victim a s = None" "has_room a s" by (simp_all add: victim_def has_room_def)
  have f: "nbr_table_keys (mark t k z s) = nbr_table_keys s" "key_addr (mark t k z s) = key_addr s" by (simp_all add: mark_def key_addr_def fun_eq_iff)
  show ?thesis unfolding add_known [OF w known] using mark_ok [OF w(1,2) known(1)] known v f w(2) by (auto simp: without_def)
next
  case unknown
  obtain k s1 where al: "nbr_table_allocate removed s = Some (k, s1)" "allocated a s k s1"
    using allocate_ok [where removed = removed and a = a, OF w(1) r unknown(1)] by blast
  note al = al(1) al(2) [unfolded allocated_def]
  show ?thesis
  proof (cases k)
    case None
    then show ?thesis using al unknown(2) by (simp add: nbr_table_add_lladdr_def)
  next
    case (Some i)
    have e: "nt_wf s1 \<and> i \<in> memb_used (neighbor_addr_mem s1) \<and> i \<notin> set (nbr_table_keys s1) \<and>
      (\<forall>t. table_ok s1 t = table_ok s t \<and> tab s1 t = tab (without (victim a s) s) t) \<and> t_index s1 = t_index s \<and> key_addr s1 ` set (nbr_table_keys s1) \<subseteq> key_addr s ` set (nbr_table_keys s)"
      using al(2) Some by simp
    have s1: "nt_wf s1" "table_ok s1 t" "i \<in> memb_used (neighbor_addr_mem s1)" "i \<notin> set (nbr_table_keys s1)" "a \<notin> key_addr s1 ` set (nbr_table_keys s1)"
      "t_index s1 = t_index s" using e w(2) unknown(1) by blast+
    note n = new_key_ok [OF s1(1,3,4) w(3) s1(5)]
    have tk: "table_ok (new_key i a s1) t" using n(5) s1(2) by simp
    note m = mark_ok [OF n(1) tk n(3)]
    have f: "nbr_table_keys (mark t i z (new_key i a s1)) = nbr_table_keys (new_key i a s1)" "key_addr (mark t i z (new_key i a s1)) = key_addr (new_key i a s1)"
      by (simp_all add: mark_def key_addr_def fun_eq_iff)
    have "nbr_table_add_lladdr removed z (Some t) (Some a) s = Some (Some i, mark t i z (new_key i a s1))"
      using add_unknown [OF w unknown(2) _ s1(1-5)] al(1) Some by simp
    then show ?thesis using Some al(2) m n(2-4,6) e f s1(6) tk by auto
  qed
qed


text \<open>A table that no longer uses a neighbour.\<close>

definition unmark :: "nat \<Rightarrow> nat \<Rightarrow> 'd nbr_tables \<Rightarrow> 'd nbr_tables" where
  "unmark t k s = s\<lparr> used_map := (used_map s)[k := used_map s ! k AND NOT (push_bit (t_index s t) 1)],
     locked_map := (locked_map s)[k := locked_map s ! k AND NOT (push_bit (t_index s t) 1)] \<rparr>"

lemma remove_unmark:
  assumes "nt_wf s" "k < 16"
  shows "nbr_table_remove (Some t) (Some k) s = Some (1, unmark t k s)"
  using assms(2) nt_wfD(1,2) [OF assms(1)] by (simp add: nbr_table_remove_def nbr_set_bit_def index_from_item_def nth_opt_def upd_opt_def unmark_def)

lemma unmark_ok:
  assumes w: "nt_wf s" and t: "table_ok s t" and k: "k \<in> set (nbr_table_keys s)"
  shows "nt_wf (unmark t k s)" "tab (unmark t k s) t = (tab s t)(key_addr s k := None)" "t_index s u \<noteq> t_index s t \<Longrightarrow> tab (unmark t k s) u = tab s u"
    "uses (unmark t k s) v i \<longleftrightarrow> uses s v i \<and> \<not> (i = k \<and> t_index s v = t_index s t)" "nbr_table_keys (unmark t k s) = nbr_table_keys s" "table_ok (unmark t k s) v = table_ok s v"
proof -
  let ?s = "unmark t k s"
  note d = nt_wfD [OF w]
  have k16: "k < 16" using d(11) k by blast
  show ks: "nbr_table_keys ?s = nbr_table_keys s" and "table_ok ?s v = table_ok s v" by (simp_all add: unmark_def table_ok_def)
  have f: "all_tables ?s = all_tables s" "neighbor_addr_mem ?s = neighbor_addr_mem s" "t_index ?s = t_index s"
    "length (used_map ?s) = length (used_map s)" "length (locked_map ?s) = length (locked_map s)" "key_addr ?s = key_addr s" "t_data ?s = t_data s"
    by (simp_all add: unmark_def key_addr_def fun_eq_iff)
  have um: "used_map ?s ! i = (if i = k then used_map s ! k AND NOT (push_bit (t_index s t) 1) else used_map s ! i)"
    "locked_map ?s ! i = (if i = k then locked_map s ! k AND NOT (push_bit (t_index s t) 1) else locked_map s ! i)" for i using d(1,2) k16 by (simp_all add: unmark_def)
  have us: "uses ?s v i \<longleftrightarrow> uses s v i \<and> \<not> (i = k \<and> t_index s v = t_index s t)" for v i
    using t by (auto simp: uses_def um f bit_and_iff bit_not_iff bit_exp_iff table_ok_def possible_bit_def dest: bit_imp_le_length)
  then show "uses ?s v i \<longleftrightarrow> uses s v i \<and> \<not> (i = k \<and> t_index s v = t_index s t)" .
  have "k \<in> memb_used (neighbor_addr_mem s)" using k d(8) by blast
  then show nw: "nt_wf ?s" using w k unfolding nt_wf_def f um ks by auto
  show "tab ?s t = (tab s t)(key_addr s k := None)"
    using k inj_onD [OF d(9)] by (intro map_eqI) (auto simp: tab_iff [OF nw] tab_iff [OF w] f us ks)
  show "tab ?s u = tab s u" if "t_index s u \<noteq> t_index s t"
    using that by (intro map_eqI) (simp add: tab_iff [OF nw] tab_iff [OF w] f us ks)
qed

subsection \<open>Walking through a table\<close>

lemma next_ok:
  assumes "nt_wf s" "table_ok s t" "nbr_table_keys s = xs @ k # ys"
  shows "nbr_table_next (Some t) (Some k) s = Some (find (uses s t) ys)"
  using assms(3)
proof (induction ys arbitrary: xs k)
  case Nil
  have "k \<notin> set xs" using nt_wfD(7) [OF assms(1)] Nil by auto
  then have "item_after k (xs @ [k]) = None" by (induction xs) auto
  then show ?case using Nil by (subst nbr_table_next.simps)
      (simp add: key_from_item_def index_from_item_def key_from_index_def key_item_next_def item_from_key_def index_from_key_def item_from_index_def)
next
  case (Cons y ys)
  have "k \<notin> set xs" using nt_wfD(7) [OF assms(1)] Cons.prems by auto
  then have i: "item_after k (xs @ k # y # ys) = Some y" by (induction xs) auto
  have y: "y < 16" using nt_wfD(11) [OF assms(1)] Cons.prems by auto
  have "nbr_table_next (Some t) (Some k) s = (if uses s t y then Some (Some y) else nbr_table_next (Some t) (Some y) s)"
    using Cons.prems i get_bit_used [OF assms(1,2) y] by (subst nbr_table_next.simps)
      (simp add: key_from_item_def index_from_item_def key_from_index_def key_item_next_def item_from_key_def index_from_key_def item_from_index_def)
  then show ?case using Cons.IH [of "xs @ [k]" y] Cons.prems by simp
qed

lemma head_ok:
  assumes "nt_wf s" "table_ok s t"
  shows "nbr_table_head (Some t) s = Some (find (uses s t) (nbr_table_keys s))"
proof (cases "nbr_table_keys s")
  case Nil
  have "nbr_table_next (Some t) None s = Some None" by (subst nbr_table_next.simps)
      (simp add: key_from_item_def index_from_item_def key_from_index_def key_item_next_def item_from_key_def index_from_key_def item_from_index_def)
  then show ?thesis using Nil
    by (simp add: nbr_table_head_def item_from_key_def index_from_key_def item_from_index_def nbr_get_bit_def index_from_item_def)
next
  case (Cons k ks)
  have k: "k < 16" using nt_wfD(11) [OF assms(1)] Cons by auto
  show ?thesis using Cons next_ok [OF assms, of "[]" k ks] get_bit_used [OF assms k]
    by (simp add: nbr_table_head_def item_from_key_def index_from_key_def item_from_index_def)
qed

text \<open>
  A loop over a table with \<open>nbr_table_head\<close> and \<open>nbr_table_next\<close> whose body changes only the entry it visits: the entries are visited once
  each, in the order of the keys, and each entry of the map changes as the body says.
\<close>

partial_function (option) table_loop :: "nat \<Rightarrow> (nat \<Rightarrow> 'd nbr_tables \<Rightarrow> 'd nbr_tables option) \<Rightarrow> nat option \<Rightarrow> 'd nbr_tables \<Rightarrow> 'd nbr_tables option" where
  "table_loop t body item s =
     (case item of
        None \<Rightarrow> Some s
      | Some i \<Rightarrow> do {
          s \<leftarrow> body i s;
          item \<leftarrow> nbr_table_next (Some t) (Some i) s;
          table_loop t body item s
        })"

locale table_walk =
  fixes t :: nat
    and body :: "nat \<Rightarrow> 'd nbr_tables \<Rightarrow> 'd nbr_tables option"
    and h :: "'d \<Rightarrow> 'd option"
  assumes body_ok: "nt_wf s \<Longrightarrow> table_ok s t \<Longrightarrow> k \<in> set (nbr_table_keys s) \<Longrightarrow> uses s t k \<Longrightarrow> \<exists>s'. body k s = Some s' \<and> nt_wf s' \<and> table_ok s' t \<and>
      nbr_table_keys s' = nbr_table_keys s \<and> key_addr s' = key_addr s \<and> (\<forall>i. i \<noteq> k \<longrightarrow> uses s' t i = uses s t i) \<and>
      tab s' t = (tab s t)(key_addr s k := h (t_data s t ! k))"
begin

lemma loop_ok:
  assumes "nt_wf s" "table_ok s t" "nbr_table_keys s = xs @ ys"
  shows "\<exists>s'. table_loop t body (find (uses s t) ys) s = Some s' \<and> nt_wf s' \<and> table_ok s' t \<and>
    tab s' t = (\<lambda>a. if a \<in> key_addr s ` set ys then Option.bind (tab s t a) h else tab s t a)"
  using assms
proof (induction ys arbitrary: xs s)
  case Nil
  then show ?case by (subst table_loop.simps) simp
next
  case (Cons y ys)
  have y: "y \<in> set (nbr_table_keys s)" "y \<notin> set ys" "set ys \<subseteq> set (nbr_table_keys s)" using Cons.prems(3) nt_wfD(7) [OF Cons.prems(1)] by auto
  have ky: "key_addr s y \<notin> key_addr s ` set ys" using y inj_onD [OF nt_wfD(9) [OF Cons.prems(1)], of y] by blast
  show ?case
  proof (cases "uses s t y")
    case False
    have "tab s t (key_addr s y) = None" using tab_key [OF Cons.prems(1) y(1)] False by simp
    moreover obtain s' where "table_loop t body (find (uses s t) ys) s = Some s'" "nt_wf s'" "table_ok s' t"
      "tab s' t = (\<lambda>a. if a \<in> key_addr s ` set ys then Option.bind (tab s t a) h else tab s t a)"
      using Cons.IH [of s "xs @ [y]"] Cons.prems by auto
    ultimately show ?thesis using False by (auto simp: fun_eq_iff)
  next
    case True
    obtain s1 where s1: "body y s = Some s1" "nt_wf s1" "table_ok s1 t" "nbr_table_keys s1 = nbr_table_keys s" "key_addr s1 = key_addr s"
      "\<And>i. i \<noteq> y \<Longrightarrow> uses s1 t i = uses s t i" "tab s1 t = (tab s t)(key_addr s y := h (t_data s t ! y))"
      using body_ok [OF Cons.prems(1,2) y(1) True] by blast
    have ty: "tab s t (key_addr s y) = Some (t_data s t ! y)" using tab_key [OF Cons.prems(1) y(1)] True by simp
    obtain s' where s': "table_loop t body (find (uses s1 t) ys) s1 = Some s'" "nt_wf s'" "table_ok s' t"
      "tab s' t = (\<lambda>a. if a \<in> key_addr s ` set ys then Option.bind (tab s1 t a) h else tab s1 t a)"
      using Cons.IH [OF s1(2,3), of "xs @ [y]"] Cons.prems(3) s1(4,5) by auto
    have "table_loop t body (find (uses s t) (y # ys)) s = Some s'"
      using s1(1) s'(1) next_ok [OF s1(2,3), of xs y ys] Cons.prems(3) s1(4) True by (subst table_loop.simps) simp
    moreover have "tab s' t = (\<lambda>a. if a \<in> key_addr s ` set (y # ys) then Option.bind (tab s t a) h else tab s t a)"
      using s'(4) s1(7) ty ky by (auto simp: fun_eq_iff)
    ultimately show ?thesis using s'(2,3) by blast
  qed
qed

lemma walk_ok:
  assumes "nt_wf s" "table_ok s t"
  shows "\<exists>i s'. nbr_table_head (Some t) s = Some i \<and> table_loop t body i s = Some s' \<and> nt_wf s' \<and> table_ok s' t \<and> tab s' t = (\<lambda>a. Option.bind (tab s t a) h)"
proof -
  have "(\<lambda>a. if a \<in> key_addr s ` set (nbr_table_keys s) then Option.bind (tab s t a) h else tab s t a) = (\<lambda>a. Option.bind (tab s t a) h)"
    using tab_none [of _ s t] by (auto simp: fun_eq_iff)
  then show ?thesis using head_ok [OF assms] loop_ok [OF assms, of "[]"] by auto
qed

end

subsection \<open>The tables are maps\<close>

lemma victim_least:
  assumes "nt_wf s" "victim a s = Some v"
  shows "v \<in> set (nbr_table_keys s)" "locked_map s ! v = 0" "k \<in> set (nbr_table_keys s) \<Longrightarrow> locked_map s ! k = 0 \<Longrightarrow> users s v \<le> users s k"
proof -
  have u: "unlocked s \<noteq> []" "v = arg_min_list (users s) (unlocked s)" using assms(2) by (auto simp: victim_def split: if_splits)
  have "v \<in> set (unlocked s)" using arg_min_list_in [OF u(1)] u(2) by simp
  then show "v \<in> set (nbr_table_keys s)" "locked_map s ! v = 0" by (simp_all add: unlocked_def)
  show "users s v \<le> users s k" if "k \<in> set (nbr_table_keys s)" "locked_map s ! k = 0"
    using that f_arg_min_list_f [OF u(1), of "users s"] u(2) by (simp add: unlocked_def)
qed

text \<open>
  C39. Every neighbour table is a map from link-layer addresses to items, on a pool that all tables share. Looking up an address gives its item; adding one
  enters a zero item and succeeds exactly when the address is known, the pool has room or some neighbour is not locked; removing one deletes it. The other
  tables change only when the pool is full: then one neighbour disappears from all tables, and it is one that no table locks and that no unlocked neighbour
  undercuts in the number of tables that use it.
\<close>

theorem nbr_table_correct:
  assumes "nt_wf s" "table_ok s t" "addr_wf a" "\<forall>u i x. removed u i x = x"
  shows "(\<exists>r. nbr_table_get_from_lladdr (Some t) (Some a) s = Some r \<and> map_option (\<lambda>k. t_data s t ! k) r = tab s t a) \<and>
    (\<exists>r s'. nbr_table_add_lladdr removed z (Some t) (Some a) s = Some (r, s') \<and> nt_wf s' \<and> (r \<noteq> None \<longleftrightarrow> has_room a s) \<and>
      (if r = None then s' = s
       else tab s' t = (tab (without (victim a s) s) t)(a \<mapsto> z) \<and> (\<forall>u. t_index s u \<noteq> t_index s t \<longrightarrow> tab s' u = tab (without (victim a s) s) u))) \<and>
    (\<forall>k. nbr_table_get_from_lladdr (Some t) (Some a) s = Some (Some k) \<longrightarrow> (\<exists>s'. nbr_table_remove (Some t) (Some k) s = Some (1, s') \<and> nt_wf s' \<and>
      tab s' t = (tab s t)(a := None) \<and> (\<forall>u. t_index s u \<noteq> t_index s t \<longrightarrow> tab s' u = tab s u))) \<and>
    (\<forall>v. victim a s = Some v \<longrightarrow> locked_map s ! v = 0 \<and> (\<forall>k \<in> set (nbr_table_keys s). locked_map s ! k = 0 \<longrightarrow> users s v \<le> users s k) \<and>
      (\<forall>u. tab (without (Some v) s) u = (tab s u)(key_addr s v := None)))"
proof (intro conjI allI impI)
  note g = get_from_lladdr_ok [OF assms(1-3)]
  show "\<exists>r. nbr_table_get_from_lladdr (Some t) (Some a) s = Some r \<and> map_option (\<lambda>k. t_data s t ! k) r = tab s t a" using g by auto
  show "\<exists>r s'. nbr_table_add_lladdr removed z (Some t) (Some a) s = Some (r, s') \<and> nt_wf s' \<and> (r \<noteq> None \<longleftrightarrow> has_room a s) \<and>
      (if r = None then s' = s
       else tab s' t = (tab (without (victim a s) s) t)(a \<mapsto> z) \<and> (\<forall>u. t_index s u \<noteq> t_index s t \<longrightarrow> tab s' u = tab (without (victim a s) s) u))"
  proof -
    have r: "\<And>u i x. removed u i x = x" using assms(4) by blast
    obtain k s' where "nbr_table_add_lladdr removed z (Some t) (Some a) s = Some (k, s')" "k \<noteq> None \<longleftrightarrow> has_room a s" "k = None \<longrightarrow> s' = s"
      "\<forall>i. k = Some i \<longrightarrow> nt_wf s' \<and> table_ok s' t \<and> i \<in> set (nbr_table_keys s') \<and> key_addr s' i = a \<and> tab s' t = (tab (without (victim a s) s) t)(a \<mapsto> z) \<and>
        (\<forall>u. t_index s u \<noteq> t_index s t \<longrightarrow> tab s' u = tab (without (victim a s) s) u)"
      using add_lladdr_ok [where removed = removed and z = z, OF assms(1-3) r] by blast
    then show ?thesis using assms(1) by (cases k) simp_all
  qed
  show "\<exists>s'. nbr_table_remove (Some t) (Some k) s = Some (1, s') \<and> nt_wf s' \<and> tab s' t = (tab s t)(a := None) \<and> (\<forall>u. t_index s u \<noteq> t_index s t \<longrightarrow> tab s' u = tab s u)"
    if "nbr_table_get_from_lladdr (Some t) (Some a) s = Some (Some k)" for k
  proof -
    have k: "k \<in> set (nbr_table_keys s)" "key_addr s k = a" using g that by auto
    then show ?thesis using remove_unmark [OF assms(1) nt_wfD(11) [OF assms(1) k(1)], of t] unmark_ok(1-3) [OF assms(1,2) k(1)] by auto
  qed
  fix v assume v: "victim a s = Some v"
  note l = victim_least [OF assms(1) v]
  show "locked_map s ! v = 0" "\<forall>k \<in> set (nbr_table_keys s). locked_map s ! k = 0 \<longrightarrow> users s v \<le> users s k" using l by blast+
  show "tab (without (Some v) s) u = (tab s u)(key_addr s v := None)" for u using evict_ok(2) [OF assms(1) l(1)] by (simp add: without_def)
qed

lemma start_wf: "nt_wf (nbr_tables_start z)" "table_ok (nbr_tables_start z) t" "tab (nbr_tables_start z) t = Map.empty"
  by (auto simp: nt_wf_def nbr_tables_start_def memb_wf_def memb_num_def memb_used_def table_ok_def tab_def)

theorem nbr_table_correct_witness:
  "\<exists>r s'. nbr_table_add_lladdr (\<lambda>_ _ s. s) (0 :: nat) (Some 0) (Some linkaddr_null) (nbr_tables_start 7) = Some (Some r, s') \<and> tab s' 0 linkaddr_null = Some 0"
proof -
  have "0 \<notin> memb_used (neighbor_addr_mem (nbr_tables_start (7 :: nat)))" by (simp add: nbr_tables_start_def memb_used_def)
  then have r: "has_room linkaddr_null (nbr_tables_start (7 :: nat))" by (auto simp: has_room_def)
  have v: "addr_wf linkaddr_null" by simp
  let ?s = "nbr_tables_start (7 :: nat)"
  have w: "nt_wf ?s" "table_ok ?s 0" "\<forall>u i x. (\<lambda>_ _ s. s) u i x = (x :: nat nbr_tables)" by (simp_all add: start_wf)
  note c = nbr_table_correct [where removed = "\<lambda>_ _ s. s" and z = 0, OF w(1,2) v w(3), THEN conjunct2, THEN conjunct1]
  obtain k s' where "nbr_table_add_lladdr (\<lambda>_ _ s. s) 0 (Some 0) (Some linkaddr_null) ?s = Some (k, s')" "k \<noteq> None"
    "if k = None then s' = ?s else tab s' 0 = (tab (without (victim linkaddr_null ?s) ?s) 0)(linkaddr_null \<mapsto> 0) \<and>
      (\<forall>u. t_index ?s u \<noteq> t_index ?s 0 \<longrightarrow> tab s' u = tab (without (victim linkaddr_null ?s) ?s) u)"
    using c r by blast
  then show ?thesis by auto
qed

text \<open>
  \<open>nbr_table_update_lladdr\<close> with \<open>remove_if_duplicate\<close> takes the neighbour out of the list of keys and leaves its block allocated: no operation
  finds or frees the block afterwards, so the pool has one place less.
\<close>

lemma update_lladdr_leaks:
  assumes w: "nt_wf s" and r: "\<And>t i s. removed t i s = s" and k: "k \<in> set (nbr_table_keys s)" "l \<in> set (nbr_table_keys s)" "k \<noteq> l"
  shows "\<exists>s'. nbr_table_update_lladdr removed (Some (key_addr s k)) (key_addr s l) True s = Some (0, s') \<and> nt_wf s' \<and>
    k \<in> memb_used (neighbor_addr_mem s') \<and> k \<notin> set (nbr_table_keys s')"
proof -
  have i: "index_from_lladdr (Some (key_addr s j)) s = int j" if "j \<in> set (nbr_table_keys s)" for j
    using find_key_cases [OF w nt_wfD(10) [OF w that]] that inj_onD [OF nt_wfD(9) [OF w]] by (metis image_eqI)
  show ?thesis using i [OF k(1)] i [OF k(2)] k remove_key_ok [OF w k(1) r] evict_ok [OF w k(1)] nt_wfD(8) [OF w]
    by (auto simp: nbr_table_update_lladdr_def)
qed

end
