(* ===== verification/LinkStats.thy ===== *)
theory LinkStats
  imports TimeSync NbrTable
begin

text \<open>
  The statistics of the links to the neighbours (\<open>os/net/link-stats.c\<close>), one item of a neighbour table per neighbour, in the configuration of the build
  (\<open>LINK_STATS_INIT_ETX_FROM_RSSI\<close>, no \<open>LINK_STATS_ETX_FROM_PACKET_COUNT\<close>). \<open>now\<close> is \<open>clock_time()\<close>. No table of the build has a
  callback for removed neighbours. The periodic timer is its start and its interval.
\<close>

subsection \<open>State and constants\<close>

record link_stats =
  last_tx_time :: clock_time_t
  etx :: u16
  rssi :: int
  freshness :: u8

definition link_stats_zero :: link_stats where
  "link_stats_zero = \<lparr> last_tx_time = 0, etx = 0, rssi = 0, freshness = 0 \<rparr>"

type_synonym link_tables = "link_stats nbr_tables"

definition link_stats_table :: nat where [simp]: "link_stats_table = 0"

record link_stats_state =
  ls_tables :: link_tables
  periodic_timer :: "(clock_time_t \<times> clock_time_t) option"

definition FRESHNESS_EXPIRATION_TIME :: clock_time_t where [simp]: "FRESHNESS_EXPIRATION_TIME = 10 * 60 * word_of_nat CLOCK_SECOND"
definition FRESHNESS_HALF_LIFE :: clock_time_t where [simp]: "FRESHNESS_HALF_LIFE = 15 * 60 * word_of_nat CLOCK_SECOND"
definition FRESHNESS_TARGET :: u8 where [simp]: "FRESHNESS_TARGET = 4"
definition FRESHNESS_MAX :: int where [simp]: "FRESHNESS_MAX = 16"
definition EWMA_SCALE :: int where [simp]: "EWMA_SCALE = 100"
definition EWMA_ALPHA :: u8 where [simp]: "EWMA_ALPHA = 10"
definition EWMA_BOOTSTRAP_ALPHA :: u8 where [simp]: "EWMA_BOOTSTRAP_ALPHA = 25"
definition ETX_DIVISOR :: int where [simp]: "ETX_DIVISOR = 128"
definition ETX_NOACK_PENALTY :: int where [simp]: "ETX_NOACK_PENALTY = 16"
definition ETX_DEFAULT :: int where [simp]: "ETX_DEFAULT = 2"
definition ETX_INIT_MAX :: int where [simp]: "ETX_INIT_MAX = 3"
definition RSSI_HIGH :: int where [simp]: "RSSI_HIGH = - 60"
definition RSSI_LOW :: int where [simp]: "RSSI_LOW = - 90"
definition RSSI_DIFF :: int where [simp]: "RSSI_DIFF = RSSI_HIGH - RSSI_LOW"

subsection \<open>Operations\<close>

definition link_stats_from_lladdr :: "linkaddr option \<Rightarrow> link_tables \<Rightarrow> nat option option" where
  "link_stats_from_lladdr lladdr s = nbr_table_get_from_lladdr (Some link_stats_table) lladdr s"

definition link_stats_is_fresh :: "clock_time_t \<Rightarrow> link_stats option \<Rightarrow> bool" where
  "link_stats_is_fresh now stats =
     (case stats of None \<Rightarrow> False | Some st \<Rightarrow> now - last_tx_time st < FRESHNESS_EXPIRATION_TIME \<and> freshness st \<ge> FRESHNESS_TARGET)"

definition guess_etx_from_rssi :: "link_stats option \<Rightarrow> u16" where
  "guess_etx_from_rssi stats =
     (case stats of
        None \<Rightarrow> 0xffff
      | Some st \<Rightarrow>
          if rssi st = 0 then word_of_int (ETX_DEFAULT * ETX_DIVISOR)
          else
            (let bounded_rssi = rssi st;
                 bounded_rssi = min bounded_rssi RSSI_HIGH;
                 bounded_rssi = max bounded_rssi (RSSI_LOW + 1);
                 etx = (word_of_int (RSSI_DIFF * ETX_DIVISOR sdiv (bounded_rssi - RSSI_LOW)) :: u16)
             in word_of_int (min (uint etx) (ETX_INIT_MAX * ETX_DIVISOR))))"

definition get_stats :: "nat \<Rightarrow> link_tables \<Rightarrow> link_stats option" where
  "get_stats i s = nth_opt (t_data s link_stats_table) i"

definition put_stats :: "nat \<Rightarrow> link_stats \<Rightarrow> link_tables \<Rightarrow> link_tables option" where
  "put_stats i st s = do { d \<leftarrow> upd_opt (t_data s link_stats_table) i st; Some (s\<lparr> t_data := (t_data s)(link_stats_table := d) \<rparr>) }"

definition link_stats_add :: "linkaddr option \<Rightarrow> link_tables \<Rightarrow> (nat option \<times> link_tables) option" where
  "link_stats_add lladdr s = nbr_table_add_lladdr (\<lambda>_ _ s. s) link_stats_zero (Some link_stats_table) lladdr s"

text \<open>The update of the statistics at the end of \<open>link_stats_packet_sent\<close>.\<close>

definition sent_stats :: "clock_time_t \<Rightarrow> u8 \<Rightarrow> int \<Rightarrow> link_stats \<Rightarrow> link_stats" where
  "sent_stats now status numtx st =
     (let st = st\<lparr> last_tx_time := now \<rparr>;
          st = st\<lparr> freshness := word_of_int (min (uint (freshness st) + numtx) FRESHNESS_MAX) \<rparr>;
          packet_etx = (word_of_int ((if status = MAC_TX_NOACK then ETX_NOACK_PENALTY else numtx) * ETX_DIVISOR) :: u16);
          ewma_alpha = (if link_stats_is_fresh now (Some st) then EWMA_ALPHA else EWMA_BOOTSTRAP_ALPHA)
      in st\<lparr> etx := ucast (((ucast (etx st) :: u32) * word_of_int (EWMA_SCALE - uint ewma_alpha) + ucast packet_etx * ucast ewma_alpha) div word_of_int EWMA_SCALE) \<rparr>)"

definition link_stats_packet_sent :: "clock_time_t \<Rightarrow> linkaddr option \<Rightarrow> u8 \<Rightarrow> int \<Rightarrow> link_tables \<Rightarrow> link_tables option" where
  "link_stats_packet_sent now lladdr status numtx s =
     (if status \<noteq> MAC_TX_OK \<and> status \<noteq> MAC_TX_NOACK then Some s
      else do {
        stats \<leftarrow> nbr_table_get_from_lladdr (Some link_stats_table) lladdr s;
        (stats, s) \<leftarrow> (case stats of
            Some i \<Rightarrow> Some (Some i, s)
          | None \<Rightarrow> do {
              (stats, s) \<leftarrow> link_stats_add lladdr s;
              (case stats of
                 None \<Rightarrow> Some (None, s)
               | Some i \<Rightarrow> do {
                   st \<leftarrow> get_stats i s;
                   s \<leftarrow> put_stats i (st\<lparr> etx := guess_etx_from_rssi (Some st) \<rparr>) s;
                   Some (Some i, s)
                 })
            });
        case stats of
          None \<Rightarrow> Some s
        | Some i \<Rightarrow> do { st \<leftarrow> get_stats i s; put_stats i (sent_stats now status numtx st) s }
      })"

text \<open>\<open>attr\<close> is \<open>packetbuf_attr(PACKETBUF_ATTR_RSSI)\<close>.\<close>

definition link_stats_input_callback :: "u16 \<Rightarrow> linkaddr option \<Rightarrow> link_tables \<Rightarrow> link_tables option" where
  "link_stats_input_callback attr lladdr s = do {
     let packet_rssi = sint attr;
     stats \<leftarrow> nbr_table_get_from_lladdr (Some link_stats_table) lladdr s;
     case stats of
       None \<Rightarrow> do {
         (stats, s) \<leftarrow> link_stats_add lladdr s;
         case stats of
           None \<Rightarrow> Some s
         | Some i \<Rightarrow> do {
             st \<leftarrow> get_stats i s;
             let st = st\<lparr> rssi := packet_rssi \<rparr>;
             put_stats i (st\<lparr> etx := guess_etx_from_rssi (Some st) \<rparr>) s
           }
       }
     | Some i \<Rightarrow> do {
         st \<leftarrow> get_stats i s;
         put_stats i (st\<lparr> rssi := to_i16 ((rssi st * (EWMA_SCALE - uint EWMA_ALPHA) + packet_rssi * uint EWMA_ALPHA) sdiv EWMA_SCALE) \<rparr>) s
       }
   }"

definition age_stats :: "nat \<Rightarrow> link_tables \<Rightarrow> link_tables option" where
  "age_stats i s = do { st \<leftarrow> get_stats i s; put_stats i (st\<lparr> freshness := drop_bit 1 (freshness st) \<rparr>) s }"

definition periodic :: "link_stats_state \<Rightarrow> link_stats_state option" where
  "periodic s = do {
     let s = s\<lparr> periodic_timer := map_option (\<lambda>(start, interval). (start + interval, interval)) (periodic_timer s) \<rparr>;
     stats \<leftarrow> nbr_table_head (Some link_stats_table) (ls_tables s);
     t \<leftarrow> table_loop link_stats_table age_stats stats (ls_tables s);
     Some (s\<lparr> ls_tables := t \<rparr>)
   }"

definition remove_stats :: "nat \<Rightarrow> link_tables \<Rightarrow> link_tables option" where
  "remove_stats i s = do { (_, s) \<leftarrow> nbr_table_remove (Some link_stats_table) (Some i) s; Some s }"

definition link_stats_reset :: "link_tables \<Rightarrow> link_tables option" where
  "link_stats_reset s = do {
     stats \<leftarrow> nbr_table_head (Some link_stats_table) s;
     table_loop link_stats_table remove_stats stats s
   }"

definition link_stats_init :: "clock_time_t \<Rightarrow> link_stats_state \<Rightarrow> link_stats_state option" where
  "link_stats_init now s = do {
     (_, t) \<leftarrow> nbr_table_register link_stats_table False (ls_tables s);
     Some (s\<lparr> ls_tables := t, periodic_timer := Some (now, FRESHNESS_HALF_LIFE) \<rparr>)
   }"

subsection \<open>Bounds of the averages\<close>

definition stats_ok :: "link_stats \<Rightarrow> bool" where
  "stats_ok st \<longleftrightarrow> 128 \<le> uint (etx st) \<and> uint (etx st) \<le> 16 * 128 \<and> uint (freshness st) \<le> 16 \<and> - 32768 \<le> rssi st \<and> rssi st < 32768"

definition ls_wf :: "link_tables \<Rightarrow> bool" where
  "ls_wf s \<longleftrightarrow> nt_wf s \<and> table_ok s link_stats_table \<and> (\<forall>st \<in> ran (tab s link_stats_table). stats_ok st)"

lemma avg_bounds:
  assumes "lo \<le> x" "x \<le> hi" "lo \<le> y" "y \<le> hi" "0 \<le> c" "c \<le> (100 :: int)"
  shows "lo * 100 \<le> x * c + y * (100 - c)" "x * c + y * (100 - c) \<le> hi * 100"
proof -
  have "lo * c \<le> x * c" "x * c \<le> hi * c" "lo * (100 - c) \<le> y * (100 - c)" "y * (100 - c) \<le> hi * (100 - c)" using assms by (simp_all add: mult_right_mono)
  then show "lo * 100 \<le> x * c + y * (100 - c)" "x * c + y * (100 - c) \<le> hi * 100" by (simp_all add: algebra_simps)
qed

lemma ewma_word:
  assumes "0 \<le> c" "c \<le> 100"
  shows "uint (ucast (((ucast e :: u32) * word_of_int c + ucast p * word_of_int (100 - c)) div word_of_int 100) :: u16) = (uint (e :: u16) * c + uint (p :: u16) * (100 - c)) div 100"
proof -
  have b: "0 \<le> uint e" "uint e < 65536" "0 \<le> uint p" "uint p < 65536" using uint_bounded [of e] uint_bounded [of p] by simp_all
  define n where "n = uint e * c + uint p * (100 - c)"
  have n: "0 \<le> n" "n \<le> 6553500" using avg_bounds [of 0 "uint e" 65535 "uint p" c] b assms by (simp_all add: n_def)
  have w: "(ucast e :: u32) * word_of_int c + ucast p * word_of_int (100 - c) = word_of_int n" by (simp add: n_def)
  have u: "uint (word_of_int n :: u32) = n" using n by (simp add: uint_word_of_int)
  have "uint (word_of_int n div word_of_int 100 :: u32) = n div 100" unfolding uint_div u by (simp add: uint_word_of_int)
  moreover have "0 \<le> n div 100" "n div 100 \<le> 65535" using n by linarith+
  ultimately have "uint (ucast (word_of_int n div word_of_int 100 :: u32) :: u16) = n div 100" unfolding unsigned_ucast_eq by (simp only: take_bit_eq_mod) simp
  then show ?thesis unfolding w unfolding n_def .
qed

text \<open>The average of the transmissions is exact: no step of it overflows.\<close>

lemma sent_stats_etx:
  assumes "1 \<le> numtx" "numtx \<le> 16" "uint (freshness st) \<le> 16"
  shows "uint (freshness (sent_stats now status numtx st)) = min (uint (freshness st) + numtx) 16" "last_tx_time (sent_stats now status numtx st) = now"
    "rssi (sent_stats now status numtx st) = rssi st"
    "uint (etx (sent_stats now status numtx st)) =
      (let c = (if uint (freshness st) + numtx \<ge> 4 then 90 else 75) in (uint (etx st) * c + (if status = MAC_TX_NOACK then 16 else numtx) * 128 * (100 - c)) div 100)"
proof -
  show f: "uint (freshness (sent_stats now status numtx st)) = min (uint (freshness st) + numtx) 16"
    using assms by (auto simp: sent_stats_def Let_def uint_word_of_int min_def)
  show "last_tx_time (sent_stats now status numtx st) = now" "rssi (sent_stats now status numtx st) = rssi st" by (simp_all add: sent_stats_def Let_def)
  let ?p = "word_of_int ((if status = MAC_TX_NOACK then 16 else numtx) * 128) :: u16"
  have p: "uint ?p = (if status = MAC_TX_NOACK then 16 else numtx) * 128" using assms unfolding uint_word_of_int by (subst mod_pos_pos_trivial) auto
  have fresh: "(4 :: u8) \<le> word_of_int (min (uint (freshness st) + numtx) 16) \<longleftrightarrow> 4 \<le> uint (freshness st) + numtx"
    using assms by (auto simp: word_le_def uint_word_of_int min_def)
  show "uint (etx (sent_stats now status numtx st)) =
      (let c = (if uint (freshness st) + numtx \<ge> 4 then 90 else 75) in (uint (etx st) * c + (if status = MAC_TX_NOACK then 16 else numtx) * 128 * (100 - c)) div 100)"
  proof (cases "4 \<le> uint (freshness st) + numtx")
    case True
    have "etx (sent_stats now status numtx st) = ucast (((ucast (etx st) :: u32) * word_of_int 90 + ucast ?p * word_of_int (100 - 90)) div word_of_int 100)"
      using True fresh by (simp add: sent_stats_def Let_def link_stats_is_fresh_def)
    then show ?thesis using True ewma_word [of 90 "etx st" ?p] p by simp
  next
    case False
    have "etx (sent_stats now status numtx st) = ucast (((ucast (etx st) :: u32) * word_of_int 75 + ucast ?p * word_of_int (100 - 75)) div word_of_int 100)"
      using False fresh by (simp add: sent_stats_def Let_def link_stats_is_fresh_def)
    then show ?thesis using False ewma_word [of 75 "etx st" ?p] p by simp
  qed
qed

lemma sent_stats_ok:
  assumes "stats_ok st" "1 \<le> numtx" "numtx \<le> 16"
  shows "stats_ok (sent_stats now status numtx st)"
proof -
  have a: "128 \<le> uint (etx st)" "uint (etx st) \<le> 16 * 128" "uint (freshness st) \<le> 16" "- 32768 \<le> rssi st" "rssi st < 32768" using assms(1) by (simp_all add: stats_ok_def)
  define c :: int where "c = (if uint (freshness st) + numtx \<ge> 4 then 90 else 75)"
  define y where "y = (if status = MAC_TX_NOACK then 16 else numtx) * 128"
  have e: "uint (etx (sent_stats now status numtx st)) = (uint (etx st) * c + y * (100 - c)) div 100"
    unfolding sent_stats_etx(4) [OF assms(2,3) a(3)] c_def y_def by (simp add: Let_def)
  have "128 \<le> y" "y \<le> 16 * 128" "0 \<le> c" "c \<le> 100" using assms(2,3) by (simp_all add: y_def c_def)
  note b = avg_bounds [OF a(1,2) this]
  have "128 \<le> (uint (etx st) * c + y * (100 - c)) div 100" "(uint (etx st) * c + y * (100 - c)) div 100 \<le> 16 * 128" using b by linarith+
  then show ?thesis unfolding stats_ok_def e using a sent_stats_etx(1,3) [OF assms(2,3) a(3), of now status] by simp
qed

lemma guess_etx_bounds: "128 \<le> uint (guess_etx_from_rssi (Some st))" "uint (guess_etx_from_rssi (Some st)) \<le> 3 * 128"
proof -
  define b where "b = max (min (rssi st) (- 60)) (- 89)"
  have b: "1 \<le> b + 90" "b + 90 \<le> 30" by (simp_all add: b_def)
  then have "3840 div 30 \<le> 3840 div (b + 90)" "3840 div (b + 90) \<le> 3840" by (intro zdiv_mono2, simp_all) (smt (verit) div_by_1 zdiv_mono2)
  then have d: "128 \<le> 3840 div (b + 90)" "3840 div (b + 90) \<le> 3840" by simp_all
  have s: "3840 sdiv (b + 90) = 3840 div (b + 90)" using b by (simp add: signed_divide_int_def)
  have g: "guess_etx_from_rssi (Some st) = (if rssi st = 0 then 256 else word_of_int (min (3840 div (b + 90)) 384))"
    unfolding guess_etx_from_rssi_def using s d by (simp add: Let_def b_def uint_word_of_int)
  show "128 \<le> uint (guess_etx_from_rssi (Some st))" "uint (guess_etx_from_rssi (Some st)) \<le> 3 * 128" unfolding g using d by (auto simp: uint_word_of_int min_def)
qed

lemma rssi_average:
  assumes "- 32768 \<le> x" "x < 32768" "- 32768 \<le> y" "y < 32768"
  shows "to_i16 ((x * 90 + y * 10) sdiv 100) = (x * 90 + y * 10) sdiv 100" "min x y \<le> (x * 90 + y * 10) sdiv 100" "(x * 90 + y * 10) sdiv 100 \<le> max x y"
proof -
  note b = avg_bounds [of "min x y" x "max x y" y 90, simplified]
  have "min x y \<le> (x * 90 + y * 10) sdiv 100 \<and> (x * 90 + y * 10) sdiv 100 \<le> max x y"
  proof (cases "0 \<le> x * 90 + y * 10")
    case True
    then have "(x * 90 + y * 10) sdiv 100 = (x * 90 + y * 10) div 100" by (simp add: signed_divide_int_def sgn_if)
    then show ?thesis using b by linarith
  next
    case False
    then have "(x * 90 + y * 10) sdiv 100 = - ((- (x * 90 + y * 10)) div 100)" by (simp add: signed_divide_int_def sgn_if)
    then show ?thesis using b by linarith
  qed
  then show r: "min x y \<le> (x * 90 + y * 10) sdiv 100" "(x * 90 + y * 10) sdiv 100 \<le> max x y" by simp_all
  show "to_i16 ((x * 90 + y * 10) sdiv 100) = (x * 90 + y * 10) sdiv 100"
  proof -
    have "- 32768 \<le> (x * 90 + y * 10) sdiv 100" "(x * 90 + y * 10) sdiv 100 < 32768" using r assms by linarith+
    then show ?thesis by (simp add: to_i16_def signed_of_int signed_take_bit_int_eq_self)
  qed
qed

subsection \<open>The table of statistics\<close>

lemma ls_wfD:
  assumes "ls_wf s"
  shows "nt_wf s" "table_ok s 0" "tab s 0 a = Some st \<Longrightarrow> stats_ok st"
  using assms by (auto simp: ls_wf_def intro: ranI)

lemma stats_access:
  assumes "nt_wf s" "table_ok s 0" "k \<in> set (nbr_table_keys s)"
  shows "get_stats k s = Some (t_data s 0 ! k)" "uses s 0 k \<Longrightarrow> put_stats k st s = Some (mark 0 k st s)"
proof -
  have k: "k < 16" "length (t_data s 0) = 16" "length (used_map s) = 16" using nt_wfD(11) [OF assms(1,3)] assms(2) nt_wfD(1) [OF assms(1)] by (simp_all add: table_ok_def)
  then show "get_stats k s = Some (t_data s 0 ! k)" by (simp add: get_stats_def nth_opt_def)
  assume "uses s 0 k"
  then have "used_map s ! k OR push_bit (t_index s 0) 1 = used_map s ! k"
    by (intro bit_eqI) (auto simp: uses_def bit_or_iff bit_exp_iff)
  then show "put_stats k st s = Some (mark 0 k st s)" using k
    by (simp add: put_stats_def upd_opt_def mark_def list_update_same_conv)
qed

lemma put_ok:
  assumes "nt_wf s" "table_ok s 0" "k \<in> set (nbr_table_keys s)" "uses s 0 k"
  shows "\<exists>s'. put_stats k st s = Some s' \<and> nt_wf s' \<and> table_ok s' 0 \<and> nbr_table_keys s' = nbr_table_keys s \<and> key_addr s' = key_addr s \<and> (\<forall>i. uses s' 0 i = uses s 0 i) \<and>
    t_data s' 0 ! k = st \<and> tab s' 0 = (tab s 0)(key_addr s k \<mapsto> st)"
proof -
  have k: "k < 16" "length (t_data s 0) = 16" "length (used_map s) = 16" using nt_wfD(11) [OF assms(1,3)] assms(2) nt_wfD(1) [OF assms(1)] by (simp_all add: table_ok_def)
  have "uses (mark 0 k st s) 0 i = uses s 0 i" for i using assms(4) k by (auto simp: uses_def mark_def nth_list_update bit_or_iff bit_exp_iff)
  then show ?thesis using stats_access(2) [OF assms] mark_ok(1,2) [OF assms(1-3)] assms(2) k
    by (simp add: mark_def key_addr_def fun_eq_iff table_ok_def)
qed

text \<open>The table without the neighbour that makes room for an address.\<close>

definition room_for :: "linkaddr \<Rightarrow> link_tables \<Rightarrow> (linkaddr \<rightharpoonup> link_stats)" where
  "room_for a s = tab (without (victim a s) s) link_stats_table"

text \<open>The entry that a packet to or from a neighbour updates: the one it has, or a zero entry in the place of the victim.\<close>

lemma stats_entry:
  assumes "nt_wf s" "table_ok s 0" "addr_wf a"
  obtains (known) k st where "nbr_table_get_from_lladdr (Some 0) (Some a) s = Some (Some k)" "tab s 0 a = Some st" "t_data s 0 ! k = st" "k \<in> set (nbr_table_keys s)"
      "key_addr s k = a" "uses s 0 k"
  | (new) k s1 where "nbr_table_get_from_lladdr (Some 0) (Some a) s = Some None" "tab s 0 a = None" "has_room a s" "link_stats_add (Some a) s = Some (Some k, s1)" "nt_wf s1" "table_ok s1 0"
      "t_data s1 0 ! k = link_stats_zero" "k \<in> set (nbr_table_keys s1)" "key_addr s1 k = a" "uses s1 0 k" "tab s1 0 = (room_for a s)(a \<mapsto> link_stats_zero)"
  | (full) "nbr_table_get_from_lladdr (Some 0) (Some a) s = Some None" "tab s 0 a = None" "\<not> has_room a s" "link_stats_add (Some a) s = Some (None, s)"
proof -
  obtain r where g: "nbr_table_get_from_lladdr (Some 0) (Some a) s = Some r" "tab s 0 a = map_option (\<lambda>k. t_data s 0 ! k) r"
    "\<forall>k. r = Some k \<longrightarrow> k \<in> set (nbr_table_keys s) \<and> key_addr s k = a \<and> uses s 0 k" using get_from_lladdr_ok [OF assms] by blast
  show thesis
  proof (cases r)
    case (Some k)
    then show ?thesis using known [of k] g by simp
  next
    case None
    obtain k s' where ad: "link_stats_add (Some a) s = Some (k, s')" "k \<noteq> None \<longleftrightarrow> has_room a s" "k = None \<longrightarrow> s' = s"
      "\<forall>i. k = Some i \<longrightarrow> nt_wf s' \<and> table_ok s' 0 \<and> i \<in> set (nbr_table_keys s') \<and> key_addr s' i = a \<and> tab s' 0 = (room_for a s)(a \<mapsto> link_stats_zero) \<and>
        (\<forall>u. t_index s u \<noteq> t_index s 0 \<longrightarrow> tab s' u = tab (without (victim a s) s) u)"
      using add_lladdr_ok [where removed = "\<lambda>_ _ s. s" and z = link_stats_zero, OF assms refl] unfolding link_stats_add_def link_stats_table_def room_for_def by blast
    show ?thesis
    proof (cases k)
      case k: (Some i)
      then have i: "nt_wf s'" "table_ok s' 0" "i \<in> set (nbr_table_keys s')" "key_addr s' i = a" "tab s' 0 = (room_for a s)(a \<mapsto> link_stats_zero)" using ad(4) by blast+
      have "uses s' 0 i \<and> t_data s' 0 ! i = link_stats_zero" using tab_key [OF i(1,3), of 0] i(4,5) by (simp split: if_splits)
      then show ?thesis using new [of i s'] k None g(1,2) i ad(1,2) by simp
    qed (use full ad None g in simp)
  qed
qed

lemma room_for_sub:
  assumes "nt_wf s" "room_for a s b = Some st"
  shows "tab s 0 b = Some st"
proof (cases "victim a s")
  case (Some v)
  then show ?thesis using assms evict_ok(2) [OF assms(1) victim_least(1) [OF assms(1) Some], of 0] by (simp add: room_for_def without_def split: if_splits)
qed (use assms in \<open>simp add: room_for_def without_def\<close>)

lemma ls_wfI:
  assumes "ls_wf s" "nt_wf s'" "table_ok s' 0" "tab s' 0 = m(a \<mapsto> st)" "m = tab s 0 \<or> m = room_for a s" "stats_ok st"
  shows "ls_wf s'"
proof -
  have "stats_ok x" if "tab s' 0 b = Some x" for b x
    using that assms(4-6) ls_wfD(3) [OF assms(1), of b] room_for_sub [OF ls_wfD(1) [OF assms(1)], of a b] by (auto split: if_splits)
  then show ?thesis using assms(2,3) by (auto simp: ls_wf_def ran_def)
qed

definition new_stats :: link_stats where
  "new_stats = link_stats_zero\<lparr> etx := 256 \<rparr>"

lemma packet_sent_ok:
  assumes w: "ls_wf s" "addr_wf a" and x: "1 \<le> numtx" "numtx \<le> 16" and st: "status = MAC_TX_OK \<or> status = MAC_TX_NOACK"
  shows "\<exists>s'. link_stats_packet_sent now (Some a) status numtx s = Some s' \<and> ls_wf s' \<and>
    tab s' 0 = (case tab s 0 a of
        Some st \<Rightarrow> (tab s 0)(a \<mapsto> sent_stats now status numtx st)
      | None \<Rightarrow> if has_room a s then (room_for a s)(a \<mapsto> sent_stats now status numtx new_stats) else tab s 0)"
proof -
  note n = ls_wfD [OF w(1)]
  show ?thesis
  proof (cases rule: stats_entry [OF n(1,2) w(2), case_names known new full])
    case (known k st)
    obtain s' where s': "put_stats k (sent_stats now status numtx st) s = Some s'" "nt_wf s'" "table_ok s' 0" "tab s' 0 = (tab s 0)(a \<mapsto> sent_stats now status numtx st)"
      using put_ok [OF n(1,2) known(4,6)] known(5) by blast
    have "link_stats_packet_sent now (Some a) status numtx s = Some s'"
      using known(1,3) stats_access(1) [OF n(1,2) known(4)] s'(1) assms(5) by (auto simp: link_stats_packet_sent_def)
    moreover have "ls_wf s'" using ls_wfI [OF w(1) s'(2-4)] sent_stats_ok [OF n(3) [OF known(2)] x] by blast
    ultimately show ?thesis using s'(4) known(2) by simp
  next
    case (new k s1)
    have z: "(link_stats_zero\<lparr> etx := guess_etx_from_rssi (Some link_stats_zero) \<rparr>) = new_stats" by (simp add: new_stats_def guess_etx_from_rssi_def link_stats_zero_def)
    obtain s2 where s2: "put_stats k new_stats s1 = Some s2" "nt_wf s2" "table_ok s2 0" "nbr_table_keys s2 = nbr_table_keys s1" "key_addr s2 = key_addr s1" "uses s2 0 k"
      "t_data s2 0 ! k = new_stats" "tab s2 0 = (tab s1 0)(a \<mapsto> new_stats)"
      using put_ok [OF new(5,6,8,10), of new_stats] new(9,10) by blast
    have k2: "k \<in> set (nbr_table_keys s2)" "key_addr s2 k = a" using s2(4,5) new(8,9) by simp_all
    obtain s' where s': "put_stats k (sent_stats now status numtx new_stats) s2 = Some s'" "nt_wf s'" "table_ok s' 0" "tab s' 0 = (tab s2 0)(a \<mapsto> sent_stats now status numtx new_stats)"
      using put_ok [OF s2(2,3) k2(1) s2(6)] k2(2) by blast
    have t: "tab s' 0 = (room_for a s)(a \<mapsto> sent_stats now status numtx new_stats)" using s'(4) s2(8) new(11) by simp
    have "link_stats_packet_sent now (Some a) status numtx s = Some s'"
      using new(1,4,7) stats_access(1) [OF new(5,6,8)] stats_access(1) [OF s2(2,3) k2(1)] s2(1,7) s'(1) assms(5) z by (auto simp: link_stats_packet_sent_def)
    moreover have "ls_wf s'" using ls_wfI [OF w(1) s'(2,3) t] sent_stats_ok [of new_stats, OF _ x] by (auto simp: stats_ok_def new_stats_def link_stats_zero_def)
    ultimately show ?thesis using t new(2,3) by simp
  next
    case full
    then have "link_stats_packet_sent now (Some a) status numtx s = Some s" using assms(5) by (auto simp: link_stats_packet_sent_def)
    then show ?thesis using full w(1) by simp
  qed
qed

lemma input_callback_ok:
  assumes w: "ls_wf s" "addr_wf a"
  shows "\<exists>s'. link_stats_input_callback attr (Some a) s = Some s' \<and> ls_wf s' \<and>
    tab s' 0 = (case tab s 0 a of
        Some st \<Rightarrow> (tab s 0)(a \<mapsto> st\<lparr> rssi := (rssi st * 90 + sint attr * 10) sdiv 100 \<rparr>)
      | None \<Rightarrow> if has_room a s then (room_for a s)(a \<mapsto> (link_stats_zero\<lparr> rssi := sint attr, etx := guess_etx_from_rssi (Some (link_stats_zero\<lparr> rssi := sint attr \<rparr>)) \<rparr>)) else tab s 0)"
proof -
  note n = ls_wfD [OF w(1)]
  have r: "- 32768 \<le> sint attr" "sint attr < 32768" using sint_greater_eq [of attr] sint_less [of attr] by simp_all
  show ?thesis
  proof (cases rule: stats_entry [OF n(1,2) w(2), case_names known new full])
    case (known k st)
    note ok = n(3) [OF known(2), unfolded stats_ok_def]
    note avg = rssi_average [of "rssi st" "sint attr", OF _ _ r]
    let ?st = "st\<lparr> rssi := (rssi st * 90 + sint attr * 10) sdiv 100 \<rparr>"
    obtain s' where s': "put_stats k ?st s = Some s'" "nt_wf s'" "table_ok s' 0" "tab s' 0 = (tab s 0)(a \<mapsto> ?st)"
      using put_ok [OF n(1,2) known(4,6)] known(5) by blast
    have "link_stats_input_callback attr (Some a) s = Some s'"
      using known(1,3) stats_access(1) [OF n(1,2) known(4)] s'(1) avg(1) ok by (simp add: link_stats_input_callback_def)
    moreover have "stats_ok ?st" using ok avg(2,3) r unfolding stats_ok_def by (auto simp: min_le_iff_disj le_max_iff_disj)
    ultimately show ?thesis using s' known(2) ls_wfI [OF w(1) s'(2-4)] by simp
  next
    case (new k s1)
    let ?st = "link_stats_zero\<lparr> rssi := sint attr, etx := guess_etx_from_rssi (Some (link_stats_zero\<lparr> rssi := sint attr \<rparr>)) \<rparr>"
    obtain s' where s': "put_stats k ?st s1 = Some s'" "nt_wf s'" "table_ok s' 0" "tab s' 0 = (tab s1 0)(a \<mapsto> ?st)"
      using put_ok [OF new(5,6,8,10), of ?st] new(9) by blast
    have t: "tab s' 0 = (room_for a s)(a \<mapsto> ?st)" using s'(4) new(11) by simp
    have "link_stats_input_callback attr (Some a) s = Some s'" using new(1,4,7) stats_access(1) [OF new(5,6,8)] s'(1) by (simp add: link_stats_input_callback_def Let_def)
    moreover have "stats_ok ?st" using guess_etx_bounds [of "link_stats_zero\<lparr> rssi := sint attr \<rparr>"] r unfolding stats_ok_def by (simp add: link_stats_zero_def)
    ultimately show ?thesis using t new(2,3) ls_wfI [OF w(1) s'(2,3) t] by simp
  next
    case full
    then have "link_stats_input_callback attr (Some a) s = Some s" by (simp add: link_stats_input_callback_def)
    then show ?thesis using full w(1) by simp
  qed
qed

subsection \<open>The loops\<close>

interpretation age: table_walk 0 age_stats "\<lambda>st. Some (st\<lparr> freshness := drop_bit 1 (freshness st) \<rparr>)"
proof
  fix s :: link_tables and k
  assume a: "nt_wf s" "table_ok s 0" "k \<in> set (nbr_table_keys s)" "uses s 0 k"
  let ?st = "(t_data s 0 ! k)\<lparr> freshness := drop_bit 1 (freshness (t_data s 0 ! k)) \<rparr>"
  have "age_stats k s = put_stats k ?st s" using stats_access(1) [OF a(1-3)] by (simp add: age_stats_def)
  then show "\<exists>s'. age_stats k s = Some s' \<and> nt_wf s' \<and> table_ok s' 0 \<and> nbr_table_keys s' = nbr_table_keys s \<and> key_addr s' = key_addr s \<and>
      (\<forall>i. i \<noteq> k \<longrightarrow> uses s' 0 i = uses s 0 i) \<and> tab s' 0 = (tab s 0)(key_addr s k \<mapsto> ?st)"
    using put_ok [OF a, of ?st] by auto
qed

interpretation reset: table_walk 0 remove_stats "\<lambda>_. None"
proof
  fix s :: link_tables and k
  assume a: "nt_wf s" "table_ok s 0" "k \<in> set (nbr_table_keys s)" "uses s 0 k"
  have "remove_stats k s = Some (unmark 0 k s)" using remove_unmark [OF a(1) nt_wfD(11) [OF a(1,3)]] by (simp add: remove_stats_def)
  moreover have "key_addr (unmark 0 k s) = key_addr s" by (simp add: unmark_def key_addr_def fun_eq_iff)
  ultimately show "\<exists>s'. remove_stats k s = Some s' \<and> nt_wf s' \<and> table_ok s' 0 \<and> nbr_table_keys s' = nbr_table_keys s \<and> key_addr s' = key_addr s \<and>
      (\<forall>i. i \<noteq> k \<longrightarrow> uses s' 0 i = uses s 0 i) \<and> tab s' 0 = (tab s 0)(key_addr s k := None)"
    using unmark_ok [OF a(1-3)] a(2) by auto
qed

lemma age_ok:
  assumes "stats_ok st"
  shows "stats_ok (st\<lparr> freshness := drop_bit 1 (freshness st) \<rparr>)"
  using assms by (auto simp: stats_ok_def drop_bit_eq_div uint_div)

lemma periodic_ok:
  assumes "ls_wf (ls_tables s)"
  shows "\<exists>s'. periodic s = Some s' \<and> ls_wf (ls_tables s') \<and> tab (ls_tables s') 0 = map_option (\<lambda>st. st\<lparr> freshness := drop_bit 1 (freshness st) \<rparr>) \<circ> tab (ls_tables s) 0 \<and>
    periodic_timer s' = map_option (\<lambda>(start, interval). (start + interval, interval)) (periodic_timer s)"
proof -
  obtain i t where t: "nbr_table_head (Some 0) (ls_tables s) = Some i" "table_loop 0 age_stats i (ls_tables s) = Some t" "nt_wf t" "table_ok t 0"
    "tab t 0 = (\<lambda>a. Option.bind (tab (ls_tables s) 0 a) (\<lambda>st. Some (st\<lparr> freshness := drop_bit 1 (freshness st) \<rparr>)))"
    using age.walk_ok [OF ls_wfD(1,2) [OF assms]] by blast
  have "stats_ok st" if "tab t 0 a = Some st" for a st using that ls_wfD(3) [OF assms, of a] age_ok unfolding t(5) by (cases "tab (ls_tables s) 0 a") auto
  then have "ls_wf t" using t(3,4) by (auto simp: ls_wf_def ran_def)
  moreover have "tab t 0 = map_option (\<lambda>st. st\<lparr> freshness := drop_bit 1 (freshness st) \<rparr>) \<circ> tab (ls_tables s) 0"
    unfolding t(5) by (rule ext) (simp split: option.split add: Option.bind_eq_Some_conv map_option_case)
  ultimately show ?thesis using t(1,2) by (simp add: periodic_def)
qed

lemma reset_ok:
  assumes "ls_wf s"
  shows "\<exists>s'. link_stats_reset s = Some s' \<and> ls_wf s' \<and> tab s' 0 = Map.empty"
  using reset.walk_ok [OF ls_wfD(1,2) [OF assms]] by (auto simp: link_stats_reset_def ls_wf_def)

text \<open>
  C40. The statistics of the links are a bounded moving average per neighbour. In a sound table every ETX lies between 1 and 16 transmissions (in
  units of 1/128) and every freshness is at most 16. A packet that was acknowledged, or not, in 1 to 16 transmissions updates the entry of its receiver by the exact
  average (weight 10% once the entry has four transmissions, 25% before), or enters a new one with an ETX of 2, evicting a neighbour when the pool is full; every other outcome changes nothing.
  The periodic timer halves the freshness of all entries, a reset empties the table, and all of these keep the table sound.
\<close>

theorem link_stats_correct:
  assumes "ls_wf (ls_tables s)" "addr_wf a" "1 \<le> numtx" "numtx \<le> 16"
  shows "(\<exists>s'. link_stats_packet_sent now (Some a) status numtx (ls_tables s) = Some s' \<and> ls_wf s' \<and>
      (if status \<noteq> MAC_TX_OK \<and> status \<noteq> MAC_TX_NOACK then s' = ls_tables s
       else tab s' 0 = (case tab (ls_tables s) 0 a of
          Some st \<Rightarrow> (tab (ls_tables s) 0)(a \<mapsto> sent_stats now status numtx st)
        | None \<Rightarrow> if has_room a (ls_tables s) then (room_for a (ls_tables s))(a \<mapsto> sent_stats now status numtx new_stats) else tab (ls_tables s) 0))) \<and>
    (\<forall>st. tab (ls_tables s) 0 a = Some st \<or> st = new_stats \<longrightarrow> uint (etx (sent_stats now status numtx st)) =
      (let c = (if uint (freshness st) + numtx \<ge> 4 then 90 else 75) in (uint (etx st) * c + (if status = MAC_TX_NOACK then 16 else numtx) * 128 * (100 - c)) div 100)) \<and>
    (\<exists>s'. link_stats_input_callback attr (Some a) (ls_tables s) = Some s' \<and> ls_wf s') \<and>
    (\<exists>s'. periodic s = Some s' \<and> ls_wf (ls_tables s') \<and>
      tab (ls_tables s') 0 = map_option (\<lambda>st. st\<lparr> freshness := drop_bit 1 (freshness st) \<rparr>) \<circ> tab (ls_tables s) 0) \<and>
    (\<exists>s'. link_stats_reset (ls_tables s) = Some s' \<and> ls_wf s' \<and> tab s' 0 = Map.empty)"
proof (intro conjI allI impI)
  show "\<exists>s'. link_stats_packet_sent now (Some a) status numtx (ls_tables s) = Some s' \<and> ls_wf s' \<and>
      (if status \<noteq> MAC_TX_OK \<and> status \<noteq> MAC_TX_NOACK then s' = ls_tables s
       else tab s' 0 = (case tab (ls_tables s) 0 a of
          Some st \<Rightarrow> (tab (ls_tables s) 0)(a \<mapsto> sent_stats now status numtx st)
        | None \<Rightarrow> if has_room a (ls_tables s) then (room_for a (ls_tables s))(a \<mapsto> sent_stats now status numtx new_stats) else tab (ls_tables s) 0))"
  proof (cases "status \<noteq> MAC_TX_OK \<and> status \<noteq> MAC_TX_NOACK")
    case True
    then show ?thesis using assms(1) by (simp add: link_stats_packet_sent_def)
  next
    case False
    then have "status = MAC_TX_OK \<or> status = MAC_TX_NOACK" by blast
    then show ?thesis unfolding if_not_P [OF False] by (rule packet_sent_ok [OF assms])
  qed
  fix st assume "tab (ls_tables s) 0 a = Some st \<or> st = new_stats"
  then have "uint (freshness st) \<le> 16" using ls_wfD(3) [OF assms(1)] by (auto simp: stats_ok_def new_stats_def link_stats_zero_def)
  then show "uint (etx (sent_stats now status numtx st)) =
      (let c = (if uint (freshness st) + numtx \<ge> 4 then 90 else 75) in (uint (etx st) * c + (if status = MAC_TX_NOACK then 16 else numtx) * 128 * (100 - c)) div 100)"
    by (rule sent_stats_etx(4) [OF assms(3,4)])
qed (use input_callback_ok [OF assms(1,2)] periodic_ok [OF assms(1)] reset_ok [OF assms(1)] in blast)+

theorem link_stats_correct_witness:
  "\<exists>s'. link_stats_packet_sent 5 (Some linkaddr_null) MAC_TX_OK 1 (nbr_tables_start link_stats_zero) = Some s' \<and> ls_wf s'"
proof -
  have "ls_wf (ls_tables \<lparr> ls_tables = nbr_tables_start link_stats_zero, periodic_timer = None \<rparr>)" by (simp add: ls_wf_def start_wf)
  from link_stats_correct [OF this, of linkaddr_null 1 5 MAC_TX_OK] show ?thesis by auto
qed

end
