(* ===== verification/Spec2Isabelle.thy ===== *)
theory Spec2Isabelle
  imports SlotInvariant TschProcessProps EtimerProps MasterScheduleProps SerialUpload HashMap ScheduleInstall LinkStats
begin

text \<open>
  A verification library for the MASTER scheduler on Contiki-NG: the TSCH link layer with centrally computed schedules,
  queues per flow and retransmissions that are bounded by a time to live. The development models the C sources of the build
  \<open>examples/master/master-unicast\<close> for the Cooja platform; file names below are relative to \<open>src/\<close>.

  \<^bold>\<open>The program.\<close> An operator sends a schedule over the serial line of one node, the distributor. A line is collected by
  \<open>os/dev/serial-line.c\<close> in a process of the kernel (\<open>os/sys/process.c\<close>) and stored by \<open>master-schedule.c\<close> in flash memory.
  The routing layer (\<open>master-routing.c\<close>) of every node runs a state machine: it measures the links with beacons, collects the
  metrics, spreads the schedule packet by packet, tells by a bit vector in the beacons which nodes have it, installs it when
  all nodes do, and then carries application data along the flows. Below it are the network layer (\<open>master-net.c\<close>), the TSCH
  MAC (\<open>tsch.c\<close>, \<open>tsch-queue.c\<close>, \<open>tsch-schedule.c\<close>, \<open>tsch-packet.c\<close>, \<open>tsch-slot-operation.c\<close>, \<open>tsch-adaptive-timesync.c\<close>), the framers
  and the containers of \<open>os/lib\<close> and \<open>os/net\<close>.

  \<^bold>\<open>How code is modelled.\<close> A C function is a HOL function of the same name. The static variables of a file are the fields of a
  record; records of the upper layers extend those of the lower ones (\<open>pbuf_state\<close>, \<open>qbuf_state\<close>, \<open>tsch_state\<close>, \<open>sched_state\<close>, \<open>net_state\<close>,
  \<open>mac_state\<close>, \<open>masternet_state\<close> and \<open>route_state\<close>; \<open>kernel\<close> with \<open>etimer_state\<close> and \<open>serial_state\<close>; \<open>timesync_state\<close> with \<open>slot_state\<close>, which a slot holds beside
  the state of the MAC layer), so that every function of a lower layer runs on the state of the upper layer. Integers of a
  fixed width are words; where C promotes to \<open>int\<close> the model does. A pointer to an element of a static array is its index, a
  linked list is a map of \<open>next\<close> fields. The value \<^const>\<open>None\<close> of the option monad stands for an access outside an array, a null pointer
  that is followed, a failed assertion, or a loop that does not end (\<open>partial_function\<close>): a theorem that states \<open>Some\<close> states that none of
  these happens. A protothread is a function from the point at which it waits to the next one. What is not under \<open>src/\<close>
  or belongs to hardware is an argument: the answers of the radio and the clock (\<open>slot_io\<close>), the random numbers, the callbacks of
  the upper layer (\<open>mac_cb\<close>), the threads of the processes.

  \<^bold>\<open>Libraries.\<close>
  \<^item> \<open>Prelude\<close>: checked accesses in the option monad, bytes and words, the collections \<open>wf_intros\<close> and \<open>byte_simps\<close>.
    \<open>MasterConf\<close>: the constants of the build and link addresses. \<open>Floats\<close>: rounding of \<open>float\<close> and \<open>double\<close>, as the metric uses it.
  \<^item> \<open>RingBufIndex\<close> (\<open>ringbufindex.c\<close>): the masked 8-bit indices are a bounded queue; the contract \<open>slot_fifo\<close> is interpreted on the
    C operations and used again for the byte ring of the serial line.
  \<^item> \<open>ListLib\<close> (\<open>list.c\<close>): every operation ends on a chain and implements its counterpart on lists.
  \<^item> \<open>Memb\<close> (\<open>memb.c\<close>): contract \<open>block_allocator\<close>. \<open>HashMap\<close> (\<open>hash-map.c\<close>): contract \<open>bounded_map\<close>, with chains that may share nodes.
  \<^item> \<open>PacketBuf\<close>, \<open>QueueBuf\<close> (\<open>packetbuf.c\<close>, \<open>queuebuf.c\<close>): a packet that is queued and loaded again is unchanged.
  \<^item> \<open>Asn\<close> (\<open>tsch-asn.h\<close>): 40-bit slot numbers; the quick remainder is the true one.
  \<^item> \<open>NbrTable\<close> (\<open>nbr-table.c\<close>): every table is a map from addresses to items over a shared pool, with the least used unlocked neighbour as victim;
    loops over a table are the contract \<open>table_walk\<close>. \<open>LinkStats\<close> (\<open>link-stats.c\<close>): the moving averages are exact and bounded.

  \<^bold>\<open>Kernel.\<close>
  \<^item> \<open>Process\<close>, \<open>ProcessProps\<close> (\<open>process.c\<close>): the ring of 32 events is a queue; the end of a process is announced to every other one. The functions
    that run threads call each other without a structural order and have fuel; the number of processes on the list is enough, as the
    theorem about the end of a process shows.
  \<^item> \<open>Etimer\<close>, \<open>EtimerProps\<close> (\<open>timer.c\<close>, \<open>etimer.c\<close>): the linked timers refine a list of pending timers; a poll announces every expired
    timer once, across the wrap-around of the 32-bit clock.
  \<^item> \<open>SerialLine\<close> (\<open>serial-line.c\<close>, \<open>ringbuf.c\<close>): in every interleaving of received bytes and rounds of the kernel in which the ring has room, the lines
    are announced once and in order. 128 rounds are enough to empty a ring of 128 bytes.

  \<^bold>\<open>MAC layer.\<close>
  \<^item> \<open>TschQueue\<close>, \<open>TschQueueInv\<close>, \<open>TschQueueProps\<close> (\<open>tsch-queue.c\<close>): \<open>q_wf\<close> is the invariant of the pools, rings and lists; the operations refine
    a map from addresses to queues of packets; the budget of a packet follows its time to live.
  \<^item> \<open>TschSchedule\<close>, \<open>TschScheduleProps\<close>, \<open>NextLink\<close> (\<open>tsch-schedule.c\<close>): \<open>sched_wf\<close> and \<open>asched\<close>, a map from handles to slotframes and from time
    slots to cells; the next active link is the one the standard prescribes.
  \<^item> \<open>Frame802154\<close>, \<open>FrameIE\<close>, \<open>FrameIEProps\<close>, \<open>TschPacket\<close>, \<open>TschPacketProps\<close> (\<open>frame802154.c\<close>, \<open>frame802154e-ie.c\<close>, \<open>framer-802154.c\<close>, \<open>tsch-packet.c\<close>): what one node
    writes the other one reads, and the parsers stay near the frame for any content.
  \<^item> \<open>Tsch\<close>, \<open>TschProps\<close>, \<open>TschProcess\<close>, \<open>TschProcessProps\<close> (\<open>tsch.c\<close>, \<open>mac-sequence.c\<close>): association by a beacon, the processes that scan and send beacons, a
    scanning node that hears a beacon ends up in operation.
  \<^item> \<open>TimeSync\<close> (\<open>tsch-adaptive-timesync.c\<close>): the compensation loses less than one tick over any sequence of waits.
  \<^item> \<open>SlotOperation\<close>, \<open>SlotProps\<close> (\<open>tsch-slot-operation.c\<close>): channel, packet and next slot; \<open>Exchange\<close> runs one slot at two nodes;
    \<open>SlotSafety\<close> and \<open>SlotInvariant\<close> show that no slot makes an invalid access, for any bytes on the air, and that this is an invariant of the
    step relation of slots, passing time and senders. A slot is one step: its waits are visible only through the answers of the driver.

  \<^bold>\<open>MASTER.\<close>
  \<^item> \<open>Cfs\<close> (\<open>cfs-cooja.c\<close>), \<open>MasterSchedule\<close>, \<open>MasterScheduleProps\<close>, \<open>ScheduleUpload\<close> (\<open>master-schedule.c\<close>): the file, the bit vectors (contracts
    \<open>byte_source\<close> and \<open>bit_array\<close>) and the parser of the schedule. \<open>SerialUpload\<close> composes them with the serial line.
  \<^item> \<open>MasterNet\<close>, \<open>MasterRouting\<close> (\<open>master-net.c\<close>, \<open>master-routing.c\<close>): the state machine. The layers call each other through callbacks, a failed packet is sent again
    from the callback of its first transmission; the nesting has a bound as an argument.
  \<^item> \<open>MasterRoutingProps\<close>: the schedule is spread without change in any order of its packets, and is installed only when all nodes have it.
    \<open>QueueReset\<close>, \<open>ScheduleInstall\<close>: the installation empties the queues and leaves exactly the slotframes and links that the file
    prescribes for the node. \<open>RoutingData\<close>: application data is sent in its slots, relayed and delivered once.

  \<^bold>\<open>Deviations that are proved.\<close> Where the code does not do what it means to, a lemma shows it: \<open>ttl_budget_truncated\<close>, \<open>remove_link_counter_wraps\<close>,
  \<open>backup_link_is_best\<close>, \<open>frame802154_anonymous_pan_mismatch\<close>, \<open>slotframe_element_read_past_end\<close>, \<open>element_creators_overflow\<close>,
  \<open>read_flash_after_close_fails\<close>, \<open>getMissingPacket_reads_past_end\<close>, \<open>etimer_set_outside_process_loops\<close>, \<open>hash_map_insert_zero\<close>,
  \<open>remembered_not_fresh\<close>, \<open>update_lladdr_leaks\<close>.

  \<^bold>\<open>Not modelled.\<close> Log output; link-layer security, the sixtop sublayer, Orchestra, RPL, IPv6 and the other MAC layers, which this build leaves out; the
  drivers of radios and hardware timers, whose answers are arguments; the file systems of other platforms; tests and tools. An interrupt
  between two statements of a process is modelled only where the code protects itself against it (the lock of TSCH, the ring of the
  serial line), not at every instruction. The processes of the MAC layer, of the serial line and of the timers are each verified against the kernel
  operations they call, not as one program.
\<close>

end
